(* ===== verification/Prelude.thy ===== *)
theory Prelude
  imports "HOL-Library.Word" "HOL-Library.Monad_Syntax"
begin

text \<open>
  What every component of the development shares: the machine integers of the C code, the
  checked memory accesses, C strings, little- and big-endian fields, and the interface
  locales that several components satisfy.

  Conventions. A C function that may touch memory out of bounds, or dereference a pointer it
  must not, is modelled with an outer \<open>option\<close>: \<open>None\<close> is undefined behaviour, so a theorem
  that a function returns \<open>Some\<close> says that the code is memory safe on that input. Status
  codes, NULL results and early returns are values inside the \<open>Some\<close>. Bytes are
  \<^typ>\<open>8 word\<close>, \<open>unsigned int\<close> and \<open>UINT32\<close> are \<^typ>\<open>32 word\<close>, \<open>UINT64\<close> and \<open>EFI_LBA\<close> are
  \<^typ>\<open>64 word\<close>; where an index cannot wrap within the code's own bounds it is a \<^typ>\<open>nat\<close>.
\<close>

unbundle bit_operations_syntax

section \<open>Machine types and theorem collections\<close>

type_synonym byte = "8 word"
type_synonym u16 = "16 word"
type_synonym u32 = "32 word"
type_synonym u64 = "64 word"

named_theorems mem_simps \<open>rules that evaluate the checked memory accesses\<close>
named_theorems endian_simps \<open>rules that evaluate multi-byte fields\<close>
named_theorems bytes_simps \<open>rules that evaluate string literals as bytes\<close>

section \<open>Status codes\<close>

datatype efi_status =
  EFI_SUCCESS | EFI_NOT_FOUND | EFI_MEDIA_CHANGED | EFI_NO_MEDIA | EFI_DEVICE_ERROR |
  EFI_INVALID_PARAMETER | EFI_BAD_BUFFER_SIZE | EFI_OUT_OF_RESOURCES | EFI_WRITE_PROTECTED |
  EFI_UNSUPPORTED | EFI_ALREADY_STARTED | EFI_TIMEOUT | EFI_NOT_READY | EFI_ACCESS_DENIED |
  EFI_NO_RESPONSE | EFI_BUFFER_TOO_SMALL

definition EFI_ERROR :: "efi_status \<Rightarrow> bool" where
  "EFI_ERROR s \<longleftrightarrow> s \<noteq> EFI_SUCCESS"

lemma EFI_ERROR_simps [simp]: "\<not> EFI_ERROR EFI_SUCCESS" "EFI_ERROR EFI_NOT_FOUND" "EFI_ERROR EFI_DEVICE_ERROR"
  "EFI_ERROR EFI_OUT_OF_RESOURCES"
  by (simp_all add: EFI_ERROR_def)

section \<open>Checked memory accesses\<close>

definition rd :: "'a list \<Rightarrow> nat \<Rightarrow> 'a option" where
  "rd m i = (if i < length m then Some (m ! i) else None)"

definition wr :: "'a list \<Rightarrow> nat \<Rightarrow> 'a \<Rightarrow> 'a list option" where
  "wr m i x = (if i < length m then Some (m[i := x]) else None)"

definition rd_range :: "'a list \<Rightarrow> nat \<Rightarrow> nat \<Rightarrow> 'a list option" where
  "rd_range m i n = (if i + n \<le> length m then Some (take n (drop i m)) else None)"

definition wr_range :: "'a list \<Rightarrow> nat \<Rightarrow> 'a list \<Rightarrow> 'a list option" where
  "wr_range m i xs =
     (if i + length xs \<le> length m
      then Some (take i m @ xs @ drop (i + length xs) m) else None)"

lemma rd_Some [mem_simps, simp]: "i < length m \<Longrightarrow> rd m i = Some (m ! i)"
  by (simp add: rd_def)

lemma rd_None [mem_simps, simp]: "length m \<le> i \<Longrightarrow> rd m i = None"
  by (simp add: rd_def)

lemma rd_eq_Some [mem_simps]: "rd m i = Some x \<longleftrightarrow> i < length m \<and> x = m ! i"
  by (auto simp: rd_def)

lemma wr_Some [mem_simps, simp]: "i < length m \<Longrightarrow> wr m i x = Some (m[i := x])"
  by (simp add: wr_def)

lemma wr_None [mem_simps, simp]: "length m \<le> i \<Longrightarrow> wr m i x = None"
  by (simp add: wr_def)

lemma wr_eq_Some [mem_simps]: "wr m i x = Some m' \<longleftrightarrow> i < length m \<and> m' = m[i := x]"
  by (auto simp: wr_def)

lemma rd_range_eq_Some [mem_simps]:
  "rd_range m i n = Some xs \<longleftrightarrow> i + n \<le> length m \<and> xs = take n (drop i m)"
  by (auto simp: rd_range_def)

lemma rd_range_length: "rd_range m i n = Some xs \<Longrightarrow> length xs = n"
  by (auto simp: rd_range_def split: if_splits)

lemma rd_range_append [mem_simps]:
  "i = length pre \<Longrightarrow> n = length xs \<Longrightarrow> rd_range (pre @ xs @ post) i n = Some xs"
  by (simp add: rd_range_def)

lemma wr_range_eq_Some [mem_simps]:
  "wr_range m i xs = Some m' \<longleftrightarrow>
     i + length xs \<le> length m \<and> m' = take i m @ xs @ drop (i + length xs) m"
  by (auto simp: wr_range_def)

lemma wr_range_length: "wr_range m i xs = Some m' \<Longrightarrow> length m' = length m"
  by (auto simp: wr_range_def split: if_splits)

lemma rd_range_wr_range_same:
  "wr_range m i xs = Some m' \<Longrightarrow> rd_range m' i (length xs) = Some xs"
  by (auto simp: wr_range_def rd_range_def min_def split: if_splits)

section \<open>String literals and C strings\<close>

definition lit :: "string \<Rightarrow> byte list" where
  "lit s = map of_char s"

lemma lit_Nil [bytes_simps, simp]: "lit [] = []"
  by (simp add: lit_def)

lemma lit_Cons [bytes_simps]: "lit (c # s) = of_char c # lit s"
  by (simp add: lit_def)

lemma lit_append: "lit (s @ t) = lit s @ lit t"
  by (simp add: lit_def)

lemma length_lit [simp]: "length (lit s) = length s"
  by (simp add: lit_def)

text \<open>\<open>cstr m i\<close> is the NUL-terminated string that starts at offset \<open>i\<close>; reading on past the
  end of the object without meeting the NUL is undefined.\<close>

definition cstr :: "byte list \<Rightarrow> nat \<Rightarrow> byte list option" where
  "cstr m i = (if 0 \<in> set (drop i m) then Some (takeWhile (\<lambda>c. c \<noteq> 0) (drop i m)) else None)"

lemma takeWhile_no_stop: "x \<notin> set xs \<Longrightarrow> takeWhile (\<lambda>c. c \<noteq> x) (xs @ x # ys) = xs"
  by (induction xs) auto

lemma cstr_append [mem_simps]:
  "i = length pre \<Longrightarrow> 0 \<notin> set s \<Longrightarrow> cstr (pre @ s @ 0 # post) i = Some s"
  by (simp add: cstr_def takeWhile_no_stop)

lemma cstr_no_nul: "cstr m i = Some s \<Longrightarrow> 0 \<notin> set s"
  by (auto simp: cstr_def dest: set_takeWhileD split: if_splits)

section \<open>Multi-byte fields\<close>

definition le_value :: "byte list \<Rightarrow> nat" where
  "le_value xs = foldr (\<lambda>b v. unat b + 256 * v) xs 0"

definition le16 :: "byte list \<Rightarrow> nat \<Rightarrow> u16 option" where
  "le16 m i = map_option (\<lambda>xs. of_nat (le_value xs)) (rd_range m i 2)"

definition le32 :: "byte list \<Rightarrow> nat \<Rightarrow> u32 option" where
  "le32 m i = map_option (\<lambda>xs. of_nat (le_value xs)) (rd_range m i 4)"

definition le64 :: "byte list \<Rightarrow> nat \<Rightarrow> u64 option" where
  "le64 m i = map_option (\<lambda>xs. of_nat (le_value xs)) (rd_range m i 8)"

text \<open>Big-endian fields.\<close>

definition be16 :: "byte list \<Rightarrow> nat \<Rightarrow> u16 option" where
  "be16 m i = map_option (\<lambda>xs. of_nat (le_value (rev xs))) (rd_range m i 2)"

definition be32 :: "byte list \<Rightarrow> nat \<Rightarrow> u32 option" where
  "be32 m i = map_option (\<lambda>xs. of_nat (le_value (rev xs))) (rd_range m i 4)"

definition be64 :: "byte list \<Rightarrow> nat \<Rightarrow> u64 option" where
  "be64 m i = map_option (\<lambda>xs. of_nat (le_value (rev xs))) (rd_range m i 8)"

definition to_le :: "nat \<Rightarrow> 'a::len word \<Rightarrow> byte list" where
  "to_le n w = map (\<lambda>k. ucast (drop_bit (8 * k) w)) [0..<n]"

lemma length_to_le [simp]: "length (to_le n w) = n"
  by (simp add: to_le_def)

definition to_be :: "nat \<Rightarrow> 'a::len word \<Rightarrow> byte list" where
  "to_be n w = rev (to_le n w)"

lemma length_to_be [simp]: "length (to_be n w) = n"
  by (simp add: to_be_def)

lemma le_value_Nil [endian_simps, simp]: "le_value [] = 0"
  by (simp add: le_value_def)

lemma le_value_Cons [endian_simps]: "le_value (b # xs) = unat b + 256 * le_value xs"
  by (simp add: le_value_def)

lemma le_value_bound: "le_value xs < 256 ^ length xs"
proof (induction xs)
  case Nil
  then show ?case by simp
next
  case (Cons b xs)
  have "unat b < 256"
    using unsigned_less [of b] by simp
  with Cons show ?case
    by (simp add: le_value_Cons)
qed

section \<open>Words and short lists\<close>

lemma byte_eqI:
  fixes x y :: byte
  assumes "bit x 0 = bit y 0" "bit x 1 = bit y 1" "bit x 2 = bit y 2" "bit x 3 = bit y 3"
    "bit x 4 = bit y 4" "bit x 5 = bit y 5" "bit x 6 = bit y 6" "bit x 7 = bit y 7"
  shows "x = y"
proof (rule bit_word_eqI)
  fix n
  assume "n < LENGTH(8)"
  then have "n = 0 \<or> n = 1 \<or> n = 2 \<or> n = 3 \<or> n = 4 \<or> n = 5 \<or> n = 6 \<or> n = 7"
    by auto
  then show "bit x n = bit y n"
    using assms by auto
qed

lemma sint_small:
  assumes "unat (v :: 'a::len word) < 2 ^ (LENGTH('a) - 1)"
  shows "sint v = int (unat v)"
proof -
  have "uint v < 2 ^ (LENGTH('a) - 1)"
    using assms by (metis of_nat_less_iff of_nat_numeral of_nat_power uint_nat)
  moreover have "- (2 ^ (LENGTH('a) - 1)) \<le> uint v"
    by (rule order_trans [OF _ uint_ge_0]) simp
  ultimately have "sint v = uint v"
    unfolding sint_uint by (intro signed_take_bit_int_eq_self) simp_all
  then show ?thesis by simp
qed

lemma word_unat_lt: "unat (w :: 'a::len word) < 2 ^ LENGTH('a)"
  by (rule unsigned_less)

lemma unat_small: "n < 2 ^ 32 \<Longrightarrow> unat (of_nat n :: u32) = n"
  by (simp add: unat_of_nat take_bit_nat_eq_self)

lemma ge4: "4 \<le> length rest \<Longrightarrow> \<exists>w x y z r. rest = w # x # y # z # r"
  by (cases rest; cases "tl rest"; cases "tl (tl rest)"; cases "tl (tl (tl rest))") auto

lemma ge3: "3 \<le> length rest \<Longrightarrow> \<exists>x y z r. rest = x # y # z # r"
  by (cases rest; cases "tl rest"; cases "tl (tl rest)") auto

lemma ge2: "2 \<le> length rest \<Longrightarrow> \<exists>x y r. rest = x # y # r"
  by (cases rest; cases "tl rest") auto

section \<open>Writing and reading fields\<close>

lemma to_le_Suc: "to_le (Suc n) w = ucast w # to_le n (drop_bit 8 w)"
proof -
  have "[0..<Suc n] = 0 # map Suc [0..<n]"
    by (simp add: upt_conv_Cons map_Suc_upt del: upt_Suc)
  then show ?thesis
    by (simp add: to_le_def comp_def drop_bit_drop_bit del: upt_Suc) (simp add: add.commute)
qed

lemma le_value_to_le:
  fixes w :: "'a::len word"
  shows "le_value (to_le n w) = unat w mod 256 ^ n"
proof (induction n arbitrary: w)
  case 0
  then show ?case by (simp add: to_le_def)
next
  case (Suc n)
  have d: "unat (drop_bit 8 w) = unat w div 256"
  proof -
    have "unat (drop_bit 8 w) = drop_bit 8 (unat w)"
      by (subst unsigned_drop_bit_eq) (simp only: take_bit_nat_eq_self [OF word_unat_lt])
    then show ?thesis
      by (simp only: drop_bit_eq_div) simp
  qed
  have u: "unat (ucast w :: byte) = unat w mod 256"
    by (simp add: unsigned_ucast_eq take_bit_eq_mod)
  have "le_value (to_le (Suc n) w) = unat w mod 256 + 256 * (unat w div 256 mod 256 ^ n)"
    by (simp add: to_le_Suc le_value_Cons u Suc.IH d)
  then show ?case
    by (simp add: mod_mult2_eq)
qed

lemma le_value_to_le4 [endian_simps]: "le_value (to_le 4 (w :: u32)) = unat w"
  using word_unat_lt [of w] by (simp add: le_value_to_le)

lemma le_value_to_le8 [endian_simps]: "le_value (to_le 8 (w :: u64)) = unat w"
  using word_unat_lt [of w] by (simp add: le_value_to_le)

lemma le32_append [endian_simps]: "i = length pre \<Longrightarrow> le32 (pre @ to_le 4 w @ post) i = Some w"
  by (simp add: le32_def rd_range_append le_value_to_le4)

lemma le64_append [endian_simps]: "i = length pre \<Longrightarrow> le64 (pre @ to_le 8 w @ post) i = Some w"
  by (simp add: le64_def rd_range_append le_value_to_le8)

lemma be32_append [endian_simps]: "i = length pre \<Longrightarrow> be32 (pre @ to_be 4 w @ post) i = Some w"
  by (simp add: be32_def to_be_def rd_range_append le_value_to_le4)

lemma be64_append [endian_simps]: "i = length pre \<Longrightarrow> be64 (pre @ to_be 8 w @ post) i = Some w"
  by (simp add: be64_def to_be_def rd_range_append le_value_to_le8)

lemma be16_append [endian_simps]: "i = length pre \<Longrightarrow> be16 (pre @ to_be 2 (w :: u16) @ post) i = Some w"
  using word_unat_lt [of w] by (simp add: be16_def to_be_def rd_range_append le_value_to_le)

lemma rd_append [endian_simps]: "i = length pre \<Longrightarrow> rd (pre @ x # post) i = Some x"
  by simp

lemma rd_range_skip: "length xs \<le> i \<Longrightarrow> rd_range (xs @ ys) i n = rd_range ys (i - length xs) n"
  by (auto simp: rd_range_def)

lemma rd_range_here: "n = length xs \<Longrightarrow> rd_range (xs @ ys) 0 n = Some xs"
  by (simp add: rd_range_def)

lemma le32_skip: "length xs \<le> i \<Longrightarrow> le32 (xs @ ys) i = le32 ys (i - length xs)"
  by (simp add: le32_def rd_range_skip)

lemma le64_skip: "length xs \<le> i \<Longrightarrow> le64 (xs @ ys) i = le64 ys (i - length xs)"
  by (simp add: le64_def rd_range_skip)

lemma le32_here: "le32 (to_le 4 w @ ys) 0 = Some w"
  using le32_append [of 0 "[]" w ys] by simp

lemma le64_here: "le64 (to_le 8 w @ ys) 0 = Some w"
  using le64_append [of 0 "[]" w ys] by simp

lemmas field_simps_le = rd_range_skip rd_range_here le32_skip le64_skip le32_here le64_here

lemma wr_range_here: "length xs = length ys \<Longrightarrow> wr_range (pre @ xs @ post) (length pre) ys = Some (pre @ ys @ post)"
  by (simp add: wr_range_def)

lemma le_value_zeros: "le_value (replicate n 0) = 0"
  by (induction n) (simp_all add: le_value_Cons)

lemma le64_zeros: "i + 8 \<le> n \<Longrightarrow> le64 (replicate n 0) i = Some 0"
  by (simp add: le64_def rd_range_def le_value_zeros)

section \<open>Interfaces\<close>

text \<open>
  A codec: what is encoded is read back. The base64 coder, the flattened device tree and the
  property-list serialiser are codecs in this sense.
\<close>

locale codec =
  fixes enc :: "'a \<Rightarrow> 'b"
    and dec :: "'b \<Rightarrow> 'a option"
    and valid :: "'a \<Rightarrow> bool"
  assumes dec_enc: "valid x \<Longrightarrow> dec (enc x) = Some x"
begin

lemma enc_inject: "valid x \<Longrightarrow> valid y \<Longrightarrow> enc x = enc y \<longleftrightarrow> x = y"
  by (metis dec_enc option.inject)

lemma dec_not_None: "valid x \<Longrightarrow> dec (enc x) \<noteq> None"
  by (simp add: dec_enc)

end

end
