(* ===== verification/Base64.thy ===== *)
theory Base64
  imports Prelude
begin

text \<open>
  The base64 coder of the property-list library: \<^verbatim>\<open>Library/PListLib/b64/cdecode.c\<close>,
  \<^verbatim>\<open>cencode.c\<close> (state machines that can be resumed between blocks) and their wrappers
  \<^verbatim>\<open>_plb64encode\<close>, \<^verbatim>\<open>_plb64decode\<close> of \<^verbatim>\<open>plist_helpers_edk2.c\<close>. The output buffer is an
  explicit byte list of the allocated size, and every store into it is checked, so a result
  other than \<open>None\<close> says the code stays inside the buffer.
\<close>

section \<open>Decoder\<close>

datatype base64_decodestep = step_a | step_b | step_c | step_d

record base64_decodestate =
  dstep :: base64_decodestep
  dplainchar :: byte

definition decoding :: "int list" where
  "decoding = [62,-1,-1,-1,63,52,53,54,55,56,57,58,59,60,61,-1,-1,-1,-2,-1,-1,-1,
     0,1,2,3,4,5,6,7,8,9,10,11,12,13,14,15,16,17,18,19,20,21,22,23,24,25,-1,-1,-1,-1,-1,-1,
     26,27,28,29,30,31,32,33,34,35,36,37,38,39,40,41,42,43,44,45,46,47,48,49,50,51]"

text \<open>
  The subtraction wraps in the (signed) \<open>char\<close>, and the bound check lets the index
  \<open>decoding_size\<close> itself through, one past the end of the table.
\<close>

definition base64_decode_value :: "byte \<Rightarrow> int option" where
  "base64_decode_value value_in =
     (let v = sint (value_in - 43) in
      if v < 0 \<or> v > int (length decoding) then Some (-1)
      else rd decoding (nat v))"

definition base64_init_decodestate :: base64_decodestate where
  "base64_init_decodestate = \<lparr>dstep = step_a, dplainchar = 0\<rparr>"

text \<open>
  The body of the decoder between two reads of the input: one character in state \<open>st\<close>, the
  output buffer \<open>out\<close> and the write position \<open>n\<close>. A fragment that is negative as a
  \<open>char\<close> is skipped.
\<close>

fun b64_decode_char ::
  "base64_decodestep \<Rightarrow> byte \<Rightarrow> byte list \<Rightarrow> nat \<Rightarrow> (base64_decodestep \<times> byte list \<times> nat) option"
where
  "b64_decode_char st c out n =
     do {
       v \<leftarrow> base64_decode_value c;
       let fragment = (word_of_int v :: byte);
       if sint fragment < 0 then Some (st, out, n)
       else
         (case st of
            step_a \<Rightarrow> do {
              out \<leftarrow> wr out n (push_bit 2 (fragment AND 0x03f));
              Some (step_b, out, n) }
          | step_b \<Rightarrow> do {
              x \<leftarrow> rd out n;
              out \<leftarrow> wr out n (x OR drop_bit 4 (fragment AND 0x030));
              out \<leftarrow> wr out (n + 1) (push_bit 4 (fragment AND 0x00f));
              Some (step_c, out, n + 1) }
          | step_c \<Rightarrow> do {
              x \<leftarrow> rd out n;
              out \<leftarrow> wr out n (x OR drop_bit 2 (fragment AND 0x03c));
              out \<leftarrow> wr out (n + 1) (push_bit 6 (fragment AND 0x003));
              Some (step_d, out, n + 1) }
          | step_d \<Rightarrow> do {
              x \<leftarrow> rd out n;
              out \<leftarrow> wr out n (x OR (fragment AND 0x03f));
              Some (step_a, out, n + 1) })
     }"

fun b64_decode_loop ::
  "base64_decodestep \<Rightarrow> byte list \<Rightarrow> byte list \<Rightarrow> nat \<Rightarrow> (base64_decodestep \<times> byte list \<times> nat) option"
where
  "b64_decode_loop st [] out n = Some (st, out, n)"
| "b64_decode_loop st (c # cs) out n =
     do { (st, out, n) \<leftarrow> b64_decode_char st c out n; b64_decode_loop st cs out n }"

definition base64_decode_block ::
  "byte list \<Rightarrow> byte list \<Rightarrow> base64_decodestate \<Rightarrow> (byte list \<times> nat \<times> base64_decodestate) option"
where
  "base64_decode_block code_in plaintext_out state_in =
     do {
       out \<leftarrow> wr plaintext_out 0 (dplainchar state_in);
       (st, out, n) \<leftarrow> b64_decode_loop (dstep state_in) code_in out 0;
       p \<leftarrow> rd out n;
       Some (out, n, \<lparr>dstep = st, dplainchar = p\<rparr>)
     }"

section \<open>Encoder\<close>

datatype base64_encodestep = step_A | step_B | step_C

record base64_encodestate =
  estep :: base64_encodestep
  eresult :: byte
  estepcount :: u32

definition encoding :: "byte list" where
  "encoding = lit ''ABCDEFGHIJKLMNOPQRSTUVWXYZabcdefghijklmnopqrstuvwxyz0123456789+/''"

definition base64_encode_value :: "byte \<Rightarrow> byte option" where
  "base64_encode_value value_in =
     (if sint value_in > 63 then Some (of_char (CHR ''=''))
      else if sint value_in < 0 then None
      else rd encoding (nat (sint value_in)))"

definition base64_init_encodestate :: base64_encodestate where
  "base64_init_encodestate = \<lparr>estep = step_A, eresult = 0, estepcount = 0\<rparr>"

text \<open>One input character; \<open>n\<close> is \<open>codechar - code_out\<close>.\<close>

fun b64_encode_char ::
  "base64_encodestate \<Rightarrow> byte \<Rightarrow> byte list \<Rightarrow> nat \<Rightarrow> (base64_encodestate \<times> byte list \<times> nat) option"
where
  "b64_encode_char s fragment out n =
     (case estep s of
        step_A \<Rightarrow> do {
          e \<leftarrow> base64_encode_value (drop_bit 2 (fragment AND 0x0fc));
          out \<leftarrow> wr out n e;
          Some (s\<lparr>estep := step_B, eresult := push_bit 4 (fragment AND 0x003)\<rparr>, out, n + 1) }
      | step_B \<Rightarrow> do {
          e \<leftarrow> base64_encode_value (eresult s OR drop_bit 4 (fragment AND 0x0f0));
          out \<leftarrow> wr out n e;
          Some (s\<lparr>estep := step_C, eresult := push_bit 2 (fragment AND 0x00f)\<rparr>, out, n + 1) }
      | step_C \<Rightarrow> do {
          e \<leftarrow> base64_encode_value (eresult s OR drop_bit 6 (fragment AND 0x0c0));
          out \<leftarrow> wr out n e;
          let r = fragment AND 0x03f;
          e \<leftarrow> base64_encode_value r;
          out \<leftarrow> wr out (n + 1) e;
          Some (\<lparr>estep = step_A, eresult = r, estepcount = estepcount s + 1\<rparr>, out, n + 2) })"

fun base64_encode_block ::
  "byte list \<Rightarrow> byte list \<Rightarrow> nat \<Rightarrow> base64_encodestate \<Rightarrow> (byte list \<times> nat \<times> base64_encodestate) option"
where
  "base64_encode_block [] out n s = Some (out, n, s)"
| "base64_encode_block (c # cs) out n s =
     do { (s, out, n) \<leftarrow> b64_encode_char s c out n; base64_encode_block cs out n s }"

definition base64_encode_blockend ::
  "byte list \<Rightarrow> nat \<Rightarrow> base64_encodestate \<Rightarrow> (byte list \<times> nat) option"
where
  "base64_encode_blockend out n s =
     (case estep s of
        step_B \<Rightarrow> do {
          e \<leftarrow> base64_encode_value (eresult s);
          out \<leftarrow> wr out n e;
          out \<leftarrow> wr out (n + 1) (of_char (CHR ''=''));
          out \<leftarrow> wr out (n + 2) (of_char (CHR ''=''));
          Some (out, n + 3) }
      | step_C \<Rightarrow> do {
          e \<leftarrow> base64_encode_value (eresult s);
          out \<leftarrow> wr out n e;
          out \<leftarrow> wr out (n + 1) (of_char (CHR ''=''));
          Some (out, n + 2) }
      | step_A \<Rightarrow> Some (out, n))"

section \<open>The wrappers of the property-list library\<close>

text \<open>
  \<open>_plzalloc\<close>: zero-filled memory of the given size, or NULL. Whether the pool allocator of
  the firmware can serve a size is the parameter \<open>pool\<close>. The result of the coders is
  \<open>None\<close> for NULL, otherwise the buffer and the length stored through \<open>olen\<close>.
\<close>

definition plzalloc :: "(nat \<Rightarrow> bool) \<Rightarrow> u32 \<Rightarrow> byte list option" where
  "plzalloc pool sz = (if sz = 0 then None else if pool (unat sz) then Some (replicate (unat sz) 0) else None)"

text \<open>
  The coders take the length as an \<open>int\<close>: a length of \<open>2 ^ 31\<close> or more is negative there, the
  end pointer lies before the input and is never met.
\<close>

definition rd_block :: "byte list \<Rightarrow> u32 \<Rightarrow> byte list option" where
  "rd_block idat ilen = (if sint ilen < 0 then None else rd_range idat 0 (unat ilen))"

definition b64_osiz :: "u32 \<Rightarrow> u32" where
  "b64_osiz ilen = (((ilen + 2) div 3) + 1) * 4"

definition plb64encode :: "(nat \<Rightarrow> bool) \<Rightarrow> byte list \<Rightarrow> u32 \<Rightarrow> (byte list \<times> u32) option option" where
  "plb64encode pool idat ilen =
     (if ilen = 0 then Some None
      else case plzalloc pool (b64_osiz ilen) of
        None \<Rightarrow> Some None
      | Some odat \<Rightarrow> do {
          inp \<leftarrow> rd_block idat ilen;
          (odat, csiz, st) \<leftarrow> base64_encode_block inp odat 0 base64_init_encodestate;
          (odat, total) \<leftarrow> base64_encode_blockend odat csiz st;
          Some (Some (odat, of_nat total)) })"

definition plb64decode :: "(nat \<Rightarrow> bool) \<Rightarrow> byte list \<Rightarrow> u32 \<Rightarrow> (byte list \<times> u32) option option" where
  "plb64decode pool idat ilen =
     (if ilen = 0 then Some None
      else case plzalloc pool ilen of
        None \<Rightarrow> Some None
      | Some odat \<Rightarrow> do {
          inp \<leftarrow> rd_block idat ilen;
          (odat, binsz, st) \<leftarrow> base64_decode_block inp odat base64_init_decodestate;
          Some (Some (odat, of_nat binsz)) })"

section \<open>Reference coder\<close>

definition b64_char :: "byte \<Rightarrow> byte" where
  "b64_char v = encoding ! unat v"

definition sext0 :: "byte \<Rightarrow> byte" where
  "sext0 a = drop_bit 2 (a AND 0x0fc)"
definition sext1 :: "byte \<Rightarrow> byte \<Rightarrow> byte" where
  "sext1 a b = push_bit 4 (a AND 0x003) OR drop_bit 4 (b AND 0x0f0)"
definition sext2 :: "byte \<Rightarrow> byte \<Rightarrow> byte" where
  "sext2 b c = push_bit 2 (b AND 0x00f) OR drop_bit 6 (c AND 0x0c0)"
definition sext3 :: "byte \<Rightarrow> byte" where
  "sext3 c = c AND 0x03f"

fun b64_spec :: "byte list \<Rightarrow> byte list" where
  "b64_spec [] = []"
| "b64_spec [a] = [b64_char (sext0 a), b64_char (push_bit 4 (a AND 0x003)), 61, 61]"
| "b64_spec [a, b] = [b64_char (sext0 a), b64_char (sext1 a b), b64_char (push_bit 2 (b AND 0x00f)), 61]"
| "b64_spec (a # b # c # xs) =
     b64_char (sext0 a) # b64_char (sext1 a b) # b64_char (sext2 b c) # b64_char (sext3 c) # b64_spec xs"

lemma length_b64_spec: "length (b64_spec d) = 4 * ((length d + 2) div 3)"
proof (induction d rule: b64_spec.induct)
  case (4 a b c xs)
  have "(length (a # b # c # xs) + 2) div 3 = Suc ((length xs + 2) div 3)"
    by (simp add: div_if)
  with 4 show ?case by simp
qed auto

lemma sextet_bound: "x AND 63 = (x :: byte) \<Longrightarrow> unat x < 64"
proof -
  assume "x AND 63 = x"
  then have "x \<le> 63"
    by (metis word_and_le1)
  then show ?thesis
    by (simp add: word_le_nat_alt)
qed

lemma sextets_masked:
  "sext0 a AND 63 = sext0 a" "sext1 a b AND 63 = sext1 a b"
  "sext2 b c AND 63 = sext2 b c" "sext3 c AND 63 = sext3 c"
  "push_bit 4 (a AND 3) AND 63 = push_bit 4 (a AND (3 :: byte))"
  "push_bit 2 (a AND 15) AND 63 = push_bit 2 (a AND (15 :: byte))"
  by (rule byte_eqI; simp add: sext0_def sext1_def sext2_def sext3_def bit_simps)+

lemmas sextets_bound = sextets_masked [THEN sextet_bound]

lemma sextets_rebuild:
  "push_bit 2 (sext0 a AND 0x3f) OR drop_bit 4 (sext1 a b AND 0x30) = a"
  "push_bit 4 (sext1 a b AND 0x0f) OR drop_bit 2 (sext2 b c AND 0x3c) = b"
  "push_bit 6 (sext2 b c AND 0x03) OR (sext3 c AND 0x3f) = c"
  "push_bit 2 (sext0 a AND 0x3f) OR drop_bit 4 (push_bit 4 (a AND 3) AND 0x30) = a"
  "push_bit 4 (sext1 a b AND 0x0f) OR drop_bit 2 (push_bit 2 (b AND 0x0f) AND 0x3c) = b"
  by (rule byte_eqI; auto simp: sext0_def sext1_def sext2_def sext3_def bit_simps)+

lemma length_encoding [simp]: "length encoding = 64"
  by (simp add: encoding_def)

lemma length_decoding [simp]: "length decoding = 80"
  by (simp add: decoding_def)

lemma sint_byte_small: "unat (v :: byte) < 128 \<Longrightarrow> sint v = int (unat v)"
  by (rule sint_small) simp

lemma base64_encode_value_sextet:
  assumes "unat v < 64"
  shows "base64_encode_value v = Some (b64_char v)"
proof -
  have sv: "sint v = int (unat v)"
    using assms by (intro sint_byte_small) simp
  have bounds: "\<not> 63 < int (unat v)" "\<not> int (unat v) < 0"
    using assms by linarith+
  show ?thesis
    unfolding base64_encode_value_def sv b64_char_def
    using bounds assms by (simp only: if_False nat_int rd_Some length_encoding)
qed

lemma decode_encode_table:
  "\<forall>k \<in> set [0..<64]. base64_decode_value (encoding ! k) = Some (int k)"
  by code_simp

lemma base64_decode_value_char:
  assumes "unat v < 64"
  shows "base64_decode_value (b64_char v) = Some (int (unat v))"
  using decode_encode_table assms by (simp add: b64_char_def)

lemma base64_decode_value_pad: "base64_decode_value 61 = Some (-2)"
  by code_simp

section \<open>The encoder against the reference\<close>

lemmas encode_sextets =
  base64_encode_value_sextet [OF sextets_bound(1), unfolded sext0_def, simplified]
  base64_encode_value_sextet [OF sextets_bound(2), unfolded sext1_def, simplified]
  base64_encode_value_sextet [OF sextets_bound(3), unfolded sext2_def, simplified]
  base64_encode_value_sextet [OF sextets_bound(4), unfolded sext3_def, simplified]
  base64_encode_value_sextet [OF sextets_bound(5), simplified]
  base64_encode_value_sextet [OF sextets_bound(6), simplified]

lemmas sextet_defs = sext0_def sext1_def sext2_def sext3_def

lemma encode_spec_general:
  assumes "length (b64_spec d) \<le> length rest" "estep s = step_A" "n = length pre"
  shows "do { (out, m, s) \<leftarrow> base64_encode_block d (pre @ rest) n s; base64_encode_blockend out m s }
       = Some (pre @ b64_spec d @ drop (length (b64_spec d)) rest, n + length (b64_spec d))"
  using assms
proof (induction d arbitrary: pre rest s n rule: b64_spec.induct)
  case 1
  then show ?case by (simp add: base64_encode_blockend_def)
next
  case (2 a)
  then obtain w x y z r where "rest = w # x # y # z # r"
    using ge4 [of rest] by auto
  with 2 show ?case
    by (simp add: base64_encode_blockend_def encode_sextets sextet_defs list_update_append)
next
  case (3 a b)
  then obtain w x y z r where "rest = w # x # y # z # r"
    using ge4 [of rest] by auto
  with 3 show ?case
    by (simp add: base64_encode_blockend_def encode_sextets sextet_defs list_update_append)
next
  case (4 a b c xs)
  from 4(2) obtain w x y z r where r: "rest = w # x # y # z # r"
    using ge4 [of rest] by auto
  show ?case
    using "4.IH" [of r _ _ "pre @ [b64_char (sext0 a), b64_char (sext1 a b), b64_char (sext2 b c), b64_char (sext3 c)]"] "4.prems" r
    by (simp add: encode_sextets sextet_defs list_update_append Let_def)
qed

section \<open>The decoder\<close>

lemma decode_char_sextet:
  assumes "unat v < 64"
  shows "b64_decode_char st (b64_char v) out n =
     (case st of
        step_a \<Rightarrow> do { out \<leftarrow> wr out n (push_bit 2 (v AND 0x03f)); Some (step_b, out, n) }
      | step_b \<Rightarrow> do {
          x \<leftarrow> rd out n;
          out \<leftarrow> wr out n (x OR drop_bit 4 (v AND 0x030));
          out \<leftarrow> wr out (n + 1) (push_bit 4 (v AND 0x00f));
          Some (step_c, out, n + 1) }
      | step_c \<Rightarrow> do {
          x \<leftarrow> rd out n;
          out \<leftarrow> wr out n (x OR drop_bit 2 (v AND 0x03c));
          out \<leftarrow> wr out (n + 1) (push_bit 6 (v AND 0x003));
          Some (step_d, out, n + 1) }
      | step_d \<Rightarrow> do {
          x \<leftarrow> rd out n;
          out \<leftarrow> wr out n (x OR (v AND 0x03f));
          Some (step_a, out, n + 1) })"
proof -
  have w: "(word_of_int (int (unat v)) :: byte) = v"
    by simp
  have s: "\<not> sint v < 0"
    using assms by (simp add: sint_byte_small)
  show ?thesis
    unfolding b64_decode_char.simps base64_decode_value_char [OF assms] Let_def bind.bind_lunit w
    using s by (simp only: if_False)
qed

lemma decode_char_pad: "b64_decode_char st 61 out n = Some (st, out, n)"
  by (simp add: base64_decode_value_pad)

lemma decode_group:
  assumes "unat v0 < 64" "unat v1 < 64" "unat v2 < 64" "unat v3 < 64" "3 \<le> length rest" "n = length pre"
  shows "b64_decode_loop step_a (b64_char v0 # b64_char v1 # b64_char v2 # b64_char v3 # cs) (pre @ rest) n
    = b64_decode_loop step_a cs
        (pre @ [push_bit 2 (v0 AND 0x3f) OR drop_bit 4 (v1 AND 0x30),
                push_bit 4 (v1 AND 0x0f) OR drop_bit 2 (v2 AND 0x3c),
                push_bit 6 (v2 AND 0x03) OR (v3 AND 0x3f)] @ drop 3 rest) (n + 3)"
proof -
  obtain x y z r where "rest = x # y # z # r"
    using ge3 [OF assms(5)] by blast
  with assms show ?thesis
    by (simp add: decode_char_sextet list_update_append nth_append numeral_3_eq_3 del: b64_decode_char.simps)
qed

lemma decode_group2:
  assumes "unat v0 < 64" "unat v1 < 64" "2 \<le> length rest" "n = length pre"
  shows "b64_decode_loop step_a [b64_char v0, b64_char v1, 61, 61] (pre @ rest) n
    = Some (step_c, pre @ [push_bit 2 (v0 AND 0x3f) OR drop_bit 4 (v1 AND 0x30),
                push_bit 4 (v1 AND 0x0f)] @ drop 2 rest, n + 1)"
proof -
  obtain x y r where "rest = x # y # r"
    using ge2 [OF assms(3)] by blast
  with assms show ?thesis
    by (simp add: decode_char_sextet decode_char_pad list_update_append nth_append del: b64_decode_char.simps)
qed

lemma decode_group3:
  assumes "unat v0 < 64" "unat v1 < 64" "unat v2 < 64" "3 \<le> length rest" "n = length pre"
  shows "b64_decode_loop step_a [b64_char v0, b64_char v1, b64_char v2, 61] (pre @ rest) n
    = Some (step_d, pre @ [push_bit 2 (v0 AND 0x3f) OR drop_bit 4 (v1 AND 0x30),
                push_bit 4 (v1 AND 0x0f) OR drop_bit 2 (v2 AND 0x3c),
                push_bit 6 (v2 AND 0x03)] @ drop 3 rest, n + 2)"
proof -
  obtain x y z r where "rest = x # y # z # r"
    using ge3 [OF assms(4)] by blast
  with assms show ?thesis
    by (simp add: decode_char_sextet decode_char_pad list_update_append nth_append del: b64_decode_char.simps)
qed

lemma decode_spec_general:
  assumes "length (b64_spec d) \<le> length rest" "n = length pre"
  shows "\<exists>st post. b64_decode_loop step_a (b64_spec d) (pre @ rest) n = Some (st, pre @ d @ post, n + length d)
           \<and> length (d @ post) = length rest"
  using assms
proof (induction d arbitrary: pre rest n rule: b64_spec.induct)
  case 1
  then show ?case by simp
next
  case (2 a)
  have "2 \<le> length rest" using 2 by simp
  then show ?case
    using 2 sextets_rebuild(4) [of a]
    by (simp only: b64_spec.simps decode_group2 [OF sextets_bound(1) sextets_bound(5)]) auto
next
  case (3 a b)
  have "3 \<le> length rest" using 3 by simp
  then show ?case
    using 3 sextets_rebuild(1) [of a b] sextets_rebuild(5) [of a b]
    by (simp only: b64_spec.simps decode_group3 [OF sextets_bound(1) sextets_bound(2) sextets_bound(6)]) auto
next
  case (4 a b c xs)
  have r: "3 \<le> length rest" using 4 by simp
  have step: "b64_decode_loop step_a (b64_spec (a # b # c # xs)) (pre @ rest) n =
      b64_decode_loop step_a (b64_spec xs) ((pre @ [a, b, c]) @ drop 3 rest) (n + 3)"
    using 4(3) r
    by (simp only: b64_spec.simps decode_group [OF sextets_bound(1-4)] sextets_rebuild append_assoc)
  have "length (b64_spec xs) \<le> length (drop 3 rest)"
    using 4(2) by simp
  then obtain st post where
    "b64_decode_loop step_a (b64_spec xs) ((pre @ [a, b, c]) @ drop 3 rest) (n + 3) =
        Some (st, (pre @ [a, b, c]) @ xs @ post, n + 3 + length xs)"
    "length (xs @ post) = length (drop 3 rest)"
    using "4.IH" [of "drop 3 rest" "n + 3" "pre @ [a, b, c]"] 4(3) by auto
  then show ?case
    unfolding step using r by auto
qed

text \<open>The decoder only touches the buffer from its write position on.\<close>

lemma wr_shift: "wr (pre @ out) (length pre + n) x = map_option ((@) pre) (wr out n x)"
  by (auto simp: wr_def list_update_append)

lemma rd_shift: "rd (pre @ out) (length pre + n) = rd out n"
  by (auto simp: rd_def nth_append)

lemma decode_char_shift:
  "b64_decode_char st c (pre @ out) (length pre + n) =
     map_option (\<lambda>(st, out, n). (st, pre @ out, length pre + n)) (b64_decode_char st c out n)"
  by (auto simp: wr_shift rd_shift Let_def add.assoc [symmetric] wr_shift [of _ _ "n + 1", simplified]
      split: base64_decodestep.splits option.splits bind_splits)

lemma decode_loop_shift:
  "b64_decode_loop st cs (pre @ out) (length pre + n) =
     map_option (\<lambda>(st, out, n). (st, pre @ out, length pre + n)) (b64_decode_loop st cs out n)"
  by (induction st cs out n rule: b64_decode_loop.induct)
    (auto simp: decode_char_shift split: bind_splits option.splits simp del: b64_decode_char.simps)

lemma decode_loop_append:
  "b64_decode_loop st (xs @ ys) out n =
     do { (st, out, n) \<leftarrow> b64_decode_loop st xs out n; b64_decode_loop st ys out n }"
  by (induction st xs out n rule: b64_decode_loop.induct)
    (auto split: bind_splits option.splits simp del: b64_decode_char.simps)

lemma word_of_int_sint_byte: "sint (x :: byte) = k \<Longrightarrow> x = word_of_int k"
  by auto

lemma base64_decode_value_None: "base64_decode_value c = None \<longleftrightarrow> c = 123"
proof
  assume "base64_decode_value c = None"
  then have "sint (c - 43) = 80"
    by (auto simp: base64_decode_value_def Let_def rd_def split: if_splits)
  then have "c - 43 = 80"
    by (drule_tac word_of_int_sint_byte) simp
  then show "c = 123"
    by (simp add: diff_eq_eq)
next
  show "c = 123 \<Longrightarrow> base64_decode_value c = None"
    by (simp add: base64_decode_value_def)
qed

text \<open>\<open>k\<close> significant characters have been read, \<open>n\<close> bytes are complete.\<close>

definition b64_pos :: "base64_decodestep \<Rightarrow> nat \<Rightarrow> nat \<Rightarrow> bool" where
  "b64_pos st n k = (case st of
      step_a \<Rightarrow> 3 * k = 4 * n
    | step_b \<Rightarrow> 3 * k = 4 * n + 3
    | step_c \<Rightarrow> 3 * k = 4 * n + 2
    | step_d \<Rightarrow> 3 * k = 4 * n + 1)"

lemma decode_char_safe:
  assumes "c \<noteq> 123" "b64_pos st n k" "k < length out"
  shows "\<exists>st' out' n'. b64_decode_char st c out n = Some (st', out', n')
    \<and> (b64_pos st' n' k \<or> b64_pos st' n' (Suc k)) \<and> length out' = length out"
proof -
  obtain v where "base64_decode_value c = Some v"
    using assms(1) base64_decode_value_None by blast
  with assms(2,3) show ?thesis
    by (cases st) (auto simp: b64_pos_def Let_def)
qed

lemma b64_pos_less: "b64_pos st n k \<Longrightarrow> 0 < k \<Longrightarrow> n < k"
  by (auto simp: b64_pos_def split: base64_decodestep.splits)

lemma b64_pos_0: "b64_pos st n 0 \<Longrightarrow> n = 0"
  by (auto simp: b64_pos_def split: base64_decodestep.splits)

lemma decode_loop_safe:
  assumes "123 \<notin> set cs" "b64_pos st n k" "k + length cs \<le> length out"
  shows "\<exists>st' out' n' k'. b64_decode_loop st cs out n = Some (st', out', n')
    \<and> b64_pos st' n' k' \<and> k' \<le> k + length cs \<and> length out' = length out"
  using assms
proof (induction cs arbitrary: st n k out)
  case Nil
  then show ?case by auto
next
  case (Cons c cs)
  then obtain st1 out1 n1 k1 where
    c: "b64_decode_char st c out n = Some (st1, out1, n1)" and
    k1: "b64_pos st1 n1 k1" "k1 \<le> Suc k" and len: "length out1 = length out"
    using decode_char_safe [of c st n k out] by fastforce
  from Cons.IH [of st1 n1 k1 out1] k1 len Cons.prems obtain st' out' n' k' where
    "b64_decode_loop st1 cs out1 n1 = Some (st', out', n')" "b64_pos st' n' k'"
    "k' \<le> k1 + length cs" "length out' = length out1"
    by auto
  with c k1 len show ?case
    by (fastforce simp del: b64_decode_char.simps)
qed

lemma decode_loop_brace: "123 \<in> set cs \<Longrightarrow> b64_decode_loop st cs out n = None"
proof (induction cs arbitrary: st out n)
  case (Cons c cs)
  show ?case
  proof (cases "c = 123")
    case True
    then show ?thesis
      using base64_decode_value_None [of c] by simp
  next
    case False
    with Cons show ?thesis
      by (auto split: bind_splits simp del: b64_decode_char.simps)
  qed
qed simp

lemma decode_block_safe:
  assumes "123 \<notin> set cs" "length cs \<le> length out" "0 < length out"
  shows "\<exists>out' n st. base64_decode_block cs out base64_init_decodestate = Some (out', n, st)
    \<and> length out' = length out \<and> 4 * n \<le> 3 * length cs"
proof -
  have "b64_pos step_a 0 0"
    by (simp add: b64_pos_def)
  then obtain st' out' n' k' where *:
    "b64_decode_loop step_a cs (out[0 := 0]) 0 = Some (st', out', n')"
    "b64_pos st' n' k'" "k' \<le> length cs" "length out' = length out"
    using decode_loop_safe [of cs step_a 0 0 "out[0 := 0]"] assms by auto
  have n: "n' < length out'"
    using b64_pos_less [of st' n' k'] b64_pos_0 [of st' n'] * assms by (cases "k' = 0") auto
  have "base64_decode_block cs out base64_init_decodestate
      = Some (out', n', \<lparr>dstep = st', dplainchar = out' ! n'\<rparr>)"
    using * n assms(3) by (simp add: base64_decode_block_def base64_init_decodestate_def)
  moreover have "4 * n' \<le> 3 * length cs"
    using *(2,3) by (auto simp: b64_pos_def split: base64_decodestep.splits)
  ultimately show ?thesis
    using *(4) by blast
qed

lemma decode_block_brace:
  "123 \<in> set cs \<Longrightarrow> base64_decode_block cs out st = None"
  by (auto simp: base64_decode_block_def decode_loop_brace split: bind_splits)

lemma unat_b64_osiz:
  assumes "unat ilen < 2 ^ 31"
  shows "unat (b64_osiz ilen) = ((unat ilen + 2) div 3 + 1) * 4"
proof -
  have 1: "unat (ilen + 2) = unat ilen + 2"
    using assms by (simp add: unat_word_ariths)
  have 2: "unat ((ilen + 2) div 3) = (unat ilen + 2) div 3"
    by (simp add: unat_div 1)
  have 3: "unat ((ilen + 2) div 3 + 1) = (unat ilen + 2) div 3 + 1"
    using assms by (simp add: unat_word_ariths 2)
  have "((unat ilen + 2) div 3 + 1) * 4 < 2 ^ 32"
    using assms by simp
  then show ?thesis
    unfolding b64_osiz_def unat_word_ariths 3 by simp
qed

lemma encode_refines_spec:
  assumes "pool (unat (b64_osiz ilen))" "0 < unat ilen" "unat ilen < 2 ^ 31" "unat ilen \<le> length idat"
  defines "e \<equiv> b64_spec (take (unat ilen) idat)"
  shows "plb64encode pool idat ilen =
      Some (Some (e @ replicate 4 0, of_nat (length e)))"
proof -
  have nz: "ilen \<noteq> 0"
    using assms(2) by auto
  have sg: "\<not> sint ilen < 0"
    using sint_small [of ilen] assms(3) by simp
  have le: "length e = 4 * ((unat ilen + 2) div 3)"
    using assms(4) by (simp add: e_def length_b64_spec)
  have sz: "unat (b64_osiz ilen) = length e + 4"
    using unat_b64_osiz [OF assms(3)] le by simp
  have nz2: "b64_osiz ilen \<noteq> 0"
    using sz by auto
  have "do { (out, m, s) \<leftarrow> base64_encode_block (take (unat ilen) idat) ([] @ replicate (length e + 4) 0) 0
              base64_init_encodestate; base64_encode_blockend out m s }
      = Some ([] @ e @ drop (length e) (replicate (length e + 4) 0), 0 + length e)"
    unfolding e_def
    by (rule encode_spec_general) (simp_all add: base64_init_encodestate_def)
  then show ?thesis
    using assms(1,4) nz nz2 sg
    by (auto simp: plb64encode_def plzalloc_def rd_block_def rd_range_def sz split: bind_splits)
qed

lemma decode_inverts_spec:
  assumes "d \<noteq> []" "length (b64_spec d) < 2 ^ 31" "pool (length (b64_spec d))"
  shows "\<exists>post. plb64decode pool (b64_spec d @ tl_in) (of_nat (length (b64_spec d)))
       = Some (Some (d @ post, of_nat (length d)))"
proof -
  let ?n = "length (b64_spec d)"
  have pos: "0 < ?n"
    using assms(1) by (cases d rule: b64_spec.cases) auto
  have un: "unat (of_nat ?n :: u32) = ?n"
    using assms(2) by (simp add: unat_of_nat)
  have nz: "(of_nat ?n :: u32) \<noteq> 0"
    using un pos by auto
  have sg: "\<not> sint (of_nat ?n :: u32) < 0"
    using sint_small [of "of_nat ?n :: u32"] assms(2) un by simp
  obtain st post where loop:
    "b64_decode_loop step_a (b64_spec d) ([] @ replicate ?n 0) 0 = Some (st, [] @ d @ post, 0 + length d)"
    and len: "length (d @ post) = length (replicate ?n (0 :: byte))"
    using decode_spec_general [of d "replicate ?n 0" 0 "[]"] by auto
  have "length d < ?n"
    using pos by (simp add: length_b64_spec)
  then have rd: "rd (d @ post) (length d) = Some ((d @ post) ! length d)"
    using len by simp
  have "(replicate ?n (0 :: byte))[0 := 0] = replicate ?n 0"
    by (metis list_update_id list_update_nonempty nth_replicate pos replicate_eq_replicate list_update_beyond neq0_conv)
  then show ?thesis
    using assms(3) un nz sg loop rd pos
    by (simp add: plb64decode_def plzalloc_def rd_block_def rd_range_def base64_decode_block_def
        base64_init_decodestate_def)
qed

lemma b64_char_in_encoding: "unat v < 64 \<Longrightarrow> b64_char v \<in> set encoding"
  by (simp add: b64_char_def)

lemma set_b64_spec: "set (b64_spec d) \<subseteq> insert 61 (set encoding)"
  by (induction d rule: b64_spec.induct) (auto intro: b64_char_in_encoding sextets_bound sextets_bound [simplified])

section \<open>The coder as a codec\<close>

text \<open>The two wrappers with an allocator that never fails, restricted to the bytes they report.\<close>

definition b64_text :: "byte list \<Rightarrow> byte list" where
  "b64_text d =
     (case plb64encode (\<lambda>_. True) d (of_nat (length d)) of
        Some (Some (odat, olen)) \<Rightarrow> take (unat olen) odat | _ \<Rightarrow> [])"

definition b64_bytes :: "byte list \<Rightarrow> byte list option" where
  "b64_bytes e =
     (case plb64decode (\<lambda>_. True) e (of_nat (length e)) of
        Some (Some (odat, olen)) \<Rightarrow> Some (take (unat olen) odat) | _ \<Rightarrow> None)"

lemma length_b64_spec_bound: "length d < 2 ^ 30 \<Longrightarrow> length (b64_spec d) < 2 ^ 31"
proof -
  assume "length d < 2 ^ 30"
  then have "(length d + 2) div 3 < 2 ^ 29"
    by (intro less_mult_imp_div_less) simp
  then show ?thesis
    by (simp add: length_b64_spec)
qed

lemma b64_text_spec:
  assumes "d \<noteq> []" "length d < 2 ^ 30"
  shows "b64_text d = b64_spec d"
proof -
  have un: "unat (of_nat (length d) :: u32) = length d"
    using assms(2) by (simp add: unat_of_nat)
  have "unat (of_nat (length (b64_spec d)) :: u32) = length (b64_spec d)"
    using length_b64_spec_bound [OF assms(2)] by (simp add: unat_of_nat)
  then show ?thesis
    using encode_refines_spec [of "\<lambda>_. True" "of_nat (length d)" d] assms un
    by (simp add: b64_text_def)
qed

lemma b64_bytes_spec:
  assumes "d \<noteq> []" "length d < 2 ^ 30"
  shows "b64_bytes (b64_spec d) = Some d"
proof -
  have "unat (of_nat (length d) :: u32) = length d"
    using assms(2) by (simp add: unat_of_nat)
  then show ?thesis
    using decode_inverts_spec [OF assms(1) length_b64_spec_bound [OF assms(2)], of "\<lambda>_. True" "[]"]
    by (auto simp: b64_bytes_def)
qed

interpretation b64: codec b64_text b64_bytes "\<lambda>d. d \<noteq> [] \<and> length d < 2 ^ 30"
  by unfold_locales (simp add: b64_text_spec b64_bytes_spec)

section \<open>Properties\<close>

text \<open>
  C5. Round trip through the two wrappers: for every non-empty datum below one gigabyte, with
  memory available, \<open>_plb64encode\<close> returns a text, and \<open>_plb64decode\<close> of that text returns
  exactly the datum, neither of them leaving its buffer.
\<close>

theorem plb64_roundtrip:
  assumes "\<And>n. pool n" "d \<noteq> []" "length d < 2 ^ 30"
  shows "\<exists>odat olen dec dlen.
      plb64encode pool d (of_nat (length d)) = Some (Some (odat, olen)) \<and>
      plb64decode pool odat olen = Some (Some (dec, dlen)) \<and>
      unat dlen = length d \<and> take (length d) dec = d"
proof -
  have un: "unat (of_nat (length d) :: u32) = length d"
    using assms(3) by (simp add: unat_of_nat)
  have e: "plb64encode pool d (of_nat (length d)) =
      Some (Some (b64_spec d @ replicate 4 0, of_nat (length (b64_spec d))))"
    using encode_refines_spec [of pool "of_nat (length d)" d] assms un by simp
  have "(length d + 2) div 3 < 2 ^ 29"
    using assms(3) by (intro less_mult_imp_div_less) simp
  then have lt: "length (b64_spec d) < 2 ^ 31"
    by (simp add: length_b64_spec)
  obtain post where "plb64decode pool (b64_spec d @ replicate 4 0) (of_nat (length (b64_spec d)))
       = Some (Some (d @ post, of_nat (length d)))"
    using decode_inverts_spec [OF assms(2) lt, of pool "replicate 4 0"] assms(1) by blast
  with e un show ?thesis
    by auto
qed

theorem plb64_roundtrip_witness:
  "\<exists>odat olen dec dlen.
      plb64encode (\<lambda>_. True) [0xfe, 0xed, 0xfa, 0xce] (of_nat (length [0xfe, 0xed, 0xfa, 0xce :: byte]))
        = Some (Some (odat, olen)) \<and>
      plb64decode (\<lambda>_. True) odat olen = Some (Some (dec, dlen)) \<and>
      unat dlen = length [0xfe, 0xed, 0xfa, 0xce :: byte] \<and>
      take (length [0xfe, 0xed, 0xfa, 0xce :: byte]) dec = [0xfe, 0xed, 0xfa, 0xce]"
  by (rule plb64_roundtrip) simp_all

text \<open>
  The resumable encoder behind \<open>_plb64encode\<close> computes the textbook base64 text: groups of
  three bytes to four characters, a padded last group. The text has the length the standard
  prescribes, uses the base64 alphabet only, and always leaves four spare bytes in the buffer.
\<close>

theorem plb64encode_text:
  assumes "pool (unat (b64_osiz ilen))" "0 < unat ilen" "unat ilen < 2 ^ 31" "unat ilen \<le> length idat"
  shows "\<exists>odat. plb64encode pool idat ilen =
           Some (Some (odat, of_nat (4 * ((unat ilen + 2) div 3)))) \<and>
         take (4 * ((unat ilen + 2) div 3)) odat = b64_spec (take (unat ilen) idat) \<and>
         set (b64_spec (take (unat ilen) idat)) \<subseteq> insert (of_char (CHR ''='')) (set encoding) \<and>
         length odat = 4 * ((unat ilen + 2) div 3) + 4"
proof -
  have "length (b64_spec (take (unat ilen) idat)) = 4 * ((unat ilen + 2) div 3)"
    using assms(4) by (simp add: length_b64_spec)
  then show ?thesis
    using encode_refines_spec [of pool ilen idat, OF assms] set_b64_spec [of "take (unat ilen) idat"] by simp
qed

theorem plb64encode_text_witness:
  "\<exists>odat. plb64encode (\<lambda>_. True) [0xde, 0xad] 2 =
           Some (Some (odat, of_nat (4 * ((unat (2 :: u32) + 2) div 3)))) \<and>
         take (4 * ((unat (2 :: u32) + 2) div 3)) odat = b64_spec (take (unat (2 :: u32)) [0xde, 0xad]) \<and>
         set (b64_spec (take (unat (2 :: u32)) [0xde, 0xad])) \<subseteq> insert (of_char (CHR ''='')) (set encoding) \<and>
         length odat = 4 * ((unat (2 :: u32) + 2) div 3) + 4"
  by (rule plb64encode_text) simp_all

text \<open>
  Exactly one input character makes the decoder fault: on a readable text of positive
  length, with memory available, \<open>_plb64decode\<close> has undefined behaviour if and only if the text
  contains an opening brace, whose table index is one past the end of \<open>decoding\<close>. Every other
  text, of any bytes, is decoded inside the buffer.
\<close>

theorem plb64decode_faults_iff_brace:
  assumes "pool (unat ilen)" "0 < unat ilen" "unat ilen < 2 ^ 31" "unat ilen \<le> length idat"
  shows "plb64decode pool idat ilen = None \<longleftrightarrow> of_char (CHR ''{'') \<in> set (take (unat ilen) idat)"
proof -
  have nz: "ilen \<noteq> 0"
    using assms(2) by auto
  have sg: "\<not> sint ilen < 0" 
    using sint_small [of ilen] assms(3) by simp
  show ?thesis
  proof (cases "123 \<in> set (take (unat ilen) idat)")
    case True
    then show ?thesis
      using assms nz sg by (simp add: plb64decode_def plzalloc_def rd_block_def rd_range_def decode_block_brace)
  next
    case False
    then show ?thesis
      using assms nz sg decode_block_safe [of "take (unat ilen) idat" "replicate (unat ilen) 0"]
      by (auto simp: plb64decode_def plzalloc_def rd_block_def rd_range_def)
  qed
qed

theorem plb64decode_faults_iff_brace_witness:
  "plb64decode (\<lambda>_. True) [0x51, 0x7b] 2 = None"
  using plb64decode_faults_iff_brace [of "\<lambda>_. True" 2 "[0x51, 0x7b]"] by simp

text \<open>
  Decoding can stop between any two characters and be resumed from the saved state: a second
  call on the rest of the text, writing where the first one stopped, leaves the same buffer,
  count and state as one call on the whole text.
\<close>

theorem base64_decode_block_resume:
  assumes "base64_decode_block xs out s = Some (out1, n1, s1)"
    and "base64_decode_block ys (drop n1 out1) s1 = Some (out2, n2, s2)"
  shows "base64_decode_block (xs @ ys) out s = Some (take n1 out1 @ out2, n1 + n2, s2)"
proof -
  obtain st1 where out: "0 < length out" and
    l1: "b64_decode_loop (dstep s) xs (out[0 := dplainchar s]) 0 = Some (st1, out1, n1)" and
    n1: "n1 < length out1" and s1: "s1 = \<lparr>dstep = st1, dplainchar = out1 ! n1\<rparr>"
    using assms(1) by (auto simp: base64_decode_block_def mem_simps split: bind_splits)
  have same: "(drop n1 out1)[0 := out1 ! n1] = drop n1 out1"
    using n1 by (metis Cons_nth_drop_Suc list_update_code(2))
  obtain st2 where
    l2: "b64_decode_loop st1 ys (drop n1 out1) 0 = Some (st2, out2, n2)" and
    n2: "n2 < length out2" and s2: "s2 = \<lparr>dstep = st2, dplainchar = out2 ! n2\<rparr>"
    using assms(2) n1 same by (auto simp: s1 base64_decode_block_def mem_simps split: bind_splits)
  have len: "length (take n1 out1) = n1"
    using n1 by simp
  have "b64_decode_loop st1 ys out1 n1 = Some (st2, take n1 out1 @ out2, n1 + n2)"
    using decode_loop_shift [of st1 ys "take n1 out1" "drop n1 out1" 0] l2 n1 by (simp add: min_absorb2)
  with l1 out n1 n2 s2 len show ?thesis
    by (simp add: base64_decode_block_def decode_loop_append nth_append)
qed

theorem base64_decode_block_resume_witness:
  "base64_decode_block ([0x51, 0x55] @ [0x4a, 0x44]) (replicate 4 0) base64_init_decodestate
     = Some (take 1 [0x41, 0x40, 0, 0] @ [0x42, 0x43, 0], 1 + 2, \<lparr>dstep = step_a, dplainchar = 0\<rparr>)"
  by (rule base64_decode_block_resume [where ?s1.0 = "\<lparr>dstep = step_c, dplainchar = 0x40\<rparr>"]; code_simp)

end
