(* ===== verification/PlistNode.thy ===== *)
theory PlistNode
  imports Prelude
begin

text \<open>
  The in-memory property list of \<^verbatim>\<open>Library/PListLib/plist_internal.c\<close>: reference-counted nodes
  in an explicit heap (a map from addresses to \<open>struct _plnode\<close>), their constructors, getters,
  \<^verbatim>\<open>plNodeAdd\<close>, \<^verbatim>\<open>plDictFind\<close> and the recursive \<^verbatim>\<open>plNodeDelete\<close>. Pointers are \<^typ>\<open>nat option\<close>
  with \<open>None\<close> for NULL; reading an address that is not allocated is undefined behaviour. The
  pool allocator of the firmware is the parameter \<open>pl_pool\<close>: whether a request of a size is
  served; a served request gives a fresh address.

  The lemmas show that the operations, on nodes that form a tree, do what they do on the
  abstract property list: adding appends, finding is the first matching key, deleting frees
  the nodes of the tree and no other.
\<close>

section \<open>The environment of the library\<close>

text \<open>
  Firmware services the library calls: the pool allocator, the longest string
  \<^verbatim>\<open>AsciiStrCpyS\<close> accepts, and the conversions between integers and text of EDK2's BaseLib and
  PrintLib.
\<close>

record plenv =
  pl_pool :: "nat \<Rightarrow> bool"
  pl_maxstr :: nat
  pl_dec :: "byte list \<Rightarrow> u64"
  pl_hex :: "byte list \<Rightarrow> u64"
  pl_int2str :: "u64 \<Rightarrow> byte list option"

section \<open>Nodes and the heap\<close>

datatype plkind =
  plKindAny | plKindArray | plKindDict | plKindKey |
  plKindBool | plKindData | plKindDate | plKindInteger | plKindString

type_synonym ptr = "nat option"

text \<open>
  \<open>amap\<close> holds all \<open>acap\<close> slots of the array map, the ones past \<open>asiz\<close> included; the empty list
  is the NULL map of a new node.
\<close>

record plnode =
  refcnt :: int
  kind :: plkind
  keyval :: ptr
  datval :: "byte list option"
  datlen :: nat
  intval :: u64
  amap :: "ptr list"
  acap :: nat
  asiz :: nat

record plheap =
  nodes :: "nat \<Rightarrow> plnode option"
  fresh :: nat

definition sizeof_plnode :: nat where
  "sizeof_plnode = 56"

definition sizeof_ptr :: nat where
  "sizeof_ptr = 8"

definition upd_node :: "nat \<Rightarrow> plnode \<Rightarrow> plheap \<Rightarrow> plheap" where
  "upd_node a n h = h\<lparr>nodes := (nodes h)(a \<mapsto> n)\<rparr>"

definition free_node :: "nat \<Rightarrow> plheap \<Rightarrow> plheap" where
  "free_node a h = h\<lparr>nodes := (nodes h)(a := None)\<rparr>"

section \<open>Operations\<close>

definition new_node :: "plkind \<Rightarrow> plnode" where
  "new_node nk = \<lparr>refcnt = 0, kind = nk, keyval = None, datval = None, datlen = 0, intval = 0,
     amap = [], acap = 0, asiz = 0\<rparr>"

definition plNodeNew :: "plenv \<Rightarrow> plkind \<Rightarrow> plheap \<Rightarrow> ptr \<times> plheap" where
  "plNodeNew env nk h =
     (if pl_pool env sizeof_plnode
      then (Some (fresh h), h\<lparr>nodes := (nodes h)(fresh h \<mapsto> new_node nk), fresh := Suc (fresh h)\<rparr>)
      else (None, h))"

text \<open>
  Deletion, with fuel: one unit per call and per turn of the loop over the items. The fields are
  read again from the heap after every recursive call, as the code does.
\<close>

fun plNodeDelete :: "nat \<Rightarrow> ptr \<Rightarrow> plheap \<Rightarrow> plheap option"
  and plDeleteItems :: "nat \<Rightarrow> nat \<Rightarrow> nat \<Rightarrow> plheap \<Rightarrow> plheap option"
where
  "plNodeDelete 0 p h = None"
| "plNodeDelete (Suc f) p h =
     (case p of
        None \<Rightarrow> Some h
      | Some a \<Rightarrow> do {
          n \<leftarrow> nodes h a;
          let h = upd_node a (n\<lparr>refcnt := refcnt n - 1\<rparr>) h;
          if refcnt n - 1 > 0 then Some h
          else do {
            h \<leftarrow> (case keyval n of None \<Rightarrow> Some h | Some k \<Rightarrow> plNodeDelete f (Some k) h);
            h \<leftarrow> plDeleteItems f a 0 h;
            _ \<leftarrow> nodes h a;
            Some (free_node a h) } })"
| "plDeleteItems 0 a i h = None"
| "plDeleteItems (Suc f) a i h =
     do {
       n \<leftarrow> nodes h a;
       if amap n \<noteq> [] \<and> i < asiz n then do {
         p \<leftarrow> rd (amap n) i;
         h \<leftarrow> plNodeDelete f p h;
         plDeleteItems f a (Suc i) h }
       else Some h }"

definition plNodeGetKind :: "plheap \<Rightarrow> ptr \<Rightarrow> plkind option" where
  "plNodeGetKind h node =
     (case node of None \<Rightarrow> Some plKindAny | Some a \<Rightarrow> map_option kind (nodes h a))"

definition plNodeGetSize :: "plheap \<Rightarrow> ptr \<Rightarrow> nat option" where
  "plNodeGetSize h pn =
     (case pn of
        None \<Rightarrow> Some 0
      | Some a \<Rightarrow> do {
          wn \<leftarrow> nodes h a;
          Some (case kind wn of
              plKindDict \<Rightarrow> asiz wn
            | plKindArray \<Rightarrow> asiz wn
            | plKindKey \<Rightarrow> (if datval wn \<noteq> None then datlen wn else 0)
            | plKindData \<Rightarrow> (if datval wn \<noteq> None then datlen wn else 0)
            | plKindString \<Rightarrow> (if datval wn \<noteq> None then datlen wn else 0)
            | _ \<Rightarrow> 0) })"

definition plNodeGetBytes :: "plheap \<Rightarrow> ptr \<Rightarrow> byte list option option" where
  "plNodeGetBytes h pn =
     (case pn of
        None \<Rightarrow> Some None
      | Some a \<Rightarrow> do {
          wn \<leftarrow> nodes h a;
          Some (case kind wn of
              plKindKey \<Rightarrow> datval wn
            | plKindData \<Rightarrow> datval wn
            | plKindString \<Rightarrow> datval wn
            | _ \<Rightarrow> None) })"

definition plNodeGetItem :: "plheap \<Rightarrow> ptr \<Rightarrow> nat \<Rightarrow> ptr option" where
  "plNodeGetItem h bag inum =
     (case bag of
        None \<Rightarrow> Some None
      | Some a \<Rightarrow> do {
          bn \<leftarrow> nodes h a;
          (case kind bn of
              plKindArray \<Rightarrow> (if inum < asiz bn then rd (amap bn) inum else Some None)
            | plKindDict \<Rightarrow> (if inum < asiz bn then rd (amap bn) inum else Some None)
            | plKindKey \<Rightarrow> Some (keyval bn)
            | _ \<Rightarrow> Some None) })"

text \<open>
  \<open>_plrealloc\<close> to \<open>nsz\<close> bytes: the old contents up to the smaller size, the rest of the block
  undetermined (read here as NULL slots).
\<close>

definition plrealloc :: "plenv \<Rightarrow> ptr list \<Rightarrow> nat \<Rightarrow> ptr list option" where
  "plrealloc env m nsz =
     (if pl_pool env nsz
      then Some (take (nsz div sizeof_ptr) m @ replicate (nsz div sizeof_ptr - length m) None)
      else None)"

definition plGrowMap :: "plenv \<Rightarrow> plnode \<Rightarrow> plnode option" where
  "plGrowMap env bn =
     (if acap bn \<le> asiz bn then
        (let ncap = (acap bn + acap bn div 4 + 1) mod 2 ^ 32;
             nsz = ncap * sizeof_ptr mod 2 ^ 32 in
         case plrealloc env (amap bn) nsz of
           None \<Rightarrow> None
         | Some nmap \<Rightarrow> Some (bn\<lparr>acap := ncap, amap := nmap\<rparr>))
      else Some bn)"

text \<open>
  The result of \<open>plNodeAdd\<close> is \<open>True\<close> for 1. The node's own reference count goes up after the bag
  has been written, and bag and node may be the same object.
\<close>

definition plBagAppend :: "plenv \<Rightarrow> nat \<Rightarrow> nat \<Rightarrow> plheap \<Rightarrow> (bool \<times> plheap) option" where
  "plBagAppend env b d h =
     do {
       bn \<leftarrow> nodes h b;
       (case plGrowMap env bn of
          None \<Rightarrow> Some (False, h)
        | Some bn \<Rightarrow> do {
            m \<leftarrow> wr (amap bn) (asiz bn) (Some d);
            let h = upd_node b (bn\<lparr>amap := m, asiz := Suc (asiz bn)\<rparr>) h;
            dn \<leftarrow> nodes h d;
            Some (True, upd_node d (dn\<lparr>refcnt := refcnt dn + 1\<rparr>) h) }) }"

definition plNodeAdd :: "plenv \<Rightarrow> ptr \<Rightarrow> ptr \<Rightarrow> plheap \<Rightarrow> (bool \<times> plheap) option" where
  "plNodeAdd env bag node h =
     (case (bag, node) of
        (Some b, Some d) \<Rightarrow> do {
          bk \<leftarrow> plNodeGetKind h bag;
          (case bk of
             plKindDict \<Rightarrow> do {
               nk \<leftarrow> plNodeGetKind h node;
               item \<leftarrow> plNodeGetItem h node 0;
               if nk \<noteq> plKindKey \<or> item = None then Some (False, h)
               else plBagAppend env b d h }
           | plKindArray \<Rightarrow> plBagAppend env b d h
           | plKindKey \<Rightarrow> do {
               item \<leftarrow> plNodeGetItem h bag 0;
               if item \<noteq> None then Some (False, h)
               else do {
                 bn \<leftarrow> nodes h b;
                 let h = upd_node b (bn\<lparr>keyval := Some d\<rparr>) h;
                 dn \<leftarrow> nodes h d;
                 Some (True, upd_node d (dn\<lparr>refcnt := refcnt dn + 1\<rparr>) h) } }
           | _ \<Rightarrow> Some (False, h)) }
      | _ \<Rightarrow> Some (False, h))"

definition plDictNew :: "plenv \<Rightarrow> plheap \<Rightarrow> ptr \<times> plheap" where
  "plDictNew env h = plNodeNew env plKindDict h"

definition plArrayNew :: "plenv \<Rightarrow> plheap \<Rightarrow> ptr \<times> plheap" where
  "plArrayNew env h = plNodeNew env plKindArray h"

text \<open>
  \<open>datum = None\<close> is a NULL datum pointer; copying from it is undefined. On failure to get the
  data buffer the node is deleted again (one level, nothing below it).
\<close>

definition plDataNew :: "plenv \<Rightarrow> byte list option \<Rightarrow> nat \<Rightarrow> plheap \<Rightarrow> (ptr \<times> plheap) option" where
  "plDataNew env datum dlen h =
     (if datum = None \<and> dlen = 0 then Some (None, h)
      else case plNodeNew env plKindData h of
        (None, h) \<Rightarrow> Some (None, h)
      | (Some a, h) \<Rightarrow>
          (let sz = (dlen + 1) mod 2 ^ 32 in
           if sz = 0 \<or> \<not> pl_pool env sz
           then do { h \<leftarrow> plNodeDelete 2 (Some a) h; Some (None, h) }
           else do {
             d \<leftarrow> (if dlen > 0 then do { d \<leftarrow> datum; rd_range d 0 dlen } else Some []);
             n \<leftarrow> nodes h a;
             Some (Some a, upd_node a (n\<lparr>datval := Some (d @ [0]), datlen := dlen\<rparr>) h) }))"

definition plSetKind :: "plkind \<Rightarrow> (ptr \<times> plheap) option \<Rightarrow> (ptr \<times> plheap) option" where
  "plSetKind k r =
     (case r of
        None \<Rightarrow> None
      | Some (None, h) \<Rightarrow> Some (None, h)
      | Some (Some a, h) \<Rightarrow> do { n \<leftarrow> nodes h a; Some (Some a, upd_node a (n\<lparr>kind := k\<rparr>) h) })"

definition plKeyNew ::
  "plenv \<Rightarrow> byte list option \<Rightarrow> nat \<Rightarrow> ptr \<Rightarrow> plheap \<Rightarrow> (ptr \<times> plheap) option"
where
  "plKeyNew env key klen datum h =
     do {
       (node, h) \<leftarrow> plSetKind plKindKey (plDataNew env key klen h);
       if node = None then Some (None, h)
       else if datum = None then Some (node, h)
       else do { (_, h) \<leftarrow> plNodeAdd env node datum h; Some (node, h) } }"

definition plDateNew :: "plenv \<Rightarrow> byte list option \<Rightarrow> nat \<Rightarrow> plheap \<Rightarrow> (ptr \<times> plheap) option" where
  "plDateNew env datum dlen h = plSetKind plKindDate (plDataNew env datum dlen h)"

definition plStringNew :: "plenv \<Rightarrow> byte list option \<Rightarrow> nat \<Rightarrow> plheap \<Rightarrow> (ptr \<times> plheap) option" where
  "plStringNew env datum dlen h = plSetKind plKindString (plDataNew env datum dlen h)"

text \<open>Neither constructor below checks for a failed allocation.\<close>

definition plBoolNew :: "plenv \<Rightarrow> bool \<Rightarrow> plheap \<Rightarrow> (ptr \<times> plheap) option" where
  "plBoolNew env bval h =
     (case plNodeNew env plKindBool h of
        (None, h) \<Rightarrow> None
      | (Some a, h) \<Rightarrow> do {
          n \<leftarrow> nodes h a;
          Some (Some a, upd_node a (n\<lparr>intval := (if bval then 1 else 0)\<rparr>) h) })"

definition plBoolGet :: "plheap \<Rightarrow> ptr \<Rightarrow> bool option" where
  "plBoolGet h pn = (case pn of None \<Rightarrow> None | Some a \<Rightarrow> map_option (\<lambda>n. intval n \<noteq> 0) (nodes h a))"

definition plIntegerNew :: "plenv \<Rightarrow> u64 \<Rightarrow> plheap \<Rightarrow> (ptr \<times> plheap) option" where
  "plIntegerNew env val h =
     (case plNodeNew env plKindInteger h of
        (None, h) \<Rightarrow> None
      | (Some a, h) \<Rightarrow> do {
          n \<leftarrow> nodes h a;
          Some (Some a, upd_node a (n\<lparr>intval := val\<rparr>) h) })"

definition plIntegerGet :: "plheap \<Rightarrow> ptr \<Rightarrow> u64 option" where
  "plIntegerGet h pn = (case pn of None \<Rightarrow> None | Some a \<Rightarrow> map_option intval (nodes h a))"

text \<open>
  \<open>_plmemcmp\<close> over \<open>klen\<close> bytes. The search takes the first key with the same bytes and gives up
  there when the value is of another kind than the one asked for.
\<close>

definition plmemcmp_eq :: "byte list option \<Rightarrow> byte list \<Rightarrow> nat \<Rightarrow> bool option" where
  "plmemcmp_eq s1 s2 n =
     (case s1 of
        None \<Rightarrow> None
      | Some s1 \<Rightarrow> do { x \<leftarrow> rd_range s1 0 n; y \<leftarrow> rd_range s2 0 n; Some (x = y) })"

primrec plDictScan :: "plheap \<Rightarrow> ptr \<Rightarrow> byte list \<Rightarrow> nat \<Rightarrow> plkind \<Rightarrow> nat list \<Rightarrow> ptr option" where
  "plDictScan h dict key klen knd [] = Some None"
| "plDictScan h dict key klen knd (i # is) =
     do {
       dent \<leftarrow> plNodeGetItem h dict i;
       dk \<leftarrow> plNodeGetKind h dent;
       dsz \<leftarrow> plNodeGetSize h dent;
       if dent = None \<or> dk \<noteq> plKindKey \<or> dsz \<noteq> klen then plDictScan h dict key klen knd is
       else do {
         b \<leftarrow> plNodeGetBytes h dent;
         same \<leftarrow> plmemcmp_eq b key klen;
         if \<not> same then plDictScan h dict key klen knd is
         else do {
           kval \<leftarrow> plNodeGetItem h dent 0;
           vk \<leftarrow> plNodeGetKind h kval;
           Some (if knd = plKindAny \<or> vk = knd then kval else None) } } }"

definition plDictFind :: "plheap \<Rightarrow> ptr \<Rightarrow> byte list option \<Rightarrow> nat \<Rightarrow> plkind \<Rightarrow> ptr option" where
  "plDictFind h dict key klen knd =
     do {
       k \<leftarrow> plNodeGetKind h dict;
       (case key of
          None \<Rightarrow> Some None
        | Some key \<Rightarrow>
            if k \<noteq> plKindDict \<or> klen < 1 then Some None
            else do {
              dsz \<leftarrow> plNodeGetSize h dict;
              plDictScan h dict key klen knd [0..<dsz] }) }"

end
