(* ===== verification/PlistTree.thy ===== *)
theory PlistTree
  imports PlistNode
begin

text \<open>
  The abstract contract of the node operations of \<^verbatim>\<open>plist_internal.c\<close>. A property list is a
  value of the datatype \<open>plist\<close>; a \<open>ptree\<close> names the addresses and node records that represent
  it in the heap, \<open>tree h t\<close> says that they do, and \<open>val_of\<close> reads the value back. The lemmas
  show that deletion frees exactly the nodes of a tree, that the constructors build fresh leaves,
  that \<^verbatim>\<open>plNodeAdd\<close> appends, and that \<^verbatim>\<open>plDictFind\<close> is the first match.
\<close>

section \<open>Abstract property lists and the trees that represent them\<close>

datatype plist =
    PArray "plist list"
  | PDict "plist list"
  | PKey "byte list" "plist option"
  | PBool bool
  | PData "byte list"
  | PDate "byte list"
  | PInteger u64
  | PString "byte list"

text \<open>A tree with the addresses and the node records it occupies.\<close>

datatype ptree = PT (pt_addr: nat) (pt_node: plnode) (pt_kids: "ptree list")

fun addrs :: "ptree \<Rightarrow> nat list" where
  "addrs (PT a n ks) = a # concat (map addrs ks)"

definition data_ok :: "plnode \<Rightarrow> bool" where
  "data_ok n = (case datval n of None \<Rightarrow> False | Some d \<Rightarrow> length d = Suc (datlen n))"

definition data_of :: "plnode \<Rightarrow> byte list" where
  "data_of n = (case datval n of None \<Rightarrow> [] | Some d \<Rightarrow> take (datlen n) d)"

definition bag_links :: "plnode \<Rightarrow> ptree list \<Rightarrow> bool" where
  "bag_links n ks \<longleftrightarrow>
     keyval n = None \<and> asiz n = length ks \<and> asiz n \<le> acap n \<and> acap n = length (amap n) \<and>
     acap n \<le> asiz n + asiz n div 4 + 1 \<and> take (asiz n) (amap n) = map (\<lambda>k. Some (pt_addr k)) ks"

definition no_map :: "plnode \<Rightarrow> bool" where
  "no_map n \<longleftrightarrow> amap n = [] \<and> acap n = 0 \<and> asiz n = 0"

definition links :: "plnode \<Rightarrow> ptree list \<Rightarrow> bool" where
  "links n ks \<longleftrightarrow>
     (case kind n of
        plKindAny \<Rightarrow> False
      | plKindArray \<Rightarrow> bag_links n ks
      | plKindDict \<Rightarrow> bag_links n ks
      | plKindKey \<Rightarrow> no_map n \<and> data_ok n \<and>
          (case ks of [] \<Rightarrow> keyval n = None | [k] \<Rightarrow> keyval n = Some (pt_addr k) | _ \<Rightarrow> False)
      | plKindBool \<Rightarrow> ks = [] \<and> keyval n = None \<and> no_map n
      | plKindInteger \<Rightarrow> ks = [] \<and> keyval n = None \<and> no_map n
      | _ \<Rightarrow> ks = [] \<and> keyval n = None \<and> no_map n \<and> data_ok n)"

fun rep :: "(nat \<Rightarrow> plnode option) \<Rightarrow> ptree \<Rightarrow> bool" where
  "rep m (PT a n ks) \<longleftrightarrow>
     m a = Some n \<and> links n ks \<and> (\<forall>k \<in> set ks. rep m k \<and> refcnt (pt_node k) = 1)"

definition tree :: "plheap \<Rightarrow> ptree \<Rightarrow> bool" where
  "tree h t \<longleftrightarrow> rep (nodes h) t \<and> distinct (addrs t)"

fun val_of :: "ptree \<Rightarrow> plist" where
  "val_of (PT a n ks) =
     (case kind n of
        plKindArray \<Rightarrow> PArray (map val_of ks)
      | plKindDict \<Rightarrow> PDict (map val_of ks)
      | plKindKey \<Rightarrow> PKey (data_of n) (case ks of [] \<Rightarrow> None | k # _ \<Rightarrow> Some (val_of k))
      | plKindBool \<Rightarrow> PBool (intval n \<noteq> 0)
      | plKindData \<Rightarrow> PData (data_of n)
      | plKindDate \<Rightarrow> PDate (data_of n)
      | plKindInteger \<Rightarrow> PInteger (intval n)
      | _ \<Rightarrow> PString (data_of n))"

lemma pt_addr_in_addrs [simp]: "pt_addr t \<in> set (addrs t)"
  by (cases t) simp

lemma rep_cong:
  assumes "\<And>a. a \<in> set (addrs t) \<Longrightarrow> m a = m' a"
  shows "rep m t = rep m' t"
  using assms
proof (induction t)
  case (PT a n ks)
  have "rep m k = rep m' k" if "k \<in> set ks" for k
    using PT.IH [OF that] PT.prems that by auto
  with PT.prems show ?case by auto
qed

lemma rep_addrs: "rep m t \<Longrightarrow> a \<in> set (addrs t) \<Longrightarrow> m a \<noteq> None"
proof (induction t)
  case (PT b n ks)
  then show ?case by fastforce
qed

section \<open>Deletion\<close>

definition drop_nodes :: "nat set \<Rightarrow> plheap \<Rightarrow> plheap" where
  "drop_nodes A h = h\<lparr>nodes := (nodes h) |` (- A)\<rparr>"

lemma nodes_drop_nodes [simp]: "nodes (drop_nodes A h) = (nodes h) |` (- A)"
  by (simp add: drop_nodes_def)

lemma drop_nodes_drop_nodes: "drop_nodes A (drop_nodes B h) = drop_nodes (A \<union> B) h"
  by (auto simp: drop_nodes_def restrict_map_def intro!: plheap.equality)

lemma drop_nodes_empty [simp]: "drop_nodes {} h = h"
  by (auto simp: drop_nodes_def restrict_map_def intro!: plheap.equality)

lemma rep_drop_nodes:
  "set (addrs t) \<inter> A = {} \<Longrightarrow> rep ((nodes h) |` (- A)) t = rep (nodes h) t"
  by (rule rep_cong) (auto simp: restrict_map_def)

lemma free_node_drop: "free_node a (upd_node a n (drop_nodes A h)) = drop_nodes (insert a A) h"
  by (auto simp: free_node_def upd_node_def drop_nodes_def restrict_map_def fun_eq_iff intro!: plheap.equality)

lemma delete_items:
  assumes IH: "\<And>k h f. k \<in> set ks \<Longrightarrow> rep (nodes h) k \<Longrightarrow> refcnt (pt_node k) \<le> 1 \<Longrightarrow>
      3 * length (addrs k) \<le> f \<Longrightarrow> distinct (addrs k) \<Longrightarrow>
      plNodeDelete f (Some (pt_addr k)) h = Some (drop_nodes (set (addrs k)) h)"
    and "nodes h a = Some n" "amap n \<noteq> [] \<or> ks = []" "asiz n \<le> length (amap n)"
    and "i + length ks = asiz n" "drop i (take (asiz n) (amap n)) = map (\<lambda>k. Some (pt_addr k)) ks"
    and "\<forall>k \<in> set ks. rep (nodes h) k \<and> refcnt (pt_node k) = 1"
    and "distinct (concat (map addrs ks))" "a \<notin> set (concat (map addrs ks))"
    and "Suc (3 * length (concat (map addrs ks))) \<le> f"
  shows "plDeleteItems f a i h = Some (drop_nodes (set (concat (map addrs ks))) h)"
  using assms
proof (induction ks arbitrary: i h f)
  case Nil
  then show ?case by (cases f) auto
next
  case (Cons k ks)
  obtain f' where f: "f = Suc f'"
    using Cons.prems(10) by (cases f) auto
  have i: "i < asiz n"
    using Cons.prems(5) by simp
  have slot: "amap n ! i = Some (pt_addr k)"
    using Cons.prems(4-6) i by (metis drop_eq_nths hd_drop_conv_nth length_take list.map(2) list.sel(1) min.absorb2 nth_take)
  have "addrs k \<noteq> []"
    by (cases k) auto
  then have lk: "0 < length (addrs k)"
    by simp
  have del: "plNodeDelete f' (Some (pt_addr k)) h = Some (drop_nodes (set (addrs k)) h)"
    using Cons.prems f by (intro Cons.prems(1)) auto
  have "plDeleteItems f' a (Suc i) (drop_nodes (set (addrs k)) h)
      = Some (drop_nodes (set (concat (map addrs ks))) (drop_nodes (set (addrs k)) h))"
  proof (rule Cons.IH)
    show "plNodeDelete f (Some (pt_addr k')) h = Some (drop_nodes (set (addrs k')) h)"
      if "k' \<in> set ks" "rep (nodes h) k'" "refcnt (pt_node k') \<le> 1" "3 * length (addrs k') \<le> f"
        "distinct (addrs k')" for k' h f
      using that Cons.prems(1) by simp
    show "nodes (drop_nodes (set (addrs k)) h) a = Some n"
      using Cons.prems(2,9) by (simp add: restrict_map_def)
    show "drop (Suc i) (take (asiz n) (amap n)) = map (\<lambda>k. Some (pt_addr k)) ks"
      using Cons.prems(6) by (metis drop_Suc list.map(2) list.sel(3) tl_drop)
    show "\<forall>k' \<in> set ks. rep (nodes (drop_nodes (set (addrs k)) h)) k' \<and> refcnt (pt_node k') = 1"
    proof
      fix k'
      assume k': "k' \<in> set ks"
      then have "set (addrs k') \<inter> set (addrs k) = {}"
        using Cons.prems(8) by auto
      then show "rep (nodes (drop_nodes (set (addrs k)) h)) k' \<and> refcnt (pt_node k') = 1"
        using Cons.prems(7) k' by (simp add: rep_drop_nodes)
    qed
    show "Suc (3 * length (concat (map addrs ks))) \<le> f'"
      using Cons.prems(10) lk unfolding f by (simp del: length_greater_0_conv)
  qed (use Cons.prems i in auto)
  then show ?case
    using Cons.prems(2,3,4) i slot del f by (auto simp: drop_nodes_drop_nodes Un_commute)
qed

lemma addrs_ne: "0 < length (addrs t)"
  by (cases t) simp

lemma drop_nodes_upd:
  "a \<notin> A \<Longrightarrow> drop_nodes A (upd_node a n h) = upd_node a n (drop_nodes A h)"
  by (auto simp: upd_node_def drop_nodes_def restrict_map_def fun_eq_iff intro!: plheap.equality)

lemma nodes_upd_node [simp]: "nodes (upd_node a n h) = (nodes h)(a \<mapsto> n)"
  by (simp add: upd_node_def)

lemma delete_tree:
  "rep (nodes h) t \<Longrightarrow> refcnt (pt_node t) \<le> 1 \<Longrightarrow> 3 * length (addrs t) \<le> f \<Longrightarrow> distinct (addrs t) \<Longrightarrow>
   plNodeDelete f (Some (pt_addr t)) h = Some (drop_nodes (set (addrs t)) h)"
proof (induction t arbitrary: h f)
  case (PT a n ks)
  define n' where "n' = n\<lparr>refcnt := refcnt n - 1\<rparr>"
  define h' where "h' = upd_node a n' h"
  obtain f' where f: "f = Suc f'"
    using PT.prems(3) by (cases f) auto
  have na: "nodes h a = Some n" and lk: "links n ks"
    and kids: "\<forall>k \<in> set ks. rep (nodes h) k \<and> refcnt (pt_node k) = 1"
    using PT.prems(1) by auto
  have dist: "a \<notin> set (concat (map addrs ks))" "distinct (concat (map addrs ks))"
    using PT.prems(4) by auto
  have n'a: "nodes h' a = Some n'"
    by (simp add: h'_def)
  have kids': "\<forall>k \<in> set ks. rep (nodes h') k \<and> refcnt (pt_node k) = 1"
  proof
    fix k assume k: "k \<in> set ks"
    then have "a \<notin> set (addrs k)" using dist by auto
    then have "rep (nodes h') k = rep (nodes h) k"
      by (intro rep_cong) (auto simp: h'_def)
    then show "rep (nodes h') k \<and> refcnt (pt_node k) = 1"
      using kids k by simp
  qed
  have fuel: "Suc (3 * length (concat (map addrs ks))) \<le> f'"
    using PT.prems(3) f by simp
  have start: "plNodeDelete f (Some (pt_addr (PT a n ks))) h =
      do { h \<leftarrow> (case keyval n of None \<Rightarrow> Some h' | Some k \<Rightarrow> plNodeDelete f' (Some k) h');
           h \<leftarrow> plDeleteItems f' a 0 h;
           _ \<leftarrow> nodes h a;
           Some (free_node a h) }"
    using PT.prems(2) na by (simp add: f h'_def n'_def Let_def split: option.split)
  have all: "set (addrs (PT a n ks)) = insert a (set (concat (map addrs ks)))"
    by simp
  have final: "free_node a (drop_nodes A h') = drop_nodes (insert a A) h" if "a \<notin> A" for A
    using that free_node_drop [of a n' A h] by (simp add: h'_def drop_nodes_upd)
  have bag: ?case if "bag_links n ks"
  proof -
    have kv: "keyval n = None" and am: "asiz n = length ks" "asiz n \<le> length (amap n)"
      "take (asiz n) (amap n) = map (\<lambda>k. Some (pt_addr k)) ks"
      using that by (auto simp: bag_links_def)
    have "plDeleteItems f' a 0 h' = Some (drop_nodes (set (concat (map addrs ks))) h')"
      by (rule delete_items [where n = n'])
        (use PT.IH am n'a kids' dist fuel in \<open>auto simp: n'_def\<close>)
    then show ?thesis
      unfolding start all using kv n'a dist(1) by (simp add: restrict_map_def final)
  qed
  have leaf: ?case if "ks = []" "keyval n = None" "no_map n"
  proof -
    have "plDeleteItems f' a 0 h' = Some h'"
      using that n'a fuel by (cases f') (auto simp: n'_def no_map_def)
    then show ?thesis
      unfolding start all using that n'a final [of "{}"] by simp
  qed
  show ?case
  proof (cases "kind n")
    case plKindKey
    then have nm: "no_map n" and kv: "case ks of [] \<Rightarrow> keyval n = None | [k] \<Rightarrow> keyval n = Some (pt_addr k) | _ \<Rightarrow> False"
      using lk by (auto simp: links_def)
    show ?thesis
    proof (cases ks)
      case Nil
      then show ?thesis using kv nm leaf by simp
    next
      case (Cons k ks')
      with kv have ks: "ks = [k]" and kvk: "keyval n = Some (pt_addr k)"
        by (auto split: list.splits)
      have 1: "plNodeDelete f' (Some (pt_addr k)) h' = Some (drop_nodes (set (addrs k)) h')"
        using PT.IH [of k h' f'] kids' dist fuel ks by simp
      have 2: "nodes (drop_nodes (set (addrs k)) h') a = Some n'"
        using n'a dist ks by (simp add: restrict_map_def)
      have 3: "plDeleteItems f' a 0 (drop_nodes (set (addrs k)) h') = Some (drop_nodes (set (addrs k)) h')"
        using 2 nm fuel by (cases f') (auto simp: n'_def no_map_def)
      show ?thesis
        unfolding start all using 1 2 3 kvk dist ks final [of "set (addrs k)"] by simp
    qed
  qed (use lk bag leaf in \<open>auto simp: links_def\<close>)
qed

section \<open>Well-formed heaps and the constructors\<close>

definition fresh_ok :: "plheap \<Rightarrow> bool" where
  "fresh_ok h \<longleftrightarrow> (\<forall>a. fresh h \<le> a \<longrightarrow> nodes h a = None)"

text \<open>
  \<open>h'\<close> extends \<open>h\<close>: what was allocated is unchanged, new nodes are at fresh addresses.
\<close>

definition extends :: "plheap \<Rightarrow> plheap \<Rightarrow> bool" where
  "extends h h' \<longleftrightarrow> (\<forall>a. a < fresh h \<longrightarrow> nodes h' a = nodes h a) \<and> fresh h \<le> fresh h'"

definition new_tree :: "plheap \<Rightarrow> plheap \<Rightarrow> ptree \<Rightarrow> bool" where
  "new_tree h h' t \<longleftrightarrow>
     tree h' t \<and> refcnt (pt_node t) = 0 \<and> extends h h' \<and> fresh_ok h' \<and>
     (\<forall>a \<in> set (addrs t). fresh h \<le> a)"

lemma fresh_ok_addr: "fresh_ok h \<Longrightarrow> rep (nodes h) t \<Longrightarrow> a \<in> set (addrs t) \<Longrightarrow> a < fresh h"
  using rep_addrs [of "nodes h" t a] by (auto simp: fresh_ok_def not_le [symmetric])

lemma extends_refl [simp]: "extends h h"
  by (simp add: extends_def)

lemma extends_trans: "extends h h' \<Longrightarrow> extends h' h'' \<Longrightarrow> extends h h''"
  by (auto simp: extends_def)

lemma extends_tree: "fresh_ok h \<Longrightarrow> extends h h' \<Longrightarrow> tree h t \<Longrightarrow> tree h' t"
  unfolding tree_def
  using rep_cong [of t "nodes h" "nodes h'"] fresh_ok_addr [of h t] by (auto simp: extends_def)

lemma plNodeNew_fresh:
  assumes "pl_pool env sizeof_plnode" "fresh_ok h"
  shows "plNodeNew env k h = (Some (fresh h), h\<lparr>nodes := (nodes h)(fresh h \<mapsto> new_node k), fresh := Suc (fresh h)\<rparr>)"
  using assms by (simp add: plNodeNew_def)

lemma new_leaf:
  assumes "fresh_ok h" "links n []" "refcnt n = 0"
  shows "new_tree h (h\<lparr>nodes := (nodes h)(fresh h \<mapsto> n), fresh := Suc (fresh h)\<rparr>) (PT (fresh h) n [])"
  using assms by (auto simp: new_tree_def tree_def extends_def fresh_ok_def)

text \<open>A constructor builds a fresh leaf with a given value, when memory is available.\<close>

definition builds :: "(ptr \<times> plheap) option \<Rightarrow> plheap \<Rightarrow> plist \<Rightarrow> bool" where
  "builds r h v \<longleftrightarrow>
     (\<exists>h' t. r = Some (Some (pt_addr t), h') \<and> new_tree h h' t \<and> val_of t = v \<and> pt_kids t = [])"

lemma buildsI:
  assumes "r = Some (Some (fresh h), h\<lparr>nodes := (nodes h)(fresh h \<mapsto> n), fresh := Suc (fresh h)\<rparr>)"
    and "fresh_ok h" "links n []" "refcnt n = 0" "val_of (PT (fresh h) n []) = v"
  shows "builds r h v"
  unfolding builds_def
proof (intro exI conjI)
  show "new_tree h (h\<lparr>nodes := (nodes h)(fresh h \<mapsto> n), fresh := Suc (fresh h)\<rparr>) (PT (fresh h) n [])"
    by (rule new_leaf [OF assms(2-4)])
qed (use assms(1,5) in simp_all)

lemma upd_new: "upd_node a n (h\<lparr>nodes := m, fresh := k\<rparr>) = h\<lparr>nodes := m(a \<mapsto> n), fresh := k\<rparr>"
  by (simp add: upd_node_def)

lemma plDictNew_builds:
  "fresh_ok h \<Longrightarrow> pl_pool env sizeof_plnode \<Longrightarrow> builds (Some (plDictNew env h)) h (PDict [])"
  by (rule buildsI [where n = "new_node plKindDict"])
    (simp_all add: plDictNew_def plNodeNew_def new_node_def links_def bag_links_def)

lemma plArrayNew_builds:
  "fresh_ok h \<Longrightarrow> pl_pool env sizeof_plnode \<Longrightarrow> builds (Some (plArrayNew env h)) h (PArray [])"
  by (rule buildsI [where n = "new_node plKindArray"])
    (simp_all add: plArrayNew_def plNodeNew_def new_node_def links_def bag_links_def)

lemma plBoolNew_builds:
  "fresh_ok h \<Longrightarrow> pl_pool env sizeof_plnode \<Longrightarrow> builds (plBoolNew env b h) h (PBool b)"
  by (rule buildsI [where n = "(new_node plKindBool)\<lparr>intval := (if b then 1 else 0)\<rparr>"])
    (simp_all add: plBoolNew_def plNodeNew_def new_node_def links_def no_map_def upd_new)

lemma plIntegerNew_builds:
  "fresh_ok h \<Longrightarrow> pl_pool env sizeof_plnode \<Longrightarrow> builds (plIntegerNew env v h) h (PInteger v)"
  by (rule buildsI [where n = "(new_node plKindInteger)\<lparr>intval := v\<rparr>"])
    (simp_all add: plIntegerNew_def plNodeNew_def new_node_def links_def no_map_def upd_new)

definition data_node :: "plkind \<Rightarrow> byte list \<Rightarrow> plnode" where
  "data_node k d = (new_node k)\<lparr>datval := Some (d @ [0]), datlen := length d\<rparr>"

lemma data_node_facts [simp]:
  "kind (data_node k d) = k" "refcnt (data_node k d) = 0" "keyval (data_node k d) = None"
  "no_map (data_node k d)" "data_ok (data_node k d)" "data_of (data_node k d) = d"
  by (simp_all add: data_node_def new_node_def no_map_def data_ok_def data_of_def)

lemma plDataNew_new:
  assumes "fresh_ok h" "\<And>n. pl_pool env n" "length d < 2 ^ 32 - 1" "dlen = length d"
  shows "plDataNew env (Some (d @ post)) dlen h =
    Some (Some (fresh h), h\<lparr>nodes := (nodes h)(fresh h \<mapsto> data_node plKindData d), fresh := Suc (fresh h)\<rparr>)"
proof -
  have "(length d + 1) mod 2 ^ 32 = length d + 1"
    using assms(3) by simp
  with assms show ?thesis
    by (cases d) (auto simp: plDataNew_def plNodeNew_def upd_new data_node_def new_node_def rd_range_def)
qed

lemma data_kinds_build:
  assumes "fresh_ok h" "\<And>n. pl_pool env n" "length d < 2 ^ 32 - 1" "dlen = length d"
  shows "builds (plDataNew env (Some (d @ post)) dlen h) h (PData d)"
    and "builds (plStringNew env (Some (d @ post)) dlen h) h (PString d)"
    and "builds (plKeyNew env (Some (d @ post)) dlen None h) h (PKey d None)"
  subgoal
    by (rule buildsI [where n = "data_node plKindData d"])
      (use assms in \<open>simp_all add: plDataNew_new links_def\<close>)
  subgoal
    by (rule buildsI [where n = "data_node plKindString d"])
      (use assms in \<open>simp_all add: plStringNew_def plDataNew_new links_def plSetKind_def upd_new data_node_def new_node_def no_map_def data_ok_def data_of_def\<close>)
  subgoal
    by (rule buildsI [where n = "data_node plKindKey d"])
      (use assms in \<open>simp_all add: plKeyNew_def plDataNew_new links_def plSetKind_def upd_new data_node_def new_node_def no_map_def data_ok_def data_of_def\<close>)
  done

section \<open>Adding\<close>

text \<open>The array map grows by a quarter, and always has room for the new slot.\<close>

lemma plGrowMap_room:
  assumes "bag_links n ks" "\<And>k. pl_pool env k" "length ks < 2 ^ 27"
  shows "\<exists>n'. plGrowMap env n = Some n' \<and> acap n' = length (amap n') \<and> asiz n < acap n' \<and>
     acap n' \<le> Suc (asiz n) + Suc (asiz n) div 4 + 1 \<and> take (asiz n) (amap n') = take (asiz n) (amap n) \<and>
     n' = n\<lparr>acap := acap n', amap := amap n'\<rparr>"
proof (cases "acap n \<le> asiz n")
  case False
  with assms show ?thesis
    by (auto simp: plGrowMap_def bag_links_def)
next
  case True
  with assms(1) have c: "acap n = length ks" "asiz n = length ks" "length (amap n) = length ks"
    by (auto simp: bag_links_def)
  let ?c = "length ks + length ks div 4 + 1"
  have m: "?c mod 2 ^ 32 = ?c" "?c * 8 mod 2 ^ 32 = ?c * 8"
    using assms(3) by auto
  have "?c \<le> Suc (length ks) + Suc (length ks) div 4 + 1"
    by (simp add: div_le_mono)
  with True assms(2) c m show ?thesis
    by (auto simp: plGrowMap_def plrealloc_def sizeof_ptr_def Let_def)
qed

lemma rep_upd: "a \<notin> set (addrs t) \<Longrightarrow> rep (m(a := v)) t = rep m t"
  by (rule rep_cong) auto

text \<open>The effect of a successful append on the trees.\<close>

definition adds_to :: "plheap \<Rightarrow> plheap \<Rightarrow> ptree \<Rightarrow> ptree \<Rightarrow> ptree \<Rightarrow> bool" where
  "adds_to h h' bag node bag' \<longleftrightarrow>
     tree h' bag' \<and> pt_addr bag' = pt_addr bag \<and> kind (pt_node bag') = kind (pt_node bag) \<and>
     refcnt (pt_node bag') = refcnt (pt_node bag) \<and> datval (pt_node bag') = datval (pt_node bag) \<and>
     datlen (pt_node bag') = datlen (pt_node bag) \<and>
     map val_of (pt_kids bag') = map val_of (pt_kids bag) @ [val_of node] \<and>
     set (addrs bag') = set (addrs bag) \<union> set (addrs node) \<and>
     (\<forall>a. a \<notin> {pt_addr bag, pt_addr node} \<longrightarrow> nodes h' a = nodes h a) \<and> fresh h' = fresh h"

lemma val_of_refcnt: "val_of (PT a (n\<lparr>refcnt := c\<rparr>) ks) = val_of (PT a n ks)"
  by (simp add: data_of_def split: plkind.split option.split)

lemma links_refcnt [simp]: "links (n\<lparr>refcnt := c\<rparr>) ks = links n ks"
  by (simp add: links_def bag_links_def no_map_def data_ok_def split: plkind.split list.split option.split)

lemma bag_append:
  assumes "tree h (PT b bn ks)" "tree h (PT d dn ds)" "set (addrs (PT b bn ks)) \<inter> set (addrs (PT d dn ds)) = {}"
    and "kind bn = plKindArray \<or> kind bn = plKindDict" "refcnt dn = 0"
    and "\<And>k. pl_pool env k" "length ks < 2 ^ 27"
  shows "\<exists>h' bag'. plBagAppend env b d h = Some (True, h') \<and>
     adds_to h h' (PT b bn ks) (PT d dn ds) bag'"
proof -
  have bl: "bag_links bn ks" and hb: "nodes h b = Some bn" and hd: "nodes h d = Some dn"
    and ne: "b \<noteq> d" and rk: "\<forall>k \<in> set ks. rep (nodes h) k \<and> refcnt (pt_node k) = 1"
    and rd: "\<forall>k \<in> set ds. rep (nodes h) k \<and> refcnt (pt_node k) = 1" and ld: "links dn ds"
    using assms by (auto simp: tree_def links_def)
  obtain n' where g: "plGrowMap env bn = Some n'" "acap n' = length (amap n')" "asiz bn < acap n'"
    "acap n' \<le> Suc (asiz bn) + Suc (asiz bn) div 4 + 1" "take (asiz bn) (amap n') = take (asiz bn) (amap bn)"
    "n' = bn\<lparr>acap := acap n', amap := amap n'\<rparr>"
    using plGrowMap_room [OF bl assms(6,7)] by auto
  have az: "asiz n' = asiz bn" "keyval n' = keyval bn"
    by (subst g(6); simp)+
  define m where "m = (amap n')[asiz bn := Some d]"
  define n2 where "n2 = n'\<lparr>amap := m, asiz := Suc (asiz bn)\<rparr>"
  define node' where "node' = PT d (dn\<lparr>refcnt := 1\<rparr>) ds"
  define h' where "h' = upd_node d (dn\<lparr>refcnt := 1\<rparr>) (upd_node b n2 h)"
  have run: "plBagAppend env b d h = Some (True, h')"
    using hb hd ne g az assms(5)
    by (simp add: plBagAppend_def Let_def n2_def m_def h'_def)
  have "take (Suc (asiz bn)) m = map (\<lambda>k. Some (pt_addr k)) (ks @ [node'])"
    using g(2,3,5) bl by (auto simp: m_def take_Suc_conv_app_nth bag_links_def node'_def)
  then have "bag_links n2 (ks @ [node'])"
    using bl g az by (auto simp: bag_links_def n2_def m_def)
  moreover have kd: "kind n2 = kind bn" "refcnt n2 = refcnt bn" "datval n2 = datval bn" "datlen n2 = datlen bn"
    unfolding n2_def by (subst g(6); simp)+
  ultimately have "links n2 (ks @ [node'])"
    using assms(4) by (auto simp: links_def)
  moreover have "\<forall>k \<in> set ks. rep (nodes h') k" "\<forall>k \<in> set ds. rep (nodes h') k"
    using rk rd assms(1-3) by (auto simp: h'_def tree_def rep_upd)
  ultimately have "tree h' (PT b n2 (ks @ [node']))"
    using assms(1-3) ne rk rd ld by (auto simp: tree_def h'_def node'_def)
  then have "adds_to h h' (PT b bn ks) (PT d dn ds) (PT b n2 (ks @ [node']))"
    using kd val_of_refcnt [of d 1 dn ds]
    by (auto simp: adds_to_def node'_def h'_def upd_node_def)
  with run show ?thesis by blast
qed

lemma plNodeAdd_array:
  assumes "tree h bag" "tree h node" "set (addrs bag) \<inter> set (addrs node) = {}"
    and "kind (pt_node bag) = plKindArray" "refcnt (pt_node node) = 0"
    and "\<And>k. pl_pool env k" "length (pt_kids bag) < 2 ^ 27"
  shows "\<exists>h' bag'. plNodeAdd env (Some (pt_addr bag)) (Some (pt_addr node)) h = Some (True, h') \<and>
     adds_to h h' bag node bag'"
proof (cases bag; cases node)
  fix b bn ks d dn ds
  assume eqs: "bag = PT b bn ks" "node = PT d dn ds"
  then have hb: "nodes h b = Some bn"
    using assms by (auto simp: tree_def)
  then show ?thesis
    using bag_append [of h b bn ks d dn ds env] assms
    by (simp add: eqs plNodeAdd_def plNodeGetKind_def)
qed

lemma plNodeAdd_dict:
  assumes "tree h bag" "tree h node" "set (addrs bag) \<inter> set (addrs node) = {}"
    and "kind (pt_node bag) = plKindDict" "refcnt (pt_node node) = 0"
    and "kind (pt_node node) = plKindKey" "pt_kids node \<noteq> []"
    and "\<And>k. pl_pool env k" "length (pt_kids bag) < 2 ^ 27"
  shows "\<exists>h' bag'. plNodeAdd env (Some (pt_addr bag)) (Some (pt_addr node)) h = Some (True, h') \<and>
     adds_to h h' bag node bag'"
proof (cases bag; cases node)
  fix b bn ks d dn ds
  assume eqs: "bag = PT b bn ks" "node = PT d dn ds"
  then have "nodes h b = Some bn" "nodes h d = Some dn" "keyval dn \<noteq> None"
    using assms by (auto simp: tree_def links_def split: list.splits)
  then show ?thesis
    using bag_append [of h b bn ks d dn ds env] assms
    by (simp add: eqs plNodeAdd_def plNodeGetKind_def plNodeGetItem_def)
qed

lemma plNodeAdd_key:
  assumes "tree h bag" "tree h node" "set (addrs bag) \<inter> set (addrs node) = {}"
    and "kind (pt_node bag) = plKindKey" "pt_kids bag = []" "refcnt (pt_node node) = 0"
  shows "\<exists>h' bag'. plNodeAdd env (Some (pt_addr bag)) (Some (pt_addr node)) h = Some (True, h') \<and>
     adds_to h h' bag node bag'"
proof (cases bag; cases node)
  fix b bn ks d dn ds
  assume eqs: "bag = PT b bn ks" "node = PT d dn ds"
  then have hb: "nodes h b = Some bn" "keyval bn = None" and hd: "nodes h d = Some dn"
    and ne: "b \<noteq> d" and ld: "links dn ds" and lb: "no_map bn" "data_ok bn"
    and rd: "\<forall>k \<in> set ds. rep (nodes h) k \<and> refcnt (pt_node k) = 1"
    using assms by (auto simp: tree_def links_def)
  define n2 where "n2 = bn\<lparr>keyval := Some d\<rparr>"
  define node' where "node' = PT d (dn\<lparr>refcnt := 1\<rparr>) ds"
  define h' where "h' = upd_node d (dn\<lparr>refcnt := 1\<rparr>) (upd_node b n2 h)"
  have run: "plNodeAdd env (Some b) (Some d) h = Some (True, h')"
    using hb hd ne assms(4,6)
    by (simp add: eqs plNodeAdd_def plNodeGetKind_def plNodeGetItem_def Let_def n2_def h'_def)
  have "links n2 [node']"
    using assms(4) lb by (simp add: eqs links_def n2_def node'_def no_map_def data_ok_def split: option.splits)
  moreover have "\<forall>k \<in> set ds. rep (nodes h') k"
    using rd assms(1-3) by (auto simp: eqs h'_def tree_def rep_upd)
  ultimately have "tree h' (PT b n2 [node'])"
    using assms(1-3) ne rd ld by (auto simp: eqs tree_def h'_def node'_def)
  then have "adds_to h h' bag node (PT b n2 [node'])"
    using val_of_refcnt [of d 1 dn ds] assms(5)
    by (auto simp: eqs adds_to_def node'_def h'_def n2_def upd_node_def)
  with run eqs show ?thesis by auto
qed

section \<open>Lookup\<close>

fun plist_kind :: "plist \<Rightarrow> plkind" where
  "plist_kind (PArray _) = plKindArray"
| "plist_kind (PDict _) = plKindDict"
| "plist_kind (PKey _ _) = plKindKey"
| "plist_kind (PBool _) = plKindBool"
| "plist_kind (PData _) = plKindData"
| "plist_kind (PDate _) = plKindDate"
| "plist_kind (PInteger _) = plKindInteger"
| "plist_kind (PString _) = plKindString"

text \<open>The value of the first entry whose key has the given bytes.\<close>

fun dict_first :: "plist list \<Rightarrow> byte list \<Rightarrow> plist option" where
  "dict_first [] key = None"
| "dict_first (PKey k v # es) key = (if k = key then v else dict_first es key)"
| "dict_first (_ # es) key = dict_first es key"

fun tree_first :: "ptree list \<Rightarrow> byte list \<Rightarrow> ptree option" where
  "tree_first [] key = None"
| "tree_first (t # ts) key =
     (if kind (pt_node t) = plKindKey \<and> data_of (pt_node t) = key
      then (case pt_kids t of [] \<Rightarrow> None | k # _ \<Rightarrow> Some k) else tree_first ts key)"

lemma rep_not_any: "rep m t \<Longrightarrow> kind (pt_node t) \<noteq> plKindAny"
  by (cases t) (auto simp: links_def)

lemma plist_kind_val_of: "rep m t \<Longrightarrow> plist_kind (val_of t) = kind (pt_node t)"
  using rep_not_any [of m t] by (cases t) (auto split: plkind.split)

lemma tree_first_val:
  "map_option val_of (tree_first ts key) = dict_first (map val_of ts) key"
proof (induction ts)
  case (Cons t ts)
  then show ?case
    by (cases t) (auto split: plkind.split list.split)
qed simp

lemma tree_first_rep: "tree_first ts key = Some t \<Longrightarrow> \<forall>k \<in> set ts. rep m k \<Longrightarrow> rep m t"
proof (induction ts)
  case (Cons k ks)
  then show ?case
    by (cases k) (auto split: if_splits list.splits)
qed simp

lemma data_cmp:
  assumes "data_ok n" "datval n = Some d"
  shows "datlen n = length key \<Longrightarrow> plmemcmp_eq (datval n) key (length key) = Some (data_of n = key)"
  using assms by (auto simp: plmemcmp_eq_def rd_range_def data_ok_def data_of_def)

lemma bag_item:
  assumes "nodes h a = Some n" "kind n = plKindDict \<or> kind n = plKindArray" "bag_links n ks" "i < length ks"
  shows "plNodeGetItem h (Some a) i = Some (Some (pt_addr (ks ! i)))"
proof -
  have tk: "take (asiz n) (amap n) = map (\<lambda>k. Some (pt_addr k)) ks" "asiz n = length ks" "asiz n \<le> length (amap n)"
    using assms(3) unfolding bag_links_def by auto
  have "amap n ! i = take (asiz n) (amap n) ! i"
    using assms(4) tk(2) by simp
  also have "\<dots> = Some (pt_addr (ks ! i))"
    unfolding tk(1) using assms(4) by simp
  finally show ?thesis
    using assms(1,2,4) tk(2,3) by (auto simp: plNodeGetItem_def)
qed

lemma plDictScan_tree:
  assumes "nodes h a = Some n" "kind n = plKindDict" "bag_links n ks" "\<forall>k \<in> set ks. rep (nodes h) k"
    and "i \<le> length ks"
  shows "plDictScan h (Some a) key (length key) knd [i..<length ks] =
    Some (case tree_first (drop i ks) key of None \<Rightarrow> None
      | Some v \<Rightarrow> if knd = plKindAny \<or> kind (pt_node v) = knd then Some (pt_addr v) else None)"
  using assms(5)
proof (induction "length ks - i" arbitrary: i)
  case 0
  then show ?case by simp
next
  case (Suc j)
  then have i: "i < length ks" by simp
  then obtain k where k: "ks ! i = k" "drop i ks = k # drop (Suc i) ks" "k \<in> set ks"
    by (metis Cons_nth_drop_Suc nth_mem)
  have IH: "plDictScan h (Some a) key (length key) knd [Suc i..<length ks] =
    Some (case tree_first (drop (Suc i) ks) key of None \<Rightarrow> None
      | Some v \<Rightarrow> if knd = plKindAny \<or> kind (pt_node v) = knd then Some (pt_addr v) else None)"
    using Suc i by simp
  have up: "[i..<length ks] = i # [Suc i..<length ks]"
    using i by (simp add: upt_conv_Cons)
  have item: "plNodeGetItem h (Some a) i = Some (Some (pt_addr k))"
    using bag_item [OF assms(1) _ assms(3) i] assms(2) k(1) by simp
  obtain b bn bks where kk: "k = PT b bn bks"
    by (cases k)
  have kb: "nodes h b = Some bn" "links bn bks" "\<forall>k \<in> set bks. rep (nodes h) k"
    using assms(4) k(3) kk by auto
  show ?case
  proof (cases "kind bn = plKindKey \<and> datlen bn = length key")
    case False
    then have "plDictScan h (Some a) key (length key) knd (i # [Suc i..<length ks]) =
        plDictScan h (Some a) key (length key) knd [Suc i..<length ks]"
      using item kk kb by (auto simp: plNodeGetKind_def plNodeGetSize_def links_def data_ok_def
          split: plkind.splits option.splits)
    moreover have "\<not> (kind bn = plKindKey \<and> data_of bn = key)"
      using False kb(2) by (auto simp: links_def data_ok_def data_of_def split: option.splits)
    moreover from calculation have "tree_first (drop i ks) key = tree_first (drop (Suc i) ks) key"
      using k(2) kk by auto
    ultimately show ?thesis
      unfolding up by (simp only: IH)
  next
    case True
    then obtain d where d: "data_ok bn" "datval bn = Some d"
      using kb(2) by (auto simp: links_def data_ok_def split: option.splits)
    have cmp: "plmemcmp_eq (Some d) key (length key) = Some (data_of bn = key)"
      using data_cmp [OF d] True d(2) by simp
    have kv: "keyval bn = (case bks of [] \<Rightarrow> None | v # _ \<Rightarrow> Some (pt_addr v))"
      using True kb(2) by (auto simp: links_def split: list.splits)
    have vk: "plNodeGetKind h (keyval bn) = Some (case bks of [] \<Rightarrow> plKindAny | v # _ \<Rightarrow> kind (pt_node v))"
      using kv kb(3) by (cases bks; cases "hd bks") (auto simp: plNodeGetKind_def)
    have na: "kind (pt_node v) \<noteq> plKindAny" if "v \<in> set bks" for v
      using that kb(3) rep_not_any by blast
    show ?thesis
      unfolding up using item kk kb(1) True d IH k cmp kv vk na
      by (cases bks) (auto simp: plNodeGetKind_def plNodeGetSize_def plNodeGetBytes_def plNodeGetItem_def)
  qed
qed

lemma plDictFind_tree:
  assumes "rep (nodes h) (PT a n ks)" "kind n = plKindDict" "key \<noteq> []"
  shows "plDictFind h (Some a) (Some key) (length key) knd =
    Some (case tree_first ks key of None \<Rightarrow> None
      | Some v \<Rightarrow> if knd = plKindAny \<or> kind (pt_node v) = knd then Some (pt_addr v) else None)"
  using assms plDictScan_tree [of h a n ks 0 key knd]
  by (auto simp: plDictFind_def plNodeGetKind_def plNodeGetSize_def links_def bag_links_def
      Suc_le_eq)

section \<open>Properties\<close>

lemma plDictFind_value:
  assumes "tree h t" "kind (pt_node t) = plKindDict" "key \<noteq> []"
  shows "\<exists>r. plDictFind h (Some (pt_addr t)) (Some key) (length key) knd = Some r \<and>
     (case dict_first (map val_of (pt_kids t)) key of
        None \<Rightarrow> r = None
      | Some v \<Rightarrow>
          (if knd = plKindAny \<or> plist_kind v = knd
           then \<exists>vt. r = Some (pt_addr vt) \<and> rep (nodes h) vt \<and> val_of vt = v
           else r = None))"
proof (cases t)
  case (PT a n ks)
  have rep: "rep (nodes h) (PT a n ks)" and kids: "\<forall>k \<in> set ks. rep (nodes h) k"
    using assms(1) PT by (auto simp: tree_def)
  have find: "plDictFind h (Some a) (Some key) (length key) knd =
      Some (case tree_first ks key of None \<Rightarrow> None
        | Some v \<Rightarrow> if knd = plKindAny \<or> kind (pt_node v) = knd then Some (pt_addr v) else None)"
    using plDictFind_tree [OF rep _ assms(3)] assms(2) PT by simp
  show ?thesis
  proof (cases "tree_first ks key")
    case None
    then have "dict_first (map val_of ks) key = None"
      using tree_first_val [of ks key] by simp
    with None find PT show ?thesis by simp
  next
    case (Some vt)
    then have "dict_first (map val_of ks) key = Some (val_of vt)" and "rep (nodes h) vt"
      using tree_first_val [of ks key] tree_first_rep [OF Some kids] by auto
    with Some find PT show ?thesis
      by (auto simp: plist_kind_val_of)
  qed
qed

text \<open>When \<^verbatim>\<open>plNodeAdd\<close> takes a node into a bag.\<close>

definition accepts :: "ptree \<Rightarrow> ptree \<Rightarrow> bool" where
  "accepts bag node \<longleftrightarrow>
     (case kind (pt_node bag) of
        plKindArray \<Rightarrow> True
      | plKindDict \<Rightarrow> kind (pt_node node) = plKindKey \<and> pt_kids node \<noteq> []
      | plKindKey \<Rightarrow> pt_kids bag = []
      | _ \<Rightarrow> False)"

lemma plNodeAdd_refused:
  assumes "tree h bag" "tree h node" "\<not> accepts bag node"
  shows "plNodeAdd env (Some (pt_addr bag)) (Some (pt_addr node)) h = Some (False, h)"
proof (cases bag; cases node)
  fix b bn ks d dn ds
  assume eqs: "bag = PT b bn ks" "node = PT d dn ds"
  have n: "nodes h b = Some bn" "nodes h d = Some dn" "links bn ks" "links dn ds"
    using assms eqs by (auto simp: tree_def)
  have item: "kind dn = plKindKey \<Longrightarrow> ds = [] \<Longrightarrow> keyval dn = None"
    "kind bn = plKindKey \<Longrightarrow> ks \<noteq> [] \<Longrightarrow> keyval bn \<noteq> None"
    using n by (auto simp: links_def split: list.splits)
  have "plNodeGetItem h (Some d) 0 \<noteq> None"
    using n by (auto simp: plNodeGetItem_def links_def bag_links_def rd_def split: plkind.splits)
  then obtain y where y: "plNodeGetItem h (Some d) 0 = Some y" by auto
  have yk: "kind dn = plKindKey \<Longrightarrow> y = keyval dn"
    using y n by (simp add: plNodeGetItem_def)
  have bk: "kind bn = plKindKey \<Longrightarrow> plNodeGetItem h (Some b) 0 = Some (keyval bn)"
    using n by (simp add: plNodeGetItem_def)
  show ?thesis
    using n(1,2) item y yk bk assms(3)
    by (cases "kind bn") (auto simp: eqs accepts_def plNodeAdd_def plNodeGetKind_def)
qed

text \<open>
  C6. Deleting a tree of nodes whose inner nodes have one reference: with three units of fuel per
  node \<open>plNodeDelete\<close> returns. If the root has no second owner, exactly the nodes of the tree are
  freed, each once; if it has, only its reference count changes. Every other node is untouched.
\<close>

theorem plNodeDelete_frees_exactly:
  assumes "tree h t" "3 * length (addrs t) \<le> fuel"
  shows "\<exists>h'. plNodeDelete fuel (Some (pt_addr t)) h = Some h' \<and> fresh h' = fresh h \<and>
     (if refcnt (pt_node t) \<le> 1
      then \<forall>a. nodes h' a = (if a \<in> set (addrs t) then None else nodes h a)
      else nodes h' = (nodes h)(pt_addr t \<mapsto> (pt_node t)\<lparr>refcnt := refcnt (pt_node t) - 1\<rparr>))"
proof (cases "refcnt (pt_node t) \<le> 1")
  case True
  then have "plNodeDelete fuel (Some (pt_addr t)) h = Some (drop_nodes (set (addrs t)) h)"
    using assms by (intro delete_tree) (auto simp: tree_def)
  with True show ?thesis
    by (auto simp: drop_nodes_def restrict_map_def)
next
  case False
  obtain a n ks where t: "t = PT a n ks"
    by (cases t)
  obtain f where f: "fuel = Suc f"
    using assms(2) t by (cases fuel) auto
  have "nodes h a = Some n"
    using assms(1) t by (simp add: tree_def)
  with False show ?thesis
    by (simp add: t f upd_node_def Let_def)
qed

definition heap2 :: plheap where
  "heap2 = \<lparr>nodes = [0 \<mapsto> (new_node plKindKey)\<lparr>datval := Some [0x6b, 0], datlen := 1, keyval := Some 1\<rparr>,
     1 \<mapsto> (new_node plKindBool)\<lparr>refcnt := 1\<rparr>, 2 \<mapsto> new_node plKindArray], fresh = 3\<rparr>"

definition tree2 :: ptree where
  "tree2 = PT 0 ((new_node plKindKey)\<lparr>datval := Some [0x6b, 0], datlen := 1, keyval := Some 1\<rparr>)
     [PT 1 ((new_node plKindBool)\<lparr>refcnt := 1\<rparr>) []]"

lemma tree_heap2: "tree heap2 tree2" "tree heap2 (PT 2 (new_node plKindArray) [])"
  by (simp_all add: tree_def heap2_def tree2_def new_node_def links_def no_map_def data_ok_def bag_links_def)

theorem plNodeDelete_frees_exactly_witness:
  "\<exists>h'. plNodeDelete 6 (Some (pt_addr tree2)) heap2 = Some h' \<and> fresh h' = fresh heap2 \<and>
     (if refcnt (pt_node tree2) \<le> 1
      then \<forall>a. nodes h' a = (if a \<in> set (addrs tree2) then None else nodes heap2 a)
      else nodes h' = (nodes heap2)(pt_addr tree2 \<mapsto> (pt_node tree2)\<lparr>refcnt := refcnt (pt_node tree2) - 1\<rparr>))"
  by (rule plNodeDelete_frees_exactly) (rule tree_heap2, simp add: tree2_def)

lemma plNodeAdd_accepted:
  assumes "tree h bag" "tree h node" "set (addrs bag) \<inter> set (addrs node) = {}"
    and "refcnt (pt_node node) = 0" "\<And>k. pl_pool env k" "length (pt_kids bag) < 2 ^ 27" "accepts bag node"
  shows "\<exists>h' bag'. plNodeAdd env (Some (pt_addr bag)) (Some (pt_addr node)) h = Some (True, h') \<and>
      adds_to h h' bag node bag'"
proof -
  consider "kind (pt_node bag) = plKindArray"
    | "kind (pt_node bag) = plKindDict" "kind (pt_node node) = plKindKey" "pt_kids node \<noteq> []"
    | "kind (pt_node bag) = plKindKey" "pt_kids bag = []"
    using assms(7) by (auto simp: accepts_def split: plkind.splits)
  then show ?thesis
    using plNodeAdd_array [OF assms(1-3) _ assms(4-6)] plNodeAdd_dict [OF assms(1-3) _ assms(4) _ _ assms(5,6)]
      plNodeAdd_key [OF assms(1-3) _ _ assms(4)]
    by cases blast+
qed

text \<open>
  Adding a fresh node to a bag: an array takes any node, a dictionary only a key that has its
  value, a key only its first value. When the bag takes it, the bag's contents become the old
  contents with the node's value appended, the bag owns one reference to it, nodes elsewhere
  are unchanged, and the array map is grown so that the store fits. When it does not, the call
  returns 0 and changes nothing.
\<close>

theorem plNodeAdd_contract:
  assumes "tree h bag" "tree h node" "set (addrs bag) \<inter> set (addrs node) = {}"
    and "refcnt (pt_node node) = 0" "\<And>k. pl_pool env k" "length (pt_kids bag) < 2 ^ 27"
  shows "if accepts bag node
     then \<exists>h' bag'. plNodeAdd env (Some (pt_addr bag)) (Some (pt_addr node)) h = Some (True, h') \<and>
            adds_to h h' bag node bag'
     else plNodeAdd env (Some (pt_addr bag)) (Some (pt_addr node)) h = Some (False, h)"
proof (cases "accepts bag node")
  case False
  then show ?thesis
    using plNodeAdd_refused [OF assms(1,2)] by simp
next
  case True
  then have "\<exists>h' bag'. plNodeAdd env (Some (pt_addr bag)) (Some (pt_addr node)) h = Some (True, h') \<and>
      adds_to h h' bag node bag'"
    by (rule plNodeAdd_accepted [OF assms])
  with True show ?thesis by simp
qed

definition all_env :: plenv where
  "all_env = \<lparr>pl_pool = (\<lambda>_. True), pl_maxstr = 1000000, pl_dec = (\<lambda>_. 0), pl_hex = (\<lambda>_. 0),
     pl_int2str = (\<lambda>_. Some [])\<rparr>"

theorem plNodeAdd_contract_witness:
  "if accepts (PT 2 (new_node plKindArray) []) tree2
   then \<exists>h' bag'. plNodeAdd all_env (Some (pt_addr (PT 2 (new_node plKindArray) []))) (Some (pt_addr tree2)) heap2
          = Some (True, h') \<and> adds_to heap2 h' (PT 2 (new_node plKindArray) []) tree2 bag'
   else plNodeAdd all_env (Some (pt_addr (PT 2 (new_node plKindArray) []))) (Some (pt_addr tree2)) heap2
          = Some (False, heap2)"
  by (rule plNodeAdd_contract) (simp_all add: tree_heap2, simp_all add: tree2_def new_node_def all_env_def)

text \<open>
  Looking a key up in a dictionary tree finds the value of the first entry with exactly these
  key bytes, and returns the node that holds it if the wanted kind is any or the value's kind,
  NULL otherwise (a later entry with the same key is never considered). No read leaves a key's
  buffer.
\<close>

theorem plDictFind_first:
  assumes "tree h t" "kind (pt_node t) = plKindDict" "key \<noteq> []"
  shows "\<exists>r. plDictFind h (Some (pt_addr t)) (Some key) (length key) knd = Some r \<and>
     (case dict_first (map val_of (pt_kids t)) key of
        None \<Rightarrow> r = None
      | Some v \<Rightarrow>
          (if knd = plKindAny \<or> plist_kind v = knd
           then \<exists>vt. r = Some (pt_addr vt) \<and> rep (nodes h) vt \<and> val_of vt = v
           else r = None))"
  by (rule plDictFind_value [OF assms])

definition heap3 :: plheap where
  "heap3 = \<lparr>nodes = [
     0 \<mapsto> (new_node plKindDict)\<lparr>amap := [Some 1], acap := 1, asiz := 1\<rparr>,
     1 \<mapsto> (new_node plKindKey)\<lparr>datval := Some [0x6b, 0], datlen := 1, keyval := Some 2, refcnt := 1\<rparr>,
     2 \<mapsto> (new_node plKindBool)\<lparr>refcnt := 1\<rparr>], fresh = 3\<rparr>"

definition tree3 :: ptree where
  "tree3 = PT 0 ((new_node plKindDict)\<lparr>amap := [Some 1], acap := 1, asiz := 1\<rparr>)
     [PT 1 ((new_node plKindKey)\<lparr>datval := Some [0x6b, 0], datlen := 1, keyval := Some 2, refcnt := 1\<rparr>)
       [PT 2 ((new_node plKindBool)\<lparr>refcnt := 1\<rparr>) []]]"

theorem plDictFind_first_witness:
  "\<exists>r. plDictFind heap3 (Some (pt_addr tree3)) (Some [0x6b]) (length [0x6b :: byte]) plKindBool = Some r \<and>
     (case dict_first (map val_of (pt_kids tree3)) [0x6b] of
        None \<Rightarrow> r = None
      | Some v \<Rightarrow>
          (if plKindBool = plKindAny \<or> plist_kind v = plKindBool
           then \<exists>vt. r = Some (pt_addr vt) \<and> rep (nodes heap3) vt \<and> val_of vt = v
           else r = None))"
  by (rule plDictFind_first)
    (simp_all add: tree_def heap3_def tree3_def new_node_def links_def no_map_def data_ok_def bag_links_def)

end
