(* ===== verification/PlistXmlOut.thy ===== *)
theory PlistXmlOut
  imports PlistTree Base64
begin

text \<open>
  The serialiser \<^verbatim>\<open>Library/PListLib/plist_xml_out.c\<close>: a node tree written as XML text into a
  caller's buffer of fixed size. Every \<^verbatim>\<open>if (!f(...)) { return 0; }\<close> of the code is the
  combinator \<open>and_then\<close>; the inner Boolean is the C result. The store of
  \<^verbatim>\<open>_plAppendBytes\<close> is checked against the real buffer, so \<open>None\<close> would be a write out of it.

  The lemmas show that each function appends a fixed list of chunks (\<open>emit\<close>) that depends on
  the property list alone (\<open>xml\<close>); the call succeeds exactly when all of them fit.
\<close>

section \<open>The output buffer\<close>

record plbuf =
  buf_dat :: "byte list"
  buf_len :: u32
  buf_pos :: u32

definition plBufHasNum :: "plbuf \<Rightarrow> u32 \<Rightarrow> bool" where
  "plBufHasNum ibuf num \<longleftrightarrow> num \<le> buf_len ibuf - buf_pos ibuf"

definition plAppendBytes :: "byte list \<Rightarrow> u32 \<Rightarrow> plbuf \<Rightarrow> (bool \<times> plbuf) option" where
  "plAppendBytes datum dlen obuf =
     (if sint dlen < 1 then Some (True, obuf)
      else if plBufHasNum obuf dlen then do {
        x \<leftarrow> rd_range datum 0 (unat dlen);
        m \<leftarrow> wr_range (buf_dat obuf) (unat (buf_pos obuf)) x;
        Some (True, obuf\<lparr>buf_dat := m, buf_pos := buf_pos obuf + dlen\<rparr>) }
      else Some (False, obuf))"

definition and_then ::
  "(plbuf \<Rightarrow> (bool \<times> plbuf) option) \<Rightarrow> (plbuf \<Rightarrow> (bool \<times> plbuf) option) \<Rightarrow> plbuf \<Rightarrow> (bool \<times> plbuf) option"
where
  "and_then f g obuf =
     (case f obuf of
        None \<Rightarrow> None
      | Some (ok, obuf) \<Rightarrow> if ok then g obuf else Some (False, obuf))"

definition done_ok :: "plbuf \<Rightarrow> (bool \<times> plbuf) option" where
  "done_ok obuf = Some (True, obuf)"

definition when_ok :: "bool \<Rightarrow> (plbuf \<Rightarrow> (bool \<times> plbuf) option) \<Rightarrow> plbuf \<Rightarrow> (bool \<times> plbuf) option" where
  "when_ok c f = (if c then f else done_ok)"

section \<open>Tags\<close>

primrec plIndentXml :: "nat \<Rightarrow> plbuf \<Rightarrow> (bool \<times> plbuf) option" where
  "plIndentXml 0 = done_ok"
| "plIndentXml (Suc i) = and_then (plAppendBytes (lit ''  '') 2) (plIndentXml i)"

definition nl_text :: "byte list" where
  "nl_text = [10]"

definition plNodeTagToXml ::
  "nat \<Rightarrow> byte list \<Rightarrow> u32 \<Rightarrow> bool \<Rightarrow> bool \<Rightarrow> plbuf \<Rightarrow> (bool \<times> plbuf) option"
where
  "plNodeTagToXml indent name nmlen nl tlr =
     and_then (plIndentXml indent)
     (and_then (plAppendBytes (lit ''<'') 1)
     (and_then (when_ok tlr (plAppendBytes (lit ''/'') 1))
     (and_then (plAppendBytes name nmlen)
     (and_then (plAppendBytes (lit ''>'') 1)
     (when_ok nl (plAppendBytes nl_text 1))))))"

definition plEmptyNodeTagToXml ::
  "nat \<Rightarrow> byte list \<Rightarrow> u32 \<Rightarrow> bool \<Rightarrow> plbuf \<Rightarrow> (bool \<times> plbuf) option"
where
  "plEmptyNodeTagToXml indent name nmlen nl =
     and_then (plIndentXml indent)
     (and_then (plAppendBytes (lit ''<'') 1)
     (and_then (plAppendBytes name nmlen)
     (and_then (plAppendBytes (lit ''/>'') 2)
     (when_ok nl (plAppendBytes nl_text 1)))))"

section \<open>Leaves\<close>

definition plStrToXml ::
  "plheap \<Rightarrow> ptr \<Rightarrow> byte list \<Rightarrow> u32 \<Rightarrow> nat \<Rightarrow> plbuf \<Rightarrow> (bool \<times> plbuf) option"
where
  "plStrToXml h ipl name nlen indent obuf =
     do {
       bsize \<leftarrow> plNodeGetSize h ipl;
       bp \<leftarrow> plNodeGetBytes h ipl;
       and_then (plNodeTagToXml indent name nlen False False)
       (and_then (when_ok (bsize > 0)
          (\<lambda>obuf. case bp of
             None \<Rightarrow> Some (False, obuf)
           | Some bp \<Rightarrow> plAppendBytes bp (of_nat bsize) obuf))
       (plNodeTagToXml 0 name nlen True True)) obuf }"

definition plBytesToXml ::
  "plenv \<Rightarrow> plheap \<Rightarrow> ptr \<Rightarrow> byte list \<Rightarrow> u32 \<Rightarrow> nat \<Rightarrow> plbuf \<Rightarrow> (bool \<times> plbuf) option"
where
  "plBytesToXml env h ipl name nlen indent obuf =
     do {
       bsize \<leftarrow> plNodeGetSize h ipl;
       bytes \<leftarrow> plNodeGetBytes h ipl;
       and_then (plNodeTagToXml indent name nlen False False)
       (and_then (when_ok (bsize > 0)
          (\<lambda>obuf. case bytes of
             None \<Rightarrow> Some (False, obuf)
           | Some bytes \<Rightarrow> do {
               odat \<leftarrow> plb64encode (pl_pool env) bytes (of_nat bsize);
               (case odat of
                  None \<Rightarrow> Some (False, obuf)
                | Some (odat, osize) \<Rightarrow> plAppendBytes odat osize obuf) }))
       (plNodeTagToXml 0 name nlen True True)) obuf }"

definition plBoolToXml :: "plheap \<Rightarrow> ptr \<Rightarrow> nat \<Rightarrow> plbuf \<Rightarrow> (bool \<times> plbuf) option" where
  "plBoolToXml h ipl indent obuf =
     do {
       b \<leftarrow> plBoolGet h ipl;
       if b then plEmptyNodeTagToXml indent (lit ''true'') 4 True obuf
       else plEmptyNodeTagToXml indent (lit ''false'') 5 True obuf }"

text \<open>
  \<open>_plint2str\<close> with a buffer of 32 bytes: the text of the value, or the empty text when the
  conversion reports an error.
\<close>

definition plint2str :: "plenv \<Rightarrow> u64 \<Rightarrow> byte list" where
  "plint2str env val = (case pl_int2str env val of None \<Rightarrow> [] | Some s \<Rightarrow> s)"

definition plIntToXml ::
  "plenv \<Rightarrow> plheap \<Rightarrow> ptr \<Rightarrow> byte list \<Rightarrow> u32 \<Rightarrow> nat \<Rightarrow> plbuf \<Rightarrow> (bool \<times> plbuf) option"
where
  "plIntToXml env h ipl name nlen indent =
     and_then (plNodeTagToXml indent name nlen False False)
     (and_then (\<lambda>obuf. do {
         v \<leftarrow> plIntegerGet h ipl;
         let vbuf = plint2str env v;
         plAppendBytes vbuf (of_nat (length vbuf)) obuf })
     (plNodeTagToXml 0 name nlen True True))"

definition plDateToXml :: "byte list \<Rightarrow> u32 \<Rightarrow> nat \<Rightarrow> plbuf \<Rightarrow> (bool \<times> plbuf) option" where
  "plDateToXml name nlen indent =
     and_then (plNodeTagToXml indent name nlen False False) (plNodeTagToXml 0 name nlen True True)"

section \<open>Trees\<close>

text \<open>
  The recursion over the heap needs fuel, one unit per level of nesting; running out of it is
  \<open>None\<close>. A level is given the next one as \<open>rec\<close>, for the nodes below it. The loop of
  \<^verbatim>\<open>_plBagToXml\<close> runs over the indices of the bag.
\<close>

type_synonym xml_rec = "ptr \<Rightarrow> nat \<Rightarrow> plbuf \<Rightarrow> (bool \<times> plbuf) option"

primrec plBagItems :: "xml_rec \<Rightarrow> plheap \<Rightarrow> ptr \<Rightarrow> nat \<Rightarrow> nat list \<Rightarrow> plbuf \<Rightarrow> (bool \<times> plbuf) option" where
  "plBagItems rec h ipl indent [] = done_ok"
| "plBagItems rec h ipl indent (i # is) =
     and_then (\<lambda>obuf. do {
         spn \<leftarrow> plNodeGetItem h ipl i;
         when_ok (spn \<noteq> None) (rec spn (indent + 1)) obuf })
       (plBagItems rec h ipl indent is)"

definition plBagToXml ::
  "xml_rec \<Rightarrow> plheap \<Rightarrow> ptr \<Rightarrow> byte list \<Rightarrow> u32 \<Rightarrow> nat \<Rightarrow> plbuf \<Rightarrow> (bool \<times> plbuf) option"
where
  "plBagToXml rec h ipl name nlen indent obuf =
     do {
       bsize \<leftarrow> plNodeGetSize h ipl;
       if bsize = 0 then plEmptyNodeTagToXml indent name nlen True obuf
       else
         and_then (plNodeTagToXml indent name nlen True False)
         (and_then (plBagItems rec h ipl indent [0..<bsize])
         (plNodeTagToXml indent name nlen True True)) obuf }"

primrec plNode2Xml :: "nat \<Rightarrow> plenv \<Rightarrow> plheap \<Rightarrow> ptr \<Rightarrow> nat \<Rightarrow> plbuf \<Rightarrow> (bool \<times> plbuf) option" where
  "plNode2Xml 0 env h ipl indent obuf = None"
| "plNode2Xml (Suc f) env h ipl indent obuf =
     (if ipl = None then Some (True, obuf)
      else do {
        k \<leftarrow> plNodeGetKind h ipl;
        (case k of
           plKindDict \<Rightarrow> plBagToXml (plNode2Xml f env h) h ipl (lit ''dict'') 4 indent obuf
         | plKindArray \<Rightarrow> plBagToXml (plNode2Xml f env h) h ipl (lit ''array'') 5 indent obuf
         | plKindKey \<Rightarrow>
             and_then (plStrToXml h ipl (lit ''key'') 3 indent)
               (\<lambda>obuf. do {
                  item \<leftarrow> plNodeGetItem h ipl 0;
                  plNode2Xml f env h item (indent + 1) obuf }) obuf
         | plKindString \<Rightarrow> plStrToXml h ipl (lit ''string'') 6 indent obuf
         | plKindData \<Rightarrow> plBytesToXml env h ipl (lit ''data'') 4 indent obuf
         | plKindBool \<Rightarrow> plBoolToXml h ipl indent obuf
         | plKindInteger \<Rightarrow> plIntToXml env h ipl (lit ''integer'') 7 indent obuf
         | plKindDate \<Rightarrow> plDateToXml (lit ''date'') 4 indent obuf
         | plKindAny \<Rightarrow> Some (False, obuf)) })"

definition plXmlHdr1 :: "byte list" where
  "plXmlHdr1 = lit ''<?xml version=\"1.0\" encoding=\"UTF-8\"?>'' @ nl_text"

definition plXmlHdr2 :: "byte list" where
  "plXmlHdr2 = lit (''<!DOCTYPE plist PUBLIC \"-//Apple//DTD PLIST 1.0//EN\" '' @
     ''\"http://www.apple.com/DTDs/PropertyList-1.0.dtd\">'') @ nl_text"

definition plXmlHdr3 :: "byte list" where
  "plXmlHdr3 = lit ''<plist version=\"1.0\">'' @ nl_text"

definition plXmlTlr1 :: "byte list" where
  "plXmlTlr1 = lit ''</plist>'' @ nl_text"

definition plNodeToXml :: "nat \<Rightarrow> plenv \<Rightarrow> plheap \<Rightarrow> ptr \<Rightarrow> plbuf \<Rightarrow> (bool \<times> plbuf) option" where
  "plNodeToXml fuel env h pl =
     and_then (plAppendBytes plXmlHdr1 (of_nat (length plXmlHdr1)))
     (and_then (plAppendBytes plXmlHdr2 (of_nat (length plXmlHdr2)))
     (and_then (plAppendBytes plXmlHdr3 (of_nat (length plXmlHdr3)))
     (and_then (plNode2Xml fuel env h pl 1)
     (plAppendBytes plXmlTlr1 (of_nat (length plXmlTlr1))))))"

section \<open>The text of a property list\<close>

definition tag_chunks :: "nat \<Rightarrow> byte list \<Rightarrow> bool \<Rightarrow> bool \<Rightarrow> byte list list" where
  "tag_chunks ind name nl tlr =
     replicate ind (lit ''  '') @ [lit ''<''] @ (if tlr then [lit ''/''] else []) @ [name, lit ''>''] @
     (if nl then [nl_text] else [])"

definition empty_chunks :: "nat \<Rightarrow> byte list \<Rightarrow> byte list list" where
  "empty_chunks ind name = replicate ind (lit ''  '') @ [lit ''<'', name, lit ''/>'', nl_text]"

definition leaf_chunks :: "nat \<Rightarrow> byte list \<Rightarrow> byte list \<Rightarrow> byte list list" where
  "leaf_chunks ind name txt = tag_chunks ind name False False @ [txt] @ tag_chunks 0 name True True"

fun xml :: "plenv \<Rightarrow> nat \<Rightarrow> plist \<Rightarrow> byte list list" where
  "xml env ind (PDict es) =
     (if es = [] then empty_chunks ind (lit ''dict'')
      else tag_chunks ind (lit ''dict'') True False @ concat (map (xml env (ind + 1)) es) @
        tag_chunks ind (lit ''dict'') True True)"
| "xml env ind (PArray es) =
     (if es = [] then empty_chunks ind (lit ''array'')
      else tag_chunks ind (lit ''array'') True False @ concat (map (xml env (ind + 1)) es) @
        tag_chunks ind (lit ''array'') True True)"
| "xml env ind (PKey k v) =
     leaf_chunks ind (lit ''key'') k @ (case v of None \<Rightarrow> [] | Some v \<Rightarrow> xml env (ind + 1) v)"
| "xml env ind (PBool b) = empty_chunks ind (if b then lit ''true'' else lit ''false'')"
| "xml env ind (PData d) = leaf_chunks ind (lit ''data'') (b64_spec d)"
| "xml env ind (PDate d) = leaf_chunks ind (lit ''date'') []"
| "xml env ind (PInteger v) = leaf_chunks ind (lit ''integer'') (plint2str env v)"
| "xml env ind (PString s) = leaf_chunks ind (lit ''string'') s"

definition xml_text :: "plenv \<Rightarrow> plist \<Rightarrow> byte list" where
  "xml_text env v = plXmlHdr1 @ plXmlHdr2 @ plXmlHdr3 @ concat (xml env 1 v) @ plXmlTlr1"

section \<open>Appending chunks\<close>

definition buf_ok :: "plbuf \<Rightarrow> bool" where
  "buf_ok b \<longleftrightarrow> unat (buf_pos b) \<le> unat (buf_len b) \<and> unat (buf_len b) \<le> length (buf_dat b)"

definition room :: "plbuf \<Rightarrow> nat" where
  "room b = unat (buf_len b) - unat (buf_pos b)"

definition put :: "byte list \<Rightarrow> plbuf \<Rightarrow> plbuf" where
  "put c b = b\<lparr>buf_dat := take (unat (buf_pos b)) (buf_dat b) @ c @ drop (unat (buf_pos b) + length c) (buf_dat b),
     buf_pos := buf_pos b + of_nat (length c)\<rparr>"

primrec emit :: "byte list list \<Rightarrow> plbuf \<Rightarrow> (bool \<times> plbuf) option" where
  "emit [] b = Some (True, b)"
| "emit (c # cs) b = (if length c \<le> room b then emit cs (put c b) else Some (False, b))"

definition writes :: "(plbuf \<Rightarrow> (bool \<times> plbuf) option) \<Rightarrow> byte list list \<Rightarrow> bool" where
  "writes f cs \<longleftrightarrow> (\<forall>b. buf_ok b \<longrightarrow> f b = emit cs b)"

lemma put_pos:
  assumes "buf_ok b" "length c \<le> room b"
  shows "unat (buf_pos b + of_nat (length c)) = unat (buf_pos b) + length c"
proof -
  have lt: "unat (buf_pos b) + length c < 2 ^ 32"
    using assms word_unat_lt [of "buf_len b"] by (auto simp: buf_ok_def room_def)
  then have "unat (of_nat (length c) :: u32) = length c"
    by (simp add: unat_of_nat take_bit_nat_eq_self)
  with lt show ?thesis
    by (subst unat_plus_simple [THEN iffD1]) (auto simp: word_le_nat_alt unat_word_ariths)
qed

lemma put_ok:
  assumes "buf_ok b" "length c \<le> room b"
  shows "buf_ok (put c b)" "room (put c b) = room b - length c" "buf_len (put c b) = buf_len b"
    "length (buf_dat (put c b)) = length (buf_dat b)"
  using assms put_pos [OF assms] by (auto simp: put_def buf_ok_def room_def)

lemma put_Nil [simp]: "put [] b = b"
  by (simp add: put_def)

lemma put_put:
  assumes "buf_ok b" "length c + length d \<le> room b"
  shows "put d (put c b) = put (c @ d) b"
proof -
  have c: "length c \<le> room b" using assms(2) by simp
  have p: "unat (buf_pos b) \<le> length (buf_dat b)" "unat (buf_pos b) + length c + length d \<le> length (buf_dat b)"
    using assms by (auto simp: buf_ok_def room_def)
  show ?thesis
    using put_pos [OF assms(1) c] p by (simp add: put_def add.commute add.left_commute ac_simps)
qed

lemma emit_append: "emit (cs @ ds) b = and_then (emit cs) (emit ds) b"
  by (induction cs arbitrary: b) (auto simp: and_then_def)

lemma emit_ok: "buf_ok b \<Longrightarrow> emit cs b = Some (ok, b') \<Longrightarrow> buf_ok b'"
  by (induction cs arbitrary: b) (auto dest: put_ok(1) split: if_splits)

text \<open>All chunks go in when they fit together; otherwise a prefix of them does.\<close>

lemma emit_fits:
  "buf_ok b \<Longrightarrow> length (concat cs) \<le> room b \<Longrightarrow> emit cs b = Some (True, put (concat cs) b)"
  by (induction cs arbitrary: b) (auto simp: put_ok put_put)

lemma emit_full:
  "buf_ok b \<Longrightarrow> room b < length (concat cs) \<Longrightarrow>
   \<exists>n. length (take n (concat cs)) \<le> room b \<and> emit cs b = Some (False, put (take n (concat cs)) b)"
proof (induction cs arbitrary: b)
  case (Cons c cs)
  show ?case
  proof (cases "length c \<le> room b")
    case False
    then show ?thesis
      by (intro exI [of _ 0]) simp
  next
    case True
    have "room (put c b) < length (concat cs)"
      using Cons.prems True put_ok(2) [of b c] by (simp add: less_diff_conv2 add.commute)
    then obtain n where n: "length (take n (concat cs)) \<le> room (put c b)"
      "emit cs (put c b) = Some (False, put (take n (concat cs)) (put c b))"
      using Cons.IH [OF put_ok(1) [OF Cons.prems(1) True]] by blast
    have fit: "length c + length (take n (concat cs)) \<le> room b"
      using n(1) True put_ok(2) [OF Cons.prems(1) True] by linarith
    then show ?thesis
      using n True put_put [OF Cons.prems(1) fit]
      by (intro exI [of _ "length c + n"]) (simp add: take_add)
  qed
qed simp

named_theorems writes_intros \<open>what the pieces of the serialiser append\<close>

lemma writes_done [writes_intros]: "writes done_ok []"
  by (simp add: writes_def done_ok_def)

lemma writes_then: "writes f cs \<Longrightarrow> writes g ds \<Longrightarrow> writes (and_then f g) (cs @ ds)"
  by (auto simp: writes_def emit_append and_then_def split: option.split dest: emit_ok)

lemma writes_when: "(c \<Longrightarrow> writes f cs) \<Longrightarrow> writes (when_ok c f) (if c then cs else [])"
  by (simp add: writes_def when_ok_def done_ok_def)

lemma writes_cong: "writes f cs \<Longrightarrow> cs = ds \<Longrightarrow> writes f ds"
  by simp

lemma writes_bytes:
  assumes "unat n \<le> length d" "unat n < 2 ^ 31"
  shows "writes (plAppendBytes d n) [take (unat n) d]"
  unfolding writes_def
proof (intro allI impI)
  fix b assume b: "buf_ok b"
  have s: "sint n < 1 \<longleftrightarrow> unat n = 0"
    using sint_small [of n] assms(2) by (simp del: of_nat_unat)
  have fits: "plBufHasNum b n \<longleftrightarrow> unat n \<le> room b"
    using b by (simp add: plBufHasNum_def room_def word_le_nat_alt unat_sub buf_ok_def)
  show "plAppendBytes d n b = emit [take (unat n) d] b"
  proof (cases "unat n = 0")
    case True
    then show ?thesis using s by (simp add: plAppendBytes_def)
  next
    case False
    then show ?thesis
      using s fits assms b
      by (auto simp: plAppendBytes_def rd_range_def wr_range_def put_def buf_ok_def room_def)
  qed
qed

lemma writes_text: "unat n = length d \<Longrightarrow> length d < 2 ^ 31 \<Longrightarrow> writes (plAppendBytes d n) [d]"
  using writes_bytes [of n d] by simp


section \<open>Each function appends its chunks\<close>

lemma writes_indent [writes_intros]: "writes (plIndentXml ind) (replicate ind (lit ''  ''))"
proof (induction ind)
  case (Suc ind)
  have "writes (plAppendBytes (lit ''  '') 2) [lit ''  '']"
    by (rule writes_text) simp_all
  then show ?case
    using writes_then [OF _ Suc.IH] by fastforce
qed (simp add: writes_done)

lemma writes_tag [writes_intros]:
  assumes "unat nlen = length name" "length name < 2 ^ 31"
  shows "writes (plNodeTagToXml ind name nlen nl tlr) (tag_chunks ind name nl tlr)"
  unfolding plNodeTagToXml_def
  by (rule writes_cong)
    (rule writes_then writes_when writes_indent writes_text | use assms in \<open>simp add: tag_chunks_def nl_text_def\<close>)+

lemma writes_empty [writes_intros]:
  assumes "unat nlen = length name" "length name < 2 ^ 31"
  shows "writes (plEmptyNodeTagToXml ind name nlen True) (empty_chunks ind name)"
  unfolding plEmptyNodeTagToXml_def
  by (rule writes_cong)
    (rule writes_then writes_when writes_indent writes_text | use assms in \<open>simp add: empty_chunks_def nl_text_def\<close>)+

lemma writes_leaf:
  assumes "unat nlen = length name" "length name < 2 ^ 31" "writes f [txt]"
  shows "writes (and_then (plNodeTagToXml ind name nlen False False) (and_then f (plNodeTagToXml 0 name nlen True True)))
    (leaf_chunks ind name txt)"
  unfolding leaf_chunks_def using assms by (intro writes_then writes_tag)

text \<open>What the serialiser can carry: lengths that fit the signed lengths of the code.\<close>

fun small :: "plist \<Rightarrow> bool" where
  "small (PDict es) \<longleftrightarrow> (\<forall>e \<in> set es. small e)"
| "small (PArray es) \<longleftrightarrow> (\<forall>e \<in> set es. small e)"
| "small (PKey k v) \<longleftrightarrow> length k < 2 ^ 31 \<and> (case v of None \<Rightarrow> True | Some v \<Rightarrow> small v)"
| "small (PData d) \<longleftrightarrow> length d < 2 ^ 30"
| "small (PString s) \<longleftrightarrow> length s < 2 ^ 31"
| "small _ \<longleftrightarrow> True"

fun pdepth :: "plist \<Rightarrow> nat" where
  "pdepth (PDict es) = Suc (foldr (\<lambda>e d. max (pdepth e) d) es 0)"
| "pdepth (PArray es) = Suc (foldr (\<lambda>e d. max (pdepth e) d) es 0)"
| "pdepth (PKey k v) = Suc (case v of None \<Rightarrow> 1 | Some v \<Rightarrow> pdepth v)"
| "pdepth _ = 1"

lemma foldr_max_le: "foldr (\<lambda>e d. max (g e) d) es 0 \<le> (n::nat) \<longleftrightarrow> (\<forall>e \<in> set es. g e \<le> n)"
  by (induction es) auto

definition xml_env :: "plenv \<Rightarrow> bool" where
  "xml_env env \<longleftrightarrow> (\<forall>n. pl_pool env n) \<and> (\<forall>v. length (plint2str env v) < 32)"

lemma data_read:
  assumes "nodes h a = Some n" "data_ok n" "kind n = plKindKey \<or> kind n = plKindString \<or> kind n = plKindData"
  shows "plNodeGetSize h (Some a) = Some (length (data_of n))"
    and "\<exists>d. plNodeGetBytes h (Some a) = Some (Some d) \<and> take (length (data_of n)) d = data_of n \<and>
      length (data_of n) \<le> length d"
  using assms by (auto simp: plNodeGetSize_def plNodeGetBytes_def data_ok_def data_of_def split: option.splits)

lemma writes_skip_empty: "(n > 0 \<Longrightarrow> writes f [txt]) \<Longrightarrow> (n = 0 \<Longrightarrow> txt = []) \<Longrightarrow> writes (when_ok (n > (0::nat)) f) [txt]"
  by (cases "n = 0") (auto simp: when_ok_def writes_def done_ok_def)

lemma writes_str:
  assumes "nodes h a = Some n" "data_ok n" "kind n = plKindKey \<or> kind n = plKindString"
    and "length (data_of n) < 2 ^ 31" "unat nlen = length name" "length name < 2 ^ 31"
  shows "writes (plStrToXml h (Some a) name nlen ind) (leaf_chunks ind name (data_of n))"
proof -
  obtain d where d: "plNodeGetSize h (Some a) = Some (length (data_of n))"
    "plNodeGetBytes h (Some a) = Some (Some d)" "take (length (data_of n)) d = data_of n"
    "length (data_of n) \<le> length d"
    using data_read [OF assms(1,2)] assms(3) by blast
  have "writes (plAppendBytes d (of_nat (length (data_of n)))) [data_of n]"
    using writes_bytes [of "of_nat (length (data_of n))" d] d(3,4) assms(4) by (simp add: unat_small)
  then have "writes (when_ok (length (data_of n) > 0) (plAppendBytes d (of_nat (length (data_of n))))) [data_of n]"
    by (rule writes_skip_empty) simp
  from writes_leaf [OF assms(5,6) this] show ?thesis
    using d by (simp add: writes_def plStrToXml_def)
qed

lemma writes_b64:
  assumes "xml_env env" "0 < length x" "length x < 2 ^ 30" "take (length x) d = x" "length x \<le> length d"
  shows "writes (\<lambda>obuf. do {
      odat \<leftarrow> plb64encode (pl_pool env) d (of_nat (length x));
      (case odat of None \<Rightarrow> Some (False, obuf) | Some (odat, osize) \<Rightarrow> plAppendBytes odat osize obuf) }) [b64_spec x]"
proof -
  let ?e = "b64_spec x"
  have l: "length ?e < 2 ^ 31"
    using length_b64_spec_bound [OF assms(3)] .
  have u: "unat (of_nat (length x) :: u32) = length x"
    using assms(3) by (simp add: unat_small)
  have "plb64encode (pl_pool env) d (of_nat (length x)) = Some (Some (?e @ replicate 4 0, of_nat (length ?e)))"
    using encode_refines_spec [of "pl_pool env" "of_nat (length x)" d] assms u
    by (simp add: xml_env_def)
  moreover have "writes (plAppendBytes (?e @ replicate 4 0) (of_nat (length ?e))) [?e]"
    using writes_bytes [of "of_nat (length ?e)" "?e @ replicate 4 0"] l by (simp add: unat_small)
  ultimately show ?thesis
    by (simp add: writes_def)
qed

lemma writes_data:
  assumes "nodes h a = Some n" "data_ok n" "kind n = plKindData" "xml_env env"
    and "length (data_of n) < 2 ^ 30" "unat nlen = length name" "length name < 2 ^ 31"
  shows "writes (plBytesToXml env h (Some a) name nlen ind) (leaf_chunks ind name (b64_spec (data_of n)))"
proof -
  obtain d where d: "plNodeGetSize h (Some a) = Some (length (data_of n))"
    "plNodeGetBytes h (Some a) = Some (Some d)" "take (length (data_of n)) d = data_of n"
    "length (data_of n) \<le> length d"
    using data_read [OF assms(1,2)] assms(3) by blast
  have w: "writes (when_ok (length (data_of n) > 0) (\<lambda>obuf. do {
      odat \<leftarrow> plb64encode (pl_pool env) d (of_nat (length (data_of n)));
      (case odat of None \<Rightarrow> Some (False, obuf) | Some (odat, osize) \<Rightarrow> plAppendBytes odat osize obuf) }))
      [b64_spec (data_of n)]"
    by (rule writes_skip_empty) (use writes_b64 [OF assms(4) _ assms(5) d(3,4)] in auto)
  from writes_leaf [OF assms(6,7) w] show ?thesis
    using d by (simp add: writes_def plBytesToXml_def)
qed

lemma writes_bool:
  assumes "nodes h a = Some n"
  shows "writes (plBoolToXml h (Some a) ind) (empty_chunks ind (if intval n \<noteq> 0 then lit ''true'' else lit ''false''))"
  using assms writes_empty [of 4 "lit ''true''" ind] writes_empty [of 5 "lit ''false''" ind]
  by (auto simp: writes_def plBoolToXml_def plBoolGet_def)

lemma writes_int:
  assumes "nodes h a = Some n" "xml_env env" "unat nlen = length name" "length name < 2 ^ 31"
  shows "writes (plIntToXml env h (Some a) name nlen ind) (leaf_chunks ind name (plint2str env (intval n)))"
proof -
  have "length (plint2str env (intval n)) < 32"
    using assms(2) by (simp add: xml_env_def)
  then have "writes (plAppendBytes (plint2str env (intval n)) (of_nat (length (plint2str env (intval n)))))
      [plint2str env (intval n)]"
    by (intro writes_text) (simp_all add: unat_small)
  then have "writes (\<lambda>obuf. do {
         v \<leftarrow> plIntegerGet h (Some a);
         let vbuf = plint2str env v;
         plAppendBytes vbuf (of_nat (length vbuf)) obuf }) [plint2str env (intval n)]"
    using assms(1) by (simp add: writes_def plIntegerGet_def)
  from writes_leaf [OF assms(3,4) this] show ?thesis
    by (simp add: plIntToXml_def)
qed

lemma writes_date:
  assumes "unat nlen = length name" "length name < 2 ^ 31"
  shows "writes (plDateToXml name nlen ind) (leaf_chunks ind name [])"
proof -
  have "emit (leaf_chunks ind name []) b = emit (tag_chunks ind name False False @ tag_chunks 0 name True True) b" for b
    by (simp add: leaf_chunks_def emit_append and_then_def split: option.split)
  moreover have "writes (plDateToXml name nlen ind) (tag_chunks ind name False False @ tag_chunks 0 name True True)"
    unfolding plDateToXml_def using assms by (intro writes_then writes_tag)
  ultimately show ?thesis
    by (simp add: writes_def)
qed

lemma writes_items:
  assumes "\<And>i. i \<in> set is \<Longrightarrow> plNodeGetItem h (Some a) i = Some (Some (pt_addr (ks ! i)))"
    and "\<And>i. i \<in> set is \<Longrightarrow> writes (rec (Some (pt_addr (ks ! i))) (ind + 1)) (g (ks ! i))"
  shows "writes (plBagItems rec h (Some a) ind is) (concat (map (\<lambda>i. g (ks ! i)) is))"
  using assms
proof (induction "is")
  case (Cons i "is")
  have "writes (\<lambda>obuf. do { spn \<leftarrow> plNodeGetItem h (Some a) i; when_ok (spn \<noteq> None) (rec spn (ind + 1)) obuf })
      (g (ks ! i))"
    using Cons.prems by (simp add: when_ok_def)
  moreover have "writes (plBagItems rec h (Some a) ind is) (concat (map (\<lambda>i. g (ks ! i)) is))"
    using Cons.prems by (intro Cons.IH) auto
  ultimately show ?case
    using writes_then by fastforce
qed (simp add: writes_done)

lemma writes_bag:
  assumes "nodes h a = Some n" "kind n = plKindDict \<or> kind n = plKindArray" "bag_links n ks"
    and "\<And>k. k \<in> set ks \<Longrightarrow> writes (rec (Some (pt_addr k)) (ind + 1)) (g k)"
    and "unat nlen = length name" "length name < 2 ^ 31"
  shows "writes (plBagToXml rec h (Some a) name nlen ind)
    (if ks = [] then empty_chunks ind name
     else tag_chunks ind name True False @ concat (map g ks) @ tag_chunks ind name True True)"
proof -
  have sz: "plNodeGetSize h (Some a) = Some (length ks)"
    using assms(1-3) by (auto simp: plNodeGetSize_def bag_links_def)
  have g: "concat (map g ks) = concat (map (\<lambda>i. g (ks ! i)) [0..<length ks])"
    by (metis (no_types, lifting) ext comp_apply list.map_comp map_nth)
  have "writes (plBagItems rec h (Some a) ind [0..<length ks]) (concat (map g ks))"
    unfolding g by (rule writes_items) (use assms in \<open>auto simp: bag_item\<close>)
  then have "writes (and_then (plNodeTagToXml ind name nlen True False)
         (and_then (plBagItems rec h (Some a) ind [0..<length ks])
         (plNodeTagToXml ind name nlen True True)))
      (tag_chunks ind name True False @ concat (map g ks) @ tag_chunks ind name True True)"
    using assms(5,6) by (intro writes_then writes_tag)
  moreover have "writes (plEmptyNodeTagToXml ind name nlen True) (empty_chunks ind name)"
    using assms(5,6) by (rule writes_empty)
  ultimately show ?thesis
    using sz by (simp add: writes_def plBagToXml_def)
qed


lemma writes_node:
  "rep (nodes h) t \<Longrightarrow> small (val_of t) \<Longrightarrow> pdepth (val_of t) \<le> f \<Longrightarrow> xml_env env \<Longrightarrow>
   writes (plNode2Xml f env h (Some (pt_addr t)) ind) (xml env ind (val_of t))"
proof (induction t arbitrary: f ind)
  case (PT a n ks)
  obtain f' where f: "f = Suc f'"
    using PT.prems(3) by (cases f) (auto split: plkind.splits)
  have na: "nodes h a = Some n" and lk: "links n ks" and kids: "\<forall>k \<in> set ks. rep (nodes h) k"
    using PT.prems(1) by auto
  have kind: "plNodeGetKind h (Some a) = Some (kind n)"
    using na by (simp add: plNodeGetKind_def)
  have bag: "writes (plBagToXml (plNode2Xml f' env h) h (Some a) name nlen ind)
      (if ks = [] then empty_chunks ind name
       else tag_chunks ind name True False @ concat (map (\<lambda>k. xml env (ind + 1) (val_of k)) ks) @
         tag_chunks ind name True True)"
    if "kind n = plKindDict \<or> kind n = plKindArray" "unat nlen = length name" "length name < 2 ^ 31" for name nlen
  proof (rule writes_bag [OF na that(1) _ _ that(2,3)])
    show "bag_links n ks"
      using that(1) lk by (auto simp: links_def)
    fix k
    assume k: "k \<in> set ks"
    show "writes (plNode2Xml f' env h (Some (pt_addr k)) (ind + 1)) (xml env (ind + 1) (val_of k))"
      using k PT.prems(2-4) kids that(1) f
      by (intro PT.IH) (auto simp: foldr_map o_def foldr_max_le)
  qed
  show ?case
  proof (cases "kind n")
    case plKindAny
    with lk show ?thesis by (simp add: links_def)
  next
    case plKindArray
    then show ?thesis
      using bag [of 5 "lit ''array''"] kind f
      by (simp add: writes_def o_def)
  next
    case plKindDict
    then show ?thesis
      using bag [of 4 "lit ''dict''"] kind f
      by (simp add: writes_def o_def)
  next
    case plKindBool
    then show ?thesis
      using writes_bool [OF na] kind f by (simp add: writes_def)
  next
    case plKindData
    then have "writes (plBytesToXml env h (Some a) (lit ''data'') 4 ind) (leaf_chunks ind (lit ''data'') (b64_spec (data_of n)))"
      using lk PT.prems by (intro writes_data [OF na]) (auto simp: links_def)
    then show ?thesis
      using plKindData kind f by (simp add: writes_def)
  next
    case plKindDate
    then show ?thesis
      using writes_date [of 4 "lit ''date''" ind] kind f by (simp add: writes_def)
  next
    case plKindInteger
    then show ?thesis
      using writes_int [OF na PT.prems(4), of 7 "lit ''integer''" ind] kind f by (simp add: writes_def)
  next
    case plKindString
    then have "writes (plStrToXml h (Some a) (lit ''string'') 6 ind) (leaf_chunks ind (lit ''string'') (data_of n))"
      using lk PT.prems by (intro writes_str [OF na]) (auto simp: links_def)
    then show ?thesis
      using plKindString kind f by (simp add: writes_def)
  next
    case plKindKey
    then have str: "writes (plStrToXml h (Some a) (lit ''key'') 3 ind) (leaf_chunks ind (lit ''key'') (data_of n))"
      using lk PT.prems by (intro writes_str [OF na]) (auto simp: links_def)
    have kv: "case ks of [] \<Rightarrow> keyval n = None | [k] \<Rightarrow> keyval n = Some (pt_addr k) | _ \<Rightarrow> False"
      using lk plKindKey by (auto simp: links_def)
    have item: "plNodeGetItem h (Some a) 0 = Some (keyval n)"
      using na plKindKey by (simp add: plNodeGetItem_def)
    have "writes (plNode2Xml f' env h (keyval n) (ind + 1))
        (case ks of [] \<Rightarrow> [] | k # _ \<Rightarrow> xml env (ind + 1) (val_of k))"
    proof (cases ks)
      case Nil
      then show ?thesis
        using kv PT.prems(3) f plKindKey by (cases f') (auto simp: writes_def)
    next
      case (Cons k ks')
      then have "writes (plNode2Xml f' env h (Some (pt_addr k)) (ind + 1)) (xml env (ind + 1) (val_of k))"
        using PT.prems kids f plKindKey by (intro PT.IH) auto
      with Cons kv show ?thesis by (auto split: list.splits)
    qed
    from writes_then [OF str this] show ?thesis
      using plKindKey kind f item by (cases ks) (auto simp: writes_def and_then_def)
  qed
qed

lemma writes_plist:
  assumes "rep (nodes h) t" "small (val_of t)" "pdepth (val_of t) \<le> f" "xml_env env"
  shows "writes (plNodeToXml f env h (Some (pt_addr t)))
    ([plXmlHdr1] @ [plXmlHdr2] @ [plXmlHdr3] @ xml env 1 (val_of t) @ [plXmlTlr1])"
  unfolding plNodeToXml_def
  by (intro writes_then writes_node assms writes_text)
    (simp_all add: unat_small plXmlHdr1_def plXmlHdr2_def plXmlHdr3_def plXmlTlr1_def nl_text_def)

section \<open>Property\<close>

text \<open>
  C2. The serialiser is the rendering \<open>xml_text\<close> of the property list in the heap: on a
  represented tree, with fuel for its depth, \<^verbatim>\<open>plNodeToXml\<close> returns 1 exactly when the whole text
  fits between the write position and the end of the buffer, and then the text stands there. When it
  does not fit, it returns 0 and a prefix of the text has been written. In both cases no byte
  outside the window has changed and no access leaves the buffer.
\<close>

theorem plNodeToXml_refines:
  assumes "rep (nodes h) t" "small (val_of t)" "pdepth (val_of t) \<le> fuel" "xml_env env" "buf_ok b"
  shows "if length (xml_text env (val_of t)) \<le> room b
     then plNodeToXml fuel env h (Some (pt_addr t)) b = Some (True, put (xml_text env (val_of t)) b)
     else \<exists>n. length (take n (xml_text env (val_of t))) \<le> room b \<and>
       plNodeToXml fuel env h (Some (pt_addr t)) b = Some (False, put (take n (xml_text env (val_of t))) b)"
proof -
  let ?cs = "[plXmlHdr1] @ [plXmlHdr2] @ [plXmlHdr3] @ xml env 1 (val_of t) @ [plXmlTlr1]"
  have t: "xml_text env (val_of t) = concat ?cs"
    by (simp add: xml_text_def)
  have e: "plNodeToXml fuel env h (Some (pt_addr t)) b = emit ?cs b"
    using writes_plist [OF assms(1-4)] assms(5) by (simp add: writes_def)
  show ?thesis
    unfolding t e using emit_fits [OF assms(5), of ?cs] emit_full [OF assms(5), of ?cs] by (auto simp: not_le)
qed

definition blank_buf :: "nat \<Rightarrow> plbuf" where
  "blank_buf n = \<lparr>buf_dat = replicate n 0, buf_len = of_nat n, buf_pos = 0\<rparr>"

theorem plNodeToXml_refines_witness:
  "if length (xml_text all_env (val_of tree3)) \<le> room (blank_buf 300)
     then plNodeToXml 3 all_env heap3 (Some (pt_addr tree3)) (blank_buf 300) =
       Some (True, put (xml_text all_env (val_of tree3)) (blank_buf 300))
     else \<exists>n. length (take n (xml_text all_env (val_of tree3))) \<le> room (blank_buf 300) \<and>
       plNodeToXml 3 all_env heap3 (Some (pt_addr tree3)) (blank_buf 300) =
         Some (False, put (take n (xml_text all_env (val_of tree3))) (blank_buf 300))"
  by (rule plNodeToXml_refines)
    (simp_all add: heap3_def tree3_def new_node_def links_def no_map_def data_ok_def bag_links_def data_of_def
      xml_env_def all_env_def plint2str_def buf_ok_def blank_buf_def)

end
