(* ===== verification/PlistParse.thy ===== *)
theory PlistParse
  imports PlistNode Base64
begin

text \<open>
  The XML parser \<^verbatim>\<open>Library/PListLib/plist_xml_parser.c\<close>. The code parses in place: it writes NULs
  into its working copy of the text to end tag names and element texts. Every function here takes
  the buffer from the pointer the code passes on, and gives the buffer back, of the same length,
  with those NULs written; a read past its end is \<open>None\<close>. A status other than 0 is the inner
  \<open>None\<close>. The symbol table (reference-counted strings) and the list of free tags are threaded as
  the state \<open>pst\<close>; of the free tags only the number matters.

  \<^verbatim>\<open>*tag\<close> has three outcomes, because the tag \<^verbatim>\<open>plist\<close> leaves it unchanged: \<open>Stale\<close>, the NULL
  pointer and a new tag. A chain of tags (\<^verbatim>\<open>tag\<close>, \<^verbatim>\<open>tagNext\<close>) is a list. When the code makes a
  cyclic chain (of tags in a list, or of free tags), or leaves a dangling head behind, the model
  stops with the outer \<open>None\<close>: every continuation of the code then loops or frees twice. Field
  \<^verbatim>\<open>offset\<close> is written by the code and never read, and is left out.
\<close>

section \<open>Tags, symbols and the parser state\<close>

datatype tag_type =
  kTagTypeNone | kTagTypeDict | kTagTypeKey | kTagTypeString | kTagTypeInteger |
  kTagTypeData | kTagTypeDate | kTagTypeFalse | kTagTypeTrue | kTagTypeArray

text \<open>
  The fields in the order of the \<open>struct\<close>; a field the constructor of a type does not store is
  dead for that type and is 0 or NULL here.
\<close>

datatype tag = Tag (tg_type: tag_type) (tg_string: "byte list option") (tg_data: "byte list option")
  (tg_dataLen: nat) (tg_intval: u64) (tg_tag: "tag list")

record pst =
  psymbols :: "(byte list \<times> nat) list"
  pnfree :: nat

definition sizeof_tag :: nat where
  "sizeof_tag = 56"

definition sizeof_symbol :: nat where
  "sizeof_symbol = 24"

definition symbol_string_offset :: nat where
  "symbol_string_offset = 16"

definition PListXMLFindSymbol :: "byte list \<Rightarrow> pst \<Rightarrow> nat option" where
  "PListXMLFindSymbol s st = map_option snd (find (\<lambda>p. fst p = s) (psymbols st))"

primrec upd_symbol :: "byte list \<Rightarrow> nat \<Rightarrow> (byte list \<times> nat) list \<Rightarrow> (byte list \<times> nat) list" where
  "upd_symbol s c [] = []"
| "upd_symbol s c (p # ps) =
     (if fst p = s then (if c = 0 then ps else (s, c) # ps) else p # upd_symbol s c ps)"

definition PListXMLNewSymbol :: "plenv \<Rightarrow> byte list \<Rightarrow> pst \<Rightarrow> byte list option \<times> pst" where
  "PListXMLNewSymbol env s st =
     (case PListXMLFindSymbol s st of
        None \<Rightarrow>
          if \<not> pl_pool env (sizeof_symbol + 1 + length s) then (None, st)
          else if length s + 1 > pl_maxstr env then (None, st)
          else (Some s, st\<lparr>psymbols := (s, 1) # psymbols st\<rparr>)
      | Some c \<Rightarrow> (Some s, st\<lparr>psymbols := upd_symbol s (c + 1) (psymbols st)\<rparr>))"

definition PListXMLFreeSymbol :: "byte list \<Rightarrow> pst \<Rightarrow> pst" where
  "PListXMLFreeSymbol s st =
     (case PListXMLFindSymbol s st of
        None \<Rightarrow> st
      | Some c \<Rightarrow> st\<lparr>psymbols := upd_symbol s (c - 1) (psymbols st)\<rparr>)"

text \<open>The memory of a symbol from its string on: the zero-filled block the string was copied into.\<close>

definition symbol_mem :: "byte list \<Rightarrow> byte list" where
  "symbol_mem s = s @ replicate (sizeof_symbol + 1 - symbol_string_offset) 0"

definition PListXMLNewTag :: "plenv \<Rightarrow> pst \<Rightarrow> bool \<times> pst" where
  "PListXMLNewTag env st =
     (if pnfree st = 0 then (pl_pool env sizeof_tag, st) else (True, st\<lparr>pnfree := pnfree st - 1\<rparr>))"

text \<open>\<^verbatim>\<open>PListXMLFreeTag\<close> on the head of a chain: its symbol, its sub-chain, the rest of the chain, itself.\<close>

fun PListXMLFreeTag :: "tag list \<Rightarrow> pst \<Rightarrow> pst" where
  "PListXMLFreeTag [] st = st"
| "PListXMLFreeTag (Tag ty s d dl iv sub # next) st =
     (let st = (case s of None \<Rightarrow> st | Some s \<Rightarrow> PListXMLFreeSymbol s st);
          st = PListXMLFreeTag sub st;
          st = PListXMLFreeTag next st
      in st\<lparr>pnfree := pnfree st + 1\<rparr>)"

text \<open>
  A tag just taken is given back when its symbol cannot be made. A tag from the free list still
  links to the next free one then, which would be freed again.
\<close>

definition PListXMLFreeNewTag :: "pst \<Rightarrow> nat \<Rightarrow> pst option" where
  "PListXMLFreeNewTag st k = (if k > 0 then None else Some (st\<lparr>pnfree := pnfree st + 1\<rparr>))"

text \<open>
  The list of symbols is freed but its head stays: on a non-empty list it dangles, and the next
  parse would read freed memory.
\<close>

definition PListXMLCleanup :: "pst \<Rightarrow> pst option" where
  "PListXMLCleanup st = (if psymbols st = [] then Some (st\<lparr>pnfree := 0\<rparr>) else None)"

section \<open>Scanning\<close>

text \<open>The loop \<^verbatim>\<open>while ((buffer[cnt] != '\0') && (buffer[cnt] != c)) { cnt++; }\<close>\<close>

primrec scan_to :: "byte \<Rightarrow> byte list \<Rightarrow> nat option" where
  "scan_to c [] = None"
| "scan_to c (x # xs) = (if x = 0 \<or> x = c then Some 0 else map_option Suc (scan_to c xs))"

text \<open>The results: the offset of the tag name, \<^verbatim>\<open>*start\<close>, \<^verbatim>\<open>*length\<close> and the buffer.\<close>

definition PListXMLGetNextTag :: "byte list \<Rightarrow> (nat \<times> nat \<times> nat \<times> byte list) option option" where
  "PListXMLGetNextTag buffer =
     do {
       cnt \<leftarrow> scan_to 0x3c buffer;
       if buffer ! cnt = 0 then Some None
       else do {
         k \<leftarrow> scan_to 0x3e (drop (cnt + 1) buffer);
         let cnt2 = cnt + 1 + k;
         if buffer ! cnt2 = 0 then Some None
         else Some (Some (cnt + 1, cnt, cnt2 + 1, buffer[cnt2 := 0])) } }"

lemma scan_to_less: "scan_to c buf = Some n \<Longrightarrow> n < length buf"
  by (induction buf arbitrary: n) (auto split: if_splits)

lemma GetNextTag_Some:
  assumes "PListXMLGetNextTag buf = Some (Some (toff, start, len, buf'))"
  shows "length buf' = length buf" "2 \<le> len" "len \<le> length buf" "toff = start + 1" "toff < len" "buf' = buf[len - 1 := 0]"
proof -
  obtain cnt k where c: "scan_to 0x3c buf = Some cnt" "scan_to 0x3e (drop (cnt + 1) buf) = Some k"
    "toff = cnt + 1" "start = cnt" "len = cnt + 1 + k + 1" "buf' = buf[cnt + 1 + k := 0]"
    using assms unfolding PListXMLGetNextTag_def by (auto split: bind_splits if_splits simp: Let_def)
  moreover have "cnt + 1 + k < length buf"
    using scan_to_less [OF c(1)] scan_to_less [OF c(2)] by simp
  ultimately show "length buf' = length buf" "2 \<le> len" "len \<le> length buf" "toff = start + 1" "toff < len" "buf' = buf[len - 1 := 0]"
    by auto
qed

lemma GetNextTag_shorter:
  assumes "PListXMLGetNextTag buf = Some (Some (toff, start, len, buf'))"
  shows "length buf' - len < length buf \<and> length buf' = length buf"
  using GetNextTag_Some(1-3) [OF assms] by linarith

text \<open>The results: \<^verbatim>\<open>*lenPtr\<close> and the buffer.\<close>

function PListXMLFixDataMatchingTag :: "byte list \<Rightarrow> byte list \<Rightarrow> (nat \<times> byte list) option option" where
  "PListXMLFixDataMatchingTag buffer tag =
     do {
       r \<leftarrow> PListXMLGetNextTag buffer;
       (case r of
          None \<Rightarrow> Some None
        | Some (endTag, stop, len, buffer) \<Rightarrow> do {
            name \<leftarrow> cstr buffer endTag;
            if name = 0x2f # tag then Some (Some (len, buffer[stop := 0]))
            else do {
              r \<leftarrow> PListXMLFixDataMatchingTag (drop len buffer) tag;
              (case r of
                 None \<Rightarrow> Some None
               | Some (l, rest) \<Rightarrow> Some (Some (len + l, take len buffer @ rest))) } }) }"
  by pat_completeness auto

termination
  by (relation "measure (\<lambda>(buffer, tag). length buffer)") (auto dest!: GetNextTag_shorter)

declare PListXMLFixDataMatchingTag.simps [simp del]

text \<open>\<^verbatim>\<open>_plstr2vlong\<close>: the conversions of text to integers are services of EDK2's BaseLib.\<close>

definition plstr2vlong :: "plenv \<Rightarrow> byte list \<Rightarrow> nat \<Rightarrow> u64 option" where
  "plstr2vlong env vbuf bsz =
     (if bsz < 1 then Some 0
      else do {
        w \<leftarrow> rd_range vbuf 0 (min bsz 39);
        let negative = (0x2d \<in> set w);
        let wptr = (if negative then Suc (length (takeWhile (\<lambda>c. c \<noteq> 0x2d) w)) else 0);
        s \<leftarrow> cstr (w @ [0]) wptr;
        let rval = (if 0x78 \<in> set (drop wptr w) \<or> 0x58 \<in> set (drop wptr w)
                    then pl_hex env s else pl_dec env s);
        Some (if negative then 0 - rval else rval) })"

section \<open>Elements\<close>

datatype tagres = Stale | NullTag | NewTag tag

text \<open>
  The result of the parsing functions: \<^verbatim>\<open>*tag\<close>, \<^verbatim>\<open>*lenPtr\<close> and the buffer when the status is 0,
  and the state in any case.
\<close>

type_synonym presult = "((tagres \<times> nat \<times> byte list) option \<times> pst) option"

definition PListXMLParseTagString :: "plenv \<Rightarrow> byte list \<Rightarrow> pst \<Rightarrow> presult" where
  "PListXMLParseTagString env buffer st =
     do {
       r \<leftarrow> PListXMLFixDataMatchingTag buffer (lit ''string'');
       (case r of
          None \<Rightarrow> Some (None, st)
        | Some (len, buffer) \<Rightarrow>
            (case PListXMLNewTag env st of
               (False, st) \<Rightarrow> Some (None, st)
             | (True, st) \<Rightarrow> do {
                 s \<leftarrow> cstr buffer 0;
                 (case PListXMLNewSymbol env s st of
                    (None, st') \<Rightarrow> do { st'' \<leftarrow> PListXMLFreeNewTag st' (pnfree st); Some (None, st'') }
                  | (Some string, st) \<Rightarrow>
                      Some (Some (NewTag (Tag kTagTypeString (Some string) None (length s) 0 []), len, buffer), st)) })) }"

text \<open>
  \<open>len0\<close> is what \<^verbatim>\<open>*lenPtr\<close> holds at the call: when the text begins with another tag the function
  returns without storing it.
\<close>

definition PListXMLParseTagInteger :: "plenv \<Rightarrow> byte list \<Rightarrow> nat \<Rightarrow> pst \<Rightarrow> presult" where
  "PListXMLParseTagInteger env buffer len0 st =
     do {
       r \<leftarrow> PListXMLFixDataMatchingTag buffer (lit ''integer'');
       (case r of
          None \<Rightarrow> Some (None, st)
        | Some (len, buffer) \<Rightarrow>
            (case PListXMLNewTag env st of
               (False, st) \<Rightarrow> Some (None, st)
             | (True, st) \<Rightarrow> do {
                 c \<leftarrow> rd buffer 0;
                 if c = 0x3c then Some (Some (NewTag (Tag kTagTypeInteger None None 0 0 []), len0, buffer), st)
                 else do {
                   integer \<leftarrow> plstr2vlong env buffer len;
                   Some (Some (NewTag (Tag kTagTypeInteger None None 0 integer []), len, buffer), st) } })) }"

text \<open>
  The symbol is not checked for NULL, and the decoder is given the length of the element with its
  end tag.
\<close>

definition PListXMLParseTagData :: "plenv \<Rightarrow> byte list \<Rightarrow> pst \<Rightarrow> presult" where
  "PListXMLParseTagData env buffer st =
     do {
       r \<leftarrow> PListXMLFixDataMatchingTag buffer (lit ''data'');
       (case r of
          None \<Rightarrow> Some (None, st)
        | Some (len, buffer) \<Rightarrow>
            (case PListXMLNewTag env st of
               (False, st) \<Rightarrow> Some (None, st)
             | (True, st) \<Rightarrow> do {
                 s \<leftarrow> cstr buffer 0;
                 let (string, st) = PListXMLNewSymbol env s st;
                 d \<leftarrow> (case string of
                        None \<Rightarrow> Some None
                      | Some s \<Rightarrow> plb64decode (pl_pool env) (symbol_mem s) (of_nat len));
                 (case d of
                    None \<Rightarrow> Some (Some (NewTag (Tag kTagTypeData string None 0 0 []), len, buffer), st)
                  | Some (dat, dl) \<Rightarrow>
                      Some (Some (NewTag (Tag kTagTypeData string (Some dat) (unat dl) 0 []), len, buffer), st)) })) }"

definition PListXMLParseTagDate :: "plenv \<Rightarrow> byte list \<Rightarrow> pst \<Rightarrow> presult" where
  "PListXMLParseTagDate env buffer st =
     do {
       r \<leftarrow> PListXMLFixDataMatchingTag buffer (lit ''date'');
       (case r of
          None \<Rightarrow> Some (None, st)
        | Some (len, buffer) \<Rightarrow>
            (case PListXMLNewTag env st of
               (False, st) \<Rightarrow> Some (None, st)
             | (True, st) \<Rightarrow>
                 Some (Some (NewTag (Tag kTagTypeDate None None 0 0 []), len, buffer), st))) }"

definition PListXMLParseTagBoolean :: "plenv \<Rightarrow> byte list \<Rightarrow> tag_type \<Rightarrow> pst \<Rightarrow> presult" where
  "PListXMLParseTagBoolean env buffer type st =
     (case PListXMLNewTag env st of
        (False, st) \<Rightarrow> Some (None, st)
      | (True, st) \<Rightarrow> Some (Some (NewTag (Tag type None None 0 0 []), 0, buffer), st))"

text \<open>
  The recursive functions are given the parser of the next element as \<open>rec\<close>, and fuel for their
  loop. In \<open>list_items\<close> the chain built so far is \<open>tags\<close>, and \<open>cyc\<close> says that its last tag links
  to itself, which the next new tag repairs. The chain is freed when an element fails.
\<close>

type_synonym parse_rec = "byte list \<Rightarrow> pst \<Rightarrow> presult"

primrec list_items ::
  "nat \<Rightarrow> parse_rec \<Rightarrow> byte list \<Rightarrow> tag list \<Rightarrow> bool \<Rightarrow> pst \<Rightarrow> ((tag list \<times> nat \<times> byte list) option \<times> pst) option"
where
  "list_items 0 rec buffer tags cyc st = None"
| "list_items (Suc n) rec buffer tags cyc st =
     do {
       r \<leftarrow> rec buffer st;
       (case r of
          (None, st) \<Rightarrow> if cyc then None else Some (None, PListXMLFreeTag tags st)
        | (Some (t, len, buffer), st) \<Rightarrow>
            (let next = (\<lambda>tags cyc. do {
                   r \<leftarrow> list_items n rec (drop len buffer) tags cyc st;
                   (case r of
                      (None, st) \<Rightarrow> Some (None, st)
                    | (Some (tags, l, rest), st) \<Rightarrow>
                        Some (Some (tags, len + l, take len buffer @ rest), st)) });
                 finish = (if cyc then None else Some (Some (tags, len, buffer), st))
             in case t of
                  NullTag \<Rightarrow> finish
                | NewTag t \<Rightarrow> next (tags @ [t]) False
                | Stale \<Rightarrow> if tags = [] then finish else next tags True)) }"

definition PListXMLParseTagList ::
  "nat \<Rightarrow> plenv \<Rightarrow> parse_rec \<Rightarrow> byte list \<Rightarrow> tag_type \<Rightarrow> bool \<Rightarrow> pst \<Rightarrow> presult"
where
  "PListXMLParseTagList n env rec buffer type is_empty st =
     do {
       r \<leftarrow> (if is_empty then Some (Some ([], 0, buffer), st) else list_items n rec buffer [] False st);
       (case r of
          (None, st) \<Rightarrow> Some (None, st)
        | (Some (tags, pos, buffer), st) \<Rightarrow>
            (case PListXMLNewTag env st of
               (False, st) \<Rightarrow> Some (None, PListXMLFreeTag tags st)
             | (True, st) \<Rightarrow> Some (Some (NewTag (Tag type None None 0 0 tags), pos, buffer), st))) }"

definition PListXMLParseTagKey :: "plenv \<Rightarrow> parse_rec \<Rightarrow> byte list \<Rightarrow> pst \<Rightarrow> presult" where
  "PListXMLParseTagKey env rec buffer st =
     do {
       r \<leftarrow> PListXMLFixDataMatchingTag buffer (lit ''key'');
       (case r of
          None \<Rightarrow> Some (None, st)
        | Some (len, buffer) \<Rightarrow> do {
            r \<leftarrow> rec (drop len buffer) st;
            (case r of
               (None, st) \<Rightarrow> Some (None, st)
             | (Some (t, len2, rest), st) \<Rightarrow>
                 (let subTag = (case t of NewTag t \<Rightarrow> [t] | _ \<Rightarrow> []);
                      buffer = take len buffer @ rest
                  in case PListXMLNewTag env st of
                       (False, st) \<Rightarrow> Some (None, PListXMLFreeTag subTag st)
                     | (True, st) \<Rightarrow> do {
                         s \<leftarrow> cstr buffer 0;
                         (case PListXMLNewSymbol env s st of
                            (None, st') \<Rightarrow> do {
                              st'' \<leftarrow> PListXMLFreeNewTag (PListXMLFreeTag subTag st') (pnfree st);
                              Some (None, st'') }
                          | (Some string, st) \<Rightarrow>
                              Some (Some (NewTag (Tag kTagTypeKey (Some string) None (length s) 0 subTag),
                                len + len2, buffer), st)) })) }) }"

text \<open>The element at \<^verbatim>\<open>buffer + pos\<close>, whose length is added to \<^verbatim>\<open>pos\<close>.\<close>

definition at_pos :: "nat \<Rightarrow> byte list \<Rightarrow> (byte list \<Rightarrow> presult) \<Rightarrow> presult" where
  "at_pos pos buffer f =
     do {
       r \<leftarrow> f (drop pos buffer);
       (case r of
          (None, st) \<Rightarrow> Some (None, st)
        | (Some (t, len, rest), st) \<Rightarrow> Some (Some (t, pos + len, take pos buffer @ rest), st)) }"

text \<open>
  The chain of comparisons of \<^verbatim>\<open>PListXMLParseNextTag\<close>, once the name of the tag is known.
\<close>

definition parse_element ::
  "nat \<Rightarrow> plenv \<Rightarrow> parse_rec \<Rightarrow> byte list \<Rightarrow> nat \<Rightarrow> byte list \<Rightarrow> pst \<Rightarrow> presult"
where
  "parse_element n env rec tagName pos buffer st =
     (let parse_list = (\<lambda>ty is_empty. at_pos pos buffer
            (\<lambda>b. PListXMLParseTagList n env rec b ty is_empty st)) in
      if tagName = lit ''plist'' then Some (Some (Stale, pos, buffer), st)
      else if tagName = lit ''dict'' then parse_list kTagTypeDict False
      else if tagName = lit ''dict/'' then parse_list kTagTypeDict True
      else if tagName = lit ''dict '' then parse_list kTagTypeDict False
      else if tagName = lit ''key'' then at_pos pos buffer (\<lambda>b. PListXMLParseTagKey env rec b st)
      else if tagName = lit ''string'' then at_pos pos buffer (\<lambda>b. PListXMLParseTagString env b st)
      else if tagName = lit ''integer'' \<or> tagName = lit ''integer '' then
        at_pos pos buffer (\<lambda>b. PListXMLParseTagInteger env b pos st)
      else if tagName = lit ''data'' \<or> tagName = lit ''data '' then
        at_pos pos buffer (\<lambda>b. PListXMLParseTagData env b st)
      else if tagName = lit ''date'' then at_pos pos buffer (\<lambda>b. PListXMLParseTagDate env b st)
      else if tagName = lit ''false/'' then
        at_pos pos buffer (\<lambda>b. PListXMLParseTagBoolean env b kTagTypeFalse st)
      else if tagName = lit ''true/'' then
        at_pos pos buffer (\<lambda>b. PListXMLParseTagBoolean env b kTagTypeTrue st)
      else if tagName = lit ''array'' then parse_list kTagTypeArray False
      else if tagName = lit ''array '' then parse_list kTagTypeArray False
      else if tagName = lit ''array/'' then parse_list kTagTypeArray True
      else Some (Some (NullTag, pos, buffer), st))"

primrec PListXMLParseNextTag :: "nat \<Rightarrow> plenv \<Rightarrow> byte list \<Rightarrow> pst \<Rightarrow> presult" where
  "PListXMLParseNextTag 0 env buffer st = None"
| "PListXMLParseNextTag (Suc f) env buffer st =
     do {
       r \<leftarrow> PListXMLGetNextTag buffer;
       (case r of
          None \<Rightarrow> Some (None, st)
        | Some (tagp, _, pos, buffer) \<Rightarrow> do {
            tagName \<leftarrow> cstr buffer tagp;
            parse_element f env (PListXMLParseNextTag f env) tagName pos buffer st }) }"

declare PListXMLParseNextTag.simps(2) [simp del]

text \<open>
  The loop at the top level: \<open>freed\<close> says that \<^verbatim>\<open>tag\<close> points to a tag that has been freed.
\<close>

primrec parse_top :: "nat \<Rightarrow> plenv \<Rightarrow> byte list \<Rightarrow> bool \<Rightarrow> pst \<Rightarrow> (tag option \<times> pst) option" where
  "parse_top 0 env buffer freed st = None"
| "parse_top (Suc f) env buffer freed st =
     do {
       r \<leftarrow> PListXMLParseNextTag f env buffer st;
       (case r of
          (None, st) \<Rightarrow> Some (None, st)
        | (Some (t, len, buffer), st) \<Rightarrow>
            (case t of
               NullTag \<Rightarrow> parse_top f env (drop len buffer) False st
             | Stale \<Rightarrow> if freed then None else parse_top f env (drop len buffer) False st
             | NewTag t \<Rightarrow>
                 if tg_type t = kTagTypeDict then Some (Some t, st)
                 else parse_top f env (drop len buffer) True (PListXMLFreeTag [t] st))) }"

text \<open>The working copy has one byte more than the caller says there are, and that byte is copied too.\<close>

definition PListXMLParse :: "nat \<Rightarrow> plenv \<Rightarrow> byte list \<Rightarrow> u32 \<Rightarrow> pst \<Rightarrow> (tag option \<times> pst) option" where
  "PListXMLParse f env buffer bSize st =
     (let bufferSize = bSize + 1 in
      if bufferSize = 0 \<or> \<not> pl_pool env (unat bufferSize) then Some (None, st)
      else do {
        configBuffer \<leftarrow> rd_range buffer 0 (unat bufferSize);
        parse_top f env configBuffer False st })"

primrec prop_scan :: "tag list \<Rightarrow> byte list \<Rightarrow> tag list" where
  "prop_scan [] key = []"
| "prop_scan (t # ts) key =
     (if tg_type t \<noteq> kTagTypeKey \<or> tg_string t = None then prop_scan ts key
      else if tg_string t = Some key then tg_tag t else prop_scan ts key)"

definition PListXMLGetProperty :: "tag option \<Rightarrow> byte list \<Rightarrow> tag list" where
  "PListXMLGetProperty dict key =
     (case dict of
        None \<Rightarrow> []
      | Some dict \<Rightarrow> if tg_type dict \<noteq> kTagTypeDict then [] else prop_scan (tg_tag dict) key)"

end
