(* ===== verification/PlistParseFacts.thy ===== *)
theory PlistParseFacts
  imports PlistGrow
begin

text \<open>
  Facts of the parser of \<^verbatim>\<open>Library/PListLib/plist_xml_parser.c\<close>: what it does on the text of a
  readable property list (\<open>parses_body\<close>), the books of the symbol table on any text
  (\<open>balanced_next\<close>), and the fuel it needs (\<open>next_fuel\<close>, \<open>top_fuel\<close>).
\<close>

section \<open>The parser on well-formed text\<close>

definition no_stop :: "byte \<Rightarrow> byte list \<Rightarrow> bool" where
  "no_stop c xs \<longleftrightarrow> c \<notin> set xs \<and> 0 \<notin> set xs"

lemma no_stop_append [simp]: "no_stop c (xs @ ys) \<longleftrightarrow> no_stop c xs \<and> no_stop c ys"
  by (auto simp: no_stop_def)

lemma no_stop_Cons [simp]: "no_stop c (x # ys) \<longleftrightarrow> x \<noteq> c \<and> x \<noteq> 0 \<and> no_stop c ys"
  by (auto simp: no_stop_def)

lemma no_stop_Nil [simp]: "no_stop c []"
  by (simp add: no_stop_def)

lemma scan_to_append: "no_stop c xs \<Longrightarrow> scan_to c (xs @ c # ys) = Some (length xs)"
  by (induction xs) auto

lemma GetNextTag_text:
  assumes "no_stop 0x3c ws" "no_stop 0x3e name"
  shows "PListXMLGetNextTag (ws @ 0x3c # name @ 0x3e # rest) =
    Some (Some (length ws + 1, length ws, length ws + length name + 2, ws @ 0x3c # name @ 0 # rest))"
  using assms by (simp add: PListXMLGetNextTag_def scan_to_append nth_append list_update_append)

lemma cstr_here: "0 \<notin> set s \<Longrightarrow> cstr (s @ 0 # rest) 0 = Some s"
  using cstr_append [of 0 "[]" s rest] by simp

lemma Fix_text:
  assumes "no_stop 0x3c body_text" "no_stop 0x3e tag"
  shows "PListXMLFixDataMatchingTag (body_text @ 0x3c # 0x2f # tag @ 0x3e # rest) tag =
    Some (Some (length body_text + length tag + 3, body_text @ 0 # 0x2f # tag @ 0 # rest))"
proof -
  have g: "PListXMLGetNextTag (body_text @ 0x3c # 0x2f # tag @ 0x3e # rest) =
      Some (Some (length body_text + 1, length body_text, length body_text + length tag + 3, body_text @ 0x3c # 0x2f # tag @ 0 # rest))"
    using GetNextTag_text [of body_text "0x2f # tag" rest] assms by (simp add: numeral_3_eq_3)
  have c: "cstr (body_text @ 0x3c # 0x2f # tag @ 0 # rest) (Suc (length body_text)) = Some (0x2f # tag)"
    using cstr_append [of "Suc (length body_text)" "body_text @ [0x3c]" "0x2f # tag" rest] assms(2)
    by (simp add: no_stop_def)
  show ?thesis
    by (subst PListXMLFixDataMatchingTag.simps) (simp add: g c list_update_append)
qed

lemma of_char_byte_inj: "(of_char c :: byte) = of_char d \<longleftrightarrow> c = d"
proof
  assume "(of_char c :: byte) = of_char d"
  then have "unat (of_char c :: byte) = unat (of_char d :: byte)"
    by simp
  moreover have "unat (of_char x :: byte) = of_char x" for x
  proof -
    have "(of_char x :: nat) < 256"
      using nat_of_char_less_256 by blast
    moreover have "(of_char x :: byte) = of_nat (of_char x)"
      by (simp add: of_nat_of_char)
    ultimately show ?thesis
      by (simp add: unat_of_nat take_bit_nat_eq_self)
  qed
  ultimately show "c = d"
    by simp
qed simp

lemma lit_inj [simp]: "lit s = lit t \<longleftrightarrow> s = t"
proof -
  have "inj (of_char :: char \<Rightarrow> byte)"
    by (auto simp: inj_def of_char_byte_inj)
  then show ?thesis
    by (simp add: lit_def inj_map_eq_map)
qed

definition spaces :: "nat \<Rightarrow> byte list" where
  "spaces n = concat (replicate n (lit ''  ''))"

lemma spaces_flat [simp]: "concat (replicate n [32, 32]) = spaces n"
  by (simp add: spaces_def lit_Cons)

lemma spaces_plain [simp]: "no_stop 0x3c (spaces n)"
  by (induction n) (simp_all add: spaces_def lit_Cons del: spaces_flat)

fun body :: "plenv \<Rightarrow> nat \<Rightarrow> plist \<Rightarrow> byte list" where
  "body env ind (PDict es) =
     (if es = [] then lit ''<dict/>''
      else lit ''<dict>'' @ [10] @ concat (map (\<lambda>e. spaces (ind + 1) @ body env (ind + 1) e @ [10]) es) @
        spaces ind @ lit ''</dict>'')"
| "body env ind (PArray es) =
     (if es = [] then lit ''<array/>''
      else lit ''<array>'' @ [10] @ concat (map (\<lambda>e. spaces (ind + 1) @ body env (ind + 1) e @ [10]) es) @
        spaces ind @ lit ''</array>'')"
| "body env ind (PKey k v) =
     lit ''<key>'' @ k @ lit ''</key>'' @
       (case v of None \<Rightarrow> [] | Some v \<Rightarrow> [10] @ spaces (ind + 1) @ body env (ind + 1) v)"
| "body env ind (PBool b) = (if b then lit ''<true/>'' else lit ''<false/>'')"
| "body env ind (PData d) = lit ''<data>'' @ b64_spec d @ lit ''</data>''"
| "body env ind (PDate d) = lit ''<date></date>''"
| "body env ind (PInteger v) = lit ''<integer>'' @ plint2str env v @ lit ''</integer>''"
| "body env ind (PString s) = lit ''<string>'' @ s @ lit ''</string>''"

lemma xml_body: "concat (xml env ind v) = spaces ind @ body env ind v @ [10]"
proof (induction v arbitrary: ind)
  case (PArray es)
  have "concat (concat (map (xml env (ind + 1)) es)) =
      concat (map (\<lambda>e. spaces (ind + 1) @ body env (ind + 1) e @ [10]) es)"
    using PArray.IH by (induction es) auto
  then show ?case
    by (simp add: tag_chunks_def empty_chunks_def nl_text_def lit_Cons)
next
  case (PDict es)
  have "concat (concat (map (xml env (ind + 1)) es)) =
      concat (map (\<lambda>e. spaces (ind + 1) @ body env (ind + 1) e @ [10]) es)"
    using PDict.IH by (induction es) auto
  then show ?case
    by (simp add: tag_chunks_def empty_chunks_def nl_text_def lit_Cons)
qed (auto simp: tag_chunks_def empty_chunks_def leaf_chunks_def nl_text_def lit_Cons
    split: option.split)

text \<open>A tag denotes a property list.\<close>

fun denotes :: "plist \<Rightarrow> tag \<Rightarrow> bool" where
  "denotes (PDict es) t \<longleftrightarrow> tg_type t = kTagTypeDict \<and> list_all2 denotes es (tg_tag t)"
| "denotes (PArray es) t \<longleftrightarrow> tg_type t = kTagTypeArray \<and> list_all2 denotes es (tg_tag t)"
| "denotes (PKey k v) t \<longleftrightarrow>
     tg_type t = kTagTypeKey \<and> tg_string t = Some k \<and> tg_dataLen t = length k \<and>
     (case v of None \<Rightarrow> tg_tag t = [] | Some v \<Rightarrow> list_all2 denotes [v] (tg_tag t))"
| "denotes (PBool b) t \<longleftrightarrow> tg_type t = (if b then kTagTypeTrue else kTagTypeFalse)"
| "denotes (PData d) t \<longleftrightarrow>
     tg_type t = kTagTypeData \<and> tg_dataLen t = length d \<and> (\<exists>post. tg_data t = Some (d @ post))"
| "denotes (PDate d) t \<longleftrightarrow> tg_type t = kTagTypeDate"
| "denotes (PInteger i) t \<longleftrightarrow> tg_type t = kTagTypeInteger \<and> tg_intval t = i"
| "denotes (PString s) t \<longleftrightarrow> tg_type t = kTagTypeString \<and> tg_string t = Some s \<and> tg_dataLen t = length s"

definition consumed :: "presult \<Rightarrow> nat \<Rightarrow> byte list \<Rightarrow> plist \<Rightarrow> bool" where
  "consumed r n rest v \<longleftrightarrow>
     (\<exists>t pre st'. denotes v t \<and> pnfree st' = 0 \<and> length pre = n \<and>
        r = Some (Some (NewTag t, n, pre @ rest), st'))"

lemma consumedI:
  "r = Some (Some (NewTag t, n, pre @ rest), st') \<Longrightarrow> denotes v t \<Longrightarrow> pnfree st' = 0 \<Longrightarrow> length pre = n \<Longrightarrow>
   consumed r n rest v"
  by (auto simp: consumed_def)

lemma consumed_at_pos:
  assumes "consumed (g rest0) n rest v" "length pre0 = pos"
  shows "consumed (at_pos pos (pre0 @ rest0) g) (pos + n) rest v"
proof -
  obtain t pre st' where "denotes v t" "pnfree st' = 0" "length pre = n"
    "g rest0 = Some (Some (NewTag t, n, pre @ rest), st')"
    using assms(1) by (auto simp: consumed_def)
  with assms(2) show ?thesis
    by (intro consumedI [of _ t _ "pre0 @ pre" _ st']) (auto simp: at_pos_def)
qed

text \<open>What the environment must offer for the values that occur.\<close>

definition int_ok :: "plenv \<Rightarrow> u64 \<Rightarrow> bool" where
  "int_ok env i \<longleftrightarrow>
     (let s = plint2str env i in
      s \<noteq> [] \<and> length s < 32 \<and> no_stop 0x3c s \<and> 0x78 \<notin> set s \<and> 0x58 \<notin> set s \<and>
      (if 0x2d \<in> set s then hd s = 0x2d \<and> pl_dec env (tl s) = - i else pl_dec env s = i))"

definition text_ok :: "plenv \<Rightarrow> byte list \<Rightarrow> bool" where
  "text_ok env s \<longleftrightarrow> no_stop 0x3c s \<and> length s < pl_maxstr env"

fun readable :: "plenv \<Rightarrow> plist \<Rightarrow> bool" where
  "readable env (PDict es) \<longleftrightarrow>
     length es < 2 ^ 27 \<and> (\<forall>e \<in> set es. readable env e \<and> (\<exists>k v. e = PKey k (Some v)))"
| "readable env (PArray es) \<longleftrightarrow> length es < 2 ^ 27 \<and> (\<forall>e \<in> set es. readable env e)"
| "readable env (PKey k v) \<longleftrightarrow> text_ok env k \<and> length k < 2 ^ 31 \<and> (case v of None \<Rightarrow> False | Some v \<Rightarrow> readable env v)"
| "readable env (PBool b) \<longleftrightarrow> True"
| "readable env (PData d) \<longleftrightarrow> length d < 2 ^ 29 \<and> length (b64_spec d) < pl_maxstr env"
| "readable env (PDate d) \<longleftrightarrow> False"
| "readable env (PInteger i) \<longleftrightarrow> int_ok env i"
| "readable env (PString s) \<longleftrightarrow> text_ok env s \<and> length s < 2 ^ 31"

lemma NewTag_fresh: "\<forall>n. pl_pool env n \<Longrightarrow> pnfree st = 0 \<Longrightarrow> PListXMLNewTag env st = (True, st)"
  by (simp add: PListXMLNewTag_def)

lemma NewSymbol_ok:
  assumes "\<forall>n. pl_pool env n" "length s < pl_maxstr env"
  shows "\<exists>st'. PListXMLNewSymbol env s st = (Some s, st') \<and> pnfree st' = pnfree st"
  using assms by (auto simp: PListXMLNewSymbol_def split: option.split)

lemma parse_string:
  assumes "\<forall>n. pl_pool env n" "pnfree st = 0" "text_ok env s"
  shows "consumed (PListXMLParseTagString env (s @ lit ''</string>'' @ rest) st) (length s + 9) rest (PString s)"
proof -
  have p: "no_stop 0x3c s" "length s < pl_maxstr env"
    using assms(3) by (auto simp: text_ok_def)
  have f: "PListXMLFixDataMatchingTag (s @ lit ''</string>'' @ rest) (lit ''string'') =
      Some (Some (length s + 9, s @ 0 # 0x2f # lit ''string'' @ 0 # rest))"
    using Fix_text [OF p(1), of "lit ''string''" rest] by (simp add: lit_Cons)
  have z: "0 \<notin> set s"
    using p(1) by (simp add: no_stop_def)
  obtain st' where st': "PListXMLNewSymbol env s st = (Some s, st')" "pnfree st' = 0"
    using NewSymbol_ok [OF assms(1) p(2), of st] assms(2) by auto
  show ?thesis
    by (rule consumedI [where pre = "s @ 0 # 0x2f # lit ''string'' @ [0]" and st' = st'
        and t = "Tag kTagTypeString (Some s) None (length s) 0 []"])
      (use f st' assms(1,2) in \<open>simp_all add: PListXMLParseTagString_def NewTag_fresh cstr_here [OF z]\<close>)
qed

lemma decode_zeros: "b64_decode_loop st (replicate k 0) out n = Some (st, out, n)"
proof -
  have "base64_decode_value 0 = Some (-1)"
    by code_simp
  then show ?thesis
    by (induction k) simp_all
qed

lemma symbol_decode:
  assumes "\<forall>n. pl_pool env n" "length d < 2 ^ 29"
  shows "\<exists>post. plb64decode (pl_pool env) (symbol_mem (b64_spec d)) (of_nat (length (b64_spec d) + 7)) =
     Some (Some (d @ post, of_nat (length d)))"
proof -
  let ?e = "b64_spec d" and ?n = "length (b64_spec d) + 7"
  have "(length d + 2) div 3 < 2 ^ 28"
    using assms(2) by (intro less_mult_imp_div_less) simp
  then have n: "?n < 2 ^ 31"
    by (simp add: length_b64_spec)
  then have u: "unat (of_nat ?n :: u32) = ?n"
    by (intro unat_small) simp
  have s: "\<not> sint (of_nat ?n :: u32) < 0"
    using sint_small [of "of_nat ?n :: u32"] n u by (simp del: of_nat_add)
  have nz: "(of_nat ?n :: u32) \<noteq> 0"
    using u by (metis add_is_0 unat_0 zero_neq_numeral)
  have out: "length ?e \<le> length (replicate ?n (0 :: byte))"
    by simp
  have inp: "rd_block (symbol_mem ?e) (of_nat ?n) = Some (?e @ replicate 7 0)"
    using s u by (simp add: rd_block_def symbol_mem_def rd_range_def sizeof_symbol_def symbol_string_offset_def
        take_replicate del: of_nat_add)
  obtain st post where loop: "b64_decode_loop step_a ?e (replicate ?n 0) 0 = Some (st, d @ post, length d)"
    "length (d @ post) = ?n"
    using decode_spec_general [OF out, of 0 "[]"] by auto
  have lt: "length d < ?n"
    by (simp add: length_b64_spec)
  have z: "(replicate ?n (0 :: byte))[0 := 0] = replicate ?n 0"
    by (simp add: list_update_same_conv)
  have "base64_decode_block (?e @ replicate 7 0) (replicate ?n 0) base64_init_decodestate =
      Some (d @ post, length d, \<lparr>dstep = st, dplainchar = (d @ post) ! length d\<rparr>)"
    using lt loop z by (simp add: base64_decode_block_def base64_init_decodestate_def decode_loop_append decode_zeros)
  then show ?thesis
    using nz inp u assms(1) by (intro exI [of _ post]) (simp add: plb64decode_def plzalloc_def del: of_nat_add)
qed

lemma encoding_plain: "\<forall>c \<in> set encoding. c \<noteq> 0x3c \<and> c \<noteq> 0"
  by code_simp

lemma b64_plain: "no_stop 0x3c (b64_spec d)"
  using set_b64_spec [of d] encoding_plain by (auto simp: no_stop_def)

lemma parse_data:
  assumes "\<forall>n. pl_pool env n" "pnfree st = 0" "length d < 2 ^ 29" "length (b64_spec d) < pl_maxstr env"
  shows "consumed (PListXMLParseTagData env (b64_spec d @ lit ''</data>'' @ rest) st) (length (b64_spec d) + 7) rest (PData d)"
proof -
  let ?e = "b64_spec d"
  have f: "PListXMLFixDataMatchingTag (?e @ lit ''</data>'' @ rest) (lit ''data'') =
      Some (Some (length ?e + 7, ?e @ 0 # 0x2f # lit ''data'' @ 0 # rest))"
    using Fix_text [OF b64_plain [of d], of "lit ''data''" rest] by (simp add: lit_Cons)
  have z: "0 \<notin> set ?e"
    using b64_plain [of d] by (simp add: no_stop_def)
  obtain st' where st': "PListXMLNewSymbol env ?e st = (Some ?e, st')" "pnfree st' = 0"
    using NewSymbol_ok [OF assms(1) assms(4), of st] assms(2) by auto
  obtain post where d: "plb64decode (pl_pool env) (symbol_mem ?e) (of_nat (length ?e + 7)) =
      Some (Some (d @ post, of_nat (length d)))"
    using symbol_decode [OF assms(1,3)] by auto
  have u: "unat (of_nat (length d) :: u32) = length d"
    using assms(3) by (intro unat_small) simp
  show ?thesis
    by (rule consumedI [where pre = "?e @ 0 # 0x2f # lit ''data'' @ [0]" and st' = st'
        and t = "Tag kTagTypeData (Some ?e) (Some (d @ post)) (length d) 0 []"])
      (use f st' d u assms(1,2) in \<open>simp_all add: PListXMLParseTagData_def NewTag_fresh cstr_here [OF z] del: of_nat_add\<close>)
qed

lemma takeWhile_hd: "hd s = c \<Longrightarrow> takeWhile (\<lambda>x. x \<noteq> c) (s @ t) = (if s = [] then takeWhile (\<lambda>x. x \<noteq> c) t else [])"
  by (cases s) auto

lemma window_split: "n < 32 \<Longrightarrow> \<exists>k. min (n + 10) 39 = n + Suc k \<and> k \<le> 9"
  by (rule exI [of _ "min (n + 10) 39 - Suc n"]) auto

lemma plstr2vlong_text:
  assumes "int_ok env i"
  shows "plstr2vlong env (plint2str env i @ 0 # 0x2f # lit ''integer'' @ 0 # rest) (length (plint2str env i) + 10) = Some i"
proof -
  define s where "s = plint2str env i"
  define tl9 where "tl9 = (0x2f # lit ''integer'' @ [0] :: byte list)"
  have s: "s \<noteq> []" "length s < 32" "0 \<notin> set s" "0x78 \<notin> set s" "0x58 \<notin> set s"
    "if 0x2d \<in> set s then hd s = 0x2d \<and> pl_dec env (tl s) = - i else pl_dec env s = i"
    using assms by (auto simp: int_ok_def Let_def s_def no_stop_def)
  obtain k where k: "min (length s + 10) 39 = length s + Suc k" "k \<le> 9"
    using window_split [OF s(2)] by blast
  define w where "w = s @ 0 # take k tl9"
  have l9: "length tl9 = 9" "0x2d \<notin> set tl9" "0x78 \<notin> set tl9" "0x58 \<notin> set tl9"
    by (simp_all add: tl9_def lit_Cons)
  have buf: "s @ 0 # 0x2f # lit ''integer'' @ 0 # rest = s @ 0 # tl9 @ rest"
    by (simp add: tl9_def)
  have r: "rd_range (s @ 0 # tl9 @ rest) 0 (min (length s + 10) 39) = Some w"
    unfolding k(1) using k(2) l9(1) by (simp add: rd_range_def w_def)
  have in_w: "c \<in> set w \<longleftrightarrow> c \<in> set s" if "c \<noteq> 0" "c \<notin> set tl9" for c
    using that by (auto simp: w_def dest: in_set_takeD)
  have x: "0x78 \<notin> set (drop k w)" "0x58 \<notin> set (drop k w)" for k
    using in_w [of "0x78"] in_w [of "0x58"] l9 s(4,5) by (auto dest: in_set_dropD)
  have m: "0x2d \<in> set w \<longleftrightarrow> 0x2d \<in> set s"
    using in_w [of "0x2d"] l9(2) by simp
  define post where "post = take k tl9 @ [0]"
  have c0: "cstr (w @ [0]) 0 = Some s"
    using cstr_here [OF s(3), of post] by (simp add: w_def post_def)
  have c1: "cstr (w @ [0]) (Suc 0) = Some (tl s)"
    using s(1,3) cstr_append [of "Suc 0" "[hd s]" "tl s" post]
    by (cases s) (auto simp: w_def post_def)
  have tw: "takeWhile (\<lambda>c. c \<noteq> 0x2d) w = []" if "0x2d \<in> set s"
    using that s(1,6) takeWhile_hd [of s] by (simp add: w_def)
  show ?thesis
    unfolding s_def [symmetric] buf plstr2vlong_def
    using r x x [of 0] m c0 c1 tw s(6) by (simp add: Let_def)
qed

lemma parse_integer:
  assumes "\<forall>n. pl_pool env n" "pnfree st = 0" "int_ok env i"
  shows "consumed (PListXMLParseTagInteger env (plint2str env i @ lit ''</integer>'' @ rest) len0 st)
    (length (plint2str env i) + 10) rest (PInteger i)"
proof -
  let ?s = "plint2str env i"
  have p: "no_stop 0x3c ?s" "?s \<noteq> []" "hd ?s \<noteq> 0x3c"
    using assms(3) by (auto simp: int_ok_def Let_def no_stop_def) (metis hd_in_set)
  have f: "PListXMLFixDataMatchingTag (?s @ lit ''</integer>'' @ rest) (lit ''integer'') =
      Some (Some (length ?s + 10, ?s @ 0 # 0x2f # lit ''integer'' @ 0 # rest))"
    using Fix_text [OF p(1), of "lit ''integer''" rest] by (simp add: lit_Cons)
  have r: "rd (?s @ ts) 0 = Some (hd ?s)" for ts
    using p(2) by (simp add: rd_def nth_append hd_conv_nth)
  show ?thesis
    by (rule consumedI [where pre = "?s @ 0 # 0x2f # lit ''integer'' @ [0]" and st' = st
        and t = "Tag kTagTypeInteger None None 0 i []"])
      (use f assms p(3) r plstr2vlong_text [OF assms(3), of rest]
        in \<open>simp_all add: PListXMLParseTagInteger_def NewTag_fresh\<close>)
qed

lemma parse_bool:
  assumes "\<forall>n. pl_pool env n" "pnfree st = 0"
  shows "consumed (PListXMLParseTagBoolean env rest (if b then kTagTypeTrue else kTagTypeFalse) st) 0 rest (PBool b)"
  by (rule consumedI [where pre = "[]" and st' = st and t = "Tag (if b then kTagTypeTrue else kTagTypeFalse) None None 0 0 []"])
    (use assms in \<open>simp_all add: PListXMLParseTagBoolean_def NewTag_fresh\<close>)

section \<open>Elements in context\<close>

definition parses :: "plenv \<Rightarrow> nat \<Rightarrow> byte list \<Rightarrow> plist \<Rightarrow> bool" where
  "parses env f b v \<longleftrightarrow>
     (\<forall>ws rest st. no_stop 0x3c ws \<longrightarrow> pnfree st = 0 \<longrightarrow>
        consumed (PListXMLParseNextTag f env (ws @ b @ rest) st) (length ws + length b) rest v)"

lemma next_tag:
  assumes "no_stop 0x3c ws" "no_stop 0x3e name"
  shows "PListXMLParseNextTag (Suc f) env (ws @ 0x3c # name @ 0x3e # rest) st =
    parse_element f env (PListXMLParseNextTag f env) name (length ws + length name + 2)
      ((ws @ 0x3c # name @ [0]) @ rest) st"
proof -
  have "cstr (ws @ 0x3c # name @ 0 # rest) (Suc (length ws)) = Some name"
    using cstr_append [of "Suc (length ws)" "ws @ [0x3c]" name rest] assms(2) by (simp add: no_stop_def)
  then show ?thesis
    using GetNextTag_text [OF assms, of rest] by (simp add: PListXMLParseNextTag.simps(2))
qed

text \<open>One step of the parser: an element whose name is dispatched to \<open>g\<close>.\<close>

lemma parses_step:
  assumes "no_stop 0x3e name"
    and "\<And>pos buffer st. parse_element f env (PListXMLParseNextTag f env) name pos buffer st =
      at_pos pos buffer (\<lambda>b. g pos b st)"
    and "\<And>pos rest st. pnfree st = 0 \<Longrightarrow> consumed (g pos (cont @ rest) st) n rest v"
    and "length cont = n"
  shows "parses env (Suc f) (0x3c # name @ 0x3e # cont) v"
  unfolding parses_def
proof (intro allI impI)
  fix ws rest and st :: pst
  assume ws: "no_stop 0x3c ws" "pnfree st = 0"
  let ?pos = "length ws + length name + 2"
  have "consumed (at_pos ?pos ((ws @ 0x3c # name @ [0]) @ cont @ rest) (\<lambda>b. g ?pos b st))
      (?pos + length cont) rest v"
    unfolding assms(4) by (rule consumed_at_pos) (use assms(3) ws(2) in simp_all)
  then show "consumed (PListXMLParseNextTag (Suc f) env (ws @ (0x3c # name @ 0x3e # cont) @ rest) st)
      (length ws + length (0x3c # name @ 0x3e # cont)) rest v"
    using next_tag [OF ws(1) assms(1), of f env "cont @ rest" st] assms(2) by (simp add: algebra_simps)
qed

lemma parses_string:
  assumes "\<forall>n. pl_pool env n" "text_ok env s"
  shows "parses env (Suc f) (0x3c # lit ''string'' @ 0x3e # s @ lit ''</string>'') (PString s)"
  by (rule parses_step [where g = "\<lambda>_ b st. PListXMLParseTagString env b st"])
    (simp add: lit_Cons, simp add: parse_element_def, unfold append_assoc, erule parse_string [OF assms(1) _ assms(2)], simp)

lemma parses_data:
  assumes "\<forall>n. pl_pool env n" "length d < 2 ^ 29" "length (b64_spec d) < pl_maxstr env"
  shows "parses env (Suc f) (0x3c # lit ''data'' @ 0x3e # b64_spec d @ lit ''</data>'') (PData d)"
  by (rule parses_step [where g = "\<lambda>_ b st. PListXMLParseTagData env b st"])
    (simp add: lit_Cons, simp add: parse_element_def, unfold append_assoc, erule parse_data [OF assms(1) _ assms(2,3)], simp)

lemma parses_integer:
  assumes "\<forall>n. pl_pool env n" "int_ok env i"
  shows "parses env (Suc f) (0x3c # lit ''integer'' @ 0x3e # plint2str env i @ lit ''</integer>'') (PInteger i)"
  by (rule parses_step [where g = "\<lambda>pos b st. PListXMLParseTagInteger env b pos st"])
    (simp add: lit_Cons, simp add: parse_element_def, unfold append_assoc, erule parse_integer [OF assms(1) _ assms(2)], simp)

lemma parses_bool:
  assumes "\<forall>n. pl_pool env n"
  shows "parses env (Suc f) (if b then lit ''<true/>'' else lit ''<false/>'') (PBool b)"
proof -
  have "parses env (Suc f) (0x3c # lit (if b then ''true/'' else ''false/'') @ 0x3e # []) (PBool b)"
    by (rule parses_step [where g = "\<lambda>_ r st. PListXMLParseTagBoolean env r (if b then kTagTypeTrue else kTagTypeFalse) st"])
      (simp add: lit_Cons, simp add: parse_element_def, unfold append_Nil, erule parse_bool [OF assms], simp)
  then show ?thesis
    by (simp add: lit_Cons split: if_splits)
qed

text \<open>The elements of a bag, each with its indentation and line end, up to an end tag.\<close>

definition lines_of :: "plenv \<Rightarrow> nat \<Rightarrow> plist list \<Rightarrow> byte list" where
  "lines_of env ind es = concat (map (\<lambda>e. spaces ind @ body env ind e @ [10]) es)"

lemma lines_of_simps [simp]:
  "lines_of env ind [] = []"
  "lines_of env ind (e # es) = spaces ind @ body env ind e @ [10] @ lines_of env ind es"
  by (simp_all add: lines_of_def)

lemma end_tag:
  assumes "no_stop 0x3c ws" "name = lit ''/dict'' \<or> name = lit ''/array''"
  shows "PListXMLParseNextTag (Suc f) env (ws @ 0x3c # name @ 0x3e # rest) st =
    Some (Some (NullTag, length ws + length name + 2, (ws @ 0x3c # name @ [0]) @ rest), st)"
proof -
  have "no_stop 0x3e name"
    using assms(2) by (auto simp: lit_Cons)
  from next_tag [OF assms(1) this, of f env rest st] assms(2) show ?thesis
    by (auto simp: parse_element_def)
qed

lemma list_items_text:
  assumes "\<And>e. e \<in> set es \<Longrightarrow> parses env (Suc f) (body env ind e) e" "length es < n"
    and "no_stop 0x3c ws" "pnfree st = 0" "name = lit ''/dict'' \<or> name = lit ''/array''"
  shows "\<exists>ts pre st'. list_all2 denotes es ts \<and> pnfree st' = 0 \<and>
     length pre = length ws + length (lines_of env ind es) + k + length name + 2 \<and>
     list_items n (PListXMLParseNextTag (Suc f) env)
       (ws @ lines_of env ind es @ replicate k 0x20 @ 0x3c # name @ 0x3e # rest) tags False st =
     Some (Some (tags @ ts, length pre, pre @ rest), st')"
  using assms
proof (induction es arbitrary: n ws st tags)
  case Nil
  then obtain n' where n: "n = Suc n'"
    by (cases n) auto
  have ws: "no_stop 0x3c (ws @ replicate k 0x20)"
    using Nil.prems(3) by (simp add: no_stop_def)
  let ?pre = "(ws @ replicate k 0x20) @ 0x3c # name @ [0]"
  have "list_items n (PListXMLParseNextTag (Suc f) env)
       (ws @ lines_of env ind [] @ replicate k 0x20 @ 0x3c # name @ 0x3e # rest) tags False st =
     Some (Some (tags @ [], length ?pre, ?pre @ rest), st)"
    using end_tag [OF ws Nil.prems(5), of f env rest st] by (simp add: n)
  moreover have "length ?pre = length ws + length (lines_of env ind []) + k + length name + 2"
    by simp
  ultimately show ?case
    using Nil.prems(4) by (metis list.rel_inject(1) list_all2_Nil)
next
  case (Cons e es)
  then obtain n' where n: "n = Suc n'"
    by (cases n) auto
  have ws: "no_stop 0x3c (ws @ spaces ind)"
    using Cons.prems(3) by simp
  let ?after = "[10] @ lines_of env ind es @ replicate k 0x20 @ 0x3c # name @ 0x3e # rest"
  have "parses env (Suc f) (body env ind e) e"
    using Cons.prems(1) by simp
  then have "consumed (PListXMLParseNextTag (Suc f) env ((ws @ spaces ind) @ body env ind e @ ?after) st)
      (length (ws @ spaces ind) + length (body env ind e)) ?after e"
    unfolding parses_def using ws Cons.prems(4) by blast
  then obtain t pre st1 where t: "denotes e t" "pnfree st1 = 0"
    "length pre = length (ws @ spaces ind) + length (body env ind e)"
    "PListXMLParseNextTag (Suc f) env ((ws @ spaces ind) @ body env ind e @ ?after) st =
       Some (Some (NewTag t, length pre, pre @ ?after), st1)"
    unfolding consumed_def by metis
  have n10: "no_stop 0x3c [10]" by simp
  have "\<exists>ts pre st'. list_all2 denotes es ts \<and> pnfree st' = 0 \<and>
     length pre = length [10::byte] + length (lines_of env ind es) + k + length name + 2 \<and>
     list_items n' (PListXMLParseNextTag (Suc f) env) ?after (tags @ [t]) False st1 =
     Some (Some ((tags @ [t]) @ ts, length pre, pre @ rest), st')"
    by (rule Cons.IH [OF _ _ n10 t(2) Cons.prems(5)]) (use Cons.prems(1,2) n in auto)
  then obtain ts pre2 st2 where ts: "list_all2 denotes es ts" "pnfree st2 = 0"
    "length pre2 = length [10::byte] + length (lines_of env ind es) + k + length name + 2"
    "list_items n' (PListXMLParseNextTag (Suc f) env) ?after (tags @ [t]) False st1 =
       Some (Some ((tags @ [t]) @ ts, length pre2, pre2 @ rest), st2)"
    by blast
  show ?case
  proof (intro exI conjI)
    show "list_all2 denotes (e # es) (t # ts)"
      using t(1) ts(1) by simp
    show "length (pre @ pre2) = length ws + length (lines_of env ind (e # es)) + k + length name + 2"
      using t(3) ts(3) by simp
    show "list_items n (PListXMLParseNextTag (Suc f) env)
        (ws @ lines_of env ind (e # es) @ replicate k 0x20 @ 0x3c # name @ 0x3e # rest) tags False st =
      Some (Some (tags @ t # ts, length (pre @ pre2), (pre @ pre2) @ rest), st2)"
      using t(4) ts(4) by (simp add: n)
  qed (rule ts(2))
qed

lemma spaces_replicate: "spaces n = replicate (2 * n) 0x20"
proof (induction n)
  case (Suc n)
  have "spaces (Suc n) = 0x20 # 0x20 # spaces n"
    by (simp add: spaces_def lit_Cons del: spaces_flat)
  with Suc show ?case by simp
qed (simp add: spaces_def)

lemma element_bag:
  "parse_element n env rec (lit ''dict'') pos buffer st =
     at_pos pos buffer (\<lambda>b. PListXMLParseTagList n env rec b kTagTypeDict False st)"
  "parse_element n env rec (lit ''array'') pos buffer st =
     at_pos pos buffer (\<lambda>b. PListXMLParseTagList n env rec b kTagTypeArray False st)"
  by (simp_all add: parse_element_def)

text \<open>A non-empty bag.\<close>

lemma parses_bag:
  assumes "\<And>e. e \<in> set es \<Longrightarrow> parses env (Suc f) (body env (ind + 1) e) e" "length es < Suc f"
    and "\<forall>n. pl_pool env n"
    and "name = lit ''dict'' \<and> ty = kTagTypeDict \<and> v = PDict es \<or> name = lit ''array'' \<and> ty = kTagTypeArray \<and> v = PArray es"
  shows "parses env (Suc (Suc f)) (0x3c # name @ 0x3e # [10] @ lines_of env (ind + 1) es @ spaces ind @ 0x3c # 0x2f # name @ [0x3e]) v"
proof (rule parses_step [where g = "\<lambda>_ b st. PListXMLParseTagList (Suc f) env (PListXMLParseNextTag (Suc f) env) b ty False st"])
  show "no_stop 0x3e name"
    using assms(4) by (auto simp: lit_Cons)
  show "parse_element (Suc f) env (PListXMLParseNextTag (Suc f) env) name pos buffer st =
      at_pos pos buffer (\<lambda>b. PListXMLParseTagList (Suc f) env (PListXMLParseNextTag (Suc f) env) b ty False st)"
    for pos buffer st
    using assms(4) element_bag by metis
  fix pos :: nat and rest and st :: pst
  assume st: "pnfree st = 0"
  have nm: "0x2f # name = lit ''/dict'' \<or> 0x2f # name = lit ''/array''"
    using assms(4) by (auto simp: lit_Cons)
  have n10: "no_stop 0x3c [10]" by simp
  let ?cont = "[10] @ lines_of env (ind + 1) es @ spaces ind @ 0x3c # 0x2f # name @ [0x3e]"
  have "\<exists>ts pre st'. list_all2 denotes es ts \<and> pnfree st' = 0 \<and>
     length pre = length [10::byte] + length (lines_of env (ind + 1) es) + 2 * ind + length (0x2f # name) + 2 \<and>
     list_items (Suc f) (PListXMLParseNextTag (Suc f) env)
       ([10] @ lines_of env (ind + 1) es @ replicate (2 * ind) 0x20 @ 0x3c # (0x2f # name) @ 0x3e # rest) [] False st =
     Some (Some ([] @ ts, length pre, pre @ rest), st')"
    by (rule list_items_text [OF assms(1,2) n10 st nm])
  then obtain ts pre st' where ts: "list_all2 denotes es ts" "pnfree st' = 0"
    "length pre = length [10::byte] + length (lines_of env (ind + 1) es) + 2 * ind + length (0x2f # name) + 2"
    "list_items (Suc f) (PListXMLParseNextTag (Suc f) env) (?cont @ rest) [] False st =
       Some (Some (ts, length pre, pre @ rest), st')"
    by (auto simp: spaces_replicate)
  then show "consumed (PListXMLParseTagList (Suc f) env (PListXMLParseNextTag (Suc f) env) (?cont @ rest) ty False st)
      (length ?cont) rest v"
    using assms(3,4)
    by (intro consumedI [where pre = pre and st' = st' and t = "Tag ty None None 0 0 ts"])
      (auto simp: PListXMLParseTagList_def NewTag_fresh spaces_replicate simp del: list_items.simps)
qed simp

lemma parses_empty_bag:
  assumes "\<forall>n. pl_pool env n"
  shows "parses env (Suc f) (lit ''<dict/>'') (PDict [])" "parses env (Suc f) (lit ''<array/>'') (PArray [])"
proof -
  have "parses env (Suc f) (0x3c # lit ''dict/'' @ 0x3e # []) (PDict [])"
  proof (rule parses_step [where g = "\<lambda>_ b st. PListXMLParseTagList f env (PListXMLParseNextTag f env) b kTagTypeDict True st"])
    show "consumed (PListXMLParseTagList f env (PListXMLParseNextTag f env) ([] @ rest) kTagTypeDict True st) 0 rest (PDict [])"
      if "pnfree st = 0" for pos rest st
      by (rule consumedI [where pre = "[]" and st' = st and t = "Tag kTagTypeDict None None 0 0 []"])
        (use that assms in \<open>simp_all add: PListXMLParseTagList_def NewTag_fresh\<close>)
  qed (simp_all add: lit_Cons [of "CHR ''d''"] parse_element_def lit_Cons)
  then show "parses env (Suc f) (lit ''<dict/>'') (PDict [])"
    by (simp add: lit_Cons)
  have "parses env (Suc f) (0x3c # lit ''array/'' @ 0x3e # []) (PArray [])"
  proof (rule parses_step [where g = "\<lambda>_ b st. PListXMLParseTagList f env (PListXMLParseNextTag f env) b kTagTypeArray True st"])
    show "consumed (PListXMLParseTagList f env (PListXMLParseNextTag f env) ([] @ rest) kTagTypeArray True st) 0 rest (PArray [])"
      if "pnfree st = 0" for pos rest st
      by (rule consumedI [where pre = "[]" and st' = st and t = "Tag kTagTypeArray None None 0 0 []"])
        (use that assms in \<open>simp_all add: PListXMLParseTagList_def NewTag_fresh\<close>)
  qed (simp_all add: parse_element_def lit_Cons)
  then show "parses env (Suc f) (lit ''<array/>'') (PArray [])"
    by (simp add: lit_Cons)
qed

fun psize :: "plist \<Rightarrow> nat" where
  "psize (PDict es) = Suc (Suc (sum_list (map psize es)))"
| "psize (PArray es) = Suc (Suc (sum_list (map psize es)))"
| "psize (PKey k v) = Suc (case v of None \<Rightarrow> 1 | Some v \<Rightarrow> psize v)"
| "psize _ = 1"

lemma psize_pos: "1 \<le> psize v"
  by (cases v) auto

lemma sum_psize: "length es \<le> sum_list (map psize es)"
proof (induction es)
  case (Cons e es)
  with psize_pos [of e] show ?case by simp
qed simp

lemma psize_elem: "e \<in> set es \<Longrightarrow> psize e \<le> sum_list (map psize es)"
  by (rule member_le_sum_list) simp_all

lemma parse_key:
  assumes "\<forall>n. pl_pool env n" "pnfree st = 0" "text_ok env k" "parses env f b v" "no_stop 0x3c ws"
  shows "consumed (PListXMLParseTagKey env (PListXMLParseNextTag f env) ((k @ lit ''</key>'' @ ws @ b) @ rest) st)
    (length k + 6 + length ws + length b) rest (PKey k (Some v))"
proof -
  have p: "no_stop 0x3c k" "length k < pl_maxstr env" "0 \<notin> set k"
    using assms(3) by (auto simp: text_ok_def no_stop_def)
  let ?pre = "k @ 0 # 0x2f # lit ''key'' @ [0]"
  have f: "PListXMLFixDataMatchingTag ((k @ lit ''</key>'' @ ws @ b) @ rest) (lit ''key'') =
      Some (Some (length ?pre, ?pre @ ws @ b @ rest))"
    using Fix_text [OF p(1), of "lit ''key''" "ws @ b @ rest"] by (simp add: lit_Cons)
  obtain t pre st1 where t: "denotes v t" "pnfree st1 = 0" "length pre = length ws + length b"
    "PListXMLParseNextTag f env (ws @ b @ rest) st = Some (Some (NewTag t, length pre, pre @ rest), st1)"
    using assms(2,4,5) unfolding parses_def consumed_def by metis
  obtain st2 where st2: "PListXMLNewSymbol env k st1 = (Some k, st2)" "pnfree st2 = 0"
    using NewSymbol_ok [OF assms(1) p(2), of st1] t(2) by auto
  have c: "cstr (?pre @ pre @ rest) 0 = Some k"
    using cstr_here [OF p(3)] by simp
  have fix': "PListXMLParseTagKey env (PListXMLParseNextTag f env) ((k @ lit ''</key>'' @ ws @ b) @ rest) st =
      Some (Some (NewTag (Tag kTagTypeKey (Some k) None (length k) 0 [t]), length ?pre + length pre, ?pre @ pre @ rest), st2)"
    unfolding PListXMLParseTagKey_def f using t(4) st2(1) c NewTag_fresh [OF assms(1) t(2)]
    by (simp del: append_assoc add: Let_def)
  show ?thesis
    by (rule consumedI [where pre = "?pre @ pre" and st' = st2 and t = "Tag kTagTypeKey (Some k) None (length k) 0 [t]"])
      (use fix' t st2(2) in simp_all)
qed

lemma parses_key:
  assumes "\<forall>n. pl_pool env n" "text_ok env k" "parses env f (body env (ind + 1) v) v"
  shows "parses env (Suc f) (body env ind (PKey k (Some v))) (PKey k (Some v))"
proof -
  have "parses env (Suc f) (0x3c # lit ''key'' @ 0x3e # k @ lit ''</key>'' @ ([10] @ spaces (ind + 1)) @ body env (ind + 1) v)
      (PKey k (Some v))"
  proof (rule parses_step [where g = "\<lambda>_ b st. PListXMLParseTagKey env (PListXMLParseNextTag f env) b st"])
    show "no_stop 0x3e (lit ''key'')"
      by (simp add: lit_Cons)
    show "parse_element f env (PListXMLParseNextTag f env) (lit ''key'') pos buffer st =
        at_pos pos buffer (\<lambda>b. PListXMLParseTagKey env (PListXMLParseNextTag f env) b st)" for pos buffer st
      by (simp add: parse_element_def)
    show "consumed (PListXMLParseTagKey env (PListXMLParseNextTag f env)
          ((k @ lit ''</key>'' @ ([10] @ spaces (ind + 1)) @ body env (ind + 1) v) @ rest) st)
        (length k + 6 + length ([10] @ spaces (ind + 1)) + length (body env (ind + 1) v)) rest (PKey k (Some v))"
      if "pnfree st = 0" for pos :: nat and rest st
      by (rule parse_key [OF assms(1) that assms(2,3)]) simp
  qed simp
  then show ?thesis
    by (simp add: lit_Cons)
qed

lemma parses_body:
  "readable env v \<Longrightarrow> psize v \<le> f \<Longrightarrow> \<forall>n. pl_pool env n \<Longrightarrow> parses env f (body env ind v) v"
proof (induction v arbitrary: f ind)
  case (PArray es)
  show ?case
  proof (cases "es = []")
    case True
    with PArray.prems show ?thesis
      using parses_empty_bag(2) [of env] by (cases f) auto
  next
    case False
    obtain g where f: "f = Suc (Suc g)" "sum_list (map psize es) \<le> g"
      using PArray.prems(2) by (cases f; cases "f - 1") auto
    have el: "parses env (Suc g) (body env (ind + 1) e) e" if "e \<in> set es" for e
      using that PArray psize_elem [OF that] f(2) by (intro PArray.IH) auto
    have "length es < Suc g"
      using sum_psize [of es] f(2) by simp
    then have "parses env (Suc (Suc g)) (0x3c # lit ''array'' @ 0x3e # [10] @ lines_of env (ind + 1) es @ spaces ind @
        0x3c # 0x2f # lit ''array'' @ [0x3e]) (PArray es)"
      by (intro parses_bag [where ty = kTagTypeArray] el PArray.prems(3)) auto
    then show ?thesis
      using False by (simp add: f(1) lit_Cons lines_of_def)
  qed
next
  case (PDict es)
  show ?case
  proof (cases "es = []")
    case True
    with PDict.prems show ?thesis
      using parses_empty_bag(1) [of env] by (cases f) auto
  next
    case False
    obtain g where f: "f = Suc (Suc g)" "sum_list (map psize es) \<le> g"
      using PDict.prems(2) by (cases f; cases "f - 1") auto
    have el: "parses env (Suc g) (body env (ind + 1) e) e" if "e \<in> set es" for e
      using that PDict psize_elem [OF that] f(2) by (intro PDict.IH) auto
    have "length es < Suc g"
      using sum_psize [of es] f(2) by simp
    then have "parses env (Suc (Suc g)) (0x3c # lit ''dict'' @ 0x3e # [10] @ lines_of env (ind + 1) es @ spaces ind @
        0x3c # 0x2f # lit ''dict'' @ [0x3e]) (PDict es)"
      by (intro parses_bag [where ty = kTagTypeDict] el PDict.prems(3)) auto
    then show ?thesis
      using False by (simp add: f(1) lit_Cons lines_of_def)
  qed
next
  case (PKey k v)
  obtain w where v: "v = Some w"
    using PKey.prems(1) by (cases v) auto
  obtain g where f: "f = Suc g"
    using PKey.prems(2) by (cases f) auto
  show ?case
    unfolding v f using PKey v f by (intro parses_key PKey.IH) auto
next
  case (PBool b)
  then show ?case
    using parses_bool [of env "f - 1" b] by (cases f) auto
next
  case (PData d)
  then show ?case
    using parses_data [of env d "f - 1"] by (cases f) (auto simp: lit_Cons)
next
  case (PDate d)
  then show ?case by simp
next
  case (PInteger i)
  then show ?case
    using parses_integer [of env i "f - 1"] by (cases f) (auto simp: lit_Cons)
next
  case (PString s)
  then show ?case
    using parses_string [of env s "f - 1"] by (cases f) (auto simp: lit_Cons)
qed

section \<open>The whole document\<close>

definition known_names :: "string list" where
  "known_names = [''plist'', ''dict'', ''dict/'', ''dict '', ''key'', ''string'', ''integer'', ''integer '',
     ''data'', ''data '', ''date'', ''false/'', ''true/'', ''array'', ''array '', ''array/'']"

lemma element_unknown:
  "s \<notin> set known_names \<Longrightarrow>
   parse_element n env rec (lit s) pos buffer st = Some (Some (NullTag, pos, buffer), st)"
  by (simp add: parse_element_def known_names_def)

lemma parse_top_skip:
  assumes "no_stop 0x3c ws" "no_stop 0x3e (lit s)" "s \<notin> set known_names"
  shows "parse_top (Suc (Suc f)) env (ws @ 0x3c # lit s @ 0x3e # rest) freed st = parse_top (Suc f) env rest False st"
  using next_tag [OF assms(1,2), of f env rest st] assms(3) by (simp add: element_unknown)

lemma header_names:
  "plXmlHdr1 = 0x3c # lit ''?xml version=\"1.0\" encoding=\"UTF-8\"?'' @ 0x3e # [10]"
  "plXmlHdr2 = 0x3c # lit (''!DOCTYPE plist PUBLIC \"-//Apple//DTD PLIST 1.0//EN\" '' @
     ''\"http://www.apple.com/DTDs/PropertyList-1.0.dtd\"'') @ 0x3e # [10]"
  "plXmlHdr3 = 0x3c # lit ''plist version=\"1.0\"'' @ 0x3e # [10]"
  by (simp_all add: plXmlHdr1_def plXmlHdr2_def plXmlHdr3_def nl_text_def lit_Cons lit_append)

lemma header_plain:
  "no_stop 0x3e (lit ''?xml version=\"1.0\" encoding=\"UTF-8\"?'')"
  "no_stop 0x3e (lit (''!DOCTYPE plist PUBLIC \"-//Apple//DTD PLIST 1.0//EN\" '' @
     ''\"http://www.apple.com/DTDs/PropertyList-1.0.dtd\"''))"
  "no_stop 0x3e (lit ''plist version=\"1.0\"'')"
  by (simp_all add: lit_Cons lit_append)

lemma parse_top_headers:
  "parse_top (Suc (Suc (Suc (Suc (Suc f))))) env (plXmlHdr1 @ plXmlHdr2 @ plXmlHdr3 @ rest) False st =
   parse_top (Suc (Suc f)) env ([10] @ rest) False st" (is "?l = _")
proof -
  have n10: "no_stop 0x3c [10]" and n0: "no_stop 0x3c []" by simp_all
  have "?l = parse_top (Suc (Suc (Suc (Suc f)))) env ([10] @ plXmlHdr2 @ plXmlHdr3 @ rest) False st"
    using parse_top_skip [OF n0 header_plain(1), of "Suc (Suc (Suc f))" env "[10] @ plXmlHdr2 @ plXmlHdr3 @ rest" False st]
    by (simp add: header_names(1) known_names_def del: parse_top.simps)
  also have "\<dots> = parse_top (Suc (Suc (Suc f))) env ([10] @ plXmlHdr3 @ rest) False st"
    using parse_top_skip [OF n10 header_plain(2), of "Suc (Suc f)" env "[10] @ plXmlHdr3 @ rest" False st]
    by (simp add: header_names(2) known_names_def del: parse_top.simps)
  also have "\<dots> = parse_top (Suc (Suc f)) env ([10] @ rest) False st"
    using parse_top_skip [OF n10 header_plain(3), of "Suc f" env "[10] @ rest" False st]
    by (simp add: header_names(3) known_names_def del: parse_top.simps)
  finally show ?thesis .
qed

lemma denotes_dict: "denotes (PDict es) t \<Longrightarrow> tg_type t = kTagTypeDict"
  by simp

lemma parse_top_text:
  assumes "readable env (PDict es)" "psize (PDict es) \<le> f" "\<forall>n. pl_pool env n" "pnfree st = 0"
  shows "\<exists>t st'. denotes (PDict es) t \<and> parse_top (f + 4) env (xml_text env (PDict es) @ rest) False st = Some (Some t, st')"
proof -
  let ?v = "PDict es"
  let ?rest = "[10] @ plXmlTlr1 @ rest"
  have n10: "no_stop 0x3c [10]" and n0: "no_stop 0x3c []" by simp_all
  obtain g where f: "f = Suc g"
    using assms(2) by (cases f) auto
  have "parses env f (body env 1 ?v) ?v"
    by (rule parses_body [OF assms(1-3)])
  moreover have "no_stop 0x3c ([10] @ spaces 1)"
    by simp
  ultimately obtain t pre st' where t: "denotes ?v t"
    "PListXMLParseNextTag f env (([10] @ spaces 1) @ body env 1 ?v @ ?rest) st =
      Some (Some (NewTag t, length pre, pre @ ?rest), st')"
    using assms(4) unfolding parses_def consumed_def by metis
  have "parse_top (f + 4) env (xml_text env ?v @ rest) False st =
      parse_top (Suc f) env (([10] @ spaces 1) @ body env 1 ?v @ ?rest) False st"
  proof -
    have "xml_text env ?v @ rest = plXmlHdr1 @ plXmlHdr2 @ plXmlHdr3 @ spaces 1 @ body env 1 ?v @ ?rest"
      unfolding xml_text_def xml_body by (simp only: append_assoc)
    moreover have "f + 4 = Suc (Suc (Suc (Suc (Suc g))))"
      by (simp add: f)
    ultimately show ?thesis
      using parse_top_headers [of g env "spaces 1 @ body env 1 ?v @ ?rest" st] by (simp only: f append_assoc)
  qed
  also have "\<dots> = Some (Some t, st')"
    using t denotes_dict [OF t(1)] by simp
  finally show ?thesis
    using t(1) by blast
qed

section \<open>The balance of the symbol table\<close>

definition sym_count :: "pst \<Rightarrow> byte list \<Rightarrow> nat" where
  "sym_count st s = (case PListXMLFindSymbol s st of None \<Rightarrow> 0 | Some c \<Rightarrow> c)"

definition sym_ok :: "pst \<Rightarrow> bool" where
  "sym_ok st \<longleftrightarrow> distinct (map fst (psymbols st)) \<and> (\<forall>p \<in> set (psymbols st). 0 < snd p)"

fun tags_syms :: "tag list \<Rightarrow> byte list \<Rightarrow> nat" where
  "tags_syms [] s = 0"
| "tags_syms (Tag ty str d dl iv sub # next) s =
     (if str = Some s then 1 else 0) + tags_syms sub s + tags_syms next s"

lemma tags_syms_append: "tags_syms (xs @ ys) s = tags_syms xs s + tags_syms ys s"
proof (induction xs)
  case (Cons x xs)
  then show ?case by (cases x) simp
qed simp

lemma FindSymbol_map_of: "PListXMLFindSymbol s st = map_of (psymbols st) s"
proof -
  have "map_option snd (find (\<lambda>p. fst p = s) ps) = map_of ps s" for ps :: "(byte list \<times> nat) list"
    by (induction ps) auto
  then show ?thesis
    by (simp add: PListXMLFindSymbol_def)
qed

lemma map_of_upd:
  "distinct (map fst ps) \<Longrightarrow> map_of ps s = Some k \<Longrightarrow>
   map_of (upd_symbol s c ps) t = (if t = s then (if c = 0 then None else Some c) else map_of ps t)"
  by (induction ps) (auto simp: map_of_eq_None_iff split: if_splits)

lemma upd_symbol_ok:
  "distinct (map fst ps) \<Longrightarrow> \<forall>p \<in> set ps. 0 < snd p \<Longrightarrow>
   distinct (map fst (upd_symbol s c ps)) \<and> (\<forall>p \<in> set (upd_symbol s c ps). 0 < snd p) \<and>
   fst ` set (upd_symbol s c ps) \<subseteq> fst ` set ps"
  by (induction ps) auto

lemma sym_count_new:
  assumes "sym_ok st" "PListXMLNewSymbol env s st = (r, st')"
  shows "sym_ok st' \<and> pnfree st' = pnfree st \<and> (r = None \<or> r = Some s) \<and>
    (\<forall>t. sym_count st' t = sym_count st t + (if r = Some t then 1 else 0))"
proof (cases "map_of (psymbols st) s")
  case None
  then have "s \<notin> fst ` set (psymbols st)"
    by (simp add: map_of_eq_None_iff)
  with None assms show ?thesis
    by (auto simp: PListXMLNewSymbol_def sym_ok_def sym_count_def FindSymbol_map_of split: if_splits)
next
  case (Some c)
  then have r: "r = Some s" "st' = st\<lparr>psymbols := upd_symbol s (c + 1) (psymbols st)\<rparr>"
    using assms(2) by (auto simp: PListXMLNewSymbol_def FindSymbol_map_of)
  have d: "distinct (map fst (psymbols st))"
    using assms(1) by (simp add: sym_ok_def)
  show ?thesis
    using assms(1) Some upd_symbol_ok [OF d, of s "c + 1"] map_of_upd [OF d Some, of "c + 1"]
    by (simp add: r sym_ok_def sym_count_def FindSymbol_map_of)
qed

lemma sym_count_free:
  assumes "sym_ok st" "0 < sym_count st s"
  shows "sym_ok (PListXMLFreeSymbol s st) \<and> pnfree (PListXMLFreeSymbol s st) = pnfree st \<and>
    (\<forall>t. sym_count (PListXMLFreeSymbol s st) t = sym_count st t - (if t = s then 1 else 0))"
proof -
  obtain c where c: "map_of (psymbols st) s = Some c" "0 < c"
    using assms(2) by (auto simp: sym_count_def FindSymbol_map_of split: option.splits)
  have d: "distinct (map fst (psymbols st))"
    using assms(1) by (simp add: sym_ok_def)
  show ?thesis
    using assms(1) c upd_symbol_ok [OF d, of s "c - 1"] map_of_upd [OF d c(1), of "c - 1"]
    by (simp add: PListXMLFreeSymbol_def sym_ok_def sym_count_def FindSymbol_map_of)
qed

lemma sym_count_pnfree [simp]: "sym_count (st\<lparr>pnfree := k\<rparr>) = sym_count st" "sym_ok (st\<lparr>pnfree := k\<rparr>) = sym_ok st"
  by (auto simp: sym_count_def sym_ok_def PListXMLFindSymbol_def fun_eq_iff)

lemma sym_count_FreeTag:
  "sym_ok st \<Longrightarrow> \<forall>s. tags_syms ts s \<le> sym_count st s \<Longrightarrow>
   sym_ok (PListXMLFreeTag ts st) \<and> (\<forall>s. sym_count (PListXMLFreeTag ts st) s = sym_count st s - tags_syms ts s)"
proof (induction ts st rule: PListXMLFreeTag.induct)
  case (1 st)
  then show ?case by simp
next
  case (2 ty str d dl iv sub nx st)
  define st1 where "st1 = (case str of None \<Rightarrow> st | Some s \<Rightarrow> PListXMLFreeSymbol s st)"
  have 1: "sym_ok st1 \<and> (\<forall>s. sym_count st1 s = sym_count st s - (if str = Some s then 1 else 0))"
  proof (cases str)
    case None
    then show ?thesis using "2.prems" by (simp add: st1_def)
  next
    case (Some s)
    then have "0 < sym_count st s"
      using "2.prems"(2)[rule_format, of s] by auto
    from sym_count_free [OF "2.prems"(1) this] show ?thesis
      by (auto simp: st1_def Some)
  qed
  have b: "(if str = Some s then 1 else 0) + tags_syms sub s + tags_syms nx s \<le> sym_count st s" for s
    using "2.prems"(2) by simp
  have 2: "sym_ok (PListXMLFreeTag sub st1) \<and> (\<forall>s. sym_count (PListXMLFreeTag sub st1) s = sym_count st1 s - tags_syms sub s)"
  proof (rule "2.IH"(1))
    show "\<forall>s. tags_syms sub s \<le> sym_count st1 s"
    proof
      fix s
      show "tags_syms sub s \<le> sym_count st1 s"
        using 1 b [of s] by simp
    qed
  qed (use 1 in \<open>simp_all add: st1_def\<close>)
  have 3: "sym_ok (PListXMLFreeTag nx (PListXMLFreeTag sub st1)) \<and>
      (\<forall>s. sym_count (PListXMLFreeTag nx (PListXMLFreeTag sub st1)) s =
        sym_count (PListXMLFreeTag sub st1) s - tags_syms nx s)"
  proof (rule "2.IH"(2))
    show "\<forall>s. tags_syms nx s \<le> sym_count (PListXMLFreeTag sub st1) s"
    proof
      fix s
      show "tags_syms nx s \<le> sym_count (PListXMLFreeTag sub st1) s"
        using 1 2 b [of s] by simp
    qed
  qed (use 2 in \<open>simp_all add: st1_def\<close>)
  show ?case
    using 1 2 3 by (auto simp: st1_def [symmetric] Let_def)
qed

definition res_syms :: "(tagres \<times> nat \<times> byte list) option \<Rightarrow> byte list \<Rightarrow> nat" where
  "res_syms r s = (case r of Some (NewTag t, _, _) \<Rightarrow> tags_syms [t] s | _ \<Rightarrow> 0)"

lemma res_syms_simps [simp]:
  "res_syms None s = 0" "res_syms (Some (Stale, x)) s = 0" "res_syms (Some (NullTag, x)) s = 0"
  "res_syms (Some (NewTag t, l, b)) s = tags_syms [t] s"
  by (cases x; simp add: res_syms_def)+

text \<open>A parsing function keeps the books: what it adds to the table is what the new tag holds.\<close>

definition bal :: "pst \<Rightarrow> (tagres \<times> nat \<times> byte list) option \<Rightarrow> pst \<Rightarrow> bool" where
  "bal st r st' \<longleftrightarrow> sym_ok st' \<and> (\<forall>s. sym_count st' s = sym_count st s + res_syms r s)"

definition balanced :: "parse_rec \<Rightarrow> bool" where
  "balanced g \<longleftrightarrow> (\<forall>b st r st'. sym_ok st \<longrightarrow> g b st = Some (r, st') \<longrightarrow> bal st r st')"

lemma NewTag_sym: "PListXMLNewTag env st = (ok, st') \<Longrightarrow> sym_count st' = sym_count st \<and> sym_ok st' = sym_ok st"
  by (auto simp: PListXMLNewTag_def split: if_splits)

lemma FreeNewTag_sym: "PListXMLFreeNewTag st k = Some st' \<Longrightarrow> sym_count st' = sym_count st \<and> sym_ok st' = sym_ok st"
  by (auto simp: PListXMLFreeNewTag_def split: if_splits)

lemma free_one:
  assumes "bal st (Some (NewTag t, l, b)) st1"
  shows "sym_ok (PListXMLFreeTag [t] st1) \<and> (\<forall>s. sym_count (PListXMLFreeTag [t] st1) s = sym_count st s)"
proof -
  have "sym_ok st1" "\<forall>s. sym_count st1 s = sym_count st s + tags_syms [t] s"
    using assms by (simp_all add: bal_def)
  then show ?thesis
    using sym_count_FreeTag [of st1 "[t]"] by simp
qed

lemma balanced_string: "balanced (PListXMLParseTagString env)"
  unfolding balanced_def
proof (intro allI impI)
  fix b st r st'
  assume ok: "sym_ok st" and run: "PListXMLParseTagString env b st = Some (r, st')"
  obtain ok' st2 where st2: "PListXMLNewTag env st = (ok', st2)"
    by (cases "PListXMLNewTag env st")
  have c2: "sym_ok st2" "sym_count st2 = sym_count st"
    using NewTag_sym [OF st2] ok by auto
  show "bal st r st'"
  proof (cases "r = None \<and> sym_ok st' \<and> sym_count st' = sym_count st")
    case True
    then show ?thesis by (simp add: bal_def)
  next
    case False
    then obtain l b1 s where f: "PListXMLFixDataMatchingTag b (lit ''string'') = Some (Some (l, b1))" "ok'"
      "cstr b1 0 = Some s"
      using run st2 c2 ok by (auto simp: PListXMLParseTagString_def split: bind_splits option.splits bool.splits)
    obtain r3 st3 where r3: "PListXMLNewSymbol env s st2 = (r3, st3)"
      by (cases "PListXMLNewSymbol env s st2")
    note c3 = sym_count_new [OF c2(1) r3]
    show ?thesis
    proof (cases r3)
      case None
      then obtain st4 where st4: "PListXMLFreeNewTag st3 (pnfree st2) = Some st4" "r = None" "st' = st4"
        using run f st2 r3 by (auto simp: PListXMLParseTagString_def split: bind_splits)
      then show ?thesis
        using FreeNewTag_sym [OF st4(1)] c3 c2 None by (simp add: bal_def)
    next
      case (Some s')
      then have "r = Some (NewTag (Tag kTagTypeString (Some s) None (length s) 0 []), l, b1)" "st' = st3"
        using run f st2 r3 c3 by (auto simp: PListXMLParseTagString_def)
      then show ?thesis
        using c3 c2 Some by (simp add: bal_def)
    qed
  qed
qed

lemma balanced_integer: "balanced (\<lambda>b. PListXMLParseTagInteger env b len0)"
  unfolding balanced_def PListXMLParseTagInteger_def
  by (auto simp: bal_def dest!: NewTag_sym split: bind_splits option.splits bool.splits prod.splits if_splits)

lemma balanced_data: "balanced (PListXMLParseTagData env)"
  unfolding balanced_def
proof (intro allI impI)
  fix b st r st'
  assume ok: "sym_ok st" and run: "PListXMLParseTagData env b st = Some (r, st')"
  obtain ok' st2 where st2: "PListXMLNewTag env st = (ok', st2)"
    by (cases "PListXMLNewTag env st")
  have c2: "sym_ok st2" "sym_count st2 = sym_count st"
    using NewTag_sym [OF st2] ok by auto
  show "bal st r st'"
  proof (cases "r = None \<and> sym_ok st' \<and> sym_count st' = sym_count st")
    case True
    then show ?thesis by (simp add: bal_def)
  next
    case False
    then obtain l b1 s where f: "PListXMLFixDataMatchingTag b (lit ''data'') = Some (Some (l, b1))" "ok'"
      "cstr b1 0 = Some s"
      using run st2 c2 ok by (auto simp: PListXMLParseTagData_def split: bind_splits option.splits bool.splits)
    obtain r3 st3 where r3: "PListXMLNewSymbol env s st2 = (r3, st3)"
      by (cases "PListXMLNewSymbol env s st2")
    note c3 = sym_count_new [OF c2(1) r3]
    obtain dat dl where "r = Some (NewTag (Tag kTagTypeData r3 dat dl 0 []), l, b1)" "st' = st3"
      using run f st2 r3 by (auto simp: PListXMLParseTagData_def split: bind_splits option.splits)
    then show ?thesis
      using c3 c2 by (simp add: bal_def)
  qed
qed

lemma balanced_date: "balanced (PListXMLParseTagDate env)"
  unfolding balanced_def PListXMLParseTagDate_def
  by (auto simp: bal_def dest!: NewTag_sym split: bind_splits option.splits bool.splits prod.splits)

lemma balanced_boolean: "balanced (\<lambda>b. PListXMLParseTagBoolean env b ty)"
  unfolding balanced_def PListXMLParseTagBoolean_def
  by (auto simp: bal_def dest!: NewTag_sym split: bool.splits prod.splits)

definition items_syms :: "(tag list \<times> nat \<times> byte list) option \<Rightarrow> byte list \<Rightarrow> nat" where
  "items_syms r s = (case r of None \<Rightarrow> 0 | Some (ts, _, _) \<Rightarrow> tags_syms ts s)"

lemma list_items_bal:
  assumes "balanced g"
  shows "list_items n g b tags cyc st = Some (r, st') \<Longrightarrow> sym_ok st \<Longrightarrow> \<forall>s. tags_syms tags s \<le> sym_count st s \<Longrightarrow>
    sym_ok st' \<and> (\<forall>s. sym_count st' s + tags_syms tags s = sym_count st s + items_syms r s)"
proof (induction n arbitrary: b tags cyc st r st')
  case (Suc n)
  obtain r1 st1 where r1: "g b st = Some (r1, st1)"
    using Suc.prems(1) by (auto split: bind_splits)
  then have b1: "bal st r1 st1"
    using assms Suc.prems(2) by (auto simp: balanced_def)
  show ?case
  proof (cases r1)
    case None
    then have "r = None" "st' = PListXMLFreeTag tags st1"
      using Suc.prems(1) r1 by (auto split: if_splits)
    then show ?thesis
      using sym_count_FreeTag [of st1 tags] b1 None Suc.prems(3) by (auto simp: bal_def items_syms_def)
  next
    case (Some p)
    then obtain t l b2 where p: "r1 = Some (t, l, b2)"
      by (cases p) auto
    have step: "sym_ok st' \<and> (\<forall>s. sym_count st' s + tags_syms tags s = sym_count st s + items_syms r s)"
      if nx: "list_items n g (drop l b2) tags' cyc' st1 = Some (r2, st')" "items_syms r = items_syms r2"
        and tg: "\<forall>s. tags_syms tags' s = tags_syms tags s + res_syms r1 s" for tags' cyc' r2
    proof -
      have "\<forall>s. tags_syms tags' s \<le> sym_count st1 s"
        using b1 tg Suc.prems(3) by (simp add: bal_def)
      from Suc.IH [OF nx(1) _ this] b1 tg nx(2) show ?thesis
        by (auto simp: bal_def)
    qed
    have fin: ?thesis if "r = Some (tags, l, b2)" "st' = st1" "\<forall>s. res_syms r1 s = 0"
      using that b1 Suc.prems(3) by (simp add: bal_def items_syms_def)
    show ?thesis
    proof (cases t)
      case NullTag
      then show ?thesis
        using fin Suc.prems(1) r1 p by (auto split: if_splits)
    next
      case Stale
      show ?thesis
      proof (cases "tags = []")
        case True
        then show ?thesis
          using fin Suc.prems(1) r1 p Stale by (auto split: if_splits)
      next
        case False
        then obtain r2 where "list_items n g (drop l b2) tags True st1 = Some (r2, st')" "items_syms r = items_syms r2"
          using Suc.prems(1) r1 p Stale
          by (auto simp: items_syms_def fun_eq_iff split: bind_splits option.splits)
        then show ?thesis
          using p Stale by (intro step) auto
      qed
    next
      case (NewTag u)
      then obtain r2 where "list_items n g (drop l b2) (tags @ [u]) False st1 = Some (r2, st')" "items_syms r = items_syms r2"
        using Suc.prems(1) r1 p
        by (auto simp: items_syms_def fun_eq_iff split: bind_splits option.splits)
      then show ?thesis
        using p NewTag by (intro step) (auto simp: tags_syms_append)
    qed
  qed
qed simp

lemma balanced_list:
  assumes "balanced g"
  shows "balanced (\<lambda>b. PListXMLParseTagList n env g b ty is_empty)"
  unfolding balanced_def
proof (intro allI impI)
  fix b st r st'
  assume ok: "sym_ok st" and run: "PListXMLParseTagList n env g b ty is_empty st = Some (r, st')"
  obtain r1 st1 where r1: "(if is_empty then Some (Some ([], 0, b), st) else list_items n g b [] False st) = Some (r1, st1)"
    using run by (auto simp: PListXMLParseTagList_def split: bind_splits)
  have b1: "sym_ok st1 \<and> (\<forall>s. sym_count st1 s = sym_count st s + items_syms r1 s)"
    using r1 list_items_bal [OF assms, of n b "[]" False st r1 st1] ok
    by (auto simp: items_syms_def split: if_splits)
  obtain ok' st2 where st2: "PListXMLNewTag env st1 = (ok', st2)"
    by (cases "PListXMLNewTag env st1")
  then have b2: "sym_ok st2 \<and> (\<forall>s. sym_count st2 s = sym_count st s + items_syms r1 s)"
    using b1 NewTag_sym by fastforce
  show "bal st r st'"
  proof (cases r1)
    case None
    then show ?thesis
      using run r1 b1 by (auto simp: PListXMLParseTagList_def bal_def items_syms_def)
  next
    case (Some p)
    then obtain tags l b2 where p: "r1 = Some (tags, l, b2)"
      by (cases p) auto
    show ?thesis
      using run r1 st2 p b2 sym_count_FreeTag [of st2 tags]
      by (cases ok') (auto simp: PListXMLParseTagList_def bal_def items_syms_def)
  qed
qed

lemma balanced_key:
  assumes "balanced g"
  shows "balanced (PListXMLParseTagKey env g)"
  unfolding balanced_def
proof (intro allI impI)
  fix b st r st'
  assume ok: "sym_ok st" and run: "PListXMLParseTagKey env g b st = Some (r, st')"
  show "bal st r st'"
  proof (cases "PListXMLFixDataMatchingTag b (lit ''key'') = Some None")
    case True
    then show ?thesis
      using run ok by (simp add: PListXMLParseTagKey_def bal_def)
  next
    case False
    then obtain l b1 r1 st1 where f: "PListXMLFixDataMatchingTag b (lit ''key'') = Some (Some (l, b1))"
      "g (drop l b1) st = Some (r1, st1)"
      using run by (auto simp: PListXMLParseTagKey_def split: bind_splits option.splits)
    have b1: "bal st r1 st1"
      using assms ok f(2) by (auto simp: balanced_def)
    show ?thesis
    proof (cases r1)
      case None
      then show ?thesis
        using run f b1 by (simp add: PListXMLParseTagKey_def)
    next
      case (Some p)
      then obtain t l2 b2 where p: "r1 = Some (t, l2, b2)"
        by (cases p) auto
      define subs where "subs = (case t of NewTag t \<Rightarrow> [t] | _ \<Rightarrow> [])"
      have c1: "sym_ok st1" "\<forall>s. sym_count st1 s = sym_count st s + tags_syms subs s"
        using b1 p by (auto simp: bal_def subs_def split: tagres.splits)
      obtain ok' st2 where st2: "PListXMLNewTag env st1 = (ok', st2)"
        by (cases "PListXMLNewTag env st1")
      then have c2: "sym_ok st2" "\<forall>s. sym_count st2 s = sym_count st s + tags_syms subs s"
        using c1 NewTag_sym by fastforce+
      note free2 = sym_count_FreeTag [OF c2(1), of subs]
      show ?thesis
      proof (cases ok')
        case False
        then show ?thesis
          using run f p st2 free2 c2(2)
          by (simp add: PListXMLParseTagKey_def bal_def subs_def [symmetric] Let_def)
      next
        case True
        then obtain s where s: "cstr (take l b1 @ b2) 0 = Some s"
          using run f p st2 by (auto simp: PListXMLParseTagKey_def Let_def split: bind_splits)
        obtain r3 st3 where r3: "PListXMLNewSymbol env s st2 = (r3, st3)"
          by (cases "PListXMLNewSymbol env s st2")
        have c3: "sym_ok st3" "r3 = None \<or> r3 = Some s"
          "\<forall>t. sym_count st3 t = sym_count st t + tags_syms subs t + (if r3 = Some t then 1 else 0)"
          using sym_count_new [OF c2(1) r3] c2(2) by auto
        show ?thesis
        proof (cases r3)
          case None
          then obtain st4 where st4: "PListXMLFreeNewTag (PListXMLFreeTag subs st3) (pnfree st2) = Some st4" "r = None" "st' = st4"
            using run f p st2 True s r3
            by (auto simp: PListXMLParseTagKey_def Let_def subs_def [symmetric] split: bind_splits)
          show ?thesis
            using FreeNewTag_sym [OF st4(1)] sym_count_FreeTag [OF c3(1), of subs] c3(3) None st4
            by (simp add: bal_def)
        next
          case (Some s')
          then show ?thesis
            using run f p st2 True s r3 c3
            by (auto simp: PListXMLParseTagKey_def Let_def subs_def [symmetric] bal_def)
        qed
      qed
    qed
  qed
qed

lemma balanced_at_pos:
  assumes "balanced (\<lambda>b. g b)" "sym_ok st" "at_pos pos b (\<lambda>b. g b st) = Some (r, st')"
  shows "bal st r st'"
proof -
  obtain r1 where "g (drop pos b) st = Some (r1, st')" "res_syms r = res_syms r1"
    using assms(3) by (auto simp: at_pos_def res_syms_def fun_eq_iff split: bind_splits option.splits)
  then show ?thesis
    using assms(1,2) by (auto simp: balanced_def bal_def)
qed

lemma balanced_element:
  assumes "balanced g" "sym_ok st" "parse_element n env g name pos b st = Some (r, st')"
  shows "bal st r st'"
  using assms(3) unfolding parse_element_def Let_def
  by (simp only: split: if_split_asm)
    (erule balanced_at_pos [OF balanced_list [OF assms(1)] assms(2)] balanced_at_pos [OF balanced_key [OF assms(1)] assms(2)]
      balanced_at_pos [OF balanced_string assms(2)] balanced_at_pos [OF balanced_integer assms(2)]
      balanced_at_pos [OF balanced_data assms(2)] balanced_at_pos [OF balanced_date assms(2)]
      balanced_at_pos [OF balanced_boolean assms(2)] | simp add: bal_def assms(2), use assms(2) in fastforce)+

lemma balanced_next: "balanced (PListXMLParseNextTag f env)"
proof (induction f)
  case (Suc f)
  show ?case
    unfolding balanced_def
  proof (intro allI impI)
    fix b st r st'
    assume ok: "sym_ok st" and run: "PListXMLParseNextTag (Suc f) env b st = Some (r, st')"
    show "bal st r st'"
    proof (cases "PListXMLGetNextTag b = Some None")
      case True
      then show ?thesis
        using run ok by (simp add: PListXMLParseNextTag.simps(2) bal_def)
    next
      case False
      then obtain x where x: "PListXMLGetNextTag b = Some (Some x)"
        using run by (cases "PListXMLGetNextTag b") (auto simp: PListXMLParseNextTag.simps(2))
      obtain tagp start pos b2 where "x = (tagp, start, pos, b2)"
        by (cases x)
      then obtain name where "parse_element f env (PListXMLParseNextTag f env) name pos b2 st = Some (r, st')"
        using run x by (cases "cstr b2 tagp") (auto simp: PListXMLParseNextTag.simps(2))
      then show ?thesis
        by (rule balanced_element [OF Suc ok])
    qed
  qed
qed (simp add: balanced_def)

lemma parse_top_bal:
  "sym_ok st \<Longrightarrow> parse_top f env b freed st = Some (t, st') \<Longrightarrow>
   sym_ok st' \<and> (\<forall>s. sym_count st' s = sym_count st s + (case t of None \<Rightarrow> 0 | Some t \<Rightarrow> tags_syms [t] s))"
proof (induction f arbitrary: b freed st t)
  case (Suc f)
  obtain r st1 where r: "PListXMLParseNextTag f env b st = Some (r, st1)"
    using Suc.prems(2) by (auto split: bind_splits)
  then have b1: "bal st r st1"
    using balanced_next Suc.prems(1) by (auto simp: balanced_def)
  show ?case
  proof (cases r)
    case None
    then show ?thesis
      using Suc.prems(2) r b1 by (auto simp: bal_def)
  next
    case (Some p)
    then obtain u l b2 where p: "r = Some (u, l, b2)"
      by (cases p) auto
    show ?thesis
    proof (cases u)
      case Stale
      then show ?thesis
        using Suc.prems(2) Suc.IH [of st1] r p b1 by (auto simp: bal_def split: if_splits)
    next
      case NullTag
      then show ?thesis
        using Suc.prems(2) Suc.IH [of st1] r p b1 by (auto simp: bal_def)
    next
      case (NewTag v)
      then show ?thesis
        using Suc.prems(2) Suc.IH [of "PListXMLFreeTag [v] st1"] r p b1 free_one [of st v l b2 st1]
        by (auto simp: bal_def split: if_splits simp del: PListXMLFreeTag.simps)
    qed
  qed
qed simp

section \<open>Fuel\<close>

definition keeps :: "parse_rec \<Rightarrow> bool" where
  "keeps g \<longleftrightarrow> (\<forall>b st t l b' st'. g b st = Some (Some (t, l, b'), st') \<longrightarrow> length b' = length b)"

lemma keepsD: "keeps g \<Longrightarrow> g b st = Some (Some (t, l, b'), st') \<Longrightarrow> length b' = length b"
  unfolding keeps_def by blast

lemma Fix_length:
  "PListXMLFixDataMatchingTag b tag = Some (Some (l, b')) \<Longrightarrow> length b' = length b"
proof (induction b tag arbitrary: l b' rule: PListXMLFixDataMatchingTag.induct)
  case (1 b tag)
  obtain x where x: "PListXMLGetNextTag b = Some (Some x)"
    using 1(2) by (subst (asm) PListXMLFixDataMatchingTag.simps) (auto split: bind_splits option.splits)
  obtain endTag stop len b1 where y: "x = (endTag, stop, len, b1)"
    by (cases x)
  note g = GetNextTag_Some [OF x [unfolded y]]
  obtain name where name: "cstr b1 endTag = Some name"
    using 1(2) x y by (subst (asm) PListXMLFixDataMatchingTag.simps) (auto split: bind_splits)
  show ?case
  proof (cases "name = 0x2f # tag")
    case True
    then show ?thesis
      using 1(2) x y name g(1) by (subst (asm) PListXMLFixDataMatchingTag.simps) auto
  next
    case False
    then obtain l2 b2 where r: "PListXMLFixDataMatchingTag (drop len b1) tag = Some (Some (l2, b2))" "b' = take len b1 @ b2"
      using 1(2) x y name by (subst (asm) PListXMLFixDataMatchingTag.simps) (auto split: bind_splits option.splits)
    have "length b2 = length (drop len b1)"
      using 1(1) [OF x refl y [symmetric] refl refl name False r(1)] by simp
    then show ?thesis
      using r(2) g by simp
  qed
qed

lemma keeps_leaves:
  "keeps (PListXMLParseTagString env)" "keeps (\<lambda>b. PListXMLParseTagInteger env b len0)"
  "keeps (PListXMLParseTagData env)" "keeps (PListXMLParseTagDate env)" "keeps (\<lambda>b. PListXMLParseTagBoolean env b ty)"
  unfolding keeps_def PListXMLParseTagString_def PListXMLParseTagInteger_def PListXMLParseTagData_def
    PListXMLParseTagDate_def PListXMLParseTagBoolean_def
  by (auto simp: Let_def dest!: Fix_length split: bind_splits option.splits bool.splits prod.splits if_splits)

lemma list_items_keeps:
  assumes "keeps g"
  shows "list_items n g b tags cyc st = Some (Some (ts, l, b'), st') \<Longrightarrow> length b' = length b"
proof (induction n arbitrary: b tags cyc st ts l b' st')
  case (Suc n)
  obtain r1 st1 where r1: "g b st = Some (r1, st1)"
    using Suc.prems(1) by (auto split: bind_splits)
  obtain p where "r1 = Some p"
    using Suc.prems r1 by (cases r1) (auto split: if_splits)
  then obtain t l1 b1 where p: "r1 = Some (t, l1, b1)"
    by (cases p) auto
  have b1: "length b1 = length b"
    using keepsD [OF assms] r1 p by simp
  have nx: "min (length b) l1 + length b2 = length b"
    if "list_items n g (drop l1 b1) tags' cyc' st1 = Some (Some (ts, l2, b2), st')" for tags' cyc' l2 b2
    using Suc.IH [OF that] b1 by simp
  show ?case
    using Suc.prems r1 p b1
    by (cases t) (auto split: bind_splits option.splits if_splits dest!: nx)
qed simp

lemma keeps_list:
  assumes "keeps g"
  shows "keeps (\<lambda>b. PListXMLParseTagList n env g b ty is_empty)"
  unfolding keeps_def
proof (intro allI impI)
  fix b st t l b' st'
  assume run: "PListXMLParseTagList n env g b ty is_empty st = Some (Some (t, l, b'), st')"
  obtain r1 st1 where r1: "(if is_empty then Some (Some ([], 0, b), st) else list_items n g b [] False st) = Some (r1, st1)"
    using run by (auto simp: PListXMLParseTagList_def split: bind_splits)
  obtain ts l1 b1 where p: "r1 = Some (ts, l1, b1)"
    using run r1 by (cases r1) (auto simp: PListXMLParseTagList_def)
  have "length b1 = length b"
    using r1 p list_items_keeps [OF assms] by (auto split: if_splits)
  moreover have "b' = b1"
    using run r1 p by (auto simp: PListXMLParseTagList_def split: prod.splits bool.splits)
  ultimately show "length b' = length b" by simp
qed

lemma keeps_key:
  assumes "keeps g"
  shows "keeps (PListXMLParseTagKey env g)"
  unfolding keeps_def
proof (intro allI impI)
  fix b st t l b' st'
  assume run: "PListXMLParseTagKey env g b st = Some (Some (t, l, b'), st')"
  obtain l1 b1 where f: "PListXMLFixDataMatchingTag b (lit ''key'') = Some (Some (l1, b1))"
    using run by (auto simp: PListXMLParseTagKey_def split: bind_splits option.splits)
  obtain r1 st1 where r1: "g (drop l1 b1) st = Some (r1, st1)"
    using run f by (auto simp: PListXMLParseTagKey_def split: bind_splits)
  obtain u l2 b2 where p: "r1 = Some (u, l2, b2)"
    using run f r1 by (cases r1) (auto simp: PListXMLParseTagKey_def)
  have "length b2 = length b1 - l1"
    using keepsD [OF assms] r1 p by fastforce
  moreover have "b' = take l1 b1 @ b2"
    using run f r1 p
    by (cases "PListXMLNewTag env st1")
      (auto simp: PListXMLParseTagKey_def Let_def split: bind_splits bool.splits option.splits prod.splits)
  ultimately show "length b' = length b"
    using Fix_length [OF f] by simp
qed

lemma at_pos_keeps:
  assumes "keeps (\<lambda>b. g b)" "at_pos pos b (\<lambda>b. g b st) = Some (Some (t, l, b'), st')" "pos \<le> length b"
  shows "length b' = length b \<and> pos \<le> l"
  using assms by (auto simp: at_pos_def keeps_def split: bind_splits option.splits) fastforce

lemma element_keeps:
  assumes "keeps g" "pos \<le> length b" "parse_element n env g name pos b st = Some (Some (t, l, b'), st')"
  shows "length b' = length b \<and> pos \<le> l"
  using assms(3) unfolding parse_element_def Let_def
  by (simp only: split: if_split_asm)
    (erule at_pos_keeps [OF keeps_list [OF assms(1)] _ assms(2)] at_pos_keeps [OF keeps_key [OF assms(1)] _ assms(2)]
      at_pos_keeps [OF keeps_leaves(1) _ assms(2)] at_pos_keeps [OF keeps_leaves(2) _ assms(2)]
      at_pos_keeps [OF keeps_leaves(3) _ assms(2)] at_pos_keeps [OF keeps_leaves(4) _ assms(2)]
      at_pos_keeps [OF keeps_leaves(5) _ assms(2)] | simp)+

lemma next_keeps:
  "PListXMLParseNextTag f env b st = Some (Some (t, l, b'), st') \<Longrightarrow> length b' = length b \<and> 2 \<le> l"
proof (induction f arbitrary: b st t l b' st')
  case (Suc f)
  have k: "keeps (PListXMLParseNextTag f env)"
    using Suc.IH by (auto simp: keeps_def)
  obtain x where x: "PListXMLGetNextTag b = Some (Some x)"
    using Suc.prems by (auto simp: PListXMLParseNextTag.simps(2) split: bind_splits option.splits)
  obtain tagp start pos b1 where y: "x = (tagp, start, pos, b1)"
    by (cases x)
  note g = GetNextTag_Some [OF x [unfolded y]]
  obtain name where "parse_element f env (PListXMLParseNextTag f env) name pos b1 st = Some (Some (t, l, b'), st')"
    using Suc.prems x y by (auto simp: PListXMLParseNextTag.simps(2) split: bind_splits)
  from element_keeps [OF k _ this] show ?case
    using g by simp
qed simp

lemma next_short: "PListXMLParseNextTag f env [] st = None"
  by (cases f) (simp_all add: PListXMLParseNextTag.simps(2) PListXMLGetNextTag_def)

lemma list_items_fuel:
  assumes "\<And>b st. length b \<le> L \<Longrightarrow> g b st = g' b st" "\<And>st. g [] st = None"
    and "\<And>b st t l b' st'. g b st = Some (Some (t, l, b'), st') \<Longrightarrow> length b' = length b \<and> 2 \<le> l"
  shows "length b \<le> L \<Longrightarrow> length b < n \<Longrightarrow> length b < n' \<Longrightarrow> list_items n g b tags cyc st = list_items n' g' b tags cyc st"
proof (induction n arbitrary: n' b tags cyc st)
  case (Suc n)
  obtain m where n': "n' = Suc m"
    using Suc.prems(3) by (cases n') auto
  have same: "g' b st = g b st"
    using assms(1) [OF Suc.prems(1)] by simp
  have "list_items n g (drop l b1) tags' cyc' st1 = list_items m g' (drop l b1) tags' cyc' st1"
    if "g b st = Some (Some (t, l, b1), st1)" for t l b1 st1 tags' cyc'
  proof -
    have "length b1 = length b" "2 \<le> l"
      using assms(3) [OF that] by auto
    moreover have "b \<noteq> []"
      using that assms(2) by auto
    ultimately have "length (drop l b1) \<le> L" "length (drop l b1) < n" "length (drop l b1) < m"
      using Suc.prems n' by (cases b; simp)+
    then show ?thesis by (rule Suc.IH)
  qed
  then show ?case
    by (auto simp: n' same Let_def intro!: Option.bind_cong split: option.split tagres.split)
qed simp


lemma next_fuel:
  "length b < f \<Longrightarrow> length b < f' \<Longrightarrow> PListXMLParseNextTag f env b st = PListXMLParseNextTag f' env b st"
proof (induction "length b" arbitrary: b st f f' rule: less_induct)
  case less
  obtain g g' where f: "f = Suc g" "f' = Suc g'"
    using less.prems by (cases f; cases f') auto
  show ?case
  proof (cases "PListXMLGetNextTag b")
    case None
    then show ?thesis by (simp add: f PListXMLParseNextTag.simps(2))
  next
    case (Some r)
    show ?thesis
    proof (cases r)
      case None
      then show ?thesis using Some by (simp add: f PListXMLParseNextTag.simps(2))
    next
      case (Some x)
      obtain tagp start pos b1 where y: "x = (tagp, start, pos, b1)"
        by (cases x)
      have gt: "PListXMLGetNextTag b = Some (Some (tagp, start, pos, b1))"
        using \<open>PListXMLGetNextTag b = Some r\<close> Some y by simp
      note k = GetNextTag_Some [OF gt]
      define rest where "rest = drop pos b1"
      have short: "length rest < length b" "length rest < g" "length rest < g'"
        using k less.prems f by (simp_all add: rest_def)
      have same: "PListXMLParseNextTag g env b' st' = PListXMLParseNextTag g' env b' st'"
        if "length b' \<le> length rest" for b' st'
        by (rule less.hyps) (use that short in simp_all)
      have list: "PListXMLParseTagList g env (PListXMLParseNextTag g env) rest ty e st =
          PListXMLParseTagList g' env (PListXMLParseNextTag g' env) rest ty e st" for ty e
      proof -
        have "list_items g (PListXMLParseNextTag g env) rest [] False st =
            list_items g' (PListXMLParseNextTag g' env) rest [] False st"
          by (rule list_items_fuel [where L = "length rest"]) (use same next_short next_keeps short in auto)
        then show ?thesis
          by (simp add: PListXMLParseTagList_def)
      qed
      have key: "PListXMLParseTagKey env (PListXMLParseNextTag g env) rest st =
          PListXMLParseTagKey env (PListXMLParseNextTag g' env) rest st"
      proof -
        have "PListXMLParseNextTag g env (drop l b2) st = PListXMLParseNextTag g' env (drop l b2) st"
          if "PListXMLFixDataMatchingTag rest (lit ''key'') = Some (Some (l, b2))" for l b2
          by (rule same) (use Fix_length [OF that] in simp)
        then show ?thesis
          by (auto simp: PListXMLParseTagKey_def intro!: Option.bind_cong split: option.split)
      qed
      have "parse_element g env (PListXMLParseNextTag g env) name pos b1 st =
          parse_element g' env (PListXMLParseNextTag g' env) name pos b1 st" for name
        using list key by (simp add: parse_element_def at_pos_def rest_def)
      then show ?thesis
        by (simp add: f gt PListXMLParseNextTag.simps(2))
    qed
  qed
qed

lemma top_fuel:
  "length b < f \<Longrightarrow> length b < f' \<Longrightarrow> 0 < length b \<Longrightarrow>
   parse_top (Suc f) env b freed st = parse_top (Suc f') env b freed st"
proof (induction "length b" arbitrary: b freed st f f' rule: less_induct)
  case less
  have same: "PListXMLParseNextTag f env b st = PListXMLParseNextTag f' env b st"
    by (rule next_fuel [OF less.prems(1,2)])
  obtain g g' where f: "f = Suc g" "f' = Suc g'"
    using less.prems by (cases f; cases f') auto
  have rest: "parse_top f env (drop l b1) fr st1 = parse_top f' env (drop l b1) fr st1"
    if "PListXMLParseNextTag f env b st = Some (Some (t, l, b1), st2)" for t l b1 fr st1 st2
  proof (cases "drop l b1 = []")
    case True
    then show ?thesis by (simp add: f next_short)
  next
    case False
    have "length b1 = length b" "2 \<le> l"
      using next_keeps [OF that] by auto
    then have "length (drop l b1) < length b" "length (drop l b1) < g" "length (drop l b1) < g'"
      using less.prems f by (cases b; simp)+
    then show ?thesis
      unfolding f using False by (intro less.hyps) auto
  qed
  show ?case
    using rest same by (auto intro!: Option.bind_cong split: option.split tagres.split)
qed

end
