(* ===== verification/PlistTotal.thy ===== *)
theory PlistTotal
  imports PlistParseFacts
begin

text \<open>
  The parser of \<^verbatim>\<open>Library/PListLib/plist_xml_parser.c\<close> returns. On a text that ends with a NUL and
  in which none of the four constructions stands that make the code run into undefined behaviour
  (\<open>safe_text\<close>), every function of the parser gives a status and stays inside the text
  (\<open>next_returns\<close>): what it hands on is always a suffix of the original text (\<open>ok_result\<close>), because
  the NULs it writes lie before the point where it stops.
\<close>

section \<open>Texts without the faulting constructions\<close>

definition opens :: "string \<Rightarrow> byte list \<Rightarrow> bool" where
  "opens name buf \<longleftrightarrow> take (length name + 2) buf = 0x3c # lit name @ [0x3e]"

text \<open>
  The text of a \<^verbatim>\<open>data\<close> element goes up to its end tag, without another tag in it (the decoder is
  given the length of the whole element and would read beyond the copy of the first piece) and
  without an opening brace (which the decoder's table does not have); or the text ends in it.
\<close>

definition plain_data :: "byte list \<Rightarrow> bool" where
  "plain_data q \<longleftrightarrow>
     (let s = takeWhile (\<lambda>c. c \<noteq> 0x3c \<and> c \<noteq> 0) q; r = drop (length s) q
      in (opens ''/data'' r \<and> of_char (CHR ''{'') \<notin> set s) \<or> take 1 r = [0])"

text \<open>
  An \<^verbatim>\<open>integer\<close> element does not begin with another tag: the early return would leave the length
  as the caller had it.
\<close>

definition plain_integer :: "byte list \<Rightarrow> bool" where
  "plain_integer q \<longleftrightarrow> take 1 q \<noteq> [0x3c] \<or> opens ''/integer'' q"

primrec safe_text :: "byte list \<Rightarrow> bool" where
  "safe_text [] = True"
| "safe_text (c # cs) = (safe_text cs \<and> \<not> opens ''plist'' (c # cs) \<and>
     (opens ''data'' (c # cs) \<longrightarrow> plain_data (drop 6 (c # cs))) \<and>
     (opens ''data '' (c # cs) \<longrightarrow> plain_data (drop 7 (c # cs))) \<and>
     (opens ''integer'' (c # cs) \<longrightarrow> plain_integer (drop 9 (c # cs))) \<and>
     (opens ''integer '' (c # cs) \<longrightarrow> plain_integer (drop 10 (c # cs))))"

lemma safe_text_drop: "safe_text b \<Longrightarrow> safe_text (drop n b)"
  by (induction b arbitrary: n) (auto simp: drop_Cons' simp del: drop_Suc_Cons)

text \<open>The texts the parser is given: they end with a NUL, and the firmware has the memory for their symbols.\<close>

definition ok_text :: "plenv \<Rightarrow> byte list \<Rightarrow> bool" where
  "ok_text env b \<longleftrightarrow> b \<noteq> [] \<and> last b = 0 \<and> safe_text b \<and> length b \<le> pl_maxstr env \<and> length b < 2 ^ 31"

lemma ok_text_drop: "ok_text env b \<Longrightarrow> n < length b \<Longrightarrow> ok_text env (drop n b)"
  unfolding ok_text_def using safe_text_drop by auto

text \<open>What a parsing function hands back: a tag or NULL, and the rest of the text as it was.\<close>

definition ok_rest :: "byte list \<Rightarrow> nat \<Rightarrow> byte list \<Rightarrow> bool" where
  "ok_rest b l b' \<longleftrightarrow> l < length b \<and> length b' = length b \<and> drop l b' = drop l b"

definition ok_result :: "byte list \<Rightarrow> presult \<Rightarrow> bool" where
  "ok_result b p \<longleftrightarrow>
     (case p of None \<Rightarrow> False | Some (None, st') \<Rightarrow> True
      | Some (Some (t, l, b'), st') \<Rightarrow> t \<noteq> Stale \<and> ok_rest b l b')"

definition returns :: "plenv \<Rightarrow> nat \<Rightarrow> parse_rec \<Rightarrow> bool" where
  "returns env L g \<longleftrightarrow> (\<forall>b st. ok_text env b \<longrightarrow> length b \<le> L \<longrightarrow> ok_result b (g b st))"

lemma ok_resultI [intro]:
  "ok_result b (Some (None, st'))"
  "t \<noteq> Stale \<Longrightarrow> ok_rest b l b' \<Longrightarrow> ok_result b (Some (Some (t, l, b'), st'))"
  by (simp_all add: ok_result_def)

lemma ok_result_cases:
  assumes "ok_result b p"
  obtains (error) st' where "p = Some (None, st')"
  | (tag) t l b' st' where "p = Some (Some (t, l, b'), st')" "t \<noteq> Stale" "ok_rest b l b'"
  using assms by (auto simp: ok_result_def split: option.splits prod.splits)

lemma ok_rest_trans:
  assumes "ok_rest b l b'" "ok_rest (drop l b') l2 b2"
  shows "ok_rest b (l + l2) (take l b' @ b2)"
  using assms by (auto simp: ok_rest_def min_def drop_drop add.commute)

lemma ok_rest_text: "ok_text env b \<Longrightarrow> ok_rest b l b' \<Longrightarrow> ok_text env (drop l b') \<and> length (drop l b') \<le> length b - l"
  using ok_text_drop by (auto simp: ok_rest_def)

section \<open>Scanning\<close>

lemma scan_to_ok:
  "b \<noteq> [] \<Longrightarrow> last b = 0 \<Longrightarrow>
   \<exists>n < length b. scan_to c b = Some n \<and> no_stop c (take n b) \<and> (b ! n = 0 \<or> b ! n = c)"
proof (induction b)
  case (Cons x xs)
  show ?case
  proof (cases "x = 0 \<or> x = c")
    case True
    then show ?thesis by auto
  next
    case False
    then have "xs \<noteq> []" "last xs = 0"
      using Cons.prems by (auto split: if_splits)
    then obtain n where "n < length xs" "scan_to c xs = Some n" "no_stop c (take n xs)" "xs ! n = 0 \<or> xs ! n = c"
      using Cons.IH by auto
    then show ?thesis
      using False by (intro exI [of _ "Suc n"]) auto
  qed
qed simp

lemma last_rest: "last b = 0 \<Longrightarrow> b = xs @ c # q \<Longrightarrow> c \<noteq> 0 \<Longrightarrow> q \<noteq> [] \<and> last q = (0 :: byte)"
  by (cases q) auto

lemma scan_to_stop: "no_stop c xs \<Longrightarrow> scan_to c (xs @ 0 # ys) = Some (length xs)"
  by (induction xs) auto

text \<open>On such a text the next tag is not there, or the text is cut into what is before it, its name and the rest.\<close>

lemma GetNextTag_ok:
  assumes "b \<noteq> []" "last b = 0"
  shows "PListXMLGetNextTag b = Some None \<or>
    (\<exists>ws name rest. b = ws @ 0x3c # name @ 0x3e # rest \<and> no_stop 0x3c ws \<and> no_stop 0x3e name \<and> rest \<noteq> [] \<and>
       PListXMLGetNextTag b = Some (Some (length ws + 1, length ws, length ws + length name + 2, ws @ 0x3c # name @ 0 # rest)))"
proof -
  obtain n where n: "n < length b" "scan_to 0x3c b = Some n" "no_stop 0x3c (take n b)" "b ! n = 0 \<or> b ! n = 0x3c"
    using scan_to_ok [OF assms] by blast
  show ?thesis
  proof (cases "b ! n = 0")
    case True
    then show ?thesis using n by (simp add: PListXMLGetNextTag_def)
  next
    case False
    define q where "q = drop (n + 1) b"
    have b: "b = take n b @ 0x3c # q"
      using id_take_nth_drop [OF n(1)] n(4) False by (simp add: q_def)
    have lq: "q \<noteq> []" "last q = 0"
      using last_rest [OF assms(2) b] by auto
    then obtain k where k: "k < length q" "scan_to 0x3e q = Some k" "no_stop 0x3e (take k q)" "q ! k = 0 \<or> q ! k = 0x3e"
      using scan_to_ok by blast
    have at: "b ! (n + 1 + k) = q ! k"
      using n(1) by (simp add: q_def)
    show ?thesis
    proof (cases "q ! k = 0")
      case True
      then show ?thesis using n k False at by (simp add: PListXMLGetNextTag_def q_def Let_def)
    next
      case False
      define rest where "rest = drop (k + 1) q"
      have q: "q = take k q @ 0x3e # rest"
        using id_take_nth_drop [OF k(1)] k(4) False by (simp add: rest_def)
      have "rest \<noteq> []"
        using last_rest [OF lq(2) q] by simp
      moreover have "b = take n b @ 0x3c # take k q @ 0x3e # rest"
        using b q by simp
      ultimately show ?thesis
        using GetNextTag_text [OF n(3) k(3), of rest] n(3) k(3) by (metis (no_types))
    qed
  qed
qed


lemma opens_iff: "opens name buf \<longleftrightarrow> (\<exists>rest. buf = 0x3c # lit name @ 0x3e # rest)"
proof
  assume "opens name buf"
  then have "buf = (0x3c # lit name @ [0x3e]) @ drop (length name + 2) buf"
    using append_take_drop_id [of "length name + 2" buf] unfolding opens_def by metis
  then show "\<exists>rest. buf = 0x3c # lit name @ 0x3e # rest"
    by auto
qed (auto simp: opens_def)

lemma Fix_ok:
  "b \<noteq> [] \<Longrightarrow> last b = 0 \<Longrightarrow> PListXMLFixDataMatchingTag b tag = Some None \<or>
    (\<exists>l b'. PListXMLFixDataMatchingTag b tag = Some (Some (l, b')) \<and> ok_rest b l b' \<and> 0 \<in> set (take l b') \<and> (b' ! 0 = b ! 0 \<or> b' ! 0 = 0))"
proof (induction b tag rule: PListXMLFixDataMatchingTag.induct)
  case (1 b tag)
  show ?case
  proof (cases "PListXMLGetNextTag b = Some None")
    case True
    then show ?thesis by (subst (1 2) PListXMLFixDataMatchingTag.simps) simp
  next
    case False
    then obtain ws name rest where b: "b = ws @ 0x3c # name @ 0x3e # rest" "no_stop 0x3e name" "rest \<noteq> []"
      and g: "PListXMLGetNextTag b =
        Some (Some (length ws + 1, length ws, length ws + length name + 2, ws @ 0x3c # name @ 0 # rest))"
      using GetNextTag_ok [OF 1(2,3)] by blast
    have c: "cstr (ws @ 0x3c # name @ 0 # rest) (length ws + 1) = Some name"
      using cstr_append [of "length ws + 1" "ws @ [0x3c]" name rest] b(2) by (simp add: no_stop_def)
    have c': "cstr (ws @ 0x3c # name @ 0 # rest) (Suc (length ws)) = Some name"
      using c by simp
    have rest: "drop (length ws + length name + 2) (ws @ 0x3c # name @ 0 # rest) = rest" "last rest = 0"
      using 1(3) b by auto
    show ?thesis
    proof (cases "name = 0x2f # tag")
      case True
      have "PListXMLFixDataMatchingTag b tag =
          Some (Some (length ws + length name + 2, (ws @ 0x3c # name @ 0 # rest)[length ws := 0]))"
        by (subst PListXMLFixDataMatchingTag.simps) (simp add: g c' True [symmetric])
      then show ?thesis
        using b by (cases ws) (auto simp: ok_rest_def list_update_append)
    next
      case False
      have step: "PListXMLFixDataMatchingTag b tag =
          do { r \<leftarrow> PListXMLFixDataMatchingTag rest tag;
               (case r of None \<Rightarrow> Some None
                | Some (l, rest) \<Rightarrow> Some (Some (length ws + length name + 2 + l, (ws @ 0x3c # name @ [0]) @ rest))) }"
        using False by (subst PListXMLFixDataMatchingTag.simps) (simp add: g c' cong: option.case_cong)
      have "PListXMLFixDataMatchingTag rest tag = Some None \<or>
          (\<exists>l b'. PListXMLFixDataMatchingTag rest tag = Some (Some (l, b')) \<and> ok_rest rest l b' \<and> 0 \<in> set (take l b') \<and>
            (b' ! 0 = rest ! 0 \<or> b' ! 0 = 0))"
        using 1(1) [OF g refl refl refl refl c False] rest b(3) by simp
      then show ?thesis
        unfolding step using b(1) by (cases ws) (auto simp: ok_rest_def)
    qed
  qed
qed

section \<open>Elements without elements in them\<close>

lemma NewTag_pool: "\<forall>n. pl_pool env n \<Longrightarrow> \<exists>st'. PListXMLNewTag env st = (True, st')"
  by (simp add: PListXMLNewTag_def)

lemma NewSymbol_pool:
  "\<forall>n. pl_pool env n \<Longrightarrow> length s < pl_maxstr env \<Longrightarrow> \<exists>st'. PListXMLNewSymbol env s st = (Some s, st')"
  by (simp add: PListXMLNewSymbol_def split: option.split)

text \<open>The NUL written at the end of the element ends the string that is read there.\<close>

lemma cstr_element:
  assumes "ok_rest b l b'" "0 \<in> set (take l b')"
  shows "\<exists>s. cstr b' 0 = Some s \<and> length s < length b"
proof -
  obtain s rest where "b' = s @ 0 # rest" "0 \<notin> set s"
    using split_list_first [OF in_set_takeD [OF assms(2)]] by blast
  then show ?thesis
    using assms(1) cstr_here [of s rest] by (auto simp: ok_rest_def)
qed

lemma returns_string: "\<forall>n. pl_pool env n \<Longrightarrow> returns env L (PListXMLParseTagString env)"
  unfolding returns_def
proof (intro allI impI)
  fix b st
  assume pool: "\<forall>n. pl_pool env n" and b: "ok_text env b"
  consider "PListXMLFixDataMatchingTag b (lit ''string'') = Some None"
    | l b' where "PListXMLFixDataMatchingTag b (lit ''string'') = Some (Some (l, b'))" "ok_rest b l b'" "0 \<in> set (take l b')"
    using Fix_ok [of b "lit ''string''"] b by (auto simp: ok_text_def)
  then show "ok_result b (PListXMLParseTagString env b st)"
  proof cases
    case 1
    then show ?thesis by (auto simp: PListXMLParseTagString_def)
  next
    case 2
    obtain s where s: "cstr b' 0 = Some s" "length s < pl_maxstr env"
      using cstr_element [OF 2(2,3)] b by (fastforce simp: ok_text_def)
    obtain st1 st2 where "PListXMLNewTag env st = (True, st1)" "PListXMLNewSymbol env s st1 = (Some s, st2)"
      using NewTag_pool [OF pool] NewSymbol_pool [OF pool s(2)] by metis
    then show ?thesis
      using 2 s(1) by (auto simp: PListXMLParseTagString_def)
  qed
qed

lemma returns_date: "\<forall>n. pl_pool env n \<Longrightarrow> returns env L (PListXMLParseTagDate env)"
  unfolding returns_def
proof (intro allI impI)
  fix b st
  assume pool: "\<forall>n. pl_pool env n" and b: "ok_text env b"
  obtain st1 where "PListXMLNewTag env st = (True, st1)"
    using NewTag_pool [OF pool] by blast
  then show "ok_result b (PListXMLParseTagDate env b st)"
    using Fix_ok [of b "lit ''date''"] b by (auto simp: ok_text_def PListXMLParseTagDate_def)
qed

lemma returns_boolean: "returns env L (\<lambda>b. PListXMLParseTagBoolean env b ty)"
  unfolding returns_def PListXMLParseTagBoolean_def
  by (auto split: prod.splits bool.splits simp: ok_rest_def ok_text_def)

lemma plstr2vlong_ok: "len \<le> length b \<Longrightarrow> \<exists>v. plstr2vlong env b len = Some v"
proof -
  assume len: "len \<le> length b"
  define w where "w = take (min len 39) b"
  define p where "p = (if 0x2d \<in> set w then Suc (length (takeWhile (\<lambda>c. c \<noteq> 0x2d) w)) else 0)"
  have "p \<le> length w"
  proof (cases "0x2d \<in> set w")
    case True
    then obtain xs ys where "w = xs @ 0x2d # ys" "0x2d \<notin> set xs"
      using split_list_first [OF True] by blast
    then have "takeWhile (\<lambda>c. c \<noteq> 0x2d) w = xs"
      by (simp add: takeWhile_no_stop)
    then show ?thesis
      using \<open>w = xs @ 0x2d # ys\<close> by (simp add: p_def)
  qed (simp add: p_def)
  then obtain s where "cstr (w @ [0]) p = Some s"
    by (simp add: cstr_def)
  moreover have "rd_range b 0 (min len 39) = Some w"
    using len by (simp add: rd_range_def w_def)
  ultimately show ?thesis
    by (auto simp: plstr2vlong_def p_def Let_def)
qed

lemma parse_integer_ok:
  assumes "\<forall>n. pl_pool env n" "ok_text env b" "plain_integer b"
  shows "ok_result b (PListXMLParseTagInteger env b len0 st)"
proof -
  obtain st1 where n: "PListXMLNewTag env st = (True, st1)"
    using NewTag_pool [OF assms(1)] by blast
  consider "PListXMLFixDataMatchingTag b (lit ''integer'') = Some None"
    | l b' where "PListXMLFixDataMatchingTag b (lit ''integer'') = Some (Some (l, b'))" "ok_rest b l b'" "b' ! 0 \<noteq> 0x3c"
  proof (cases "opens ''/integer'' b")
    case True
    then obtain rest where "b = 0x3c # 0x2f # lit ''integer'' @ 0x3e # rest"
      by (auto simp: opens_iff lit_Cons)
    moreover from this have "rest \<noteq> []"
      using last_rest [of b "0x3c # 0x2f # lit ''integer''" "0x3e" rest] assms(2) by (simp add: ok_text_def)
    ultimately show thesis
      using Fix_text [of "[]" "lit ''integer''" rest] that(2) by (auto simp: lit_Cons ok_rest_def)
  next
    case False
    then have "b ! 0 \<noteq> 0x3c"
      using assms(2,3) by (cases b) (auto simp: plain_integer_def ok_text_def)
    then show thesis
      using Fix_ok [of b "lit ''integer''"] assms(2) that by (auto simp: ok_text_def)
  qed
  then show ?thesis
  proof cases
    case 1
    then show ?thesis by (auto simp: PListXMLParseTagInteger_def)
  next
    case 2
    have "l \<le> length b'"
      using 2(2) by (simp add: ok_rest_def)
    then obtain v where "plstr2vlong env b' l = Some v"
      using plstr2vlong_ok by blast
    moreover have "rd b' 0 = Some (b' ! 0)"
      using 2(2) by (auto simp: rd_def ok_rest_def)
    ultimately show ?thesis
      using 2 n by (auto simp: PListXMLParseTagInteger_def)
  qed
qed

lemma parse_data_ok:
  assumes "\<forall>n. pl_pool env n" "ok_text env b" "plain_data b"
  shows "ok_result b (PListXMLParseTagData env b st)"
proof -
  define s where "s = takeWhile (\<lambda>c. c \<noteq> 0x3c \<and> c \<noteq> 0) b"
  define r where "r = drop (length s) b"
  have b: "b = s @ r"
    by (simp add: s_def r_def flip: dropWhile_eq_drop)
  have plain: "no_stop 0x3c s"
    by (auto simp: s_def no_stop_def dest: set_takeWhileD)
  consider "take 1 r = [0]" | "opens ''/data'' r" "of_char (CHR ''{'') \<notin> set s"
    using assms(3) by (auto simp: plain_data_def Let_def s_def r_def)
  then show ?thesis
  proof cases
    case 1
    then obtain q where "r = 0 # q"
      by (cases r) auto
    then have "scan_to 0x3c b = Some (length s)" "b ! length s = 0"
      using b scan_to_stop [OF plain] by auto
    then have "PListXMLFixDataMatchingTag b (lit ''data'') = Some None"
      by (subst PListXMLFixDataMatchingTag.simps) (simp add: PListXMLGetNextTag_def)
    then show ?thesis by (auto simp: PListXMLParseTagData_def)
  next
    case 2
    then obtain rest where r: "r = 0x3c # 0x2f # lit ''data'' @ 0x3e # rest"
      by (auto simp: opens_iff lit_Cons)
    have rest: "rest \<noteq> []"
      using last_rest [of b "s @ 0x3c # 0x2f # lit ''data''" "0x3e" rest] assms(2) r b by (simp add: ok_text_def)
    have f: "PListXMLFixDataMatchingTag b (lit ''data'') =
        Some (Some (length s + 7, s @ 0 # 0x2f # lit ''data'' @ 0 # rest))"
      using Fix_text [OF plain, of "lit ''data''" rest] b r by (simp add: lit_Cons)
    have len: "length s + 7 < length b" "length b < 2 ^ 31" "length b \<le> pl_maxstr env"
      using assms(2) rest unfolding ok_text_def by (simp_all add: b r lit_Cons Suc_le_eq)
    obtain st1 st2 where n: "PListXMLNewTag env st = (True, st1)" "PListXMLNewSymbol env s st1 = (Some s, st2)"
      using NewTag_pool [OF assms(1)] NewSymbol_pool [OF assms(1), of s] len by (metis add_lessD1 less_le_trans)
    have u: "unat (of_nat (length s + 7) :: u32) = length s + 7"
      using len by (simp add: unat_of_nat del: of_nat_add)
    have "plb64decode (pl_pool env) (symbol_mem s) (of_nat (length s + 7)) \<noteq> None"
      using plb64decode_faults_iff_brace [of "pl_pool env" "of_nat (length s + 7)" "symbol_mem s"] assms(1) len 2(2)
      unfolding u by (auto simp: symbol_mem_def sizeof_symbol_def symbol_string_offset_def dest: in_set_takeD)
    then obtain d where "plb64decode (pl_pool env) (symbol_mem s) (of_nat (length s + 7)) = Some d"
      by blast
    moreover have "cstr (s @ 0 # 0x2f # lit ''data'' @ 0 # rest) 0 = Some s"
      using cstr_here plain by (simp add: no_stop_def)
    moreover have "ok_rest b (length s + 7) (s @ 0 # 0x2f # lit ''data'' @ 0 # rest)"
      using b r rest by (simp add: ok_rest_def lit_Cons)
    ultimately show ?thesis
      using f n by (auto simp: PListXMLParseTagData_def split: option.split simp del: of_nat_add)
  qed
qed

section \<open>Elements with elements in them\<close>

lemma list_items_ok:
  assumes "returns env L g" "\<And>b st t l b' st'. g b st = Some (Some (t, l, b'), st') \<Longrightarrow> length b' = length b \<and> 2 \<le> l"
  shows "ok_text env b \<Longrightarrow> length b \<le> L \<Longrightarrow> length b < n \<Longrightarrow>
    \<exists>r st'. list_items n g b tags False st = Some (r, st') \<and> (\<forall>ts l b'. r = Some (ts, l, b') \<longrightarrow> ok_rest b l b')"
proof (induction n arbitrary: b tags st)
  case (Suc n)
  have "ok_result b (g b st)"
    using assms(1) Suc.prems by (auto simp: returns_def)
  then show ?case
  proof (cases rule: ok_result_cases)
    case (error st')
    then show ?thesis by simp
  next
    case (tag t l b1 st1)
    have two: "2 \<le> l"
      using assms(2) [OF tag(1)] by simp
    have rest: "length (drop l b1) \<le> length b - l" "ok_text env (drop l b1)"
      using ok_rest_text [OF Suc.prems(1) tag(3)] by auto
    have "0 < length b"
      using Suc.prems(1) by (simp add: ok_text_def)
    then have "length (drop l b1) \<le> L" "length (drop l b1) < n"
      using Suc.prems(2,3) two rest(1) by linarith+
    note next_items = Suc.IH [OF rest(2) this]
    show ?thesis
    proof (cases t)
      case (NewTag t')
      obtain r st' where "list_items n g (drop l b1) (tags @ [t']) False st1 = Some (r, st')"
        "\<forall>ts l' b'. r = Some (ts, l', b') \<longrightarrow> ok_rest (drop l b1) l' b'"
        using next_items by blast
      then show ?thesis
        using tag NewTag ok_rest_trans [OF tag(3)] by (auto split: option.split)
    qed (use tag in simp_all)
  qed
qed simp

lemma returns_list:
  assumes "\<forall>n. pl_pool env n" "returns env L g"
    and "\<And>b st t l b' st'. g b st = Some (Some (t, l, b'), st') \<Longrightarrow> length b' = length b \<and> 2 \<le> l" "L < n"
  shows "returns env L (\<lambda>b. PListXMLParseTagList n env g b ty e)"
  unfolding returns_def
proof (intro allI impI)
  fix b st
  assume b: "ok_text env b" "length b \<le> L"
  obtain r st1 where r: "(if e then Some (Some ([], 0, b), st) else list_items n g b [] False st) = Some (r, st1)"
    "\<forall>ts l b'. r = Some (ts, l, b') \<longrightarrow> ok_rest b l b'"
  proof (cases e)
    case True
    then show thesis
      using that [of "Some ([], 0, b)" st] b(1) by (simp add: ok_rest_def ok_text_def)
  next
    case False
    then show thesis
      using that list_items_ok [where n = n and tags = "[]" and st = st, OF assms(2) assms(3) b] b(2) assms(4) by fastforce
  qed
  show "ok_result b (PListXMLParseTagList n env g b ty e st)"
  proof (cases r)
    case None
    then show ?thesis using r(1) by (auto simp: PListXMLParseTagList_def)
  next
    case (Some p)
    obtain ts l b' where p: "p = (ts, l, b')"
      by (cases p)
    obtain st2 where "PListXMLNewTag env st1 = (True, st2)"
      using NewTag_pool [OF assms(1)] by blast
    then show ?thesis
      using r Some p by (auto simp: PListXMLParseTagList_def)
  qed
qed

lemma returns_key:
  assumes "\<forall>n. pl_pool env n" "returns env L g"
  shows "returns env L (PListXMLParseTagKey env g)"
  unfolding returns_def
proof (intro allI impI)
  fix b st
  assume b: "ok_text env b" "length b \<le> L"
  show "ok_result b (PListXMLParseTagKey env g b st)"
  proof (cases "PListXMLFixDataMatchingTag b (lit ''key'') = Some None")
    case True
    then show ?thesis by (auto simp: PListXMLParseTagKey_def)
  next
    case False
    then obtain l b1 where f: "PListXMLFixDataMatchingTag b (lit ''key'') = Some (Some (l, b1))"
      and l: "ok_rest b l b1" "0 \<in> set (take l b1)"
      using Fix_ok [of b "lit ''key''"] b by (auto simp: ok_text_def)
    have "ok_text env (drop l b1)" "length (drop l b1) \<le> L"
      using ok_rest_text [OF b(1) l(1)] b(2) by auto
    then have "ok_result (drop l b1) (g (drop l b1) st)"
      using assms(2) by (auto simp: returns_def)
    then show ?thesis
    proof (cases rule: ok_result_cases)
      case (error st1)
      then show ?thesis using f by (auto simp: PListXMLParseTagKey_def)
    next
      case (tag t l2 b2 st1)
      have rest: "ok_rest b (l + l2) (take l b1 @ b2)"
        by (rule ok_rest_trans [OF l(1) tag(3)])
      have "0 \<in> set (take (l + l2) (take l b1 @ b2))"
        using l by (auto simp: ok_rest_def min_def)
      then obtain s where s: "cstr (take l b1 @ b2) 0 = Some s" "length s < pl_maxstr env"
        using cstr_element [OF rest] b(1) by (fastforce simp: ok_text_def)
      obtain st2 st3 where "PListXMLNewTag env st1 = (True, st2)" "PListXMLNewSymbol env s st2 = (Some s, st3)"
        using NewTag_pool [OF assms(1)] NewSymbol_pool [OF assms(1) s(2)] by metis
      then show ?thesis
        using f tag(1) s(1) rest by (auto simp: PListXMLParseTagKey_def Let_def)
    qed
  qed
qed

lemma at_pos_ok:
  assumes "ok_rest b pos b1" "ok_result (drop pos b1) (f (drop pos b1))"
  shows "ok_result b (at_pos pos b1 f)"
  using assms(2)
proof (cases rule: ok_result_cases)
  case (tag t l b2 st')
  then show ?thesis
    using ok_rest_trans [OF assms(1) tag(3)] by (auto simp: at_pos_def)
qed (auto simp: at_pos_def)

text \<open>The tag found in a safe text is none of the faulting constructions.\<close>

lemma safe_tag:
  assumes "safe_text (ws @ 0x3c # lit name @ 0x3e # rest)"
  shows "name \<noteq> ''plist''" "name \<in> {''data'', ''data ''} \<Longrightarrow> plain_data rest"
    "name \<in> {''integer'', ''integer ''} \<Longrightarrow> plain_integer rest"
proof -
  have s: "safe_text (0x3c # lit name @ 0x3e # rest)"
    using safe_text_drop [OF assms, of "length ws"] by simp
  have o: "opens name (0x3c # lit name @ 0x3e # rest)"
    by (auto simp: opens_iff)
  have d: "drop (length name + 2) (0x3c # lit name @ 0x3e # rest) = rest"
    by simp
  note parts = s [unfolded safe_text.simps]
  show "name \<noteq> ''plist''"
    using parts o by metis
  show "plain_data rest" if "name \<in> {''data'', ''data ''}"
    using that parts o d by (elim insertE emptyE) simp_all
  show "plain_integer rest" if "name \<in> {''integer'', ''integer ''}"
    using that parts o d by (elim insertE emptyE) simp_all
qed

lemma element_ok:
  assumes pool: "\<forall>n. pl_pool env n" and g: "returns env L g"
    and len: "\<And>b st t l b' st'. g b st = Some (Some (t, l, b'), st') \<Longrightarrow> length b' = length b \<and> 2 \<le> l"
    and n: "L < n" and b: "ok_text env b" "b = ws @ 0x3c # name @ 0x3e # rest" "length rest \<le> L"
    and pos: "ok_rest b pos b1" "drop pos b1 = rest"
  shows "ok_result b (parse_element n env g name pos b1 st)"
proof -
  have rest: "ok_text env rest"
    using ok_rest_text [OF b(1) pos(1)] pos(2) by simp
  have leaf: "ok_result b (at_pos pos b1 (\<lambda>b. f b st))" if "returns env L f" for f
    using at_pos_ok [OF pos(1)] that rest b(3) pos(2) by (auto simp: returns_def)
  have safe: "safe_text b"
    using b(1) by (simp add: ok_text_def)
  have int: "ok_result b (at_pos pos b1 (\<lambda>b. PListXMLParseTagInteger env b pos st))"
    if "name = lit ''integer'' \<or> name = lit ''integer ''"
    using at_pos_ok [OF pos(1)] parse_integer_ok [OF pool rest] safe_tag(3) [of ws _ rest] safe that b(2) pos(2) by auto
  have data: "ok_result b (at_pos pos b1 (\<lambda>b. PListXMLParseTagData env b st))"
    if "name = lit ''data'' \<or> name = lit ''data ''"
    using at_pos_ok [OF pos(1)] parse_data_ok [OF pool rest] safe_tag(2) [of ws _ rest] safe that b(2) pos(2) by auto
  have plist: "name \<noteq> lit ''plist''"
    using safe_tag(1) [of ws "''plist''" rest] safe b(2) by auto
  have null: "ok_result b (Some (Some (NullTag, pos, b1), st))"
    using pos(1) by auto
  have either: "ok_result b (if c then x else y)" if "c \<Longrightarrow> ok_result b x" "\<not> c \<Longrightarrow> ok_result b y" for c x y
    using that by simp
  show ?thesis
    unfolding parse_element_def Let_def
    by (intro either leaf [OF returns_list [OF pool g len n]] leaf [OF returns_key [OF pool g]] leaf [OF returns_string [OF pool]]
        leaf [OF returns_date [OF pool]] leaf [OF returns_boolean] int data null) (use plist in simp_all)
qed

lemma next_returns:
  assumes "\<forall>n. pl_pool env n"
  shows "L < f \<Longrightarrow> returns env L (PListXMLParseNextTag f env)"
proof (induction f arbitrary: L)
  case (Suc f)
  show ?case
    unfolding returns_def
  proof (intro allI impI)
    fix b st
    assume b: "ok_text env b" "length b \<le> L"
    show "ok_result b (PListXMLParseNextTag (Suc f) env b st)"
    proof (cases "PListXMLGetNextTag b = Some None")
      case True
      then show ?thesis by (auto simp: PListXMLParseNextTag.simps(2))
    next
      case False
      then obtain ws name rest where g: "b = ws @ 0x3c # name @ 0x3e # rest" "no_stop 0x3e name" "rest \<noteq> []"
        "PListXMLGetNextTag b =
          Some (Some (length ws + 1, length ws, length ws + length name + 2, ws @ 0x3c # name @ 0 # rest))"
        using GetNextTag_ok [of b] b(1) by (auto simp: ok_text_def)
      have c: "cstr (ws @ 0x3c # name @ 0 # rest) (length ws + 1) = Some name"
        using cstr_append [of "length ws + 1" "ws @ [0x3c]" name rest] g(2) by (simp add: no_stop_def)
      have "length rest < f"
        using b(2) Suc.prems g(1) by simp
      then have "returns env (length rest) (PListXMLParseNextTag f env)"
        by (rule Suc.IH)
      moreover have "ok_rest b (length ws + length name + 2) (ws @ 0x3c # name @ 0 # rest)"
        using g(1,3) by (simp add: ok_rest_def)
      ultimately have "ok_result b (parse_element f env (PListXMLParseNextTag f env) name (length ws + length name + 2)
          (ws @ 0x3c # name @ 0 # rest) st)"
        using \<open>length rest < f\<close> b(1) g(1) by (intro element_ok [OF assms _ next_keeps, where L = "length rest"]) auto
      then show ?thesis
        using c by (simp add: PListXMLParseNextTag.simps(2) g(4))
    qed
  qed
qed simp

lemma top_returns:
  assumes "\<forall>n. pl_pool env n"
  shows "ok_text env b \<Longrightarrow> length b < f \<Longrightarrow> \<exists>r st'. parse_top (Suc f) env b freed st = Some (r, st')"
proof (induction f arbitrary: b freed st)
  case (Suc f)
  have "ok_result b (PListXMLParseNextTag (Suc f) env b st)"
    using next_returns [OF assms, of "length b" "Suc f"] Suc.prems by (auto simp: returns_def)
  then show ?case
  proof (cases rule: ok_result_cases)
    case (error st')
    then show ?thesis by simp
  next
    case (tag t l b1 st1)
    have "2 \<le> l"
      using next_keeps [OF tag(1)] by simp
    moreover have rest: "length (drop l b1) \<le> length b - l" "ok_text env (drop l b1)"
      using ok_rest_text [OF Suc.prems(1) tag(3)] by auto
    moreover have "0 < length b"
      using Suc.prems(1) by (simp add: ok_text_def)
    ultimately have "length (drop l b1) < f"
      using Suc.prems(2) by linarith
    note next_top = Suc.IH [OF rest(2) this]
    show ?thesis
      using tag next_top by (cases t) (simp_all del: parse_top.simps add: parse_top.simps(2) [of "Suc f"])
  qed
qed simp

text \<open>The NUL that ends the text is part of the working copy; it is the byte after the text the caller counts.\<close>

lemma PListXMLParse_returns:
  assumes "\<forall>n. pl_pool env n" "unat bSize < length buffer" "buffer ! unat bSize = 0" "safe_text (take (unat bSize + 1) buffer)"
    and "unat bSize < pl_maxstr env" "unat bSize + 1 < 2 ^ 31" "unat bSize + 2 < f"
  shows "\<exists>r st'. PListXMLParse f env buffer bSize st = Some (r, st')"
proof -
  define b where "b = take (unat bSize + 1) buffer"
  have u: "unat (bSize + 1) = unat bSize + 1"
    using assms(6) by (simp add: unat_word_ariths)
  have len: "length b = unat bSize + 1"
    using assms(2) by (simp add: b_def)
  then have "last b = 0"
    using assms(2,3) by (simp add: b_def take_Suc_conv_app_nth)
  then have ok: "ok_text env b"
    using assms(4-6) len by (auto simp: ok_text_def b_def)
  obtain g where f: "f = Suc g"
    using assms(7) by (cases f) auto
  have "\<exists>r st'. parse_top f env b False st = Some (r, st')"
    unfolding f by (rule top_returns [OF assms(1) ok]) (use assms(7) f len in simp)
  moreover have "rd_range buffer 0 (unat bSize + 1) = Some b" "bSize + 1 \<noteq> 0"
    using assms(2) u by (auto simp: rd_range_def b_def)
  ultimately show ?thesis
    using assms(1) by (simp add: PListXMLParse_def Let_def u del: parse_top.simps)
qed

end
