(* ===== verification/PlistRoundTrip.thy ===== *)
theory PlistRoundTrip
  imports PlistTotal
begin

text \<open>
  What the parser, the serialiser and the node constructors do together: the nodes grown from the
  tags of a value (\<open>grow_value\<close>), and the properties of the whole library: what is written is read
  back, lookups in it, no symbol is left behind, termination, and that a date never loads.
\<close>

section \<open>From tags to nodes\<close>

definition grows :: "plheap \<Rightarrow> plheap \<Rightarrow> ptree \<Rightarrow> plist list \<Rightarrow> ptree \<Rightarrow> bool" where
  "grows h h' bag vs bag' \<longleftrightarrow>
     tree h' bag' \<and> pt_addr bag' = pt_addr bag \<and> kind (pt_node bag') = kind (pt_node bag) \<and>
     refcnt (pt_node bag') = refcnt (pt_node bag) \<and> datval (pt_node bag') = datval (pt_node bag) \<and>
     datlen (pt_node bag') = datlen (pt_node bag) \<and>
     map val_of (pt_kids bag') = map val_of (pt_kids bag) @ vs \<and> fresh_ok h' \<and> fresh h \<le> fresh h' \<and>
     (\<forall>a \<in> set (addrs bag'). a \<in> set (addrs bag) \<or> fresh h \<le> a) \<and>
     (\<forall>a < fresh h. a \<noteq> pt_addr bag \<longrightarrow> nodes h' a = nodes h a)"

definition can_take :: "ptree \<Rightarrow> plist \<Rightarrow> bool" where
  "can_take bag v \<longleftrightarrow>
     (case kind (pt_node bag) of
        plKindArray \<Rightarrow> True
      | plKindDict \<Rightarrow> \<exists>k w. v = PKey k (Some w)
      | plKindKey \<Rightarrow> pt_kids bag = []
      | _ \<Rightarrow> False)"

lemma grows_refl: "tree h bag \<Longrightarrow> fresh_ok h \<Longrightarrow> grows h h bag [] bag"
  by (simp add: grows_def)

lemma grows_trans: "grows h h1 bag vs b1 \<Longrightarrow> grows h1 h2 b1 ws b2 \<Longrightarrow> grows h h2 bag (vs @ ws) b2"
  unfolding grows_def by auto

lemma attach:
  assumes "fresh_ok h" "tree h bag" "new_tree h h1 t" "accepts bag t" "\<And>n. pl_pool env n"
    and "length (pt_kids bag) < 2 ^ 27"
  shows "\<exists>h2 bag'. plNodeAdd env (Some (pt_addr bag)) (Some (pt_addr t)) h1 = Some (True, h2) \<and>
    grows h h2 bag [val_of t] bag'"
proof -
  have t: "tree h1 t" "refcnt (pt_node t) = 0" "extends h h1" "fresh_ok h1" "\<forall>a \<in> set (addrs t). fresh h \<le> a"
    using assms(3) by (auto simp: new_tree_def)
  have b: "tree h1 bag"
    by (rule extends_tree [OF assms(1) t(3) assms(2)])
  have old: "a < fresh h" if "a \<in> set (addrs bag)" for a
    using that assms(1,2) fresh_ok_addr by (auto simp: tree_def)
  have disj: "set (addrs bag) \<inter> set (addrs t) = {}"
    using old t(5) by (metis disjoint_iff not_less)
  obtain h2 bag' where add: "plNodeAdd env (Some (pt_addr bag)) (Some (pt_addr t)) h1 = Some (True, h2)"
    "adds_to h1 h2 bag t bag'"
    using plNodeAdd_accepted [OF b t(1) disj t(2) assms(5,6,4)] by blast
  have bt: "pt_addr bag < fresh h1" "pt_addr t < fresh h1"
    using fresh_ok_addr [OF t(4)] b t(1) by (auto simp: tree_def)
  have "grows h h2 bag [val_of t] bag'"
    unfolding grows_def
  proof (intro conjI)
    show "fresh_ok h2"
      using add(2) t(4) bt by (auto simp: adds_to_def fresh_ok_def)
    show "\<forall>a<fresh h. a \<noteq> pt_addr bag \<longrightarrow> nodes h2 a = nodes h a"
    proof (intro allI impI)
      fix a
      assume a: "a < fresh h" "a \<noteq> pt_addr bag"
      then have "a \<noteq> pt_addr t"
        using t(5) by (metis not_le pt_addr_in_addrs)
      then show "nodes h2 a = nodes h a"
        using a add(2) t(3) by (auto simp: adds_to_def extends_def)
    qed
    show "fresh h \<le> fresh h2"
      using add(2) t(3) by (simp add: adds_to_def extends_def)
    show "\<forall>a\<in>set (addrs bag'). a \<in> set (addrs bag) \<or> fresh h \<le> a"
      using add(2) t(5) by (auto simp: adds_to_def)
  qed (use add(2) in \<open>simp_all add: adds_to_def\<close>)
  with add(1) show ?thesis by blast
qed

lemma grown_new:
  assumes "fresh_ok h" "new_tree h h1 t" "grows h1 h2 t vs t'"
  shows "new_tree h h2 t'"
proof -
  have t: "tree h1 t" "refcnt (pt_node t) = 0" "extends h h1" "\<forall>a \<in> set (addrs t). fresh h \<le> a"
    using assms(2) by (auto simp: new_tree_def)
  have "extends h h2"
    unfolding extends_def
  proof (intro conjI allI impI)
    fix a
    assume a: "a < fresh h"
    then have "a \<noteq> pt_addr t"
      using t(4) by (metis not_le pt_addr_in_addrs)
    then show "nodes h2 a = nodes h a"
      using a assms(3) t(3) by (auto simp: grows_def extends_def)
  next
    show "fresh h \<le> fresh h2"
      using assms(3) t(3) by (auto simp: grows_def extends_def)
  qed
  moreover have "\<forall>a \<in> set (addrs t'). fresh h \<le> a"
    using assms(3) t(3,4) by (auto simp: grows_def extends_def)
  ultimately show ?thesis
    using assms(3) t(2) by (simp add: new_tree_def grows_def)
qed

lemma grown_val:
  assumes "grows h1 h2 t vs t'" "pt_kids t = []"
  shows "val_of t = PArray [] \<Longrightarrow> kind (pt_node t) = plKindArray \<Longrightarrow> val_of t' = PArray vs"
    and "val_of t = PDict [] \<Longrightarrow> kind (pt_node t) = plKindDict \<Longrightarrow> val_of t' = PDict vs"
    and "val_of t = PKey k None \<Longrightarrow> kind (pt_node t) = plKindKey \<Longrightarrow> vs = [v] \<Longrightarrow> val_of t' = PKey k (Some v)"
proof -
  obtain a n a' n' ks' where t: "t = PT a n []" "t' = PT a' n' ks'"
    using assms(2) by (cases t; cases t') auto
  have g: "kind n' = kind n" "datval n' = datval n" "datlen n' = datlen n" "map val_of ks' = vs"
    using assms(1) by (auto simp: t grows_def)
  show "val_of t = PArray [] \<Longrightarrow> kind (pt_node t) = plKindArray \<Longrightarrow> val_of t' = PArray vs"
    "val_of t = PDict [] \<Longrightarrow> kind (pt_node t) = plKindDict \<Longrightarrow> val_of t' = PDict vs"
    using g by (simp_all add: t)
  show "val_of t = PKey k None \<Longrightarrow> kind (pt_node t) = plKindKey \<Longrightarrow> vs = [v] \<Longrightarrow> val_of t' = PKey k (Some v)"
    using g by (auto simp: t data_of_def split: option.splits)
qed

lemma kind_of_val: "rep m t \<Longrightarrow> kind (pt_node t) = plist_kind (val_of t)"
  by (simp add: plist_kind_val_of)

lemma accepts_val:
  assumes "rep m t" "can_take bag (val_of t)"
  shows "accepts bag t"
proof (cases "kind (pt_node bag) = plKindDict")
  case True
  then obtain k w where "val_of t = PKey k (Some w)"
    using assms(2) by (auto simp: can_take_def)
  moreover obtain a n ks where "t = PT a n ks"
    by (cases t)
  ultimately show ?thesis
    using True by (auto simp: accepts_def split: plkind.splits list.splits)
next
  case False
  then show ?thesis
    using assms(2) by (auto simp: accepts_def can_take_def split: plkind.splits)
qed

lemma plGrowTree_Cons:
  "plGrowTree fuel env (t # ts) pn h =
     do { (ok, h) \<leftarrow> plGrowTree fuel env [t] pn h; if ok then plGrowTree fuel env ts pn h else Some (False, h) }"
proof (cases t)
  case (Tag ty s d dl iv sub)
  show ?thesis
    by (simp add: Tag Let_def) (auto split: bind_splits)
qed

text \<open>The nodes grown from one tag, and from a chain.\<close>

definition grow_ok :: "nat \<Rightarrow> plenv \<Rightarrow> plist \<Rightarrow> bool" where
  "grow_ok fuel env v \<longleftrightarrow>
     (\<forall>t h bag. denotes v t \<longrightarrow> fresh_ok h \<longrightarrow> tree h bag \<longrightarrow> can_take bag v \<longrightarrow> length (pt_kids bag) < 2 ^ 27 \<longrightarrow>
        (\<exists>h' bag'. plGrowTree fuel env [t] (Some (pt_addr bag)) h = Some (True, h') \<and> grows h h' bag [v] bag'))"

lemma grow_chain:
  assumes "\<And>v. v \<in> set vs \<Longrightarrow> grow_ok fuel env v" "list_all2 denotes vs ts" "fresh_ok h" "tree h bag"
    and "kind (pt_node bag) = plKindArray \<or>
      kind (pt_node bag) = plKindDict \<and> (\<forall>v \<in> set vs. \<exists>k w. v = PKey k (Some w)) \<or>
      kind (pt_node bag) = plKindKey \<and> pt_kids bag = [] \<and> length vs \<le> 1"
    and "length (pt_kids bag) + length vs \<le> 2 ^ 27"
  shows "\<exists>h' bag'. plGrowTree fuel env ts (Some (pt_addr bag)) h = Some (True, h') \<and> grows h h' bag vs bag'"
  using assms
proof (induction vs arbitrary: ts h bag)
  case Nil
  then show ?case
    by (auto intro: grows_refl)
next
  case (Cons v vs)
  obtain t ts' where ts: "ts = t # ts'" "denotes v t" "list_all2 denotes vs ts'"
    using Cons.prems(2) by (auto simp: list_all2_Cons1)
  have "can_take bag v"
    using Cons.prems(5) by (auto simp: can_take_def)
  then obtain h1 b1 where h1: "plGrowTree fuel env [t] (Some (pt_addr bag)) h = Some (True, h1)" "grows h h1 bag [v] b1"
    using Cons.prems(1) [of v] Cons.prems(3,4,6) ts(2) unfolding grow_ok_def by fastforce
  have b1: "tree h1 b1" "fresh_ok h1" "kind (pt_node b1) = kind (pt_node bag)" "pt_addr b1 = pt_addr bag"
    using h1(2) by (auto simp: grows_def)
  have l1: "length (pt_kids b1) = Suc (length (pt_kids bag))"
  proof -
    have "length (map val_of (pt_kids b1)) = length (map val_of (pt_kids bag) @ [v])"
      using h1(2) by (simp only: grows_def)
    then show ?thesis by simp
  qed
  show ?case
  proof (cases "vs = []")
    case True
    then show ?thesis
      using h1 ts by auto
  next
    case False
    then obtain h2 b2 where "plGrowTree fuel env ts' (Some (pt_addr b1)) h1 = Some (True, h2)" "grows h1 h2 b1 vs b2"
      using Cons.IH [OF _ ts(3) b1(2,1)] Cons.prems(1,5,6) b1(3) l1 by (cases vs) auto
    then show ?thesis
      using h1 b1(4) grows_trans [OF h1(2)] unfolding ts(1) plGrowTree_Cons [of fuel env t ts'] by auto
  qed
qed


lemma grow_leaf_ok:
  assumes "builds r h v" "fresh_ok h" "tree h bag" "can_take bag v" "\<And>n. pl_pool env n" "length (pt_kids bag) < 2 ^ 27"
  shows "\<exists>h' bag'. grow_leaf env (Some (pt_addr bag)) r = Some (True, h') \<and> grows h h' bag [v] bag'"
proof -
  obtain h1 t where t: "r = Some (Some (pt_addr t), h1)" "new_tree h h1 t" "val_of t = v"
    using assms(1) by (auto simp: builds_def)
  then have "accepts bag t"
    using assms(4) by (intro accepts_val [of "nodes h1"]) (auto simp: new_tree_def tree_def)
  from attach [OF assms(2,3) t(2) this assms(5,6)] show ?thesis
    using t by (simp add: grow_leaf_def)
qed

lemma grow_bag_ok:
  assumes "builds r h v0" "fresh_ok h" "tree h bag" "can_take bag v" "\<And>n. pl_pool env n" "length (pt_kids bag) < 2 ^ 27"
    and sub: "\<And>h1 t. fresh_ok h1 \<Longrightarrow> tree h1 t \<Longrightarrow> kind (pt_node t) = plist_kind v0 \<Longrightarrow> pt_kids t = [] \<Longrightarrow>
        \<exists>h2 t'. grow (Some (pt_addr t)) h1 = Some (True, h2) \<and> grows h1 h2 t vs t'"
    and v: "v0 = PArray [] \<and> v = PArray vs \<or> v0 = PDict [] \<and> v = PDict vs \<or>
        (\<exists>k w. v0 = PKey k None \<and> v = PKey k (Some w) \<and> vs = [w])"
  shows "\<exists>h' bag'. do { (wn, h) \<leftarrow> r; plGrowBag fuel env grow (Some (pt_addr bag)) wn h } = Some (True, h') \<and>
    grows h h' bag [v] bag'"
proof -
  obtain h1 t where t: "r = Some (Some (pt_addr t), h1)" "new_tree h h1 t" "val_of t = v0" "pt_kids t = []"
    using assms(1) by (auto simp: builds_def)
  have k: "kind (pt_node t) = plist_kind v0"
    using t(2,3) kind_of_val [of "nodes h1" t] by (simp add: new_tree_def tree_def)
  have "tree h1 t" "fresh_ok h1"
    using t(2) by (auto simp: new_tree_def)
  from sub [OF this(2,1) k t(4)] obtain h2 t' where g: "grow (Some (pt_addr t)) h1 = Some (True, h2)" "grows h1 h2 t vs t'"
    by blast
  have n: "new_tree h h2 t'"
    by (rule grown_new [OF assms(2) t(2) g(2)])
  have val: "val_of t' = v"
    using v grown_val [OF g(2) t(4)] t(3) k by auto
  then have "accepts bag t'"
    using assms(4) n by (intro accepts_val [of "nodes h2"]) (auto simp: new_tree_def tree_def)
  from attach [OF assms(2,3) n this assms(5,6)] obtain h3 bag' where
    "plNodeAdd env (Some (pt_addr bag)) (Some (pt_addr t')) h2 = Some (True, h3)" "grows h h3 bag [v] bag'"
    using val by auto
  moreover have "pt_addr t' = pt_addr t"
    using g(2) by (simp add: grows_def)
  ultimately show ?thesis
    using t(1) g(1) by (auto simp: plGrowBag_def)
qed

lemma grow_value: "readable env v \<Longrightarrow> (\<And>n. pl_pool env n) \<Longrightarrow> grow_ok fuel env v"
proof (induction v)
  case (PArray es)
  show ?case
    unfolding grow_ok_def
  proof (intro allI impI)
    fix t h bag
    assume a: "denotes (PArray es) t" "fresh_ok h" "tree h bag" "can_take bag (PArray es)" "length (pt_kids bag) < 2 ^ 27"
    obtain s d dl iv sub where t: "t = Tag kTagTypeArray s d dl iv sub" "list_all2 denotes es sub"
      using a(1) by (cases t) auto
    have "\<exists>h' bag'. do { (wn, h) \<leftarrow> Some (plArrayNew env h);
        plGrowBag fuel env (plGrowTree fuel env sub) (Some (pt_addr bag)) wn h } = Some (True, h') \<and>
        grows h h' bag [PArray es] bag'"
    proof (rule grow_bag_ok [OF plArrayNew_builds [OF a(2)] a(2-4) _ a(5), where vs = es])
      fix h1 u
      assume u: "fresh_ok h1" "tree h1 u" "kind (pt_node u) = plist_kind (PArray [])" "pt_kids u = []"
      show "\<exists>h2 t'. plGrowTree fuel env sub (Some (pt_addr u)) h1 = Some (True, h2) \<and> grows h1 h2 u es t'"
        by (rule grow_chain [OF PArray.IH t(2) u(1,2)]) (use PArray.prems u in auto)
    qed (use PArray.prems in auto)
    then show "\<exists>h' bag'. plGrowTree fuel env [t] (Some (pt_addr bag)) h = Some (True, h') \<and> grows h h' bag [PArray es] bag'"
      by (auto simp: t(1) Let_def)
  qed
next
  case (PDict es)
  show ?case
    unfolding grow_ok_def
  proof (intro allI impI)
    fix t h bag
    assume a: "denotes (PDict es) t" "fresh_ok h" "tree h bag" "can_take bag (PDict es)" "length (pt_kids bag) < 2 ^ 27"
    obtain s d dl iv sub where t: "t = Tag kTagTypeDict s d dl iv sub" "list_all2 denotes es sub"
      using a(1) by (cases t) auto
    have "\<exists>h' bag'. do { (wn, h) \<leftarrow> Some (plDictNew env h);
        plGrowBag fuel env (plGrowTree fuel env sub) (Some (pt_addr bag)) wn h } = Some (True, h') \<and>
        grows h h' bag [PDict es] bag'"
    proof (rule grow_bag_ok [OF plDictNew_builds [OF a(2)] a(2-4) _ a(5), where vs = es])
      fix h1 u
      assume u: "fresh_ok h1" "tree h1 u" "kind (pt_node u) = plist_kind (PDict [])" "pt_kids u = []"
      show "\<exists>h2 t'. plGrowTree fuel env sub (Some (pt_addr u)) h1 = Some (True, h2) \<and> grows h1 h2 u es t'"
        by (rule grow_chain [OF PDict.IH t(2) u(1,2)]) (use PDict.prems u in auto)
    qed (use PDict.prems in auto)
    then show "\<exists>h' bag'. plGrowTree fuel env [t] (Some (pt_addr bag)) h = Some (True, h') \<and> grows h h' bag [PDict es] bag'"
      by (auto simp: t(1) Let_def)
  qed
next
  case (PKey k x)
  then obtain w where w: "x = Some w" "readable env w" "length k < 2 ^ 31"
    by (cases x) auto
  show ?case
    unfolding grow_ok_def
  proof (intro allI impI)
    fix t h bag
    assume a: "denotes (PKey k x) t" "fresh_ok h" "tree h bag" "can_take bag (PKey k x)" "length (pt_kids bag) < 2 ^ 27"
    obtain d iv u0 where t: "t = Tag kTagTypeKey (Some k) d (length k) iv [u0]" "denotes w u0"
      using a(1) w(1) by (cases t) (auto simp: list_all2_Cons1)
    have b: "builds (plKeyNew env (Some k) (length k) None h) h (PKey k None)"
      using data_kinds_build(3) [OF a(2) PKey.prems(2), of k "length k" "[]"] w(3) by simp
    have "\<exists>h' bag'. do { (wn, h) \<leftarrow> plKeyNew env (Some k) (length k) None h;
        plGrowBag fuel env (plGrowTree fuel env [u0]) (Some (pt_addr bag)) wn h } = Some (True, h') \<and>
        grows h h' bag [PKey k x] bag'"
    proof (rule grow_bag_ok [OF b a(2-4) _ a(5), where vs = "[w]"])
      fix h1 u
      assume u: "fresh_ok h1" "tree h1 u" "kind (pt_node u) = plist_kind (PKey k None)" "pt_kids u = []"
      have ok: "grow_ok fuel env v" if "v \<in> set [w]" for v
        using that w PKey.IH [of w] PKey.prems(2) by simp
      show "\<exists>h2 t'. plGrowTree fuel env [u0] (Some (pt_addr u)) h1 = Some (True, h2) \<and> grows h1 h2 u [w] t'"
        by (rule grow_chain [OF ok _ u(1,2)]) (use t(2) u in auto)
    qed (use PKey.prems w in auto)
    then show "\<exists>h' bag'. plGrowTree fuel env [t] (Some (pt_addr bag)) h = Some (True, h') \<and> grows h h' bag [PKey k x] bag'"
      by (cases "plKeyNew env (Some k) (length k) None h") (auto simp: t(1) Let_def)
  qed
next
  case (PBool b)
  show ?case
    unfolding grow_ok_def
  proof (intro allI impI)
    fix t h bag
    assume a: "denotes (PBool b) t" "fresh_ok h" "tree h bag" "can_take bag (PBool b)" "length (pt_kids bag) < 2 ^ 27"
    show "\<exists>h' bag'. plGrowTree fuel env [t] (Some (pt_addr bag)) h = Some (True, h') \<and> grows h h' bag [PBool b] bag'"
      using grow_leaf_ok [OF plBoolNew_builds [OF a(2) PBool.prems(2)] a(2-4) PBool.prems(2) a(5)] a(1)
      by (cases t; cases b) (auto simp: Let_def)
  qed
next
  case (PData x)
  show ?case
    unfolding grow_ok_def
  proof (intro allI impI)
    fix t h bag
    assume a: "denotes (PData x) t" "fresh_ok h" "tree h bag" "can_take bag (PData x)" "length (pt_kids bag) < 2 ^ 27"
    obtain s iv sub post where t: "t = Tag kTagTypeData s (Some (x @ post)) (length x) iv sub"
      using a(1) by (cases t) auto
    have "builds (plDataNew env (Some (x @ post)) (length x) h) h (PData x)"
      using PData.prems(1) by (intro data_kinds_build(1) [OF a(2) PData.prems(2)]) auto
    from grow_leaf_ok [OF this a(2-4) PData.prems(2) a(5)]
    show "\<exists>h' bag'. plGrowTree fuel env [t] (Some (pt_addr bag)) h = Some (True, h') \<and> grows h h' bag [PData x] bag'"
      by (auto simp: t Let_def)
  qed
next
  case (PDate x)
  then show ?case by simp
next
  case (PInteger i)
  show ?case
    unfolding grow_ok_def
  proof (intro allI impI)
    fix t h bag
    assume a: "denotes (PInteger i) t" "fresh_ok h" "tree h bag" "can_take bag (PInteger i)" "length (pt_kids bag) < 2 ^ 27"
    show "\<exists>h' bag'. plGrowTree fuel env [t] (Some (pt_addr bag)) h = Some (True, h') \<and> grows h h' bag [PInteger i] bag'"
      using grow_leaf_ok [OF plIntegerNew_builds [OF a(2) PInteger.prems(2)] a(2-4) PInteger.prems(2) a(5)] a(1)
      by (cases t) (auto simp: Let_def)
  qed
next
  case (PString x)
  show ?case
    unfolding grow_ok_def
  proof (intro allI impI)
    fix t h bag
    assume a: "denotes (PString x) t" "fresh_ok h" "tree h bag" "can_take bag (PString x)" "length (pt_kids bag) < 2 ^ 27"
    obtain d iv sub where t: "t = Tag kTagTypeString (Some x) d (length x) iv sub"
      using a(1) by (cases t) auto
    have "builds (plStringNew env (Some x) (length x) h) h (PString x)"
      using PString.prems(1) data_kinds_build(2) [OF a(2) PString.prems(2), of x "length x" "[]"] by simp
    from grow_leaf_ok [OF this a(2-4) PString.prems(2) a(5)]
    show "\<exists>h' bag'. plGrowTree fuel env [t] (Some (pt_addr bag)) h = Some (True, h') \<and> grows h h' bag [PString x] bag'"
      by (auto simp: t Let_def)
  qed
qed


section \<open>The round trip\<close>

definition no_syms :: "pst \<Rightarrow> bool" where
  "no_syms st \<longleftrightarrow> psymbols st = [] \<and> pnfree st = 0"

lemma sym_count_zero: "sym_ok st \<Longrightarrow> \<forall>s. sym_count st s = 0 \<Longrightarrow> psymbols st = []"
proof (cases "psymbols st")
  case (Cons p ps)
  assume ok: "sym_ok st" and z: "\<forall>s. sym_count st s = 0"
  have "sym_count st (fst p) = snd p"
    by (simp add: sym_count_def FindSymbol_map_of Cons)
  with ok z Cons show ?thesis
    by (simp add: sym_ok_def)
qed simp

lemma cleanup_after:
  assumes "psymbols st = []" "parse_top f env b freed st = Some (t, st')"
  shows "PListXMLCleanup (case t of None \<Rightarrow> st' | Some t \<Rightarrow> PListXMLFreeTag [t] st') \<noteq> None"
proof -
  have ok: "sym_ok st" and z: "\<forall>s. sym_count st s = 0"
    using assms(1) by (simp_all add: sym_ok_def sym_count_def FindSymbol_map_of)
  note p = parse_top_bal [OF ok assms(2)]
  show ?thesis
  proof (cases t)
    case None
    then have "psymbols st' = []"
      using p z by (intro sym_count_zero) auto
    then show ?thesis
      by (simp add: None PListXMLCleanup_def)
  next
    case (Some u)
    then have "sym_ok (PListXMLFreeTag [u] st') \<and> (\<forall>s. sym_count (PListXMLFreeTag [u] st') s = 0)"
      using sym_count_FreeTag [of st' "[u]"] p z by simp
    then have "psymbols (PListXMLFreeTag [u] st') = []"
      by (intro sym_count_zero) auto
    then show ?thesis
      by (simp add: Some PListXMLCleanup_def del: PListXMLFreeTag.simps)
  qed
qed

lemma read_back:
  assumes "readable env (PDict es)" "psize (PDict es) \<le> f" "\<And>n. pl_pool env n" "no_syms st" "fresh_ok h"
    and "length (xml_text env (PDict es)) < 2 ^ 32 - 1" "unat blen = length (xml_text env (PDict es))"
    and "buf_dat ibuf = xml_text env (PDict es) @ x # post" "buf_len ibuf = blen"
  shows "\<exists>t h'. plXmlToNode (f + 4) env ibuf st h = Some (Some (pt_addr t), st, h') \<and>
    new_tree h h' t \<and> val_of t = PDict es"
proof -
  let ?v = "PDict es"
  let ?text = "xml_text env ?v"
  have st: "psymbols st = []" "pnfree st = 0"
    using assms(4) by (simp_all add: no_syms_def)
  have len: "unat (blen + 1) = length ?text + 1"
    using assms(6,7) by (simp add: unat_word_ariths)
  then have nz: "blen + 1 \<noteq> 0"
    by (metis Suc_eq_plus1 nat.distinct(1) unat_0)
  have pool: "\<forall>n. pl_pool env n"
    using assms(3) by simp
  obtain t st1 where t: "denotes ?v t" "parse_top (f + 4) env (?text @ [x]) False st = Some (Some t, st1)"
    using parse_top_text [OF assms(1,2) pool st(2)] by blast
  have parse: "PListXMLParse (f + 4) env (buf_dat ibuf) blen st = Some (Some t, st1)"
    using len nz t(2) assms(3) by (simp add: PListXMLParse_def assms(8) rd_range_def del: parse_top.simps)
  have "PListXMLCleanup (PListXMLFreeTag [t] st1) \<noteq> None"
    using cleanup_after [OF st(1) t(2)] by (simp del: PListXMLFreeTag.simps)
  then have clean: "PListXMLCleanup (PListXMLFreeTag [t] st1) = Some st"
    using st by (auto simp: PListXMLCleanup_def split: if_splits)
  obtain h1 u where u: "plDictNew env h = (Some (pt_addr u), h1)" "new_tree h h1 u" "val_of u = PDict []" "pt_kids u = []"
    using plDictNew_builds [OF assms(5,3)] by (auto simp: builds_def)
  have ku: "kind (pt_node u) = plKindDict"
    using u(2,3) kind_of_val [of "nodes h1" u] by (simp add: new_tree_def tree_def)
  have "\<exists>h' bag'. plGrowTree (f + 4) env (tg_tag t) (Some (pt_addr u)) h1 = Some (True, h') \<and> grows h1 h' u es bag'"
  proof (rule grow_chain)
    show "grow_ok (f + 4) env v" if "v \<in> set es" for v
      using that assms(1,3) by (intro grow_value) auto
    show "list_all2 denotes es (tg_tag t)"
      using t(1) by simp
    show "fresh_ok h1" "tree h1 u"
      using u(2) by (auto simp: new_tree_def)
    show "length (pt_kids u) + length es \<le> 2 ^ 27"
      using assms(1) u(4) by simp
  qed (use assms(1) ku in auto)
  then obtain h2 u' where g: "plGrowTree (f + 4) env (tg_tag t) (Some (pt_addr u)) h1 = Some (True, h2)" "grows h1 h2 u es u'"
    by blast
  have "val_of u' = ?v"
    using grown_val(2) [OF g(2) u(4)] u(3) ku by simp
  moreover have "new_tree h h2 u'"
    by (rule grown_new [OF assms(5) u(2) g(2)])
  moreover have "plXmlToNode (f + 4) env ibuf st h = Some (Some (pt_addr u'), st, h2)"
  proof -
    have "pt_addr u' = pt_addr u"
      using g(2) by (simp add: grows_def)
    then show ?thesis
      using parse clean u(1) g(1) denotes_dict [OF t(1)]
      by (simp add: plXmlToNode_def assms(9) del: PListXMLFreeTag.simps)
  qed
  ultimately show ?thesis by blast
qed

section \<open>Properties\<close>

lemma pdepth_psize: "pdepth v \<le> psize v"
proof (induction v)
  case (PArray es)
  then have "foldr (\<lambda>e d. max (pdepth e) d) es 0 \<le> sum_list (map psize es)"
    unfolding foldr_max_le using psize_elem by (meson order_trans)
  then show ?case by simp
next
  case (PDict es)
  then have "foldr (\<lambda>e d. max (pdepth e) d) es 0 \<le> sum_list (map psize es)"
    unfolding foldr_max_le using psize_elem by (meson order_trans)
  then show ?case by simp
next
  case (PKey k v)
  then show ?case by (cases v) auto
qed simp_all

lemma put_at_start:
  assumes "buf_ok b" "buf_pos b = 0" "length c < room b"
  shows "\<exists>x post. buf_dat (put c b) = c @ x # post" "unat (buf_pos (put c b)) = length c" "length c < 2 ^ 32 - 1"
proof -
  have l: "length c < unat (buf_len b)" "unat (buf_len b) \<le> length (buf_dat b)"
    using assms by (simp_all add: buf_ok_def room_def)
  then have "drop (length c) (buf_dat b) \<noteq> []"
    by simp
  then obtain x post where "drop (length c) (buf_dat b) = x # post"
    unfolding neq_Nil_conv by blast
  then show "\<exists>x post. buf_dat (put c b) = c @ x # post"
    using assms(2) by (simp add: put_def)
  show "length c < 2 ^ 32 - 1"
    using l(1) word_unat_lt [of "buf_len b"] by simp
  show "unat (buf_pos (put c b)) = length c"
    using put_pos [OF assms(1), of c] assms(2,3) by (simp add: put_def)
qed

lemma write_then_read:
  assumes "rep (nodes h) t" "val_of t = PDict es" "small (PDict es)" "readable env (PDict es)" "xml_env env"
    and "psize (PDict es) \<le> fuel" "buf_ok b" "buf_pos b = 0" "length (xml_text env (PDict es)) < room b"
    and "no_syms st" "fresh_ok h2"
  shows "\<exists>b' t' h'. plNodeToXml fuel env h (Some (pt_addr t)) b = Some (True, b') \<and>
     plXmlToNode (fuel + 4) env \<lparr>buf_dat = buf_dat b', buf_len = buf_pos b', buf_pos = 0\<rparr> st h2 =
       Some (Some (pt_addr t'), st, h') \<and> new_tree h2 h' t' \<and> val_of t' = val_of t"
proof -
  let ?text = "xml_text env (PDict es)"
  have pool: "pl_pool env n" for n
    using assms(5) by (simp add: xml_env_def)
  have "writes (plNodeToXml fuel env h (Some (pt_addr t)))
      ([plXmlHdr1] @ [plXmlHdr2] @ [plXmlHdr3] @ xml env 1 (val_of t) @ [plXmlTlr1])"
    using assms(2,3,6) pdepth_psize [of "PDict es"] by (intro writes_plist assms(1,5)) auto
  then have w: "plNodeToXml fuel env h (Some (pt_addr t)) b = Some (True, put ?text b)"
    using emit_fits [OF assms(7), of "[plXmlHdr1] @ [plXmlHdr2] @ [plXmlHdr3] @ xml env 1 (PDict es) @ [plXmlTlr1]"]
      assms(2,7,9) by (simp add: writes_def xml_text_def del: xml.simps)
  obtain x post where b': "buf_dat (put ?text b) = ?text @ x # post"
    using put_at_start(1) [OF assms(7-9)] by blast
  obtain t' h' where "plXmlToNode (fuel + 4) env \<lparr>buf_dat = buf_dat (put ?text b), buf_len = buf_pos (put ?text b), buf_pos = 0\<rparr> st h2 =
      Some (Some (pt_addr t'), st, h')" "new_tree h2 h' t'" "val_of t' = PDict es"
    using read_back [OF assms(4,6) pool assms(10,11) put_at_start(3,2) [OF assms(7-9)], of
        "\<lparr>buf_dat = buf_dat (put ?text b), buf_len = buf_pos (put ?text b), buf_pos = 0\<rparr>" x post] b'
    by auto
  with w show ?thesis
    using assms(2) by metis
qed

text \<open>
  C1. What \<^verbatim>\<open>plNodeToXml\<close> writes, \<^verbatim>\<open>plXmlToNode\<close> reads back: for every dictionary tree the XML
  format can carry (entries are keys with a value; no dates; key and string texts without \<open><\<close> and NUL;
  integers whose decimal text the firmware's conversions invert), when memory is available and the
  text fits in the buffer with a byte to spare, writing succeeds, and reading the written bytes builds,
  at fresh addresses, a tree with the same value. The symbol table and the free tags are empty
  again afterwards.
\<close>

theorem plist_xml_roundtrip:
  assumes "rep (nodes h) t" "val_of t = PDict es" "small (PDict es)" "readable env (PDict es)" "xml_env env"
    and "psize (PDict es) \<le> fuel" "buf_ok b" "buf_pos b = 0" "length (xml_text env (PDict es)) < room b"
    and "no_syms st" "fresh_ok h2"
  shows "\<exists>b' t' h'. plNodeToXml fuel env h (Some (pt_addr t)) b = Some (True, b') \<and>
     plXmlToNode (fuel + 4) env \<lparr>buf_dat = buf_dat b', buf_len = buf_pos b', buf_pos = 0\<rparr> st h2 =
       Some (Some (pt_addr t'), st, h') \<and> new_tree h2 h' t' \<and> val_of t' = val_of t"
  by (rule write_then_read [OF assms])

definition env7 :: plenv where
  "env7 = \<lparr>pl_pool = (\<lambda>_. True), pl_maxstr = 1000000, pl_dec = (\<lambda>_. 7), pl_hex = (\<lambda>_. 0),
     pl_int2str = (\<lambda>_. Some [0x37])\<rparr>"

definition heap7 :: plheap where
  "heap7 = \<lparr>nodes = [
     0 \<mapsto> (new_node plKindDict)\<lparr>amap := [Some 1], acap := 1, asiz := 1\<rparr>,
     1 \<mapsto> (new_node plKindKey)\<lparr>datval := Some [0x6b, 0], datlen := 1, keyval := Some 2, refcnt := 1\<rparr>,
     2 \<mapsto> (new_node plKindInteger)\<lparr>refcnt := 1, intval := 7\<rparr>], fresh = 3\<rparr>"

definition tree7 :: ptree where
  "tree7 = PT 0 ((new_node plKindDict)\<lparr>amap := [Some 1], acap := 1, asiz := 1\<rparr>)
     [PT 1 ((new_node plKindKey)\<lparr>datval := Some [0x6b, 0], datlen := 1, keyval := Some 2, refcnt := 1\<rparr>)
       [PT 2 ((new_node plKindInteger)\<lparr>refcnt := 1, intval := 7\<rparr>) []]]"

definition st0 :: pst where
  "st0 = \<lparr>psymbols = [], pnfree = 0\<rparr>"

lemma tree7_facts:
  "rep (nodes heap7) tree7" "val_of tree7 = PDict [PKey [0x6b] (Some (PInteger 7))]" "fresh_ok heap7"
  by (auto simp: heap7_def tree7_def new_node_def links_def no_map_def data_ok_def bag_links_def data_of_def fresh_ok_def)

lemma env7_facts:
  "xml_env env7" "readable env7 (PDict [PKey [0x6b] (Some (PInteger 7))])"
  "length (xml_text env7 (PDict [PKey [0x6b] (Some (PInteger 7))])) = 236"
  by (simp_all add: xml_env_def env7_def plint2str_def int_ok_def text_ok_def xml_text_def tag_chunks_def
      leaf_chunks_def plXmlHdr1_def plXmlHdr2_def plXmlHdr3_def plXmlTlr1_def nl_text_def)

theorem plist_xml_roundtrip_witness:
  "\<exists>b' t' h'. plNodeToXml 4 env7 heap7 (Some (pt_addr tree7)) (blank_buf 300) = Some (True, b') \<and>
     plXmlToNode (4 + 4) env7 \<lparr>buf_dat = buf_dat b', buf_len = buf_pos b', buf_pos = 0\<rparr> st0 heap7 =
       Some (Some (pt_addr t'), st0, h') \<and> new_tree heap7 h' t' \<and> val_of t' = val_of tree7"
  by (rule plist_xml_roundtrip [OF tree7_facts(1,2) _ env7_facts(2,1)])
    (simp_all add: env7_facts(3) tree7_facts(3) buf_ok_def blank_buf_def room_def no_syms_def st0_def)

text \<open>
  A lookup in a loaded document: reading back the text of a dictionary and then searching a key
  with \<^verbatim>\<open>plDictFind\<close> gives the node of the first entry with that key, whatever its kind, and NULL
  when there is none.
\<close>

theorem load_then_find:
  assumes "readable env (PDict es)" "psize (PDict es) \<le> f" "\<And>n. pl_pool env n" "no_syms st" "fresh_ok h"
    and "length (xml_text env (PDict es)) < 2 ^ 32 - 1" "unat blen = length (xml_text env (PDict es))" "key \<noteq> []"
  shows "\<exists>root h' r. plXmlToNode (f + 4) env
      \<lparr>buf_dat = xml_text env (PDict es) @ x # post, buf_len = blen, buf_pos = 0\<rparr> st h = Some (Some root, st, h') \<and>
    plDictFind h' (Some root) (Some key) (length key) plKindAny = Some r \<and>
    (case dict_first es key of None \<Rightarrow> r = None | Some v \<Rightarrow> \<exists>vt. r = Some (pt_addr vt) \<and> rep (nodes h') vt \<and> val_of vt = v)"
proof -
  obtain t h' where t: "plXmlToNode (f + 4) env
      \<lparr>buf_dat = xml_text env (PDict es) @ x # post, buf_len = blen, buf_pos = 0\<rparr> st h = Some (Some (pt_addr t), st, h')"
    "new_tree h h' t" "val_of t = PDict es"
    using read_back [OF assms(1-7), of "\<lparr>buf_dat = xml_text env (PDict es) @ x # post, buf_len = blen, buf_pos = 0\<rparr>" x post]
    by auto
  have tree: "tree h' t"
    using t(2) by (simp add: new_tree_def)
  then have k: "kind (pt_node t) = plKindDict"
    using kind_of_val [of "nodes h'" t] t(3) by (simp add: tree_def)
  have es: "map val_of (pt_kids t) = es"
    using t(3) k by (cases t) simp
  show ?thesis
    using t(1) plDictFind_value [OF tree k assms(8), of plKindAny] es
    by (auto split: option.splits)
qed

theorem load_then_find_witness:
  "\<exists>root h' r. plXmlToNode (4 + 4) env7
      \<lparr>buf_dat = xml_text env7 (PDict [PKey [0x6b] (Some (PInteger 7))]) @ 0 # [], buf_len = 236, buf_pos = 0\<rparr> st0 heap7
      = Some (Some root, st0, h') \<and>
    plDictFind h' (Some root) (Some [0x6b]) (length [0x6b :: byte]) plKindAny = Some r \<and>
    (case dict_first [PKey [0x6b] (Some (PInteger 7))] [0x6b] of
       None \<Rightarrow> r = None | Some v \<Rightarrow> \<exists>vt. r = Some (pt_addr vt) \<and> rep (nodes h') vt \<and> val_of vt = v)"
  by (rule load_then_find [OF env7_facts(2)])
    (simp_all add: env7_facts(3) tree7_facts(3) no_syms_def st0_def, simp add: env7_def)

definition doc8 :: "byte list" where
  "doc8 = lit ''<dict><key>a</key><string>b</string></dict>'' @ [0]"

lemma doc8_length: "length doc8 = 44"
  by (simp add: doc8_def)

text \<open>The parts of a small document, from the inside.\<close>

lemma names8 [simp]: "no_stop 0x3e (lit ''string'')" "no_stop 0x3e (lit ''key'')" "no_stop 0x3e (lit ''dict'')" "no_stop 0x3e (lit ''/dict'')"
  by (simp_all add: lit_Cons)

lemma env7_sel [simp]: "pl_pool env7 n" "pl_maxstr env7 = 1000000"
  by (simp_all add: env7_def)

lemma string8:
  "PListXMLParseNextTag (Suc f) env7 (0x3c # lit ''string'' @ 0x3e # 0x62 # 0x3c # 0x2f # lit ''string'' @ 0x3e # rest) st0 =
    Some (Some (NewTag (Tag kTagTypeString (Some [0x62]) None 1 0 []), 18,
      0x3c # lit ''string'' @ 0 # 0x62 # 0 # 0x2f # lit ''string'' @ 0 # rest), \<lparr>psymbols = [([0x62], 1)], pnfree = 0\<rparr>)"
proof -
  have f: "PListXMLFixDataMatchingTag (0x62 # 0x3c # 0x2f # lit ''string'' @ 0x3e # rest) (lit ''string'') =
      Some (Some (10, 0x62 # 0 # 0x2f # lit ''string'' @ 0 # rest))"
    using Fix_text [of "[0x62]" "lit ''string''" rest] by simp
  have "cstr (0x62 # 0 # 0x2f # lit ''string'' @ 0 # rest) 0 = Some [0x62]"
    by (simp add: cstr_def)
  then show ?thesis
    using next_tag [of "[]" "lit ''string''" f env7 "0x62 # 0x3c # 0x2f # lit ''string'' @ 0x3e # rest" st0]
    by (simp add: parse_element_def at_pos_def PListXMLParseTagString_def f PListXMLNewTag_def PListXMLNewSymbol_def
        PListXMLFindSymbol_def st0_def)
qed

lemma key8:
  "PListXMLParseNextTag (Suc (Suc f)) env7 (0x3c # lit ''key'' @ 0x3e # 0x61 # 0x3c # 0x2f # lit ''key'' @ 0x3e #
      0x3c # lit ''string'' @ 0x3e # 0x62 # 0x3c # 0x2f # lit ''string'' @ 0x3e # rest) st0 =
    Some (Some (NewTag (Tag kTagTypeKey (Some [0x61]) None 1 0 [Tag kTagTypeString (Some [0x62]) None 1 0 []]), 30,
      0x3c # lit ''key'' @ 0 # 0x61 # 0 # 0x2f # lit ''key'' @ 0 # 0x3c # lit ''string'' @ 0 # 0x62 # 0 # 0x2f # lit ''string'' @ 0 # rest),
      \<lparr>psymbols = [([0x61], 1), ([0x62], 1)], pnfree = 0\<rparr>)"
proof -
  have f: "PListXMLFixDataMatchingTag (0x61 # 0x3c # 0x2f # lit ''key'' @ 0x3e # more) (lit ''key'') =
      Some (Some (7, 0x61 # 0 # 0x2f # lit ''key'' @ 0 # more))" for more
    using Fix_text [of "[0x61]" "lit ''key''" more] by simp
  have c: "cstr (0x61 # 0 # 0x2f # more) 0 = Some [0x61]" for more
    by (simp add: cstr_def)
  show ?thesis
    using next_tag [of "[]" "lit ''key''" "Suc f" env7 "0x61 # 0x3c # 0x2f # lit ''key'' @ 0x3e #
      0x3c # lit ''string'' @ 0x3e # 0x62 # 0x3c # 0x2f # lit ''string'' @ 0x3e # rest" st0] string8 [of f rest]
    by (simp add: parse_element_def at_pos_def PListXMLParseTagKey_def f c PListXMLNewTag_def PListXMLNewSymbol_def
        PListXMLFindSymbol_def)
qed

lemma close8:
  "PListXMLParseNextTag (Suc f) env (0x3c # lit ''/dict'' @ 0x3e # rest) st =
    Some (Some (NullTag, 7, 0x3c # lit ''/dict'' @ 0 # rest), st)"
  using next_tag [of "[]" "lit ''/dict''" f env rest st] by (simp add: parse_element_def)

lemma doc8_parsed:
  "PListXMLParse 50 env7 doc8 43 st0 =
    Some (Some (Tag kTagTypeDict None None 0 0
      [Tag kTagTypeKey (Some [0x61]) None 1 0 [Tag kTagTypeString (Some [0x62]) None 1 0 []]]),
      \<lparr>psymbols = [([0x61], 1), ([0x62], 1)], pnfree = 0\<rparr>)"
proof -
  let ?items = "0x3c # lit ''key'' @ 0x3e # 0x61 # 0x3c # 0x2f # lit ''key'' @ 0x3e #
      0x3c # lit ''string'' @ 0x3e # 0x62 # 0x3c # 0x2f # lit ''string'' @ 0x3e # 0x3c # lit ''/dict'' @ 0x3e # [0]"
  have d: "doc8 = 0x3c # lit ''dict'' @ 0x3e # ?items"
    by (simp add: doc8_def lit_Cons)
  have "\<exists>b. PListXMLParseNextTag (Suc (Suc (Suc f))) env7 doc8 st0 =
      Some (Some (NewTag (Tag kTagTypeDict None None 0 0
      [Tag kTagTypeKey (Some [0x61]) None 1 0 [Tag kTagTypeString (Some [0x62]) None 1 0 []]]), 43, b),
      \<lparr>psymbols = [([0x61], 1), ([0x62], 1)], pnfree = 0\<rparr>)" for f
    using next_tag [of "[]" "lit ''dict''" "Suc (Suc f)" env7 ?items st0]
    by (simp add: d parse_element_def at_pos_def PListXMLParseTagList_def key8 close8 PListXMLNewTag_def)
  from this [of 46] obtain b where "PListXMLParseNextTag 49 env7 doc8 st0 =
      Some (Some (NewTag (Tag kTagTypeDict None None 0 0
      [Tag kTagTypeKey (Some [0x61]) None 1 0 [Tag kTagTypeString (Some [0x62]) None 1 0 []]]), 43, b),
      \<lparr>psymbols = [([0x61], 1), ([0x62], 1)], pnfree = 0\<rparr>)"
    by auto
  then show ?thesis
    using parse_top.simps(2) [of 49 env7 doc8 False st0] by (simp add: PListXMLParse_def rd_range_def doc8_length)
qed

lemma doc8_safe: "safe_text doc8"
  by (simp add: doc8_def lit_Cons opens_def)

text \<open>
  C3. Reference counts of symbols balance: whenever the parser returns, with a tag or with an error,
  on a well-formed text or not, and whatever allocation has failed on the way, the tag it hands
  out, once freed, takes with it exactly the symbols the parse has added, so that
  \<^verbatim>\<open>PListXMLCleanup\<close>, which frees the symbols but leaves the head of their list, always finds the list
  empty. Nothing is said of the inputs on which the code runs into undefined behaviour before it
  returns (the constructions that \<open>safe_text\<close> excludes, and a text that runs out of its buffer); C4
  says on which it returns.
\<close>

theorem parser_keeps_symbols:
  assumes "no_syms st" "PListXMLParse f env buffer bSize st = Some (t, st')"
  shows "\<exists>st''. PListXMLCleanup (case t of None \<Rightarrow> st' | Some t \<Rightarrow> PListXMLFreeTag [t] st') = Some st'' \<and> no_syms st''"
proof -
  have st: "psymbols st = []"
    using assms(1) by (simp add: no_syms_def)
  have "PListXMLCleanup (case t of None \<Rightarrow> st' | Some t \<Rightarrow> PListXMLFreeTag [t] st') \<noteq> None"
  proof (cases "\<exists>b. parse_top f env b False st = Some (t, st')")
    case True
    then show ?thesis
      using cleanup_after [OF st] by blast
  next
    case False
    then have "t = None" "st' = st"
      using assms(2) by (auto simp: PListXMLParse_def Let_def split: if_splits bind_splits)
    then show ?thesis
      using st by (simp add: PListXMLCleanup_def)
  qed
  then show ?thesis
    by (auto simp: PListXMLCleanup_def no_syms_def split: if_splits)
qed

theorem parser_keeps_symbols_witness:
  "\<exists>st''. PListXMLCleanup (PListXMLFreeTag [Tag kTagTypeDict None None 0 0
      [Tag kTagTypeKey (Some [0x61]) None 1 0 [Tag kTagTypeString (Some [0x62]) None 1 0 []]]]
      \<lparr>psymbols = [([0x61], 1), ([0x62], 1)], pnfree = 0\<rparr>) = Some st'' \<and> no_syms st''"
  using parser_keeps_symbols [OF _ doc8_parsed] by (simp add: no_syms_def st0_def)

text \<open>
  On any input, with more fuel than the text has bytes (two to spare), the result does not depend on
  the fuel: every element read consumes at least two bytes. Where the model gives \<open>None\<close> with that
  much fuel, the code therefore runs into undefined behaviour.
\<close>

lemma PListXMLParse_fuel:
  assumes "unat bSize + 2 < f" "unat bSize + 2 < f'"
  shows "PListXMLParse f env buffer bSize st = PListXMLParse f' env buffer bSize st"
proof -
  obtain g g' where f: "f = Suc g" "f' = Suc g'"
    using assms by (cases f; cases f') auto
  have "parse_top f env b False st = parse_top f' env b False st"
    if "rd_range buffer 0 (unat (bSize + 1)) = Some b" "bSize + 1 \<noteq> 0" for b
  proof -
    have "unat (bSize + 1) \<le> unat bSize + 1"
      by (simp add: unat_word_ariths)
    moreover have "length b = unat (bSize + 1)"
      using rd_range_length [OF that(1)] .
    moreover have "0 < unat (bSize + 1)"
      using that(2) by (simp add: unat_gt_0)
    ultimately show ?thesis
      unfolding f using assms f by (intro top_fuel) auto
  qed
  then show ?thesis
    by (auto simp: PListXMLParse_def Let_def intro!: Option.bind_cong simp del: parse_top.simps)
qed

text \<open>
  C4. The parser returns, with a tag or an error, and it does so within the bytes of the text: on
  every text, well-formed or not, that is followed by a NUL and contains none of the constructions
  of \<open>safe_text\<close>, with the memory for its tags and symbols, there is one result, which the parser
  gives with any fuel above the size of the text. Neither the recursion nor the loops run on, no
  read leaves the buffer, no chain of tags becomes cyclic and no tag is freed twice.
\<close>

theorem PListXMLParse_terminates:
  assumes "\<forall>n. pl_pool env n" "unat bSize < length buffer" "buffer ! unat bSize = 0"
    and "safe_text (take (unat bSize + 1) buffer)" "unat bSize < pl_maxstr env" "unat bSize + 1 < 2 ^ 31"
  shows "\<exists>r st'. \<forall>f > unat bSize + 2. PListXMLParse f env buffer bSize st = Some (r, st')"
proof -
  obtain r st' where "PListXMLParse (unat bSize + 3) env buffer bSize st = Some (r, st')"
    using PListXMLParse_returns [OF assms, of "unat bSize + 3" st] by auto
  then have "PListXMLParse f env buffer bSize st = Some (r, st')" if "unat bSize + 2 < f" for f
    using PListXMLParse_fuel [OF that, of "unat bSize + 3" env buffer st] by simp
  then show ?thesis by blast
qed

theorem PListXMLParse_terminates_witness:
  "\<exists>r st'. \<forall>f > 45. PListXMLParse f env7 doc8 43 st0 = Some (r, st')"
  using PListXMLParse_terminates [of env7 43 doc8 st0] doc8_safe by (simp add: doc8_length) (simp add: doc8_def nth_append)

text \<open>
  A date is parsed and then always refused: whatever text stands in a \<^verbatim>\<open>date\<close> element,
  \<^verbatim>\<open>PListXMLParseTagDate\<close> keeps none of it, and \<^verbatim>\<open>_plGrowTree\<close> fails on the tag, before anything
  that follows it and without touching the heap. A document with a date in it cannot be loaded.
\<close>

theorem date_never_loads:
  assumes "PListXMLParseTagDate env buffer st = Some (Some (NewTag t, len, buffer'), st')"
  shows "plGrowTree fuel env (t # next) pn h = Some (False, h)"
  using assms
  by (auto simp: PListXMLParseTagDate_def plDateNew_def plDataNew_def plSetKind_def grow_leaf_def
      split: bind_splits option.splits prod.splits bool.splits)

theorem date_never_loads_witness:
  "plGrowTree 1 env7 [Tag kTagTypeDate None None 0 0 []] (Some 0) heap7 = Some (False, heap7)"
  by (rule date_never_loads [where env = env7 and buffer = "lit ''2013</date>''" and st = st0 and len = 11
        and buffer' = "[0x32, 0x30, 0x31, 0x33, 0, 0x2f, 0x64, 0x61, 0x74, 0x65, 0]" and st' = st0])
    (use Fix_text [of "lit ''2013''" "lit ''date''" "[]"] in
      \<open>simp add: PListXMLParseTagDate_def PListXMLNewTag_def st0_def env7_def lit_Cons\<close>)

end
