(* ===== verification/PartDisk.thy ===== *)
theory PartDisk
  imports Prelude
begin

text \<open>
  The part of \<^verbatim>\<open>PartitionDxe/Partition.c\<close> that all partition schemes share: a child device as
  \<^verbatim>\<open>PartitionInstallChildHandle\<close> sets it up (\<open>PARTITION_PRIVATE_DATA\<close>), and the block reads and
  writes of a child, which the code turns into byte accesses to the parent disk. The disk
  (\<^verbatim>\<open>EFI_DISK_IO_PROTOCOL\<close>) and the boot services that allocate memory and install protocols are not
  part of the repository: they are the records \<open>disk_io\<close> and \<open>part_env\<close>, arguments of the
  definitions.

  The lemmas show which accesses of a child stay in its window, and that a child over a flat disk
  is a block device in the sense of the locale \<open>block_dev\<close>. \<open>None\<close> is undefined behaviour, here a
  division by zero.
\<close>

section \<open>The disk\<close>

text \<open>
  The disk's state is of any type. A read of \<open>n\<close> bytes at a byte offset gives an error or the
  bytes; a write gives a status and the new state; \<open>dio_probe\<close> is the status of the one-byte read
  with a NULL buffer. The media id is an argument of each.
\<close>

record 'd disk_io =
  dio_read :: "'d \<Rightarrow> u32 \<Rightarrow> u64 \<Rightarrow> nat \<Rightarrow> efi_status + byte list"
  dio_write :: "'d \<Rightarrow> u32 \<Rightarrow> u64 \<Rightarrow> byte list \<Rightarrow> efi_status \<times> 'd"
  dio_probe :: "'d \<Rightarrow> u32 \<Rightarrow> efi_status"

text \<open>The parent's \<^verbatim>\<open>EFI_BLOCK_IO_MEDIA\<close>, as far as the driver reads it.\<close>

record media =
  MediaId :: u32
  BlockSize :: u32
  LastBlock :: u64

definition MultU64x32 :: "u64 \<Rightarrow> u32 \<Rightarrow> u64" where
  "MultU64x32 a b = a * ucast b"

definition DivU64x32 :: "u64 \<Rightarrow> u32 \<Rightarrow> u64 option" where
  "DivU64x32 a b = (if b = 0 then None else Some (a div ucast b))"

section \<open>Child devices\<close>

text \<open>
  The device path node of a child: \<^verbatim>\<open>HARDDRIVE_DEVICE_PATH\<close> with number, start, size, MBR type and
  signature, or \<^verbatim>\<open>CDROM_DEVICE_PATH\<close> with boot entry, start and size.
\<close>

datatype path_node =
  HardDrive u32 u64 u64 byte "byte list"
| CdRom u32 u64 u64

record child =
  ch_node :: path_node
  ch_start :: u64
  ch_end :: u64
  ch_block_size :: u32
  ch_last_block :: u64
  ch_esp :: bool

text \<open>
  Boot services: whether the private data can be allocated, whether the device path can be
  appended, the status of installing the protocols of a child and of opening the parent for it.
\<close>

record part_env =
  pe_pool :: "nat \<Rightarrow> bool"
  pe_path :: "path_node \<Rightarrow> bool"
  pe_install :: "child \<Rightarrow> efi_status"
  pe_open :: "child \<Rightarrow> efi_status"

definition sizeof_private :: nat where
  "sizeof_private = 368"

text \<open>
  The result is the status and the children installed so far. When the protocols are installed
  but the parent cannot be opened, the child is there all the same and the status is the error.
\<close>

definition PartitionInstallChildHandle ::
  "part_env \<Rightarrow> media \<Rightarrow> path_node \<Rightarrow> u64 \<Rightarrow> u64 \<Rightarrow> u32 \<Rightarrow> bool \<Rightarrow> child list \<Rightarrow> (efi_status \<times> child list) option"
where
  "PartitionInstallChildHandle env m node Start End bsize esp cs =
     (if \<not> pe_pool env sizeof_private then Some (EFI_OUT_OF_RESOURCES, cs)
      else do {
        q \<leftarrow> DivU64x32 (MultU64x32 (End - Start + 1) (BlockSize m)) bsize;
        let priv = \<lparr>ch_node = node, ch_start = MultU64x32 Start (BlockSize m),
          ch_end = MultU64x32 (End + 1) (BlockSize m), ch_block_size = bsize,
          ch_last_block = q - 1, ch_esp = esp\<rparr>;
        if \<not> pe_path env node then Some (EFI_OUT_OF_RESOURCES, cs)
        else if EFI_ERROR (pe_install env priv) then Some (pe_install env priv, cs)
        else Some (pe_open env priv, cs @ [priv]) })"

section \<open>Block accesses of a child\<close>

definition ProbeMediaStatus :: "'d disk_io \<Rightarrow> 'd \<Rightarrow> u32 \<Rightarrow> efi_status \<Rightarrow> efi_status" where
  "ProbeMediaStatus dio d mid dflt =
     (let s = dio_probe dio d mid in
      if s = EFI_NO_MEDIA \<or> s = EFI_MEDIA_CHANGED then s else dflt)"

text \<open>
  The check common to reading and writing: the byte offset on the parent, or the error. All the
  arithmetic is on \<^verbatim>\<open>UINT64\<close> and wraps.
\<close>

definition child_offset :: "'d disk_io \<Rightarrow> 'd \<Rightarrow> child \<Rightarrow> u32 \<Rightarrow> u64 \<Rightarrow> u64 \<Rightarrow> (efi_status + u64) option" where
  "child_offset dio d ch mid lba bufsize =
     (if ch_block_size ch = 0 then None
      else if bufsize mod ucast (ch_block_size ch) \<noteq> 0
      then Some (Inl (ProbeMediaStatus dio d mid EFI_BAD_BUFFER_SIZE))
      else (let offset = MultU64x32 lba (ch_block_size ch) + ch_start ch in
        if offset + bufsize > ch_end ch
        then Some (Inl (ProbeMediaStatus dio d mid EFI_INVALID_PARAMETER))
        else Some (Inr offset)))"

text \<open>The resets and the blocking flush only forward to the parent. Its state is of any type.\<close>

record 'd parent_io =
  pio_reset :: "bool \<Rightarrow> 'd \<Rightarrow> efi_status \<times> 'd"
  pio_flush :: "'d \<Rightarrow> efi_status \<times> 'd"

definition PartitionReset :: "'d parent_io \<Rightarrow> bool \<Rightarrow> 'd \<Rightarrow> efi_status \<times> 'd" where
  "PartitionReset p ext d = pio_reset p ext d"

definition PartitionResetEx :: "'d parent_io \<Rightarrow> bool \<Rightarrow> 'd \<Rightarrow> efi_status \<times> 'd" where
  "PartitionResetEx p2 ext d = pio_reset p2 ext d"

definition PartitionFlushBlocks :: "'d parent_io \<Rightarrow> 'd \<Rightarrow> efi_status \<times> 'd" where
  "PartitionFlushBlocks p d = pio_flush p d"

definition PartitionReadBlocks ::
  "'d disk_io \<Rightarrow> 'd \<Rightarrow> child \<Rightarrow> u32 \<Rightarrow> u64 \<Rightarrow> u64 \<Rightarrow> (efi_status + byte list) option"
where
  "PartitionReadBlocks dio d ch mid lba bufsize =
     do {
       r \<leftarrow> child_offset dio d ch mid lba bufsize;
       Some (case r of Inl e \<Rightarrow> Inl e | Inr offset \<Rightarrow> dio_read dio d mid offset (unat bufsize)) }"

definition PartitionWriteBlocks ::
  "'d disk_io \<Rightarrow> 'd \<Rightarrow> child \<Rightarrow> u32 \<Rightarrow> u64 \<Rightarrow> byte list \<Rightarrow> (efi_status \<times> 'd) option"
where
  "PartitionWriteBlocks dio d ch mid lba buf =
     do {
       r \<leftarrow> child_offset dio d ch mid lba (of_nat (length buf));
       Some (case r of Inl e \<Rightarrow> (e, d) | Inr offset \<Rightarrow> dio_write dio d mid offset buf) }"

section \<open>The disk as a sequence of bytes\<close>

definition overlay :: "'a list \<Rightarrow> nat \<Rightarrow> 'a list \<Rightarrow> 'a list" where
  "overlay m i xs = take i m @ xs @ drop (i + length xs) m"

lemma length_overlay [simp]: "i + length xs \<le> length m \<Longrightarrow> length (overlay m i xs) = length m"
  by (simp add: overlay_def)

lemma overlay_same: "i + length xs \<le> length m \<Longrightarrow> take (length xs) (drop i (overlay m i xs)) = xs"
  by (simp add: overlay_def)

lemma nth_overlay:
  assumes "i + length xs \<le> length m" "k < length m"
  shows "overlay m i xs ! k = (if i \<le> k \<and> k < i + length xs then xs ! (k - i) else m ! k)"
  using assms by (auto simp: overlay_def nth_append)

lemma overlay_other:
  assumes "i + length xs \<le> length m" "j + n \<le> length m" "j + n \<le> i \<or> i + length xs \<le> j"
  shows "take n (drop j (overlay m i xs)) = take n (drop j m)"
proof (rule nth_equalityI)
  show "length (take n (drop j (overlay m i xs))) = length (take n (drop j m))"
    using assms by simp
  fix k
  assume "k < length (take n (drop j (overlay m i xs)))"
  then have k: "k < n" "j + k < length m"
    using assms by auto
  then show "take n (drop j (overlay m i xs)) ! k = take n (drop j m) ! k"
    using assms nth_overlay [OF assms(1) k(2)] by auto
qed

text \<open>
  The documented behaviour of \<^verbatim>\<open>EFI_DISK_IO_PROTOCOL\<close> on a present, writable medium: reads and
  writes within the medium succeed and act on its bytes.
\<close>

locale disk =
  fixes dio :: "'d disk_io" and content :: "'d \<Rightarrow> byte list"
  assumes read_in: "unat off + n \<le> length (content d) \<Longrightarrow>
      dio_read dio d mid off n = Inr (take n (drop (unat off) (content d)))"
    and write_in: "unat off + length x \<le> length (content d) \<Longrightarrow>
      \<exists>d'. dio_write dio d mid off x = (EFI_SUCCESS, d') \<and> content d' = overlay (content d) (unat off) x"
    and probe: "dio_probe dio d mid = EFI_SUCCESS"
begin

lemma write_read:
  assumes "unat off + length x \<le> length (content d)"
  obtains d' where "dio_write dio d mid off x = (EFI_SUCCESS, d')" "length (content d') = length (content d)"
    "dio_read dio d' mid off (length x) = Inr x"
    "\<And>off' n. unat off' + n \<le> length (content d) \<Longrightarrow>
      unat off' + n \<le> unat off \<or> unat off + length x \<le> unat off' \<Longrightarrow>
      dio_read dio d' mid off' n = dio_read dio d mid off' n"
proof -
  obtain d' where d': "dio_write dio d mid off x = (EFI_SUCCESS, d')" "content d' = overlay (content d) (unat off) x"
    using write_in [OF assms] by blast
  show ?thesis
  proof (rule that [OF d'(1)])
    show "length (content d') = length (content d)"
      using assms d'(2) by simp
    show "dio_read dio d' mid off (length x) = Inr x"
      using read_in [of off "length x" d'] assms d'(2) by (simp add: overlay_same)
    show "dio_read dio d' mid off' n = dio_read dio d mid off' n"
      if "unat off' + n \<le> length (content d)" "unat off' + n \<le> unat off \<or> unat off + length x \<le> unat off'" for off' n
      using read_in [of off' n d'] read_in [of off' n d] that assms d'(2) by (simp add: overlay_other)
  qed
qed

end

definition flat_dio :: "byte list disk_io" where
  "flat_dio = \<lparr>
     dio_read = (\<lambda>d mid off n. if unat off + n \<le> length d then Inr (take n (drop (unat off) d)) else Inl EFI_INVALID_PARAMETER),
     dio_write = (\<lambda>d mid off x. if unat off + length x \<le> length d then (EFI_SUCCESS, overlay d (unat off) x)
                                else (EFI_INVALID_PARAMETER, d)),
     dio_probe = (\<lambda>d mid. EFI_SUCCESS)\<rparr>"

interpretation flat: disk flat_dio "\<lambda>d. d"
  by unfold_locales (simp_all add: flat_dio_def)

section \<open>The window of a child\<close>

text \<open>A child whose window is a whole number of its blocks and lies below \<open>2 ^ 63\<close> bytes.\<close>

definition child_ok :: "child \<Rightarrow> bool" where
  "child_ok ch \<longleftrightarrow>
     0 < ch_block_size ch \<and> unat (ch_end ch) < 2 ^ 63 \<and>
     unat (ch_end ch) = unat (ch_start ch) + (unat (ch_last_block ch) + 1) * unat (ch_block_size ch)"

lemma unat_ucast_u32 [simp]: "unat (ucast (b :: u32) :: u64) = unat b"
  using word_unat_lt [of b] by (simp add: unsigned_ucast_eq take_bit_nat_eq_self)

lemma MultU64x32_unat:
  assumes "unat a * unat b < 2 ^ 64"
  shows "unat (MultU64x32 a b) = unat a * unat b"
  using assms by (simp add: MultU64x32_def unat_word_ariths)

lemma unat_add_u64: "unat a + unat b < 2 ^ 64 \<Longrightarrow> unat (a + b :: u64) = unat a + unat b"
  by (simp add: unat_word_ariths)

lemma child_offset_in:
  assumes "child_ok ch" "unat lba + k \<le> unat (ch_last_block ch) + 1" "unat sz = k * unat (ch_block_size ch)"
  shows "\<exists>off. child_offset dio d ch mid lba sz = Some (Inr off) \<and>
     unat off = unat (ch_start ch) + unat lba * unat (ch_block_size ch) \<and> unat off + unat sz \<le> unat (ch_end ch)"
proof -
  let ?b = "unat (ch_block_size ch)" and ?s = "unat (ch_start ch)"
  have ok: "0 < ?b" "unat (ch_end ch) < 2 ^ 63" "unat (ch_end ch) = ?s + (unat (ch_last_block ch) + 1) * ?b"
    using assms(1) by (auto simp: child_ok_def unat_gt_0)
  have m: "(unat lba + k) * ?b \<le> (unat (ch_last_block ch) + 1) * ?b"
    using assms(2) by (rule mult_le_mono1)
  have split: "(unat lba + k) * ?b = unat lba * ?b + unat sz"
    using assms(3) by (simp add: add_mult_distrib)
  have le: "?s + unat lba * ?b + unat sz \<le> unat (ch_end ch)"
    using m ok(3) unfolding split by linarith
  have big: "?s + unat lba * ?b + unat sz < 2 ^ 63"
    using le ok(2) by linarith
  have mult: "unat (MultU64x32 lba (ch_block_size ch)) = unat lba * ?b"
    by (rule MultU64x32_unat) (use big in simp)
  have off: "unat (MultU64x32 lba (ch_block_size ch) + ch_start ch) = ?s + unat lba * ?b"
    by (subst unat_add_u64) (use mult big in simp_all)
  have tot: "unat (MultU64x32 lba (ch_block_size ch) + ch_start ch + sz) = ?s + unat lba * ?b + unat sz"
    by (subst unat_add_u64) (use off big in simp_all)
  have "unat (sz mod ucast (ch_block_size ch)) = 0"
    using assms(3) by (simp add: unat_mod_distrib)
  then have z: "sz mod ucast (ch_block_size ch) = 0"
    by (simp only: unat_eq_0)
  have nz: "ch_block_size ch \<noteq> 0"
    using ok(1) by auto
  have "\<not> ch_end ch < MultU64x32 lba (ch_block_size ch) + ch_start ch + sz"
    using le tot by (simp add: word_less_nat_alt)
  then show ?thesis
    using nz z off le by (simp add: child_offset_def)
qed

lemma unat_small64: "n < 2 ^ 64 \<Longrightarrow> unat (of_nat n :: u64) = n"
  by (simp add: unat_of_nat take_bit_nat_eq_self)

section \<open>A child as a block device\<close>

text \<open>
  What a user of a block device relies on: reading or writing whole blocks in range succeeds, a
  read returns what was written last, and other blocks are not touched.
\<close>

locale block_dev =
  fixes inv :: "'s \<Rightarrow> bool" and nblk :: "'s \<Rightarrow> nat" and bsz :: "'s \<Rightarrow> nat"
    and rdb :: "'s \<Rightarrow> nat \<Rightarrow> byte list option" and wrb :: "'s \<Rightarrow> nat \<Rightarrow> byte list \<Rightarrow> 's option"
  assumes read_ok: "inv s \<Longrightarrow> i < nblk s \<Longrightarrow> \<exists>x. rdb s i = Some x \<and> length x = bsz s"
    and write_ok: "inv s \<Longrightarrow> i < nblk s \<Longrightarrow> length x = bsz s \<Longrightarrow> \<exists>s'. wrb s i x = Some s'"
    and write_inv: "inv s \<Longrightarrow> i < nblk s \<Longrightarrow> length x = bsz s \<Longrightarrow> wrb s i x = Some s' \<Longrightarrow>
      inv s' \<and> nblk s' = nblk s \<and> bsz s' = bsz s"
    and read_same: "inv s \<Longrightarrow> i < nblk s \<Longrightarrow> length x = bsz s \<Longrightarrow> wrb s i x = Some s' \<Longrightarrow> rdb s' i = Some x"
    and read_other: "inv s \<Longrightarrow> i < nblk s \<Longrightarrow> length x = bsz s \<Longrightarrow> wrb s i x = Some s' \<Longrightarrow>
      j < nblk s \<Longrightarrow> j \<noteq> i \<Longrightarrow> rdb s' j = rdb s j"
begin

primrec write_all :: "'s \<Rightarrow> nat \<Rightarrow> byte list list \<Rightarrow> 's option" where
  "write_all s i [] = Some s"
| "write_all s i (x # xs) = (case wrb s i x of None \<Rightarrow> None | Some s' \<Rightarrow> write_all s' (Suc i) xs)"

lemma write_all_read:
  assumes "inv s" "i + length xs \<le> nblk s" "\<forall>x\<in>set xs. length x = bsz s"
  shows "\<exists>s'. write_all s i xs = Some s' \<and> inv s' \<and> nblk s' = nblk s \<and> bsz s' = bsz s \<and>
    (\<forall>j < nblk s. rdb s' j = (if i \<le> j \<and> j < i + length xs then Some (xs ! (j - i)) else rdb s j))"
  using assms
proof (induction xs arbitrary: s i)
  case Nil
  then show ?case by auto
next
  case (Cons x xs)
  have x: "i < nblk s" "length x = bsz s"
    using Cons.prems by auto
  obtain s1 where s1: "wrb s i x = Some s1"
    using write_ok [OF Cons.prems(1) x] by blast
  have i1: "inv s1" "nblk s1 = nblk s" "bsz s1 = bsz s"
    using write_inv [OF Cons.prems(1) x s1] by auto
  have "\<exists>s'. write_all s1 (Suc i) xs = Some s' \<and> inv s' \<and> nblk s' = nblk s1 \<and> bsz s' = bsz s1 \<and>
    (\<forall>j < nblk s1. rdb s' j = (if Suc i \<le> j \<and> j < Suc i + length xs then Some (xs ! (j - Suc i)) else rdb s1 j))"
    by (rule Cons.IH) (use i1 Cons.prems in auto)
  then obtain s' where s': "write_all s1 (Suc i) xs = Some s'" "inv s'" "nblk s' = nblk s" "bsz s' = bsz s"
    and r: "\<And>j. j < nblk s \<Longrightarrow>
      rdb s' j = (if Suc i \<le> j \<and> j < Suc i + length xs then Some (xs ! (j - Suc i)) else rdb s1 j)"
    using i1 by auto
  have "rdb s' j = (if i \<le> j \<and> j < i + length (x # xs) then Some ((x # xs) ! (j - i)) else rdb s j)"
    if "j < nblk s" for j
  proof (cases "j = i")
    case True
    then show ?thesis
      using r [OF that] read_same [OF Cons.prems(1) x s1] by simp
  next
    case False
    then show ?thesis
      using r [OF that] read_other [OF Cons.prems(1) x s1 that False] by (auto simp: nth_Cons')
  qed
  with s' s1 show ?case by auto
qed

end

text \<open>One block of a child, through the code's read and write, on a given disk state.\<close>

definition child_read :: "'d disk_io \<Rightarrow> child \<Rightarrow> 'd \<Rightarrow> nat \<Rightarrow> byte list option" where
  "child_read dio ch d i =
     (case PartitionReadBlocks dio d ch 0 (of_nat i) (ucast (ch_block_size ch)) of Some (Inr x) \<Rightarrow> Some x | _ \<Rightarrow> None)"

definition child_write :: "'d disk_io \<Rightarrow> child \<Rightarrow> 'd \<Rightarrow> nat \<Rightarrow> byte list \<Rightarrow> 'd option" where
  "child_write dio ch d i x =
     (case PartitionWriteBlocks dio d ch 0 (of_nat i) x of Some (EFI_SUCCESS, d') \<Rightarrow> Some d' | _ \<Rightarrow> None)"

definition child_blocks :: "child \<Rightarrow> nat" where
  "child_blocks ch = unat (ch_last_block ch) + 1"

definition child_bsz :: "child \<Rightarrow> nat" where
  "child_bsz ch = unat (ch_block_size ch)"

lemma child_offset_block:
  assumes "child_ok ch" "i < child_blocks ch" "unat sz = child_bsz ch"
  shows "\<exists>off. child_offset dio d ch mid (of_nat i) sz = Some (Inr off) \<and>
    unat off = unat (ch_start ch) + i * child_bsz ch \<and> unat off + child_bsz ch \<le> unat (ch_end ch)"
proof -
  have "i < 2 ^ 64"
    using assms(2) word_unat_lt [of "ch_last_block ch"] by (simp add: child_blocks_def)
  then have "unat (of_nat i :: u64) = i"
    by (simp add: unat_of_nat take_bit_nat_eq_self)
  then show ?thesis
    using child_offset_in [of ch "of_nat i" 1 sz dio d mid] assms by (simp add: child_blocks_def child_bsz_def)
qed

context disk
begin

lemma child_read_in:
  assumes "child_ok ch" "unat (ch_end ch) \<le> length (content d)" "i < child_blocks ch"
  shows "child_read dio ch d i =
    Some (take (child_bsz ch) (drop (unat (ch_start ch) + i * child_bsz ch) (content d)))"
proof -
  obtain off where off: "child_offset dio d ch 0 (of_nat i) (ucast (ch_block_size ch)) = Some (Inr off)"
    "unat off = unat (ch_start ch) + i * child_bsz ch" "unat off + child_bsz ch \<le> unat (ch_end ch)"
    using child_offset_block [OF assms(1,3), of "ucast (ch_block_size ch)" dio d 0] by (auto simp: child_bsz_def)
  then have "dio_read dio d 0 off (child_bsz ch) = Inr (take (child_bsz ch) (drop (unat off) (content d)))"
    by (intro read_in) (use assms(2) in linarith)
  then show ?thesis
    using off by (simp add: child_read_def PartitionReadBlocks_def child_bsz_def)
qed

lemma child_write_in:
  assumes "child_ok ch" "unat (ch_end ch) \<le> length (content d)" "i < child_blocks ch" "length x = child_bsz ch"
  shows "\<exists>d'. child_write dio ch d i x = Some d' \<and>
    content d' = overlay (content d) (unat (ch_start ch) + i * child_bsz ch) x"
proof -
  have "length x < 2 ^ 64"
    using assms(4) word_unat_lt [of "ch_block_size ch"] by (simp add: child_bsz_def)
  then have u: "unat (of_nat (length x) :: u64) = child_bsz ch"
    using assms(4) by (simp add: unat_of_nat take_bit_nat_eq_self)
  obtain off where off: "child_offset dio d ch 0 (of_nat i) (of_nat (length x)) = Some (Inr off)"
    "unat off = unat (ch_start ch) + i * child_bsz ch" "unat off + child_bsz ch \<le> unat (ch_end ch)"
    using child_offset_block [OF assms(1,3) u, of dio d 0] by auto
  then have "\<exists>d'. dio_write dio d 0 off x = (EFI_SUCCESS, d') \<and> content d' = overlay (content d) (unat off) x"
    by (intro write_in) (use assms(2,4) in linarith)
  then show ?thesis
    using off by (auto simp: child_write_def PartitionWriteBlocks_def)
qed

lemma child_laws:
  assumes "child_ok ch" "unat (ch_end ch) \<le> length (content d)" "i < child_blocks ch" "length x = child_bsz ch"
    "child_write dio ch d i x = Some d'"
  shows "length (content d') = length (content d)"
    and "child_read dio ch d' i = Some x"
    and "j < child_blocks ch \<Longrightarrow> j \<noteq> i \<Longrightarrow> child_read dio ch d' j = child_read dio ch d j"
    and "k < unat (ch_start ch) \<or> unat (ch_end ch) \<le> k \<Longrightarrow> k < length (content d) \<Longrightarrow> content d' ! k = content d ! k"
proof -
  let ?o = "\<lambda>i. unat (ch_start ch) + i * child_bsz ch"
  have d': "content d' = overlay (content d) (?o i) x"
    using child_write_in [OF assms(1-4)] assms(5) by auto
  have fits: "?o i + child_bsz ch \<le> unat (ch_end ch)" if "i < child_blocks ch" for i
    using child_offset_block [OF assms(1) that, of "ucast (ch_block_size ch)" dio d 0] by (auto simp: child_bsz_def)
  have in_: "?o i + length x \<le> length (content d)"
    using fits [OF assms(3)] assms(2,4) by linarith
  show len: "length (content d') = length (content d)"
    using in_ d' by simp
  show "child_read dio ch d' i = Some x"
    using child_read_in [OF assms(1) _ assms(3), of d'] len assms(2,4) d' overlay_same [OF in_] by simp
  show "child_read dio ch d' j = child_read dio ch d j" if j: "j < child_blocks ch" "j \<noteq> i"
  proof -
    have "j * child_bsz ch + child_bsz ch \<le> i * child_bsz ch \<or> i * child_bsz ch + child_bsz ch \<le> j * child_bsz ch"
    proof (cases "j < i")
      case True
      then have "Suc j * child_bsz ch \<le> i * child_bsz ch"
        by (intro mult_le_mono1) simp
      then show ?thesis by simp
    next
      case False
      then have "Suc i * child_bsz ch \<le> j * child_bsz ch"
        using j by (intro mult_le_mono1) simp
      then show ?thesis by simp
    qed
    then have "take (child_bsz ch) (drop (?o j) (overlay (content d) (?o i) x)) = take (child_bsz ch) (drop (?o j) (content d))"
      using overlay_other [OF in_, of "?o j" "child_bsz ch"] fits [OF j(1)] assms(2,4) by fastforce
    then show ?thesis
      using child_read_in [OF assms(1) _ j(1), of d'] child_read_in [OF assms(1,2) j(1)] len assms(2) d' by simp
  qed
  show "content d' ! k = content d ! k" if "k < unat (ch_start ch) \<or> unat (ch_end ch) \<le> k" "k < length (content d)"
  proof -
    have "\<not> (?o i \<le> k \<and> k < ?o i + length x)"
      using that(1) fits [OF assms(3)] assms(4) by auto
    then show ?thesis
      by (simp only: d' nth_overlay [OF in_ that(2)] if_False)
  qed
qed

end

definition dev_ok :: "child \<times> byte list \<Rightarrow> bool" where
  "dev_ok = (\<lambda>(ch, d). child_ok ch \<and> unat (ch_end ch) \<le> length d)"

interpretation part: block_dev dev_ok "\<lambda>(ch, d). child_blocks ch" "\<lambda>(ch, d). child_bsz ch"
  "\<lambda>(ch, d). child_read flat_dio ch d"
  "\<lambda>(ch, d) i x. map_option (Pair ch) (child_write flat_dio ch d i x)"
proof unfold_locales
  fix s s' :: "child \<times> byte list" and i j :: nat and x :: "byte list"
  obtain ch d where s: "s = (ch, d)" by (cases s)
  assume inv: "dev_ok s"
  then have ok: "child_ok ch" "unat (ch_end ch) \<le> length d"
    by (simp_all add: dev_ok_def s)
  assume "i < (case s of (ch, d) \<Rightarrow> child_blocks ch)"
  then have i: "i < child_blocks ch" by (simp add: s)
  have "unat (ch_start ch) + i * child_bsz ch + child_bsz ch \<le> length d"
    using child_offset_block [OF ok(1) i, of "ucast (ch_block_size ch)" flat_dio d 0] ok(2) by (auto simp: child_bsz_def)
  then show "\<exists>x. (case s of (ch, d) \<Rightarrow> child_read flat_dio ch d) i = Some x \<and> length x = (case s of (ch, d) \<Rightarrow> child_bsz ch)"
    using flat.child_read_in [OF ok i] by (simp add: s)
  assume "length x = (case s of (ch, d) \<Rightarrow> child_bsz ch)"
  then have x: "length x = child_bsz ch" by (simp add: s)
  show "\<exists>s'. (case s of (ch, d) \<Rightarrow> \<lambda>i x. map_option (Pair ch) (child_write flat_dio ch d i x)) i x = Some s'"
    using flat.child_write_in [OF ok i x] by (auto simp: s)
  assume "(case s of (ch, d) \<Rightarrow> \<lambda>i x. map_option (Pair ch) (child_write flat_dio ch d i x)) i x = Some s'"
  then obtain d' where s': "s' = (ch, d')" and w: "child_write flat_dio ch d i x = Some d'"
    by (auto simp: s)
  note l = flat.child_laws [OF ok i x w]
  show "dev_ok s' \<and> (case s' of (ch, d) \<Rightarrow> child_blocks ch) = (case s of (ch, d) \<Rightarrow> child_blocks ch) \<and>
      (case s' of (ch, d) \<Rightarrow> child_bsz ch) = (case s of (ch, d) \<Rightarrow> child_bsz ch)"
    using l(1) ok by (simp add: s s' dev_ok_def)
  show "(case s' of (ch, d) \<Rightarrow> child_read flat_dio ch d) i = Some x"
    using l(2) by (simp add: s')
  assume "j < (case s of (ch, d) \<Rightarrow> child_blocks ch)" "j \<noteq> i"
  then show "(case s' of (ch, d) \<Rightarrow> child_read flat_dio ch d) j = (case s of (ch, d) \<Rightarrow> child_read flat_dio ch d) j"
    using l(3) by (simp add: s s')
qed

section \<open>Properties\<close>

lemma window_end:
  assumes "child_ok ch" "i < child_blocks ch"
  shows "unat (ch_start ch) + i * child_bsz ch + child_bsz ch \<le> unat (ch_end ch)"
  using child_offset_block [OF assms, of "ucast (ch_block_size ch)" flat_dio "[]" 0] by (auto simp: child_bsz_def)

text \<open>
  C10. On a disk that keeps the documented behaviour of DiskIo, the children of a disk are isolated
  block devices: writing an in-range block of one child succeeds, the block then reads back, its
  other blocks are unchanged, and so is every block of any child whose window does not meet the
  first one's.
\<close>

theorem children_isolated:
  assumes "disk dio content" "child_ok ch" "unat (ch_end ch) \<le> length (content d)"
    and "i < child_blocks ch" "length x = child_bsz ch"
  shows "\<exists>d'. child_write dio ch d i x = Some d' \<and> child_read dio ch d' i = Some x \<and>
     (\<forall>j < child_blocks ch. j \<noteq> i \<longrightarrow> child_read dio ch d' j = child_read dio ch d j) \<and>
     (\<forall>ch2 j. child_ok ch2 \<and> unat (ch_end ch2) \<le> length (content d) \<and>
        (ch_end ch2 \<le> ch_start ch \<or> ch_end ch \<le> ch_start ch2) \<and> j < child_blocks ch2 \<longrightarrow>
        child_read dio ch2 d' j = child_read dio ch2 d j)"
proof -
  obtain d' where w: "child_write dio ch d i x = Some d'"
    using disk.child_write_in [OF assms] by blast
  note l = disk.child_laws [OF assms w]
  have "child_read dio ch2 d' j = child_read dio ch2 d j"
    if ch2: "child_ok ch2" "unat (ch_end ch2) \<le> length (content d)" "j < child_blocks ch2"
      and apart: "ch_end ch2 \<le> ch_start ch \<or> ch_end ch \<le> ch_start ch2" for ch2 j
  proof -
    let ?o = "unat (ch_start ch2) + j * child_bsz ch2"
    have fit: "?o + child_bsz ch2 \<le> unat (ch_end ch2)"
      by (rule window_end [OF ch2(1,3)])
    have "take (child_bsz ch2) (drop ?o (content d')) = take (child_bsz ch2) (drop ?o (content d))"
    proof (rule nth_equalityI)
      show "length (take (child_bsz ch2) (drop ?o (content d'))) = length (take (child_bsz ch2) (drop ?o (content d)))"
        using l(1) by simp
      fix k
      assume "k < length (take (child_bsz ch2) (drop ?o (content d')))"
      then have k: "k < child_bsz ch2" "?o + k < length (content d)"
        using l(1) by auto
      have "?o + k < unat (ch_start ch) \<or> unat (ch_end ch) \<le> ?o + k"
        using apart fit k(1) by (auto simp: word_le_nat_alt)
      then show "take (child_bsz ch2) (drop ?o (content d')) ! k = take (child_bsz ch2) (drop ?o (content d)) ! k"
        using l(1) l(4) [OF _ k(2)] k by simp
    qed
    then show ?thesis
      using disk.child_read_in [OF assms(1) ch2(1) _ ch2(3), of d'] disk.child_read_in [OF assms(1) ch2] l(1) ch2(2) by simp
  qed
  with w l(2,3) show ?thesis by blast
qed

definition demo_child :: "u64 \<Rightarrow> child" where
  "demo_child s = \<lparr>ch_node = CdRom 0 0 0, ch_start = s, ch_end = s + 4, ch_block_size = 2, ch_last_block = 1, ch_esp = False\<rparr>"

lemma children_isolated_witness:
  "\<exists>d'. child_write flat_dio (demo_child 4) [1, 2, 3, 4, 5, 6, 7, 8] 1 [9, 10] = Some d' \<and>
     child_read flat_dio (demo_child 4) d' 1 = Some [9, 10] \<and>
     child_read flat_dio (demo_child 0) d' 1 = Some [3, 4]"
proof -
  let ?d = "[1, 2, 3, 4, 5, 6, 7, 8] :: byte list"
  have ok: "child_ok (demo_child 4)" "child_ok (demo_child 0)"
    by (simp_all add: demo_child_def child_ok_def)
  have "child_read flat_dio (demo_child 0) ?d 1 = Some [3, 4]"
    using flat.child_read_in [OF ok(2), of ?d 1] by (simp add: demo_child_def child_bsz_def child_blocks_def)
  then show ?thesis
    using children_isolated [OF flat.disk_axioms ok(1), of ?d 1 "[9, 10]"] ok
    by (auto simp: demo_child_def child_bsz_def child_blocks_def)
qed

text \<open>
  C11. A child does not confine its accesses: the check compares a sum that wraps. A request for one
  block at the LBA \<open>2 ^ 64 - k\<close> passes and reads the block that lies \<open>k\<close> blocks before the
  partition, whatever the disk, as long as the partition starts that far from the disk's beginning.
\<close>

theorem child_escapes_backwards:
  assumes "child_ok ch" "0 < k" "k * child_bsz ch \<le> unat (ch_start ch)"
  shows "PartitionReadBlocks dio d ch mid (- of_nat k) (ucast (ch_block_size ch)) =
    Some (dio_read dio d mid (ch_start ch - of_nat (k * child_bsz ch)) (child_bsz ch))"
proof -
  let ?b = "ucast (ch_block_size ch) :: u64"
  let ?off = "ch_start ch - of_nat (k * child_bsz ch)"
  have nz: "ch_block_size ch \<noteq> 0"
    using assms(1) by (auto simp: child_ok_def)
  have b: "of_nat (child_bsz ch) = ?b"
    by (simp add: child_bsz_def)
  have off: "MultU64x32 (- of_nat k) (ch_block_size ch) + ch_start ch = ?off"
    by (simp add: MultU64x32_def b)
  have le: "child_bsz ch \<le> k * child_bsz ch"
    using assms(2) by simp
  have "unat (of_nat (k * child_bsz ch) :: u64) = k * child_bsz ch"
    by (rule unat_small64) (use assms(3) word_unat_lt [of "ch_start ch"] in simp)
  then have uoff: "unat ?off = unat (ch_start ch) - k * child_bsz ch"
    using assms(3) by (simp add: unat_sub word_le_nat_alt)
  have ub: "unat ?b = child_bsz ch"
    by (simp add: child_bsz_def)
  have lt: "unat (ch_start ch) < 2 ^ 64"
    using word_unat_lt [of "ch_start ch"] by simp
  have "unat ?off + unat ?b < 2 ^ 64"
    unfolding uoff ub using le assms(3) lt by linarith
  then have "unat (?off + ?b) = unat ?off + child_bsz ch"
    by (simp only: unat_add_u64 ub)
  then have "unat (?off + ?b) \<le> unat (ch_start ch)"
    using uoff le assms(3) by linarith
  moreover have "unat (ch_start ch) \<le> unat (ch_end ch)"
    using assms(1) by (simp add: child_ok_def)
  ultimately have "\<not> ch_end ch < ?off + ?b"
    by (simp add: word_less_nat_alt)
  then show ?thesis
    using nz off by (simp add: PartitionReadBlocks_def child_offset_def child_bsz_def)
qed

lemma child_escapes_backwards_witness:
  "PartitionReadBlocks flat_dio [1, 2, 3, 4, 5, 6, 7, 8] (demo_child 4) 0 (- 1) 2 = Some (Inr [3, 4])"
  using child_escapes_backwards [of "demo_child 4" 1 flat_dio "[1, 2, 3, 4, 5, 6, 7, 8]" 0]
  by (simp add: demo_child_def child_ok_def child_bsz_def flat_dio_def)

end
