(* ===== verification/PartInstall.thy ===== *)
theory PartInstall
  imports PartDisk "HOL-Library.Sublist"
begin

text \<open>
  Facts shared by the partition schemes: what a successful \<open>PartitionInstallChildHandle\<close> adds, and the
  windows of a list of children that were installed for a list of block extents.
\<close>

section \<open>Children that cover extents\<close>

text \<open>
  An extent is a pair of first and last block on the parent. The schemes install children for a
  subsequence of the extents they accept; when those are pairwise apart, so are the windows.
\<close>

definition window_apart :: "child \<Rightarrow> child \<Rightarrow> bool" where
  "window_apart c d \<longleftrightarrow> ch_end c \<le> ch_start d \<or> ch_end d \<le> ch_start c"

definition ext_apart :: "nat \<times> nat \<Rightarrow> nat \<times> nat \<Rightarrow> bool" where
  "ext_apart x y \<longleftrightarrow> snd x < fst y \<or> snd y < fst x"

definition realises :: "nat \<Rightarrow> child \<Rightarrow> nat \<times> nat \<Rightarrow> bool" where
  "realises bs c x \<longleftrightarrow> child_ok c \<and> unat (ch_start c) = fst x * bs \<and> unat (ch_end c) = (snd x + 1) * bs"

lemma realises_apart:
  assumes "realises bs c x" "realises bs d y" "ext_apart x y"
  shows "window_apart c d"
proof -
  have le: "(a + 1) * bs \<le> b * bs" if "a < b" for a b
    using that by (intro mult_le_mono1) simp
  show ?thesis
    using assms le by (auto simp: realises_def ext_apart_def window_apart_def word_le_nat_alt)
qed

lemma subseq_sorted_wrt: "subseq xs ys \<Longrightarrow> sorted_wrt P ys \<Longrightarrow> sorted_wrt P xs"
  by (induction rule: list_emb.induct) (auto dest: list_emb_set)

lemma subseq_snoc: "subseq xs ys \<Longrightarrow> subseq (xs @ [y]) (ys @ [y])"
  by (simp add: list_emb_append_mono)

lemma subseq_skip: "subseq xs ys \<Longrightarrow> subseq xs (ys @ [y])"
  by (rule subseq_order.trans [of _ ys]) (auto intro: list_emb_prefix)

lemma realises_windows:
  assumes "list_all2 (realises bs) cs xs" "sorted_wrt ext_apart xs"
  shows "sorted_wrt window_apart cs"
  unfolding sorted_wrt_iff_nth_less
proof (intro allI impI)
  fix i j
  assume ij: "i < j" "j < length cs"
  then have "realises bs (cs ! i) (xs ! i)" "realises bs (cs ! j) (xs ! j)" "j < length xs"
    using assms(1) by (auto simp: list_all2_conv_all_nth)
  moreover have "ext_apart (xs ! i) (xs ! j)"
    using assms(2) ij calculation(3) by (simp add: sorted_wrt_iff_nth_less)
  ultimately show "window_apart (cs ! i) (cs ! j)"
    by (blast intro: realises_apart)
qed

text \<open>What the installation of children for a list of extents has to show.\<close>

definition covers :: "nat \<Rightarrow> child list \<Rightarrow> (nat \<times> nat) list \<Rightarrow> bool" where
  "covers bs cs xs \<longleftrightarrow> (\<exists>ys. subseq ys xs \<and> list_all2 (realises bs) cs ys)"

lemma covers_Nil: "covers bs [] xs"
  unfolding covers_def by (rule exI [of _ "[]"]) simp

lemma covers_skip: "covers bs cs xs \<Longrightarrow> covers bs cs (xs @ [y])"
  unfolding covers_def using subseq_skip by blast

lemma covers_snoc: "covers bs cs xs \<Longrightarrow> realises bs c y \<Longrightarrow> covers bs (cs @ [c]) (xs @ [y])"
  unfolding covers_def by (metis (no_types, lifting) list_all2_appendI list_all2_Cons list_all2_Nil subseq_snoc)

lemma covers_windows: "covers bs cs xs \<Longrightarrow> sorted_wrt ext_apart xs \<Longrightarrow> sorted_wrt window_apart cs"
  unfolding covers_def using realises_windows subseq_sorted_wrt by blast

lemma covers_bound:
  assumes "covers bs cs xs" "\<forall>x\<in>set xs. snd x < n" "c \<in> set cs"
  shows "child_ok c \<and> unat (ch_end c) \<le> n * bs"
proof -
  obtain ys where ys: "subseq ys xs" "list_all2 (realises bs) cs ys"
    using assms(1) by (auto simp: covers_def)
  obtain i where i: "i < length cs" "c = cs ! i"
    using assms(3) by (auto simp: in_set_conv_nth)
  then have r: "realises bs c (ys ! i)" and "ys ! i \<in> set ys"
    using ys(2) by (auto simp: list_all2_conv_all_nth)
  then have "ys ! i \<in> set xs"
    using ys(1) by (auto dest: list_emb_set)
  then have "snd (ys ! i) + 1 \<le> n"
    using assms(2) by force
  then have "(snd (ys ! i) + 1) * bs \<le> n * bs"
    by (rule mult_le_mono1)
  with r show ?thesis by (simp add: realises_def)
qed

lemma covers_lower:
  assumes "covers bs cs xs" "\<forall>x\<in>set xs. n \<le> fst x" "c \<in> set cs"
  shows "n * bs \<le> unat (ch_start c)"
proof -
  obtain ys where ys: "subseq ys xs" "list_all2 (realises bs) cs ys"
    using assms(1) by (auto simp: covers_def)
  obtain i where i: "i < length cs" "c = cs ! i"
    using assms(3) by (auto simp: in_set_conv_nth)
  then have r: "realises bs c (ys ! i)" and "ys ! i \<in> set ys"
    using ys(2) by (auto simp: list_all2_conv_all_nth)
  then have "n \<le> fst (ys ! i)"
    using ys(1) assms(2) by (auto dest: list_emb_set)
  then have "n * bs \<le> fst (ys ! i) * bs"
    by (rule mult_le_mono1)
  with r show ?thesis by (simp add: realises_def)
qed

section \<open>Installing a child\<close>

lemma install_total: "bsize \<noteq> 0 \<Longrightarrow> \<exists>s cs'. PartitionInstallChildHandle env m node S E bsize esp cs = Some (s, cs')"
  by (simp add: PartitionInstallChildHandle_def DivU64x32_def Let_def)

lemma MultU64x32_eq:
  assumes "unat a = n" "n * unat b \<le> u" "u < 2 ^ 63"
  shows "unat (MultU64x32 a b) = n * unat b"
proof -
  have "n * unat b < 2 ^ 64"
    using assms(2,3) by simp
  then show ?thesis
    using MultU64x32_unat [of a b] assms(1) by simp
qed

lemma install_child:
  assumes "PartitionInstallChildHandle env m node S E bsize esp cs = Some (s, cs')"
    and "unat S \<le> unat E" "(unat E + 1) * unat (BlockSize m) < 2 ^ 63" "0 < unat (BlockSize m)"
    and "unat bsize dvd unat (BlockSize m)" "bsize \<noteq> 0"
  shows "cs' = cs \<and> EFI_ERROR s \<or>
    (\<exists>c. cs' = cs @ [c] \<and> ch_node c = node \<and> ch_esp c = esp \<and> ch_block_size c = bsize \<and>
         realises (unat (BlockSize m)) c (unat S, unat E))"
proof -
  let ?bs = "unat (BlockSize m)"
  let ?q = "MultU64x32 (E - S + 1) (BlockSize m) div ucast bsize :: u64"
  let ?c = "\<lparr>ch_node = node, ch_start = MultU64x32 S (BlockSize m), ch_end = MultU64x32 (E + 1) (BlockSize m),
    ch_block_size = bsize, ch_last_block = ?q - 1, ch_esp = esp\<rparr>"
  have cases: "cs' = cs \<and> EFI_ERROR s \<or> cs' = cs @ [?c]"
    using assms(1,6) by (auto simp: PartitionInstallChildHandle_def DivU64x32_def EFI_ERROR_def Let_def split: if_splits)
  obtain k where k: "?bs = unat bsize * k"
    using assms(5) by blast
  have b0: "0 < unat bsize"
    using assms(6) by (simp add: unat_gt_0)
  have k0: "0 < k"
    using k assms(4) by (cases k) auto
  have le: "unat E + 1 \<le> (unat E + 1) * ?bs"
    using assms(4) by (cases ?bs) auto
  have e1: "unat (E + 1) = unat E + 1"
    using unat_add_u64 [of E 1] le assms(3) by simp
  have "S \<le> E"
    using assms(2) by (simp add: word_le_nat_alt)
  then have d: "unat (E - S) = unat E - unat S"
    by (simp add: unat_sub)
  have n: "unat (E - S + 1) = unat E - unat S + 1"
    using unat_add_u64 [of "E - S" 1] d le assms(3) by simp
  have "(unat E - unat S + 1) * ?bs \<le> (unat E + 1) * ?bs"
    by (intro mult_le_mono1) simp
  then have mn: "unat (MultU64x32 (E - S + 1) (BlockSize m)) = (unat E - unat S + 1) * ?bs"
    by (rule MultU64x32_eq [OF n _ assms(3)])
  have me: "unat (MultU64x32 (E + 1) (BlockSize m)) = (unat E + 1) * ?bs"
    by (rule MultU64x32_eq [OF e1 _ assms(3)]) simp
  have "unat S * ?bs \<le> (unat E + 1) * ?bs"
    using assms(2) by (intro mult_le_mono1) simp
  then have ms: "unat (MultU64x32 S (BlockSize m)) = unat S * ?bs"
    by (rule MultU64x32_eq [OF refl _ assms(3)])
  have "unat ?q = (unat E - unat S + 1) * ?bs div unat bsize"
    by (simp only: unat_div_distrib mn unat_ucast_u32)
  also have "\<dots> = (unat E - unat S + 1) * k"
    using b0 unfolding k by simp
  finally have q: "unat ?q = (unat E - unat S + 1) * k" .
  have "1 \<le> (unat E - unat S + 1) * k"
    using k0 by simp
  then have q1: "unat (?q - 1) + 1 = (unat E - unat S + 1) * k"
    using q by (simp add: unat_sub word_le_nat_alt)
  have "unat S * ?bs + (unat E - unat S + 1) * k * unat bsize = (unat E + 1) * ?bs"
  proof -
    obtain j where "unat E = unat S + j"
      using assms(2) le_Suc_ex by blast
    then show ?thesis
      unfolding k by (simp add: algebra_simps)
  qed
  then have "child_ok ?c"
    using b0 me ms q1 assms(3) by (simp add: child_ok_def word_less_nat_alt)
  then have "realises ?bs ?c (unat S, unat E)"
    using me ms by (simp add: realises_def)
  with cases show ?thesis by auto
qed

end
