(* ===== verification/Mbr.thy ===== *)
theory Mbr
  imports PartInstall
begin

text \<open>
  \<^verbatim>\<open>PartitionDxe/Mbr.c\<close>: the validity check of a master boot record and the installation of the
  child devices of its primary partitions, or of the logical drives of an extended partition.

  A sector is the byte list that the disk read returned; its fields are read at their offsets, and
  a field beyond the buffer is undefined behaviour. The chain of extended boot records is a loop
  whose end depends on the disk's content: \<open>ebr_run\<close> makes at most \<open>fuel\<close> rounds and says whether
  the loop has returned (\<open>Inr\<close>) or is still running (\<open>Inl\<close>).
\<close>

section \<open>The boot record\<close>

record mbr_part =
  BootIndicator :: byte
  OSIndicator :: byte
  StartingLBA :: u32
  SizeInLBA :: u32

definition MBR_SIZE :: u32 where "MBR_SIZE = 512"
definition MBR_SIGNATURE :: u16 where "MBR_SIGNATURE = 0xAA55"
definition EXTENDED_DOS_PARTITION :: byte where "EXTENDED_DOS_PARTITION = 5"
definition EXTENDED_WINDOWS_PARTITION :: byte where "EXTENDED_WINDOWS_PARTITION = 15"
definition PMBR_GPT_PARTITION :: byte where "PMBR_GPT_PARTITION = 0xEE"
definition EFI_PARTITION :: byte where "EFI_PARTITION = 0xEF"
definition MBR_TYPE_PCAT :: byte where "MBR_TYPE_PCAT = 1"

lemmas mbr_consts = MBR_SIZE_def MBR_SIGNATURE_def EXTENDED_DOS_PARTITION_def EXTENDED_WINDOWS_PARTITION_def
  PMBR_GPT_PARTITION_def EFI_PARTITION_def MBR_TYPE_PCAT_def

definition mbr_partition :: "byte list \<Rightarrow> nat \<Rightarrow> mbr_part option" where
  "mbr_partition buf i =
     (let o1 = 446 + 16 * i in
      do {
        b \<leftarrow> rd buf o1;
        os \<leftarrow> rd buf (o1 + 4);
        start \<leftarrow> le32 buf (o1 + 8);
        size \<leftarrow> le32 buf (o1 + 12);
        Some \<lparr>BootIndicator = b, OSIndicator = os, StartingLBA = start, SizeInLBA = size\<rparr> })"

definition mbr_table :: "byte list \<Rightarrow> mbr_part list option" where
  "mbr_table buf =
     do {
       p0 \<leftarrow> mbr_partition buf 0; p1 \<leftarrow> mbr_partition buf 1;
       p2 \<leftarrow> mbr_partition buf 2; p3 \<leftarrow> mbr_partition buf 3;
       Some [p0, p1, p2, p3] }"

definition unused_part :: "mbr_part \<Rightarrow> bool" where
  "unused_part p \<longleftrightarrow> OSIndicator p = 0 \<or> SizeInLBA p = 0"

text \<open>\<^verbatim>\<open>EndingLBA\<close> is a \<^verbatim>\<open>UINT32\<close>: the sum wraps.\<close>

definition ending_lba :: "mbr_part \<Rightarrow> u32" where
  "ending_lba p = StartingLBA p + SizeInLBA p - 1"

fun valid_parts :: "u64 \<Rightarrow> mbr_part list \<Rightarrow> bool \<Rightarrow> bool" where
  "valid_parts LastLba [] MbrValid = MbrValid"
| "valid_parts LastLba (p # ps) MbrValid =
     (if unused_part p then valid_parts LastLba ps MbrValid
      else if ucast (ending_lba p) > LastLba then False
      else if (\<exists>q\<in>set ps. \<not> unused_part q \<and> ending_lba q \<ge> StartingLBA p \<and> StartingLBA q \<le> ending_lba p)
      then False
      else valid_parts LastLba ps True)"

definition PartitionValidMbr :: "byte list \<Rightarrow> u64 \<Rightarrow> bool option" where
  "PartitionValidMbr buf LastLba =
     do {
       sig \<leftarrow> le16 buf 510;
       if sig \<noteq> MBR_SIGNATURE then Some False
       else do { ps \<leftarrow> mbr_table buf; Some (valid_parts LastLba ps False) } }"

section \<open>Primary partitions\<close>

text \<open>The loop carries the partition number, the status found so far and the children.\<close>

fun install_primary ::
  "part_env \<Rightarrow> media \<Rightarrow> byte list \<Rightarrow> mbr_part list \<Rightarrow> u32 \<Rightarrow> efi_status \<Rightarrow> child list \<Rightarrow> (efi_status \<times> child list) option"
where
  "install_primary env m sig [] num Found cs = Some (Found, cs)"
| "install_primary env m sig (p # ps) num Found cs =
     (if unused_part p then install_primary env m sig ps num Found cs
      else if OSIndicator p = PMBR_GPT_PARTITION then install_primary env m sig ps num Found cs
      else do {
        let start = ucast (StartingLBA p);
        let size = ucast (SizeInLBA p);
        (s, cs') \<leftarrow> PartitionInstallChildHandle env m (HardDrive num start size MBR_TYPE_PCAT sig)
          start (start + size - 1) MBR_SIZE (OSIndicator p = EFI_PARTITION) cs;
        install_primary env m sig ps (num + 1) (if EFI_ERROR s then Found else EFI_SUCCESS) cs' })"

section \<open>Logical drives of an extended partition\<close>

record ebr_state =
  eb_ext :: u32
  eb_num :: u32
  eb_found :: efi_status
  eb_children :: "child list"

definition is_extended :: "mbr_part \<Rightarrow> bool" where
  "is_extended p \<longleftrightarrow> OSIndicator p = EXTENDED_DOS_PARTITION \<or> OSIndicator p = EXTENDED_WINDOWS_PARTITION"

definition ebr_finish :: "ebr_state \<Rightarrow> ebr_state + (efi_status \<times> child list)" where
  "ebr_finish st = Inr (eb_found st, eb_children st)"

text \<open>The test at the end of the \<^verbatim>\<open>do ... while\<close>, which \<^verbatim>\<open>continue\<close> jumps to.\<close>

definition ebr_while :: "u64 \<Rightarrow> ebr_state \<Rightarrow> ebr_state + (efi_status \<times> child list)" where
  "ebr_while psize st = (if ucast (eb_ext st) < psize then Inl st else ebr_finish st)"

definition ebr_step ::
  "part_env \<Rightarrow> 'd disk_io \<Rightarrow> 'd \<Rightarrow> media \<Rightarrow> u64 \<Rightarrow> u64 \<Rightarrow> ebr_state \<Rightarrow>
   (ebr_state + (efi_status \<times> child list)) option"
where
  "ebr_step env dio d m pstart psize st =
     (case dio_read dio d (MediaId m) (MultU64x32 (ucast (eb_ext st)) (BlockSize m)) (unat (BlockSize m)) of
        Inl e \<Rightarrow> Some (Inr (e, eb_children st))
      | Inr buf \<Rightarrow> do {
          p0 \<leftarrow> mbr_partition buf 0;
          if SizeInLBA p0 = 0 then Some (ebr_finish st)
          else if is_extended p0 then Some (ebr_while psize (st\<lparr>eb_ext := StartingLBA p0\<rparr>))
          else do {
            let start = ucast (StartingLBA p0 + eb_ext st) + pstart;
            let size = (ucast (SizeInLBA p0) :: u64);
            if start + size - 1 \<ge> pstart + psize \<or> start \<le> pstart
            then Some (ebr_finish (st\<lparr>eb_num := eb_num st + 1\<rparr>))
            else do {
              (s, cs) \<leftarrow> PartitionInstallChildHandle env m
                (HardDrive (eb_num st) start size MBR_TYPE_PCAT (replicate 16 0))
                (start - pstart) (start - pstart + size - 1) MBR_SIZE (OSIndicator p0 = EFI_PARTITION) (eb_children st);
              let st' = st\<lparr>eb_num := eb_num st + 1, eb_found := (if EFI_ERROR s then eb_found st else EFI_SUCCESS),
                eb_children := cs\<rparr>;
              p1 \<leftarrow> mbr_partition buf 1;
              if \<not> is_extended p1 then Some (ebr_finish st')
              else if StartingLBA p1 = 0 then Some (ebr_finish st')
              else Some (ebr_while psize (st'\<lparr>eb_ext := StartingLBA p1\<rparr>)) } } })"

fun ebr_run ::
  "nat \<Rightarrow> part_env \<Rightarrow> 'd disk_io \<Rightarrow> 'd \<Rightarrow> media \<Rightarrow> u64 \<Rightarrow> u64 \<Rightarrow> ebr_state \<Rightarrow>
   (ebr_state + (efi_status \<times> child list)) option"
where
  "ebr_run 0 env dio d m pstart psize st = Some (Inl st)"
| "ebr_run (Suc fuel) env dio d m pstart psize st =
     do {
       r \<leftarrow> ebr_step env dio d m pstart psize st;
       (case r of Inl st' \<Rightarrow> ebr_run fuel env dio d m pstart psize st' | Inr x \<Rightarrow> Some (Inr x)) }"

section \<open>The detection routine\<close>

text \<open>
  A device path is the list of its nodes before the end node; only the hard drive nodes have
  content here. The routine looks at the last one.
\<close>

datatype dp_node = DpMedia path_node | DpOther

definition parent_hd :: "dp_node list \<Rightarrow> (u64 \<times> u64) option" where
  "parent_hd path =
     (case rev path of DpMedia (HardDrive n start blocks t sig) # _ \<Rightarrow> Some (start, blocks) | _ \<Rightarrow> None)"

definition PartitionInstallMbrChildHandles ::
  "nat \<Rightarrow> part_env \<Rightarrow> 'd disk_io \<Rightarrow> 'd \<Rightarrow> media \<Rightarrow> dp_node list \<Rightarrow> child list \<Rightarrow>
   (ebr_state + (efi_status \<times> child list)) option"
where
  "PartitionInstallMbrChildHandles fuel env dio d m path cs =
     (if \<not> pe_pool env (unat (BlockSize m)) then Some (Inr (EFI_NOT_FOUND, cs))
      else (case dio_read dio d (MediaId m) 0 (unat (BlockSize m)) of
          Inl e \<Rightarrow> Some (Inr (e, cs))
        | Inr buf \<Rightarrow> do {
            v \<leftarrow> PartitionValidMbr buf (LastBlock m);
            if \<not> v then Some (Inr (EFI_NOT_FOUND, cs))
            else (case parent_hd path of
                None \<Rightarrow> do {
                  ps \<leftarrow> mbr_table buf;
                  sig \<leftarrow> rd_range buf 440 4;
                  map_option Inr (install_primary env m (sig @ replicate 12 0) ps 1 EFI_NOT_FOUND cs) }
              | Some (pstart, psize) \<Rightarrow>
                  ebr_run fuel env dio d m pstart psize
                    \<lparr>eb_ext = 0, eb_num = 1, eb_found = EFI_NOT_FOUND, eb_children = cs\<rparr>) }))"

section \<open>Validity and the primary partitions\<close>

definition extent :: "mbr_part \<Rightarrow> nat \<times> nat" where
  "extent p = (unat (StartingLBA p), unat (StartingLBA p) + unat (SizeInLBA p) - 1)"

definition no_wrap :: "mbr_part \<Rightarrow> bool" where
  "no_wrap p \<longleftrightarrow> unat (StartingLBA p) + unat (SizeInLBA p) \<le> 2 ^ 32"

abbreviation used_extents :: "mbr_part list \<Rightarrow> (nat \<times> nat) list" where
  "used_extents ps \<equiv> map extent (filter (\<lambda>p. \<not> unused_part p) ps)"

lemma size_pos: "\<not> unused_part p \<Longrightarrow> 0 < unat (SizeInLBA p)"
  by (simp add: unused_part_def unat_gt_0)

lemma ending_lba_unat:
  assumes "no_wrap p" "\<not> unused_part p"
  shows "unat (ending_lba p) = snd (extent p)"
proof -
  have "ending_lba p = of_nat (unat (StartingLBA p) + unat (SizeInLBA p) - 1)"
    using size_pos [OF assms(2)] by (simp add: ending_lba_def of_nat_diff)
  moreover have "unat (of_nat (unat (StartingLBA p) + unat (SizeInLBA p) - 1) :: u32) =
      unat (StartingLBA p) + unat (SizeInLBA p) - 1"
    by (rule unat_small) (use assms(1) size_pos [OF assms(2)] in \<open>simp add: no_wrap_def\<close>)
  ultimately show ?thesis by (simp add: extent_def)
qed

lemma valid_parts_apart:
  assumes "valid_parts L ps v" "\<forall>p\<in>set ps. no_wrap p"
  shows "sorted_wrt ext_apart (used_extents ps)" and "\<forall>x\<in>set (used_extents ps). snd x < unat L + 1"
proof -
  have "sorted_wrt ext_apart (used_extents ps) \<and> (\<forall>x\<in>set (used_extents ps). snd x < unat L + 1)"
    using assms
  proof (induction L ps v rule: valid_parts.induct)
    case (1 L v)
    then show ?case by simp
  next
    case (2 L p ps v)
    show ?case
    proof (cases "unused_part p")
      case True
      then show ?thesis using 2 by simp
    next
      case False
      then have e: "unat (ending_lba p) = snd (extent p)"
        using 2 by (intro ending_lba_unat) simp_all
      have L: "\<not> ucast (ending_lba p) > L"
        and ov: "\<not> (\<exists>q\<in>set ps. \<not> unused_part q \<and> ending_lba q \<ge> StartingLBA p \<and> StartingLBA q \<le> ending_lba p)"
        and v: "valid_parts L ps True"
        using 2(3) False by (simp_all split: if_split_asm)
      have "sorted_wrt ext_apart (used_extents ps) \<and> (\<forall>x\<in>set (used_extents ps). snd x < unat L + 1)"
        using 2(2) False L ov v 2(4) by simp
      moreover have "ext_apart (extent p) (extent q)" if q: "q \<in> set ps" "\<not> unused_part q" for q
      proof -
        have "unat (ending_lba q) = snd (extent q)"
          using 2(4) q by (intro ending_lba_unat) simp_all
        moreover have "\<not> (ending_lba q \<ge> StartingLBA p \<and> StartingLBA q \<le> ending_lba p)"
          using ov q by blast
        ultimately show ?thesis
          using e by (auto simp: ext_apart_def extent_def word_le_nat_alt)
      qed
      moreover have "snd (extent p) < unat L + 1"
        using L e by (simp add: word_less_nat_alt)
      ultimately show ?thesis
        using False by auto
    qed
  qed
  then show "sorted_wrt ext_apart (used_extents ps)" "\<forall>x\<in>set (used_extents ps). snd x < unat L + 1"
    by auto
qed

lemma unat_ucast_sum:
  fixes a b :: u32
  assumes "0 < unat b"
  shows "unat (ucast a + ucast b - 1 :: u64) = unat a + unat b - 1"
proof -
  have "unat a < 2 ^ 32" "unat b < 2 ^ 32"
    using word_unat_lt [of a] word_unat_lt [of b] by simp_all
  then have "unat (of_nat (unat a + unat b - 1) :: u64) = unat a + unat b - 1"
    by (intro unat_small64) simp
  moreover have "ucast a + ucast b - 1 = (of_nat (unat a + unat b - 1) :: u64)"
    using assms by (simp add: of_nat_diff)
  ultimately show ?thesis by simp
qed

lemma install_primary_covers:
  assumes "install_primary env m sig ps num Found cs = Some (s, cs')"
    and "\<forall>x\<in>set (used_extents ps). (snd x + 1) * unat (BlockSize m) < 2 ^ 63"
    and "512 dvd unat (BlockSize m)" "0 < unat (BlockSize m)"
    and "covers (unat (BlockSize m)) cs xs"
  shows "covers (unat (BlockSize m)) cs' (xs @ used_extents ps)"
    and "s = EFI_SUCCESS \<Longrightarrow> Found = EFI_SUCCESS \<or> cs' \<noteq> []"
    and "length cs \<le> length cs'"
proof -
  have "covers (unat (BlockSize m)) cs' (xs @ used_extents ps) \<and> (s = EFI_SUCCESS \<longrightarrow> Found = EFI_SUCCESS \<or> cs' \<noteq> []) \<and>
    length cs \<le> length cs'"
    using assms(1,2,5)
  proof (induction ps arbitrary: num Found cs xs)
    case Nil
    then show ?case by simp
  next
    case (Cons p ps)
    consider (unused) "unused_part p" | (gpt) "\<not> unused_part p" "OSIndicator p = PMBR_GPT_PARTITION"
      | (install) "\<not> unused_part p" "OSIndicator p \<noteq> PMBR_GPT_PARTITION"
      by blast
    then show ?case
    proof cases
      case unused
      then have "install_primary env m sig ps num Found cs = Some (s, cs')" "used_extents (p # ps) = used_extents ps"
        using Cons.prems(1) by simp_all
      then show ?thesis
        using Cons.IH [of num Found cs xs] Cons.prems(2,3) by metis
    next
      case gpt
      then have "covers (unat (BlockSize m)) cs (xs @ [extent p])"
        using Cons.prems(3) by (intro covers_skip)
      then show ?thesis
        using Cons.IH [of num Found cs "xs @ [extent p]"] Cons.prems gpt by simp
    next
      case install
      let ?start = "ucast (StartingLBA p) :: u64" and ?size = "ucast (SizeInLBA p) :: u64"
      let ?I = "PartitionInstallChildHandle env m (HardDrive num ?start ?size MBR_TYPE_PCAT sig)
          ?start (?start + ?size - 1) MBR_SIZE (OSIndicator p = EFI_PARTITION) cs"
      obtain s1 cs1 where i: "?I = Some (s1, cs1)"
        and rest: "install_primary env m sig ps (num + 1) (if EFI_ERROR s1 then Found else EFI_SUCCESS) cs1 = Some (s, cs')"
        using Cons.prems(1) install by (auto simp: Let_def split: bind_splits)
      have E: "unat (?start + ?size - 1) = snd (extent p)"
        using unat_ucast_sum [of "SizeInLBA p" "StartingLBA p"] size_pos [OF install(1)] by (simp add: extent_def)
      have lim: "(snd (extent p) + 1) * unat (BlockSize m) < 2 ^ 63"
        using Cons.prems(2) install(1) by simp
      have le: "unat ?start \<le> unat (?start + ?size - 1)"
        unfolding E using size_pos [OF install(1)] by (simp add: extent_def)
      have c: "cs1 = cs \<and> EFI_ERROR s1 \<or> (\<exists>c. cs1 = cs @ [c] \<and> realises (unat (BlockSize m)) c (extent p))"
        using install_child [OF i le _ assms(4)] E lim assms(3) by (auto simp: MBR_SIZE_def extent_def)
      then have "covers (unat (BlockSize m)) cs1 (xs @ [extent p])"
        using Cons.prems(3) by (auto intro: covers_skip covers_snoc)
      then have "covers (unat (BlockSize m)) cs' ((xs @ [extent p]) @ used_extents ps) \<and>
          (s = EFI_SUCCESS \<longrightarrow> (if EFI_ERROR s1 then Found else EFI_SUCCESS) = EFI_SUCCESS \<or> cs' \<noteq> []) \<and>
          length cs1 \<le> length cs'"
        using Cons.prems(2) install(1) by (intro Cons.IH [OF rest]) simp_all
      then show ?thesis
        using c install(1) by auto
    qed
  qed
  then show "covers (unat (BlockSize m)) cs' (xs @ used_extents ps)"
    "s = EFI_SUCCESS \<Longrightarrow> Found = EFI_SUCCESS \<or> cs' \<noteq> []" "length cs \<le> length cs'"
    by auto
qed

lemma MBR_SIZE_nz: "MBR_SIZE \<noteq> 0"
  by (simp add: MBR_SIZE_def)

lemma install_primary_total: "\<exists>s cs'. install_primary env m sig ps num Found cs = Some (s, cs')"
proof (induction ps arbitrary: num Found cs)
  case (Cons p ps)
  let ?start = "ucast (StartingLBA p) :: u64" and ?size = "ucast (SizeInLBA p) :: u64"
  obtain s1 cs1 where i: "PartitionInstallChildHandle env m (HardDrive num ?start ?size MBR_TYPE_PCAT sig)
      ?start (?start + ?size - 1) MBR_SIZE (OSIndicator p = EFI_PARTITION) cs = Some (s1, cs1)"
    using install_total [of MBR_SIZE] by (metis MBR_SIZE_nz)
  then show ?case
    using Cons by (simp add: Let_def)
qed simp

lemma mbr_partition_total: "446 + 16 * i + 16 \<le> length buf \<Longrightarrow> \<exists>p. mbr_partition buf i = Some p"
  by (simp add: mbr_partition_def le32_def rd_range_def Let_def)

lemma mbr_table_total:
  assumes "512 \<le> length buf"
  shows "\<exists>ps. mbr_table buf = Some ps"
  using mbr_partition_total [of 0 buf] mbr_partition_total [of 1 buf] mbr_partition_total [of 2 buf]
    mbr_partition_total [of 3 buf] assms
  by (auto simp: mbr_table_def)

lemma valid_mbr_cases:
  assumes "512 \<le> length buf"
  obtains (invalid) "PartitionValidMbr buf L = Some False"
    | (valid) ps where "PartitionValidMbr buf L = Some True" "mbr_table buf = Some ps" "valid_parts L ps False"
proof -
  obtain ps where ps: "mbr_table buf = Some ps"
    using mbr_table_total [OF assms] by blast
  obtain sig where "le16 buf 510 = Some sig"
    using assms by (simp add: le16_def rd_range_def)
  then show ?thesis
    using ps that by (cases "valid_parts L ps False"; cases "sig = MBR_SIGNATURE") (simp_all add: PartitionValidMbr_def)
qed

section \<open>The chain of extended boot records\<close>

definition inside :: "nat \<Rightarrow> child \<Rightarrow> bool" where
  "inside lim c \<longleftrightarrow> child_ok c \<and> 0 < unat (ch_start c) \<and> unat (ch_end c) \<le> lim"

lemma u64_le_diff: "(a :: u64) \<le> b \<Longrightarrow> unat (b - a) = unat b - unat a"
  by (simp add: unat_sub)

text \<open>What the range test of the loop gives for a logical drive, when the parent lies below \<open>2 ^ 62\<close>.\<close>

lemma logical_extent:
  fixes start blocks pstart psize :: u64
  assumes "unat pstart < 2 ^ 62" "unat psize < 2 ^ 62" "unat start < 2 ^ 62 + 2 ^ 33" "0 < unat blocks" "unat blocks < 2 ^ 32"
    and "\<not> start + blocks - 1 \<ge> pstart + psize" "\<not> start \<le> pstart"
  shows "0 < unat (start - pstart)" "unat (start - pstart) \<le> unat (start - pstart + blocks - 1)"
    "unat (start - pstart + blocks - 1) < unat psize"
proof -
  have gt: "unat pstart < unat start"
    using assms(7) by (simp add: word_le_nat_alt)
  have d: "unat (start - pstart) = unat start - unat pstart"
    using gt by (intro u64_le_diff) (simp add: word_le_nat_alt)
  have pp: "unat (pstart + psize) = unat pstart + unat psize"
    by (rule unat_add_u64) (use assms(1,2) in simp)
  have sb: "unat (start + blocks) = unat start + unat blocks"
    by (rule unat_add_u64) (use assms(3,5) in simp)
  have sb1: "unat (start + blocks - 1) = unat start + unat blocks - 1"
    using sb assms(4) u64_le_diff [of 1 "start + blocks"] by (simp add: word_le_nat_alt)
  have db: "unat (start - pstart + blocks) = unat start - unat pstart + unat blocks"
    using unat_add_u64 [of "start - pstart" blocks] d assms(3,5) by simp
  have db1: "unat (start - pstart + blocks - 1) = unat start - unat pstart + unat blocks - 1"
    using db assms(4) u64_le_diff [of 1 "start - pstart + blocks"] by (simp add: word_le_nat_alt)
  have "unat start + unat blocks - 1 < unat pstart + unat psize"
    using assms(6) pp sb1 by (simp add: word_le_nat_alt)
  then show "0 < unat (start - pstart)" "unat (start - pstart) \<le> unat (start - pstart + blocks - 1)"
    "unat (start - pstart + blocks - 1) < unat psize"
    using d db1 gt assms(4) by linarith+
qed

definition ebr_children_of :: "ebr_state + (efi_status \<times> child list) \<Rightarrow> child list" where
  "ebr_children_of r = (case r of Inl st \<Rightarrow> eb_children st | Inr x \<Rightarrow> snd x)"

lemma ebr_children_simps [simp]:
  "ebr_children_of (Inl st) = eb_children st" "ebr_children_of (Inr (s, cs)) = cs"
  "ebr_children_of (ebr_finish st) = eb_children st" "ebr_children_of (ebr_while psize st) = eb_children st"
  by (simp_all add: ebr_children_of_def ebr_finish_def ebr_while_def)

lemma ebr_step_inside:
  assumes "ebr_step env dio d m pstart psize st = Some r"
    and bs: "512 dvd unat (BlockSize m)" "0 < unat (BlockSize m)"
    and P: "unat pstart < 2 ^ 62" "unat psize * unat (BlockSize m) < 2 ^ 62"
    and inv: "\<forall>c\<in>set (eb_children st). inside (unat psize * unat (BlockSize m)) c"
  shows "\<forall>c\<in>set (ebr_children_of r). inside (unat psize * unat (BlockSize m)) c"
proof -
  let ?lim = "unat psize * unat (BlockSize m)"
  show ?thesis
  proof (cases "dio_read dio d (MediaId m) (MultU64x32 (ucast (eb_ext st)) (BlockSize m)) (unat (BlockSize m))")
    case (Inl e)
    then show ?thesis using assms(1) inv by (auto simp: ebr_step_def)
  next
    case (Inr buf)
    obtain p0 where p0: "mbr_partition buf 0 = Some p0"
      using assms(1) Inr by (auto simp: ebr_step_def split: bind_splits)
    let ?start = "ucast (StartingLBA p0 + eb_ext st) + pstart"
    let ?size = "ucast (SizeInLBA p0) :: u64"
    consider "SizeInLBA p0 = 0 \<or> is_extended p0 \<or> ?start + ?size - 1 \<ge> pstart + psize \<or> ?start \<le> pstart"
      | (drive) "SizeInLBA p0 \<noteq> 0" "\<not> is_extended p0" "\<not> ?start + ?size - 1 \<ge> pstart + psize" "\<not> ?start \<le> pstart"
      by blast
    then show ?thesis
    proof cases
      case 1
      then have "ebr_children_of r = eb_children st"
        using assms(1) Inr p0 by (auto simp: ebr_step_def Let_def split: if_splits)
      then show ?thesis using inv by simp
    next
      case drive
      let ?I = "PartitionInstallChildHandle env m (HardDrive (eb_num st) ?start ?size MBR_TYPE_PCAT (replicate 16 0))
          (?start - pstart) (?start - pstart + ?size - 1) MBR_SIZE (OSIndicator p0 = EFI_PARTITION) (eb_children st)"
      obtain s1 cs1 where i: "?I = Some (s1, cs1)" and r: "ebr_children_of r = cs1"
        using assms(1) Inr p0 drive by (auto simp: ebr_step_def Let_def split: if_splits bind_splits)
      have psz: "unat psize < 2 ^ 62"
        using P(2) bs(2) by (metis dual_order.strict_trans2 le_add1 mult_Suc_right not_gr_zero Suc_pred)
      have st: "unat ?start < 2 ^ 62 + 2 ^ 33"
      proof -
        have "unat (StartingLBA p0 + eb_ext st) < 2 ^ 32"
          using word_unat_lt [of "StartingLBA p0 + eb_ext st"] by simp
        then have "unat ?start = unat (StartingLBA p0 + eb_ext st) + unat pstart"
          by (subst unat_add_u64) (use P(1) in simp_all)
        then show ?thesis
          using \<open>unat (StartingLBA p0 + eb_ext st) < 2 ^ 32\<close> P(1) by simp
      qed
      have sz: "0 < unat ?size" "unat ?size < 2 ^ 32"
        using drive(1) word_unat_lt [of "SizeInLBA p0"] by (simp_all add: unat_gt_0)
      note ext = logical_extent [OF P(1) psz st sz drive(3,4)]
      have le: "(unat (?start - pstart + ?size - 1) + 1) * unat (BlockSize m) \<le> ?lim"
        using ext(3) by (intro mult_le_mono1) simp
      have "cs1 = eb_children st \<or> (\<exists>c. cs1 = eb_children st @ [c] \<and>
          realises (unat (BlockSize m)) c (unat (?start - pstart), unat (?start - pstart + ?size - 1)))"
        using install_child [OF i ext(2) _ bs(2)] le P(2) bs(1) by (auto simp: MBR_SIZE_def)
      moreover have "inside ?lim c"
        if "realises (unat (BlockSize m)) c (unat (?start - pstart), unat (?start - pstart + ?size - 1))" for c
        using that le ext(1) bs(2) by (simp add: realises_def inside_def)
      ultimately show ?thesis
        using inv r by auto
    qed
  qed
qed

lemma ebr_run_inside:
  assumes "ebr_run fuel env dio d m pstart psize st = Some r"
    and "512 dvd unat (BlockSize m)" "0 < unat (BlockSize m)"
    and "unat pstart < 2 ^ 62" "unat psize * unat (BlockSize m) < 2 ^ 62"
    and "\<forall>c\<in>set (eb_children st). inside (unat psize * unat (BlockSize m)) c"
  shows "\<forall>c\<in>set (ebr_children_of r). inside (unat psize * unat (BlockSize m)) c"
  using assms(1,6)
proof (induction fuel arbitrary: st)
  case 0
  then show ?case by auto
next
  case (Suc fuel)
  obtain r1 where r1: "ebr_step env dio d m pstart psize st = Some r1"
    using Suc.prems(1) by (auto split: bind_splits)
  have in1: "\<forall>c\<in>set (ebr_children_of r1). inside (unat psize * unat (BlockSize m)) c"
    by (rule ebr_step_inside [OF r1 assms(2-5) Suc.prems(2)])
  show ?case
  proof (cases r1)
    case (Inl st1)
    then show ?thesis
      using Suc.IH [of st1] Suc.prems(1) r1 in1 by simp
  next
    case (Inr x)
    then show ?thesis
      using Suc.prems(1) r1 in1 by (simp add: ebr_children_of_def split_def)
  qed
qed

section \<open>Properties\<close>

definition sector0 :: "'d disk_io \<Rightarrow> 'd \<Rightarrow> media \<Rightarrow> efi_status + byte list" where
  "sector0 dio d m = dio_read dio d (MediaId m) 0 (unat (BlockSize m))"

text \<open>Reads that deliver the number of bytes asked for.\<close>

definition full_reads :: "'d disk_io \<Rightarrow> 'd \<Rightarrow> bool" where
  "full_reads dio d \<longleftrightarrow> (\<forall>mid off n buf. dio_read dio d mid off n = Inr buf \<longrightarrow> length buf = n)"

lemma full_reads_flat: "full_reads flat_dio d"
  by (auto simp: full_reads_def flat_dio_def split: if_splits)

lemma ebr_step_total:
  assumes "full_reads dio d" "512 \<le> unat (BlockSize m)"
  shows "\<exists>r. ebr_step env dio d m pstart psize st = Some r"
proof (cases "dio_read dio d (MediaId m) (MultU64x32 (ucast (eb_ext st)) (BlockSize m)) (unat (BlockSize m))")
  case (Inl e)
  then show ?thesis by (simp add: ebr_step_def)
next
  case (Inr buf)
  then have "512 \<le> length buf"
    using assms by (auto simp: full_reads_def)
  then obtain p0 p1 where p: "mbr_partition buf 0 = Some p0" "mbr_partition buf 1 = Some p1"
    using mbr_partition_total [of 0 buf] mbr_partition_total [of 1 buf] by auto
  let ?start = "ucast (StartingLBA p0 + eb_ext st) + pstart" and ?size = "ucast (SizeInLBA p0) :: u64"
  obtain s cs where "PartitionInstallChildHandle env m (HardDrive (eb_num st) ?start ?size MBR_TYPE_PCAT (replicate 16 0))
      (?start - pstart) (?start - pstart + ?size - 1) MBR_SIZE (OSIndicator p0 = EFI_PARTITION) (eb_children st) = Some (s, cs)"
    using install_total [OF MBR_SIZE_nz] by blast
  then show ?thesis
    using Inr p by (simp add: ebr_step_def Let_def)
qed

lemma ebr_run_total:
  assumes "full_reads dio d" "512 \<le> unat (BlockSize m)"
  shows "\<exists>r. ebr_run fuel env dio d m pstart psize st = Some r"
proof (induction fuel arbitrary: st)
  case (Suc fuel)
  obtain r where "ebr_step env dio d m pstart psize st = Some r"
    using ebr_step_total [OF assms] by blast
  then show ?case
    using Suc by (cases r) auto
qed simp

lemma mbr_total:
  assumes "full_reads dio d" "512 \<le> unat (BlockSize m)"
  shows "\<exists>r. PartitionInstallMbrChildHandles fuel env dio d m path cs = Some r"
proof (cases "pe_pool env (unat (BlockSize m)) \<and> (\<exists>buf. sector0 dio d m = Inr buf)")
  case False
  then show ?thesis
    by (cases "sector0 dio d m") (auto simp: PartitionInstallMbrChildHandles_def sector0_def)
next
  case True
  then obtain buf where buf: "sector0 dio d m = Inr buf" "pe_pool env (unat (BlockSize m))"
    by blast
  then have len: "512 \<le> length buf"
    using assms by (auto simp: full_reads_def sector0_def)
  obtain sig where sig: "rd_range buf 440 4 = Some sig"
    using len by (simp add: rd_range_def)
  from len show ?thesis
  proof (cases rule: valid_mbr_cases [where L = "LastBlock m"])
    case invalid
    then show ?thesis
      using buf by (simp add: PartitionInstallMbrChildHandles_def sector0_def)
  next
    case (valid ps)
    have "\<exists>s cs'. install_primary env m (sig @ replicate 12 0) ps 1 EFI_NOT_FOUND cs = Some (s, cs')"
      by (rule install_primary_total)
    then show ?thesis
      using buf valid sig ebr_run_total [OF assms]
      by (cases "parent_hd path") (auto simp: PartitionInstallMbrChildHandles_def sector0_def)
  qed
qed

text \<open>
  C9. On a disk whose first sector passes the validity check and whose entries do not wrap at 32
  bits, the routine returns, and the children it installs are well formed, lie on the disk and have
  pairwise disjoint windows; it reports success only when there is a child.
\<close>

theorem mbr_children_disjoint:
  assumes "sector0 dio d m = Inr buf" "512 \<le> length buf" "pe_pool env (unat (BlockSize m))"
    and "parent_hd path = None" "512 dvd unat (BlockSize m)" "0 < unat (BlockSize m)"
    and "(unat (LastBlock m) + 1) * unat (BlockSize m) < 2 ^ 63"
    and "\<forall>ps. mbr_table buf = Some ps \<longrightarrow> (\<forall>p\<in>set ps. no_wrap p)"
  shows "\<exists>s cs. PartitionInstallMbrChildHandles fuel env dio d m path [] = Some (Inr (s, cs)) \<and>
     sorted_wrt window_apart cs \<and> (s = EFI_SUCCESS \<longrightarrow> cs \<noteq> []) \<and>
     (\<forall>c\<in>set cs. child_ok c \<and> unat (ch_end c) \<le> (unat (LastBlock m) + 1) * unat (BlockSize m))"
  using assms(2)
proof (cases rule: valid_mbr_cases [where L = "LastBlock m"])
  case invalid
  then show ?thesis
    using assms(1,3) by (simp add: PartitionInstallMbrChildHandles_def sector0_def)
next
  case (valid ps)
  let ?bs = "unat (BlockSize m)"
  obtain sig where sig: "rd_range buf 440 4 = Some sig"
    using assms(2) by (simp add: rd_range_def)
  obtain s cs where run: "install_primary env m (sig @ replicate 12 0) ps 1 EFI_NOT_FOUND [] = Some (s, cs)"
    using install_primary_total by blast
  have nw: "\<forall>p\<in>set ps. no_wrap p"
    using assms(8) valid(2) by blast
  note apart = valid_parts_apart [OF valid(3) nw]
  have lim: "\<forall>x\<in>set (used_extents ps). (snd x + 1) * ?bs < 2 ^ 63"
  proof
    fix x
    assume "x \<in> set (used_extents ps)"
    then have "snd x + 1 \<le> unat (LastBlock m) + 1"
      using apart(2) by auto
    then have "(snd x + 1) * ?bs \<le> (unat (LastBlock m) + 1) * ?bs"
      by (rule mult_le_mono1)
    then show "(snd x + 1) * ?bs < 2 ^ 63"
      using assms(7) by linarith
  qed
  note cov = install_primary_covers [where xs = "[]", OF run lim assms(5,6) covers_Nil]
  have "sorted_wrt window_apart cs"
    using covers_windows [OF cov(1)] apart(1) by simp
  moreover have "\<forall>c\<in>set cs. child_ok c \<and> unat (ch_end c) \<le> (unat (LastBlock m) + 1) * ?bs"
    using covers_bound [where n = "unat (LastBlock m) + 1", OF cov(1)] apart(2) by simp
  moreover have "PartitionInstallMbrChildHandles fuel env dio d m path [] = Some (Inr (s, cs))"
    using assms(1,3,4) valid sig run by (simp add: PartitionInstallMbrChildHandles_def sector0_def)
  ultimately show ?thesis
    using cov(2) by auto
qed

definition ok_env :: part_env where
  "ok_env = \<lparr>pe_pool = (\<lambda>n. True), pe_path = (\<lambda>n. True), pe_install = (\<lambda>c. EFI_SUCCESS), pe_open = (\<lambda>c. EFI_SUCCESS)\<rparr>"

text \<open>A sector with the given partition table and the signature.\<close>

definition part_bytes :: "byte \<Rightarrow> u32 \<Rightarrow> u32 \<Rightarrow> byte list" where
  "part_bytes os start blocks = [0, 0, 0, 0, os, 0, 0, 0] @ to_le 4 start @ to_le 4 blocks"

definition demo_sector :: "byte list list \<Rightarrow> byte list" where
  "demo_sector ps = replicate 446 0 @ concat ps @ [0x55, 0xAA]"

lemma mbr_partition_at:
  assumes "length pre = 446 + 16 * i"
  shows "mbr_partition (pre @ part_bytes os start blocks @ post) i =
    Some \<lparr>BootIndicator = 0, OSIndicator = os, StartingLBA = start, SizeInLBA = blocks\<rparr>"
proof -
  let ?buf = "pre @ part_bytes os start blocks @ post"
  have "?buf = pre @ [0, 0, 0, 0, os, 0, 0, 0] @ to_le 4 start @ to_le 4 blocks @ post"
    by (simp add: part_bytes_def)
  moreover have "rd ?buf (446 + 16 * i) = Some 0"
    using rd_append [of "446 + 16 * i" pre 0 "[0, 0, 0, os, 0, 0, 0] @ to_le 4 start @ to_le 4 blocks @ post"] assms
    by (simp add: part_bytes_def)
  moreover have "rd ?buf (446 + 16 * i + 4) = Some os"
    using rd_append [of "446 + 16 * i + 4" "pre @ [0, 0, 0, 0]" os "[0, 0, 0] @ to_le 4 start @ to_le 4 blocks @ post"] assms
    by (simp add: part_bytes_def)
  moreover have "le32 ?buf (446 + 16 * i + 8) = Some start"
    using le32_append [of "446 + 16 * i + 8" "pre @ [0, 0, 0, 0, os, 0, 0, 0]" start "to_le 4 blocks @ post"] assms
    by (simp add: part_bytes_def)
  moreover have "le32 ?buf (446 + 16 * i + 12) = Some blocks"
    using le32_append [of "446 + 16 * i + 12" "pre @ [0, 0, 0, 0, os, 0, 0, 0] @ to_le 4 start" blocks post] assms
    by (simp add: part_bytes_def)
  ultimately show ?thesis
    by (simp add: mbr_partition_def Let_def)
qed

lemma length_part_bytes [simp]: "length (part_bytes os start blocks) = 16"
  by (simp add: part_bytes_def)

text \<open>The table, the signature and the disk signature of a sector with four given entries.\<close>

lemma demo_sector_fields:
  fixes o0 o1 o2 o3 s0 s1 s2 s3 n0 n1 n2 n3
  defines "buf \<equiv> demo_sector [part_bytes o0 s0 n0, part_bytes o1 s1 n1, part_bytes o2 s2 n2, part_bytes o3 s3 n3]"
  shows "mbr_table buf = Some [\<lparr>BootIndicator = 0, OSIndicator = o0, StartingLBA = s0, SizeInLBA = n0\<rparr>,
      \<lparr>BootIndicator = 0, OSIndicator = o1, StartingLBA = s1, SizeInLBA = n1\<rparr>,
      \<lparr>BootIndicator = 0, OSIndicator = o2, StartingLBA = s2, SizeInLBA = n2\<rparr>,
      \<lparr>BootIndicator = 0, OSIndicator = o3, StartingLBA = s3, SizeInLBA = n3\<rparr>]"
    and "le16 buf 510 = Some MBR_SIGNATURE" and "rd_range buf 440 4 = Some [0, 0, 0, 0]" and "length buf = 512"
proof -
  let ?z = "replicate 446 0 :: byte list"
  let ?e0 = "part_bytes o0 s0 n0" and ?e1 = "part_bytes o1 s1 n1" and ?e2 = "part_bytes o2 s2 n2" and ?e3 = "part_bytes o3 s3 n3"
  have buf: "buf = ?z @ ?e0 @ ?e1 @ ?e2 @ ?e3 @ [0x55, 0xAA]"
    by (simp add: buf_def demo_sector_def)
  show "length buf = 512"
    by (simp add: buf)
  have "mbr_partition buf 0 = Some \<lparr>BootIndicator = 0, OSIndicator = o0, StartingLBA = s0, SizeInLBA = n0\<rparr>"
    using mbr_partition_at [of ?z 0] by (simp add: buf)
  moreover have "mbr_partition buf 1 = Some \<lparr>BootIndicator = 0, OSIndicator = o1, StartingLBA = s1, SizeInLBA = n1\<rparr>"
    using mbr_partition_at [of "?z @ ?e0" 1] by (simp add: buf)
  moreover have "mbr_partition buf 2 = Some \<lparr>BootIndicator = 0, OSIndicator = o2, StartingLBA = s2, SizeInLBA = n2\<rparr>"
    using mbr_partition_at [of "?z @ ?e0 @ ?e1" 2] by (simp add: buf)
  moreover have "mbr_partition buf 3 = Some \<lparr>BootIndicator = 0, OSIndicator = o3, StartingLBA = s3, SizeInLBA = n3\<rparr>"
    using mbr_partition_at [of "?z @ ?e0 @ ?e1 @ ?e2" 3] by (simp add: buf)
  ultimately show "mbr_table buf = Some [\<lparr>BootIndicator = 0, OSIndicator = o0, StartingLBA = s0, SizeInLBA = n0\<rparr>,
      \<lparr>BootIndicator = 0, OSIndicator = o1, StartingLBA = s1, SizeInLBA = n1\<rparr>,
      \<lparr>BootIndicator = 0, OSIndicator = o2, StartingLBA = s2, SizeInLBA = n2\<rparr>,
      \<lparr>BootIndicator = 0, OSIndicator = o3, StartingLBA = s3, SizeInLBA = n3\<rparr>]"
    by (simp add: mbr_table_def)
  have "rd_range buf 510 2 = Some [0x55, 0xAA]"
    unfolding buf rd_range_def by (simp add: part_bytes_def)
  then show "le16 buf 510 = Some MBR_SIGNATURE"
    by (simp add: le16_def le_value_def MBR_SIGNATURE_def)
  have "replicate 446 (0::byte) = replicate 440 0 @ [0, 0, 0, 0] @ [0, 0]"
    by (simp add: numeral_eq_Suc)
  then show "rd_range buf 440 4 = Some [0, 0, 0, 0]"
    using rd_range_append [of 440 "replicate 440 (0::byte)" 4 "[0, 0, 0, 0]" "[0, 0] @ ?e0 @ ?e1 @ ?e2 @ ?e3 @ [0x55, 0xAA]"]
    by (simp add: buf)
qed

definition two_parts :: "byte list" where
  "two_parts = demo_sector [part_bytes 7 1 2, part_bytes 0xEF 3 2, part_bytes 0 0 0, part_bytes 0 0 0]"

definition demo_media :: media where
  "demo_media = \<lparr>MediaId = 0, BlockSize = 512, LastBlock = 4\<rparr>"

lemma sector0_flat: "length buf = 512 \<Longrightarrow> sector0 flat_dio (buf @ rest) demo_media = Inr buf"
  by (simp add: sector0_def flat_dio_def demo_media_def)

lemma mbr_children_disjoint_witness:
  "\<exists>s cs. PartitionInstallMbrChildHandles 0 ok_env flat_dio (two_parts @ replicate 2048 0) demo_media [] [] = Some (Inr (s, cs)) \<and>
     sorted_wrt window_apart cs \<and> (s = EFI_SUCCESS \<longrightarrow> cs \<noteq> []) \<and> (\<forall>c\<in>set cs. child_ok c \<and> unat (ch_end c) \<le> 2560)"
proof -
  note f = demo_sector_fields [of 7 1 2 "0xEF" 3 2 0 0 0 0 0 0, folded two_parts_def]
  have "\<forall>ps. mbr_table two_parts = Some ps \<longrightarrow> (\<forall>p\<in>set ps. no_wrap p)"
    using f(1) by (auto simp: no_wrap_def)
  then show ?thesis
    using mbr_children_disjoint [where env = ok_env and path = "[]" and fuel = 0, OF sector0_flat [OF f(4), of "replicate 2048 0"]] f(4)
    by (simp add: ok_env_def parent_hd_def demo_media_def)
qed

definition wrap_part :: "byte list" where
  "wrap_part = demo_sector [part_bytes 7 0xFFFFFFFF 2, part_bytes 0 0 0, part_bytes 0 0 0, part_bytes 0 0 0]"

text \<open>
  The check of an entry against the end of the disk compares a sum that wraps at 32 bits. A
  record whose only entry starts beyond the disk and wraps to an end on it is accepted, and the
  child that is installed for it starts beyond the disk's last block.
\<close>

theorem mbr_wrap_is_accepted:
  assumes "mbr_table buf = Some [p, q, q, q]" "unused_part q" "\<not> unused_part p" "OSIndicator p \<noteq> PMBR_GPT_PARTITION"
    and "le16 buf 510 = Some MBR_SIGNATURE" "rd_range buf 440 4 = Some sig"
    and "unat (LastBlock m) < unat (StartingLBA p)" "2 ^ 32 < unat (StartingLBA p) + unat (SizeInLBA p)"
    and "unat (StartingLBA p) + unat (SizeInLBA p) \<le> 2 ^ 32 + unat (LastBlock m) + 1"
    and "sector0 dio d m = Inr buf" "BlockSize m = 512" "parent_hd path = None"
    and "pe_pool env = (\<lambda>n. True)" "pe_path env = (\<lambda>n. True)" "pe_install env = (\<lambda>c. EFI_SUCCESS)"
      "pe_open env = (\<lambda>c. EFI_SUCCESS)"
  shows "\<exists>c. PartitionInstallMbrChildHandles fuel env dio d m path [] = Some (Inr (EFI_SUCCESS, [c])) \<and>
     unat (ch_start c) > unat (LastBlock m) * 512 \<and> child_ok c"
proof -
  have lt: "unat (StartingLBA p) < 2 ^ 32" "unat (SizeInLBA p) < 2 ^ 32"
    using word_unat_lt [of "StartingLBA p"] word_unat_lt [of "SizeInLBA p"] by simp_all
  let ?sum = "unat (StartingLBA p) + unat (SizeInLBA p)"
  have "ending_lba p = of_nat (?sum - 1)"
    using assms(8) by (simp add: ending_lba_def of_nat_diff)
  also have "\<dots> = of_nat ((?sum - 1 - 2 ^ 32) + 2 ^ 32)"
    using assms(8) by simp
  also have "\<dots> = of_nat (?sum - 1 - 2 ^ 32)"
    by (simp only: of_nat_add) simp
  finally have "unat (ending_lba p) = ?sum - 1 - 2 ^ 32"
    using lt by (simp add: unat_small)
  then have e: "\<not> ucast (ending_lba p) > LastBlock m"
    using assms(9) by (simp add: word_less_nat_alt)
  have v: "PartitionValidMbr buf (LastBlock m) = Some True"
    using assms(1,2,3,5) e by (simp add: PartitionValidMbr_def)
  let ?start = "ucast (StartingLBA p) :: u64" and ?size = "ucast (SizeInLBA p) :: u64"
  obtain s cs where i: "PartitionInstallChildHandle env m (HardDrive 1 ?start ?size MBR_TYPE_PCAT (sig @ replicate 12 0))
      ?start (?start + ?size - 1) MBR_SIZE (OSIndicator p = EFI_PARTITION) [] = Some (s, cs)"
    using install_total [OF MBR_SIZE_nz] by blast
  then have s: "s = EFI_SUCCESS"
    using assms(13-16) by (auto simp: PartitionInstallChildHandle_def DivU64x32_def Let_def split: bind_splits if_splits)
  have E: "unat (?start + ?size - 1) = ?sum - 1"
    by (rule unat_ucast_sum) (use size_pos [OF assms(3)] in simp)
  have le: "unat ?start \<le> unat (?start + ?size - 1)"
    unfolding E using size_pos [OF assms(3)] by simp
  have lim: "(unat (?start + ?size - 1) + 1) * unat (BlockSize m) < 2 ^ 63"
    unfolding E using lt assms(11) by simp
  have "\<exists>c. cs = [c] \<and> realises 512 c (unat ?start, unat (?start + ?size - 1))"
    using install_child [OF i le lim] E assms(11) s by (auto simp: MBR_SIZE_def)
  then obtain c where c: "cs = [c]" "realises 512 c (unat ?start, unat (?start + ?size - 1))"
    by blast
  have "install_primary env m (sig @ replicate 12 0) [p, q, q, q] 1 EFI_NOT_FOUND [] = Some (EFI_SUCCESS, [c])"
    using i s c(1) assms(2-4) by (simp add: Let_def)
  then have "PartitionInstallMbrChildHandles fuel env dio d m path [] = Some (Inr (EFI_SUCCESS, [c]))"
    using assms(1,6,10,12,13) v by (simp add: PartitionInstallMbrChildHandles_def sector0_def)
  moreover have "unat (ch_start c) > unat (LastBlock m) * 512" "child_ok c"
    using c(2) assms(7) by (simp_all add: realises_def)
  ultimately show ?thesis by blast
qed

lemma mbr_wrap_is_accepted_witness:
  "\<exists>c. PartitionInstallMbrChildHandles 0 ok_env flat_dio (wrap_part @ replicate 2048 0) demo_media [] [] =
     Some (Inr (EFI_SUCCESS, [c])) \<and> unat (ch_start c) > 2048 \<and> child_ok c"
proof -
  note f = demo_sector_fields [of 7 "0xFFFFFFFF" 2 0 0 0 0 0 0 0 0 0, folded wrap_part_def]
  show ?thesis
    using mbr_wrap_is_accepted [where env = ok_env and path = "[]" and fuel = 0, OF f(1) _ _ _ f(2,3) _ _ _ sector0_flat [OF f(4), of "replicate 2048 0"]]
    by (simp add: ok_env_def parent_hd_def demo_media_def unused_part_def PMBR_GPT_PARTITION_def)
qed

text \<open>
  The logical drives that are installed for an extended partition, whatever the disk holds and
  however long the chain is followed, are well formed and lie inside the extended partition.
\<close>

theorem logical_drives_inside:
  assumes "PartitionInstallMbrChildHandles fuel env dio d m path [] = Some r" "parent_hd path = Some (pstart, psize)"
    and "512 dvd unat (BlockSize m)" "0 < unat (BlockSize m)"
    and "unat pstart < 2 ^ 62" "unat psize * unat (BlockSize m) < 2 ^ 62"
  shows "\<forall>c\<in>set (ebr_children_of r). inside (unat psize * unat (BlockSize m)) c"
proof -
  consider "ebr_children_of r = []"
    | "ebr_run fuel env dio d m pstart psize \<lparr>eb_ext = 0, eb_num = 1, eb_found = EFI_NOT_FOUND, eb_children = []\<rparr> = Some r"
    using assms(1,2) by (auto simp: PartitionInstallMbrChildHandles_def split: if_splits sum.splits bind_splits)
  then show ?thesis
  proof cases
    case 2
    then show ?thesis
      by (rule ebr_run_inside [OF _ assms(3-6)]) simp
  qed simp
qed

text \<open>An extended partition of eight blocks at block 100; its first record links to itself at block 1.\<close>

definition loop_sector :: "byte list" where
  "loop_sector = demo_sector [part_bytes 7 1 2, part_bytes 5 1 4, part_bytes 0 0 0, part_bytes 0 0 0]"

definition loop_media :: media where
  "loop_media = \<lparr>MediaId = 0, BlockSize = 512, LastBlock = 7\<rparr>"

definition loop_path :: "dp_node list" where
  "loop_path = [DpMedia (HardDrive 1 100 8 1 [])]"

lemma logical_drives_inside_witness:
  "\<exists>r. PartitionInstallMbrChildHandles 2 ok_env flat_dio (loop_sector @ loop_sector) loop_media loop_path [] = Some r \<and>
     (\<forall>c\<in>set (ebr_children_of r). inside 4096 c)"
proof -
  have "\<exists>r. PartitionInstallMbrChildHandles 2 ok_env flat_dio (loop_sector @ loop_sector) loop_media loop_path [] = Some r"
    by (rule mbr_total [OF full_reads_flat]) (simp add: loop_media_def)
  then obtain r where r: "PartitionInstallMbrChildHandles 2 ok_env flat_dio (loop_sector @ loop_sector) loop_media loop_path [] = Some r"
    by blast
  show ?thesis
    using logical_drives_inside [OF r, of 100 8] r by (simp add: loop_media_def loop_path_def parent_hd_def)
qed

text \<open>
  C13. The chain of extended boot records is followed without a bound: when the record at some block
  describes an ordinary drive and links to itself, the loop runs for every number of rounds and
  never returns. The test against self-reference only excludes the link to block zero.
\<close>

theorem ebr_chain_never_ends:
  assumes "dio_read dio d (MediaId m) (MultU64x32 (ucast a) (BlockSize m)) (unat (BlockSize m)) = Inr buf"
    and "mbr_partition buf 0 = Some p0" "mbr_partition buf 1 = Some p1"
    and "SizeInLBA p0 \<noteq> 0" "\<not> is_extended p0" "is_extended p1" "StartingLBA p1 = a" "a \<noteq> 0" "ucast a < psize"
    and "\<not> ucast (StartingLBA p0 + a) + pstart + ucast (SizeInLBA p0) - 1 \<ge> pstart + psize"
    and "\<not> ucast (StartingLBA p0 + a) + pstart \<le> pstart" "eb_ext st = a"
  shows "\<exists>st'. ebr_run fuel env dio d m pstart psize st = Some (Inl st')"
  using assms(12)
proof (induction fuel arbitrary: st)
  case 0
  then show ?case by simp
next
  case (Suc fuel)
  let ?start = "ucast (StartingLBA p0 + a) + pstart"
  obtain s cs where "PartitionInstallChildHandle env m (HardDrive (eb_num st) ?start (ucast (SizeInLBA p0)) MBR_TYPE_PCAT (replicate 16 0))
      (?start - pstart) (?start - pstart + ucast (SizeInLBA p0) - 1) MBR_SIZE (OSIndicator p0 = EFI_PARTITION) (eb_children st) = Some (s, cs)"
    using install_total [OF MBR_SIZE_nz] by blast
  then obtain st1 where st1: "ebr_step env dio d m pstart psize st = Some (Inl st1)" "eb_ext st1 = a"
    using Suc.prems assms(1-11) by (auto simp: ebr_step_def Let_def ebr_while_def)
  then show ?case
    using Suc.IH [OF st1(2)] by simp
qed

lemma ebr_chain_never_ends_witness:
  "\<forall>fuel. \<exists>st'. ebr_run fuel ok_env flat_dio (loop_sector @ loop_sector) loop_media 100 8
     \<lparr>eb_ext = 1, eb_num = 1, eb_found = EFI_NOT_FOUND, eb_children = []\<rparr> = Some (Inl st')"
proof
  fix fuel
  note f = demo_sector_fields [of 7 1 2 5 1 4 0 0 0 0 0 0, folded loop_sector_def]
  have tab: "mbr_partition loop_sector 0 = Some \<lparr>BootIndicator = 0, OSIndicator = 7, StartingLBA = 1, SizeInLBA = 2\<rparr>"
    "mbr_partition loop_sector 1 = Some \<lparr>BootIndicator = 0, OSIndicator = 5, StartingLBA = 1, SizeInLBA = 4\<rparr>"
    using f(1) by (auto simp: mbr_table_def split: bind_splits)
  have "dio_read flat_dio (loop_sector @ loop_sector) (MediaId loop_media) (MultU64x32 (ucast (1 :: u32)) (BlockSize loop_media))
      (unat (BlockSize loop_media)) = Inr loop_sector"
    using f(4) by (simp add: flat_dio_def loop_media_def MultU64x32_def)
  then show "\<exists>st'. ebr_run fuel ok_env flat_dio (loop_sector @ loop_sector) loop_media 100 8
     \<lparr>eb_ext = 1, eb_num = 1, eb_found = EFI_NOT_FOUND, eb_children = []\<rparr> = Some (Inl st')"
    by (rule ebr_chain_never_ends [OF _ tab]) (simp_all add: is_extended_def EXTENDED_DOS_PARTITION_def EXTENDED_WINDOWS_PARTITION_def)
qed

end
