(* ===== verification/Gpt.thy ===== *)
theory Gpt
  imports Mbr
begin

text \<open>
  \<^verbatim>\<open>PartitionDxe/Gpt.c\<close>: the GUID partition table. A header is read into a buffer of one block and
  checked by its CRC, its own address and the CRC of the entry array; a damaged table is rewritten
  from the other copy; the entries are checked against the usable range and each other, and a child
  is installed for each entry that passes.

  The CRC of the boot services and the two partition type GUIDs come from outside the repository:
  they are the record \<open>gpt_ext\<close>. \<open>umax\<close> is \<^verbatim>\<open>MAX_UINTN\<close>, whose value depends on the architecture.
\<close>

section \<open>Headers\<close>

record gpt_header =
  h_Signature :: u64
  h_Revision :: u32
  h_HeaderSize :: u32
  h_CRC32 :: u32
  h_Reserved :: u32
  h_MyLBA :: u64
  h_AlternateLBA :: u64
  h_FirstUsableLBA :: u64
  h_LastUsableLBA :: u64
  h_DiskGUID :: "byte list"
  h_PartitionEntryLBA :: u64
  h_NumberOfPartitionEntries :: u32
  h_SizeOfPartitionEntry :: u32
  h_PartitionEntryArrayCRC32 :: u32

definition sizeof_header :: nat where "sizeof_header = 92"
definition sizeof_entry :: u32 where "sizeof_entry = 128"
definition sizeof_status :: nat where "sizeof_status = 3"
definition EFI_PTAB_HEADER_ID :: u64 where "EFI_PTAB_HEADER_ID = 0x5452415020494645"
definition PRIMARY_PART_HEADER_LBA :: u64 where "PRIMARY_PART_HEADER_LBA = 1"
definition MBR_TYPE_EFI_PARTITION_TABLE_HEADER :: byte where "MBR_TYPE_EFI_PARTITION_TABLE_HEADER = 2"

definition zero_header :: gpt_header where
  "zero_header = \<lparr>h_Signature = 0, h_Revision = 0, h_HeaderSize = 0, h_CRC32 = 0, h_Reserved = 0, h_MyLBA = 0,
     h_AlternateLBA = 0, h_FirstUsableLBA = 0, h_LastUsableLBA = 0, h_DiskGUID = replicate 16 0,
     h_PartitionEntryLBA = 0, h_NumberOfPartitionEntries = 0, h_SizeOfPartitionEntry = 0,
     h_PartitionEntryArrayCRC32 = 0\<rparr>"

text \<open>The structure in memory.\<close>

definition header_of :: "byte list \<Rightarrow> gpt_header option" where
  "header_of b =
     do {
       sig \<leftarrow> le64 b 0; rev \<leftarrow> le32 b 8; hsz \<leftarrow> le32 b 12; crc \<leftarrow> le32 b 16; res \<leftarrow> le32 b 20;
       my \<leftarrow> le64 b 24; alt \<leftarrow> le64 b 32; fu \<leftarrow> le64 b 40; lu \<leftarrow> le64 b 48; guid \<leftarrow> rd_range b 56 16;
       pe \<leftarrow> le64 b 72; n \<leftarrow> le32 b 80; sz \<leftarrow> le32 b 84; acrc \<leftarrow> le32 b 88;
       Some \<lparr>h_Signature = sig, h_Revision = rev, h_HeaderSize = hsz, h_CRC32 = crc, h_Reserved = res, h_MyLBA = my,
         h_AlternateLBA = alt, h_FirstUsableLBA = fu, h_LastUsableLBA = lu, h_DiskGUID = guid,
         h_PartitionEntryLBA = pe, h_NumberOfPartitionEntries = n, h_SizeOfPartitionEntry = sz,
         h_PartitionEntryArrayCRC32 = acrc\<rparr> }"

definition header_bytes :: "gpt_header \<Rightarrow> byte list" where
  "header_bytes h =
     to_le 8 (h_Signature h) @ to_le 4 (h_Revision h) @ to_le 4 (h_HeaderSize h) @ to_le 4 (h_CRC32 h) @
     to_le 4 (h_Reserved h) @ to_le 8 (h_MyLBA h) @ to_le 8 (h_AlternateLBA h) @ to_le 8 (h_FirstUsableLBA h) @
     to_le 8 (h_LastUsableLBA h) @ h_DiskGUID h @ to_le 8 (h_PartitionEntryLBA h) @
     to_le 4 (h_NumberOfPartitionEntries h) @ to_le 4 (h_SizeOfPartitionEntry h) @
     to_le 4 (h_PartitionEntryArrayCRC32 h)"

record gpt_ext =
  gx_crc :: "byte list \<Rightarrow> efi_status + u32"
  gx_unused :: "byte list"
  gx_esp :: "byte list"

section \<open>Checksums\<close>

text \<open>The buffer is changed in place: its CRC field is cleared and then holds the computed value.\<close>

definition PartitionCheckCrcAltSize :: "gpt_ext \<Rightarrow> nat \<Rightarrow> nat \<Rightarrow> byte list \<Rightarrow> (bool \<times> byte list) option" where
  "PartitionCheckCrcAltSize gx MaxSize Size buf =
     (if Size = 0 then Some (False, buf)
      else if MaxSize \<noteq> 0 \<and> Size > MaxSize then Some (False, buf)
      else do {
        OrgCrc \<leftarrow> le32 buf 16;
        buf1 \<leftarrow> wr_range buf 16 (to_le 4 (0 :: u32));
        data \<leftarrow> rd_range buf1 0 Size;
        (case gx_crc gx data of
            Inl e \<Rightarrow> Some (False, buf1)
          | Inr Crc \<Rightarrow> do {
              buf2 \<leftarrow> wr_range buf1 16 (to_le 4 Crc);
              Some (OrgCrc = Crc, buf2) }) })"

definition PartitionCheckCrc :: "gpt_ext \<Rightarrow> nat \<Rightarrow> byte list \<Rightarrow> (bool \<times> byte list) option" where
  "PartitionCheckCrc gx MaxSize buf =
     do { hsz \<leftarrow> le32 buf 12; PartitionCheckCrcAltSize gx MaxSize (unat hsz) buf }"

text \<open>The status of the CRC service is not looked at; when it fails the stored value is indeterminate.\<close>

definition PartitionSetCrcAltSize :: "gpt_ext \<Rightarrow> nat \<Rightarrow> byte list \<Rightarrow> byte list option" where
  "PartitionSetCrcAltSize gx Size buf =
     do {
       buf1 \<leftarrow> wr_range buf 16 (to_le 4 (0 :: u32));
       data \<leftarrow> rd_range buf1 0 Size;
       (case gx_crc gx data of Inl e \<Rightarrow> None | Inr Crc \<Rightarrow> wr_range buf1 16 (to_le 4 Crc)) }"

definition PartitionSetCrc :: "gpt_ext \<Rightarrow> byte list \<Rightarrow> byte list option" where
  "PartitionSetCrc gx buf = do { hsz \<leftarrow> le32 buf 12; PartitionSetCrcAltSize gx (unat hsz) buf }"

section \<open>Validation of a table\<close>

text \<open>The product of two \<^verbatim>\<open>UINT32\<close>: it wraps at 32 bits on every architecture.\<close>

definition entry_array_size :: "gpt_header \<Rightarrow> u32" where
  "entry_array_size h = h_NumberOfPartitionEntries h * h_SizeOfPartitionEntry h"

definition PartitionCheckGptEntryArrayCRC ::
  "gpt_ext \<Rightarrow> part_env \<Rightarrow> 'd disk_io \<Rightarrow> 'd \<Rightarrow> media \<Rightarrow> gpt_header \<Rightarrow> bool"
where
  "PartitionCheckGptEntryArrayCRC gx env dio d m h =
     (if \<not> pe_pool env (unat (entry_array_size h)) then False
      else (case dio_read dio d (MediaId m) (MultU64x32 (h_PartitionEntryLBA h) (BlockSize m)) (unat (entry_array_size h)) of
          Inl e \<Rightarrow> False
        | Inr ptr \<Rightarrow> (case gx_crc gx ptr of Inl e \<Rightarrow> False | Inr Crc \<Rightarrow> h_PartitionEntryArrayCRC32 h = Crc)))"

text \<open>
  The result and the caller's header, which is overwritten before the CRC of the entry array is
  checked.
\<close>

definition PartitionValidGptTable ::
  "gpt_ext \<Rightarrow> u64 \<Rightarrow> part_env \<Rightarrow> 'd disk_io \<Rightarrow> 'd \<Rightarrow> media \<Rightarrow> u64 \<Rightarrow> gpt_header \<Rightarrow> (bool \<times> gpt_header) option"
where
  "PartitionValidGptTable gx umax env dio d m Lba PartHeader =
     (if \<not> pe_pool env (unat (BlockSize m)) then Some (False, PartHeader)
      else (case dio_read dio d (MediaId m) (MultU64x32 Lba (BlockSize m)) (unat (BlockSize m)) of
          Inl e \<Rightarrow> Some (False, PartHeader)
        | Inr buf \<Rightarrow> do {
            sig \<leftarrow> le64 buf 0;
            if sig \<noteq> EFI_PTAB_HEADER_ID then Some (False, PartHeader)
            else do {
              (ok, buf1) \<leftarrow> PartitionCheckCrc gx (unat (BlockSize m)) buf;
              if \<not> ok then Some (False, PartHeader)
              else do {
                h \<leftarrow> header_of buf1;
                if h_MyLBA h \<noteq> Lba \<or> h_SizeOfPartitionEntry h < sizeof_entry then Some (False, PartHeader)
                else do {
                  q \<leftarrow> DivU64x32 umax (h_SizeOfPartitionEntry h);
                  if ucast (h_NumberOfPartitionEntries h) > q then Some (False, PartHeader)
                  else Some (PartitionCheckGptEntryArrayCRC gx env dio d m h, h) } } } }))"

section \<open>Restoring a table\<close>

definition PartitionRestoreGptTable ::
  "gpt_ext \<Rightarrow> part_env \<Rightarrow> 'd disk_io \<Rightarrow> 'd \<Rightarrow> media \<Rightarrow> gpt_header \<Rightarrow> (bool \<times> 'd) option"
where
  "PartitionRestoreGptTable gx env dio d m h =
     (if \<not> pe_pool env (unat (BlockSize m)) then Some (False, d)
      else do {
        let PEntryLBA = (if h_MyLBA h = PRIMARY_PART_HEADER_LBA then h_LastUsableLBA h + 1 else PRIMARY_PART_HEADER_LBA + 1);
        let h' = h\<lparr>h_MyLBA := h_AlternateLBA h, h_AlternateLBA := h_MyLBA h, h_PartitionEntryLBA := PEntryLBA\<rparr>;
        hdr \<leftarrow> wr_range (replicate (unat (BlockSize m)) 0) 0 (header_bytes h');
        buf \<leftarrow> PartitionSetCrc gx hdr;
        let (s, d1) = dio_write dio d (MediaId m) (MultU64x32 (h_MyLBA h') (BlockSize m)) buf;
        if EFI_ERROR s then Some (False, d1)
        else if \<not> pe_pool env (unat (entry_array_size h)) then Some (False, d1)
        else (case dio_read dio d1 (MediaId m) (MultU64x32 (h_PartitionEntryLBA h) (BlockSize m)) (unat (entry_array_size h)) of
            Inl e \<Rightarrow> Some (False, d1)
          | Inr ptr \<Rightarrow>
              (let (s2, d2) = dio_write dio d1 (MediaId m) (MultU64x32 PEntryLBA (BlockSize m)) ptr in
               Some (\<not> EFI_ERROR s2, d2))) })"

section \<open>Checking the entries\<close>

record entry_status =
  OutOfRange :: bool
  Overlap :: bool
  OsSpecific :: bool

definition clear_status :: entry_status where
  "clear_status = \<lparr>OutOfRange = False, Overlap = False, OsSpecific = False\<rparr>"

text \<open>Fields of the entry at an index, read where the code reads them.\<close>

definition entry_type :: "gpt_header \<Rightarrow> byte list \<Rightarrow> nat \<Rightarrow> byte list option" where
  "entry_type h arr i = rd_range arr (i * unat (h_SizeOfPartitionEntry h)) 16"

definition entry_guid :: "gpt_header \<Rightarrow> byte list \<Rightarrow> nat \<Rightarrow> byte list option" where
  "entry_guid h arr i = rd_range arr (i * unat (h_SizeOfPartitionEntry h) + 16) 16"

definition entry_start :: "gpt_header \<Rightarrow> byte list \<Rightarrow> nat \<Rightarrow> u64 option" where
  "entry_start h arr i = le64 arr (i * unat (h_SizeOfPartitionEntry h) + 32)"

definition entry_end :: "gpt_header \<Rightarrow> byte list \<Rightarrow> nat \<Rightarrow> u64 option" where
  "entry_end h arr i = le64 arr (i * unat (h_SizeOfPartitionEntry h) + 40)"

definition entry_attr :: "gpt_header \<Rightarrow> byte list \<Rightarrow> nat \<Rightarrow> u64 option" where
  "entry_attr h arr i = le64 arr (i * unat (h_SizeOfPartitionEntry h) + 48)"

definition set_overlap :: "nat \<Rightarrow> entry_status list \<Rightarrow> entry_status list" where
  "set_overlap i st = st[i := (st ! i)\<lparr>Overlap := True\<rparr>]"

fun check_against ::
  "gpt_ext \<Rightarrow> gpt_header \<Rightarrow> byte list \<Rightarrow> u64 \<Rightarrow> u64 \<Rightarrow> nat \<Rightarrow> nat list \<Rightarrow> entry_status list \<Rightarrow> entry_status list option"
where
  "check_against gx h arr lo hi i [] st = Some st"
| "check_against gx h arr lo hi i (j # js) st =
     do {
       ty \<leftarrow> entry_type h arr j;
       if ty = gx_unused gx then check_against gx h arr lo hi i js st
       else do {
         s \<leftarrow> entry_start h arr j;
         e \<leftarrow> entry_end h arr j;
         check_against gx h arr lo hi i js
           (if e \<ge> lo \<and> s \<le> hi then set_overlap j (set_overlap i st) else st) } }"

definition out_of_range :: "gpt_header \<Rightarrow> u64 \<Rightarrow> u64 \<Rightarrow> bool" where
  "out_of_range h s e \<longleftrightarrow>
     s > e \<or> s < h_FirstUsableLBA h \<or> s > h_LastUsableLBA h \<or> e < h_FirstUsableLBA h \<or> e > h_LastUsableLBA h"

fun check_entries ::
  "gpt_ext \<Rightarrow> gpt_header \<Rightarrow> byte list \<Rightarrow> nat list \<Rightarrow> entry_status list \<Rightarrow> entry_status list option"
where
  "check_entries gx h arr [] st = Some st"
| "check_entries gx h arr (i # is) st =
     do {
       ty \<leftarrow> entry_type h arr i;
       if ty = gx_unused gx then check_entries gx h arr is st
       else do {
         s \<leftarrow> entry_start h arr i;
         e \<leftarrow> entry_end h arr i;
         if out_of_range h s e then check_entries gx h arr is (st[i := (st ! i)\<lparr>OutOfRange := True\<rparr>])
         else do {
           a \<leftarrow> entry_attr h arr i;
           let st1 = (if a AND 2 \<noteq> 0 then st[i := (st ! i)\<lparr>OsSpecific := True\<rparr>] else st);
           st2 \<leftarrow> check_against gx h arr s e i is st1;
           check_entries gx h arr is st2 } } }"

definition PartitionCheckGptEntry :: "gpt_ext \<Rightarrow> gpt_header \<Rightarrow> byte list \<Rightarrow> entry_status list option" where
  "PartitionCheckGptEntry gx h arr =
     (let n = unat (h_NumberOfPartitionEntries h) in
      check_entries gx h arr [0..<n] (replicate n clear_status))"

section \<open>Installing the children\<close>

fun install_entries ::
  "gpt_ext \<Rightarrow> part_env \<Rightarrow> media \<Rightarrow> gpt_header \<Rightarrow> byte list \<Rightarrow> entry_status list \<Rightarrow> nat list \<Rightarrow> child list \<Rightarrow> child list option"
where
  "install_entries gx env m h arr st [] cs = Some cs"
| "install_entries gx env m h arr st (i # is) cs =
     do {
       ty \<leftarrow> entry_type h arr i;
       if ty = gx_unused gx \<or> OutOfRange (st ! i) \<or> Overlap (st ! i) \<or> OsSpecific (st ! i)
       then install_entries gx env m h arr st is cs
       else do {
         s \<leftarrow> entry_start h arr i;
         e \<leftarrow> entry_end h arr i;
         g \<leftarrow> entry_guid h arr i;
         (r, cs') \<leftarrow> PartitionInstallChildHandle env m
           (HardDrive (of_nat i + 1) s (e - s + 1) MBR_TYPE_EFI_PARTITION_TABLE_HEADER g) s e (BlockSize m) (ty = gx_esp gx) cs;
         install_entries gx env m h arr st is cs' } }"

text \<open>The part of the routine that follows the choice of the header.\<close>

definition gpt_install ::
  "gpt_ext \<Rightarrow> part_env \<Rightarrow> 'd disk_io \<Rightarrow> 'd \<Rightarrow> media \<Rightarrow> gpt_header \<Rightarrow> child list \<Rightarrow> (efi_status \<times> child list) option"
where
  "gpt_install gx env dio d m h cs =
     (if \<not> pe_pool env (unat (entry_array_size h)) then Some (EFI_NOT_FOUND, cs)
      else (case dio_read dio d (MediaId m) (MultU64x32 (h_PartitionEntryLBA h) (BlockSize m)) (unat (entry_array_size h)) of
          Inl e \<Rightarrow> Some (e, cs)
        | Inr arr \<Rightarrow>
            if \<not> pe_pool env (unat (h_NumberOfPartitionEntries h) * sizeof_status) then Some (EFI_NOT_FOUND, cs)
            else do {
              st \<leftarrow> PartitionCheckGptEntry gx h arr;
              cs' \<leftarrow> install_entries gx env m h arr st [0..<unat (h_NumberOfPartitionEntries h)] cs;
              Some (EFI_SUCCESS, cs') }))"

text \<open>
  The choice of the header: the primary table, with the backup restored when it is damaged, or the
  primary table as it reads after a restoration from the backup. \<open>None\<close> in the second component:
  neither is valid.
\<close>

definition gpt_tables ::
  "gpt_ext \<Rightarrow> u64 \<Rightarrow> part_env \<Rightarrow> 'd disk_io \<Rightarrow> 'd \<Rightarrow> media \<Rightarrow> ('d \<times> gpt_header option) option"
where
  "gpt_tables gx umax env dio d m =
     do {
       (ok1, ph) \<leftarrow> PartitionValidGptTable gx umax env dio d m PRIMARY_PART_HEADER_LBA zero_header;
       if \<not> ok1 then do {
         (ok2, bh) \<leftarrow> PartitionValidGptTable gx umax env dio d m (LastBlock m) zero_header;
         if \<not> ok2 then Some (d, None)
         else do {
           (r, d1) \<leftarrow> PartitionRestoreGptTable gx env dio d m bh;
           (ok3, ph') \<leftarrow> PartitionValidGptTable gx umax env dio d1 m (h_AlternateLBA bh) ph;
           Some (d1, Some ph') } }
       else do {
         (ok2, bh) \<leftarrow> PartitionValidGptTable gx umax env dio d m (h_AlternateLBA ph) zero_header;
         if \<not> ok2 then do {
           (r, d1) \<leftarrow> PartitionRestoreGptTable gx env dio d m ph;
           (ok3, bh') \<leftarrow> PartitionValidGptTable gx umax env dio d1 m (h_AlternateLBA ph) bh;
           Some (d1, Some ph) }
         else Some (d, Some ph) } }"

fun pmbr_scan :: "byte list \<Rightarrow> nat list \<Rightarrow> bool option" where
  "pmbr_scan buf [] = Some False"
| "pmbr_scan buf (i # is) =
     do {
       p \<leftarrow> mbr_partition buf i;
       if BootIndicator p AND 0x7F = 0 \<and> OSIndicator p = PMBR_GPT_PARTITION \<and> StartingLBA p = 1 then Some True
       else pmbr_scan buf is }"

definition PartitionInstallGptChildHandles ::
  "gpt_ext \<Rightarrow> u64 \<Rightarrow> part_env \<Rightarrow> 'd disk_io \<Rightarrow> 'd \<Rightarrow> media \<Rightarrow> child list \<Rightarrow> (efi_status \<times> 'd \<times> child list) option"
where
  "PartitionInstallGptChildHandles gx umax env dio d m cs =
     (if \<not> pe_pool env (unat (BlockSize m)) then Some (EFI_NOT_FOUND, d, cs)
      else (case dio_read dio d (MediaId m) 0 (unat (BlockSize m)) of
          Inl e \<Rightarrow> Some (e, d, cs)
        | Inr buf \<Rightarrow> do {
            found \<leftarrow> pmbr_scan buf [0..<4];
            if \<not> found then Some (EFI_NOT_FOUND, d, cs)
            else if \<not> pe_pool env sizeof_header then Some (EFI_NOT_FOUND, d, cs)
            else do {
              (d1, t) \<leftarrow> gpt_tables gx umax env dio d m;
              (case t of
                  None \<Rightarrow> Some (EFI_NOT_FOUND, d1, cs)
                | Some h \<Rightarrow> map_option (\<lambda>(s, cs'). (s, d1, cs')) (gpt_install gx env dio d1 m h cs)) } }))"

end
