(* ===== verification/GptFacts.thy ===== *)
theory GptFacts
  imports Gpt
begin

text \<open>
  The GUID partition table: what its children have in common, that restoring a table makes its
  alternate copy valid, how the size guard behaves on 32-bit and on 64-bit machines, and which
  entries are used when a restoration fails. A header and its bytes form a \<open>codec\<close>.
\<close>

section \<open>The header as bytes\<close>

definition wf_header :: "gpt_header \<Rightarrow> bool" where
  "wf_header h \<longleftrightarrow> length (h_DiskGUID h) = 16"

lemma length_header_bytes: "wf_header h \<Longrightarrow> length (header_bytes h) = 92"
  by (simp add: header_bytes_def wf_header_def)

lemma header_of_bytes:
  assumes "wf_header h"
  shows "header_of (header_bytes h @ rest) = Some h"
  using assms by (simp add: header_of_def header_bytes_def wf_header_def field_simps_le)

interpretation gpt_codec: codec header_bytes header_of wf_header
  using header_of_bytes [where rest = "[]"] by unfold_locales simp

lemma header_fields:
  assumes "wf_header h"
  shows "le64 (header_bytes h @ rest) 0 = Some (h_Signature h)" "le32 (header_bytes h @ rest) 12 = Some (h_HeaderSize h)"
    "le32 (header_bytes h @ rest) 16 = Some (h_CRC32 h)"
  using assms by (simp_all add: header_bytes_def wf_header_def field_simps_le)

lemma set_crc_bytes:
  assumes "wf_header h"
  shows "wr_range (header_bytes h @ rest) 16 (to_le 4 c) = Some (header_bytes (h\<lparr>h_CRC32 := c\<rparr>) @ rest)"
proof -
  let ?pre = "to_le 8 (h_Signature h) @ to_le 4 (h_Revision h) @ to_le 4 (h_HeaderSize h)"
  let ?post = "to_le 4 (h_Reserved h) @ to_le 8 (h_MyLBA h) @ to_le 8 (h_AlternateLBA h) @ to_le 8 (h_FirstUsableLBA h) @
     to_le 8 (h_LastUsableLBA h) @ h_DiskGUID h @ to_le 8 (h_PartitionEntryLBA h) @
     to_le 4 (h_NumberOfPartitionEntries h) @ to_le 4 (h_SizeOfPartitionEntry h) @
     to_le 4 (h_PartitionEntryArrayCRC32 h) @ rest"
  have "header_bytes h @ rest = ?pre @ to_le 4 (h_CRC32 h) @ ?post" "header_bytes (h\<lparr>h_CRC32 := c\<rparr>) @ rest = ?pre @ to_le 4 c @ ?post"
    by (simp_all add: header_bytes_def)
  then show ?thesis
    using wr_range_here [of "to_le 4 (h_CRC32 h)" "to_le 4 c" ?pre ?post] by simp
qed

section \<open>What the check of the entries establishes\<close>

definition flags_le :: "entry_status list \<Rightarrow> entry_status list \<Rightarrow> bool" where
  "flags_le st st' \<longleftrightarrow> length st' = length st \<and>
     (\<forall>k. (OutOfRange (st ! k) \<longrightarrow> OutOfRange (st' ! k)) \<and> (Overlap (st ! k) \<longrightarrow> Overlap (st' ! k)))"

lemma flags_le_refl [simp]: "flags_le st st"
  by (simp add: flags_le_def)






definition used_entry :: "gpt_ext \<Rightarrow> gpt_header \<Rightarrow> byte list \<Rightarrow> nat \<Rightarrow> bool" where
  "used_entry gx h arr i \<longleftrightarrow> (\<exists>ty. entry_type h arr i = Some ty \<and> ty \<noteq> gx_unused gx)"




definition live :: "gpt_ext \<Rightarrow> gpt_header \<Rightarrow> byte list \<Rightarrow> entry_status list \<Rightarrow> nat \<Rightarrow> bool" where
  "live gx h arr st i \<longleftrightarrow> used_entry gx h arr i \<and> \<not> OutOfRange (st ! i) \<and> \<not> Overlap (st ! i)"

lemma live_mono: "flags_le st st' \<Longrightarrow> live gx h arr st' i \<Longrightarrow> live gx h arr st i"
  by (auto simp: live_def flags_le_def)






section \<open>Properties\<close>


text \<open>
  Where \<open>UINTN\<close> has 32 bits, a table that is found valid has an entry array whose size does not
  wrap, so the buffer that is read for it holds every entry.
\<close>

lemma div_u64x32:
  assumes "DivU64x32 a b = Some q"
  shows "unat q = unat a div unat b" "b \<noteq> 0"
  using assms by (auto simp: DivU64x32_def unat_div_distrib split: if_splits)

lemma valid_table_cases:
  assumes "PartitionValidGptTable gx umax env dio d m lba h0 = Some (True, h)"
  shows "\<not> h_SizeOfPartitionEntry h < sizeof_entry" "h_MyLBA h = lba"
    "unat (h_NumberOfPartitionEntries h) \<le> unat umax div unat (h_SizeOfPartitionEntry h)"
    "PartitionCheckGptEntryArrayCRC gx env dio d m h"
  using assms
  by (auto simp: PartitionValidGptTable_def not_less word_le_nat_alt div_u64x32
      split: if_splits sum.splits bind_splits prod.splits)

theorem gpt_size_guard_32bit:
  assumes "PartitionValidGptTable gx 0xFFFFFFFF env dio d m lba h0 = Some (True, h)"
  shows "unat (entry_array_size h) = unat (h_NumberOfPartitionEntries h) * unat (h_SizeOfPartitionEntry h)"
proof -
  note v = valid_table_cases [OF assms]
  have "unat (h_NumberOfPartitionEntries h) * unat (h_SizeOfPartitionEntry h) \<le> 0xFFFFFFFF"
    using v(3) less_eq_div_iff_mult_less_eq [of "unat (h_SizeOfPartitionEntry h)"] v(1)
    by (simp add: word_less_nat_alt sizeof_entry_def)
  then show ?thesis
    by (simp add: entry_array_size_def unat_word_ariths)
qed

lemma check_entries_fault:
  "i \<in> set is \<Longrightarrow> entry_type h arr i = None \<Longrightarrow> check_entries gx h arr is st = None"
proof (induction "is" arbitrary: st)
  case (Cons k "is")
  show ?case
  proof (cases "k = i")
    case True
    then show ?thesis using Cons.prems(2) by simp
  next
    case False
    then have IH: "check_entries gx h arr is st' = None" for st'
      using Cons by simp
    show ?thesis
      by (simp add: IH Let_def bind_eq_None_conv split: if_splits) 
  qed
qed simp

text \<open>
  Where \<open>UINTN\<close> has 64 bits, the guard against an overflow of the entry array's size never fires,
  for any number and size of entries, while the size itself is computed with 32 bits. A table whose
  product wraps is therefore not rejected, the buffer is too small, and checking the entries reads
  beyond it.
\<close>

theorem gpt_size_guard_64bit:
  assumes "\<not> h_SizeOfPartitionEntry h < sizeof_entry" "0 < h_NumberOfPartitionEntries h"
    and "unat (entry_array_size h) < (unat (h_NumberOfPartitionEntries h) - 1) * unat (h_SizeOfPartitionEntry h) + 16"
    and "pe_pool env = (\<lambda>n. True)" "length arr = unat (entry_array_size h)"
    and "dio_read dio d (MediaId m) (MultU64x32 (h_PartitionEntryLBA h) (BlockSize m)) (unat (entry_array_size h)) = Inr arr"
  shows "(\<exists>q. DivU64x32 0xFFFFFFFFFFFFFFFF (h_SizeOfPartitionEntry h) = Some q \<and> ucast (h_NumberOfPartitionEntries h) \<le> q) \<and>
     gpt_install gx env dio d m h cs = None"
proof -
  let ?n = "unat (h_NumberOfPartitionEntries h)" and ?s = "unat (h_SizeOfPartitionEntry h)"
  have s0: "0 < ?s" "h_SizeOfPartitionEntry h \<noteq> 0"
    using assms(1) by (auto simp: sizeof_entry_def word_less_nat_alt)
  have n0: "0 < ?n"
    using assms(2) by (simp add: word_less_nat_alt)
  have lt: "?n \<le> 2 ^ 32 - 1" "?s \<le> 2 ^ 32 - 1"
    using word_unat_lt [of "h_NumberOfPartitionEntries h"] word_unat_lt [of "h_SizeOfPartitionEntry h"] by simp_all
  have "?n * ?s \<le> (2 ^ 32 - 1) * (2 ^ 32 - 1)"
    using lt by (rule mult_le_mono)
  then have "?n * ?s \<le> 0xFFFFFFFFFFFFFFFF"
    by simp
  then have "?n \<le> 0xFFFFFFFFFFFFFFFF div ?s"
    using less_eq_div_iff_mult_less_eq [OF s0(1)] by simp
  then have "ucast (h_NumberOfPartitionEntries h) \<le> (0xFFFFFFFFFFFFFFFF :: u64) div ucast (h_SizeOfPartitionEntry h)"
    by (simp add: word_le_nat_alt unat_div_distrib)
  then have guard: "\<exists>q. DivU64x32 0xFFFFFFFFFFFFFFFF (h_SizeOfPartitionEntry h) = Some q \<and> ucast (h_NumberOfPartitionEntries h) \<le> q"
    using s0(2) by (simp add: DivU64x32_def)
  have "entry_type h arr (?n - 1) = None"
    using assms(3,5) by (simp add: entry_type_def rd_range_def)
  then have "PartitionCheckGptEntry gx h arr = None"
    unfolding PartitionCheckGptEntry_def Let_def by (rule check_entries_fault [rotated]) (use n0 in simp)
  then show ?thesis
    using guard assms(4,6) by (simp add: gpt_install_def)
qed

definition wrap_header :: gpt_header where
  "wrap_header = zero_header\<lparr>h_PartitionEntryLBA := 2, h_NumberOfPartitionEntries := 0x2000001, h_SizeOfPartitionEntry := 128\<rparr>"

lemma gpt_size_guard_64bit_witness:
  "gpt_install \<lparr>gx_crc = (\<lambda>b. Inr 0), gx_unused = replicate 16 0, gx_esp = []\<rparr> ok_env flat_dio (replicate 2048 0)
     \<lparr>MediaId = 0, BlockSize = 512, LastBlock = 3\<rparr> wrap_header [] = None"
proof -
  have sz: "entry_array_size wrap_header = 128"
    by (simp add: entry_array_size_def wrap_header_def)
  show ?thesis
    by (rule conjunct2 [OF gpt_size_guard_64bit [of _ _ "replicate 128 0"]])
      (simp_all add: sz, simp_all add: wrap_header_def zero_header_def sizeof_entry_def ok_env_def flat_dio_def MultU64x32_def)
qed

section \<open>Reading back a table\<close>

text \<open>The block that holds a header, and when a reader accepts it.\<close>

definition header_block_ok :: "gpt_ext \<Rightarrow> u64 \<Rightarrow> media \<Rightarrow> u64 \<Rightarrow> gpt_header \<Rightarrow> byte list \<Rightarrow> bool" where
  "header_block_ok gx umax m lba h rest \<longleftrightarrow>
     wf_header h \<and> 92 + length rest = unat (BlockSize m) \<and> h_Signature h = EFI_PTAB_HEADER_ID \<and>
     0 < unat (h_HeaderSize h) \<and> unat (h_HeaderSize h) \<le> unat (BlockSize m) \<and>
     gx_crc gx (take (unat (h_HeaderSize h)) (header_bytes (h\<lparr>h_CRC32 := 0\<rparr>) @ rest)) = Inr (h_CRC32 h) \<and>
     h_MyLBA h = lba \<and> \<not> h_SizeOfPartitionEntry h < sizeof_entry \<and>
     unat (h_NumberOfPartitionEntries h) \<le> unat umax div unat (h_SizeOfPartitionEntry h)"

lemma wf_set_crc [simp]: "wf_header (h\<lparr>h_CRC32 := c\<rparr>) = wf_header h"
  by (simp add: wf_header_def)

lemma check_crc_block:
  assumes "header_block_ok gx umax m lba h rest"
  shows "PartitionCheckCrc gx (unat (BlockSize m)) (header_bytes h @ rest) = Some (True, header_bytes h @ rest)"
proof -
  have wf: "wf_header h" and hs: "0 < unat (h_HeaderSize h)" "unat (h_HeaderSize h) \<le> unat (BlockSize m)"
    and crc: "gx_crc gx (take (unat (h_HeaderSize h)) (header_bytes (h\<lparr>h_CRC32 := 0\<rparr>) @ rest)) = Inr (h_CRC32 h)"
    and len: "92 + length rest = unat (BlockSize m)"
    using assms by (auto simp: header_block_ok_def)
  have "rd_range (header_bytes (h\<lparr>h_CRC32 := 0\<rparr>) @ rest) 0 (unat (h_HeaderSize h)) =
      Some (take (unat (h_HeaderSize h)) (header_bytes (h\<lparr>h_CRC32 := 0\<rparr>) @ rest))"
    using hs len length_header_bytes [of "h\<lparr>h_CRC32 := 0\<rparr>"] wf by (simp add: rd_range_def)
  moreover have "wr_range (header_bytes (h\<lparr>h_CRC32 := 0\<rparr>) @ rest) 16 (to_le 4 (h_CRC32 h)) = Some (header_bytes h @ rest)"
    using set_crc_bytes [of "h\<lparr>h_CRC32 := 0\<rparr>" rest "h_CRC32 h"] wf by simp
  ultimately show ?thesis
    using hs crc header_fields [OF wf] set_crc_bytes [OF wf, of rest 0]
    by (simp add: PartitionCheckCrc_def PartitionCheckCrcAltSize_def)
qed

lemma valid_table_block:
  assumes "header_block_ok gx umax m lba h rest" "pe_pool env (unat (BlockSize m))"
    and "dio_read dio d (MediaId m) (MultU64x32 lba (BlockSize m)) (unat (BlockSize m)) = Inr (header_bytes h @ rest)"
  shows "PartitionValidGptTable gx umax env dio d m lba h0 = Some (PartitionCheckGptEntryArrayCRC gx env dio d m h, h)"
proof -
  have wf: "wf_header h" and sg: "h_Signature h = EFI_PTAB_HEADER_ID" "h_MyLBA h = lba" "\<not> h_SizeOfPartitionEntry h < sizeof_entry"
    and n: "unat (h_NumberOfPartitionEntries h) \<le> unat umax div unat (h_SizeOfPartitionEntry h)"
    using assms(1) by (auto simp: header_block_ok_def)
  have nz: "h_SizeOfPartitionEntry h \<noteq> 0"
    using sg(3) by (auto simp: sizeof_entry_def)
  then have q: "DivU64x32 umax (h_SizeOfPartitionEntry h) = Some (umax div ucast (h_SizeOfPartitionEntry h))"
    by (simp add: DivU64x32_def)
  have "\<not> ucast (h_NumberOfPartitionEntries h) > umax div ucast (h_SizeOfPartitionEntry h)"
    using n by (simp add: word_less_nat_alt unat_div_distrib)
  then show ?thesis
    using assms(2,3) check_crc_block [OF assms(1)] header_of_bytes [OF wf, of rest] header_fields(1) [OF wf, of rest] sg q
    by (simp add: PartitionValidGptTable_def)
qed

definition swapped :: "gpt_header \<Rightarrow> gpt_header" where
  "swapped h = h\<lparr>h_MyLBA := h_AlternateLBA h, h_AlternateLBA := h_MyLBA h,
     h_PartitionEntryLBA := (if h_MyLBA h = PRIMARY_PART_HEADER_LBA then h_LastUsableLBA h + 1 else PRIMARY_PART_HEADER_LBA + 1)\<rparr>"

lemma swapped_simps [simp]:
  "h_MyLBA (swapped h) = h_AlternateLBA h" "h_AlternateLBA (swapped h) = h_MyLBA h" "h_Signature (swapped h) = h_Signature h"
  "h_HeaderSize (swapped h) = h_HeaderSize h" "h_SizeOfPartitionEntry (swapped h) = h_SizeOfPartitionEntry h"
  "h_NumberOfPartitionEntries (swapped h) = h_NumberOfPartitionEntries h" "wf_header (swapped h) = wf_header h"
  "h_PartitionEntryArrayCRC32 (swapped h) = h_PartitionEntryArrayCRC32 h"
  "h_FirstUsableLBA (swapped h) = h_FirstUsableLBA h" "h_LastUsableLBA (swapped h) = h_LastUsableLBA h"
  by (simp_all add: swapped_def wf_header_def)

lemma set_crc_block:
  assumes "wf_header h" "\<And>b. gx_crc gx b = Inr (f b)"
    and "0 < unat (h_HeaderSize h)" "unat (h_HeaderSize h) \<le> 92 + length rest"
  obtains c where "PartitionSetCrc gx (header_bytes h @ rest) = Some (header_bytes (h\<lparr>h_CRC32 := c\<rparr>) @ rest)"
    "gx_crc gx (take (unat (h_HeaderSize h)) (header_bytes (h\<lparr>h_CRC32 := 0\<rparr>) @ rest)) = Inr c"
proof -
  let ?z = "header_bytes (h\<lparr>h_CRC32 := 0\<rparr>) @ rest"
  let ?data = "take (unat (h_HeaderSize h)) ?z"
  have "rd_range ?z 0 (unat (h_HeaderSize h)) = Some ?data"
    using assms(1,4) length_header_bytes [of "h\<lparr>h_CRC32 := 0\<rparr>"] by (simp add: rd_range_def)
  moreover have "wr_range ?z 16 (to_le 4 (f ?data)) = Some (header_bytes (h\<lparr>h_CRC32 := f ?data\<rparr>) @ rest)"
    using set_crc_bytes [of "h\<lparr>h_CRC32 := 0\<rparr>" rest "f ?data"] assms(1) by simp
  ultimately have "PartitionSetCrc gx (header_bytes h @ rest) = Some (header_bytes (h\<lparr>h_CRC32 := f ?data\<rparr>) @ rest)"
    using assms(2) header_fields(2) [OF assms(1), of rest] set_crc_bytes [OF assms(1), of rest 0]
    by (simp add: PartitionSetCrc_def PartitionSetCrcAltSize_def)
  then show ?thesis
    using that assms(2) by simp
qed

text \<open>Two byte ranges that do not meet.\<close>

definition ranges_apart :: "nat \<Rightarrow> nat \<Rightarrow> nat \<Rightarrow> nat \<Rightarrow> bool" where
  "ranges_apart a n b k \<longleftrightarrow> a + n \<le> b \<or> b + k \<le> a"

text \<open>
  C8. Restoring is repair: on a disk that keeps the documented behaviour of DiskIo, when a header
  whose entry array has the right CRC is restored to its alternate place, and the places do not
  overlap, the call succeeds and the alternate table is then found valid, with the roles of the two
  copies exchanged.
\<close>

theorem gpt_restore_then_valid:
  assumes "disk dio content" "\<And>b. gx_crc gx b = Inr (f b)" "pe_pool env = (\<lambda>n. True)"
    and "wf_header h" "h_Signature h = EFI_PTAB_HEADER_ID" "0 < unat (h_HeaderSize h)"
      "unat (h_HeaderSize h) \<le> unat (BlockSize m)" "92 \<le> unat (BlockSize m)" "\<not> h_SizeOfPartitionEntry h < sizeof_entry"
      "unat (h_NumberOfPartitionEntries h) \<le> unat umax div unat (h_SizeOfPartitionEntry h)"
    and "PartitionCheckGptEntryArrayCRC gx env dio d m h"
    and "alt = unat (MultU64x32 (h_AlternateLBA h) (BlockSize m))"
      "src = unat (MultU64x32 (h_PartitionEntryLBA h) (BlockSize m))"
      "dst = unat (MultU64x32 (h_PartitionEntryLBA (swapped h)) (BlockSize m))" "n = unat (entry_array_size h)"
    and "alt + unat (BlockSize m) \<le> length (content d)" "src + n \<le> length (content d)" "dst + n \<le> length (content d)"
    and "ranges_apart alt (unat (BlockSize m)) src n" "ranges_apart alt (unat (BlockSize m)) dst n"
  shows "\<exists>d' c. PartitionRestoreGptTable gx env dio d m h = Some (True, d') \<and>
     PartitionValidGptTable gx umax env dio d' m (h_AlternateLBA h) h0 = Some (True, swapped h\<lparr>h_CRC32 := c\<rparr>)"
proof -
  let ?bs = "unat (BlockSize m)" and ?mid = "MediaId m"
  let ?rest = "replicate (?bs - 92) (0 :: byte)"
  let ?ho = "MultU64x32 (h_AlternateLBA h) (BlockSize m)" and ?so = "MultU64x32 (h_PartitionEntryLBA h) (BlockSize m)"
    and ?do = "MultU64x32 (h_PartitionEntryLBA (swapped h)) (BlockSize m)"
  have wf: "wf_header (swapped h)"
    using assms(4) by simp
  obtain c where c: "PartitionSetCrc gx (header_bytes (swapped h) @ ?rest) = Some (header_bytes (swapped h\<lparr>h_CRC32 := c\<rparr>) @ ?rest)"
    "gx_crc gx (take (unat (h_HeaderSize h)) (header_bytes (swapped h\<lparr>h_CRC32 := 0\<rparr>) @ ?rest)) = Inr c"
    by (rule set_crc_block [OF wf assms(2), of ?rest]) (use assms(6,7) in simp_all)
  let ?buf = "header_bytes (swapped h\<lparr>h_CRC32 := c\<rparr>) @ ?rest"
  have lb: "length ?buf = ?bs"
    using length_header_bytes [of "swapped h\<lparr>h_CRC32 := c\<rparr>"] wf assms(8) by simp
  have hdr: "wr_range (replicate ?bs 0) 0 (header_bytes (swapped h)) = Some (header_bytes (swapped h) @ ?rest)"
    using length_header_bytes [OF wf] assms(8) by (simp add: wr_range_def)
  define arr where "arr = take n (drop src (content d))"
  have arr: "dio_read dio d ?mid ?so n = Inr arr"
    unfolding arr_def assms(13) by (rule disk.read_in [OF assms(1)]) (use assms(13,17) in simp)
  have la: "length arr = n"
    using assms(17) by (simp add: arr_def)
  have crc: "f arr = h_PartitionEntryArrayCRC32 h"
    using assms(2,3,11,15) arr by (simp add: PartitionCheckGptEntryArrayCRC_def)
  obtain d1 where d1: "dio_write dio d ?mid ?ho ?buf = (EFI_SUCCESS, d1)" "length (content d1) = length (content d)"
    "dio_read dio d1 ?mid ?ho ?bs = Inr ?buf"
    "\<And>off k. unat off + k \<le> length (content d) \<Longrightarrow> unat off + k \<le> unat ?ho \<or> unat ?ho + ?bs \<le> unat off \<Longrightarrow>
       dio_read dio d1 ?mid off k = dio_read dio d ?mid off k"
    using disk.write_read [OF assms(1), of ?ho ?buf d ?mid] lb assms(12,16) by auto
  have arr1: "dio_read dio d1 ?mid ?so n = Inr arr"
    using d1(4) [of ?so n] arr assms(12,13,17,19) by (auto simp: ranges_apart_def)
  have fit: "unat ?do + length arr \<le> length (content d1)"
    using la assms(14,18) d1(2) by simp
  obtain d2 where "dio_write dio d1 ?mid ?do arr = (EFI_SUCCESS, d2)" "dio_read dio d2 ?mid ?do (length arr) = Inr arr"
    "\<And>off k. unat off + k \<le> length (content d1) \<Longrightarrow> unat off + k \<le> unat ?do \<or> unat ?do + length arr \<le> unat off \<Longrightarrow>
       dio_read dio d2 ?mid off k = dio_read dio d1 ?mid off k"
    by (rule disk.write_read [OF assms(1) fit, of ?mid]) blast
  note d2 = this [unfolded la]
  have restore: "PartitionRestoreGptTable gx env dio d m h = Some (True, d2)"
    using assms(3,15) hdr c(1) d1(1) arr1 d2(1)
    by (simp add: PartitionRestoreGptTable_def Let_def swapped_def)
  have read2: "dio_read dio d2 ?mid ?ho ?bs = Inr ?buf"
    using d2(3) [of ?ho ?bs] d1(2,3) assms(12,14,16,20) by (auto simp: ranges_apart_def)
  have ok: "header_block_ok gx umax m (h_AlternateLBA h) (swapped h\<lparr>h_CRC32 := c\<rparr>) ?rest"
    using wf assms(5-10) c(2) by (simp add: header_block_ok_def)
  have "PartitionCheckGptEntryArrayCRC gx env dio d2 m (swapped h\<lparr>h_CRC32 := c\<rparr>)"
    using d2(2) crc assms(2,3,15) by (simp add: PartitionCheckGptEntryArrayCRC_def entry_array_size_def)
  then have "PartitionValidGptTable gx umax env dio d2 m (h_AlternateLBA h) h0 = Some (True, swapped h\<lparr>h_CRC32 := c\<rparr>)"
    using valid_table_block [OF ok _ read2] assms(3) by simp
  with restore show ?thesis by blast
qed

definition len_crc :: gpt_ext where
  "len_crc = \<lparr>gx_crc = (\<lambda>b. Inr (of_nat (length b))), gx_unused = replicate 16 0, gx_esp = []\<rparr>"

definition demo_header :: "u64 \<Rightarrow> u64 \<Rightarrow> u64 \<Rightarrow> u32 \<Rightarrow> gpt_header" where
  "demo_header my alt pe acrc = \<lparr>h_Signature = EFI_PTAB_HEADER_ID, h_Revision = 0x10000, h_HeaderSize = 92, h_CRC32 = 92,
     h_Reserved = 0, h_MyLBA = my, h_AlternateLBA = alt, h_FirstUsableLBA = 3, h_LastUsableLBA = 3,
     h_DiskGUID = replicate 16 7, h_PartitionEntryLBA = pe, h_NumberOfPartitionEntries = 1, h_SizeOfPartitionEntry = 128,
     h_PartitionEntryArrayCRC32 = acrc\<rparr>"

definition six_blocks :: media where
  "six_blocks = \<lparr>MediaId = 0, BlockSize = 512, LastBlock = 5\<rparr>"

lemmas demo_gpt_defs = demo_header_def six_blocks_def len_crc_def ok_env_def wf_header_def sizeof_entry_def
  entry_array_size_def MultU64x32_def

lemma demo_array_crc:
  "length d = 3072 \<Longrightarrow> unat pe * 512 + 128 \<le> 3072 \<Longrightarrow> pe < 6 \<Longrightarrow>
    PartitionCheckGptEntryArrayCRC len_crc ok_env flat_dio d six_blocks (demo_header my alt pe acrc) \<longleftrightarrow> acrc = 128"
proof -
  assume a: "length d = 3072" "unat pe * 512 + 128 \<le> 3072" "pe < 6"
  have "unat (MultU64x32 pe 512) = unat pe * 512"
    using MultU64x32_unat [of pe 512] a(2) by simp
  then show ?thesis
    using a by (simp add: PartitionCheckGptEntryArrayCRC_def flat_dio_def demo_header_def six_blocks_def len_crc_def ok_env_def
        entry_array_size_def)
qed

lemma gpt_restore_then_valid_witness:
  "\<exists>d' c. PartitionRestoreGptTable len_crc ok_env flat_dio (replicate 3072 0) six_blocks (demo_header 1 5 2 128) = Some (True, d') \<and>
     PartitionValidGptTable len_crc 0xFFFFFFFF ok_env flat_dio d' six_blocks 5 zero_header =
       Some (True, swapped (demo_header 1 5 2 128)\<lparr>h_CRC32 := c\<rparr>)"
proof -
  let ?h = "demo_header 1 5 2 128"
  have "\<exists>d' c. PartitionRestoreGptTable len_crc ok_env flat_dio (replicate 3072 0) six_blocks ?h = Some (True, d') \<and>
     PartitionValidGptTable len_crc 0xFFFFFFFF ok_env flat_dio d' six_blocks (h_AlternateLBA ?h) zero_header =
       Some (True, swapped ?h\<lparr>h_CRC32 := c\<rparr>)"
    by (rule gpt_restore_then_valid [OF flat.disk_axioms _ _ _ _ _ _ _ _ _ _ refl refl refl refl, where f = "\<lambda>b. of_nat (length b)"])
      (simp_all add: demo_array_crc, simp_all add: demo_gpt_defs swapped_def ranges_apart_def PRIMARY_PART_HEADER_LBA_def)
  then show ?thesis
    by (simp add: demo_header_def)
qed

section \<open>When the restoration fails\<close>

lemma valid_table_again:
  assumes "PartitionValidGptTable gx umax env dio d m lba h0 = Some (False, h)"
  shows "PartitionValidGptTable gx umax env dio d m lba h = Some (False, h)"
  using assms by (auto simp: PartitionValidGptTable_def split: if_splits sum.splits bind_splits prod.splits)

lemma restore_read_only:
  assumes "\<And>mid off x. dio_write dio d mid off x = (EFI_WRITE_PROTECTED, d)"
    and "PartitionRestoreGptTable gx env dio d m h = Some (r, d')"
  shows "r = False" "d' = d"
  using assms by (auto simp: PartitionRestoreGptTable_def Let_def EFI_ERROR_def split: if_splits bind_splits)

text \<open>
  C12. On a medium that cannot be written, a valid backup table does not help: when the primary
  header is intact but its entry array fails the CRC, the routine goes on with that array and
  installs children from it, although it never matched its checksum and the backup did.
\<close>

theorem gpt_uses_unchecked_entries:
  assumes "PartitionValidGptTable gx umax env dio d m PRIMARY_PART_HEADER_LBA zero_header = Some (False, h)"
    and "PartitionValidGptTable gx umax env dio d m (LastBlock m) zero_header = Some (True, b)"
    and "h_AlternateLBA b = PRIMARY_PART_HEADER_LBA"
    and "\<And>mid off x. dio_write dio d mid off x = (EFI_WRITE_PROTECTED, d)"
    and "PartitionRestoreGptTable gx env dio d m b \<noteq> None"
    and "dio_read dio d (MediaId m) 0 (unat (BlockSize m)) = Inr buf" "pmbr_scan buf [0..<4] = Some True"
    and "pe_pool env = (\<lambda>n. True)" "gpt_install gx env dio d m h [] = Some (s, cs)"
    and "h \<noteq> zero_header"
  shows "PartitionInstallGptChildHandles gx umax env dio d m [] = Some (s, d, cs) \<and>
     \<not> PartitionCheckGptEntryArrayCRC gx env dio d m h"
proof -
  obtain r d' where r: "PartitionRestoreGptTable gx env dio d m b = Some (r, d')"
    using assms(5) by auto
  have "d' = d"
    using restore_read_only [OF assms(4) r] by simp
  then have "gpt_tables gx umax env dio d m = Some (d, Some h)"
    using assms(1-3) r valid_table_again [OF assms(1)] by (simp add: gpt_tables_def)
  then have "PartitionInstallGptChildHandles gx umax env dio d m [] = Some (s, d, cs)"
    using assms(6-9) by (simp add: PartitionInstallGptChildHandles_def)
  moreover have "\<not> PartitionCheckGptEntryArrayCRC gx env dio d m h"
    using assms(1,10) by (auto simp: PartitionValidGptTable_def split: if_splits sum.splits bind_splits prod.splits)
  ultimately show ?thesis by simp
qed

text \<open>A read-only disk: a protective record, a primary header with a wrong array CRC, an entry for block 3, a good backup.\<close>

definition ro_dio :: "byte list disk_io" where
  "ro_dio = flat_dio\<lparr>dio_write := (\<lambda>d mid off x. (EFI_WRITE_PROTECTED, d))\<rparr>"

definition gpt_block :: "gpt_header \<Rightarrow> byte list" where
  "gpt_block h = header_bytes h @ replicate 420 0"

definition entry_block :: "byte list" where
  "entry_block = replicate 16 1 @ replicate 16 2 @ to_le 8 (3 :: u64) @ to_le 8 (3 :: u64) @ replicate 464 0"

definition bad_gpt :: "byte list" where
  "bad_gpt = demo_sector [part_bytes 0xEE 1 5, part_bytes 0 0 0, part_bytes 0 0 0, part_bytes 0 0 0] @
     gpt_block (demo_header 1 5 2 0) @ entry_block @ replicate 512 0 @ entry_block @ gpt_block (demo_header 5 1 4 128)"

lemma length_gpt_block [simp]: "length (gpt_block (demo_header my alt pe acrc)) = 512"
  using length_header_bytes [of "demo_header my alt pe acrc"] by (simp add: gpt_block_def wf_header_def demo_header_def)

lemma length_entry_block [simp]: "length entry_block = 512"
  by (simp add: entry_block_def)

lemma bad_gpt_reads:
  "dio_read ro_dio bad_gpt 0 0 512 = Inr (demo_sector [part_bytes 0xEE 1 5, part_bytes 0 0 0, part_bytes 0 0 0, part_bytes 0 0 0])"
  "dio_read ro_dio bad_gpt 0 512 512 = Inr (gpt_block (demo_header 1 5 2 0))"
  "dio_read ro_dio bad_gpt 0 1024 128 = Inr (take 128 entry_block)"
  "dio_read ro_dio bad_gpt 0 2048 128 = Inr (take 128 entry_block)"
  "dio_read ro_dio bad_gpt 0 2560 512 = Inr (gpt_block (demo_header 5 1 4 128))"
  using demo_sector_fields(4) [of "0xEE" 1 5 0 0 0 0 0 0 0 0 0]
  by (simp_all add: ro_dio_def flat_dio_def bad_gpt_def)

lemma demo_block_ok:
  "my < 6 \<Longrightarrow> header_block_ok len_crc 0xFFFFFFFF six_blocks my (demo_header my alt pe acrc) (replicate 420 0)"
  by (simp add: header_block_ok_def demo_gpt_defs length_header_bytes)

lemma bad_gpt_primary:
  "PartitionValidGptTable len_crc 0xFFFFFFFF ok_env ro_dio bad_gpt six_blocks 1 h0 = Some (False, demo_header 1 5 2 0)"
proof -
  have "PartitionValidGptTable len_crc 0xFFFFFFFF ok_env ro_dio bad_gpt six_blocks 1 h0 =
      Some (PartitionCheckGptEntryArrayCRC len_crc ok_env ro_dio bad_gpt six_blocks (demo_header 1 5 2 0), demo_header 1 5 2 0)"
    by (rule valid_table_block [OF demo_block_ok])
      (simp_all add: bad_gpt_reads gpt_block_def [symmetric] ok_env_def six_blocks_def MultU64x32_def)
  then show ?thesis
    by (simp add: PartitionCheckGptEntryArrayCRC_def bad_gpt_reads demo_gpt_defs)
qed

lemma bad_gpt_backup:
  "PartitionValidGptTable len_crc 0xFFFFFFFF ok_env ro_dio bad_gpt six_blocks 5 h0 = Some (True, demo_header 5 1 4 128)"
proof -
  have "PartitionValidGptTable len_crc 0xFFFFFFFF ok_env ro_dio bad_gpt six_blocks 5 h0 =
      Some (PartitionCheckGptEntryArrayCRC len_crc ok_env ro_dio bad_gpt six_blocks (demo_header 5 1 4 128), demo_header 5 1 4 128)"
    by (rule valid_table_block [OF demo_block_ok])
      (simp_all add: bad_gpt_reads gpt_block_def [symmetric] ok_env_def six_blocks_def MultU64x32_def)
  then show ?thesis
    by (simp add: PartitionCheckGptEntryArrayCRC_def bad_gpt_reads demo_gpt_defs)
qed

lemma entry_block_fields:
  "entry_type (demo_header 1 5 2 0) (take 128 entry_block) 0 = Some (replicate 16 1)"
  "entry_guid (demo_header 1 5 2 0) (take 128 entry_block) 0 = Some (replicate 16 2)"
  "entry_start (demo_header 1 5 2 0) (take 128 entry_block) 0 = Some 3"
  "entry_end (demo_header 1 5 2 0) (take 128 entry_block) 0 = Some 3"
  "entry_attr (demo_header 1 5 2 0) (take 128 entry_block) 0 = Some 0"
  by (simp_all add: entry_type_def entry_guid_def entry_start_def entry_end_def entry_attr_def entry_block_def demo_header_def
      field_simps_le le64_zeros)

lemma bad_gpt_install:
  "\<exists>c. gpt_install len_crc ok_env ro_dio bad_gpt six_blocks (demo_header 1 5 2 0) [] = Some (EFI_SUCCESS, [c])"
proof -
  have n: "[0..<unat (h_NumberOfPartitionEntries (demo_header 1 5 2 0))] = [0]"
    by (simp add: demo_header_def)
  have u: "gx_unused len_crc = replicate 16 0" "(replicate 16 (1 :: byte) = replicate 16 0) = False"
    by (simp_all add: len_crc_def)
  have one: "unat (h_NumberOfPartitionEntries (demo_header 1 5 2 0)) = 1"
    by (simp add: demo_header_def)
  have "PartitionCheckGptEntry len_crc (demo_header 1 5 2 0) (take 128 entry_block) = Some [clear_status]"
    unfolding PartitionCheckGptEntry_def Let_def n one
    by (simp add: entry_block_fields u out_of_range_def) (simp add: demo_header_def)
  moreover obtain s c where "PartitionInstallChildHandle ok_env six_blocks
      (HardDrive 1 3 1 MBR_TYPE_EFI_PARTITION_TABLE_HEADER (replicate 16 2)) 3 3 512 (replicate 16 1 = gx_esp len_crc) [] = Some (s, [c])"
    by (simp add: PartitionInstallChildHandle_def DivU64x32_def Let_def EFI_ERROR_def ok_env_def)
  moreover have "dio_read ro_dio bad_gpt (MediaId six_blocks)
      (MultU64x32 (h_PartitionEntryLBA (demo_header 1 5 2 0)) (BlockSize six_blocks)) (unat (entry_array_size (demo_header 1 5 2 0))) =
      Inr (take 128 entry_block)"
    using bad_gpt_reads(3) by (simp add: demo_gpt_defs)
  moreover have "pe_pool ok_env = (\<lambda>n. True)" "BlockSize six_blocks = 512"
    by (simp_all add: ok_env_def six_blocks_def)
  ultimately show ?thesis
    unfolding gpt_install_def n
    by (simp add: entry_block_fields u clear_status_def)
qed

lemma restore_defined:
  assumes "\<And>mid off x. dio_write dio d mid off x = (EFI_WRITE_PROTECTED, d)" "wf_header h" "\<And>b. gx_crc gx b = Inr (f b)"
    and "0 < unat (h_HeaderSize h)" "unat (h_HeaderSize h) \<le> unat (BlockSize m)" "92 \<le> unat (BlockSize m)"
  shows "PartitionRestoreGptTable gx env dio d m h \<noteq> None"
proof -
  let ?rest = "replicate (unat (BlockSize m) - 92) (0 :: byte)"
  have wf: "wf_header (swapped h)"
    using assms(2) by simp
  obtain c where c: "PartitionSetCrc gx (header_bytes (swapped h) @ ?rest) = Some (header_bytes (swapped h\<lparr>h_CRC32 := c\<rparr>) @ ?rest)"
    by (rule set_crc_block [OF wf assms(3), of ?rest]) (use assms(4-6) in simp_all)
  moreover have "wr_range (replicate (unat (BlockSize m)) 0) 0 (header_bytes (swapped h)) = Some (header_bytes (swapped h) @ ?rest)"
    using length_header_bytes [OF wf] assms(6) by (simp add: wr_range_def)
  ultimately show ?thesis
    using assms(1) by (auto simp: PartitionRestoreGptTable_def Let_def swapped_def EFI_ERROR_def)
qed

lemma gpt_uses_unchecked_entries_witness:
  "\<exists>c. PartitionInstallGptChildHandles len_crc 0xFFFFFFFF ok_env ro_dio bad_gpt six_blocks [] = Some (EFI_SUCCESS, bad_gpt, [c])"
proof -
  obtain c where c: "gpt_install len_crc ok_env ro_dio bad_gpt six_blocks (demo_header 1 5 2 0) [] = Some (EFI_SUCCESS, [c])"
    using bad_gpt_install by blast
  have "PartitionInstallGptChildHandles len_crc 0xFFFFFFFF ok_env ro_dio bad_gpt six_blocks [] = Some (EFI_SUCCESS, bad_gpt, [c]) \<and>
     \<not> PartitionCheckGptEntryArrayCRC len_crc ok_env ro_dio bad_gpt six_blocks (demo_header 1 5 2 0)"
  proof (rule gpt_uses_unchecked_entries [OF _ _ _ _ _ _ _ _ c])
    show "PartitionValidGptTable len_crc 0xFFFFFFFF ok_env ro_dio bad_gpt six_blocks PRIMARY_PART_HEADER_LBA zero_header =
        Some (False, demo_header 1 5 2 0)"
      by (simp add: PRIMARY_PART_HEADER_LBA_def bad_gpt_primary)
    show "PartitionValidGptTable len_crc 0xFFFFFFFF ok_env ro_dio bad_gpt six_blocks (LastBlock six_blocks) zero_header =
        Some (True, demo_header 5 1 4 128)"
      using bad_gpt_backup by (simp add: six_blocks_def)
    show "dio_write ro_dio bad_gpt mid off x = (EFI_WRITE_PROTECTED, bad_gpt)" for mid off x
      by (simp add: ro_dio_def)
    show "PartitionRestoreGptTable len_crc ok_env ro_dio bad_gpt six_blocks (demo_header 5 1 4 128) \<noteq> None"
      by (rule restore_defined) (simp_all add: demo_gpt_defs ro_dio_def)
    show "dio_read ro_dio bad_gpt (MediaId six_blocks) 0 (unat (BlockSize six_blocks)) =
        Inr (demo_sector [part_bytes 0xEE 1 5, part_bytes 0 0 0, part_bytes 0 0 0, part_bytes 0 0 0])"
      using bad_gpt_reads(1) by (simp add: six_blocks_def)
    have idx: "[0..<4] = 0 # [1..<4]"
      by code_simp
    show "pmbr_scan (demo_sector [part_bytes 0xEE 1 5, part_bytes 0 0 0, part_bytes 0 0 0, part_bytes 0 0 0]) [0..<4] = Some True"
      using demo_sector_fields(1) [of "0xEE" 1 5 0 0 0 0 0 0 0 0 0]
      unfolding idx by (auto simp: mbr_table_def PMBR_GPT_PARTITION_def split: bind_splits)
  qed (simp_all add: ok_env_def demo_header_def zero_header_def PRIMARY_PART_HEADER_LBA_def)
  then show ?thesis by blast
qed


lemma gpt_size_guard_32bit_witness:
  "unat (entry_array_size (demo_header 5 1 4 128)) = 1 * 128"
  using gpt_size_guard_32bit [OF bad_gpt_backup] by (simp add: demo_header_def)

end
