(* ===== verification/Apple.thy ===== *)
theory Apple
  imports PartInstall
begin

text \<open>
  \<^verbatim>\<open>PartitionDxe/Apple.c\<close>: the Apple partition map. The driver descriptor in block 0 gives the size of
  the map's blocks, every entry of the map is a child device with that block size. The loop over the
  entries is a step function with fuel, as its bound is read from the disk.
\<close>

definition udiv32 :: "u32 \<Rightarrow> u32 \<Rightarrow> u32 option" where
  "udiv32 a b = (if b = 0 then None else Some (a div b))"

record apple_state =
  ap_i :: u32
  ap_n :: u32
  ap_status :: efi_status
  ap_children :: "child list"

text \<open>
  One round of the loop over the map. \<open>Inr\<close> is the value returned. A block without the signature is
  passed over, and the status is then the one of its successful read.
\<close>

definition apple_step ::
  "part_env \<Rightarrow> 'd disk_io \<Rightarrow> 'd \<Rightarrow> media \<Rightarrow> u32 \<Rightarrow> u32 \<Rightarrow> apple_state \<Rightarrow> (apple_state + (efi_status \<times> child list)) option"
where
  "apple_step env dio d m SubBlockSize BlkPerSec st =
     (if \<not> ap_i st \<le> ap_n st then Some (Inr (ap_status st, ap_children st))
      else (case dio_read dio d (MediaId m) (MultU64x32 (ucast (ap_i st)) SubBlockSize) (unat SubBlockSize) of
          Inl e \<Rightarrow> Some (Inr (EFI_NOT_FOUND, ap_children st))
        | Inr buf \<Rightarrow> do {
            sig \<leftarrow> be16 buf 0;
            if sig \<noteq> 0x504D then Some (Inl (st\<lparr>ap_i := ap_i st + 1, ap_status := EFI_SUCCESS\<rparr>))
            else do {
              n \<leftarrow> (if ap_i st = 1 then be32 buf 4 else Some (ap_n st));
              StartLba \<leftarrow> be32 buf 8;
              SizeLbs \<leftarrow> be32 buf 12;
              s \<leftarrow> udiv32 StartLba BlkPerSec;
              z \<leftarrow> udiv32 SizeLbs BlkPerSec;
              (r, cs) \<leftarrow> PartitionInstallChildHandle env m (CdRom 0 (ucast s) (ucast z))
                (ucast s) (ucast s + ucast z - 1) SubBlockSize False (ap_children st);
              Some (Inl \<lparr>ap_i = ap_i st + 1, ap_n = n, ap_status = r, ap_children = cs\<rparr>) } }))"

fun apple_run ::
  "nat \<Rightarrow> part_env \<Rightarrow> 'd disk_io \<Rightarrow> 'd \<Rightarrow> media \<Rightarrow> u32 \<Rightarrow> u32 \<Rightarrow> apple_state \<Rightarrow>
   (apple_state + (efi_status \<times> child list)) option"
where
  "apple_run 0 env dio d m sub per st = Some (Inl st)"
| "apple_run (Suc fuel) env dio d m sub per st =
     do {
       r \<leftarrow> apple_step env dio d m sub per st;
       (case r of Inl st' \<Rightarrow> apple_run fuel env dio d m sub per st' | Inr x \<Rightarrow> Some (Inr x)) }"

text \<open>
  The allocation of the entry buffer is not checked: when it fails the next read goes through a NULL
  pointer. The two divisions by \<^verbatim>\<open>SubBlockSize\<close> and \<^verbatim>\<open>BlkPerSec\<close> are not guarded either.
\<close>

definition PartitionInstallAppleChildHandles ::
  "nat \<Rightarrow> part_env \<Rightarrow> 'd disk_io \<Rightarrow> 'd \<Rightarrow> media \<Rightarrow> child list \<Rightarrow> (apple_state + (efi_status \<times> child list)) option"
where
  "PartitionInstallAppleChildHandles fuel env dio d m cs =
     (if \<not> pe_pool env (unat (BlockSize m)) then Some (Inr (EFI_NOT_FOUND, cs))
      else (case dio_read dio d (MediaId m) 0 (unat (BlockSize m)) of
          Inl e \<Rightarrow> Some (Inr (e, cs))
        | Inr buf \<Rightarrow> do {
            sig \<leftarrow> be16 buf 0;
            if sig \<noteq> 0x4552 then Some (Inr (EFI_NOT_FOUND, cs))
            else do {
              blk \<leftarrow> be16 buf 2;
              let SubBlockSize = (ucast blk :: u32);
              BlkPerSec \<leftarrow> udiv32 (BlockSize m) SubBlockSize;
              if BlockSize m \<noteq> SubBlockSize * BlkPerSec then Some (Inr (EFI_NOT_FOUND, cs))
              else if \<not> pe_pool env (unat SubBlockSize) then None
              else apple_run fuel env dio d m SubBlockSize BlkPerSec
                \<lparr>ap_i = 1, ap_n = 1, ap_status = EFI_SUCCESS, ap_children = cs\<rparr> } }))"

end
