(* ===== verification/ElTorito.thy ===== *)
theory ElTorito
  imports PartInstall
begin

text \<open>
  \<^verbatim>\<open>PartitionDxe/ElTorito.c\<close>: the volume descriptors of a compact disc and the El Torito boot catalog.

  The code has one pool buffer of a block, \<^verbatim>\<open>VolDescriptor\<close>, and a pointer \<^verbatim>\<open>Catalog\<close> that starts at
  its beginning, is advanced over the catalog's entries and is not set back. The model keeps the
  pointer as the byte offset \<open>el_cat\<close>; a read or write beyond the buffer is \<open>None\<close>.
\<close>

definition CDVOL_TYPE_CODED :: byte where "CDVOL_TYPE_CODED = 1"
definition CDVOL_TYPE_END :: byte where "CDVOL_TYPE_END = 255"
definition CDVOL_ID :: "byte list" where "CDVOL_ID = lit ''CD001''"
definition CDVOL_ELTORITO_ID :: "byte list" where "CDVOL_ELTORITO_ID = lit ''EL TORITO SPECIFICATION''"
definition ELTORITO_ID_CATALOG :: byte where "ELTORITO_ID_CATALOG = 1"
definition ELTORITO_ID_SECTION_BOOTABLE :: byte where "ELTORITO_ID_SECTION_BOOTABLE = 0x88"
definition sizeof_catalog :: nat where "sizeof_catalog = 32"

record elt_state =
  el_lba :: u32
  el_buf :: "byte list"
  el_cat :: nat
  el_vol :: u32
  el_found :: efi_status
  el_children :: "child list"

section \<open>The catalog\<close>

text \<open>The sum of the sixteen words of the validation entry.\<close>

fun elt_sum :: "byte list \<Rightarrow> nat \<Rightarrow> nat \<Rightarrow> nat option" where
  "elt_sum buf cat 0 = Some 0"
| "elt_sum buf cat (Suc k) =
     do { w \<leftarrow> le16 buf (cat + 2 * k); s \<leftarrow> elt_sum buf cat k; Some (s + unat w) }"

definition elt_catalog_ok :: "byte list \<Rightarrow> nat \<Rightarrow> bool option" where
  "elt_catalog_ok buf cat =
     do {
       ind \<leftarrow> rd buf cat;
       id \<leftarrow> le16 buf (cat + 30);
       if ind \<noteq> ELTORITO_ID_CATALOG \<or> id \<noteq> 0xAA55 then Some False
       else do { s \<leftarrow> elt_sum buf cat (sizeof_catalog div 2); Some (s mod 0x10000 = 0) } }"

text \<open>Number of sectors and their size, by the low half of the media type byte.\<close>

definition elt_media :: "media \<Rightarrow> byte \<Rightarrow> u16 \<Rightarrow> u32 \<times> u32" where
  "elt_media m t count =
     (let mt = t AND 0xF in
      if mt = 0 then (ucast count, BlockSize m)
      else if mt = 4 then (ucast count, 512)
      else if mt = 1 then (0x50 * 0x02 * 0x0F, 512)
      else if mt = 2 then (0x50 * 0x02 * 0x12, 512)
      else if mt = 3 then (0x50 * 0x02 * 0x24, 512)
      else (0, BlockSize m))"

text \<open>The size of a child in blocks of the disc: the whole disc when there are fewer than two sectors.\<close>

definition elt_size :: "media \<Rightarrow> u32 \<Rightarrow> u32 \<Rightarrow> u32 \<Rightarrow> u32 \<Rightarrow> u64 option" where
  "elt_size m VolSpaceSize Lba SectorCount SubBlockSize =
     (if SectorCount < 2 then
        (if ucast VolSpaceSize > LastBlock m + 1
         then Some (ucast (ucast (LastBlock m - ucast Lba + 1) :: u32))
         else Some (ucast (VolSpaceSize - Lba)))
      else DivU64x32 (MultU64x32 (ucast SectorCount) SubBlockSize + ucast (BlockSize m) - 1) (BlockSize m))"

text \<open>
  The loop over the entries; \<open>cat\<close> is the pointer before its increment. The result has the pointer,
  the status and the children.
\<close>

fun elt_entries ::
  "part_env \<Rightarrow> media \<Rightarrow> u32 \<Rightarrow> byte list \<Rightarrow> nat list \<Rightarrow> u32 \<Rightarrow> nat \<Rightarrow> efi_status \<Rightarrow> child list \<Rightarrow>
   (nat \<times> efi_status \<times> child list) option"
where
  "elt_entries env m vol buf [] BootEntry cat Found cs = Some (cat, Found, cs)"
| "elt_entries env m vol buf (Index # is) BootEntry cat Found cs =
     (let cat1 = cat + sizeof_catalog in
      do {
        ind \<leftarrow> rd buf cat1;
        if ind \<noteq> ELTORITO_ID_SECTION_BOOTABLE then elt_entries env m vol buf is BootEntry cat1 Found cs
        else do {
          Lba \<leftarrow> le32 buf (cat1 + 8);
          if Lba = 0 then elt_entries env m vol buf is BootEntry cat1 Found cs
          else do {
            t \<leftarrow> rd buf (cat1 + 1);
            count \<leftarrow> le16 buf (cat1 + 6);
            let (SectorCount, SubBlockSize) = elt_media m t count;
            let be = (if Index = 1 then 0 else BootEntry);
            psize \<leftarrow> elt_size m vol Lba SectorCount SubBlockSize;
            (s, cs') \<leftarrow> PartitionInstallChildHandle env m (CdRom be (ucast Lba) psize)
              (ucast Lba) (ucast Lba + psize - 1) SubBlockSize False cs;
            elt_entries env m vol buf is (be + 1) cat1 (if EFI_ERROR s then Found else EFI_SUCCESS) cs' } } })"

section \<open>The volume descriptors\<close>

definition elt_finish :: "elt_state \<Rightarrow> elt_state + (efi_status \<times> child list)" where
  "elt_finish st = Inr (el_found st, el_children st)"

text \<open>
  One round. The catalog is read to where the pointer stands; the read puts a whole block there.
\<close>

definition elt_step ::
  "part_env \<Rightarrow> 'd disk_io \<Rightarrow> 'd \<Rightarrow> media \<Rightarrow> elt_state \<Rightarrow> (elt_state + (efi_status \<times> child list)) option"
where
  "elt_step env dio d m st0 =
     (let st = st0\<lparr>el_lba := el_lba st0 + 1\<rparr> in
      if ucast (el_lba st) > LastBlock m then Some (elt_finish st)
      else (case dio_read dio d (MediaId m) (MultU64x32 (ucast (el_lba st)) (BlockSize m)) (unat (BlockSize m)) of
          Inl e \<Rightarrow> Some (Inr (e, el_children st))
        | Inr blk \<Rightarrow> do {
            buf \<leftarrow> wr_range (el_buf st) 0 blk;
            ty \<leftarrow> rd buf 0;
            id \<leftarrow> rd_range buf 1 5;
            if ty = CDVOL_TYPE_END \<or> id \<noteq> CDVOL_ID then Some (elt_finish st)
            else do {
              vss \<leftarrow> le32 buf 80;
              let vol = (if ty = CDVOL_TYPE_CODED then vss else el_vol st);
              let st1 = st\<lparr>el_buf := buf, el_vol := vol\<rparr>;
              sys \<leftarrow> rd_range buf 7 23;
              if sys \<noteq> CDVOL_ELTORITO_ID then Some (Inl st1)
              else do {
                Lba \<leftarrow> le32 buf 71;
                if ucast Lba > LastBlock m then Some (Inl st1)
                else (case dio_read dio d (MediaId m) (MultU64x32 (ucast Lba) (BlockSize m)) (unat (BlockSize m)) of
                    Inl e \<Rightarrow> Some (Inl st1)
                  | Inr cblk \<Rightarrow> do {
                      buf2 \<leftarrow> wr_range buf (el_cat st) cblk;
                      let st2 = st1\<lparr>el_buf := buf2\<rparr>;
                      ok \<leftarrow> elt_catalog_ok buf2 (el_cat st);
                      if \<not> ok then Some (Inl st2)
                      else do {
                        (cat, f, cs) \<leftarrow> elt_entries env m vol buf2 [1..<unat (BlockSize m) div sizeof_catalog] 1
                          (el_cat st) (el_found st) (el_children st);
                        Some (Inl (st2\<lparr>el_cat := cat, el_found := f, el_children := cs\<rparr>)) } }) } } }))"

fun elt_run ::
  "nat \<Rightarrow> part_env \<Rightarrow> 'd disk_io \<Rightarrow> 'd \<Rightarrow> media \<Rightarrow> elt_state \<Rightarrow> (elt_state + (efi_status \<times> child list)) option"
where
  "elt_run 0 env dio d m st = Some (Inl st)"
| "elt_run (Suc fuel) env dio d m st =
     do {
       r \<leftarrow> elt_step env dio d m st;
       (case r of Inl st' \<Rightarrow> elt_run fuel env dio d m st' | Inr x \<Rightarrow> Some (Inr x)) }"

text \<open>\<open>junk\<close> is the content of the fresh buffer.\<close>

definition PartitionInstallElToritoChildHandles ::
  "nat \<Rightarrow> byte list \<Rightarrow> part_env \<Rightarrow> 'd disk_io \<Rightarrow> 'd \<Rightarrow> media \<Rightarrow> child list \<Rightarrow>
   (elt_state + (efi_status \<times> child list)) option"
where
  "PartitionInstallElToritoChildHandles fuel junk env dio d m cs =
     (if BlockSize m \<noteq> 2048 then Some (Inr (EFI_NOT_FOUND, cs))
      else if \<not> pe_pool env (unat (BlockSize m)) then Some (Inr (EFI_NOT_FOUND, cs))
      else elt_run fuel env dio d m
        \<lparr>el_lba = 15, el_buf = junk, el_cat = 0, el_vol = 0, el_found = EFI_NOT_FOUND, el_children = cs\<rparr>)"

end
