(* ===== verification/DiscFacts.thy ===== *)
theory DiscFacts
  imports Apple ElTorito Mbr
begin

text \<open>
  What the Apple and El Torito routines do on hostile media: where they fault, where they cannot, and
  that the Apple routine reports success without a child.
\<close>

section \<open>Apple partition map\<close>

lemma be_total: "i + 2 \<le> length buf \<Longrightarrow> \<exists>w. be16 buf i = Some w" "i + 4 \<le> length buf \<Longrightarrow> \<exists>v. be32 buf i = Some v"
  by (simp_all add: be16_def be32_def rd_range_def)

lemma apple_step_total:
  assumes "full_reads dio d" "16 \<le> unat sub" "per \<noteq> 0"
  shows "\<exists>r. apple_step env dio d m sub per st = Some r"
proof (cases "ap_i st \<le> ap_n st")
  case False
  then show ?thesis by (simp add: apple_step_def)
next
  case True
  show ?thesis
  proof (cases "dio_read dio d (MediaId m) (MultU64x32 (ucast (ap_i st)) sub) (unat sub)")
    case (Inl e)
    then show ?thesis by (simp add: apple_step_def)
  next
    case (Inr buf)
    then have "16 \<le> length buf"
      using assms by (auto simp: full_reads_def)
    then obtain sig n s z where f: "be16 buf 0 = Some sig" "be32 buf 4 = Some n" "be32 buf 8 = Some s" "be32 buf 12 = Some z"
      using be_total(1) [of 0 buf] be_total(2) [of 4 buf] be_total(2) [of 8 buf] be_total(2) [of 12 buf] by auto
    have sub: "sub \<noteq> 0"
      using assms(2) by auto
    let ?s = "ucast (s div per) :: u64" and ?z = "ucast (z div per) :: u64"
    obtain r cs where "PartitionInstallChildHandle env m (CdRom 0 ?s ?z) ?s (?s + ?z - 1) sub False (ap_children st) = Some (r, cs)"
      using install_total [OF sub] by blast
    then show ?thesis
      using Inr f assms(3) by (cases "ap_i st = 1") (simp_all add: apple_step_def udiv32_def)
  qed
qed

lemma apple_run_total:
  assumes "full_reads dio d" "16 \<le> unat sub" "per \<noteq> 0"
  shows "\<exists>r. apple_run fuel env dio d m sub per st = Some r"
proof (induction fuel arbitrary: st)
  case (Suc fuel)
  obtain r where "apple_step env dio d m sub per st = Some r"
    using apple_step_total [OF assms] by blast
  then show ?case
    using Suc by (cases r) auto
qed simp

text \<open>
  The Apple routine trusts the block size in the driver descriptor. On a block with the
  descriptor's signature and the size zero it divides by zero; with a size of at least 16 bytes it
  never reads out of bounds, whatever the map holds and however long it is.
\<close>

theorem apple_block_size:
  assumes "full_reads dio d" "pe_pool env = (\<lambda>n. True)" "4 \<le> unat (BlockSize m)"
    and "sector0 dio d m = Inr buf" "be16 buf 0 = Some 0x4552" "be16 buf 2 = Some blk"
  shows "(blk = 0 \<longrightarrow> PartitionInstallAppleChildHandles fuel env dio d m cs = None) \<and>
     (16 \<le> unat blk \<longrightarrow> PartitionInstallAppleChildHandles fuel env dio d m cs \<noteq> None)"
proof (intro conjI impI)
  assume "blk = 0"
  then show "PartitionInstallAppleChildHandles fuel env dio d m cs = None"
    using assms by (simp add: PartitionInstallAppleChildHandles_def sector0_def udiv32_def)
next
  assume blk: "16 \<le> unat blk"
  let ?sub = "ucast blk :: u32"
  have u: "unat ?sub = unat blk"
    using word_unat_lt [of blk] by (simp add: unsigned_ucast_eq take_bit_nat_eq_self)
  then have nz: "?sub \<noteq> 0"
    using blk by auto
  have "BlockSize m div ?sub \<noteq> 0" if "BlockSize m = ?sub * (BlockSize m div ?sub)"
    using that assms(3) by auto
  then show "PartitionInstallAppleChildHandles fuel env dio d m cs \<noteq> None"
    using assms nz u blk apple_run_total [OF assms(1), of ?sub "BlockSize m div ?sub" fuel env m]
    by (auto simp: PartitionInstallAppleChildHandles_def sector0_def udiv32_def Let_def)
qed

text \<open>A descriptor block of 512 bytes with a given map block size.\<close>

definition er_block :: "byte \<Rightarrow> byte \<Rightarrow> byte list" where
  "er_block hi lo = [0x45, 0x52, hi, lo] @ replicate 508 0"

lemma er_block_fields:
  "be16 (er_block hi lo) 0 = Some 0x4552" "be16 (er_block hi lo) 2 = Some (of_nat (unat lo + 256 * unat hi))"
  "length (er_block hi lo) = 512"
  by (simp_all add: be16_def er_block_def rd_range_def le_value_def)

definition er_media :: media where
  "er_media = \<lparr>MediaId = 0, BlockSize = 512, LastBlock = 1\<rparr>"

lemma er_sector0: "length b = 512 \<Longrightarrow> sector0 flat_dio (b @ rest) er_media = Inr b"
  by (simp add: sector0_def er_media_def flat_dio_def)

lemma apple_block_size_witness:
  "PartitionInstallAppleChildHandles 5 ok_env flat_dio (er_block 0 0 @ replicate 512 0) er_media [] = None"
  by (rule mp [OF conjunct1 [OF apple_block_size [OF full_reads_flat _ _ er_sector0 [OF er_block_fields(3)] er_block_fields(1,2)]]])
    (simp_all add: ok_env_def er_media_def)

lemma apple_no_signature:
  assumes "sector0 dio d m = Inr buf" "be16 buf 0 = Some 0x4552" "be16 buf 2 = Some blk" "blk \<noteq> 0"
    and "pe_pool env = (\<lambda>n. True)" "unat blk dvd unat (BlockSize m)"
    and "dio_read dio d (MediaId m) (ucast blk) (unat blk) = Inr ent" "be16 ent 0 = Some sig" "sig \<noteq> 0x504D"
  shows "PartitionInstallAppleChildHandles (Suc (Suc fuel)) env dio d m cs = Some (Inr (EFI_SUCCESS, cs))"
proof -
  let ?sub = "ucast blk :: u32"
  have u: "unat ?sub = unat blk"
    using word_unat_lt [of blk] by (simp add: unsigned_ucast_eq take_bit_nat_eq_self)
  then have nz: "?sub \<noteq> 0"
    using assms(4) by (metis unat_eq_0)
  have u64: "unat (ucast blk :: u64) = unat blk"
    using word_unat_lt [of blk] by (simp add: unsigned_ucast_eq take_bit_nat_eq_self)
  have uu: "(ucast ?sub :: u64) = ucast blk"
    by (rule word_unat_eq_iff [THEN iffD2]) (simp only: unat_ucast_u32 u u64)
  have eq: "(BlockSize m = ?sub * (BlockSize m div ?sub)) = True"
  proof -
    have "unat (?sub * (BlockSize m div ?sub)) = unat (BlockSize m)"
      using u assms(6) word_unat_lt [of "BlockSize m"] by (simp add: unat_word_ariths mod_mult_right_eq)
    then show ?thesis
      by (metis word_unat_eq_iff)
  qed
  have two: "\<not> (2 :: u32) \<le> 1"
    by (simp add: word_le_nat_alt)
  have "MultU64x32 (ucast (1 :: u32)) ?sub = ucast blk"
    by (simp add: MultU64x32_def uu)
  then have "apple_run (Suc (Suc fuel)) env dio d m ?sub (BlockSize m div ?sub)
      \<lparr>ap_i = 1, ap_n = 1, ap_status = EFI_SUCCESS, ap_children = cs\<rparr> = Some (Inr (EFI_SUCCESS, cs))"
    using assms(7-9) u two by (simp add: apple_step_def)
  then show ?thesis
    using assms(1-5) nz eq by (simp add: PartitionInstallAppleChildHandles_def sector0_def udiv32_def Let_def del: apple_run.simps)
qed

section \<open>El Torito\<close>

text \<open>The pointer moves over the whole catalog.\<close>

lemma elt_entries_cat:
  "elt_entries env m vol buf is be cat f cs = Some (cat', f', cs') \<Longrightarrow> cat' = cat + sizeof_catalog * length is"
  by (induction "is" arbitrary: be cat f cs) (fastforce simp: Let_def split: if_splits bind_splits prod.splits)+

lemma elt_media_size:
  assumes "BlockSize m \<noteq> 0" "elt_media m t count = (n, sz)"
  shows "sz \<noteq> 0"
  using assms by (auto simp: elt_media_def Let_def split: if_splits)

lemma elt_size_total: "BlockSize m \<noteq> 0 \<Longrightarrow> \<exists>z. elt_size m vol lba n sz = Some z"
  by (simp add: elt_size_def DivU64x32_def)

lemma le_total:
  "i + 2 \<le> length buf \<Longrightarrow> \<exists>w. le16 buf i = Some w" "i + 4 \<le> length buf \<Longrightarrow> \<exists>v. le32 buf i = Some v"
  by (simp_all add: le16_def le32_def rd_range_def)

lemma elt_entries_total:
  assumes "BlockSize m \<noteq> 0" "cat + sizeof_catalog * (length is + 1) \<le> length buf"
  shows "\<exists>r. elt_entries env m vol buf is be cat f cs = Some r"
  using assms(2)
proof (induction "is" arbitrary: be cat f cs)
  case (Cons i "is")
  let ?c = "cat + sizeof_catalog"
  have len: "?c + 32 \<le> length buf"
    using Cons.prems by (simp add: sizeof_catalog_def)
  have IH: "\<exists>r. elt_entries env m vol buf is be' ?c f' cs' = Some r" for be' f' cs'
    using Cons by (simp add: sizeof_catalog_def)
  obtain lba count where f: "le32 buf (?c + 8) = Some lba" "le16 buf (?c + 6) = Some count"
    using le_total(2) [of "?c + 8" buf] le_total(1) [of "?c + 6" buf] len by auto
  obtain n sz where mt: "elt_media m (buf ! (?c + 1)) count = (n, sz)"
    by (cases "elt_media m (buf ! (?c + 1)) count")
  obtain z where z: "elt_size m vol lba n sz = Some z"
    using elt_size_total [OF assms(1)] by blast
  let ?be = "if i = 1 then 0 else be"
  obtain s cs' where inst: "PartitionInstallChildHandle env m (CdRom ?be (ucast lba) z) (ucast lba) (ucast lba + z - 1) sz False cs = Some (s, cs')"
    using install_total [OF elt_media_size [OF assms(1) mt]] by blast
  show ?case
    using len f mt z inst IH by (simp add: Let_def del: One_nat_def)
qed simp

lemma elt_sum_total: "cat + 2 * n \<le> length buf \<Longrightarrow> \<exists>s. elt_sum buf cat n = Some s"
proof (induction n)
  case (Suc n)
  then obtain w where "le16 buf (cat + 2 * n) = Some w"
    using le_total(1) [of "cat + 2 * n" buf] by auto
  then show ?case using Suc by auto
qed simp

lemma elt_catalog_ok_total:
  assumes "cat + 32 \<le> length buf"
  shows "\<exists>b. elt_catalog_ok buf cat = Some b"
proof -
  obtain id s where "le16 buf (cat + 30) = Some id" "elt_sum buf cat (sizeof_catalog div 2) = Some s"
    using le_total(1) [of "cat + 30" buf] elt_sum_total [of cat "sizeof_catalog div 2" buf] assms
    by (auto simp: sizeof_catalog_def)
  then show ?thesis
    using assms by (auto simp: elt_catalog_ok_def)
qed

text \<open>
  The first boot catalog is handled safely: while the catalog pointer is at the start of the
  buffer, a round reads and writes only inside it, whatever the disc holds, and afterwards the
  pointer is there still or at the last entry.
\<close>

theorem elt_first_catalog_safe:
  assumes "full_reads dio d" "BlockSize m = 2048" "length (el_buf st) = 2048" "el_cat st = 0"
  shows "\<exists>r. elt_step env dio d m st = Some r \<and>
     (\<forall>st'. r = Inl st' \<longrightarrow> length (el_buf st') = 2048 \<and> (el_cat st' = 0 \<or> el_cat st' = 2016))"
proof (cases "ucast (el_lba st + 1) > LastBlock m")
  case True
  then show ?thesis by (simp add: elt_step_def elt_finish_def)
next
  case False
  let ?rd = "\<lambda>l. dio_read dio d (MediaId m) (MultU64x32 (ucast l) (BlockSize m)) (unat (BlockSize m))"
  show ?thesis
  proof (cases "?rd (el_lba st + 1)")
    case (Inl e)
    then show ?thesis using False by (simp add: elt_step_def)
  next
    case (Inr blk)
    then have lb: "length blk = 2048"
      using assms(1,2) by (auto simp: full_reads_def)
    then have buf: "wr_range (el_buf st) 0 blk = Some blk"
      using assms(3) by (simp add: wr_range_def)
    obtain vss lba where f: "le32 blk 80 = Some vss" "le32 blk 71 = Some lba" "rd_range blk 1 5 = Some (take 5 (drop 1 blk))"
        "rd_range blk 7 23 = Some (take 23 (drop 7 blk))"
      using le_total(2) [of 80 blk] le_total(2) [of 71 blk] lb by (auto simp: rd_range_def)
    show ?thesis
    proof (cases "?rd lba")
      case (Inl e)
      then show ?thesis
        using False Inr buf f lb assms by (simp add: elt_step_def elt_finish_def Let_def)
    next
      case cat: (Inr cblk)
      then have lc: "length cblk = 2048"
        using assms(1,2) by (auto simp: full_reads_def)
      then have buf2: "wr_range blk 0 cblk = Some cblk"
        using lb by (simp add: wr_range_def)
      obtain ok where ok: "elt_catalog_ok cblk 0 = Some ok"
        using elt_catalog_ok_total [of 0 cblk] lc by auto
      let ?is = "[1..<unat (BlockSize m) div sizeof_catalog]"
      have li: "length ?is = 63"
        using assms(2) by (simp add: sizeof_catalog_def)
      obtain c f' cs' where ent: "elt_entries env m (if blk ! 0 = CDVOL_TYPE_CODED then vss else el_vol st) cblk ?is 1 0
          (el_found st) (el_children st) = Some (c, f', cs')"
        using elt_entries_total [of m 0 ?is cblk] li lc assms(2) by (fastforce simp: sizeof_catalog_def)
      have "c = 2016"
        using elt_entries_cat [OF ent] li by (simp add: sizeof_catalog_def)
      then show ?thesis
        using False Inr buf f lb cat lc buf2 ok ent assms
        by (cases "blk ! 0 = CDVOL_TYPE_CODED") (simp_all add: elt_step_def elt_finish_def Let_def)
    qed
  qed
qed

text \<open>
  The second boot catalog overflows the buffer: the pointer is not set back, so on a disc with
  two El Torito descriptors and a catalog that passes its checks the second catalog is read to the
  end of the pool buffer and beyond.
\<close>

theorem elt_second_catalog_overflows:
  assumes "BlockSize m = 2048" "pe_pool env = (\<lambda>n. True)" "length junk = 2048" "length blk = 2048" "length cblk = 2048"
    and "17 \<le> LastBlock m" "ucast lba \<le> LastBlock m"
    and "dio_read dio d (MediaId m) 0x8000 2048 = Inr blk" "dio_read dio d (MediaId m) 0x8800 2048 = Inr blk"
      "dio_read dio d (MediaId m) (MultU64x32 (ucast lba) 2048) 2048 = Inr cblk"
    and "rd blk 0 = Some 0" "rd_range blk 1 5 = Some CDVOL_ID" "rd_range blk 7 23 = Some CDVOL_ELTORITO_ID"
      "le32 blk 71 = Some lba" "elt_catalog_ok cblk 0 = Some True"
  shows "PartitionInstallElToritoChildHandles (Suc (Suc fuel)) junk env dio d m cs = None"
proof -
  let ?st = "\<lparr>el_lba = 15, el_buf = junk, el_cat = 0, el_vol = 0, el_found = EFI_NOT_FOUND, el_children = cs\<rparr>"
  let ?is = "[1..<unat (BlockSize m) div sizeof_catalog]"
  have lb: "\<not> LastBlock m < 16" "\<not> LastBlock m < 17" "\<not> LastBlock m < ucast lba"
    using assms(6,7) by (auto simp: not_less intro: order_trans [rotated])
  obtain vss where vss: "le32 blk 80 = Some vss"
    using le_total(2) [of 80 blk] assms(4) by auto
  have li: "length ?is = 63"
    using assms(1) by (simp add: sizeof_catalog_def)
  obtain c f' cs' where ent: "elt_entries env m 0 cblk ?is 1 0 EFI_NOT_FOUND cs = Some (c, f', cs')"
    using elt_entries_total [of m 0 ?is cblk] li assms(1,5) by (fastforce simp: sizeof_catalog_def)
  have c: "c = 2016"
    using elt_entries_cat [OF ent] li by (simp add: sizeof_catalog_def)
  let ?st1 = "?st\<lparr>el_lba := 16, el_buf := cblk, el_cat := 2016, el_found := f', el_children := cs'\<rparr>"
  note k = CDVOL_TYPE_END_def CDVOL_TYPE_CODED_def
  have "elt_step env dio d m ?st = Some (Inl ?st1)"
    using assms lb vss ent c by (simp add: elt_step_def k MultU64x32_def wr_range_def)
  moreover have "elt_step env dio d m ?st1 = None"
    using assms lb vss by (simp add: elt_step_def k MultU64x32_def wr_range_def)
  ultimately show ?thesis
    using assms(1,2) by (simp add: PartitionInstallElToritoChildHandles_def)
qed

definition disc_descriptor :: "byte list" where
  "disc_descriptor = [0] @ CDVOL_ID @ [1] @ CDVOL_ELTORITO_ID @ replicate 41 0 @ to_le 4 (18 :: u32) @ replicate 1973 0"

definition disc_catalog :: "byte list" where
  "disc_catalog = [1] @ replicate 27 0 @ [0xAA, 0x55, 0x55, 0xAA] @ replicate 2016 0"

definition disc_dio :: "unit disk_io" where
  "disc_dio = \<lparr>dio_read = (\<lambda>d mid off n. Inr (take n ((if off = 0x9000 then disc_catalog else disc_descriptor) @ replicate (n - 2048) 0))),
     dio_write = (\<lambda>d mid off x. (EFI_WRITE_PROTECTED, d)), dio_probe = (\<lambda>d mid. EFI_SUCCESS)\<rparr>"

definition disc_media :: media where
  "disc_media = \<lparr>MediaId = 0, BlockSize = 2048, LastBlock = 20\<rparr>"

lemma disc_lengths: "length disc_descriptor = 2048" "length disc_catalog = 2048"
  by (simp_all add: disc_descriptor_def disc_catalog_def CDVOL_ID_def CDVOL_ELTORITO_ID_def)

lemma disc_descriptor_fields:
  "rd disc_descriptor 0 = Some 0" "rd_range disc_descriptor 1 5 = Some CDVOL_ID"
  "rd_range disc_descriptor 7 23 = Some CDVOL_ELTORITO_ID" "le32 disc_descriptor 71 = Some 18"
proof -
  have l: "length CDVOL_ID = 5" "length CDVOL_ELTORITO_ID = 23"
    by (simp_all add: CDVOL_ID_def CDVOL_ELTORITO_ID_def)
  show "rd disc_descriptor 0 = Some 0"
    by (simp add: disc_descriptor_def)
  show "rd_range disc_descriptor 1 5 = Some CDVOL_ID"
    unfolding disc_descriptor_def by (rule rd_range_append) (simp_all add: l)
  show "rd_range disc_descriptor 7 23 = Some CDVOL_ELTORITO_ID"
    using rd_range_append [of 7 "[0] @ CDVOL_ID @ [1]" 23 CDVOL_ELTORITO_ID "replicate 41 0 @ to_le 4 (18 :: u32) @ replicate 1973 0"] l
    by (simp add: disc_descriptor_def)
  show "le32 disc_descriptor 71 = Some 18"
    using le32_append [of 71 "[0] @ CDVOL_ID @ [1] @ CDVOL_ELTORITO_ID @ replicate 41 0" 18 "replicate 1973 0"] l
    by (simp add: disc_descriptor_def)
qed

lemma disc_catalog_ok: "elt_catalog_ok disc_catalog 0 = Some True"
proof -
  have z: "le16 disc_catalog (2 * k) = Some 0" if "0 < k" "k < 14" for k
  proof -
    have "rd_range disc_catalog (2 * k) 2 = rd_range (replicate 27 0 @ [0xAA, 0x55, 0x55, 0xAA] @ replicate 2016 0) (2 * k - 1) 2"
      unfolding disc_catalog_def using that by (subst rd_range_skip) simp_all
    also have "\<dots> = Some (replicate 2 0)"
      using that by (simp add: rd_range_def)
    finally show ?thesis
      by (simp add: le16_def le_value_zeros)
  qed
  have w: "le16 disc_catalog 0 = Some 1" "le16 disc_catalog 28 = Some 0x55AA" "le16 disc_catalog 30 = Some 0xAA55"
    by (simp_all add: le16_def rd_range_def disc_catalog_def le_value_def)
  have "elt_sum disc_catalog 0 (Suc k) = Some 1" if "k < 14" for k
    using that
  proof (induction k)
    case 0
    then show ?case using w by simp
  next
    case (Suc k)
    then show ?case using z [of "Suc k"] by simp
  qed
  from this [of 13] have "elt_sum disc_catalog 0 14 = Some 1"
    by simp
  moreover have "elt_sum disc_catalog 0 16 = do { s \<leftarrow> elt_sum disc_catalog 0 14; Some (s + 0x55AA + 0xAA55) }"
    using elt_sum.simps(2) [of disc_catalog 0 15] elt_sum.simps(2) [of disc_catalog 0 14] w
    by (cases "elt_sum disc_catalog 0 14") simp_all
  ultimately have "elt_sum disc_catalog 0 16 = Some 0x10000"
    by simp
  then show ?thesis
    using w by (simp add: elt_catalog_ok_def sizeof_catalog_def ELTORITO_ID_CATALOG_def disc_catalog_def)
qed

lemma disc_full_reads: "full_reads disc_dio ()"
  by (auto simp: full_reads_def disc_dio_def disc_lengths)

lemma elt_second_catalog_overflows_witness:
  "PartitionInstallElToritoChildHandles (Suc (Suc 0)) (replicate 2048 0) ok_env disc_dio () disc_media [] = None"
  by (rule elt_second_catalog_overflows [OF _ _ _ disc_lengths _ _ _ _ _ disc_descriptor_fields disc_catalog_ok])
    (simp_all add: disc_media_def ok_env_def disc_dio_def disc_lengths MultU64x32_def)

lemma elt_first_catalog_safe_witness:
  "\<exists>r. elt_step ok_env disc_dio () disc_media
     \<lparr>el_lba = 15, el_buf = replicate 2048 0, el_cat = 0, el_vol = 0, el_found = EFI_NOT_FOUND, el_children = []\<rparr> = Some r"
  using elt_first_catalog_safe [OF disc_full_reads, of disc_media
      "\<lparr>el_lba = 15, el_buf = replicate 2048 0, el_cat = 0, el_vol = 0, el_found = EFI_NOT_FOUND, el_children = []\<rparr>" ok_env]
  by (auto simp: disc_media_def)

end
