(* ===== verification/PartDriver.thy ===== *)
theory PartDriver
  imports GptFacts DiscFacts
begin

text \<open>
  The driver binding of \<^verbatim>\<open>PartitionDxe/Partition.c\<close>: the test, start and stop operations on a
  controller, and the detection that tries the partition schemes in the order of
  \<^verbatim>\<open>mPartitionDetectRoutineTable\<close>.

  A controller has the set of protocols this driver has open on it. \<open>ct_avail\<close> is the status with
  which the firmware answers an open request for a protocol that this driver does not have open;
  a protocol that it has open already gives \<open>EFI_ALREADY_STARTED\<close>, as documented for an open by the
  same driver.
\<close>

datatype proto = P_DevicePath | P_BlockIo | P_BlockIo2 | P_DiskIo | P_DiskIo2

record 'd controller =
  ct_open :: "proto set"
  ct_avail :: "proto \<Rightarrow> efi_status"
  ct_own :: bool
  ct_present :: bool
  ct_removable :: bool
  ct_logical :: bool
  ct_media :: media
  ct_path :: "dp_node list"
  ct_disk :: 'd
  ct_children :: "child list"

definition open_by_driver :: "proto \<Rightarrow> 'd controller \<Rightarrow> efi_status \<times> 'd controller" where
  "open_by_driver p c =
     (if p \<in> ct_open c then (EFI_ALREADY_STARTED, c)
      else if EFI_ERROR (ct_avail c p) then (ct_avail c p, c)
      else (EFI_SUCCESS, c\<lparr>ct_open := insert p (ct_open c)\<rparr>))"

definition close_protocol :: "proto \<Rightarrow> 'd controller \<Rightarrow> 'd controller" where
  "close_protocol p c = c\<lparr>ct_open := ct_open c - {p}\<rparr>"

text \<open>The remaining device path: none, the end node, a hard drive node, or something else.\<close>

datatype remaining = NoRemaining | RemEnd | RemHardDrive | RemOther

section \<open>The test\<close>

definition PartitionDriverBindingSupported :: "remaining \<Rightarrow> 'd controller \<Rightarrow> efi_status \<times> 'd controller" where
  "PartitionDriverBindingSupported r c =
     (if r = RemOther then (EFI_UNSUPPORTED, c)
      else (let (s, c1) = open_by_driver P_DiskIo c in
        if s = EFI_ALREADY_STARTED then (EFI_SUCCESS, c1)
        else if EFI_ERROR s then (s, c1)
        else (let c2 = close_protocol P_DiskIo c1; (s2, c3) = open_by_driver P_DevicePath c2 in
          if s2 = EFI_ALREADY_STARTED then (EFI_SUCCESS, c3)
          else if EFI_ERROR s2 then (s2, c3)
          else (let c4 = close_protocol P_DevicePath c3 in
            if EFI_ERROR (ct_avail c4 P_BlockIo) then (ct_avail c4 P_BlockIo, c4) else (EFI_SUCCESS, c4)))))"

section \<open>Detection\<close>

definition detect_stops :: "efi_status \<Rightarrow> bool" where
  "detect_stops s \<longleftrightarrow> \<not> EFI_ERROR s \<or> s = EFI_MEDIA_CHANGED \<or> s = EFI_NO_MEDIA"

text \<open>
  The schemes in order. \<open>Inl ()\<close>: a routine has not returned within its fuel.
\<close>

definition detect ::
  "nat \<Rightarrow> byte list \<Rightarrow> gpt_ext \<Rightarrow> u64 \<Rightarrow> part_env \<Rightarrow> 'd disk_io \<Rightarrow> 'd \<Rightarrow> media \<Rightarrow> dp_node list \<Rightarrow> child list \<Rightarrow>
   (unit + (efi_status \<times> 'd \<times> child list)) option"
where
  "detect fuel junk gx umax env dio d m path cs =
     do {
       (s1, d1, cs1) \<leftarrow> PartitionInstallGptChildHandles gx umax env dio d m cs;
       if detect_stops s1 then Some (Inr (s1, d1, cs1))
       else do {
         r2 \<leftarrow> PartitionInstallAppleChildHandles fuel env dio d1 m cs1;
         (case r2 of
             Inl _ \<Rightarrow> Some (Inl ())
           | Inr (s2, cs2) \<Rightarrow>
               if detect_stops s2 then Some (Inr (s2, d1, cs2))
               else do {
                 r3 \<leftarrow> PartitionInstallElToritoChildHandles fuel junk env dio d1 m cs2;
                 (case r3 of
                     Inl _ \<Rightarrow> Some (Inl ())
                   | Inr (s3, cs3) \<Rightarrow>
                       if detect_stops s3 then Some (Inr (s3, d1, cs3))
                       else do {
                         r4 \<leftarrow> PartitionInstallMbrChildHandles fuel env dio d1 m path cs3;
                         (case r4 of
                             Inl _ \<Rightarrow> Some (Inl ())
                           | Inr (s4, cs4) \<Rightarrow> Some (Inr (s4, d1, cs4))) }) }) } }"

section \<open>Start and stop\<close>

definition close_all :: "'d controller \<Rightarrow> 'd controller" where
  "close_all c = close_protocol P_DevicePath (close_protocol P_DiskIo2 (close_protocol P_DiskIo c))"

definition PartitionDriverBindingStart ::
  "nat \<Rightarrow> byte list \<Rightarrow> gpt_ext \<Rightarrow> u64 \<Rightarrow> part_env \<Rightarrow> 'd disk_io \<Rightarrow> remaining \<Rightarrow> 'd controller \<Rightarrow>
   (unit + (efi_status \<times> 'd controller)) option"
where
  "PartitionDriverBindingStart fuel junk gx umax env dio r c =
     (if r = RemEnd then Some (Inr (EFI_SUCCESS, c))
      else if EFI_ERROR (ct_avail c P_BlockIo) then Some (Inr (ct_avail c P_BlockIo, c))
      else if ct_own c then Some (Inr (EFI_ALREADY_STARTED, c))
      else (let (s1, c1) = open_by_driver P_DevicePath c in
        if EFI_ERROR s1 \<and> s1 \<noteq> EFI_ALREADY_STARTED then Some (Inr (s1, c1))
        else (let (s2, c2) = open_by_driver P_DiskIo c1 in
          if EFI_ERROR s2 \<and> s2 \<noteq> EFI_ALREADY_STARTED then Some (Inr (s2, close_protocol P_DevicePath c2))
          else (let (s3, c3) = open_by_driver P_DiskIo2 c2 in
            do {
              t \<leftarrow> (if ct_present c3 \<or> (ct_removable c3 \<and> \<not> ct_logical c3)
                   then detect fuel junk gx umax env dio (ct_disk c3) (ct_media c3) (ct_path c3) (ct_children c3)
                   else Some (Inr (EFI_UNSUPPORTED, ct_disk c3, ct_children c3)));
              (case t of
                  Inl _ \<Rightarrow> Some (Inl ())
                | Inr (s, d', cs') \<Rightarrow>
                    (let c4 = c3\<lparr>ct_disk := d', ct_children := cs'\<rparr> in
                     if EFI_ERROR s \<and> \<not> EFI_ERROR s2 \<and> s \<noteq> EFI_MEDIA_CHANGED \<and> \<not> (ct_present c3 \<and> s = EFI_NO_MEDIA)
                     then Some (Inr (s, close_all c4))
                     else Some (Inr (s, c4)))) }))))"

text \<open>
  Stopping: without children the controller's protocols are closed; otherwise each child named is
  uninstalled, and one whose uninstallation fails stays.
\<close>

fun stop_children :: "(child \<Rightarrow> efi_status) \<Rightarrow> child list \<Rightarrow> child list \<Rightarrow> bool \<times> child list" where
  "stop_children uninstall [] kids = (True, kids)"
| "stop_children uninstall (k # ks) kids =
     (if EFI_ERROR (uninstall k)
      then (let (b, kids') = stop_children uninstall ks kids in (False, kids'))
      else stop_children uninstall ks (remove1 k kids))"

definition PartitionDriverBindingStop ::
  "(child \<Rightarrow> efi_status) \<Rightarrow> child list \<Rightarrow> 'd controller \<Rightarrow> efi_status \<times> 'd controller"
where
  "PartitionDriverBindingStop uninstall ks c =
     (if ks = [] then (EFI_SUCCESS, close_all c)
      else (let (b, kids) = stop_children uninstall ks (ct_children c) in
        (if b then EFI_SUCCESS else EFI_DEVICE_ERROR, c\<lparr>ct_children := kids\<rparr>)))"

section \<open>Properties\<close>

text \<open>
  The driver keeps its opens balanced. The test changes nothing on the controller; a start on a
  controller where nothing is open either ends with the protocols of a working driver open, or,
  when it fails for another reason than a change of the medium, with nothing open.
\<close>

theorem driver_opens_balanced:
  assumes "ct_open c = {}" "\<And>p. ct_avail c p \<noteq> EFI_ALREADY_STARTED"
  shows "snd (PartitionDriverBindingSupported r c) = c \<and>
     (PartitionDriverBindingStart fuel junk gx umax env dio r c = Some (Inr (s, c')) \<longrightarrow>
        ct_open c' = {} \<or>
        {P_DevicePath, P_DiskIo} \<subseteq> ct_open c' \<and> ct_open c' \<subseteq> {P_DevicePath, P_DiskIo, P_DiskIo2} \<and>
        (\<not> EFI_ERROR s \<or> s = EFI_MEDIA_CHANGED \<or> s = EFI_NO_MEDIA))"
proof (intro conjI impI)
  show "snd (PartitionDriverBindingSupported r c) = c"
    using assms by (cases c) (auto simp: PartitionDriverBindingSupported_def open_by_driver_def close_protocol_def Let_def)
next
  assume run: "PartitionDriverBindingStart fuel junk gx umax env dio r c = Some (Inr (s, c'))"
  let ?goal = "ct_open c' = {} \<or> {P_DevicePath, P_DiskIo} \<subseteq> ct_open c' \<and> ct_open c' \<subseteq> {P_DevicePath, P_DiskIo, P_DiskIo2} \<and>
        (\<not> EFI_ERROR s \<or> s = EFI_MEDIA_CHANGED \<or> s = EFI_NO_MEDIA)"
  consider (early) "r = RemEnd \<or> EFI_ERROR (ct_avail c P_BlockIo) \<or> ct_own c \<or> EFI_ERROR (ct_avail c P_DevicePath) \<or> EFI_ERROR (ct_avail c P_DiskIo)"
    | (go) "r \<noteq> RemEnd" "\<not> EFI_ERROR (ct_avail c P_BlockIo)" "\<not> ct_own c" "\<not> EFI_ERROR (ct_avail c P_DevicePath)" "\<not> EFI_ERROR (ct_avail c P_DiskIo)"
    by blast
  then show ?goal
  proof cases
    case early
    then show ?thesis
      using run assms by (auto simp: PartitionDriverBindingStart_def open_by_driver_def close_protocol_def Let_def split: if_splits)
  next
    case go
    define c2 where "c2 = c\<lparr>ct_open := {P_DevicePath, P_DiskIo}\<rparr>"
    have o: "open_by_driver P_DevicePath c = (EFI_SUCCESS, c\<lparr>ct_open := {P_DevicePath}\<rparr>)"
      "open_by_driver P_DiskIo (c\<lparr>ct_open := {P_DevicePath}\<rparr>) = (EFI_SUCCESS, c2)"
      using go assms by (auto simp: open_by_driver_def c2_def insert_commute)
    obtain s3 c3 where o3: "open_by_driver P_DiskIo2 c2 = (s3, c3)"
      by fastforce
    have c3: "{P_DevicePath, P_DiskIo} \<subseteq> ct_open c3" "ct_open c3 \<subseteq> {P_DevicePath, P_DiskIo, P_DiskIo2}"
      using o3 by (auto simp: open_by_driver_def c2_def split: if_splits)
    have "ct_open c' = (if EFI_ERROR s \<and> s \<noteq> EFI_MEDIA_CHANGED \<and> \<not> (ct_present c3 \<and> s = EFI_NO_MEDIA)
        then ct_open c3 - {P_DiskIo} - {P_DiskIo2} - {P_DevicePath} else ct_open c3)"
      using run go o o3
      by (auto simp: PartitionDriverBindingStart_def Let_def close_all_def close_protocol_def
          split: if_splits bind_splits sum.splits prod.splits)
    then show ?thesis
      using c3 by (auto split: if_splits)
  qed
qed

lemma driver_opens_balanced_witness:
  "let c = \<lparr>ct_open = {}, ct_avail = (\<lambda>p. if p = P_DiskIo2 then EFI_UNSUPPORTED else EFI_SUCCESS), ct_own = False, ct_present = False,
      ct_removable = False, ct_logical = False, ct_media = er_media, ct_path = [], ct_disk = (), ct_children = []\<rparr> in
   snd (PartitionDriverBindingSupported NoRemaining c) = c"
  unfolding Let_def
  by (rule conjunct1 [OF driver_opens_balanced [where fuel = 0 and junk = "[]" and gx = len_crc and umax = 0 and env = ok_env
        and dio = disc_dio and s = EFI_SUCCESS and c' = undefined]]) auto

text \<open>
  A driver descriptor without a partition map hides the other schemes. On a disk without a
  protective record whose first map block lacks the signature, the Apple routine returns success with
  no child and the detection stops there: neither El Torito nor the master boot record is tried.
\<close>

theorem apple_descriptor_hides_mbr:
  assumes "PartitionInstallGptChildHandles gx umax env dio d m cs = Some (EFI_NOT_FOUND, d, cs)"
    and "sector0 dio d m = Inr buf" "be16 buf 0 = Some 0x4552" "be16 buf 2 = Some blk" "blk \<noteq> 0"
    and "pe_pool env = (\<lambda>n. True)" "unat blk dvd unat (BlockSize m)"
    and "dio_read dio d (MediaId m) (ucast blk) (unat blk) = Inr ent" "be16 ent 0 = Some sig" "sig \<noteq> 0x504D"
  shows "detect (Suc (Suc fuel)) junk gx umax env dio d m path cs = Some (Inr (EFI_SUCCESS, d, cs))"
  using assms(1) apple_no_signature [OF assms(2-10)] by (simp add: detect_def detect_stops_def)

lemma zero_partition: "446 + 16 * i + 16 \<le> 512 \<Longrightarrow> mbr_partition (er_block hi lo) i =
    Some \<lparr>BootIndicator = 0, OSIndicator = 0, StartingLBA = 0, SizeInLBA = 0\<rparr>"
proof -
  assume i: "446 + 16 * i + 16 \<le> 512"
  have z: "rd (er_block hi lo) k = Some 0" if "4 \<le> k" "k < 512" for k
    using that by (simp add: er_block_def nth_append nth_Cons')
  have z4: "le32 (er_block hi lo) k = Some 0" if "4 \<le> k" "k + 4 \<le> 512" for k
  proof -
    have "rd_range (er_block hi lo) k 4 = Some (replicate 4 0)"
      using that by (simp add: er_block_def rd_range_def drop_Cons' min_def)
    then show ?thesis by (simp add: le32_def le_value_zeros)
  qed
  show ?thesis
    using i by (simp add: mbr_partition_def Let_def z z4)
qed

lemma apple_descriptor_hides_mbr_witness:
  "detect (Suc (Suc 0)) [] len_crc 0 ok_env flat_dio (er_block 2 0 @ replicate 512 0) er_media [] [] =
     Some (Inr (EFI_SUCCESS, er_block 2 0 @ replicate 512 0, []))"
proof -
  let ?d = "er_block 2 0 @ replicate 512 0"
  have z: "be16 (replicate 512 (0 :: byte)) 0 = Some 0"
    by (simp add: be16_def rd_range_def le_value_zeros)
  have idx: "[0..<4] = [0, 1, 2, 3]"
    by code_simp
  have "pmbr_scan (er_block 2 0) [0..<4] = Some False"
    unfolding idx by (simp add: zero_partition PMBR_GPT_PARTITION_def)
  then have g: "PartitionInstallGptChildHandles len_crc 0 ok_env flat_dio ?d er_media [] = Some (EFI_NOT_FOUND, ?d, [])"
    using er_sector0 [OF er_block_fields(3), of 2 0 "replicate 512 0"]
    by (simp add: PartitionInstallGptChildHandles_def sector0_def ok_env_def)
  show ?thesis
    by (rule apple_descriptor_hides_mbr [OF g er_sector0 [OF er_block_fields(3)] er_block_fields(1,2) _ _ _ _ z])
      (simp_all add: ok_env_def er_media_def flat_dio_def er_block_fields(3))
qed

text \<open>
  Stopping removes exactly the named children whose protocols could be uninstalled, keeps the
  others and reports an error just when one was kept.
\<close>

theorem stop_children_exact:
  assumes "distinct kids" "set ks \<subseteq> set kids" "distinct ks" "ks \<noteq> []" "ct_children c = kids"
  shows "PartitionDriverBindingStop uninstall ks c =
     (if \<exists>k\<in>set ks. EFI_ERROR (uninstall k) then EFI_DEVICE_ERROR else EFI_SUCCESS,
      c\<lparr>ct_children := filter (\<lambda>k. k \<notin> set ks \<or> EFI_ERROR (uninstall k)) kids\<rparr>)"
proof -
  have "stop_children uninstall ks kids =
      (\<not> (\<exists>k\<in>set ks. EFI_ERROR (uninstall k)), filter (\<lambda>k. k \<notin> set ks \<or> EFI_ERROR (uninstall k)) kids)"
    using assms(1-3)
  proof (induction ks arbitrary: kids)
    case Nil
    then show ?case by simp
  next
    case (Cons k ks)
    show ?case
    proof (cases "EFI_ERROR (uninstall k)")
      case True
      then show ?thesis
        using Cons by (auto intro: filter_cong)
    next
      case False
      have "stop_children uninstall ks (remove1 k kids) =
          (\<not> (\<exists>k\<in>set ks. EFI_ERROR (uninstall k)), filter (\<lambda>k. k \<notin> set ks \<or> EFI_ERROR (uninstall k)) (remove1 k kids))"
        using Cons.prems by (intro Cons.IH) auto
      moreover have "filter (\<lambda>k. k \<notin> set ks \<or> EFI_ERROR (uninstall k)) (remove1 k kids) =
          filter (\<lambda>k'. k' \<notin> set (k # ks) \<or> EFI_ERROR (uninstall k')) kids"
        using Cons.prems(1) False by (simp add: distinct_remove1_removeAll removeAll_filter_not_eq) (rule filter_cong, auto)
      ultimately show ?thesis
        using False by simp
    qed
  qed
  then show ?thesis
    using assms(4,5) by (simp add: PartitionDriverBindingStop_def)
qed

lemma stop_children_exact_witness:
  "PartitionDriverBindingStop (\<lambda>k. if ch_start k = 0 then EFI_DEVICE_ERROR else EFI_SUCCESS) [demo_child 0, demo_child 4]
     \<lparr>ct_open = {}, ct_avail = (\<lambda>p. EFI_SUCCESS), ct_own = False, ct_present = False, ct_removable = False, ct_logical = False,
      ct_media = er_media, ct_path = [], ct_disk = (), ct_children = [demo_child 4, demo_child 0, demo_child 8]\<rparr> =
   (EFI_DEVICE_ERROR,
     \<lparr>ct_open = {}, ct_avail = (\<lambda>p. EFI_SUCCESS), ct_own = False, ct_present = False, ct_removable = False, ct_logical = False,
      ct_media = er_media, ct_path = [], ct_disk = (), ct_children = [demo_child 0, demo_child 8]\<rparr>)"
  by (subst stop_children_exact [where kids = "[demo_child 4, demo_child 0, demo_child 8]"]) (auto simp: demo_child_def)

end
