(* ===== verification/PartAsync.thy ===== *)
theory PartAsync
  imports PartDisk "HOL-Library.Multiset"
begin

text \<open>
  The non-blocking accesses of \<^verbatim>\<open>PartitionDxe/Partition.c\<close> (\<open>PartitionReadBlocksEx\<close>,
  \<open>PartitionWriteBlocksEx\<close>, \<open>PartitionFlushBlocksEx\<close>): each request with an event gets a task that
  carries the caller's token until \<open>PartitionOnAccessComplete\<close> signals it.

  The state has the live tasks with their tokens, the freed ones in order, and the tokens signalled
  with their status. The disk (\<open>EFI_DISK_IO2_PROTOCOL\<close>), the allocator and the event service are
  arguments. A completion of a task that is not live would be a use after free: \<open>None\<close>.
\<close>

record io2_state =
  io_next :: nat
  io_tasks :: "(nat \<times> nat) list"
  io_freed :: "nat list"
  io_signals :: "(nat \<times> efi_status) list"

datatype io2_req = ReadReq u32 u64 u64 | WriteReq u32 u64 u64 | FlushReq

record io2_env =
  ie_pool :: bool
  ie_event :: efi_status
  ie_probe :: "u32 \<Rightarrow> efi_status"
  ie_dev :: "io2_req \<Rightarrow> nat option \<Rightarrow> efi_status"

definition ProbeMediaStatusEx :: "io2_env \<Rightarrow> u32 \<Rightarrow> efi_status \<Rightarrow> efi_status" where
  "ProbeMediaStatusEx e mid dflt =
     (let s = ie_probe e mid in if s = EFI_NO_MEDIA \<or> s = EFI_MEDIA_CHANGED then s else dflt)"

definition free_task :: "nat \<Rightarrow> io2_state \<Rightarrow> io2_state" where
  "free_task tid st = st\<lparr>io_tasks := filter (\<lambda>t. fst t \<noteq> tid) (io_tasks st), io_freed := io_freed st @ [tid]\<rparr>"

definition PartitionCreateAccessTask :: "io2_env \<Rightarrow> nat \<Rightarrow> io2_state \<Rightarrow> nat option \<times> io2_state" where
  "PartitionCreateAccessTask e tok st =
     (if \<not> ie_pool e then (None, st)
      else (let tid = io_next st; st1 = st\<lparr>io_next := tid + 1\<rparr> in
        if EFI_ERROR (ie_event e) then (None, free_task tid st1)
        else (Some tid, st1\<lparr>io_tasks := io_tasks st1 @ [(tid, tok)]\<rparr>)))"

text \<open>The common end of the three operations; a token without an event is \<open>None\<close>.\<close>

definition submit :: "io2_env \<Rightarrow> io2_req \<Rightarrow> nat option \<Rightarrow> io2_state \<Rightarrow> efi_status \<times> io2_state" where
  "submit e req tok st =
     (case tok of
        None \<Rightarrow> (ie_dev e req None, st)
      | Some t \<Rightarrow>
          (case PartitionCreateAccessTask e t st of
             (None, st1) \<Rightarrow> (EFI_OUT_OF_RESOURCES, st1)
           | (Some tid, st1) \<Rightarrow>
               (let s = ie_dev e req (Some tid) in if EFI_ERROR s then (s, free_task tid st1) else (s, st1))))"

definition ex_offset :: "io2_env \<Rightarrow> child \<Rightarrow> u32 \<Rightarrow> u64 \<Rightarrow> u64 \<Rightarrow> (efi_status + u64) option" where
  "ex_offset e ch mid lba bufsize =
     (if ch_block_size ch = 0 then None
      else if bufsize mod ucast (ch_block_size ch) \<noteq> 0 then Some (Inl (ProbeMediaStatusEx e mid EFI_BAD_BUFFER_SIZE))
      else (let offset = MultU64x32 lba (ch_block_size ch) + ch_start ch in
        if offset + bufsize > ch_end ch then Some (Inl (ProbeMediaStatusEx e mid EFI_INVALID_PARAMETER))
        else Some (Inr offset)))"

definition PartitionReadBlocksEx ::
  "io2_env \<Rightarrow> child \<Rightarrow> u32 \<Rightarrow> u64 \<Rightarrow> nat option \<Rightarrow> u64 \<Rightarrow> io2_state \<Rightarrow> (efi_status \<times> io2_state) option"
where
  "PartitionReadBlocksEx e ch mid lba tok bufsize st =
     do {
       r \<leftarrow> ex_offset e ch mid lba bufsize;
       Some (case r of Inl s \<Rightarrow> (s, st) | Inr offset \<Rightarrow> submit e (ReadReq mid offset bufsize) tok st) }"

definition PartitionWriteBlocksEx ::
  "io2_env \<Rightarrow> child \<Rightarrow> u32 \<Rightarrow> u64 \<Rightarrow> nat option \<Rightarrow> u64 \<Rightarrow> io2_state \<Rightarrow> (efi_status \<times> io2_state) option"
where
  "PartitionWriteBlocksEx e ch mid lba tok bufsize st =
     do {
       r \<leftarrow> ex_offset e ch mid lba bufsize;
       Some (case r of Inl s \<Rightarrow> (s, st) | Inr offset \<Rightarrow> submit e (WriteReq mid offset bufsize) tok st) }"

definition PartitionFlushBlocksEx :: "io2_env \<Rightarrow> nat option \<Rightarrow> io2_state \<Rightarrow> efi_status \<times> io2_state" where
  "PartitionFlushBlocksEx e tok st = submit e FlushReq tok st"

definition PartitionOnAccessComplete :: "nat \<Rightarrow> efi_status \<Rightarrow> io2_state \<Rightarrow> io2_state option" where
  "PartitionOnAccessComplete tid status st =
     (case map_of (io_tasks st) tid of
        None \<Rightarrow> None
      | Some tok \<Rightarrow> Some (free_task tid (st\<lparr>io_signals := io_signals st @ [(tok, status)]\<rparr>)))"

section \<open>Runs\<close>

text \<open>
  A run interleaves requests and completions. The list records the tokens of the requests that were
  accepted; the firmware completes each of them at most once, in any order.
\<close>

inductive io2_step :: "io2_state \<times> nat list \<Rightarrow> io2_state \<times> nat list \<Rightarrow> bool" where
  read_step: "PartitionReadBlocksEx e ch mid lba tok n st = Some (s, st') \<Longrightarrow>
    io2_step (st, acc) (st', if EFI_ERROR s \<or> tok = None then acc else acc @ [the tok])"
| write_step: "PartitionWriteBlocksEx e ch mid lba tok n st = Some (s, st') \<Longrightarrow>
    io2_step (st, acc) (st', if EFI_ERROR s \<or> tok = None then acc else acc @ [the tok])"
| flush_step: "PartitionFlushBlocksEx e tok st = (s, st') \<Longrightarrow>
    io2_step (st, acc) (st', if EFI_ERROR s \<or> tok = None then acc else acc @ [the tok])"
| complete_step: "PartitionOnAccessComplete tid status st = Some st' \<Longrightarrow> io2_step (st, acc) (st', acc)"

inductive io2_run :: "io2_state \<times> nat list \<Rightarrow> bool" where
  start: "io2_run (\<lparr>io_next = 0, io_tasks = [], io_freed = [], io_signals = []\<rparr>, [])"
| more: "io2_run x \<Longrightarrow> io2_step x y \<Longrightarrow> io2_run y"

inductive_cases io2_stepE: "io2_step (st, acc) y"

text \<open>Each task made so far is live or was freed, once; each accepted token is live or was signalled.\<close>

definition io2_inv :: "io2_state \<times> nat list \<Rightarrow> bool" where
  "io2_inv = (\<lambda>(st, acc).
     distinct (map fst (io_tasks st) @ io_freed st) \<and>
     set (map fst (io_tasks st) @ io_freed st) = {0..<io_next st} \<and>
     mset (map snd (io_tasks st)) + mset (map fst (io_signals st)) = mset acc)"

lemma inv_new_task:
  assumes "io2_inv (st, acc)"
  shows "io_next st \<notin> fst ` set (io_tasks st)" "io_next st \<notin> set (io_freed st)"
  using assms by (auto simp: io2_inv_def)

lemma filter_other: "tid \<notin> fst ` set ts \<Longrightarrow> filter (\<lambda>t. fst t \<noteq> tid) ts = ts"
  by (rule filter_True) auto

lemma submit_cases:
  assumes "submit e req (Some t) st = (s, st')" "io_next st \<notin> fst ` set (io_tasks st)"
  obtains "EFI_ERROR s" "st' = st"
    | "EFI_ERROR s" "st' = st\<lparr>io_next := Suc (io_next st), io_freed := io_freed st @ [io_next st]\<rparr>"
    | "\<not> EFI_ERROR s" "st' = st\<lparr>io_next := Suc (io_next st), io_tasks := io_tasks st @ [(io_next st, t)]\<rparr>"
proof -
  have f: "filter (\<lambda>t. fst t \<noteq> io_next st) (io_tasks st) = io_tasks st"
    by (rule filter_other [OF assms(2)])
  consider (nopool) "\<not> ie_pool e" | (noevent) "ie_pool e" "EFI_ERROR (ie_event e)"
    | (refused) "ie_pool e" "\<not> EFI_ERROR (ie_event e)" "EFI_ERROR (ie_dev e req (Some (io_next st)))"
    | (taken) "ie_pool e" "\<not> EFI_ERROR (ie_event e)" "\<not> EFI_ERROR (ie_dev e req (Some (io_next st)))"
    by blast
  then show ?thesis
  proof cases
    case nopool
    then show ?thesis
      using assms(1) that(1) by (simp add: submit_def PartitionCreateAccessTask_def)
  next
    case noevent
    then show ?thesis
      using assms(1) f that(2) by (simp add: submit_def PartitionCreateAccessTask_def free_task_def Let_def)
  next
    case refused
    then show ?thesis
      using assms(1) f that(2) by (simp add: submit_def PartitionCreateAccessTask_def free_task_def Let_def)
  next
    case taken
    then show ?thesis
      using assms(1) that(3) by (simp add: submit_def PartitionCreateAccessTask_def Let_def)
  qed
qed

lemma submit_inv:
  assumes "io2_inv (st, acc)" "submit e req tok st = (s, st')"
  shows "io2_inv (st', if EFI_ERROR s \<or> tok = None then acc else acc @ [the tok])"
proof (cases tok)
  case None
  then show ?thesis using assms by (simp add: submit_def)
next
  case (Some t)
  note new = inv_new_task [OF assms(1)]
  have up: "{0..<Suc (io_next st)} = insert (io_next st) {0..<io_next st}"
    by auto
  have inv: "distinct (map fst (io_tasks st) @ io_freed st)" "set (map fst (io_tasks st) @ io_freed st) = {0..<io_next st}"
    "mset (map snd (io_tasks st)) + mset (map fst (io_signals st)) = mset acc"
    using assms(1) by (simp_all add: io2_inv_def)
  show ?thesis
  proof (rule submit_cases [OF assms(2) [unfolded Some] new(1)])
    assume "EFI_ERROR s" "st' = st"
    then show ?thesis using assms(1) by simp
  next
    assume "EFI_ERROR s" "st' = st\<lparr>io_next := Suc (io_next st), io_freed := io_freed st @ [io_next st]\<rparr>"
    then show ?thesis
      using inv new by (simp add: io2_inv_def up flip: inv(2))
  next
    assume "\<not> EFI_ERROR s" "st' = st\<lparr>io_next := Suc (io_next st), io_tasks := io_tasks st @ [(io_next st, t)]\<rparr>"
    then show ?thesis
      using inv new Some by (simp add: io2_inv_def up flip: inv(2))
  qed
qed

lemma live_task_split:
  assumes "map_of ts tid = Some tok" "distinct (map fst ts)"
  shows "mset ts = add_mset (tid, tok) (mset (filter (\<lambda>t. fst t \<noteq> tid) ts))"
  using assms
proof (induction ts)
  case (Cons t ts)
  show ?case
  proof (cases "fst t = tid")
    case True
    then have "filter (\<lambda>t. fst t \<noteq> tid) ts = ts"
      using Cons.prems(2) by (intro filter_other) auto
    then show ?thesis
      using True Cons.prems(1) by (cases t) (auto simp flip: mset_filter)
  next
    case False
    then show ?thesis
      using Cons by (cases t) auto
  qed
qed simp

lemma complete_inv:
  assumes "io2_inv (st, acc)" "PartitionOnAccessComplete tid status st = Some st'"
  shows "io2_inv (st', acc)"
proof -
  obtain tok where tok: "map_of (io_tasks st) tid = Some tok"
    and st': "st' = free_task tid (st\<lparr>io_signals := io_signals st @ [(tok, status)]\<rparr>)"
    using assms(2) by (auto simp: PartitionOnAccessComplete_def split: option.splits)
  let ?ts = "filter (\<lambda>t. fst t \<noteq> tid) (io_tasks st)"
  have inv: "distinct (map fst (io_tasks st))" "distinct (io_freed st)" "fst ` set (io_tasks st) \<inter> set (io_freed st) = {}"
    "fst ` set (io_tasks st) \<union> set (io_freed st) = {0..<io_next st}"
    using assms(1) by (auto simp: io2_inv_def)
  have msplit: "mset (map snd (io_tasks st)) = add_mset tok (mset (map snd ?ts))"
    using arg_cong [OF live_task_split [OF tok inv(1)], of "image_mset snd"] by simp
  have mem: "tid \<in> fst ` set (io_tasks st)"
    using map_of_SomeD [OF tok] by force
  have fts: "fst ` set ?ts = fst ` set (io_tasks st) - {tid}"
    by auto
  have "distinct (map fst ?ts)"
    using inv(1) by (rule distinct_map_filter)
  moreover have "tid \<notin> set (io_freed st)" "fst ` set ?ts \<inter> set (io_freed st) = {}"
    using mem inv(3) fts by blast+
  ultimately have d: "distinct (map fst ?ts @ io_freed st @ [tid])"
    using inv(2) fts by (simp only: distinct_append set_append set_map) simp
  have u: "set (map fst ?ts @ io_freed st @ [tid]) = {0..<io_next st}"
    using inv(4) mem fts by (simp only: set_append set_map) auto
  have m: "mset (map snd ?ts) + mset (map fst (io_signals st @ [(tok, status)])) = mset acc"
    using assms(1) msplit by (simp add: io2_inv_def del: mset_filter mset_map)
  have proj: "io_tasks st' = ?ts" "io_freed st' = io_freed st @ [tid]" "io_signals st' = io_signals st @ [(tok, status)]"
    "io_next st' = io_next st"
    by (simp_all add: st' free_task_def)
  show ?thesis
    unfolding io2_inv_def prod.case proj by (intro conjI d u m)
qed

lemma ex_offset_error: "ex_offset e ch mid lba n = Some (Inl s) \<Longrightarrow> EFI_ERROR s"
  by (auto simp: ex_offset_def ProbeMediaStatusEx_def Let_def EFI_ERROR_def split: if_split_asm)

lemma access_inv:
  assumes "io2_inv (st, acc)"
    and "do { r \<leftarrow> ex_offset e ch mid lba n; Some (case r of Inl s \<Rightarrow> (s, st) | Inr off \<Rightarrow> submit e (req off) tok st) } = Some (s, st')"
  shows "io2_inv (st', if EFI_ERROR s \<or> tok = None then acc else acc @ [the tok])"
proof -
  obtain r where r: "ex_offset e ch mid lba n = Some r"
    and c: "(case r of Inl s \<Rightarrow> (s, st) | Inr off \<Rightarrow> submit e (req off) tok st) = (s, st')"
    using assms(2) by (auto split: bind_splits)
  show ?thesis
  proof (cases r)
    case (Inl s1)
    then show ?thesis
      using c ex_offset_error r assms(1) by simp
  next
    case (Inr off)
    then show ?thesis
      using c submit_inv [OF assms(1)] by simp
  qed
qed

lemma io2_step_inv: "io2_step x y \<Longrightarrow> io2_inv x \<Longrightarrow> io2_inv y"
proof (induction rule: io2_step.induct)
  case (read_step e ch mid lba tok n st s st' acc)
  then show ?case
    unfolding PartitionReadBlocksEx_def by (intro access_inv)
next
  case (write_step e ch mid lba tok n st s st' acc)
  then show ?case
    unfolding PartitionWriteBlocksEx_def by (intro access_inv)
next
  case (flush_step e tok st s st' acc)
  then show ?case
    unfolding PartitionFlushBlocksEx_def by (intro submit_inv)
next
  case (complete_step tid status st st' acc)
  then show ?case
    using complete_inv by blast
qed

text \<open>
  C14. In every interleaving of reads, writes, flushes and completions, with failures of the
  allocator, the event service and the disk at any point, each task that was made is live or has been
  freed exactly once, and each caller whose request was accepted is still waiting or has been
  signalled exactly once; a request that was refused is never signalled.
\<close>

theorem async_tasks_balanced:
  assumes "io2_run (st, acc)"
  shows "distinct (map fst (io_tasks st) @ io_freed st) \<and>
     set (map fst (io_tasks st) @ io_freed st) = {0..<io_next st} \<and>
     mset (map snd (io_tasks st)) + mset (map fst (io_signals st)) = mset acc"
proof -
  have "io2_inv x" if "io2_run x" for x
    using that
  proof (induction rule: io2_run.induct)
    case start
    then show ?case by (simp add: io2_inv_def)
  next
    case (more x y)
    then show ?case by (blast intro: io2_step_inv)
  qed
  from this [OF assms] show ?thesis
    by (simp add: io2_inv_def)
qed

lemma async_tasks_balanced_witness:
  "io2_run (\<lparr>io_next = 1, io_tasks = [], io_freed = [0], io_signals = [(7, EFI_SUCCESS)]\<rparr>, [7]) \<and>
     mset ([] :: nat list) + mset (map fst [(7 :: nat, EFI_SUCCESS)]) = mset [7]"
proof -
  let ?e = "\<lparr>ie_pool = True, ie_event = EFI_SUCCESS, ie_probe = (\<lambda>m. EFI_SUCCESS), ie_dev = (\<lambda>r t. EFI_SUCCESS)\<rparr>"
  let ?s0 = "\<lparr>io_next = 0, io_tasks = [], io_freed = [], io_signals = []\<rparr>"
  let ?s1 = "\<lparr>io_next = 1, io_tasks = [(0, 7)], io_freed = [], io_signals = []\<rparr>"
  let ?s2 = "\<lparr>io_next = 1, io_tasks = [], io_freed = [0], io_signals = [(7, EFI_SUCCESS)]\<rparr>"
  have "PartitionFlushBlocksEx ?e (Some 7) ?s0 = (EFI_SUCCESS, ?s1)"
    by (simp add: PartitionFlushBlocksEx_def submit_def PartitionCreateAccessTask_def)
  from io2_step.flush_step [OF this, of "[]"] have "io2_step (?s0, []) (?s1, [7])"
    by simp
  moreover have "io2_step (?s1, [7]) (?s2, [7])"
    by (rule io2_step.complete_step [of 0 EFI_SUCCESS]) (simp add: PartitionOnAccessComplete_def free_task_def)
  ultimately have run: "io2_run (?s2, [7])"
    by (blast intro: io2_run.intros)
  show ?thesis
    using async_tasks_balanced [OF run] run by simp
qed

end
