(* ===== verification/UsbMem.thy ===== *)
theory UsbMem
  imports Prelude
begin

text \<open>
  \<^verbatim>\<open>Speedup/Bus/Pci/EhciDxe/UsbHcMem.c\<close>: the memory pool of the EHCI driver. A block is a buffer of
  whole pages with a bit array, one bit for each unit of 64 bytes; the pool is the list of its blocks,
  the head first. Host addresses and \<^verbatim>\<open>UINTN\<close> sizes are natural numbers (no size comes near the end of the address space).

  The allocator of the boot services and \<^verbatim>\<open>EFI_PCI_IO_PROTOCOL\<close> are the record \<open>pci_env\<close>. The content
  of the memory is not modelled. \<open>ASSERT\<close> does nothing, as in a release build; \<open>None\<close> is an access out
  of bounds or through a NULL block. Pointers are those of a 64-bit machine.
\<close>

definition USBHC_MEM_UNIT :: nat where "USBHC_MEM_UNIT = 64"
definition USBHC_MEM_DEFAULT_PAGES :: nat where "USBHC_MEM_DEFAULT_PAGES = 16"
definition EFI_PAGES_TO_SIZE :: "nat \<Rightarrow> nat" where "EFI_PAGES_TO_SIZE p = p * 4096"
definition EFI_SIZE_TO_PAGES :: "nat \<Rightarrow> nat" where "EFI_SIZE_TO_PAGES n = n div 4096 + (if n mod 4096 = 0 then 0 else 1)"
definition USBHC_MEM_ROUND :: "nat \<Rightarrow> nat" where "USBHC_MEM_ROUND n = (n + 63) div 64 * 64"

record mem_block =
  mb_bits :: "byte list"
  mb_buf :: u64
  mb_host :: nat
  mb_len :: nat

record mem_pool =
  mp_check4g :: bool
  mp_which4g :: u32
  mp_blocks :: "mem_block list"

text \<open>\<open>pe_buffer\<close> gives the host address for a number of pages, \<open>pe_map\<close> the mapped length and bus address.\<close>

record pci_env =
  pe_zero :: "nat \<Rightarrow> bool"
  pe_buffer :: "nat \<Rightarrow> nat option"
  pe_map :: "nat \<Rightarrow> nat \<Rightarrow> (nat \<times> u64) option"

definition USB_HC_HIGH_32BIT :: "u64 \<Rightarrow> u32" where
  "USB_HC_HIGH_32BIT a = ucast (drop_bit 32 a)"

section \<open>Blocks\<close>

definition UsbHcAllocMemBlock :: "pci_env \<Rightarrow> mem_pool \<Rightarrow> nat \<Rightarrow> mem_block option" where
  "UsbHcAllocMemBlock e pool Pages =
     (let BufLen = EFI_PAGES_TO_SIZE Pages; BitsLen = BufLen div (USBHC_MEM_UNIT * 8) in
      if \<not> pe_zero e 56 \<or> \<not> pe_zero e BitsLen then None
      else (case pe_buffer e Pages of
          None \<Rightarrow> None
        | Some BufHost \<Rightarrow>
            (case pe_map e BufHost BufLen of
                None \<Rightarrow> None
              | Some (Bytes, MappedAddr) \<Rightarrow>
                  if Bytes \<noteq> BufLen then None
                  else if mp_check4g pool \<and> mp_which4g pool \<noteq> USB_HC_HIGH_32BIT MappedAddr then None
                  else Some \<lparr>mb_bits = replicate BitsLen 0, mb_buf = MappedAddr, mb_host = BufHost, mb_len = BufLen\<rparr>)))"

fun NEXT_BIT :: "nat \<times> nat \<Rightarrow> nat \<times> nat" where
  "NEXT_BIT (b, i) = (if i + 1 > 7 then (b + 1, 0) else (b, i + 1))"

text \<open>The search loop; the result is the number of units found and the start.\<close>

function alloc_scan :: "byte list \<Rightarrow> nat \<Rightarrow> nat \<times> nat \<Rightarrow> nat \<times> nat \<Rightarrow> nat \<Rightarrow> nat \<times> nat \<times> nat" where
  "alloc_scan bits Units (b, i) start Available =
     (if b < length bits then
        (if \<not> bit (bits ! b) i then
           (if Available + 1 \<ge> Units then (Available + 1, start)
            else alloc_scan bits Units (NEXT_BIT (b, i)) start (Available + 1))
         else alloc_scan bits Units (NEXT_BIT (b, i)) (NEXT_BIT (b, i)) 0)
      else (Available, start))"
  by pat_completeness auto
termination
  by (relation "measures [\<lambda>(bits, u, (b, i), s, a). length bits - b, \<lambda>(bits, u, (b, i), s, a). 8 - i]") auto

declare alloc_scan.simps [simp del]

fun set_units :: "byte list \<Rightarrow> nat \<times> nat \<Rightarrow> nat \<Rightarrow> byte list option" where
  "set_units bits (b, i) 0 = Some bits"
| "set_units bits (b, i) (Suc n) =
     do { x \<leftarrow> rd bits b; bits1 \<leftarrow> wr bits b (x OR push_bit i 1); set_units bits1 (NEXT_BIT (b, i)) n }"

fun toggle_units :: "byte list \<Rightarrow> nat \<times> nat \<Rightarrow> nat \<Rightarrow> byte list option" where
  "toggle_units bits (b, i) 0 = Some bits"
| "toggle_units bits (b, i) (Suc n) =
     do { x \<leftarrow> rd bits b; bits1 \<leftarrow> wr bits b (x XOR push_bit i 1); toggle_units bits1 (NEXT_BIT (b, i)) n }"

definition UsbHcAllocMemFromBlock :: "mem_block \<Rightarrow> nat \<Rightarrow> (nat option \<times> mem_block) option" where
  "UsbHcAllocMemFromBlock blk Units =
     (let (Available, b, i) = alloc_scan (mb_bits blk) Units (0, 0) (0, 0) 0 in
      if Available < Units then Some (None, blk)
      else do {
        bits \<leftarrow> set_units (mb_bits blk) (b, i) Units;
        Some (Some (mb_host blk + (b * 8 + i) * USBHC_MEM_UNIT), blk\<lparr>mb_bits := bits\<rparr>) })"

definition UsbHcIsMemBlockEmpty :: "mem_block \<Rightarrow> bool" where
  "UsbHcIsMemBlockEmpty blk \<longleftrightarrow> list_all (\<lambda>x. x = 0) (mb_bits blk)"

definition holds_mem :: "mem_block \<Rightarrow> nat \<Rightarrow> nat \<Rightarrow> bool" where
  "holds_mem blk Mem AllocSize \<longleftrightarrow> mb_host blk \<le> Mem \<and> Mem + AllocSize \<le> mb_host blk + mb_len blk"

section \<open>The pool\<close>

definition UsbHcInitMemPool :: "pci_env \<Rightarrow> bool \<Rightarrow> u32 \<Rightarrow> mem_pool option" where
  "UsbHcInitMemPool e Check4G Which4G =
     (if \<not> pe_zero e 32 then None
      else (let pool = \<lparr>mp_check4g = Check4G, mp_which4g = Which4G, mp_blocks = []\<rparr> in
        map_option (\<lambda>b. pool\<lparr>mp_blocks := [b]\<rparr>) (UsbHcAllocMemBlock e pool USBHC_MEM_DEFAULT_PAGES)))"

fun UsbHcInsertMemBlockToPool :: "mem_block list \<Rightarrow> mem_block \<Rightarrow> mem_block list option" where
  "UsbHcInsertMemBlockToPool [] blk = None"
| "UsbHcInsertMemBlockToPool (b # bs) blk = Some (b # blk # bs)"

text \<open>Unlinking compares pointers; a block is known by its host address. The head stays.\<close>

fun unlink_next :: "mem_block list \<Rightarrow> nat \<Rightarrow> mem_block list" where
  "unlink_next (b # c # bs) a = (if mb_host c = a then b # bs else b # unlink_next (c # bs) a)"
| "unlink_next bs a = bs"

definition UsbHcUnlinkMemBlock :: "mem_block list \<Rightarrow> mem_block \<Rightarrow> mem_block list" where
  "UsbHcUnlinkMemBlock bs blk = unlink_next bs (mb_host blk)"

fun alloc_first :: "mem_block list \<Rightarrow> nat \<Rightarrow> (nat option \<times> mem_block list) option" where
  "alloc_first [] Units = Some (None, [])"
| "alloc_first (b # bs) Units =
     do {
       (m, b') \<leftarrow> UsbHcAllocMemFromBlock b Units;
       (case m of
          Some a \<Rightarrow> Some (Some a, b' # bs)
        | None \<Rightarrow> do { (r, bs') \<leftarrow> alloc_first bs Units; Some (r, b' # bs') }) }"

definition UsbHcAllocateMem :: "pci_env \<Rightarrow> mem_pool \<Rightarrow> nat \<Rightarrow> (nat option \<times> mem_pool) option" where
  "UsbHcAllocateMem e pool Size =
     (let AllocSize = USBHC_MEM_ROUND Size; Units = AllocSize div USBHC_MEM_UNIT in
      do {
        (m, bs) \<leftarrow> alloc_first (mp_blocks pool) Units;
        (case m of
           Some a \<Rightarrow> Some (Some a, pool\<lparr>mp_blocks := bs\<rparr>)
         | None \<Rightarrow>
             (let Pages = (if AllocSize > EFI_PAGES_TO_SIZE USBHC_MEM_DEFAULT_PAGES
                 then EFI_SIZE_TO_PAGES AllocSize + 1 else USBHC_MEM_DEFAULT_PAGES) in
              case UsbHcAllocMemBlock e pool Pages of
                None \<Rightarrow> Some (None, pool\<lparr>mp_blocks := bs\<rparr>)
              | Some blk \<Rightarrow> do {
                  (r, blk') \<leftarrow> UsbHcAllocMemFromBlock blk Units;
                  bs' \<leftarrow> UsbHcInsertMemBlockToPool bs blk';
                  Some (r, pool\<lparr>mp_blocks := bs'\<rparr>) })) })"

text \<open>The bits of the units are toggled. Memory that no block holds ends in a NULL dereference.\<close>

fun free_in :: "mem_block list \<Rightarrow> nat \<Rightarrow> nat \<Rightarrow> (mem_block \<times> mem_block list) option" where
  "free_in [] Mem AllocSize = None"
| "free_in (b # bs) Mem AllocSize =
     (if holds_mem b Mem AllocSize then
        (let u = (Mem - mb_host b) div USBHC_MEM_UNIT in
         do {
           bits \<leftarrow> toggle_units (mb_bits b) (u div 8, u mod 8) (AllocSize div USBHC_MEM_UNIT);
           Some (b\<lparr>mb_bits := bits\<rparr>, b\<lparr>mb_bits := bits\<rparr> # bs) })
      else do { (c, bs') \<leftarrow> free_in bs Mem AllocSize; Some (c, b # bs') })"

definition UsbHcFreeMem :: "mem_pool \<Rightarrow> nat \<Rightarrow> nat \<Rightarrow> mem_pool option" where
  "UsbHcFreeMem pool Mem Size =
     do {
       (blk, bs) \<leftarrow> free_in (mp_blocks pool) Mem (USBHC_MEM_ROUND Size);
       if mb_host blk \<noteq> mb_host (hd bs) \<and> UsbHcIsMemBlockEmpty blk
       then Some (pool\<lparr>mp_blocks := UsbHcUnlinkMemBlock bs blk\<rparr>)
       else Some (pool\<lparr>mp_blocks := bs\<rparr>) }"

text \<open>\<open>UsbHcFreeMemBlock\<close> unmaps the buffer and gives back its pages; the result of \<open>UsbHcFreeMemPool\<close> is the
  sequence of these buffers, as pairs of the host address and the number of pages.\<close>

definition UsbHcFreeMemBlock :: "mem_block \<Rightarrow> nat \<times> nat" where
  "UsbHcFreeMemBlock blk = (mb_host blk, EFI_SIZE_TO_PAGES (mb_len blk))"

function UsbHcFreeMemPool :: "mem_block list \<Rightarrow> (nat \<times> nat) list" where
  "UsbHcFreeMemPool [] = []"
| "UsbHcFreeMemPool [b] = [UsbHcFreeMemBlock b]"
| "UsbHcFreeMemPool (b # c # bs) = UsbHcFreeMemBlock c # UsbHcFreeMemPool (UsbHcUnlinkMemBlock (b # c # bs) c)"
  by pat_completeness auto
termination
  by (relation "measure length") (auto simp: UsbHcUnlinkMemBlock_def)

definition UsbHcGetPciAddressForHostMem :: "mem_pool \<Rightarrow> nat \<Rightarrow> nat \<Rightarrow> u64 option" where
  "UsbHcGetPciAddressForHostMem pool Mem Size =
     (if Mem = 0 then Some 0
      else (case find (\<lambda>b. holds_mem b Mem (USBHC_MEM_ROUND Size)) (mp_blocks pool) of
          None \<Rightarrow> None
        | Some b \<Rightarrow> Some (mb_buf b + of_nat (Mem - mb_host b))))"

end
