(* ===== verification/UsbMemFacts.thy ===== *)
theory UsbMemFacts
  imports UsbMem
begin

text \<open>
  Facts on the EHCI memory pool of \<^verbatim>\<open>UsbHcMem.c\<close>. The bit array of a block is read as the set of its
  used units; the block allocator is shown to be a first fit on this set. The pool is read as the set
  of its used addresses. The locale \<open>region_allocator\<close> states what a user of the pool relies on; its
  client lemmas keep a ledger of the regions handed out, and the pool's functions interpret it.
\<close>

section \<open>The bit array as a set of units\<close>

definition bit_at :: "byte list \<Rightarrow> nat \<Rightarrow> bool" where
  "bit_at bits k = bit (bits ! (k div 8)) (k mod 8)"

definition units :: "byte list \<Rightarrow> nat set" where
  "units bits = {k. k < 8 * length bits \<and> bit_at bits k}"

lemma NEXT_BIT_index: "NEXT_BIT (n div 8, n mod 8) = (Suc n div 8, Suc n mod 8)"
  by (auto simp: div_Suc mod_Suc)

definition blocked :: "byte list \<Rightarrow> nat \<Rightarrow> nat \<Rightarrow> bool" where
  "blocked bits U t \<longleftrightarrow> (\<exists>k. t \<le> k \<and> k < t + U \<and> k < 8 * length bits \<and> bit_at bits k)"

lemma alloc_scan_spec:
  assumes "s \<le> n" "n - s < U" "n \<le> 8 * length bits" "\<forall>k. s \<le> k \<and> k < n \<longrightarrow> \<not> bit_at bits k" "\<forall>t < s. blocked bits U t"
  shows "(\<exists>r. alloc_scan bits U (n div 8, n mod 8) (s div 8, s mod 8) (n - s) = (U, r div 8, r mod 8) \<and>
            r + U \<le> 8 * length bits \<and> (\<forall>k. r \<le> k \<and> k < r + U \<longrightarrow> \<not> bit_at bits k) \<and> (\<forall>t < r. blocked bits U t)) \<or>
     (\<exists>a r. alloc_scan bits U (n div 8, n mod 8) (s div 8, s mod 8) (n - s) = (a, r) \<and> a < U \<and>
            (\<forall>t. t + U \<le> 8 * length bits \<longrightarrow> blocked bits U t))"
  using assms
proof (induction "8 * length bits - n" arbitrary: n s)
  case 0
  then have n: "n = 8 * length bits" by simp
  then have sc: "alloc_scan bits U (n div 8, n mod 8) (s div 8, s mod 8) (n - s) = (n - s, s div 8, s mod 8)"
    by (subst alloc_scan.simps) simp
  have "blocked bits U t" if "t + U \<le> 8 * length bits" for t
    using that 0(3,6) n by (cases "t < s") auto
  then show ?case
    using sc 0(3) by blast
next
  case (Suc d)
  then have n: "n < 8 * length bits" by simp
  then have b: "n div 8 < length bits" by auto
  have d: "d = 8 * length bits - Suc n"
    using Suc(2) by simp
  note step = alloc_scan.simps [of bits U "n div 8" "n mod 8" "(s div 8, s mod 8)" "n - s"]
  show ?case
  proof (cases "bit_at bits n")
    case True
    have "blocked bits U t" if "t < Suc n" for t
      using that True n Suc.prems(1,2,5) by (cases "t < s") (auto simp: blocked_def intro!: exI [of _ n])
    then show ?thesis
      using Suc(1) [OF d, of "Suc n"] Suc.prems n b True NEXT_BIT_index [of n]
      unfolding step by (simp add: bit_at_def [symmetric] del: NEXT_BIT.simps)
  next
    case False
    show ?thesis
    proof (cases "n - s + 1 \<ge> U")
      case True
      then have U: "n - s + 1 = U"
        using Suc.prems(2) by simp
      have "alloc_scan bits U (n div 8, n mod 8) (s div 8, s mod 8) (n - s) = (U, s div 8, s mod 8)"
        unfolding step using b False U by (simp add: bit_at_def)
      moreover have "s + U \<le> 8 * length bits"
        using U n Suc.prems(1) by simp
      moreover have "\<forall>k. s \<le> k \<and> k < s + U \<longrightarrow> \<not> bit_at bits k"
        using Suc.prems(1,4) False U by (metis Suc_eq_plus1 add_Suc_right le_add_diff_inverse less_antisym)
      ultimately show ?thesis
        using Suc.prems(5) by blast
    next
      case more: False
      have clear: "\<forall>k. s \<le> k \<and> k < Suc n \<longrightarrow> \<not> bit_at bits k"
        using Suc.prems(4) False less_antisym by blast
      have "alloc_scan bits U (n div 8, n mod 8) (s div 8, s mod 8) (n - s) =
          alloc_scan bits U (Suc n div 8, Suc n mod 8) (s div 8, s mod 8) (Suc n - s)"
        unfolding step using b False more NEXT_BIT_index [of n] Suc.prems(1)
        by (simp add: bit_at_def Suc_diff_le del: NEXT_BIT.simps)
      then show ?thesis
        using Suc(1) [OF d _ _ _ clear Suc.prems(5)] Suc.prems(1) more n by simp
    qed
  qed
qed

lemma bit_single [simp]: "bit (push_bit i 1 :: byte) j \<longleftrightarrow> j = i \<and> i < 8"
  by (auto simp: bit_simps)

lemma bit_power [simp]: "bit (2 ^ i :: byte) j \<longleftrightarrow> j = i \<and> i < 8"
  using bit_single [of i j] by (simp only: push_bit_eq_mult mult_1)

lemma bit_at_or:
  assumes "n < 8 * length bits" "k < 8 * length bits"
  shows "bit_at (bits[n div 8 := bits ! (n div 8) OR push_bit (n mod 8) 1]) k \<longleftrightarrow> bit_at bits k \<or> k = n"
proof (cases "k div 8 = n div 8")
  case True
  then have "k = n \<longleftrightarrow> k mod 8 = n mod 8"
    by (metis div_mod_decomp)
  then show ?thesis
    using True assms by (auto simp: bit_at_def bit_or_iff)
next
  case False
  then show ?thesis
    by (auto simp: bit_at_def nth_list_update)
qed

lemma bit_at_xor:
  assumes "n < 8 * length bits" "k < 8 * length bits"
  shows "bit_at (bits[n div 8 := bits ! (n div 8) XOR push_bit (n mod 8) 1]) k \<longleftrightarrow> (bit_at bits k \<noteq> (k = n))"
proof (cases "k div 8 = n div 8")
  case True
  then have "k = n \<longleftrightarrow> k mod 8 = n mod 8"
    by (metis div_mod_decomp)
  then show ?thesis
    using True assms by (auto simp: bit_at_def bit_xor_iff)
next
  case False
  then show ?thesis
    by (auto simp: bit_at_def nth_list_update)
qed

lemma set_units_spec:
  assumes "n + U \<le> 8 * length bits"
  shows "\<exists>bits'. set_units bits (n div 8, n mod 8) U = Some bits' \<and> length bits' = length bits \<and>
     units bits' = units bits \<union> {n..<n + U}"
  using assms
proof (induction U arbitrary: n bits)
  case 0
  then show ?case by simp
next
  case (Suc U)
  let ?b1 = "bits[n div 8 := bits ! (n div 8) OR push_bit (n mod 8) 1]"
  have n: "n < 8 * length bits" "n div 8 < length bits"
    using Suc.prems by auto
  have "units ?b1 = insert n (units bits)"
    using bit_at_or [OF n(1)] n(1) by (auto simp: units_def)
  moreover obtain bits' where "set_units ?b1 (Suc n div 8, Suc n mod 8) U = Some bits'" "length bits' = length ?b1"
    "units bits' = units ?b1 \<union> {Suc n..<Suc n + U}"
    using Suc.IH [of "Suc n" ?b1] Suc.prems by auto
  moreover have "{n..<n + Suc U} = insert n {Suc n..<Suc n + U}"
    by auto
  ultimately show ?case
    using n NEXT_BIT_index [of n] by (simp del: NEXT_BIT.simps)
qed

lemma toggle_units_spec:
  assumes "n + U \<le> 8 * length bits" "{n..<n + U} \<subseteq> units bits"
  shows "\<exists>bits'. toggle_units bits (n div 8, n mod 8) U = Some bits' \<and> length bits' = length bits \<and>
     units bits' = units bits - {n..<n + U}"
  using assms
proof (induction U arbitrary: n bits)
  case 0
  then show ?case by simp
next
  case (Suc U)
  let ?b1 = "bits[n div 8 := bits ! (n div 8) XOR push_bit (n mod 8) 1]"
  have n: "n < 8 * length bits" "n div 8 < length bits"
    using Suc.prems(1) by auto
  have "n \<in> units bits"
    by (rule subsetD [OF Suc.prems(2)]) simp
  then have "bit_at bits n"
    by (simp add: units_def)
  then have u: "units ?b1 = units bits - {n}"
    using bit_at_xor [OF n(1)] n(1) by (auto simp: units_def)
  moreover obtain bits' where "toggle_units ?b1 (Suc n div 8, Suc n mod 8) U = Some bits'" "length bits' = length ?b1"
    "units bits' = units ?b1 - {Suc n..<Suc n + U}"
    using Suc.IH [of "Suc n" ?b1] Suc.prems u by (auto simp: subset_iff)
  moreover have "{n..<n + Suc U} = insert n {Suc n..<Suc n + U}"
    by auto
  ultimately show ?case
    using n NEXT_BIT_index [of n] by (auto simp del: NEXT_BIT.simps)
qed

lemma block_alloc_spec:
  assumes "0 < U"
  shows "(\<exists>r b'. UsbHcAllocMemFromBlock blk U = Some (Some (mb_host blk + r * 64), b') \<and> r + U \<le> 8 * length (mb_bits blk) \<and>
            {r..<r + U} \<inter> units (mb_bits blk) = {} \<and> (\<forall>t < r. {t..<t + U} \<inter> units (mb_bits blk) \<noteq> {}) \<and>
            b' = blk\<lparr>mb_bits := mb_bits b'\<rparr> \<and> length (mb_bits b') = length (mb_bits blk) \<and>
            units (mb_bits b') = units (mb_bits blk) \<union> {r..<r + U}) \<or>
     UsbHcAllocMemFromBlock blk U = Some (None, blk) \<and>
       (\<forall>t. t + U \<le> 8 * length (mb_bits blk) \<longrightarrow> {t..<t + U} \<inter> units (mb_bits blk) \<noteq> {})"
proof -
  let ?bits = "mb_bits blk"
  have bl: "blocked ?bits U t \<longleftrightarrow> {t..<t + U} \<inter> units ?bits \<noteq> {}" for t
    by (auto simp: blocked_def units_def)
  consider (found) r where "alloc_scan ?bits U (0, 0) (0, 0) 0 = (U, r div 8, r mod 8)" "r + U \<le> 8 * length ?bits"
      "\<forall>k. r \<le> k \<and> k < r + U \<longrightarrow> \<not> bit_at ?bits k" "\<forall>t < r. blocked ?bits U t"
    | (full) a r where "alloc_scan ?bits U (0, 0) (0, 0) 0 = (a, r)" "a < U" "\<forall>t. t + U \<le> 8 * length ?bits \<longrightarrow> blocked ?bits U t"
    using alloc_scan_spec [of 0 0 U ?bits] assms by auto
  then show ?thesis
  proof cases
    case found
    obtain bits' where b: "set_units ?bits (r div 8, r mod 8) U = Some bits'" "length bits' = length ?bits"
      "units bits' = units ?bits \<union> {r..<r + U}"
      using set_units_spec [OF found(2)] by blast
    have "{r..<r + U} \<inter> units ?bits = {}"
      using found(3) by (auto simp: units_def)
    moreover have "512 * (r div 8) + r mod 8 * 64 = r * 64"
    proof -
      have "512 * (r div 8) + r mod 8 * 64 = (r div 8 * 8 + r mod 8) * 64"
        by (simp only: add_mult_distrib)
      then show ?thesis
        by (simp only: div_mult_mod_eq)
    qed
    ultimately show ?thesis
      using found(1,2,4) b bl
      by (intro disjI1 exI [of _ r] exI [of _ "blk\<lparr>mb_bits := bits'\<rparr>"])
        (simp add: UsbHcAllocMemFromBlock_def USBHC_MEM_UNIT_def)
  next
    case full
    then show ?thesis
      using bl by (cases r) (simp add: UsbHcAllocMemFromBlock_def)
  qed
qed

section \<open>The pool as a set of used addresses\<close>

definition block_ok :: "mem_block \<Rightarrow> bool" where
  "block_ok b \<longleftrightarrow> mb_bits b \<noteq> [] \<and> mb_len b = 512 * length (mb_bits b)"

definition block_range :: "mem_block \<Rightarrow> nat set" where
  "block_range b = {mb_host b..<mb_host b + mb_len b}"

definition unit_range :: "mem_block \<Rightarrow> nat \<Rightarrow> nat set" where
  "unit_range b k = {mb_host b + k * 64..<mb_host b + k * 64 + 64}"

definition block_used :: "mem_block \<Rightarrow> nat set" where
  "block_used b = (\<Union>k \<in> units (mb_bits b). unit_range b k)"

definition pool_used :: "mem_pool \<Rightarrow> nat set" where
  "pool_used p = (\<Union>b \<in> set (mp_blocks p). block_used b)"

definition pool_ok :: "mem_pool \<Rightarrow> bool" where
  "pool_ok p \<longleftrightarrow> mp_blocks p \<noteq> [] \<and> list_all block_ok (mp_blocks p) \<and>
     sorted_wrt (\<lambda>b c. block_range b \<inter> block_range c = {}) (mp_blocks p)"

definition region :: "nat \<Rightarrow> nat \<Rightarrow> nat set" where
  "region a n = {a..<a + USBHC_MEM_ROUND n}"

text \<open>A region of whole units inside one block.\<close>

definition owns :: "mem_block \<Rightarrow> nat \<Rightarrow> nat \<Rightarrow> bool" where
  "owns b a n \<longleftrightarrow> (\<exists>r. a = mb_host b + r * 64 \<and> r * 64 + USBHC_MEM_ROUND n \<le> mb_len b)"

definition pool_owns :: "mem_pool \<Rightarrow> nat \<Rightarrow> nat \<Rightarrow> bool" where
  "pool_owns p a n \<longleftrightarrow> 0 < n \<and> (\<exists>b \<in> set (mp_blocks p). owns b a n)"

definition fresh_buffers :: "pci_env \<Rightarrow> mem_pool \<Rightarrow> bool" where
  "fresh_buffers e p \<longleftrightarrow> (\<forall>Pages a. pe_buffer e Pages = Some a \<longrightarrow>
     (\<forall>b \<in> set (mp_blocks p). {a..<a + Pages * 4096} \<inter> block_range b = {}))"

lemma round_units: "USBHC_MEM_ROUND n = USBHC_MEM_ROUND n div USBHC_MEM_UNIT * 64"
  by (simp add: USBHC_MEM_ROUND_def USBHC_MEM_UNIT_def)

lemma round_pos: "0 < n \<Longrightarrow> 0 < USBHC_MEM_ROUND n div USBHC_MEM_UNIT"
  by (simp add: USBHC_MEM_ROUND_def USBHC_MEM_UNIT_def)

lemma round_ge: "n \<le> USBHC_MEM_ROUND n"
  unfolding USBHC_MEM_ROUND_def by linarith

lemma unit_range_iff: "x \<in> unit_range b k \<longleftrightarrow> mb_host b \<le> x \<and> (x - mb_host b) div 64 = k"
proof -
  have "mb_host b + k * 64 \<le> x \<and> x < mb_host b + k * 64 + 64 \<longleftrightarrow>
      mb_host b \<le> x \<and> k * 64 \<le> x - mb_host b \<and> x - mb_host b < (k + 1) * 64"
    by auto
  also have "\<dots> \<longleftrightarrow> mb_host b \<le> x \<and> (x - mb_host b) div 64 = k"
    by (simp add: div_nat_eqI less_mult_imp_div_less order_antisym le_div_geq less_eq_div_iff_mult_less_eq) linarith
  finally show ?thesis
    by (simp add: unit_range_def)
qed

lemma unit_ranges_eq: "(\<Union>k \<in> A. unit_range b k) = {x. mb_host b \<le> x \<and> (x - mb_host b) div 64 \<in> A}"
  by (auto simp: unit_range_iff)

lemma unit_ranges: "(\<Union>k \<in> {r..<r + u}. unit_range b k) = {mb_host b + r * 64..<mb_host b + r * 64 + u * 64}"
proof (induction u)
  case (Suc u)
  have "{r..<r + Suc u} = insert (r + u) {r..<r + u}"
    by auto
  then show ?case
    using Suc by (auto simp: unit_range_def)
qed simp

lemma unit_range_disjoint: "k \<noteq> l \<Longrightarrow> unit_range b k \<inter> unit_range b l = {}"
  by (auto simp: unit_range_iff)

lemma unit_range_inside: "k \<in> units (mb_bits b) \<Longrightarrow> block_ok b \<Longrightarrow> unit_range b k \<subseteq> block_range b"
  by (auto simp: units_def block_ok_def unit_range_def block_range_def)

lemma block_used_inside: "block_ok b \<Longrightarrow> block_used b \<subseteq> block_range b"
  using unit_range_inside unfolding block_used_def by blast

lemma unit_ranges_Int:
  "(\<Union>k \<in> A. unit_range b k) \<inter> (\<Union>k \<in> B. unit_range b k) = (\<Union>k \<in> A \<inter> B. unit_range b k)"
  unfolding unit_ranges_eq by blast

lemma unit_ranges_minus:
  "(\<Union>k \<in> A. unit_range b k) - (\<Union>k \<in> B. unit_range b k) = (\<Union>k \<in> A - B. unit_range b k)"
  unfolding unit_ranges_eq by blast

lemma unit_ranges_subset:
  assumes "(\<Union>k \<in> A. unit_range b k) \<subseteq> (\<Union>k \<in> B. unit_range b k)"
  shows "A \<subseteq> B"
proof
  fix k assume "k \<in> A"
  then have "mb_host b + k * 64 \<in> (\<Union>k \<in> A. unit_range b k)"
    by (simp add: unit_ranges_eq)
  then have "mb_host b + k * 64 \<in> (\<Union>k \<in> B. unit_range b k)"
    using assms by blast
  then show "k \<in> B"
    by (simp add: unit_ranges_eq)
qed

lemma sized_update [simp]:
  "mb_host (b\<lparr>mb_bits := x\<rparr>) = mb_host b" "block_range (b\<lparr>mb_bits := x\<rparr>) = block_range b"
  "unit_range (b\<lparr>mb_bits := x\<rparr>) k = unit_range b k" "owns (b\<lparr>mb_bits := x\<rparr>) a n = owns b a n"
  by (simp_all add: block_range_def unit_range_def owns_def)

lemma owns_region:
  assumes "owns b a n"
  shows "region a n \<subseteq> block_range b"
  using assms by (auto simp: owns_def region_def block_range_def)

lemma region_nonempty: "0 < n \<Longrightarrow> a \<in> region a n"
  using round_ge [of n] by (simp add: region_def)

lemma owns_units:
  assumes "owns b a n" "block_ok b"
  obtains r where "a = mb_host b + r * 64" "r + USBHC_MEM_ROUND n div USBHC_MEM_UNIT \<le> 8 * length (mb_bits b)"
    "region a n = (\<Union>k \<in> {r..<r + USBHC_MEM_ROUND n div USBHC_MEM_UNIT}. unit_range b k)"
proof -
  obtain r where r: "a = mb_host b + r * 64" "r * 64 + USBHC_MEM_ROUND n \<le> mb_len b"
    using assms(1) by (auto simp: owns_def)
  then have "r + USBHC_MEM_ROUND n div USBHC_MEM_UNIT \<le> 8 * length (mb_bits b)"
    using round_units [of n] assms(2) by (simp add: block_ok_def)
  moreover have "region a n = (\<Union>k \<in> {r..<r + USBHC_MEM_ROUND n div USBHC_MEM_UNIT}. unit_range b k)"
    using round_units [of n] r(1) unfolding unit_ranges region_def by simp
  ultimately show thesis
    using r(1) that by blast
qed

lemma block_alloc:
  assumes "block_ok b" "0 < n"
  shows "(\<exists>a b'. UsbHcAllocMemFromBlock b (USBHC_MEM_ROUND n div USBHC_MEM_UNIT) = Some (Some a, b') \<and>
      b' = b\<lparr>mb_bits := mb_bits b'\<rparr> \<and> block_ok b' \<and> owns b a n \<and>
      region a n \<inter> block_used b = {} \<and> block_used b' = block_used b \<union> region a n) \<or>
    UsbHcAllocMemFromBlock b (USBHC_MEM_ROUND n div USBHC_MEM_UNIT) = Some (None, b)"
proof -
  let ?U = "USBHC_MEM_ROUND n div USBHC_MEM_UNIT"
  note spec = block_alloc_spec [OF round_pos [OF assms(2)], of b]
  show ?thesis
  proof (cases "UsbHcAllocMemFromBlock b ?U = Some (None, b)")
    case False
    then obtain r b' where f: "UsbHcAllocMemFromBlock b ?U = Some (Some (mb_host b + r * 64), b')"
      "r + ?U \<le> 8 * length (mb_bits b)" "{r..<r + ?U} \<inter> units (mb_bits b) = {}"
      "b' = b\<lparr>mb_bits := mb_bits b'\<rparr>" "length (mb_bits b') = length (mb_bits b)"
      "units (mb_bits b') = units (mb_bits b) \<union> {r..<r + ?U}"
      using spec by blast
    let ?a = "mb_host b + r * 64"
    have reg: "region ?a n = (\<Union>k \<in> {r..<r + ?U}. unit_range b k)"
      using round_units [of n] unfolding unit_ranges region_def by simp
    have own: "owns b ?a n"
      using f(2) round_units [of n] assms(1) by (auto simp: owns_def block_ok_def)
    have "unit_range b' = unit_range b"
      using f(4) by (metis sized_update(3) ext)
    then have "block_used b' = block_used b \<union> region ?a n"
      using f(6) reg by (simp add: block_used_def UN_Un)
    moreover have "region ?a n \<inter> block_used b = {}"
      using f(3) unfolding reg block_used_def unit_ranges_Int by simp
    moreover have "block_ok b'"
      using f(4,5) assms(1) by (metis block_ok_def length_0_conv mem_block.select_convs(4) mem_block.surjective mem_block.update_convs(1))
    ultimately show ?thesis
      using f(1,4) own by blast
  qed simp
qed

lemma block_free:
  assumes "block_ok b" "owns b a n" "region a n \<subseteq> block_used b"
  obtains bits where
    "toggle_units (mb_bits b) ((a - mb_host b) div USBHC_MEM_UNIT div 8, (a - mb_host b) div USBHC_MEM_UNIT mod 8)
       (USBHC_MEM_ROUND n div USBHC_MEM_UNIT) = Some bits"
    "block_ok (b\<lparr>mb_bits := bits\<rparr>)" "block_used (b\<lparr>mb_bits := bits\<rparr>) = block_used b - region a n"
proof -
  let ?U = "USBHC_MEM_ROUND n div USBHC_MEM_UNIT"
  obtain r where r: "a = mb_host b + r * 64" "r + ?U \<le> 8 * length (mb_bits b)"
    "region a n = (\<Union>k \<in> {r..<r + ?U}. unit_range b k)"
    using owns_units [OF assms(2,1)] .
  have "{r..<r + ?U} \<subseteq> units (mb_bits b)"
    using assms(3) unfolding r(3) block_used_def by (rule unit_ranges_subset)
  then obtain bits where bits: "toggle_units (mb_bits b) (r div 8, r mod 8) ?U = Some bits"
    "length bits = length (mb_bits b)" "units bits = units (mb_bits b) - {r..<r + ?U}"
    using toggle_units_spec [OF r(2)] by blast
  have "block_used (b\<lparr>mb_bits := bits\<rparr>) = block_used b - region a n"
    using bits(3) by (simp add: block_used_def r(3) unit_ranges_minus)
  moreover have "block_ok (b\<lparr>mb_bits := bits\<rparr>)"
    using assms(1) bits(2) by (auto simp: block_ok_def)
  ultimately show thesis
    using that bits(1) r(1) by (simp add: USBHC_MEM_UNIT_def)
qed

lemma block_empty: "UsbHcIsMemBlockEmpty b \<Longrightarrow> block_used b = {}"
  by (auto simp: UsbHcIsMemBlockEmpty_def block_used_def units_def bit_at_def list_all_length)

lemma block_new:
  assumes "UsbHcAllocMemBlock e p Pages = Some b" "0 < Pages"
  shows "block_ok b" "block_used b = {}" "pe_buffer e Pages = Some (mb_host b)" "mb_len b = Pages * 4096"
proof -
  have b: "pe_buffer e Pages = Some (mb_host b)" "mb_bits b = replicate (Pages * 8) 0" "mb_len b = Pages * 4096"
    using assms(1) by (auto simp: UsbHcAllocMemBlock_def Let_def EFI_PAGES_TO_SIZE_def USBHC_MEM_UNIT_def
        split: if_splits option.splits)
  show "block_ok b" "pe_buffer e Pages = Some (mb_host b)" "mb_len b = Pages * 4096"
    using b assms(2) by (auto simp: block_ok_def)
  show "block_used b = {}"
    using b(2) by (auto simp: block_used_def units_def bit_at_def)
qed

section \<open>Lists of blocks\<close>

definition blocks_ok :: "mem_block list \<Rightarrow> bool" where
  "blocks_ok bs \<longleftrightarrow> list_all block_ok bs \<and> sorted_wrt (\<lambda>b c. block_range b \<inter> block_range c = {}) bs"

definition blocks_used :: "mem_block list \<Rightarrow> nat set" where
  "blocks_used bs = (\<Union>b \<in> set bs. block_used b)"

lemma pool_blocks: "pool_ok p \<longleftrightarrow> mp_blocks p \<noteq> [] \<and> blocks_ok (mp_blocks p)" "pool_used p = blocks_used (mp_blocks p)"
  by (auto simp: pool_ok_def blocks_ok_def pool_used_def blocks_used_def)

lemma blocks_ok_Nil [simp]: "blocks_ok []"
  by (simp add: blocks_ok_def)

lemma blocks_ok_Cons [simp]:
  "blocks_ok (b # bs) \<longleftrightarrow> block_ok b \<and> blocks_ok bs \<and> (\<forall>c \<in> set bs. block_range b \<inter> block_range c = {})"
  by (auto simp: blocks_ok_def)

lemma blocks_used_simps [simp]:
  "blocks_used [] = {}" "blocks_used (b # bs) = block_used b \<union> blocks_used bs"
  "blocks_used (bs @ cs) = blocks_used bs \<union> blocks_used cs"
  by (auto simp: blocks_used_def)

lemma blocks_ok_append [simp]:
  "blocks_ok (bs @ cs) \<longleftrightarrow> blocks_ok bs \<and> blocks_ok cs \<and> (\<forall>b \<in> set bs. \<forall>c \<in> set cs. block_range b \<inter> block_range c = {})"
  by (auto simp: blocks_ok_def sorted_wrt_append)

lemma blocks_used_inside: "blocks_ok bs \<Longrightarrow> blocks_used bs \<subseteq> (\<Union>b \<in> set bs. block_range b)"
  using block_used_inside by (fastforce simp: blocks_used_def blocks_ok_def list_all_iff)

lemma blocks_disjoint:
  assumes "blocks_ok (pre @ b # post)"
  shows "block_range b \<inter> blocks_used (pre @ post) = {}"
  using assms blocks_used_inside [of "pre @ post"] by fastforce

lemma block_range_host: "block_ok b \<Longrightarrow> mb_host b \<in> block_range b"
  by (auto simp: block_ok_def block_range_def)

lemma alloc_first_spec:
  assumes "list_all block_ok bs" "0 < n"
  shows "alloc_first bs (USBHC_MEM_ROUND n div USBHC_MEM_UNIT) = Some (None, bs) \<or>
    (\<exists>pre b post a b'. bs = pre @ b # post \<and> alloc_first bs (USBHC_MEM_ROUND n div USBHC_MEM_UNIT) = Some (Some a, pre @ b' # post) \<and>
      b' = b\<lparr>mb_bits := mb_bits b'\<rparr> \<and> block_ok b' \<and> owns b a n \<and>
      region a n \<inter> block_used b = {} \<and> block_used b' = block_used b \<union> region a n)"
  using assms(1)
proof (induction bs)
  case (Cons b bs)
  consider (here) a b' where "UsbHcAllocMemFromBlock b (USBHC_MEM_ROUND n div USBHC_MEM_UNIT) = Some (Some a, b')"
      "b' = b\<lparr>mb_bits := mb_bits b'\<rparr>" "block_ok b'" "owns b a n"
      "region a n \<inter> block_used b = {}" "block_used b' = block_used b \<union> region a n"
    | (later) "UsbHcAllocMemFromBlock b (USBHC_MEM_ROUND n div USBHC_MEM_UNIT) = Some (None, b)"
    using block_alloc [of b n] Cons.prems assms(2) by auto
  then show ?case
  proof cases
    case here
    then show ?thesis
      by (intro disjI2 exI [of _ "[]"] exI [of _ b] exI [of _ bs]) auto
  next
    case later
    show ?thesis
    proof (cases "alloc_first bs (USBHC_MEM_ROUND n div USBHC_MEM_UNIT) = Some (None, bs)")
      case True
      then show ?thesis
        using later by simp
    next
      case False
      then obtain pre c post a c' where
        "bs = pre @ c # post \<and> alloc_first bs (USBHC_MEM_ROUND n div USBHC_MEM_UNIT) = Some (Some a, pre @ c' # post) \<and>
         c' = c\<lparr>mb_bits := mb_bits c'\<rparr> \<and> block_ok c' \<and> owns c a n \<and>
         region a n \<inter> block_used c = {} \<and> block_used c' = block_used c \<union> region a n"
        using Cons by auto
      then show ?thesis
        using later by (intro disjI2 exI [of _ "b # pre"] exI [of _ c] exI [of _ post]) auto
    qed
  qed
qed simp

lemma free_in_spec:
  assumes "blocks_ok bs" "b \<in> set bs" "owns b a n" "0 < n" "region a n \<subseteq> blocks_used bs"
  shows "\<exists>pre post bits. bs = pre @ b # post \<and>
      free_in bs a (USBHC_MEM_ROUND n) = Some (b\<lparr>mb_bits := bits\<rparr>, pre @ b\<lparr>mb_bits := bits\<rparr> # post) \<and>
      block_ok (b\<lparr>mb_bits := bits\<rparr>) \<and> block_used (b\<lparr>mb_bits := bits\<rparr>) = block_used b - region a n"
  using assms
proof (induction bs)
  case (Cons c bs)
  have inb: "region a n \<subseteq> block_range b"
    using owns_region [OF Cons.prems(3)] .
  show ?case
  proof (cases "b = c")
    case True
    have "region a n \<inter> blocks_used bs = {}"
      using inb True blocks_used_inside [of bs] Cons.prems(1) by fastforce
    then have sub: "region a n \<subseteq> block_used b"
      using Cons.prems(5) True by auto
    have "block_ok b"
      using Cons.prems(1) True by simp
    then obtain bits where bits:
      "toggle_units (mb_bits b) ((a - mb_host b) div USBHC_MEM_UNIT div 8, (a - mb_host b) div USBHC_MEM_UNIT mod 8)
         (USBHC_MEM_ROUND n div USBHC_MEM_UNIT) = Some bits"
      "block_ok (b\<lparr>mb_bits := bits\<rparr>)" "block_used (b\<lparr>mb_bits := bits\<rparr>) = block_used b - region a n"
      using block_free [OF _ Cons.prems(3) sub] by blast
    have "holds_mem b a (USBHC_MEM_ROUND n)"
      using Cons.prems(3) by (auto simp: holds_mem_def owns_def)
    then show ?thesis
      using bits True by (intro exI [of _ "[]"] exI [of _ bs] exI [of _ bits]) (simp add: Let_def)
  next
    case False
    then have b: "b \<in> set bs"
      using Cons.prems(2) by simp
    then have dis: "block_range c \<inter> region a n = {}"
      using Cons.prems(1) inb by fastforce
    then have "a \<notin> block_range c"
      using region_nonempty [OF Cons.prems(4), of a] by blast
    then have nh: "\<not> holds_mem c a (USBHC_MEM_ROUND n)"
      using Cons.prems(4) round_ge [of n] by (auto simp: holds_mem_def block_range_def)
    have "region a n \<subseteq> blocks_used bs"
      using Cons.prems(1,5) dis block_used_inside [of c] by fastforce
    then obtain pre post bits where "bs = pre @ b # post"
      "free_in bs a (USBHC_MEM_ROUND n) = Some (b\<lparr>mb_bits := bits\<rparr>, pre @ b\<lparr>mb_bits := bits\<rparr> # post)"
      "block_ok (b\<lparr>mb_bits := bits\<rparr>)" "block_used (b\<lparr>mb_bits := bits\<rparr>) = block_used b - region a n"
      using Cons.IH b Cons.prems by auto
    then show ?thesis
      using nh by (intro exI [of _ "c # pre"] exI [of _ post] exI [of _ bits]) simp
  qed
qed simp

lemma unlink_next_here:
  assumes "\<forall>c \<in> set (tl pre). mb_host c \<noteq> mb_host b" "pre \<noteq> []"
  shows "unlink_next (pre @ b # post) (mb_host b) = pre @ post"
  using assms
proof (induction pre)
  case (Cons c pre)
  then show ?case
    by (cases pre) auto
qed simp

section \<open>The operations of the pool\<close>

lemma blocks_ok_replace:
  assumes "blocks_ok (pre @ b # post)" "block_ok b'" "block_range b' = block_range b"
  shows "blocks_ok (pre @ b' # post)"
  using assms by auto

lemma pool_alloc:
  assumes "pool_ok p" "fresh_buffers e p" "0 < n"
  shows "\<exists>r p'. UsbHcAllocateMem e p n = Some (r, p') \<and> pool_ok p' \<and>
     (\<forall>c m. pool_owns p c m \<longrightarrow> pool_owns p' c m) \<and>
     (case r of None \<Rightarrow> pool_used p' = pool_used p
      | Some a \<Rightarrow> pool_owns p' a n \<and> region a n \<inter> pool_used p = {} \<and> pool_used p' = pool_used p \<union> region a n)"
proof -
  let ?U = "USBHC_MEM_ROUND n div USBHC_MEM_UNIT" and ?bs = "mp_blocks p"
  let ?Pages = "if USBHC_MEM_ROUND n > EFI_PAGES_TO_SIZE USBHC_MEM_DEFAULT_PAGES
     then EFI_SIZE_TO_PAGES (USBHC_MEM_ROUND n) + 1 else USBHC_MEM_DEFAULT_PAGES"
  have ok: "?bs \<noteq> []" "blocks_ok ?bs"
    using assms(1) by (auto simp: pool_blocks)
  have pages: "0 < ?Pages"
    by (simp add: USBHC_MEM_DEFAULT_PAGES_def)
  note alloc = alloc_first_spec [of ?bs n, OF _ assms(3)]
  consider (old) pre b post a b' where "?bs = pre @ b # post" "alloc_first ?bs ?U = Some (Some a, pre @ b' # post)"
      "b' = b\<lparr>mb_bits := mb_bits b'\<rparr>" "block_ok b'" "owns b a n" "region a n \<inter> block_used b = {}"
      "block_used b' = block_used b \<union> region a n"
    | (none) "alloc_first ?bs ?U = Some (None, ?bs)" "UsbHcAllocMemBlock e p ?Pages = None"
    | (new) b where "alloc_first ?bs ?U = Some (None, ?bs)" "UsbHcAllocMemBlock e p ?Pages = Some b"
    using alloc ok(2) unfolding blocks_ok_def by (cases "UsbHcAllocMemBlock e p ?Pages") blast+
  then show ?thesis
  proof cases
    case old
    have rng: "block_range b' = block_range b" and own: "owns b' c m = owns b c m" for c m
      using old(3) by (metis sized_update(2), metis sized_update(4))
    have ok': "blocks_ok (pre @ b' # post)"
      using blocks_ok_replace [OF ok(2) [unfolded old(1)] old(4) rng] .
    have "region a n \<inter> blocks_used (pre @ post) = {}"
      using blocks_disjoint [OF ok(2) [unfolded old(1)]] owns_region [OF old(5)] by blast
    then have "region a n \<inter> pool_used p = {}"
      using old(6) by (auto simp: pool_blocks old(1))
    then show ?thesis
      using old(2,5,7) ok' own assms(3)
      by (auto simp: UsbHcAllocateMem_def Let_def pool_blocks old(1) pool_owns_def)
  next
    case none
    then show ?thesis
      using assms(1) by (simp add: UsbHcAllocateMem_def Let_def)
  next
    case new
    note b = block_new [OF new(2) pages]
    have rng: "block_range b \<inter> block_range c = {}" if "c \<in> set ?bs" for c
      using assms(2) b(3,4) that unfolding fresh_buffers_def block_range_def by fastforce
    obtain h t where ht: "?bs = h # t"
      using ok(1) by (cases ?bs) auto
    have ok2: "blocks_ok (h # b # t)"
      using ok(2) rng b(1) by (auto simp: ht Int_commute)
    have step: "UsbHcAllocateMem e p n =
        do { (r, blk') \<leftarrow> UsbHcAllocMemFromBlock b ?U; bs' \<leftarrow> UsbHcInsertMemBlockToPool ?bs blk'; Some (r, p\<lparr>mp_blocks := bs'\<rparr>) }"
      unfolding UsbHcAllocateMem_def Let_def new by (simp add: new(2))
    consider (full) "UsbHcAllocMemFromBlock b ?U = Some (None, b)"
      | (fits) a b' where "UsbHcAllocMemFromBlock b ?U = Some (Some a, b')" "b' = b\<lparr>mb_bits := mb_bits b'\<rparr>" "block_ok b'"
          "owns b a n" "block_used b' = block_used b \<union> region a n"
      using block_alloc [OF b(1) assms(3)] by blast
    then show ?thesis
    proof cases
      case full
      then have "UsbHcAllocateMem e p n = Some (None, p\<lparr>mp_blocks := h # b # t\<rparr>)"
        by (simp add: step ht)
      then show ?thesis
        using ok2 b(2) by (auto simp: pool_blocks ht pool_owns_def)
    next
      case fits
      have rng': "block_range b' = block_range b" and own: "owns b' c m = owns b c m" for c m
        using fits(2) by (metis sized_update(2), metis sized_update(4))
      have r: "UsbHcAllocateMem e p n = Some (Some a, p\<lparr>mp_blocks := h # b' # t\<rparr>)"
        using fits(1) by (simp add: step ht)
      have "blocks_ok (h # b' # t)"
        using blocks_ok_replace [of "[h]" b t, OF _ fits(3) rng'] ok2 by simp
      moreover have "region a n \<inter> pool_used p = {}"
        using blocks_disjoint [of "[h]" b t] ok2 owns_region [OF fits(4)] by (auto simp: pool_blocks ht)
      ultimately show ?thesis
        using r fits(4,5) b(2) own assms(3) by (auto simp: pool_blocks ht pool_owns_def)
    qed
  qed
qed

lemma pool_free:
  assumes "pool_ok p" "pool_owns p a n" "region a n \<subseteq> pool_used p"
  shows "\<exists>p'. UsbHcFreeMem p a n = Some p' \<and> pool_ok p' \<and> pool_used p' = pool_used p - region a n \<and>
     (\<forall>c m. pool_owns p c m \<and> region c m \<subseteq> pool_used p' \<longrightarrow> pool_owns p' c m)"
proof -
  let ?bs = "mp_blocks p"
  have ok: "?bs \<noteq> []" "blocks_ok ?bs"
    using assms(1) by (auto simp: pool_blocks)
  obtain b where b: "b \<in> set ?bs" "owns b a n" "0 < n"
    using assms(2) by (auto simp: pool_owns_def)
  obtain pre post bits where f: "?bs = pre @ b # post"
    "free_in ?bs a (USBHC_MEM_ROUND n) = Some (b\<lparr>mb_bits := bits\<rparr>, pre @ b\<lparr>mb_bits := bits\<rparr> # post)"
    "block_ok (b\<lparr>mb_bits := bits\<rparr>)" "block_used (b\<lparr>mb_bits := bits\<rparr>) = block_used b - region a n"
    using free_in_spec [OF ok(2) b] assms(3) by (auto simp: pool_blocks)
  let ?b = "b\<lparr>mb_bits := bits\<rparr>" and ?bs' = "pre @ b\<lparr>mb_bits := bits\<rparr> # post"
  have ok': "blocks_ok ?bs'"
    using blocks_ok_replace [OF ok(2) [unfolded f(1)] f(3)] by simp
  have others: "region a n \<inter> blocks_used (pre @ post) = {}"
    using blocks_disjoint [OF ok(2) [unfolded f(1)]] owns_region [OF b(2)] by blast
  then have used': "blocks_used ?bs' = pool_used p - region a n"
    using f(4) by (auto simp: pool_blocks f(1))
  show ?thesis
  proof (cases "mb_host ?b \<noteq> mb_host (hd ?bs') \<and> UsbHcIsMemBlockEmpty ?b")
    case False
    then have "UsbHcFreeMem p a n = Some (p\<lparr>mp_blocks := ?bs'\<rparr>)"
      using f(2) by (auto simp: UsbHcFreeMem_def)
    then show ?thesis
      using ok' used' by (auto simp: pool_blocks pool_owns_def f(1))
  next
    case True
    then have pre: "pre \<noteq> []"
      by auto
    have "\<forall>c \<in> set pre. mb_host c \<noteq> mb_host ?b"
    proof
      fix c assume c: "c \<in> set pre"
      then have "block_ok c" "block_range c \<inter> block_range ?b = {}"
        using ok' by (auto simp: blocks_ok_def list_all_iff sorted_wrt_append)
      then show "mb_host c \<noteq> mb_host ?b"
        using block_range_host [of c] block_range_host [OF f(3)] by auto
    qed
    then have "unlink_next ?bs' (mb_host ?b) = pre @ post"
      using unlink_next_here [of pre ?b post] pre by (cases pre) auto
    then have r: "UsbHcFreeMem p a n = Some (p\<lparr>mp_blocks := pre @ post\<rparr>)"
      using f(2) True by (simp add: UsbHcFreeMem_def UsbHcUnlinkMemBlock_def)
    have u: "blocks_used (pre @ post) = pool_used p - region a n"
      using used' block_empty [of ?b] True by simp
    have own: "pool_owns (p\<lparr>mp_blocks := pre @ post\<rparr>) c m" if c: "pool_owns p c m" "region c m \<subseteq> pool_used p - region a n" for c m
    proof -
      obtain d where d: "d \<in> set ?bs" "owns d c m" "0 < m"
        using c(1) by (auto simp: pool_owns_def)
      have "d \<noteq> b"
        using blocks_disjoint [OF ok(2) [unfolded f(1)]] owns_region [OF d(2)] region_nonempty [OF d(3), of c] c(2) u by auto
      then show ?thesis
        using d by (auto simp: pool_owns_def f(1))
    qed
    show ?thesis
      using r ok' u own pre by (auto simp: pool_blocks)
  qed
qed

section \<open>What a user of an allocator relies on\<close>

definition apart :: "(nat \<Rightarrow> nat \<Rightarrow> nat set) \<Rightarrow> nat \<times> nat \<Rightarrow> nat \<times> nat \<Rightarrow> bool" where
  "apart reg x y \<longleftrightarrow> reg (fst x) (snd x) \<inter> reg (fst y) (snd y) = {}"

text \<open>The ledger lists the regions handed out and not given back.\<close>

definition ledger ::
  "('s \<Rightarrow> bool) \<Rightarrow> ('s \<Rightarrow> nat set) \<Rightarrow> ('s \<Rightarrow> nat \<Rightarrow> nat \<Rightarrow> bool) \<Rightarrow> (nat \<Rightarrow> nat \<Rightarrow> nat set) \<Rightarrow> 's \<Rightarrow> (nat \<times> nat) list \<Rightarrow> bool"
where
  "ledger ok used own reg s L \<longleftrightarrow> ok s \<and> used s = (\<Union>(a, n) \<in> set L. reg a n) \<and>
     sorted_wrt (apart reg) L \<and> (\<forall>(a, n) \<in> set L. own s a n)"

locale region_allocator =
  fixes alloc :: "'e \<Rightarrow> 's \<Rightarrow> nat \<Rightarrow> (nat option \<times> 's) option"
    and free :: "'s \<Rightarrow> nat \<Rightarrow> nat \<Rightarrow> 's option"
    and env :: "'e \<Rightarrow> 's \<Rightarrow> bool"
    and ok :: "'s \<Rightarrow> bool"
    and used :: "'s \<Rightarrow> nat set"
    and own :: "'s \<Rightarrow> nat \<Rightarrow> nat \<Rightarrow> bool"
    and reg :: "nat \<Rightarrow> nat \<Rightarrow> nat set"
  assumes alloc_law: "\<lbrakk>ok s; env e s; 0 < n\<rbrakk> \<Longrightarrow> \<exists>r s'. alloc e s n = Some (r, s') \<and> ok s' \<and>
      (\<forall>c m. own s c m \<longrightarrow> own s' c m) \<and>
      (case r of None \<Rightarrow> used s' = used s
       | Some a \<Rightarrow> own s' a n \<and> reg a n \<inter> used s = {} \<and> used s' = used s \<union> reg a n)"
    and free_law: "\<lbrakk>ok s; own s a n; reg a n \<subseteq> used s\<rbrakk> \<Longrightarrow> \<exists>s'. free s a n = Some s' \<and> ok s' \<and>
      used s' = used s - reg a n \<and> (\<forall>c m. own s c m \<and> reg c m \<subseteq> used s' \<longrightarrow> own s' c m)"
begin

lemma ledger_empty: "ok s \<Longrightarrow> used s = {} \<Longrightarrow> ledger ok used own reg s []"
  by (simp add: ledger_def)

lemma ledger_take:
  assumes "ledger ok used own reg s L" "env e s" "0 < n" "alloc e s n = Some (Some a, s')"
  shows "ledger ok used own reg s' ((a, n) # L)"
  using alloc_law [of s e n] assms by (fastforce simp: ledger_def apart_def)

lemma ledger_refused:
  assumes "ledger ok used own reg s L" "env e s" "0 < n" "alloc e s n = Some (None, s')"
  shows "ledger ok used own reg s' L"
  using alloc_law [of s e n] assms by (fastforce simp: ledger_def apart_def)

lemma ledger_member:
  assumes "ledger ok used own reg s L" "(a, n) \<in> set L"
  shows "ok s" "own s a n" "reg a n \<subseteq> used s"
  using assms by (auto simp: ledger_def)

lemma ledger_give:
  assumes "ledger ok used own reg s (K @ (a, n) # L)" "free s a n = Some s'"
  shows "ledger ok used own reg s' (K @ L)"
proof -
  have s': "ok s'" "used s' = used s - reg a n" "\<And>c m. own s c m \<Longrightarrow> reg c m \<subseteq> used s' \<Longrightarrow> own s' c m"
    using free_law [of s a n] ledger_member [OF assms(1), of a n] assms(2) by auto
  have "\<forall>x \<in> set K. apart reg x (a, n)" "\<forall>x \<in> set L. apart reg (a, n) x"
    using assms(1) by (simp_all add: ledger_def sorted_wrt_append)
  then have "\<forall>(c, m) \<in> set (K @ L). reg c m \<inter> reg a n = {}"
    by (fastforce simp: apart_def)
  then have "(\<Union>(c, m) \<in> set (K @ L). reg c m) \<inter> reg a n = {}"
    by blast
  moreover have "used s = (\<Union>(c, m) \<in> set (K @ L). reg c m) \<union> reg a n"
    using assms(1) by (auto simp: ledger_def)
  ultimately have u: "used s' = (\<Union>(c, m) \<in> set (K @ L). reg c m)"
    using s'(2) by blast
  moreover have "own s' c m" if "(c, m) \<in> set (K @ L)" for c m
  proof (rule s'(3))
    show "own s c m"
      using assms(1) that by (auto simp: ledger_def)
    show "reg c m \<subseteq> used s'"
      using that unfolding u by blast
  qed
  ultimately show ?thesis
    using s'(1) assms(1) by (auto simp: ledger_def sorted_wrt_append)
qed

lemma ledger_total:
  assumes "ledger ok used own reg s L"
  shows "env e s \<Longrightarrow> 0 < n \<Longrightarrow> alloc e s n \<noteq> None" "(a, m) \<in> set L \<Longrightarrow> free s a m \<noteq> None"
  using alloc_law [of s e n] free_law [of s a m] ledger_member [OF assms] assms by (auto simp: ledger_def)

end

interpretation usb: region_allocator UsbHcAllocateMem UsbHcFreeMem fresh_buffers pool_ok pool_used pool_owns region
  by unfold_locales (rule pool_alloc, assumption+, rule pool_free, assumption+)

inductive usb_history :: "mem_pool \<Rightarrow> (nat \<times> nat) list \<Rightarrow> bool" where
  start: "UsbHcInitMemPool e c w = Some p \<Longrightarrow> usb_history p []"
| take: "usb_history p L \<Longrightarrow> fresh_buffers e p \<Longrightarrow> 0 < n \<Longrightarrow> UsbHcAllocateMem e p n = Some (Some a, p') \<Longrightarrow>
    usb_history p' ((a, n) # L)"
| refused: "usb_history p L \<Longrightarrow> fresh_buffers e p \<Longrightarrow> 0 < n \<Longrightarrow> UsbHcAllocateMem e p n = Some (None, p') \<Longrightarrow>
    usb_history p' L"
| give: "usb_history p (K @ (a, n) # L) \<Longrightarrow> UsbHcFreeMem p a n = Some p' \<Longrightarrow> usb_history p' (K @ L)"

lemma init_pool_ok:
  assumes "UsbHcInitMemPool e c w = Some p"
  shows "pool_ok p" "pool_used p = {}"
  using assms block_new(1,2) [of e _ USBHC_MEM_DEFAULT_PAGES]
  by (auto simp: UsbHcInitMemPool_def Let_def pool_blocks USBHC_MEM_DEFAULT_PAGES_def split: if_splits)

lemma usb_history_ledger: "usb_history p L \<Longrightarrow> ledger pool_ok pool_used pool_owns region p L"
proof (induction rule: usb_history.induct)
  case (start e c w p)
  then show ?case
    by (intro usb.ledger_empty init_pool_ok)
next
  case (take p L e n a p')
  show ?case
    by (rule usb.ledger_take [OF take.IH take.hyps(2-4)])
next
  case (refused p L e n p')
  show ?case
    by (rule usb.ledger_refused [OF refused.IH refused.hyps(2-4)])
next
  case (give p K a n L p')
  show ?case
    by (rule usb.ledger_give [OF give.IH give.hyps(2)])
qed

text \<open>C19. Whatever the host controller driver took from the pool and gave back in the past: the regions
  it holds are disjoint, the used units of the pool are exactly these regions, every further request
  is answered, by a region or by NULL, and every held region can be given back without a fault.\<close>

theorem usb_pool_history:
  assumes "usb_history p L"
  shows "sorted_wrt (apart region) L \<and>
    pool_used p = (\<Union>(a, n) \<in> set L. region a n) \<and>
    (\<forall>e n. fresh_buffers e p \<and> 0 < n \<longrightarrow> UsbHcAllocateMem e p n \<noteq> None) \<and>
    (\<forall>(a, m) \<in> set L. UsbHcFreeMem p a m \<noteq> None)"
proof -
  note l = usb_history_ledger [OF assms]
  have "\<forall>e n. fresh_buffers e p \<and> 0 < n \<longrightarrow> UsbHcAllocateMem e p n \<noteq> None"
    using usb.ledger_total(1) [OF l] by blast
  moreover have "\<forall>(a, m) \<in> set L. UsbHcFreeMem p a m \<noteq> None"
    using usb.ledger_total(2) [OF l] by blast
  ultimately show ?thesis
    using l unfolding ledger_def by blast
qed

definition demo_env :: "nat \<Rightarrow> pci_env" where
  "demo_env a = \<lparr>pe_zero = \<lambda>n. True, pe_buffer = \<lambda>n. Some a, pe_map = \<lambda>h n. Some (n, of_nat h)\<rparr>"

definition demo_pool :: mem_pool where
  "demo_pool = the (UsbHcInitMemPool (demo_env 4096) False 0)"

lemma demo_pool_eq:
  "demo_pool = \<lparr>mp_check4g = False, mp_which4g = 0,
     mp_blocks = [\<lparr>mb_bits = replicate 128 0, mb_buf = 4096, mb_host = 4096, mb_len = 65536\<rparr>]\<rparr>"
  "UsbHcInitMemPool (demo_env 4096) False 0 = Some demo_pool"
  by (simp_all add: demo_pool_def UsbHcInitMemPool_def UsbHcAllocMemBlock_def demo_env_def Let_def
      EFI_PAGES_TO_SIZE_def USBHC_MEM_DEFAULT_PAGES_def USBHC_MEM_UNIT_def)

lemma demo_fresh: "fresh_buffers (demo_env 69632) demo_pool"
  by (auto simp: fresh_buffers_def demo_env_def demo_pool_eq block_range_def)

lemma usb_pool_history_witness:
  "\<exists>p a. UsbHcAllocateMem (demo_env 69632) demo_pool 100 = Some (Some a, p) \<and> UsbHcFreeMem p a 100 \<noteq> None"
proof -
  have u: "USBHC_MEM_ROUND 100 div USBHC_MEM_UNIT = 2"
    by (simp add: USBHC_MEM_ROUND_def USBHC_MEM_UNIT_def)
  have "\<exists>p a. UsbHcAllocateMem (demo_env 69632) demo_pool 100 = Some (Some a, p)"
    unfolding UsbHcAllocateMem_def Let_def u
    by (simp add: demo_pool_eq UsbHcAllocMemFromBlock_def alloc_scan.simps numeral_2_eq_2)
  then obtain p a where r: "UsbHcAllocateMem (demo_env 69632) demo_pool 100 = Some (Some a, p)"
    by blast
  have "usb_history p ((a, 100) # [])"
    by (rule usb_history.take [OF usb_history.start [OF demo_pool_eq(2)] demo_fresh _ r]) simp
  from usb_pool_history [OF this] show ?thesis
    using r by auto
qed

text \<open>Releasing the pool gives back every buffer once, the head's last.\<close>

lemma UsbHcFreeMemPool_all:
  assumes "blocks_ok (b # bs)"
  shows "UsbHcFreeMemPool (b # bs) = map UsbHcFreeMemBlock (bs @ [b])"
  using assms by (induction bs) (simp_all add: UsbHcUnlinkMemBlock_def)

text \<open>The reference for the search: the lowest unit that begins a run of free units.\<close>

definition first_fit :: "byte list \<Rightarrow> nat \<Rightarrow> nat option" where
  "first_fit bits U = find (\<lambda>r. r + U \<le> 8 * length bits \<and> (\<forall>k \<in> {r..<r + U}. \<not> bit_at bits k)) [0..<8 * length bits]"

lemma find_upt_least:
  assumes "P r" "r < n" "\<forall>t < r. \<not> P t"
  shows "find P [0..<n] = Some r"
  using assms by (auto simp: find_Some_iff intro!: exI [of _ r])

text \<open>C20. The search through the bit array finds the same memory as the reference, the lowest run of
  free units that is long enough, and gives NULL and leaves the block alone exactly when there is no
  such run. It never reads or writes out of the bit array.\<close>

theorem usb_block_first_fit:
  assumes "0 < U"
  shows "map_option fst (UsbHcAllocMemFromBlock blk U) =
      Some (map_option (\<lambda>r. mb_host blk + r * USBHC_MEM_UNIT) (first_fit (mb_bits blk) U))"
proof -
  have free: "(\<forall>k \<in> {r..<r + U}. \<not> bit_at (mb_bits blk) k) \<longleftrightarrow> {r..<r + U} \<inter> units (mb_bits blk) = {}"
    if "r + U \<le> 8 * length (mb_bits blk)" for r
    using that by (auto simp: units_def)
  show ?thesis
  proof (cases "UsbHcAllocMemFromBlock blk U = Some (None, blk)")
    case True
    then have "\<forall>t. t + U \<le> 8 * length (mb_bits blk) \<longrightarrow> {t..<t + U} \<inter> units (mb_bits blk) \<noteq> {}"
      using block_alloc_spec [OF assms, of blk] by auto
    then have "first_fit (mb_bits blk) U = None"
      using free unfolding first_fit_def find_None_iff by blast
    then show ?thesis
      using True by simp
  next
    case False
    then obtain r b' where r: "UsbHcAllocMemFromBlock blk U = Some (Some (mb_host blk + r * 64), b')"
      "r + U \<le> 8 * length (mb_bits blk)" "{r..<r + U} \<inter> units (mb_bits blk) = {}"
      "\<forall>t < r. {t..<t + U} \<inter> units (mb_bits blk) \<noteq> {}"
      using block_alloc_spec [OF assms, of blk] by auto
    have "first_fit (mb_bits blk) U = Some r"
      unfolding first_fit_def
    proof (rule find_upt_least)
      show "r + U \<le> 8 * length (mb_bits blk) \<and> (\<forall>k \<in> {r..<r + U}. \<not> bit_at (mb_bits blk) k)"
        using r(2,3) free by blast
      show "r < 8 * length (mb_bits blk)"
        using r(2) assms by linarith
      show "\<forall>t < r. \<not> (t + U \<le> 8 * length (mb_bits blk) \<and> (\<forall>k \<in> {t..<t + U}. \<not> bit_at (mb_bits blk) k))"
        using r(4) free by blast
    qed
    then show ?thesis
      using r(1) by (simp add: USBHC_MEM_UNIT_def)
  qed
qed

lemma usb_block_first_fit_witness:
  "map_option fst (UsbHcAllocMemFromBlock \<lparr>mb_bits = [5, 0], mb_buf = 0, mb_host = 4096, mb_len = 1024\<rparr> 2) = Some (Some 4288)"
proof -
  have b: "bit_at [5, 0] 0" "bit_at [5, 0] 2" "\<not> bit_at [5, 0] 3" "\<not> bit_at [5, 0] 4"
    by (simp_all add: bit_at_def)
  have two: "{t..<t + 2} = {t, t + 1}" for t :: nat
    by auto
  have "\<forall>t < 3. \<exists>k \<in> {t, t + 1}. bit_at [5, 0] k"
    using b(1,2) by (auto simp: less_Suc_eq numeral_3_eq_3 numeral_2_eq_2)
  then have "first_fit [5, 0] 2 = Some 3"
    unfolding first_fit_def two by (intro find_upt_least) (use b(3,4) in auto)
  then show ?thesis
    using usb_block_first_fit [of 2 "\<lparr>mb_bits = [5, 0], mb_buf = 0, mb_host = 4096, mb_len = 1024\<rparr>"]
    by (simp add: USBHC_MEM_UNIT_def)
qed

end
