(* ===== verification/DeviceTree.thy ===== *)
theory DeviceTree
  imports Prelude
begin

text \<open>
  \<^verbatim>\<open>BdsDxe/macosx/device_tree.c\<close>: the reader of Apple's flattened device tree. A node is two counters,
  its properties and then its children; a property is a name field of 32 bytes, a length and the value,
  padded to four bytes. A count of zero properties marks the end of the tree.

  The tree is the byte list \<open>m\<close>; pointers into it are offsets, and \<open>None\<close> as an entry is NULL. The outer
  \<open>None\<close> is an access out of bounds or through NULL, or an exhausted recursion depth \<open>F\<close>. The C string
  arguments are their bytes without the NUL. \<open>UINTN\<close> and \<open>unsigned long\<close> have 64 bits.
\<close>

type_synonym entry = "nat option"

definition kDTPathNameSeparator :: byte where "kDTPathNameSeparator = 47"

definition kError :: int where "kError = - 1"
definition kIterationDone :: int where "kIterationDone = 0"
definition kSuccess :: int where "kSuccess = 1"

definition round_long :: "u32 \<Rightarrow> nat" where
  "round_long n = (unat n + 3) div 4 * 4"

text \<open>\<open>AsciiStrCmp\<close> against a string argument: it stops at the first difference.\<close>

fun ascii_eq :: "byte list \<Rightarrow> nat \<Rightarrow> byte list \<Rightarrow> bool option" where
  "ascii_eq m p [] = do { x \<leftarrow> rd m p; Some (x = 0) }"
| "ascii_eq m p (c # s) = do { x \<leftarrow> rd m p; if x = c then ascii_eq m (p + 1) s else Some False }"

definition n_properties :: "byte list \<Rightarrow> nat \<Rightarrow> nat option" where
  "n_properties m p = map_option unat (le32 m p)"

definition n_children :: "byte list \<Rightarrow> nat \<Rightarrow> nat option" where
  "n_children m p = map_option unat (le32 m (p + 4))"

definition next_prop :: "byte list \<Rightarrow> nat \<Rightarrow> nat option" where
  "next_prop m p = map_option (\<lambda>len. p + 36 + round_long len) (le32 m (p + 32))"

text \<open>A counted loop.\<close>

fun repeat_step :: "nat \<Rightarrow> ('a \<Rightarrow> 'a option) \<Rightarrow> 'a \<Rightarrow> 'a option" where
  "repeat_step 0 f x = Some x"
| "repeat_step (Suc k) f x = do { y \<leftarrow> f x; repeat_step k f y }"

section \<open>Walking the tree\<close>

fun skipProperties :: "byte list \<Rightarrow> entry \<Rightarrow> entry option" where
  "skipProperties m None = Some None"
| "skipProperties m (Some p) =
     do {
       n \<leftarrow> n_properties m p;
       if n = 0 then Some None
       else map_option Some (repeat_step n (next_prop m) (p + 8)) }"

fun skipTree :: "nat \<Rightarrow> byte list \<Rightarrow> entry \<Rightarrow> entry option" where
  "skipTree 0 m root = None"
| "skipTree (Suc F) m root =
     do {
       e \<leftarrow> skipProperties m root;
       (case (root, e) of
          (Some p, Some q) \<Rightarrow> do { n \<leftarrow> n_children m p; repeat_step n (skipTree F m) (Some q) }
        | _ \<Rightarrow> Some None) }"

definition GetFirstChild :: "byte list \<Rightarrow> entry \<Rightarrow> entry option" where
  "GetFirstChild m parent = skipProperties m parent"

definition GetNextChild :: "nat \<Rightarrow> byte list \<Rightarrow> entry \<Rightarrow> entry option" where
  "GetNextChild F m sibling = skipTree F m sibling"

text \<open>The result of \<open>DTGetProperty\<close> is the offset and the length of the value.\<close>

fun get_prop :: "byte list \<Rightarrow> byte list \<Rightarrow> nat \<Rightarrow> nat \<Rightarrow> (nat \<times> u32) option option" where
  "get_prop m name 0 p = Some None"
| "get_prop m name (Suc k) p =
     do {
       eq \<leftarrow> ascii_eq m p name;
       if eq then map_option (\<lambda>len. Some (p + 36, len)) (le32 m (p + 32))
       else do { q \<leftarrow> next_prop m p; get_prop m name k q } }"

fun DTGetProperty :: "byte list \<Rightarrow> entry \<Rightarrow> byte list \<Rightarrow> (nat \<times> u32) option option" where
  "DTGetProperty m None name = Some None"
| "DTGetProperty m (Some p) name =
     do { n \<leftarrow> n_properties m p; if n = 0 then Some None else get_prop m name n (p + 8) }"

text \<open>The loop of \<open>FindChild\<close>; \<open>k\<close> is the number of children after this one.\<close>

fun find_child :: "nat \<Rightarrow> byte list \<Rightarrow> byte list \<Rightarrow> nat \<Rightarrow> entry \<Rightarrow> entry option" where
  "find_child F m buf k child =
     do {
       r \<leftarrow> DTGetProperty m child (lit ''name'');
       (case r of
          None \<Rightarrow> Some None
        | Some (str, len) \<Rightarrow>
            do {
              eq \<leftarrow> ascii_eq m str buf;
              if eq then Some child
              else (case k of
                  0 \<Rightarrow> Some None
                | Suc k' \<Rightarrow> do { child' \<leftarrow> GetNextChild F m child; find_child F m buf k' child' }) }) }"

declare find_child.simps [simp del]

definition FindChild :: "nat \<Rightarrow> byte list \<Rightarrow> nat \<Rightarrow> byte list \<Rightarrow> entry option" where
  "FindChild F m cur buf =
     do {
       n \<leftarrow> n_children m cur;
       if n = 0 then Some None
       else do { child \<leftarrow> GetFirstChild m (Some cur); find_child F m buf (n - 1) child } }"

text \<open>The component is copied to a \<open>DTEntryNameBuf\<close> of 32 bytes; \<open>bp\<close> are the bytes copied so far.\<close>

fun GetNextComponent :: "byte list \<Rightarrow> byte list \<Rightarrow> (byte list \<times> byte list) option" where
  "GetNextComponent [] bp = (if length bp < 32 then Some ([], bp) else None)"
| "GetNextComponent (c # cp) bp =
     (if c = kDTPathNameSeparator then (if length bp < 32 then Some (cp, bp) else None)
      else if length bp < 32 then GetNextComponent cp (bp @ [c]) else None)"

section \<open>Looking up entries\<close>

record dt =
  dt_mem :: "byte list"
  DTRootNode :: entry
  DTInitialized :: bool
  dt_live :: nat

text \<open>\<open>dt_live\<close> counts the pool buffers of the iterators.\<close>

definition DTInit :: "entry \<Rightarrow> dt \<Rightarrow> dt" where
  "DTInit base s = s\<lparr>DTRootNode := base, DTInitialized := (base \<noteq> None)\<rparr>"

definition DTEntryIsEqual :: "entry \<Rightarrow> entry \<Rightarrow> bool" where
  "DTEntryIsEqual ref1 ref2 \<longleftrightarrow> ref1 = ref2"

text \<open>\<open>find_entry\<close> moves the global pointer \<open>startingP\<close>; the offset to the next property is computed in
  32 bits there.\<close>

fun find_props :: "byte list \<Rightarrow> byte list \<Rightarrow> byte list option \<Rightarrow> nat \<Rightarrow> nat \<Rightarrow> (bool \<times> nat) option" where
  "find_props m name val 0 sp = Some (False, sp)"
| "find_props m name val (Suc k) sp =
     do {
       len \<leftarrow> le32 m (sp + 32);
       let sp' = sp + 36 + unat ((len + 3) AND (- 4));
       eq \<leftarrow> ascii_eq m sp name;
       found \<leftarrow> (if eq then (case val of None \<Rightarrow> Some True | Some v \<Rightarrow> ascii_eq m (sp + 36) v) else Some False);
       if found then Some (True, sp') else find_props m name val k sp' }"

fun find_kids :: "nat \<Rightarrow> (nat \<Rightarrow> (entry \<times> nat) option) \<Rightarrow> nat \<Rightarrow> (entry \<times> nat) option" where
  "find_kids 0 f sp = Some (None, sp)"
| "find_kids (Suc k) f sp =
     do { (e, sp') \<leftarrow> f sp; (case e of Some p \<Rightarrow> Some (Some p, sp') | None \<Rightarrow> find_kids k f sp') }"

fun find_entry :: "nat \<Rightarrow> byte list \<Rightarrow> byte list \<Rightarrow> byte list option \<Rightarrow> nat \<Rightarrow> (entry \<times> nat) option" where
  "find_entry 0 m name val sp = None"
| "find_entry (Suc F) m name val sp =
     do {
       n \<leftarrow> n_properties m sp;
       if n = 0 then Some (None, sp)
       else do {
         (found, sp') \<leftarrow> find_props m name val n (sp + 8);
         if found then Some (Some sp, sp')
         else do { k \<leftarrow> n_children m sp; find_kids k (find_entry F m name val) sp' } } }"

text \<open>The result is the status and the entry; \<open>foundEntry\<close> is not written when there is none.\<close>

definition DTFindEntry :: "nat \<Rightarrow> dt \<Rightarrow> byte list \<Rightarrow> byte list option \<Rightarrow> (int \<times> entry) option" where
  "DTFindEntry F s name val =
     (if \<not> DTInitialized s then Some (kError, None)
      else (case DTRootNode s of
          None \<Rightarrow> None
        | Some r \<Rightarrow> map_option (\<lambda>(e, sp). (if e = None then kError else kSuccess, e)) (find_entry F (dt_mem s) name val r)))"

lemma GetNextComponent_shrinks:
  "GetNextComponent cp bp = Some (cp', b) \<Longrightarrow> b \<noteq> bp \<Longrightarrow> length cp' < length cp"
proof (induction cp bp rule: GetNextComponent.induct)
  case (2 c cp bp)
  then show ?case
  proof (cases "c = kDTPathNameSeparator")
    case False
    then have g: "GetNextComponent cp (bp @ [c]) = Some (cp', b)" "length bp < 32"
      using 2(2) by (auto split: if_splits)
    show ?thesis
    proof (cases "b = bp @ [c]")
      case True
      have "GetNextComponent cp bp' = Some (cp', b') \<Longrightarrow> length cp' \<le> length cp" for b' bp'
        by (induction cp bp' rule: GetNextComponent.induct) (auto split: if_splits)
      then show ?thesis
        using g(1) by fastforce
    qed (use 2(1) [OF False g(2) g(1)] in simp)
  qed (auto split: if_splits)
qed (auto split: if_splits)

function lookup_path :: "nat \<Rightarrow> byte list \<Rightarrow> nat \<Rightarrow> byte list \<Rightarrow> (int \<times> entry) option" where
  "lookup_path F m cur cp =
     (case GetNextComponent cp [] of
        None \<Rightarrow> None
      | Some (cp', buf) \<Rightarrow>
          if buf = [] then Some (if cp' = [] then (kSuccess, Some cur) else (kError, None))
          else (case FindChild F m cur buf of
              None \<Rightarrow> None
            | Some None \<Rightarrow> Some (kError, None)
            | Some (Some cur') \<Rightarrow> lookup_path F m cur' cp'))"
  by pat_completeness auto
termination
  by (relation "measure (\<lambda>(F, m, cur, cp). length cp)") (auto dest: GetNextComponent_shrinks)

declare lookup_path.simps [simp del]

definition DTLookupEntry :: "nat \<Rightarrow> dt \<Rightarrow> entry \<Rightarrow> byte list \<Rightarrow> (int \<times> entry) option" where
  "DTLookupEntry F s searchPoint pathName =
     (if \<not> DTInitialized s then Some (kError, None)
      else (case (if searchPoint = None then DTRootNode s else searchPoint) of
          None \<Rightarrow> None
        | Some cur \<Rightarrow>
            (case pathName of
               c # cp \<Rightarrow>
                 if c = kDTPathNameSeparator then
                   (if cp = [] then Some (kSuccess, Some cur) else lookup_path F (dt_mem s) cur cp)
                 else lookup_path F (dt_mem s) cur pathName
             | [] \<Rightarrow> lookup_path F (dt_mem s) cur pathName)))"

section \<open>Iterators\<close>

record entry_iter =
  outerScope :: entry
  currentScope :: entry
  currentEntry :: entry
  savedScope :: "(entry \<times> entry \<times> u32) list"
  currentIndex :: u32

text \<open>\<open>alloc\<close> tells whether \<open>AllocatePool\<close> succeeds; its result is not checked.\<close>

definition DTCreateEntryIterator :: "bool \<Rightarrow> dt \<Rightarrow> entry \<Rightarrow> (int \<times> entry_iter option \<times> dt) option" where
  "DTCreateEntryIterator alloc s startEntry =
     (if \<not> DTInitialized s then Some (kError, None, s)
      else if \<not> alloc then None
      else (let e = (if startEntry \<noteq> None then startEntry else DTRootNode s) in
        Some (kSuccess,
          Some \<lparr>outerScope = e, currentScope = e, currentEntry = None, savedScope = [], currentIndex = 0\<rparr>,
          s\<lparr>dt_live := dt_live s + 1\<rparr>)))"

definition DTDisposeEntryIterator :: "dt \<Rightarrow> entry_iter \<Rightarrow> int \<times> dt" where
  "DTDisposeEntryIterator s it = (kSuccess, s\<lparr>dt_live := dt_live s - length (savedScope it) - 1\<rparr>)"

definition DTEnterEntry :: "bool \<Rightarrow> dt \<Rightarrow> entry_iter \<Rightarrow> entry \<Rightarrow> (int \<times> entry_iter \<times> dt) option" where
  "DTEnterEntry alloc s it childEntry =
     (if childEntry = None then Some (kError, it, s)
      else if \<not> alloc then None
      else Some (kSuccess,
        it\<lparr>currentScope := childEntry, currentEntry := None,
           savedScope := (currentScope it, currentEntry it, currentIndex it) # savedScope it, currentIndex := 0\<rparr>,
        s\<lparr>dt_live := dt_live s + 1\<rparr>))"

text \<open>The third component is \<open>currentPosition\<close>, if it is written.\<close>

definition DTExitEntry :: "dt \<Rightarrow> entry_iter \<Rightarrow> int \<times> entry_iter \<times> entry option \<times> dt" where
  "DTExitEntry s it =
     (case savedScope it of
        [] \<Rightarrow> (kError, it, None, s)
      | (scope, e, i) # rest \<Rightarrow>
          (kSuccess, it\<lparr>savedScope := rest, currentScope := scope, currentEntry := e, currentIndex := i\<rparr>,
           Some e, s\<lparr>dt_live := dt_live s - 1\<rparr>))"

definition DTIterateEntries :: "nat \<Rightarrow> dt \<Rightarrow> entry_iter \<Rightarrow> (int \<times> entry_iter \<times> entry) option" where
  "DTIterateEntries F s it =
     (case currentScope it of
        None \<Rightarrow> None
      | Some p \<Rightarrow>
          do {
            n \<leftarrow> le32 (dt_mem s) (p + 4);
            if currentIndex it \<ge> n then Some (kIterationDone, it, None)
            else (let i = currentIndex it + 1 in
              do {
                e \<leftarrow> (if i = 1 then GetFirstChild (dt_mem s) (currentScope it)
                      else GetNextChild F (dt_mem s) (currentEntry it));
                Some (kSuccess, it\<lparr>currentIndex := i, currentEntry := e\<rparr>, e) }) })"

definition DTRestartEntryIteration :: "entry_iter \<Rightarrow> int \<times> entry_iter" where
  "DTRestartEntryIteration it = (kSuccess, it\<lparr>currentEntry := None, currentIndex := 0\<rparr>)"

record prop_iter =
  pi_entry :: entry
  currentProperty :: entry
  pi_index :: u32

definition DTCreatePropertyIteratorNoAlloc :: "entry \<Rightarrow> int \<times> prop_iter" where
  "DTCreatePropertyIteratorNoAlloc e = (kSuccess, \<lparr>pi_entry = e, currentProperty = None, pi_index = 0\<rparr>)"

definition DTCreatePropertyIterator :: "bool \<Rightarrow> dt \<Rightarrow> entry \<Rightarrow> (int \<times> prop_iter \<times> dt) option" where
  "DTCreatePropertyIterator alloc s e =
     (if \<not> alloc then None
      else Some (kSuccess, \<lparr>pi_entry = e, currentProperty = None, pi_index = 0\<rparr>, s\<lparr>dt_live := dt_live s + 1\<rparr>))"

definition DTDisposePropertyIterator :: "dt \<Rightarrow> prop_iter \<Rightarrow> int \<times> dt" where
  "DTDisposePropertyIterator s it = (kSuccess, s\<lparr>dt_live := dt_live s - 1\<rparr>)"

text \<open>\<open>foundProperty\<close> is the address of the name, the first field of the property.\<close>

definition DTIterateProperties :: "dt \<Rightarrow> prop_iter \<Rightarrow> (int \<times> prop_iter \<times> entry) option" where
  "DTIterateProperties s it =
     (case pi_entry it of
        None \<Rightarrow> None
      | Some p \<Rightarrow>
          do {
            n \<leftarrow> le32 (dt_mem s) p;
            if pi_index it \<ge> n then Some (kIterationDone, it, None)
            else (let i = pi_index it + 1 in
              do {
                q \<leftarrow> (if i = 1 then Some (p + 8) else Option.bind (currentProperty it) (next_prop (dt_mem s)));
                Some (kSuccess, it\<lparr>pi_index := i, currentProperty := Some q\<rparr>, Some q) }) })"

definition DTRestartPropertyIteration :: "prop_iter \<Rightarrow> int \<times> prop_iter" where
  "DTRestartPropertyIteration it = (kSuccess, it\<lparr>currentProperty := None, pi_index := 0\<rparr>)"

end
