(* ===== verification/DeviceTreeFacts.thy ===== *)
theory DeviceTreeFacts
  imports DeviceTree
begin

text \<open>
  Facts on the device tree reader of \<^verbatim>\<open>device_tree.c\<close>. The abstract side is the datatype \<open>dtree\<close> with
  its flattened form \<open>tree_bytes\<close>; \<open>tree_at\<close> says that memory holds it at an offset. The walking, the
  lookups and the iterators are refined to paths, preorder and positions on the abstract tree, and the
  iterators give a codec with \<open>tree_bytes\<close>.
\<close>

section \<open>Trees and their flattened form\<close>

datatype dtree = DTree (dt_props: "(byte list \<times> byte list) list") (dt_kids: "dtree list")

definition pad4 :: "nat \<Rightarrow> nat" where
  "pad4 n = (n + 3) div 4 * 4"

fun prop_bytes :: "byte list \<times> byte list \<Rightarrow> byte list" where
  "prop_bytes (n, v) = n @ replicate (32 - length n) 0 @ to_le 4 (of_nat (length v) :: u32) @ v @ replicate (pad4 (length v) - length v) 0"

abbreviation props_bytes :: "(byte list \<times> byte list) list \<Rightarrow> byte list" where
  "props_bytes ps \<equiv> concat (map prop_bytes ps)"

fun tree_bytes :: "dtree \<Rightarrow> byte list" where
  "tree_bytes (DTree ps ks) =
     to_le 4 (of_nat (length ps) :: u32) @ to_le 4 (of_nat (length ks) :: u32) @ props_bytes ps @ concat (map tree_bytes ks)"

abbreviation trees_bytes :: "dtree list \<Rightarrow> byte list" where
  "trees_bytes ts \<equiv> concat (map tree_bytes ts)"

fun prop_ok :: "byte list \<times> byte list \<Rightarrow> bool" where
  "prop_ok (n, v) \<longleftrightarrow> 0 \<notin> set n \<and> length n < 32 \<and> length v + 3 < 2 ^ 32"

fun tree_ok :: "dtree \<Rightarrow> bool" where
  "tree_ok (DTree ps ks) \<longleftrightarrow> ps \<noteq> [] \<and> length ps < 2 ^ 32 \<and> length ks < 2 ^ 32 \<and> list_all prop_ok ps \<and> list_all tree_ok ks"

fun depth :: "dtree \<Rightarrow> nat" where
  "depth (DTree ps ks) = Suc (foldr (\<lambda>k d. max (depth k) d) ks 0)"

lemma depth_kid: "k \<in> set ks \<Longrightarrow> depth k < depth (DTree ps ks)"
proof -
  have "k \<in> set ks \<Longrightarrow> depth k \<le> foldr (\<lambda>k d. max (depth k) d) ks 0"
    by (induction ks) auto
  then show "k \<in> set ks \<Longrightarrow> depth k < depth (DTree ps ks)"
    by simp
qed

section \<open>Bytes at an offset\<close>

definition holds_at :: "byte list \<Rightarrow> nat \<Rightarrow> byte list \<Rightarrow> bool" where
  "holds_at m p xs \<longleftrightarrow> rd_range m p (length xs) = Some xs"

lemma holds_at_split: "holds_at m p xs \<longleftrightarrow> (\<exists>pre post. m = pre @ xs @ post \<and> length pre = p)"
proof
  assume h: "holds_at m p xs"
  then have l: "p + length xs \<le> length m" "take (length xs) (drop p m) = xs"
    by (auto simp: holds_at_def rd_range_eq_Some)
  then have "m = take p m @ xs @ drop (length xs) (drop p m)"
    by (metis append_take_drop_id)
  then show "\<exists>pre post. m = pre @ xs @ post \<and> length pre = p"
    using l(1) by (metis length_take min.absorb2 le_trans le_add1)
qed (auto simp: holds_at_def rd_range_append)

lemma holds_at_Nil: "holds_at m p [] \<longleftrightarrow> p \<le> length m"
  by (simp add: holds_at_def rd_range_def)

lemma holds_at_append: "holds_at m p (xs @ ys) \<longleftrightarrow> holds_at m p xs \<and> holds_at m (p + length xs) ys"
proof
  assume "holds_at m p (xs @ ys)"
  then obtain pre post where "m = pre @ xs @ ys @ post" "length pre = p"
    by (auto simp: holds_at_split)
  then show "holds_at m p xs \<and> holds_at m (p + length xs) ys"
    unfolding holds_at_split by (metis append.assoc length_append)
next
  assume h: "holds_at m p xs \<and> holds_at m (p + length xs) ys"
  then have "p + length (xs @ ys) \<le> length m" "take (length xs) (drop p m) = xs" "take (length ys) (drop (length xs) (drop p m)) = ys"
    by (auto simp: holds_at_def rd_range_eq_Some add.commute add.left_commute)
  then show "holds_at m p (xs @ ys)"
    by (simp add: holds_at_def rd_range_eq_Some take_add)
qed

lemma holds_at_Cons: "holds_at m p (x # xs) \<longleftrightarrow> rd m p = Some x \<and> holds_at m (Suc p) xs"
proof -
  have "holds_at m p [x] \<longleftrightarrow> rd m p = Some x"
    by (cases "p < length m") (auto simp: holds_at_def rd_range_def rd_def Cons_nth_drop_Suc [symmetric])
  then show ?thesis
    using holds_at_append [of m p "[x]" xs] by simp
qed

lemma holds_at_le32: "holds_at m p (to_le 4 (w :: u32)) \<Longrightarrow> le32 m p = Some w"
  by (simp add: holds_at_def le32_def le_value_to_le4)

lemma of_nat32 [simp]: "n < 2 ^ 32 \<Longrightarrow> unat (of_nat n :: u32) = n"
  by (rule unat_small)

lemma pad4_ge: "n \<le> pad4 n"
  unfolding pad4_def by linarith

lemma length_prop_bytes: "length n < 32 \<Longrightarrow> length (prop_bytes (n, v)) = 36 + pad4 (length v)"
  using pad4_ge [of "length v"] by simp

definition tree_at :: "byte list \<Rightarrow> nat \<Rightarrow> dtree \<Rightarrow> bool" where
  "tree_at m p t \<longleftrightarrow> tree_ok t \<and> holds_at m p (tree_bytes t)"

definition props_at :: "byte list \<Rightarrow> nat \<Rightarrow> (byte list \<times> byte list) list \<Rightarrow> bool" where
  "props_at m p ps \<longleftrightarrow> list_all prop_ok ps \<and> holds_at m p (props_bytes ps)"

definition trees_at :: "byte list \<Rightarrow> nat \<Rightarrow> dtree list \<Rightarrow> bool" where
  "trees_at m p ts \<longleftrightarrow> list_all tree_ok ts \<and> holds_at m p (trees_bytes ts)"

lemma props_at_Cons: "props_at m p (x # ps) \<longleftrightarrow> props_at m p [x] \<and> props_at m (p + length (prop_bytes x)) ps"
  by (auto simp: props_at_def holds_at_append)

lemma trees_at_Cons: "trees_at m p (t # ts) \<longleftrightarrow> tree_at m p t \<and> trees_at m (p + length (tree_bytes t)) ts"
  by (auto simp: trees_at_def tree_at_def holds_at_append)

lemma prop_at_fields:
  assumes "props_at m p [(n, v)]"
  shows "0 \<notin> set n" "holds_at m p (n @ [0])" "le32 m (p + 32) = Some (of_nat (length v))" "holds_at m (p + 36) v"
    "next_prop m p = Some (p + length (prop_bytes (n, v)))" "unat (of_nat (length v) :: u32) = length v"
    "length v + 3 < 2 ^ 32"
proof -
  have ok: "0 \<notin> set n" "length n < 32" "length v + 3 < 2 ^ 32" and h: "holds_at m p (prop_bytes (n, v))"
    using assms by (auto simp: props_at_def)
  have h': "holds_at m p n" "holds_at m (p + length n) (replicate (32 - length n) 0)"
    "holds_at m (p + 32) (to_le 4 (of_nat (length v) :: u32))" "holds_at m (p + 36) v"
    using h ok(2) by (simp_all add: holds_at_append add.assoc)
  show "0 \<notin> set n" "length v + 3 < 2 ^ 32" "holds_at m (p + 36) v" "unat (of_nat (length v) :: u32) = length v"
    using ok h' by auto
  show l: "le32 m (p + 32) = Some (of_nat (length v))"
    using h'(3) by (rule holds_at_le32)
  have "replicate (32 - length n) (0 :: byte) = 0 # replicate (31 - length n) 0"
    using ok(2) by (cases "32 - length n") (auto simp: Suc_diff_le)
  then show "holds_at m p (n @ [0])"
    using h'(1,2) by (simp add: holds_at_append holds_at_Cons holds_at_Nil) (auto simp: rd_eq_Some)
  show "next_prop m p = Some (p + length (prop_bytes (n, v)))"
    using l ok by (simp add: next_prop_def round_long_def length_prop_bytes pad4_def del: prop_bytes.simps)
qed

lemma tree_at_fields:
  assumes "tree_at m p (DTree ps ks)"
  shows "n_properties m p = Some (length ps)" "le32 m p = Some (of_nat (length ps))" "ps \<noteq> []" "props_at m (p + 8) ps"
    "n_children m p = Some (length ks)" "le32 m (p + 4) = Some (of_nat (length ks))" "trees_at m (p + 8 + length (props_bytes ps)) ks"
    "unat (of_nat (length ps) :: u32) = length ps" "unat (of_nat (length ks) :: u32) = length ks"
proof -
  have ok: "ps \<noteq> []" "length ps < 2 ^ 32" "length ks < 2 ^ 32" "list_all prop_ok ps" "list_all tree_ok ks"
    and h: "holds_at m p (tree_bytes (DTree ps ks))"
    using assms by (auto simp: tree_at_def)
  have h': "holds_at m p (to_le 4 (of_nat (length ps) :: u32))" "holds_at m (p + 4) (to_le 4 (of_nat (length ks) :: u32))"
    "holds_at m (p + 8) (props_bytes ps)" "holds_at m (p + 8 + length (props_bytes ps)) (trees_bytes ks)"
    using h by (simp_all add: holds_at_append add.assoc)
  show "le32 m p = Some (of_nat (length ps))" "le32 m (p + 4) = Some (of_nat (length ks))"
    using h'(1,2) by (simp_all add: holds_at_le32)
  then show "n_properties m p = Some (length ps)" "n_children m p = Some (length ks)"
    using ok by (simp_all add: n_properties_def n_children_def)
  show "ps \<noteq> []" "props_at m (p + 8) ps" "trees_at m (p + 8 + length (props_bytes ps)) ks"
    "unat (of_nat (length ps) :: u32) = length ps" "unat (of_nat (length ks) :: u32) = length ks"
    using ok h' by (simp_all add: props_at_def trees_at_def)
qed

declare prop_bytes.simps [simp del] tree_bytes.simps [simp del]

section \<open>Walking\<close>

lemma skip_props: "props_at m p ps \<Longrightarrow> repeat_step (length ps) (next_prop m) p = Some (p + length (props_bytes ps))"
proof (induction ps arbitrary: p)
  case (Cons x ps)
  obtain n v where x: "x = (n, v)"
    by (cases x)
  have "props_at m p [(n, v)]" "props_at m (p + length (prop_bytes x)) ps"
    using Cons.prems x by (auto simp: props_at_def holds_at_append)
  then show ?case
    using Cons.IH prop_at_fields(5) [of m p n v] x by (simp add: add.assoc)
qed simp

definition kids_pos :: "nat \<Rightarrow> dtree \<Rightarrow> nat" where
  "kids_pos p t = p + 8 + length (props_bytes (dt_props t))"

lemma skipProperties_at: "tree_at m p t \<Longrightarrow> skipProperties m (Some p) = Some (Some (kids_pos p t))"
  using skip_props [of m "p + 8" "dt_props t"] tree_at_fields [of m p "dt_props t" "dt_kids t"]
  by (simp add: kids_pos_def)

lemma length_tree_bytes: "length (tree_bytes (DTree ps ks)) = 8 + length (props_bytes ps) + length (trees_bytes ks)"
  by (simp add: tree_bytes.simps)

lemma skipTree_at:
  "tree_at m p t \<Longrightarrow> depth t \<le> F \<Longrightarrow> skipTree F m (Some p) = Some (Some (p + length (tree_bytes t)))"
proof (induction t arbitrary: p F)
  case (DTree ps ks)
  note f = tree_at_fields [OF DTree.prems(1)]
  obtain G where F: "F = Suc G"
    using DTree.prems(2) by (cases F) auto
  have "\<forall>k \<in> set ks. depth k \<le> G"
    using depth_kid [of _ ks ps] DTree.prems(2) unfolding F by (metis less_Suc_eq_le order_less_le_trans)
  then have "repeat_step (length ks) (skipTree G m) (Some q) = Some (Some (q + length (trees_bytes ks)))"
    if "trees_at m q ks" for q
    using that DTree.IH
  proof (induction ks arbitrary: q)
    case (Cons k ks)
    have "tree_at m q k" "trees_at m (q + length (tree_bytes k)) ks"
      using Cons.prems(2) by (simp_all add: trees_at_Cons)
    moreover from this have "skipTree G m (Some q) = Some (Some (q + length (tree_bytes k)))"
      by (intro Cons.prems(3)) (use Cons.prems(1) in auto)
    ultimately show ?case
      using Cons.IH [OF _ _ Cons.prems(3)] Cons.prems(1) by (simp add: add.assoc)
  qed simp
  then show ?case
    using f(5,7) skipProperties_at [OF DTree.prems(1)] length_tree_bytes [of ps ks]
    by (simp add: F kids_pos_def add.assoc)
qed

lemma GetNextChild_at:
  "tree_at m p t \<Longrightarrow> depth t \<le> F \<Longrightarrow> GetNextChild F m (Some p) = Some (Some (p + length (tree_bytes t)))"
  by (simp add: GetNextChild_def skipTree_at)

section \<open>Strings and properties\<close>

lemma ascii_eq_at:
  "holds_at m p (s @ [0]) \<Longrightarrow> 0 \<notin> set s \<Longrightarrow> 0 \<notin> set name \<Longrightarrow> ascii_eq m p name = Some (s = name)"
proof (induction name arbitrary: p s)
  case Nil
  then show ?case
    by (cases s) (auto simp: holds_at_Cons)
next
  case (Cons c name)
  then show ?case
    by (cases s) (auto simp: holds_at_Cons)
qed

text \<open>The C string at the start of a value that has a NUL.\<close>

definition cstring :: "byte list \<Rightarrow> byte list" where
  "cstring v = takeWhile (\<lambda>c. c \<noteq> 0) v"

lemma cstring_at:
  assumes "holds_at m p v" "0 \<in> set v"
  shows "holds_at m p (cstring v @ [0])" "0 \<notin> set (cstring v)"
proof -
  obtain ys zs where v: "v = ys @ 0 # zs" "0 \<notin> set ys"
    using split_list_first [OF assms(2)] by blast
  then have c: "cstring v = ys"
    by (simp add: cstring_def takeWhile_no_stop)
  then show "holds_at m p (cstring v @ [0])"
    using assms(1) holds_at_append [of m p "ys @ [0]" zs] v(1) by simp
  show "0 \<notin> set (cstring v)"
    using c v(2) by simp
qed

fun prop_pos :: "nat \<Rightarrow> (byte list \<times> byte list) list \<Rightarrow> byte list \<Rightarrow> (nat \<times> byte list) option" where
  "prop_pos p [] name = None"
| "prop_pos p ((n, v) # ps) name = (if n = name then Some (p + 36, v) else prop_pos (p + length (prop_bytes (n, v))) ps name)"

lemma prop_pos_map_of: "map_option snd (prop_pos p ps name) = map_of ps name"
  by (induction p ps name rule: prop_pos.induct) auto

lemma prop_pos_holds: "props_at m p ps \<Longrightarrow> prop_pos p ps name = Some (q, v) \<Longrightarrow>
    holds_at m q v \<and> (name, v) \<in> set ps \<and> unat (of_nat (length v) :: u32) = length v"
proof (induction p ps name rule: prop_pos.induct)
  case (2 p n v' ps name)
  have "props_at m p [(n, v')]" "props_at m (p + length (prop_bytes (n, v'))) ps"
    using 2(2) by (auto simp: props_at_def holds_at_append)
  then show ?case
    using 2(1,3) prop_at_fields(4,6) [of m p n v'] by (auto split: if_splits)
qed simp

lemma get_prop_at:
  "props_at m p ps \<Longrightarrow> 0 \<notin> set name \<Longrightarrow>
     get_prop m name (length ps) p = Some (map_option (\<lambda>(q, v). (q, of_nat (length v))) (prop_pos p ps name))"
proof (induction p ps name rule: prop_pos.induct)
  case (2 p n v ps name)
  have at: "props_at m p [(n, v)]" "props_at m (p + length (prop_bytes (n, v))) ps"
    using 2(2) by (auto simp: props_at_def holds_at_append)
  note f = prop_at_fields [OF at(1)]
  show ?case
    using 2(1,3) at(2) f(3,5) ascii_eq_at [OF f(2,1) 2(3)] by auto
qed simp

lemma DTGetProperty_at:
  assumes "tree_at m p t" "0 \<notin> set name"
  shows "DTGetProperty m (Some p) name =
     Some (map_option (\<lambda>(q, v). (q, of_nat (length v))) (prop_pos (p + 8) (dt_props t) name))"
  using tree_at_fields [of m p "dt_props t" "dt_kids t"] get_prop_at [of m "p + 8" "dt_props t" name] assms by simp

section \<open>Children and paths\<close>

text \<open>The specification of the search among the children: the first child with this name. A child
  without a name ends it.\<close>

abbreviation node_name :: "dtree \<Rightarrow> byte list option" where
  "node_name t \<equiv> map_of (dt_props t) (lit ''name'')"

fun child_pos :: "nat \<Rightarrow> dtree list \<Rightarrow> byte list \<Rightarrow> (nat \<times> dtree) option" where
  "child_pos p [] b = None"
| "child_pos p (t # ts) b =
     (case node_name t of
        None \<Rightarrow> None
      | Some v \<Rightarrow> if cstring v = b then Some (p, t) else child_pos (p + length (tree_bytes t)) ts b)"

fun path_pos :: "nat \<times> dtree \<Rightarrow> byte list list \<Rightarrow> (nat \<times> dtree) option" where
  "path_pos (p, t) [] = Some (p, t)"
| "path_pos (p, t) (b # bs) = Option.bind (child_pos (kids_pos p t) (dt_kids t) b) (\<lambda>x. path_pos x bs)"

text \<open>Every name is a C string.\<close>

fun names_ok :: "dtree \<Rightarrow> bool" where
  "names_ok (DTree ps ks) \<longleftrightarrow> (case map_of ps (lit ''name'') of None \<Rightarrow> True | Some v \<Rightarrow> 0 \<in> set v) \<and> list_all names_ok ks"

lemma name_no_nul: "0 \<notin> set (lit ''name'')"
  by (simp add: lit_def)

lemma find_child_step:
  assumes "tree_at m p t" "names_ok t" "depth t \<le> F" "0 \<notin> set b"
  shows "find_child F m b k (Some p) =
    (case node_name t of
       None \<Rightarrow> Some None
     | Some v \<Rightarrow>
         if cstring v = b then Some (Some p)
         else (case k of 0 \<Rightarrow> Some None | Suc k' \<Rightarrow> find_child F m b k' (Some (p + length (tree_bytes t)))))"
proof (cases "prop_pos (p + 8) (dt_props t) (lit ''name'')")
  case None
  then show ?thesis
    using DTGetProperty_at [OF assms(1) name_no_nul] prop_pos_map_of [of "p + 8" "dt_props t" "lit ''name''"]
    by (subst find_child.simps) simp
next
  case (Some qv)
  obtain q v where qv: "qv = (q, v)"
    by (cases qv)
  have v: "node_name t = Some v"
    using prop_pos_map_of [of "p + 8" "dt_props t" "lit ''name''"] Some qv by simp
  have "holds_at m q v"
    using prop_pos_holds [of m "p + 8" "dt_props t" "lit ''name''" q v]
      tree_at_fields(4) [of m p "dt_props t" "dt_kids t"] assms(1) Some qv
    by simp
  moreover have "0 \<in> set v"
    using assms(2) v by (cases t) auto
  ultimately have "ascii_eq m q b = Some (cstring v = b)"
    using ascii_eq_at [OF cstring_at] assms(4) by blast
  then show ?thesis
    using DTGetProperty_at [OF assms(1) name_no_nul] Some qv v GetNextChild_at [OF assms(1,3)]
    by (subst find_child.simps) (simp split: nat.split)
qed

lemma find_child_at:
  assumes "trees_at m p (t # ts)" "\<forall>k \<in> set (t # ts). depth k \<le> F \<and> names_ok k" "0 \<notin> set b"
  shows "find_child F m b (length ts) (Some p) = Some (map_option fst (child_pos p (t # ts) b))"
  using assms
proof (induction ts arbitrary: p t)
  case (Nil p t)
  then show ?case
    using find_child_step [of m p t F b 0] by (simp add: trees_at_Cons split: option.split)
next
  case (Cons u ts p t)
  have "trees_at m (p + length (tree_bytes t)) (u # ts)"
    using Cons.prems(1) by (simp add: trees_at_Cons)
  then have "find_child F m b (length ts) (Some (p + length (tree_bytes t))) =
      Some (map_option fst (child_pos (p + length (tree_bytes t)) (u # ts) b))"
    by (rule Cons.IH) (use Cons.prems(2,3) in auto)
  then show ?case
    using find_child_step [of m p t F b "Suc (length ts)"] Cons.prems
    by (simp add: trees_at_Cons [of m p t] split: option.split)
qed

lemma child_pos_at:
  "trees_at m p ts \<Longrightarrow> child_pos p ts b = Some (q, u) \<Longrightarrow> tree_at m q u \<and> u \<in> set ts"
  by (induction p ts b rule: child_pos.induct) (auto simp: trees_at_Cons split: option.splits if_splits)

lemma FindChild_at:
  assumes "tree_at m p t" "names_ok t" "depth t \<le> F" "0 \<notin> set b"
  shows "FindChild F m p b = Some (map_option fst (child_pos (kids_pos p t) (dt_kids t) b))"
proof -
  obtain ps ks where t: "t = DTree ps ks"
    by (cases t)
  note f = tree_at_fields [OF assms(1) [unfolded t]]
  show ?thesis
  proof (cases ks)
    case Nil
    then show ?thesis
      using f(5) by (simp add: FindChild_def t)
  next
    case (Cons k ks')
    have "find_child F m b (length ks') (Some (kids_pos p t)) = Some (map_option fst (child_pos (kids_pos p t) (k # ks') b))"
    proof (rule find_child_at [OF _ _ assms(4)])
      show "trees_at m (kids_pos p t) (k # ks')"
        using f(7) Cons by (simp add: t kids_pos_def)
      show "\<forall>k \<in> set (k # ks'). depth k \<le> F \<and> names_ok k"
        using assms(2,3) depth_kid [of _ ks ps] Cons unfolding t by (fastforce simp: list_all_iff)
    qed
    then show ?thesis
      using f(5) skipProperties_at [OF assms(1)] Cons by (simp add: FindChild_def GetFirstChild_def t)
  qed
qed

section \<open>Looking up a path\<close>

lemma component_fits:
  "47 \<notin> set b \<Longrightarrow> length bp + length b < 32 \<Longrightarrow>
     GetNextComponent b bp = Some ([], bp @ b) \<and> GetNextComponent (b @ 47 # rest) bp = Some (rest, bp @ b)"
  by (induction b arbitrary: bp) (auto simp: kDTPathNameSeparator_def)

lemma component_overflows:
  assumes "47 \<notin> set b" "length bp \<le> 32" "32 \<le> length bp + length b"
  shows "GetNextComponent (b @ rest) bp = None"
  using assms
proof (induction b arbitrary: bp)
  case Nil
  then show ?case
    by (cases rest) auto
next
  case (Cons c b)
  then show ?case
    by (cases "length bp = 32") (auto simp: kDTPathNameSeparator_def)
qed

fun path_text :: "byte list list \<Rightarrow> byte list" where
  "path_text [] = []"
| "path_text [b] = b"
| "path_text (b # bs) = b @ 47 # path_text bs"

definition component_ok :: "byte list \<Rightarrow> bool" where
  "component_ok b \<longleftrightarrow> b \<noteq> [] \<and> length b < 32 \<and> 47 \<notin> set b \<and> 0 \<notin> set b"

lemma next_component:
  "component_ok b \<Longrightarrow> GetNextComponent (path_text (b # bs)) [] = Some (path_text bs, b)"
  using component_fits [of b "[]"] by (cases bs) (simp_all add: component_ok_def)

lemma names_ok_kid: "names_ok t \<Longrightarrow> k \<in> set (dt_kids t) \<Longrightarrow> names_ok k"
  by (cases t) (auto simp: list_all_iff)

lemma lookup_path_at:
  assumes "tree_at m p t" "names_ok t" "depth t \<le> F" "list_all component_ok bs"
  shows "lookup_path F m p (path_text bs) =
     Some (case path_pos (p, t) bs of None \<Rightarrow> (kError, None) | Some (q, u) \<Rightarrow> (kSuccess, Some q))"
  using assms
proof (induction bs arbitrary: p t)
  case Nil
  then show ?case
    by (subst lookup_path.simps) simp
next
  case (Cons b bs)
  have b: "component_ok b" "0 \<notin> set b" "b \<noteq> []"
    using Cons.prems(4) by (auto simp: component_ok_def)
  note nc = next_component [OF b(1), of bs] and child = FindChild_at [OF Cons.prems(1-3) b(2)]
  show ?case
  proof (cases "child_pos (kids_pos p t) (dt_kids t) b")
    case None
    then show ?thesis
      using b nc child by (subst lookup_path.simps) simp
  next
    case (Some qu)
    obtain q u where qu: "qu = (q, u)"
      by (cases qu)
    have "trees_at m (kids_pos p t) (dt_kids t)"
      using tree_at_fields(7) [of m p "dt_props t" "dt_kids t"] Cons.prems(1) by (simp add: kids_pos_def)
    then have u: "tree_at m q u" "u \<in> set (dt_kids t)"
      using child_pos_at Some qu by blast+
    then have "names_ok u" "depth u \<le> F"
      using names_ok_kid [OF Cons.prems(2)] depth_kid [of u "dt_kids t" "dt_props t"] Cons.prems(3) by auto
    then have "lookup_path F m q (path_text bs) =
        Some (case path_pos (q, u) bs of None \<Rightarrow> (kError, None) | Some (q, u) \<Rightarrow> (kSuccess, Some q))"
      using Cons.IH [OF u(1)] Cons.prems(4) by simp
    then show ?thesis
      using b nc child Some qu by (subst lookup_path.simps) simp
  qed
qed

section \<open>The search of the whole tree\<close>

lemma round_and: "n + 3 < 2 ^ 32 \<Longrightarrow> unat ((of_nat n + 3 :: u32) AND (- 4)) = pad4 n"
proof -
  assume n: "n + 3 < 2 ^ 32"
  have x: "unat (of_nat n + 3 :: u32) = n + 3"
    using of_nat32 [OF n] by simp
  have m: "(- 4 :: u32) = NOT (mask 2)"
    by (simp add: mask_eq_exp_minus_1)
  have two: "2 \<le> n \<Longrightarrow> Suc (Suc (n - 2)) = n" "\<not> n < 2 \<Longrightarrow> Suc (Suc (n - 2)) = n" for n :: nat
    by simp_all
  have "w AND (- 4) = push_bit 2 (drop_bit 2 w)" for w :: u32
    unfolding m by (rule bit_word_eqI) (auto simp: bit_simps two)
  then have "unat ((of_nat n + 3 :: u32) AND (- 4)) = unat ((of_nat n + 3 :: u32) div 4 * 4)"
    by (simp add: push_bit_eq_mult drop_bit_eq_div)
  also have "\<dots> = (n + 3) div 4 * 4"
  proof -
    have d: "unat ((of_nat n + 3 :: u32) div 4) = (n + 3) div 4"
      using x by (simp add: unat_div)
    have "(n + 3) div 4 * 4 < 2 ^ 32"
      using n by linarith
    then show ?thesis
      using d by (simp add: unat_word_ariths)
  qed
  finally show ?thesis
    by (simp add: pad4_def)
qed

definition has_prop :: "byte list \<Rightarrow> byte list option \<Rightarrow> dtree \<Rightarrow> bool" where
  "has_prop name val t \<longleftrightarrow>
     list_ex (\<lambda>(n, v). n = name \<and> (case val of None \<Rightarrow> True | Some w \<Rightarrow> cstring v = w)) (dt_props t)"

fun nodes :: "nat \<Rightarrow> dtree \<Rightarrow> (nat \<times> dtree) list" and nodes_list :: "nat \<Rightarrow> dtree list \<Rightarrow> (nat \<times> dtree) list" where
  "nodes p (DTree ps ks) = (p, DTree ps ks) # nodes_list (p + 8 + length (props_bytes ps)) ks"
| "nodes_list p [] = []"
| "nodes_list p (t # ts) = nodes p t @ nodes_list (p + length (tree_bytes t)) ts"

text \<open>The values to compare with are C strings.\<close>

fun values_ok :: "byte list \<Rightarrow> dtree \<Rightarrow> bool" where
  "values_ok name (DTree ps ks) \<longleftrightarrow> list_all (\<lambda>(n, v). n = name \<longrightarrow> 0 \<in> set v) ps \<and> list_all (values_ok name) ks"

lemma find_props_at:
  assumes "props_at m p ps" "0 \<notin> set name" "\<forall>w. val = Some w \<longrightarrow> 0 \<notin> set w"
    "val \<noteq> None \<longrightarrow> list_all (\<lambda>(n, v). n = name \<longrightarrow> 0 \<in> set v) ps"
  shows "\<exists>sp'. find_props m name val (length ps) p =
      Some (list_ex (\<lambda>(n, v). n = name \<and> (case val of None \<Rightarrow> True | Some w \<Rightarrow> cstring v = w)) ps, sp') \<and>
      (\<not> list_ex (\<lambda>(n, v). n = name \<and> (case val of None \<Rightarrow> True | Some w \<Rightarrow> cstring v = w)) ps \<longrightarrow>
         sp' = p + length (props_bytes ps))"
  using assms
proof (induction ps arbitrary: p)
  case (Cons x ps)
  obtain n v where x: "x = (n, v)"
    by (cases x)
  have at: "props_at m p [(n, v)]" "props_at m (p + length (prop_bytes (n, v))) ps"
    using Cons.prems(1) x by (auto simp: props_at_def holds_at_append)
  note f = prop_at_fields [OF at(1)]
  have eq: "ascii_eq m p name = Some (n = name)"
    using ascii_eq_at [OF f(2,1) Cons.prems(2)] .
  have val: "(case val of None \<Rightarrow> Some True | Some w \<Rightarrow> ascii_eq m (p + 36) w) =
      Some (case val of None \<Rightarrow> True | Some w \<Rightarrow> cstring v = w)" if "n = name"
  proof (cases val)
    case (Some w)
    have "0 \<in> set v"
      using Cons.prems(4) Some that x by simp
    then show ?thesis
      using ascii_eq_at [OF cstring_at [OF f(4)], of w] Cons.prems(3) Some by simp
  qed simp
  have "length n < 32"
    using at(1) by (simp add: props_at_def)
  then have sp: "p + 36 + unat ((of_nat (length v) + 3 :: u32) AND (- 4)) = p + length (prop_bytes (n, v))"
    using round_and [OF f(7)] by (simp add: length_prop_bytes)
  obtain sp' where ih: "find_props m name val (length ps) (p + length (prop_bytes (n, v))) =
      Some (list_ex (\<lambda>(n, v). n = name \<and> (case val of None \<Rightarrow> True | Some w \<Rightarrow> cstring v = w)) ps, sp')"
      "\<not> list_ex (\<lambda>(n, v). n = name \<and> (case val of None \<Rightarrow> True | Some w \<Rightarrow> cstring v = w)) ps \<longrightarrow>
         sp' = p + length (prop_bytes (n, v)) + length (props_bytes ps)"
    using Cons.IH [OF at(2)] Cons.prems(2-4) by auto
  show ?case
  proof (cases "n = name \<and> (case val of None \<Rightarrow> True | Some w \<Rightarrow> cstring v = w)")
    case True
    then show ?thesis
      using f(3) eq val x by (simp add: Let_def)
  next
    case False
    then have "find_props m name val (length (x # ps)) p = find_props m name val (length ps) (p + length (prop_bytes (n, v)))"
      using f(3) eq val by (auto simp: Let_def sp)
    then show ?thesis
      using ih False x by (auto simp: add.assoc)
  qed
qed simp

lemma find_append: "find P (xs @ ys) = (case find P xs of None \<Rightarrow> find P ys | Some x \<Rightarrow> Some x)"
  by (induction xs) auto

lemma find_kids_at:
  assumes "\<forall>t \<in> set ts. \<forall>p. tree_at m p t \<longrightarrow> (\<exists>sp'. f p = Some (map_option fst (find (\<lambda>(q, u). P u) (nodes p t)), sp') \<and>
      (find (\<lambda>(q, u). P u) (nodes p t) = None \<longrightarrow> sp' = p + length (tree_bytes t)))" "trees_at m p ts"
  shows "\<exists>sp'. find_kids (length ts) f p = Some (map_option fst (find (\<lambda>(q, u). P u) (nodes_list p ts)), sp') \<and>
      (find (\<lambda>(q, u). P u) (nodes_list p ts) = None \<longrightarrow> sp' = p + length (trees_bytes ts))"
  using assms
proof (induction ts arbitrary: p)
  case (Cons t ts)
  have at: "tree_at m p t" "trees_at m (p + length (tree_bytes t)) ts"
    using Cons.prems(2) by (simp_all add: trees_at_Cons)
  obtain sp1 where h: "f p = Some (map_option fst (find (\<lambda>(q, u). P u) (nodes p t)), sp1)"
    "find (\<lambda>(q, u). P u) (nodes p t) = None \<longrightarrow> sp1 = p + length (tree_bytes t)"
    using Cons.prems(1) at(1) by auto
  show ?case
  proof (cases "find (\<lambda>(q, u). P u) (nodes p t)")
    case None
    then show ?thesis
      using h Cons.IH [OF _ at(2)] Cons.prems(1) by (auto simp: find_append add.assoc)
  next
    case (Some qu)
    then show ?thesis
      using h(1) by (cases qu) (simp add: find_append)
  qed
qed simp

lemma find_entry_at:
  assumes "0 \<notin> set name" "\<forall>w. val = Some w \<longrightarrow> 0 \<notin> set w"
  shows "tree_at m p t \<Longrightarrow> depth t \<le> F \<Longrightarrow> (val \<noteq> None \<longrightarrow> values_ok name t) \<Longrightarrow>
    \<exists>sp'. find_entry F m name val p = Some (map_option fst (find (\<lambda>(q, u). has_prop name val u) (nodes p t)), sp') \<and>
      (find (\<lambda>(q, u). has_prop name val u) (nodes p t) = None \<longrightarrow> sp' = p + length (tree_bytes t))"
proof (induction t arbitrary: p F)
  case (DTree ps ks)
  note f = tree_at_fields [OF DTree.prems(1)]
  obtain G where F: "F = Suc G"
    using DTree.prems(2) by (cases F) auto
  have G: "depth k \<le> G" if "k \<in> set ks" for k
    using depth_kid [OF that, of ps] DTree.prems(2) unfolding F by simp
  have vps: "val \<noteq> None \<longrightarrow> list_all (\<lambda>(n, v). n = name \<longrightarrow> 0 \<in> set v) ps"
    and vks: "k \<in> set ks \<Longrightarrow> val \<noteq> None \<longrightarrow> values_ok name k" for k
    using DTree.prems(3) by (auto simp: list_all_iff)
  obtain sp1 where h: "find_props m name val (length ps) (p + 8) = Some (has_prop name val (DTree ps ks), sp1)"
    "\<not> has_prop name val (DTree ps ks) \<longrightarrow> sp1 = p + 8 + length (props_bytes ps)"
    using find_props_at [OF f(4) assms vps] by (auto simp: has_prop_def)
  show ?case
  proof (cases "has_prop name val (DTree ps ks)")
    case True
    then show ?thesis
      using f(1,3) h(1) by (simp add: F)
  next
    case False
    have "\<exists>sp'. find_kids (length ks) (find_entry G m name val) (p + 8 + length (props_bytes ps)) =
        Some (map_option fst (find (\<lambda>(q, u). has_prop name val u) (nodes_list (p + 8 + length (props_bytes ps)) ks)), sp') \<and>
        (find (\<lambda>(q, u). has_prop name val u) (nodes_list (p + 8 + length (props_bytes ps)) ks) = None \<longrightarrow>
           sp' = p + 8 + length (props_bytes ps) + length (trees_bytes ks))"
      by (rule find_kids_at [OF _ f(7)]) (intro ballI allI impI DTree.IH G vks; assumption)
    then show ?thesis
      using f(1,3,5) h False length_tree_bytes [of ps ks] by (auto simp: F)
  qed
qed

section \<open>Properties of the lookups\<close>

text \<open>C21. On every well-formed flattened tree in memory the lookup of a path is the walk down the
  abstract tree: success with the address of the node that the names of the path lead to, an error
  when one of them has no such child. No byte outside the tree is read; a recursion depth of the tree's
  own depth is enough.\<close>

theorem dt_lookup_refines:
  assumes "DTInitialized s" "DTRootNode s = Some r" "tree_at (dt_mem s) r t" "names_ok t" "depth t \<le> F"
    and "list_all component_ok bs"
  shows "DTLookupEntry F s None (kDTPathNameSeparator # path_text bs) =
     Some (case path_pos (r, t) bs of None \<Rightarrow> (kError, None) | Some (q, u) \<Rightarrow> (kSuccess, Some q))"
proof (cases "path_text bs = []")
  case True
  have "bs = []"
    using True assms(6) by (cases bs rule: path_text.cases) (auto simp: component_ok_def)
  then show ?thesis
    using assms(1,2) by (simp add: DTLookupEntry_def)
next
  case False
  then show ?thesis
    using assms(1,2) lookup_path_at [OF assms(3-6)] by (simp add: DTLookupEntry_def)
qed

definition demo_tree :: dtree where
  "demo_tree = DTree [(lit ''name'', [47, 0])] [DTree [(lit ''name'', [97, 0])] [], DTree [(lit ''name'', [98, 0]), ([120], [7, 0])] []]"

definition demo_dt :: dt where
  "demo_dt = \<lparr>dt_mem = tree_bytes demo_tree, DTRootNode = Some 0, DTInitialized = True, dt_live = 0\<rparr>"

lemma demo_tree_facts:
  "tree_at (dt_mem demo_dt) 0 demo_tree" "names_ok demo_tree" "depth demo_tree = 2" "values_ok [120] demo_tree"
  by (simp_all add: demo_dt_def tree_at_def holds_at_def rd_range_def demo_tree_def lit_def)

lemma dt_lookup_refines_witness: "DTLookupEntry 2 demo_dt None [47, 98] = Some (kSuccess, Some 96)"
proof -
  have "child_pos (kids_pos 0 demo_tree) (dt_kids demo_tree) [98] = Some (96, DTree [(lit ''name'', [98, 0]), ([120], [7, 0])] [])"
    by (simp add: demo_tree_def kids_pos_def prop_bytes.simps tree_bytes.simps lit_def pad4_def cstring_def)
  then show ?thesis
    using dt_lookup_refines [of demo_dt 0 demo_tree 2 "[[98]]"] demo_tree_facts
    by (simp add: demo_dt_def component_ok_def kDTPathNameSeparator_def)
qed

text \<open>The component buffer has 32 bytes and its bound is never checked: exactly a path component
  of 32 or more characters is written beyond it, whatever the tree holds.\<close>

theorem dt_component_overflow:
  assumes "47 \<notin> set b" "rest = [] \<or> (\<exists>r. rest = 47 # r)" "b \<noteq> []" "DTInitialized s" "DTRootNode s \<noteq> None"
  shows "(GetNextComponent (b @ rest) [] = None \<longleftrightarrow> 32 \<le> length b) \<and>
    (32 \<le> length b \<longrightarrow> DTLookupEntry F s None (kDTPathNameSeparator # b @ rest) = None)"
proof -
  have "GetNextComponent (b @ rest) [] \<noteq> None" if "length b < 32"
    using component_fits [of b "[]"] assms(1,2) that by auto
  moreover have over: "GetNextComponent (b @ rest) [] = None" if "32 \<le> length b"
    using component_overflows [of b "[]" rest] assms(1) that by simp
  moreover have "DTLookupEntry F s None (kDTPathNameSeparator # b @ rest) = None" if "32 \<le> length b"
    using over [OF that] assms(3-5) by (auto simp: DTLookupEntry_def lookup_path.simps)
  ultimately show ?thesis
    by linarith
qed

lemma dt_component_overflow_witness: "DTLookupEntry 5 demo_dt None (47 # replicate 32 97) = None"
  using dt_component_overflow [of "replicate 32 97" "[]" demo_dt 5] by (simp add: demo_dt_def kDTPathNameSeparator_def)

text \<open>C23. \<open>DTFindEntry\<close> searches the tree in preorder: it gives the first node that has a property of
  this name, and of this value if one is asked for, and an error when there is none.\<close>

theorem dt_find_entry_preorder:
  assumes "DTInitialized s" "DTRootNode s = Some r" "tree_at (dt_mem s) r t" "depth t \<le> F"
    and "0 \<notin> set name" "\<forall>w. val = Some w \<longrightarrow> 0 \<notin> set w" "val \<noteq> None \<longrightarrow> values_ok name t"
  shows "DTFindEntry F s name val =
     Some (case find (\<lambda>(q, u). has_prop name val u) (nodes r t) of None \<Rightarrow> (kError, None) | Some (q, u) \<Rightarrow> (kSuccess, Some q))"
  using find_entry_at [OF assms(5,6,3,4,7)] assms(1,2) by (auto simp: DTFindEntry_def split: option.split)

lemma dt_find_entry_preorder_witness: "DTFindEntry 2 demo_dt [120] (Some [7]) = Some (kSuccess, Some 96)"
proof -
  have "find (\<lambda>(q, u). has_prop [120] (Some [7]) u) (nodes 0 demo_tree) = Some (96, DTree [(lit ''name'', [98, 0]), ([120], [7, 0])] [])"
    by (simp add: demo_tree_def has_prop_def prop_bytes.simps tree_bytes.simps lit_def pad4_def cstring_def)
  then show ?thesis
    using dt_find_entry_preorder [of demo_dt 0 demo_tree 2 "[120]" "Some [7]"] demo_tree_facts by (simp add: demo_dt_def)
qed

section \<open>A client of the iterators\<close>

text \<open>The client reads a whole tree back: for each entry it iterates over the properties and asks for
  their values, then it iterates over the children, enters each and leaves it again.\<close>

fun load_props :: "nat \<Rightarrow> dt \<Rightarrow> prop_iter \<Rightarrow> (byte list \<times> byte list) list option" where
  "load_props 0 s it = None"
| "load_props (Suc F) s it =
     do {
       (st, it', q) \<leftarrow> DTIterateProperties s it;
       if st \<noteq> kSuccess then Some []
       else do {
         a \<leftarrow> q;
         name \<leftarrow> cstr (dt_mem s) a;
         r \<leftarrow> DTGetProperty (dt_mem s) (pi_entry it) name;
         (v, len) \<leftarrow> r;
         bytes \<leftarrow> rd_range (dt_mem s) v (unat len);
         rest \<leftarrow> load_props F s it';
         Some ((name, bytes) # rest) } }"

fun load_tree :: "nat \<Rightarrow> nat \<Rightarrow> dt \<Rightarrow> entry_iter \<Rightarrow> (dtree \<times> entry_iter \<times> dt) option"
  and load_kids :: "nat \<Rightarrow> nat \<Rightarrow> dt \<Rightarrow> entry_iter \<Rightarrow> (dtree list \<times> entry_iter \<times> dt) option" where
  "load_tree 0 D s it = None"
| "load_tree (Suc F) D s it =
     do {
       ps \<leftarrow> load_props D s (snd (DTCreatePropertyIteratorNoAlloc (currentScope it)));
       (ks, it', s') \<leftarrow> load_kids F D s it;
       Some (DTree ps ks, it', s') }"
| "load_kids 0 D s it = None"
| "load_kids (Suc F) D s it =
     do {
       (st, it1, e) \<leftarrow> DTIterateEntries D s it;
       if st \<noteq> kSuccess then Some ([], it1, s)
       else do {
         (_, it2, s2) \<leftarrow> DTEnterEntry True s it1 e;
         (t, it3, s3) \<leftarrow> load_tree F D s2 it2;
         let (_, it4, _, s4) = DTExitEntry s3 it3;
         (ts, it5, s5) \<leftarrow> load_kids F D s4 it4;
         Some (t # ts, it5, s5) } }"

definition dt_load :: "byte list \<Rightarrow> (dtree \<times> nat) option" where
  "dt_load m =
     do {
       let s = DTInit (Some 0) \<lparr>dt_mem = m, DTRootNode = None, DTInitialized = False, dt_live = 0\<rparr>;
       (_, it, s1) \<leftarrow> DTCreateEntryIterator True s None;
       it1 \<leftarrow> it;
       (t, it2, s2) \<leftarrow> load_tree (length m) (length m) s1 it1;
       Some (t, dt_live (snd (DTDisposeEntryIterator s2 it2))) }"

section \<open>Positions of the iterators\<close>

definition prop_it :: "nat \<Rightarrow> (byte list \<times> byte list) list \<Rightarrow> prop_iter" where
  "prop_it p xs = \<lparr>pi_entry = Some p,
     currentProperty = (if xs = [] then None else Some (p + 8 + length (props_bytes (butlast xs)))),
     pi_index = of_nat (length xs)\<rparr>"

definition entry_it :: "entry_iter \<Rightarrow> nat \<Rightarrow> nat \<Rightarrow> dtree list \<Rightarrow> entry_iter" where
  "entry_it it p k xs = it\<lparr>currentScope := Some p,
     currentEntry := (if xs = [] then None else Some (k + length (trees_bytes (butlast xs)))),
     currentIndex := of_nat (length xs)\<rparr>"

lemma index_step:
  assumes "n < 2 ^ 32"
  shows "(of_nat n + 1 = (1 :: u32)) = (n = 0)"
proof -
  have "of_nat n + 1 = (1 :: u32) \<longleftrightarrow> of_nat n = (0 :: u32)"
    by simp
  also have "\<dots> \<longleftrightarrow> n = 0"
  proof
    assume "of_nat n = (0 :: u32)"
    then have "unat (of_nat n :: u32) = 0"
      by simp
    then show "n = 0"
      using of_nat32 [OF assms] by simp
  qed simp
  finally show ?thesis .
qed

lemma index_le:
  assumes "n < 2 ^ 32" "k < 2 ^ 32"
  shows "(of_nat k \<le> (of_nat n :: u32)) = (k \<le> n)"
  using of_nat32 [OF assms(1)] of_nat32 [OF assms(2)] by (simp add: word_le_nat_alt)

lemma iterate_props_done:
  assumes "tree_at (dt_mem s) p (DTree ps ks)"
  shows "DTIterateProperties s (prop_it p ps) = Some (kIterationDone, prop_it p ps, None)"
  using tree_at_fields(2) [OF assms] by (simp add: DTIterateProperties_def prop_it_def)

lemma props_at_append: "props_at m p (xs @ ys) \<longleftrightarrow> props_at m p xs \<and> props_at m (p + length (props_bytes xs)) ys"
  by (auto simp: props_at_def holds_at_append)

lemma trees_at_append: "trees_at m p (xs @ ys) \<longleftrightarrow> trees_at m p xs \<and> trees_at m (p + length (trees_bytes xs)) ys"
  by (auto simp: trees_at_def holds_at_append)

lemma iterate_props_next:
  assumes "tree_at (dt_mem s) p (DTree (xs @ y # ys) ks)"
  shows "DTIterateProperties s (prop_it p xs) =
     Some (kSuccess, prop_it p (xs @ [y]), Some (p + 8 + length (props_bytes xs)))"
proof -
  note f = tree_at_fields [OF assms]
  have n: "length (xs @ y # ys) < 2 ^ 32"
    using assms by (simp add: tree_at_def)
  then have idx: "\<not> of_nat (length (xs @ y # ys)) \<le> (of_nat (length xs) :: u32)"
    using index_le [of "length xs" "length (xs @ y # ys)"] by simp
  have one: "(of_nat (length xs) + 1 = (1 :: u32)) = (xs = [])"
    using index_step [of "length xs"] n by simp
  show ?thesis
  proof (cases xs rule: rev_cases)
    case Nil
    then show ?thesis
      using f(2) idx one by (simp add: DTIterateProperties_def prop_it_def)
  next
    case (snoc zs z)
    obtain zn zv where z: "z = (zn, zv)"
      by (cases z)
    have "props_at (dt_mem s) (p + 8 + length (props_bytes zs)) [(zn, zv)]"
      using f(4) by (simp add: props_at_append snoc z)
        (simp add: props_at_Cons [of _ _ "(zn, zv)" "y # ys"])
    then have "next_prop (dt_mem s) (p + 8 + length (props_bytes zs)) = Some (p + 8 + length (props_bytes xs))"
      using prop_at_fields(5) snoc z by (simp add: add.assoc)
    then show ?thesis
      using f(2) idx one snoc by (simp add: DTIterateProperties_def prop_it_def Let_def add.commute butlast_append)
  qed
qed

lemma iterate_entries_done:
  assumes "tree_at (dt_mem s) p (DTree ps ks)"
  shows "DTIterateEntries D s (entry_it it p k ks) = Some (kIterationDone, entry_it it p k ks, None)"
  using tree_at_fields(6) [OF assms] by (simp add: DTIterateEntries_def entry_it_def)

lemma iterate_entries_next:
  assumes "tree_at (dt_mem s) p (DTree ps (xs @ y # ys))" "\<forall>x \<in> set xs. depth x \<le> D"
    and "k = p + 8 + length (props_bytes ps)"
  shows "DTIterateEntries D s (entry_it it p k xs) =
     Some (kSuccess, entry_it it p k (xs @ [y]), Some (k + length (trees_bytes xs)))"
proof -
  note f = tree_at_fields [OF assms(1)]
  have n: "length (xs @ y # ys) < 2 ^ 32"
    using assms(1) by (simp add: tree_at_def)
  then have idx: "\<not> of_nat (length (xs @ y # ys)) \<le> (of_nat (length xs) :: u32)"
    using index_le [of "length xs" "length (xs @ y # ys)"] by simp
  have one: "(of_nat (length xs) + 1 = (1 :: u32)) = (xs = [])"
    using index_step [of "length xs"] n by simp
  show ?thesis
  proof (cases xs rule: rev_cases)
    case Nil
    then show ?thesis
      using f(6) idx one skipProperties_at [OF assms(1)] assms(3)
      by (simp add: DTIterateEntries_def entry_it_def GetFirstChild_def kids_pos_def)
  next
    case (snoc zs z)
    have "tree_at (dt_mem s) (k + length (trees_bytes zs)) z"
      using f(7) assms(3) by (simp add: trees_at_append trees_at_Cons snoc)
    then have "GetNextChild D (dt_mem s) (Some (k + length (trees_bytes zs))) = Some (Some (k + length (trees_bytes xs)))"
      using GetNextChild_at [of "dt_mem s" "k + length (trees_bytes zs)" z D] assms(2) snoc by (simp add: add.assoc)
    then show ?thesis
      using f(6) idx one snoc
      by (cases it) (simp add: DTIterateEntries_def entry_it_def Let_def add.commute butlast_append)
  qed
qed

section \<open>Reading the tree back\<close>

fun keys_distinct :: "dtree \<Rightarrow> bool" where
  "keys_distinct (DTree ps ks) \<longleftrightarrow> distinct (map fst ps) \<and> list_all keys_distinct ks"

fun weight :: "dtree \<Rightarrow> nat" where
  "weight (DTree ps ks) = Suc (Suc (sum_list (map (\<lambda>k. Suc (weight k)) ks)))"

lemma cstr_at:
  assumes "holds_at m p (n @ [0])" "0 \<notin> set n"
  shows "cstr m p = Some n"
proof -
  obtain pre post where "m = pre @ n @ 0 # post" "length pre = p"
    using assms(1) by (auto simp: holds_at_split)
  then show ?thesis
    using cstr_append [of p pre n post] assms(2) by simp
qed

lemma prop_it_entry: "pi_entry (prop_it p xs) = Some p"
  by (simp add: prop_it_def)

lemma load_props_at:
  assumes "tree_at (dt_mem s) p (DTree (xs @ ys) ks)" "distinct (map fst (xs @ ys))" "length ys < F"
  shows "load_props F s (prop_it p xs) = Some ys"
  using assms
proof (induction F arbitrary: xs ys)
  case (Suc F)
  let ?m = "dt_mem s"
  show ?case
  proof (cases ys)
    case Nil
    then show ?thesis
      using iterate_props_done [of s p xs ks] Suc.prems(1) by (simp add: kIterationDone_def kSuccess_def)
  next
    case (Cons y zs)
    obtain n v where y: "y = (n, v)"
      by (cases y)
    note at = Suc.prems(1) [unfolded Cons]
    have ps: "props_at ?m (p + 8) (xs @ ys)"
      using tree_at_fields(4) [OF Suc.prems(1)] .
    have here: "props_at ?m (p + 8 + length (props_bytes xs)) [(n, v)]"
      using ps by (simp add: props_at_append Cons y) (simp add: props_at_Cons [of _ _ "(n, v)" zs])
    note f = prop_at_fields [OF here]
    have c: "cstr ?m (p + 8 + length (props_bytes xs)) = Some n"
      using cstr_at [OF f(2,1)] .
    have "map_of (xs @ ys) n = Some v"
      using Suc.prems(2) by (intro map_of_is_SomeI) (auto simp: Cons y)
    then obtain q where q: "prop_pos (p + 8) (xs @ ys) n = Some (q, v)"
      using prop_pos_map_of [of "p + 8" "xs @ ys" n] by auto
    then have "DTGetProperty ?m (Some p) n = Some (Some (q, of_nat (length v)))"
      using DTGetProperty_at [OF Suc.prems(1) f(1)] by simp
    moreover have "rd_range ?m q (unat (of_nat (length v) :: u32)) = Some v"
      using prop_pos_holds [OF ps q] by (simp add: holds_at_def)
    moreover have "load_props F s (prop_it p (xs @ [y])) = Some zs"
      by (rule Suc.IH) (use Suc.prems Cons in simp_all)
    ultimately show ?thesis
      using iterate_props_next [OF at] c Cons y by (simp add: prop_it_entry del: DTGetProperty.simps)
  qed
qed simp

lemma entry_it_of:
  "entry_it it p k [] = it\<lparr>currentScope := Some p, currentEntry := None, currentIndex := 0\<rparr>"
  by (simp add: entry_it_def)

text \<open>Entering a child and leaving it again, with any iteration between, restores the iterator.\<close>

lemma exit_restores:
  "DTExitEntry (s\<lparr>dt_live := dt_live s + 1\<rparr>)
     (entry_it (it\<lparr>savedScope := (currentScope it, currentEntry it, currentIndex it) # savedScope it\<rparr>) p k xs) =
   (kSuccess, it, Some (currentEntry it), s)"
  by (cases it) (simp add: DTExitEntry_def entry_it_def)

lemma enter_child:
  "DTEnterEntry True s it (Some p) = Some (kSuccess,
     entry_it (it\<lparr>savedScope := (currentScope it, currentEntry it, currentIndex it) # savedScope it\<rparr>) p k [],
     s\<lparr>dt_live := dt_live s + 1\<rparr>)"
  by (cases it) (simp add: DTEnterEntry_def entry_it_of)

lemma load_kids_at:
  assumes ih: "\<And>t s it q F. t \<in> set (xs @ ts) \<Longrightarrow> tree_at (dt_mem s) q t \<Longrightarrow> weight t \<le> F \<Longrightarrow> dt_mem s = m \<Longrightarrow>
      load_tree F D s (entry_it it q (kids_pos q t) []) = Some (t, entry_it it q (kids_pos q t) (dt_kids t), s)"
    and "tree_at m p (DTree ps (xs @ ts))" "\<forall>t \<in> set (xs @ ts). depth t \<le> D"
    and "Suc (sum_list (map (\<lambda>k. Suc (weight k)) ts)) \<le> F" "dt_mem s = m" "k = p + 8 + length (props_bytes ps)"
  shows "load_kids F D s (entry_it it p k xs) = Some (ts, entry_it it p k (xs @ ts), s)"
  using assms
proof (induction ts arbitrary: F xs s)
  case Nil
  then obtain G where "F = Suc G"
    by (cases F) auto
  then show ?case
    using iterate_entries_done [of s p ps xs D it k] Nil.prems(2,5) by (simp add: kIterationDone_def kSuccess_def)
next
  case (Cons t ts)
  obtain G where F: "F = Suc G" "weight t \<le> G" "Suc (sum_list (map (\<lambda>k. Suc (weight k)) ts)) \<le> G"
    using Cons.prems(4) by (cases F) auto
  let ?q = "k + length (trees_bytes xs)" and ?it = "entry_it it p k (xs @ [t])"
  let ?sub = "?it\<lparr>savedScope := (currentScope ?it, currentEntry ?it, currentIndex ?it) # savedScope ?it\<rparr>"
  let ?s = "s\<lparr>dt_live := dt_live s + 1\<rparr>"
  have at: "tree_at m ?q t"
    using tree_at_fields(7) [OF Cons.prems(2)] Cons.prems(6) by (simp add: trees_at_append trees_at_Cons)
  have "DTIterateEntries D s (entry_it it p k xs) = Some (kSuccess, ?it, Some ?q)"
    using iterate_entries_next [of s p ps xs t ts D k it] Cons.prems(2,3,5,6) by simp
  moreover have "DTEnterEntry True s ?it (Some ?q) = Some (kSuccess, entry_it ?sub ?q (kids_pos ?q t) [], ?s)"
    by (rule enter_child)
  moreover have "load_tree G D ?s (entry_it ?sub ?q (kids_pos ?q t) []) = Some (t, entry_it ?sub ?q (kids_pos ?q t) (dt_kids t), ?s)"
    by (rule Cons.prems(1)) (use at F(2) Cons.prems(5) in simp_all)
  moreover have "DTExitEntry ?s (entry_it ?sub ?q (kids_pos ?q t) (dt_kids t)) = (kSuccess, ?it, Some (currentEntry ?it), s)"
    by (rule exit_restores)
  moreover have "load_kids G D s ?it = Some (ts, entry_it it p k ((xs @ [t]) @ ts), s)"
  proof (rule Cons.IH [OF _ _ _ F(3) Cons.prems(5,6)])
    show "load_tree F' D s' (entry_it it' q (kids_pos q u) []) = Some (u, entry_it it' q (kids_pos q u) (dt_kids u), s')"
      if "u \<in> set ((xs @ [t]) @ ts)" "tree_at (dt_mem s') q u" "weight u \<le> F'" "dt_mem s' = m" for u s' it' q F'
      by (rule Cons.prems(1)) (use that in simp_all)
  qed (use Cons.prems(2,3) in simp_all)
  ultimately show ?case
    unfolding F(1) load_kids.simps by simp
qed

lemma load_tree_at:
  assumes "tree_at (dt_mem s) p t" "keys_distinct t" "weight t \<le> F" "depth t \<le> D" "length (dt_mem s) \<le> D"
  shows "load_tree F D s (entry_it it p (kids_pos p t) []) = Some (t, entry_it it p (kids_pos p t) (dt_kids t), s)"
  using assms
proof (induction t arbitrary: F s it p)
  case (DTree ps ks)
  obtain G where F: "F = Suc G" "Suc (sum_list (map (\<lambda>k. Suc (weight k)) ks)) \<le> G"
    using DTree.prems(3) by (cases F) auto
  have ok: "list_all prop_ok ps" "p + length (tree_bytes (DTree ps ks)) \<le> length (dt_mem s)"
    using DTree.prems(1) by (auto simp: tree_at_def holds_at_def rd_range_eq_Some)
  have "length ps \<le> length (props_bytes ps)"
    using ok(1)
  proof (induction ps)
    case (Cons x ps)
    then show ?case
      by (cases x) (simp add: length_prop_bytes)
  qed simp
  then have "length ps < D"
    using ok(2) DTree.prems(5) length_tree_bytes [of ps ks] by simp
  then have props: "load_props D s (prop_it p []) = Some ps"
    using load_props_at [of s p "[]" ps ks D] DTree.prems(1,2) by simp
  have "load_kids G D s (entry_it it p (kids_pos p (DTree ps ks)) []) = Some (ks, entry_it it p (kids_pos p (DTree ps ks)) ([] @ ks), s)"
  proof (rule load_kids_at [where m = "dt_mem s", OF _ _ _ F(2)])
    show "load_tree F' D s' (entry_it it' q (kids_pos q u) []) = Some (u, entry_it it' q (kids_pos q u) (dt_kids u), s')"
      if "u \<in> set ([] @ ks)" "tree_at (dt_mem s') q u" "weight u \<le> F'" "dt_mem s' = dt_mem s" for u s' it' q F'
    proof (rule DTree.IH)
      show "keys_distinct u" "depth u \<le> D"
        using that(1) DTree.prems(2,4) depth_kid [of u ks ps] by (auto simp: list_all_iff)
    qed (use that DTree.prems(5) in simp_all)
    show "\<forall>t \<in> set ([] @ ks). depth t \<le> D"
      using DTree.prems(4) depth_kid [of _ ks ps] by fastforce
  qed (use DTree.prems(1) in \<open>simp_all add: kids_pos_def\<close>)
  moreover have "prop_it p [] = snd (DTCreatePropertyIteratorNoAlloc (Some p))"
    by (simp add: prop_it_def DTCreatePropertyIteratorNoAlloc_def)
  ultimately show ?case
    using props by (simp add: F(1)) (simp add: entry_it_def)
qed

lemma weight_bytes: "tree_ok t \<Longrightarrow> weight t < length (tree_bytes t)"
proof (induction t)
  case (DTree ps ks)
  have "sum_list (map (\<lambda>k. Suc (weight k)) ks) \<le> length (trees_bytes ks)"
    using DTree by (induction ks) (fastforce simp: list_all_iff)+
  then show ?case
    using length_tree_bytes [of ps ks] by simp
qed

lemma depth_weight: "depth t \<le> weight t"
proof (induction t)
  case (DTree ps ks)
  then have "foldr (\<lambda>k d. max (depth k) d) ks 0 \<le> sum_list (map (\<lambda>k. Suc (weight k)) ks)"
    by (induction ks) fastforce+
  then show ?case
    by simp
qed

lemma dt_load_tree_bytes:
  assumes "tree_ok t \<and> keys_distinct t"
  shows "dt_load (tree_bytes t) = Some (t, 0)"
proof -
  let ?s = "\<lparr>dt_mem = tree_bytes t, DTRootNode = Some 0, DTInitialized = True, dt_live = 1\<rparr>"
  let ?n = "length (tree_bytes t)"
  have "tree_at (dt_mem ?s) 0 t"
    using assms by (simp add: tree_at_def holds_at_def rd_range_def)
  moreover have "weight t \<le> ?n" "depth t \<le> ?n"
    using weight_bytes [of t] depth_weight [of t] assms by auto
  ultimately have "load_tree ?n ?n ?s (entry_it it 0 (kids_pos 0 t) []) = Some (t, entry_it it 0 (kids_pos 0 t) (dt_kids t), ?s)" for it
    by (intro load_tree_at) (use assms in auto)
  from this [of "\<lparr>outerScope = Some 0, currentScope = Some 0, currentEntry = None, savedScope = [], currentIndex = 0\<rparr>"]
  show ?thesis
    by (simp add: dt_load_def DTInit_def DTCreateEntryIterator_def entry_it_def DTDisposeEntryIterator_def Let_def)
qed

interpretation flat_tree: codec tree_bytes "\<lambda>m. map_option fst (dt_load m)" "\<lambda>t. tree_ok t \<and> keys_distinct t"
  by unfold_locales (simp add: dt_load_tree_bytes)

text \<open>C22. A client that walks a well-formed tree with the iterators, entering and leaving every entry and
  asking for every property, reads back exactly the tree, and no saved scope or iterator is left
  allocated; so two different trees never have the same flattened form.\<close>

theorem dt_iterators_roundtrip:
  assumes "tree_ok t" "keys_distinct t"
  shows "dt_load (tree_bytes t) = Some (t, 0) \<and>
    (\<forall>u. tree_ok u \<and> keys_distinct u \<and> tree_bytes u = tree_bytes t \<longrightarrow> u = t)"
  using dt_load_tree_bytes [of t] flat_tree.enc_inject [of _ t] assms by blast

lemma dt_iterators_roundtrip_witness: "dt_load (tree_bytes demo_tree) = Some (demo_tree, 0)"
proof -
  have "tree_ok demo_tree" "keys_distinct demo_tree"
    by (simp_all add: demo_tree_def lit_def)
  then show ?thesis
    using dt_iterators_roundtrip [of demo_tree] by simp
qed

end
