(* ===== verification/PngBuffers.thy ===== *)
theory PngBuffers
  imports Prelude
begin

text \<open>
  \<^verbatim>\<open>BdsDxe/Graphics/picopng.c\<close>, first part: the allocator of the PNG decoder, which remembers every buffer
  in a list so that all can be freed together, and the vectors on top of it.

  The heap maps an address to the bytes of a live pool buffer. \<open>AllocateZeroPool\<close> gives a fresh address, if
  the parameter \<open>pool\<close> serves the size. The list holds the nodes from \<open>png_alloc_head\<close> to
  \<open>png_alloc_tail\<close>, each with its address and size; a node is known by its address, as the code adds an
  address only once. Structures live in the model's values; their buffers are allocated but not read.
  \<open>UINTN\<close> has 64 bits. \<open>None\<close> is an access out of bounds or through NULL, or a double free.
\<close>

record pst =
  ps_heap :: "nat \<Rightarrow> byte list option"
  ps_next :: nat
  ps_nodes :: "(nat option \<times> u32) list"

definition AllocateZeroPool :: "(nat \<Rightarrow> bool) \<Rightarrow> nat \<Rightarrow> pst \<Rightarrow> nat option \<times> pst" where
  "AllocateZeroPool pool n s =
     (if pool n then (Some (ps_next s), s\<lparr>ps_heap := (ps_heap s)(ps_next s \<mapsto> replicate n 0), ps_next := ps_next s + 1\<rparr>)
      else (None, s))"

definition FreePool :: "nat option \<Rightarrow> pst \<Rightarrow> pst option" where
  "FreePool a s =
     (case a of
        None \<Rightarrow> None
      | Some x \<Rightarrow> (if ps_heap s x = None then None else Some (s\<lparr>ps_heap := (ps_heap s)(x := None)\<rparr>)))"

section \<open>The list of buffers\<close>

definition sizeof_node :: nat where "sizeof_node = 32"

definition png_alloc_find_node :: "nat option \<Rightarrow> pst \<Rightarrow> (nat option \<times> u32) option" where
  "png_alloc_find_node addr s = find (\<lambda>n. fst n = addr) (ps_nodes s)"

definition png_alloc_add_node :: "(nat \<Rightarrow> bool) \<Rightarrow> nat option \<Rightarrow> u32 \<Rightarrow> pst \<Rightarrow> pst option" where
  "png_alloc_add_node pool addr sz s =
     (if png_alloc_find_node addr s \<noteq> None then Some s
      else if \<not> pool sizeof_node then None
      else Some (s\<lparr>ps_nodes := ps_nodes s @ [(addr, sz)]\<rparr>))"

definition png_alloc_remove_node :: "(nat option \<times> u32) option \<Rightarrow> pst \<Rightarrow> pst option" where
  "png_alloc_remove_node node s = map_option (\<lambda>n. s\<lparr>ps_nodes := remove1 n (ps_nodes s)\<rparr>) node"

definition png_alloc_malloc :: "(nat \<Rightarrow> bool) \<Rightarrow> u32 \<Rightarrow> pst \<Rightarrow> (nat option \<times> pst) option" where
  "png_alloc_malloc pool sz s =
     (let (addr, s1) = AllocateZeroPool pool (unat sz) s in
      map_option (Pair addr) (png_alloc_add_node pool addr sz s1))"

text \<open>The new buffer does not get the old content, and the old buffer is not freed.\<close>

definition png_alloc_realloc :: "(nat \<Rightarrow> bool) \<Rightarrow> nat option \<Rightarrow> u32 \<Rightarrow> pst \<Rightarrow> (nat option \<times> pst) option" where
  "png_alloc_realloc pool addr sz s =
     (if addr = None then png_alloc_malloc pool sz s
      else (let (new_addr, s1) = AllocateZeroPool pool (unat sz) s in
        if new_addr \<noteq> addr then do {
          s2 \<leftarrow> png_alloc_remove_node (png_alloc_find_node addr s1) s1;
          map_option (Pair new_addr) (png_alloc_add_node pool new_addr sz s2) }
        else Some (new_addr, s1)))"

definition png_alloc_free :: "nat option \<Rightarrow> pst \<Rightarrow> pst option" where
  "png_alloc_free addr s =
     (case png_alloc_find_node addr s of
        None \<Rightarrow> Some s
      | Some n \<Rightarrow> do { s1 \<leftarrow> png_alloc_remove_node (Some n) s; FreePool addr s1 })"

text \<open>The tail is removed and freed until the list is empty.\<close>

fun free_tails :: "(nat option \<times> u32) list \<Rightarrow> pst \<Rightarrow> pst option" where
  "free_tails [] s = Some s"
| "free_tails (n # rest) s =
     do { s1 \<leftarrow> png_alloc_remove_node (Some n) s; s2 \<leftarrow> FreePool (fst n) s1; free_tails rest s2 }"

definition png_alloc_free_all :: "pst \<Rightarrow> pst option" where
  "png_alloc_free_all s = free_tails (rev (ps_nodes s)) s"

section \<open>Vectors\<close>

text \<open>A vector of words is never resized after its creation: it is the list of its words.\<close>

record vector8 =
  v8_data :: "nat option"
  v8_size :: u32
  v8_allocsize :: u32

definition sizeof_vector :: u32 where "sizeof_vector = 16"

definition vector8_init :: vector8 where
  "vector8_init = \<lparr>v8_data = None, v8_size = 0, v8_allocsize = 0\<rparr>"

definition vector8_cleanup :: "vector8 \<Rightarrow> pst \<Rightarrow> (vector8 \<times> pst) option" where
  "vector8_cleanup p s =
     do {
       s1 \<leftarrow> (if v8_data p \<noteq> None then png_alloc_free (v8_data p) s else Some s);
       Some (vector8_init, s1) }"

definition vector8_resize :: "(nat \<Rightarrow> bool) \<Rightarrow> vector8 \<Rightarrow> u32 \<Rightarrow> pst \<Rightarrow> (bool \<times> vector8 \<times> pst) option" where
  "vector8_resize pool p sz s =
     (if unat sz * 4 > unat (v8_allocsize p) then
        (let newsize = (of_nat (unat sz * 4 * 2) :: u32) in
         do {
           (data, s1) \<leftarrow> png_alloc_realloc pool (v8_data p) newsize s;
           Some (if data \<noteq> None then (True, \<lparr>v8_data = data, v8_size = sz, v8_allocsize = newsize\<rparr>, s1)
             else (False, p, s1)) })
      else Some (True, p\<lparr>v8_size := sz\<rparr>, s))"

definition v8_get :: "vector8 \<Rightarrow> pst \<Rightarrow> nat \<Rightarrow> byte option" where
  "v8_get p s i = do { a \<leftarrow> v8_data p; b \<leftarrow> ps_heap s a; rd b i }"

definition put_byte :: "nat option \<Rightarrow> pst \<Rightarrow> nat \<Rightarrow> byte \<Rightarrow> pst option" where
  "put_byte data s i x =
     do { a \<leftarrow> data; b \<leftarrow> ps_heap s a; b1 \<leftarrow> wr b i x; Some (s\<lparr>ps_heap := (ps_heap s)(a \<mapsto> b1)\<rparr>) }"

definition put_bytes :: "nat option \<Rightarrow> pst \<Rightarrow> nat \<Rightarrow> byte list \<Rightarrow> pst option" where
  "put_bytes data s i xs =
     do { a \<leftarrow> data; b \<leftarrow> ps_heap s a; b1 \<leftarrow> wr_range b i xs; Some (s\<lparr>ps_heap := (ps_heap s)(a \<mapsto> b1)\<rparr>) }"

definition vector8_resizev :: "(nat \<Rightarrow> bool) \<Rightarrow> vector8 \<Rightarrow> u32 \<Rightarrow> byte \<Rightarrow> pst \<Rightarrow> (bool \<times> vector8 \<times> pst) option" where
  "vector8_resizev pool p sz val s =
     (let oldsize = v8_size p in
      do {
        (ok, p1, s1) \<leftarrow> vector8_resize pool p sz s;
        if \<not> ok then Some (False, p1, s1)
        else do {
          s2 \<leftarrow> put_bytes (v8_data p1) s1 (unat oldsize) (replicate (unat (sz - oldsize)) val);
          Some (True, p1, s2) } })"

text \<open>\<open>None\<close> as the vector is NULL.\<close>

definition vector8_new :: "(nat \<Rightarrow> bool) \<Rightarrow> u32 \<Rightarrow> byte \<Rightarrow> pst \<Rightarrow> (vector8 option \<times> pst) option" where
  "vector8_new pool sz val s =
     do {
       (p, s1) \<leftarrow> png_alloc_malloc pool sizeof_vector s;
       if p = None then None
       else if sz = 0 then Some (Some vector8_init, s1)
       else do {
         (ok, v, s2) \<leftarrow> vector8_resizev pool vector8_init sz val s1;
         Some (if ok then Some v else None, s2) } }"

definition vector8_copy :: "(nat \<Rightarrow> bool) \<Rightarrow> vector8 \<Rightarrow> pst \<Rightarrow> (vector8 \<times> pst) option" where
  "vector8_copy pool p s =
     do {
       (q, s1) \<leftarrow> vector8_new pool (v8_size p) 0 s;
       v \<leftarrow> q;
       if v8_size v = 0 then Some (v, s1)
       else do {
         a \<leftarrow> v8_data p;
         b \<leftarrow> ps_heap s1 a;
         xs \<leftarrow> rd_range b 0 (unat (v8_size v));
         s2 \<leftarrow> put_bytes (v8_data v) s1 0 xs;
         Some (v, s2) } }"

definition vector32_new :: "(nat \<Rightarrow> bool) \<Rightarrow> u32 \<Rightarrow> u32 \<Rightarrow> pst \<Rightarrow> (u32 list \<times> pst) option" where
  "vector32_new pool sz val s =
     do {
       (p, s1) \<leftarrow> png_alloc_malloc pool sizeof_vector s;
       if p = None then None
       else if sz = 0 then Some ([], s1)
       else do {
         (data, s2) \<leftarrow> png_alloc_malloc pool (of_nat (unat sz * 4 * 2)) s1;
         if data = None then None else Some (replicate (unat sz) val, s2) } }"

end
