(* ===== verification/PngInflate.thy ===== *)
theory PngInflate
  imports PngBuffers
begin

text \<open>
  \<^verbatim>\<open>BdsDxe/Graphics/picopng.c\<close>, second part: the decompressor. Huffman trees are the word list \<open>tree2d\<close>; the
  compressed data is the byte list \<open>ins\<close> from the position that the code passes on, with all that its
  buffer holds after it. The bit pointer \<open>bp\<close> and the output position \<open>pos\<close> are 32-bit words.
  \<open>Inflator_error\<close> is an integer in the results, 0 for no error. The loops over codes and blocks have fuel.
\<close>

definition LENBASE :: "u32 list" where
  "LENBASE = [3, 4, 5, 6, 7, 8, 9, 10, 11, 13, 15, 17, 19, 23, 27, 31, 35, 43, 51,
     59, 67, 83, 99, 115, 131, 163, 195, 227, 258]"
definition LENEXTRA :: "nat list" where
  "LENEXTRA = [0, 0, 0, 0, 0, 0, 0, 0, 1, 1, 1, 1, 2, 2, 2, 2, 3, 3, 3, 3, 4, 4, 4, 4, 5, 5, 5, 5, 0]"
definition DISTBASE :: "u32 list" where
  "DISTBASE = [1, 2, 3, 4, 5, 7, 9, 13, 17, 25, 33, 49, 65, 97, 129, 193, 257, 385,
     513, 769, 1025, 1537, 2049, 3073, 4097, 6145, 8193, 12289, 16385, 24577]"
definition DISTEXTRA :: "nat list" where
  "DISTEXTRA = [0, 0, 0, 0, 1, 1, 2, 2, 3, 3, 4, 4, 5, 5, 6, 6, 7, 7, 8, 8, 9, 9, 10, 10, 11, 11, 12, 12, 13, 13]"
definition CLCL :: "nat list" where
  "CLCL = [16, 17, 18, 0, 8, 7, 9, 6, 10, 5, 11, 4, 12, 3, 13, 2, 14, 1, 15]"

section \<open>Huffman trees\<close>

fun count_lengths :: "u32 list \<Rightarrow> u32 list \<Rightarrow> u32 list option" where
  "count_lengths [] blcount = Some blcount"
| "count_lengths (l # ls) blcount =
     do { c \<leftarrow> rd blcount (unat l); b \<leftarrow> wr blcount (unat l) (c + 1); count_lengths ls b }"

fun next_codes :: "nat list \<Rightarrow> u32 list \<Rightarrow> u32 list \<Rightarrow> u32 list option" where
  "next_codes [] blcount nextcode = Some nextcode"
| "next_codes (b # bs) blcount nextcode =
     do {
       x \<leftarrow> rd nextcode (b - 1);
       c \<leftarrow> rd blcount (b - 1);
       nc \<leftarrow> wr nextcode b (push_bit 1 (x + c));
       next_codes bs blcount nc }"

text \<open>The codes of all symbols; a symbol of length 0 has the code 0.\<close>

fun gen_codes :: "u32 list \<Rightarrow> u32 list \<Rightarrow> u32 list option" where
  "gen_codes [] nextcode = Some []"
| "gen_codes (l # ls) nextcode =
     (if l \<noteq> 0 then do {
        c \<leftarrow> rd nextcode (unat l);
        nc \<leftarrow> wr nextcode (unat l) (c + 1);
        cs \<leftarrow> gen_codes ls nc;
        Some (c # cs) }
      else do { cs \<leftarrow> gen_codes ls nextcode; Some (0 # cs) })"

record tree_state =
  ts_tree :: "u32 list"
  ts_pos :: u32
  ts_filled :: u32

text \<open>The bits of one code, from the highest; \<open>k\<close> is the number of bits that are left.\<close>

fun put_code :: "u32 \<Rightarrow> u32 \<Rightarrow> u32 \<Rightarrow> nat \<Rightarrow> tree_state \<Rightarrow> (int + tree_state) option" where
  "put_code numcodes n code 0 t = Some (Inr t)"
| "put_code numcodes n code (Suc k) t =
     (if ts_pos t > numcodes - 2 then Some (Inl 55)
      else do {
        let i = unat (2 * ts_pos t + of_bool (bit code k));
        x \<leftarrow> rd (ts_tree t) i;
        if x = 0x7fff then
          (if k = 0 then do {
             tr \<leftarrow> wr (ts_tree t) i n;
             put_code numcodes n code k (t\<lparr>ts_tree := tr, ts_pos := 0\<rparr>) }
           else do {
             let f = ts_filled t + 1;
             tr \<leftarrow> wr (ts_tree t) i (f + numcodes);
             put_code numcodes n code k (t\<lparr>ts_tree := tr, ts_pos := f, ts_filled := f\<rparr>) })
        else put_code numcodes n code k (t\<lparr>ts_pos := x - numcodes\<rparr>) })"

fun put_codes :: "u32 \<Rightarrow> u32 \<Rightarrow> (u32 \<times> u32) list \<Rightarrow> tree_state \<Rightarrow> (int + tree_state) option" where
  "put_codes numcodes n [] t = Some (Inr t)"
| "put_codes numcodes n ((code, len) # cs) t =
     do {
       r \<leftarrow> put_code numcodes n code (unat len) t;
       (case r of Inl e \<Rightarrow> Some (Inl e) | Inr t1 \<Rightarrow> put_codes numcodes (n + 1) cs t1) }"

text \<open>The result is the error and the tree. No caller uses the tree after an error; it is given empty then.\<close>

definition HuffmanTree_makeFromLengths ::
  "(nat \<Rightarrow> bool) \<Rightarrow> u32 list \<Rightarrow> nat \<Rightarrow> pst \<Rightarrow> (int \<times> u32 list \<times> pst) option"
where
  "HuffmanTree_makeFromLengths pool bitlen maxbitlen s =
     do {
       let numcodes = (of_nat (length bitlen) :: u32);
       (tree1d, s1) \<leftarrow> vector32_new pool numcodes 0 s;
       (bc, s2) \<leftarrow> vector32_new pool (of_nat (maxbitlen + 1)) 0 s1;
       (nc, s3) \<leftarrow> vector32_new pool (of_nat (maxbitlen + 1)) 0 s2;
       blcount \<leftarrow> count_lengths bitlen bc;
       nextcode \<leftarrow> next_codes [1..<maxbitlen + 1] blcount nc;
       codes \<leftarrow> gen_codes bitlen nextcode;
       (tree2d, s4) \<leftarrow> vector32_new pool (numcodes * 2) 0x7fff s3;
       r \<leftarrow> put_codes numcodes 0 (zip codes bitlen) \<lparr>ts_tree = tree2d, ts_pos = 0, ts_filled = 0\<rparr>;
       (case r of Inl e \<Rightarrow> Some (e, [], s4) | Inr t \<Rightarrow> Some (0, ts_tree t, s4)) }"

text \<open>The result is an error, or whether a symbol is decoded, the entry, and the next position.\<close>

definition HuffmanTree_decode :: "u32 list \<Rightarrow> u32 \<Rightarrow> u32 \<Rightarrow> (int + bool \<times> u32 \<times> u32) option" where
  "HuffmanTree_decode tree treepos b =
     (let numcodes = (of_nat (length tree div 2) :: u32) in
      if treepos \<ge> numcodes then Some (Inl 11)
      else do {
        x \<leftarrow> rd tree (unat (2 * treepos + b));
        Some (Inr (if x < numcodes then (True, x, 0) else (False, x, x - numcodes))) })"

section \<open>Bits\<close>

definition Zlib_readBitFromStream :: "u32 \<Rightarrow> byte list \<Rightarrow> (u32 \<times> u32) option" where
  "Zlib_readBitFromStream bp bits =
     do { x \<leftarrow> rd bits (unat (drop_bit 3 bp)); Some (of_bool (bit x (unat (bp AND 7))), bp + 1) }"

fun read_bits :: "u32 \<Rightarrow> byte list \<Rightarrow> nat \<Rightarrow> nat \<Rightarrow> u32 \<Rightarrow> (u32 \<times> u32) option" where
  "read_bits bp bits i 0 acc = Some (acc, bp)"
| "read_bits bp bits i (Suc k) acc =
     do { (b, bp1) \<leftarrow> Zlib_readBitFromStream bp bits; read_bits bp1 bits (i + 1) k (acc + push_bit i b) }"

definition Zlib_readBitsFromStream :: "u32 \<Rightarrow> byte list \<Rightarrow> nat \<Rightarrow> (u32 \<times> u32) option" where
  "Zlib_readBitsFromStream bp bits nbits = read_bits bp bits 0 nbits 0"

text \<open>The result is the error or the symbol, and the bit pointer.\<close>

fun decode_symbol :: "nat \<Rightarrow> byte list \<Rightarrow> u32 \<Rightarrow> u32 list \<Rightarrow> u32 \<Rightarrow> u32 \<Rightarrow> ((int + u32) \<times> u32) option" where
  "decode_symbol 0 ins bp tree inlength treepos = None"
| "decode_symbol (Suc F) ins bp tree inlength treepos =
     (if bp AND 7 = 0 \<and> drop_bit 3 bp > inlength then Some (Inl 10, bp)
      else do {
        (b, bp1) \<leftarrow> Zlib_readBitFromStream bp ins;
        r \<leftarrow> HuffmanTree_decode tree treepos b;
        (case r of
           Inl e \<Rightarrow> Some (Inl e, bp1)
         | Inr (decoded, ct, tp) \<Rightarrow> if decoded then Some (Inr ct, bp1) else decode_symbol F ins bp1 tree inlength tp) })"

definition Inflator_huffmanDecodeSymbol :: "nat \<Rightarrow> byte list \<Rightarrow> u32 \<Rightarrow> u32 list \<Rightarrow> u32 \<Rightarrow> ((int + u32) \<times> u32) option" where
  "Inflator_huffmanDecodeSymbol F ins bp tree inlength = decode_symbol F ins bp tree inlength 0"

section \<open>The trees of a block\<close>

definition fixed_lengths :: "u32 list" where
  "fixed_lengths = map (\<lambda>i. if 144 \<le> i \<and> i \<le> 255 then 9 else if 256 \<le> i \<and> i \<le> 279 then 7 else 8) [0..<288]"

definition Inflator_generateFixedTrees :: "(nat \<Rightarrow> bool) \<Rightarrow> pst \<Rightarrow> (u32 list \<times> u32 list \<times> pst) option" where
  "Inflator_generateFixedTrees pool s =
     do {
       (b, s1) \<leftarrow> vector32_new pool 288 8 s;
       (bitlenD, s2) \<leftarrow> vector32_new pool 32 5 s1;
       (e, tree, s3) \<leftarrow> HuffmanTree_makeFromLengths pool fixed_lengths 15 s2;
       (e, treeD, s4) \<leftarrow> HuffmanTree_makeFromLengths pool bitlenD 15 s3;
       Some (tree, treeD, s4) }"

fun read_clcl :: "nat list \<Rightarrow> u32 \<Rightarrow> u32 \<Rightarrow> byte list \<Rightarrow> u32 \<Rightarrow> u32 list \<Rightarrow> (u32 list \<times> u32) option" where
  "read_clcl [] i HCLEN ins bp v = Some (v, bp)"
| "read_clcl (c # cs) i HCLEN ins bp v =
     do {
       (x, bp1) \<leftarrow> (if i < HCLEN then Zlib_readBitsFromStream bp ins 3 else Some (0, bp));
       v1 \<leftarrow> wr v c x;
       read_clcl cs (i + 1) HCLEN ins bp1 v1 }"

record lens =
  ln_lit :: "u32 list"
  ln_dist :: "u32 list"
  ln_i :: u32

definition put_len :: "u32 \<Rightarrow> u32 \<Rightarrow> lens \<Rightarrow> lens option" where
  "put_len HLIT x l =
     (if ln_i l < HLIT then map_option (\<lambda>v. l\<lparr>ln_lit := v, ln_i := ln_i l + 1\<rparr>) (wr (ln_lit l) (unat (ln_i l)) x)
      else map_option (\<lambda>v. l\<lparr>ln_dist := v, ln_i := ln_i l + 1\<rparr>) (wr (ln_dist l) (unat (ln_i l - HLIT)) x))"

text \<open>A repeated length; \<open>err\<close> is the error for too many.\<close>

fun put_lens :: "nat \<Rightarrow> int \<Rightarrow> u32 \<Rightarrow> u32 \<Rightarrow> u32 \<Rightarrow> lens \<Rightarrow> (int + lens) option" where
  "put_lens 0 err HLIT HDIST x l = Some (Inr l)"
| "put_lens (Suc k) err HLIT HDIST x l =
     (if ln_i l \<ge> HLIT + HDIST then Some (Inl err)
      else do { l1 \<leftarrow> put_len HLIT x l; put_lens k err HLIT HDIST x l1 })"

text \<open>The codes 16 to 18; \<open>base\<close> and \<open>nbits\<close> give the number of repetitions.\<close>

definition repeat_len ::
  "byte list \<Rightarrow> u32 \<Rightarrow> u32 \<Rightarrow> u32 \<Rightarrow> u32 \<Rightarrow> u32 \<Rightarrow> nat \<Rightarrow> int \<Rightarrow> (lens \<Rightarrow> u32 option) \<Rightarrow> lens \<Rightarrow> ((int + lens) \<times> u32) option"
where
  "repeat_len ins bp inlength HLIT HDIST base nbits err val l =
     (if drop_bit 3 bp \<ge> inlength then Some (Inl 50, bp)
      else do {
        (r, bp1) \<leftarrow> Zlib_readBitsFromStream bp ins nbits;
        x \<leftarrow> val l;
        l1 \<leftarrow> put_lens (unat (base + r)) err HLIT HDIST x l;
        Some (l1, bp1) })"

text \<open>The length before this one. At the start of the list its index wraps.\<close>

definition previous_len :: "u32 \<Rightarrow> lens \<Rightarrow> u32 option" where
  "previous_len HLIT l =
     (if ln_i l - 1 < HLIT then rd (ln_lit l) (unat (ln_i l - 1)) else rd (ln_dist l) (unat (ln_i l - HLIT - 1)))"

fun read_lens :: "nat \<Rightarrow> nat \<Rightarrow> byte list \<Rightarrow> u32 \<Rightarrow> u32 list \<Rightarrow> u32 \<Rightarrow> u32 \<Rightarrow> u32 \<Rightarrow> lens \<Rightarrow> ((int + lens) \<times> u32) option" where
  "read_lens 0 F ins bp tree inlength HLIT HDIST l = None"
| "read_lens (Suc G) F ins bp tree inlength HLIT HDIST l =
     (if \<not> ln_i l < HLIT + HDIST then Some (Inr l, bp)
      else do {
        (c, bp1) \<leftarrow> Inflator_huffmanDecodeSymbol F ins bp tree inlength;
        (case c of
           Inl e \<Rightarrow> Some (Inl e, bp1)
         | Inr code \<Rightarrow>
             do {
               (r, bp2) \<leftarrow>
                 (if code \<le> 15 then map_option (\<lambda>l1. (Inr l1, bp1)) (put_len HLIT code l)
                  else if code = 16 then repeat_len ins bp1 inlength HLIT HDIST 3 2 13 (previous_len HLIT) l
                  else if code = 17 then repeat_len ins bp1 inlength HLIT HDIST 3 3 14 (\<lambda>_. Some 0) l
                  else if code = 18 then repeat_len ins bp1 inlength HLIT HDIST 11 7 15 (\<lambda>_. Some 0) l
                  else Some (Inl 16, bp1));
               (case r of
                  Inl e \<Rightarrow> Some (Inl e, bp2)
                | Inr l1 \<Rightarrow> read_lens G F ins bp2 tree inlength HLIT HDIST l1) }) })"

definition Inflator_getTreeInflateDynamic ::
  "(nat \<Rightarrow> bool) \<Rightarrow> nat \<Rightarrow> byte list \<Rightarrow> u32 \<Rightarrow> u32 \<Rightarrow> pst \<Rightarrow> ((int + u32 list \<times> u32 list) \<times> u32 \<times> pst) option"
where
  "Inflator_getTreeInflateDynamic pool F ins bp inlength s =
     do {
       (p, s0) \<leftarrow> png_alloc_malloc pool 8 s;
       p0 \<leftarrow> p;
       (bitlen, s1) \<leftarrow> vector32_new pool 288 0 s0;
       (bitlenD, s2) \<leftarrow> vector32_new pool 32 0 s1;
       if drop_bit 3 bp \<ge> inlength - 2 then Some (Inl 49, bp, s2)
       else do {
         (hlit, bp1) \<leftarrow> Zlib_readBitsFromStream bp ins 5;
         (hdist, bp2) \<leftarrow> Zlib_readBitsFromStream bp1 ins 5;
         (hclen, bp3) \<leftarrow> Zlib_readBitsFromStream bp2 ins 4;
         (v, s3) \<leftarrow> vector32_new pool 19 0 s2;
         (codelengthcode, bp4) \<leftarrow> read_clcl CLCL 0 (hclen + 4) ins bp3 v;
         (e, ctree, s4) \<leftarrow> HuffmanTree_makeFromLengths pool codelengthcode 7 s3;
         if e \<noteq> 0 then Some (Inl e, bp4, s4)
         else do {
           (r, bp5) \<leftarrow> read_lens (unat (hlit + 257 + (hdist + 1)) + 1) F ins bp4 ctree inlength (hlit + 257) (hdist + 1)
             \<lparr>ln_lit = bitlen, ln_dist = bitlenD, ln_i = 0\<rparr>;
           (case r of
              Inl e \<Rightarrow> Some (Inl e, bp5, s4)
            | Inr l \<Rightarrow>
                do {
                  x \<leftarrow> rd (ln_lit l) 256;
                  if x = 0 then Some (Inl 64, bp5, s4)
                  else do {
                    (e1, tree, s5) \<leftarrow> HuffmanTree_makeFromLengths pool (ln_lit l) 15 s4;
                    if e1 \<noteq> 0 then Some (Inl e1, bp5, s5)
                    else do {
                      (e2, treeD, s6) \<leftarrow> HuffmanTree_makeFromLengths pool (ln_dist l) 15 s5;
                      Some (if e2 \<noteq> 0 then Inl e2 else Inr (tree, treeD), bp5, s6) } } }) } } }"

section \<open>Blocks\<close>

record inf =
  if_out :: vector8
  if_st :: pst
  if_bp :: u32
  if_pos :: u32
  Inflator_error :: int

text \<open>The copy of a match. The pointer goes back to the start of the match when it reaches the old end.\<close>

fun copy_match :: "nat \<Rightarrow> nat option \<Rightarrow> pst \<Rightarrow> u32 \<Rightarrow> u32 \<Rightarrow> u32 \<Rightarrow> u32 \<Rightarrow> (pst \<times> u32) option" where
  "copy_match 0 data s start dist back pos = Some (s, pos)"
| "copy_match (Suc k) data s start dist back pos =
     do {
       a \<leftarrow> data;
       b \<leftarrow> ps_heap s a;
       x \<leftarrow> rd b (unat back);
       s1 \<leftarrow> put_byte data s (unat pos) x;
       copy_match k data s1 start dist (if back + 1 \<ge> start then start - dist else back + 1) (pos + 1) }"

definition put_literal :: "(nat \<Rightarrow> bool) \<Rightarrow> u32 \<Rightarrow> inf \<Rightarrow> inf option" where
  "put_literal pool code st =
     do {
       (out, s1) \<leftarrow>
         (if if_pos st \<ge> v8_size (if_out st)
          then map_option snd (vector8_resize pool (if_out st) ((if_pos st + 1) * 2) (if_st st))
          else Some (if_out st, if_st st));
       s2 \<leftarrow> put_byte (v8_data out) s1 (unat (if_pos st)) (ucast code);
       Some (st\<lparr>if_out := out, if_st := s2, if_pos := if_pos st + 1\<rparr>) }"

definition put_match :: "(nat \<Rightarrow> bool) \<Rightarrow> nat \<Rightarrow> byte list \<Rightarrow> u32 list \<Rightarrow> u32 \<Rightarrow> u32 \<Rightarrow> inf \<Rightarrow> inf option" where
  "put_match pool F ins treeD inlength code st =
     (if drop_bit 3 (if_bp st) \<ge> inlength then Some (st\<lparr>Inflator_error := 51\<rparr>)
      else do {
        base \<leftarrow> rd LENBASE (unat (code - 257));
        extra \<leftarrow> rd LENEXTRA (unat (code - 257));
        (e, bp1) \<leftarrow> Zlib_readBitsFromStream (if_bp st) ins extra;
        let len = base + e;
        (c, bp2) \<leftarrow> Inflator_huffmanDecodeSymbol F ins bp1 treeD inlength;
        (case c of
           Inl err \<Rightarrow> Some (st\<lparr>if_bp := bp2, Inflator_error := err\<rparr>)
         | Inr codeD \<Rightarrow>
             if codeD > 29 then Some (st\<lparr>if_bp := bp2, Inflator_error := 18\<rparr>)
             else do {
               baseD \<leftarrow> rd DISTBASE (unat codeD);
               extraD \<leftarrow> rd DISTEXTRA (unat codeD);
               if drop_bit 3 bp2 \<ge> inlength then Some (st\<lparr>if_bp := bp2, Inflator_error := 51\<rparr>)
               else do {
                 (eD, bp3) \<leftarrow> Zlib_readBitsFromStream bp2 ins extraD;
                 let dist = baseD + eD;
                 let start = if_pos st;
                 (out, s1) \<leftarrow>
                   (if start + len \<ge> v8_size (if_out st)
                    then map_option snd (vector8_resize pool (if_out st) ((start + len) * 2) (if_st st))
                    else Some (if_out st, if_st st));
                 (s2, pos) \<leftarrow> copy_match (unat len) (v8_data out) s1 start dist (start - dist) start;
                 Some (st\<lparr>if_out := out, if_st := s2, if_bp := bp3, if_pos := pos\<rparr>) } }) })"

text \<open>The loop over the symbols of a block. Symbols above 285 are skipped.\<close>

fun inflate_codes ::
  "nat \<Rightarrow> (nat \<Rightarrow> bool) \<Rightarrow> nat \<Rightarrow> byte list \<Rightarrow> u32 list \<Rightarrow> u32 list \<Rightarrow> u32 \<Rightarrow> inf \<Rightarrow> inf option"
where
  "inflate_codes 0 pool F ins tree treeD inlength st = None"
| "inflate_codes (Suc G) pool F ins tree treeD inlength st =
     do {
       (c, bp1) \<leftarrow> Inflator_huffmanDecodeSymbol F ins (if_bp st) tree inlength;
       (case c of
          Inl e \<Rightarrow> Some (st\<lparr>if_bp := bp1, Inflator_error := e\<rparr>)
        | Inr code \<Rightarrow>
            if code = 256 then Some (st\<lparr>if_bp := bp1\<rparr>)
            else do {
              st1 \<leftarrow>
                (if code \<le> 255 then put_literal pool code (st\<lparr>if_bp := bp1\<rparr>)
                 else if code \<le> 285 then put_match pool F ins treeD inlength code (st\<lparr>if_bp := bp1\<rparr>)
                 else Some (st\<lparr>if_bp := bp1\<rparr>));
              if Inflator_error st1 \<noteq> 0 then Some st1
              else inflate_codes G pool F ins tree treeD inlength st1 }) }"

definition Inflator_inflateHuffmanBlock ::
  "(nat \<Rightarrow> bool) \<Rightarrow> nat \<Rightarrow> byte list \<Rightarrow> u32 \<Rightarrow> u32 \<Rightarrow> inf \<Rightarrow> inf option"
where
  "Inflator_inflateHuffmanBlock pool F ins inlength btype st =
     do {
       (t, s1) \<leftarrow> png_alloc_malloc pool 8 (if_st st);
       t1 \<leftarrow> t;
       (tD, s2) \<leftarrow> png_alloc_malloc pool 8 s1;
       t2 \<leftarrow> tD;
       (r, bp1, s3) \<leftarrow>
         (if btype = 1 then map_option (\<lambda>(tr, trD, s). (Inr (tr, trD), if_bp st, s)) (Inflator_generateFixedTrees pool s2)
          else Inflator_getTreeInflateDynamic pool F ins (if_bp st) inlength s2);
       (case r of
          Inl e \<Rightarrow> Some (st\<lparr>if_st := s3, if_bp := bp1, Inflator_error := e\<rparr>)
        | Inr (tree, treeD) \<Rightarrow>
            inflate_codes F pool F ins tree treeD inlength (st\<lparr>if_st := s3, if_bp := bp1\<rparr>)) }"

fun align_byte :: "nat \<Rightarrow> u32 \<Rightarrow> u32" where
  "align_byte 0 bp = bp"
| "align_byte (Suc k) bp = (if bp AND 7 \<noteq> 0 then align_byte k (bp + 1) else bp)"

definition byte_at :: "byte list \<Rightarrow> u32 \<Rightarrow> u32 option" where
  "byte_at ins p = map_option ucast (rd ins (unat p))"

definition Inflator_inflateNoCompression :: "(nat \<Rightarrow> bool) \<Rightarrow> byte list \<Rightarrow> u32 \<Rightarrow> inf \<Rightarrow> inf option" where
  "Inflator_inflateNoCompression pool ins inlength st =
     (let bp = align_byte 7 (if_bp st); p = bp div 8 in
      if p \<ge> inlength - 4 then Some (st\<lparr>if_bp := bp, Inflator_error := 52\<rparr>)
      else do {
        b0 \<leftarrow> byte_at ins p;
        b1 \<leftarrow> byte_at ins (p + 1);
        b2 \<leftarrow> byte_at ins (p + 2);
        b3 \<leftarrow> byte_at ins (p + 3);
        let LEN = b0 + 256 * b1;
        let NLEN = b2 + 256 * b3;
        if LEN + NLEN \<noteq> 65535 then Some (st\<lparr>if_bp := bp, Inflator_error := 21\<rparr>)
        else do {
          (out, s1) \<leftarrow>
            (if if_pos st + LEN \<ge> v8_size (if_out st)
             then map_option snd (vector8_resize pool (if_out st) (if_pos st + LEN) (if_st st))
             else Some (if_out st, if_st st));
          if p + 4 + LEN > inlength then Some (st\<lparr>if_out := out, if_st := s1, if_bp := bp, Inflator_error := 23\<rparr>)
          else if LEN = 0 then Some (st\<lparr>if_out := out, if_st := s1, if_bp := (p + 4) * 8\<rparr>)
          else do {
            xs \<leftarrow> rd_range ins (unat (p + 4)) (unat LEN);
            s2 \<leftarrow> put_bytes (v8_data out) s1 (unat (if_pos st)) xs;
            Some (st\<lparr>if_out := out, if_st := s2, if_bp := (p + 4 + LEN) * 8, if_pos := if_pos st + LEN\<rparr>) } } })"

fun inflate_blocks :: "nat \<Rightarrow> (nat \<Rightarrow> bool) \<Rightarrow> byte list \<Rightarrow> u32 \<Rightarrow> inf \<Rightarrow> inf option" where
  "inflate_blocks 0 pool ins inlength st = None"
| "inflate_blocks (Suc F) pool ins inlength st =
     (if drop_bit 3 (if_bp st) \<ge> inlength then Some (st\<lparr>Inflator_error := 52\<rparr>)
      else do {
        (BFINAL, bp1) \<leftarrow> Zlib_readBitFromStream (if_bp st) ins;
        (t0, bp2) \<leftarrow> Zlib_readBitFromStream bp1 ins;
        (t1, bp3) \<leftarrow> Zlib_readBitFromStream bp2 ins;
        let BTYPE = t0 + 2 * t1;
        let st0 = st\<lparr>if_bp := bp3\<rparr>;
        if BTYPE = 3 then Some (st0\<lparr>Inflator_error := 20\<rparr>)
        else do {
          st1 \<leftarrow>
            (if BTYPE = 0 then Inflator_inflateNoCompression pool ins inlength st0
             else Inflator_inflateHuffmanBlock pool F ins inlength BTYPE st0);
          if BFINAL = 0 \<and> Inflator_error st1 = 0 then inflate_blocks F pool ins inlength st1 else Some st1 } })"

text \<open>The input is a vector, \<open>inpos\<close> the position of the data in it; the bytes are those of its buffer.\<close>

definition Inflator_inflate ::
  "nat \<Rightarrow> (nat \<Rightarrow> bool) \<Rightarrow> vector8 \<Rightarrow> vector8 \<Rightarrow> nat \<Rightarrow> pst \<Rightarrow> (int \<times> vector8 \<times> pst) option"
where
  "Inflator_inflate F pool out src inpos s =
     do {
       a \<leftarrow> v8_data src;
       b \<leftarrow> ps_heap s a;
       st \<leftarrow> inflate_blocks F pool (drop inpos b) (v8_size src)
         \<lparr>if_out = out, if_st = s, if_bp = 0, if_pos = 0, Inflator_error = 0\<rparr>;
       if Inflator_error st = 0
       then map_option (\<lambda>(ok, v, s1). (0, v, s1)) (vector8_resize pool (if_out st) (if_pos st) (if_st st))
       else Some (Inflator_error st, if_out st, if_st st) }"

definition Zlib_decompress ::
  "nat \<Rightarrow> (nat \<Rightarrow> bool) \<Rightarrow> vector8 \<Rightarrow> vector8 \<Rightarrow> pst \<Rightarrow> (int \<times> vector8 \<times> pst) option"
where
  "Zlib_decompress F pool out src s =
     (if v8_size src < 2 then Some (53, out, s)
      else do {
        d0 \<leftarrow> v8_get src s 0;
        d1 \<leftarrow> v8_get src s 1;
        if (unat d0 * 256 + unat d1) mod 31 \<noteq> 0 then Some (24, out, s)
        else if d0 AND 15 \<noteq> 8 \<or> drop_bit 4 d0 AND 15 > 7 then Some (25, out, s)
        else if drop_bit 5 d1 AND 1 \<noteq> 0 then Some (26, out, s)
        else map_option (\<lambda>(e, r). (e mod 256, r)) (Inflator_inflate F pool out src 2 s) })"

end
