(* ===== verification/PngImage.thy ===== *)
theory PngImage
  imports PngInflate
begin

text \<open>
  \<^verbatim>\<open>BdsDxe/Graphics/picopng.c\<close>, third part: the PNG format. A pointer is a buffer's address with an offset.
  The input of \<open>PNG_decode\<close> is the byte list \<open>ins\<close>, exactly as long as its \<open>size\<close>. \<open>PNG_error\<close> is an integer in
  the results, 0 for no error. Index arithmetic is done in 32 bits, as in the code.
\<close>

type_synonym pptr = "nat option \<times> nat"

definition pget :: "pst \<Rightarrow> pptr \<Rightarrow> nat \<Rightarrow> byte option" where
  "pget s p i = do { a \<leftarrow> fst p; b \<leftarrow> ps_heap s a; rd b (snd p + i) }"

definition pput :: "pst \<Rightarrow> pptr \<Rightarrow> nat \<Rightarrow> byte \<Rightarrow> pst option" where
  "pput s p i x = put_byte (fst p) s (snd p + i) x"

record png_info =
  pg_width :: u32
  pg_height :: u32
  colorType :: u32
  bitDepth :: u32
  compressionMethod :: u32
  filterMethod :: u32
  interlaceMethod :: u32
  key_r :: u32
  key_g :: u32
  key_b :: u32
  key_defined :: bool
  palette :: vector8
  image_v :: vector8

section \<open>Bits and header\<close>

definition PNG_readBitFromReversedStream :: "u32 \<Rightarrow> pptr \<Rightarrow> pst \<Rightarrow> (u32 \<times> u32) option" where
  "PNG_readBitFromReversedStream bp bits s =
     do { x \<leftarrow> pget s bits (unat (drop_bit 3 bp)); Some (of_bool (bit x (7 - unat (bp AND 7))), bp + 1) }"

fun PNG_readBitsFromReversedStream :: "u32 \<Rightarrow> pptr \<Rightarrow> pst \<Rightarrow> nat \<Rightarrow> (u32 \<times> u32) option" where
  "PNG_readBitsFromReversedStream bp bits s 0 = Some (0, bp)"
| "PNG_readBitsFromReversedStream bp bits s (Suc i) =
     do {
       (b, bp1) \<leftarrow> PNG_readBitFromReversedStream bp bits s;
       (r, bp2) \<leftarrow> PNG_readBitsFromReversedStream bp1 bits s i;
       Some (push_bit i b + r, bp2) }"

definition PNG_setBitOfReversedStream :: "u32 \<Rightarrow> pptr \<Rightarrow> pst \<Rightarrow> u32 \<Rightarrow> (pst \<times> u32) option" where
  "PNG_setBitOfReversedStream bp bits s b =
     do {
       x \<leftarrow> pget s bits (unat (drop_bit 3 bp));
       s1 \<leftarrow> pput s bits (unat (drop_bit 3 bp)) (x OR ucast (push_bit (7 - unat (bp AND 7)) b));
       Some (s1, bp + 1) }"

definition PNG_read32bitInt :: "byte list \<Rightarrow> u32 \<Rightarrow> u32 option" where
  "PNG_read32bitInt ins p = map_option (\<lambda>xs. of_nat (le_value (rev xs))) (rd_range ins (unat p) 4)"

definition PNG_checkColorValidity :: "u32 \<Rightarrow> u32 \<Rightarrow> int" where
  "PNG_checkColorValidity ct bd =
     (if ct = 2 \<or> ct = 4 \<or> ct = 6 then (if bd = 8 \<or> bd = 16 then 0 else 37)
      else if ct = 0 then (if bd = 1 \<or> bd = 2 \<or> bd = 4 \<or> bd = 8 \<or> bd = 16 then 0 else 37)
      else if ct = 3 then (if bd = 1 \<or> bd = 2 \<or> bd = 4 \<or> bd = 8 then 0 else 37)
      else 31)"

definition PNG_getBpp :: "png_info \<Rightarrow> u32" where
  "PNG_getBpp g =
     (if colorType g = 2 then 3 * bitDepth g
      else if colorType g \<ge> 4 then (colorType g - 2) * bitDepth g
      else bitDepth g)"

definition PNG_SIGNATURE :: u64 where "PNG_SIGNATURE = 0x0a1a0a0d474e5089"
definition CHUNK_IHDR :: u32 where "CHUNK_IHDR = 0x52444849"
definition CHUNK_IDAT :: u32 where "CHUNK_IDAT = 0x54414449"
definition CHUNK_IEND :: u32 where "CHUNK_IEND = 0x444e4549"
definition CHUNK_PLTE :: u32 where "CHUNK_PLTE = 0x45544c50"
definition CHUNK_tRNS :: u32 where "CHUNK_tRNS = 0x534e5274"

definition PNG_readPngHeader :: "png_info \<Rightarrow> byte list \<Rightarrow> (int \<times> png_info) option" where
  "PNG_readPngHeader g ins =
     (if length ins < 29 then Some (27, g)
      else do {
        sig \<leftarrow> le64 ins 0;
        ihdr \<leftarrow> le32 ins 12;
        if sig \<noteq> PNG_SIGNATURE then Some (28, g)
        else if ihdr \<noteq> CHUNK_IHDR then Some (29, g)
        else do {
          w \<leftarrow> PNG_read32bitInt ins 16;
          h \<leftarrow> PNG_read32bitInt ins 20;
          bd \<leftarrow> rd ins 24;
          ct \<leftarrow> rd ins 25;
          cm \<leftarrow> rd ins 26;
          fm \<leftarrow> rd ins 27;
          im \<leftarrow> rd ins 28;
          let g1 = g\<lparr>pg_width := w, pg_height := h, bitDepth := ucast bd, colorType := ucast ct, compressionMethod := ucast cm\<rparr>;
          if cm \<noteq> 0 then Some (32, g1)
          else (let g2 = g1\<lparr>filterMethod := ucast fm\<rparr> in
            if fm \<noteq> 0 then Some (33, g2)
            else (let g3 = g2\<lparr>interlaceMethod := ucast im\<rparr> in
              if im > 1 then Some (34, g3)
              else Some (PNG_checkColorValidity (colorType g3) (bitDepth g3), g3))) } })"

section \<open>Filters\<close>

definition PNG_paethPredictor :: "int \<Rightarrow> int \<Rightarrow> int \<Rightarrow> int" where
  "PNG_paethPredictor a b c =
     (let p = a + b - c;
          pa = (if p > a then p - a else a - p);
          pb = (if p > b then p - b else b - p);
          pc = (if p > c then p - c else c - p)
      in if pa \<le> pb \<and> pa \<le> pc then a else if pb \<le> pc then b else c)"

text \<open>What filter \<open>ft\<close> adds to byte \<open>i\<close>; \<open>bw\<close> is the width of a pixel.\<close>

definition unfilter_pred :: "pst \<Rightarrow> pptr \<Rightarrow> pptr option \<Rightarrow> nat \<Rightarrow> u32 \<Rightarrow> nat \<Rightarrow> byte option" where
  "unfilter_pred s recon precon bw ft i =
     (if ft = 1 then (if i < bw then Some 0 else pget s recon (i - bw))
      else if ft = 2 then (case precon of None \<Rightarrow> Some 0 | Some p \<Rightarrow> pget s p i)
      else if ft = 3 then
        do {
          a \<leftarrow> (if i < bw then Some 0 else pget s recon (i - bw));
          b \<leftarrow> (case precon of None \<Rightarrow> Some 0 | Some p \<Rightarrow> pget s p i);
          Some (of_nat ((unat a + unat b) div 2)) }
      else if ft = 4 then
        (case precon of
           None \<Rightarrow>
             (if i < bw then Some 0
              else map_option (\<lambda>a. of_int (PNG_paethPredictor (uint a) 0 0)) (pget s recon (i - bw)))
         | Some p \<Rightarrow>
             do {
               b \<leftarrow> pget s p i;
               if i < bw then Some (of_int (PNG_paethPredictor 0 (uint b) 0))
               else do {
                 a \<leftarrow> pget s recon (i - bw);
                 c \<leftarrow> pget s p (i - bw);
                 Some (of_int (PNG_paethPredictor (uint a) (uint b) (uint c))) } })
      else Some 0)"

fun unfilter_loop :: "nat \<Rightarrow> nat \<Rightarrow> pst \<Rightarrow> pptr \<Rightarrow> pptr \<Rightarrow> pptr option \<Rightarrow> nat \<Rightarrow> u32 \<Rightarrow> pst option" where
  "unfilter_loop 0 i s recon scan precon bw ft = Some s"
| "unfilter_loop (Suc k) i s recon scan precon bw ft =
     do {
       x \<leftarrow> pget s scan i;
       y \<leftarrow> unfilter_pred s recon precon bw ft i;
       s1 \<leftarrow> pput s recon i (x + y);
       unfilter_loop k (i + 1) s1 recon scan precon bw ft }"

text \<open>The filters that look to the left treat the first pixel in a loop of its own.\<close>

definition PNG_unFilterScanline :: "pst \<Rightarrow> pptr \<Rightarrow> pptr \<Rightarrow> pptr option \<Rightarrow> u32 \<Rightarrow> u32 \<Rightarrow> u32 \<Rightarrow> (int \<times> pst) option" where
  "PNG_unFilterScanline s recon scanline precon bytewidth filterType len =
     (if filterType > 4 then Some (36, s)
      else map_option (Pair 0)
        (unfilter_loop (if filterType = 1 \<or> filterType = 3 \<or> filterType = 4 then max (unat bytewidth) (unat len) else unat len)
           0 s recon scanline precon (unat bytewidth) filterType))"

section \<open>Interlacing\<close>

record adam7 =
  a7_w :: u32
  a7_left :: u32
  a7_top :: u32
  a7_spacex :: u32
  a7_spacey :: u32
  a7_passw :: u32
  a7_bpp :: u32

fun copy_pixel_bytes :: "nat \<Rightarrow> u32 \<Rightarrow> pst \<Rightarrow> pptr \<Rightarrow> u32 \<Rightarrow> pptr \<Rightarrow> u32 \<Rightarrow> pst option" where
  "copy_pixel_bytes 0 b s out o_base line l_base = Some s"
| "copy_pixel_bytes (Suc k) b s out o_base line l_base =
     do {
       x \<leftarrow> pget s line (unat (l_base + b));
       s1 \<leftarrow> pput s out (unat (o_base + b)) x;
       copy_pixel_bytes k (b + 1) s1 out o_base line l_base }"

fun copy_pixel_bits :: "nat \<Rightarrow> pst \<Rightarrow> pptr \<Rightarrow> u32 \<Rightarrow> pptr \<Rightarrow> u32 \<Rightarrow> (pst \<times> u32) option" where
  "copy_pixel_bits 0 s out obp line bp = Some (s, obp)"
| "copy_pixel_bits (Suc k) s out obp line bp =
     do {
       (b, bp1) \<leftarrow> PNG_readBitFromReversedStream bp line s;
       (s1, obp1) \<leftarrow> PNG_setBitOfReversedStream obp out s b;
       copy_pixel_bits k s1 out obp1 line bp1 }"

fun adam7_pixels :: "nat \<Rightarrow> u32 \<Rightarrow> u32 \<Rightarrow> adam7 \<Rightarrow> pst \<Rightarrow> pptr \<Rightarrow> pptr \<Rightarrow> pst option" where
  "adam7_pixels 0 i y a s out line = Some s"
| "adam7_pixels (Suc k) i y a s out line =
     do {
       let bytewidth = (a7_bpp a + 7) div 8;
       s1 \<leftarrow>
         (if a7_bpp a \<ge> 8
          then copy_pixel_bytes (unat bytewidth) 0 s out
            (bytewidth * a7_w a * (a7_top a + a7_spacey a * y) + bytewidth * (a7_left a + a7_spacex a * i)) line (bytewidth * i)
          else map_option fst (copy_pixel_bits (unat (a7_bpp a)) s out
            (a7_bpp a * a7_w a * (a7_top a + a7_spacey a * y) + a7_bpp a * (a7_left a + a7_spacex a * i)) line (i * a7_bpp a)));
       adam7_pixels k (i + 1) y a s1 out line }"

text \<open>The loop over the lines of a pass; the line buffers change their roles each time. Each line is
  unfiltered with the length of a line of the whole image.\<close>

fun adam7_lines :: "nat \<Rightarrow> u32 \<Rightarrow> adam7 \<Rightarrow> pst \<Rightarrow> pptr \<Rightarrow> pptr \<Rightarrow> pptr \<Rightarrow> pptr \<Rightarrow> int \<Rightarrow> (int \<times> pst) option" where
  "adam7_lines 0 y a s out linen lineo ins err = Some (err, s)"
| "adam7_lines (Suc k) y a s out linen lineo ins err =
     do {
       let linelength = 1 + (a7_bpp a * a7_passw a + 7) div 8;
       ft \<leftarrow> pget s ins (unat (y * linelength));
       (e, s1) \<leftarrow> PNG_unFilterScanline s linen (fst ins, snd ins + unat (y * linelength + 1))
         (if y = 0 then None else Some lineo) ((a7_bpp a + 7) div 8) (ucast ft) ((a7_w a * a7_bpp a + 7) div 8);
       let err1 = (if e \<noteq> 0 then e else err);
       if err1 \<noteq> 0 then Some (err1, s1)
       else do {
         s2 \<leftarrow> adam7_pixels (unat (a7_passw a)) 0 y a s1 out linen;
         adam7_lines k (y + 1) a s2 out lineo linen ins err1 } }"

definition PNG_adam7Pass :: "adam7 \<Rightarrow> u32 \<Rightarrow> pst \<Rightarrow> pptr \<Rightarrow> pptr \<Rightarrow> pptr \<Rightarrow> pptr \<Rightarrow> int \<Rightarrow> (int \<times> pst) option" where
  "PNG_adam7Pass a passh s out linen lineo ins err =
     (if a7_passw a = 0 then Some (err, s) else adam7_lines (unat passh) 0 a s out linen lineo ins err)"

end
