(* ===== verification/PngDecode.thy ===== *)
theory PngDecode
  imports PngImage
begin

text \<open>
  \<^verbatim>\<open>BdsDxe/Graphics/picopng.c\<close>, last part: the conversion to 32-bit pixels and \<open>PNG_decode\<close>, which reads the
  chunks, decompresses, undoes filters and interlacing and converts.
\<close>

section \<open>Conversion\<close>

definition grey_alpha :: "bool \<Rightarrow> byte" where
  "grey_alpha transparent = (if transparent then 0 else 255)"

text \<open>The four bytes of pixel \<open>i\<close>, or an error; \<open>bp\<close> is the bit pointer for pixels below 8 bits.\<close>

definition palette_entry :: "png_info \<Rightarrow> pst \<Rightarrow> u32 \<Rightarrow> int \<Rightarrow> (int + byte list) option" where
  "palette_entry g s v err =
     (if 4 * v \<ge> v8_size (palette g) then Some (Inl err)
      else do {
        r \<leftarrow> v8_get (palette g) s (unat (4 * v));
        gr \<leftarrow> v8_get (palette g) s (unat (4 * v + 1));
        b \<leftarrow> v8_get (palette g) s (unat (4 * v + 2));
        a \<leftarrow> v8_get (palette g) s (unat (4 * v + 3));
        Some (Inr [r, gr, b, a]) })"

definition wide :: "byte \<Rightarrow> byte \<Rightarrow> u32" where
  "wide hi lo = 256 * ucast hi + ucast lo"

definition convert_pixel :: "png_info \<Rightarrow> pst \<Rightarrow> pptr \<Rightarrow> u32 \<Rightarrow> u32 \<Rightarrow> ((int + byte list) \<times> u32) option" where
  "convert_pixel g s ins i bp =
     (let at = (\<lambda>j. pget s ins (unat (j :: u32))) in
      if bitDepth g = 8 \<and> colorType g = 0 then do {
        x \<leftarrow> at i;
        Some (Inr [x, x, x, grey_alpha (key_defined g \<and> ucast x = key_r g)], bp) }
      else if bitDepth g = 8 \<and> colorType g = 2 then do {
        r \<leftarrow> at (3 * i); gr \<leftarrow> at (3 * i + 1); b \<leftarrow> at (3 * i + 2);
        Some (Inr [r, gr, b, grey_alpha (key_defined g \<and> ucast r = key_r g \<and> ucast gr = key_g g \<and> ucast b = key_b g)], bp) }
      else if bitDepth g = 8 \<and> colorType g = 3 then do {
        x \<leftarrow> at i; e \<leftarrow> palette_entry g s (ucast x) 46; Some (e, bp) }
      else if bitDepth g = 8 \<and> colorType g = 4 then do {
        x \<leftarrow> at (2 * i); a \<leftarrow> at (2 * i + 1); Some (Inr [x, x, x, a], bp) }
      else if bitDepth g = 8 \<and> colorType g = 6 then do {
        r \<leftarrow> at (4 * i); gr \<leftarrow> at (4 * i + 1); b \<leftarrow> at (4 * i + 2); a \<leftarrow> at (4 * i + 3); Some (Inr [r, gr, b, a], bp) }
      else if bitDepth g = 16 \<and> colorType g = 0 then do {
        x \<leftarrow> at (2 * i); k0 \<leftarrow> at i; k1 \<leftarrow> at (i + 1);
        Some (Inr [x, x, x, grey_alpha (key_defined g \<and> wide k0 k1 = key_r g)], bp) }
      else if bitDepth g = 16 \<and> colorType g = 2 then do {
        r0 \<leftarrow> at (6 * i); r1 \<leftarrow> at (6 * i + 1); g0 \<leftarrow> at (6 * i + 2); g1 \<leftarrow> at (6 * i + 3);
        b0 \<leftarrow> at (6 * i + 4); b1 \<leftarrow> at (6 * i + 5);
        Some (Inr [r0, g0, b0,
          grey_alpha (key_defined g \<and> wide r0 r1 = key_r g \<and> wide g0 g1 = key_g g \<and> wide b0 b1 = key_b g)], bp) }
      else if bitDepth g = 16 \<and> colorType g = 4 then do {
        x \<leftarrow> at (4 * i); a \<leftarrow> at (4 * i + 2); Some (Inr [x, x, x, a], bp) }
      else if bitDepth g = 16 \<and> colorType g = 6 then do {
        r \<leftarrow> at (8 * i); gr \<leftarrow> at (8 * i + 2); b \<leftarrow> at (8 * i + 4); a \<leftarrow> at (8 * i + 6); Some (Inr [r, gr, b, a], bp) }
      else if bitDepth g < 8 \<and> colorType g = 0 then do {
        (x, bp1) \<leftarrow> PNG_readBitsFromReversedStream bp ins s (unat (bitDepth g));
        let mx = (push_bit (unat (bitDepth g)) 1 :: u32) - 1;
        v \<leftarrow> (if mx = 0 then None else Some ((x * 255) div mx));
        Some (Inr [ucast v, ucast v, ucast v, grey_alpha (key_defined g \<and> v \<noteq> 0 \<and> mx = key_r g)], bp1) }
      else if bitDepth g < 8 \<and> colorType g = 3 then do {
        (x, bp1) \<leftarrow> PNG_readBitsFromReversedStream bp ins s (unat (bitDepth g));
        e \<leftarrow> palette_entry g s x 47;
        Some (e, bp1) }
      else Some (Inr [], bp))"

fun convert_loop :: "nat \<Rightarrow> u32 \<Rightarrow> u32 \<Rightarrow> png_info \<Rightarrow> nat option \<Rightarrow> pptr \<Rightarrow> pst \<Rightarrow> (int \<times> pst) option" where
  "convert_loop 0 i bp g out_data ins s = Some (0, s)"
| "convert_loop (Suc k) i bp g out_data ins s =
     do {
       (r, bp1) \<leftarrow> convert_pixel g s ins i bp;
       (case r of
          Inl e \<Rightarrow> Some (e, s)
        | Inr xs \<Rightarrow>
            do {
              s1 \<leftarrow> (if xs = [] then Some s else put_bytes out_data s (unat (4 * i)) xs);
              convert_loop k (i + 1) bp1 g out_data ins s1 }) }"

text \<open>\<open>out_data\<close> is read before the vector is resized.\<close>

definition PNG_convert :: "(nat \<Rightarrow> bool) \<Rightarrow> png_info \<Rightarrow> vector8 \<Rightarrow> pptr \<Rightarrow> pst \<Rightarrow> (int \<times> vector8 \<times> pst) option" where
  "PNG_convert pool g out ins s =
     (let out_data = (if v8_size out \<noteq> 0 then v8_data out else None);
          numpixels = pg_width g * pg_height g in
      do {
        (ok, out1, s1) \<leftarrow> vector8_resize pool out (numpixels * 4) s;
        (e, s2) \<leftarrow> convert_loop (unat numpixels) 0 0 g out_data ins s1;
        Some (e, out1, s2) })"

section \<open>Chunks\<close>

definition sizeof_info :: u32 where "sizeof_info = 64"

definition PNG_info_new :: "(nat \<Rightarrow> bool) \<Rightarrow> pst \<Rightarrow> (png_info \<times> pst) option" where
  "PNG_info_new pool s =
     do {
       (p, s1) \<leftarrow> png_alloc_malloc pool sizeof_info s;
       p0 \<leftarrow> p;
       (pal, s2) \<leftarrow> vector8_new pool 0 0 s1;
       pal1 \<leftarrow> pal;
       (img, s3) \<leftarrow> vector8_new pool 0 0 s2;
       img1 \<leftarrow> img;
       Some (\<lparr>pg_width = 0, pg_height = 0, colorType = 0, bitDepth = 0, compressionMethod = 0, filterMethod = 0,
         interlaceMethod = 0, key_r = 0, key_g = 0, key_b = 0, key_defined = False, palette = pal1, image_v = img1\<rparr>, s3) }"

record chunks =
  ck_info :: png_info
  ck_idat :: "vector8 option"
  ck_st :: pst
  ck_pos :: u32

definition chunk_IDAT :: "(nat \<Rightarrow> bool) \<Rightarrow> byte list \<Rightarrow> u32 \<Rightarrow> chunks \<Rightarrow> chunks option" where
  "chunk_IDAT pool ins len c =
     do {
       (v, offset, s1) \<leftarrow>
         (case ck_idat c of
            Some v \<Rightarrow> map_option (\<lambda>(ok, v1, s1). (v1, v8_size v, s1)) (vector8_resize pool v (v8_size v + len) (ck_st c))
          | None \<Rightarrow> do { (v, s1) \<leftarrow> vector8_new pool len 0 (ck_st c); v1 \<leftarrow> v; Some (v1, 0, s1) });
       s2 \<leftarrow>
         (if len = 0 then Some s1
          else do {
            xs \<leftarrow> rd_range ins (unat (ck_pos c + 4)) (unat len);
            put_bytes (v8_data v) s1 (unat offset) xs });
       Some (c\<lparr>ck_idat := Some v, ck_st := s2, ck_pos := ck_pos c + (4 + len)\<rparr>) }"

fun palette_loop :: "nat \<Rightarrow> nat \<Rightarrow> byte list \<Rightarrow> nat \<Rightarrow> nat option \<Rightarrow> pst \<Rightarrow> pst option" where
  "palette_loop 0 i ins pos data s = Some s"
| "palette_loop (Suc k) i ins pos data s =
     do {
       xs \<leftarrow> rd_range ins pos 3;
       s1 \<leftarrow> put_bytes data s i (xs @ [255]);
       palette_loop k (i + 4) ins (pos + 3) data s1 }"

text \<open>The size of the palette is always a multiple of 4.\<close>

definition chunk_PLTE :: "(nat \<Rightarrow> bool) \<Rightarrow> byte list \<Rightarrow> u32 \<Rightarrow> chunks \<Rightarrow> (int \<times> chunks) option" where
  "chunk_PLTE pool ins len c =
     do {
       let pos = ck_pos c + 4;
       (ok, pal, s1) \<leftarrow> vector8_resize pool (palette (ck_info c)) (4 * (len div 3)) (ck_st c);
       let c1 = c\<lparr>ck_info := (ck_info c)\<lparr>palette := pal\<rparr>, ck_st := s1, ck_pos := pos\<rparr>;
       if v8_size pal > 4 * 256 then Some (38, c1)
       else do {
         let n = unat (v8_size pal) div 4;
         s2 \<leftarrow> palette_loop n 0 ins (unat pos) (v8_data pal) s1;
         Some (0, c1\<lparr>ck_st := s2, ck_pos := pos + of_nat (3 * n)\<rparr>) } }"

fun alpha_loop :: "nat \<Rightarrow> nat \<Rightarrow> byte list \<Rightarrow> nat \<Rightarrow> nat option \<Rightarrow> pst \<Rightarrow> pst option" where
  "alpha_loop 0 i ins pos data s = Some s"
| "alpha_loop (Suc k) i ins pos data s =
     do {
       x \<leftarrow> rd ins pos;
       s1 \<leftarrow> put_byte data s (4 * i + 3) x;
       alpha_loop k (i + 1) ins (pos + 1) data s1 }"

definition key_at :: "byte list \<Rightarrow> u32 \<Rightarrow> u32 option" where
  "key_at ins pos = do { h \<leftarrow> rd ins (unat pos); l \<leftarrow> rd ins (unat (pos + 1)); Some (wide h l) }"

definition chunk_tRNS :: "byte list \<Rightarrow> u32 \<Rightarrow> chunks \<Rightarrow> (int \<times> chunks) option" where
  "chunk_tRNS ins len c =
     (let pos = ck_pos c + 4; g = ck_info c; c1 = c\<lparr>ck_pos := pos\<rparr> in
      if colorType g = 3 then
        (if 4 * len > v8_size (palette g) then Some (39, c1)
         else do {
           s1 \<leftarrow> alpha_loop (unat len) 0 ins (unat pos) (v8_data (palette g)) (ck_st c);
           Some (0, c1\<lparr>ck_st := s1, ck_pos := pos + len\<rparr>) })
      else if colorType g = 0 then
        (if len \<noteq> 2 then Some (40, c1)
         else do {
           k \<leftarrow> key_at ins pos;
           Some (0, c1\<lparr>ck_info := g\<lparr>key_defined := True, key_r := k, key_g := k, key_b := k\<rparr>, ck_pos := pos + 2\<rparr>) })
      else if colorType g = 2 then
        (if len \<noteq> 6 then Some (41, c1)
         else do {
           kr \<leftarrow> key_at ins pos;
           kg \<leftarrow> key_at ins (pos + 2);
           kb \<leftarrow> key_at ins (pos + 4);
           Some (0, c1\<lparr>ck_info := g\<lparr>key_defined := True, key_r := kr, key_g := kg, key_b := kb\<rparr>, ck_pos := pos + 6\<rparr>) })
      else Some (42, c1))"

text \<open>The loop over the chunks.\<close>

fun read_chunks :: "nat \<Rightarrow> (nat \<Rightarrow> bool) \<Rightarrow> byte list \<Rightarrow> chunks \<Rightarrow> (int \<times> chunks) option" where
  "read_chunks 0 pool ins c = None"
| "read_chunks (Suc F) pool ins c =
     (let isize = (of_nat (length ins) :: u32) in
      if ck_pos c + 8 \<ge> isize then Some (30, c)
      else do {
        len \<leftarrow> PNG_read32bitInt ins (ck_pos c);
        let c0 = c\<lparr>ck_pos := ck_pos c + 4\<rparr>;
        if len > 0x7fffffff then Some (63, c0)
        else if ck_pos c0 + len \<ge> isize then Some (35, c0)
        else do {
          ty \<leftarrow> le32 ins (unat (ck_pos c0));
          if ty = CHUNK_IEND then Some (0, c0\<lparr>ck_pos := ck_pos c0 + 8\<rparr>)
          else do {
            (e, c1) \<leftarrow>
              (if ty = CHUNK_IDAT then map_option (Pair 0) (chunk_IDAT pool ins len c0)
               else if ty = CHUNK_PLTE then chunk_PLTE pool ins len c0
               else if ty = CHUNK_tRNS then chunk_tRNS ins len c0
               else do {
                 x \<leftarrow> rd ins (unat (ck_pos c0));
                 Some (if x AND 32 = 0 then (69, c0) else (0, c0\<lparr>ck_pos := ck_pos c0 + (len + 4)\<rparr>)) });
            if e \<noteq> 0 then Some (e, c1) else read_chunks F pool ins (c1\<lparr>ck_pos := ck_pos c1 + 4\<rparr>) } } })"

section \<open>Decoding\<close>

text \<open>The lines of an image that is not interlaced, for whole bytes and for bits.\<close>

fun byte_lines :: "nat \<Rightarrow> u32 \<Rightarrow> u32 \<Rightarrow> u32 \<Rightarrow> u32 \<Rightarrow> u32 \<Rightarrow> nat option \<Rightarrow> nat option \<Rightarrow> pst \<Rightarrow> (int \<times> pst) option" where
  "byte_lines 0 y linestart linelength w bytewidth out_data scan s = Some (0, s)"
| "byte_lines (Suc k) y linestart linelength w bytewidth out_data scan s =
     do {
       ft \<leftarrow> pget s (scan, 0) (unat linestart);
       (e, s1) \<leftarrow> PNG_unFilterScanline s (out_data, unat (linestart - y)) (scan, unat (linestart + 1))
         (if y = 0 then None else Some (out_data, unat ((y - 1) * w * bytewidth))) bytewidth (ucast ft) linelength;
       if e \<noteq> 0 then Some (e, s1)
       else byte_lines k (y + 1) (linestart + (1 + linelength)) linelength w bytewidth out_data scan s1 }"

fun bit_lines ::
  "nat \<Rightarrow> u32 \<Rightarrow> u32 \<Rightarrow> u32 \<Rightarrow> u32 \<Rightarrow> u32 \<Rightarrow> u32 \<Rightarrow> u32 \<Rightarrow> nat option \<Rightarrow> nat option \<Rightarrow> nat option \<Rightarrow> pst \<Rightarrow> (int \<times> pst) option"
where
  "bit_lines 0 y obp linestart linelength w bpp bytewidth out_data scan templine s = Some (0, s)"
| "bit_lines (Suc k) y obp linestart linelength w bpp bytewidth out_data scan templine s =
     do {
       ft \<leftarrow> pget s (scan, 0) (unat linestart);
       (e, s1) \<leftarrow> PNG_unFilterScanline s (templine, 0) (scan, unat (linestart + 1))
         (if y = 0 then None else Some (out_data, unat ((y - 1) * w * bytewidth))) bytewidth (ucast ft) linelength;
       if e \<noteq> 0 then Some (e, s1)
       else do {
         (s2, obp1) \<leftarrow> copy_pixel_bits (unat (w * bpp)) s1 (out_data, 0) obp (templine, 0) 0;
         bit_lines k (y + 1) obp1 (linestart + (1 + linelength)) linelength w bpp bytewidth out_data scan templine s2 } }"

definition decode_plain ::
  "(nat \<Rightarrow> bool) \<Rightarrow> png_info \<Rightarrow> u32 \<Rightarrow> nat option \<Rightarrow> nat option \<Rightarrow> pst \<Rightarrow> (int \<times> pst) option"
where
  "decode_plain pool g bpp out_data scan s =
     (let linelength = (pg_width g * bpp + 7) div 8; bytewidth = (bpp + 7) div 8; h = unat (pg_height g) in
      if bpp \<ge> 8 then byte_lines h 0 0 linelength (pg_width g) bytewidth out_data scan s
      else do {
        (t, s1) \<leftarrow> vector8_new pool (drop_bit 3 (pg_width g * bpp + 7)) 0 s;
        t1 \<leftarrow> t;
        bit_lines h 0 0 0 linelength (pg_width g) bpp bytewidth out_data scan (v8_data t1) s1 })"

definition adam7_widths :: "u32 \<Rightarrow> u32 list" where
  "adam7_widths w = [(w + 7) div 8, (w + 3) div 8, (w + 3) div 4, (w + 1) div 4, (w + 1) div 2, w div 2, w]"

definition adam7_heights :: "u32 \<Rightarrow> u32 list" where
  "adam7_heights h = [(h + 7) div 8, (h + 7) div 8, (h + 3) div 8, (h + 3) div 4, (h + 1) div 4, (h + 1) div 2, h div 2]"

text \<open>The table \<open>pattern\<close>: left, top and the spaces of each pass.\<close>

definition adam7_pattern :: "(u32 \<times> u32 \<times> u32 \<times> u32) list" where
  "adam7_pattern = zip [0, 4, 0, 2, 0, 1, 0] (zip [0, 0, 4, 0, 2, 0, 1] (zip [8, 8, 4, 4, 2, 2, 1] [8, 8, 8, 4, 4, 2, 2]))"

fun adam7_passes ::
  "(u32 \<times> u32 \<times> u32 \<times> u32 \<times> u32 \<times> u32) list \<Rightarrow> u32 \<Rightarrow> u32 \<Rightarrow> u32 \<Rightarrow> nat option \<Rightarrow> nat option \<Rightarrow> nat option \<Rightarrow> nat option \<Rightarrow> int \<Rightarrow> pst \<Rightarrow> (int \<times> pst) option"
where
  "adam7_passes [] w bpp start out_data linen lineo scan err s = Some (err, s)"
| "adam7_passes ((lf, tp, spx, spy, pw, ph) # ps) w bpp start out_data linen lineo scan err s =
     do {
       (err1, s1) \<leftarrow> PNG_adam7Pass
         \<lparr>a7_w = w, a7_left = lf, a7_top = tp, a7_spacex = spx, a7_spacey = spy, a7_passw = pw, a7_bpp = bpp\<rparr>
         ph s (out_data, 0) (linen, 0) (lineo, 0) (scan, unat start) err;
       adam7_passes ps w bpp (start + ph * ((if pw \<noteq> 0 then 1 else 0) + (pw * bpp + 7) div 8))
         out_data linen lineo scan err1 s1 }"

definition decode_adam7 ::
  "(nat \<Rightarrow> bool) \<Rightarrow> png_info \<Rightarrow> u32 \<Rightarrow> nat option \<Rightarrow> nat option \<Rightarrow> pst \<Rightarrow> (int \<times> pst) option"
where
  "decode_adam7 pool g bpp out_data scan s =
     do {
       (lo, s1) \<leftarrow> vector8_new pool ((pg_width g * bpp + 7) div 8) 0 s;
       lo1 \<leftarrow> lo;
       (ln, s2) \<leftarrow> vector8_new pool ((pg_width g * bpp + 7) div 8) 0 s1;
       ln1 \<leftarrow> ln;
       adam7_passes
         (map (\<lambda>((l, t, x, y), w, h). (l, t, x, y, w, h)) (zip adam7_pattern (zip (adam7_widths (pg_width g)) (adam7_heights (pg_height g)))))
         (pg_width g) bpp 0 out_data (v8_data ln1) (v8_data lo1) scan 0 s2 }"

definition PNG_decode :: "nat \<Rightarrow> (nat \<Rightarrow> bool) \<Rightarrow> byte list \<Rightarrow> pst \<Rightarrow> (int \<times> png_info option \<times> pst) option" where
  "PNG_decode F pool ins s =
     (if ins = [] then Some (48, None, s)
      else do {
        (g0, s0) \<leftarrow> PNG_info_new pool s;
        (e, g1) \<leftarrow> PNG_readPngHeader g0 ins;
        if e \<noteq> 0 then Some (e, None, s0)
        else do {
          (e1, c) \<leftarrow> read_chunks F pool ins \<lparr>ck_info = g1\<lparr>key_defined := False\<rparr>, ck_idat = None, ck_st = s0, ck_pos = 33\<rparr>;
          if e1 \<noteq> 0 then Some (e1, None, ck_st c)
          else do {
            let g = ck_info c;
            let bpp = PNG_getBpp g;
            (sc, s1) \<leftarrow> vector8_new pool ((pg_width g * (pg_height g * bpp + 7)) div 8 + pg_height g) 0 (ck_st c);
            sc1 \<leftarrow> sc;
            idat \<leftarrow> ck_idat c;
            (e2, scanlines, s2) \<leftarrow> Zlib_decompress F pool sc1 idat s1;
            if e2 \<noteq> 0 then Some (e2, None, s2)
            else do {
              let outlength = (pg_height g * pg_width g * bpp + 7) div 8;
              (ok, img, s3) \<leftarrow> vector8_resize pool (image_v g) outlength s2;
              let out_data = (if outlength \<noteq> 0 then v8_data img else None);
              (e3, s4) \<leftarrow>
                (if interlaceMethod g = 0 then decode_plain pool g bpp out_data (v8_data scanlines) s3
                 else decode_adam7 pool g bpp out_data (v8_data scanlines) s3);
              if e3 \<noteq> 0 \<and> interlaceMethod g = 0 then Some (e3, None, s4)
              else if colorType g \<noteq> 6 \<or> bitDepth g \<noteq> 8 then do {
                (cp, s5) \<leftarrow> vector8_copy pool img s4;
                (e4, img2, s6) \<leftarrow> PNG_convert pool g img (v8_data cp, 0) s5;
                Some (e4, Some (g\<lparr>image_v := img2\<rparr>), s6) }
              else Some (e3, Some (g\<lparr>image_v := img\<rparr>), s4) } } } })"

end
