(* ===== verification/PngFacts.thy ===== *)
theory PngFacts
  imports PngDecode
begin

text \<open>
  Facts on the PNG decoder. The filters are inverted: each encoded line is restored. Stored blocks are
  decompressed to their data; \<open>vec_at\<close> says that a vector owns a buffer, \<open>poked\<close> that bytes are written to it.
  The conversion works on the old buffer of the image: greyscale pixels are lost, and with few bits per
  pixel the writes leave the buffer.
\<close>

section \<open>Filters\<close>

text \<open>The filters of the PNG specification: \<open>a\<close>, \<open>b\<close> and \<open>c\<close> are the bytes to the left, above, and above left,
  0 outside the image.\<close>

text \<open>
  Type 4, as the PNG specification describes it: of the bytes to the left, above and above left, taken
  in this order, the first whose distance from left + above - above left, computed exactly, is not
  larger than that of the other two.
\<close>

definition paeth_spec :: "byte \<Rightarrow> byte \<Rightarrow> byte \<Rightarrow> byte" where
  "paeth_spec a b c =
     (let dist = (\<lambda>x. \<bar>uint a + uint b - uint c - uint x\<bar>)
      in hd (filter (\<lambda>x. \<forall>y \<in> {a, b, c}. dist x \<le> dist y) [a, b, c]))"

definition filter_pred :: "u32 \<Rightarrow> byte \<Rightarrow> byte \<Rightarrow> byte \<Rightarrow> byte" where
  "filter_pred ft a b c =
     (if ft = 1 then a else if ft = 2 then b
      else if ft = 3 then of_nat ((unat a + unat b) div 2)
      else if ft = 4 then paeth_spec a b c
      else 0)"

lemma paeth_refines: "of_int (PNG_paethPredictor (uint a) (uint b) (uint c)) = paeth_spec a b c"
  unfolding PNG_paethPredictor_def paeth_spec_def Let_def by auto

definition left_of :: "nat \<Rightarrow> byte list \<Rightarrow> nat \<Rightarrow> byte" where
  "left_of bw line i = (if i < bw then 0 else line ! (i - bw))"

definition above :: "byte list option \<Rightarrow> nat \<Rightarrow> byte" where
  "above prev i = (case prev of None \<Rightarrow> 0 | Some p \<Rightarrow> p ! i)"

definition above_left :: "nat \<Rightarrow> byte list option \<Rightarrow> nat \<Rightarrow> byte" where
  "above_left bw prev i = (case prev of None \<Rightarrow> 0 | Some p \<Rightarrow> left_of bw p i)"

definition predicted :: "u32 \<Rightarrow> nat \<Rightarrow> byte list option \<Rightarrow> byte list \<Rightarrow> nat \<Rightarrow> byte" where
  "predicted ft bw prev line i = filter_pred ft (left_of bw line i) (above prev i) (above_left bw prev i)"

definition filter_line :: "u32 \<Rightarrow> nat \<Rightarrow> byte list option \<Rightarrow> byte list \<Rightarrow> byte list" where
  "filter_line ft bw prev line = map (\<lambda>i. line ! i - predicted ft bw prev line i) [0..<length line]"

text \<open>A pointer at which a byte list is held.\<close>

definition mem_at :: "pst \<Rightarrow> pptr \<Rightarrow> byte list \<Rightarrow> bool" where
  "mem_at s p xs \<longleftrightarrow> (\<exists>a b. fst p = Some a \<and> ps_heap s a = Some b \<and> rd_range b (snd p) (length xs) = Some xs)"

lemma mem_at_get:
  assumes "mem_at s p xs" "i < length xs"
  shows "pget s p i = Some (xs ! i)"
proof -
  obtain a b where h: "fst p = Some a" "ps_heap s a = Some b" "snd p + length xs \<le> length b" "xs = take (length xs) (drop (snd p) b)"
    using assms(1) by (auto simp: mem_at_def rd_range_eq_Some)
  have "xs ! i = drop (snd p) b ! i"
    using assms(2) by (subst h(4)) simp
  then show ?thesis
    using h assms(2) by (simp add: pget_def)
qed

text \<open>The state after \<open>i\<close> bytes of the line are in place.\<close>

definition written :: "pst \<Rightarrow> nat \<Rightarrow> nat \<Rightarrow> byte list \<Rightarrow> nat \<Rightarrow> pst" where
  "written s ra ro line i =
     (case ps_heap s ra of
        None \<Rightarrow> s
      | Some b \<Rightarrow> s\<lparr>ps_heap := (ps_heap s)(ra \<mapsto> take ro b @ take i line @ drop (ro + i) b)\<rparr>)"

lemma written_0: "written s ra ro line 0 = s"
  by (auto simp: written_def fun_upd_idem split: option.split)

lemma written_put:
  assumes "ps_heap s ra = Some b" "ro + length line \<le> length b" "i < length line"
  shows "pput (written s ra ro line i) (Some ra, ro) i (line ! i) = Some (written s ra ro line (Suc i))"
proof -
  have "(take ro b @ take i line @ drop (ro + i) b)[ro + i := line ! i] = take ro b @ take (Suc i) line @ drop (ro + Suc i) b"
    using assms by (simp add: list_update_append take_Suc_conv_app_nth Cons_nth_drop_Suc [symmetric])
  then show ?thesis
    using assms by (simp add: pput_def put_byte_def written_def)
qed

lemma written_left:
  assumes "ps_heap s ra = Some b" "ro + length line \<le> length b" "j < i" "i \<le> length line"
  shows "pget (written s ra ro line i) (Some ra, ro) j = Some (line ! j)"
  using assms by (simp add: pget_def written_def nth_append)

definition apart_from :: "nat \<Rightarrow> nat \<Rightarrow> nat \<Rightarrow> pptr \<Rightarrow> bool" where
  "apart_from ra ro n q \<longleftrightarrow> fst q \<noteq> Some ra \<or> snd q + n \<le> ro \<or> ro + n \<le> snd q"

lemma written_other:
  assumes "ps_heap s ra = Some b" "ro + length line \<le> length b" "apart_from ra ro (length line) q" "j < length line" "i \<le> length line"
  shows "pget (written s ra ro line i) q j = pget s q j"
proof (cases "fst q = Some ra")
  case True
  have "(take ro b @ take i line @ drop (ro + i) b) ! (snd q + j) = b ! (snd q + j)"
    using assms True by (auto simp: apart_from_def nth_append)
  then show ?thesis
    using assms True by (simp add: pget_def written_def rd_def)
next
  case False
  then show ?thesis
    using assms(1) by (cases "fst q") (auto simp: pget_def written_def)
qed

lemma pred_here:
  assumes "ps_heap s ra = Some b" "ro + length line \<le> length b" "i < length line" "0 < bw"
    and prev: "case prev of None \<Rightarrow> precon = None
      | Some p \<Rightarrow> \<exists>q. precon = Some q \<and> length p = length line \<and> mem_at s q p \<and> apart_from ra ro (length line) q"
  shows "unfilter_pred (written s ra ro line i) (Some ra, ro) precon bw ft i = Some (predicted ft bw prev line i)"
proof -
  let ?s = "written s ra ro line i"
  have left: "\<not> i < bw \<Longrightarrow> pget ?s (Some ra, ro) (i - bw) = Some (line ! (i - bw))"
    using written_left [OF assms(1,2), of "i - bw" i] assms(3,4) by simp
  note paeth = paeth_refines [of _ 0 0, simplified] paeth_refines [of 0 _ 0, simplified]
  have paeth0: "paeth_spec 0 0 0 = 0"
    by (simp add: paeth_spec_def)
  show ?thesis
  proof (cases prev)
    case None
    then show ?thesis
      using left prev paeth0 paeth
      by (simp add: unfilter_pred_def predicted_def filter_pred_def left_of_def above_def above_left_def)
  next
    case (Some p)
    then obtain q where q: "precon = Some q" "length p = length line" "mem_at s q p" "apart_from ra ro (length line) q"
      using prev by auto
    have up: "pget ?s q j = Some (p ! j)" if "j < length line" for j
      using written_other [OF assms(1,2) q(4) that] mem_at_get [OF q(3)] q(2) assms(3) that by simp
    have "pget ?s q i = Some (p ! i)" "pget ?s q (i - bw) = Some (p ! (i - bw))"
      using up assms(3) by simp_all
    then show ?thesis
      using left q(1) Some paeth paeth_refines
      by (simp add: unfilter_pred_def predicted_def filter_pred_def left_of_def above_def above_left_def)
  qed
qed

lemma unfilter_loop_at:
  assumes "ps_heap s ra = Some b" "ro + length line \<le> length b" "0 < bw"
    and "case prev of None \<Rightarrow> precon = None
      | Some p \<Rightarrow> \<exists>q. precon = Some q \<and> length p = length line \<and> mem_at s q p \<and> apart_from ra ro (length line) q"
    and "mem_at s scan (filter_line ft bw prev line)" "apart_from ra ro (length line) scan"
  shows "i + k = length line \<Longrightarrow>
    unfilter_loop k i (written s ra ro line i) (Some ra, ro) scan precon bw ft = Some (written s ra ro line (length line))"
proof (induction k arbitrary: i)
  case (Suc k)
  then have i: "i < length line"
    by simp
  have "pget (written s ra ro line i) scan i = Some (line ! i - predicted ft bw prev line i)"
    using written_other [OF assms(1,2,6) i] mem_at_get [OF assms(5), of i] i by (simp add: filter_line_def)
  then show ?case
    using pred_here [OF assms(1,2) i assms(3,4), of ft] written_put [OF assms(1,2) i] Suc by simp
qed simp

text \<open>C24. Undoing a filter undoes it: for every filter type of the PNG specification, every pixel width, and
  with or without a previous line, the line that was filtered is reconstructed, in place in the
  output and without any change outside the line. The previous line may lie in the same buffer.\<close>

theorem png_unfilter_inverts:
  assumes "ps_heap s ra = Some b" "ro + length line \<le> length b" "0 < bw" "unat bw \<le> length line"
    and "length line < 2 ^ 32" "ft \<le> 4"
    and "case prev of None \<Rightarrow> precon = None
      | Some p \<Rightarrow> \<exists>q. precon = Some q \<and> length p = length line \<and> mem_at s q p \<and> apart_from ra ro (length line) q"
    and "mem_at s scan (filter_line ft (unat bw) prev line)" "apart_from ra ro (length line) scan"
  shows "PNG_unFilterScanline s (Some ra, ro) scan precon bw ft (of_nat (length line)) =
    Some (0, s\<lparr>ps_heap := (ps_heap s)(ra \<mapsto> take ro b @ line @ drop (ro + length line) b)\<rparr>)"
proof -
  have u: "unat (of_nat (length line) :: u32) = length line"
    using assms(5) by (rule unat_small)
  have m: "(if ft = 1 \<or> ft = 3 \<or> ft = 4 then max (unat bw) (unat (of_nat (length line) :: u32)) else unat (of_nat (length line) :: u32)) = length line"
    using assms(4) by (simp add: u max_def)
  have "0 < unat bw"
    using assms(3) by (simp add: word_less_nat_alt)
  then have "unfilter_loop (length line) 0 (written s ra ro line 0) (Some ra, ro) scan precon (unat bw) ft =
      Some (written s ra ro line (length line))"
    by (intro unfilter_loop_at [OF assms(1,2) _ assms(7,8,9)]) simp_all
  then show ?thesis
    using assms(1,6) unfolding PNG_unFilterScanline_def m written_0 by (simp add: written_def not_less)
qed

lemma png_unfilter_inverts_witness:
  "\<exists>s'. PNG_unFilterScanline \<lparr>ps_heap = [1 \<mapsto> [9, 8, 7, 0, 0, 0], 2 \<mapsto> [1, 11, 241]],
     ps_next = 3, ps_nodes = []\<rparr> (Some 1, 3) (Some 2, 0) (Some (Some 1, 0)) 1 4 3 = Some (0, s') \<and> ps_heap s' 1 = Some [9, 8, 7, 10, 20, 5]"
proof -
  let ?s = "\<lparr>ps_heap = [1 \<mapsto> [9, 8, 7, 0, 0, 0], 2 \<mapsto> [1, 11, 241]], ps_next = 3, ps_nodes = []\<rparr>"
  have l: "filter_line 4 1 (Some [9, 8, 7]) [10, 20, 5] = [1, 11, 241]"
    by (simp add: filter_line_def predicted_def filter_pred_def paeth_spec_def left_of_def above_def above_left_def upt_rec)
  have "PNG_unFilterScanline ?s (Some 1, 3) (Some 2, 0) (Some (Some 1, 0)) 1 4 (of_nat (length [10 :: byte, 20, 5])) =
      Some (0, ?s\<lparr>ps_heap := (ps_heap ?s)(1 \<mapsto> take 3 [9, 8, 7, 0, 0, 0] @ [10, 20, 5] @ drop (3 + length [10 :: byte, 20, 5]) [9, 8, 7, 0, 0, 0])\<rparr>)"
    by (rule png_unfilter_inverts [where prev = "Some [9, 8, 7]"]) (simp_all add: mem_at_def rd_range_def apart_from_def l [simplified])
  then show ?thesis
    by simp
qed

section \<open>Stored blocks\<close>

lemma and7:
  assumes "n < 2 ^ 32"
  shows "(of_nat n :: u32) AND 7 = of_nat (n mod 8)"
proof -
  have "unat ((of_nat n :: u32) AND mask 3) = n mod 8"
    using unat_small [OF assms] by (simp add: take_bit_eq_mask [symmetric] unsigned_take_bit_eq take_bit_eq_mod unat_mod)
  then have "(of_nat n :: u32) AND mask 3 = of_nat (n mod 8)"
    using assms by (simp add: word_unat_eq_iff unat_small)
  then show ?thesis
    by (simp add: mask_eq_exp_minus_1)
qed

lemma drop3:
  assumes "n < 2 ^ 32"
  shows "unat (drop_bit 3 (of_nat n :: u32)) = n div 8"
  using unat_small [OF assms] by (simp add: drop_bit_eq_div unat_div)

lemma read_bit_at:
  assumes "n < 2 ^ 32" "n div 8 < length ins"
  shows "Zlib_readBitFromStream (of_nat n) ins = Some (of_bool (bit (ins ! (n div 8)) (n mod 8)), of_nat (Suc n))"
proof -
  have "unat (of_nat (n mod 8) :: u32) = n mod 8"
    by (rule unat_small) simp
  then show ?thesis
    using assms by (simp add: Zlib_readBitFromStream_def drop3 and7 add.commute)
qed

lemma align_to:
  assumes "8 * q + 8 < 2 ^ 32"
  shows "r < 8 \<Longrightarrow> r \<le> k \<Longrightarrow> align_byte k (of_nat (8 * q + 8 - r)) = of_nat (8 * q + 8)"
proof (induction r arbitrary: k)
  case 0
  have "(of_nat (8 * q + 8) :: u32) AND 7 = 0"
    using and7 [OF assms] by simp
  then show ?case
    by (cases k) simp_all
next
  case (Suc r)
  obtain l where k: "k = Suc l"
    using Suc.prems by (cases k) auto
  have "(8 * q + 8 - Suc r) mod 8 = 7 - r"
  proof -
    have "8 * q + 8 - Suc r = 8 * q + (7 - r)"
      using Suc.prems(1) by simp
    then show ?thesis
      by (simp add: mod_mult_self4)
  qed
  moreover have "8 * q + 8 - Suc r < 2 ^ 32"
    using assms by simp
  ultimately have "(of_nat (8 * q + 8 - Suc r) :: u32) AND 7 = of_nat (7 - r)"
    using and7 [of "8 * q + 8 - Suc r"] by simp
  moreover have "(of_nat (7 - r) :: u32) \<noteq> 0"
  proof
    assume "(of_nat (7 - r) :: u32) = 0"
    then have "unat (of_nat (7 - r) :: u32) = 0"
      by (simp only: unat_0)
    moreover have "unat (of_nat (7 - r) :: u32) = 7 - r"
      by (rule unat_small) simp
    ultimately show False
      using Suc.prems(1) by linarith
  qed
  moreover have "(of_nat (8 * q + 8 - Suc r) :: u32) + 1 = of_nat (8 * q + 8 - r)"
  proof -
    have "8 * q + 8 - r = Suc (8 * q + 8 - Suc r)"
      using Suc.prems(1) by simp
    then show ?thesis
      by (simp only: of_nat_Suc) simp
  qed
  ultimately have "align_byte k (of_nat (8 * q + 8 - Suc r)) = align_byte l (of_nat (8 * q + 8 - r))"
    by (simp only: k align_byte.simps simp_thms if_True)
  then show ?case
    using Suc.IH [of l] Suc.prems k by simp
qed

definition stored_block :: "bool \<Rightarrow> byte list \<Rightarrow> byte list" where
  "stored_block fin xs =
     [if fin then 1 else 0, of_nat (length xs mod 256), of_nat (length xs div 256),
      of_nat (255 - length xs mod 256), of_nat (255 - length xs div 256)] @ xs"

lemma length_stored_block [simp]: "length (stored_block fin xs) = 5 + length xs"
  by (simp add: stored_block_def)

lemma stored_len:
  assumes "n \<le> 65535"
  shows "(ucast (of_nat (n mod 256) :: byte) :: u32) + 256 * ucast (of_nat (n div 256) :: byte) = of_nat n"
    "(ucast (of_nat (n mod 256) :: byte) :: u32) + 256 * ucast (of_nat (n div 256) :: byte) +
     (ucast (of_nat (255 - n mod 256) :: byte) + 256 * ucast (of_nat (255 - n div 256) :: byte)) = 65535"
proof -
  have u: "(ucast (of_nat k :: byte) :: u32) = of_nat k" if "k < 256" for k
  unfolding word_unat_eq_iff
  proof -
    have "unat (of_nat k :: byte) = k"
      using that by (simp add: unat_of_nat take_bit_nat_eq_self)
    then show "unat (ucast (of_nat k :: byte) :: u32) = unat (of_nat k :: u32)"
      using that by (simp add: unsigned_ucast_eq unat_small take_bit_nat_eq_self)
  qed
  have a: "n mod 256 < 256" "n div 256 < 256" "255 - n mod 256 < 256" "255 - n div 256 < 256"
    using assms by (simp_all add: less_mult_imp_div_less)
  have "n mod 256 + 256 * (n div 256) = n"
    by simp
  then have "(of_nat (n mod 256) + 256 * of_nat (n div 256) :: u32) = of_nat n"
    by (metis of_nat_add of_nat_mult of_nat_numeral)
  then show "(ucast (of_nat (n mod 256) :: byte) :: u32) + 256 * ucast (of_nat (n div 256) :: byte) = of_nat n"
    using a by (simp add: u)
  have "n div 256 \<le> 255" "n mod 256 \<le> 255"
    using a by simp_all
  moreover have "x \<le> 255 \<Longrightarrow> y \<le> 255 \<Longrightarrow> x + 256 * y + (255 - x + 256 * (255 - y)) = 65535" for x y :: nat
    by simp
  ultimately have "n mod 256 + 256 * (n div 256) + (255 - n mod 256 + 256 * (255 - n div 256)) = 65535"
    by blast
  then have "(of_nat (n mod 256 + 256 * (n div 256) + (255 - n mod 256 + 256 * (255 - n div 256))) :: u32) = of_nat 65535"
    by simp
  then show "(ucast (of_nat (n mod 256) :: byte) :: u32) + 256 * ucast (of_nat (n div 256) :: byte) +
     (ucast (of_nat (255 - n mod 256) :: byte) + 256 * ucast (of_nat (255 - n div 256) :: byte)) = 65535"
    using a by (simp only: u of_nat_add of_nat_mult) simp
qed

text \<open>A vector with its buffer.\<close>

definition vec_at :: "vector8 \<Rightarrow> pst \<Rightarrow> nat \<Rightarrow> byte list \<Rightarrow> bool" where
  "vec_at v s a b \<longleftrightarrow> v8_data v = Some a \<and> ps_heap s a = Some b \<and> length b = unat (v8_allocsize v) \<and>
     4 * unat (v8_size v) \<le> length b"

lemma resize_same:
  assumes "vec_at v s a b" "n \<le> unat (v8_size v)"
  shows "vector8_resize pool v (of_nat n) s = Some (True, v\<lparr>v8_size := of_nat n\<rparr>, s)"
proof -
  have "n < 2 ^ 32"
    using assms(2) word_unat_lt [of "v8_size v"] by simp
  then show ?thesis
    using assms unat_small [of n] by (simp add: vector8_resize_def vec_at_def)
qed

definition poked :: "pst \<Rightarrow> nat \<Rightarrow> nat \<Rightarrow> byte list \<Rightarrow> byte list \<Rightarrow> pst" where
  "poked s a pos b xs = s\<lparr>ps_heap := (ps_heap s)(a \<mapsto> take pos b @ xs @ drop (pos + length xs) b)\<rparr>"

lemma poked_Nil: "ps_heap s a = Some b \<Longrightarrow> poked s a pos b [] = s"
  by (simp add: poked_def fun_upd_idem)

lemma stored_core:
  assumes "align_byte 7 (if_bp st) = bp" "bp div 8 = p" "\<not> inlength - 4 \<le> p" "byte_at ins p = Some b0" "byte_at ins (p + 1) = Some b1"
    and "byte_at ins (p + 2) = Some b2" "byte_at ins (p + 3) = Some b3" "b0 + 256 * b1 = L" "b0 + 256 * b1 + (b2 + 256 * b3) = 65535"
    and "(if v8_size (if_out st) \<le> if_pos st + L then map_option snd (vector8_resize pool (if_out st) (if_pos st + L) (if_st st))
          else Some (if_out st, if_st st)) = Some (if_out st, if_st st)"
    and "\<not> inlength < p + 4 + L" "L = 0 \<longleftrightarrow> xs = []" "xs \<noteq> [] \<Longrightarrow> rd_range ins (unat (p + 4)) (unat L) = Some xs"
    and "put_bytes (v8_data (if_out st)) (if_st st) (unat (if_pos st)) xs = Some s'" "xs = [] \<Longrightarrow> s' = if_st st"
  shows "Inflator_inflateNoCompression pool ins inlength st =
    Some (st\<lparr>if_st := s', if_bp := (p + 4 + L) * 8, if_pos := if_pos st + L\<rparr>)"
proof -
  note facts = assms(1-7)
  show ?thesis
    unfolding Inflator_inflateNoCompression_def Let_def
    using assms(8-15)
    by (cases "xs = []"; cases "v8_size (if_out st) \<le> if_pos st + L") (simp_all add: facts split_beta map_option_case)
qed

lemma stored_data:
  assumes "drop q ins = stored_block fin xs @ rest" "length xs \<le> 65535"
    and "vec_at (if_out st) (if_st st) a b" "pos + length xs \<le> unat (v8_size (if_out st))"
    and "if_pos st = of_nat pos" "if_bp st = of_nat (8 * q + 3)"
    and "q + 5 + length xs < unat inlength" "8 * unat inlength < 2 ^ 32"
  shows "Inflator_inflateNoCompression pool ins inlength st =
    Some (st\<lparr>if_st := poked (if_st st) a pos b xs, if_bp := of_nat (8 * (q + 5 + length xs)), if_pos := of_nat (pos + length xs)\<rparr>)"
proof -
  let ?n = "length xs"
  have il: "unat (inlength - 4) = unat inlength - 4"
    using assms(7) by (subst unat_sub) (simp_all add: word_le_nat_alt)
  have small: "unat (of_nat k :: u32) = k" if "k \<le> unat inlength" for k
    using that assms(8) by (intro unat_small) simp
  have align: "align_byte 7 (of_nat (8 * q + 3)) = of_nat (8 * q + 8)"
  proof -
    have e: "8 * q + 8 - 5 = 8 * q + 3"
      by simp
    have "8 * q + 8 < 2 ^ 32"
      using assms(7,8) by simp
    from align_to [OF this, of 5 7, unfolded e] show ?thesis
      by simp
  qed
  have p: "(of_nat (8 * q + 8) :: u32) div 8 = of_nat (q + 1)"
  proof -
    have "unat (of_nat (8 * q + 8) :: u32) = 8 * q + 8"
      using assms(7,8) by (intro unat_small) simp
    then have "unat ((of_nat (8 * q + 8) :: u32) div 8) = q + 1"
      by (simp add: unat_div)
    then show ?thesis
      using small [of "q + 1"] assms(7) by (simp add: word_unat_eq_iff)
  qed
  have at: "ins ! (q + k) = stored_block fin xs ! k" "q + k < length ins" if "k < 5 + ?n" for k
  proof -
    have l: "length (drop q ins) = 5 + ?n + length rest"
      using assms(1) by simp
    then show "q + k < length ins"
      using that by simp
    show "ins ! (q + k) = stored_block fin xs ! k"
      using assms(1) that l by (metis length_stored_block nth_append nth_drop le_add1 length_drop diff_is_0_eq linorder_not_le add_gr_0 nat_le_linear zero_less_diff trans_less_add1 zero_less_numeral)
  qed
  have b: "byte_at ins (of_nat (q + 1)) = Some (ucast (of_nat (?n mod 256) :: byte))"
    "byte_at ins (of_nat (q + 2)) = Some (ucast (of_nat (?n div 256) :: byte))"
    "byte_at ins (of_nat (q + 3)) = Some (ucast (of_nat (255 - ?n mod 256) :: byte))"
    "byte_at ins (of_nat (q + 4)) = Some (ucast (of_nat (255 - ?n div 256) :: byte))"
    using at [of 1] at [of 2] at [of 3] at [of 4] small [of "q + 1"] small [of "q + 2"] small [of "q + 3"] small [of "q + 4"] assms(7)
    by (simp_all add: byte_at_def stored_block_def del: of_nat_add)
  have e: "(of_nat (q + 1) :: u32) + 1 = of_nat (q + 2)" "(of_nat (q + 1) :: u32) + 2 = of_nat (q + 3)"
    "(of_nat (q + 1) :: u32) + 3 = of_nat (q + 4)" "(of_nat (q + 1) :: u32) + 4 = of_nat (q + 5)"
    "(of_nat (q + 5) :: u32) + of_nat ?n = of_nat (q + 5 + ?n)" "(of_nat pos :: u32) + of_nat ?n = of_nat (pos + ?n)"
    "(of_nat (q + 5 + ?n) :: u32) * 8 = of_nat (8 * (q + 5 + ?n))" "(of_nat (q + 5) :: u32) * 8 = of_nat (8 * (q + 5))"
    by simp_all
  have c1: "\<not> inlength - 4 \<le> (of_nat (q + 1) :: u32)"
    using small [of "q + 1"] il assms(7) by (simp add: word_le_nat_alt del: of_nat_add)
  have c2: "\<not> inlength < (of_nat (q + 5 + ?n) :: u32)"
    using small [of "q + 5 + ?n"] assms(7) by (simp add: word_less_nat_alt del: of_nat_add)
  have u: "unat (of_nat (q + 5) :: u32) = q + 5" "unat (of_nat ?n :: u32) = ?n" "unat (of_nat pos :: u32) = pos"
    "unat (of_nat (pos + ?n) :: u32) = pos + ?n"
    using small [of "q + 5"] small [of ?n] assms(4,7) word_unat_lt [of "v8_size (if_out st)"]
    by (simp_all add: unat_small del: of_nat_add)
  have n0: "(of_nat ?n :: u32) = 0 \<longleftrightarrow> xs = []"
    unfolding word_unat_eq_iff u(2) by simp
  have size: "(if v8_size (if_out st) \<le> of_nat (pos + ?n)
      then map_option snd (vector8_resize pool (if_out st) (of_nat (pos + ?n)) (if_st st)) else Some (if_out st, if_st st)) =
      Some (if_out st, if_st st)"
  proof (cases "v8_size (if_out st) \<le> of_nat (pos + ?n)")
    case True
    then have "v8_size (if_out st) = of_nat (pos + ?n)"
      using u(4) assms(4) by (simp add: word_le_nat_alt word_unat_eq_iff del: of_nat_add)
    then show ?thesis
      using resize_same [OF assms(3,4), of pool] by simp
  qed simp
  have r: "rd_range ins (q + 5) ?n = Some xs"
  proof -
    have "drop (q + 5) ins = drop 5 (drop q ins)"
      by (simp add: add.commute)
    then have "drop (q + 5) ins = xs @ rest"
      unfolding assms(1) by (simp add: stored_block_def)
    moreover have "q + 5 + ?n \<le> length ins"
      using arg_cong [OF assms(1), of length] by simp
    ultimately show ?thesis
      by (simp add: rd_range_def)
  qed
  have w: "put_bytes (v8_data (if_out st)) (if_st st) pos xs = Some (poked (if_st st) a pos b xs)"
    using assms(3,4) by (simp add: put_bytes_def vec_at_def poked_def wr_range_def)
  have "Inflator_inflateNoCompression pool ins inlength st =
    Some (st\<lparr>if_st := poked (if_st st) a pos b xs, if_bp := (of_nat (q + 1) + 4 + of_nat ?n) * 8, if_pos := if_pos st + of_nat ?n\<rparr>)"
  proof (rule stored_core [OF _ p c1 b(1) b(2) [folded e(1)] b(3) [folded e(2)] b(4) [folded e(3)] stored_len [OF assms(2)]])
    show "align_byte 7 (if_bp st) = of_nat (8 * q + 8)"
      unfolding assms(6) by (rule align)
    show "\<not> inlength < of_nat (q + 1) + 4 + of_nat ?n"
      using c2 unfolding e(4,5) .
    show "rd_range ins (unat (of_nat (q + 1) + 4 :: u32)) (unat (of_nat ?n :: u32)) = Some xs"
      unfolding e(4) u(1,2) by (rule r)
    show "put_bytes (v8_data (if_out st)) (if_st st) (unat (if_pos st)) xs = Some (poked (if_st st) a pos b xs)"
      unfolding assms(5) u(3) by (rule w)
    show "poked (if_st st) a pos b xs = if_st st" if "xs = []"
      using assms(3) that by (simp add: poked_Nil vec_at_def)
  qed (use n0 size in \<open>simp_all only: assms(5) e\<close>)
  then show ?thesis
    by (simp only: assms(5) e)
qed

fun stored_blocks :: "byte list list \<Rightarrow> byte list" where
  "stored_blocks [] = []"
| "stored_blocks [xs] = stored_block True xs"
| "stored_blocks (xs # ys # xss) = stored_block False xs @ stored_blocks (ys # xss)"

lemma vec_at_poked:
  assumes "vec_at v s a b" "pos + length xs \<le> length b"
  shows "vec_at v (poked s a pos b xs) a (take pos b @ xs @ drop (pos + length xs) b)"
  using assms by (simp add: vec_at_def poked_def)

lemma poked_twice:
  assumes "pos + length xs + length ys \<le> length b"
  shows "poked (poked s a pos b xs) a (pos + length xs) (take pos b @ xs @ drop (pos + length xs) b) ys = poked s a pos b (xs @ ys)"
  using assms by (simp add: poked_def ac_simps)

lemma stored_step:
  assumes "drop q ins = stored_block fin xs @ rest" "length xs \<le> 65535"
    and "vec_at (if_out st) (if_st st) a b" "pos + length xs \<le> unat (v8_size (if_out st))"
    and "if_pos st = of_nat pos" "if_bp st = of_nat (8 * q)" "Inflator_error st = 0"
    and "q + 5 + length xs < unat inlength" "8 * unat inlength < 2 ^ 32"
    and st': "st' = st\<lparr>if_st := poked (if_st st) a pos b xs, if_bp := of_nat (8 * (q + 5 + length xs)), if_pos := of_nat (pos + length xs)\<rparr>"
  shows "inflate_blocks (Suc F) pool ins inlength st = (if fin then Some st' else inflate_blocks F pool ins inlength st')"
proof -
  have q: "8 * q + 3 < 2 ^ 32" "q < unat inlength"
    using assms(8,9) by simp_all
  have hd: "ins ! q = (if fin then 1 else 0)" "q < length ins"
  proof -
    show "q < length ins"
      using arg_cong [OF assms(1), of length] by simp
    then have "ins ! q = drop q ins ! 0"
      by simp
    then show "ins ! q = (if fin then 1 else 0)"
      unfolding assms(1) by (simp add: stored_block_def)
  qed
  have bits: "Zlib_readBitFromStream (of_nat (8 * q)) ins = Some (of_bool fin, of_nat (8 * q + 1))"
    "Zlib_readBitFromStream (of_nat (8 * q + 1)) ins = Some (0, of_nat (8 * q + 2))"
    "Zlib_readBitFromStream (of_nat (8 * q + 2)) ins = Some (0, of_nat (8 * q + 3))"
  proof -
    have d: "(8 * q + 1) div 8 = q" "(8 * q + 2) div 8 = q" "(8 * q + 1) mod 8 = 1" "(8 * q + 2) mod 8 = 2"
      by presburger+
    show "Zlib_readBitFromStream (of_nat (8 * q)) ins = Some (of_bool fin, of_nat (8 * q + 1))"
      using read_bit_at [of "8 * q" ins] q(1) hd by simp
    show "Zlib_readBitFromStream (of_nat (8 * q + 1)) ins = Some (0, of_nat (8 * q + 2))"
      "Zlib_readBitFromStream (of_nat (8 * q + 2)) ins = Some (0, of_nat (8 * q + 3))"
      using read_bit_at [of "8 * q + 1" ins] read_bit_at [of "8 * q + 2" ins] q(1) hd
      by (simp_all only: d) (simp_all add: bit_1_iff)
  qed
  have "unat (drop_bit 3 (of_nat (8 * q) :: u32)) = q"
    using drop3 [of "8 * q"] q(1) by simp
  then have c: "\<not> inlength \<le> drop_bit 3 (of_nat (8 * q) :: u32)"
    using q(2) by (simp add: word_le_nat_alt)
  have data: "Inflator_inflateNoCompression pool ins inlength (st\<lparr>if_bp := of_nat (8 * q + 3)\<rparr>) = Some st'"
    using stored_data [OF assms(1,2), of "st\<lparr>if_bp := of_nat (8 * q + 3)\<rparr>" a b pos inlength pool] assms(3-5,8,9)
    by (simp add: st' del: of_nat_add)
  obtain w1 w2 w3 where w:
    "Zlib_readBitFromStream (of_nat (8 * q)) ins = Some (of_bool fin, w1)"
    "Zlib_readBitFromStream w1 ins = Some (0, w2)" "Zlib_readBitFromStream w2 ins = Some (0, w3)"
    "Inflator_inflateNoCompression pool ins inlength (st\<lparr>if_bp := w3\<rparr>) = Some st'"
    using bits data by blast
  have "Inflator_error st' = 0"
    using assms(7) by (simp add: st')
  then show ?thesis
    unfolding inflate_blocks.simps assms(6) using c by (simp add: w Let_def del: of_nat_mult)
qed

lemma stored_all:
  assumes "xss \<noteq> []" "drop q ins = stored_blocks xss @ rest" "\<forall>xs \<in> set xss. length xs \<le> 65535"
    and "vec_at (if_out st) (if_st st) a b" "pos + length (concat xss) \<le> unat (v8_size (if_out st))"
    and "if_pos st = of_nat pos" "if_bp st = of_nat (8 * q)" "Inflator_error st = 0"
    and "q + length (stored_blocks xss) < unat inlength" "8 * unat inlength < 2 ^ 32" "length xss \<le> F"
  shows "\<exists>bp. inflate_blocks F pool ins inlength st =
    Some (st\<lparr>if_st := poked (if_st st) a pos b (concat xss), if_bp := bp, if_pos := of_nat (pos + length (concat xss))\<rparr>)"
  using assms
proof (induction xss arbitrary: q st b pos F rule: stored_blocks.induct)
  case (2 xs)
  obtain G where F: "F = Suc G"
    using 2(11) by (cases F) auto
  show ?case
    using stored_step [of q ins True xs rest st a b pos inlength _ G pool, OF _ _ 2(4) _ 2(6,7,8) _ 2(10) refl] 2(2,3,5,9)
    by (auto simp: F)
next
  case (3 xs ys xss)
  obtain G where F: "F = Suc G" "length (ys # xss) \<le> G"
    using 3(12) by (cases F) auto
  let ?n = "length xs" and ?r = "concat (ys # xss)"
  let ?st = "st\<lparr>if_st := poked (if_st st) a pos b xs, if_bp := of_nat (8 * (q + 5 + ?n)), if_pos := of_nat (pos + ?n)\<rparr>"
  let ?b = "take pos b @ xs @ drop (pos + ?n) b"
  have room: "pos + ?n + length ?r \<le> length b"
    using 3(5,6) by (auto simp: vec_at_def)
  have step: "inflate_blocks F pool ins inlength st = inflate_blocks G pool ins inlength ?st"
    using stored_step [of q ins False xs "stored_blocks (ys # xss) @ rest" st a b pos inlength ?st G pool] 3(3-11)
    by (simp add: F(1) del: of_nat_add of_nat_mult)
  have "drop (q + 5 + ?n) ins = drop (length (stored_block False xs)) (drop q ins)"
    by (simp add: stored_block_def del: One_nat_def) (simp add: eval_nat_numeral ac_simps)
  also have "\<dots> = stored_blocks (ys # xss) @ rest"
    unfolding 3(3) by simp
  finally have rest: "drop (q + 5 + ?n) ins = stored_blocks (ys # xss) @ rest" .
  have "\<exists>bp. inflate_blocks G pool ins inlength ?st =
      Some (?st\<lparr>if_st := poked (if_st ?st) a (pos + ?n) ?b ?r, if_bp := bp, if_pos := of_nat (pos + ?n + length ?r)\<rparr>)"
  proof (rule 3(1) [OF _ rest])
    show "vec_at (if_out ?st) (if_st ?st) a ?b"
      using vec_at_poked [OF 3(5)] room by simp
  qed (use 3(4,6,9-11) F(2) in \<open>simp_all add: add.assoc del: of_nat_add of_nat_mult\<close>)
  then show ?case
    unfolding step using poked_twice [of pos xs ?r b "if_st st" a] room by (auto simp: add.assoc)
qed simp

text \<open>C25. The decompressor inverts the storing of data: for every sequence of stored blocks, with the zlib
  header before and the check sum after them, the output is the data of the blocks, the rest of memory is
  unchanged, and no access is out of bounds, whenever the output vector has room for the data.\<close>

theorem png_stored_roundtrip:
  assumes "xss \<noteq> []" "\<forall>xs \<in> set xss. length xs \<le> 65535" "length adler = 4"
    and "z = [0x78, 0x01] @ stored_blocks xss @ adler" "8 * length z < 2 ^ 32"
    and "v8_data src = Some c" "ps_heap s c = Some (z @ junk)" "v8_size src = of_nat (length z)"
    and "vec_at out s a b" "length (concat xss) \<le> unat (v8_size out)" "length xss \<le> F"
  shows "Zlib_decompress F pool out src s =
    Some (0, out\<lparr>v8_size := of_nat (length (concat xss))\<rparr>, s\<lparr>ps_heap := (ps_heap s)(a \<mapsto> concat xss @ drop (length (concat xss)) b)\<rparr>)"
proof -
  let ?n = "length (concat xss)"
  let ?st = "\<lparr>if_out = out, if_st = s, if_bp = 0, if_pos = 0, Inflator_error = 0\<rparr>"
  have size: "unat (v8_size src) = length z"
    unfolding assms(8) using assms(5) by (intro unat_small) simp
  have dr: "drop 2 (z @ junk) = stored_blocks xss @ adler @ junk"
    by (simp add: assms(4))
  obtain bp where "inflate_blocks F pool (drop 2 (z @ junk)) (v8_size src) ?st =
      Some (?st\<lparr>if_st := poked s a 0 b (concat xss), if_bp := bp, if_pos := of_nat ?n\<rparr>)"
    using stored_all [of xss 0 "drop 2 (z @ junk)" "adler @ junk" ?st a b 0 "v8_size src" F pool] assms size dr by auto
  moreover have "vec_at out (poked s a 0 b (concat xss)) a (concat xss @ drop ?n b)"
    using vec_at_poked [OF assms(9), of 0 "concat xss"] assms(9,10) by (simp add: vec_at_def)
  ultimately have inf: "Inflator_inflate F pool out src 2 s =
      Some (0, out\<lparr>v8_size := of_nat ?n\<rparr>, poked s a 0 b (concat xss))"
    using resize_same [of out "poked s a 0 b (concat xss)" a "concat xss @ drop ?n b" ?n pool] assms(6,7,10)
    by (simp add: Inflator_inflate_def)
  have "\<not> v8_size src < 2"
    using size assms(4) by (simp add: word_less_nat_alt)
  moreover have "v8_get src s 0 = Some 0x78" "v8_get src s 1 = Some 1"
    using assms(4,6,7) by (simp_all add: v8_get_def)
  ultimately show ?thesis
    unfolding Zlib_decompress_def using inf by (simp add: poked_def)
qed

lemma png_stored_roundtrip_witness:
  "Zlib_decompress 2 (\<lambda>n. True) \<lparr>v8_data = Some 1, v8_size = 4, v8_allocsize = 16\<rparr> \<lparr>v8_data = Some 2, v8_size = 18, v8_allocsize = 20\<rparr>
     \<lparr>ps_heap = [1 \<mapsto> replicate 16 9, 2 \<mapsto> [0x78, 1, 0, 2, 0, 253, 255, 5, 6, 1, 0, 0, 255, 255, 0, 0, 0, 1, 7, 7]], ps_next = 3, ps_nodes = []\<rparr> =
   Some (0, \<lparr>v8_data = Some 1, v8_size = 2, v8_allocsize = 16\<rparr>,
     \<lparr>ps_heap = [1 \<mapsto> 5 # 6 # replicate 14 9, 2 \<mapsto> [0x78, 1, 0, 2, 0, 253, 255, 5, 6, 1, 0, 0, 255, 255, 0, 0, 0, 1, 7, 7]], ps_next = 3, ps_nodes = []\<rparr>)"
proof -
  let ?z = "[0x78, 1, 0, 2, 0, 253, 255, 5, 6, 1, 0, 0, 255, 255, 0, 0, 0, 1] :: byte list"
  let ?s = "\<lparr>ps_heap = [1 \<mapsto> replicate 16 9, 2 \<mapsto> ?z @ [7, 7]], ps_next = 3, ps_nodes = []\<rparr>"
  have "Zlib_decompress 2 (\<lambda>n. True) \<lparr>v8_data = Some 1, v8_size = 4, v8_allocsize = 16\<rparr> \<lparr>v8_data = Some 2, v8_size = 18, v8_allocsize = 20\<rparr> ?s =
    Some (0, \<lparr>v8_data = Some 1, v8_size = 4, v8_allocsize = 16\<rparr>\<lparr>v8_size := of_nat (length (concat [[5 :: byte, 6], []]))\<rparr>,
      ?s\<lparr>ps_heap := (ps_heap ?s)(1 \<mapsto> concat [[5, 6], []] @ drop (length (concat [[5 :: byte, 6], []])) (replicate 16 9))\<rparr>)"
    by (rule png_stored_roundtrip [where adler = "[0, 0, 0, 1]" and c = 2 and z = ?z and junk = "[7, 7]"])
      (simp_all add: stored_block_def vec_at_def)
  moreover have "(ps_heap ?s)(1 \<mapsto> concat [[5, 6], []] @ drop (length (concat [[5 :: byte, 6], []])) (replicate 16 9)) =
      [1 \<mapsto> 5 # 6 # replicate 14 9, 2 \<mapsto> ?z @ [7, 7]]"
    by (rule ext) (simp add: fun_upd_def)
  ultimately show ?thesis
    by (simp del: fun_upd_apply replicate.simps)
qed

section \<open>Conversion\<close>

definition grey_demo :: png_info where
  "grey_demo = \<lparr>pg_width = 2, pg_height = 1, colorType = 0, bitDepth = 8, compressionMethod = 0, filterMethod = 0,
     interlaceMethod = 0, key_r = 0, key_g = 0, key_b = 0, key_defined = False, palette = vector8_init, image_v = vector8_init\<rparr>"

definition opaque :: "png_info \<Rightarrow> byte \<Rightarrow> byte list" where
  "opaque g x = [x, x, x, grey_alpha (key_defined g \<and> ucast x = key_r g)]"

lemma length_opaque [simp]: "length (concat (map (opaque g) xs)) = 4 * length xs"
  by (induction xs) (simp_all add: opaque_def)

lemma grey8_loop:
  assumes "bitDepth g = 8" "colorType g = 0" "a \<noteq> c" "ps_heap s a = Some b" "ps_heap s c = Some data"
    and "4 * (i + k) \<le> length b" "i + k \<le> length data" "4 * (i + k) < 2 ^ 32"
  shows "convert_loop k (of_nat i) bp g (Some a) (Some c, 0) s =
    Some (0, poked s a (4 * i) b (concat (map (opaque g) (take k (drop i data)))))"
  using assms(4-)
proof (induction k arbitrary: i s b)
  case 0
  then show ?case
    by (simp add: poked_Nil)
next
  case (Suc k)
  have i: "unat (of_nat i :: u32) = i" "unat (4 * of_nat i :: u32) = 4 * i"
    using Suc.prems(5) unat_small [of i] unat_small [of "4 * i"] by simp_all
  let ?px = "opaque g (data ! i)"
  have pix: "convert_pixel g s (Some c, 0) (of_nat i) bp = Some (Inr ?px, bp)"
    using Suc.prems assms(1,2) by (simp add: convert_pixel_def pget_def i opaque_def)
  have put: "put_bytes (Some a) s (unat (4 * of_nat i :: u32)) ?px = Some (poked s a (4 * i) b ?px)"
    using Suc.prems by (simp add: put_bytes_def i wr_range_def poked_def opaque_def)
  let ?b = "take (4 * i) b @ ?px @ drop (4 * i + length ?px) b"
  have l: "length ?px = 4"
    by (simp add: opaque_def)
  have "convert_loop k (of_nat (i + 1)) bp g (Some a) (Some c, 0) (poked s a (4 * i) b ?px) =
      Some (0, poked (poked s a (4 * i) b ?px) a (4 * (i + 1)) ?b (concat (map (opaque g) (take k (drop (i + 1) data)))))"
    using Suc.prems assms(3) l by (intro Suc.IH) (simp_all add: poked_def)
  also have "poked (poked s a (4 * i) b ?px) a (4 * (i + 1)) ?b (concat (map (opaque g) (take k (drop (i + 1) data)))) =
      poked s a (4 * i) b (?px @ concat (map (opaque g) (take k (drop (i + 1) data))))"
    using poked_twice [of "4 * i" ?px "concat (map (opaque g) (take k (drop (i + 1) data)))" b s a] Suc.prems l
    by (simp add: algebra_simps)
  also have "?px @ concat (map (opaque g) (take k (drop (i + 1) data))) = concat (map (opaque g) (take (Suc k) (drop i data)))"
    using Suc.prems(4) by (simp add: Cons_nth_drop_Suc [symmetric])
  finally show ?case
    by (simp add: pix put add.commute) (simp add: opaque_def)
qed

lemma resize_grow:
  assumes "v8_data v = Some a" "unat (v8_allocsize v) < 4 * n" "8 * n < 2 ^ 32" "ps_next s \<noteq> a"
    and "\<And>k. pool k" "png_alloc_find_node (Some a) s = Some nd" "png_alloc_find_node (Some (ps_next s)) s = None"
  shows "vector8_resize pool v (of_nat n) s =
    Some (True, \<lparr>v8_data = Some (ps_next s), v8_size = of_nat n, v8_allocsize = of_nat (8 * n)\<rparr>,
      s\<lparr>ps_heap := (ps_heap s)(ps_next s \<mapsto> replicate (8 * n) 0), ps_next := ps_next s + 1,
        ps_nodes := remove1 nd (ps_nodes s) @ [(Some (ps_next s), of_nat (8 * n))]\<rparr>)"
proof -
  have u: "unat (of_nat n :: u32) = n" "unat (of_nat (n * 4 * 2) :: u32) = 8 * n" "unat (of_nat (n * 8) :: u32) = n * 8"
    using assms(3) unat_small [of n] unat_small [of "8 * n"] by (simp_all add: mult.commute)
  have "\<forall>m \<in> set (ps_nodes s). fst m \<noteq> Some (ps_next s)"
    using assms(7) by (auto simp: png_alloc_find_node_def find_None_iff)
  then have "find (\<lambda>m. fst m = Some (ps_next s)) (remove1 nd (ps_nodes s)) = None"
    using set_remove1_subset [of nd "ps_nodes s"] by (simp only: find_None_iff) blast
  then show ?thesis
    using assms unfolding vector8_resize_def Let_def u
    by (simp add: png_alloc_realloc_def AllocateZeroPool_def png_alloc_find_node_def png_alloc_remove_node_def
      png_alloc_add_node_def u mult.commute del: of_nat_mult)
qed


lemma find_remove1:
  assumes "distinct (map fst xs)" "find (\<lambda>m. fst m = a) xs = Some nd"
  shows "find (\<lambda>m. fst m = a) (remove1 nd xs) = None"
  using assms
proof (induction xs)
  case (Cons x xs)
  have "fst nd = a"
    using Cons.prems(2) unfolding find_Some_iff by auto
  then show ?case
    using Cons by (cases "fst x = a") (auto simp: find_None_iff image_iff)
qed simp

text \<open>An image of 8-bit greyscale pixels is lost. \<open>PNG_convert\<close> keeps the pointer to the old buffer, and the
  resize gives the vector a new one without its content: the converted pixels go to the old buffer, which is
  in no list any more, so that nothing will free it, and the buffer of the resulting image is all zero.\<close>

theorem png_grey8_is_lost:
  assumes "bitDepth g = 8" "colorType g = 0" "pg_width g * pg_height g = of_nat n" "0 < n" "32 * n < 2 ^ 32"
    and "v8_data out = Some a" "v8_size out = of_nat n" "unat (v8_allocsize out) = 8 * n"
    and "ps_heap s a = Some b" "length b = 8 * n" "ps_heap s c = Some data" "n \<le> length data"
    and "distinct [a, c, ps_next s]" "\<And>k. pool k" "distinct (map fst (ps_nodes s))"
    and "png_alloc_find_node (Some a) s \<noteq> None" "png_alloc_find_node (Some (ps_next s)) s = None"
  shows "\<exists>out1 s1. PNG_convert pool g out (Some c, 0) s = Some (0, out1, s1) \<and>
    v8_size out1 = of_nat (4 * n) \<and> v8_data out1 = Some (ps_next s) \<and> ps_heap s1 (ps_next s) = Some (replicate (32 * n) 0) \<and>
    ps_heap s1 a = Some (concat (map (opaque g) (take n data)) @ drop (4 * n) b) \<and> png_alloc_find_node (Some a) s1 = None"
proof -
  obtain nd where nd: "png_alloc_find_node (Some a) s = Some nd"
    using assms(16) by blast
  let ?s = "s\<lparr>ps_heap := (ps_heap s)(ps_next s \<mapsto> replicate (8 * (4 * n)) 0), ps_next := ps_next s + 1,
    ps_nodes := remove1 nd (ps_nodes s) @ [(Some (ps_next s), of_nat (8 * (4 * n)))]\<rparr>"
  have grow: "vector8_resize pool out (of_nat (4 * n)) s =
      Some (True, \<lparr>v8_data = Some (ps_next s), v8_size = of_nat (4 * n), v8_allocsize = of_nat (8 * (4 * n))\<rparr>, ?s)"
    using assms nd by (intro resize_grow) auto
  have loop: "convert_loop n (of_nat 0) 0 g (Some a) (Some c, 0) ?s =
      Some (0, poked ?s a (4 * 0) b (concat (map (opaque g) (take n (drop 0 data)))))"
    using assms by (intro grey8_loop) simp_all
  have "unat (of_nat n :: u32) = n"
    using assms(5) by (intro unat_small) simp
  then have "v8_size out \<noteq> 0" "unat (pg_width g * pg_height g) = n"
    using assms(3,4,7) by auto
  moreover have "png_alloc_find_node (Some a) ?s = None"
    using find_remove1 [OF assms(15), of "Some a" nd] nd assms(13) unfolding png_alloc_find_node_def find_None_iff by auto
  ultimately show ?thesis
    using grow loop assms(3,6,12,13) by (simp add: PNG_convert_def Let_def poked_def png_alloc_find_node_def mult.commute)
qed


lemma png_grey8_is_lost_witness:
  "\<exists>out1 s1. PNG_convert (\<lambda>k. True) grey_demo \<lparr>v8_data = Some 1, v8_size = 2, v8_allocsize = 16\<rparr> (Some 2, 0)
     \<lparr>ps_heap = [1 \<mapsto> replicate 16 0, 2 \<mapsto> [65, 66]], ps_next = 3, ps_nodes = [(Some 1, 16), (Some 2, 8)]\<rparr> = Some (0, out1, s1) \<and>
     v8_data out1 = Some 3 \<and> ps_heap s1 3 = Some (replicate 64 0)"
  using png_grey8_is_lost [of grey_demo 2 "\<lparr>v8_data = Some 1, v8_size = 2, v8_allocsize = 16\<rparr>" 1
      "\<lparr>ps_heap = [1 \<mapsto> replicate 16 0, 2 \<mapsto> [65, 66]], ps_next = 3, ps_nodes = [(Some 1, 16), (Some 2, 8)]\<rparr>"
      "replicate 16 0" 2 "[65, 66]" "\<lambda>k. True"]
  by (auto simp: grey_demo_def png_alloc_find_node_def simp del: replicate.simps)

lemma put_bytes_length:
  assumes "put_bytes (Some a) s i xs = Some s'" "ps_heap s a = Some b"
  shows "i + length xs \<le> length b \<and> (\<exists>b'. ps_heap s' a = Some b' \<and> length b' = length b)"
  using assms by (auto simp: put_bytes_def wr_range_eq_Some split: bind_splits if_splits)

lemma grey_bits_pixel:
  assumes "bitDepth g < 8" "colorType g = 0" "convert_pixel g s ins i bp = Some (r, bp1)"
  shows "\<exists>xs. r = Inr xs \<and> length xs = 4"
proof -
  have "bitDepth g \<noteq> 8" "bitDepth g \<noteq> 16"
    using assms(1) by auto
  then show ?thesis
    using assms(3) unfolding convert_pixel_def Let_def assms(2) by (auto simp: assms(1) bind_eq_Some_conv split: if_splits)
qed

lemma grey_bits_loop:
  assumes "bitDepth g < 8" "colorType g = 0" "ps_heap s a = Some b" "length b < 4 * (i + k)" "4 * (i + k) < 2 ^ 32"
    and "4 * i \<le> length b"
  shows "convert_loop k (of_nat i) bp g (Some a) ins s = None"
  using assms(3-)
proof (induction k arbitrary: i bp s b)
  case (Suc k)
  show ?case
  proof (rule ccontr)
    assume "convert_loop (Suc k) (of_nat i) bp g (Some a) ins s \<noteq> None"
    then obtain xs bp1 s1 where pix: "convert_pixel g s ins (of_nat i) bp = Some (Inr xs, bp1)" and l: "length xs = 4"
      and put: "put_bytes (Some a) s (unat (4 * of_nat i :: u32)) xs = Some s1"
      and rest: "convert_loop k (of_nat i + 1) bp1 g (Some a) ins s1 \<noteq> None"
      using grey_bits_pixel [OF assms(1,2), of s ins "of_nat i" bp]
      by (cases "convert_pixel g s ins (of_nat i) bp") (auto simp: bind_eq_Some_conv add.commute split: if_splits)
    have "unat (4 * of_nat i :: u32) = 4 * i"
      using Suc.prems(3) unat_small [of "4 * i"] by simp
    then obtain b' where "4 * i + 4 \<le> length b" "ps_heap s1 a = Some b'" "length b' = length b"
      using put_bytes_length [OF put Suc.prems(1)] l by auto
    then have "convert_loop k (of_nat (i + 1)) bp1 g (Some a) ins s1 = None"
      using Suc.prems by (intro Suc.IH [of s1 b']) simp_all
    then show False
      using rest by (simp add: add.commute)
  qed
qed simp

text \<open>C26. A greyscale image of 1 or 2 bits per pixel is written out of bounds. The image vector has 8 bytes for
  each byte of packed pixels, and the conversion writes 4 bytes per pixel to that old buffer: as soon as there
  are 3 pixels of 1 bit, or 4 of 2 bits, that is more than its length.\<close>

theorem png_grey_bits_overflow:
  assumes "colorType g = 0" "bitDepth g = of_nat d" "d = 1 \<and> 3 \<le> n \<or> d = 2 \<and> 4 \<le> n"
    and "pg_width g * pg_height g = of_nat n" "32 * n < 2 ^ 32"
    and "v8_data out = Some a" "v8_size out = of_nat ((n * d + 7) div 8)" "unat (v8_allocsize out) = 8 * ((n * d + 7) div 8)"
    and "ps_heap s a = Some b" "length b = 8 * ((n * d + 7) div 8)" "ps_next s \<noteq> a"
    and "\<And>k. pool k" "png_alloc_find_node (Some a) s \<noteq> None" "png_alloc_find_node (Some (ps_next s)) s = None"
  shows "vector8_resize pool out (of_nat (4 * n)) s \<noteq> None \<and> PNG_convert pool g out ins s = None"
proof -
  obtain nd where nd: "png_alloc_find_node (Some a) s = Some nd"
    using assms(13) by blast
  let ?s = "s\<lparr>ps_heap := (ps_heap s)(ps_next s \<mapsto> replicate (8 * (4 * n)) 0), ps_next := ps_next s + 1,
    ps_nodes := remove1 nd (ps_nodes s) @ [(Some (ps_next s), of_nat (8 * (4 * n)))]\<rparr>"
  have small: "8 * ((n * d + 7) div 8) < 4 * n"
    using assms(3) by auto
  have grow: "vector8_resize pool out (of_nat (4 * n)) s =
      Some (True, \<lparr>v8_data = Some (ps_next s), v8_size = of_nat (4 * n), v8_allocsize = of_nat (8 * (4 * n))\<rparr>, ?s)"
    using assms nd small by (intro resize_grow) auto
  have "bitDepth g < 8"
    using assms(2,3) by auto
  then have loop: "convert_loop n (of_nat 0) 0 g (Some a) ins ?s = None"
    using assms small by (intro grey_bits_loop) auto
  have "unat (of_nat n :: u32) = n"
    using assms(5) by (intro unat_small) simp
  moreover have "v8_size out \<noteq> 0"
  proof -
    have "unat (v8_size out) = (n * d + 7) div 8"
      unfolding assms(7) using small assms(5) by (intro unat_small) simp
    then show ?thesis
      using assms(3) by auto
  qed
  ultimately show ?thesis
    using grow loop assms(4,6) by (simp add: PNG_convert_def Let_def mult.commute)
qed

lemma png_grey_bits_overflow_witness:
  "PNG_convert (\<lambda>k. True) (grey_demo\<lparr>bitDepth := 1, pg_width := 3\<rparr>) \<lparr>v8_data = Some 1, v8_size = 1, v8_allocsize = 8\<rparr> (Some 2, 0)
     \<lparr>ps_heap = [1 \<mapsto> replicate 8 0, 2 \<mapsto> [224]], ps_next = 3, ps_nodes = [(Some 1, 8), (Some 2, 8)]\<rparr> = None"
  using png_grey_bits_overflow [of "grey_demo\<lparr>bitDepth := 1, pg_width := 3\<rparr>" 1 3 "\<lparr>v8_data = Some 1, v8_size = 1, v8_allocsize = 8\<rparr>" 1
      "\<lparr>ps_heap = [1 \<mapsto> replicate 8 0, 2 \<mapsto> [224]], ps_next = 3, ps_nodes = [(Some 1, 8), (Some 2, 8)]\<rparr>"
      "replicate 8 0" "\<lambda>k. True" "(Some 2, 0)"]
  by (simp add: grey_demo_def png_alloc_find_node_def del: replicate.simps)

end
