(* ===== verification/UsbDesc.thy ===== *)
theory UsbDesc
  imports Prelude
begin

text \<open>
  \<^verbatim>\<open>Speedup/Bus/Usb/UsbBusDxe/UsbDesc.c\<close>, first part: the descriptors of a USB device. A configuration arrives
  as one buffer of variable-length records and is parsed into linked structures in the pool.

  The heap maps an address to a structure. The descriptor inside a structure is its list of bytes, as
  \<open>CopyMem\<close> fills it; a list of pointers is an object of its own. \<open>AllocateZeroPool\<close> gives a fresh address, if
  the parameter \<open>pool\<close> serves the request of this number. Lengths are below 2^17, so that \<open>UINTN\<close> does not
  wrap; they are natural numbers. \<open>None\<close> is an access out of bounds or through NULL, or a double free.
\<close>

type_synonym ptr = nat

datatype uobj =
    EpDesc "byte list" byte
  | Ptrs "ptr option list"
  | Setting "byte list" "ptr option"
  | IfDesc "ptr option list" nat nat
  | Config "byte list" "ptr option"
  | DevDesc "byte list" "ptr option"
  | Bytes "byte list"

record ust =
  us_heap :: "ptr \<Rightarrow> uobj option"
  us_next :: ptr

definition upd :: "ptr \<Rightarrow> uobj \<Rightarrow> ust \<Rightarrow> ust" where
  "upd a x s = s\<lparr>us_heap := (us_heap s)(a \<mapsto> x)\<rparr>"

definition AllocPool :: "(nat \<Rightarrow> bool) \<Rightarrow> uobj \<Rightarrow> ust \<Rightarrow> ptr option \<times> ust" where
  "AllocPool pool x s =
     (if pool (us_next s) then (Some (us_next s), upd (us_next s) x (s\<lparr>us_next := us_next s + 1\<rparr>))
      else (None, s\<lparr>us_next := us_next s + 1\<rparr>))"

definition FreePtr :: "ptr \<Rightarrow> ust \<Rightarrow> ust option" where
  "FreePtr a s = (if us_heap s a = None then None else Some (s\<lparr>us_heap := (us_heap s)(a := None)\<rparr>))"

definition ptr_at :: "ptr \<Rightarrow> nat \<Rightarrow> ust \<Rightarrow> ptr option option" where
  "ptr_at a i s = (case us_heap s a of Some (Ptrs ps) \<Rightarrow> rd ps i | _ \<Rightarrow> None)"

definition set_ptr :: "ptr \<Rightarrow> nat \<Rightarrow> ptr \<Rightarrow> ust \<Rightarrow> ust option" where
  "set_ptr a i p s =
     (case us_heap s a of Some (Ptrs ps) \<Rightarrow> map_option (\<lambda>ps'. upd a (Ptrs ps') s) (wr ps i (Some p)) | _ \<Rightarrow> None)"

text \<open>The fields of the descriptors that the code uses.\<close>

definition NumEndpoints :: "byte list \<Rightarrow> nat" where "NumEndpoints raw = unat (raw ! 4)"
definition InterfaceNumber :: "byte list \<Rightarrow> nat" where "InterfaceNumber raw = unat (raw ! 2)"
definition AlternateSetting :: "byte list \<Rightarrow> byte" where "AlternateSetting raw = raw ! 3"
definition NumInterfaces :: "byte list \<Rightarrow> nat" where "NumInterfaces raw = unat (raw ! 4)"
definition ConfigurationValue :: "byte list \<Rightarrow> byte" where "ConfigurationValue raw = raw ! 5"
definition NumConfigurations :: "byte list \<Rightarrow> nat" where "NumConfigurations raw = unat (raw ! 17)"

definition USB_DESC_TYPE_DEVICE :: byte where "USB_DESC_TYPE_DEVICE = 1"
definition USB_DESC_TYPE_CONFIG :: byte where "USB_DESC_TYPE_CONFIG = 2"
definition USB_DESC_TYPE_STRING :: byte where "USB_DESC_TYPE_STRING = 3"
definition USB_DESC_TYPE_INTERFACE :: byte where "USB_DESC_TYPE_INTERFACE = 4"
definition USB_DESC_TYPE_ENDPOINT :: byte where "USB_DESC_TYPE_ENDPOINT = 5"

definition USB_MAX_INTERFACE_SETTING :: nat where "USB_MAX_INTERFACE_SETTING = 256"

section \<open>Release\<close>

fun free_ptrs :: "(ptr \<Rightarrow> ust \<Rightarrow> ust option) \<Rightarrow> nat \<Rightarrow> nat \<Rightarrow> ptr \<Rightarrow> ust \<Rightarrow> ust option" where
  "free_ptrs fr 0 i arr s = Some s"
| "free_ptrs fr (Suc k) i arr s =
     do {
       p \<leftarrow> ptr_at arr i s;
       s1 \<leftarrow> (case p of None \<Rightarrow> Some s | Some a \<Rightarrow> fr a s);
       free_ptrs fr k (i + 1) arr s1 }"

definition UsbFreeInterfaceDesc :: "ptr \<Rightarrow> ust \<Rightarrow> ust option" where
  "UsbFreeInterfaceDesc a s =
     (case us_heap s a of
        Some (Setting raw eps) \<Rightarrow>
          do {
            s1 \<leftarrow>
              (case eps of
                 None \<Rightarrow> Some s
               | Some e \<Rightarrow>
                   do {
                     s1 \<leftarrow> free_ptrs FreePtr (NumEndpoints raw) 0 e s;
                     if NumEndpoints raw > 0 then FreePtr e s1 else Some s1 });
            FreePtr a s1 }
      | _ \<Rightarrow> None)"

text \<open>The settings of an interface are an array inside its structure.\<close>

fun free_settings :: "nat \<Rightarrow> nat \<Rightarrow> ptr \<Rightarrow> ust \<Rightarrow> ust option" where
  "free_settings 0 i a s = Some s"
| "free_settings (Suc k) i a s =
     (case us_heap s a of
        Some (IfDesc ps n act) \<Rightarrow>
          do {
            p \<leftarrow> rd ps i;
            s1 \<leftarrow> (case p of None \<Rightarrow> Some s | Some x \<Rightarrow> UsbFreeInterfaceDesc x s);
            free_settings k (i + 1) a s1 }
      | _ \<Rightarrow> None)"

definition free_interface :: "ptr \<Rightarrow> ust \<Rightarrow> ust option" where
  "free_interface a s =
     (case us_heap s a of
        Some (IfDesc ps n act) \<Rightarrow> do { s1 \<leftarrow> free_settings n 0 a s; FreePtr a s1 }
      | _ \<Rightarrow> None)"

definition UsbFreeConfigDesc :: "ptr \<Rightarrow> ust \<Rightarrow> ust option" where
  "UsbFreeConfigDesc a s =
     (case us_heap s a of
        Some (Config raw ifs) \<Rightarrow>
          do {
            s1 \<leftarrow>
              (case ifs of
                 None \<Rightarrow> Some s
               | Some arr \<Rightarrow> do { s1 \<leftarrow> free_ptrs free_interface (NumInterfaces raw) 0 arr s; FreePtr arr s1 });
            FreePtr a s1 }
      | _ \<Rightarrow> None)"

definition UsbFreeDevDesc :: "ptr \<Rightarrow> ust \<Rightarrow> ust option" where
  "UsbFreeDevDesc a s =
     (case us_heap s a of
        Some (DevDesc raw cfgs) \<Rightarrow>
          do {
            s1 \<leftarrow>
              (case cfgs of
                 None \<Rightarrow> Some s
               | Some arr \<Rightarrow> do { s1 \<leftarrow> free_ptrs UsbFreeConfigDesc (NumConfigurations raw) 0 arr s; FreePtr arr s1 });
            FreePtr a s1 }
      | _ \<Rightarrow> None)"

section \<open>Parsing\<close>

text \<open>The length of a descriptor of a type, and the structure that is made from it.\<close>

definition desc_len :: "byte \<Rightarrow> nat" where
  "desc_len ty =
     (if ty = USB_DESC_TYPE_DEVICE then 18 else if ty = USB_DESC_TYPE_CONFIG then 9
      else if ty = USB_DESC_TYPE_INTERFACE then 9 else if ty = USB_DESC_TYPE_ENDPOINT then 7 else 0)"

definition desc_obj :: "byte \<Rightarrow> byte list \<Rightarrow> uobj" where
  "desc_obj ty raw =
     (if ty = USB_DESC_TYPE_DEVICE then DevDesc raw None else if ty = USB_DESC_TYPE_CONFIG then Config raw None
      else if ty = USB_DESC_TYPE_INTERFACE then Setting raw None else EpDesc raw 0)"

text \<open>The loop over the records: the offset of the first of type \<open>ty\<close>, or the end; \<open>Some None\<close> as the code returns NULL.
  The buffer of the call starts at \<open>base\<close> and has \<open>len\<close> bytes.\<close>

function skip_to :: "byte list \<Rightarrow> nat \<Rightarrow> nat \<Rightarrow> byte \<Rightarrow> nat \<Rightarrow> nat option option" where
  "skip_to buf base len ty off =
     (if \<not> off < len then Some (Some off)
      else
        (case rd buf (base + off + 1) of
           None \<Rightarrow> None
         | Some t \<Rightarrow>
             if t = ty then Some (Some off)
             else
               (case rd buf (base + off) of
                  None \<Rightarrow> None
                | Some l \<Rightarrow>
                    if len \<le> off + unat l then Some None
                    else
                      (case rd buf (base + (off + unat l)) of
                         None \<Rightarrow> None
                       | Some l1 \<Rightarrow> if l1 = 0 then Some None else skip_to buf base len ty (off + unat l)))))"
  by pat_completeness auto
termination
proof (relation "measure (\<lambda>(buf, base, len, ty, off). len - off)", simp)
  fix buf :: "byte list" and base len off :: nat and ty t l l1 :: byte
  assume "\<not> \<not> off < len" "rd buf (base + off) = Some l" "\<not> len \<le> off + unat l"
    and next_len: "rd buf (base + (off + unat l)) = Some l1" "l1 \<noteq> 0"
  moreover from this have "unat l \<noteq> 0"
    by (auto simp: unat_eq_zero)
  ultimately show "((buf, base, len, ty, off + unat l), buf, base, len, ty, off)
      \<in> measure (\<lambda>(buf, base, len, ty, off). len - off)"
    by simp
qed

declare skip_to.simps [simp del]

definition UsbCreateDesc ::
  "(nat \<Rightarrow> bool) \<Rightarrow> byte list \<Rightarrow> nat \<Rightarrow> nat \<Rightarrow> byte \<Rightarrow> ust \<Rightarrow> ((ptr \<times> nat) option \<times> ust) option"
where
  "UsbCreateDesc pool buf base len ty s =
     do {
       r \<leftarrow> skip_to buf base len ty 0;
       (case r of
          None \<Rightarrow> Some (None, s)
        | Some off \<Rightarrow>
            if len \<le> off then Some (None, s)
            else do {
              hl \<leftarrow> rd buf (base + off);
              if len < off + unat hl then Some (None, s)
              else do {
                t \<leftarrow> rd buf (base + off + 1);
                if t \<noteq> ty \<or> unat hl < desc_len ty then Some (None, s)
                else do {
                  raw \<leftarrow> rd_range buf (base + off) (desc_len ty);
                  let (a, s1) = AllocPool pool (desc_obj ty raw) s;
                  Some (map_option (\<lambda>a. (a, off + unat hl)) a, s1) } } }) }"

text \<open>The endpoints, as long as there is data. The result is whether all went well, and the offset.\<close>

fun parse_eps ::
  "nat \<Rightarrow> (nat \<Rightarrow> bool) \<Rightarrow> byte list \<Rightarrow> nat \<Rightarrow> nat \<Rightarrow> nat \<Rightarrow> nat \<Rightarrow> ptr \<Rightarrow> ust \<Rightarrow> (bool \<times> nat \<times> ust) option"
where
  "parse_eps 0 pool buf base len i off arr s = Some (True, off, s)"
| "parse_eps (Suc k) pool buf base len i off arr s =
     (if \<not> off < len then Some (True, off, s)
      else do {
        (r, s1) \<leftarrow> UsbCreateDesc pool buf (base + off) (len - off) USB_DESC_TYPE_ENDPOINT s;
        (case r of
           None \<Rightarrow> Some (False, off, s1)
         | Some (ep, used) \<Rightarrow>
             do { s2 \<leftarrow> set_ptr arr i ep s1; parse_eps k pool buf base len (i + 1) (off + used) arr s2 }) })"

definition UsbParseInterfaceDesc ::
  "(nat \<Rightarrow> bool) \<Rightarrow> byte list \<Rightarrow> nat \<Rightarrow> nat \<Rightarrow> ust \<Rightarrow> ((ptr \<times> nat) option \<times> ust) option"
where
  "UsbParseInterfaceDesc pool buf base len s =
     do {
       (r, s1) \<leftarrow> UsbCreateDesc pool buf base len USB_DESC_TYPE_INTERFACE s;
       (case r of
          None \<Rightarrow> Some (None, s1)
        | Some (a, used) \<Rightarrow>
            (case us_heap s1 a of
               Some (Setting raw eps) \<Rightarrow>
                 (let n = NumEndpoints raw in
                  if n = 0 then Some (Some (a, used), s1)
                  else
                    (case AllocPool pool (Ptrs (replicate n None)) s1 of
                       (None, s2) \<Rightarrow> do { s3 \<leftarrow> UsbFreeInterfaceDesc a s2; Some (None, s3) }
                     | (Some e, s2) \<Rightarrow>
                         do {
                           (ok, off, s3) \<leftarrow> parse_eps n pool buf base len 0 used e (upd a (Setting raw (Some e)) s2);
                           if ok then Some (Some (a, off), s3)
                           else do { s4 \<leftarrow> UsbFreeInterfaceDesc a s3; Some (None, s4) } }))
             | _ \<Rightarrow> None)) }"

fun make_ifs :: "nat \<Rightarrow> (nat \<Rightarrow> bool) \<Rightarrow> nat \<Rightarrow> ptr \<Rightarrow> ust \<Rightarrow> (bool \<times> ust) option" where
  "make_ifs 0 pool i arr s = Some (True, s)"
| "make_ifs (Suc k) pool i arr s =
     (case AllocPool pool (IfDesc (replicate USB_MAX_INTERFACE_SETTING None) 0 0) s of
        (None, s1) \<Rightarrow> Some (False, s1)
      | (Some a, s1) \<Rightarrow> do { s2 \<leftarrow> set_ptr arr i a s1; make_ifs k pool (i + 1) arr s2 })"

text \<open>One setting is added to its interface; \<open>False\<close> as the code gives up on the configuration.\<close>

definition add_setting :: "ptr \<Rightarrow> ptr \<Rightarrow> nat \<Rightarrow> ust \<Rightarrow> (bool \<times> ust) option" where
  "add_setting arr x numif s =
     (case us_heap s x of
        Some (Setting raw eps) \<Rightarrow>
          if InterfaceNumber raw \<ge> numif then do { s1 \<leftarrow> UsbFreeInterfaceDesc x s; Some (False, s1) }
          else do {
            p \<leftarrow> ptr_at arr (InterfaceNumber raw) s;
            a \<leftarrow> p;
            (case us_heap s a of
               Some (IfDesc ps n act) \<Rightarrow>
                 if n \<ge> USB_MAX_INTERFACE_SETTING then Some (False, s)
                 else do { ps1 \<leftarrow> wr ps n (Some x); Some (True, upd a (IfDesc ps1 (n + 1) act) s) }
             | _ \<Rightarrow> None) }
      | _ \<Rightarrow> None)"

text \<open>The loop over the settings; each round uses at least 9 bytes, so that the length is enough fuel.\<close>

fun parse_settings ::
  "nat \<Rightarrow> (nat \<Rightarrow> bool) \<Rightarrow> byte list \<Rightarrow> nat \<Rightarrow> nat \<Rightarrow> ptr \<Rightarrow> nat \<Rightarrow> ust \<Rightarrow> (bool \<times> ust) option"
where
  "parse_settings 0 pool buf base len arr numif s = None"
| "parse_settings (Suc F) pool buf base len arr numif s =
     (if len < 9 then Some (True, s)
      else do {
        (r, s1) \<leftarrow> UsbParseInterfaceDesc pool buf base len s;
        (case r of
           None \<Rightarrow> Some (True, s1)
         | Some (x, used) \<Rightarrow>
             do {
               (ok, s2) \<leftarrow> add_setting arr x numif s1;
               if ok then parse_settings F pool buf (base + used) (len - used) arr numif s2 else Some (False, s2) }) })"

definition UsbParseConfigDesc :: "(nat \<Rightarrow> bool) \<Rightarrow> byte list \<Rightarrow> nat \<Rightarrow> ust \<Rightarrow> (ptr option \<times> ust) option" where
  "UsbParseConfigDesc pool buf len s =
     do {
       (r, s1) \<leftarrow> UsbCreateDesc pool buf 0 len USB_DESC_TYPE_CONFIG s;
       (case r of
          None \<Rightarrow> Some (None, s1)
        | Some (a, used) \<Rightarrow>
            (case us_heap s1 a of
               Some (Config raw ifs) \<Rightarrow>
                 (let n = NumInterfaces raw in
                  (case AllocPool pool (Ptrs (replicate n None)) s1 of
                     (None, s2) \<Rightarrow> do { s3 \<leftarrow> UsbFreeConfigDesc a s2; Some (None, s3) }
                   | (Some arr, s2) \<Rightarrow>
                       do {
                         (ok, s3) \<leftarrow> make_ifs n pool 0 arr (upd a (Config raw (Some arr)) s2);
                         (ok1, s4) \<leftarrow>
                           (if ok then parse_settings (len + 1) pool buf used (len - used) arr n s3 else Some (False, s3));
                         if ok1 then Some (Some a, s4)
                         else do { s5 \<leftarrow> UsbFreeConfigDesc a s4; Some (None, s5) } }))
             | _ \<Rightarrow> None)) }"

end
