(* ===== verification/UsbDescFacts.thy ===== *)
theory UsbDescFacts
  imports UsbDesc "HOL-Library.Multiset"
begin

text \<open>
  The parser of USB configurations: what it reads, what it allocates and what it frees.

  The lemmas follow the cells of the heap: \<open>holds cs s\<close> says that the cells \<open>cs\<close> are in the heap, \<open>grown s cs s'\<close> that
  \<open>s'\<close> has exactly the cells of \<open>s\<close> and \<open>cs\<close>. The parsers without heap (names in \<open>_spec\<close>) say what is read; each
  routine is shown to build the cells of the result of its specification, or to be back where it started.
\<close>

section \<open>Structures in the heap\<close>

type_synonym cell = "ptr \<times> uobj"

definition holds :: "cell list \<Rightarrow> ust \<Rightarrow> bool" where
  "holds cs s \<longleftrightarrow> distinct (map fst cs) \<and> (\<forall>(a, x) \<in> set cs. us_heap s a = Some x)"

definition drop_cells :: "cell list \<Rightarrow> ust \<Rightarrow> ust" where
  "drop_cells cs s = s\<lparr>us_heap := us_heap s |` (- set (map fst cs))\<rparr>"

definition fresh :: "ust \<Rightarrow> bool" where
  "fresh s \<longleftrightarrow> (\<forall>a \<ge> us_next s. us_heap s a = None)"

text \<open>\<open>s'\<close> has the cells of \<open>s\<close> and the new ones.\<close>

definition grown :: "ust \<Rightarrow> cell list \<Rightarrow> ust \<Rightarrow> bool" where
  "grown s cs s' \<longleftrightarrow> us_next s \<le> us_next s' \<and> distinct (map fst cs) \<and>
     (\<forall>a \<in> fst ` set cs. us_next s \<le> a \<and> a < us_next s') \<and> us_heap s' = us_heap s ++ map_of cs"

lemma holds_Nil [simp]: "holds [] s"
  by (simp add: holds_def)

lemma holds_Cons: "holds ((a, x) # cs) s \<longleftrightarrow> us_heap s a = Some x \<and> a \<notin> fst ` set cs \<and> holds cs s"
  by (auto simp: holds_def)

lemma holds_append: "holds (cs @ ds) s \<longleftrightarrow> holds cs s \<and> holds ds s \<and> fst ` set cs \<inter> fst ` set ds = {}"
  by (auto simp: holds_def)

lemma drop_cells_Nil [simp]: "drop_cells [] s = s"
  by (simp add: drop_cells_def restrict_map_def)

lemma drop_cells_append: "drop_cells ds (drop_cells cs s) = drop_cells (cs @ ds) s"
  by (simp add: drop_cells_def Int_commute)

lemma drop_cells_heap: "a \<notin> fst ` set cs \<Longrightarrow> us_heap (drop_cells cs s) a = us_heap s a"
  by (simp add: drop_cells_def)

lemma drop_cells_next [simp]: "us_next (drop_cells cs s) = us_next s"
  by (simp add: drop_cells_def)

lemma holds_drop_cells: "holds ds s \<Longrightarrow> fst ` set cs \<inter> fst ` set ds = {} \<Longrightarrow> holds ds (drop_cells cs s)"
proof -
  assume h: "holds ds s" "fst ` set cs \<inter> fst ` set ds = {}"
  have "us_heap (drop_cells cs s) a = Some x" if "(a, x) \<in> set ds" for a x
    using h that by (subst drop_cells_heap) (force simp: holds_def)+
  then show "holds ds (drop_cells cs s)"
    using h(1) by (auto simp: holds_def)
qed

lemma FreePtr_drop: "us_heap s a = Some x \<Longrightarrow> FreePtr a s = Some (drop_cells [(a, x)] s)"
  by (simp add: FreePtr_def drop_cells_def restrict_complement_singleton_eq)

lemma drop_cells_cong: "fst ` set cs = fst ` set ds \<Longrightarrow> drop_cells cs s = drop_cells ds s"
  by (simp add: drop_cells_def)

lemma grown_Nil [simp]: "grown s [] s"
  by (simp add: grown_def)

lemma fresh_grown: "fresh s \<Longrightarrow> grown s cs s' \<Longrightarrow> fresh s'"
  by (fastforce simp: fresh_def grown_def map_add_None map_of_eq_None_iff)

lemma grown_holds: "grown s cs s' \<Longrightarrow> holds cs s'"
  by (auto simp: grown_def holds_def map_add_Some_iff)

lemma grown_drop:
  assumes "fresh s" "grown s cs s'"
  shows "us_heap (drop_cells cs s') = us_heap s"
proof
  fix a
  show "us_heap (drop_cells cs s') a = us_heap s a"
  proof (cases "a \<in> fst ` set cs")
    case True
    then have "us_next s \<le> a"
      using assms(2) by (auto simp: grown_def)
    then show ?thesis
      using True assms(1) by (auto simp: drop_cells_def fresh_def)
  next
    case False
    then have "map_of cs a = None"
      by (simp add: map_of_eq_None_iff)
    then show ?thesis
      using False assms(2) by (simp add: drop_cells_heap grown_def map_add_def)
  qed
qed

lemma grown_trans:
  assumes "grown s cs s1" "grown s1 ds s2"
  shows "grown s (cs @ ds) s2"
proof -
  have dis: "fst ` set cs \<inter> fst ` set ds = {}"
    using assms by (fastforce simp: grown_def)
  then have "map_of (cs @ ds) = map_of cs ++ map_of ds"
    by (intro map_of_append [THEN trans] map_add_comm) (simp add: dom_map_of_conv_image_fst Int_commute)
  then show ?thesis
    using assms dis by (auto simp: grown_def)
qed

lemma grown_cong:
  assumes "mset cs = mset ds" "grown s cs s'"
  shows "grown s ds s'"
proof -
  have d: "distinct (map fst ds)"
    using assms by (metis grown_def mset_eq_imp_distinct_iff mset_map)
  moreover have "map_of ds = map_of cs"
    using assms d by (intro map_of_inject_set [THEN iffD2]) (auto simp: grown_def dest: mset_eq_setD)
  ultimately show ?thesis
    using assms(2) mset_eq_setD [OF assms(1)] by (simp add: grown_def)
qed

lemma grown_upd:
  assumes "grown s ((a, x) # cs) s'"
  shows "grown s ((a, y) # cs) (upd a y s')"
  using assms by (auto simp: grown_def upd_def map_add_def fun_eq_iff split: option.splits)

text \<open>After the release of what was built, the heap is the old one.\<close>

lemma grown_undo: "fresh s \<Longrightarrow> grown s cs s' \<Longrightarrow> grown s [] (drop_cells cs s')"
  using grown_drop [of s cs s'] by (simp add: grown_def)

lemma grown_drop_part:
  assumes "fresh s" "grown s (cs @ ds) s'"
  shows "grown s ds (drop_cells cs s')"
proof -
  have d: "fst ` set cs \<inter> fst ` set ds = {}"
    using assms(2) by (auto simp: grown_def)
  have "us_heap (drop_cells cs s') a = (us_heap s ++ map_of ds) a" for a
  proof (cases "a \<in> fst ` set cs")
    case True
    then have "us_next s \<le> a" "map_of ds a = None"
      using assms(2) d by (auto simp: grown_def map_of_eq_None_iff)
    then show ?thesis
      using True assms(1) by (auto simp: drop_cells_def fresh_def map_add_def)
  next
    case False
    then have "map_of cs a = None"
      by (simp add: map_of_eq_None_iff)
    then show ?thesis
      using False assms(2) by (simp add: drop_cells_heap grown_def map_add_def map_of_append split: option.splits)
  qed
  then show ?thesis
    using assms(2) by (auto simp: grown_def)
qed

section \<open>Releasing structures\<close>

definition opt_cells :: "('a \<Rightarrow> 'b list) \<Rightarrow> 'a option \<Rightarrow> 'b list" where
  "opt_cells c x = (case x of None \<Rightarrow> [] | Some y \<Rightarrow> c y)"

lemma free_ptrs_all:
  assumes fr: "\<And>x t. Some x \<in> set xs \<Longrightarrow> holds (c x) t \<Longrightarrow> fr (adr x) t = Some (drop_cells (c x) t)"
    and "holds (concat (map (opt_cells c) xs)) s" "us_heap s arr = Some (Ptrs (pre @ map (map_option adr) xs))"
    and "arr \<notin> fst ` set (concat (map (opt_cells c) xs))" "i = length pre"
  shows "free_ptrs fr (length xs) i arr s = Some (drop_cells (concat (map (opt_cells c) xs)) s)"
  using assms
proof (induction xs arbitrary: s pre i)
  case (Cons x xs)
  let ?rest = "concat (map (opt_cells c) xs)"
  have p: "ptr_at arr i s = Some (map_option adr x)"
    using Cons.prems(3,5) by (simp add: ptr_at_def)
  have one: "(case map_option adr x of None \<Rightarrow> Some s | Some a \<Rightarrow> fr a s) = Some (drop_cells (opt_cells c x) s)"
    using Cons.prems(1,2) by (cases x) (auto simp: opt_cells_def holds_append)
  have "free_ptrs fr (length xs) (i + 1) arr (drop_cells (opt_cells c x) s) = Some (drop_cells ?rest (drop_cells (opt_cells c x) s))"
  proof (rule Cons.IH [where pre = "pre @ [map_option adr x]"])
    show "holds ?rest (drop_cells (opt_cells c x) s)"
      using Cons.prems(2) by (intro holds_drop_cells) (auto simp: holds_append)
    show "us_heap (drop_cells (opt_cells c x) s) arr = Some (Ptrs ((pre @ [map_option adr x]) @ map (map_option adr) xs))"
      using Cons.prems(3,4) by (subst drop_cells_heap) auto
  qed (use Cons.prems in auto)
  then show ?case
    using p one by (simp add: drop_cells_append)
qed simp

record p_setting =
  ps_at :: ptr
  ps_raw :: "byte list"
  ps_arr :: "ptr option"
  ps_eps :: "(ptr \<times> byte list) option list"

definition ep_cells :: "ptr \<times> byte list \<Rightarrow> cell list" where
  "ep_cells e = [(fst e, EpDesc (snd e) 0)]"

definition setting_cells :: "p_setting \<Rightarrow> cell list" where
  "setting_cells p = (ps_at p, Setting (ps_raw p) (ps_arr p)) #
     (case ps_arr p of None \<Rightarrow> [] | Some e \<Rightarrow> (e, Ptrs (map (map_option fst) (ps_eps p))) # concat (map (opt_cells ep_cells) (ps_eps p)))"

definition wf_setting :: "p_setting \<Rightarrow> bool" where
  "wf_setting p \<longleftrightarrow> (case ps_arr p of None \<Rightarrow> ps_eps p = [] | Some e \<Rightarrow> length (ps_eps p) = NumEndpoints (ps_raw p) \<and> ps_eps p \<noteq> [])"

lemma free_setting:
  assumes "holds (setting_cells p) s" "wf_setting p"
  shows "UsbFreeInterfaceDesc (ps_at p) s = Some (drop_cells (setting_cells p) s)"
proof (cases "ps_arr p")
  case None
  then show ?thesis
    using assms FreePtr_drop [of s "ps_at p"] by (simp add: UsbFreeInterfaceDesc_def setting_cells_def holds_Cons)
next
  case (Some e)
  let ?cs = "concat (map (opt_cells ep_cells) (ps_eps p))"
  let ?S = "Setting (ps_raw p) (Some e)" and ?P = "Ptrs (map (map_option fst) (ps_eps p))"
  have h: "us_heap s (ps_at p) = Some ?S" "us_heap s e = Some ?P" "holds ?cs s" "e \<notin> fst ` set ?cs" "ps_at p \<notin> fst ` set ?cs" "ps_at p \<noteq> e"
    using assms(1) by (auto simp: setting_cells_def Some holds_Cons)
  have "free_ptrs FreePtr (length (ps_eps p)) 0 e s = Some (drop_cells ?cs s)"
    using h by (intro free_ptrs_all [where adr = fst and pre = "[]"]) (auto simp: ep_cells_def holds_Cons intro!: FreePtr_drop)
  moreover have "FreePtr e (drop_cells ?cs s) = Some (drop_cells [(e, ?P)] (drop_cells ?cs s))"
    using h by (intro FreePtr_drop) (simp add: drop_cells_heap)
  moreover have "FreePtr (ps_at p) (drop_cells [(e, ?P)] (drop_cells ?cs s)) = Some (drop_cells [(ps_at p, ?S)] (drop_cells [(e, ?P)] (drop_cells ?cs s)))"
    using h by (intro FreePtr_drop) (simp add: drop_cells_heap)
  moreover have "drop_cells [(ps_at p, ?S)] (drop_cells [(e, ?P)] (drop_cells ?cs s)) = drop_cells (setting_cells p) s"
    unfolding drop_cells_append by (rule drop_cells_cong) (auto simp: setting_cells_def Some)
  moreover have "length (ps_eps p) = NumEndpoints (ps_raw p)" "0 < NumEndpoints (ps_raw p)"
    using assms(2) by (auto simp: wf_setting_def Some simp flip: length_greater_0_conv)
  ultimately show ?thesis
    using h(1) by (simp add: UsbFreeInterfaceDesc_def)
qed

record p_iface =
  pi_at :: ptr
  pi_sets :: "p_setting list"

definition iface_obj :: "p_setting list \<Rightarrow> uobj" where
  "iface_obj ps = IfDesc (map (\<lambda>p. Some (ps_at p)) ps @ replicate (USB_MAX_INTERFACE_SETTING - length ps) None) (length ps) 0"

definition iface_cells :: "p_iface \<Rightarrow> cell list" where
  "iface_cells q = (pi_at q, iface_obj (pi_sets q)) # concat (map setting_cells (pi_sets q))"

definition wf_iface :: "p_iface \<Rightarrow> bool" where
  "wf_iface q \<longleftrightarrow> length (pi_sets q) \<le> USB_MAX_INTERFACE_SETTING \<and> (\<forall>p \<in> set (pi_sets q). wf_setting p)"

lemma free_settings_all:
  assumes "holds (concat (map setting_cells ps)) s" "us_heap s a = Some (IfDesc (pre @ map (\<lambda>p. Some (ps_at p)) ps @ post) n act)"
    and "a \<notin> fst ` set (concat (map setting_cells ps))" "\<forall>p \<in> set ps. wf_setting p" "i = length pre"
  shows "free_settings (length ps) i a s = Some (drop_cells (concat (map setting_cells ps)) s)"
  using assms
proof (induction ps arbitrary: s pre i)
  case (Cons p ps)
  let ?rest = "concat (map setting_cells ps)" and ?t = "drop_cells (setting_cells p) s"
  have one: "UsbFreeInterfaceDesc (ps_at p) s = Some ?t"
    using Cons.prems by (intro free_setting) (auto simp: holds_append)
  have heap: "us_heap ?t a = us_heap s a"
    using Cons.prems(3) by (intro drop_cells_heap) auto
  have "free_settings (length ps) (i + 1) a ?t = Some (drop_cells ?rest ?t)"
  proof (rule Cons.IH [where pre = "pre @ [Some (ps_at p)]"])
    show "holds ?rest ?t"
      using Cons.prems(1) by (intro holds_drop_cells) (auto simp: holds_append)
  qed (use Cons.prems heap in auto)
  then show ?case
    using one Cons.prems(2,5) by (simp add: drop_cells_append)
qed simp

lemma free_iface:
  assumes "holds (iface_cells q) s" "wf_iface q"
  shows "free_interface (pi_at q) s = Some (drop_cells (iface_cells q) s)"
proof -
  let ?cs = "concat (map setting_cells (pi_sets q))"
  have h: "us_heap s (pi_at q) = Some (iface_obj (pi_sets q))" "pi_at q \<notin> fst ` set ?cs" "holds ?cs s"
    using assms(1) by (auto simp: iface_cells_def holds_Cons)
  have "free_settings (length (pi_sets q)) 0 (pi_at q) s = Some (drop_cells ?cs s)"
    using h assms(2) by (intro free_settings_all [where pre = "[]"]) (auto simp: iface_obj_def wf_iface_def)
  moreover have "FreePtr (pi_at q) (drop_cells ?cs s) = Some (drop_cells [(pi_at q, iface_obj (pi_sets q))] (drop_cells ?cs s))"
    using h by (intro FreePtr_drop) (simp add: drop_cells_heap)
  moreover have "drop_cells [(pi_at q, iface_obj (pi_sets q))] (drop_cells ?cs s) = drop_cells (iface_cells q) s"
    unfolding drop_cells_append by (rule drop_cells_cong) (auto simp: iface_cells_def)
  ultimately show ?thesis
    using h(1) by (simp add: free_interface_def iface_obj_def)
qed

record p_config =
  pc_at :: ptr
  pc_raw :: "byte list"
  pc_arr :: "ptr option"
  pc_ifs :: "p_iface option list"

definition config_cells :: "p_config \<Rightarrow> cell list" where
  "config_cells c = (pc_at c, Config (pc_raw c) (pc_arr c)) #
     (case pc_arr c of None \<Rightarrow> [] | Some e \<Rightarrow> (e, Ptrs (map (map_option pi_at) (pc_ifs c))) # concat (map (opt_cells iface_cells) (pc_ifs c)))"

definition wf_config :: "p_config \<Rightarrow> bool" where
  "wf_config c \<longleftrightarrow> (pc_arr c = None \<longrightarrow> pc_ifs c = []) \<and> (pc_arr c \<noteq> None \<longrightarrow> length (pc_ifs c) = NumInterfaces (pc_raw c)) \<and>
     (\<forall>q. Some q \<in> set (pc_ifs c) \<longrightarrow> wf_iface q)"

lemma free_config:
  assumes "holds (config_cells c) s" "wf_config c"
  shows "UsbFreeConfigDesc (pc_at c) s = Some (drop_cells (config_cells c) s)"
proof (cases "pc_arr c")
  case None
  then show ?thesis
    using assms FreePtr_drop [of s "pc_at c"] by (simp add: UsbFreeConfigDesc_def config_cells_def holds_Cons)
next
  case (Some e)
  let ?cs = "concat (map (opt_cells iface_cells) (pc_ifs c))"
  let ?C = "Config (pc_raw c) (Some e)" and ?P = "Ptrs (map (map_option pi_at) (pc_ifs c))"
  have h: "us_heap s (pc_at c) = Some ?C" "us_heap s e = Some ?P" "holds ?cs s" "e \<notin> fst ` set ?cs" "pc_at c \<notin> fst ` set ?cs" "pc_at c \<noteq> e"
    using assms(1) by (auto simp: config_cells_def Some holds_Cons)
  have "free_ptrs free_interface (length (pc_ifs c)) 0 e s = Some (drop_cells ?cs s)"
    using h assms(2) by (intro free_ptrs_all [where adr = pi_at and pre = "[]"]) (auto simp: wf_config_def intro!: free_iface)
  moreover have "FreePtr e (drop_cells ?cs s) = Some (drop_cells [(e, ?P)] (drop_cells ?cs s))"
    using h by (intro FreePtr_drop) (simp add: drop_cells_heap)
  moreover have "FreePtr (pc_at c) (drop_cells [(e, ?P)] (drop_cells ?cs s)) = Some (drop_cells [(pc_at c, ?C)] (drop_cells [(e, ?P)] (drop_cells ?cs s)))"
    using h by (intro FreePtr_drop) (simp add: drop_cells_heap)
  moreover have "drop_cells [(pc_at c, ?C)] (drop_cells [(e, ?P)] (drop_cells ?cs s)) = drop_cells (config_cells c) s"
    unfolding drop_cells_append by (rule drop_cells_cong) (auto simp: config_cells_def Some)
  moreover have "length (pc_ifs c) = NumInterfaces (pc_raw c)"
    using assms(2) by (auto simp: wf_config_def Some)
  ultimately show ?thesis
    using h(1) by (simp add: UsbFreeConfigDesc_def)
qed

section \<open>What the parser computes\<close>

text \<open>The same parser without pool and heap: the bytes of the descriptors found, and the position after them.\<close>

definition desc_spec :: "byte list \<Rightarrow> nat \<Rightarrow> nat \<Rightarrow> byte \<Rightarrow> (byte list \<times> nat) option option" where
  "desc_spec buf base len ty =
     do {
       r \<leftarrow> skip_to buf base len ty 0;
       (case r of
          None \<Rightarrow> Some None
        | Some off \<Rightarrow>
            if len \<le> off then Some None
            else do {
              hl \<leftarrow> rd buf (base + off);
              if len < off + unat hl \<or> unat hl < desc_len ty then Some None
              else do { raw \<leftarrow> rd_range buf (base + off) (desc_len ty); Some (Some (raw, off + unat hl)) } }) }"

fun eps_spec :: "nat \<Rightarrow> byte list \<Rightarrow> nat \<Rightarrow> nat \<Rightarrow> nat \<Rightarrow> (byte list list \<times> nat) option option" where
  "eps_spec 0 buf base len off = Some (Some ([], off))"
| "eps_spec (Suc k) buf base len off =
     (if \<not> off < len then Some (Some ([], off))
      else do {
        r \<leftarrow> desc_spec buf (base + off) (len - off) USB_DESC_TYPE_ENDPOINT;
        (case r of
           None \<Rightarrow> Some None
         | Some (raw, used) \<Rightarrow> do { q \<leftarrow> eps_spec k buf base len (off + used); Some (map_option (apfst (Cons raw)) q) }) })"

definition setting_spec :: "byte list \<Rightarrow> nat \<Rightarrow> nat \<Rightarrow> ((byte list \<times> byte list list) \<times> nat) option option" where
  "setting_spec buf base len =
     do {
       r \<leftarrow> desc_spec buf base len USB_DESC_TYPE_INTERFACE;
       (case r of
          None \<Rightarrow> Some None
        | Some (raw, used) \<Rightarrow> do {
            q \<leftarrow> eps_spec (NumEndpoints raw) buf base len used;
            Some (map_option (\<lambda>(eps, off). ((raw, eps), off)) q) }) }"

lemma skip_to_found:
  "skip_to buf base len ty off = Some (Some o1) \<Longrightarrow> off \<le> o1 \<and> (o1 < len \<longrightarrow> rd buf (base + o1 + 1) = Some ty)"
proof (induction buf base len ty off rule: skip_to.induct)
  case (1 buf base len ty off)
  show ?case
    using "1.prems" [unfolded skip_to.simps [of buf base len ty off]] "1.IH"
    by (fastforce split: if_splits option.splits)
qed

lemma skip_to_total:
  "base + len < length buf \<Longrightarrow> skip_to buf base len ty off \<noteq> None"
proof (induction buf base len ty off rule: skip_to.induct)
  case (1 buf base len ty off)
  then show ?case
    by (subst skip_to.simps) (auto split: if_splits option.splits simp: rd_def)
qed

lemma UsbCreateDesc_spec:
  "UsbCreateDesc pool buf base len ty s =
     map_option (\<lambda>r. case r of None \<Rightarrow> (None, s)
       | Some (raw, used) \<Rightarrow> (let (a, s1) = AllocPool pool (desc_obj ty raw) s in (map_option (\<lambda>a. (a, used)) a, s1)))
     (desc_spec buf base len ty)"
proof (cases "skip_to buf base len ty 0")
  case (Some r)
  show ?thesis
  proof (cases r)
    case (Some off)
    have "rd buf (base + off + 1) = Some ty" if "off < len"
      using skip_to_found [of buf base len ty 0 off] \<open>skip_to buf base len ty 0 = Some r\<close> Some that by simp
    then show ?thesis
      using \<open>skip_to buf base len ty 0 = Some r\<close> Some
      by (cases "rd buf (base + off)"; cases "off < len")
        (auto simp: UsbCreateDesc_def desc_spec_def Let_def split_beta split: bind_split)
  qed (simp add: UsbCreateDesc_def desc_spec_def Some)
qed (simp add: UsbCreateDesc_def desc_spec_def)

definition serves :: "(nat \<Rightarrow> bool) \<Rightarrow> ust \<Rightarrow> bool" where
  "serves pool s \<longleftrightarrow> (\<forall>n \<ge> us_next s. pool n)"

lemma serves_mono: "serves pool s \<Longrightarrow> us_next s \<le> us_next s' \<Longrightarrow> serves pool s'"
  by (auto simp: serves_def)

lemma grown_alloc_Some: "AllocPool pool x s = (Some a, s') \<Longrightarrow> grown s [(a, x)] s'"
  by (auto simp: AllocPool_def upd_def grown_def split: if_splits)

lemma grown_alloc_None: "AllocPool pool x s = (None, s') \<Longrightarrow> grown s [] s' \<and> \<not> serves pool s"
  by (auto simp: AllocPool_def grown_def serves_def split: if_splits)

lemma opt_cells_simps [simp]: "opt_cells c None = []" "opt_cells c (Some x) = c x"
  by (simp_all add: opt_cells_def)

lemma concat_opt_cells [simp]:
  "concat (map (opt_cells c) (map Some xs)) = concat (map c xs)" "concat (map (opt_cells c) (replicate m None)) = []"
  "concat (map (opt_cells c \<circ> Some) xs) = concat (map c xs)"
  by (induction xs) (simp_all add: concat_eq_Nil_conv)

lemma grown_next: "grown s cs s' \<Longrightarrow> us_next s \<le> us_next s'"
  by (simp add: grown_def)

lemma grown_at: "grown s cs s' \<Longrightarrow> (a, x) \<in> set cs \<Longrightarrow> us_heap s' a = Some x"
  using grown_holds [of s cs s'] by (auto simp: holds_def)

lemma desc_spec_bounds:
  assumes "desc_spec buf base len ty = Some (Some (raw, used))"
  shows "desc_len ty \<le> used \<and> used \<le> len \<and> length raw = desc_len ty"
  using assms by (fastforce simp: desc_spec_def rd_range_def split: bind_splits option.splits if_splits)

lemma eps_spec_bounds:
  "eps_spec k buf base len off = Some (Some (eps, off')) \<Longrightarrow> off \<le> off' \<and> (off \<le> len \<longrightarrow> off' \<le> len) \<and> length eps \<le> k"
proof (induction k arbitrary: off eps)
  case (Suc k)
  show ?case
  proof (cases "off < len")
    case True
    then obtain raw used q where d: "desc_spec buf (base + off) (len - off) USB_DESC_TYPE_ENDPOINT = Some (Some (raw, used))"
      and q: "eps_spec k buf base len (off + used) = Some (Some (q, off'))" and "eps = raw # q"
      using Suc.prems by (auto split: bind_splits option.splits)
    then show ?thesis
      using Suc.IH [OF q] desc_spec_bounds [OF d] by auto
  next
    case False
    then show ?thesis
      using Suc.prems by auto
  qed
qed simp

lemma setting_spec_bounds:
  assumes "setting_spec buf base len = Some (Some ((raw, eps), used))"
  shows "9 \<le> used \<and> used \<le> len"
proof -
  obtain u where d: "desc_spec buf base len USB_DESC_TYPE_INTERFACE = Some (Some (raw, u))"
    and q: "eps_spec (NumEndpoints raw) buf base len u = Some (Some (eps, used))"
    using assms by (auto simp: setting_spec_def split: bind_splits option.splits)
  have "desc_len USB_DESC_TYPE_INTERFACE = 9"
    by (simp add: desc_len_def USB_DESC_TYPE_DEVICE_def USB_DESC_TYPE_CONFIG_def USB_DESC_TYPE_INTERFACE_def)
  then show ?thesis
    using desc_spec_bounds [OF d] eps_spec_bounds [OF q] by auto
qed

lemma desc_obj_simps:
  "desc_obj USB_DESC_TYPE_ENDPOINT raw = EpDesc raw 0" "desc_obj USB_DESC_TYPE_INTERFACE raw = Setting raw None"
  "desc_obj USB_DESC_TYPE_CONFIG raw = Config raw None"
  by (simp_all add: desc_obj_def USB_DESC_TYPE_DEVICE_def USB_DESC_TYPE_CONFIG_def USB_DESC_TYPE_INTERFACE_def USB_DESC_TYPE_ENDPOINT_def)

lemma parse_eps_refines:
  assumes "grown s0 ((e, Ptrs (pre @ replicate k None)) # cs) s" "i = length pre" "eps_spec k buf base len off = Some r"
  shows "\<exists>ok off' s' es m. parse_eps k pool buf base len i off e s = Some (ok, off', s') \<and>
    grown s0 ((e, Ptrs (pre @ map (\<lambda>x. Some (fst x)) es @ replicate m None)) # concat (map ep_cells es) @ cs) s' \<and>
    us_next s \<le> us_next s' \<and> length es + m = k \<and> (ok \<longrightarrow> r = Some (map snd es, off')) \<and> (\<not> ok \<longrightarrow> r = None \<or> \<not> serves pool s)"
  using assms
proof (induction k arbitrary: pre cs s i off r)
  case (Suc k)
  show ?case
  proof (cases "off < len")
    case False
    then show ?thesis
      using Suc.prems by (intro exI [of _ True] exI [of _ off] exI [of _ s] exI [of _ "[]"] exI [of _ "Suc k"]) auto
  next
    case True
    then obtain d where d: "desc_spec buf (base + off) (len - off) USB_DESC_TYPE_ENDPOINT = Some d"
      using Suc.prems(3) by (auto split: bind_splits)
    show ?thesis
    proof (cases d)
      case None
      then show ?thesis
        using Suc.prems True d
        by (intro exI [of _ False] exI [of _ off] exI [of _ s] exI [of _ "[]"] exI [of _ "Suc k"]) (auto simp: UsbCreateDesc_spec)
    next
      case (Some ru)
      obtain raw used where ru: "ru = (raw, used)"
        by (cases ru)
      obtain p s1 where al: "AllocPool pool (EpDesc raw 0) s = (p, s1)"
        by (cases "AllocPool pool (EpDesc raw 0) s")
      have cr: "UsbCreateDesc pool buf (base + off) (len - off) USB_DESC_TYPE_ENDPOINT s = Some (map_option (\<lambda>a. (a, used)) p, s1)"
        by (simp add: UsbCreateDesc_spec d Some ru desc_obj_simps al)
      show ?thesis
      proof (cases p)
        case None
        then have "grown s [] s1" "\<not> serves pool s"
          using grown_alloc_None al by blast+
        then show ?thesis
          using Suc.prems(1) grown_trans [OF Suc.prems(1), of "[]" s1] True cr None grown_next [of s "[]" s1]
          by (intro exI [of _ False] exI [of _ off] exI [of _ s1] exI [of _ "[]"] exI [of _ "Suc k"]) auto
      next
        case (Some a)
        let ?ps = "pre @ replicate (Suc k) None" and ?ps1 = "(pre @ [Some a]) @ replicate k None"
        let ?s2 = "upd e (Ptrs ?ps1) s1"
        have g1: "grown s0 ((e, Ptrs ?ps) # (a, EpDesc raw 0) # cs) s1" and nx: "us_next s \<le> us_next s1"
        proof -
          have n: "grown s [(a, EpDesc raw 0)] s1"
            using grown_alloc_Some al Some by blast
          show "us_next s \<le> us_next s1"
            using grown_next [OF n] .
          have "grown s0 (((e, Ptrs ?ps) # cs) @ [(a, EpDesc raw 0)]) s1"
            by (rule grown_trans [OF Suc.prems(1) n])
          then show "grown s0 ((e, Ptrs ?ps) # (a, EpDesc raw 0) # cs) s1"
            by (rule grown_cong [rotated]) simp
        qed
        have g2: "grown s0 ((e, Ptrs ?ps1) # (a, EpDesc raw 0) # cs) ?s2"
          using grown_upd [OF g1] by blast
        have "us_heap s1 e = Some (Ptrs ?ps)"
          using grown_at [OF g1, of e] by simp
        then have st: "set_ptr e i a s1 = Some ?s2"
          using Suc.prems(2) by (simp add: set_ptr_def)
        obtain q where q: "eps_spec k buf base len (off + used) = Some q" "r = map_option (apfst (Cons raw)) q"
          using Suc.prems(3) True d \<open>d = Some ru\<close> ru by (auto split: bind_splits)
        have nx2: "us_next ?s2 = us_next s1"
          by (simp add: upd_def)
        obtain ok off' s' es m where rest: "parse_eps k pool buf base len (i + 1) (off + used) e ?s2 = Some (ok, off', s')"
          and g3: "grown s0 ((e, Ptrs ((pre @ [Some a]) @ map (\<lambda>x. Some (fst x)) es @ replicate m None)) # concat (map ep_cells es) @ (a, EpDesc raw 0) # cs) s'"
          and r3: "us_next ?s2 \<le> us_next s'" "length es + m = k" "ok \<longrightarrow> q = Some (map snd es, off')" "\<not> ok \<longrightarrow> q = None \<or> \<not> serves pool ?s2"
        proof -
          have "i + 1 = length (pre @ [Some a])"
            using Suc.prems(2) by simp
          from Suc.IH [OF g2 this q(1)] show ?thesis
            using that by blast
        qed
        have "grown s0 ((e, Ptrs (pre @ map (\<lambda>x. Some (fst x)) ((a, raw) # es) @ replicate m None)) # concat (map ep_cells ((a, raw) # es)) @ cs) s'"
          using g3 by (auto simp: ep_cells_def elim!: grown_cong [rotated])
        moreover have "parse_eps (Suc k) pool buf base len i off e s = Some (ok, off', s')"
          using True cr Some st rest by simp
        moreover have "serves pool s \<longrightarrow> serves pool ?s2"
          using nx nx2 serves_mono [of pool s ?s2] by auto
        ultimately show ?thesis
          using r3 nx nx2 q(2) by (intro exI [of _ ok] exI [of _ off'] exI [of _ s'] exI [of _ "(a, raw) # es"] exI [of _ m]) auto
      qed
    qed
  qed
qed auto


definition eps_of :: "p_setting \<Rightarrow> byte list list" where
  "eps_of p = concat (map (opt_cells (\<lambda>e. [snd e])) (ps_eps p))"

lemma singletons [simp]: "concat (map (\<lambda>e. [f e]) xs) = map f xs"
  by (induction xs) simp_all

lemma setting_refines:
  assumes "fresh s" "setting_spec buf base len = Some r"
  shows "\<exists>q s'. UsbParseInterfaceDesc pool buf base len s = Some (q, s') \<and> us_next s \<le> us_next s' \<and>
    (case q of None \<Rightarrow> grown s [] s' \<and> (r = None \<or> \<not> serves pool s)
     | Some (a, used) \<Rightarrow> \<exists>p. a = ps_at p \<and> wf_setting p \<and> grown s (setting_cells p) s' \<and> r = Some ((ps_raw p, eps_of p), used))"
proof -
  obtain d where d: "desc_spec buf base len USB_DESC_TYPE_INTERFACE = Some d"
    using assms(2) by (auto simp: setting_spec_def split: bind_splits)
  show ?thesis
  proof (cases d)
    case None
    then show ?thesis
      using d assms(2) by (auto simp: UsbParseInterfaceDesc_def UsbCreateDesc_spec setting_spec_def)
  next
    case (Some ru)
    obtain raw used where ru: "ru = (raw, used)"
      by (cases ru)
    obtain pa s1 where al: "AllocPool pool (Setting raw None) s = (pa, s1)"
      by (cases "AllocPool pool (Setting raw None) s")
    have cr: "UsbCreateDesc pool buf base len USB_DESC_TYPE_INTERFACE s = Some (map_option (\<lambda>a. (a, used)) pa, s1)"
      by (simp add: UsbCreateDesc_spec d Some ru desc_obj_simps al)
    obtain q where q: "eps_spec (NumEndpoints raw) buf base len used = Some q" "r = map_option (\<lambda>(eps, off). ((raw, eps), off)) q"
      using assms(2) by (auto simp: setting_spec_def d Some ru split: bind_splits)
    show ?thesis
    proof (cases pa)
      case None
      then show ?thesis
        using grown_alloc_None [of pool "Setting raw None" s s1] al cr by (auto simp: UsbParseInterfaceDesc_def grown_next)
    next
      case (Some a)
      have g1: "grown s [(a, Setting raw None)] s1"
        using grown_alloc_Some al Some by blast
      have h1: "us_heap s1 a = Some (Setting raw None)"
        using grown_at [OF g1] by simp
      note parse = UsbParseInterfaceDesc_def cr Some h1
      show ?thesis
      proof (cases "NumEndpoints raw = 0")
        case True
        let ?p = "\<lparr>ps_at = a, ps_raw = raw, ps_arr = None, ps_eps = []\<rparr>"
        have "wf_setting ?p" "eps_of ?p = []" "setting_cells ?p = [(a, Setting raw None)]"
          by (simp_all add: wf_setting_def eps_of_def setting_cells_def)
        then show ?thesis
          using True q g1 grown_next [OF g1] by (auto simp: parse intro!: exI [of _ ?p])
      next
        case False
        obtain pe s2 where al2: "AllocPool pool (Ptrs (replicate (NumEndpoints raw) None)) s1 = (pe, s2)"
          by (cases "AllocPool pool (Ptrs (replicate (NumEndpoints raw) None)) s1")
        have free: "\<exists>s4. UsbFreeInterfaceDesc a t = Some s4 \<and> grown s [] s4 \<and> us_next s4 = us_next t"
          if "grown s (setting_cells p) t" "wf_setting p" "ps_at p = a" for p t
          using free_setting [OF grown_holds [OF that(1)] that(2)] grown_undo [OF assms(1) that(1)] that(3) by auto
        show ?thesis
        proof (cases pe)
          case None
          let ?p = "\<lparr>ps_at = a, ps_raw = raw, ps_arr = None, ps_eps = []\<rparr>"
          have "grown s1 [] s2" "\<not> serves pool s1"
            using grown_alloc_None al2 None by blast+
          then have "grown s [(a, Setting raw None)] s2" "\<not> serves pool s"
            using grown_trans [OF g1, of "[]" s2] serves_mono [of pool s s1] grown_next [OF g1] by auto
          moreover have "wf_setting ?p" "setting_cells ?p = [(a, Setting raw None)]"
            by (simp_all add: wf_setting_def setting_cells_def)
          ultimately show ?thesis
            using free [of ?p s2] False al2 None by (auto simp: parse dest: grown_next)
        next
          case (Some e)
          let ?n = "NumEndpoints raw"
          let ?s3 = "upd a (Setting raw (Some e)) s2"
          have "grown s1 [(e, Ptrs (replicate ?n None))] s2"
            using grown_alloc_Some al2 Some by blast
          then have "grown s ((a, Setting raw None) # [(e, Ptrs (replicate ?n None))]) s2"
            using grown_trans [OF g1] by auto
          then have "grown s ((a, Setting raw (Some e)) # [(e, Ptrs (replicate ?n None))]) ?s3"
            by (rule grown_upd)
          then have g3: "grown s ((e, Ptrs ([] @ replicate ?n None)) # [(a, Setting raw (Some e))]) ?s3"
            by (rule grown_cong [rotated]) simp
          obtain ok off' s' es m where ps: "parse_eps ?n pool buf base len 0 used e ?s3 = Some (ok, off', s')"
            and g4: "grown s ((e, Ptrs ([] @ map (\<lambda>x. Some (fst x)) es @ replicate m None)) # concat (map ep_cells es) @ [(a, Setting raw (Some e))]) s'"
            and r4: "us_next ?s3 \<le> us_next s'" "length es + m = ?n" "ok \<longrightarrow> q = Some (map snd es, off')" "\<not> ok \<longrightarrow> q = None \<or> \<not> serves pool ?s3"
            using parse_eps_refines [OF g3 _ q(1), of 0 pool] unfolding list.size by blast
          let ?p = "\<lparr>ps_at = a, ps_raw = raw, ps_arr = Some e, ps_eps = map Some es @ replicate m None\<rparr>"
          have wf: "wf_setting ?p" "eps_of ?p = map snd es"
            using r4(2) False by (auto simp: wf_setting_def eps_of_def)
          have cells: "grown s (setting_cells ?p) s'"
            using g4 by (auto simp: setting_cells_def comp_def elim!: grown_cong [rotated])
          have nx: "us_next s \<le> us_next ?s3"
            using grown_next [OF g3] by simp
          show ?thesis
          proof (cases ok)
            case True
            then show ?thesis
              using wf cells False al2 Some ps q(2) r4(1,3) nx by (auto simp: parse intro!: exI [of _ ?p])
          next
            case nok: False
            then show ?thesis
              using free [OF cells wf(1)] False al2 Some ps q(2) r4(1,4) nx serves_mono [of pool s ?s3] by (auto simp: parse)
          qed
        qed
      qed
    qed
  qed
qed

lemma iface_obj_Nil: "iface_obj [] = IfDesc (replicate USB_MAX_INTERFACE_SETTING None) 0 0"
  by (simp add: iface_obj_def)

lemma make_ifs_refines:
  assumes "grown s0 ((arr, Ptrs (pre @ replicate k None)) # cs) s" "i = length pre"
  shows "\<exists>ok s' as m. make_ifs k pool i arr s = Some (ok, s') \<and>
    grown s0 ((arr, Ptrs (pre @ map Some as @ replicate m None)) # map (\<lambda>a. (a, iface_obj [])) as @ cs) s' \<and>
    us_next s \<le> us_next s' \<and> length as + m = k \<and> (ok \<longrightarrow> m = 0) \<and> (\<not> ok \<longrightarrow> \<not> serves pool s)"
  using assms
proof (induction k arbitrary: pre cs s i)
  case 0
  then show ?case
    by (intro exI [of _ True] exI [of _ s] exI [of _ "[]"] exI [of _ 0]) auto
next
  case (Suc k)
  obtain p s1 where al: "AllocPool pool (iface_obj []) s = (p, s1)"
    by (cases "AllocPool pool (iface_obj []) s")
  note al1 = al [unfolded iface_obj_Nil]
  show ?case
  proof (cases p)
    case None
    then have "grown s [] s1" "\<not> serves pool s"
      using grown_alloc_None al by blast+
    then show ?thesis
      using Suc.prems grown_trans [OF Suc.prems(1), of "[]" s1] al1 None grown_next [of s "[]" s1]
      by (intro exI [of _ False] exI [of _ s1] exI [of _ "[]"] exI [of _ "Suc k"]) auto
  next
    case (Some a)
    let ?ps = "pre @ replicate (Suc k) None" and ?ps1 = "(pre @ [Some a]) @ replicate k None"
    let ?s2 = "upd arr (Ptrs ?ps1) s1"
    have n: "grown s [(a, iface_obj [])] s1"
      using grown_alloc_Some al Some by blast
    have "grown s0 (((arr, Ptrs ?ps) # cs) @ [(a, iface_obj [])]) s1"
      by (rule grown_trans [OF Suc.prems(1) n])
    then have g1: "grown s0 ((arr, Ptrs ?ps) # (a, iface_obj []) # cs) s1"
      by (rule grown_cong [rotated]) simp
    have g2: "grown s0 ((arr, Ptrs ?ps1) # (a, iface_obj []) # cs) ?s2"
      using grown_upd [OF g1] by blast
    have "us_heap s1 arr = Some (Ptrs ?ps)"
      using grown_at [OF g1, of arr] by simp
    then have st: "set_ptr arr i a s1 = Some ?s2"
      using Suc.prems(2) by (simp add: set_ptr_def)
    have nx: "us_next s \<le> us_next ?s2"
      using grown_next [OF n] by (simp add: upd_def)
    obtain ok s' as m where rest: "make_ifs k pool (i + 1) arr ?s2 = Some (ok, s')"
      and g3: "grown s0 ((arr, Ptrs ((pre @ [Some a]) @ map Some as @ replicate m None)) # map (\<lambda>a. (a, iface_obj [])) as @ (a, iface_obj []) # cs) s'"
      and r3: "us_next ?s2 \<le> us_next s'" "length as + m = k" "ok \<longrightarrow> m = 0" "\<not> ok \<longrightarrow> \<not> serves pool ?s2"
    proof -
      have "i + 1 = length (pre @ [Some a])"
        using Suc.prems(2) by simp
      from Suc.IH [OF g2 this] show ?thesis
        using that by blast
    qed
    have "grown s0 ((arr, Ptrs (pre @ map Some (a # as) @ replicate m None)) # map (\<lambda>a. (a, iface_obj [])) (a # as) @ cs) s'"
      using g3 by (auto elim!: grown_cong [rotated])
    moreover have "make_ifs (Suc k) pool i arr s = Some (ok, s')"
      using al1 Some st rest by simp
    ultimately show ?thesis
      using r3 nx serves_mono [of pool s ?s2] by (intro exI [of _ ok] exI [of _ s'] exI [of _ "a # as"] exI [of _ m]) auto
  qed
qed

text \<open>A configuration with all its interfaces.\<close>

definition full_config :: "ptr \<Rightarrow> byte list \<Rightarrow> ptr \<Rightarrow> p_iface list \<Rightarrow> p_config" where
  "full_config a raw arr qs = \<lparr>pc_at = a, pc_raw = raw, pc_arr = Some arr, pc_ifs = map Some qs\<rparr>"

lemma full_config_cells:
  "config_cells (full_config a raw arr qs) =
     (a, Config raw (Some arr)) # (arr, Ptrs (map (\<lambda>q. Some (pi_at q)) qs)) # concat (map iface_cells qs)"
  by (simp add: full_config_def config_cells_def comp_def)

lemma add_setting_refines:
  assumes "fresh s0" "grown s0 (config_cells (full_config a raw arr qs)) s" "fresh s" "grown s (setting_cells p) s1" "wf_setting p"
    and "\<forall>q \<in> set qs. wf_iface q"
  shows "if length qs \<le> InterfaceNumber (ps_raw p) then \<exists>s2. add_setting arr (ps_at p) (length qs) s1 = Some (False, s2) \<and>
        grown s0 (config_cells (full_config a raw arr qs)) s2 \<and> us_next s1 \<le> us_next s2
      else if USB_MAX_INTERFACE_SETTING \<le> length (pi_sets (qs ! InterfaceNumber (ps_raw p)))
      then add_setting arr (ps_at p) (length qs) s1 = Some (False, s1)
      else \<exists>s2. add_setting arr (ps_at p) (length qs) s1 = Some (True, s2) \<and> us_next s1 \<le> us_next s2 \<and>
        grown s0 (config_cells (full_config a raw arr (qs[InterfaceNumber (ps_raw p) :=
          (qs ! InterfaceNumber (ps_raw p))\<lparr>pi_sets := pi_sets (qs ! InterfaceNumber (ps_raw p)) @ [p]\<rparr>]))) s2"
proof -
  let ?j = "InterfaceNumber (ps_raw p)" and ?C = "config_cells (full_config a raw arr qs)"
  have g1: "grown s0 (?C @ setting_cells p) s1"
    by (rule grown_trans [OF assms(2,4)])
  have x: "us_heap s1 (ps_at p) = Some (Setting (ps_raw p) (ps_arr p))"
    using grown_at [OF g1, of "ps_at p"] by (simp add: setting_cells_def)
  show ?thesis
  proof (cases "length qs \<le> ?j")
    case True
    have "UsbFreeInterfaceDesc (ps_at p) s1 = Some (drop_cells (setting_cells p) s1)"
      by (rule free_setting [OF grown_holds [OF assms(4)] assms(5)])
    moreover have "grown s0 ?C (drop_cells (setting_cells p) s1)"
      using grown_trans [OF assms(2) grown_undo [OF assms(3,4)]] by simp
    ultimately show ?thesis
      using True x by (simp add: add_setting_def)
  next
    case False
    let ?q = "qs ! ?j"
    obtain l r where qs: "qs = l @ ?q # r" and l: "length l = ?j"
      using False id_take_nth_drop [of ?j qs] by (metis leI length_take min.absorb4)
    have arr: "us_heap s1 arr = Some (Ptrs (map (\<lambda>q. Some (pi_at q)) qs))"
      using grown_at [OF g1, of arr] by (simp add: full_config_cells)
    have q: "us_heap s1 (pi_at ?q) = Some (iface_obj (pi_sets ?q))"
    proof (rule grown_at [OF g1])
      have "?q \<in> set qs"
        using False by simp
      then show "(pi_at ?q, iface_obj (pi_sets ?q)) \<in> set (?C @ setting_cells p)"
        by (auto simp: full_config_cells iface_cells_def)
    qed
    have pt: "ptr_at arr ?j s1 = Some (Some (pi_at ?q))"
      using arr False by (simp add: ptr_at_def)
    show ?thesis
    proof (cases "USB_MAX_INTERFACE_SETTING \<le> length (pi_sets ?q)")
      case True
      then show ?thesis
        using False x pt q by (simp add: add_setting_def iface_obj_def)
    next
      case room: False
      let ?q1 = "?q\<lparr>pi_sets := pi_sets ?q @ [p]\<rparr>"
      let ?s2 = "upd (pi_at ?q) (iface_obj (pi_sets ?q @ [p])) s1"
      obtain m where m: "USB_MAX_INTERFACE_SETTING - length (pi_sets ?q) = Suc m"
        using room by (metis Suc_diff_Suc not_le)
      have "wr (map (\<lambda>p. Some (ps_at p)) (pi_sets ?q) @ replicate (Suc m) None) (length (pi_sets ?q)) (Some (ps_at p)) =
          Some (map (\<lambda>p. Some (ps_at p)) (pi_sets ?q @ [p]) @ replicate m None)"
        by (simp add: list_update_append)
      moreover have "USB_MAX_INTERFACE_SETTING - length (pi_sets ?q @ [p]) = m"
        using m by simp
      ultimately have run: "add_setting arr (ps_at p) (length qs) s1 = Some (True, ?s2)"
        using False room x pt q m by (simp add: add_setting_def iface_obj_def del: replicate.simps)
      have upd: "qs[?j := ?q1] = l @ ?q1 # r"
        using qs l by (metis list_update_length)
      let ?rest = "[(a, Config raw (Some arr)), (arr, Ptrs (map (\<lambda>q. Some (pi_at q)) qs))] @ concat (map iface_cells l) @
        concat (map setting_cells (pi_sets ?q)) @ concat (map iface_cells r) @ setting_cells p"
      have "mset (?C @ setting_cells p) = mset ((pi_at ?q, iface_obj (pi_sets ?q)) # ?rest)"
      proof -
        have "concat (map iface_cells qs) = concat (map iface_cells l) @ iface_cells ?q @ concat (map iface_cells r)"
          using arg_cong [OF qs, of "\<lambda>qs. concat (map iface_cells qs)"] by (simp only: map_append list.map concat_append concat.simps)
        then show ?thesis
          by (simp add: full_config_cells iface_cells_def)
      qed
      then have "grown s0 ((pi_at ?q, iface_obj (pi_sets ?q)) # ?rest) s1"
        using g1 grown_cong by blast
      then have g2: "grown s0 ((pi_at ?q, iface_obj (pi_sets ?q @ [p])) # ?rest) ?s2"
        by (rule grown_upd)
      have at: "map (\<lambda>q. Some (pi_at q)) (l @ ?q1 # r) = map (\<lambda>q. Some (pi_at q)) qs"
      proof -
        have "map (\<lambda>q. Some (pi_at q)) qs = map (\<lambda>q. Some (pi_at q)) l @ Some (pi_at ?q) # map (\<lambda>q. Some (pi_at q)) r"
          using arg_cong [OF qs, of "map (\<lambda>q. Some (pi_at q))"] by (simp only: map_append list.map)
        then show ?thesis
          by simp
      qed
      have "mset ((pi_at ?q, iface_obj (pi_sets ?q @ [p])) # ?rest) = mset (config_cells (full_config a raw arr (qs[?j := ?q1])))"
        unfolding upd full_config_cells at by (simp add: iface_cells_def)
      then have "grown s0 (config_cells (full_config a raw arr (qs[?j := ?q1]))) ?s2"
        using g2 grown_cong by blast
      then show ?thesis
        using False room run by (auto simp: upd_def)
    qed
  qed
qed

text \<open>The settings of interface \<open>j\<close> among those that were read, in their order.\<close>

definition settings_of :: "nat \<Rightarrow> (byte list \<times> byte list list) list \<Rightarrow> (byte list \<times> byte list list) list" where
  "settings_of j acc = filter (\<lambda>st. InterfaceNumber (fst st) = j) acc"

fun settings_spec ::
  "nat \<Rightarrow> byte list \<Rightarrow> nat \<Rightarrow> nat \<Rightarrow> nat \<Rightarrow> (byte list \<times> byte list list) list \<Rightarrow> (bool \<times> (byte list \<times> byte list list) list) option"
where
  "settings_spec 0 buf base len n acc = None"
| "settings_spec (Suc F) buf base len n acc =
     (if len < 9 then Some (True, acc)
      else do {
        r \<leftarrow> setting_spec buf base len;
        (case r of
           None \<Rightarrow> Some (True, acc)
         | Some (st, used) \<Rightarrow>
             if n \<le> InterfaceNumber (fst st) then Some (False, acc)
             else if USB_MAX_INTERFACE_SETTING \<le> length (settings_of (InterfaceNumber (fst st)) acc) then Some (False, acc)
             else settings_spec F buf (base + used) (len - used) n (acc @ [st])) })"

definition shape :: "p_iface list \<Rightarrow> (byte list \<times> byte list list) list \<Rightarrow> bool" where
  "shape qs acc \<longleftrightarrow> (\<forall>j < length qs. map (\<lambda>p. (ps_raw p, eps_of p)) (pi_sets (qs ! j)) = settings_of j acc)"

lemma shape_length: "shape qs acc \<Longrightarrow> j < length qs \<Longrightarrow> length (pi_sets (qs ! j)) = length (settings_of j acc)"
proof -
  assume "shape qs acc" "j < length qs"
  then have "map (\<lambda>p. (ps_raw p, eps_of p)) (pi_sets (qs ! j)) = settings_of j acc"
    by (simp add: shape_def)
  from arg_cong [OF this, of length] show "length (pi_sets (qs ! j)) = length (settings_of j acc)"
    by simp
qed

lemma shape_add:
  assumes "shape qs acc" "j = InterfaceNumber (ps_raw p)" "j < length qs"
  shows "shape (qs[j := (qs ! j)\<lparr>pi_sets := pi_sets (qs ! j) @ [p]\<rparr>]) (acc @ [(ps_raw p, eps_of p)])"
  using assms by (auto simp: shape_def settings_of_def nth_list_update)

lemma wf_iface_add:
  assumes "\<forall>q \<in> set qs. wf_iface q" "wf_setting p" "j < length qs" "length (pi_sets (qs ! j)) < USB_MAX_INTERFACE_SETTING"
  shows "\<forall>q \<in> set (qs[j := (qs ! j)\<lparr>pi_sets := pi_sets (qs ! j) @ [p]\<rparr>]). wf_iface q"
proof
  fix q
  assume "q \<in> set (qs[j := (qs ! j)\<lparr>pi_sets := pi_sets (qs ! j) @ [p]\<rparr>])"
  then consider "q \<in> set qs" | "q = (qs ! j)\<lparr>pi_sets := pi_sets (qs ! j) @ [p]\<rparr>"
    using set_update_subset_insert by fastforce
  then show "wf_iface q"
    using assms nth_mem [OF assms(3)] by cases (auto simp: wf_iface_def)
qed

text \<open>The number of settings of a configuration.\<close>

definition total :: "p_iface list \<Rightarrow> nat" where
  "total qs = (\<Sum>q \<leftarrow> qs. length (pi_sets q))"

lemma total_add: "j < length qs \<Longrightarrow> total (qs[j := (qs ! j)\<lparr>pi_sets := pi_sets (qs ! j) @ [p]\<rparr>]) = Suc (total qs)"
  using elem_le_sum_list [of j "map (\<lambda>q. length (pi_sets q)) qs"]
  by (simp add: total_def map_update sum_list_update)

lemma total_ge: "j < length qs \<Longrightarrow> length (pi_sets (qs ! j)) \<le> total qs"
  using elem_le_sum_list [of j "map (\<lambda>q. length (pi_sets q)) qs"] by (simp add: total_def)

lemma parse_settings_refines:
  assumes "grown s0 (config_cells (full_config a raw arr qs)) s" "fresh s0" "\<forall>q \<in> set qs. wf_iface q" "shape qs acc"
    and "settings_spec F buf base len (length qs) acc = Some (b, acc')"
  shows "\<exists>ok s' qs' leak. parse_settings F pool buf base len arr (length qs) s = Some (ok, s') \<and>
    grown s0 (config_cells (full_config a raw arr qs') @ opt_cells setting_cells leak) s' \<and> us_next s \<le> us_next s' \<and>
    length qs' = length qs \<and> (\<forall>q \<in> set qs'. wf_iface q) \<and> (ok \<longrightarrow> leak = None) \<and>
    (leak \<noteq> None \<longrightarrow> 9 * 257 \<le> 9 * total qs + len) \<and> (serves pool s \<longrightarrow> ok = b \<and> shape qs' acc')"
  using assms
proof (induction F arbitrary: s qs acc base len)
  case (Suc F)
  have fr: "fresh s"
    using fresh_grown Suc.prems(1,2) by blast
  show ?case
  proof (cases "len < 9")
    case True
    then show ?thesis
      using Suc.prems by (intro exI [of _ True] exI [of _ s] exI [of _ qs] exI [of _ None]) auto
  next
    case False
    obtain r where r: "setting_spec buf base len = Some r"
      using Suc.prems(5) False by (auto split: bind_splits)
    obtain q s1 where run: "UsbParseInterfaceDesc pool buf base len s = Some (q, s1)" and nx: "us_next s \<le> us_next s1"
      and ref: "case q of None \<Rightarrow> grown s [] s1 \<and> (r = None \<or> \<not> serves pool s)
        | Some (x, used) \<Rightarrow> \<exists>p. x = ps_at p \<and> wf_setting p \<and> grown s (setting_cells p) s1 \<and> r = Some ((ps_raw p, eps_of p), used)"
      using setting_refines [OF fr r, of pool] by blast
    show ?thesis
    proof (cases q)
      case None
      then have "grown s0 (config_cells (full_config a raw arr qs)) s1"
        using grown_trans [OF Suc.prems(1), of "[]" s1] ref by simp
      then show ?thesis
        using Suc.prems False None run ref r nx
        by (intro exI [of _ True] exI [of _ s1] exI [of _ qs] exI [of _ None]) auto
    next
      case (Some xu)
      obtain p used where p: "xu = (ps_at p, used)" "wf_setting p" "grown s (setting_cells p) s1" "r = Some ((ps_raw p, eps_of p), used)"
        using ref Some by (auto split: prod.splits)
      have u: "9 \<le> used" "used \<le> len"
        using setting_spec_bounds r p(4) by blast+
      let ?j = "InterfaceNumber (ps_raw p)"
      let ?qs = "qs[?j := (qs ! ?j)\<lparr>pi_sets := pi_sets (qs ! ?j) @ [p]\<rparr>]"
      note add = add_setting_refines [OF Suc.prems(2,1) fr p(3,2) Suc.prems(3)]
      consider "length qs \<le> ?j" | "?j < length qs" "USB_MAX_INTERFACE_SETTING \<le> length (pi_sets (qs ! ?j))"
        | "?j < length qs" "length (pi_sets (qs ! ?j)) < USB_MAX_INTERFACE_SETTING"
        by linarith
      then show ?thesis
      proof cases
        case 1
        then obtain s2 where "add_setting arr (ps_at p) (length qs) s1 = Some (False, s2)"
          "grown s0 (config_cells (full_config a raw arr qs)) s2" "us_next s1 \<le> us_next s2"
          using add by auto
        then show ?thesis
          using Suc.prems False Some p r run 1 nx
          by (intro exI [of _ False] exI [of _ s2] exI [of _ qs] exI [of _ None]) auto
      next
        case 2
        then have "add_setting arr (ps_at p) (length qs) s1 = Some (False, s1)"
          using add by auto
        moreover have "grown s0 (config_cells (full_config a raw arr qs) @ setting_cells p) s1"
          by (rule grown_trans [OF Suc.prems(1) p(3)])
        moreover have "256 \<le> total qs"
          using 2 total_ge [of ?j qs] by (simp add: USB_MAX_INTERFACE_SETTING_def)
        ultimately show ?thesis
          using Suc.prems False Some p r run 2 nx u shape_length [OF Suc.prems(4) 2(1)]
          by (intro exI [of _ False] exI [of _ s1] exI [of _ qs] exI [of _ "Some p"]) auto
      next
        case 3
        then obtain s2 where ad: "add_setting arr (ps_at p) (length qs) s1 = Some (True, s2)" "us_next s1 \<le> us_next s2"
          and g2: "grown s0 (config_cells (full_config a raw arr ?qs)) s2"
          using add by auto
        have spec: "settings_spec F buf (base + used) (len - used) (length ?qs) (acc @ [(ps_raw p, eps_of p)]) = Some (b, acc')"
          using Suc.prems(5) False r p(4) 3 shape_length [OF Suc.prems(4) 3(1)] by simp
        obtain ok s' qs' leak where IH: "parse_settings F pool buf (base + used) (len - used) arr (length ?qs) s2 = Some (ok, s')"
          "grown s0 (config_cells (full_config a raw arr qs') @ opt_cells setting_cells leak) s'" "us_next s2 \<le> us_next s'"
          "length qs' = length ?qs" "\<forall>q \<in> set qs'. wf_iface q" "ok \<longrightarrow> leak = None"
          "leak \<noteq> None \<longrightarrow> 9 * 257 \<le> 9 * total ?qs + (len - used)" "serves pool s2 \<longrightarrow> ok = b \<and> shape qs' acc'"
          using Suc.IH [OF g2 Suc.prems(2) wf_iface_add [OF Suc.prems(3) p(2) 3] shape_add [OF Suc.prems(4) refl 3(1)] spec] by blast
        have "serves pool s \<longrightarrow> serves pool s2"
          using serves_mono [of pool s s2] nx ad(2) by simp
        moreover have "parse_settings (Suc F) pool buf base len arr (length qs) s = Some (ok, s')"
          using False run Some p(1) ad(1) IH(1) by simp
        moreover have "leak \<noteq> None \<longrightarrow> 9 * 257 \<le> 9 * total qs + len"
          using IH(7) total_add [OF 3(1), of p] u by linarith
        ultimately show ?thesis
          using IH(2-6,8) nx ad(2)
          by (intro exI [of _ ok] exI [of _ s'] exI [of _ qs'] exI [of _ leak]) simp
      qed
    qed
  qed
qed simp

lemma desc_spec_total:
  assumes "base + len < length buf"
  shows "desc_spec buf base len ty \<noteq> None"
proof -
  have len7: "desc_len ty \<le> 18"
    by (simp add: desc_len_def)
  obtain r where r: "skip_to buf base len ty 0 = Some r"
    using skip_to_total [OF assms] by blast
  show ?thesis
    using assms by (auto simp: desc_spec_def r rd_def rd_range_def split: option.splits bind_splits)
qed

lemma eps_spec_total: "base + len < length buf \<Longrightarrow> eps_spec k buf base len off \<noteq> None"
proof (induction k arbitrary: off)
  case (Suc k)
  show ?case
  proof (cases "off < len")
    case True
    obtain d where d: "desc_spec buf (base + off) (len - off) USB_DESC_TYPE_ENDPOINT = Some d"
      using desc_spec_total [of "base + off" "len - off" buf] Suc.prems True by fastforce
    show ?thesis
    proof (cases d)
      case (Some ru)
      then show ?thesis
        using Suc.IH [OF Suc.prems, of "off + snd ru"] True d by (cases ru) auto
    qed (use d True in simp)
  qed simp
qed simp

lemma setting_spec_total:
  assumes "base + len < length buf"
  shows "setting_spec buf base len \<noteq> None"
proof -
  obtain d where d: "desc_spec buf base len USB_DESC_TYPE_INTERFACE = Some d"
    using desc_spec_total [OF assms] by blast
  show ?thesis
  proof (cases d)
    case (Some ru)
    then show ?thesis
      using eps_spec_total [OF assms, of "NumEndpoints (fst ru)" "snd ru"] d by (cases ru) (auto simp: setting_spec_def)
  qed (simp add: setting_spec_def d)
qed

lemma settings_spec_total: "base + len < length buf \<Longrightarrow> len < F \<Longrightarrow> settings_spec F buf base len n acc \<noteq> None"
proof (induction F arbitrary: base len acc)
  case (Suc F)
  obtain r where r: "setting_spec buf base len = Some r"
    using setting_spec_total Suc.prems(1) by blast
  show ?case
  proof (cases r)
    case (Some q)
    obtain raw eps used where q: "q = ((raw, eps), used)"
      by (metis prod.exhaust)
    have "9 \<le> used" "used \<le> len"
      using setting_spec_bounds [of buf base len raw eps used] r Some q by auto
    then have "settings_spec F buf (base + used) (len - used) n (acc @ [(raw, eps)]) \<noteq> None"
      using Suc.prems by (intro Suc.IH) auto
    then show ?thesis
      using r Some q by auto
  qed (auto simp: r)
qed simp

text \<open>The configuration: its descriptor, and the settings in the order in which they were read.\<close>

definition config_spec :: "byte list \<Rightarrow> nat \<Rightarrow> (byte list \<times> (byte list \<times> byte list list) list) option option" where
  "config_spec buf len =
     do {
       r \<leftarrow> desc_spec buf 0 len USB_DESC_TYPE_CONFIG;
       (case r of
          None \<Rightarrow> Some None
        | Some (raw, used) \<Rightarrow> do {
            (ok, sts) \<leftarrow> settings_spec (len + 1) buf used (len - used) (NumInterfaces raw) [];
            Some (if ok then Some (raw, sts) else None) }) }"

lemma config_spec_total:
  assumes "len < length buf"
  shows "config_spec buf len \<noteq> None"
proof -
  obtain r where r: "desc_spec buf 0 len USB_DESC_TYPE_CONFIG = Some r"
    using desc_spec_total [of 0 len buf] assms by auto
  show ?thesis
  proof (cases r)
    case (Some q)
    obtain raw used where q: "q = (raw, used)"
      by (cases q)
    have "used \<le> len"
      using desc_spec_bounds [of buf 0 len USB_DESC_TYPE_CONFIG raw used] r Some q by simp
    then have "settings_spec (len + 1) buf used (len - used) (NumInterfaces raw) [] \<noteq> None"
      using assms by (intro settings_spec_total) auto
    then show ?thesis
      using r Some q by (auto simp: config_spec_def simp del: settings_spec.simps)
  qed (simp add: config_spec_def r)
qed

lemma UsbParseConfigDesc_refines:
  assumes "fresh s" "config_spec buf len = Some r"
  shows "\<exists>q s' leak. UsbParseConfigDesc pool buf len s = Some (q, s') \<and> (leak \<noteq> None \<longrightarrow> 9 * 258 \<le> len) \<and> us_next s \<le> us_next s' \<and>
    (case q of
       None \<Rightarrow> grown s (opt_cells setting_cells leak) s' \<and> (serves pool s \<longrightarrow> r = None)
     | Some a \<Rightarrow> leak = None \<and> (\<exists>raw arr qs sts. wf_config (full_config a raw arr qs) \<and> grown s (config_cells (full_config a raw arr qs)) s' \<and>
         (serves pool s \<longrightarrow> r = Some (raw, sts) \<and> length qs = NumInterfaces raw \<and> shape qs sts)))"
proof -
  obtain d where d: "desc_spec buf 0 len USB_DESC_TYPE_CONFIG = Some d"
    using assms(2) by (auto simp: config_spec_def split: bind_splits)
  show ?thesis
  proof (cases d)
    case None
    then show ?thesis
      using d assms(2) by (intro exI [of _ None] exI [of _ s]) (auto simp: UsbParseConfigDesc_def UsbCreateDesc_spec config_spec_def)
  next
    case (Some ru)
    obtain raw used where ru: "ru = (raw, used)"
      by (cases ru)
    have len9: "desc_len USB_DESC_TYPE_CONFIG = 9"
      by (simp add: desc_len_def USB_DESC_TYPE_DEVICE_def USB_DESC_TYPE_CONFIG_def)
    have u: "9 \<le> used" "used \<le> len"
      using desc_spec_bounds [of buf 0 len USB_DESC_TYPE_CONFIG raw used] d Some ru len9 by auto
    obtain pa s1 where al: "AllocPool pool (Config raw None) s = (pa, s1)"
      by (cases "AllocPool pool (Config raw None) s")
    have cr: "UsbCreateDesc pool buf 0 len USB_DESC_TYPE_CONFIG s = Some (map_option (\<lambda>a. (a, used)) pa, s1)"
      by (simp add: UsbCreateDesc_spec d Some ru desc_obj_simps al)
    obtain b sts where sp: "settings_spec (len + 1) buf used (len - used) (NumInterfaces raw) [] = Some (b, sts)"
      and rr: "r = (if b then Some (raw, sts) else None)"
      using assms(2) by (auto simp: config_spec_def d Some ru split: bind_splits)
    show ?thesis
    proof (cases pa)
      case None
      then have "grown s [] s1" "\<not> serves pool s"
        using grown_alloc_None al by blast+
      then show ?thesis
        using None cr grown_next [of s "[]" s1] by (intro exI [of _ None] exI [of _ s1]) (auto simp: UsbParseConfigDesc_def)
    next
      case (Some a)
      let ?n = "NumInterfaces raw"
      have g1: "grown s [(a, Config raw None)] s1"
        using grown_alloc_Some al Some by blast
      have h1: "us_heap s1 a = Some (Config raw None)"
        using grown_at [OF g1] by simp
      note parse = UsbParseConfigDesc_def cr Some h1
      have free: "\<exists>t'. UsbFreeConfigDesc a t = Some t' \<and> us_next t' = us_next t \<and> grown s ds t'"
        if "grown s (config_cells c @ ds) t" "wf_config c" "pc_at c = a" for c ds t
      proof -
        have h: "holds (config_cells c) t"
          using grown_holds [OF that(1)] by (simp add: holds_append)
        have "grown s ds (drop_cells (config_cells c) t)"
          by (rule grown_drop_part [OF assms(1) that(1)])
        then show ?thesis
          using free_config [OF h that(2)] that(3) by auto
      qed
      obtain pe s2 where al2: "AllocPool pool (Ptrs (replicate ?n None)) s1 = (pe, s2)"
        by (cases "AllocPool pool (Ptrs (replicate ?n None)) s1")
      show ?thesis
      proof (cases pe)
        case None
        let ?c = "\<lparr>pc_at = a, pc_raw = raw, pc_arr = None, pc_ifs = []\<rparr>"
        have n: "grown s1 [] s2" "\<not> serves pool s1"
          using grown_alloc_None al2 None by blast+
        then have "grown s (config_cells ?c @ []) s2" "\<not> serves pool s" "us_next s \<le> us_next s2"
          using grown_trans [OF g1 n(1)] serves_mono [of pool s s1] grown_next [OF g1] grown_next [OF n(1)] by (auto simp: config_cells_def)
        moreover have "wf_config ?c"
          by (simp add: wf_config_def)
        ultimately show ?thesis
          using free [of ?c "[]" s2] al2 None by (force simp: parse)
      next
        case (Some arr)
        let ?s3 = "upd a (Config raw (Some arr)) s2"
        have n: "grown s1 [(arr, Ptrs (replicate ?n None))] s2"
          using grown_alloc_Some al2 Some by blast
        have "grown s ((a, Config raw None) # [(arr, Ptrs (replicate ?n None))]) s2"
          using grown_trans [OF g1 n] by simp
        then have "grown s ((a, Config raw (Some arr)) # [(arr, Ptrs (replicate ?n None))]) ?s3"
          by (rule grown_upd)
        then have g3: "grown s ((arr, Ptrs ([] @ replicate ?n None)) # [(a, Config raw (Some arr))]) ?s3"
          by (rule grown_cong [rotated]) simp
        obtain ok s4 as m where mk: "make_ifs ?n pool 0 arr ?s3 = Some (ok, s4)"
          and g4: "grown s ((arr, Ptrs ([] @ map Some as @ replicate m None)) # map (\<lambda>a. (a, iface_obj [])) as @ [(a, Config raw (Some arr))]) s4"
          and r4: "us_next ?s3 \<le> us_next s4" "length as + m = ?n" "ok \<longrightarrow> m = 0" "\<not> ok \<longrightarrow> \<not> serves pool ?s3"
          using make_ifs_refines [OF g3, of 0 pool] unfolding list.size by blast
        have nx3: "us_next s \<le> us_next ?s3"
          using grown_next [OF g3] .
        let ?qs = "map (\<lambda>x. \<lparr>pi_at = x, pi_sets = []\<rparr>) as"
        let ?c = "\<lparr>pc_at = a, pc_raw = raw, pc_arr = Some arr, pc_ifs = map Some ?qs @ replicate m None\<rparr>"
        have wf4: "wf_config ?c" "\<forall>q \<in> set ?qs. wf_iface q"
          using r4(2) by (auto simp: wf_config_def wf_iface_def)
        have cells4: "grown s (config_cells ?c) s4"
          using g4 by (auto simp: config_cells_def iface_cells_def comp_def elim!: grown_cong [rotated])
        show ?thesis
        proof (cases ok)
          case False
          then show ?thesis
            using free [of ?c "[]" s4] cells4 wf4(1) r4(1,4) nx3 serves_mono [of pool s ?s3] mk al2 Some by (force simp: parse)
        next
          case True
          then have len_qs: "length ?qs = ?n" and full: "?c = full_config a raw arr ?qs"
            using r4(2,3) by (simp_all add: full_config_def)
          have sh: "shape ?qs []"
            by (simp add: shape_def settings_of_def)
          obtain ok1 s5 qs leak where run: "parse_settings (len + 1) pool buf used (len - used) arr ?n s4 = Some (ok1, s5)"
            and g5: "grown s (config_cells (full_config a raw arr qs) @ opt_cells setting_cells leak) s5"
            and r5: "us_next s4 \<le> us_next s5" "length qs = ?n" "\<forall>q \<in> set qs. wf_iface q" "ok1 \<longrightarrow> leak = None"
              "leak \<noteq> None \<longrightarrow> 9 * 257 \<le> 9 * total ?qs + (len - used)" "serves pool s4 \<longrightarrow> ok1 = b \<and> shape qs sts"
            using parse_settings_refines [OF cells4 [unfolded full] assms(1) wf4(2) sh sp [folded len_qs], of pool] unfolding len_qs by blast
          have wf5: "wf_config (full_config a raw arr qs)"
            using r5(2,3) by (auto simp: wf_config_def full_config_def)
          have sv: "serves pool s \<longrightarrow> serves pool s4"
            using serves_mono [of pool s s4] nx3 r4(1) by simp
          have "total ?qs = 0"
            by (simp add: total_def comp_def)
          then have lk: "leak \<noteq> None \<longrightarrow> 9 * 258 \<le> len"
            using r5(5) u by auto
          show ?thesis
          proof (cases ok1)
            case ok1: True
            then show ?thesis
              using run mk True al2 Some g5 r5(1,2,4,6) wf5 sv rr nx3 r4(1)
              by (intro exI [of _ "Some a"] exI [of _ s5] exI [of _ None]) (auto simp: parse)
          next
            case nok: False
            obtain t' where "UsbFreeConfigDesc a s5 = Some t'" "us_next t' = us_next s5" "grown s (opt_cells setting_cells leak) t'"
              using free [OF g5 wf5] by (auto simp: full_config_def)
            then show ?thesis
              using run mk True nok al2 Some r5(1,6) sv rr nx3 r4(1) lk
              by (intro exI [of _ None] exI [of _ t'] exI [of _ leak]) (auto simp: parse)
          qed
        qed
      qed
    qed
  qed
qed

text \<open>With a readable byte after the data, the parser returns on any bytes.\<close>

lemma parse_config_frees:
  assumes "fresh s" "len < length buf"
  shows "\<exists>q s1 leak. UsbParseConfigDesc pool buf len s = Some (q, s1) \<and> (leak \<noteq> None \<longrightarrow> 2322 \<le> len) \<and>
    (case q of
       None \<Rightarrow> us_heap s1 = us_heap s ++ map_of (opt_cells setting_cells leak)
     | Some a \<Rightarrow> \<exists>s2. UsbFreeConfigDesc a s1 = Some s2 \<and> us_heap s2 = us_heap s)"
proof -
  obtain r where r: "config_spec buf len = Some r"
    using config_spec_total [OF assms(2)] by blast
  obtain q s1 leak where run: "UsbParseConfigDesc pool buf len s = Some (q, s1)" and leak: "leak \<noteq> None \<longrightarrow> 9 * 258 \<le> len"
    and ref: "case q of
       None \<Rightarrow> grown s (opt_cells setting_cells leak) s1 \<and> (serves pool s \<longrightarrow> r = None)
     | Some a \<Rightarrow> leak = None \<and> (\<exists>raw arr qs sts. wf_config (full_config a raw arr qs) \<and> grown s (config_cells (full_config a raw arr qs)) s1 \<and>
         (serves pool s \<longrightarrow> r = Some (raw, sts) \<and> length qs = NumInterfaces raw \<and> shape qs sts))"
    using UsbParseConfigDesc_refines [OF assms(1) r, of pool] by blast
  show ?thesis
  proof (cases q)
    case None
    then show ?thesis
      using run leak ref by (auto simp: grown_def)
  next
    case (Some a)
    then obtain c where c: "wf_config c" "grown s (config_cells c) s1" "pc_at c = a"
      using ref by (auto simp: full_config_def)
    have "UsbFreeConfigDesc a s1 = Some (drop_cells (config_cells c) s1)"
      using free_config [OF grown_holds [OF c(2)] c(1)] c(3) by simp
    then show ?thesis
      using run Some leak grown_drop [OF assms(1) c(2)] by auto
  qed
qed

section \<open>Without a byte after the data\<close>

text \<open>
  The parser goes along the chain of the records, from each to the one that its length points at. A chain is
  \<open>stray\<close> when it comes to the last byte: the type of a record that begins there is beyond the data.
\<close>

function stray :: "byte list \<Rightarrow> nat \<Rightarrow> bool" where
  "stray buf i =
     (if length buf \<le> i then False
      else if i + 1 = length buf then True
      else if buf ! i = 0 then False
      else stray buf (i + unat (buf ! i)))"
  by pat_completeness auto
termination
proof (relation "measure (\<lambda>(buf, i). length buf - i)", simp)
  fix buf :: "byte list" and i :: nat
  assume "\<not> length buf \<le> i" "buf ! i \<noteq> 0"
  moreover from this have "unat (buf ! i) \<noteq> 0"
    by (simp add: unat_eq_zero)
  ultimately show "((buf, i + unat (buf ! i)), buf, i) \<in> measure (\<lambda>(buf, i). length buf - i)"
    by simp
qed

declare stray.simps [simp del]

lemma stray_next: "\<not> stray buf i \<Longrightarrow> i < length buf \<Longrightarrow> i + 1 < length buf \<and> \<not> stray buf (i + unat (buf ! i))"
  using stray.simps [of buf i] by (cases "buf ! i = 0") (auto split: if_splits)

lemma rd_snoc: "i < length buf \<Longrightarrow> rd (buf @ [x]) i = rd buf i"
  by (simp add: rd_def nth_append)

lemma skip_to_snoc:
  "base + len = length buf \<Longrightarrow> \<not> stray buf (base + off) \<Longrightarrow>
   skip_to (buf @ [x]) base len ty off = skip_to buf base len ty off \<and>
   (\<forall>i. skip_to buf base len ty off = Some (Some i) \<longrightarrow> \<not> stray buf (base + i))"
proof (induction buf base len ty off rule: skip_to.induct)
  case (1 buf base len ty off)
  show ?case
  proof (cases "off < len")
    case False
    then show ?thesis
      using 1(3) by (subst (1 2 3) skip_to.simps) auto
  next
    case True
    then have i: "base + off < length buf" "base + off + 1 < length buf" "\<not> stray buf (base + off + unat (buf ! (base + off)))"
      using stray_next [OF 1(3)] 1(2) by auto
    let ?l = "buf ! (base + off)"
    have rds: "rd (buf @ [x]) (base + off + 1) = Some (buf ! (base + off + 1))" "rd buf (base + off + 1) = Some (buf ! (base + off + 1))"
      "rd (buf @ [x]) (base + off) = Some ?l" "rd buf (base + off) = Some ?l"
      using i by (simp_all add: rd_def nth_append)
    show ?thesis
    proof (cases "buf ! (base + off + 1) = ty \<or> len \<le> off + unat ?l")
      case True
      then show ?thesis
        using 1(3) rds by (subst (1 2 3) skip_to.simps) auto
    next
      case False
      then have n: "base + (off + unat ?l) < length buf" "\<not> stray buf (base + (off + unat ?l))"
        using i(3) 1(2) by (auto simp: add.assoc)
      let ?l1 = "buf ! (base + (off + unat ?l))"
      have rdn: "rd (buf @ [x]) (base + (off + unat ?l)) = Some ?l1" "rd buf (base + (off + unat ?l)) = Some ?l1"
        using n by (simp_all add: rd_def nth_append)
      show ?thesis
      proof (cases "?l1 = 0")
        case True
        then show ?thesis
          using False \<open>off < len\<close> rds rdn by (subst (1 2 3) skip_to.simps) auto
      next
        case nz: False
        have "skip_to (buf @ [x]) base len ty (off + unat ?l) = skip_to buf base len ty (off + unat ?l) \<and>
            (\<forall>i. skip_to buf base len ty (off + unat ?l) = Some (Some i) \<longrightarrow> \<not> stray buf (base + i))"
          using 1(1) [of "buf ! (base + off + 1)" ?l ?l1] False \<open>off < len\<close> rds rdn nz n(2) 1(2) by auto
        then show ?thesis
          using False \<open>off < len\<close> rds rdn nz by (subst (1 2 3) skip_to.simps) auto
      qed
    qed
  qed
qed

text \<open>A run that does not fault on the data is the same with one more byte behind them.\<close>

definition extends_run :: "'a option \<Rightarrow> 'a option \<Rightarrow> bool" where
  "extends_run f f' \<longleftrightarrow> (f \<noteq> None \<longrightarrow> f' = f)"

lemma extends_run_refl: "extends_run f f"
  by (simp add: extends_run_def)

lemma extends_run_bind:
  "extends_run f f' \<Longrightarrow> (\<And>v. f = Some v \<Longrightarrow> extends_run (g v) (g' v)) \<Longrightarrow> extends_run (Option.bind f g) (Option.bind f' g')"
  unfolding extends_run_def by (cases f) auto

lemma extends_run_case:
  "extends_run f f' \<Longrightarrow> (\<And>v. f = Some v \<Longrightarrow> extends_run (g v) (g' v)) \<Longrightarrow>
   extends_run (case f of None \<Rightarrow> None | Some v \<Rightarrow> g v) (case f' of None \<Rightarrow> None | Some v \<Rightarrow> g' v)"
  unfolding extends_run_def by (cases f) auto

lemma extends_run_if:
  "(c \<Longrightarrow> extends_run f f') \<Longrightarrow> (\<not> c \<Longrightarrow> extends_run g g') \<Longrightarrow> extends_run (if c then f else g) (if c then f' else g')"
  by simp

lemma extends_run_rd: "extends_run (rd buf i) (rd (buf @ [x]) i)" "extends_run (rd_range buf i n) (rd_range (buf @ [x]) i n)"
  by (auto simp: extends_run_def rd_def rd_range_def nth_append)

lemmas extends_run_intros = extends_run_refl extends_run_rd extends_run_bind extends_run_if

lemma skip_to_extends: "extends_run (skip_to buf base len ty off) (skip_to (buf @ [x]) base len ty off)"
proof (induction buf base len ty off rule: skip_to.induct)
  case (1 buf base len ty off)
  show ?case
    by (subst (1 2) skip_to.simps)
      (intro extends_run_if extends_run_refl extends_run_case extends_run_rd; rule 1; assumption)
qed

lemma UsbCreateDesc_extends: "extends_run (UsbCreateDesc pool buf base len ty s) (UsbCreateDesc pool (buf @ [x]) base len ty s)"
  unfolding UsbCreateDesc_def
  by (rule extends_run_bind [OF skip_to_extends]) (auto intro!: extends_run_intros split: option.split)

lemma parse_eps_extends:
  "extends_run (parse_eps k pool buf base len i off arr s) (parse_eps k pool (buf @ [x]) base len i off arr s)"
  by (induction k arbitrary: i off s)
    (auto intro!: extends_run_intros UsbCreateDesc_extends split: option.split)

lemma UsbParseInterfaceDesc_extends:
  "extends_run (UsbParseInterfaceDesc pool buf base len s) (UsbParseInterfaceDesc pool (buf @ [x]) base len s)"
  unfolding UsbParseInterfaceDesc_def Let_def
  by (rule extends_run_bind [OF UsbCreateDesc_extends])
    (auto intro!: extends_run_intros parse_eps_extends split: option.split uobj.split prod.split)

lemma parse_settings_extends:
  "extends_run (parse_settings k pool buf base len arr n s) (parse_settings k pool (buf @ [x]) base len arr n s)"
  by (induction k arbitrary: base len s)
    (auto intro!: extends_run_intros UsbParseInterfaceDesc_extends split: option.split)

lemma UsbParseConfigDesc_extends: "extends_run (UsbParseConfigDesc pool buf len s) (UsbParseConfigDesc pool (buf @ [x]) len s)"
  unfolding UsbParseConfigDesc_def Let_def
  by (rule extends_run_bind [OF UsbCreateDesc_extends])
    (auto intro!: extends_run_intros parse_settings_extends split: option.split uobj.split prod.split)

text \<open>Along a chain that is not stray, no read is missing: the run is the same with one more byte, fault or not.\<close>

lemma UsbCreateDesc_chain:
  assumes "base + len = length buf" "\<not> stray buf base"
  shows "UsbCreateDesc pool (buf @ [x]) base len ty s = UsbCreateDesc pool buf base len ty s \<and>
    (\<forall>a used s1. UsbCreateDesc pool buf base len ty s = Some (Some (a, used), s1) \<longrightarrow> used \<le> len \<and> \<not> stray buf (base + used))"
proof -
  have skip: "skip_to (buf @ [x]) base len ty 0 = skip_to buf base len ty 0"
    using skip_to_snoc [of base len buf 0 x ty] assms by simp
  have next_rec: "base + i + 1 < length buf" "\<not> stray buf (base + i + unat (buf ! (base + i)))"
    if "skip_to buf base len ty 0 = Some (Some i)" "\<not> len \<le> i" for i
    using skip_to_snoc [of base len buf 0 x ty] stray_next [of buf "base + i"] assms that by auto
  have reads: "rd (buf @ [x]) (base + i) = rd buf (base + i)" "rd (buf @ [x]) (base + i + 1) = rd buf (base + i + 1)"
    if "skip_to buf base len ty 0 = Some (Some i)" "\<not> len \<le> i" for i
    using next_rec(1) [OF that] rd_snoc [of "base + i" buf x] rd_snoc [of "base + i + 1" buf x] by simp_all
  have ranges: "rd_range (buf @ [x]) (base + i) (desc_len ty) = rd_range buf (base + i) (desc_len ty)"
    if "\<not> len < i + unat hl" "\<not> unat hl < desc_len ty" for i and hl :: byte
    using that assms(1) by (simp add: rd_range_def)
  show ?thesis
  proof (intro conjI allI impI)
    show "UsbCreateDesc pool (buf @ [x]) base len ty s = UsbCreateDesc pool buf base len ty s"
      unfolding UsbCreateDesc_def skip using reads ranges
      by (auto intro!: Option.bind_cong split: option.split)
  next
    fix a used s1
    assume "UsbCreateDesc pool buf base len ty s = Some (Some (a, used), s1)"
    then obtain off hl where o: "skip_to buf base len ty 0 = Some (Some off)" "\<not> len \<le> off" "rd buf (base + off) = Some hl"
      "\<not> len < off + unat hl" "used = off + unat hl"
      by (auto simp: UsbCreateDesc_def Let_def split: bind_splits option.splits prod.splits if_splits)
    then show "used \<le> len" "\<not> stray buf (base + used)"
      using next_rec(2) [OF o(1,2)] by (auto simp: rd_def add.assoc split: if_splits)
  qed
qed

lemma parse_eps_chain:
  "base + len = length buf \<Longrightarrow> off \<le> len \<Longrightarrow> \<not> stray buf (base + off) \<Longrightarrow>
   parse_eps k pool (buf @ [x]) base len i off arr s = parse_eps k pool buf base len i off arr s \<and>
   (\<forall>ok off' s'. parse_eps k pool buf base len i off arr s = Some (ok, off', s') \<longrightarrow> off' \<le> len \<and> \<not> stray buf (base + off'))"
proof (induction k arbitrary: i off s)
  case (Suc k)
  let ?c = "UsbCreateDesc pool buf (base + off) (len - off) USB_DESC_TYPE_ENDPOINT s"
  have at: "base + off + (len - off) = length buf"
    using Suc.prems by simp
  note c = UsbCreateDesc_chain [OF at Suc.prems(3), of pool x USB_DESC_TYPE_ENDPOINT s]
  have IH: "parse_eps k pool (buf @ [x]) base len (i + 1) (off + used) arr s2 = parse_eps k pool buf base len (i + 1) (off + used) arr s2 \<and>
      (\<forall>ok off' s'. parse_eps k pool buf base len (i + 1) (off + used) arr s2 = Some (ok, off', s') \<longrightarrow>
        off' \<le> len \<and> \<not> stray buf (base + off'))" if "?c = Some (Some (ep, used), s1)" for ep used s1 s2
  proof (rule Suc.IH [OF Suc.prems(1)])
    have "used \<le> len - off" "\<not> stray buf (base + off + used)"
      using c that by blast+
    then show "off + used \<le> len" "\<not> stray buf (base + (off + used))"
      using Suc.prems(2) by (simp_all add: add.assoc)
  qed
  then show ?case
    using c Suc.prems(2,3)
    by (auto intro!: Option.bind_cong split: option.split option.splits bind_splits prod.splits)
qed simp

lemma UsbParseInterfaceDesc_chain:
  assumes "base + len = length buf" "\<not> stray buf base"
  shows "UsbParseInterfaceDesc pool (buf @ [x]) base len s = UsbParseInterfaceDesc pool buf base len s \<and>
    (\<forall>a used s1. UsbParseInterfaceDesc pool buf base len s = Some (Some (a, used), s1) \<longrightarrow> used \<le> len \<and> \<not> stray buf (base + used))"
proof -
  note c = UsbCreateDesc_chain [OF assms, of pool x USB_DESC_TYPE_INTERFACE s]
  have eps: "parse_eps k pool (buf @ [x]) base len 0 used e s2 = parse_eps k pool buf base len 0 used e s2"
    "\<And>ok off' s'. parse_eps k pool buf base len 0 used e s2 = Some (ok, off', s') \<Longrightarrow> off' \<le> len \<and> \<not> stray buf (base + off')"
    if "UsbCreateDesc pool buf base len USB_DESC_TYPE_INTERFACE s = Some (Some (a, used), s1)" for a used s1 k e s2
    using parse_eps_chain [OF assms(1)] c that by blast+
  show ?thesis
  proof (intro conjI allI impI)
    show "UsbParseInterfaceDesc pool (buf @ [x]) base len s = UsbParseInterfaceDesc pool buf base len s"
      unfolding UsbParseInterfaceDesc_def Let_def using c eps(1)
      by (auto intro!: Option.bind_cong split: option.split uobj.split prod.split)
  next
    fix a used s1
    assume "UsbParseInterfaceDesc pool buf base len s = Some (Some (a, used), s1)"
    then obtain u s2 where u: "UsbCreateDesc pool buf base len USB_DESC_TYPE_INTERFACE s = Some (Some (a, u), s2)"
      "used = u \<or> (\<exists>k e s3 ok s'. parse_eps k pool buf base len 0 u e s3 = Some (ok, used, s'))"
      unfolding UsbParseInterfaceDesc_def Let_def
      by (auto split: option.splits uobj.splits prod.splits bind_splits if_splits; blast)
    then show "used \<le> len" "\<not> stray buf (base + used)"
      using c eps(2) [OF u(1)] by blast+
  qed
qed

lemma parse_settings_chain:
  "base + len = length buf \<Longrightarrow> \<not> stray buf base \<Longrightarrow>
   parse_settings k pool (buf @ [x]) base len arr n s = parse_settings k pool buf base len arr n s"
proof (induction k arbitrary: base len s)
  case (Suc k)
  note c = UsbParseInterfaceDesc_chain [OF Suc.prems, of pool x s]
  have IH: "parse_settings k pool (buf @ [x]) (base + used) (len - used) arr n s2 = parse_settings k pool buf (base + used) (len - used) arr n s2"
    if "UsbParseInterfaceDesc pool buf base len s = Some (Some (a, used), s1)" for a used s1 s2
  proof (rule Suc.IH)
    have "used \<le> len" "\<not> stray buf (base + used)"
      using c that by blast+
    then show "base + used + (len - used) = length buf" "\<not> stray buf (base + used)"
      using Suc.prems(1) by simp_all
  qed
  then show ?case
    using c by (auto intro!: Option.bind_cong split: option.split)
qed simp

lemma UsbParseConfigDesc_chain:
  assumes "\<not> stray buf 0"
  shows "UsbParseConfigDesc pool (buf @ [x]) (length buf) s = UsbParseConfigDesc pool buf (length buf) s"
proof -
  note c = UsbCreateDesc_chain [of 0 "length buf" buf, OF _ assms, of pool x USB_DESC_TYPE_CONFIG s, simplified]
  have sets: "parse_settings k pool (buf @ [x]) used (length buf - used) arr n s2 = parse_settings k pool buf used (length buf - used) arr n s2"
    if "UsbCreateDesc pool buf 0 (length buf) USB_DESC_TYPE_CONFIG s = Some (Some (a, used), s1)" for a used s1 k arr n s2
    using parse_settings_chain [of used "length buf - used" buf] c that by auto
  show ?thesis
    unfolding UsbParseConfigDesc_def Let_def using c sets
    by (auto simp del: parse_settings.simps intro!: Option.bind_cong split: option.split uobj.split prod.split)
qed

text \<open>C27. Parsing a configuration frees what it must, whatever bytes the device sent and whichever allocations fail, in
  a buffer of exactly the length of the data, as the caller allocates it, or a longer one. The only fault that there is
  is the read of the one byte behind the data, and it takes a chain of records that leaves a single byte at the end of a
  buffer of exactly that length. In every other run a configuration that is returned is released by
  \<open>UsbFreeConfigDesc\<close> without a fault and without a rest; when none is returned, everything is freed, except that a
  configuration of at least 2322 bytes, with an interface of more than 256 settings, leaves one setting behind.\<close>

theorem usb_config_frees_all:
  assumes "fresh s" "len \<le> length buf"
  shows "case UsbParseConfigDesc pool buf len s of
      None \<Rightarrow> len = length buf \<and> stray buf 0
    | Some (q, s1) \<Rightarrow> \<exists>leak. (leak \<noteq> None \<longrightarrow> 2322 \<le> len) \<and>
        (case q of
           None \<Rightarrow> us_heap s1 = us_heap s ++ map_of (opt_cells setting_cells leak)
         | Some a \<Rightarrow> \<exists>s2. UsbFreeConfigDesc a s1 = Some s2 \<and> us_heap s2 = us_heap s)"
proof (cases "UsbParseConfigDesc pool buf len s")
  case None
  then have "len = length buf"
    using parse_config_frees [OF assms(1), of len buf pool] assms(2) by fastforce
  moreover have "stray buf 0"
  proof (rule ccontr)
    assume "\<not> stray buf 0"
    from UsbParseConfigDesc_chain [OF this, of pool 0 s] show False
      using parse_config_frees [OF assms(1), of len "buf @ [0]" pool] None \<open>len = length buf\<close> by fastforce
  qed
  ultimately show ?thesis
    using None by simp
next
  case (Some r)
  then have "UsbParseConfigDesc pool (buf @ [0]) len s = Some r"
    using UsbParseConfigDesc_extends [of pool buf len s 0] by (simp add: extends_run_def)
  then show ?thesis
    using parse_config_frees [OF assms(1), of len "buf @ [0]" pool] assms(2) Some by auto
qed

section \<open>Well-formed configurations\<close>

text \<open>A record of a type; records of other types in front of it are skipped.\<close>

definition is_rec :: "byte \<Rightarrow> byte list \<Rightarrow> bool" where
  "is_rec ty r \<longleftrightarrow> 2 \<le> length r \<and> desc_len ty \<le> length r \<and> unat (r ! 0) = length r \<and> r ! 1 = ty"

definition skipped :: "byte \<Rightarrow> byte list list \<Rightarrow> bool" where
  "skipped ty rs \<longleftrightarrow> (\<forall>r \<in> set rs. 2 \<le> length r \<and> unat (r ! 0) = length r \<and> r ! 1 \<noteq> ty)"

record usb_ep =
  ue_skip :: "byte list list"
  ue_rec :: "byte list"

record usb_setting =
  ut_skip :: "byte list list"
  ut_rec :: "byte list"
  ut_eps :: "usb_ep list"

definition ep_text :: "usb_ep \<Rightarrow> byte list" where
  "ep_text e = concat (ue_skip e) @ ue_rec e"

definition setting_text :: "usb_setting \<Rightarrow> byte list" where
  "setting_text t = concat (ut_skip t) @ ut_rec t @ concat (map ep_text (ut_eps t))"

definition config_text :: "byte list \<Rightarrow> usb_setting list \<Rightarrow> byte list" where
  "config_text c ts = c @ concat (map setting_text ts)"

definition wf_ep :: "usb_ep \<Rightarrow> bool" where
  "wf_ep e \<longleftrightarrow> skipped USB_DESC_TYPE_ENDPOINT (ue_skip e) \<and> is_rec USB_DESC_TYPE_ENDPOINT (ue_rec e)"

definition wf_set :: "usb_setting \<Rightarrow> bool" where
  "wf_set t \<longleftrightarrow> skipped USB_DESC_TYPE_INTERFACE (ut_skip t) \<and> is_rec USB_DESC_TYPE_INTERFACE (ut_rec t) \<and>
     NumEndpoints (ut_rec t) = length (ut_eps t) \<and> (\<forall>e \<in> set (ut_eps t). wf_ep e)"

text \<open>What the code keeps of a setting.\<close>

definition kept :: "usb_setting \<Rightarrow> byte list \<times> byte list list" where
  "kept t = (take 9 (ut_rec t), map (\<lambda>e. take 7 (ue_rec e)) (ut_eps t))"

definition wf_usb :: "byte list \<Rightarrow> usb_setting list \<Rightarrow> bool" where
  "wf_usb c ts \<longleftrightarrow> is_rec USB_DESC_TYPE_CONFIG c \<and> (\<forall>t \<in> set ts. wf_set t \<and> InterfaceNumber (ut_rec t) < NumInterfaces c) \<and>
     (\<forall>j. length (settings_of j (map kept ts)) \<le> USB_MAX_INTERFACE_SETTING)"

lemma desc_lens:
  "desc_len USB_DESC_TYPE_CONFIG = 9" "desc_len USB_DESC_TYPE_INTERFACE = 9" "desc_len USB_DESC_TYPE_ENDPOINT = 7"
  by (simp_all add: desc_len_def USB_DESC_TYPE_DEVICE_def USB_DESC_TYPE_CONFIG_def USB_DESC_TYPE_INTERFACE_def USB_DESC_TYPE_ENDPOINT_def)

lemma rd_drop:
  assumes "drop p buf = xs @ ys" "i < length xs"
  shows "rd buf (p + i) = Some (xs ! i)"
proof -
  have "p + i < length buf"
    using arg_cong [OF assms(1), of length] assms(2) by simp
  then show ?thesis
    using arg_cong [OF assms(1), of "\<lambda>l. l ! i"] assms(2) by (simp add: rd_def nth_append)
qed

lemma rd_range_drop:
  assumes "drop p buf = xs @ ys" "n \<le> length xs" "xs \<noteq> []"
  shows "rd_range buf p n = Some (take n xs)"
proof -
  have "length buf - p = length xs + length ys"
    using arg_cong [OF assms(1), of length] by simp
  moreover have "0 < length xs"
    using assms(3) by simp
  ultimately have "p + n \<le> length buf"
    using assms(2) by arith
  then show ?thesis
    using assms(1,2) by (simp add: rd_range_def)
qed

lemma is_rec_nonempty: "is_rec ty r \<Longrightarrow> r \<noteq> []"
  by (auto simp: is_rec_def)

lemma skip_to_text:
  assumes "skipped ty rs" "drop (base + off) buf = concat rs @ r @ rest" "is_rec ty r" "off + length (concat rs) + length r \<le> len"
  shows "skip_to buf base len ty off = Some (Some (off + length (concat rs)))"
  using assms
proof (induction rs arbitrary: off)
  case Nil
  then have "rd buf (base + off + 1) = Some ty" "off < len"
    using rd_drop [of "base + off" buf r rest 1] Nil by (auto simp: is_rec_def)
  then show ?case
    by (subst skip_to.simps) simp
next
  case (Cons x rs)
  have x: "2 \<le> length x" "unat (x ! 0) = length x" "x ! 1 \<noteq> ty" "skipped ty rs"
    using Cons.prems(1) by (simp_all add: skipped_def)
  have r: "2 \<le> length r" "r ! 0 \<noteq> 0" "r \<noteq> []"
    using Cons.prems(3) by (auto simp: is_rec_def)
  have heads: "rd buf (base + off + 1) = Some (x ! 1)" "rd buf (base + off) = Some (x ! 0)"
    using rd_drop [of "base + off" buf x "concat rs @ r @ rest" 1] rd_drop [of "base + off" buf x "concat rs @ r @ rest" 0] Cons.prems(2) x
    by (simp_all del: length_greater_0_conv)
  have d: "drop (base + (off + length x)) buf = concat rs @ r @ rest"
    using arg_cong [OF Cons.prems(2), of "drop (length x)"] by (simp add: add.commute add.left_commute)
  have nxt: "rd buf (base + (off + length x)) = Some ((concat rs @ r) ! 0)"
    using rd_drop [of "base + (off + length x)" buf "concat rs @ r" rest 0] d r by simp
  have nz: "(concat rs @ r) ! 0 \<noteq> 0"
  proof (cases rs)
    case (Cons y ys)
    then have "2 \<le> length y" "unat (y ! 0) = length y"
      using x(4) by (simp_all add: skipped_def)
    then show ?thesis
      using Cons by (auto simp: nth_append)
  qed (use r in simp)
  have "skip_to buf base len ty (off + length x) = Some (Some (off + length x + length (concat rs)))"
    using Cons.IH [OF x(4) d Cons.prems(3)] Cons.prems(4) by simp
  then show ?case
    using heads nxt nz x Cons.prems(4) r by (subst skip_to.simps) auto
qed

lemma desc_spec_text:
  assumes "skipped ty rs" "drop base buf = concat rs @ r @ rest" "is_rec ty r" "length (concat rs) + length r \<le> len"
  shows "desc_spec buf base len ty = Some (Some (take (desc_len ty) r, length (concat rs) + length r))"
proof -
  let ?o = "length (concat rs)"
  have sk: "skip_to buf base len ty 0 = Some (Some ?o)"
    using skip_to_text [of ty rs base 0 buf r rest len] assms by simp
  have d: "drop (base + ?o) buf = r @ rest"
    using arg_cong [OF assms(2), of "drop ?o"] by (simp add: add.commute)
  have "rd buf (base + ?o) = Some (r ! 0)"
    using rd_drop [OF d, of 0] assms(3) by (auto simp: is_rec_def simp del: length_greater_0_conv)
  moreover have "rd_range buf (base + ?o) (desc_len ty) = Some (take (desc_len ty) r)"
    using rd_range_drop [OF d, of "desc_len ty"] assms(3) is_rec_nonempty [OF assms(3)] by (auto simp: is_rec_def)
  ultimately show ?thesis
    using sk assms(3,4) by (simp add: desc_spec_def is_rec_def)
qed

lemma eps_spec_text:
  assumes "\<forall>e \<in> set es. wf_ep e" "drop (base + off) buf = concat (map ep_text es) @ rest" "off + length (concat (map ep_text es)) \<le> len"
  shows "eps_spec (length es) buf base len off =
    Some (Some (map (\<lambda>e. take 7 (ue_rec e)) es, off + length (concat (map ep_text es))))"
  using assms
proof (induction es arbitrary: off)
  case (Cons e es)
  have e: "skipped USB_DESC_TYPE_ENDPOINT (ue_skip e)" "is_rec USB_DESC_TYPE_ENDPOINT (ue_rec e)" "0 < length (ue_rec e)"
    using Cons.prems(1) by (auto simp: wf_ep_def is_rec_def)
  have d: "desc_spec buf (base + off) (len - off) USB_DESC_TYPE_ENDPOINT = Some (Some (take 7 (ue_rec e), length (ep_text e)))"
    using desc_spec_text [of USB_DESC_TYPE_ENDPOINT "ue_skip e" "base + off" buf "ue_rec e" "concat (map ep_text es) @ rest" "len - off"] e Cons.prems(2,3)
    by (simp add: ep_text_def [of e] desc_lens)
  have "drop (base + (off + length (ep_text e))) buf = concat (map ep_text es) @ rest"
    using arg_cong [OF Cons.prems(2), of "drop (length (ep_text e))"] by (simp add: ac_simps)
  then have "eps_spec (length es) buf base len (off + length (ep_text e)) =
      Some (Some (map (\<lambda>e. take 7 (ue_rec e)) es, off + length (ep_text e) + length (concat (map ep_text es))))"
    using Cons.prems(1,3) by (intro Cons.IH) simp_all
  moreover have "off < len"
    using Cons.prems(3) e(3) by (simp add: ep_text_def del: length_greater_0_conv)
  ultimately show ?case
    using d by (simp add: add.assoc)
qed simp

lemma setting_spec_text:
  assumes "wf_set t" "drop base buf = setting_text t @ rest" "length (setting_text t) \<le> len"
  shows "setting_spec buf base len = Some (Some (kept t, length (setting_text t)))"
proof -
  have t: "skipped USB_DESC_TYPE_INTERFACE (ut_skip t)" "is_rec USB_DESC_TYPE_INTERFACE (ut_rec t)" "NumEndpoints (ut_rec t) = length (ut_eps t)"
    "\<forall>e \<in> set (ut_eps t). wf_ep e" "9 \<le> length (ut_rec t)"
    using assms(1) by (auto simp: wf_set_def is_rec_def desc_lens)
  let ?u = "length (concat (ut_skip t)) + length (ut_rec t)" and ?es = "concat (map ep_text (ut_eps t))"
  have d: "desc_spec buf base len USB_DESC_TYPE_INTERFACE = Some (Some (take 9 (ut_rec t), ?u))"
    using desc_spec_text [of USB_DESC_TYPE_INTERFACE "ut_skip t" base buf "ut_rec t" "?es @ rest" len] t assms(2,3)
    by (simp add: setting_text_def desc_lens)
  have "NumEndpoints (take 9 (ut_rec t)) = length (ut_eps t)"
    using t(3,5) by (simp add: NumEndpoints_def)
  moreover have "drop (base + ?u) buf = ?es @ rest"
    using arg_cong [OF assms(2), of "drop ?u"] by (simp add: setting_text_def add.commute add.left_commute)
  then have "eps_spec (length (ut_eps t)) buf base len ?u = Some (Some (map (\<lambda>e. take 7 (ue_rec e)) (ut_eps t), ?u + length ?es))"
    using t(4) assms(3) by (intro eps_spec_text) (auto simp: setting_text_def)
  ultimately show ?thesis
    using d by (simp add: setting_spec_def kept_def setting_text_def)
qed


lemma settings_of_snoc: "settings_of j (acc @ [st]) = settings_of j acc @ (if InterfaceNumber (fst st) = j then [st] else [])"
  by (simp add: settings_of_def)

lemma settings_spec_text:
  assumes "\<forall>t \<in> set ts. wf_set t \<and> InterfaceNumber (ut_rec t) < n" "drop base buf = concat (map setting_text ts) @ rest"
    and "\<forall>j. length (settings_of j (acc @ map kept ts)) \<le> USB_MAX_INTERFACE_SETTING" "length (concat (map setting_text ts)) < F"
  shows "settings_spec F buf base (length (concat (map setting_text ts))) n acc = Some (True, acc @ map kept ts)"
  using assms
proof (induction ts arbitrary: base acc F)
  case Nil
  then show ?case
    by (cases F) auto
next
  case (Cons t ts)
  obtain G where F: "F = Suc G"
    using Cons.prems(4) by (cases F) auto
  let ?n = "length (setting_text t)" and ?m = "length (concat (map setting_text ts))"
  have t: "wf_set t" "InterfaceNumber (fst (kept t)) < n" "9 \<le> ?n"
  proof -
    show "wf_set t"
      using Cons.prems(1) by simp
    then have r: "9 \<le> length (ut_rec t)"
      by (simp add: wf_set_def is_rec_def desc_lens)
    then show "9 \<le> ?n"
      by (simp add: setting_text_def)
    show "InterfaceNumber (fst (kept t)) < n"
      using r Cons.prems(1) by (simp add: kept_def InterfaceNumber_def)
  qed
  have "setting_spec buf base (?n + ?m) = Some (Some (kept t, ?n))"
    using setting_spec_text [OF t(1), of base buf "concat (map setting_text ts) @ rest" "?n + ?m"] Cons.prems(2) by simp
  moreover have "length (settings_of (InterfaceNumber (fst (kept t))) acc) < USB_MAX_INTERFACE_SETTING"
    using Cons.prems(3) [rule_format, of "InterfaceNumber (fst (kept t))"] by (simp add: settings_of_def)
  moreover have "settings_spec G buf (base + ?n) ?m n (acc @ [kept t]) = Some (True, (acc @ [kept t]) @ map kept ts)"
  proof (rule Cons.IH)
    show "drop (base + ?n) buf = concat (map setting_text ts) @ rest"
      using arg_cong [OF Cons.prems(2), of "drop ?n"] by (simp add: ac_simps)
  qed (use Cons.prems(1,3,4) F t(3) in auto)
  ultimately show ?case
    using t F by auto
qed

text \<open>C28. A well-formed configuration is read back: for every list of settings, with class-specific records in
  between and records longer than the structures, the parser returns a configuration whose interfaces hold
  their settings, in the order of the text, each with its endpoints.\<close>

theorem usb_config_roundtrip:
  assumes "wf_usb c ts" "fresh s" "serves pool s"
  shows "\<exists>a s1 arr qs. UsbParseConfigDesc pool (config_text c ts @ rest) (length (config_text c ts)) s = Some (Some a, s1) \<and>
    grown s (config_cells (full_config a (take 9 c) arr qs)) s1 \<and> length qs = NumInterfaces c \<and>
    (\<forall>j < length qs. map (\<lambda>p. (ps_raw p, eps_of p)) (pi_sets (qs ! j)) = settings_of j (map kept ts))"
proof -
  let ?buf = "config_text c ts @ rest" and ?len = "length (config_text c ts)"
  let ?m = "length (concat (map setting_text ts))"
  have c: "is_rec USB_DESC_TYPE_CONFIG c" "9 \<le> length c"
    using assms(1) by (auto simp: wf_usb_def is_rec_def desc_lens)
  have "desc_spec ?buf 0 ?len USB_DESC_TYPE_CONFIG = Some (Some (take 9 c, length c))"
    using desc_spec_text [of USB_DESC_TYPE_CONFIG "[]" 0 ?buf c "concat (map setting_text ts) @ rest" ?len] c
    by (simp add: config_text_def skipped_def desc_lens)
  moreover have "settings_spec (?len + 1) ?buf (length c) ?m (NumInterfaces c) [] = Some (True, [] @ map kept ts)"
    using assms(1) by (intro settings_spec_text) (auto simp: wf_usb_def config_text_def)
  moreover have "NumInterfaces (take 9 c) = NumInterfaces c"
    using c by (simp add: NumInterfaces_def)
  ultimately have "config_spec ?buf ?len = Some (Some (take 9 c, map kept ts))"
    by (simp add: config_spec_def config_text_def del: settings_spec.simps)
  from UsbParseConfigDesc_refines [OF assms(2) this, of pool] show ?thesis
    using assms(3) \<open>NumInterfaces (take 9 c) = NumInterfaces c\<close> by (force simp: shape_def split: option.splits)
qed

lemma skip_to_stray:
  assumes "skipped ty rs" "drop (base + off) buf = concat rs @ [b]" "len = off + length (concat rs) + 1" "rs = [] \<or> b \<noteq> 0"
  shows "skip_to buf base len ty off = None"
  using assms
proof (induction rs arbitrary: off)
  case Nil
  have "length buf - (base + off) = 1"
    using arg_cong [OF Nil(2), of length] by simp
  then have "length buf = base + off + 1"
    by arith
  then show ?case
    using Nil(3) by (subst skip_to.simps) simp
next
  case (Cons x rs)
  have x: "2 \<le> length x" "unat (x ! 0) = length x" "x ! 1 \<noteq> ty" "skipped ty rs" "x \<noteq> []"
    using Cons.prems(1) by (auto simp: skipped_def)
  have heads: "rd buf (base + off + 1) = Some (x ! 1)" "rd buf (base + off) = Some (x ! 0)"
    using rd_drop [of "base + off" buf x "concat rs @ [b]" 1] rd_drop [of "base + off" buf x "concat rs @ [b]" 0] Cons.prems(2) x
    by simp_all
  have d: "drop (base + (off + length x)) buf = concat rs @ [b]"
    using arg_cong [OF Cons.prems(2), of "drop (length x)"] by (simp add: add.commute add.left_commute)
  have nxt: "rd buf (base + (off + length x)) = Some ((concat rs @ [b]) ! 0)"
    using rd_drop [of "base + (off + length x)" buf "concat rs @ [b]" "[]" 0] d by simp
  have nz: "(concat rs @ [b]) ! 0 \<noteq> 0"
  proof (cases rs)
    case (Cons y ys)
    then have "2 \<le> length y" "unat (y ! 0) = length y"
      using x(4) by (simp_all add: skipped_def)
    then show ?thesis
      using Cons by (auto simp: nth_append)
  qed (use Cons.prems(4) in simp)
  have "skip_to buf base len ty (off + length x) = None"
    using Cons.IH [OF x(4) d] Cons.prems(3,4) by simp
  then show ?case
    using heads nxt nz x Cons.prems(3) by (subst skip_to.simps) auto
qed

text \<open>The search for a descriptor reads one byte beyond its buffer: when only one byte is left after the records of
  other types, the code still reads the type byte of a record that starts there.\<close>

theorem usb_create_desc_overread:
  assumes "skipped ty rs" "buf = pre @ concat rs @ [b]" "rs = [] \<or> b \<noteq> 0"
  shows "UsbCreateDesc pool buf (length pre) (length (concat rs) + 1) ty s = None"
proof -
  have "skip_to buf (length pre) (length (concat rs) + 1) ty 0 = None"
    using assms by (intro skip_to_stray [of ty rs]) simp_all
  then show ?thesis
    by (simp add: UsbCreateDesc_spec desc_spec_def)
qed

lemma usb_create_desc_overread_witness:
  "UsbCreateDesc (\<lambda>n. True) [4, 33, 0, 0, 9] 0 5 USB_DESC_TYPE_ENDPOINT \<lparr>us_heap = (\<lambda>a. None), us_next = 0\<rparr> = None"
proof -
  have l: "length (concat [[4 :: byte, 33, 0, 0]]) + 1 = 5" "length ([] :: byte list) = 0"
    by simp_all
  have "UsbCreateDesc (\<lambda>n. True) [4, 33, 0, 0, 9] (length ([] :: byte list)) (length (concat [[4 :: byte, 33, 0, 0]]) + 1)
      USB_DESC_TYPE_ENDPOINT \<lparr>us_heap = (\<lambda>a. None), us_next = 0\<rparr> = None"
    by (rule usb_create_desc_overread [where rs = "[[4, 33, 0, 0]]" and b = 9]) (simp_all add: skipped_def USB_DESC_TYPE_ENDPOINT_def)
  then show ?thesis
    unfolding l .
qed

text \<open>A mass storage device with one bulk endpoint, preceded by a class record.\<close>

definition demo_cfg :: "byte list" where
  "demo_cfg = [9, 2, 29, 0, 1, 1, 0, 0x80, 50]"

definition demo_set :: usb_setting where
  "demo_set = \<lparr>ut_skip = [], ut_rec = [9, 4, 0, 0, 1, 8, 6, 0x50, 0], ut_eps = [\<lparr>ue_skip = [[4, 33, 0, 0]], ue_rec = [7, 5, 0x81, 2, 0, 2, 0]\<rparr>]\<rparr>"

definition empty_ust :: ust where
  "empty_ust = \<lparr>us_heap = (\<lambda>a. None), us_next = 0\<rparr>"

lemma demo_wf: "wf_usb demo_cfg [demo_set]"
proof -
  have "length (settings_of j (map kept [demo_set])) \<le> USB_MAX_INTERFACE_SETTING" for j
    by (simp add: settings_of_def USB_MAX_INTERFACE_SETTING_def)
  then show ?thesis
    by (simp add: wf_usb_def wf_set_def wf_ep_def is_rec_def skipped_def desc_len_def demo_cfg_def demo_set_def NumEndpoints_def
      NumInterfaces_def USB_DESC_TYPE_DEVICE_def InterfaceNumber_def USB_DESC_TYPE_CONFIG_def USB_DESC_TYPE_INTERFACE_def USB_DESC_TYPE_ENDPOINT_def)
qed

lemma demo_length: "length (config_text demo_cfg [demo_set]) = 29"
  by (simp add: config_text_def setting_text_def ep_text_def demo_cfg_def demo_set_def)

lemma demo_ust: "fresh empty_ust" "serves (\<lambda>n. True) empty_ust"
  by (simp_all add: fresh_def serves_def empty_ust_def)

lemma usb_config_roundtrip_witness:
  "\<exists>a s1. UsbParseConfigDesc (\<lambda>n. True) (config_text demo_cfg [demo_set]) 29 empty_ust = Some (Some a, s1)"
  using usb_config_roundtrip [OF demo_wf demo_ust, of "[]"] by (auto simp: demo_length)

lemma usb_config_frees_all_witness:
  "\<exists>q s1. UsbParseConfigDesc (\<lambda>n. n \<noteq> 3) (config_text demo_cfg [demo_set]) 29 empty_ust = Some (q, s1) \<and>
    (\<forall>a. q = Some a \<longrightarrow> (\<exists>s2. UsbFreeConfigDesc a s1 = Some s2 \<and> us_heap s2 = us_heap empty_ust)) \<and> (q = None \<longrightarrow> us_heap s1 = us_heap empty_ust)"
proof -
  have len: "29 = length (config_text demo_cfg [demo_set])"
    by (simp add: demo_length)
  have "\<not> stray (config_text demo_cfg [demo_set]) 0"
    by (simp add: stray.simps config_text_def setting_text_def ep_text_def demo_cfg_def demo_set_def)
  with usb_config_frees_all [OF demo_ust(1) eq_refl [OF len], of "\<lambda>n. n \<noteq> 3"] show ?thesis
    by (fastforce split: option.splits prod.splits)
qed

end
