(* ===== verification/UsbState.thy ===== *)
theory UsbState
  imports UsbDesc
begin

text \<open>
  The state of the USB bus driver (\<^verbatim>\<open>Speedup/Bus/Usb/UsbBusDxe/UsbBus.h\<close>), the services that it uses, and the
  wrappers of the host controller (first part of \<^verbatim>\<open>UsbUtility.c\<close>).

  A bus is one record. Devices and interfaces are in heaps of their own; their addresses and those of the
  descriptors (\<open>UsbDesc\<close>) come from one counter, so that \<open>pool\<close> decides which allocation succeeds. The host
  controller and the handle database are functions on a state \<open>'h\<close> that the driver does not see. A transfer gives
  the bytes that the device sent; they are written to the buffer, at most as many as were asked for, and a buffer
  that is too small for them makes the result \<open>None\<close>. Task priority levels, delays and status code reports are
  left out.
\<close>

section \<open>Device paths\<close>

text \<open>A device path is the list of its nodes without the end node.\<close>

datatype dp_node = DpNode (dp_type: byte) (dp_subtype: byte) (dp_body: "byte list")

type_synonym dev_path = "dp_node list"

definition MESSAGING_DEVICE_PATH :: byte where "MESSAGING_DEVICE_PATH = 3"
definition MSG_USB_DP :: byte where "MSG_USB_DP = 5"
definition MSG_USB_CLASS_DP :: byte where "MSG_USB_CLASS_DP = 15"
definition MSG_USB_WWID_DP :: byte where "MSG_USB_WWID_DP = 16"

section \<open>Requests and services\<close>

datatype usb_dir = EfiUsbDataIn | EfiUsbDataOut | EfiUsbNoData

record usb_request =
  rq_RequestType :: byte
  rq_Request :: byte
  rq_Value :: u16
  rq_Index :: u16
  rq_Length :: u16

definition USB_REQUEST_TYPE :: "usb_dir \<Rightarrow> byte \<Rightarrow> byte \<Rightarrow> byte" where
  "USB_REQUEST_TYPE dir ty target = (push_bit 7 (if dir = EfiUsbDataIn then 1 else 0) OR ty) OR target"

text \<open>What is called when the data of an interrupt transfer arrives.\<close>

datatype usb_callback = NoCallback | UsbOnHubInterruptCb ptr | ClientCb nat

type_synonym tt = "byte \<times> byte"

record 'h usb2_hc =
  hc2_MajorRevision :: u16
  hc2_GetCapability :: "'h \<Rightarrow> (efi_status \<times> byte \<times> byte \<times> byte) \<times> 'h"
  hc2_Reset :: "u16 \<Rightarrow> 'h \<Rightarrow> efi_status \<times> 'h"
  hc2_GetState :: "'h \<Rightarrow> (efi_status \<times> nat) \<times> 'h"
  hc2_SetState :: "nat \<Rightarrow> 'h \<Rightarrow> efi_status \<times> 'h"
  hc2_PortStatus :: "byte \<Rightarrow> 'h \<Rightarrow> (efi_status \<times> u16 \<times> u16) \<times> 'h"
  hc2_SetPortFeature :: "byte \<Rightarrow> nat \<Rightarrow> 'h \<Rightarrow> efi_status \<times> 'h"
  hc2_ClearPortFeature :: "byte \<Rightarrow> nat \<Rightarrow> 'h \<Rightarrow> efi_status \<times> 'h"
  hc2_Control :: "byte \<Rightarrow> byte \<Rightarrow> nat \<Rightarrow> usb_request \<Rightarrow> usb_dir \<Rightarrow> byte list \<Rightarrow> nat \<Rightarrow> nat \<Rightarrow> tt \<Rightarrow> 'h \<Rightarrow>
    (efi_status \<times> byte list \<times> nat \<times> u32) \<times> 'h"
  hc2_Bulk :: "byte \<Rightarrow> byte \<Rightarrow> byte \<Rightarrow> nat \<Rightarrow> byte \<Rightarrow> byte list \<Rightarrow> nat \<Rightarrow> byte \<Rightarrow> nat \<Rightarrow> tt \<Rightarrow> 'h \<Rightarrow>
    (efi_status \<times> byte list \<times> nat \<times> byte \<times> u32) \<times> 'h"
  hc2_AsyncInterrupt :: "byte \<Rightarrow> byte \<Rightarrow> byte \<Rightarrow> nat \<Rightarrow> bool \<Rightarrow> byte \<Rightarrow> nat \<Rightarrow> nat \<Rightarrow> tt \<Rightarrow> usb_callback \<Rightarrow> 'h \<Rightarrow>
    (efi_status \<times> byte) \<times> 'h"
  hc2_SyncInterrupt :: "byte \<Rightarrow> byte \<Rightarrow> byte \<Rightarrow> nat \<Rightarrow> byte list \<Rightarrow> nat \<Rightarrow> byte \<Rightarrow> nat \<Rightarrow> tt \<Rightarrow> 'h \<Rightarrow>
    (efi_status \<times> byte list \<times> nat \<times> byte \<times> u32) \<times> 'h"

text \<open>The older protocol knows only whether a device is slow, packets of at most 255 bytes, and no translators.\<close>

record 'h usb1_hc =
  hc1_GetRootHubPortNumber :: "'h \<Rightarrow> (efi_status \<times> byte) \<times> 'h"
  hc1_Reset :: "u16 \<Rightarrow> 'h \<Rightarrow> efi_status \<times> 'h"
  hc1_GetState :: "'h \<Rightarrow> (efi_status \<times> nat) \<times> 'h"
  hc1_SetState :: "nat \<Rightarrow> 'h \<Rightarrow> efi_status \<times> 'h"
  hc1_PortStatus :: "byte \<Rightarrow> 'h \<Rightarrow> (efi_status \<times> u16 \<times> u16) \<times> 'h"
  hc1_SetPortFeature :: "byte \<Rightarrow> nat \<Rightarrow> 'h \<Rightarrow> efi_status \<times> 'h"
  hc1_ClearPortFeature :: "byte \<Rightarrow> nat \<Rightarrow> 'h \<Rightarrow> efi_status \<times> 'h"
  hc1_Control :: "byte \<Rightarrow> bool \<Rightarrow> byte \<Rightarrow> usb_request \<Rightarrow> usb_dir \<Rightarrow> byte list \<Rightarrow> nat \<Rightarrow> nat \<Rightarrow> 'h \<Rightarrow>
    (efi_status \<times> byte list \<times> nat \<times> u32) \<times> 'h"
  hc1_Bulk :: "byte \<Rightarrow> byte \<Rightarrow> byte \<Rightarrow> byte list \<Rightarrow> nat \<Rightarrow> byte \<Rightarrow> nat \<Rightarrow> 'h \<Rightarrow>
    (efi_status \<times> byte list \<times> nat \<times> byte \<times> u32) \<times> 'h"
  hc1_AsyncInterrupt :: "byte \<Rightarrow> byte \<Rightarrow> bool \<Rightarrow> byte \<Rightarrow> bool \<Rightarrow> byte \<Rightarrow> nat \<Rightarrow> nat \<Rightarrow> usb_callback \<Rightarrow> 'h \<Rightarrow>
    (efi_status \<times> byte) \<times> 'h"
  hc1_SyncInterrupt :: "byte \<Rightarrow> byte \<Rightarrow> bool \<Rightarrow> byte \<Rightarrow> byte list \<Rightarrow> nat \<Rightarrow> byte \<Rightarrow> nat \<Rightarrow> 'h \<Rightarrow>
    (efi_status \<times> byte list \<times> nat \<times> byte \<times> u32) \<times> 'h"

text \<open>The protocols, and how they are opened: to look at, by the driver, or for a child. \<open>bs_OpenProtocol\<close> gives the status
  and whether an interface was stored.\<close>

datatype usb_proto = UsbIoProto | Usb2HcProto | UsbHcProto | DevicePathProto | UsbBusProto

datatype open_mode = GetProtocol | ByDriver | ByChild nat

record 'h usb_env =
  ue_pool :: "nat \<Rightarrow> bool"
  ue_stack :: "byte list"
  ue_usb2hc :: "'h usb2_hc"
  ue_usbhc :: "'h usb1_hc"
  bs_OpenProtocol :: "nat \<Rightarrow> usb_proto \<Rightarrow> open_mode \<Rightarrow> 'h \<Rightarrow> (efi_status \<times> bool) \<times> 'h"
  bs_CloseProtocol :: "nat \<Rightarrow> usb_proto \<Rightarrow> open_mode \<Rightarrow> 'h \<Rightarrow> efi_status \<times> 'h"
  bs_InstallIo :: "ptr \<Rightarrow> 'h \<Rightarrow> (efi_status \<times> nat) \<times> 'h"
  bs_UninstallIo :: "nat \<Rightarrow> ptr \<Rightarrow> 'h \<Rightarrow> efi_status \<times> 'h"
  bs_InstallBus :: "nat \<Rightarrow> 'h \<Rightarrow> efi_status \<times> 'h"
  bs_UninstallBus :: "nat \<Rightarrow> 'h \<Rightarrow> efi_status \<times> 'h"
  bs_ConnectController :: "nat \<Rightarrow> 'h \<Rightarrow> efi_status \<times> 'h"
  bs_DisconnectController :: "nat \<Rightarrow> 'h \<Rightarrow> efi_status \<times> 'h"
  bs_LocateUsbIo :: "'h \<Rightarrow> (efi_status \<times> nat list) \<times> 'h"
  bs_HandleDevicePath :: "nat \<Rightarrow> 'h \<Rightarrow> (efi_status \<times> dev_path option) \<times> 'h"
  bs_HandleUsbIo :: "nat \<Rightarrow> 'h \<Rightarrow> (efi_status \<times> ptr) \<times> 'h"
  bs_CreateEvent :: "ptr \<Rightarrow> 'h \<Rightarrow> (efi_status \<times> nat) \<times> 'h"
  bs_CloseEvent :: "nat \<Rightarrow> 'h \<Rightarrow> 'h"
  bs_SignalEvent :: "nat \<Rightarrow> 'h \<Rightarrow> 'h"
  bs_SetTimer :: "nat \<Rightarrow> bool \<Rightarrow> 'h \<Rightarrow> efi_status \<times> 'h"

text \<open>An uninitialised local variable of \<open>n\<close> bytes holds what the stack holds.\<close>

definition junk :: "'h usb_env \<Rightarrow> nat \<Rightarrow> byte list" where
  "junk env n = take n (ue_stack env @ replicate n 0)"

section \<open>The bus\<close>

definition USB_MAX_LANG_ID :: nat where "USB_MAX_LANG_ID = 16"
definition USB_MAX_INTERFACE :: nat where "USB_MAX_INTERFACE = 16"
definition USB_MAX_DEVICES :: nat where "USB_MAX_DEVICES = 128"

definition EFI_USB_SPEED_FULL :: byte where "EFI_USB_SPEED_FULL = 0"
definition EFI_USB_SPEED_LOW :: byte where "EFI_USB_SPEED_LOW = 1"
definition EFI_USB_SPEED_HIGH :: byte where "EFI_USB_SPEED_HIGH = 2"
definition EFI_USB_SPEED_SUPER :: byte where "EFI_USB_SPEED_SUPER = 3"

record usb_device =
  dv_Speed :: byte
  dv_Address :: byte
  dv_MaxPacket0 :: u32
  dv_DevDesc :: "ptr option"
  dv_ActiveConfig :: "ptr option"
  dv_LangId :: "u16 list"
  dv_TotalLangId :: u16
  dv_NumOfInterface :: byte
  dv_Interfaces :: "ptr option list"
  dv_Translator :: tt
  dv_ParentAddr :: byte
  dv_ParentIf :: "ptr option"
  dv_ParentPort :: byte
  dv_Tier :: byte
  dv_DisconnectFail :: bool

datatype hub_api = mUsbHubApi | mUsbRootHubApi

record usb_interface =
  ui_Device :: ptr
  ui_IfDesc :: "ptr option"
  ui_IfSetting :: "ptr option"
  ui_Handle :: nat
  ui_DevicePath :: "dev_path option"
  ui_IsManaged :: bool
  ui_IsHub :: bool
  ui_HubApi :: "hub_api option"
  ui_NumOfPort :: byte
  ui_HubNotify :: "nat option"
  ui_HubEp :: "ptr option"
  ui_ChangeMap :: "byte list option"
  ui_MaxSpeed :: byte

record 'h usb_bus =
  ub_Usb2Hc :: bool
  ub_UsbHc :: bool
  ub_HostHandle :: nat
  ub_DevicePath :: dev_path
  ub_MaxDevices :: nat
  ub_Devices :: "ptr option list"
  ub_WantedUsbIoDPList :: "dev_path option list"
  ub_desc :: ust
  ub_dev :: "ptr \<Rightarrow> usb_device option"
  ub_if :: "ptr \<Rightarrow> usb_interface option"
  ub_ext :: 'h

definition upd_dev :: "ptr \<Rightarrow> (usb_device \<Rightarrow> usb_device) \<Rightarrow> 'h usb_bus \<Rightarrow> 'h usb_bus option" where
  "upd_dev a f st = map_option (\<lambda>d. st\<lparr>ub_dev := (ub_dev st)(a \<mapsto> f d)\<rparr>) (ub_dev st a)"

definition upd_if :: "ptr \<Rightarrow> (usb_interface \<Rightarrow> usb_interface) \<Rightarrow> 'h usb_bus \<Rightarrow> 'h usb_bus option" where
  "upd_if a f st = map_option (\<lambda>u. st\<lparr>ub_if := (ub_if st)(a \<mapsto> f u)\<rparr>) (ub_if st a)"

definition set_slot :: "nat \<Rightarrow> ptr option \<Rightarrow> 'h usb_bus \<Rightarrow> 'h usb_bus option" where
  "set_slot i p st = map_option (\<lambda>ds. st\<lparr>ub_Devices := ds\<rparr>) (wr (ub_Devices st) i p)"

text \<open>The number of the next allocation, and whether the pool serves it.\<close>

definition new_num :: "'h usb_env \<Rightarrow> 'h usb_bus \<Rightarrow> ptr option \<times> 'h usb_bus" where
  "new_num env st =
     (let n = us_next (ub_desc st); st' = st\<lparr>ub_desc := (ub_desc st)\<lparr>us_next := n + 1\<rparr>\<rparr> in
      (if ue_pool env n then Some n else None, st'))"

definition ext :: "('h \<Rightarrow> 'a \<times> 'h) \<Rightarrow> 'h usb_bus \<Rightarrow> 'a \<times> 'h usb_bus" where
  "ext f st = (case f (ub_ext st) of (r, h) \<Rightarrow> (r, st\<lparr>ub_ext := h\<rparr>))"

section \<open>The wrappers of the host controller\<close>

text \<open>The newer protocol, if it was opened, else the older one; \<open>None\<close> when there is neither.\<close>

definition on_hc :: "'h usb_env \<Rightarrow> ('h usb2_hc \<Rightarrow> 'h \<Rightarrow> 'a \<times> 'h) \<Rightarrow> ('h usb1_hc \<Rightarrow> 'h \<Rightarrow> 'a \<times> 'h) \<Rightarrow> 'h usb_bus \<Rightarrow>
    ('a \<times> 'h usb_bus) option"
where
  "on_hc env f2 f1 st =
     (if ub_Usb2Hc st then Some (ext (f2 (ue_usb2hc env)) st)
      else if ub_UsbHc st then Some (ext (f1 (ue_usbhc env)) st) else None)"

definition UsbHcGetCapability :: "'h usb_env \<Rightarrow> 'h usb_bus \<Rightarrow> ((efi_status \<times> byte \<times> byte \<times> byte) \<times> 'h usb_bus) option"
where
  "UsbHcGetCapability env =
     on_hc env (\<lambda>hc. hc2_GetCapability hc)
       (\<lambda>hc h. case hc1_GetRootHubPortNumber hc h of ((s, n), h') \<Rightarrow> ((s, EFI_USB_SPEED_FULL, n, 0), h'))"

definition UsbHcReset :: "'h usb_env \<Rightarrow> u16 \<Rightarrow> 'h usb_bus \<Rightarrow> (efi_status \<times> 'h usb_bus) option" where
  "UsbHcReset env attr = on_hc env (\<lambda>hc. hc2_Reset hc attr) (\<lambda>hc. hc1_Reset hc attr)"

definition UsbHcGetState :: "'h usb_env \<Rightarrow> 'h usb_bus \<Rightarrow> ((efi_status \<times> nat) \<times> 'h usb_bus) option" where
  "UsbHcGetState env = on_hc env (\<lambda>hc. hc2_GetState hc) (\<lambda>hc. hc1_GetState hc)"

definition UsbHcSetState :: "'h usb_env \<Rightarrow> nat \<Rightarrow> 'h usb_bus \<Rightarrow> (efi_status \<times> 'h usb_bus) option" where
  "UsbHcSetState env x = on_hc env (\<lambda>hc. hc2_SetState hc x) (\<lambda>hc. hc1_SetState hc x)"

definition UsbHcGetRootHubPortStatus ::
  "'h usb_env \<Rightarrow> byte \<Rightarrow> 'h usb_bus \<Rightarrow> ((efi_status \<times> u16 \<times> u16) \<times> 'h usb_bus) option"
where
  "UsbHcGetRootHubPortStatus env port = on_hc env (\<lambda>hc. hc2_PortStatus hc port) (\<lambda>hc. hc1_PortStatus hc port)"

definition UsbHcSetRootHubPortFeature ::
  "'h usb_env \<Rightarrow> byte \<Rightarrow> nat \<Rightarrow> 'h usb_bus \<Rightarrow> (efi_status \<times> 'h usb_bus) option"
where
  "UsbHcSetRootHubPortFeature env port feat =
     on_hc env (\<lambda>hc. hc2_SetPortFeature hc port feat) (\<lambda>hc. hc1_SetPortFeature hc port feat)"

definition UsbHcClearRootHubPortFeature ::
  "'h usb_env \<Rightarrow> byte \<Rightarrow> nat \<Rightarrow> 'h usb_bus \<Rightarrow> (efi_status \<times> 'h usb_bus) option"
where
  "UsbHcClearRootHubPortFeature env port feat =
     on_hc env (\<lambda>hc. hc2_ClearPortFeature hc port feat) (\<lambda>hc. hc1_ClearPortFeature hc port feat)"

text \<open>The data of a transfer to the host is written to the buffer, at most \<open>len\<close> bytes of it.\<close>

definition received :: "bool \<Rightarrow> byte list \<Rightarrow> nat \<Rightarrow> byte list \<Rightarrow> byte list option" where
  "received inp buf len reply = (if inp then wr_range buf 0 (take len reply) else Some buf)"

definition UsbHcControlTransfer ::
  "'h usb_env \<Rightarrow> byte \<Rightarrow> byte \<Rightarrow> nat \<Rightarrow> usb_request \<Rightarrow> usb_dir \<Rightarrow> byte list \<Rightarrow> nat \<Rightarrow> nat \<Rightarrow> tt \<Rightarrow> 'h usb_bus \<Rightarrow>
    ((efi_status \<times> byte list \<times> nat \<times> u32) \<times> 'h usb_bus) option"
where
  "UsbHcControlTransfer env addr speed maxp req dir buf len timeout tra st =
     do {
       ((s, reply, n, res), st1) \<leftarrow>
         on_hc env (\<lambda>hc. hc2_Control hc addr speed maxp req dir buf len timeout tra)
           (\<lambda>hc. hc1_Control hc addr (speed = EFI_USB_SPEED_LOW) (of_nat maxp) req dir buf len timeout) st;
       buf1 \<leftarrow> received (dir = EfiUsbDataIn) buf len reply;
       Some ((s, buf1, n, res), st1) }"

definition UsbHcBulkTransfer ::
  "'h usb_env \<Rightarrow> byte \<Rightarrow> byte \<Rightarrow> byte \<Rightarrow> nat \<Rightarrow> byte \<Rightarrow> byte list \<Rightarrow> nat \<Rightarrow> byte \<Rightarrow> nat \<Rightarrow> tt \<Rightarrow> 'h usb_bus \<Rightarrow>
    ((efi_status \<times> byte list \<times> nat \<times> byte \<times> u32) \<times> 'h usb_bus) option"
where
  "UsbHcBulkTransfer env addr ep speed maxp bufnum buf len toggle timeout tra st =
     do {
       ((s, reply, n, tg, res), st1) \<leftarrow>
         on_hc env (\<lambda>hc. hc2_Bulk hc addr ep speed maxp bufnum buf len toggle timeout tra)
           (\<lambda>hc. hc1_Bulk hc addr ep (of_nat maxp) buf len toggle timeout) st;
       buf1 \<leftarrow> received (bit ep 7) buf len reply;
       Some ((s, buf1, n, tg, res), st1) }"

definition UsbHcAsyncInterruptTransfer ::
  "'h usb_env \<Rightarrow> byte \<Rightarrow> byte \<Rightarrow> byte \<Rightarrow> nat \<Rightarrow> bool \<Rightarrow> byte \<Rightarrow> nat \<Rightarrow> nat \<Rightarrow> tt \<Rightarrow> usb_callback \<Rightarrow> 'h usb_bus \<Rightarrow>
    ((efi_status \<times> byte) \<times> 'h usb_bus) option"
where
  "UsbHcAsyncInterruptTransfer env addr ep speed maxp isnew toggle poll len tra cb =
     on_hc env (\<lambda>hc. hc2_AsyncInterrupt hc addr ep speed maxp isnew toggle poll len tra cb)
       (\<lambda>hc. hc1_AsyncInterrupt hc addr ep (speed = EFI_USB_SPEED_LOW) (of_nat maxp) isnew toggle poll len cb)"

definition UsbHcSyncInterruptTransfer ::
  "'h usb_env \<Rightarrow> byte \<Rightarrow> byte \<Rightarrow> byte \<Rightarrow> nat \<Rightarrow> byte list \<Rightarrow> nat \<Rightarrow> byte \<Rightarrow> nat \<Rightarrow> tt \<Rightarrow> 'h usb_bus \<Rightarrow>
    ((efi_status \<times> byte list \<times> nat \<times> byte \<times> u32) \<times> 'h usb_bus) option"
where
  "UsbHcSyncInterruptTransfer env addr ep speed maxp buf len toggle timeout tra st =
     do {
       ((s, reply, n, tg, res), st1) \<leftarrow>
         on_hc env (\<lambda>hc. hc2_SyncInterrupt hc addr ep speed maxp buf len toggle timeout tra)
           (\<lambda>hc. hc1_SyncInterrupt hc addr ep (speed = EFI_USB_SPEED_LOW) (of_nat maxp) buf len toggle timeout) st;
       buf1 \<leftarrow> received (bit ep 7) buf len reply;
       Some ((s, buf1, n, tg, res), st1) }"

definition UsbOpenHostProtoByChild :: "'h usb_env \<Rightarrow> nat \<Rightarrow> 'h usb_bus \<Rightarrow> efi_status \<times> 'h usb_bus" where
  "UsbOpenHostProtoByChild env child st =
     (case ext (bs_OpenProtocol env (ub_HostHandle st) (if ub_Usb2Hc st then Usb2HcProto else UsbHcProto) (ByChild child)) st of
        ((s, found), st1) \<Rightarrow> (s, st1))"

definition UsbCloseHostProtoByChild :: "'h usb_env \<Rightarrow> nat \<Rightarrow> 'h usb_bus \<Rightarrow> 'h usb_bus" where
  "UsbCloseHostProtoByChild env child st =
     snd (ext (bs_CloseProtocol env (ub_HostHandle st) (if ub_Usb2Hc st then Usb2HcProto else UsbHcProto) (ByChild child)) st)"

text \<open>Isochronous transfers are refused.\<close>

definition UsbHcIsochronousTransfer :: "'h usb_bus \<Rightarrow> efi_status \<times> 'h usb_bus" where
  "UsbHcIsochronousTransfer st = (EFI_UNSUPPORTED, st)"

definition UsbHcAsyncIsochronousTransfer :: "'h usb_bus \<Rightarrow> efi_status \<times> 'h usb_bus" where
  "UsbHcAsyncIsochronousTransfer st = (EFI_UNSUPPORTED, st)"

end
