(* ===== verification/UsbRequest.thy ===== *)
theory UsbRequest
  imports UsbState
begin

text \<open>
  The requests to a device on its control endpoint: the second part of \<^verbatim>\<open>UsbBusDxe/UsbDesc.c\<close>, which reads the
  descriptors, and the class requests of hubs (first part of \<^verbatim>\<open>UsbHub.c\<close>).

  A device says twice how long a string or a configuration is: once in a first short answer, from which the
  buffer is allocated, and again in the full answer, which is what the code goes by.
\<close>

definition USB_REQ_TYPE_STANDARD :: byte where "USB_REQ_TYPE_STANDARD = 0"
definition USB_REQ_TYPE_CLASS :: byte where "USB_REQ_TYPE_CLASS = 0x20"
definition USB_TARGET_DEVICE :: byte where "USB_TARGET_DEVICE = 0"
definition USB_TARGET_INTERFACE :: byte where "USB_TARGET_INTERFACE = 1"
definition USB_TARGET_ENDPOINT :: byte where "USB_TARGET_ENDPOINT = 2"
definition USB_REQ_CLEAR_FEATURE :: byte where "USB_REQ_CLEAR_FEATURE = 1"
definition USB_REQ_SET_ADDRESS :: byte where "USB_REQ_SET_ADDRESS = 5"
definition USB_REQ_GET_DESCRIPTOR :: byte where "USB_REQ_GET_DESCRIPTOR = 6"
definition USB_REQ_SET_CONFIG :: byte where "USB_REQ_SET_CONFIG = 9"
definition USB_REQ_SET_INTERFACE :: byte where "USB_REQ_SET_INTERFACE = 11"
definition USB_FEATURE_ENDPOINT_HALT :: u16 where "USB_FEATURE_ENDPOINT_HALT = 0"

definition USB_GENERAL_DEVICE_REQUEST_TIMEOUT :: nat where "USB_GENERAL_DEVICE_REQUEST_TIMEOUT = 500"

section \<open>Control requests\<close>

definition UsbCtrlRequest ::
  "'h usb_env \<Rightarrow> ptr \<Rightarrow> usb_dir \<Rightarrow> byte \<Rightarrow> byte \<Rightarrow> byte \<Rightarrow> u16 \<Rightarrow> u16 \<Rightarrow> byte list \<Rightarrow> nat \<Rightarrow> 'h usb_bus \<Rightarrow>
    ((efi_status \<times> byte list) \<times> 'h usb_bus) option"
where
  "UsbCtrlRequest env dv dir ty target req val idx buf len st =
     do {
       d \<leftarrow> ub_dev st dv;
       ((s, buf1, n, res), st1) \<leftarrow>
         UsbHcControlTransfer env (dv_Address d) (dv_Speed d) (unat (dv_MaxPacket0 d))
           \<lparr>rq_RequestType = USB_REQUEST_TYPE dir ty target, rq_Request = req, rq_Value = val, rq_Index = idx,
            rq_Length = of_nat len\<rparr>
           dir buf len USB_GENERAL_DEVICE_REQUEST_TIMEOUT (dv_Translator d) st;
       Some ((s, buf1), st1) }"

definition UsbCtrlGetDesc ::
  "'h usb_env \<Rightarrow> ptr \<Rightarrow> byte \<Rightarrow> byte \<Rightarrow> u16 \<Rightarrow> byte list \<Rightarrow> nat \<Rightarrow> 'h usb_bus \<Rightarrow> ((efi_status \<times> byte list) \<times> 'h usb_bus) option"
where
  "UsbCtrlGetDesc env dv ty idx lang =
     UsbCtrlRequest env dv EfiUsbDataIn USB_REQ_TYPE_STANDARD USB_TARGET_DEVICE USB_REQ_GET_DESCRIPTOR
       (push_bit 8 (ucast ty) OR ucast idx) lang"

text \<open>A request without data; only its status is of interest.\<close>

definition no_data ::
  "'h usb_env \<Rightarrow> ptr \<Rightarrow> byte \<Rightarrow> byte \<Rightarrow> byte \<Rightarrow> u16 \<Rightarrow> u16 \<Rightarrow> 'h usb_bus \<Rightarrow> (efi_status \<times> 'h usb_bus) option"
where
  "no_data env dv ty target req val idx st =
     do { ((s, b), st1) \<leftarrow> UsbCtrlRequest env dv EfiUsbNoData ty target req val idx [] 0 st; Some (s, st1) }"

definition UsbSetAddress :: "'h usb_env \<Rightarrow> ptr \<Rightarrow> byte \<Rightarrow> 'h usb_bus \<Rightarrow> (efi_status \<times> 'h usb_bus) option" where
  "UsbSetAddress env dv addr = no_data env dv USB_REQ_TYPE_STANDARD USB_TARGET_DEVICE USB_REQ_SET_ADDRESS (ucast addr) 0"

definition UsbSetConfig :: "'h usb_env \<Rightarrow> ptr \<Rightarrow> byte \<Rightarrow> 'h usb_bus \<Rightarrow> (efi_status \<times> 'h usb_bus) option" where
  "UsbSetConfig env dv c = no_data env dv USB_REQ_TYPE_STANDARD USB_TARGET_DEVICE USB_REQ_SET_CONFIG (ucast c) 0"

text \<open>Three attempts to read the first 8 bytes of the device descriptor into a local structure.\<close>

fun max_packet_loop :: "nat \<Rightarrow> 'h usb_env \<Rightarrow> ptr \<Rightarrow> byte list \<Rightarrow> 'h usb_bus \<Rightarrow> (efi_status \<times> 'h usb_bus) option" where
  "max_packet_loop 0 env dv buf st = Some (EFI_DEVICE_ERROR, st)"
| "max_packet_loop (Suc k) env dv buf st =
     do {
       ((s, buf1), st1) \<leftarrow> UsbCtrlGetDesc env dv USB_DESC_TYPE_DEVICE 0 0 buf 8 st;
       if EFI_ERROR s then max_packet_loop k env dv buf1 st1
       else do {
         bcd \<leftarrow> le16 buf1 2;
         m \<leftarrow> rd buf1 7;
         st2 \<leftarrow> upd_dev dv (\<lambda>d. d\<lparr>dv_MaxPacket0 := if bcd \<ge> 0x0300 \<and> m = 9 then push_bit 9 1 else ucast m\<rparr>) st1;
         Some (EFI_SUCCESS, st2) } }"

definition UsbGetMaxPacketSize0 :: "'h usb_env \<Rightarrow> ptr \<Rightarrow> 'h usb_bus \<Rightarrow> (efi_status \<times> 'h usb_bus) option" where
  "UsbGetMaxPacketSize0 env dv st = max_packet_loop 3 env dv (junk env 18) st"

section \<open>Reading the descriptors\<close>

text \<open>Allocation and release in the heap of the descriptors.\<close>

definition new_desc :: "'h usb_env \<Rightarrow> uobj \<Rightarrow> 'h usb_bus \<Rightarrow> ptr option \<times> 'h usb_bus" where
  "new_desc env x st = (case AllocPool (ue_pool env) x (ub_desc st) of (p, u) \<Rightarrow> (p, st\<lparr>ub_desc := u\<rparr>))"

definition on_desc :: "(ust \<Rightarrow> ust option) \<Rightarrow> 'h usb_bus \<Rightarrow> 'h usb_bus option" where
  "on_desc f st = map_option (\<lambda>u. st\<lparr>ub_desc := u\<rparr>) (f (ub_desc st))"

definition get_bytes :: "ptr \<Rightarrow> 'h usb_bus \<Rightarrow> byte list option" where
  "get_bytes a st = (case us_heap (ub_desc st) a of Some (Bytes b) \<Rightarrow> Some b | _ \<Rightarrow> None)"

definition UsbGetDevDesc :: "'h usb_env \<Rightarrow> ptr \<Rightarrow> 'h usb_bus \<Rightarrow> (efi_status \<times> 'h usb_bus) option" where
  "UsbGetDevDesc env dv st =
     (case new_desc env (DevDesc (replicate 18 0) None) st of
        (None, st1) \<Rightarrow> Some (EFI_OUT_OF_RESOURCES, st1)
      | (Some a, st1) \<Rightarrow>
          do {
            ((s, raw), st2) \<leftarrow> UsbCtrlGetDesc env dv USB_DESC_TYPE_DEVICE 0 0 (replicate 18 0) 18 st1;
            if EFI_ERROR s then do { st3 \<leftarrow> on_desc (FreePtr a) st2; Some (s, st3) }
            else do {
              st3 \<leftarrow> upd_dev dv (\<lambda>d. d\<lparr>dv_DevDesc := Some a\<rparr>) (st2\<lparr>ub_desc := upd a (DevDesc raw None) (ub_desc st2)\<rparr>);
              Some (s, st3) } })"

text \<open>What both routines below do once they know the length: a buffer, and the descriptor read into it.\<close>

definition fetch_desc ::
  "'h usb_env \<Rightarrow> ptr \<Rightarrow> byte \<Rightarrow> byte \<Rightarrow> u16 \<Rightarrow> nat \<Rightarrow> 'h usb_bus \<Rightarrow> (ptr option \<times> 'h usb_bus) option"
where
  "fetch_desc env dv ty idx lang len st =
     (case new_desc env (Bytes (replicate len 0)) st of
        (None, st1) \<Rightarrow> Some (None, st1)
      | (Some b, st1) \<Rightarrow>
          do {
            ((s, buf), st2) \<leftarrow> UsbCtrlGetDesc env dv ty idx lang (replicate len 0) len st1;
            if EFI_ERROR s then do { st3 \<leftarrow> on_desc (FreePtr b) st2; Some (None, st3) }
            else Some (Some b, st2\<lparr>ub_desc := upd b (Bytes buf) (ub_desc st2)\<rparr>) })"

definition UsbGetOneString :: "'h usb_env \<Rightarrow> ptr \<Rightarrow> byte \<Rightarrow> u16 \<Rightarrow> 'h usb_bus \<Rightarrow> (ptr option \<times> 'h usb_bus) option" where
  "UsbGetOneString env dv idx lang st =
     do {
       ((s, d), st1) \<leftarrow> UsbCtrlGetDesc env dv USB_DESC_TYPE_STRING idx lang (junk env 4) 2 st;
       if EFI_ERROR s then Some (None, st1)
       else do {
         l \<leftarrow> rd d 0;
         fetch_desc env dv USB_DESC_TYPE_STRING idx lang (unat l) st1 } }"

fun lang_loop :: "nat \<Rightarrow> nat \<Rightarrow> byte list \<Rightarrow> u16 list \<Rightarrow> u16 list option" where
  "lang_loop 0 i buf langs = Some langs"
| "lang_loop (Suc k) i buf langs =
     do { w \<leftarrow> le16 buf (2 + 2 * i); langs1 \<leftarrow> wr langs i w; lang_loop k (i + 1) buf langs1 }"

definition UsbBuildLangTable :: "'h usb_env \<Rightarrow> ptr \<Rightarrow> 'h usb_bus \<Rightarrow> (efi_status \<times> 'h usb_bus) option" where
  "UsbBuildLangTable env dv st =
     do {
       (r, st1) \<leftarrow> UsbGetOneString env dv 0 0 st;
       (case r of
          None \<Rightarrow> Some (EFI_UNSUPPORTED, st1)
        | Some b \<Rightarrow>
            do {
              buf \<leftarrow> get_bytes b st1;
              l \<leftarrow> rd buf 0;
              if l < 4 then do { st2 \<leftarrow> on_desc (FreePtr b) st1; Some (EFI_UNSUPPORTED, st2) }
              else do {
                let n = min ((unat l - 2) div 2) USB_MAX_LANG_ID;
                d \<leftarrow> ub_dev st1 dv;
                langs \<leftarrow> lang_loop n 0 buf (dv_LangId d);
                st2 \<leftarrow> upd_dev dv (\<lambda>d. d\<lparr>dv_LangId := langs, dv_TotalLangId := of_nat n\<rparr>) st1;
                st3 \<leftarrow> on_desc (FreePtr b) st2;
                Some (EFI_SUCCESS, st3) } }) }"

definition UsbGetOneConfig :: "'h usb_env \<Rightarrow> ptr \<Rightarrow> byte \<Rightarrow> 'h usb_bus \<Rightarrow> (ptr option \<times> 'h usb_bus) option" where
  "UsbGetOneConfig env dv idx st =
     do {
       ((s, d), st1) \<leftarrow> UsbCtrlGetDesc env dv USB_DESC_TYPE_CONFIG idx 0 (junk env 9) 8 st;
       if EFI_ERROR s then Some (None, st1)
       else do {
         total \<leftarrow> le16 d 2;
         fetch_desc env dv USB_DESC_TYPE_CONFIG idx 0 (unat total) st1 } }"

text \<open>The loop over the configurations; only the first one must be there.\<close>

fun config_loop :: "nat \<Rightarrow> nat \<Rightarrow> 'h usb_env \<Rightarrow> ptr \<Rightarrow> ptr \<Rightarrow> 'h usb_bus \<Rightarrow> (efi_status \<times> 'h usb_bus) option" where
  "config_loop 0 i env dv arr st = Some (EFI_SUCCESS, st)"
| "config_loop (Suc k) i env dv arr st =
     do {
       (r, st1) \<leftarrow> UsbGetOneConfig env dv (of_nat i) st;
       (case r of
          None \<Rightarrow> Some (if i = 0 then EFI_DEVICE_ERROR else EFI_SUCCESS, st1)
        | Some b \<Rightarrow>
            do {
              buf \<leftarrow> get_bytes b st1;
              total \<leftarrow> le16 buf 2;
              (c, u) \<leftarrow> UsbParseConfigDesc (ue_pool env) buf (unat total) (ub_desc st1);
              st2 \<leftarrow> on_desc (FreePtr b) (st1\<lparr>ub_desc := u\<rparr>);
              (case c of
                 None \<Rightarrow> Some (if i = 0 then EFI_DEVICE_ERROR else EFI_SUCCESS, st2)
               | Some a \<Rightarrow> do { st3 \<leftarrow> on_desc (set_ptr arr i a) st2; config_loop k (i + 1) env dv arr st3 }) }) }"

definition UsbBuildDescTable :: "'h usb_env \<Rightarrow> ptr \<Rightarrow> 'h usb_bus \<Rightarrow> (efi_status \<times> 'h usb_bus) option" where
  "UsbBuildDescTable env dv st =
     do {
       (s, st1) \<leftarrow> UsbGetDevDesc env dv st;
       if EFI_ERROR s then Some (s, st1)
       else do {
         d \<leftarrow> ub_dev st1 dv;
         a \<leftarrow> dv_DevDesc d;
         (case us_heap (ub_desc st1) a of
            Some (DevDesc raw cfgs) \<Rightarrow>
              (let n = NumConfigurations raw in
               if n = 0 then Some (EFI_DEVICE_ERROR, st1)
               else
                 (case new_desc env (Ptrs (replicate n None)) st1 of
                    (None, st2) \<Rightarrow> Some (EFI_OUT_OF_RESOURCES, st2)
                  | (Some arr, st2) \<Rightarrow>
                      do {
                        (s1, st3) \<leftarrow> config_loop n 0 env dv arr (st2\<lparr>ub_desc := upd a (DevDesc raw (Some arr)) (ub_desc st2)\<rparr>);
                        if EFI_ERROR s1 then Some (s1, st3)
                        else do { (s2, st4) \<leftarrow> UsbBuildLangTable env dv st3; Some (EFI_SUCCESS, st4) } }))
          | _ \<Rightarrow> None) } }"

section \<open>Hub class requests\<close>

definition USB_DESC_TYPE_HUB :: byte where "USB_DESC_TYPE_HUB = 0x29"
definition USB_DESC_TYPE_HUB_SUPER_SPEED :: byte where "USB_DESC_TYPE_HUB_SUPER_SPEED = 0x2a"
definition USB_HUB_TARGET_HUB :: byte where "USB_HUB_TARGET_HUB = 0"
definition USB_HUB_TARGET_PORT :: byte where "USB_HUB_TARGET_PORT = 3"
definition USB_HUB_REQ_GET_STATUS :: byte where "USB_HUB_REQ_GET_STATUS = 0"
definition USB_HUB_REQ_CLEAR_FEATURE :: byte where "USB_HUB_REQ_CLEAR_FEATURE = 1"
definition USB_HUB_REQ_SET_FEATURE :: byte where "USB_HUB_REQ_SET_FEATURE = 3"
definition USB_HUB_REQ_GET_DESC :: byte where "USB_HUB_REQ_GET_DESC = 6"
definition USB_HUB_REQ_CLEAR_TT :: byte where "USB_HUB_REQ_CLEAR_TT = 8"
definition USB_HUB_REQ_RESET_TT :: byte where "USB_HUB_REQ_RESET_TT = 9"
definition USB_HUB_REQ_SET_DEPTH :: byte where "USB_HUB_REQ_SET_DEPTH = 12"
definition USB_HUB_C_HUB_LOCAL_POWER :: u16 where "USB_HUB_C_HUB_LOCAL_POWER = 0"
definition USB_HUB_C_HUB_OVER_CURRENT :: u16 where "USB_HUB_C_HUB_OVER_CURRENT = 1"

text \<open>The structure for a hub descriptor has 23 bytes.\<close>

definition sizeof_EFI_USB_HUB_DESCRIPTOR :: nat where "sizeof_EFI_USB_HUB_DESCRIPTOR = 23"

definition UsbHubCtrlSetHubDepth :: "'h usb_env \<Rightarrow> ptr \<Rightarrow> u16 \<Rightarrow> 'h usb_bus \<Rightarrow> (efi_status \<times> 'h usb_bus) option" where
  "UsbHubCtrlSetHubDepth env dv depth = no_data env dv USB_REQ_TYPE_CLASS USB_HUB_TARGET_HUB USB_HUB_REQ_SET_DEPTH depth 0"

definition UsbHubCtrlClearHubFeature :: "'h usb_env \<Rightarrow> ptr \<Rightarrow> u16 \<Rightarrow> 'h usb_bus \<Rightarrow> (efi_status \<times> 'h usb_bus) option" where
  "UsbHubCtrlClearHubFeature env dv feat =
     no_data env dv USB_REQ_TYPE_CLASS USB_HUB_TARGET_HUB USB_HUB_REQ_CLEAR_FEATURE feat 0"

definition UsbHubCtrlClearPortFeature ::
  "'h usb_env \<Rightarrow> ptr \<Rightarrow> byte \<Rightarrow> u16 \<Rightarrow> 'h usb_bus \<Rightarrow> (efi_status \<times> 'h usb_bus) option"
where
  "UsbHubCtrlClearPortFeature env dv port feat =
     no_data env dv USB_REQ_TYPE_CLASS USB_HUB_TARGET_PORT USB_HUB_REQ_CLEAR_FEATURE feat (ucast port + 1)"

text \<open>The shifts are done in \<open>int\<close>, and the result is cut to 16 bits.\<close>

definition UsbHubCtrlClearTTBuffer ::
  "'h usb_env \<Rightarrow> ptr \<Rightarrow> byte \<Rightarrow> u16 \<Rightarrow> u16 \<Rightarrow> u16 \<Rightarrow> 'h usb_bus \<Rightarrow> (efi_status \<times> 'h usb_bus) option"
where
  "UsbHubCtrlClearTTBuffer env dv port addr epnum eptype =
     no_data env dv USB_REQ_TYPE_CLASS USB_HUB_TARGET_PORT USB_HUB_REQ_CLEAR_TT
       (ucast ((((ucast epnum AND 0x0F) OR push_bit 4 (ucast addr)) OR push_bit 11 (ucast eptype AND 0x03))
          OR push_bit 15 (ucast epnum AND 0x80 :: u32)))
       (ucast port + 1)"

definition UsbHubCtrlGetSuperSpeedHubDesc ::
  "'h usb_env \<Rightarrow> ptr \<Rightarrow> byte list \<Rightarrow> 'h usb_bus \<Rightarrow> ((efi_status \<times> byte list) \<times> 'h usb_bus) option"
where
  "UsbHubCtrlGetSuperSpeedHubDesc env dv buf =
     UsbCtrlRequest env dv EfiUsbDataIn USB_REQ_TYPE_CLASS USB_HUB_TARGET_HUB USB_HUB_REQ_GET_DESC
       (push_bit 8 (ucast USB_DESC_TYPE_HUB_SUPER_SPEED)) 0 buf 32"

definition UsbHubCtrlGetHubDesc ::
  "'h usb_env \<Rightarrow> ptr \<Rightarrow> byte list \<Rightarrow> nat \<Rightarrow> 'h usb_bus \<Rightarrow> ((efi_status \<times> byte list) \<times> 'h usb_bus) option"
where
  "UsbHubCtrlGetHubDesc env dv buf len =
     UsbCtrlRequest env dv EfiUsbDataIn USB_REQ_TYPE_CLASS USB_HUB_TARGET_HUB USB_HUB_REQ_GET_DESC
       (push_bit 8 (ucast USB_DESC_TYPE_HUB)) 0 buf len"

definition UsbHubCtrlGetHubStatus ::
  "'h usb_env \<Rightarrow> ptr \<Rightarrow> byte list \<Rightarrow> 'h usb_bus \<Rightarrow> ((efi_status \<times> byte list) \<times> 'h usb_bus) option"
where
  "UsbHubCtrlGetHubStatus env dv buf =
     UsbCtrlRequest env dv EfiUsbDataIn USB_REQ_TYPE_CLASS USB_HUB_TARGET_HUB USB_HUB_REQ_GET_STATUS 0 0 buf 4"

definition UsbHubCtrlGetPortStatus ::
  "'h usb_env \<Rightarrow> ptr \<Rightarrow> byte \<Rightarrow> byte list \<Rightarrow> 'h usb_bus \<Rightarrow> ((efi_status \<times> byte list) \<times> 'h usb_bus) option"
where
  "UsbHubCtrlGetPortStatus env dv port buf =
     UsbCtrlRequest env dv EfiUsbDataIn USB_REQ_TYPE_CLASS USB_HUB_TARGET_PORT USB_HUB_REQ_GET_STATUS 0 (ucast port + 1) buf 4"

definition UsbHubCtrlResetTT :: "'h usb_env \<Rightarrow> ptr \<Rightarrow> byte \<Rightarrow> 'h usb_bus \<Rightarrow> (efi_status \<times> 'h usb_bus) option" where
  "UsbHubCtrlResetTT env dv port =
     no_data env dv USB_REQ_TYPE_CLASS USB_HUB_TARGET_HUB USB_HUB_REQ_RESET_TT 0 (ucast port + 1)"

definition UsbHubCtrlSetHubFeature :: "'h usb_env \<Rightarrow> ptr \<Rightarrow> byte \<Rightarrow> 'h usb_bus \<Rightarrow> (efi_status \<times> 'h usb_bus) option" where
  "UsbHubCtrlSetHubFeature env dv feat =
     no_data env dv USB_REQ_TYPE_CLASS USB_HUB_TARGET_HUB USB_HUB_REQ_SET_FEATURE (ucast feat) 0"

definition UsbHubCtrlSetPortFeature ::
  "'h usb_env \<Rightarrow> ptr \<Rightarrow> byte \<Rightarrow> byte \<Rightarrow> 'h usb_bus \<Rightarrow> (efi_status \<times> 'h usb_bus) option"
where
  "UsbHubCtrlSetPortFeature env dv port feat =
     no_data env dv USB_REQ_TYPE_CLASS USB_HUB_TARGET_PORT USB_HUB_REQ_SET_FEATURE (ucast feat) (ucast port + 1)"

text \<open>The descriptor is read into the caller's structure. The length for the second request is the one that the
  device sent.\<close>

definition UsbHubReadDesc ::
  "'h usb_env \<Rightarrow> ptr \<Rightarrow> byte list \<Rightarrow> 'h usb_bus \<Rightarrow> ((efi_status \<times> byte list) \<times> 'h usb_bus) option"
where
  "UsbHubReadDesc env dv buf st =
     do {
       d \<leftarrow> ub_dev st dv;
       if dv_Speed d = EFI_USB_SPEED_SUPER then UsbHubCtrlGetSuperSpeedHubDesc env dv buf st
       else do {
         ((s, buf1), st1) \<leftarrow> UsbHubCtrlGetHubDesc env dv buf 2 st;
         if EFI_ERROR s then Some ((s, buf1), st1)
         else do {
           l \<leftarrow> rd buf1 0;
           UsbHubCtrlGetHubDesc env dv buf1 (unat l) st1 } } }"

definition UsbHubAckHubStatus :: "'h usb_env \<Rightarrow> ptr \<Rightarrow> 'h usb_bus \<Rightarrow> (efi_status \<times> 'h usb_bus) option" where
  "UsbHubAckHubStatus env dv st =
     do {
       ((s, b), st1) \<leftarrow> UsbHubCtrlGetHubStatus env dv (junk env 4) st;
       if EFI_ERROR s then Some (s, st1)
       else do {
         change \<leftarrow> le16 b 2;
         st2 \<leftarrow>
           (if bit change 0 then map_option snd (UsbHubCtrlClearHubFeature env dv USB_HUB_C_HUB_LOCAL_POWER st1) else Some st1);
         st3 \<leftarrow>
           (if bit change 1 then map_option snd (UsbHubCtrlClearHubFeature env dv USB_HUB_C_HUB_OVER_CURRENT st2) else Some st2);
         Some (EFI_SUCCESS, st3) } }"

end
