(* ===== verification/UsbPath.thy ===== *)
theory UsbPath
  imports UsbRequest
begin

text \<open>
  Which devices are connected to drivers (second part of \<^verbatim>\<open>UsbBusDxe/UsbUtility.c\<close>): the list of wanted device
  paths of a bus, and the comparison of an interface with its items, by its path, by its class, or by vendor,
  product and serial number. In the list \<open>None\<close> is an item whose path is NULL, because it could not be copied.
\<close>

section \<open>The list of wanted paths\<close>

definition is_usb_node :: "dp_node \<Rightarrow> bool" where
  "is_usb_node n \<longleftrightarrow> dp_type n = MESSAGING_DEVICE_PATH \<and>
     (dp_subtype n = MSG_USB_DP \<or> dp_subtype n = MSG_USB_CLASS_DP \<or> dp_subtype n = MSG_USB_WWID_DP)"

text \<open>The class path that every device matches.\<close>

definition mAllUsbClassDevicePath :: dev_path where
  "mAllUsbClassDevicePath = [DpNode MESSAGING_DEVICE_PATH MSG_USB_CLASS_DP [0xff, 0xff, 0xff, 0xff, 0xff, 0xff, 0xff]]"

text \<open>\<open>Some (None, _)\<close> is a NULL result; the result of the allocation is not checked.\<close>

definition GetUsbDPFromFullDP ::
  "'h usb_env \<Rightarrow> dev_path \<Rightarrow> 'h usb_bus \<Rightarrow> (dev_path option \<times> 'h usb_bus) option"
where
  "GetUsbDPFromFullDP env p st =
     (let usb = takeWhile is_usb_node (dropWhile (\<lambda>n. \<not> is_usb_node n) p) in
      if usb = [] then Some (None, st)
      else (case new_num env st of (None, st1) \<Rightarrow> None | (Some _, st1) \<Rightarrow> Some (Some usb, st1)))"

fun SearchUsbDPInList :: "dev_path option \<Rightarrow> dev_path option list \<Rightarrow> bool" where
  "SearchUsbDPInList None ps = False"
| "SearchUsbDPInList (Some dp) [] = False"
| "SearchUsbDPInList (Some dp) (p # ps) = (if p = Some dp then True else SearchUsbDPInList (Some dp) ps)"

definition AddUsbDPToList :: "'h usb_env \<Rightarrow> dev_path option \<Rightarrow> 'h usb_bus \<Rightarrow> (efi_status \<times> 'h usb_bus) option" where
  "AddUsbDPToList env dp st =
     (case dp of
        None \<Rightarrow> Some (EFI_INVALID_PARAMETER, st)
      | Some p \<Rightarrow>
          if SearchUsbDPInList dp (ub_WantedUsbIoDPList st) then Some (EFI_SUCCESS, st)
          else
            (case new_num env st of
               (None, st1) \<Rightarrow> None
             | (Some item, st1) \<Rightarrow>
                 (case new_num env st1 of (copy, st2) \<Rightarrow>
                    Some (EFI_SUCCESS,
                      st2\<lparr>ub_WantedUsbIoDPList := ub_WantedUsbIoDPList st2 @ [map_option (\<lambda>_. p) copy]\<rparr>))))"

definition UsbBusFreeUsbDPList :: "'h usb_bus \<Rightarrow> efi_status \<times> 'h usb_bus" where
  "UsbBusFreeUsbDPList st = (EFI_SUCCESS, st\<lparr>ub_WantedUsbIoDPList := []\<rparr>)"

text \<open>The remaining path: NULL, the end node, or a path whose first node must be a USB node.\<close>

definition UsbBusAddWantedUsbIoDP ::
  "'h usb_env \<Rightarrow> dev_path option \<Rightarrow> 'h usb_bus \<Rightarrow> (efi_status \<times> 'h usb_bus) option"
where
  "UsbBusAddWantedUsbIoDP env rem st =
     (case rem of
        None \<Rightarrow>
          (case new_num env (snd (UsbBusFreeUsbDPList st)) of (copy, st1) \<Rightarrow>
             do { (s, st2) \<leftarrow> AddUsbDPToList env (map_option (\<lambda>_. mAllUsbClassDevicePath) copy) st1; Some (EFI_SUCCESS, st2) })
      | Some [] \<Rightarrow> Some (EFI_SUCCESS, st)
      | Some (n # p) \<Rightarrow>
          if \<not> is_usb_node n then Some (EFI_INVALID_PARAMETER, st)
          else do {
            (dp, st1) \<leftarrow> GetUsbDPFromFullDP env (n # p) st;
            (s, st2) \<leftarrow> AddUsbDPToList env dp st1;
            Some (EFI_SUCCESS, st2) })"

section \<open>Matching an interface\<close>

definition USB_HUB_CLASS_CODE :: byte where "USB_HUB_CLASS_CODE = 9"
definition USB_HUB_SUBCLASS_CODE :: byte where "USB_HUB_SUBCLASS_CODE = 0"

text \<open>The descriptor of the active setting of an interface, and that of its device.\<close>

definition setting_raw :: "ptr \<Rightarrow> 'h usb_bus \<Rightarrow> byte list option" where
  "setting_raw a st = (case us_heap (ub_desc st) a of Some (Setting raw eps) \<Rightarrow> Some raw | _ \<Rightarrow> None)"

definition active_raw :: "usb_interface \<Rightarrow> 'h usb_bus \<Rightarrow> byte list option" where
  "active_raw u st =
     do {
       a \<leftarrow> ui_IfDesc u;
       (case us_heap (ub_desc st) a of
          Some (IfDesc ps n act) \<Rightarrow> do { p \<leftarrow> rd ps act; x \<leftarrow> p; setting_raw x st }
        | _ \<Rightarrow> None) }"

definition device_raw :: "usb_interface \<Rightarrow> 'h usb_bus \<Rightarrow> byte list option" where
  "device_raw u st =
     do {
       d \<leftarrow> ub_dev st (ui_Device u);
       a \<leftarrow> dv_DevDesc d;
       (case us_heap (ub_desc st) a of Some (DevDesc raw cfgs) \<Rightarrow> Some raw | _ \<Rightarrow> None) }"

definition is_hub_class :: "byte list \<Rightarrow> bool" where
  "is_hub_class act \<longleftrightarrow> act ! 5 = USB_HUB_CLASS_CODE \<and> act ! 6 = USB_HUB_SUBCLASS_CODE"

text \<open>The fields of a class node: vendor, product, class, subclass, protocol; all ones stand for any value.\<close>

definition MatchUsbClass :: "dp_node \<Rightarrow> usb_interface \<Rightarrow> 'h usb_bus \<Rightarrow> bool option" where
  "MatchUsbClass n u st =
     (if dp_type n \<noteq> MESSAGING_DEVICE_PATH \<or> dp_subtype n \<noteq> MSG_USB_CLASS_DP then Some False
      else do {
        act \<leftarrow> active_raw u st;
        dev \<leftarrow> device_raw u st;
        if is_hub_class act then Some True
        else do {
          vendor \<leftarrow> le16 (dp_body n) 0;
          product \<leftarrow> le16 (dp_body n) 2;
          cls \<leftarrow> rd (dp_body n) 4;
          sub \<leftarrow> rd (dp_body n) 5;
          prot \<leftarrow> rd (dp_body n) 6;
          dvendor \<leftarrow> le16 dev 8;
          dproduct \<leftarrow> le16 dev 10;
          Some
            ((vendor = 0xffff \<or> vendor = dvendor) \<and> (product = 0xffff \<or> product = dproduct) \<and>
             (if dev ! 4 = 0
              then (cls = act ! 5 \<or> cls = 0xff) \<and> (sub = act ! 6 \<or> sub = 0xff) \<and> (prot = act ! 7 \<or> prot = 0xff)
              else (cls = dev ! 4 \<or> cls = 0xff) \<and> (sub = dev ! 5 \<or> sub = 0xff) \<and> (prot = dev ! 6 \<or> prot = 0xff))) } })"

text \<open>
  The number of characters of the serial number in a WWID node, without a final zero. With no characters the code
  looks at the one before the first, which is the product number; if that is zero the length wraps to the largest
  value, for which \<open>None\<close> stands: no string is that long.
\<close>

definition wwid_length :: "byte list \<Rightarrow> nat option option" where
  "wwid_length body =
     (let n = (length body - 6) div 2 in
      do {
        l \<leftarrow> le16 body (6 + 2 * n - 2);
        Some (if l = 0 then (if n = 0 then None else Some (n - 1)) else Some n) })"

text \<open>The end of a string descriptor is compared. When the descriptor says that it has less than 2 bytes, the
  length of the string wraps, and the comparison starts before the buffer. The strings are not freed.\<close>

definition serial_ends :: "byte list \<Rightarrow> byte list \<Rightarrow> nat \<Rightarrow> bool option" where
  "serial_ends str body n =
     do {
       l \<leftarrow> rd str 0;
       if l < 2 then (if n = 0 then Some True else None)
       else if (unat l - 2) div 2 \<ge> n then do {
         x \<leftarrow> rd_range str (2 + 2 * ((unat l - 2) div 2 - n)) (2 * n);
         Some (x = take (2 * n) (drop 6 body)) }
       else Some False }"

fun wwid_loop ::
  "u16 list \<Rightarrow> 'h usb_env \<Rightarrow> ptr \<Rightarrow> byte \<Rightarrow> byte list \<Rightarrow> nat option \<Rightarrow> 'h usb_bus \<Rightarrow> (bool \<times> 'h usb_bus) option"
where
  "wwid_loop [] env dv idx body n st = Some (False, st)"
| "wwid_loop (lang # langs) env dv idx body n st =
     do {
       (r, st1) \<leftarrow> UsbGetOneString env dv idx lang st;
       (case r of
          None \<Rightarrow> wwid_loop langs env dv idx body n st1
        | Some b \<Rightarrow>
            do {
              str \<leftarrow> get_bytes b st1;
              m \<leftarrow> (case n of None \<Rightarrow> map_option (\<lambda>_. False) (rd str 0) | Some k \<Rightarrow> serial_ends str body k);
              if m then Some (True, st1) else wwid_loop langs env dv idx body n st1 }) }"

definition MatchUsbWwid :: "'h usb_env \<Rightarrow> dp_node \<Rightarrow> usb_interface \<Rightarrow> 'h usb_bus \<Rightarrow> (bool \<times> 'h usb_bus) option" where
  "MatchUsbWwid env n u st =
     (if dp_type n \<noteq> MESSAGING_DEVICE_PATH \<or> dp_subtype n \<noteq> MSG_USB_WWID_DP then Some (False, st)
      else do {
        act \<leftarrow> active_raw u st;
        dev \<leftarrow> device_raw u st;
        if is_hub_class act then Some (True, st)
        else do {
          ifn \<leftarrow> le16 (dp_body n) 0;
          vendor \<leftarrow> le16 (dp_body n) 2;
          product \<leftarrow> le16 (dp_body n) 4;
          dvendor \<leftarrow> le16 dev 8;
          dproduct \<leftarrow> le16 dev 10;
          if dvendor \<noteq> vendor \<or> dproduct \<noteq> product \<or> ucast (act ! 2) \<noteq> ifn then Some (False, st)
          else if dev ! 16 = 0 then Some (False, st)
          else do {
            len \<leftarrow> wwid_length (dp_body n);
            d \<leftarrow> ub_dev st (ui_Device u);
            wwid_loop (take (unat (dv_TotalLangId d)) (dv_LangId d)) env (ui_Device u) (dev ! 16) (dp_body n) len st } } })"

section \<open>Is an interface wanted?\<close>

definition wants ::
  "'h usb_env \<Rightarrow> dev_path option \<Rightarrow> dev_path option \<Rightarrow> usb_interface \<Rightarrow> 'h usb_bus \<Rightarrow> (bool \<times> 'h usb_bus) option"
where
  "wants env item path u st =
     (case item of
        None \<Rightarrow> None
      | Some [] \<Rightarrow> Some (False, st)
      | Some (n # p) \<Rightarrow>
          if dp_subtype n = MSG_USB_DP then Some (path = item, st)
          else if dp_subtype n = MSG_USB_CLASS_DP then map_option (\<lambda>b. (b, st)) (MatchUsbClass n u st)
          else if dp_subtype n = MSG_USB_WWID_DP then MatchUsbWwid env n u st
          else Some (False, st))"

fun wanted_loop ::
  "dev_path option list \<Rightarrow> 'h usb_env \<Rightarrow> dev_path option \<Rightarrow> usb_interface \<Rightarrow> 'h usb_bus \<Rightarrow> (bool \<times> 'h usb_bus) option"
where
  "wanted_loop [] env path u st = Some (False, st)"
| "wanted_loop (item # items) env path u st =
     do { (b, st1) \<leftarrow> wants env item path u st; if b then Some (True, st1) else wanted_loop items env path u st1 }"

definition UsbBusIsWantedUsbIO :: "'h usb_env \<Rightarrow> ptr \<Rightarrow> 'h usb_bus \<Rightarrow> (bool \<times> 'h usb_bus) option" where
  "UsbBusIsWantedUsbIO env uif st =
     do {
       u \<leftarrow> ub_if st uif;
       if ui_IsHub u then Some (True, st)
       else if SearchUsbDPInList (Some mAllUsbClassDevicePath) (ub_WantedUsbIoDPList st) then Some (True, st)
       else do {
         full \<leftarrow> ui_DevicePath u;
         (path, st1) \<leftarrow> GetUsbDPFromFullDP env full st;
         wanted_loop (ub_WantedUsbIoDPList st1) env path u st1 } }"

text \<open>Every interface of this bus in the handle database that is wanted and not managed is connected.\<close>

definition connect_wanted :: "'h usb_env \<Rightarrow> nat \<Rightarrow> 'h usb_bus \<Rightarrow> 'h usb_bus option" where
  "connect_wanted env h st =
     (case ext (bs_HandleDevicePath env h) st of
        ((s, path), st1) \<Rightarrow>
          (case (if EFI_ERROR s then None else path) of
             None \<Rightarrow> Some st1
           | Some p \<Rightarrow>
               if take (length (ub_DevicePath st1)) p \<noteq> ub_DevicePath st1 then Some st1
               else
                 (case ext (bs_HandleUsbIo env h) st1 of
                    ((s2, uif), st2) \<Rightarrow>
                      if EFI_ERROR s2 then Some st2
                      else do {
                        (b, st3) \<leftarrow> UsbBusIsWantedUsbIO env uif st2;
                        if b then do {
                          u \<leftarrow> ub_if st3 uif;
                          if ui_IsManaged u then Some st3
                          else
                            (case ext (bs_ConnectController env (ui_Handle u)) st3 of
                               (s4, st4) \<Rightarrow> upd_if uif (\<lambda>u. u\<lparr>ui_IsManaged := \<not> EFI_ERROR s4\<rparr>) st4) }
                        else Some st3 })))"

fun connect_loop :: "nat list \<Rightarrow> 'h usb_env \<Rightarrow> 'h usb_bus \<Rightarrow> 'h usb_bus option" where
  "connect_loop [] env st = Some st"
| "connect_loop (h # hs) env st = do { st1 \<leftarrow> connect_wanted env h st; connect_loop hs env st1 }"

definition UsbBusRecursivelyConnectWantedUsbIo :: "'h usb_env \<Rightarrow> 'h usb_bus \<Rightarrow> (efi_status \<times> 'h usb_bus) option" where
  "UsbBusRecursivelyConnectWantedUsbIo env st =
     (case ext (bs_LocateUsbIo env) st of
        ((s, hs), st1) \<Rightarrow>
          if s = EFI_NOT_FOUND \<or> hs = [] then Some (EFI_SUCCESS, st1)
          else map_option (\<lambda>st2. (EFI_SUCCESS, st2)) (connect_loop hs env st1))"

end
