(* ===== verification/UsbHub.thy ===== *)
theory UsbHub
  imports UsbPath
begin

text \<open>
  Hubs (second part of \<^verbatim>\<open>UsbBusDxe/UsbHub.c\<close>): the operations that the enumeration uses on a hub, for the root hub
  and for other hubs, and the interrupt transfer of \<^verbatim>\<open>UsbBus.c\<close> by which a hub reports changes. The code calls them
  through a table of functions, \<open>ui_HubApi\<close>.

  The status of a port is a pair: the status bits and the change bits.
\<close>

definition USB_ENDPOINT_BULK :: byte where "USB_ENDPOINT_BULK = 2"
definition USB_ENDPOINT_INTERRUPT :: byte where "USB_ENDPOINT_INTERRUPT = 3"
definition USB_HUB_POLL_INTERVAL :: nat where "USB_HUB_POLL_INTERVAL = 64"
definition USB_WAIT_PORT_STS_CHANGE_LOOP :: nat where "USB_WAIT_PORT_STS_CHANGE_LOOP = 5000"
definition USB_HUB_PORT_RESET :: byte where "USB_HUB_PORT_RESET = 4"
definition USB_HUB_PORT_POWER :: byte where "USB_HUB_PORT_POWER = 8"
definition USB_HUB_PORT_REMOTE_WAKE_MASK :: byte where "USB_HUB_PORT_REMOTE_WAKE_MASK = 27"

text \<open>The bits of the port status and the features of the USB specification, as UEFI numbers them.\<close>

definition USB_PORT_STAT_CONNECTION :: nat where "USB_PORT_STAT_CONNECTION = 0"
definition USB_PORT_STAT_ENABLE :: nat where "USB_PORT_STAT_ENABLE = 1"
definition USB_PORT_STAT_OVERCURRENT :: nat where "USB_PORT_STAT_OVERCURRENT = 3"
definition USB_PORT_STAT_RESET :: nat where "USB_PORT_STAT_RESET = 4"
definition USB_PORT_STAT_LOW_SPEED :: nat where "USB_PORT_STAT_LOW_SPEED = 9"
definition USB_PORT_STAT_HIGH_SPEED :: nat where "USB_PORT_STAT_HIGH_SPEED = 10"
definition USB_PORT_STAT_SUPER_SPEED :: nat where "USB_PORT_STAT_SUPER_SPEED = 11"
definition USB_PORT_STAT_C_CONNECTION :: nat where "USB_PORT_STAT_C_CONNECTION = 0"
definition USB_PORT_STAT_C_ENABLE :: nat where "USB_PORT_STAT_C_ENABLE = 1"
definition USB_PORT_STAT_C_SUSPEND :: nat where "USB_PORT_STAT_C_SUSPEND = 2"
definition USB_PORT_STAT_C_OVERCURRENT :: nat where "USB_PORT_STAT_C_OVERCURRENT = 3"
definition USB_PORT_STAT_C_RESET :: nat where "USB_PORT_STAT_C_RESET = 4"
definition EfiUsbPortEnable :: nat where "EfiUsbPortEnable = 1"
definition EfiUsbPortReset :: nat where "EfiUsbPortReset = 4"
definition EfiUsbPortOwner :: nat where "EfiUsbPortOwner = 13"

text \<open>The change bits with the features that clear them; the tables of both kinds of hubs are the same.\<close>

definition mHubFeatureMap :: "(nat \<times> nat) list" where
  "mHubFeatureMap =
     [(USB_PORT_STAT_C_CONNECTION, 16), (USB_PORT_STAT_C_ENABLE, 17), (USB_PORT_STAT_C_SUSPEND, 18),
      (USB_PORT_STAT_C_OVERCURRENT, 19), (USB_PORT_STAT_C_RESET, 20)]"

definition mRootHubFeatureMap :: "(nat \<times> nat) list" where
  "mRootHubFeatureMap =
     [(USB_PORT_STAT_C_CONNECTION, 16), (USB_PORT_STAT_C_ENABLE, 17), (USB_PORT_STAT_C_SUSPEND, 18),
      (USB_PORT_STAT_C_OVERCURRENT, 19), (USB_PORT_STAT_C_RESET, 20)]"

section \<open>Endpoints\<close>

definition get_ep :: "ptr \<Rightarrow> 'h usb_bus \<Rightarrow> (byte list \<times> byte) option" where
  "get_ep a st = (case us_heap (ub_desc st) a of Some (EpDesc raw tog) \<Rightarrow> Some (raw, tog) | _ \<Rightarrow> None)"

definition set_toggle :: "ptr \<Rightarrow> byte \<Rightarrow> 'h usb_bus \<Rightarrow> 'h usb_bus option" where
  "set_toggle a t st =
     do { (raw, tog) \<leftarrow> get_ep a st; Some (st\<lparr>ub_desc := upd a (EpDesc raw t) (ub_desc st)\<rparr>) }"

text \<open>The endpoint of a setting, through the list of pointers; a NULL pointer in it is dereferenced.\<close>

definition nth_ep :: "ptr option \<Rightarrow> nat \<Rightarrow> 'h usb_bus \<Rightarrow> ptr option" where
  "nth_ep eps i st = do { e \<leftarrow> eps; p \<leftarrow> ptr_at e i (ub_desc st); p }"

fun find_ep :: "nat \<Rightarrow> nat \<Rightarrow> ptr option \<Rightarrow> (byte list \<Rightarrow> bool) \<Rightarrow> 'h usb_bus \<Rightarrow> ptr option option" where
  "find_ep 0 i eps P st = Some None"
| "find_ep (Suc k) i eps P st =
     do {
       a \<leftarrow> nth_ep eps i st;
       (raw, tog) \<leftarrow> get_ep a st;
       if P raw then Some (Some a) else find_ep k (i + 1) eps P st }"

definition UsbGetEndpointDesc :: "ptr \<Rightarrow> byte \<Rightarrow> 'h usb_bus \<Rightarrow> ptr option option" where
  "UsbGetEndpointDesc uif ep st =
     do {
       u \<leftarrow> ub_if st uif;
       x \<leftarrow> ui_IfSetting u;
       (case us_heap (ub_desc st) x of
          Some (Setting raw eps) \<Rightarrow> find_ep (NumEndpoints raw) 0 eps (\<lambda>raw. raw ! 2 = ep) st
        | _ \<Rightarrow> None) }"

definition ep_type :: "byte list \<Rightarrow> byte" where
  "ep_type raw = raw ! 3 AND 3"

definition bad_ep :: "byte \<Rightarrow> bool" where
  "bad_ep ep \<longleftrightarrow> ep AND 0x7F = 0 \<or> 15 < ep AND 0x7F"

definition UsbIoAsyncInterruptTransfer ::
  "'h usb_env \<Rightarrow> ptr \<Rightarrow> byte \<Rightarrow> bool \<Rightarrow> nat \<Rightarrow> nat \<Rightarrow> usb_callback \<Rightarrow> 'h usb_bus \<Rightarrow> (efi_status \<times> 'h usb_bus) option"
where
  "UsbIoAsyncInterruptTransfer env uif ep isnew poll len cb st =
     (if bad_ep ep then Some (EFI_INVALID_PARAMETER, st)
      else do {
        u \<leftarrow> ub_if st uif;
        d \<leftarrow> ub_dev st (ui_Device u);
        r \<leftarrow> UsbGetEndpointDesc uif ep st;
        (case r of
           None \<Rightarrow> Some (EFI_INVALID_PARAMETER, st)
         | Some e \<Rightarrow>
             do {
               (raw, tog) \<leftarrow> get_ep e st;
               if ep_type raw \<noteq> USB_ENDPOINT_INTERRUPT then Some (EFI_INVALID_PARAMETER, st)
               else do {
                 maxp \<leftarrow> le16 raw 4;
                 ((s, tog1), st1) \<leftarrow>
                   UsbHcAsyncInterruptTransfer env (dv_Address d) ep (dv_Speed d) (unat maxp) isnew tog poll len
                     (dv_Translator d) cb st;
                 st2 \<leftarrow> set_toggle e tog1 st1;
                 Some (s, st2) } }) })"

section \<open>Hubs behind a port\<close>

definition UsbIsHubInterface :: "ptr \<Rightarrow> 'h usb_bus \<Rightarrow> bool option" where
  "UsbIsHubInterface uif st =
     do { u \<leftarrow> ub_if st uif; x \<leftarrow> ui_IfSetting u; raw \<leftarrow> setting_raw x st; Some (is_hub_class raw) }"

definition UsbHubGetPortStatus :: "'h usb_env \<Rightarrow> ptr \<Rightarrow> byte \<Rightarrow> byte list \<Rightarrow> 'h usb_bus \<Rightarrow>
    ((efi_status \<times> byte list) \<times> 'h usb_bus) option"
where
  "UsbHubGetPortStatus env uif port buf st =
     do { u \<leftarrow> ub_if st uif; UsbHubCtrlGetPortStatus env (ui_Device u) port buf st }"

definition UsbHubSetPortFeature :: "'h usb_env \<Rightarrow> ptr \<Rightarrow> byte \<Rightarrow> byte \<Rightarrow> 'h usb_bus \<Rightarrow> (efi_status \<times> 'h usb_bus) option" where
  "UsbHubSetPortFeature env uif port feat st =
     do { u \<leftarrow> ub_if st uif; UsbHubCtrlSetPortFeature env (ui_Device u) port feat st }"

definition UsbHubClearPortFeature :: "'h usb_env \<Rightarrow> ptr \<Rightarrow> byte \<Rightarrow> byte \<Rightarrow> 'h usb_bus \<Rightarrow> (efi_status \<times> 'h usb_bus) option" where
  "UsbHubClearPortFeature env uif port feat st =
     do { u \<leftarrow> ub_if st uif; UsbHubCtrlClearPortFeature env (ui_Device u) port (ucast feat) st }"

fun hub_clear_loop ::
  "(nat \<times> nat) list \<Rightarrow> 'h usb_env \<Rightarrow> ptr \<Rightarrow> byte \<Rightarrow> u16 \<Rightarrow> 'h usb_bus \<Rightarrow> 'h usb_bus option"
where
  "hub_clear_loop [] env dv port change st = Some st"
| "hub_clear_loop ((b, feat) # fs) env dv port change st =
     do {
       st1 \<leftarrow>
         (if bit change b then map_option snd (UsbHubCtrlClearPortFeature env dv port (of_nat feat) st) else Some st);
       hub_clear_loop fs env dv port change st1 }"

definition UsbHubClearPortChange :: "'h usb_env \<Rightarrow> ptr \<Rightarrow> byte \<Rightarrow> 'h usb_bus \<Rightarrow> 'h usb_bus option" where
  "UsbHubClearPortChange env uif port st =
     do {
       u \<leftarrow> ub_if st uif;
       ((s, b), st1) \<leftarrow> UsbHubGetPortStatus env uif port (junk env 4) st;
       if EFI_ERROR s then Some st1
       else do {
         change \<leftarrow> le16 b 2;
         hub_clear_loop mHubFeatureMap env (ui_Device u) port change st1 } }"

text \<open>The port is polled until the hub reports that the reset is done, at most 5000 times.\<close>

fun hub_reset_loop :: "nat \<Rightarrow> 'h usb_env \<Rightarrow> ptr \<Rightarrow> byte \<Rightarrow> byte list \<Rightarrow> 'h usb_bus \<Rightarrow> (efi_status \<times> 'h usb_bus) option" where
  "hub_reset_loop 0 env uif port buf st = Some (EFI_TIMEOUT, st)"
| "hub_reset_loop (Suc k) env uif port buf st =
     do {
       ((s, buf1), st1) \<leftarrow> UsbHubGetPortStatus env uif port buf st;
       if EFI_ERROR s then Some (s, st1)
       else do {
         change \<leftarrow> le16 buf1 2;
         if bit change USB_PORT_STAT_C_RESET then Some (EFI_SUCCESS, st1)
         else hub_reset_loop k env uif port buf1 st1 } }"

definition UsbHubResetPort :: "'h usb_env \<Rightarrow> ptr \<Rightarrow> byte \<Rightarrow> 'h usb_bus \<Rightarrow> (efi_status \<times> 'h usb_bus) option" where
  "UsbHubResetPort env uif port st =
     do {
       (s, st1) \<leftarrow> UsbHubSetPortFeature env uif port USB_HUB_PORT_RESET st;
       if EFI_ERROR s then Some (s, st1)
       else hub_reset_loop USB_WAIT_PORT_STS_CHANGE_LOOP env uif port (replicate 4 0) st1 }"

fun port_feature_loop :: "nat \<Rightarrow> nat \<Rightarrow> 'h usb_env \<Rightarrow> ptr \<Rightarrow> byte \<Rightarrow> 'h usb_bus \<Rightarrow> 'h usb_bus option" where
  "port_feature_loop 0 i env dv feat st = Some st"
| "port_feature_loop (Suc k) i env dv feat st =
     do {
       (s, st1) \<leftarrow> UsbHubCtrlSetPortFeature env dv (of_nat i) feat st;
       port_feature_loop k (i + 1) env dv feat st1 }"

text \<open>The descriptor is read into a local structure of 23 bytes.\<close>

definition UsbHubInit :: "'h usb_env \<Rightarrow> ptr \<Rightarrow> 'h usb_bus \<Rightarrow> (efi_status \<times> 'h usb_bus) option" where
  "UsbHubInit env uif st0 =
     do {
       st \<leftarrow> upd_if uif (\<lambda>u. u\<lparr>ui_IsHub := False\<rparr>) st0;
       u \<leftarrow> ub_if st uif;
       x \<leftarrow> ui_IfSetting u;
       (case us_heap (ub_desc st) x of
          Some (Setting raw eps) \<Rightarrow>
            do {
              r \<leftarrow> find_ep (NumEndpoints raw) 0 eps (\<lambda>raw. bit (raw ! 2) 7 \<and> ep_type raw = USB_ENDPOINT_INTERRUPT) st;
              (case r of
                 None \<Rightarrow> Some (EFI_DEVICE_ERROR, st)
               | Some e \<Rightarrow>
                   do {
                     ((s, desc), st1) \<leftarrow> UsbHubReadDesc env (ui_Device u) (junk env sizeof_EFI_USB_HUB_DESCRIPTOR) st;
                     if EFI_ERROR s then Some (s, st1)
                     else do {
                       ports \<leftarrow> rd desc 2;
                       st2 \<leftarrow> upd_if uif (\<lambda>u. u\<lparr>ui_NumOfPort := ports, ui_IsHub := True, ui_HubApi := Some mUsbHubApi,
                                                ui_HubEp := Some e\<rparr>) st1;
                       d \<leftarrow> ub_dev st2 (ui_Device u);
                       st3 \<leftarrow>
                         (if dv_Speed d = EFI_USB_SPEED_SUPER then do {
                            (s1, st3) \<leftarrow> UsbHubCtrlSetHubDepth env (ui_Device u) (ucast (dv_Tier d) - 1) st2;
                            port_feature_loop (unat ports) 0 env (ui_Device u) USB_HUB_PORT_REMOTE_WAKE_MASK st3 }
                          else do {
                            st3 \<leftarrow> port_feature_loop (unat ports) 0 env (ui_Device u) USB_HUB_PORT_POWER st2;
                            map_option snd (UsbHubAckHubStatus env (ui_Device u) st3) });
                       (case ext (bs_CreateEvent env uif) st3 of
                          ((s2, ev), st4) \<Rightarrow>
                            if EFI_ERROR s2 then Some (s2, st4)
                            else do {
                              st5 \<leftarrow> upd_if uif (\<lambda>u. u\<lparr>ui_HubNotify := Some ev\<rparr>) st4;
                              (epraw, tog) \<leftarrow> get_ep e st5;
                              (s3, st6) \<leftarrow>
                                UsbIoAsyncInterruptTransfer env uif (epraw ! 2) True USB_HUB_POLL_INTERVAL
                                  (unat ports div 8 + 1) (UsbOnHubInterruptCb uif) st5;
                              if EFI_ERROR s3 then do {
                                st7 \<leftarrow> upd_if uif (\<lambda>u. u\<lparr>ui_HubNotify := None\<rparr>) (snd (ext (\<lambda>h. ((), bs_CloseEvent env ev h)) st6));
                                Some (s3, st7) }
                              else Some (s3, st6) }) } }) }
        | _ \<Rightarrow> None) }"

definition close_hub_event :: "'h usb_env \<Rightarrow> nat option \<Rightarrow> 'h usb_bus \<Rightarrow> 'h usb_bus" where
  "close_hub_event env ev st = (case ev of None \<Rightarrow> st | Some e \<Rightarrow> snd (ext (\<lambda>h. ((), bs_CloseEvent env e h)) st))"

definition UsbHubRelease :: "'h usb_env \<Rightarrow> ptr \<Rightarrow> 'h usb_bus \<Rightarrow> (efi_status \<times> 'h usb_bus) option" where
  "UsbHubRelease env uif st =
     do {
       u \<leftarrow> ub_if st uif;
       e \<leftarrow> ui_HubEp u;
       (raw, tog) \<leftarrow> get_ep e st;
       (s, st1) \<leftarrow> UsbIoAsyncInterruptTransfer env uif (raw ! 2) False USB_HUB_POLL_INTERVAL 0 NoCallback st;
       if EFI_ERROR s then Some (s, st1)
       else do {
         u1 \<leftarrow> ub_if st1 uif;
         st2 \<leftarrow> upd_if uif (\<lambda>u. u\<lparr>ui_IsHub := False, ui_HubApi := None, ui_HubEp := None, ui_HubNotify := None\<rparr>)
                  (close_hub_event env (ui_HubNotify u1) st1);
         Some (EFI_SUCCESS, st2) } }"

section \<open>The root hub\<close>

definition UsbRootHubInit :: "'h usb_env \<Rightarrow> ptr \<Rightarrow> 'h usb_bus \<Rightarrow> (efi_status \<times> 'h usb_bus) option" where
  "UsbRootHubInit env uif st =
     do {
       ((s, maxspeed, ports, s64), st1) \<leftarrow> UsbHcGetCapability env st;
       if EFI_ERROR s then Some (s, st1)
       else do {
         st2 \<leftarrow> upd_if uif (\<lambda>u. u\<lparr>ui_IsHub := True, ui_HubApi := Some mUsbRootHubApi, ui_HubEp := None,
                                  ui_MaxSpeed := maxspeed, ui_NumOfPort := ports, ui_HubNotify := None\<rparr>) st1;
         (case ext (bs_CreateEvent env uif) st2 of
            ((s1, ev), st3) \<Rightarrow>
              if EFI_ERROR s1 then Some (s1, st3)
              else do {
                st4 \<leftarrow> upd_if uif (\<lambda>u. u\<lparr>ui_HubNotify := Some ev\<rparr>) st3;
                (let (_, st5) = ext (\<lambda>h. ((), bs_SignalEvent env ev h)) st4;
                     (s2, st6) = ext (bs_SetTimer env ev True) st5 in
                 if EFI_ERROR s2 then Some (s2, snd (ext (\<lambda>h. ((), bs_CloseEvent env ev h)) st6)) else Some (s2, st6)) }) } }"

definition UsbRootHubGetPortStatus :: "'h usb_env \<Rightarrow> byte \<Rightarrow> 'h usb_bus \<Rightarrow> ((efi_status \<times> u16 \<times> u16) \<times> 'h usb_bus) option"
where
  "UsbRootHubGetPortStatus env port = UsbHcGetRootHubPortStatus env port"

definition UsbRootHubSetPortFeature :: "'h usb_env \<Rightarrow> byte \<Rightarrow> nat \<Rightarrow> 'h usb_bus \<Rightarrow> (efi_status \<times> 'h usb_bus) option" where
  "UsbRootHubSetPortFeature env port feat = UsbHcSetRootHubPortFeature env port feat"

definition UsbRootHubClearPortFeature :: "'h usb_env \<Rightarrow> byte \<Rightarrow> nat \<Rightarrow> 'h usb_bus \<Rightarrow> (efi_status \<times> 'h usb_bus) option" where
  "UsbRootHubClearPortFeature env port feat = UsbHcClearRootHubPortFeature env port feat"

fun root_clear_loop :: "(nat \<times> nat) list \<Rightarrow> 'h usb_env \<Rightarrow> byte \<Rightarrow> u16 \<Rightarrow> 'h usb_bus \<Rightarrow> 'h usb_bus option" where
  "root_clear_loop [] env port change st = Some st"
| "root_clear_loop ((b, feat) # fs) env port change st =
     do {
       st1 \<leftarrow> (if bit change b then map_option snd (UsbHcClearRootHubPortFeature env port feat st) else Some st);
       root_clear_loop fs env port change st1 }"

definition UsbRootHubClearPortChange :: "'h usb_env \<Rightarrow> byte \<Rightarrow> 'h usb_bus \<Rightarrow> 'h usb_bus option" where
  "UsbRootHubClearPortChange env port st =
     do {
       ((s, status, change), st1) \<leftarrow> UsbRootHubGetPortStatus env port st;
       if EFI_ERROR s then Some st1 else root_clear_loop mRootHubFeatureMap env port change st1 }"

text \<open>Polling until the reset bit is clear; \<open>Inr None\<close> when that does not happen.\<close>

fun root_reset_loop ::
  "nat \<Rightarrow> 'h usb_env \<Rightarrow> byte \<Rightarrow> 'h usb_bus \<Rightarrow> ((efi_status + u16 option) \<times> 'h usb_bus) option"
where
  "root_reset_loop 0 env port st = Some (Inr None, st)"
| "root_reset_loop (Suc k) env port st =
     do {
       ((s, status, change), st1) \<leftarrow> UsbHcGetRootHubPortStatus env port st;
       if EFI_ERROR s then Some (Inl s, st1)
       else if \<not> bit status USB_PORT_STAT_RESET then Some (Inr (Some status), st1)
       else root_reset_loop k env port st1 }"

definition UsbRootHubResetPort :: "'h usb_env \<Rightarrow> ptr \<Rightarrow> byte \<Rightarrow> 'h usb_bus \<Rightarrow> (efi_status \<times> 'h usb_bus) option" where
  "UsbRootHubResetPort env uif port st =
     do {
       u \<leftarrow> ub_if st uif;
       (s, st1) \<leftarrow> UsbHcSetRootHubPortFeature env port EfiUsbPortReset st;
       if EFI_ERROR s then Some (s, st1)
       else do {
         (s1, st2) \<leftarrow> UsbHcClearRootHubPortFeature env port EfiUsbPortReset st1;
         if EFI_ERROR s1 then Some (s1, st2)
         else do {
           (r, st3) \<leftarrow> root_reset_loop USB_WAIT_PORT_STS_CHANGE_LOOP env port st2;
           (case r of
              Inl e \<Rightarrow> Some (e, st3)
            | Inr None \<Rightarrow> Some (EFI_TIMEOUT, st3)
            | Inr (Some status) \<Rightarrow>
                if bit status USB_PORT_STAT_ENABLE then Some (EFI_SUCCESS, st3)
                else if ui_MaxSpeed u = EFI_USB_SPEED_HIGH then do {
                  (s2, st4) \<leftarrow> UsbRootHubSetPortFeature env port EfiUsbPortOwner st3;
                  Some (EFI_NOT_FOUND, st4) }
                else do {
                  (s2, st4) \<leftarrow> UsbRootHubSetPortFeature env port EfiUsbPortEnable st3;
                  if EFI_ERROR s2 then Some (s2, st4) else Some (EFI_SUCCESS, st4) }) } } }"

definition UsbRootHubRelease :: "'h usb_env \<Rightarrow> ptr \<Rightarrow> 'h usb_bus \<Rightarrow> (efi_status \<times> 'h usb_bus) option" where
  "UsbRootHubRelease env uif st =
     do {
       u \<leftarrow> ub_if st uif;
       Some (EFI_SUCCESS,
         (case ui_HubNotify u of
            None \<Rightarrow> st
          | Some ev \<Rightarrow> close_hub_event env (Some ev) (snd (ext (bs_SetTimer env ev False) st)))) }"

section \<open>The table of operations\<close>

text \<open>A call through the table of an interface; \<open>None\<close> when the interface has none. The status of a port arrives in
  a local variable.\<close>

definition api_GetPortStatus :: "'h usb_env \<Rightarrow> ptr \<Rightarrow> byte \<Rightarrow> 'h usb_bus \<Rightarrow> ((efi_status \<times> u16 \<times> u16) \<times> 'h usb_bus) option" where
  "api_GetPortStatus env uif port st =
     do {
       u \<leftarrow> ub_if st uif;
       api \<leftarrow> ui_HubApi u;
       (case api of
          mUsbRootHubApi \<Rightarrow> UsbRootHubGetPortStatus env port st
        | mUsbHubApi \<Rightarrow>
            do {
              ((s, b), st1) \<leftarrow> UsbHubGetPortStatus env uif port (junk env 4) st;
              status \<leftarrow> le16 b 0;
              change \<leftarrow> le16 b 2;
              Some ((s, status, change), st1) }) }"

definition api_ClearPortChange :: "'h usb_env \<Rightarrow> ptr \<Rightarrow> byte \<Rightarrow> 'h usb_bus \<Rightarrow> 'h usb_bus option" where
  "api_ClearPortChange env uif port st =
     do {
       u \<leftarrow> ub_if st uif;
       api \<leftarrow> ui_HubApi u;
       (case api of mUsbRootHubApi \<Rightarrow> UsbRootHubClearPortChange env port st | mUsbHubApi \<Rightarrow> UsbHubClearPortChange env uif port st) }"

definition api_ResetPort :: "'h usb_env \<Rightarrow> ptr \<Rightarrow> byte \<Rightarrow> 'h usb_bus \<Rightarrow> (efi_status \<times> 'h usb_bus) option" where
  "api_ResetPort env uif port st =
     do {
       u \<leftarrow> ub_if st uif;
       api \<leftarrow> ui_HubApi u;
       (case api of mUsbRootHubApi \<Rightarrow> UsbRootHubResetPort env uif port st | mUsbHubApi \<Rightarrow> UsbHubResetPort env uif port st) }"

definition api_Release :: "'h usb_env \<Rightarrow> ptr \<Rightarrow> 'h usb_bus \<Rightarrow> (efi_status \<times> 'h usb_bus) option" where
  "api_Release env uif st =
     do {
       u \<leftarrow> ub_if st uif;
       api \<leftarrow> ui_HubApi u;
       (case api of mUsbRootHubApi \<Rightarrow> UsbRootHubRelease env uif st | mUsbHubApi \<Rightarrow> UsbHubRelease env uif st) }"

end
