(* ===== verification/UsbEnum.thy ===== *)
theory UsbEnum
  imports UsbHub
begin

text \<open>
  Enumeration of the bus (\<^verbatim>\<open>UsbBusDxe/UsbEnumer.c\<close>): devices and their interfaces are created when a port
  reports a connection, and removed with all that is behind them when it reports a disconnection.

  Drivers that are connected to an interface call back into the bus driver; that is not part of
  \<open>bs_ConnectController\<close>, which only changes the state outside the driver.
\<close>

section \<open>Interfaces and devices\<close>

definition UsbFreeInterface :: "'h usb_env \<Rightarrow> ptr \<Rightarrow> 'h usb_bus \<Rightarrow> 'h usb_bus option" where
  "UsbFreeInterface env uif st =
     do {
       u \<leftarrow> ub_if st uif;
       let st1 = UsbCloseHostProtoByChild env (ui_Handle u) st;
       let (s, st2) = ext (bs_UninstallIo env (ui_Handle u) uif) st1;
       Some (st2\<lparr>ub_if := (ub_if st2)(uif := None)\<rparr>) }"

definition drop_if :: "ptr \<Rightarrow> 'h usb_bus \<Rightarrow> 'h usb_bus" where
  "drop_if uif st = st\<lparr>ub_if := (ub_if st)(uif := None)\<rparr>"

definition zero_interface :: "ptr \<Rightarrow> usb_interface" where
  "zero_interface dv =
     \<lparr>ui_Device = dv, ui_IfDesc = None, ui_IfSetting = None, ui_Handle = 0, ui_DevicePath = None, ui_IsManaged = False,
      ui_IsHub = False, ui_HubApi = None, ui_NumOfPort = 0, ui_HubNotify = None, ui_HubEp = None, ui_ChangeMap = None,
      ui_MaxSpeed = 0\<rparr>"

definition UsbCreateInterface :: "'h usb_env \<Rightarrow> ptr \<Rightarrow> ptr \<Rightarrow> 'h usb_bus \<Rightarrow> (ptr option \<times> 'h usb_bus) option" where
  "UsbCreateInterface env dv ifd st =
     (case new_num env st of
        (None, st1) \<Rightarrow> Some (None, st1)
      | (Some uif, st1) \<Rightarrow>
          (case us_heap (ub_desc st1) ifd of
             Some (IfDesc ps n act) \<Rightarrow>
               do {
                 setting \<leftarrow> rd ps act;
                 x \<leftarrow> setting;
                 raw \<leftarrow> setting_raw x st1;
                 d \<leftarrow> ub_dev st1 dv;
                 hub \<leftarrow> dv_ParentIf d;
                 h \<leftarrow> ub_if st1 hub;
                 (case new_num env st1 of
                    (None, st2) \<Rightarrow> Some (None, st2)
                  | (Some _, st2) \<Rightarrow>
                      (let path = (case ui_DevicePath h of None \<Rightarrow> [] | Some p \<Rightarrow> p) @
                             [DpNode MESSAGING_DEVICE_PATH MSG_USB_DP [dv_ParentPort d, raw ! 2]];
                           u = (zero_interface dv)\<lparr>ui_IfDesc := Some ifd, ui_IfSetting := Some x, ui_DevicePath := Some path\<rparr>;
                           ((s, handle), st3) = ext (bs_InstallIo env uif) (st2\<lparr>ub_if := (ub_if st2)(uif \<mapsto> u)\<rparr>) in
                       if EFI_ERROR s then Some (None, drop_if uif st3)
                       else do {
                         st4 \<leftarrow> upd_if uif (\<lambda>u. u\<lparr>ui_Handle := handle\<rparr>) st3;
                         let (s1, st5) = UsbOpenHostProtoByChild env handle st4;
                         if EFI_ERROR s1 then Some (None, drop_if uif (snd (ext (bs_UninstallIo env handle uif) st5)))
                         else Some (Some uif, st5) })) }
           | _ \<Rightarrow> None))"

definition UsbFreeDevice :: "ptr \<Rightarrow> 'h usb_bus \<Rightarrow> 'h usb_bus option" where
  "UsbFreeDevice dv st =
     do {
       d \<leftarrow> ub_dev st dv;
       st1 \<leftarrow> (case dv_DevDesc d of None \<Rightarrow> Some st | Some a \<Rightarrow> on_desc (UsbFreeDevDesc a) st);
       Some (st1\<lparr>ub_dev := (ub_dev st1)(dv := None)\<rparr>) }"

definition zero_device :: usb_device where
  "zero_device =
     \<lparr>dv_Speed = 0, dv_Address = 0, dv_MaxPacket0 = 0, dv_DevDesc = None, dv_ActiveConfig = None,
      dv_LangId = replicate USB_MAX_LANG_ID 0, dv_TotalLangId = 0, dv_NumOfInterface = 0,
      dv_Interfaces = replicate USB_MAX_INTERFACE None, dv_Translator = (0, 0), dv_ParentAddr = 0, dv_ParentIf = None,
      dv_ParentPort = 0, dv_Tier = 0, dv_DisconnectFail = False\<rparr>"

definition UsbCreateDevice :: "'h usb_env \<Rightarrow> ptr \<Rightarrow> byte \<Rightarrow> 'h usb_bus \<Rightarrow> (ptr option \<times> 'h usb_bus) option" where
  "UsbCreateDevice env hub port st =
     (case new_num env st of
        (None, st1) \<Rightarrow> Some (None, st1)
      | (Some dv, st1) \<Rightarrow>
          do {
            h \<leftarrow> ub_if st1 hub;
            p \<leftarrow> ub_dev st1 (ui_Device h);
            let d = zero_device\<lparr>dv_MaxPacket0 := 8, dv_ParentAddr := dv_Address p, dv_ParentIf := Some hub,
                      dv_ParentPort := port, dv_Tier := dv_Tier p + 1\<rparr>;
            Some (Some dv, st1\<lparr>ub_dev := (ub_dev st1)(dv \<mapsto> d)\<rparr>) })"

definition UsbConnectDriver :: "'h usb_env \<Rightarrow> ptr \<Rightarrow> 'h usb_bus \<Rightarrow> (efi_status \<times> 'h usb_bus) option" where
  "UsbConnectDriver env uif st =
     do {
       ishub \<leftarrow> UsbIsHubInterface uif st;
       if ishub then UsbHubInit env uif st
       else do {
         (b, st1) \<leftarrow> UsbBusIsWantedUsbIO env uif st;
         if b then do {
           u \<leftarrow> ub_if st1 uif;
           let (s, st2) = ext (bs_ConnectController env (ui_Handle u)) st1;
           st3 \<leftarrow> upd_if uif (\<lambda>u. u\<lparr>ui_IsManaged := \<not> EFI_ERROR s\<rparr>) st2;
           Some (s, st3) }
         else Some (EFI_SUCCESS, st1) } }"

section \<open>Settings and configurations\<close>

text \<open>The position of the setting with this number, and the setting.\<close>

fun find_setting :: "nat \<Rightarrow> nat \<Rightarrow> ptr option list \<Rightarrow> byte \<Rightarrow> 'h usb_bus \<Rightarrow> (nat \<times> ptr) option option" where
  "find_setting 0 i ps alt st = Some None"
| "find_setting (Suc k) i ps alt st =
     do {
       p \<leftarrow> rd ps i;
       x \<leftarrow> p;
       raw \<leftarrow> setting_raw x st;
       if AlternateSetting raw = alt then Some (Some (i, x)) else find_setting k (i + 1) ps alt st }"

fun reset_toggles :: "nat \<Rightarrow> nat \<Rightarrow> ptr option \<Rightarrow> 'h usb_bus \<Rightarrow> 'h usb_bus option" where
  "reset_toggles 0 i eps st = Some st"
| "reset_toggles (Suc k) i eps st =
     do { a \<leftarrow> nth_ep eps i st; st1 \<leftarrow> set_toggle a 0 st; reset_toggles k (i + 1) eps st1 }"

definition UsbSelectSetting :: "ptr \<Rightarrow> byte \<Rightarrow> 'h usb_bus \<Rightarrow> (efi_status \<times> 'h usb_bus) option" where
  "UsbSelectSetting ifd alt st =
     (case us_heap (ub_desc st) ifd of
        Some (IfDesc ps n act) \<Rightarrow>
          do {
            r \<leftarrow> find_setting n 0 ps alt st;
            (case r of
               None \<Rightarrow> Some (EFI_NOT_FOUND, st)
             | Some (i, x) \<Rightarrow>
                 (let st1 = st\<lparr>ub_desc := upd ifd (IfDesc ps n i) (ub_desc st)\<rparr> in
                  (case us_heap (ub_desc st1) x of
                     Some (Setting raw eps) \<Rightarrow>
                       do { st2 \<leftarrow> reset_toggles (NumEndpoints raw) 0 eps st1; Some (EFI_SUCCESS, st2) }
                   | _ \<Rightarrow> None))) }
      | _ \<Rightarrow> None)"

definition config_at :: "ptr \<Rightarrow> 'h usb_bus \<Rightarrow> (byte list \<times> ptr option) option" where
  "config_at c st = (case us_heap (ub_desc st) c of Some (Config raw ifs) \<Rightarrow> Some (raw, ifs) | _ \<Rightarrow> None)"

fun find_config :: "nat \<Rightarrow> nat \<Rightarrow> ptr option \<Rightarrow> byte \<Rightarrow> 'h usb_bus \<Rightarrow> ptr option option" where
  "find_config 0 i cfgs val st = Some None"
| "find_config (Suc k) i cfgs val st =
     do {
       arr \<leftarrow> cfgs;
       p \<leftarrow> ptr_at arr i (ub_desc st);
       c \<leftarrow> p;
       (raw, ifs) \<leftarrow> config_at c st;
       if ConfigurationValue raw = val then Some (Some c) else find_config k (i + 1) cfgs val st }"

text \<open>The interfaces of a configuration: the default setting, then the interface and its driver. The result is
  whether all could be created, and how many were.\<close>

definition default_alternate :: "ptr \<Rightarrow> 'h usb_bus \<Rightarrow> byte option" where
  "default_alternate ifd st =
     (case us_heap (ub_desc st) ifd of
        Some (IfDesc ps n act) \<Rightarrow> do { p \<leftarrow> rd ps 0; x \<leftarrow> p; raw \<leftarrow> setting_raw x st; Some (AlternateSetting raw) }
      | _ \<Rightarrow> None)"

fun create_interfaces ::
  "nat \<Rightarrow> nat \<Rightarrow> 'h usb_env \<Rightarrow> ptr \<Rightarrow> ptr option \<Rightarrow> 'h usb_bus \<Rightarrow> ((bool \<times> nat) \<times> 'h usb_bus) option"
where
  "create_interfaces 0 i env dv ifs st = Some ((True, i), st)"
| "create_interfaces (Suc k) i env dv ifs st =
     do {
       arr \<leftarrow> ifs;
       p \<leftarrow> ptr_at arr i (ub_desc st);
       ifd \<leftarrow> p;
       alt \<leftarrow> default_alternate ifd st;
       (s, st1) \<leftarrow> UsbSelectSetting ifd alt st;
       (r, st2) \<leftarrow> UsbCreateInterface env dv ifd st1;
       (case r of
          None \<Rightarrow> Some ((False, i), st2)
        | Some uif \<Rightarrow>
            do {
              d \<leftarrow> ub_dev st2 dv;
              us \<leftarrow> wr (dv_Interfaces d) i (Some uif);
              st3 \<leftarrow> upd_dev dv (\<lambda>d. d\<lparr>dv_Interfaces := us\<rparr>) st2;
              (s1, st4) \<leftarrow> UsbConnectDriver env uif st3;
              create_interfaces k (i + 1) env dv ifs st4 }) }"

definition UsbSelectConfig :: "'h usb_env \<Rightarrow> ptr \<Rightarrow> byte \<Rightarrow> 'h usb_bus \<Rightarrow> (efi_status \<times> 'h usb_bus) option" where
  "UsbSelectConfig env dv val st =
     do {
       d \<leftarrow> ub_dev st dv;
       a \<leftarrow> dv_DevDesc d;
       (case us_heap (ub_desc st) a of
          Some (DevDesc raw cfgs) \<Rightarrow>
            do {
              r \<leftarrow> find_config (NumConfigurations raw) 0 cfgs val st;
              (case r of
                 None \<Rightarrow> Some (EFI_NOT_FOUND, st)
               | Some c \<Rightarrow>
                   do {
                     st1 \<leftarrow> upd_dev dv (\<lambda>d. d\<lparr>dv_ActiveConfig := Some c\<rparr>) st;
                     (craw, ifs) \<leftarrow> config_at c st1;
                     ((ok, n), st2) \<leftarrow> create_interfaces (NumInterfaces craw) 0 env dv ifs st1;
                     st3 \<leftarrow> upd_dev dv (\<lambda>d. d\<lparr>dv_NumOfInterface := of_nat n\<rparr>) st2;
                     Some (if ok then EFI_SUCCESS else EFI_OUT_OF_RESOURCES, st3) }) }
        | _ \<Rightarrow> None) }"

section \<open>Removal\<close>

definition UsbDisconnectDriver :: "'h usb_env \<Rightarrow> ptr \<Rightarrow> 'h usb_bus \<Rightarrow> (efi_status \<times> 'h usb_bus) option" where
  "UsbDisconnectDriver env uif st =
     do {
       u \<leftarrow> ub_if st uif;
       if ui_IsHub u then api_Release env uif st
       else if ui_IsManaged u then do {
         let (s, st1) = ext (bs_DisconnectController env (ui_Handle u)) st;
         st2 \<leftarrow> (if EFI_ERROR s then Some st1 else upd_if uif (\<lambda>u. u\<lparr>ui_IsManaged := False\<rparr>) st1);
         Some (s, st2) }
       else Some (EFI_SUCCESS, st) }"

fun remove_interfaces ::
  "nat \<Rightarrow> nat \<Rightarrow> 'h usb_env \<Rightarrow> ptr \<Rightarrow> efi_status \<Rightarrow> 'h usb_bus \<Rightarrow> (efi_status \<times> 'h usb_bus) option"
where
  "remove_interfaces 0 i env dv ret st = Some (ret, st)"
| "remove_interfaces (Suc k) i env dv ret st =
     do {
       d \<leftarrow> ub_dev st dv;
       p \<leftarrow> rd (dv_Interfaces d) i;
       (case p of
          None \<Rightarrow> remove_interfaces k (i + 1) env dv ret st
        | Some uif \<Rightarrow>
            do {
              (s, st1) \<leftarrow> UsbDisconnectDriver env uif st;
              if EFI_ERROR s then remove_interfaces k (i + 1) env dv s st1
              else do {
                st2 \<leftarrow> UsbFreeInterface env uif st1;
                st3 \<leftarrow> upd_dev dv (\<lambda>d. d\<lparr>dv_Interfaces := (dv_Interfaces d)[i := None]\<rparr>) st2;
                remove_interfaces k (i + 1) env dv ret st3 } }) }"

definition UsbRemoveConfig :: "'h usb_env \<Rightarrow> ptr \<Rightarrow> 'h usb_bus \<Rightarrow> (efi_status \<times> 'h usb_bus) option" where
  "UsbRemoveConfig env dv st =
     do {
       d \<leftarrow> ub_dev st dv;
       (ret, st1) \<leftarrow> remove_interfaces (unat (dv_NumOfInterface d)) 0 env dv EFI_SUCCESS st;
       st2 \<leftarrow> upd_dev dv (\<lambda>d. d\<lparr>dv_ActiveConfig := None\<rparr>) st1;
       Some (ret, st2) }"

text \<open>A device in a slot is marked as one whose removal failed.\<close>

definition mark_failed :: "nat \<Rightarrow> 'h usb_bus \<Rightarrow> 'h usb_bus option" where
  "mark_failed i st =
     do { p \<leftarrow> rd (ub_Devices st) i; c \<leftarrow> p; upd_dev c (\<lambda>d. d\<lparr>dv_DisconnectFail := True\<rparr>) st }"

text \<open>The loop over the slots; \<open>rm\<close> removes a child.\<close>

fun remove_children ::
  "(ptr \<Rightarrow> 'h usb_bus \<Rightarrow> (efi_status \<times> 'h usb_bus) option) \<Rightarrow> nat \<Rightarrow> nat \<Rightarrow> ptr \<Rightarrow> efi_status \<Rightarrow> 'h usb_bus \<Rightarrow>
    (efi_status \<times> 'h usb_bus) option"
where
  "remove_children rm 0 i dv ret st = Some (ret, st)"
| "remove_children rm (Suc k) i dv ret st =
     do {
       p \<leftarrow> rd (ub_Devices st) i;
       (case p of
          None \<Rightarrow> remove_children rm k (i + 1) dv ret st
        | Some c \<Rightarrow>
            do {
              cd \<leftarrow> ub_dev st c;
              d \<leftarrow> ub_dev st dv;
              if dv_ParentAddr cd \<noteq> dv_Address d then remove_children rm k (i + 1) dv ret st
              else do {
                (s, st1) \<leftarrow> rm c st;
                if EFI_ERROR s then do { st2 \<leftarrow> mark_failed i st1; remove_children rm k (i + 1) dv s st2 }
                else do { st2 \<leftarrow> set_slot i None st1; remove_children rm k (i + 1) dv ret st2 } } }) }"

text \<open>The recursion goes down the tree of devices; its depth is the fuel.\<close>

fun UsbRemoveDevice :: "nat \<Rightarrow> 'h usb_env \<Rightarrow> ptr \<Rightarrow> 'h usb_bus \<Rightarrow> (efi_status \<times> 'h usb_bus) option" where
  "UsbRemoveDevice 0 env dv st = None"
| "UsbRemoveDevice (Suc F) env dv st =
     do {
       (ret, st1) \<leftarrow> remove_children (UsbRemoveDevice F env) (ub_MaxDevices st - 1) 1 dv EFI_SUCCESS st;
       if EFI_ERROR ret then Some (ret, st1)
       else do {
         (s, st2) \<leftarrow> UsbRemoveConfig env dv st1;
         d \<leftarrow> ub_dev st2 dv;
         if EFI_ERROR s then do { st3 \<leftarrow> mark_failed (unat (dv_Address d)) st2; Some (s, st3) }
         else do {
           st3 \<leftarrow> set_slot (unat (dv_Address d)) None st2;
           st4 \<leftarrow> UsbFreeDevice dv st3;
           Some (s, st4) } } }"

section \<open>Ports\<close>

fun find_child :: "nat \<Rightarrow> nat \<Rightarrow> byte \<Rightarrow> byte \<Rightarrow> 'h usb_bus \<Rightarrow> ptr option option" where
  "find_child 0 i addr port st = Some None"
| "find_child (Suc k) i addr port st =
     do {
       p \<leftarrow> rd (ub_Devices st) i;
       (case p of
          None \<Rightarrow> find_child k (i + 1) addr port st
        | Some c \<Rightarrow>
            do {
              d \<leftarrow> ub_dev st c;
              if dv_ParentAddr d = addr \<and> dv_ParentPort d = port then Some (Some c)
              else find_child k (i + 1) addr port st }) }"

definition UsbFindChild :: "ptr \<Rightarrow> byte \<Rightarrow> 'h usb_bus \<Rightarrow> ptr option option" where
  "UsbFindChild hub port st =
     do {
       h \<leftarrow> ub_if st hub;
       d \<leftarrow> ub_dev st (ui_Device h);
       find_child (ub_MaxDevices st - 1) 1 (dv_Address d) port st }"

text \<open>The first free slot, or \<open>MaxDevices\<close>.\<close>

fun free_address :: "nat \<Rightarrow> nat \<Rightarrow> 'h usb_bus \<Rightarrow> nat option" where
  "free_address 0 i st = Some i"
| "free_address (Suc k) i st =
     do { p \<leftarrow> rd (ub_Devices st) i; if p = None then Some i else free_address k (i + 1) st }"

text \<open>Speed and packet size that the port status tells.\<close>

definition port_speed :: "u16 \<Rightarrow> byte \<times> u32" where
  "port_speed status =
     (if bit status USB_PORT_STAT_SUPER_SPEED then (EFI_USB_SPEED_SUPER, 512)
      else if bit status USB_PORT_STAT_HIGH_SPEED then (EFI_USB_SPEED_HIGH, 64)
      else if bit status USB_PORT_STAT_LOW_SPEED then (EFI_USB_SPEED_LOW, 8)
      else (EFI_USB_SPEED_FULL, 8))"

text \<open>From the address on: the device answers to its address, is read and configured.\<close>

definition address_device :: "'h usb_env \<Rightarrow> ptr \<Rightarrow> nat \<Rightarrow> 'h usb_bus \<Rightarrow> (efi_status \<times> 'h usb_bus) option" where
  "address_device env dv addr st =
     do {
       (s, st1) \<leftarrow> UsbSetAddress env dv (of_nat addr) st;
       st2 \<leftarrow> upd_dev dv (\<lambda>d. d\<lparr>dv_Address := of_nat addr\<rparr>) st1;
       st3 \<leftarrow> set_slot addr (Some dv) st2;
       if EFI_ERROR s then Some (s, st3)
       else do {
         (s1, st4) \<leftarrow> UsbGetMaxPacketSize0 env dv st3;
         if EFI_ERROR s1 then Some (s1, st4)
         else do {
           (s2, st5) \<leftarrow> UsbBuildDescTable env dv st4;
           if EFI_ERROR s2 then Some (s2, st5)
           else do {
             d \<leftarrow> ub_dev st5 dv;
             a \<leftarrow> dv_DevDesc d;
             (case us_heap (ub_desc st5) a of
                Some (DevDesc raw cfgs) \<Rightarrow>
                  do {
                    arr \<leftarrow> cfgs;
                    p \<leftarrow> ptr_at arr 0 (ub_desc st5);
                    c \<leftarrow> p;
                    (craw, ifs) \<leftarrow> config_at c st5;
                    (s3, st6) \<leftarrow> UsbSetConfig env dv (ConfigurationValue craw) st5;
                    if EFI_ERROR s3 then Some (s3, st6)
                    else UsbSelectConfig env dv (ConfigurationValue craw) st6 }
              | _ \<Rightarrow> None) } } } }"

definition UsbEnumerateNewDev :: "'h usb_env \<Rightarrow> ptr \<Rightarrow> byte \<Rightarrow> bool \<Rightarrow> 'h usb_bus \<Rightarrow> (efi_status \<times> 'h usb_bus) option" where
  "UsbEnumerateNewDev env hub port reset st =
     do {
       h \<leftarrow> ub_if st hub;
       (s, st1) \<leftarrow> (if reset then api_ResetPort env hub port st else Some (EFI_SUCCESS, st));
       if EFI_ERROR s then Some (s, st1)
       else do {
         (r, st2) \<leftarrow> UsbCreateDevice env hub port st1;
         (case r of
            None \<Rightarrow> Some (EFI_OUT_OF_RESOURCES, st2)
          | Some dv \<Rightarrow>
              do {
                ((s1, status, change), st3) \<leftarrow> api_GetPortStatus env hub port st2;
                if EFI_ERROR s1 then Some (s1, st3)
                else if \<not> bit status USB_PORT_STAT_CONNECTION then Some (s1, st3)
                else do {
                  p \<leftarrow> ub_dev st3 (ui_Device h);
                  let (speed, maxp) = port_speed status;
                  let tr = (if (speed = EFI_USB_SPEED_LOW \<or> speed = EFI_USB_SPEED_FULL) \<and> dv_Speed p = EFI_USB_SPEED_HIGH
                            then (dv_Address p, port + 1) else dv_Translator p);
                  st4 \<leftarrow> upd_dev dv (\<lambda>d. d\<lparr>dv_Speed := speed, dv_MaxPacket0 := maxp, dv_Translator := tr\<rparr>) st3;
                  addr \<leftarrow> free_address (ub_MaxDevices st4 - 1) 1 st4;
                  if ub_MaxDevices st4 \<le> addr then Some (EFI_ACCESS_DENIED, st4)
                  else address_device env dv addr st4 } }) } }"

text \<open>Removal has as much fuel as there can be devices.\<close>

definition UsbEnumeratePort :: "'h usb_env \<Rightarrow> ptr \<Rightarrow> byte \<Rightarrow> 'h usb_bus \<Rightarrow> (efi_status \<times> 'h usb_bus) option" where
  "UsbEnumeratePort env hub port st =
     do {
       ((s, status, change), st1) \<leftarrow> api_GetPortStatus env hub port st;
       if EFI_ERROR s then Some (s, st1)
       else if \<not> (bit change USB_PORT_STAT_C_CONNECTION \<or> bit change USB_PORT_STAT_C_ENABLE \<or>
                   bit change USB_PORT_STAT_C_OVERCURRENT \<or> bit change USB_PORT_STAT_C_RESET)
       then Some (EFI_SUCCESS, st1)
       else if bit change USB_PORT_STAT_C_OVERCURRENT \<and> bit status USB_PORT_STAT_OVERCURRENT
       then Some (EFI_DEVICE_ERROR, st1)
       else do {
         child \<leftarrow> UsbFindChild hub port st1;
         st2 \<leftarrow>
           (case child of
              None \<Rightarrow> Some st1
            | Some c \<Rightarrow> map_option snd (UsbRemoveDevice (Suc (ub_MaxDevices st1)) env c st1));
         (s1, st3) \<leftarrow>
           (if bit status USB_PORT_STAT_CONNECTION
            then UsbEnumerateNewDev env hub port (\<not> bit change USB_PORT_STAT_C_RESET) st2
            else Some (s, st2));
         st4 \<leftarrow> api_ClearPortChange env hub port st3;
         Some (s1, st4) } }"

text \<open>A device whose removal failed is tried again.\<close>

definition retry_removal :: "'h usb_env \<Rightarrow> ptr \<Rightarrow> byte \<Rightarrow> 'h usb_bus \<Rightarrow> 'h usb_bus option" where
  "retry_removal env hub port st =
     do {
       child \<leftarrow> UsbFindChild hub port st;
       (case child of
          None \<Rightarrow> Some st
        | Some c \<Rightarrow>
            do {
              d \<leftarrow> ub_dev st c;
              if dv_DisconnectFail d then map_option snd (UsbRemoveDevice (Suc (ub_MaxDevices st)) env c st) else Some st }) }"

fun retry_loop :: "nat \<Rightarrow> nat \<Rightarrow> 'h usb_env \<Rightarrow> ptr \<Rightarrow> 'h usb_bus \<Rightarrow> 'h usb_bus option" where
  "retry_loop 0 i env hub st = Some st"
| "retry_loop (Suc k) i env hub st =
     do { st1 \<leftarrow> retry_removal env hub (of_nat i) st; retry_loop k (i + 1) env hub st1 }"

text \<open>Port \<open>i\<close> has bit \<open>i + 1\<close> of the change map.\<close>

fun enum_loop :: "nat \<Rightarrow> nat \<Rightarrow> 'h usb_env \<Rightarrow> ptr \<Rightarrow> 'h usb_bus \<Rightarrow> 'h usb_bus option" where
  "enum_loop 0 i env hub st = Some st"
| "enum_loop (Suc k) i env hub st =
     do {
       h \<leftarrow> ub_if st hub;
       cm \<leftarrow> ui_ChangeMap h;
       b \<leftarrow> rd cm ((i + 1) div 8);
       st1 \<leftarrow> (if bit b ((i + 1) mod 8) then map_option snd (UsbEnumeratePort env hub (of_nat i) st) else Some st);
       enum_loop k (i + 1) env hub st1 }"

definition UsbHubEnumeration :: "'h usb_env \<Rightarrow> ptr \<Rightarrow> 'h usb_bus \<Rightarrow> 'h usb_bus option" where
  "UsbHubEnumeration env hub st =
     do {
       h \<leftarrow> ub_if st hub;
       st1 \<leftarrow> retry_loop (unat (ui_NumOfPort h)) 0 env hub st;
       h1 \<leftarrow> ub_if st1 hub;
       (case ui_ChangeMap h1 of
          None \<Rightarrow> Some st1
        | Some cm \<Rightarrow>
            do {
              st2 \<leftarrow> enum_loop (unat (ui_NumOfPort h1)) 0 env hub st1;
              (s, st3) \<leftarrow> UsbHubAckHubStatus env (ui_Device h1) st2;
              upd_if hub (\<lambda>u. u\<lparr>ui_ChangeMap := None\<rparr>) st3 }) }"

fun root_enum_loop :: "nat \<Rightarrow> nat \<Rightarrow> 'h usb_env \<Rightarrow> ptr \<Rightarrow> 'h usb_bus \<Rightarrow> 'h usb_bus option" where
  "root_enum_loop 0 i env hub st = Some st"
| "root_enum_loop (Suc k) i env hub st =
     do {
       st1 \<leftarrow> retry_removal env hub (of_nat i) st;
       (s, st2) \<leftarrow> UsbEnumeratePort env hub (of_nat i) st1;
       root_enum_loop k (i + 1) env hub st2 }"

definition UsbRootHubEnumeration :: "'h usb_env \<Rightarrow> ptr \<Rightarrow> 'h usb_bus \<Rightarrow> 'h usb_bus option" where
  "UsbRootHubEnumeration env hub st =
     do { h \<leftarrow> ub_if st hub; root_enum_loop (unat (ui_NumOfPort h)) 0 env hub st }"

end
