(* ===== verification/UsbIo.thy ===== *)
theory UsbIo
  imports UsbEnum
begin

text \<open>
  The USB I/O protocol of an interface and the driver binding of the bus (\<^verbatim>\<open>UsbBusDxe/UsbBus.c\<close>), and the callback
  of a hub's status change endpoint (\<^verbatim>\<open>UsbHub.c\<close>).

  Pointer arguments that may be NULL are options; the routines refuse the NULL ones.
\<close>

definition USB_ENDPOINT_CONTROL :: byte where "USB_ENDPOINT_CONTROL = 0"
definition EFI_USB_ERR_STALL :: nat where "EFI_USB_ERR_STALL = 1"
definition USB_CLEAR_FEATURE_REQUEST_TIMEOUT :: nat where "USB_CLEAR_FEATURE_REQUEST_TIMEOUT = 10"

section \<open>Transfers\<close>

text \<open>After a failed split transaction the buffer of the translator is cleared, in the hub with its address.\<close>

definition clear_tt :: "'h usb_env \<Rightarrow> ptr \<Rightarrow> byte \<Rightarrow> 'h usb_bus \<Rightarrow> 'h usb_bus option" where
  "clear_tt env dv eptype st =
     do {
       d \<leftarrow> ub_dev st dv;
       if fst (dv_Translator d) = 0 then Some st
       else do {
         p \<leftarrow> rd (ub_Devices st) (unat (fst (dv_Translator d)));
         hub \<leftarrow> p;
         map_option snd
           (UsbHubCtrlClearTTBuffer env hub (snd (dv_Translator d)) (ucast (dv_Address d)) 0 (ucast eptype) st) } }"

text \<open>What the bus driver keeps in step with the device after a successful control transfer.\<close>

definition sync_endpoint :: "ptr \<Rightarrow> usb_request \<Rightarrow> 'h usb_bus \<Rightarrow> 'h usb_bus option" where
  "sync_endpoint uif req st =
     (if rq_Request req = USB_REQ_CLEAR_FEATURE \<and>
         rq_RequestType req = USB_REQUEST_TYPE EfiUsbNoData USB_REQ_TYPE_STANDARD USB_TARGET_ENDPOINT \<and>
         rq_Value req = USB_FEATURE_ENDPOINT_HALT
      then do {
        r \<leftarrow> UsbGetEndpointDesc uif (ucast (rq_Index req)) st;
        (case r of None \<Rightarrow> Some st | Some e \<Rightarrow> set_toggle e 0 st) }
      else Some st)"

definition active_value :: "usb_device \<Rightarrow> 'h usb_bus \<Rightarrow> byte option option" where
  "active_value d st =
     (case dv_ActiveConfig d of
        None \<Rightarrow> Some None
      | Some c \<Rightarrow> do { (raw, ifs) \<leftarrow> config_at c st; Some (Some (ConfigurationValue raw)) })"

definition sync_config :: "'h usb_env \<Rightarrow> ptr \<Rightarrow> u16 \<Rightarrow> efi_status \<Rightarrow> 'h usb_bus \<Rightarrow> (efi_status \<times> 'h usb_bus) option" where
  "sync_config env dv val s st =
     do {
       d \<leftarrow> ub_dev st dv;
       act \<leftarrow> active_value d st;
       if map_option ucast act = Some val then Some (s, st)
       else do {
         st1 \<leftarrow> (if act \<noteq> None then map_option snd (UsbRemoveConfig env dv st) else Some st);
         if val \<noteq> 0 then UsbSelectConfig env dv (ucast val) st1 else Some (s, st1) } }"

definition sync_setting :: "ptr \<Rightarrow> usb_request \<Rightarrow> efi_status \<Rightarrow> 'h usb_bus \<Rightarrow> (efi_status \<times> 'h usb_bus) option" where
  "sync_setting uif req s st =
     (if rq_Request req = USB_REQ_SET_INTERFACE \<and>
         rq_RequestType req = USB_REQUEST_TYPE EfiUsbNoData USB_REQ_TYPE_STANDARD USB_TARGET_INTERFACE
      then do {
        u \<leftarrow> ub_if st uif;
        x \<leftarrow> ui_IfSetting u;
        raw \<leftarrow> setting_raw x st;
        if rq_Index req \<noteq> ucast (raw ! 2) then Some (s, st)
        else do {
          ifd \<leftarrow> ui_IfDesc u;
          (s1, st1) \<leftarrow> UsbSelectSetting ifd (ucast (rq_Value req)) st;
          if EFI_ERROR s1 then Some (s1, st1)
          else
            (case us_heap (ub_desc st1) ifd of
               Some (IfDesc ps n act) \<Rightarrow>
                 do { p \<leftarrow> rd ps act; st2 \<leftarrow> upd_if uif (\<lambda>u. u\<lparr>ui_IfSetting := p\<rparr>) st1; Some (s1, st2) }
             | _ \<Rightarrow> None) } }
      else Some (s, st))"

text \<open>The result is the status, the buffer, the status of the transfer if it was started, and the state.\<close>

definition UsbIoControlTransfer ::
  "'h usb_env \<Rightarrow> ptr \<Rightarrow> usb_request \<Rightarrow> usb_dir \<Rightarrow> nat \<Rightarrow> byte list \<Rightarrow> nat \<Rightarrow> bool \<Rightarrow> 'h usb_bus \<Rightarrow>
    ((efi_status \<times> byte list \<times> u32 option) \<times> 'h usb_bus) option"
where
  "UsbIoControlTransfer env uif req dir timeout buf len has_status st =
     (if \<not> has_status then Some ((EFI_INVALID_PARAMETER, buf, None), st)
      else do {
        u \<leftarrow> ub_if st uif;
        d \<leftarrow> ub_dev st (ui_Device u);
        ((s, buf1, n, res), st1) \<leftarrow>
          UsbHcControlTransfer env (dv_Address d) (dv_Speed d) (unat (dv_MaxPacket0 d)) req dir buf len timeout
            (dv_Translator d) st;
        if EFI_ERROR s \<or> res \<noteq> 0 then do {
          st2 \<leftarrow> clear_tt env (ui_Device u) USB_ENDPOINT_CONTROL st1;
          Some ((s, buf1, Some res), st2) }
        else do {
          st2 \<leftarrow> sync_endpoint uif req st1;
          (s1, st3) \<leftarrow>
            (if rq_Request req = USB_REQ_SET_CONFIG \<and>
                rq_RequestType req = USB_REQUEST_TYPE EfiUsbNoData USB_REQ_TYPE_STANDARD USB_TARGET_DEVICE
             then sync_config env (ui_Device u) (rq_Value req) s st2
             else sync_setting uif req s st2);
          Some ((s1, buf1, Some res), st3) } })"

definition UsbIoBulkTransfer ::
  "'h usb_env \<Rightarrow> ptr \<Rightarrow> byte \<Rightarrow> byte list \<Rightarrow> nat \<Rightarrow> nat \<Rightarrow> bool \<Rightarrow> 'h usb_bus \<Rightarrow>
    ((efi_status \<times> byte list \<times> nat \<times> u32 option) \<times> 'h usb_bus) option"
where
  "UsbIoBulkTransfer env uif ep buf len timeout has_status st =
     (if bad_ep ep \<or> \<not> has_status then Some ((EFI_INVALID_PARAMETER, buf, len, None), st)
      else do {
        u \<leftarrow> ub_if st uif;
        d \<leftarrow> ub_dev st (ui_Device u);
        r \<leftarrow> UsbGetEndpointDesc uif ep st;
        (case r of
           None \<Rightarrow> Some ((EFI_INVALID_PARAMETER, buf, len, None), st)
         | Some e \<Rightarrow>
             do {
               (raw, tog) \<leftarrow> get_ep e st;
               if ep_type raw \<noteq> USB_ENDPOINT_BULK then Some ((EFI_INVALID_PARAMETER, buf, len, None), st)
               else do {
                 maxp \<leftarrow> le16 raw 4;
                 ((s, buf1, n, tog1, res), st1) \<leftarrow>
                   UsbHcBulkTransfer env (dv_Address d) ep (dv_Speed d) (unat maxp) 1 buf len tog timeout (dv_Translator d) st;
                 st2 \<leftarrow> set_toggle e tog1 st1;
                 st3 \<leftarrow> (if EFI_ERROR s \<or> res \<noteq> 0 then clear_tt env (ui_Device u) USB_ENDPOINT_BULK st2 else Some st2);
                 Some ((s, buf1, n, Some res), st3) } }) })"

definition UsbIoSyncInterruptTransfer ::
  "'h usb_env \<Rightarrow> ptr \<Rightarrow> byte \<Rightarrow> byte list \<Rightarrow> nat \<Rightarrow> nat \<Rightarrow> bool \<Rightarrow> 'h usb_bus \<Rightarrow>
    ((efi_status \<times> byte list \<times> nat \<times> u32 option) \<times> 'h usb_bus) option"
where
  "UsbIoSyncInterruptTransfer env uif ep buf len timeout has_status st =
     (if bad_ep ep \<or> \<not> has_status then Some ((EFI_INVALID_PARAMETER, buf, len, None), st)
      else do {
        u \<leftarrow> ub_if st uif;
        d \<leftarrow> ub_dev st (ui_Device u);
        r \<leftarrow> UsbGetEndpointDesc uif ep st;
        (case r of
           None \<Rightarrow> Some ((EFI_INVALID_PARAMETER, buf, len, None), st)
         | Some e \<Rightarrow>
             do {
               (raw, tog) \<leftarrow> get_ep e st;
               if ep_type raw \<noteq> USB_ENDPOINT_INTERRUPT then Some ((EFI_INVALID_PARAMETER, buf, len, None), st)
               else do {
                 maxp \<leftarrow> le16 raw 4;
                 ((s, buf1, n, tog1, res), st1) \<leftarrow>
                   UsbHcSyncInterruptTransfer env (dv_Address d) ep (dv_Speed d) (unat maxp) buf len tog timeout
                     (dv_Translator d) st;
                 st2 \<leftarrow> set_toggle e tog1 st1;
                 Some ((s, buf1, n, Some res), st2) } }) })"

definition UsbIoIsochronousTransfer :: "'h usb_bus \<Rightarrow> efi_status \<times> 'h usb_bus" where
  "UsbIoIsochronousTransfer st = (EFI_UNSUPPORTED, st)"

definition UsbIoAsyncIsochronousTransfer :: "'h usb_bus \<Rightarrow> efi_status \<times> 'h usb_bus" where
  "UsbIoAsyncIsochronousTransfer st = (EFI_UNSUPPORTED, st)"

definition UsbIoClearFeature :: "'h usb_env \<Rightarrow> ptr \<Rightarrow> byte \<Rightarrow> u16 \<Rightarrow> u16 \<Rightarrow> 'h usb_bus \<Rightarrow> (efi_status \<times> 'h usb_bus) option" where
  "UsbIoClearFeature env uif target feature idx st =
     do {
       ((s, b, res), st1) \<leftarrow>
         UsbIoControlTransfer env uif
           \<lparr>rq_RequestType = USB_REQUEST_TYPE EfiUsbNoData USB_REQ_TYPE_STANDARD target, rq_Request = USB_REQ_CLEAR_FEATURE,
            rq_Value = feature, rq_Index = idx, rq_Length = 0\<rparr>
           EfiUsbNoData USB_CLEAR_FEATURE_REQUEST_TIMEOUT [] 0 True st;
       Some (s, st1) }"

section \<open>Descriptors and strings\<close>

definition UsbIoGetDeviceDescriptor :: "ptr \<Rightarrow> bool \<Rightarrow> 'h usb_bus \<Rightarrow> (efi_status + byte list) option" where
  "UsbIoGetDeviceDescriptor uif has_dest st =
     (if \<not> has_dest then Some (Inl EFI_INVALID_PARAMETER)
      else do { u \<leftarrow> ub_if st uif; raw \<leftarrow> device_raw u st; Some (Inr (take 18 raw)) })"

definition UsbIoGetActiveConfigDescriptor :: "ptr \<Rightarrow> bool \<Rightarrow> 'h usb_bus \<Rightarrow> (efi_status + byte list) option" where
  "UsbIoGetActiveConfigDescriptor uif has_dest st =
     (if \<not> has_dest then Some (Inl EFI_INVALID_PARAMETER)
      else do {
        u \<leftarrow> ub_if st uif;
        d \<leftarrow> ub_dev st (ui_Device u);
        (case dv_ActiveConfig d of
           None \<Rightarrow> Some (Inl EFI_NOT_FOUND)
         | Some c \<Rightarrow> do { (raw, ifs) \<leftarrow> config_at c st; Some (Inr (take 9 raw)) }) })"

definition UsbIoGetInterfaceDescriptor :: "ptr \<Rightarrow> bool \<Rightarrow> 'h usb_bus \<Rightarrow> (efi_status + byte list) option" where
  "UsbIoGetInterfaceDescriptor uif has_dest st =
     (if \<not> has_dest then Some (Inl EFI_INVALID_PARAMETER)
      else do { u \<leftarrow> ub_if st uif; x \<leftarrow> ui_IfSetting u; raw \<leftarrow> setting_raw x st; Some (Inr (take 9 raw)) })"

definition UsbIoGetEndpointDescriptor :: "ptr \<Rightarrow> byte \<Rightarrow> bool \<Rightarrow> 'h usb_bus \<Rightarrow> (efi_status + byte list) option" where
  "UsbIoGetEndpointDescriptor uif idx has_dest st =
     (if \<not> has_dest \<or> idx > 15 then Some (Inl EFI_INVALID_PARAMETER)
      else do {
        u \<leftarrow> ub_if st uif;
        x \<leftarrow> ui_IfSetting u;
        (case us_heap (ub_desc st) x of
           Some (Setting raw eps) \<Rightarrow>
             if NumEndpoints raw \<le> unat idx then Some (Inl EFI_NOT_FOUND)
             else do { a \<leftarrow> nth_ep eps (unat idx) st; (epraw, tog) \<leftarrow> get_ep a st; Some (Inr (take 7 epraw)) }
         | _ \<Rightarrow> None) })"

text \<open>The table of languages and its size in bytes.\<close>

definition UsbIoGetSupportedLanguages :: "ptr \<Rightarrow> 'h usb_bus \<Rightarrow> (u16 list \<times> u16) option" where
  "UsbIoGetSupportedLanguages uif st =
     do { u \<leftarrow> ub_if st uif; d \<leftarrow> ub_dev st (ui_Device u); Some (dv_LangId d, dv_TotalLangId d * 2) }"

text \<open>The string, without the head of its descriptor, in a new zeroed buffer of the length of the descriptor.\<close>

definition UsbIoGetStringDescriptor ::
  "'h usb_env \<Rightarrow> ptr \<Rightarrow> u16 \<Rightarrow> byte \<Rightarrow> 'h usb_bus \<Rightarrow> ((efi_status + ptr) \<times> 'h usb_bus) option"
where
  "UsbIoGetStringDescriptor env uif lang idx st =
     (if idx = 0 \<or> lang = 0 then Some (Inl EFI_NOT_FOUND, st)
      else do {
        u \<leftarrow> ub_if st uif;
        d \<leftarrow> ub_dev st (ui_Device u);
        if lang \<notin> set (take (unat (dv_TotalLangId d)) (dv_LangId d)) then Some (Inl EFI_NOT_FOUND, st)
        else do {
          (r, st1) \<leftarrow> UsbGetOneString env (ui_Device u) idx lang st;
          (case r of
             None \<Rightarrow> Some (Inl EFI_NOT_FOUND, st1)
           | Some b \<Rightarrow>
               do {
                 str \<leftarrow> get_bytes b st1;
                 l \<leftarrow> rd str 0;
                 if l \<le> 2 then do { st2 \<leftarrow> on_desc (FreePtr b) st1; Some (Inl EFI_NOT_FOUND, st2) }
                 else
                   (case new_desc env (Bytes (replicate (unat l) 0)) st1 of
                      (None, st2) \<Rightarrow> do { st3 \<leftarrow> on_desc (FreePtr b) st2; Some (Inl EFI_OUT_OF_RESOURCES, st3) }
                    | (Some a, st2) \<Rightarrow>
                        do {
                          s \<leftarrow> rd_range str 2 (unat l - 2);
                          st3 \<leftarrow> on_desc (FreePtr b) (st2\<lparr>ub_desc := upd a (Bytes (s @ [0, 0])) (ub_desc st2)\<rparr>);
                          Some (Inr a, st3) }) }) } })"

definition UsbIoPortReset :: "'h usb_env \<Rightarrow> ptr \<Rightarrow> 'h usb_bus \<Rightarrow> (efi_status \<times> 'h usb_bus) option" where
  "UsbIoPortReset env uif st =
     do {
       u \<leftarrow> ub_if st uif;
       d \<leftarrow> ub_dev st (ui_Device u);
       if ui_IsHub u then Some (EFI_INVALID_PARAMETER, st)
       else do {
         hub \<leftarrow> dv_ParentIf d;
         (s, st1) \<leftarrow> api_ResetPort env hub (dv_ParentPort d) st;
         if EFI_ERROR s then Some (s, st1)
         else do {
           st2 \<leftarrow> api_ClearPortChange env hub (dv_ParentPort d) st1;
           st3 \<leftarrow> upd_dev (ui_Device u) (\<lambda>d. d\<lparr>dv_Address := 0\<rparr>) st2;
           (s1, st4) \<leftarrow> UsbSetAddress env (ui_Device u) (dv_Address d) st3;
           st5 \<leftarrow> upd_dev (ui_Device u) (\<lambda>e. e\<lparr>dv_Address := dv_Address d\<rparr>) st4;
           if EFI_ERROR s1 then Some (s1, st5)
           else do {
             act \<leftarrow> active_value d st5;
             (case act of None \<Rightarrow> Some (s1, st5) | Some c \<Rightarrow> UsbSetConfig env (ui_Device u) c st5) } } } }"

section \<open>The status change endpoint of a hub\<close>

text \<open>\<open>data\<close> is NULL or as long as the transfer. An older change map that was not yet handled is lost.\<close>

definition UsbOnHubInterrupt ::
  "'h usb_env \<Rightarrow> ptr \<Rightarrow> byte list option \<Rightarrow> u32 \<Rightarrow> 'h usb_bus \<Rightarrow> (efi_status \<times> 'h usb_bus) option"
where
  "UsbOnHubInterrupt env hub data result st =
     do {
       h \<leftarrow> ub_if st hub;
       if result \<noteq> 0 then do {
         e \<leftarrow> ui_HubEp h;
         (raw, tog) \<leftarrow> get_ep e st;
         st1 \<leftarrow>
           (if bit result EFI_USB_ERR_STALL
            then map_option snd
              (UsbIoClearFeature env hub USB_TARGET_ENDPOINT USB_FEATURE_ENDPOINT_HALT (ucast (raw ! 2)) st)
            else Some st);
         (s, st2) \<leftarrow> UsbIoAsyncInterruptTransfer env hub (raw ! 2) False 0 0 NoCallback st1;
         if EFI_ERROR s then Some (s, st2)
         else
           UsbIoAsyncInterruptTransfer env hub (raw ! 2) True USB_HUB_POLL_INTERVAL (unat (ui_NumOfPort h) div 8 + 1)
             (UsbOnHubInterruptCb hub) st2 }
       else
         (case data of
            None \<Rightarrow> Some (EFI_SUCCESS, st)
          | Some bytes \<Rightarrow>
              if bytes = [] then Some (EFI_SUCCESS, st)
              else
                (case new_num env st of
                   (None, st1) \<Rightarrow>
                     do { st2 \<leftarrow> upd_if hub (\<lambda>u. u\<lparr>ui_ChangeMap := None\<rparr>) st1; Some (EFI_OUT_OF_RESOURCES, st2) }
                 | (Some _, st1) \<Rightarrow>
                     do {
                       st2 \<leftarrow> upd_if hub (\<lambda>u. u\<lparr>ui_ChangeMap := Some bytes\<rparr>) st1;
                       Some (EFI_SUCCESS,
                         (case ui_HubNotify h of
                            None \<Rightarrow> st2
                          | Some ev \<Rightarrow> snd (ext (\<lambda>x. ((), bs_SignalEvent env ev x)) st2))) })) }"

section \<open>The driver binding\<close>

definition UsbBusControllerDriverSupported ::
  "'h usb_env \<Rightarrow> nat \<Rightarrow> dev_path option \<Rightarrow> 'h usb_bus \<Rightarrow> efi_status \<times> 'h usb_bus"
where
  "UsbBusControllerDriverSupported env ctl rem st =
     (if (case rem of Some (n # p) \<Rightarrow> \<not> is_usb_node n | _ \<Rightarrow> False) then (EFI_UNSUPPORTED, st)
      else
        (let ((s, f), st1) = ext (bs_OpenProtocol env ctl Usb2HcProto ByDriver) st in
         if s = EFI_ALREADY_STARTED then (EFI_SUCCESS, st1)
         else
           (let ((s1, f1), st2) =
              (if EFI_ERROR s then ext (bs_OpenProtocol env ctl UsbHcProto ByDriver) st1 else ((s, f), st1)) in
            if s1 = EFI_ALREADY_STARTED then (EFI_SUCCESS, st2)
            else if EFI_ERROR s1 then (s1, st2)
            else
              (let (c, st3) = ext (bs_CloseProtocol env ctl (if EFI_ERROR s then UsbHcProto else Usb2HcProto) ByDriver) st2;
                   ((s2, f2), st4) = ext (bs_OpenProtocol env ctl DevicePathProto ByDriver) st3 in
               if s2 = EFI_ALREADY_STARTED then (EFI_SUCCESS, st4)
               else if \<not> EFI_ERROR s2 then (EFI_SUCCESS, snd (ext (bs_CloseProtocol env ctl DevicePathProto ByDriver) st4))
               else (s2, st4)))))"

text \<open>The end of the error paths: what was opened is closed, and the bus is freed.\<close>

definition close_hc :: "'h usb_env \<Rightarrow> nat \<Rightarrow> 'h usb_bus \<Rightarrow> 'h usb_bus" where
  "close_hc env ctl st =
     (let st1 = (if ub_Usb2Hc st then snd (ext (bs_CloseProtocol env ctl Usb2HcProto ByDriver) st) else st);
          st2 = (if ub_UsbHc st1 then snd (ext (bs_CloseProtocol env ctl UsbHcProto ByDriver) st1) else st1) in
      snd (ext (bs_CloseProtocol env ctl DevicePathProto ByDriver) st2))"

definition uninstall_bus :: "'h usb_env \<Rightarrow> nat \<Rightarrow> 'h usb_bus \<Rightarrow> 'h usb_bus" where
  "uninstall_bus env ctl st = close_hc env ctl (snd (ext (bs_UninstallBus env ctl) st))"

text \<open>Freeing the structures of the root hub; \<open>None\<close> when one is freed that is not allocated.\<close>

definition free_root :: "ptr option \<Rightarrow> ptr \<Rightarrow> 'h usb_bus \<Rightarrow> 'h usb_bus option" where
  "free_root rootif roothub st =
     do {
       st1 \<leftarrow>
         (case rootif of
            None \<Rightarrow> Some st
          | Some i \<Rightarrow> if ub_if st i = None then None else Some (drop_if i st));
       if ub_dev st1 roothub = None then None else Some (st1\<lparr>ub_dev := (ub_dev st1)(roothub := None)\<rparr>) }"

text \<open>The structure of the bus, zeroed, on a controller with the device path \<open>path\<close>.\<close>

definition new_bus :: "nat \<Rightarrow> dev_path \<Rightarrow> 'h usb_bus \<Rightarrow> 'h usb_bus" where
  "new_bus ctl path st =
     st\<lparr>ub_Usb2Hc := False, ub_UsbHc := False, ub_HostHandle := ctl, ub_DevicePath := path, ub_MaxDevices := USB_MAX_DEVICES,
       ub_Devices := replicate 256 None, ub_WantedUsbIoDPList := []\<rparr>"

text \<open>The fake device of the root hub, from its allocation on.\<close>

definition start_root :: "'h usb_env \<Rightarrow> nat \<Rightarrow> 'h usb_bus \<Rightarrow> (efi_status \<times> 'h usb_bus) option" where
  "start_root env ctl st =
     (case new_num env st of
        (None, st1) \<Rightarrow> Some (EFI_OUT_OF_RESOURCES, uninstall_bus env ctl st1)
      | (Some dv, st1) \<Rightarrow>
          (let st2 = st1\<lparr>ub_dev := (ub_dev st1)(dv \<mapsto> zero_device)\<rparr> in
           (case new_num env st2 of
              (None, st3) \<Rightarrow>
                do {
                  st4 \<leftarrow> free_root None dv st3;
                  st5 \<leftarrow> free_root None dv st4;
                  Some (EFI_OUT_OF_RESOURCES, uninstall_bus env ctl st5) }
            | (Some uif, st3) \<Rightarrow>
                do {
                  st4 \<leftarrow> upd_dev dv (\<lambda>d. d\<lparr>dv_NumOfInterface := 1, dv_Interfaces := (dv_Interfaces d)[0 := Some uif], dv_Tier := 0\<rparr>)
                           (st3\<lparr>ub_if := (ub_if st3)(uif \<mapsto> (zero_interface dv)\<lparr>ui_DevicePath := Some (ub_DevicePath st3)\<rparr>)\<rparr>);
                  (s, st5) \<leftarrow> UsbRootHubInit env uif st4;
                  if EFI_ERROR s then do { st6 \<leftarrow> free_root (Some uif) dv st5; Some (s, uninstall_bus env ctl st6) }
                  else do { st6 \<leftarrow> set_slot 0 (Some dv) st5; Some (EFI_SUCCESS, st6) } })))"

definition UsbBusBuildProtocol ::
  "'h usb_env \<Rightarrow> nat \<Rightarrow> dev_path \<Rightarrow> dev_path option \<Rightarrow> 'h usb_bus \<Rightarrow> (efi_status \<times> 'h usb_bus) option"
where
  "UsbBusBuildProtocol env ctl path rem st =
     (case new_num env st of
        (None, st1) \<Rightarrow> Some (EFI_OUT_OF_RESOURCES, st1)
      | (Some bus, st1) \<Rightarrow>
          (let ((s, f), st2) = ext (bs_OpenProtocol env ctl DevicePathProto ByDriver) (new_bus ctl path st1) in
           if EFI_ERROR s then Some (s, st2)
           else
             (let ((s1, f1), st3) = ext (bs_OpenProtocol env ctl Usb2HcProto ByDriver) st2;
                  ((s2, f2), st4) = ext (bs_OpenProtocol env ctl UsbHcProto ByDriver) st3;
                  st5 = st4\<lparr>ub_Usb2Hc := f1, ub_UsbHc := f2\<rparr> in
              if EFI_ERROR s1 \<and> EFI_ERROR s2 then Some (EFI_DEVICE_ERROR, close_hc env ctl st5)
              else
                (let st6 = (if \<not> EFI_ERROR s1 \<and> hc2_MajorRevision (ue_usb2hc env) = 3 then st5\<lparr>ub_MaxDevices := 256\<rparr> else st5);
                     (s3, st7) = ext (bs_InstallBus env ctl) st6 in
                 if EFI_ERROR s3 then Some (s3, close_hc env ctl st7)
                 else do { (s4, st8) \<leftarrow> UsbBusAddWantedUsbIoDP env rem st7; start_root env ctl st8 }))))"

definition UsbBusControllerDriverStart ::
  "'h usb_env \<Rightarrow> nat \<Rightarrow> dev_path \<Rightarrow> dev_path option \<Rightarrow> 'h usb_bus \<Rightarrow> (efi_status \<times> 'h usb_bus) option"
where
  "UsbBusControllerDriverStart env ctl path rem st =
     (let ((s0, f0), st0) = ext (bs_OpenProtocol env ctl DevicePathProto GetProtocol) st;
          ((s, f), st1) = ext (bs_OpenProtocol env ctl UsbBusProto GetProtocol) st0 in
      if EFI_ERROR s then do {
        (s1, st2) \<leftarrow> UsbBusBuildProtocol env ctl path rem st1;
        if EFI_ERROR s1 then Some (s1, st2)
        else Some (EFI_SUCCESS, snd (ext (bs_OpenProtocol env ctl UsbBusProto GetProtocol) st2)) }
      else if rem = Some [] then Some (EFI_SUCCESS, st1)
      else do {
        (s1, st2) \<leftarrow> UsbBusAddWantedUsbIoDP env rem st1;
        (s2, st3) \<leftarrow> UsbBusRecursivelyConnectWantedUsbIo env st2;
        Some (EFI_SUCCESS, st3) })"

text \<open>The children that are named, and all the devices of the bus. Both give the status of the last removal.\<close>

fun stop_handles :: "nat list \<Rightarrow> 'h usb_env \<Rightarrow> efi_status \<Rightarrow> 'h usb_bus \<Rightarrow> (efi_status \<times> 'h usb_bus) option" where
  "stop_handles [] env ret st = Some (ret, st)"
| "stop_handles (h # hs) env ret st =
     (case ext (bs_HandleUsbIo env h) st of
        ((s, uif), st1) \<Rightarrow>
          if EFI_ERROR s then stop_handles hs env ret st1
          else do {
            u \<leftarrow> ub_if st1 uif;
            (s1, st2) \<leftarrow> UsbRemoveDevice (Suc (ub_MaxDevices st1)) env (ui_Device u) st1;
            stop_handles hs env s1 st2 })"

fun stop_devices ::
  "nat \<Rightarrow> nat \<Rightarrow> 'h usb_env \<Rightarrow> efi_status \<Rightarrow> efi_status \<Rightarrow> 'h usb_bus \<Rightarrow> ((efi_status \<times> efi_status) \<times> 'h usb_bus) option"
where
  "stop_devices 0 i env status ret st = Some ((status, ret), st)"
| "stop_devices (Suc k) i env status ret st =
     do {
       p \<leftarrow> rd (ub_Devices st) i;
       (case p of
          None \<Rightarrow> stop_devices k (i + 1) env status ret st
        | Some dv \<Rightarrow>
            do {
              (s, st1) \<leftarrow> UsbRemoveDevice (Suc (ub_MaxDevices st)) env dv st;
              stop_devices k (i + 1) env s (if EFI_ERROR s then s else ret) st1 }) }"

text \<open>The flag says whether the bus is still there.\<close>

definition close_bus :: "'h usb_env \<Rightarrow> nat \<Rightarrow> 'h usb_bus \<Rightarrow> (efi_status \<times> bool) \<times> 'h usb_bus" where
  "close_bus env ctl st =
     (let (u, st1) = ext (bs_UninstallBus env ctl) st;
          (s1, st2) = (if ub_Usb2Hc st1 then ext (bs_CloseProtocol env ctl Usb2HcProto ByDriver) st1 else (EFI_SUCCESS, st1));
          (s2, st3) = (if ub_UsbHc st2 then ext (bs_CloseProtocol env ctl UsbHcProto ByDriver) st2 else (s1, st2)) in
      if EFI_ERROR s2 then ((s2, True), st3)
      else ((s2, False), snd (ext (bs_CloseProtocol env ctl DevicePathProto ByDriver) st3)))"

definition UsbBusControllerDriverStop ::
  "'h usb_env \<Rightarrow> nat \<Rightarrow> nat list \<Rightarrow> 'h usb_bus \<Rightarrow> ((efi_status \<times> bool) \<times> 'h usb_bus) option"
where
  "UsbBusControllerDriverStop env ctl children st =
     (if children \<noteq> [] then do { (s, st1) \<leftarrow> stop_handles children env EFI_SUCCESS st; Some ((s, True), st1) }
      else
        (let ((s, f), st1) = ext (bs_OpenProtocol env ctl UsbBusProto GetProtocol) st in
         if EFI_ERROR s then Some ((s, True), st1)
         else do {
           p \<leftarrow> rd (ub_Devices st1) 0;
           roothub \<leftarrow> p;
           d \<leftarrow> ub_dev st1 roothub;
           q \<leftarrow> rd (dv_Interfaces d) 0;
           rootif \<leftarrow> q;
           ((status, ret), st2) \<leftarrow> stop_devices (ub_MaxDevices st1 - 1) 1 env s EFI_SUCCESS st1;
           if EFI_ERROR ret then Some ((status, True), st2)
           else do {
             (s1, st3) \<leftarrow> UsbRootHubRelease env rootif st2;
             st4 \<leftarrow> free_root (Some rootif) roothub st3;
             Some (close_bus env ctl (snd (UsbBusFreeUsbDPList st4))) } }))"

end
