(* ===== verification/UsbFrame.thy ===== *)
theory UsbFrame
  imports UsbIo
begin

text \<open>
  What the operations below enumeration leave alone.

  The locale \<open>bus_frame\<close> is the interface: a preorder on states of the bus that does not see the outside, the
  descriptors, the interfaces, the list of wanted paths, nor the fields of a device other than its address and its
  place in the tree. Each routine is shown once, for every such preorder, to relate the state before to the state
  after. \<open>keeps R st m\<close> says this of a routine with a result, \<open>keeps_st R st m\<close> of one without.
\<close>

definition keeps :: "('s \<Rightarrow> 's \<Rightarrow> bool) \<Rightarrow> 's \<Rightarrow> ('a \<times> 's) option \<Rightarrow> bool" where
  "keeps R st m \<longleftrightarrow> (\<forall>r st'. m = Some (r, st') \<longrightarrow> R st st')"

definition keeps_st :: "('s \<Rightarrow> 's \<Rightarrow> bool) \<Rightarrow> 's \<Rightarrow> 's option \<Rightarrow> bool" where
  "keeps_st R st m \<longleftrightarrow> (\<forall>st'. m = Some st' \<longrightarrow> R st st')"

named_theorems frame_rules \<open>what each routine leaves alone\<close>

lemma keeps_None: "keeps R st None" "keeps_st R st None"
  by (simp_all add: keeps_def keeps_st_def)

lemma keeps_pure:
  "(\<And>x. m = Some x \<Longrightarrow> keeps R st (k x)) \<Longrightarrow> keeps R st (Option.bind m k)"
  "(\<And>x. m = Some x \<Longrightarrow> keeps_st R st (l x)) \<Longrightarrow> keeps_st R st (Option.bind m l)"
  by (cases m; simp add: keeps_None)+

lemma keeps_if:
  "(c \<Longrightarrow> keeps R st a) \<Longrightarrow> (\<not> c \<Longrightarrow> keeps R st b) \<Longrightarrow> keeps R st (if c then a else b)"
  "(c \<Longrightarrow> keeps_st R st d) \<Longrightarrow> (\<not> c \<Longrightarrow> keeps_st R st e) \<Longrightarrow> keeps_st R st (if c then d else e)"
  by simp_all

lemma keeps_option:
  "(x = None \<Longrightarrow> keeps R st a) \<Longrightarrow> (\<And>y. x = Some y \<Longrightarrow> keeps R st (f y)) \<Longrightarrow> keeps R st (case x of None \<Rightarrow> a | Some y \<Rightarrow> f y)"
  "(x = None \<Longrightarrow> keeps_st R st b) \<Longrightarrow> (\<And>y. x = Some y \<Longrightarrow> keeps_st R st (g y)) \<Longrightarrow>
    keeps_st R st (case x of None \<Rightarrow> b | Some y \<Rightarrow> g y)"
  by (cases x; simp)+

lemma keeps_prod:
  "(\<And>a b. p = (a, b) \<Longrightarrow> keeps R st (f a b)) \<Longrightarrow> keeps R st (case p of (a, b) \<Rightarrow> f a b)"
  "(\<And>a b. keeps_st R st (g a b)) \<Longrightarrow> keeps_st R st (case p of (a, b) \<Rightarrow> g a b)"
  "(\<And>a b. keeps R st (h a b s)) \<Longrightarrow> keeps R st ((case p of (a, b) \<Rightarrow> h a b) s)"
  "(\<And>a b. keeps_st R st (l a b s)) \<Longrightarrow> keeps_st R st ((case p of (a, b) \<Rightarrow> l a b) s)"
  by (cases p; simp)+

lemma keeps_uobj:
  "(\<And>a b. keeps R st (f1 a b)) \<Longrightarrow> (\<And>a. keeps R st (f2 a)) \<Longrightarrow> (\<And>a b. keeps R st (f3 a b)) \<Longrightarrow>
   (\<And>a b c. keeps R st (f4 a b c)) \<Longrightarrow> (\<And>a b. keeps R st (f5 a b)) \<Longrightarrow> (\<And>a b. keeps R st (f6 a b)) \<Longrightarrow>
   (\<And>a. keeps R st (f7 a)) \<Longrightarrow> keeps R st (case_uobj f1 f2 f3 f4 f5 f6 f7 x)"
  by (cases x) simp_all

lemma keeps_uobj':
  "(\<And>a b. keeps_st R st (f1 a b)) \<Longrightarrow> (\<And>a. keeps_st R st (f2 a)) \<Longrightarrow> (\<And>a b. keeps_st R st (f3 a b)) \<Longrightarrow>
   (\<And>a b c. keeps_st R st (f4 a b c)) \<Longrightarrow> (\<And>a b. keeps_st R st (f5 a b)) \<Longrightarrow> (\<And>a b. keeps_st R st (f6 a b)) \<Longrightarrow>
   (\<And>a. keeps_st R st (f7 a)) \<Longrightarrow> keeps_st R st (case_uobj f1 f2 f3 f4 f5 f6 f7 x)"
  by (cases x) simp_all

lemma keeps_api:
  "keeps R st a \<Longrightarrow> keeps R st b \<Longrightarrow> keeps R st (case x of mUsbHubApi \<Rightarrow> a | mUsbRootHubApi \<Rightarrow> b)"
  "keeps_st R st c \<Longrightarrow> keeps_st R st d \<Longrightarrow> keeps_st R st (case x of mUsbHubApi \<Rightarrow> c | mUsbRootHubApi \<Rightarrow> d)"
  by (cases x; simp)+

lemma keeps_sum:
  "(\<And>y. keeps R st (f y)) \<Longrightarrow> (\<And>z. keeps R st (g z)) \<Longrightarrow> keeps R st (case_sum f g x)"
  by (cases x) simp_all

lemma keeps_case_list:
  "keeps R st a \<Longrightarrow> (\<And>y ys. keeps R st (f y ys)) \<Longrightarrow> keeps R st (case_list a f x)"
  by (cases x) simp_all

lemma keeps_snd:
  assumes "keeps R st m"
  shows "keeps_st R st (map_option snd m)"
  unfolding keeps_st_def
proof (intro allI impI)
  fix st'
  assume "map_option snd m = Some st'"
  then obtain r where "m = Some (r, st')"
    by auto
  with assms show "R st st'"
    by (simp add: keeps_def)
qed

lemma keeps_map: "keeps_st R st m \<Longrightarrow> keeps R st (map_option (\<lambda>s. (r, s)) m)"
  by (auto simp: keeps_def keeps_st_def)

locale frame_preorder =
  fixes R :: "'s \<Rightarrow> 's \<Rightarrow> bool"
  assumes R_refl: "R st st"
    and R_trans: "R st1 st2 \<Longrightarrow> R st2 st3 \<Longrightarrow> R st1 st3"
begin

lemma keeps_ret: "R st st' \<Longrightarrow> keeps R st (Some (r, st'))" "R st st' \<Longrightarrow> keeps_st R st (Some st')"
  by (simp_all add: keeps_def keeps_st_def)

lemma keeps_bind:
  assumes "keeps R st m" "\<And>r s1. keeps R s1 (k r s1)"
  shows "keeps R st (Option.bind m (\<lambda>(r, s1). k r s1))"
proof (cases m)
  case (Some p)
  moreover obtain r s1 where "p = (r, s1)"
    by (cases p)
  ultimately show ?thesis
    using assms unfolding keeps_def by (auto intro: R_trans)
qed (simp add: keeps_None)

lemma keeps_bind':
  assumes "keeps R st m" "\<And>r s1. keeps_st R s1 (k r s1)"
  shows "keeps_st R st (Option.bind m (\<lambda>(r, s1). k r s1))"
proof (cases m)
  case (Some p)
  moreover obtain r s1 where "p = (r, s1)"
    by (cases p)
  ultimately show ?thesis
    using assms unfolding keeps_def keeps_st_def by (auto intro: R_trans)
qed (simp add: keeps_None)

lemma keeps_bind_st: "keeps_st R st m \<Longrightarrow> (\<And>s1. keeps R s1 (k s1)) \<Longrightarrow> keeps R st (Option.bind m k)"
  by (cases m) (auto simp: keeps_def keeps_st_def intro: R_trans)

lemma keeps_bind_st': "keeps_st R st m \<Longrightarrow> (\<And>s1. keeps_st R s1 (k s1)) \<Longrightarrow> keeps_st R st (Option.bind m k)"
  by (cases m) (auto simp: keeps_st_def intro: R_trans)

lemma keeps_pair:
  assumes "R st (snd p)" "\<And>a s1. keeps R s1 (f a s1)"
  shows "keeps R st (case p of (a, s1) \<Rightarrow> f a s1)"
  using assms unfolding keeps_def by (cases p) (auto intro: R_trans)

lemma keeps_pair':
  assumes "R st (snd p)" "\<And>a s1. keeps_st R s1 (f a s1)"
  shows "keeps_st R st (case p of (a, s1) \<Rightarrow> f a s1)"
  using assms unfolding keeps_st_def by (cases p) (auto intro: R_trans)

lemma keeps_bind3:
  assumes "\<And>r n s1. m = Some (r, n, s1) \<Longrightarrow> R st s1" "\<And>r n s1. keeps R s1 (k r n s1)"
  shows "keeps R st (Option.bind m (\<lambda>(r, n, s1). k r n s1))"
proof (cases m)
  case (Some p)
  moreover obtain r n s1 where "p = (r, n, s1)"
    by (cases p)
  ultimately show ?thesis
    using assms unfolding keeps_def by (auto intro: R_trans)
qed (simp add: keeps_None)

lemma after: "keeps R s m \<Longrightarrow> R st s \<Longrightarrow> keeps R st m"
  unfolding keeps_def by (blast intro: R_trans)

lemma after_st: "keeps_st R s m \<Longrightarrow> R st s \<Longrightarrow> keeps_st R st m"
  unfolding keeps_st_def by (blast intro: R_trans)

lemma R_option: "R st a \<Longrightarrow> (\<And>y. R st (f y)) \<Longrightarrow> R st (case x of None \<Rightarrow> a | Some y \<Rightarrow> f y)"
  by (cases x) simp_all

lemma keeps_same: "keeps R st (map_option (\<lambda>b. (b, st)) m)"
  by (auto simp: keeps_def R_refl)

lemmas steps = keeps_ret R_refl keeps_None keeps_bind keeps_bind'
  keeps_bind_st keeps_bind_st' keeps_pair keeps_pair' keeps_snd keeps_map keeps_pure keeps_if keeps_option keeps_prod
  keeps_uobj keeps_uobj' keeps_api keeps_sum keeps_case_list

end

text \<open>The counter of the allocations never goes back.\<close>

interpretation heap_next: frame_preorder "\<lambda>u u'. us_next u \<le> us_next u'"
  by unfold_locales auto

named_theorems next_rules \<open>what never sets the counter back\<close>

lemma AllocPool_next [next_rules]: "us_next u \<le> us_next v \<Longrightarrow> us_next u \<le> us_next (snd (AllocPool pool x v))"
  by (simp add: AllocPool_def upd_def)

lemma upd_next [next_rules]: "us_next u \<le> us_next v \<Longrightarrow> us_next u \<le> us_next (upd a x v)"
  by (simp add: upd_def)

lemma FreePtr_next [THEN heap_next.after_st, next_rules]: "keeps_st (\<lambda>u u'. us_next u \<le> us_next u') u (FreePtr a u)"
  by (auto simp: FreePtr_def keeps_st_def)

lemma set_ptr_next [THEN heap_next.after_st, next_rules]:
  "keeps_st (\<lambda>u u'. us_next u \<le> us_next u') u (set_ptr a i p u)"
  by (auto simp: set_ptr_def keeps_st_def upd_def split: option.splits uobj.splits)

lemma free_ptrs_next:
  assumes "\<And>a u. keeps_st (\<lambda>u u'. us_next u \<le> us_next u') u (fr a u)"
  shows "keeps_st (\<lambda>u u'. us_next u \<le> us_next u') u (free_ptrs fr k i arr u)"
proof (induction k arbitrary: i u)
  case (Suc k)
  show ?case
    unfolding free_ptrs.simps by (rule Suc.IH [THEN heap_next.after_st] assms [THEN heap_next.after_st] heap_next.steps)+
qed (simp add: heap_next.keeps_ret)

lemma UsbFreeInterfaceDesc_next [THEN heap_next.after_st, next_rules]:
  "keeps_st (\<lambda>u u'. us_next u \<le> us_next u') u (UsbFreeInterfaceDesc a u)"
  unfolding UsbFreeInterfaceDesc_def Let_def by (rule free_ptrs_next next_rules heap_next.steps)+

lemma free_settings_next [THEN heap_next.after_st, next_rules]:
  "keeps_st (\<lambda>u u'. us_next u \<le> us_next u') u (free_settings k i a u)"
proof (induction k arbitrary: i u)
  case (Suc k)
  show ?case
    unfolding free_settings.simps by (rule Suc.IH [THEN heap_next.after_st] next_rules heap_next.steps)+
qed (simp add: heap_next.keeps_ret keeps_None)

lemma free_interface_next [THEN heap_next.after_st, next_rules]:
  "keeps_st (\<lambda>u u'. us_next u \<le> us_next u') u (free_interface a u)"
  unfolding free_interface_def Let_def by (rule next_rules heap_next.steps)+

lemma UsbFreeConfigDesc_next [THEN heap_next.after_st, next_rules]:
  "keeps_st (\<lambda>u u'. us_next u \<le> us_next u') u (UsbFreeConfigDesc a u)"
  unfolding UsbFreeConfigDesc_def Let_def by (rule free_ptrs_next next_rules heap_next.steps)+

lemma UsbFreeDevDesc_next [THEN heap_next.after_st, next_rules]:
  "keeps_st (\<lambda>u u'. us_next u \<le> us_next u') u (UsbFreeDevDesc a u)"
  unfolding UsbFreeDevDesc_def Let_def by (rule free_ptrs_next next_rules heap_next.steps)+

lemma UsbCreateDesc_next [THEN heap_next.after, next_rules]:
  "keeps (\<lambda>u u'. us_next u \<le> us_next u') u (UsbCreateDesc pool buf base len ty u)"
  unfolding UsbCreateDesc_def Let_def by (rule next_rules heap_next.steps)+

lemma parse_eps_next: "parse_eps k pool buf base len i off arr u = Some (b, n, u') \<Longrightarrow> us_next u \<le> us_next u'"
proof (induction k arbitrary: i off u)
  case (Suc k)
  have step: "us_next u \<le> us_next u1" if "UsbCreateDesc pool buf p l ty u = Some (r, u1)" for p l ty r u1
    using UsbCreateDesc_next [of u u] that by (auto simp: keeps_def)
  have put: "us_next u1 \<le> us_next u2" if "set_ptr arr i p u1 = Some u2" for p u1 u2
    using set_ptr_next [of u1 u1] that by (auto simp: keeps_st_def)
  from Suc.prems show ?case
    by (auto split: if_splits option.splits bind_splits prod.splits dest!: step put Suc.IH)
qed simp

lemma parse_eps_bind:
  assumes "us_next u \<le> us_next v" "\<And>b n s1. keeps (\<lambda>u u'. us_next u \<le> us_next u') s1 (f b n s1)"
  shows "keeps (\<lambda>u u'. us_next u \<le> us_next u') u
    (Option.bind (parse_eps k pool buf base len i off arr v) (\<lambda>(b, n, s1). f b n s1))"
  using assms by (intro heap_next.keeps_bind3) (auto dest: parse_eps_next)

lemma UsbParseInterfaceDesc_next [THEN heap_next.after, next_rules]:
  "keeps (\<lambda>u u'. us_next u \<le> us_next u') u (UsbParseInterfaceDesc pool buf base len u)"
  unfolding UsbParseInterfaceDesc_def Let_def by (rule parse_eps_bind next_rules heap_next.steps)+

lemma make_ifs_next [THEN heap_next.after, next_rules]:
  "keeps (\<lambda>u u'. us_next u \<le> us_next u') u (make_ifs k pool i arr u)"
proof (induction k arbitrary: i u)
  case (Suc k)
  show ?case
    unfolding make_ifs.simps by (rule Suc.IH [THEN heap_next.after] next_rules heap_next.steps)+
qed (simp add: heap_next.keeps_ret keeps_None)

lemma add_setting_next [THEN heap_next.after, next_rules]:
  "keeps (\<lambda>u u'. us_next u \<le> us_next u') u (add_setting arr x numif u)"
  unfolding add_setting_def Let_def by (rule next_rules heap_next.steps)+

lemma parse_settings_next [THEN heap_next.after, next_rules]:
  "keeps (\<lambda>u u'. us_next u \<le> us_next u') u (parse_settings k pool buf base len arr numif u)"
proof (induction k arbitrary: base len u)
  case (Suc k)
  show ?case
    unfolding parse_settings.simps by (rule Suc.IH [THEN heap_next.after] next_rules heap_next.steps)+
qed (simp add: heap_next.keeps_ret keeps_None)

lemma UsbParseConfigDesc_next [THEN heap_next.after, next_rules]:
  "keeps (\<lambda>u u'. us_next u \<le> us_next u') u (UsbParseConfigDesc pool buf len u)"
  unfolding UsbParseConfigDesc_def Let_def by (rule next_rules heap_next.steps)+

locale bus_frame = frame_preorder R
  for R :: "'h usb_bus \<Rightarrow> 'h usb_bus \<Rightarrow> bool" +
  assumes R_ext: "R st (st\<lparr>ub_ext := h\<rparr>)"
    and R_desc: "us_next (ub_desc st) \<le> us_next u \<Longrightarrow> R st (st\<lparr>ub_desc := u\<rparr>)"
    and R_if: "R st (st\<lparr>ub_if := i\<rparr>)"
    and R_wanted: "R st (st\<lparr>ub_WantedUsbIoDPList := w\<rparr>)"
    and R_dev: "ub_dev st a = Some d \<Longrightarrow> dv_Address d' = dv_Address d \<Longrightarrow> dv_ParentAddr d' = dv_ParentAddr d \<Longrightarrow>
      dv_ParentPort d' = dv_ParentPort d \<Longrightarrow> R st (st\<lparr>ub_dev := (ub_dev st)(a \<mapsto> d')\<rparr>)"
begin

lemma R_upd:
  "R st s \<Longrightarrow> R st (s\<lparr>ub_ext := h\<rparr>)" "R st s \<Longrightarrow> us_next (ub_desc s) \<le> us_next u \<Longrightarrow> R st (s\<lparr>ub_desc := u\<rparr>)" "R st s \<Longrightarrow> R st (s\<lparr>ub_if := i\<rparr>)"
  "R st s \<Longrightarrow> R st (s\<lparr>ub_WantedUsbIoDPList := w\<rparr>)" "R st s \<Longrightarrow> R st (drop_if v s)"
  "R st s \<Longrightarrow> R st (snd (ext f s))" "R st s \<Longrightarrow> R st (snd (new_num env s))" "R st s \<Longrightarrow> R st (snd (new_desc env x s))"
  by (auto elim!: R_trans
      simp: R_ext R_desc R_if R_wanted drop_if_def ext_def new_num_def new_desc_def AllocPool_def upd_def Let_def
      split: prod.split)

lemma on_desc_frame:
  "keeps_st (\<lambda>u u'. us_next u \<le> us_next u') (ub_desc st) (f (ub_desc st)) \<Longrightarrow> keeps_st R st (on_desc f st)"
  by (auto simp: on_desc_def keeps_st_def R_desc)

lemma upd_if_frame: "keeps_st R st (upd_if a f st)"
  by (auto simp: upd_if_def keeps_st_def R_if)

lemma upd_dev_frame:
  "(\<And>d. dv_Address (f d) = dv_Address d) \<Longrightarrow> (\<And>d. dv_ParentAddr (f d) = dv_ParentAddr d) \<Longrightarrow>
    (\<And>d. dv_ParentPort (f d) = dv_ParentPort d) \<Longrightarrow> keeps_st R st (upd_dev a f st)"
  by (auto simp: upd_dev_def keeps_st_def intro: R_dev)

lemma on_hc_frame: "keeps R st (on_hc env f2 f1 st)"
  by (auto simp: on_hc_def keeps_def ext_def R_ext split: prod.splits)

lemmas frame_steps = on_desc_frame [THEN after_st] upd_if_frame [THEN after_st] on_hc_frame [THEN after] R_upd steps
  next_rules heap_next.R_refl

text \<open>Requests and descriptors.\<close>

lemma hc_transfers_frame [THEN after, frame_rules]:
  "keeps R st (UsbHcAsyncInterruptTransfer env addr ep speed maxp isnew toggle poll len tra cb st)"
  "keeps R st (UsbHcSyncInterruptTransfer env addr ep speed maxp buf len toggle timeout tra st)"
  "keeps R st (UsbHcBulkTransfer env addr ep speed maxp bufnum buf len toggle timeout tra st)"
  unfolding UsbHcAsyncInterruptTransfer_def UsbHcSyncInterruptTransfer_def UsbHcBulkTransfer_def
  by (rule frame_steps)+

lemma UsbHcControlTransfer_frame [frame_rules]:
  "keeps R st (UsbHcControlTransfer env addr speed maxp req dir buf len timeout tra st)"
  unfolding UsbHcControlTransfer_def by (rule frame_steps)+

lemma UsbCtrlRequest_frame [THEN after, frame_rules]: "keeps R st (UsbCtrlRequest env dv dir ty target req val idx buf len st)"
  unfolding UsbCtrlRequest_def by (rule frame_rules frame_steps)+

lemma no_data_frame [THEN after, frame_rules]: "keeps R st (no_data env dv ty target req val idx st)"
  unfolding no_data_def by (rule frame_rules frame_steps)+

lemma UsbCtrlGetDesc_frame [THEN after, frame_rules]: "keeps R st (UsbCtrlGetDesc env dv ty idx lang buf len st)"
  unfolding UsbCtrlGetDesc_def by (rule frame_rules frame_steps)+

lemma max_packet_loop_frame [THEN after, frame_rules]: "keeps R st (max_packet_loop k env dv buf st)"
proof (induction k arbitrary: buf st)
  case (Suc k)
  show ?case
    unfolding max_packet_loop.simps by (rule Suc.IH [THEN after] frame_rules frame_steps upd_dev_frame [THEN after_st] | simp)+
qed (simp add: keeps_ret R_refl)

lemma UsbGetMaxPacketSize0_frame [THEN after, frame_rules]: "keeps R st (UsbGetMaxPacketSize0 env dv st)"
  unfolding UsbGetMaxPacketSize0_def by (rule frame_rules frame_steps)+

lemma fetch_desc_frame [THEN after, frame_rules]: "keeps R st (fetch_desc env dv ty idx lang len st)"
  unfolding fetch_desc_def by (rule frame_rules frame_steps)+

lemma UsbGetDevDesc_frame [THEN after, frame_rules]: "keeps R st (UsbGetDevDesc env dv st)"
  unfolding UsbGetDevDesc_def by (rule frame_rules frame_steps upd_dev_frame [THEN after_st] | simp)+

lemma UsbGetOneString_frame [THEN after, frame_rules]: "keeps R st (UsbGetOneString env dv idx lang st)"
  unfolding UsbGetOneString_def by (rule frame_rules frame_steps)+

lemma UsbBuildLangTable_frame [THEN after, frame_rules]: "keeps R st (UsbBuildLangTable env dv st)"
  unfolding UsbBuildLangTable_def Let_def by (rule frame_rules frame_steps upd_dev_frame [THEN after_st] | simp)+

lemma UsbGetOneConfig_frame [THEN after, frame_rules]: "keeps R st (UsbGetOneConfig env dv idx st)"
  unfolding UsbGetOneConfig_def by (rule frame_rules frame_steps)+

lemma parse_config_mono: "UsbParseConfigDesc pool buf len u = Some x \<Longrightarrow> x = (c, v) \<Longrightarrow> us_next u \<le> us_next v"
  using UsbParseConfigDesc_next [of u u] by (simp add: keeps_def)

lemma config_loop_frame [THEN after, frame_rules]: "keeps R st (config_loop k i env dv arr st)"
proof (induction k arbitrary: i st)
  case (Suc k)
  show ?case
    unfolding config_loop.simps by (rule Suc.IH [THEN after] frame_rules frame_steps | erule (1) parse_config_mono)+
qed (simp add: keeps_ret R_refl)

lemma UsbBuildDescTable_frame [THEN after, frame_rules]: "keeps R st (UsbBuildDescTable env dv st)"
  unfolding UsbBuildDescTable_def Let_def by (rule frame_rules frame_steps)+

text \<open>Hubs.\<close>

lemma hub_requests_frame [THEN after, frame_rules]:
  "keeps R st (UsbHubCtrlSetHubDepth env dv d st)" "keeps R st (UsbHubCtrlClearHubFeature env dv f st)"
  "keeps R st (UsbHubCtrlClearPortFeature env dv p f st)" "keeps R st (UsbHubCtrlClearTTBuffer env dv p a e t st)"
  "keeps R st (UsbHubCtrlGetSuperSpeedHubDesc env dv buf st)" "keeps R st (UsbHubCtrlGetHubDesc env dv buf len st)"
  "keeps R st (UsbHubCtrlGetHubStatus env dv buf st)" "keeps R st (UsbHubCtrlGetPortStatus env dv p buf st)"
  "keeps R st (UsbHubCtrlResetTT env dv p st)" "keeps R st (UsbHubCtrlSetHubFeature env dv g st)"
  "keeps R st (UsbHubCtrlSetPortFeature env dv p g st)" "keeps R st (UsbSetAddress env dv x st)"
  "keeps R st (UsbSetConfig env dv x st)"
  unfolding UsbHubCtrlSetHubDepth_def UsbHubCtrlClearHubFeature_def UsbHubCtrlClearPortFeature_def
    UsbHubCtrlClearTTBuffer_def UsbHubCtrlGetSuperSpeedHubDesc_def UsbHubCtrlGetHubDesc_def UsbHubCtrlGetHubStatus_def
    UsbHubCtrlGetPortStatus_def UsbHubCtrlResetTT_def UsbHubCtrlSetHubFeature_def UsbHubCtrlSetPortFeature_def
    UsbSetAddress_def UsbSetConfig_def
  by (rule frame_rules frame_steps)+

lemma UsbHubReadDesc_frame [THEN after, frame_rules]: "keeps R st (UsbHubReadDesc env dv buf st)"
  unfolding UsbHubReadDesc_def Let_def by (rule frame_rules frame_steps)+

lemma UsbHubAckHubStatus_frame [THEN after, frame_rules]: "keeps R st (UsbHubAckHubStatus env dv st)"
  unfolding UsbHubAckHubStatus_def Let_def by (rule frame_rules frame_steps)+

lemma set_toggle_frame [THEN after_st, frame_rules]: "keeps_st R st (set_toggle a t st)"
  unfolding set_toggle_def Let_def by (rule frame_rules frame_steps)+

lemma UsbIoAsyncInterruptTransfer_frame [THEN after, frame_rules]: "keeps R st (UsbIoAsyncInterruptTransfer env uif ep isnew poll len cb st)"
  unfolding UsbIoAsyncInterruptTransfer_def Let_def by (rule frame_rules frame_steps)+

lemma UsbHubGetPortStatus_frame [THEN after, frame_rules]: "keeps R st (UsbHubGetPortStatus env uif port buf st)"
  unfolding UsbHubGetPortStatus_def Let_def by (rule frame_rules frame_steps)+

lemma UsbHubSetPortFeature_frame [THEN after, frame_rules]: "keeps R st (UsbHubSetPortFeature env uif port feat st)"
  unfolding UsbHubSetPortFeature_def Let_def by (rule frame_rules frame_steps)+

lemma UsbHubClearPortFeature_frame [THEN after, frame_rules]: "keeps R st (UsbHubClearPortFeature env uif port feat st)"
  unfolding UsbHubClearPortFeature_def Let_def by (rule frame_rules frame_steps)+

lemma hub_clear_loop_frame [THEN after_st, frame_rules]: "keeps_st R st (hub_clear_loop fs env dv port change st)"
proof (induction fs arbitrary: st)
  case (Cons f fs)
  obtain b g where "f = (b, g)"
    by (cases f)
  then show ?case
    by (simp only: hub_clear_loop.simps) (rule Cons.IH [THEN after_st] frame_rules frame_steps)+
qed (simp add: keeps_ret R_refl)

lemma UsbHubClearPortChange_frame [THEN after_st, frame_rules]: "keeps_st R st (UsbHubClearPortChange env uif port st)"
  unfolding UsbHubClearPortChange_def Let_def by (rule frame_rules frame_steps)+

lemma hub_reset_loop_frame [THEN after, frame_rules]: "keeps R st (hub_reset_loop k env uif port buf st)"
proof (induction k arbitrary: buf st)
  case (Suc k)
  show ?case
    unfolding hub_reset_loop.simps by (rule Suc.IH [THEN after] frame_rules frame_steps)+
qed (simp add: keeps_ret R_refl)

lemma UsbHubResetPort_frame [THEN after, frame_rules]: "keeps R st (UsbHubResetPort env uif port st)"
  unfolding UsbHubResetPort_def Let_def by (rule frame_rules frame_steps)+

lemma port_feature_loop_frame [THEN after_st, frame_rules]: "keeps_st R st (port_feature_loop k i env dv feat st)"
proof (induction k arbitrary: i st)
  case (Suc k)
  show ?case
    unfolding port_feature_loop.simps by (rule Suc.IH [THEN after_st] frame_rules frame_steps)+
qed (simp add: keeps_ret R_refl)

lemma UsbHubInit_frame [THEN after, frame_rules]: "keeps R st (UsbHubInit env uif st)"
  unfolding UsbHubInit_def Let_def by (rule frame_rules frame_steps)+

lemma close_hub_event_frame [frame_rules]: "R st s \<Longrightarrow> R st (close_hub_event env ev s)"
  by (simp add: close_hub_event_def R_upd split: option.split)

lemma UsbHubRelease_frame [THEN after, frame_rules]: "keeps R st (UsbHubRelease env uif st)"
  unfolding UsbHubRelease_def Let_def by (rule frame_rules frame_steps)+

lemma UsbHcGetCapability_frame [THEN after, frame_rules]: "keeps R st (UsbHcGetCapability env st)"
  unfolding UsbHcGetCapability_def by (rule frame_steps)+

lemma root_port_frame [THEN after, frame_rules]:
  "keeps R st (UsbHcGetRootHubPortStatus env port st)" "keeps R st (UsbHcSetRootHubPortFeature env port feat st)"
  "keeps R st (UsbHcClearRootHubPortFeature env port feat st)" "keeps R st (UsbRootHubGetPortStatus env port st)"
  "keeps R st (UsbRootHubSetPortFeature env port feat st)" "keeps R st (UsbRootHubClearPortFeature env port feat st)"
  unfolding UsbHcGetRootHubPortStatus_def UsbHcSetRootHubPortFeature_def UsbHcClearRootHubPortFeature_def
    UsbRootHubGetPortStatus_def UsbRootHubSetPortFeature_def UsbRootHubClearPortFeature_def
  by (rule frame_steps)+

lemma UsbRootHubInit_frame [THEN after, frame_rules]: "keeps R st (UsbRootHubInit env uif st)"
  unfolding UsbRootHubInit_def Let_def by (rule frame_rules frame_steps)+

lemma root_clear_loop_frame [THEN after_st, frame_rules]: "keeps_st R st (root_clear_loop fs env port change st)"
proof (induction fs arbitrary: st)
  case (Cons f fs)
  obtain b g where "f = (b, g)"
    by (cases f)
  then show ?case
    by (simp only: root_clear_loop.simps) (rule Cons.IH [THEN after_st] frame_rules frame_steps)+
qed (simp add: keeps_ret R_refl)

lemma UsbRootHubClearPortChange_frame [THEN after_st, frame_rules]: "keeps_st R st (UsbRootHubClearPortChange env port st)"
  unfolding UsbRootHubClearPortChange_def Let_def by (rule frame_rules frame_steps)+

lemma root_reset_loop_frame [THEN after, frame_rules]: "keeps R st (root_reset_loop k env port st)"
proof (induction k arbitrary: st)
  case (Suc k)
  show ?case
    unfolding root_reset_loop.simps by (rule Suc.IH [THEN after] frame_rules frame_steps)+
qed (simp add: keeps_ret R_refl)

lemma UsbRootHubResetPort_frame [THEN after, frame_rules]: "keeps R st (UsbRootHubResetPort env uif port st)"
  unfolding UsbRootHubResetPort_def Let_def by (rule frame_rules frame_steps)+

lemma UsbRootHubRelease_frame [THEN after, frame_rules]: "keeps R st (UsbRootHubRelease env uif st)"
  unfolding UsbRootHubRelease_def Let_def by (rule frame_rules frame_steps R_option)+

lemma api_GetPortStatus_frame [THEN after, frame_rules]: "keeps R st (api_GetPortStatus env uif port st)"
  unfolding api_GetPortStatus_def Let_def by (rule frame_rules frame_steps)+

lemma api_ResetPort_frame [THEN after, frame_rules]: "keeps R st (api_ResetPort env uif port st)"
  unfolding api_ResetPort_def Let_def by (rule frame_rules frame_steps)+

lemma api_ClearPortChange_frame [THEN after_st, frame_rules]: "keeps_st R st (api_ClearPortChange env uif port st)"
  unfolding api_ClearPortChange_def Let_def by (rule frame_rules frame_steps)+

lemma api_Release_frame [THEN after, frame_rules]: "keeps R st (api_Release env uif st)"
  unfolding api_Release_def Let_def by (rule frame_rules frame_steps)+

text \<open>Interfaces and configurations.\<close>

lemma GetUsbDPFromFullDP_frame [THEN after, frame_rules]: "keeps R st (GetUsbDPFromFullDP env p st)"
  unfolding GetUsbDPFromFullDP_def Let_def by (rule frame_rules frame_steps)+

lemma AddUsbDPToList_frame [THEN after, frame_rules]: "keeps R st (AddUsbDPToList env dp st)"
  unfolding AddUsbDPToList_def Let_def by (rule frame_rules frame_steps)+

lemma wwid_loop_frame [THEN after, frame_rules]: "keeps R st (wwid_loop langs env dv idx body n st)"
proof (induction langs arbitrary: st)
  case (Cons l langs)
  show ?case
    unfolding wwid_loop.simps by (rule Cons.IH [THEN after] frame_rules frame_steps)+
qed (simp add: keeps_ret R_refl)

lemma MatchUsbWwid_frame [THEN after, frame_rules]: "keeps R st (MatchUsbWwid env n u st)"
  unfolding MatchUsbWwid_def Let_def by (rule frame_rules frame_steps)+

lemma wants_frame [THEN after, frame_rules]: "keeps R st (wants env item path u st)"
  unfolding wants_def Let_def by (rule frame_rules frame_steps keeps_same)+

lemma wanted_loop_frame [THEN after, frame_rules]: "keeps R st (wanted_loop items env path u st)"
proof (induction items arbitrary: st)
  case (Cons l items)
  show ?case
    unfolding wanted_loop.simps by (rule Cons.IH [THEN after] frame_rules frame_steps)+
qed (simp add: keeps_ret R_refl)

lemma UsbBusIsWantedUsbIO_frame [THEN after, frame_rules]: "keeps R st (UsbBusIsWantedUsbIO env uif st)"
  unfolding UsbBusIsWantedUsbIO_def Let_def by (rule frame_rules frame_steps)+

lemma connect_wanted_frame [THEN after_st, frame_rules]: "keeps_st R st (connect_wanted env h st)"
  unfolding connect_wanted_def Let_def by (rule frame_rules frame_steps)+

lemma connect_loop_frame [THEN after_st, frame_rules]: "keeps_st R st (connect_loop hs env st)"
proof (induction hs arbitrary: st)
  case (Cons h hs)
  show ?case
    unfolding connect_loop.simps by (rule Cons.IH [THEN after_st] frame_rules frame_steps)+
qed (simp add: keeps_ret R_refl)

lemma UsbBusRecursivelyConnectWantedUsbIo_frame [THEN after, frame_rules]: "keeps R st (UsbBusRecursivelyConnectWantedUsbIo env st)"
  unfolding UsbBusRecursivelyConnectWantedUsbIo_def Let_def by (rule frame_rules frame_steps)+

lemma host_child_frame [frame_rules]:
  "R st s \<Longrightarrow> R st (UsbCloseHostProtoByChild env h s)" "R st s \<Longrightarrow> R st (snd (UsbOpenHostProtoByChild env h s))"
  unfolding UsbCloseHostProtoByChild_def UsbOpenHostProtoByChild_def
  by (auto simp: ext_def R_upd split: prod.splits)

lemma UsbFreeInterface_frame [THEN after_st, frame_rules]: "keeps_st R st (UsbFreeInterface env uif st)"
  unfolding UsbFreeInterface_def Let_def by (rule frame_rules frame_steps)+

lemma UsbCreateInterface_frame [THEN after, frame_rules]: "keeps R st (UsbCreateInterface env dv ifd st)"
  unfolding UsbCreateInterface_def Let_def by (rule frame_rules frame_steps)+

lemma UsbConnectDriver_frame [THEN after, frame_rules]: "keeps R st (UsbConnectDriver env uif st)"
  unfolding UsbConnectDriver_def Let_def by (rule frame_rules frame_steps)+

lemma reset_toggles_frame [THEN after_st, frame_rules]: "keeps_st R st (reset_toggles k i eps st)"
proof (induction k arbitrary: i st)
  case (Suc k)
  show ?case
    unfolding reset_toggles.simps by (rule Suc.IH [THEN after_st] frame_rules frame_steps)+
qed (simp add: keeps_ret R_refl)

lemma UsbSelectSetting_frame [THEN after, frame_rules]: "keeps R st (UsbSelectSetting ifd alt st)"
  unfolding UsbSelectSetting_def Let_def by (rule frame_rules frame_steps)+

lemma create_interfaces_frame [THEN after, frame_rules]: "keeps R st (create_interfaces k i env dv ifs st)"
proof (induction k arbitrary: i st)
  case (Suc k)
  show ?case
    unfolding create_interfaces.simps
    by (rule Suc.IH [THEN after] frame_rules frame_steps upd_dev_frame [THEN after_st] | simp)+
qed (simp add: keeps_ret R_refl)

lemma UsbSelectConfig_frame [THEN after, frame_rules]: "keeps R st (UsbSelectConfig env dv val st)"
  unfolding UsbSelectConfig_def Let_def by (rule frame_rules frame_steps upd_dev_frame [THEN after_st] | simp)+

lemma UsbDisconnectDriver_frame [THEN after, frame_rules]: "keeps R st (UsbDisconnectDriver env uif st)"
  unfolding UsbDisconnectDriver_def Let_def by (rule frame_rules frame_steps)+

lemma remove_interfaces_frame [THEN after, frame_rules]: "keeps R st (remove_interfaces k i env dv ret st)"
proof (induction k arbitrary: i ret st)
  case (Suc k)
  show ?case
    unfolding remove_interfaces.simps
    by (rule Suc.IH [THEN after] frame_rules frame_steps upd_dev_frame [THEN after_st] | simp)+
qed (simp add: keeps_ret R_refl)

lemma UsbRemoveConfig_frame [THEN after, frame_rules]: "keeps R st (UsbRemoveConfig env dv st)"
  unfolding UsbRemoveConfig_def Let_def by (rule frame_rules frame_steps upd_dev_frame [THEN after_st] | simp)+

lemma mark_failed_frame [THEN after_st, frame_rules]: "keeps_st R st (mark_failed i st)"
  unfolding mark_failed_def Let_def by (rule frame_rules frame_steps upd_dev_frame [THEN after_st] | simp)+

text \<open>The USB I/O protocol.\<close>

lemma clear_tt_frame [THEN after_st, frame_rules]: "keeps_st R st (clear_tt env dv t st)"
  unfolding clear_tt_def Let_def by (rule frame_rules frame_steps)+

lemma sync_endpoint_frame [THEN after_st, frame_rules]: "keeps_st R st (sync_endpoint uif req st)"
  unfolding sync_endpoint_def Let_def by (rule frame_rules frame_steps)+

lemma sync_config_frame [THEN after, frame_rules]: "keeps R st (sync_config env dv val s st)"
  unfolding sync_config_def Let_def by (rule frame_rules frame_steps)+

lemma sync_setting_frame [THEN after, frame_rules]: "keeps R st (sync_setting uif req s st)"
  unfolding sync_setting_def Let_def by (rule frame_rules frame_steps)+

lemma UsbIoControlTransfer_frame [THEN after, frame_rules]: "keeps R st (UsbIoControlTransfer env uif req dir timeout buf len b st)"
  unfolding UsbIoControlTransfer_def Let_def by (rule frame_rules frame_steps)+

lemma UsbIoBulkTransfer_frame [THEN after, frame_rules]: "keeps R st (UsbIoBulkTransfer env uif ep buf len timeout b st)"
  unfolding UsbIoBulkTransfer_def Let_def by (rule frame_rules frame_steps)+

lemma UsbIoSyncInterruptTransfer_frame [THEN after, frame_rules]: "keeps R st (UsbIoSyncInterruptTransfer env uif ep buf len timeout b st)"
  unfolding UsbIoSyncInterruptTransfer_def Let_def by (rule frame_rules frame_steps)+

lemma UsbIoClearFeature_frame [THEN after, frame_rules]: "keeps R st (UsbIoClearFeature env uif target feature idx st)"
  unfolding UsbIoClearFeature_def Let_def by (rule frame_rules frame_steps)+

lemma UsbIoGetStringDescriptor_frame [THEN after, frame_rules]: "keeps R st (UsbIoGetStringDescriptor env uif lang idx st)"
  unfolding UsbIoGetStringDescriptor_def Let_def by (rule frame_rules frame_steps)+

lemma UsbOnHubInterrupt_frame [THEN after, frame_rules]: "keeps R st (UsbOnHubInterrupt env hub data result st)"
  unfolding UsbOnHubInterrupt_def Let_def by (rule frame_rules frame_steps R_option)+

lemma UsbBusAddWantedUsbIoDP_frame [THEN after, frame_rules]: "keeps R st (UsbBusAddWantedUsbIoDP env rem st)"
  unfolding UsbBusAddWantedUsbIoDP_def UsbBusFreeUsbDPList_def Let_def by (rule frame_rules frame_steps | simp)+

end

end
