(* ===== verification/UsbTree.thy ===== *)
theory UsbTree
  imports UsbFrame
begin

text \<open>
  The tree of devices. A bus is in order (\<open>tree_ok\<close>) when slot \<open>i\<close> holds the device with address \<open>i\<close> and every device
  with an address is in its slot, as the comment in \<^verbatim>\<open>UsbBus.h\<close> says; when the parent of every such device is the
  root hub or another of them, without cycles; and when every device was allocated before the next one. Removal cuts
  whole subtrees.
\<close>

section \<open>The part of a device that gives its place in the tree\<close>

definition tkey :: "'h usb_bus \<Rightarrow> ptr \<Rightarrow> (byte \<times> byte \<times> byte) option" where
  "tkey st a = map_option (\<lambda>d. (dv_Address d, dv_ParentAddr d, dv_ParentPort d)) (ub_dev st a)"

definition same_tree :: "'h usb_bus \<Rightarrow> 'h usb_bus \<Rightarrow> bool" where
  "same_tree st st' \<longleftrightarrow> ub_Devices st' = ub_Devices st \<and> ub_MaxDevices st' = ub_MaxDevices st \<and> tkey st' = tkey st \<and>
     us_next (ub_desc st) \<le> us_next (ub_desc st')"

interpretation same_tree: bus_frame same_tree
  by unfold_locales (auto simp: same_tree_def tkey_def fun_eq_iff)

definition addr_of :: "'h usb_bus \<Rightarrow> ptr \<Rightarrow> nat option" where
  "addr_of st a = map_option (\<lambda>d. unat (dv_Address d)) (ub_dev st a)"

section \<open>Parents and subtrees\<close>

text \<open>The address of the parent of the device in a slot.\<close>

definition par :: "'h usb_bus \<Rightarrow> nat \<Rightarrow> nat option" where
  "par st i =
     (if 0 < i \<and> i < ub_MaxDevices st
      then (case ub_Devices st ! i of None \<Rightarrow> None | Some dv \<Rightarrow> map_option (\<lambda>(x, p, q). unat p) (tkey st dv))
      else None)"

inductive reaches :: "'h usb_bus \<Rightarrow> nat \<Rightarrow> nat \<Rightarrow> bool" for st a where
  here: "reaches st a a"
| down: "reaches st a p \<Longrightarrow> par st i = Some p \<Longrightarrow> reaches st a i"

definition rooted :: "'h usb_bus \<Rightarrow> bool" where
  "rooted st \<longleftrightarrow> (\<exists>rk :: nat \<Rightarrow> nat. \<forall>i p. par st i = Some p \<longrightarrow> rk p < rk i)"

definition tree_ok :: "'h usb_bus \<Rightarrow> bool" where
  "tree_ok st \<longleftrightarrow> length (ub_Devices st) = 256 \<and> 0 < ub_MaxDevices st \<and> ub_MaxDevices st \<le> 256 \<and>
     (\<forall>a. ub_dev st a \<noteq> None \<longrightarrow> a < us_next (ub_desc st)) \<and>
     (\<forall>i dv. 0 < i \<longrightarrow> i < 256 \<longrightarrow> ub_Devices st ! i = Some dv \<longrightarrow> addr_of st dv = Some i) \<and>
     (\<forall>a i. addr_of st a = Some i \<longrightarrow> 0 < i \<longrightarrow> i < ub_MaxDevices st \<and> ub_Devices st ! i = Some a) \<and>
     (\<forall>i p. par st i = Some p \<longrightarrow> 0 < p \<longrightarrow> p < 256 \<and> ub_Devices st ! p \<noteq> None) \<and> rooted st"

lemma tkey_None [simp]: "tkey st a = None \<longleftrightarrow> ub_dev st a = None"
  by (simp add: tkey_def)

lemma addr_of_key: "addr_of st a = map_option (\<lambda>k. unat (fst k)) (tkey st a)"
  by (cases "ub_dev st a") (simp_all add: addr_of_def tkey_def)

lemma tree_okI:
  "length (ub_Devices st) = 256 \<Longrightarrow> 0 < ub_MaxDevices st \<Longrightarrow> ub_MaxDevices st \<le> 256 \<Longrightarrow>
    (\<And>a. ub_dev st a \<noteq> None \<Longrightarrow> a < us_next (ub_desc st)) \<Longrightarrow>
    (\<And>i dv. 0 < i \<Longrightarrow> i < 256 \<Longrightarrow> ub_Devices st ! i = Some dv \<Longrightarrow> addr_of st dv = Some i) \<Longrightarrow>
    (\<And>a i. addr_of st a = Some i \<Longrightarrow> 0 < i \<Longrightarrow> i < ub_MaxDevices st \<and> ub_Devices st ! i = Some a) \<Longrightarrow>
    (\<And>i p. par st i = Some p \<Longrightarrow> 0 < p \<Longrightarrow> p < 256 \<and> ub_Devices st ! p \<noteq> None) \<Longrightarrow> rooted st \<Longrightarrow> tree_ok st"
  unfolding tree_ok_def by blast

lemma tree_okD:
  assumes "tree_ok st"
  shows "length (ub_Devices st) = 256" "0 < ub_MaxDevices st" "ub_MaxDevices st \<le> 256"
    "ub_dev st a \<noteq> None \<Longrightarrow> a < us_next (ub_desc st)"
    "0 < i \<Longrightarrow> i < 256 \<Longrightarrow> ub_Devices st ! i = Some dv \<Longrightarrow> addr_of st dv = Some i"
    "addr_of st a = Some i \<Longrightarrow> 0 < i \<Longrightarrow> i < ub_MaxDevices st"
    "addr_of st a = Some i \<Longrightarrow> 0 < i \<Longrightarrow> ub_Devices st ! i = Some a"
    "par st i = Some p \<Longrightarrow> 0 < p \<Longrightarrow> p < 256"
    "par st i = Some p \<Longrightarrow> 0 < p \<Longrightarrow> ub_Devices st ! p \<noteq> None"
    "rooted st"
  using assms unfolding tree_ok_def by blast+

lemma slot_inject:
  assumes "tree_ok st" "0 < i" "i < 256" "0 < j" "j < 256" "ub_Devices st ! i = Some dv" "ub_Devices st ! j = Some dv"
  shows "i = j"
  using tree_okD(5) [OF assms(1,2,3,6)] tree_okD(5) [OF assms(1,4,5,7)] by simp

text \<open>The slots of \<open>S\<close> are emptied and their devices freed; nothing else changes in the tree.\<close>

definition cut :: "nat set \<Rightarrow> 'h usb_bus \<Rightarrow> 'h usb_bus \<Rightarrow> bool" where
  "cut S st st' \<longleftrightarrow> S \<subseteq> {0<..<256} \<and> ub_MaxDevices st' = ub_MaxDevices st \<and> length (ub_Devices st') = length (ub_Devices st) \<and>
     us_next (ub_desc st) \<le> us_next (ub_desc st') \<and>
     (\<forall>i < 256. ub_Devices st' ! i = (if i \<in> S then None else ub_Devices st ! i)) \<and>
     (\<forall>x. tkey st' x = (if \<exists>i \<in> S. ub_Devices st ! i = Some x then None else tkey st x))"

lemma cutD:
  assumes "cut S st st'"
  shows "i \<in> S \<Longrightarrow> 0 < i \<and> i < 256" "ub_MaxDevices st' = ub_MaxDevices st" "length (ub_Devices st') = length (ub_Devices st)"
    "us_next (ub_desc st) \<le> us_next (ub_desc st')"
    "i < 256 \<Longrightarrow> ub_Devices st' ! i = (if i \<in> S then None else ub_Devices st ! i)"
    "tkey st' x = (if \<exists>i \<in> S. ub_Devices st ! i = Some x then None else tkey st x)"
  using assms unfolding cut_def by (blast dest: greaterThanLessThan_iff [THEN iffD1, OF subsetD])+

lemma cut_same: "same_tree st st' \<Longrightarrow> cut {} st st'"
  by (simp add: cut_def same_tree_def)

lemma cut_trans:
  assumes "cut S st st1" "cut T st1 st2"
  shows "cut (S \<union> T) st st2"
proof -
  have key: "tkey st2 x = (if \<exists>i \<in> S \<union> T. ub_Devices st ! i = Some x then None else tkey st x)" for x
  proof -
    have "(\<exists>i \<in> T. ub_Devices st1 ! i = Some x) \<longleftrightarrow> (\<exists>i \<in> T. i \<notin> S \<and> ub_Devices st ! i = Some x)"
      using cutD(1) [OF assms(2)] cutD(5) [OF assms(1)] by force
    then show ?thesis
      by (auto simp: cutD(6) [OF assms(1), of x] cutD(6) [OF assms(2), of x])
  qed
  have sub: "S \<union> T \<subseteq> {0<..<256}"
    using assms unfolding cut_def by blast
  show ?thesis
    unfolding cut_def using key sub
    by (simp add: cutD(2,3,5) [OF assms(1)] cutD(2,3,5) [OF assms(2)] order_trans [OF cutD(4) [OF assms(1)] cutD(4) [OF assms(2)]])
qed

lemma cut_key:
  assumes "cut S st st'" "tree_ok st" "0 < i" "i < 256" "i \<notin> S" "ub_Devices st ! i = Some dv"
  shows "tkey st' dv = tkey st dv"
proof -
  have "\<not> (\<exists>j \<in> S. ub_Devices st ! j = Some dv)"
    using cutD(1) [OF assms(1)] slot_inject [OF assms(2-4) _ _ assms(6)] assms(5) by blast
  then show ?thesis
    by (simp add: cutD(6) [OF assms(1)])
qed

lemma cut_par:
  assumes "cut S st st'" "tree_ok st"
  shows "par st' i = (if i \<in> S then None else par st i)"
proof (cases "0 < i \<and> i < ub_MaxDevices st")
  case True
  then have i: "0 < i" "i < 256"
    using tree_okD(3) [OF assms(2)] by simp_all
  show ?thesis
  proof (cases "i \<in> S")
    case False
    then show ?thesis
      using cut_key [OF assms i False] True
      by (auto simp: par_def cutD(2) [OF assms(1)] cutD(5) [OF assms(1) i(2)] split: option.split)
  qed (simp add: par_def cutD(5) [OF assms(1) i(2)])
next
  case False
  then show ?thesis
    by (auto simp: par_def cutD(2) [OF assms(1)])
qed

lemma cut_rooted:
  assumes "cut S st st'" "tree_ok st" "rooted st"
  shows "rooted st'"
proof -
  obtain rk :: "nat \<Rightarrow> nat" where "\<forall>i p. par st i = Some p \<longrightarrow> rk p < rk i"
    using assms(3) unfolding rooted_def by blast
  then have "\<forall>i p. par st' i = Some p \<longrightarrow> rk p < rk i"
    by (simp add: cut_par [OF assms(1,2)])
  then show ?thesis
    unfolding rooted_def by blast
qed

text \<open>The children of what is cut are cut too.\<close>

definition closed :: "'h usb_bus \<Rightarrow> nat set \<Rightarrow> bool" where
  "closed st S \<longleftrightarrow> (\<forall>p i. p \<in> S \<longrightarrow> par st i = Some p \<longrightarrow> i \<in> S)"

lemma closedD: "closed st S \<Longrightarrow> p \<in> S \<Longrightarrow> par st i = Some p \<Longrightarrow> i \<in> S"
  unfolding closed_def by blast

lemma closed_empty: "closed st {}"
  by (simp add: closed_def)

lemma closed_union:
  assumes "cut S st st'" "tree_ok st" "closed st S" "closed st' T"
  shows "closed st (S \<union> T)"
  unfolding closed_def
proof (intro allI impI)
  fix p i
  assume p: "p \<in> S \<union> T" "par st i = Some p"
  show "i \<in> S \<union> T"
  proof (cases "i \<in> S")
    case False
    then have "par st' i = Some p" "p \<in> T"
      using p closedD [OF assms(3) _ p(2)] by (auto simp: cut_par [OF assms(1,2)])
    then show ?thesis
      using closedD [OF assms(4)] by blast
  qed simp
qed

lemma cut_addr:
  assumes "cut S st st'" "tree_ok st" "addr_of st' a = Some i"
  shows "addr_of st a = Some i" "i \<notin> S"
proof -
  have free: "\<not> (\<exists>j \<in> S. ub_Devices st ! j = Some a)" and key: "tkey st' a = tkey st a"
    using assms(3) cutD(6) [OF assms(1), of a] by (auto simp: addr_of_key split: if_splits)
  show addr: "addr_of st a = Some i"
    using assms(3) key by (simp add: addr_of_key)
  show "i \<notin> S"
    using free tree_okD(7) [OF assms(2) addr] cutD(1) [OF assms(1)] by blast
qed

lemma cut_tree_ok:
  assumes "cut S st st'" "tree_ok st" "closed st S"
  shows "tree_ok st'"
proof (rule tree_okI)
  note same = cutD(2,3) [OF assms(1)]
  show "length (ub_Devices st') = 256" "0 < ub_MaxDevices st'" "ub_MaxDevices st' \<le> 256"
    using tree_okD(1-3) [OF assms(2)] by (simp_all add: same)
  show "a < us_next (ub_desc st')" if "ub_dev st' a \<noteq> None" for a
  proof -
    have "ub_dev st a \<noteq> None"
      using that cutD(6) [OF assms(1), of a] tkey_None [of st' a] tkey_None [of st a] by (auto split: if_splits)
    then show ?thesis
      using tree_okD(4) [OF assms(2)] cutD(4) [OF assms(1)] by fastforce
  qed
  show "addr_of st' dv = Some i" if "0 < i" "i < 256" "ub_Devices st' ! i = Some dv" for i dv
  proof -
    have i: "i \<notin> S" "ub_Devices st ! i = Some dv"
      using cutD(5) [OF assms(1) that(2)] that(3) by (simp_all split: if_splits)
    show ?thesis
      using tree_okD(5) [OF assms(2) that(1,2) i(2)] cut_key [OF assms(1,2) that(1,2) i] by (simp add: addr_of_key)
  qed
  show "i < ub_MaxDevices st' \<and> ub_Devices st' ! i = Some a" if "addr_of st' a = Some i" "0 < i" for a i
  proof -
    note old = cut_addr [OF assms(1,2) that(1)]
    have "i < ub_MaxDevices st" "ub_Devices st ! i = Some a"
      using tree_okD(6,7) [OF assms(2) old(1) that(2)] .
    then show ?thesis
      using old(2) tree_okD(3) [OF assms(2)] by (simp add: same cutD(5) [OF assms(1)])
  qed
  show "p < 256 \<and> ub_Devices st' ! p \<noteq> None" if "par st' i = Some p" "0 < p" for i p
  proof -
    have i: "par st i = Some p" "i \<notin> S"
      using that(1) by (simp_all add: cut_par [OF assms(1,2)] split: if_splits)
    have p: "p < 256"
      by (rule tree_okD(8) [OF assms(2) i(1) that(2)])
    have "p \<notin> S"
      using closedD [OF assms(3) _ i(1)] i(2) by blast
    then show ?thesis
      using tree_okD(9) [OF assms(2) i(1) that(2)] p by (simp add: cutD(5) [OF assms(1)])
  qed
  show "rooted st'"
    by (rule cut_rooted [OF assms(1,2) tree_okD(10) [OF assms(2)]])
qed

lemma reaches_cut:
  assumes "cut S st st'" "tree_ok st" "closed st S"
  shows "{x. reaches st' c x} \<union> S = {x. reaches st c x} \<union> S"
proof -
  have "reaches st c x" if "reaches st' c x" for x
    using that
  proof induction
    case (down p i)
    then have "par st i = Some p"
      by (simp add: cut_par [OF assms(1,2)] split: if_splits)
    with down.IH show ?case
      by (rule reaches.down)
  qed (rule reaches.here)
  moreover have "reaches st' c x \<or> x \<in> S" if "reaches st c x" for x
    using that
  proof induction
    case (down p i)
    show ?case
    proof (cases "i \<in> S")
      case False
      then have "reaches st' c p" "par st' i = Some p"
        using down closedD [OF assms(3) _ down.hyps(2)] by (auto simp: cut_par [OF assms(1,2)])
      then show ?thesis
        by (blast intro: reaches.down)
    qed simp
  qed (simp add: reaches.here)
  ultimately show ?thesis
    by blast
qed

lemma reaches_par: "reaches st a x \<Longrightarrow> x \<noteq> a \<Longrightarrow> \<exists>c. par st c = Some a \<and> reaches st c x"
  by (induction rule: reaches.induct) (auto intro: reaches.intros)

lemma reaches_up: "par st c = Some a \<Longrightarrow> reaches st c x \<Longrightarrow> reaches st a x"
  by (erule reaches.induct) (auto intro: reaches.intros)

lemma rooted_no_cycle:
  assumes "rooted st" "par st c = Some a"
  shows "\<not> reaches st c a"
proof -
  obtain rk :: "nat \<Rightarrow> nat" where rk: "\<forall>i p. par st i = Some p \<longrightarrow> rk p < rk i"
    using assms(1) unfolding rooted_def by blast
  have "rk c \<le> rk x" if "reaches st c x" for x
    using that by induction (use rk in fastforce)+
  then show ?thesis
    using rk assms(2) by fastforce
qed

section \<open>Removal cuts a subtree\<close>

lemma reaches_cut_mono:
  assumes "cut S st st'" "tree_ok st" "reaches st' c x"
  shows "reaches st c x"
  using assms(3)
proof induction
  case (down p i)
  then have "par st i = Some p"
    by (simp add: cut_par [OF assms(1,2)] split: if_splits)
  with down.IH show ?case
    by (rule reaches.down)
qed (rule reaches.here)

text \<open>What is behind the children of \<open>a\<close> in the slots from \<open>i\<close> on.\<close>

definition behind :: "'h usb_bus \<Rightarrow> nat \<Rightarrow> nat \<Rightarrow> nat set" where
  "behind st a i = {x. \<exists>c \<ge> i. par st c = Some a \<and> reaches st c x}"

lemma behind_skip: "par st i \<noteq> Some a \<Longrightarrow> behind st a (Suc i) = behind st a i"
  unfolding behind_def by (metis (no_types, lifting) Suc_leD le_antisym not_less_eq_eq)

lemma behind_not_self: "rooted st \<Longrightarrow> a \<notin> behind st a i"
  unfolding behind_def using rooted_no_cycle by blast

lemma reaches_trans: "reaches st b x \<Longrightarrow> reaches st a b \<Longrightarrow> reaches st a x"
  by (induction rule: reaches.induct) (auto intro: reaches.down)

lemma behind_first:
  assumes "cut {x. reaches st i x} st st1" "tree_ok st" "par st i = Some a"
  shows "{x. reaches st i x} \<union> behind st1 a (Suc i) = behind st a i"
proof -
  let ?S = "{x. reaches st i x}"
  have closed: "closed st ?S"
    unfolding closed_def by (auto intro: reaches.down)
  have "x \<in> ?S \<union> behind st1 a (Suc i)" if "c \<ge> i" "par st c = Some a" "reaches st c x" for c x
  proof (cases "c = i \<or> c \<in> ?S")
    case True
    then show ?thesis
      using that reaches_trans by fastforce
  next
    case False
    then have "par st1 c = Some a" "Suc i \<le> c"
      using that by (auto simp: cut_par [OF assms(1,2)])
    moreover have "{x. reaches st1 c x} \<union> ?S = {x. reaches st c x} \<union> ?S"
      by (rule reaches_cut [OF assms(1,2)]) (rule closed)
    then have "reaches st1 c x \<or> x \<in> ?S"
      using that(3) by blast
    moreover note \<open>par st1 c = Some a\<close> \<open>Suc i \<le> c\<close>
    ultimately show ?thesis
      unfolding behind_def by blast
  qed
  moreover have "x \<in> behind st a i" if "x \<in> behind st1 a (Suc i)" for x
    using that reaches_cut_mono [OF assms(1,2)] unfolding behind_def
    by (auto simp: cut_par [OF assms(1,2)] split: if_splits) (meson Suc_leD)
  ultimately show ?thesis
    using assms(3) unfolding behind_def by blast
qed

text \<open>
  A removal of a device with an address cuts slots behind it, with the children of every device that is cut, and all
  of them when it succeeds.
\<close>

definition removes :: "(ptr \<Rightarrow> 'h usb_bus \<Rightarrow> (efi_status \<times> 'h usb_bus) option) \<Rightarrow> bool" where
  "removes rm \<longleftrightarrow> (\<forall>st c j s st'. tree_ok st \<longrightarrow> 0 < j \<longrightarrow> addr_of st c = Some j \<longrightarrow> rm c st = Some (s, st') \<longrightarrow>
     (\<exists>S. cut S st st' \<and> closed st S \<and> S \<subseteq> {x. reaches st j x} \<and> (s = EFI_SUCCESS \<longrightarrow> S = {x. reaches st j x})))"

lemma removesD:
  assumes "removes rm" "tree_ok st" "0 < j" "addr_of st c = Some j" "rm c st = Some (s, st')"
  obtains S where "cut S st st'" "closed st S" "S \<subseteq> {x. reaches st j x}" "s = EFI_SUCCESS \<longrightarrow> S = {x. reaches st j x}"
  using assms unfolding removes_def by blast

lemma set_slot_same:
  assumes "set_slot i None st = Some st'" "ub_Devices st ! i = None"
  shows "st' = st"
proof -
  have "(ub_Devices st)[i := None] = ub_Devices st"
    using assms(2) list_update_id [of "ub_Devices st" i] by simp
  then show ?thesis
    using assms(1) by (auto simp: set_slot_def wr_def split: if_splits)
qed

lemma addr_alive: "addr_of st dv = Some a \<Longrightarrow> \<exists>d. ub_dev st dv = Some d \<and> unat (dv_Address d) = a"
  by (auto simp: addr_of_def)

lemma cut_addr_keep:
  assumes "cut S st st'" "tree_ok st" "addr_of st dv = Some a" "a \<notin> S"
  shows "addr_of st' dv = Some a"
proof -
  have "\<not> (\<exists>j \<in> S. ub_Devices st ! j = Some dv)"
    using cutD(1) [OF assms(1)] tree_okD(5) [OF assms(2), of _ dv] assms(3,4) by fastforce
  then show ?thesis
    using assms(3) by (simp add: addr_of_key cutD(6) [OF assms(1)])
qed

lemma remove_children_cuts:
  assumes "removes rm" "remove_children rm k i dv ret st = Some (s, st')" "tree_ok st" "0 < i"
    "i + k = ub_MaxDevices st" "addr_of st dv = Some a"
  shows "\<exists>S. cut S st st' \<and> closed st S \<and> S \<subseteq> behind st a i \<and> (s = EFI_SUCCESS \<longrightarrow> ret = EFI_SUCCESS \<and> S = behind st a i)"
  using assms(2-)
proof (induction k arbitrary: i ret st)
  case 0
  have "behind st a i = {}"
    using 0 by (auto simp: behind_def par_def split: if_splits)
  moreover have "cut {} st st'"
    using 0 by (intro cut_same) (simp add: same_tree_def)
  ultimately show ?case
    using 0 closed_empty by auto
next
  case (Suc k)
  have len: "length (ub_Devices st) = 256" "i < 256" "Suc i + k = ub_MaxDevices st"
    using tree_okD(1-3) [OF Suc.prems(2)] Suc.prems by simp_all
  have skip: ?case if "remove_children rm k (i + 1) dv ret st = Some (s, st')" "par st i \<noteq> Some a"
    using Suc.IH [of "Suc i" ret st] that Suc.prems len by (simp add: behind_skip)
  show ?case
  proof (cases "ub_Devices st ! i")
    case None
    then show ?thesis
      using Suc.prems(1) len by (intro skip) (simp_all add: par_def)
  next
    case (Some c)
    obtain cd d where cd: "ub_dev st c = Some cd" and d: "ub_dev st dv = Some d" and rest:
      "(if dv_ParentAddr cd \<noteq> dv_Address d then remove_children rm k (i + 1) dv ret st
        else do {
          (s, st1) \<leftarrow> rm c st;
          if EFI_ERROR s then do { st2 \<leftarrow> mark_failed i st1; remove_children rm k (i + 1) dv s st2 }
          else do { st2 \<leftarrow> set_slot i None st1; remove_children rm k (i + 1) dv ret st2 } }) = Some (s, st')"
      using Suc.prems(1) Some len by (simp split: bind_splits)
    have par_i: "par st i = Some (unat (dv_ParentAddr cd))"
      using Some cd Suc.prems len by (simp add: par_def tkey_def)
    have a: "unat (dv_Address d) = a"
      using Suc.prems(5) d by (simp add: addr_of_def)
    show ?thesis
    proof (cases "dv_ParentAddr cd = dv_Address d")
      case False
      then have "unat (dv_ParentAddr cd) \<noteq> a"
        using a False by (auto simp: word_unat_eq_iff)
      with rest False show ?thesis
        by (intro skip) (simp_all add: par_i)
    next
      case True
      then have pa: "par st i = Some a"
        using par_i a by simp
      obtain s1 st1 where rm: "rm c st = Some (s1, st1)" and rest1:
        "(if EFI_ERROR s1 then do { st2 \<leftarrow> mark_failed i st1; remove_children rm k (i + 1) dv s1 st2 }
          else do { st2 \<leftarrow> set_slot i None st1; remove_children rm k (i + 1) dv ret st2 }) = Some (s, st')"
        using rest True by (auto split: bind_splits prod.splits)
      have addr_c: "addr_of st c = Some i"
        by (rule tree_okD(5) [OF Suc.prems(2,3) len(2) Some])
      obtain S1 where S1: "cut S1 st st1" "closed st S1" "S1 \<subseteq> {x. reaches st i x}" "s1 = EFI_SUCCESS \<longrightarrow> S1 = {x. reaches st i x}"
        by (rule removesD [OF assms(1) Suc.prems(2,3) addr_c rm])
      have a_in: "a \<notin> S1"
        using S1(3) rooted_no_cycle [OF tree_okD(10) [OF Suc.prems(2)] pa] by blast
      have next_step: "\<exists>T. cut T st2 st' \<and> closed st2 T \<and> T \<subseteq> behind st2 a (Suc i) \<and>
          (s = EFI_SUCCESS \<longrightarrow> r = EFI_SUCCESS \<and> T = behind st2 a (Suc i))"
        if "remove_children rm k (i + 1) dv r st2 = Some (s, st')" "cut S1 st st2" for r st2
      proof (rule Suc.IH [of "Suc i" r st2])
        show "remove_children rm k (Suc i) dv r st2 = Some (s, st')"
          using that(1) by simp
        show "tree_ok st2"
          by (rule cut_tree_ok [OF that(2) Suc.prems(2) S1(2)])
        show "0 < Suc i" "Suc i + k = ub_MaxDevices st2"
          using len Suc.prems by (simp_all add: cutD(2) [OF that(2)])
        show "addr_of st2 dv = Some a"
          by (rule cut_addr_keep [OF that(2) Suc.prems(2,5) a_in])
      qed
      have S1_behind: "S1 \<subseteq> behind st a i"
        using S1(3) pa unfolding behind_def by auto
      have mono: "behind st2 a (Suc i) \<subseteq> behind st a i" if "cut S1 st st2" for st2
        using reaches_cut_mono [OF that Suc.prems(2)] unfolding behind_def
        by (auto simp: cut_par [OF that Suc.prems(2)] split: if_splits) (meson Suc_leD)
      show ?thesis
      proof (cases "s1 = EFI_SUCCESS")
        case True
        have slot: "ub_Devices st1 ! i = None"
          using S1(4) True len by (simp add: cutD(5) [OF S1(1)] reaches.here)
        have step: "remove_children rm k (i + 1) dv ret st1 = Some (s, st')"
          using rest1 True by (auto split: bind_splits dest: set_slot_same [OF _ slot])
        from next_step [OF step S1(1)] obtain T where
          T: "cut T st1 st'" "closed st1 T" "T \<subseteq> behind st1 a (Suc i)" "s = EFI_SUCCESS \<longrightarrow> ret = EFI_SUCCESS \<and> T = behind st1 a (Suc i)"
          by blast
        have "cut {x. reaches st i x} st st1"
          using S1(1,4) True by simp
        from behind_first [OF this Suc.prems(2) pa] show ?thesis
          using cut_trans [OF S1(1) T(1)] closed_union [OF S1(1) Suc.prems(2) S1(2) T(2)] T(3,4) S1(4) True by blast
      next
        case False
        then obtain st2 where st2: "mark_failed i st1 = Some st2" "remove_children rm k (i + 1) dv s1 st2 = Some (s, st')"
          using rest1 by (auto simp: EFI_ERROR_def split: bind_splits)
        have "same_tree st1 st2"
          using same_tree.mark_failed_frame [OF same_tree.R_refl, of st1 i] st2(1) by (simp add: keeps_st_def)
        then have cut2: "cut S1 st st2"
          using cut_trans [OF S1(1) cut_same] by simp
        from next_step [OF st2(2) cut2] obtain T where
          T: "cut T st2 st'" "closed st2 T" "T \<subseteq> behind st2 a (Suc i)" "s = EFI_SUCCESS \<longrightarrow> s1 = EFI_SUCCESS"
          by blast
        then show ?thesis
          using cut_trans [OF cut2 T(1)] closed_union [OF cut2 Suc.prems(2) S1(2) T(2)] False S1_behind mono [OF cut2] by blast
      qed
    qed
  qed
qed

lemma UsbFreeDevice_next:
  assumes "UsbFreeDevice dv st = Some st'"
  shows "\<exists>u. us_next (ub_desc st) \<le> us_next u \<and> st' = st\<lparr>ub_desc := u, ub_dev := (ub_dev st)(dv := None)\<rparr>"
proof -
  obtain d where d: "ub_dev st dv = Some d"
    using assms by (auto simp: UsbFreeDevice_def split: bind_splits)
  show ?thesis
  proof (cases "dv_DevDesc d")
    case None
    then show ?thesis
      using assms d by (intro exI [of _ "ub_desc st"]) (simp add: UsbFreeDevice_def)
  next
    case (Some p)
    then obtain u where u: "UsbFreeDevDesc p (ub_desc st) = Some u"
      "st' = st\<lparr>ub_desc := u, ub_dev := (ub_dev st)(dv := None)\<rparr>"
      using assms d by (auto simp: UsbFreeDevice_def on_desc_def split: bind_splits)
    then show ?thesis
      using UsbFreeDevDesc_next [of "ub_desc st" "ub_desc st" p] by (auto simp: keeps_st_def)
  qed
qed

lemma UsbFreeDevice_cuts:
  assumes "set_slot a None st = Some st1" "UsbFreeDevice dv st1 = Some st2" "0 < a" "a < 256" "ub_Devices st ! a = Some dv"
  shows "cut {a} st st2"
proof -
  have st1: "st1 = st\<lparr>ub_Devices := (ub_Devices st)[a := None]\<rparr>" "a < length (ub_Devices st)"
    using assms(1) by (auto simp: set_slot_def wr_def split: if_splits)
  obtain u where u: "us_next (ub_desc st1) \<le> us_next u" "st2 = st1\<lparr>ub_desc := u, ub_dev := (ub_dev st1)(dv := None)\<rparr>"
    using UsbFreeDevice_next [OF assms(2)] by blast
  show ?thesis
    unfolding cut_def using u st1 assms(3-5)
    by (auto simp: tkey_def nth_list_update)
qed

text \<open>The parts of a removal: the children, the configuration, the slot.\<close>

lemma UsbRemoveDevice_cases:
  assumes "UsbRemoveDevice (Suc F) env dv st = Some (s, st')"
  obtains (children) ret where
    "remove_children (UsbRemoveDevice F env) (ub_MaxDevices st - 1) 1 dv EFI_SUCCESS st = Some (ret, st')" "s = ret" "ret \<noteq> EFI_SUCCESS"
  | (config) st1 st2 d where
    "remove_children (UsbRemoveDevice F env) (ub_MaxDevices st - 1) 1 dv EFI_SUCCESS st = Some (EFI_SUCCESS, st1)"
    "UsbRemoveConfig env dv st1 = Some (s, st2)" "s \<noteq> EFI_SUCCESS" "ub_dev st2 dv = Some d"
    "mark_failed (unat (dv_Address d)) st2 = Some st'"
  | (all) st1 st2 st3 d where
    "remove_children (UsbRemoveDevice F env) (ub_MaxDevices st - 1) 1 dv EFI_SUCCESS st = Some (EFI_SUCCESS, st1)"
    "UsbRemoveConfig env dv st1 = Some (s, st2)" "s = EFI_SUCCESS" "ub_dev st2 dv = Some d"
    "set_slot (unat (dv_Address d)) None st2 = Some st3" "UsbFreeDevice dv st3 = Some st'"
proof -
  obtain ret st1 where kids: "remove_children (UsbRemoveDevice F env) (ub_MaxDevices st - 1) 1 dv EFI_SUCCESS st = Some (ret, st1)"
    and rest: "(if EFI_ERROR ret then Some (ret, st1)
       else do {
         (s, st2) \<leftarrow> UsbRemoveConfig env dv st1;
         d \<leftarrow> ub_dev st2 dv;
         if EFI_ERROR s then do { st3 \<leftarrow> mark_failed (unat (dv_Address d)) st2; Some (s, st3) }
         else do {
           st3 \<leftarrow> set_slot (unat (dv_Address d)) None st2;
           st4 \<leftarrow> UsbFreeDevice dv st3;
           Some (s, st4) } }) = Some (s, st')"
    using assms by (auto split: bind_splits prod.splits)
  show thesis
  proof (cases "ret = EFI_SUCCESS")
    case False
    then show thesis
      using children kids rest by (simp add: EFI_ERROR_def)
  next
    case True
    then obtain s2 st2 d where cfg: "UsbRemoveConfig env dv st1 = Some (s2, st2)" and d: "ub_dev st2 dv = Some d" and rest2:
      "(if EFI_ERROR s2 then do { st3 \<leftarrow> mark_failed (unat (dv_Address d)) st2; Some (s2, st3) }
        else do {
          st3 \<leftarrow> set_slot (unat (dv_Address d)) None st2;
          st4 \<leftarrow> UsbFreeDevice dv st3;
          Some (s2, st4) }) = Some (s, st')"
      using rest by (auto split: bind_splits prod.splits)
    show thesis
    proof (cases "s2 = EFI_SUCCESS")
      case False
      then show thesis
        using config kids True cfg d rest2 by (auto simp: EFI_ERROR_def split: bind_splits)
    next
      case s2: True
      then show thesis
        using all kids True cfg d rest2 by (auto split: bind_splits)
    qed
  qed
qed

lemma config_same: "UsbRemoveConfig env dv st = Some (s, st') \<Longrightarrow> same_tree st st'"
  using same_tree.UsbRemoveConfig_frame [OF same_tree.R_refl, of st env dv] by (simp add: keeps_def)

lemma mark_failed_same: "mark_failed i st = Some st' \<Longrightarrow> same_tree st st'"
  using same_tree.mark_failed_frame [OF same_tree.R_refl, of st i] by (simp add: keeps_st_def)

lemma UsbRemoveDevice_removes: "removes (UsbRemoveDevice F env)"
proof (induction F)
  case 0
  show ?case
    by (simp add: removes_def)
next
  case (Suc F)
  show ?case
    unfolding removes_def
  proof (intro allI impI)
    fix st dv a s st'
    assume ok: "tree_ok st" and a: "0 < a" and addr: "addr_of st dv = Some a"
      and run: "UsbRemoveDevice (Suc F) env dv st = Some (s, st')"
    have max: "1 + (ub_MaxDevices st - 1) = ub_MaxDevices st"
      using tree_okD(2) [OF ok] by simp
    note kids_cut = remove_children_cuts [OF Suc.IH _ ok _ max addr, simplified]
    have sub: "behind st a 1 \<subseteq> {x. reaches st a x}"
      unfolding behind_def using reaches_up by blast
    show "\<exists>S. cut S st st' \<and> closed st S \<and> S \<subseteq> {x. reaches st a x} \<and> (s = EFI_SUCCESS \<longrightarrow> S = {x. reaches st a x})"
      using run
    proof (cases rule: UsbRemoveDevice_cases)
      case (children ret)
      then show ?thesis
        using kids_cut [of EFI_SUCCESS ret st'] sub by auto
    next
      case (config st1 st2 d)
      obtain S where S: "cut S st st1" "closed st S" "S \<subseteq> behind st a 1"
        using kids_cut [OF config(1) [simplified]] by auto
      have "cut S st st'"
        using cut_trans [OF cut_trans [OF S(1) cut_same [OF config_same [OF config(2)]]] cut_same [OF mark_failed_same [OF config(5)]]]
        by simp
      then show ?thesis
        using S(2,3) sub config(3) by blast
    next
      case (all st1 st2 st3 d)
      obtain S where S: "cut S st st1" "closed st S" "S = behind st a 1"
        using kids_cut [OF all(1) [simplified]] by auto
      have cut2: "cut S st st2"
        using cut_trans [OF S(1) cut_same [OF config_same [OF all(2)]]] by simp
      have a_in: "a \<notin> S"
        using S(3) behind_not_self [OF tree_okD(10) [OF ok]] by blast
      have ok2: "tree_ok st2" and addr2: "addr_of st2 dv = Some a"
        using cut_tree_ok [OF cut2 ok S(2)] cut_addr_keep [OF cut2 ok addr a_in] .
      have "unat (dv_Address d) = a"
        using addr2 all(4) by (simp add: addr_of_def)
      then have "cut {a} st2 st'"
        using UsbFreeDevice_cuts [OF _ all(6) a _ tree_okD(7) [OF ok2 addr2 a]] all(5) tree_okD(3) [OF ok2] tree_okD(6) [OF ok2 addr2 a]
        by simp
      from cut_trans [OF cut2 this] have "cut (S \<union> {a}) st st'" .
      moreover have "S \<union> {a} = {x. reaches st a x}"
      proof
        show "S \<union> {a} \<subseteq> {x. reaches st a x}"
          using S(3) sub by (auto intro: reaches.here)
        have "x = a \<or> x \<in> behind st a 1" if x: "reaches st a x" for x
        proof (cases "x = a")
          case False
          from reaches_par [OF x False] obtain c where "par st c = Some a" "reaches st c x"
            by blast
          moreover from this have "1 \<le> c"
            by (simp add: par_def split: if_splits)
          ultimately show ?thesis
            unfolding behind_def by blast
        qed simp
        then show "{x. reaches st a x} \<subseteq> S \<union> {a}"
          using S(3) by blast
      qed
      moreover have "closed st {x. reaches st a x}"
        unfolding closed_def by (auto intro: reaches.down)
      ultimately show ?thesis
        by auto
    qed
  qed
qed

end
