(* ===== verification/UsbOk.thy ===== *)
theory UsbOk
  imports UsbTree
begin

text \<open>
  Every operation of the bus driver keeps the tree of devices in order (\<open>tree_ok\<close> of \<open>UsbTree\<close>): removal, the
  placing of a new device in a slot, the enumeration of ports and hubs, the reset of a port, stopping and starting.
\<close>

section \<open>Every operation keeps the tree in order\<close>

text \<open>The relation below is a preorder, so the combinators of \<open>frame_preorder\<close> apply to it.\<close>

definition keeps_ok :: "'h usb_bus \<Rightarrow> 'h usb_bus \<Rightarrow> bool" where
  "keeps_ok st st' \<longleftrightarrow> (tree_ok st \<longrightarrow> tree_ok st')"

interpretation ok: frame_preorder keeps_ok
  by unfold_locales (auto simp: keeps_ok_def)

lemma same_tree_ok: "same_tree st st' \<Longrightarrow> tree_ok st \<Longrightarrow> tree_ok st'"
  by (rule cut_tree_ok [OF cut_same _ closed_empty])

lemma ok_of_same: "keeps same_tree st m \<Longrightarrow> keeps keeps_ok st m"
  unfolding keeps_def keeps_ok_def by (blast intro: same_tree_ok)

lemma ok_of_same_st: "keeps_st same_tree st m \<Longrightarrow> keeps_st keeps_ok st m"
  unfolding keeps_st_def keeps_ok_def by (blast intro: same_tree_ok)

lemma keeps_sameD: "keeps same_tree st m \<Longrightarrow> m = Some (r, st') \<Longrightarrow> same_tree st st'"
  by (simp add: keeps_def)

lemma keeps_st_sameD: "keeps_st same_tree st m \<Longrightarrow> m = Some st' \<Longrightarrow> same_tree st st'"
  by (simp add: keeps_st_def)

text \<open>A device without an address comes or goes: the root hub, or a device that is not yet in a slot.\<close>

lemma no_address_ok:
  assumes "tree_ok st" "length (ub_Devices st') = 256" "ub_MaxDevices st' = ub_MaxDevices st"
    "\<And>a. ub_dev st' a \<noteq> None \<Longrightarrow> a < us_next (ub_desc st')"
    and slots: "\<And>i. 0 < i \<Longrightarrow> i < 256 \<Longrightarrow> ub_Devices st' ! i = ub_Devices st ! i"
    and key: "\<And>x i. 0 < i \<Longrightarrow> addr_of st x = Some i \<or> addr_of st' x = Some i \<Longrightarrow> tkey st' x = tkey st x"
  shows "tree_ok st'"
proof -
  have par: "par st' i = par st i" for i
  proof (cases "0 < i \<and> i < ub_MaxDevices st")
    case True
    then have i: "0 < i" "i < 256"
      using tree_okD(3) [OF assms(1)] by simp_all
    show ?thesis
    proof (cases "ub_Devices st ! i")
      case (Some x)
      then have "tkey st' x = tkey st x"
        using key [OF i(1)] tree_okD(5) [OF assms(1) i] by blast
      then show ?thesis
        using Some by (simp add: par_def assms(3) slots [OF i])
    qed (simp add: par_def assms(3) slots [OF i])
  qed (auto simp: par_def assms(3))
  show ?thesis
  proof (rule tree_okI)
    show "addr_of st' x = Some i" if "0 < i" "i < 256" "ub_Devices st' ! i = Some x" for i x
    proof -
      have old: "addr_of st x = Some i"
        using tree_okD(5) [OF assms(1) that(1,2)] that(3) slots [OF that(1,2)] by simp
      then have "tkey st' x = tkey st x"
        using key [OF that(1)] by blast
      with old show ?thesis
        by (simp add: addr_of_key)
    qed
    show "i < ub_MaxDevices st' \<and> ub_Devices st' ! i = Some x" if "addr_of st' x = Some i" "0 < i" for x i
    proof -
      have "tkey st' x = tkey st x"
        using key [OF that(2)] that(1) by blast
      then have "addr_of st x = Some i"
        using that(1) by (simp add: addr_of_key)
      from tree_okD(6,7) [OF assms(1) this that(2)] show ?thesis
        using slots [OF that(2)] tree_okD(3) [OF assms(1)] by (simp add: assms(3))
    qed
    show "p < 256 \<and> ub_Devices st' ! p \<noteq> None" if "par st' i = Some p" "0 < p" for i p
      using tree_okD(8,9) [OF assms(1), of i p] that slots [of p] by (simp add: par)
    show "rooted st'"
      using tree_okD(10) [OF assms(1)] by (simp add: rooted_def par)
  qed (use assms(2-4) tree_okD(1-3) [OF assms(1)] in simp_all)
qed

lemma free_root_device_ok:
  assumes "tree_ok st" "addr_of st dv = Some 0" "set_slot 0 None st = Some st1" "UsbFreeDevice dv st1 = Some st2"
  shows "tree_ok st2"
proof -
  have st1: "st1 = st\<lparr>ub_Devices := (ub_Devices st)[0 := None]\<rparr>"
    using assms(3) by (auto simp: set_slot_def wr_def split: if_splits)
  obtain u where u: "us_next (ub_desc st) \<le> us_next u" "st2 = st1\<lparr>ub_desc := u, ub_dev := (ub_dev st1)(dv := None)\<rparr>"
    using UsbFreeDevice_next [OF assms(4)] st1 by auto
  show ?thesis
  proof (rule no_address_ok [OF assms(1)])
    show "a < us_next (ub_desc st2)" if "ub_dev st2 a \<noteq> None" for a
      using that tree_okD(4) [OF assms(1), of a] u(1) by (simp add: u(2) st1 split: if_splits)
    show "tkey st2 x = tkey st x" if "0 < i" "addr_of st x = Some i \<or> addr_of st2 x = Some i" for x i
      using that assms(2) by (cases "x = dv") (auto simp: u(2) st1 tkey_def addr_of_def)
  qed (use tree_okD(1) [OF assms(1)] in \<open>simp_all add: u(2) st1\<close>)
qed

lemma remove_children_dead:
  "remove_children rm k i dv ret st = Some (s, st') \<Longrightarrow> ub_dev st dv = None \<Longrightarrow> s = ret \<and> st' = st"
  by (induction k arbitrary: i) (auto split: bind_splits option.splits)

lemma UsbRemoveDevice_dead: "UsbRemoveDevice F env dv st = Some (s, st') \<Longrightarrow> ub_dev st dv \<noteq> None"
  by (cases F) (auto simp: UsbRemoveConfig_def dest!: remove_children_dead split: bind_splits if_splits)

lemma UsbRemoveDevice_ok: "keeps keeps_ok st (UsbRemoveDevice F env dv st)"
  unfolding keeps_def keeps_ok_def
proof (intro allI impI)
  fix s st'
  assume run: "UsbRemoveDevice F env dv st = Some (s, st')" and ok: "tree_ok st"
  obtain a where addr: "addr_of st dv = Some a"
    using UsbRemoveDevice_dead [OF run] by (auto simp: addr_of_def)
  show "tree_ok st'"
  proof (cases "a = 0")
    case False
    then show ?thesis
      using removesD [OF UsbRemoveDevice_removes ok _ addr run] cut_tree_ok [OF _ ok] by blast
  next
    case True
    then have addr0: "addr_of st dv = Some 0"
      using addr by simp
    obtain G where F: "F = Suc G"
      using run by (cases F) simp_all
    have max: "1 + (ub_MaxDevices st - 1) = ub_MaxDevices st"
      using tree_okD(2) [OF ok] by simp
    have kids: "tree_ok st1 \<and> addr_of st1 dv = Some 0"
      if "remove_children (UsbRemoveDevice G env) (ub_MaxDevices st - 1) 1 dv EFI_SUCCESS st = Some (r, st1)" for r st1
    proof -
      from remove_children_cuts [OF UsbRemoveDevice_removes that ok _ max addr0]
      obtain S where S: "cut S st st1" "closed st S" "S \<subseteq> behind st 0 1"
        by auto
      then show ?thesis
        using cut_tree_ok [OF S(1) ok S(2)] cut_addr_keep [OF S(1) ok addr0] cutD(1) [OF S(1), of 0] by blast
    qed
    show ?thesis
      using run unfolding F
    proof (cases rule: UsbRemoveDevice_cases)
      case (children ret)
      then show ?thesis
        using kids by simp
    next
      case (config st1 st2 d)
      show ?thesis
        using same_tree_ok [OF mark_failed_same [OF config(5)] same_tree_ok [OF config_same [OF config(2)]]] kids [OF config(1)]
        by simp
    next
      case (all st1 st2 st3 d)
      have same: "same_tree st1 st2"
        by (rule config_same [OF all(2)])
      then have "tree_ok st2"
        using same_tree_ok kids [OF all(1)] by blast
      moreover have addr2: "addr_of st2 dv = Some 0"
        using same kids [OF all(1)] by (simp add: addr_of_key same_tree_def)
      moreover have "unat (dv_Address d) = 0"
        using addr2 all(4) by (simp add: addr_of_def)
      ultimately show ?thesis
        using free_root_device_ok [OF _ _ _ all(6)] all(5) by simp
    qed
  qed
qed

text \<open>A device that was just created has no address, and its parent is in its slot.\<close>

definition parent_of :: "'h usb_bus \<Rightarrow> ptr \<Rightarrow> nat option" where
  "parent_of st a = map_option (\<lambda>(x, p, q). unat p) (tkey st a)"

definition unplaced :: "ptr \<Rightarrow> 'h usb_bus \<Rightarrow> bool" where
  "unplaced dv st \<longleftrightarrow> tree_ok st \<and> addr_of st dv = Some 0 \<and>
     (\<forall>p. parent_of st dv = Some p \<longrightarrow> 0 < p \<longrightarrow> p < 256 \<and> ub_Devices st ! p \<noteq> None)"

lemma unplacedD:
  assumes "unplaced dv st"
  shows "tree_ok st" "addr_of st dv = Some 0"
    "parent_of st dv = Some p \<Longrightarrow> 0 < p \<Longrightarrow> p < 256" "parent_of st dv = Some p \<Longrightarrow> 0 < p \<Longrightarrow> ub_Devices st ! p \<noteq> None"
  using assms unfolding unplaced_def by blast+

lemma unplaced_same: "same_tree st st' \<Longrightarrow> unplaced dv st \<Longrightarrow> unplaced dv st'"
  using same_tree_ok [of st st'] by (simp add: unplaced_def same_tree_def addr_of_key parent_of_def)

lemma place_ok:
  assumes "unplaced dv st" "upd_dev dv (\<lambda>d. d\<lparr>dv_Address := of_nat addr\<rparr>) st = Some st1" "set_slot addr (Some dv) st1 = Some st2"
    "0 < addr" "addr < ub_MaxDevices st" "ub_Devices st ! addr = None"
  shows "tree_ok st2"
proof -
  note ok = unplacedD(1) [OF assms(1)]
  have addr: "addr < 256"
    using assms(5) tree_okD(3) [OF ok] by simp
  have free: "ub_Devices st ! j \<noteq> Some dv" if "0 < j" "j < 256" for j
    using tree_okD(5) [OF ok that] unplacedD(2) [OF assms(1)] that(1) by fastforce
  obtain d where d: "ub_dev st dv = Some d"
    using unplacedD(2) [OF assms(1)] by (auto simp: addr_of_def)
  define q where "q = unat (dv_ParentAddr d)"
  have parent: "parent_of st dv = Some q"
    using d by (simp add: parent_of_def tkey_def q_def)
  have st2: "st2 = st\<lparr>ub_dev := (ub_dev st)(dv \<mapsto> d\<lparr>dv_Address := of_nat addr\<rparr>), ub_Devices := (ub_Devices st)[addr := Some dv]\<rparr>"
    using assms(2,3) d by (auto simp: upd_dev_def set_slot_def wr_def split: if_splits)
  have small: "unat (of_nat addr :: byte) = addr"
    using addr by (simp add: unat_of_nat take_bit_nat_eq_self)
  have addr_dv: "addr_of st2 dv = Some addr"
    using small by (simp add: st2 addr_of_def)
  have addr_other: "addr_of st2 x = addr_of st x" if "x \<noteq> dv" for x
    using that by (simp add: st2 addr_of_def)
  have slot: "ub_Devices st2 ! j = (if j = addr then Some dv else ub_Devices st ! j)" if "j < 256" for j
    using that tree_okD(1) [OF ok] by (simp add: st2)
  have par: "par st2 j = (if j = addr then Some q else par st j)" for j
  proof (cases "0 < j \<and> j < ub_MaxDevices st")
    case True
    then have j: "0 < j" "j < 256"
      using tree_okD(3) [OF ok] by simp_all
    show ?thesis
    proof (cases "j = addr")
      case True
      then show ?thesis
        using slot [OF j(2)] assms(4,5) by (simp add: par_def) (simp add: st2 tkey_def q_def)
    next
      case False
      have "tkey st2 x = tkey st x" if "ub_Devices st ! j = Some x" for x
        using that free [OF j] by (auto simp: st2 tkey_def)
      then show ?thesis
        using slot [OF j(2)] False True by (auto simp: par_def split: option.split) (simp_all add: st2)
    qed
  qed (use assms(4,5) in \<open>auto simp: par_def st2\<close>)
  have lonely: "par st i \<noteq> Some addr" for i
    using tree_okD(9) [OF ok, of i addr] assms(4,6) by blast
  show ?thesis
  proof (rule tree_okI)
    show "addr_of st2 x = Some j" if "0 < j" "j < 256" "ub_Devices st2 ! j = Some x" for j x
    proof (cases "j = addr")
      case True
      then show ?thesis
        using that(3) slot [OF that(2)] addr_dv by simp
    next
      case False
      then have s: "ub_Devices st ! j = Some x"
        using that(3) slot [OF that(2)] by simp
      then have "x \<noteq> dv"
        using free [OF that(1,2)] by auto
      then show ?thesis
        using tree_okD(5) [OF ok that(1,2) s] addr_other by simp
    qed
    show "j < ub_MaxDevices st2 \<and> ub_Devices st2 ! j = Some x" if "addr_of st2 x = Some j" "0 < j" for x j
    proof (cases "x = dv")
      case True
      then show ?thesis
        using that(1) addr_dv assms(5) slot [OF addr] by (simp add: st2)
    next
      case False
      then have j: "addr_of st x = Some j"
        using that(1) addr_other by simp
      have "j \<noteq> addr"
        using tree_okD(7) [OF ok j that(2)] assms(6) by auto
      then show ?thesis
        using tree_okD(6,7) [OF ok j that(2)] slot [of j] tree_okD(3) [OF ok] by (simp add: st2)
    qed
    show "p < 256 \<and> ub_Devices st2 ! p \<noteq> None" if "par st2 i = Some p" "0 < p" for i p
    proof -
      have "p < 256" "ub_Devices st ! p \<noteq> None"
        using that par [of i] unplacedD(3,4) [OF assms(1) parent] tree_okD(8,9) [OF ok] by (auto split: if_splits)
      then show ?thesis
        using slot by simp
    qed
    show "rooted st2"
    proof -
      obtain rk :: "nat \<Rightarrow> nat" where rk: "\<forall>i p. par st i = Some p \<longrightarrow> rk p < rk i"
        using tree_okD(10) [OF ok] unfolding rooted_def by blast
      have "q \<noteq> addr"
        using unplacedD(4) [OF assms(1) parent] assms(4,6) by auto
      then have "\<forall>i p. par st2 i = Some p \<longrightarrow> (rk(addr := Suc (rk q))) p < (rk(addr := Suc (rk q))) i"
        using rk lonely par by auto
      then show ?thesis
        unfolding rooted_def by blast
    qed
    show "a < us_next (ub_desc st2)" if "ub_dev st2 a \<noteq> None" for a
      using that d tree_okD(4) [OF ok, of a] by (simp add: st2 split: if_splits)
  qed (use tree_okD(1-3) [OF ok] in \<open>simp_all add: st2\<close>)
qed

lemma address_device_ok:
  assumes "unplaced dv st" "0 < addr" "addr < ub_MaxDevices st" "ub_Devices st ! addr = None" "address_device env dv addr st = Some (s, st')"
  shows "tree_ok st' \<and> ub_Devices st' = (ub_Devices st)[addr := Some dv]"
proof -
  obtain s0 st1 st2 st3 where
    st1: "UsbSetAddress env dv (of_nat addr) st = Some (s0, st1)" and
    st2: "upd_dev dv (\<lambda>d. d\<lparr>dv_Address := of_nat addr\<rparr>) st1 = Some st2" and
    st3: "set_slot addr (Some dv) st2 = Some st3"
    using assms(5) unfolding address_device_def by (auto split: bind_splits prod.splits)
  have same: "same_tree st st1"
    by (rule keeps_sameD [OF same_tree.hub_requests_frame(12) [OF same_tree.R_refl] st1])
  then have "tree_ok st3"
    using place_ok [OF unplaced_same [OF same assms(1)] st2 st3 assms(2)] assms(3,4) same by (simp add: same_tree_def)
  moreover have "same_tree st3 st'"
  proof (rule keeps_sameD)
    show "keeps same_tree st3
      (if EFI_ERROR s0 then Some (s0, st3)
       else do {
         (s1, st4) \<leftarrow> UsbGetMaxPacketSize0 env dv st3;
         if EFI_ERROR s1 then Some (s1, st4)
         else do {
           (s2, st5) \<leftarrow> UsbBuildDescTable env dv st4;
           if EFI_ERROR s2 then Some (s2, st5)
           else do {
             d \<leftarrow> ub_dev st5 dv;
             a \<leftarrow> dv_DevDesc d;
             (case us_heap (ub_desc st5) a of
                Some (DevDesc raw cfgs) \<Rightarrow>
                  do {
                    arr \<leftarrow> cfgs;
                    p \<leftarrow> ptr_at arr 0 (ub_desc st5);
                    c \<leftarrow> p;
                    (craw, ifs) \<leftarrow> config_at c st5;
                    (s3, st6) \<leftarrow> UsbSetConfig env dv (ConfigurationValue craw) st5;
                    if EFI_ERROR s3 then Some (s3, st6)
                    else UsbSelectConfig env dv (ConfigurationValue craw) st6 }
              | _ \<Rightarrow> None) } } })"
      by (rule frame_rules same_tree.frame_steps)+
    show "\<dots> = Some (s, st')"
      using assms(5) st1 st2 st3 by (simp add: address_device_def)
  qed
  moreover have "ub_Devices st3 = (ub_Devices st)[addr := Some dv]"
    using st2 st3 same by (auto simp: upd_dev_def set_slot_def wr_def same_tree_def split: if_splits)
  ultimately show ?thesis
    using same_tree_ok [of st3 st'] by (simp add: same_tree_def)
qed

lemma next_same: "us_next (ub_desc st) \<le> us_next u \<Longrightarrow> same_tree st (st\<lparr>ub_desc := u\<rparr>)"
  by (rule same_tree.R_desc)

lemma UsbCreateDevice_ok:
  assumes "UsbCreateDevice env hub port st = Some (r, st')" "tree_ok st"
  shows "case r of None \<Rightarrow> tree_ok st' | Some dv \<Rightarrow> unplaced dv st'"
proof (cases "ue_pool env (us_next (ub_desc st))")
  case False
  then have "r = None" "st' = st\<lparr>ub_desc := (ub_desc st)\<lparr>us_next := us_next (ub_desc st) + 1\<rparr>\<rparr>"
    using assms(1) by (simp_all add: UsbCreateDevice_def new_num_def Let_def)
  then show ?thesis
    using same_tree_ok [OF next_same assms(2)] by simp
next
  case True
  define n where "n = us_next (ub_desc st)"
  obtain h p where hub: "ub_if st hub = Some h" and h: "ub_dev st (ui_Device h) = Some p"
    using assms(1) True by (auto simp: UsbCreateDevice_def new_num_def Let_def split: bind_splits)
  have r: "r = Some n" and run: "st' = st\<lparr>ub_desc := (ub_desc st)\<lparr>us_next := n + 1\<rparr>,
      ub_dev := (ub_dev st)(n \<mapsto> zero_device\<lparr>dv_MaxPacket0 := 8, dv_ParentAddr := dv_Address p, dv_ParentIf := Some hub,
        dv_ParentPort := port, dv_Tier := dv_Tier p + 1\<rparr>)\<rparr>"
    using assms(1) True hub h by (simp_all add: UsbCreateDevice_def new_num_def Let_def n_def)
  obtain d where st': "st' = st\<lparr>ub_desc := (ub_desc st)\<lparr>us_next := n + 1\<rparr>, ub_dev := (ub_dev st)(n \<mapsto> d)\<rparr>" and
    d: "dv_Address d = 0" "dv_ParentAddr d = dv_Address p"
    using run that by (simp add: zero_device_def)
  have fresh: "ub_dev st n = None"
    using tree_okD(4) [OF assms(2), of n] less_irrefl unfolding n_def by blast
  have ok: "tree_ok st'"
  proof (rule no_address_ok [OF assms(2)])
    show "a < us_next (ub_desc st')" if "ub_dev st' a \<noteq> None" for a
      using that tree_okD(4) [OF assms(2), of a] by (simp add: st' n_def less_SucI split: if_splits)
    show "tkey st' x = tkey st x" if "0 < i" "addr_of st x = Some i \<or> addr_of st' x = Some i" for x i
      using that fresh d(1) by (cases "x = n") (auto simp: st' tkey_def addr_of_def)
  qed (use tree_okD(1) [OF assms(2)] in \<open>simp_all add: st'\<close>)
  have "addr_of st (ui_Device h) = Some (unat (dv_Address p))"
    using h by (simp add: addr_of_def)
  then have "i < 256 \<and> ub_Devices st ! i \<noteq> None" if "parent_of st' n = Some i" "0 < i" for i
    using that tree_okD(6,7) [OF assms(2)] tree_okD(3) [OF assms(2)] d(2) by (fastforce simp: st' parent_of_def tkey_def)
  then show ?thesis
    using ok d(1) by (simp add: r unplaced_def) (simp add: st' addr_of_def)
qed

lemma UsbCreateDevice_slots:
  assumes "UsbCreateDevice env hub port st = Some (r, st')"
  shows "ub_Devices st' = ub_Devices st" "r = Some dv \<Longrightarrow> dv = us_next (ub_desc st)"
  using assms by (auto simp: UsbCreateDevice_def new_num_def Let_def split: prod.splits option.splits bind_splits if_splits)

lemma UsbCreateDevice_max: "UsbCreateDevice env hub port st = Some (r, st') \<Longrightarrow> ub_MaxDevices st' = ub_MaxDevices st"
  by (auto simp: UsbCreateDevice_def new_num_def Let_def split: prod.splits option.splits bind_splits if_splits)

lemma free_address_spec: "free_address k i st = Some a \<Longrightarrow> i \<le> a \<and> a \<le> i + k \<and> (a < i + k \<longrightarrow> ub_Devices st ! a = None) \<and>
    (\<forall>b. i \<le> b \<longrightarrow> b < a \<longrightarrow> ub_Devices st ! b \<noteq> None)"
proof (induction k arbitrary: i)
  case (Suc k)
  show ?case
  proof (cases "ub_Devices st ! i")
    case None
    then show ?thesis
      using Suc.prems by (auto simp: rd_def split: bind_splits if_splits)
  next
    case (Some x)
    then have "free_address k (Suc i) st = Some a"
      using Suc.prems by (auto simp: rd_def split: bind_splits if_splits)
    note IH = Suc.IH [OF this]
    have "ub_Devices st ! b \<noteq> None" if "i \<le> b" "b < a" for b
      using that IH Some by (cases "b = i") simp_all
    then show ?thesis
      using IH by simp
  qed
qed simp

text \<open>A new device gets the lowest free address, or none.\<close>

definition first_free :: "nat \<Rightarrow> 'h usb_bus \<Rightarrow> bool" where
  "first_free a st \<longleftrightarrow> 0 < a \<and> a < ub_MaxDevices st \<and> ub_Devices st ! a = None \<and> (\<forall>b. 0 < b \<longrightarrow> b < a \<longrightarrow> ub_Devices st ! b \<noteq> None)"

lemma UsbEnumerateNewDev_spec:
  assumes run: "UsbEnumerateNewDev env hub port reset st = Some (s, st')" and ok: "tree_ok st"
  shows "tree_ok st' \<and> (ub_Devices st' = ub_Devices st \<or>
    (\<exists>a dv. first_free a st \<and> ub_dev st dv = None \<and> ub_Devices st' = (ub_Devices st)[a := Some dv]))"
proof -
  obtain h s0 st1 where h: "ub_if st hub = Some h"
    and st1: "(if reset then api_ResetPort env hub port st else Some (EFI_SUCCESS, st)) = Some (s0, st1)"
    using run unfolding UsbEnumerateNewDev_def by (auto split: bind_splits prod.splits)
  have "keeps same_tree st (if reset then api_ResetPort env hub port st else Some (EFI_SUCCESS, st))"
    by (rule frame_rules same_tree.frame_steps)+
  then have same1: "same_tree st st1"
    using keeps_sameD [OF _ st1] by blast
  then have ok1: "tree_ok st1" and slots1: "ub_Devices st1 = ub_Devices st"
    using same_tree_ok [OF same1 ok] by (simp_all add: same_tree_def)
  show ?thesis
  proof (cases "EFI_ERROR s0")
    case True
    then show ?thesis
      using run h st1 ok1 slots1 by (simp add: UsbEnumerateNewDev_def)
  next
    case False
    then obtain r st2 where st2: "UsbCreateDevice env hub port st1 = Some (r, st2)"
      using run h st1 unfolding UsbEnumerateNewDev_def by (auto split: bind_splits prod.splits)
    note slots2 = UsbCreateDevice_slots [OF st2]
    show ?thesis
    proof (cases r)
      case None
      then show ?thesis
        using run h st1 False st2 UsbCreateDevice_ok [OF st2 ok1] slots1 slots2(1) by (simp add: UsbEnumerateNewDev_def)
    next
      case (Some dv)
      then have un2: "unplaced dv st2"
        using UsbCreateDevice_ok [OF st2 ok1] by simp
      obtain s1 status change st3 where st3: "api_GetPortStatus env hub port st2 = Some ((s1, status, change), st3)"
        using run h st1 False st2 Some unfolding UsbEnumerateNewDev_def by (auto split: bind_splits prod.splits)
      have fresh: "ub_dev st dv = None"
      proof -
        have "ub_dev st1 dv = None"
          using slots2(2) [OF Some] tree_okD(4) [OF ok1, of dv] by blast
        then show ?thesis
          using same1 tkey_None [of st dv] tkey_None [of st1 dv] by (simp add: same_tree_def)
      qed
      have same3: "same_tree st2 st3"
        by (rule keeps_sameD [OF same_tree.api_GetPortStatus_frame [OF same_tree.R_refl] st3])
      then have slots3: "ub_Devices st3 = ub_Devices st"
        using slots1 slots2(1) by (simp add: same_tree_def)
      from same3 have un3: "unplaced dv st3"
        using unplaced_same un2 by blast
      show ?thesis
      proof (cases "EFI_ERROR s1 \<or> \<not> bit status USB_PORT_STAT_CONNECTION")
        case True
        then have "st' = st3"
          using run h st1 False st2 Some st3 by (auto simp: UsbEnumerateNewDev_def split: if_splits)
        then show ?thesis
          using unplacedD(1) [OF un3] slots3 by simp
      next
        case go: False
        obtain f st4 addr where st4: "upd_dev dv f st3 = Some st4" and
          f: "\<And>d. dv_Address (f d) = dv_Address d" "\<And>d. dv_ParentAddr (f d) = dv_ParentAddr d"
            "\<And>d. dv_ParentPort (f d) = dv_ParentPort d"
          and addr: "free_address (ub_MaxDevices st4 - 1) 1 st4 = Some addr"
          and rest: "(if ub_MaxDevices st4 \<le> addr then Some (EFI_ACCESS_DENIED, st4) else address_device env dv addr st4) = Some (s, st')"
        proof -
          from go show ?thesis
            using run h st1 False st2 Some st3 that
            by (auto simp: UsbEnumerateNewDev_def Let_def split: bind_splits prod.splits)
        qed
        have same4: "same_tree st3 st4"
          by (rule keeps_st_sameD [OF same_tree.upd_dev_frame st4]) (simp_all add: f)
        then have slots4: "ub_Devices st4 = ub_Devices st" and max4: "ub_MaxDevices st4 = ub_MaxDevices st"
          using slots3 same3 same1 UsbCreateDevice_max [OF st2] by (simp_all add: same_tree_def)
        from same4 have un4: "unplaced dv st4"
          using unplaced_same un3 by blast
        have max: "0 < ub_MaxDevices st4"
          by (rule tree_okD(2) [OF unplacedD(1) [OF un4]])
        show ?thesis
        proof (cases "ub_MaxDevices st4 \<le> addr")
          case True
          then show ?thesis
            using rest unplacedD(1) [OF un4] slots4 by simp
        next
          case False
          then have "first_free addr st4"
            using free_address_spec [OF addr] max by (auto simp: first_free_def)
          then have "first_free addr st"
            by (simp add: first_free_def slots4 max4)
          moreover have "tree_ok st' \<and> ub_Devices st' = (ub_Devices st4)[addr := Some dv]"
            by (rule address_device_ok [OF un4]) (use \<open>first_free addr st4\<close> rest False in \<open>simp_all add: first_free_def\<close>)
          ultimately show ?thesis
            using fresh slots4 by auto
        qed
      qed
    qed
  qed
qed

lemma UsbEnumerateNewDev_ok: "keeps keeps_ok st (UsbEnumerateNewDev env hub port reset st)"
  unfolding keeps_def keeps_ok_def using UsbEnumerateNewDev_spec by blast

section \<open>Ports and hubs\<close>

lemmas same_rules =
  same_tree.api_GetPortStatus_frame [OF same_tree.R_refl, THEN ok_of_same]
  same_tree.api_ClearPortChange_frame [OF same_tree.R_refl, THEN ok_of_same_st]
  same_tree.UsbHubAckHubStatus_frame [OF same_tree.R_refl, THEN ok_of_same]
  same_tree.upd_if_frame [THEN ok_of_same_st]

lemma UsbEnumeratePort_ok: "keeps keeps_ok st (UsbEnumeratePort env hub port st)"
  unfolding UsbEnumeratePort_def by (rule same_rules UsbRemoveDevice_ok UsbEnumerateNewDev_ok ok.steps)+

lemma retry_removal_ok: "keeps_st keeps_ok st (retry_removal env hub port st)"
  unfolding retry_removal_def by (rule UsbRemoveDevice_ok ok.steps)+

lemma retry_loop_ok: "keeps_st keeps_ok st (retry_loop k i env hub st)"
proof (induction k arbitrary: i st)
  case (Suc k)
  show ?case
    unfolding retry_loop.simps by (rule Suc.IH retry_removal_ok ok.steps)+
qed (simp add: ok.keeps_ret ok.R_refl)

lemma enum_loop_ok: "keeps_st keeps_ok st (enum_loop k i env hub st)"
proof (induction k arbitrary: i st)
  case (Suc k)
  show ?case
    unfolding enum_loop.simps by (rule Suc.IH UsbEnumeratePort_ok ok.steps)+
qed (simp add: ok.keeps_ret ok.R_refl)

lemma UsbHubEnumeration_ok: "keeps_st keeps_ok st (UsbHubEnumeration env hub st)"
  unfolding UsbHubEnumeration_def by (rule same_rules retry_loop_ok enum_loop_ok ok.steps)+

lemma root_enum_loop_ok: "keeps_st keeps_ok st (root_enum_loop k i env hub st)"
proof (induction k arbitrary: i st)
  case (Suc k)
  show ?case
    unfolding root_enum_loop.simps by (rule Suc.IH retry_removal_ok UsbEnumeratePort_ok ok.steps)+
qed (simp add: ok.keeps_ret ok.R_refl)

lemma UsbRootHubEnumeration_ok: "keeps_st keeps_ok st (UsbRootHubEnumeration env hub st)"
  unfolding UsbRootHubEnumeration_def by (rule root_enum_loop_ok ok.steps)+

section \<open>The reset of a port\<close>

text \<open>The address is zero only while the device is given it again.\<close>

lemma address_restored:
  assumes "ub_dev st dv = Some d" "same_tree st st2" "upd_dev dv (\<lambda>d. d\<lparr>dv_Address := 0\<rparr>) st2 = Some st3"
    "same_tree st3 st4" "upd_dev dv (\<lambda>e. e\<lparr>dv_Address := dv_Address d\<rparr>) st4 = Some st5"
  shows "same_tree st st5"
proof -
  obtain d2 where d2: "ub_dev st2 dv = Some d2" "st3 = st2\<lparr>ub_dev := (ub_dev st2)(dv \<mapsto> d2\<lparr>dv_Address := 0\<rparr>)\<rparr>"
    using assms(3) by (auto simp: upd_dev_def)
  obtain d4 where d4: "ub_dev st4 dv = Some d4" "st5 = st4\<lparr>ub_dev := (ub_dev st4)(dv \<mapsto> d4\<lparr>dv_Address := dv_Address d\<rparr>)\<rparr>"
    using assms(5) by (auto simp: upd_dev_def)
  have t2: "tkey st2 x = tkey st x" and t4: "tkey st4 x = tkey st3 x" for x
    using assms(2,4) by (simp_all add: same_tree_def)
  have "tkey st5 x = tkey st x" for x
  proof (cases "x = dv")
    case True
    then show ?thesis
      using t2 [of dv] t4 [of dv] assms(1) d2 d4 by (simp add: tkey_def)
  next
    case False
    then show ?thesis
      using t2 [of x] t4 [of x] d2(2) d4(2) by (simp add: tkey_def)
  qed
  then show ?thesis
    using assms(2,4) d2(2) d4(2) by (auto simp: same_tree_def)
qed

lemma UsbIoPortReset_same: "keeps same_tree st (UsbIoPortReset env uif st)"
  unfolding keeps_def
proof (intro allI impI)
  fix s st'
  assume run: "UsbIoPortReset env uif st = Some (s, st')"
  obtain u d where u: "ub_if st uif = Some u" and d: "ub_dev st (ui_Device u) = Some d"
    using run by (auto simp: UsbIoPortReset_def split: bind_splits)
  show "same_tree st st'"
  proof (cases "ui_IsHub u")
    case True
    then show ?thesis
      using run u d by (simp add: UsbIoPortReset_def same_tree.R_refl)
  next
    case False
    obtain hub s0 st1 where hub: "dv_ParentIf d = Some hub" and st1: "api_ResetPort env hub (dv_ParentPort d) st = Some (s0, st1)"
      using run u d False by (auto simp: UsbIoPortReset_def split: bind_splits prod.splits)
    have same1: "same_tree st st1"
      by (rule keeps_sameD [OF same_tree.api_ResetPort_frame [OF same_tree.R_refl] st1])
    show ?thesis
    proof (cases "EFI_ERROR s0")
      case True
      then show ?thesis
        using run u d False hub st1 same1 by (simp add: UsbIoPortReset_def)
    next
      case go: False
      obtain st2 st3 s1 st4 st5 where
        st2: "api_ClearPortChange env hub (dv_ParentPort d) st1 = Some st2" and
        st3: "upd_dev (ui_Device u) (\<lambda>d. d\<lparr>dv_Address := 0\<rparr>) st2 = Some st3" and
        st4: "UsbSetAddress env (ui_Device u) (dv_Address d) st3 = Some (s1, st4)" and
        st5: "upd_dev (ui_Device u) (\<lambda>e. e\<lparr>dv_Address := dv_Address d\<rparr>) st4 = Some st5" and
        rest: "(if EFI_ERROR s1 then Some (s1, st5)
           else do {
             act \<leftarrow> active_value d st5;
             (case act of None \<Rightarrow> Some (s1, st5) | Some c \<Rightarrow> UsbSetConfig env (ui_Device u) c st5) }) = Some (s, st')"
        using run u d False hub st1 go by (auto simp: UsbIoPortReset_def split: bind_splits prod.splits)
      have "same_tree st st2"
        using same_tree.R_trans [OF same1 keeps_st_sameD [OF same_tree.api_ClearPortChange_frame [OF same_tree.R_refl] st2]] .
      moreover have "same_tree st3 st4"
        by (rule keeps_sameD [OF same_tree.hub_requests_frame(12) [OF same_tree.R_refl] st4])
      ultimately have same5: "same_tree st st5"
        using address_restored [OF d _ st3 _ st5] by blast
      have "keeps same_tree st5 (if EFI_ERROR s1 then Some (s1, st5)
           else do {
             act \<leftarrow> active_value d st5;
             (case act of None \<Rightarrow> Some (s1, st5) | Some c \<Rightarrow> UsbSetConfig env (ui_Device u) c st5) })"
        by (rule frame_rules same_tree.frame_steps)+
      from same_tree.R_trans [OF same5 keeps_sameD [OF this rest]] show ?thesis .
    qed
  qed
qed

section \<open>Stopping\<close>

lemma ext_ok: "keeps_ok st (snd (ext f st))"
  unfolding keeps_ok_def using same_tree_ok [OF same_tree.R_upd(6) [OF same_tree.R_refl]] by blast

lemma stop_handles_ok: "keeps keeps_ok st (stop_handles hs env ret st)"
proof (induction hs arbitrary: ret st)
  case (Cons h hs)
  show ?case
    unfolding stop_handles.simps by (rule Cons.IH UsbRemoveDevice_ok ext_ok ok.steps)+
qed (simp add: ok.keeps_ret ok.R_refl)

lemma cut_empty_slot: "cut S st st' \<Longrightarrow> j < 256 \<Longrightarrow> ub_Devices st ! j = None \<Longrightarrow> ub_Devices st' ! j = None"
  by (simp add: cutD(5))

lemma stop_devices_cuts:
  assumes "stop_devices k i env status ret st = Some ((status', ret'), st')" "tree_ok st" "0 < i" "i + k \<le> 256"
  shows "\<exists>S. cut S st st' \<and> closed st S \<and>
    (ret' = EFI_SUCCESS \<longrightarrow> ret = EFI_SUCCESS \<and> (\<forall>j. i \<le> j \<longrightarrow> j < i + k \<longrightarrow> ub_Devices st' ! j = None))"
  using assms
proof (induction k arbitrary: i status ret st)
  case 0
  then show ?case
    using cut_same [OF same_tree.R_refl, of st] closed_empty by auto
next
  case (Suc k)
  have i: "i < 256" "Suc i + k \<le> 256" "i < length (ub_Devices st)"
    using Suc.prems(4) tree_okD(1) [OF Suc.prems(2)] by simp_all
  have split: "j = i \<or> Suc i \<le> j" if "i \<le> j" for j
    using that by auto
  show ?case
  proof (cases "ub_Devices st ! i")
    case None
    then have step: "stop_devices k (Suc i) env status ret st = Some ((status', ret'), st')"
      using Suc.prems(1) i by simp
    obtain S where S: "cut S st st'" "closed st S"
      "ret' = EFI_SUCCESS \<longrightarrow> ret = EFI_SUCCESS \<and> (\<forall>j. Suc i \<le> j \<longrightarrow> j < Suc i + k \<longrightarrow> ub_Devices st' ! j = None)"
      using Suc.IH [OF step Suc.prems(2) _ i(2)] by auto
    then show ?thesis
      using cut_empty_slot [OF S(1) i(1) None] split by (intro exI [of _ S]) auto
  next
    case (Some dv)
    then obtain s st1 where rm: "UsbRemoveDevice (Suc (ub_MaxDevices st)) env dv st = Some (s, st1)"
      and step: "stop_devices k (Suc i) env s (if EFI_ERROR s then s else ret) st1 = Some ((status', ret'), st')"
      using Suc.prems(1) i by (auto simp del: UsbRemoveDevice.simps split: bind_splits prod.splits)
    have addr: "addr_of st dv = Some i"
      by (rule tree_okD(5) [OF Suc.prems(2,3) i(1) Some])
    obtain S where S: "cut S st st1" "closed st S" "s = EFI_SUCCESS \<longrightarrow> S = {x. reaches st i x}"
      by (rule removesD [OF UsbRemoveDevice_removes Suc.prems(2,3) addr rm])
    obtain T where T: "cut T st1 st'" "closed st1 T"
      "ret' = EFI_SUCCESS \<longrightarrow> (if EFI_ERROR s then s else ret) = EFI_SUCCESS \<and>
        (\<forall>j. Suc i \<le> j \<longrightarrow> j < Suc i + k \<longrightarrow> ub_Devices st' ! j = None)"
      using Suc.IH [OF step cut_tree_ok [OF S(1) Suc.prems(2) S(2)] _ i(2)] by auto
    have "s = EFI_SUCCESS \<and> ret = EFI_SUCCESS" if "ret' = EFI_SUCCESS"
      using T(3) that by (auto simp: EFI_ERROR_def split: if_splits)
    moreover have "ub_Devices st' ! i = None" if "s = EFI_SUCCESS"
    proof -
      have "ub_Devices st1 ! i = None"
        using S(3) that i(1) by (simp add: cutD(5) [OF S(1)] reaches.here)
      then show ?thesis
        by (rule cut_empty_slot [OF T(1) i(1)])
    qed
    ultimately show ?thesis
      using cut_trans [OF S(1) T(1)] closed_union [OF S(1) Suc.prems(2) S(2) T(2)] T(3) split
      by (intro exI [of _ "S \<union> T"]) auto
  qed
qed

section \<open>Starting\<close>

lemma bare_ok:
  assumes "ub_dev st = Map.empty" "ub_Devices st = replicate 256 None" "0 < ub_MaxDevices st" "ub_MaxDevices st \<le> 256"
  shows "tree_ok st"
proof -
  have "par st i = None" for i
    using assms by (simp add: par_def)
  then show ?thesis
    using assms by (intro tree_okI) (simp_all add: addr_of_def rooted_def)
qed

lemma add_root_ok:
  assumes "tree_ok st" "new_num env st = (Some dv, st1)"
  shows "tree_ok (st1\<lparr>ub_dev := (ub_dev st1)(dv \<mapsto> zero_device)\<rparr>)" "addr_of (st1\<lparr>ub_dev := (ub_dev st1)(dv \<mapsto> zero_device)\<rparr>) dv = Some 0"
proof -
  define n where "n = us_next (ub_desc st)"
  have st1: "dv = n" "st1 = st\<lparr>ub_desc := (ub_desc st)\<lparr>us_next := n + 1\<rparr>\<rparr>"
    using assms(2) by (auto simp: new_num_def Let_def n_def split: if_splits)
  have fresh: "ub_dev st n = None"
    using tree_okD(4) [OF assms(1), of n] less_irrefl unfolding n_def by blast
  show "tree_ok (st1\<lparr>ub_dev := (ub_dev st1)(dv \<mapsto> zero_device)\<rparr>)" (is "tree_ok ?st")
  proof (rule no_address_ok [OF assms(1)])
    show "a < us_next (ub_desc ?st)" if "ub_dev ?st a \<noteq> None" for a
      using that tree_okD(4) [OF assms(1), of a] by (simp add: st1 n_def less_SucI split: if_splits)
    show "tkey ?st x = tkey st x" if "0 < i" "addr_of st x = Some i \<or> addr_of ?st x = Some i" for x i
      using that fresh by (cases "x = n") (auto simp: st1 tkey_def addr_of_def zero_device_def)
  qed (use tree_okD(1) [OF assms(1)] in \<open>simp_all add: st1\<close>)
  show "addr_of ?st dv = Some 0"
    by (simp add: addr_of_def zero_device_def)
qed

lemma root_slot_ok:
  assumes "tree_ok st" "set_slot 0 (Some dv) st = Some st'"
  shows "tree_ok st'"
proof -
  have st': "st' = st\<lparr>ub_Devices := (ub_Devices st)[0 := Some dv]\<rparr>"
    using assms(2) by (auto simp: set_slot_def wr_def split: if_splits)
  show ?thesis
    by (rule no_address_ok [OF assms(1)]) (use tree_okD(1,4) [OF assms(1)] in \<open>simp_all add: st' tkey_def\<close>)
qed

lemma start_root_ok:
  assumes "start_root env ctl st = Some (EFI_SUCCESS, st')" "tree_ok st"
  shows "tree_ok st'"
proof -
  obtain dv st1 where st1: "new_num env st = (Some dv, st1)"
    using assms(1) by (auto simp: start_root_def split: prod.splits option.splits)
  define st2 where "st2 = st1\<lparr>ub_dev := (ub_dev st1)(dv \<mapsto> zero_device)\<rparr>"
  have ok2: "tree_ok st2"
    unfolding st2_def by (rule add_root_ok [OF assms(2) st1])
  obtain uif st3 where st3: "new_num env st2 = (Some uif, st3)"
    using assms(1) st1 by (auto simp: start_root_def Let_def st2_def [symmetric] split: prod.splits option.splits bind_splits)
  have same3: "same_tree st2 st3"
    using same_tree.R_upd(7) [OF same_tree.R_refl, of st2 env] st3 by simp
  define st3' where "st3' = st3\<lparr>ub_if := (ub_if st3)(uif \<mapsto> (zero_interface dv)\<lparr>ui_DevicePath := Some (ub_DevicePath st3)\<rparr>)\<rparr>"
  have same3': "same_tree st2 st3'"
    unfolding st3'_def by (rule same_tree.R_upd(3) [OF same3])
  obtain st4 s st5 where
    st4: "upd_dev dv (\<lambda>d. d\<lparr>dv_NumOfInterface := 1, dv_Interfaces := (dv_Interfaces d)[0 := Some uif], dv_Tier := 0\<rparr>) st3' = Some st4" and
    st5: "UsbRootHubInit env uif st4 = Some (s, st5)" and
    rest: "(if EFI_ERROR s then do { st6 \<leftarrow> free_root (Some uif) dv st5; Some (s, uninstall_bus env ctl st6) }
      else do { st6 \<leftarrow> set_slot 0 (Some dv) st5; Some (EFI_SUCCESS, st6) }) = Some (EFI_SUCCESS, st')"
    using assms(1) st1 st3 by (auto simp: start_root_def Let_def st2_def [symmetric] st3'_def [symmetric] split: bind_splits prod.splits)
  have "same_tree st3' st4"
    by (rule keeps_st_sameD [OF same_tree.upd_dev_frame st4]) simp_all
  moreover have "same_tree st4 st5"
    by (rule keeps_sameD [OF same_tree.UsbRootHubInit_frame [OF same_tree.R_refl] st5])
  ultimately have "tree_ok st5"
    using same_tree_ok ok2 same3' by blast
  moreover have "\<not> EFI_ERROR s"
    using rest by (auto simp: EFI_ERROR_def split: if_splits bind_splits)
  ultimately show ?thesis
    using rest root_slot_ok by (auto split: bind_splits)
qed

lemma ext_fields: "ext f st = (r, st') \<Longrightarrow> \<exists>h. st' = st\<lparr>ub_ext := h\<rparr>"
  by (auto simp: ext_def split: prod.splits)

lemma ext_keeps:
  assumes "ext f st = (r, st')"
  shows "ub_dev st' = ub_dev st" "ub_Devices st' = ub_Devices st" "ub_MaxDevices st' = ub_MaxDevices st"
  using ext_fields [OF assms] by auto

lemma UsbBusBuildProtocol_ok:
  assumes "UsbBusBuildProtocol env ctl path rem st = Some (EFI_SUCCESS, st')" "ub_dev st = Map.empty"
  shows "tree_ok st'"
proof -
  obtain b st1 where st1: "new_num env st = (Some b, st1)"
    using assms(1) by (auto simp: UsbBusBuildProtocol_def split: prod.splits option.splits)
  obtain s f st2 where st2: "ext (bs_OpenProtocol env ctl DevicePathProto ByDriver) (new_bus ctl path st1) = ((s, f), st2)"
    by (metis prod.exhaust)
  obtain s1 f1 st3 where st3: "ext (bs_OpenProtocol env ctl Usb2HcProto ByDriver) st2 = ((s1, f1), st3)"
    by (metis prod.exhaust)
  obtain s2 f2 st4 where st4: "ext (bs_OpenProtocol env ctl UsbHcProto ByDriver) st3 = ((s2, f2), st4)"
    by (metis prod.exhaust)
  define st5 where "st5 = st4\<lparr>ub_Usb2Hc := f1, ub_UsbHc := f2\<rparr>"
  define st6 where "st6 = (if \<not> EFI_ERROR s1 \<and> hc2_MajorRevision (ue_usb2hc env) = 3 then st5\<lparr>ub_MaxDevices := 256\<rparr> else st5)"
  obtain s3 st7 where st7: "ext (bs_InstallBus env ctl) st6 = (s3, st7)"
    by (metis prod.exhaust)
  note run = assms(1) [unfolded UsbBusBuildProtocol_def, simplified st1 st2 Let_def prod.case option.case, simplified st3 st4 prod.case,
      folded st5_def, folded st6_def, simplified st7 prod.case]
  have e: "\<not> EFI_ERROR s" "\<not> (EFI_ERROR s1 \<and> EFI_ERROR s2)" "\<not> EFI_ERROR s3"
    using run by (auto simp: EFI_ERROR_def split: if_splits)
  obtain s4 st8 where st8: "UsbBusAddWantedUsbIoDP env rem st7 = Some (s4, st8)" and root: "start_root env ctl st8 = Some (EFI_SUCCESS, st')"
    using run e by (auto split: bind_splits prod.splits)
  note keep = ext_keeps [OF st2] ext_keeps [OF st3] ext_keeps [OF st4] ext_keeps [OF st7]
  have st1': "ub_dev st1 = Map.empty"
    using st1 assms(2) by (auto simp: new_num_def Let_def split: if_splits)
  have "tree_ok st7"
    by (rule bare_ok) (simp_all add: keep st6_def st5_def st1' new_bus_def USB_MAX_DEVICES_def)
  then have "tree_ok st8"
    using same_tree_ok [OF keeps_sameD [OF same_tree.UsbBusAddWantedUsbIoDP_frame [OF same_tree.R_refl] st8]] by blast
  then show ?thesis
    by (rule start_root_ok [OF root])
qed

end
