(* ===== verification/UsbBusFacts.thy ===== *)
theory UsbBusFacts
  imports UsbOk
begin

text \<open>
  The life of a bus: the fuel of a removal, what a stop leaves, the steps of the outside (\<open>usb_step\<close>) and the states
  that they reach, a small bus on which the properties are tried, and the properties.
\<close>

section \<open>The fuel of a removal\<close>

lemma reaches_bound: "reaches st a x \<Longrightarrow> x = a \<or> 0 < x \<and> x < ub_MaxDevices st"
  by (induction rule: reaches.induct) (auto simp: par_def split: if_splits)

lemma reaches_finite: "finite {x. reaches st a x}"
proof (rule finite_subset)
  show "{x. reaches st a x} \<subseteq> insert a {..<ub_MaxDevices st}"
    using reaches_bound by blast
qed simp

lemma reaches_card: "addr_of st dv = Some a \<Longrightarrow> tree_ok st \<Longrightarrow> card {x. reaches st a x} \<le> ub_MaxDevices st"
proof -
  assume addr: "addr_of st dv = Some a" and ok: "tree_ok st"
  have "a < ub_MaxDevices st"
    using tree_okD(2,6) [OF ok] addr by (cases "a = 0") auto
  then have "{x. reaches st a x} \<subseteq> {..<ub_MaxDevices st}"
    using reaches_bound by blast
  then show ?thesis
    using card_mono [of "{..<ub_MaxDevices st}"] by simp
qed

lemma child_smaller:
  assumes "tree_ok st" "par st i = Some a"
  shows "card {x. reaches st i x} < card {x. reaches st a x}"
proof (rule psubset_card_mono [OF reaches_finite])
  have "a \<in> {x. reaches st a x}" "a \<notin> {x. reaches st i x}"
    using rooted_no_cycle [OF tree_okD(10) [OF assms(1)] assms(2)] by (simp_all add: reaches.here)
  then show "{x. reaches st i x} \<subset> {x. reaches st a x}"
    using reaches_up [OF assms(2)] by blast
qed

lemma cut_smaller: "cut S st st' \<Longrightarrow> tree_ok st \<Longrightarrow> card {x. reaches st' a x} \<le> card {x. reaches st a x}"
  by (rule card_mono [OF reaches_finite]) (use reaches_cut_mono in blast)

lemma remove_children_cong:
  assumes rm: "removes rm"
    and same: "\<And>c st i. tree_ok st \<Longrightarrow> 0 < i \<Longrightarrow> addr_of st c = Some i \<Longrightarrow> card {x. reaches st i x} \<le> n \<Longrightarrow> rm c st = rm' c st"
  shows "tree_ok st \<Longrightarrow> 0 < i \<Longrightarrow> i + k = ub_MaxDevices st \<Longrightarrow> addr_of st dv = Some a \<Longrightarrow> card {x. reaches st a x} \<le> Suc n \<Longrightarrow>
    remove_children rm k i dv ret st = remove_children rm' k i dv ret st"
proof (induction k arbitrary: i ret st)
  case (Suc k)
  have len: "length (ub_Devices st) = 256" "i < 256" "Suc i + k = ub_MaxDevices st"
    using tree_okD(1-3) [OF Suc.prems(1)] Suc.prems by simp_all
  have next_eq: "remove_children rm k (Suc i) dv r st = remove_children rm' k (Suc i) dv r st" for r
    using Suc.IH [of st "Suc i" r] Suc.prems len by simp
  obtain d where d: "ub_dev st dv = Some d" "unat (dv_Address d) = a"
    using addr_alive [OF Suc.prems(4)] by blast
  show ?case
  proof (cases "ub_Devices st ! i")
    case None
    then show ?thesis
      using next_eq len by simp
  next
    case (Some c)
    have addr_c: "addr_of st c = Some i"
      by (rule tree_okD(5) [OF Suc.prems(1,2) len(2) Some])
    obtain cd where cd: "ub_dev st c = Some cd"
      using addr_alive [OF addr_c] by blast
    note slot_c = Some
    show ?thesis
    proof (cases "dv_ParentAddr cd = dv_Address d")
      case False
      then show ?thesis
        using next_eq len Some cd d by simp
    next
      case True
      have pa: "par st i = Some a"
        using Some cd d True Suc.prems len by (simp add: par_def tkey_def)
      have "card {x. reaches st i x} \<le> n"
        using child_smaller [OF Suc.prems(1) pa] Suc.prems(5) by simp
      then have rm_eq: "rm c st = rm' c st"
        by (rule same [OF Suc.prems(1,2) addr_c])
      show ?thesis
      proof (cases "rm' c st")
        case None
        then show ?thesis
          using len Some cd d True rm_eq by simp
      next
        case (Some p)
        then obtain s1 st1 where res: "rm' c st = Some (s1, st1)" "rm c st = Some (s1, st1)"
          using rm_eq by (cases p) simp
        obtain S where S: "cut S st st1" "closed st S" "S \<subseteq> {x. reaches st i x}" "s1 = EFI_SUCCESS \<longrightarrow> S = {x. reaches st i x}"
          by (rule removesD [OF rm Suc.prems(1,2) addr_c res(2)])
        have "a \<notin> S"
          using S(3) rooted_no_cycle [OF tree_okD(10) [OF Suc.prems(1)] pa] by blast
        then have after1: "tree_ok st1" "addr_of st1 dv = Some a" "Suc i + k = ub_MaxDevices st1"
            "card {x. reaches st1 a x} \<le> Suc n"
          using cut_tree_ok [OF S(1) Suc.prems(1) S(2)] cut_addr_keep [OF S(1) Suc.prems(1,4)] len
            order_trans [OF cut_smaller [OF S(1) Suc.prems(1)] Suc.prems(5)] by (simp_all add: cutD(2) [OF S(1)])
        have step: "remove_children rm k (Suc i) dv r st2 = remove_children rm' k (Suc i) dv r st2"
          if "cut {} st1 st2" for r st2
        proof (rule Suc.IH)
          show "tree_ok st2" "addr_of st2 dv = Some a" "Suc i + k = ub_MaxDevices st2" "card {x. reaches st2 a x} \<le> Suc n"
            using cut_tree_ok [OF that after1(1) closed_empty] cut_addr_keep [OF that after1(1,2)] after1(3)
              order_trans [OF cut_smaller [OF that after1(1)] after1(4)] by (simp_all add: cutD(2) [OF that])
        qed simp
        show ?thesis
        proof (cases "s1 = EFI_SUCCESS")
          case False
          have "Option.bind (mark_failed i st1) (\<lambda>st2. remove_children rm k (i + 1) dv s1 st2) =
              Option.bind (mark_failed i st1) (\<lambda>st2. remove_children rm' k (i + 1) dv s1 st2)"
          proof (cases "mark_failed i st1")
            case (Some st2)
            then show ?thesis
              using step [OF cut_same [OF mark_failed_same [OF Some]], of s1] by simp
          qed simp
          then show ?thesis
            using len slot_c cd d True res False by (simp add: EFI_ERROR_def)
        next
          case ok: True
          have empty: "ub_Devices st1 ! i = None"
            using S(4) ok len by (simp add: cutD(5) [OF S(1)] reaches.here)
          have "Option.bind (set_slot i None st1) (\<lambda>st2. remove_children rm k (i + 1) dv ret st2) =
              Option.bind (set_slot i None st1) (\<lambda>st2. remove_children rm' k (i + 1) dv ret st2)"
          proof (cases "set_slot i None st1")
            case (Some st2)
            then show ?thesis
              using step [OF cut_same [OF same_tree.R_refl], of ret] set_slot_same [OF Some empty] by simp
          qed simp
          then show ?thesis
            using len slot_c cd d True res ok by simp
        qed
      qed
    qed
  qed
qed simp

lemma UsbRemoveDevice_fuel:
  "tree_ok st \<Longrightarrow> addr_of st dv = Some a \<Longrightarrow> card {x. reaches st a x} \<le> F \<Longrightarrow>
    UsbRemoveDevice F env dv st = UsbRemoveDevice (F + k) env dv st"
proof (induction F arbitrary: st dv a)
  case 0
  have "a \<in> {x. reaches st a x}"
    by (simp add: reaches.here)
  then show ?case
    using 0(3) reaches_finite [of st a] by auto
next
  case (Suc F)
  have "remove_children (UsbRemoveDevice F env) (ub_MaxDevices st - 1) 1 dv EFI_SUCCESS st =
      remove_children (UsbRemoveDevice (F + k) env) (ub_MaxDevices st - 1) 1 dv EFI_SUCCESS st"
  proof (rule remove_children_cong [OF UsbRemoveDevice_removes])
    show "1 + (ub_MaxDevices st - 1) = ub_MaxDevices st"
      using tree_okD(2) [OF Suc.prems(1)] by simp
    show "UsbRemoveDevice F env c s = UsbRemoveDevice (F + k) env c s"
      if "tree_ok s" "0 < i" "addr_of s c = Some i" "card {x. reaches s i x} \<le> F" for c s i
      by (rule Suc.IH [OF that(1,3,4)])
  qed (use Suc.prems in simp_all)
  then show ?case
    by simp
qed

section \<open>Stopping the whole bus\<close>

definition no_devices :: "'h usb_bus \<Rightarrow> bool" where
  "no_devices st \<longleftrightarrow> (\<forall>i. 0 < i \<longrightarrow> i < 256 \<longrightarrow> ub_Devices st ! i = None) \<and> (\<forall>a i. addr_of st a = Some i \<longrightarrow> i = 0)"

lemma ext_no_devices: "no_devices (snd (ext f st)) = no_devices st"
  by (simp add: no_devices_def ext_def addr_of_def split: prod.split)

lemma close_bus_no_devices: "no_devices (snd (close_bus env ctl st)) = no_devices st"
proof -
  have e: "no_devices st' = no_devices st" if "ext f st = (r, st')" for f :: "'h \<Rightarrow> 'b \<times> 'h" and r and st st' :: "'h usb_bus"
    using ext_no_devices [of f st] that by simp
  show ?thesis
    unfolding close_bus_def Let_def by (auto simp: ext_no_devices dest!: e split: prod.splits if_splits)
qed

lemma free_root_no_devices: "free_root rootif dv st = Some st' \<Longrightarrow> no_devices st \<Longrightarrow> no_devices st'"
  by (auto simp: free_root_def no_devices_def addr_of_def drop_if_def split: option.splits if_splits bind_splits) metis+

text \<open>Of the devices in memory, those in a slot are gone and the others are still there.\<close>

definition emptied :: "'h usb_bus \<Rightarrow> 'h usb_bus \<Rightarrow> bool" where
  "emptied st st' \<longleftrightarrow> (\<forall>x. ub_dev st' x = None \<longleftrightarrow> ub_dev st x = None \<or> (\<exists>i < 256. ub_Devices st ! i = Some x))"

lemma ext_dev: "ext f st = (r, st') \<Longrightarrow> ub_dev st' = ub_dev st \<and> ub_Devices st' = ub_Devices st"
  by (auto simp: ext_def split: prod.splits)

lemma close_bus_dev: "ub_dev (snd (close_bus env ctl st)) = ub_dev st"
proof -
  have e: "ub_dev (snd (ext f st)) = ub_dev st" for f :: "'h \<Rightarrow> 'b \<times> 'h" and st :: "'h usb_bus"
    by (simp add: ext_def split: prod.split)
  show ?thesis
    unfolding close_bus_def Let_def by (auto simp: e dest!: ext_dev split: prod.splits if_splits)
qed

lemma free_root_dev: "free_root rootif dv st = Some st' \<Longrightarrow> ub_dev st' x = None \<longleftrightarrow> x = dv \<or> ub_dev st x = None"
  by (auto simp: free_root_def drop_if_def split: option.splits if_splits bind_splits)

lemma emptied_by_cut:
  assumes "cut S st st2" "\<And>i. 0 < i \<Longrightarrow> i < 256 \<Longrightarrow> ub_Devices st2 ! i = None" "ub_Devices st ! 0 = Some root"
    and "\<And>x. ub_dev st' x = None \<longleftrightarrow> x = root \<or> ub_dev st2 x = None"
  shows "emptied st st'"
proof -
  have in_S: "i \<in> S" if "0 < i" "i < 256" "ub_Devices st ! i = Some x" for i x
    using assms(2) [OF that(1,2)] cutD(5) [OF assms(1) that(2)] that(3) by (simp split: if_splits)
  have "ub_dev st2 x = None \<longleftrightarrow> ub_dev st x = None \<or> (\<exists>i \<in> S. ub_Devices st ! i = Some x)" for x
    using cutD(6) [OF assms(1), of x] tkey_None [of st2 x] tkey_None [of st x] by (auto split: if_splits)
  then show ?thesis
    unfolding emptied_def assms(4) using in_S cutD(1) [OF assms(1)] assms(3)
    by (metis gr0I option.inject zero_less_numeral)
qed

lemma UsbBusControllerDriverStop_cases:
  assumes "UsbBusControllerDriverStop env ctl [] st = Some ((s, b), st')" "tree_ok st"
  shows "b \<and> tree_ok st' \<or> no_devices st' \<and> emptied st st'"
proof -
  obtain s0 f st1 where st1: "ext (bs_OpenProtocol env ctl UsbBusProto GetProtocol) st = ((s0, f), st1)"
    by (metis prod.exhaust)
  have ok1: "tree_ok st1"
    using ext_ok [of st "bs_OpenProtocol env ctl UsbBusProto GetProtocol"] st1 assms(2) by (simp add: keeps_ok_def)
  note run = assms(1) [unfolded UsbBusControllerDriverStop_def, simplified st1 Let_def prod.case]
  show ?thesis
  proof (cases "EFI_ERROR s0")
    case True
    then show ?thesis
      using run ok1 by simp
  next
    case False
    obtain roothub rootif status ret st2 where
      root: "rd (ub_Devices st1) 0 = Some (Some roothub)" and
      st2: "stop_devices (ub_MaxDevices st1 - 1) 1 env s0 EFI_SUCCESS st1 = Some ((status, ret), st2)" and
      rest: "(if EFI_ERROR ret then Some ((status, True), st2)
           else do {
             (s1, st3) \<leftarrow> UsbRootHubRelease env rootif st2;
             st4 \<leftarrow> free_root (Some rootif) roothub st3;
             Some (close_bus env ctl (snd (UsbBusFreeUsbDPList st4))) }) = Some ((s, b), st')"
      using run False by (auto split: bind_splits prod.splits)
    have slot0: "ub_Devices st1 ! 0 = Some roothub"
      using root by (simp add: rd_def split: if_splits)
    have max: "1 + (ub_MaxDevices st1 - 1) \<le> 256"
      using tree_okD(2,3) [OF ok1] by simp
    obtain S where S: "cut S st1 st2" "closed st1 S"
      "ret = EFI_SUCCESS \<longrightarrow> (\<forall>j. 1 \<le> j \<longrightarrow> j < ub_MaxDevices st1 \<longrightarrow> ub_Devices st2 ! j = None)"
      using stop_devices_cuts [OF st2 ok1 _ max] tree_okD(2) [OF ok1] by auto
    have ok2: "tree_ok st2"
      by (rule cut_tree_ok [OF S(1) ok1 S(2)])
    show ?thesis
    proof (cases "EFI_ERROR ret")
      case True
      then show ?thesis
        using rest ok2 by simp
    next
      case False
      then have empty: "ub_Devices st2 ! i = None" if "0 < i" "i < 256" for i
      proof (cases "i < ub_MaxDevices st2")
        case True
        then show ?thesis
          using S(3) that False by (simp add: EFI_ERROR_def cutD(2) [OF S(1)])
      next
        case outside: False
        then show ?thesis
          using tree_okD(5,6) [OF ok2] that by (cases "ub_Devices st2 ! i") auto
      qed
      have "no_devices st2"
        unfolding no_devices_def
      proof (intro conjI allI impI)
        show "i = 0" if "addr_of st2 a = Some i" for a i
          using tree_okD(3,6,7) [OF ok2] that empty [of i] by (cases "i = 0") force+
      qed (rule empty)
      moreover obtain s1 st3 st4 where st3: "UsbRootHubRelease env rootif st2 = Some (s1, st3)" and
        st4: "free_root (Some rootif) roothub st3 = Some st4" and st': "close_bus env ctl (snd (UsbBusFreeUsbDPList st4)) = ((s, b), st')"
        using rest False by (auto split: bind_splits prod.splits)
      moreover have same: "same_tree st2 st3"
        by (rule keeps_sameD [OF same_tree.UsbRootHubRelease_frame [OF same_tree.R_refl] st3])
      ultimately have "no_devices st3"
        by (simp add: no_devices_def same_tree_def addr_of_key)
      then have "no_devices (snd (UsbBusFreeUsbDPList st4))"
        using free_root_no_devices [OF st4] by (simp add: UsbBusFreeUsbDPList_def no_devices_def addr_of_def)
      then have none: "no_devices st'"
        using close_bus_no_devices [of env ctl "snd (UsbBusFreeUsbDPList st4)"] st' by simp
      have gone: "ub_dev st' x = None \<longleftrightarrow> x = roothub \<or> ub_dev st2 x = None" for x
        using close_bus_dev [of env ctl "snd (UsbBusFreeUsbDPList st4)"] st' free_root_dev [OF st4, of x] same
          tkey_None [of st2 x] tkey_None [of st3 x] by (simp add: UsbBusFreeUsbDPList_def same_tree_def)
      have "emptied st1 st'"
        by (rule emptied_by_cut [OF S(1) _ slot0 gone]) (rule empty)
      then show ?thesis
        using ext_dev [OF st1] none by (simp add: emptied_def)
    qed
  qed
qed

section \<open>The life of a bus\<close>

text \<open>
  What the outside calls on a bus that was started: the timer of the root hub, the events and transfers of hubs, the
  USB I/O protocol, another start, and a stop that leaves devices. The calls of the protocol that only read are no
  steps.
\<close>

inductive usb_step :: "'h usb_env \<Rightarrow> 'h usb_bus \<Rightarrow> 'h usb_bus \<Rightarrow> bool" for env where
  root_timer: "UsbRootHubEnumeration env hub st = Some st' \<Longrightarrow> usb_step env st st'"
| hub_event: "UsbHubEnumeration env hub st = Some st' \<Longrightarrow> usb_step env st st'"
| hub_interrupt: "UsbOnHubInterrupt env hub data result st = Some (s, st') \<Longrightarrow> usb_step env st st'"
| control: "UsbIoControlTransfer env uif req dir timeout buf len b st = Some (r, st') \<Longrightarrow> usb_step env st st'"
| bulk: "UsbIoBulkTransfer env uif ep buf len timeout b st = Some (r, st') \<Longrightarrow> usb_step env st st'"
| sync_interrupt: "UsbIoSyncInterruptTransfer env uif ep buf len timeout b st = Some (r, st') \<Longrightarrow> usb_step env st st'"
| async_interrupt: "UsbIoAsyncInterruptTransfer env uif ep isnew poll len cb st = Some (s, st') \<Longrightarrow> usb_step env st st'"
| get_string: "UsbIoGetStringDescriptor env uif lang idx st = Some (r', st') \<Longrightarrow> usb_step env st st'"
| port_reset: "UsbIoPortReset env uif st = Some (s, st') \<Longrightarrow> usb_step env st st'"
| wanted: "UsbBusAddWantedUsbIoDP env rem st = Some (s, st') \<Longrightarrow> usb_step env st st'"
| connect: "UsbBusRecursivelyConnectWantedUsbIo env st = Some (s, st') \<Longrightarrow> usb_step env st st'"
| stop_children: "children \<noteq> [] \<Longrightarrow> UsbBusControllerDriverStop env ctl children st = Some (sb, st') \<Longrightarrow> usb_step env st st'"
| stop_failed: "UsbBusControllerDriverStop env ctl [] st = Some (sb, st') \<Longrightarrow> \<not> no_devices st' \<Longrightarrow> usb_step env st st'"

inductive usb_reachable :: "'h usb_env \<Rightarrow> 'h usb_bus \<Rightarrow> bool" for env where
  start: "ub_dev st = Map.empty \<Longrightarrow> UsbBusBuildProtocol env ctl path rem st = Some (EFI_SUCCESS, st') \<Longrightarrow> usb_reachable env st'"
| step: "usb_reachable env st \<Longrightarrow> usb_step env st st' \<Longrightarrow> usb_reachable env st'"

lemma usb_step_ok: "usb_step env st st' \<Longrightarrow> tree_ok st \<Longrightarrow> tree_ok st'"
proof (induction rule: usb_step.induct)
  case (stop_children children ctl st sb st')
  then show ?case
    using stop_handles_ok [of st children env EFI_SUCCESS]
    by (auto simp: UsbBusControllerDriverStop_def keeps_def keeps_ok_def split: bind_splits)
next
  case (stop_failed ctl st sb st')
  then show ?case
    using UsbBusControllerDriverStop_cases [of env ctl st "fst sb" "snd sb" st'] by auto
qed (blast intro: same_tree_ok
    dest: keeps_sameD [OF same_tree.UsbOnHubInterrupt_frame [OF same_tree.R_refl]]
      keeps_sameD [OF same_tree.UsbIoControlTransfer_frame [OF same_tree.R_refl]]
      keeps_sameD [OF same_tree.UsbIoBulkTransfer_frame [OF same_tree.R_refl]]
      keeps_sameD [OF same_tree.UsbIoSyncInterruptTransfer_frame [OF same_tree.R_refl]]
      keeps_sameD [OF same_tree.UsbIoAsyncInterruptTransfer_frame [OF same_tree.R_refl]]
      keeps_sameD [OF same_tree.UsbIoGetStringDescriptor_frame [OF same_tree.R_refl]]
      keeps_sameD [OF UsbIoPortReset_same]
      keeps_sameD [OF same_tree.UsbBusAddWantedUsbIoDP_frame [OF same_tree.R_refl]]
      keeps_sameD [OF same_tree.UsbBusRecursivelyConnectWantedUsbIo_frame [OF same_tree.R_refl]]
      UsbRootHubEnumeration_ok [unfolded keeps_st_def keeps_ok_def, rule_format]
      UsbHubEnumeration_ok [unfolded keeps_st_def keeps_ok_def, rule_format])+

lemma reachable_ok: "usb_reachable env st \<Longrightarrow> tree_ok st"
proof (induction rule: usb_reachable.induct)
  case (start st ctl path rem st')
  then show ?case
    by (blast intro: UsbBusBuildProtocol_ok)
next
  case (step st st')
  then show ?case
    by (blast intro: usb_step_ok)
qed

section \<open>A bus with one device\<close>

text \<open>A controller with one port, and on it a full speed device that answers no request. It gets an address and a slot
  all the same.\<close>

definition demo_hc :: "unit usb2_hc" where
  "demo_hc =
     \<lparr>hc2_MajorRevision = 1, hc2_GetCapability = (\<lambda>h. ((EFI_SUCCESS, EFI_USB_SPEED_FULL, 1, 0), h)),
      hc2_Reset = (\<lambda>x h. (EFI_SUCCESS, h)), hc2_GetState = (\<lambda>h. ((EFI_SUCCESS, 0), h)), hc2_SetState = (\<lambda>x h. (EFI_SUCCESS, h)),
      hc2_PortStatus = (\<lambda>p h. ((EFI_SUCCESS, 3, 1), h)), hc2_SetPortFeature = (\<lambda>p f h. (EFI_SUCCESS, h)),
      hc2_ClearPortFeature = (\<lambda>p f h. (EFI_SUCCESS, h)), hc2_Control = (\<lambda>addr speed maxp rq dir buf len timeout tra h. ((EFI_DEVICE_ERROR, [], 0, 1), h)),
      hc2_Bulk = (\<lambda>addr ep speed maxp n buf len tog timeout tra h. ((EFI_DEVICE_ERROR, [], 0, 0, 0), h)),
      hc2_AsyncInterrupt = (\<lambda>addr ep speed maxp isnew tog poll len tra cb h. ((EFI_SUCCESS, 0), h)),
      hc2_SyncInterrupt = (\<lambda>addr ep speed maxp buf len tog timeout tra h. ((EFI_DEVICE_ERROR, [], 0, 0, 0), h))\<rparr>"

definition demo_hc1 :: "unit usb1_hc" where
  "demo_hc1 =
     \<lparr>hc1_GetRootHubPortNumber = (\<lambda>h. ((EFI_DEVICE_ERROR, 0), h)), hc1_Reset = (\<lambda>x h. (EFI_DEVICE_ERROR, h)),
      hc1_GetState = (\<lambda>h. ((EFI_DEVICE_ERROR, 0), h)), hc1_SetState = (\<lambda>x h. (EFI_DEVICE_ERROR, h)),
      hc1_PortStatus = (\<lambda>p h. ((EFI_DEVICE_ERROR, 0, 0), h)), hc1_SetPortFeature = (\<lambda>p f h. (EFI_DEVICE_ERROR, h)),
      hc1_ClearPortFeature = (\<lambda>p f h. (EFI_DEVICE_ERROR, h)),
      hc1_Control = (\<lambda>addr slow maxp rq dir buf len timeout h. ((EFI_DEVICE_ERROR, [], 0, 0), h)),
      hc1_Bulk = (\<lambda>addr ep maxp buf len tog timeout h. ((EFI_DEVICE_ERROR, [], 0, 0, 0), h)),
      hc1_AsyncInterrupt = (\<lambda>addr ep slow maxp isnew tog poll len cb h. ((EFI_DEVICE_ERROR, 0), h)),
      hc1_SyncInterrupt = (\<lambda>addr ep slow maxp buf len tog timeout h. ((EFI_DEVICE_ERROR, [], 0, 0, 0), h))\<rparr>"

definition demo_env :: "unit usb_env" where
  "demo_env =
     \<lparr>ue_pool = (\<lambda>n. True), ue_stack = [], ue_usb2hc = demo_hc, ue_usbhc = demo_hc1,
      bs_OpenProtocol = (\<lambda>c p m h. ((EFI_SUCCESS, p \<noteq> UsbHcProto), h)), bs_CloseProtocol = (\<lambda>c p m h. (EFI_SUCCESS, h)),
      bs_InstallIo = (\<lambda>u h. ((EFI_SUCCESS, u), h)), bs_UninstallIo = (\<lambda>c u h. (EFI_SUCCESS, h)),
      bs_InstallBus = (\<lambda>c h. (EFI_SUCCESS, h)), bs_UninstallBus = (\<lambda>c h. (EFI_SUCCESS, h)),
      bs_ConnectController = (\<lambda>c h. (EFI_SUCCESS, h)), bs_DisconnectController = (\<lambda>c h. (EFI_SUCCESS, h)),
      bs_LocateUsbIo = (\<lambda>h. ((EFI_SUCCESS, []), h)), bs_HandleDevicePath = (\<lambda>c h. ((EFI_DEVICE_ERROR, None), h)),
      bs_HandleUsbIo = (\<lambda>c h. ((EFI_SUCCESS, c), h)), bs_CreateEvent = (\<lambda>u h. ((EFI_SUCCESS, 7), h)), bs_CloseEvent = (\<lambda>e h. h),
      bs_SignalEvent = (\<lambda>e h. h), bs_SetTimer = (\<lambda>e p h. (EFI_SUCCESS, h))\<rparr>"

definition demo_bare :: "unit usb_bus" where
  "demo_bare =
     \<lparr>ub_Usb2Hc = False, ub_UsbHc = False, ub_HostHandle = 0, ub_DevicePath = [], ub_MaxDevices = 0, ub_Devices = [],
      ub_WantedUsbIoDPList = [], ub_desc = \<lparr>us_heap = Map.empty, us_next = 0\<rparr>, ub_dev = Map.empty, ub_if = Map.empty, ub_ext = ()\<rparr>"

text \<open>The bus when it is started: device 1 is the root hub, interface 2 its interface.\<close>

definition demo_start :: "unit usb_bus" where
  "demo_start =
     demo_bare\<lparr>ub_Usb2Hc := True, ub_MaxDevices := 128, ub_Devices := (replicate 256 None)[0 := Some 1],
       ub_desc := \<lparr>us_heap = Map.empty, us_next = 3\<rparr>,
       ub_dev := [1 \<mapsto> zero_device\<lparr>dv_NumOfInterface := 1, dv_Interfaces := (replicate 16 None)[0 := Some 2]\<rparr>],
       ub_if := [2 \<mapsto> (zero_interface 1)\<lparr>ui_DevicePath := Some [], ui_IsHub := True, ui_HubApi := Some mUsbRootHubApi,
                       ui_MaxSpeed := EFI_USB_SPEED_FULL, ui_NumOfPort := 1, ui_HubNotify := Some 7\<rparr>]\<rparr>"

text \<open>After the timer of the root hub: device 3 has address 1.\<close>

definition demo_bus :: "unit usb_bus" where
  "demo_bus =
     demo_start\<lparr>ub_desc := \<lparr>us_heap = Map.empty, us_next = 4\<rparr>, ub_Devices := (ub_Devices demo_start)[1 := Some 3],
       ub_dev := (ub_dev demo_start)(3 \<mapsto> zero_device\<lparr>dv_Address := 1, dv_MaxPacket0 := 8, dv_ParentIf := Some 2, dv_Tier := 1\<rparr>)\<rparr>"

lemma demo_started: "UsbBusBuildProtocol demo_env 0 [] (Some []) demo_bare = Some (EFI_SUCCESS, demo_start)"
  by (simp add: demo_env_def demo_hc_def ext_def new_num_def upd_dev_def upd_if_def set_slot_def wr_def on_hc_def EFI_ERROR_def
      Let_def demo_bare_def demo_start_def UsbBusBuildProtocol_def new_bus_def UsbBusAddWantedUsbIoDP_def start_root_def
      UsbRootHubInit_def UsbHcGetCapability_def zero_device_def zero_interface_def USB_MAX_INTERFACE_def USB_MAX_DEVICES_def
      numeral_3_eq_3 numeral_2_eq_2 del: replicate.simps)

text \<open>The calls to the outside leave the bus alone.\<close>

lemma ext_id: "(\<And>h. f h = (r, h)) \<Longrightarrow> ext f st = (r, st)"
  by (cases st) (simp add: ext_def)

lemma demo_hub_calls:
  assumes "ub_Usb2Hc st"
  shows "UsbHcGetRootHubPortStatus demo_env p st = Some ((EFI_SUCCESS, 3, 1), st)"
    "UsbHcSetRootHubPortFeature demo_env p f st = Some (EFI_SUCCESS, st)"
    "UsbHcClearRootHubPortFeature demo_env p f st = Some (EFI_SUCCESS, st)"
    "UsbHcControlTransfer demo_env a sp mp rq dir buf len tm tra st = Some ((EFI_DEVICE_ERROR, buf, 0, 1), st)"
  using assms ext_id [of "hc2_PortStatus demo_hc p" "(EFI_SUCCESS, 3, 1)"] ext_id [of "hc2_SetPortFeature demo_hc p f" EFI_SUCCESS]
    ext_id [of "hc2_ClearPortFeature demo_hc p f" EFI_SUCCESS]
    ext_id [of "hc2_Control demo_hc a sp mp rq dir buf len tm tra" "(EFI_DEVICE_ERROR, [], 0, 1)"]
  by (simp_all add: UsbHcGetRootHubPortStatus_def UsbHcSetRootHubPortFeature_def UsbHcClearRootHubPortFeature_def
      UsbHcControlTransfer_def on_hc_def demo_env_def demo_hc_def received_def wr_range_def)

lemma find_child_none:
  "(\<And>j. i \<le> j \<Longrightarrow> j < i + k \<Longrightarrow> ub_Devices st ! j = None) \<Longrightarrow> i + k \<le> length (ub_Devices st) \<Longrightarrow> find_child k i a p st = Some None"
  by (induction k arbitrary: i) (simp_all add: rd_def)

lemma free_address_first:
  "0 < k \<Longrightarrow> i < length (ub_Devices st) \<Longrightarrow> ub_Devices st ! i = None \<Longrightarrow> free_address k i st = Some i"
  by (cases k) (simp_all add: rd_def)

lemma demo_reset: "ub_Usb2Hc st \<Longrightarrow> 0 < k \<Longrightarrow> root_reset_loop k demo_env p st = Some (Inr (Some 3), st)"
  by (cases k) (simp_all add: demo_hub_calls EFI_ERROR_def USB_PORT_STAT_RESET_def)

definition demo_hub :: "unit usb_bus \<Rightarrow> bool" where
  "demo_hub st \<longleftrightarrow> ub_Usb2Hc st \<and> (\<exists>u. ub_if st 2 = Some u \<and> ui_HubApi u = Some mUsbRootHubApi \<and> ui_Device u = 1)"

lemma demo_api:
  assumes "demo_hub st"
  shows "api_GetPortStatus demo_env 2 p st = Some ((EFI_SUCCESS, 3, 1), st)"
    "api_ResetPort demo_env 2 p st = Some (EFI_SUCCESS, st)"
    "api_ClearPortChange demo_env 2 p st = Some st"
  using assms
  by (auto simp: demo_hub_def api_GetPortStatus_def api_ResetPort_def api_ClearPortChange_def UsbRootHubGetPortStatus_def
      UsbRootHubResetPort_def UsbRootHubClearPortChange_def demo_hub_calls demo_reset USB_WAIT_PORT_STS_CHANGE_LOOP_def EFI_ERROR_def USB_PORT_STAT_ENABLE_def
      mRootHubFeatureMap_def)

lemma demo_device:
  assumes "ub_Usb2Hc st" "ub_dev st dv = Some d"
  shows "UsbSetAddress demo_env dv a st = Some (EFI_DEVICE_ERROR, st)"
  using assms by (simp add: UsbSetAddress_def no_data_def UsbCtrlRequest_def demo_hub_calls)

lemma demo_find: "UsbFindChild 2 p demo_start = Some None"
  by (simp add: demo_start_def demo_bare_def zero_interface_def UsbFindChild_def find_child_none)

lemma demo_create:
  "UsbCreateDevice demo_env 2 0 demo_start = Some (Some 3, demo_start\<lparr>ub_desc := \<lparr>us_heap = Map.empty, us_next = 4\<rparr>,
     ub_dev := (ub_dev demo_start)(3 \<mapsto> zero_device\<lparr>dv_MaxPacket0 := 8, dv_ParentIf := Some 2, dv_Tier := 1\<rparr>)\<rparr>)"
  by (simp add: UsbCreateDevice_def new_num_def demo_env_def demo_start_def demo_bare_def zero_interface_def zero_device_def Let_def)

lemma demo_hubs: "demo_hub (demo_start\<lparr>ub_desc := u, ub_dev := d\<rparr>)" "demo_hub demo_start" "demo_hub demo_bus"
  by (simp_all add: demo_hub_def demo_bus_def demo_start_def zero_interface_def)

lemma demo_new_device: "UsbEnumerateNewDev demo_env 2 0 True demo_start = Some (EFI_DEVICE_ERROR, demo_bus)"
proof -
  let ?st = "demo_start\<lparr>ub_desc := \<lparr>us_heap = Map.empty, us_next = 4\<rparr>,
     ub_dev := (ub_dev demo_start)(3 \<mapsto> zero_device\<lparr>dv_MaxPacket0 := 8, dv_ParentIf := Some 2, dv_Tier := 1\<rparr>)\<rparr>"
  have "upd_dev 3 (\<lambda>d. d\<lparr>dv_Speed := EFI_USB_SPEED_FULL, dv_MaxPacket0 := 8, dv_Translator := (0, 0)\<rparr>) ?st = Some ?st"
    by (simp add: upd_dev_def zero_device_def EFI_USB_SPEED_FULL_def)
  moreover have "free_address 127 1 ?st = Some 1"
    by (rule free_address_first) (simp_all add: demo_start_def)
  moreover have "address_device demo_env 3 1 ?st = Some (EFI_DEVICE_ERROR, demo_bus)"
    by (simp add: address_device_def demo_device demo_start_def upd_dev_def set_slot_def wr_def EFI_ERROR_def demo_bus_def zero_device_def)
  ultimately show ?thesis
    by (simp add: UsbEnumerateNewDev_def demo_api demo_hubs demo_create EFI_ERROR_def USB_PORT_STAT_CONNECTION_def port_speed_def
      USB_PORT_STAT_SUPER_SPEED_def USB_PORT_STAT_HIGH_SPEED_def USB_PORT_STAT_LOW_SPEED_def Let_def
       ) (simp add: demo_start_def zero_interface_def zero_device_def EFI_USB_SPEED_FULL_def EFI_USB_SPEED_HIGH_def EFI_USB_SPEED_LOW_def)
qed

lemma demo_enumerated: "UsbRootHubEnumeration demo_env 2 demo_start = Some demo_bus"
proof -
  have "UsbEnumeratePort demo_env 2 0 demo_start = Some (EFI_DEVICE_ERROR, demo_bus)"
    by (simp add: UsbEnumeratePort_def demo_api demo_hubs demo_find demo_new_device EFI_ERROR_def USB_PORT_STAT_C_CONNECTION_def
      USB_PORT_STAT_C_OVERCURRENT_def USB_PORT_STAT_CONNECTION_def USB_PORT_STAT_C_RESET_def)
  moreover have "ub_if demo_start 2 = Some ((zero_interface 1)\<lparr>ui_DevicePath := Some [], ui_IsHub := True, ui_HubApi := Some mUsbRootHubApi,
                       ui_MaxSpeed := EFI_USB_SPEED_FULL, ui_NumOfPort := 1, ui_HubNotify := Some 7\<rparr>)"
    by (simp add: demo_start_def)
  ultimately show ?thesis
    by (simp add: UsbRootHubEnumeration_def retry_removal_def demo_find)
qed

lemma demo_reachable: "usb_reachable demo_env demo_bus"
proof -
  have "ub_dev demo_bare = Map.empty"
    by (simp add: demo_bare_def)
  from usb_reachable.start [OF this demo_started] show ?thesis
    by (rule usb_reachable.step) (rule usb_step.root_timer [OF demo_enumerated])
qed

lemma demo_slots: "ub_MaxDevices demo_bus = 128" "ub_Devices demo_bus ! 1 = Some 3" "2 \<le> i \<Longrightarrow> i < 256 \<Longrightarrow> ub_Devices demo_bus ! i = None"
  by (simp_all add: demo_bus_def demo_start_def)

lemma remove_children_skip:
  assumes "\<And>j c. i \<le> j \<Longrightarrow> j < i + k \<Longrightarrow> ub_Devices st ! j = Some c \<Longrightarrow>
      (\<exists>cd d. ub_dev st c = Some cd \<and> ub_dev st dv = Some d \<and> dv_ParentAddr cd \<noteq> dv_Address d)"
    "i + k \<le> length (ub_Devices st)"
  shows "remove_children rm k i dv ret st = Some (ret, st)"
  using assms
proof (induction k arbitrary: i)
  case (Suc k)
  have "remove_children rm k (Suc i) dv ret st = Some (ret, st)"
  proof (rule Suc.IH)
    show "\<exists>cd d. ub_dev st c = Some cd \<and> ub_dev st dv = Some d \<and> dv_ParentAddr cd \<noteq> dv_Address d"
      if "Suc i \<le> j" "j < Suc i + k" "ub_Devices st ! j = Some c" for j c
      by (rule Suc.prems(1) [OF _ _ that(3)]) (use that(1,2) in simp_all)
  qed (use Suc.prems(2) in simp)
  then show ?case
    using Suc.prems(1) [of i] Suc.prems(2) by (cases "ub_Devices st ! i") auto
qed simp

definition demo_empty :: "unit usb_bus" where
  "demo_empty =
     demo_bus\<lparr>ub_Devices := (replicate 256 None)[0 := Some 1], ub_dev := (ub_dev demo_bus)(3 := None)\<rparr>"

lemma demo_removed: "UsbRemoveDevice (Suc F) demo_env 3 demo_bus = Some (EFI_SUCCESS, demo_empty)"
proof -
  have kids: "remove_children (UsbRemoveDevice F demo_env) (ub_MaxDevices demo_bus - 1) 1 3 EFI_SUCCESS demo_bus = Some (EFI_SUCCESS, demo_bus)"
  proof (rule remove_children_skip)
    show "\<exists>cd d. ub_dev demo_bus c = Some cd \<and> ub_dev demo_bus 3 = Some d \<and> dv_ParentAddr cd \<noteq> dv_Address d"
      if "1 \<le> j" "j < 1 + (ub_MaxDevices demo_bus - 1)" "ub_Devices demo_bus ! j = Some c" for j c
    proof (cases "j = 1")
      case True
      then have "c = 3"
        using that(3) demo_slots(2) by (metis option.inject)
      then show ?thesis
        by (simp add: demo_bus_def zero_device_def)
    next
      case False
      then show ?thesis
        using that demo_slots(1) demo_slots(3) [of j] by simp
    qed
  qed (simp add: demo_slots(1), simp add: demo_bus_def demo_start_def)
  have "ub_dev demo_bus 3 = Some (zero_device\<lparr>dv_Address := 1, dv_MaxPacket0 := 8, dv_ParentIf := Some 2, dv_Tier := 1\<rparr>)"
    by (simp add: demo_bus_def)
  moreover have "demo_bus\<lparr>ub_dev := (ub_dev demo_bus)(3 \<mapsto> zero_device\<lparr>dv_Address := 1, dv_MaxPacket0 := 8, dv_ParentIf := Some 2, dv_Tier := 1\<rparr>)\<rparr> = demo_bus"
    by (simp add: demo_bus_def)
  ultimately have config: "UsbRemoveConfig demo_env 3 demo_bus = Some (EFI_SUCCESS, demo_bus)"
    by (simp add: UsbRemoveConfig_def upd_dev_def zero_device_def)
  have slot: "set_slot 1 None demo_bus = Some (demo_bus\<lparr>ub_Devices := (replicate 256 None)[0 := Some 1]\<rparr>)"
    by (simp add: set_slot_def wr_def demo_bus_def demo_start_def numeral_eq_Suc)
  have free: "UsbFreeDevice 3 (demo_bus\<lparr>ub_Devices := (replicate 256 None)[0 := Some 1]\<rparr>) = Some demo_empty"
    by (simp add: UsbFreeDevice_def demo_empty_def) (simp add: demo_bus_def zero_device_def)
  have addr: "ub_dev demo_bus 3 = Some (zero_device\<lparr>dv_Address := 1, dv_MaxPacket0 := 8, dv_ParentIf := Some 2, dv_Tier := 1\<rparr>)"
    by (simp add: demo_bus_def)
  show ?thesis
    using kids config slot free addr by (simp add: EFI_ERROR_def zero_device_def)
qed

lemma stop_devices_skip:
  "(\<And>j. i \<le> j \<Longrightarrow> j < i + k \<Longrightarrow> ub_Devices st ! j = None) \<Longrightarrow> i + k \<le> length (ub_Devices st) \<Longrightarrow>
    stop_devices k i env status ret st = Some ((status, ret), st)"
  by (induction k arbitrary: i) simp_all

lemma demo_stopped: "stop_devices 127 1 demo_env EFI_SUCCESS EFI_SUCCESS demo_bus = Some ((EFI_SUCCESS, EFI_SUCCESS), demo_empty)"
proof -
  have "stop_devices 126 2 demo_env EFI_SUCCESS EFI_SUCCESS demo_empty = Some ((EFI_SUCCESS, EFI_SUCCESS), demo_empty)"
    by (rule stop_devices_skip) (simp_all add: demo_empty_def)
  moreover have "1 < length (ub_Devices demo_bus)"
    by (simp add: demo_bus_def demo_start_def)
  ultimately have "stop_devices (Suc 126) 1 demo_env EFI_SUCCESS EFI_SUCCESS demo_bus = Some ((EFI_SUCCESS, EFI_SUCCESS), demo_empty)"
    using demo_slots(1,2) demo_removed [of 128] unfolding stop_devices.simps by (simp add: EFI_ERROR_def numeral_2_eq_2 del: UsbRemoveDevice.simps)
  then show ?thesis
    by simp
qed

lemma demo_close: "ub_Usb2Hc st \<Longrightarrow> \<not> ub_UsbHc st \<Longrightarrow> close_bus demo_env 0 st = ((EFI_SUCCESS, False), st)"
  using ext_id [of "bs_UninstallBus demo_env 0" EFI_SUCCESS st] ext_id [of "bs_CloseProtocol demo_env 0 Usb2HcProto ByDriver" EFI_SUCCESS st]
    ext_id [of "bs_CloseProtocol demo_env 0 DevicePathProto ByDriver" EFI_SUCCESS st]
  by (simp add: close_bus_def EFI_ERROR_def) (simp add: demo_env_def)

lemma demo_release: "UsbRootHubRelease demo_env 2 demo_empty = Some (EFI_SUCCESS, demo_empty)"
proof -
  have "ub_if demo_empty 2 = ub_if demo_start 2"
    by (simp add: demo_empty_def demo_bus_def)
  then obtain u where u: "ub_if demo_empty 2 = Some u" "ui_HubNotify u = Some 7"
    by (simp add: demo_start_def)
  have timer: "ext (bs_SetTimer demo_env 7 False) demo_empty = (EFI_SUCCESS, demo_empty)"
    by (rule ext_id) (simp add: demo_env_def)
  have event: "ext (\<lambda>h. ((), bs_CloseEvent demo_env 7 h)) demo_empty = ((), demo_empty)"
    by (rule ext_id) (simp add: demo_env_def)
  show ?thesis
    using u timer event by (simp add: UsbRootHubRelease_def close_hub_event_def)
qed

section \<open>Properties of the bus\<close>

text \<open>C15. In every state that the bus can reach, slot \<open>i\<close> of the table holds a live device with address \<open>i\<close>, every device
  with an address is in its slot, the parent of each is the root hub or in a slot, and there are no cycles. This is so
  whatever the devices answer and whichever allocations fail, for all calls from the outside in any order.\<close>

theorem usb_tree_invariant:
  assumes "usb_reachable env st"
  shows "tree_ok st"
  by (rule reachable_ok [OF assms])

theorem usb_tree_invariant_witness: "tree_ok demo_bus"
  by (rule usb_tree_invariant [OF demo_reachable])

text \<open>C16. A removal that succeeds empties exactly the slots of the device and of what is behind it, and frees exactly
  these devices.\<close>

theorem usb_remove_subtree:
  assumes "usb_reachable env st" "0 < j" "j < 256" "ub_Devices st ! j = Some dv"
    and "UsbRemoveDevice F env dv st = Some (EFI_SUCCESS, st')"
  shows "(\<forall>i < 256. ub_Devices st' ! i = (if reaches st j i then None else ub_Devices st ! i)) \<and>
    (\<forall>x. ub_dev st' x = None \<longleftrightarrow> ub_dev st x = None \<or> (\<exists>i < 256. reaches st j i \<and> ub_Devices st ! i = Some x))"
proof -
  have ok: "tree_ok st"
    by (rule reachable_ok [OF assms(1)])
  have addr: "addr_of st dv = Some j"
    by (rule tree_okD(5) [OF ok assms(2-4)])
  obtain S where "cut S st st'" "EFI_SUCCESS = EFI_SUCCESS \<longrightarrow> S = {x. reaches st j x}"
    by (rule removesD [OF UsbRemoveDevice_removes ok assms(2) addr assms(5)])
  then have S: "cut {x. reaches st j x} st st'"
    by simp
  have "ub_dev st' x = None \<longleftrightarrow> ub_dev st x = None \<or> (\<exists>i < 256. reaches st j i \<and> ub_Devices st ! i = Some x)" for x
    using cutD(6) [OF S, of x] cutD(1) [OF S] tkey_None [of st' x] tkey_None [of st x] by (auto split: if_splits)
  then show ?thesis
    using cutD(5) [OF S] by simp
qed

theorem usb_remove_subtree_witness: "ub_Devices demo_bus ! 1 = Some 3 \<and> ub_Devices demo_empty ! 1 = None \<and> ub_Devices demo_empty ! 0 = Some 1"
proof -
  have out: "ub_Devices demo_empty ! i = (if reaches demo_bus 1 i then None else ub_Devices demo_bus ! i)" if "i < 256" for i
    using usb_remove_subtree [OF demo_reachable _ _ demo_slots(2) demo_removed [of 0]] that by simp
  have "\<not> reaches demo_bus 1 0"
    using reaches_bound [of demo_bus 1 0] by auto
  then show ?thesis
    using out [of 0] out [of 1] demo_slots(2) reaches.here [of demo_bus 1] by (simp add: demo_bus_def demo_start_def)
qed

text \<open>The recursion of a removal ends: the fuel that the code's calls have in the model is enough, since with more of it
  the outcome is the same.\<close>

theorem usb_remove_terminates:
  assumes "usb_reachable env st" "ub_dev st dv \<noteq> None"
  shows "UsbRemoveDevice (Suc (ub_MaxDevices st) + k) env dv st = UsbRemoveDevice (Suc (ub_MaxDevices st)) env dv st"
proof -
  have ok: "tree_ok st"
    by (rule reachable_ok [OF assms(1)])
  obtain a where "addr_of st dv = Some a"
    using assms(2) by (auto simp: addr_of_def)
  from UsbRemoveDevice_fuel [OF ok this le_SucI [OF reaches_card [OF this ok]]] show ?thesis
    by simp
qed

theorem usb_remove_terminates_witness: "UsbRemoveDevice (Suc 128 + 7) demo_env 3 demo_bus = UsbRemoveDevice (Suc 128) demo_env 3 demo_bus"
proof -
  have "ub_dev demo_bus 3 \<noteq> None"
    by (simp add: demo_bus_def)
  from usb_remove_terminates [OF demo_reachable this, of 7] show ?thesis
    by (simp only: demo_slots(1))
qed

text \<open>C17. A new device gets the lowest free address and its slot, or none; the slots of the other devices stay.\<close>

theorem usb_new_device_address:
  assumes "usb_reachable env st" "UsbEnumerateNewDev env hub port reset st = Some (s, st')"
  shows "ub_Devices st' = ub_Devices st \<or>
    (\<exists>a dv. 0 < a \<and> a < ub_MaxDevices st \<and> ub_Devices st ! a = None \<and> (\<forall>b. 0 < b \<longrightarrow> b < a \<longrightarrow> ub_Devices st ! b \<noteq> None) \<and>
       ub_dev st dv = None \<and> ub_Devices st' = (ub_Devices st)[a := Some dv] \<and> addr_of st' dv = Some a)"
proof -
  have ok: "tree_ok st"
    by (rule reachable_ok [OF assms(1)])
  from UsbEnumerateNewDev_spec [OF assms(2) ok] consider "ub_Devices st' = ub_Devices st"
    | a dv where "tree_ok st'" "first_free a st" "ub_dev st dv = None" "ub_Devices st' = (ub_Devices st)[a := Some dv]"
    by blast
  then show ?thesis
  proof cases
    case 2
    have a: "0 < a" "a < 256"
      using 2(2) tree_okD(3) [OF ok] by (simp_all add: first_free_def)
    have "ub_Devices st' ! a = Some dv"
      using a(2) tree_okD(1) [OF ok] by (simp add: 2(4))
    then have "addr_of st' dv = Some a"
      by (rule tree_okD(5) [OF 2(1) a])
    then show ?thesis
      using 2 by (auto simp: first_free_def)
  qed simp
qed

theorem usb_new_device_address_witness:
  "ub_Devices demo_bus ! 1 = Some 3 \<and> ub_Devices demo_bus \<noteq> ub_Devices demo_start \<and>
   (\<exists>a dv. ub_Devices demo_start ! a = None \<and> ub_Devices demo_bus = (ub_Devices demo_start)[a := Some dv])"
proof -
  have "usb_reachable demo_env demo_start"
    by (rule usb_reachable.start [OF _ demo_started]) (simp add: demo_bare_def)
  from usb_new_device_address [OF this demo_new_device] have
    "ub_Devices demo_bus = ub_Devices demo_start \<or>
     (\<exists>a dv. ub_Devices demo_start ! a = None \<and> ub_Devices demo_bus = (ub_Devices demo_start)[a := Some dv])"
    by blast
  moreover have "ub_Devices demo_start ! 1 = None"
    by (simp add: demo_start_def)
  ultimately show ?thesis
    using demo_slots(2) by auto
qed

text \<open>C18. A stop after which the bus is gone frees exactly the devices in its slots: the root hub and every device that has an
  address, so that all the slots of devices are empty and no device with an address is left in memory. A device without an
  address, which an enumeration has leaked, is in no slot and stays allocated: the stop frees nothing else.\<close>

theorem usb_stop_frees_devices:
  assumes "usb_reachable env st" "UsbBusControllerDriverStop env ctl [] st = Some ((s, False), st')"
  shows "(\<forall>i. 0 < i \<longrightarrow> i < 256 \<longrightarrow> ub_Devices st' ! i = None) \<and> (\<forall>a i. addr_of st' a = Some i \<longrightarrow> i = 0) \<and>
    (\<forall>x. ub_dev st' x = None \<longleftrightarrow> ub_dev st x = None \<or> (\<exists>i < 256. ub_Devices st ! i = Some x))"
  using UsbBusControllerDriverStop_cases [OF assms(2) reachable_ok [OF assms(1)]] by (simp add: no_devices_def emptied_def)

theorem usb_stop_frees_devices_witness:
  "\<exists>s st'. UsbBusControllerDriverStop demo_env 0 [] demo_bus = Some ((s, False), st') \<and> ub_Devices st' ! 1 = None \<and>
     ub_dev demo_bus 1 \<noteq> None \<and> ub_dev st' 1 = None \<and> ub_dev demo_bus 3 \<noteq> None \<and> ub_dev st' 3 = None"
proof -
  have ext0: "ext (bs_OpenProtocol demo_env 0 UsbBusProto GetProtocol) demo_bus = ((EFI_SUCCESS, True), demo_bus)"
    by (rule ext_id) (simp add: demo_env_def)
  have root: "ub_dev demo_bus 1 = Some (zero_device\<lparr>dv_NumOfInterface := 1, dv_Interfaces := (replicate 16 None)[0 := Some 2]\<rparr>)"
    "ub_Devices demo_bus ! 0 = Some 1" "0 < length (ub_Devices demo_bus)" "ub_MaxDevices demo_bus - 1 = 127"
    by (simp_all add: demo_bus_def demo_start_def)
  have "\<exists>st4. free_root (Some 2) 1 demo_empty = Some st4 \<and> ub_Usb2Hc st4 \<and> \<not> ub_UsbHc st4"
    by (simp add: free_root_def drop_if_def demo_empty_def demo_bus_def demo_start_def demo_bare_def)
  then obtain st4 where st4: "free_root (Some 2) 1 demo_empty = Some st4" "ub_Usb2Hc st4" "\<not> ub_UsbHc st4"
    by blast
  then have "\<exists>s st'. UsbBusControllerDriverStop demo_env 0 [] demo_bus = Some ((s, False), st')"
    using root demo_stopped demo_release demo_close [of "snd (UsbBusFreeUsbDPList st4)"]
    by (simp add: UsbBusControllerDriverStop_def ext0 EFI_ERROR_def UsbBusFreeUsbDPList_def)
  then obtain s st' where stop: "UsbBusControllerDriverStop demo_env 0 [] demo_bus = Some ((s, False), st')"
    by blast
  note freed = usb_stop_frees_devices [OF demo_reachable stop]
  have "ub_Devices st' ! 1 = None"
    using freed by simp
  moreover have "ub_dev st' 1 = None" "ub_dev st' 3 = None"
    using freed root(2) demo_slots(2) by (metis zero_less_numeral, metis one_less_numeral_iff semiring_norm(76))
  moreover have "ub_dev demo_bus 3 \<noteq> None"
    by (simp add: demo_bus_def)
  ultimately show ?thesis
    using stop root(1) by blast
qed

text \<open>A hub at super speed may send up to 32 bytes as its descriptor; the structure that they are written to has 23. More
  than that is written beyond it.\<close>

theorem usb_hub_descriptor_overflow:
  assumes "ub_dev st dv = Some d" "dv_Speed d = EFI_USB_SPEED_SUPER" "ub_Usb2Hc st" "length buf = sizeof_EFI_USB_HUB_DESCRIPTOR"
    and "hc2_Control (ue_usb2hc env) (dv_Address d) EFI_USB_SPEED_SUPER (unat (dv_MaxPacket0 d))
        \<lparr>rq_RequestType = 0xA0, rq_Request = 6, rq_Value = 0x2A00, rq_Index = 0, rq_Length = 32\<rparr> EfiUsbDataIn buf 32
        USB_GENERAL_DEVICE_REQUEST_TIMEOUT (dv_Translator d) (ub_ext st) = ((s, reply, n, res), h)"
  shows "UsbHubReadDesc env dv buf st = None \<longleftrightarrow> 23 < length reply"
proof -
  have rq: "USB_REQUEST_TYPE EfiUsbDataIn USB_REQ_TYPE_CLASS USB_HUB_TARGET_HUB = 0xA0"
    by (simp add: USB_REQUEST_TYPE_def USB_REQ_TYPE_CLASS_def USB_HUB_TARGET_HUB_def)
  show ?thesis
    using assms by (auto simp: min_def UsbHubReadDesc_def UsbHubCtrlGetSuperSpeedHubDesc_def UsbCtrlRequest_def rq USB_HUB_REQ_GET_DESC_def
        USB_DESC_TYPE_HUB_SUPER_SPEED_def UsbHcControlTransfer_def on_hc_def ext_def received_def wr_range_def
        sizeof_EFI_USB_HUB_DESCRIPTOR_def)
qed

theorem usb_hub_descriptor_overflow_witness:
  "UsbHubReadDesc (demo_env\<lparr>ue_usb2hc := demo_hc\<lparr>hc2_Control := \<lambda>a sp mp rq dir buf len tm tra h. ((EFI_SUCCESS, replicate 32 0, 32, 0), h)\<rparr>\<rparr>)
     3 (replicate 23 0) (demo_bus\<lparr>ub_dev := [3 \<mapsto> zero_device\<lparr>dv_Speed := EFI_USB_SPEED_SUPER\<rparr>]\<rparr>) = None"
proof -
  let ?hc = "demo_hc\<lparr>hc2_Control := \<lambda>a sp mp rq dir buf len tm tra h. ((EFI_SUCCESS, replicate 32 0, 32, 0), h)\<rparr>"
  let ?st = "demo_bus\<lparr>ub_dev := [3 \<mapsto> zero_device\<lparr>dv_Speed := EFI_USB_SPEED_SUPER\<rparr>]\<rparr>"
  have "UsbHubReadDesc (demo_env\<lparr>ue_usb2hc := ?hc\<rparr>) 3 (replicate 23 0) ?st = None \<longleftrightarrow> 23 < length (replicate 32 (0 :: byte))"
    by (rule usb_hub_descriptor_overflow [where d = "zero_device\<lparr>dv_Speed := EFI_USB_SPEED_SUPER\<rparr>" and s = EFI_SUCCESS and n = 32 and res = 0])
      (simp_all add: zero_device_def demo_bus_def demo_start_def sizeof_EFI_USB_HUB_DESCRIPTOR_def)
  then show ?thesis
    by simp
qed

text \<open>When the second allocation for the root hub fails, the error path frees its device structure twice.\<close>

theorem usb_start_double_free:
  assumes "ue_pool env (us_next (ub_desc st))" "\<not> ue_pool env (us_next (ub_desc st) + 1)"
  shows "start_root env ctl st = None"
  using assms by (simp add: start_root_def new_num_def free_root_def Let_def)

theorem usb_start_double_free_witness: "start_root (demo_env\<lparr>ue_pool := \<lambda>n. n < 1\<rparr>) 0 demo_bare = None"
  using usb_start_double_free [of "demo_env\<lparr>ue_pool := \<lambda>n. n < 1\<rparr>" demo_bare 0] by (simp add: demo_bare_def)

end
