(* ===== verification/MassIo.thy ===== *)
theory MassIo
  imports UsbIo
begin

text \<open>
  The two transports of the USB mass storage driver (\<^verbatim>\<open>Speedup/Bus/Usb/UsbMassStorageDxe\<close>): bulk-only
  (\<^verbatim>\<open>UsbMassBot.c\<close>) and control, bulk and interrupt (\<^verbatim>\<open>UsbMassCbi.c\<close>).

  The driver talks to its device through the USB I/O protocol of an interface, a record of functions on a state
  \<open>'s\<close> that it does not see; \<open>bus_usb_io\<close> is the protocol that the model of the bus driver provides. A buffer that
  a transfer fills is given back with the result. A transfer never gives more bytes than it was asked for. Delays
  are left out. Results: \<open>None\<close> is undefined behaviour, or a loop that does not end.
\<close>

section \<open>The USB I/O protocol\<close>

record 's usb_io =
  uio_Control :: "usb_request \<Rightarrow> usb_dir \<Rightarrow> nat \<Rightarrow> byte list \<Rightarrow> nat \<Rightarrow> 's \<Rightarrow>
    ((efi_status \<times> byte list \<times> u32 option) \<times> 's) option"
  uio_Bulk :: "byte \<Rightarrow> byte list \<Rightarrow> nat \<Rightarrow> nat \<Rightarrow> 's \<Rightarrow> ((efi_status \<times> byte list \<times> nat \<times> u32 option) \<times> 's) option"
  uio_SyncInterrupt :: "byte \<Rightarrow> byte list \<Rightarrow> nat \<Rightarrow> nat \<Rightarrow> 's \<Rightarrow> ((efi_status \<times> byte list \<times> nat \<times> u32 option) \<times> 's) option"
  uio_Interface :: "'s \<Rightarrow> (efi_status + byte list) option"
  uio_Endpoint :: "byte \<Rightarrow> 's \<Rightarrow> (efi_status + byte list) option"
  uio_PortReset :: "'s \<Rightarrow> (efi_status \<times> 's) option"

definition bus_usb_io :: "'h usb_env \<Rightarrow> nat \<Rightarrow> ('h usb_bus) usb_io" where
  "bus_usb_io env uif =
     \<lparr>uio_Control = \<lambda>req dir timeout buf len. UsbIoControlTransfer env uif req dir timeout buf len True,
      uio_Bulk = \<lambda>ep buf len timeout. UsbIoBulkTransfer env uif ep buf len timeout True,
      uio_SyncInterrupt = \<lambda>ep buf len timeout. UsbIoSyncInterruptTransfer env uif ep buf len timeout True,
      uio_Interface = UsbIoGetInterfaceDescriptor uif True,
      uio_Endpoint = \<lambda>idx. UsbIoGetEndpointDescriptor uif idx True,
      uio_PortReset = UsbIoPortReset env uif\<rparr>"

text \<open>The number of the bit that stands for an error in the result of a transfer.\<close>

definition EFI_USB_ERR_NAK :: nat where "EFI_USB_ERR_NAK = 4"

text \<open>A result that the transfer does not store is the zero that the variable holds before.\<close>

definition trans_result :: "u32 option \<Rightarrow> u32" where
  "trans_result r = (case r of None \<Rightarrow> 0 | Some x \<Rightarrow> x)"

definition USB_IS_ERROR :: "u32 option \<Rightarrow> nat \<Rightarrow> bool" where
  "USB_IS_ERROR r e = bit (trans_result r) e"

definition only_error :: "u32 option \<Rightarrow> nat \<Rightarrow> bool" where
  "only_error r e \<longleftrightarrow> trans_result r = push_bit e 1"

definition USB_IS_BULK_ENDPOINT :: "byte \<Rightarrow> bool" where
  "USB_IS_BULK_ENDPOINT attr \<longleftrightarrow> attr AND 3 = USB_ENDPOINT_BULK"

definition USB_IS_INTERRUPT_ENDPOINT :: "byte \<Rightarrow> bool" where
  "USB_IS_INTERRUPT_ENDPOINT attr \<longleftrightarrow> attr AND 3 = USB_ENDPOINT_INTERRUPT"

definition USB_IS_IN_ENDPOINT :: "byte \<Rightarrow> bool" where
  "USB_IS_IN_ENDPOINT addr = bit addr 7"

definition EndpointAddress :: "byte list \<Rightarrow> byte option" where "EndpointAddress e = rd e 2"
definition EndpointAttributes :: "byte list \<Rightarrow> byte option" where "EndpointAttributes e = rd e 3"
definition MaxPacketSize :: "byte list \<Rightarrow> u16 option" where "MaxPacketSize e = le16 e 4"
definition InterfaceNumber :: "byte list \<Rightarrow> byte option" where "InterfaceNumber i = rd i 2"
definition InterfaceNumEndpoints :: "byte list \<Rightarrow> byte option" where "InterfaceNumEndpoints i = rd i 4"
definition InterfaceClass :: "byte list \<Rightarrow> byte option" where "InterfaceClass i = rd i 5"
definition InterfaceSubClass :: "byte list \<Rightarrow> byte option" where "InterfaceSubClass i = rd i 6"
definition InterfaceProtocol :: "byte list \<Rightarrow> byte option" where "InterfaceProtocol i = rd i 7"

definition USB_MASS_STORE_CLASS :: byte where "USB_MASS_STORE_CLASS = 8"
definition USB_MASS_STORE_UFI :: byte where "USB_MASS_STORE_UFI = 4"
definition USB_MASS_STORE_SCSI :: byte where "USB_MASS_STORE_SCSI = 6"
definition USB_MASS_STORE_CBI0 :: byte where "USB_MASS_STORE_CBI0 = 0"
definition USB_MASS_STORE_CBI1 :: byte where "USB_MASS_STORE_CBI1 = 1"
definition USB_MASS_STORE_BOT :: byte where "USB_MASS_STORE_BOT = 0x50"

definition USB_MASS_1_MILLISECOND :: nat where "USB_MASS_1_MILLISECOND = 1000"
definition USB_MASS_1_SECOND :: nat where "USB_MASS_1_SECOND = 1000 * USB_MASS_1_MILLISECOND"
definition USB_MASS_CMD_SUCCESS :: u32 where "USB_MASS_CMD_SUCCESS = 0"
definition USB_MASS_CMD_FAIL :: u32 where "USB_MASS_CMD_FAIL = 1"
definition USB_MASS_CMD_PERSISTENT :: u32 where "USB_MASS_CMD_PERSISTENT = 2"
definition USB_BOOT_GENERAL_CMD_TIMEOUT :: nat where "USB_BOOT_GENERAL_CMD_TIMEOUT = 5 * USB_MASS_1_SECOND"

definition UsbClearEndpointStall :: "'s usb_io \<Rightarrow> byte \<Rightarrow> 's \<Rightarrow> (efi_status \<times> 's) option" where
  "UsbClearEndpointStall io ep s =
     do {
       ((r, b, res), s1) \<leftarrow>
         uio_Control io
           \<lparr>rq_RequestType = 2, rq_Request = USB_REQ_CLEAR_FEATURE, rq_Value = USB_FEATURE_ENDPOINT_HALT,
            rq_Index = ucast ep, rq_Length = 0\<rparr>
           EfiUsbNoData (USB_BOOT_GENERAL_CMD_TIMEOUT div USB_MASS_1_MILLISECOND) [] 0 s;
       Some (r, s1) }"

section \<open>The bulk-only transport\<close>

record usb_bot =
  bot_Interface :: "byte list"
  bot_BulkIn :: "byte list option"
  bot_BulkOut :: "byte list option"
  bot_CbwTag :: u32

definition USB_BOT_CBW_SIGNATURE :: u32 where "USB_BOT_CBW_SIGNATURE = 0x43425355"
definition USB_BOT_CSW_SIGNATURE :: u32 where "USB_BOT_CSW_SIGNATURE = 0x53425355"
definition USB_BOT_MAX_CMDLEN :: nat where "USB_BOT_MAX_CMDLEN = 16"
definition USB_BOT_COMMAND_ERROR :: byte where "USB_BOT_COMMAND_ERROR = 2"
definition USB_BOT_RECV_CSW_RETRY :: nat where "USB_BOT_RECV_CSW_RETRY = 3"
definition USB_BOT_RESET_REQUEST :: byte where "USB_BOT_RESET_REQUEST = 0xFF"
definition USB_BOT_GETLUN_REQUEST :: byte where "USB_BOT_GETLUN_REQUEST = 0xFE"
definition USB_BOT_SEND_CBW_TIMEOUT :: nat where "USB_BOT_SEND_CBW_TIMEOUT = 3 * USB_MASS_1_SECOND"
definition USB_BOT_RECV_CSW_TIMEOUT :: nat where "USB_BOT_RECV_CSW_TIMEOUT = 3 * USB_MASS_1_SECOND"
definition USB_BOT_RESET_DEVICE_TIMEOUT :: nat where "USB_BOT_RESET_DEVICE_TIMEOUT = 3 * USB_MASS_1_SECOND"

text \<open>The loops over the endpoints keep the first one of each kind. Descriptors that cannot be read are skipped.\<close>

definition first_of :: "bool \<Rightarrow> byte list \<Rightarrow> byte list option \<Rightarrow> byte list option" where
  "first_of c e old = (if c \<and> old = None then Some e else old)"

primrec bot_endpoints ::
  "'s usb_io \<Rightarrow> nat \<Rightarrow> nat \<Rightarrow> byte list option \<times> byte list option \<Rightarrow> 's \<Rightarrow> (byte list option \<times> byte list option) option"
where
  "bot_endpoints io 0 i eps s = Some eps"
| "bot_endpoints io (Suc k) i eps s =
     do {
       r \<leftarrow> uio_Endpoint io (of_nat i) s;
       eps1 \<leftarrow>
         (case r of
            Inl x \<Rightarrow> Some eps
          | Inr e \<Rightarrow>
              do {
                attr \<leftarrow> EndpointAttributes e;
                if \<not> USB_IS_BULK_ENDPOINT attr then Some eps
                else do {
                  a \<leftarrow> EndpointAddress e;
                  Some (first_of (USB_IS_IN_ENDPOINT a) e (fst eps), first_of (\<not> USB_IS_IN_ENDPOINT a) e (snd eps)) } });
       bot_endpoints io k (i + 1) eps1 s }"

text \<open>\<open>ok\<close> is whether the allocation of the context succeeds: it is not checked.\<close>

definition UsbBotInit :: "bool \<Rightarrow> 's usb_io \<Rightarrow> 's \<Rightarrow> (efi_status + usb_bot) option" where
  "UsbBotInit ok io s =
     (if \<not> ok then None
      else do {
        r \<leftarrow> uio_Interface io s;
        (case r of
           Inl x \<Rightarrow> Some (Inl x)
         | Inr ifd \<Rightarrow>
             do {
               p \<leftarrow> InterfaceProtocol ifd;
               n \<leftarrow> InterfaceNumEndpoints ifd;
               if p \<noteq> USB_MASS_STORE_BOT then Some (Inl EFI_UNSUPPORTED)
               else do {
                 (bin, bout) \<leftarrow> bot_endpoints io (unat n) 0 (None, None) s;
                 if bin = None \<or> bout = None then Some (Inl EFI_UNSUPPORTED)
                 else Some (Inr \<lparr>bot_Interface = ifd, bot_BulkIn = bin, bot_BulkOut = bout, bot_CbwTag = 1\<rparr>) } }) })"

text \<open>The request goes to the interface. With \<open>verify\<close> the port of the device is reset first.\<close>

definition UsbBotResetDevice :: "'s usb_io \<Rightarrow> usb_bot \<Rightarrow> bool \<Rightarrow> 's \<Rightarrow> (efi_status \<times> 's) option" where
  "UsbBotResetDevice io b verify s =
     do {
       (r, s1) \<leftarrow> (if verify then uio_PortReset io s else Some (EFI_SUCCESS, s));
       if EFI_ERROR r then Some (EFI_DEVICE_ERROR, s1)
       else do {
         ifn \<leftarrow> InterfaceNumber (bot_Interface b);
         ((r1, x, res), s2) \<leftarrow>
           uio_Control io
             \<lparr>rq_RequestType = 0x21, rq_Request = USB_BOT_RESET_REQUEST, rq_Value = 0, rq_Index = ucast ifn, rq_Length = 0\<rparr>
             EfiUsbNoData (USB_BOT_RESET_DEVICE_TIMEOUT div USB_MASS_1_MILLISECOND) [] 0 s1;
         if EFI_ERROR r1 then Some (EFI_DEVICE_ERROR, s2)
         else do {
           bin \<leftarrow> bot_BulkIn b;
           ain \<leftarrow> EndpointAddress bin;
           (c1, s3) \<leftarrow> UsbClearEndpointStall io ain s2;
           bout \<leftarrow> bot_BulkOut b;
           aout \<leftarrow> EndpointAddress bout;
           (c2, s4) \<leftarrow> UsbClearEndpointStall io aout s3;
           Some (r1, s4) } } }"

text \<open>The wrapper of a command; a command of more than 16 bytes does not fit.\<close>

definition bot_cbw :: "u32 \<Rightarrow> byte list \<Rightarrow> usb_dir \<Rightarrow> u32 \<Rightarrow> byte \<Rightarrow> byte list" where
  "bot_cbw tag cmd dir len lun =
     to_le 4 USB_BOT_CBW_SIGNATURE @ to_le 4 tag @ to_le 4 len @
     [if dir = EfiUsbDataIn then 0x80 else 0, lun, of_nat (length cmd)] @
     cmd @ replicate (USB_BOT_MAX_CMDLEN - length cmd) 0"

definition UsbBotSendCommand ::
  "'s usb_io \<Rightarrow> usb_bot \<Rightarrow> byte list \<Rightarrow> usb_dir \<Rightarrow> u32 \<Rightarrow> byte \<Rightarrow> 's \<Rightarrow> (efi_status \<times> 's) option"
where
  "UsbBotSendCommand io b cmd dir len lun s =
     (if length cmd > USB_BOT_MAX_CMDLEN then None
      else do {
        bout \<leftarrow> bot_BulkOut b;
        aout \<leftarrow> EndpointAddress bout;
        ((r, x, n, res), s1) \<leftarrow>
          uio_Bulk io aout (bot_cbw (bot_CbwTag b) cmd dir len lun) 31 (USB_BOT_SEND_CBW_TIMEOUT div USB_MASS_1_MILLISECOND) s;
        if \<not> EFI_ERROR r then Some (r, s1)
        else if USB_IS_ERROR res EFI_USB_ERR_STALL \<and> dir = EfiUsbDataOut
        then do { (c, s2) \<leftarrow> UsbBotResetDevice io b False s1; Some (r, s2) }
        else if USB_IS_ERROR res EFI_USB_ERR_NAK then Some (EFI_NOT_READY, s1)
        else Some (r, s1) })"

text \<open>The result is the status, the buffer, and the number of bytes that were transferred.\<close>

definition UsbBotDataTransfer ::
  "'s usb_io \<Rightarrow> usb_bot \<Rightarrow> usb_dir \<Rightarrow> byte list \<Rightarrow> nat \<Rightarrow> nat \<Rightarrow> 's \<Rightarrow> ((efi_status \<times> byte list \<times> nat) \<times> 's) option"
where
  "UsbBotDataTransfer io b dir buf len timeout s =
     (if dir = EfiUsbNoData \<or> len = 0 then Some ((EFI_SUCCESS, buf, len), s)
      else do {
        e \<leftarrow> (if dir = EfiUsbDataIn then bot_BulkIn b else bot_BulkOut b);
        a \<leftarrow> EndpointAddress e;
        ((r, buf1, n, res), s1) \<leftarrow> uio_Bulk io a buf len (timeout div USB_MASS_1_MILLISECOND) s;
        if \<not> EFI_ERROR r then Some ((r, buf1, n), s1)
        else do {
          (r1, s2) \<leftarrow>
            (if USB_IS_ERROR res EFI_USB_ERR_STALL
             then do { (c, s2) \<leftarrow> UsbClearEndpointStall io a s1; Some (r, s2) }
             else if USB_IS_ERROR res EFI_USB_ERR_NAK then Some (EFI_NOT_READY, s1)
             else Some (r, s1));
          s3 \<leftarrow> (if r1 = EFI_TIMEOUT then map_option snd (UsbBotResetDevice io b False s2) else Some s2);
          Some ((r1, buf1, n), s3) } })"

text \<open>The result of the loop is the status and the status byte of the command.\<close>

primrec bot_status_loop ::
  "'s usb_io \<Rightarrow> usb_bot \<Rightarrow> byte \<Rightarrow> nat \<Rightarrow> efi_status \<Rightarrow> 's \<Rightarrow> ((efi_status \<times> byte) \<times> 's) option"
where
  "bot_status_loop io b a 0 r s = Some ((r, USB_BOT_COMMAND_ERROR), s)"
| "bot_status_loop io b a (Suc k) r s =
     do {
       ((r1, csw, n, res), s1) \<leftarrow> uio_Bulk io a (replicate 13 0) 13 (USB_BOT_RECV_CSW_TIMEOUT div USB_MASS_1_MILLISECOND) s;
       if EFI_ERROR r1 then do {
         s2 \<leftarrow>
           (if USB_IS_ERROR res EFI_USB_ERR_STALL then map_option snd (UsbClearEndpointStall io a s1) else Some s1);
         bot_status_loop io b a k r1 s2 }
       else do {
         sig \<leftarrow> le32 csw 0;
         st \<leftarrow> rd csw 12;
         if sig \<noteq> USB_BOT_CSW_SIGNATURE \<or> st = USB_BOT_COMMAND_ERROR
         then do { (r2, s2) \<leftarrow> UsbBotResetDevice io b False s1; bot_status_loop io b a k r2 s2 }
         else Some ((r1, st), s1) } }"

definition UsbBotGetStatus :: "'s usb_io \<Rightarrow> usb_bot \<Rightarrow> 's \<Rightarrow> ((efi_status \<times> byte) \<times> usb_bot \<times> 's) option" where
  "UsbBotGetStatus io b s =
     do {
       bin \<leftarrow> bot_BulkIn b;
       a \<leftarrow> EndpointAddress bin;
       (r, s1) \<leftarrow> bot_status_loop io b a USB_BOT_RECV_CSW_RETRY EFI_DEVICE_ERROR s;
       Some (r, b\<lparr>bot_CbwTag := bot_CbwTag b + 1\<rparr>, s1) }"

text \<open>The result is the status, the buffer and the result of the command. Whether the data arrived is not looked at.\<close>

definition UsbBotExecCommand ::
  "'s usb_io \<Rightarrow> usb_bot \<Rightarrow> byte list \<Rightarrow> usb_dir \<Rightarrow> byte list \<Rightarrow> u32 \<Rightarrow> byte \<Rightarrow> nat \<Rightarrow> 's \<Rightarrow>
    ((efi_status \<times> byte list \<times> u32) \<times> usb_bot \<times> 's) option"
where
  "UsbBotExecCommand io b cmd dir buf len lun timeout s =
     do {
       (r, s1) \<leftarrow> UsbBotSendCommand io b cmd dir len lun s;
       if EFI_ERROR r then Some ((r, buf, USB_MASS_CMD_FAIL), b, s1)
       else do {
         ((r1, buf1, n), s2) \<leftarrow> UsbBotDataTransfer io b dir buf (unat len) timeout s1;
         ((r2, st), b1, s3) \<leftarrow> UsbBotGetStatus io b s2;
         if EFI_ERROR r2 then Some ((r2, buf1, USB_MASS_CMD_FAIL), b1, s3)
         else Some ((EFI_SUCCESS, buf1, if st = 0 then USB_MASS_CMD_SUCCESS else USB_MASS_CMD_FAIL), b1, s3) } }"

text \<open>The byte is what the device sent, or what it was before.\<close>

definition UsbBotGetMaxLun :: "'s usb_io \<Rightarrow> usb_bot \<Rightarrow> byte \<Rightarrow> 's \<Rightarrow> ((efi_status \<times> byte) \<times> 's) option" where
  "UsbBotGetMaxLun io b lun s =
     do {
       ifn \<leftarrow> InterfaceNumber (bot_Interface b);
       ((r, x, res), s1) \<leftarrow>
         uio_Control io
           \<lparr>rq_RequestType = 0xA1, rq_Request = USB_BOT_GETLUN_REQUEST, rq_Value = 0, rq_Index = ucast ifn, rq_Length = 1\<rparr>
           EfiUsbDataIn (USB_BOT_RESET_DEVICE_TIMEOUT div USB_MASS_1_MILLISECOND) [lun] 1 s;
       l \<leftarrow> rd x 0;
       Some ((r, l), s1) }"

section \<open>The control, bulk and interrupt transport\<close>

record usb_cbi =
  cbi_Interface :: "byte list"
  cbi_BulkIn :: "byte list option"
  cbi_BulkOut :: "byte list option"
  cbi_Interrupt :: "byte list option"

definition USB_CBI_MAX_PACKET_NUM :: nat where "USB_CBI_MAX_PACKET_NUM = 16"
definition USB_CBI_RESET_CMD_LEN :: nat where "USB_CBI_RESET_CMD_LEN = 12"
definition USB_CBI_MAX_RETRY :: nat where "USB_CBI_MAX_RETRY = 3"
definition USB_CBI_RESET_DEVICE_TIMEOUT :: nat where "USB_CBI_RESET_DEVICE_TIMEOUT = USB_MASS_1_SECOND"

primrec cbi_endpoints ::
  "'s usb_io \<Rightarrow> byte \<Rightarrow> nat \<Rightarrow> nat \<Rightarrow> byte list option \<times> byte list option \<times> byte list option \<Rightarrow> 's \<Rightarrow>
    (byte list option \<times> byte list option \<times> byte list option) option"
where
  "cbi_endpoints io p 0 i eps s = Some eps"
| "cbi_endpoints io p (Suc k) i eps s =
     do {
       r \<leftarrow> uio_Endpoint io (of_nat i) s;
       eps1 \<leftarrow>
         (case (r, eps) of
            (Inl x, _) \<Rightarrow> Some eps
          | (Inr e, bin, bout, intr) \<Rightarrow>
              do {
                attr \<leftarrow> EndpointAttributes e;
                a \<leftarrow> EndpointAddress e;
                if USB_IS_BULK_ENDPOINT attr
                then Some (first_of (USB_IS_IN_ENDPOINT a) e bin, first_of (\<not> USB_IS_IN_ENDPOINT a) e bout, intr)
                else if USB_IS_INTERRUPT_ENDPOINT attr
                then Some (bin, bout, first_of (p = USB_MASS_STORE_CBI0) e intr)
                else Some eps });
       cbi_endpoints io p k (i + 1) eps1 s }"

definition UsbCbiInit :: "bool \<Rightarrow> 's usb_io \<Rightarrow> 's \<Rightarrow> (efi_status + usb_cbi) option" where
  "UsbCbiInit ok io s =
     (if \<not> ok then None
      else do {
        r \<leftarrow> uio_Interface io s;
        (case r of
           Inl x \<Rightarrow> Some (Inl x)
         | Inr ifd \<Rightarrow>
             do {
               p \<leftarrow> InterfaceProtocol ifd;
               n \<leftarrow> InterfaceNumEndpoints ifd;
               if p \<noteq> USB_MASS_STORE_CBI0 \<and> p \<noteq> USB_MASS_STORE_CBI1 then Some (Inl EFI_UNSUPPORTED)
               else do {
                 (bin, bout, intr) \<leftarrow> cbi_endpoints io p (unat n) 0 (None, None, None) s;
                 if bin = None \<or> bout = None then Some (Inl EFI_UNSUPPORTED)
                 else if p = USB_MASS_STORE_CBI0 \<and> intr = None then Some (Inl EFI_UNSUPPORTED)
                 else Some (Inr \<lparr>cbi_Interface = ifd, cbi_BulkIn = bin, cbi_BulkOut = bout, cbi_Interrupt = intr\<rparr>) } }) })"

text \<open>A command is tried again while the device answers with NAK, three times in all.\<close>

primrec cbi_send_loop :: "'s usb_io \<Rightarrow> usb_request \<Rightarrow> byte list \<Rightarrow> nat \<Rightarrow> nat \<Rightarrow> efi_status \<Rightarrow> 's \<Rightarrow> (efi_status \<times> 's) option" where
  "cbi_send_loop io req cmd timeout 0 r s = Some (r, s)"
| "cbi_send_loop io req cmd timeout (Suc k) r s =
     do {
       ((r1, x, res), s1) \<leftarrow> uio_Control io req EfiUsbDataOut timeout cmd (length cmd) s;
       if EFI_ERROR r1 \<and> only_error res EFI_USB_ERR_NAK then cbi_send_loop io req cmd timeout k r1 s1
       else Some (r1, s1) }"

definition UsbCbiSendCommand :: "'s usb_io \<Rightarrow> usb_cbi \<Rightarrow> byte list \<Rightarrow> nat \<Rightarrow> 's \<Rightarrow> (efi_status \<times> 's) option" where
  "UsbCbiSendCommand io c cmd timeout s =
     do {
       ifn \<leftarrow> InterfaceNumber (cbi_Interface c);
       cbi_send_loop io
         \<lparr>rq_RequestType = 0x21, rq_Request = 0, rq_Value = 0, rq_Index = ucast ifn, rq_Length = of_nat (length cmd)\<rparr>
         cmd (timeout div USB_MASS_1_MILLISECOND) USB_CBI_MAX_RETRY EFI_SUCCESS s }"

text \<open>
  The data phase moves pieces of at most 16 packets. The result of the loop is the status, the bytes that remain, and
  the buffer. A piece after which the device answers with NAK is counted, and the rest is tried again, at most three
  times when nothing arrives. After a success there is no such limit.
\<close>

partial_function (option) cbi_data_loop ::
  "'s usb_io \<Rightarrow> byte \<Rightarrow> nat \<Rightarrow> nat \<Rightarrow> nat \<Rightarrow> nat \<Rightarrow> nat \<Rightarrow> efi_status \<Rightarrow> byte list \<Rightarrow> 's \<Rightarrow>
    ((efi_status \<times> nat \<times> byte list) \<times> 's) option"
where
  "cbi_data_loop io a maxp timeout at remain retry r buf s =
     (if remain = 0 then Some ((r, remain, buf), s)
      else do {
        ((r1, b1, n, res), s1) \<leftarrow>
          uio_Bulk io a (drop at buf) (min remain (USB_CBI_MAX_PACKET_NUM * maxp)) timeout s;
        let buf1 = take at buf @ b1;
        if \<not> EFI_ERROR r1 then cbi_data_loop io a maxp timeout (at + n) (remain - n) retry r1 buf1 s1
        else if only_error res EFI_USB_ERR_NAK
        then (if n = 0
              then (if retry + 1 > USB_CBI_MAX_RETRY then Some ((r1, remain, buf1), s1)
                    else cbi_data_loop io a maxp timeout at remain (retry + 1) r1 buf1 s1)
              else cbi_data_loop io a maxp timeout (at + n) (remain - n) 0 r1 buf1 s1)
        else if only_error res EFI_USB_ERR_STALL
        then do { (c, s2) \<leftarrow> UsbClearEndpointStall io a s1; Some ((r1, remain, buf1), s2) }
        else Some ((r1, remain, buf1), s1) })"

definition UsbCbiDataTransfer ::
  "'s usb_io \<Rightarrow> usb_cbi \<Rightarrow> usb_dir \<Rightarrow> byte list \<Rightarrow> nat \<Rightarrow> nat \<Rightarrow> 's \<Rightarrow> ((efi_status \<times> byte list \<times> nat) \<times> 's) option"
where
  "UsbCbiDataTransfer io c dir buf len timeout s =
     (if dir = EfiUsbNoData \<or> len = 0 then Some ((EFI_SUCCESS, buf, len), s)
      else do {
        e \<leftarrow> (if dir = EfiUsbDataIn then cbi_BulkIn c else cbi_BulkOut c);
        a \<leftarrow> EndpointAddress e;
        maxp \<leftarrow> MaxPacketSize e;
        ((r, remain, buf1), s1) \<leftarrow>
          cbi_data_loop io a (unat maxp) (timeout div USB_MASS_1_MILLISECOND) 0 len 0 EFI_SUCCESS buf s;
        Some ((r, buf1, len - remain), s1) })"

text \<open>The two bytes of the interrupt endpoint; a CBI1 device has none, and its pointer is NULL.\<close>

primrec cbi_status_loop ::
  "'s usb_io \<Rightarrow> byte \<Rightarrow> nat \<Rightarrow> nat \<Rightarrow> efi_status \<Rightarrow> byte list \<Rightarrow> 's \<Rightarrow> ((efi_status \<times> byte list) \<times> 's) option"
where
  "cbi_status_loop io a timeout 0 r buf s = Some ((r, buf), s)"
| "cbi_status_loop io a timeout (Suc k) r buf s =
     do {
       ((r1, buf1, n, res), s1) \<leftarrow> uio_SyncInterrupt io a buf 2 timeout s;
       if EFI_ERROR r1 \<and> only_error res EFI_USB_ERR_NAK then cbi_status_loop io a timeout k r1 buf1 s1
       else Some ((r1, buf1), s1) }"

definition UsbCbiGetStatus ::
  "'s usb_io \<Rightarrow> usb_cbi \<Rightarrow> nat \<Rightarrow> byte list \<Rightarrow> 's \<Rightarrow> ((efi_status \<times> byte list) \<times> 's) option"
where
  "UsbCbiGetStatus io c timeout buf s =
     do {
       e \<leftarrow> cbi_Interrupt c;
       a \<leftarrow> EndpointAddress e;
       cbi_status_loop io a (timeout div USB_MASS_1_MILLISECOND) USB_CBI_MAX_RETRY EFI_SUCCESS buf s }"

text \<open>\<open>stk\<close> is the uninitialised result of two bytes.\<close>

definition UsbCbiResetDevice :: "'s usb_io \<Rightarrow> byte list \<Rightarrow> usb_cbi \<Rightarrow> bool \<Rightarrow> 's \<Rightarrow> (efi_status \<times> 's) option" where
  "UsbCbiResetDevice io stk c verify s =
     do {
       (r, s1) \<leftarrow>
         UsbCbiSendCommand io c ([0x1D, 4] @ replicate (USB_CBI_RESET_CMD_LEN - 2) 0xFF)
           (USB_CBI_RESET_DEVICE_TIMEOUT div USB_MASS_1_MILLISECOND) s;
       if EFI_ERROR r then Some (EFI_DEVICE_ERROR, s1)
       else do {
         (x, s2) \<leftarrow> UsbCbiGetStatus io c (USB_CBI_RESET_DEVICE_TIMEOUT div USB_MASS_1_MILLISECOND) stk s1;
         bin \<leftarrow> cbi_BulkIn c;
         ain \<leftarrow> EndpointAddress bin;
         (c1, s3) \<leftarrow> UsbClearEndpointStall io ain s2;
         bout \<leftarrow> cbi_BulkOut c;
         aout \<leftarrow> EndpointAddress bout;
         (c2, s4) \<leftarrow> UsbClearEndpointStall io aout s3;
         Some (r, s4) } }"

text \<open>The result of the command, from the two status bytes: UFI devices report a code, the others a value.\<close>

definition cbi_interpret ::
  "'s usb_io \<Rightarrow> byte list \<Rightarrow> usb_cbi \<Rightarrow> byte list \<Rightarrow> byte list \<Rightarrow> 's \<Rightarrow> (u32 \<times> 's) option"
where
  "cbi_interpret io stk c cmd result s =
     do {
       sub \<leftarrow> InterfaceSubClass (cbi_Interface c);
       ty \<leftarrow> rd result 0;
       val \<leftarrow> rd result 1;
       if sub = USB_MASS_STORE_UFI then do {
         op \<leftarrow> (if ty \<noteq> 0 then rd cmd 0 else Some 3);
         Some (if ty \<noteq> 0 \<and> op \<noteq> 3 then USB_MASS_CMD_FAIL else USB_MASS_CMD_SUCCESS, s) }
       else if val AND 3 = 0 then Some (USB_MASS_CMD_SUCCESS, s)
       else if val AND 3 = 2 then do { (r, s1) \<leftarrow> UsbCbiResetDevice io stk c False s; Some (USB_MASS_CMD_FAIL, s1) }
       else if val AND 3 = 1 then Some (USB_MASS_CMD_FAIL, s)
       else Some (USB_MASS_CMD_PERSISTENT, s) }"

definition UsbCbiExecCommand ::
  "'s usb_io \<Rightarrow> byte list \<Rightarrow> usb_cbi \<Rightarrow> byte list \<Rightarrow> usb_dir \<Rightarrow> byte list \<Rightarrow> u32 \<Rightarrow> byte \<Rightarrow> nat \<Rightarrow> 's \<Rightarrow>
    ((efi_status \<times> byte list \<times> u32) \<times> 's) option"
where
  "UsbCbiExecCommand io stk c cmd dir buf len lun timeout s =
     do {
       (r, s1) \<leftarrow> UsbCbiSendCommand io c cmd timeout s;
       if EFI_ERROR r then Some ((r, buf, USB_MASS_CMD_SUCCESS), s1)
       else do {
         ((r1, buf1, n), s2) \<leftarrow> UsbCbiDataTransfer io c dir buf (unat len) timeout s1;
         if cbi_Interrupt c = None then Some ((r1, buf1, USB_MASS_CMD_SUCCESS), s2)
         else do {
           ((r2, result), s3) \<leftarrow> UsbCbiGetStatus io c timeout stk s2;
           if EFI_ERROR r2 then Some ((r2, buf1, USB_MASS_CMD_SUCCESS), s3)
           else do { (x, s4) \<leftarrow> cbi_interpret io stk c cmd result s3; Some ((EFI_SUCCESS, buf1, x), s4) } } } }"

section \<open>The table of transports\<close>

datatype usb_mass_transport = mUsbCbi0Transport | mUsbCbi1Transport | mUsbBotTransport

datatype mass_ctx = BotCtx usb_bot | CbiCtx usb_cbi

definition mUsbMassTransport :: "usb_mass_transport list" where
  "mUsbMassTransport = [mUsbCbi0Transport, mUsbCbi1Transport, mUsbBotTransport]"

primrec Transport_Protocol :: "usb_mass_transport \<Rightarrow> byte" where
  "Transport_Protocol mUsbCbi0Transport = USB_MASS_STORE_CBI0"
| "Transport_Protocol mUsbCbi1Transport = USB_MASS_STORE_CBI1"
| "Transport_Protocol mUsbBotTransport = USB_MASS_STORE_BOT"

text \<open>The interface descriptor is the first field of both contexts.\<close>

primrec ctx_Interface :: "mass_ctx \<Rightarrow> byte list" where
  "ctx_Interface (BotCtx b) = bot_Interface b"
| "ctx_Interface (CbiCtx c) = cbi_Interface c"

definition Transport_Init :: "usb_mass_transport \<Rightarrow> bool \<Rightarrow> 's usb_io \<Rightarrow> 's \<Rightarrow> (efi_status + mass_ctx) option" where
  "Transport_Init t ok io s =
     (if t = mUsbBotTransport then map_option (map_sum id BotCtx) (UsbBotInit ok io s)
      else map_option (map_sum id CbiCtx) (UsbCbiInit ok io s))"

text \<open>Calling a routine of one transport with the context of the other is undefined.\<close>

definition Transport_ExecCommand ::
  "usb_mass_transport \<Rightarrow> 's usb_io \<Rightarrow> byte list \<Rightarrow> mass_ctx \<Rightarrow> byte list \<Rightarrow> usb_dir \<Rightarrow> byte list \<Rightarrow> u32 \<Rightarrow> byte \<Rightarrow> nat \<Rightarrow>
    's \<Rightarrow> ((efi_status \<times> byte list \<times> u32) \<times> mass_ctx \<times> 's) option"
where
  "Transport_ExecCommand t io stk ctx cmd dir buf len lun timeout s =
     (case ctx of
        BotCtx b \<Rightarrow>
          if t \<noteq> mUsbBotTransport then None
          else do { (r, b1, s1) \<leftarrow> UsbBotExecCommand io b cmd dir buf len lun timeout s; Some (r, BotCtx b1, s1) }
      | CbiCtx c \<Rightarrow>
          if t = mUsbBotTransport then None
          else do { (r, s1) \<leftarrow> UsbCbiExecCommand io stk c cmd dir buf len lun timeout s; Some (r, CbiCtx c, s1) })"

definition Transport_Reset ::
  "usb_mass_transport \<Rightarrow> 's usb_io \<Rightarrow> byte list \<Rightarrow> mass_ctx \<Rightarrow> bool \<Rightarrow> 's \<Rightarrow> (efi_status \<times> 's) option"
where
  "Transport_Reset t io stk ctx verify s =
     (case ctx of
        BotCtx b \<Rightarrow> if t \<noteq> mUsbBotTransport then None else UsbBotResetDevice io b verify s
      | CbiCtx c \<Rightarrow> if t = mUsbBotTransport then None else UsbCbiResetDevice io stk c verify s)"

text \<open>The table has a routine for the number of units only for the bulk-only transport.\<close>

definition Transport_GetMaxLun ::
  "usb_mass_transport \<Rightarrow> 's usb_io \<Rightarrow> mass_ctx \<Rightarrow> byte \<Rightarrow> 's \<Rightarrow> ((efi_status \<times> byte) \<times> 's) option"
where
  "Transport_GetMaxLun t io ctx lun s =
     (case ctx of
        BotCtx b \<Rightarrow> if t \<noteq> mUsbBotTransport then None else UsbBotGetMaxLun io b lun s
      | CbiCtx c \<Rightarrow> None)"

end
