(* ===== verification/MassBoot.thy ===== *)
theory MassBoot
  imports MassIo
begin

text \<open>
  The commands of the USB mass storage driver (\<^verbatim>\<open>UsbMassBoot.c\<close>): how a command is issued, its errors asked for and
  tried again, and the commands that find out what the medium is and move its blocks.

  A state holds the device structure, the context of its transport and what is outside. Task priority levels are
  left out; announcing the medium again is a function on what is outside.
\<close>

section \<open>The state\<close>

record block_media =
  bm_MediaId :: u32
  bm_RemovableMedia :: bool
  bm_MediaPresent :: bool
  bm_LogicalPartition :: bool
  bm_ReadOnly :: bool
  bm_WriteCaching :: bool
  bm_BlockSize :: u32
  bm_IoAlign :: u32
  bm_LastBlock :: u64
  bm_LowestAlignedLba :: u64
  bm_LogicalBlocksPerPhysicalBlock :: u32

record mass_dev =
  md_Controller :: "nat option"
  md_DevicePath :: "nat option"
  md_Media :: block_media
  md_OpticalStorage :: bool
  md_Lun :: byte
  md_Pdt :: byte
  md_Transport :: usb_mass_transport
  md_Context :: nat
  md_DiskInfo :: bool
  md_InquiryData :: "byte list"
  md_Cdb16Byte :: bool

record 's mass =
  ms_dev :: mass_dev
  ms_ctx :: mass_ctx
  ms_ext :: 's

text \<open>The services: the protocol of the interface, the pool, the stack, one-shot timers, and the handle database.\<close>

datatype mass_proto = MassUsbIo | MassDevicePath | MassBlockIo

record 's mass_env =
  me_io :: "'s usb_io"
  me_pool :: "nat \<Rightarrow> bool"
  me_stack :: "byte list"
  me_CreateEvent :: "'s \<Rightarrow> (efi_status \<times> nat) \<times> 's"
  me_SetTimer :: "nat \<Rightarrow> 's \<Rightarrow> efi_status \<times> 's"
  me_CheckEvent :: "nat \<Rightarrow> 's \<Rightarrow> efi_status \<times> 's"
  me_CloseEvent :: "nat \<Rightarrow> 's \<Rightarrow> 's"
  me_Reinstall :: "nat option \<Rightarrow> 's \<Rightarrow> 's"
  me_OpenProtocol :: "nat \<Rightarrow> mass_proto \<Rightarrow> open_mode \<Rightarrow> 's \<Rightarrow> (efi_status \<times> nat) \<times> 's"
  me_CloseProtocol :: "nat \<Rightarrow> mass_proto \<Rightarrow> open_mode \<Rightarrow> 's \<Rightarrow> 's"
  me_PathAt :: "nat \<Rightarrow> 's \<Rightarrow> dev_path"
  me_Install :: "nat option \<Rightarrow> nat option \<Rightarrow> nat \<Rightarrow> 's \<Rightarrow> (efi_status \<times> nat) \<times> 's"
  me_Uninstall :: "nat \<Rightarrow> nat option \<Rightarrow> nat \<Rightarrow> 's \<Rightarrow> efi_status \<times> 's"

definition mass_junk :: "'s mass_env \<Rightarrow> byte list" where
  "mass_junk env = take 2 (me_stack env @ [0, 0])"

definition ms_media :: "'s mass \<Rightarrow> block_media" where
  "ms_media m = md_Media (ms_dev m)"

definition upd_media :: "(block_media \<Rightarrow> block_media) \<Rightarrow> 's mass \<Rightarrow> 's mass" where
  "upd_media f m = m\<lparr>ms_dev := (ms_dev m)\<lparr>md_Media := f (ms_media m)\<rparr>\<rparr>"

definition upd_dev_of :: "(mass_dev \<Rightarrow> mass_dev) \<Rightarrow> 's mass \<Rightarrow> 's mass" where
  "upd_dev_of f m = m\<lparr>ms_dev := f (ms_dev m)\<rparr>"

section \<open>Commands\<close>

definition USB_BOOT_INQUIRY_OPCODE :: byte where "USB_BOOT_INQUIRY_OPCODE = 0x12"
definition USB_BOOT_REQUEST_SENSE_OPCODE :: byte where "USB_BOOT_REQUEST_SENSE_OPCODE = 3"
definition USB_BOOT_READ_CAPACITY_OPCODE :: byte where "USB_BOOT_READ_CAPACITY_OPCODE = 0x25"
definition USB_BOOT_TEST_UNIT_READY_OPCODE :: byte where "USB_BOOT_TEST_UNIT_READY_OPCODE = 0"
definition USB_BOOT_READ10_OPCODE :: byte where "USB_BOOT_READ10_OPCODE = 0x28"
definition USB_BOOT_WRITE10_OPCODE :: byte where "USB_BOOT_WRITE10_OPCODE = 0x2A"
definition USB_SCSI_MODE_SENSE6_OPCODE :: byte where "USB_SCSI_MODE_SENSE6_OPCODE = 0x1A"
definition EFI_SCSI_OP_READ_CAPACITY16 :: byte where "EFI_SCSI_OP_READ_CAPACITY16 = 0x9E"
definition EFI_SCSI_OP_READ16 :: byte where "EFI_SCSI_OP_READ16 = 0x88"
definition EFI_SCSI_OP_WRITE16 :: byte where "EFI_SCSI_OP_WRITE16 = 0x8A"

definition USB_BOOT_ASC_NOT_READY :: byte where "USB_BOOT_ASC_NOT_READY = 4"
definition USB_BOOT_ASC_NO_MEDIA :: byte where "USB_BOOT_ASC_NO_MEDIA = 0x3A"
definition USB_BOOT_ASC_MEDIA_CHANGE :: byte where "USB_BOOT_ASC_MEDIA_CHANGE = 0x28"

definition USB_PDT_DIRECT_ACCESS :: byte where "USB_PDT_DIRECT_ACCESS = 0"
definition USB_PDT_CDROM :: byte where "USB_PDT_CDROM = 5"
definition USB_PDT_OPTICAL :: byte where "USB_PDT_OPTICAL = 7"
definition USB_PDT_SIMPLE_DIRECT :: byte where "USB_PDT_SIMPLE_DIRECT = 0xE"

definition USB_BOOT_IO_BLOCKS :: nat where "USB_BOOT_IO_BLOCKS = 128"
definition USB_BOOT_COMMAND_RETRY :: nat where "USB_BOOT_COMMAND_RETRY = 5"

definition USB_BOOT_LUN :: "byte \<Rightarrow> byte" where
  "USB_BOOT_LUN lun = push_bit 5 lun"

definition sense_cmd :: "byte \<Rightarrow> byte list" where
  "sense_cmd lun = [USB_BOOT_REQUEST_SENSE_OPCODE, USB_BOOT_LUN lun, 0, 0, 18, 0, 0, 0, 0, 0, 0, 0]"

definition test_cmd :: "byte \<Rightarrow> byte list" where
  "test_cmd lun = [USB_BOOT_TEST_UNIT_READY_OPCODE, USB_BOOT_LUN lun, 0, 0, 0, 0, 0, 0, 0, 0, 0, 0]"

definition inquiry_cmd :: "byte \<Rightarrow> byte list" where
  "inquiry_cmd lun = [USB_BOOT_INQUIRY_OPCODE, USB_BOOT_LUN lun, 0, 0, 36, 0, 0, 0, 0, 0, 0, 0]"

definition capacity_cmd :: "byte \<Rightarrow> byte list" where
  "capacity_cmd lun = [USB_BOOT_READ_CAPACITY_OPCODE, USB_BOOT_LUN lun, 0, 0, 0, 0, 0, 0, 0, 0, 0, 0]"

definition capacity16_cmd :: "byte list" where
  "capacity16_cmd = [EFI_SCSI_OP_READ_CAPACITY16, 0x10, 0, 0, 0, 0, 0, 0, 0, 0, 0, 0, 0, 32, 0, 0]"

definition mode_sense_cmd :: "byte \<Rightarrow> byte list" where
  "mode_sense_cmd lun = [USB_SCSI_MODE_SENSE6_OPCODE, USB_BOOT_LUN lun, 0x3F, 0, 4, 0]"

definition rw10_cmd :: "byte \<Rightarrow> byte \<Rightarrow> u32 \<Rightarrow> u16 \<Rightarrow> byte list" where
  "rw10_cmd opc lun lba count = [opc, USB_BOOT_LUN lun] @ to_be 4 lba @ [0] @ to_be 2 count @ [0, 0, 0]"

definition rw16_cmd :: "byte \<Rightarrow> byte \<Rightarrow> u64 \<Rightarrow> u16 \<Rightarrow> byte list" where
  "rw16_cmd opc lun lba count = [opc, USB_BOOT_LUN lun AND 0xE0] @ to_be 8 lba @ to_be 4 (ucast count :: u32) @ [0, 0]"

section \<open>Issuing a command\<close>

definition mass_exec ::
  "'s mass_env \<Rightarrow> byte list \<Rightarrow> usb_dir \<Rightarrow> byte list \<Rightarrow> u32 \<Rightarrow> nat \<Rightarrow> 's mass \<Rightarrow> ((efi_status \<times> byte list \<times> u32) \<times> 's mass) option"
where
  "mass_exec env cmd dir buf len timeout m =
     do {
       (r, c, s) \<leftarrow>
         Transport_ExecCommand (md_Transport (ms_dev m)) (me_io env) (mass_junk env) (ms_ctx m) cmd dir buf len
           (md_Lun (ms_dev m)) timeout (ms_ext m);
       Some (r, m\<lparr>ms_ctx := c, ms_ext := s\<rparr>) }"

text \<open>What the sense data say, and what they change of the medium.\<close>

definition sense_result :: "byte \<Rightarrow> byte \<Rightarrow> efi_status \<times> (block_media \<Rightarrow> block_media)" where
  "sense_result key asc =
     (if key = 0 then (EFI_NO_RESPONSE, id)
      else if key = 1 then (EFI_NOT_READY, id)
      else if key = 2 then
        (if asc = USB_BOOT_ASC_NO_MEDIA then (EFI_NO_MEDIA, \<lambda>b. b\<lparr>bm_MediaPresent := False\<rparr>)
         else if asc = USB_BOOT_ASC_NOT_READY then (EFI_NOT_READY, id)
         else (EFI_DEVICE_ERROR, id))
      else if key = 5 then (EFI_INVALID_PARAMETER, id)
      else if key = 6 then
        (if asc = USB_BOOT_ASC_MEDIA_CHANGE
         then (EFI_MEDIA_CHANGED, \<lambda>b. b\<lparr>bm_ReadOnly := False, bm_MediaId := bm_MediaId b + 1\<rparr>)
         else (EFI_DEVICE_ERROR, id))
      else if key = 7 then (EFI_WRITE_PROTECTED, \<lambda>b. b\<lparr>bm_ReadOnly := True\<rparr>)
      else (EFI_DEVICE_ERROR, id))"

definition UsbBootRequestSense :: "'s mass_env \<Rightarrow> 's mass \<Rightarrow> (efi_status \<times> 's mass) option" where
  "UsbBootRequestSense env m =
     do {
       ((r, data, res), m1) \<leftarrow>
         mass_exec env (sense_cmd (md_Lun (ms_dev m))) EfiUsbDataIn (replicate 18 0) 18 USB_BOOT_GENERAL_CMD_TIMEOUT m;
       if EFI_ERROR r then Some (r, m1)
       else if res \<noteq> USB_MASS_CMD_SUCCESS then Some (EFI_DEVICE_ERROR, m1)
       else do {
         key \<leftarrow> rd data 2;
         asc \<leftarrow> rd data 12;
         let (x, f) = sense_result (key AND 0xF) asc;
         Some (x, upd_media f m1) } }"

definition UsbBootExecCmd ::
  "'s mass_env \<Rightarrow> byte list \<Rightarrow> usb_dir \<Rightarrow> byte list \<Rightarrow> u32 \<Rightarrow> nat \<Rightarrow> 's mass \<Rightarrow> ((efi_status \<times> byte list) \<times> 's mass) option"
where
  "UsbBootExecCmd env cmd dir buf len timeout m =
     do {
       ((r, buf1, res), m1) \<leftarrow> mass_exec env cmd dir buf len timeout m;
       if r = EFI_TIMEOUT then Some ((r, buf1), m1)
       else if res = USB_MASS_CMD_SUCCESS \<and> \<not> EFI_ERROR r then Some ((EFI_SUCCESS, buf1), m1)
       else do { (x, m2) \<leftarrow> UsbBootRequestSense env m1; Some ((x, buf1), m2) } }"

text \<open>
  A device that is not ready is asked again until the timer of a minute expires. Other errors are tried five times
  more.
\<close>

partial_function (option) boot_retry_loop ::
  "'s mass_env \<Rightarrow> nat \<Rightarrow> byte list \<Rightarrow> usb_dir \<Rightarrow> u32 \<Rightarrow> nat \<Rightarrow> nat \<Rightarrow> efi_status \<Rightarrow> byte list \<Rightarrow> 's mass \<Rightarrow>
    ((efi_status \<times> byte list) \<times> 's mass) option"
where
  "boot_retry_loop env evt cmd dir len timeout retry r buf m =
     (let (expired, s1) = me_CheckEvent env evt (ms_ext m) in
      if \<not> EFI_ERROR expired then Some ((r, buf), m\<lparr>ms_ext := s1\<rparr>)
      else do {
        ((r1, buf1), m1) \<leftarrow> UsbBootExecCmd env cmd dir buf len timeout (m\<lparr>ms_ext := s1\<rparr>);
        if r1 = EFI_SUCCESS \<or> r1 = EFI_MEDIA_CHANGED \<or> r1 = EFI_NO_MEDIA then Some ((r1, buf1), m1)
        else if r1 = EFI_NOT_READY then boot_retry_loop env evt cmd dir len timeout retry r1 buf1 m1
        else if retry \<ge> USB_BOOT_COMMAND_RETRY then Some ((r1, buf1), m1)
        else boot_retry_loop env evt cmd dir len timeout (retry + 1) r1 buf1 m1 })"

definition UsbBootExecCmdWithRetry ::
  "'s mass_env \<Rightarrow> byte list \<Rightarrow> usb_dir \<Rightarrow> byte list \<Rightarrow> u32 \<Rightarrow> nat \<Rightarrow> 's mass \<Rightarrow> ((efi_status \<times> byte list) \<times> 's mass) option"
where
  "UsbBootExecCmdWithRetry env cmd dir buf len timeout m =
     (let ((r, evt), s1) = me_CreateEvent env (ms_ext m) in
      if EFI_ERROR r then Some ((r, buf), m\<lparr>ms_ext := s1\<rparr>)
      else
        (let (r1, s2) = me_SetTimer env evt s1 in
         do {
           ((r2, buf1), m1) \<leftarrow>
             (if EFI_ERROR r1 then Some ((r1, buf), m\<lparr>ms_ext := s2\<rparr>)
              else boot_retry_loop env evt cmd dir len timeout 0 r1 buf (m\<lparr>ms_ext := s2\<rparr>));
           Some ((r2, buf1), m1\<lparr>ms_ext := me_CloseEvent env evt (ms_ext m1)\<rparr>) }))"

definition UsbBootIsUnitReady :: "'s mass_env \<Rightarrow> 's mass \<Rightarrow> (efi_status \<times> 's mass) option" where
  "UsbBootIsUnitReady env m =
     do {
       ((r, b), m1) \<leftarrow>
         UsbBootExecCmdWithRetry env (test_cmd (md_Lun (ms_dev m))) EfiUsbNoData [] 0 USB_BOOT_GENERAL_CMD_TIMEOUT m;
       Some (r, m1) }"

section \<open>The medium\<close>

text \<open>The data go into the device structure, whatever the status is.\<close>

definition UsbBootInquiry :: "'s mass_env \<Rightarrow> 's mass \<Rightarrow> (efi_status \<times> 's mass) option" where
  "UsbBootInquiry env m =
     do {
       ((r, data), m1) \<leftarrow>
         UsbBootExecCmdWithRetry env (inquiry_cmd (md_Lun (ms_dev m))) EfiUsbDataIn (replicate 36 0) 36
           USB_BOOT_GENERAL_CMD_TIMEOUT m;
       let m2 = upd_dev_of (\<lambda>d. d\<lparr>md_InquiryData := data\<rparr>) m1;
       if EFI_ERROR r then Some (r, m2)
       else do {
         pdt \<leftarrow> rd data 0;
         rmb \<leftarrow> rd data 1;
         Some (r,
           upd_media (\<lambda>b. b\<lparr>bm_RemovableMedia := bit rmb 7, bm_BlockSize := 0x200\<rparr>)
             (upd_dev_of (\<lambda>d. d\<lparr>md_Pdt := pdt AND 0x1F\<rparr>) m2)) } }"

text \<open>Shifting the number one, an \<open>int\<close>, by 31 or more places is undefined.\<close>

definition UsbBootReadCapacity16 :: "'s mass_env \<Rightarrow> 's mass \<Rightarrow> (efi_status \<times> 's mass) option" where
  "UsbBootReadCapacity16 env m =
     do {
       ((r, data), m1) \<leftarrow>
         UsbBootExecCmdWithRetry env capacity16_cmd EfiUsbDataIn (replicate 32 0) 32 USB_BOOT_GENERAL_CMD_TIMEOUT
           (upd_media (\<lambda>b. b\<lparr>bm_MediaPresent := False, bm_LastBlock := 0, bm_BlockSize := 0\<rparr>) m);
       if EFI_ERROR r then Some (r, m1)
       else do {
         lst \<leftarrow> be64 data 0;
         bs \<leftarrow> be32 data 8;
         e \<leftarrow> rd data 13;
         l2 \<leftarrow> rd data 14;
         l1 \<leftarrow> rd data 15;
         if unat e \<ge> 31 then None
         else
           (let m2 =
              upd_media
                (\<lambda>b. b\<lparr>bm_MediaPresent := True, bm_LastBlock := lst,
                       bm_LowestAlignedLba := push_bit 8 (ucast l2) OR ucast l1,
                       bm_LogicalBlocksPerPhysicalBlock := push_bit (unat e) 1\<rparr>) m1 in
            if bs = 0 then UsbBootRequestSense env m2
            else Some (r, upd_media (\<lambda>b. b\<lparr>bm_BlockSize := bs\<rparr>) m2)) } }"

definition UsbBootReadCapacity :: "'s mass_env \<Rightarrow> 's mass \<Rightarrow> (efi_status \<times> 's mass) option" where
  "UsbBootReadCapacity env m =
     do {
       ((r, data), m1) \<leftarrow>
         UsbBootExecCmdWithRetry env (capacity_cmd (md_Lun (ms_dev m))) EfiUsbDataIn (replicate 8 0) 8
           USB_BOOT_GENERAL_CMD_TIMEOUT m;
       if EFI_ERROR r then Some (r, m1)
       else do {
         lst \<leftarrow> be32 data 0;
         bs \<leftarrow> be32 data 4;
         let m2 = upd_media (\<lambda>b. b\<lparr>bm_MediaPresent := True, bm_LastBlock := ucast lst\<rparr>) m1;
         if bs = 0 then UsbBootRequestSense env m2
         else
           (let m3 = upd_media (\<lambda>b. b\<lparr>bm_BlockSize := bs\<rparr>) m2 in
            if bm_LastBlock (ms_media m3) = 0xFFFFFFFF then do {
              (r1, m4) \<leftarrow> UsbBootReadCapacity16 env m3;
              Some (r1, if EFI_ERROR r1 then m4 else upd_dev_of (\<lambda>d. d\<lparr>md_Cdb16Byte := True\<rparr>) m4) }
            else Some (r, m3)) } }"

definition UsbScsiModeSense :: "'s mass_env \<Rightarrow> 's mass \<Rightarrow> (efi_status \<times> 's mass) option" where
  "UsbScsiModeSense env m =
     do {
       ((r, data), m1) \<leftarrow>
         UsbBootExecCmdWithRetry env (mode_sense_cmd (md_Lun (ms_dev m))) EfiUsbDataIn (replicate 4 0) 4
           USB_BOOT_GENERAL_CMD_TIMEOUT m;
       if EFI_ERROR r then Some (r, m1)
       else do { para \<leftarrow> rd data 2; Some (r, upd_media (\<lambda>b. b\<lparr>bm_ReadOnly := bit para 7\<rparr>) m1) } }"

text \<open>After an error, a medium that is not as it was before is announced again, and gets another number.\<close>

definition media_announce :: "'s mass_env \<Rightarrow> block_media \<Rightarrow> 's mass \<Rightarrow> 's mass" where
  "media_announce env old m =
     (let b = ms_media m in
      if bm_MediaId b \<noteq> bm_MediaId old \<or> bm_MediaPresent b \<noteq> bm_MediaPresent old \<or> bm_ReadOnly b \<noteq> bm_ReadOnly old \<or>
         bm_BlockSize b \<noteq> bm_BlockSize old \<or> bm_LastBlock b \<noteq> bm_LastBlock old
      then
        (let m1 = m\<lparr>ms_ext := me_Reinstall env (md_Controller (ms_dev m)) (ms_ext m)\<rparr>;
             m2 =
               (if bm_MediaPresent b \<noteq> bm_MediaPresent old
                then upd_media (\<lambda>b. b\<lparr>bm_MediaId := if bm_MediaPresent b then 1 else 0\<rparr>) m1 else m1) in
         if bm_ReadOnly b \<noteq> bm_ReadOnly old \<or> bm_BlockSize b \<noteq> bm_BlockSize old \<or> bm_LastBlock b \<noteq> bm_LastBlock old
         then upd_media (\<lambda>b. b\<lparr>bm_MediaId := bm_MediaId b + 1\<rparr>) m2
         else m2)
      else m)"

definition UsbBootDetectMedia :: "'s mass_env \<Rightarrow> 's mass \<Rightarrow> (efi_status \<times> 's mass) option" where
  "UsbBootDetectMedia env m =
     do {
       sub \<leftarrow> InterfaceSubClass (ctx_Interface (ms_ctx m));
       (r, m1) \<leftarrow> UsbBootIsUnitReady env m;
       if EFI_ERROR r \<and> r \<noteq> EFI_MEDIA_CHANGED then Some (r, media_announce env (ms_media m) m1)
       else do {
         m2 \<leftarrow>
           (if md_Pdt (ms_dev m1) \<noteq> USB_PDT_CDROM \<and> sub = USB_MASS_STORE_SCSI
            then map_option snd (UsbScsiModeSense env m1) else Some m1);
         (r1, m3) \<leftarrow> UsbBootReadCapacity env m2;
         if EFI_ERROR r1 then Some (r1, media_announce env (ms_media m) m3)
         else Some (EFI_SUCCESS, m3) } }"

definition UsbBootGetParams :: "'s mass_env \<Rightarrow> 's mass \<Rightarrow> (efi_status \<times> 's mass) option" where
  "UsbBootGetParams env m =
     do {
       (r, m1) \<leftarrow> UsbBootInquiry env m;
       let pdt = md_Pdt (ms_dev m1);
       if EFI_ERROR r then Some (r, m1)
       else if pdt \<noteq> USB_PDT_DIRECT_ACCESS \<and> pdt \<noteq> USB_PDT_CDROM \<and> pdt \<noteq> USB_PDT_OPTICAL \<and> pdt \<noteq> USB_PDT_SIMPLE_DIRECT
       then Some (EFI_UNSUPPORTED, m1)
       else if pdt = USB_PDT_CDROM \<or> pdt = USB_PDT_OPTICAL
       then
         UsbBootDetectMedia env
           (upd_media (\<lambda>b. b\<lparr>bm_BlockSize := 0x800\<rparr>) (upd_dev_of (\<lambda>d. d\<lparr>md_OpticalStorage := True\<rparr>) m1))
       else UsbBootDetectMedia env m1 }"

section \<open>Blocks\<close>

text \<open>
  The four routines move pieces of at most 128 blocks and differ in their command. The size of a piece in bytes, and
  how far the buffer advances, are computed in 32 bits, the block number in the width that the command has for it.
\<close>

function boot_blocks ::
  "'s mass_env \<Rightarrow> (byte \<Rightarrow> 'l::len word \<Rightarrow> u16 \<Rightarrow> byte list) \<Rightarrow> usb_dir \<Rightarrow> u32 \<Rightarrow> 'l word \<Rightarrow> nat \<Rightarrow> nat \<Rightarrow> efi_status \<Rightarrow>
    byte list \<Rightarrow> 's mass \<Rightarrow> ((efi_status \<times> byte list) \<times> 's mass) option"
where
  "boot_blocks env mk dir bs lba cnt at r buf m =
     (if cnt = 0 then Some ((r, buf), m)
      else
        (let count = min cnt USB_BOOT_IO_BLOCKS;
             bytes = of_nat count * bs in
         do {
           ((r1, b1), m1) \<leftarrow>
             UsbBootExecCmdWithRetry env (mk (md_Lun (ms_dev m)) lba (of_nat count)) dir (drop at buf) bytes
               USB_BOOT_GENERAL_CMD_TIMEOUT m;
           if EFI_ERROR r1 then Some ((r1, take at buf @ b1), m1)
           else
             boot_blocks env mk dir bs (lba + of_nat count) (cnt - count) (at + unat bytes) r1 (take at buf @ b1) m1 }))"
  by pat_completeness auto
termination
  by (relation "measure (\<lambda>(env, mk, dir, bs, lba, cnt, at, r, buf, m). cnt)")
    (auto simp: USB_BOOT_IO_BLOCKS_def)

declare boot_blocks.simps [simp del]

definition UsbBootReadBlocks ::
  "'s mass_env \<Rightarrow> u32 \<Rightarrow> nat \<Rightarrow> byte list \<Rightarrow> 's mass \<Rightarrow> ((efi_status \<times> byte list) \<times> 's mass) option"
where
  "UsbBootReadBlocks env lba cnt buf m =
     boot_blocks env (rw10_cmd USB_BOOT_READ10_OPCODE) EfiUsbDataIn (bm_BlockSize (ms_media m)) lba cnt 0 EFI_SUCCESS buf m"

definition UsbBootWriteBlocks ::
  "'s mass_env \<Rightarrow> u32 \<Rightarrow> nat \<Rightarrow> byte list \<Rightarrow> 's mass \<Rightarrow> ((efi_status \<times> byte list) \<times> 's mass) option"
where
  "UsbBootWriteBlocks env lba cnt buf m =
     boot_blocks env (rw10_cmd USB_BOOT_WRITE10_OPCODE) EfiUsbDataOut (bm_BlockSize (ms_media m)) lba cnt 0 EFI_SUCCESS buf m"

definition UsbBootReadBlocks16 ::
  "'s mass_env \<Rightarrow> u64 \<Rightarrow> nat \<Rightarrow> byte list \<Rightarrow> 's mass \<Rightarrow> ((efi_status \<times> byte list) \<times> 's mass) option"
where
  "UsbBootReadBlocks16 env lba cnt buf m =
     boot_blocks env (rw16_cmd EFI_SCSI_OP_READ16) EfiUsbDataIn (bm_BlockSize (ms_media m)) lba cnt 0 EFI_SUCCESS buf m"

definition UsbBootWriteBlocks16 ::
  "'s mass_env \<Rightarrow> u64 \<Rightarrow> nat \<Rightarrow> byte list \<Rightarrow> 's mass \<Rightarrow> ((efi_status \<times> byte list) \<times> 's mass) option"
where
  "UsbBootWriteBlocks16 env lba cnt buf m =
     boot_blocks env (rw16_cmd EFI_SCSI_OP_WRITE16) EfiUsbDataOut (bm_BlockSize (ms_media m)) lba cnt 0 EFI_SUCCESS buf m"

end
