(* ===== verification/MassImpl.thy ===== *)
theory MassImpl
  imports MassBoot
begin

text \<open>
  The Block I/O protocol of a unit, the driver binding of the USB mass storage driver (\<^verbatim>\<open>UsbMassImpl.c\<close>), and its
  Disk Info protocol (\<^verbatim>\<open>UsbMassDiskInfo.c\<close>).

  The memory of the driver has the device structures, the contexts of the transports and the device paths that it
  allocated, with one counter of addresses; the units of one interface share a context. An address that is not
  allocated makes the result \<open>None\<close>, and so does freeing it. The protocol interfaces are members of the device
  structure, so that a structure stands for them. The driver is modelled on one interface: \<open>me_io\<close> is its USB I/O
  protocol.
\<close>

section \<open>Block I/O\<close>

definition UsbMassReset :: "'s mass_env \<Rightarrow> bool \<Rightarrow> 's mass \<Rightarrow> (efi_status \<times> 's mass) option" where
  "UsbMassReset env verify m =
     do {
       (r, s) \<leftarrow> Transport_Reset (md_Transport (ms_dev m)) (me_io env) (mass_junk env) (ms_ctx m) verify (ms_ext m);
       Some (r, m\<lparr>ms_ext := s\<rparr>) }"

text \<open>The two routines differ in what they call when everything is checked. Dividing by a zero block size is undefined.\<close>

definition mass_blocks ::
  "'s mass_env \<Rightarrow> (u64 \<Rightarrow> nat \<Rightarrow> byte list \<Rightarrow> 's mass \<Rightarrow> ((efi_status \<times> byte list) \<times> 's mass) option) \<Rightarrow>
    (u32 \<Rightarrow> nat \<Rightarrow> byte list \<Rightarrow> 's mass \<Rightarrow> ((efi_status \<times> byte list) \<times> 's mass) option) \<Rightarrow>
    u32 \<Rightarrow> u64 \<Rightarrow> nat \<Rightarrow> byte list option \<Rightarrow> 's mass \<Rightarrow> ((efi_status \<times> byte list option) \<times> 's mass) option"
where
  "mass_blocks env io16 io10 mid lba len buf m =
     do {
       (r, m1) \<leftarrow> (if bm_RemovableMedia (ms_media m) then UsbBootDetectMedia env m else Some (EFI_SUCCESS, m));
       let b = ms_media m1;
       if EFI_ERROR r then Some ((r, buf), m1)
       else if \<not> bm_MediaPresent b then Some ((EFI_NO_MEDIA, buf), m1)
       else if mid \<noteq> bm_MediaId b then Some ((EFI_MEDIA_CHANGED, buf), m1)
       else if len = 0 then Some ((EFI_SUCCESS, buf), m1)
       else
         (case buf of
            None \<Rightarrow> Some ((EFI_INVALID_PARAMETER, buf), m1)
          | Some data \<Rightarrow>
              if bm_BlockSize b = 0 then None
              else if len mod unat (bm_BlockSize b) \<noteq> 0 then Some ((EFI_BAD_BUFFER_SIZE, buf), m1)
              else
                (let cnt = len div unat (bm_BlockSize b) in
                 if lba + of_nat cnt - 1 > bm_LastBlock b then Some ((EFI_INVALID_PARAMETER, buf), m1)
                 else do {
                   ((r1, data1), m2) \<leftarrow>
                     (if md_Cdb16Byte (ms_dev m1) then io16 lba cnt data m1 else io10 (ucast lba) cnt data m1);
                   m3 \<leftarrow> (if EFI_ERROR r1 then map_option snd (UsbMassReset env True m2) else Some m2);
                   Some ((r1, Some data1), m3) })) }"

definition UsbMassReadBlocks ::
  "'s mass_env \<Rightarrow> u32 \<Rightarrow> u64 \<Rightarrow> nat \<Rightarrow> byte list option \<Rightarrow> 's mass \<Rightarrow> ((efi_status \<times> byte list option) \<times> 's mass) option"
where
  "UsbMassReadBlocks env mid lba len buf m =
     mass_blocks env (UsbBootReadBlocks16 env) (UsbBootReadBlocks env) mid lba len buf m"

definition UsbMassWriteBlocks ::
  "'s mass_env \<Rightarrow> u32 \<Rightarrow> u64 \<Rightarrow> nat \<Rightarrow> byte list option \<Rightarrow> 's mass \<Rightarrow> ((efi_status \<times> byte list option) \<times> 's mass) option"
where
  "UsbMassWriteBlocks env mid lba len buf m =
     mass_blocks env (UsbBootWriteBlocks16 env) (UsbBootWriteBlocks env) mid lba len buf m"

definition UsbMassFlushBlocks :: "'s mass \<Rightarrow> efi_status \<times> 's mass" where
  "UsbMassFlushBlocks m = (EFI_SUCCESS, m)"

definition UsbMassInitMedia :: "'s mass_env \<Rightarrow> 's mass \<Rightarrow> (efi_status \<times> 's mass) option" where
  "UsbMassInitMedia env m =
     UsbBootGetParams env
       (upd_media
         (\<lambda>b. b\<lparr>bm_MediaPresent := False, bm_LogicalPartition := False, bm_ReadOnly := False, bm_WriteCaching := False,
                bm_IoAlign := 0, bm_MediaId := 1\<rparr>) m)"

section \<open>Disk Info\<close>

definition InitializeDiskInfo :: "mass_dev \<Rightarrow> mass_dev" where
  "InitializeDiskInfo d = d\<lparr>md_DiskInfo := True\<rparr>"

text \<open>The result is the status, the buffer and the size. The buffer has as many bytes as the caller says.\<close>

definition UsbDiskInfoInquiry :: "mass_dev \<Rightarrow> byte list \<Rightarrow> u32 \<Rightarrow> (efi_status \<times> byte list \<times> u32) option" where
  "UsbDiskInfoInquiry d buf len =
     (if len \<ge> 36 then do { buf1 \<leftarrow> wr_range buf 0 (md_InquiryData d); Some (EFI_SUCCESS, buf1, 36) }
      else Some (EFI_BUFFER_TOO_SMALL, buf, 36))"

definition UsbDiskInfoIdentify :: "mass_dev \<Rightarrow> byte list \<Rightarrow> u32 \<Rightarrow> efi_status" where
  "UsbDiskInfoIdentify d buf len = EFI_NOT_FOUND"

definition UsbDiskInfoSenseData :: "mass_dev \<Rightarrow> byte list \<Rightarrow> u32 \<Rightarrow> efi_status" where
  "UsbDiskInfoSenseData d buf len = EFI_NOT_FOUND"

definition UsbDiskInfoWhichIde :: "mass_dev \<Rightarrow> efi_status" where
  "UsbDiskInfoWhichIde d = EFI_UNSUPPORTED"

section \<open>The memory of the driver\<close>

record 's mass_st =
  mv_next :: nat
  mv_dev :: "nat \<Rightarrow> mass_dev option"
  mv_ctx :: "nat \<Rightarrow> mass_ctx option"
  mv_path :: "nat \<Rightarrow> dev_path option"
  mv_ext :: 's

definition mass_alloc :: "'s mass_env \<Rightarrow> 's mass_st \<Rightarrow> nat option \<times> 's mass_st" where
  "mass_alloc env st =
     (if me_pool env (mv_next st) then Some (mv_next st) else None, st\<lparr>mv_next := mv_next st + 1\<rparr>)"

definition put_mdev :: "nat \<Rightarrow> mass_dev \<Rightarrow> 's mass_st \<Rightarrow> 's mass_st" where
  "put_mdev p d st = st\<lparr>mv_dev := (mv_dev st)(p \<mapsto> d)\<rparr>"

definition free_mdev :: "nat \<Rightarrow> 's mass_st \<Rightarrow> 's mass_st option" where
  "free_mdev p st = (if mv_dev st p = None then None else Some (st\<lparr>mv_dev := (mv_dev st)(p := None)\<rparr>))"

definition free_mpath :: "nat \<Rightarrow> 's mass_st \<Rightarrow> 's mass_st option" where
  "free_mpath p st = (if mv_path st p = None then None else Some (st\<lparr>mv_path := (mv_path st)(p := None)\<rparr>))"

text \<open>The clean-up of both transports.\<close>

definition Transport_CleanUp :: "nat \<Rightarrow> 's mass_st \<Rightarrow> 's mass_st option" where
  "Transport_CleanUp p st = (if mv_ctx st p = None then None else Some (st\<lparr>mv_ctx := (mv_ctx st)(p := None)\<rparr>))"

definition outside :: "('s \<Rightarrow> 'a \<times> 's) \<Rightarrow> 's mass_st \<Rightarrow> 'a \<times> 's mass_st" where
  "outside f st = (let (x, s) = f (mv_ext st) in (x, st\<lparr>mv_ext := s\<rparr>))"

definition mass_close :: "'s mass_env \<Rightarrow> nat \<Rightarrow> mass_proto \<Rightarrow> open_mode \<Rightarrow> 's mass_st \<Rightarrow> 's mass_st" where
  "mass_close env h p o1 st = st\<lparr>mv_ext := me_CloseProtocol env h p o1 (mv_ext st)\<rparr>"

text \<open>An operation on the device at an address, with the context that the device points to.\<close>

definition run_dev :: "nat \<Rightarrow> ('s mass \<Rightarrow> ('a \<times> 's mass) option) \<Rightarrow> 's mass_st \<Rightarrow> ('a \<times> 's mass_st) option" where
  "run_dev p f st =
     do {
       d \<leftarrow> mv_dev st p;
       c \<leftarrow> mv_ctx st (md_Context d);
       (x, m) \<leftarrow> f \<lparr>ms_dev = d, ms_ctx = c, ms_ext = mv_ext st\<rparr>;
       Some (x, st\<lparr>mv_dev := (mv_dev st)(p \<mapsto> ms_dev m), mv_ctx := (mv_ctx st)(md_Context d \<mapsto> ms_ctx m),
                   mv_ext := ms_ext m\<rparr>) }"

section \<open>Starting\<close>

text \<open>The initialisation frees its context when it fails, and when the caller does not want it.\<close>

definition mass_init ::
  "'s mass_env \<Rightarrow> usb_mass_transport \<Rightarrow> bool \<Rightarrow> 's mass_st \<Rightarrow> ((efi_status + nat) \<times> 's mass_st) option"
where
  "mass_init env t want st =
     (let (a, st1) = mass_alloc env st in
      do {
        r \<leftarrow> Transport_Init t (a \<noteq> None) (me_io env) (mv_ext st1);
        p \<leftarrow> a;
        Some (case r of
            Inl x \<Rightarrow> (Inl x, st1)
          | Inr c \<Rightarrow> (Inr p, if want then st1\<lparr>mv_ctx := (mv_ctx st1)(p \<mapsto> c)\<rparr> else st1)) })"

text \<open>The transport is the first one of the table with the protocol of the interface.\<close>

definition find_transport :: "byte list \<Rightarrow> usb_mass_transport option option" where
  "find_transport ifd =
     do { p \<leftarrow> InterfaceProtocol ifd; Some (find (\<lambda>t. Transport_Protocol t = p) mUsbMassTransport) }"

text \<open>The result is the status, the transport with its context, and the highest unit number.\<close>

definition UsbMassInitTransport ::
  "'s mass_env \<Rightarrow> nat \<Rightarrow> 's mass_st \<Rightarrow> ((efi_status \<times> (usb_mass_transport \<times> nat) option \<times> byte) \<times> 's mass_st) option"
where
  "UsbMassInitTransport env ctl st =
     (let ((r, u), st1) = outside (me_OpenProtocol env ctl MassUsbIo ByDriver) st in
      if EFI_ERROR r then Some ((r, None, 0), st1)
      else do {
        ifd \<leftarrow> uio_Interface (me_io env) (mv_ext st1);
        (x, st2) \<leftarrow>
          (case ifd of
             Inl e \<Rightarrow> Some ((e, None, 0), st1)
           | Inr raw \<Rightarrow>
               do {
                 ft \<leftarrow> find_transport raw;
                 (case ft of
                    None \<Rightarrow> Some ((EFI_UNSUPPORTED, None, 0), st1)
                  | Some t \<Rightarrow>
                      do {
                        (ri, st2) \<leftarrow> mass_init env t True st1;
                        (case ri of
                           Inl e \<Rightarrow> Some ((e, None, 0), st2)
                         | Inr p \<Rightarrow>
                             if Transport_Protocol t = USB_MASS_STORE_BOT then do {
                               c \<leftarrow> mv_ctx st2 p;
                               ((r1, lun), s) \<leftarrow> Transport_GetMaxLun t (me_io env) c 0 (mv_ext st2);
                               Some ((EFI_SUCCESS, Some (t, p), lun), st2\<lparr>mv_ext := s\<rparr>) }
                             else Some ((EFI_SUCCESS, Some (t, p), 0), st2)) }) });
        Some (x, mass_close env ctl MassUsbIo ByDriver st2) })"

definition zero_media :: block_media where
  "zero_media =
     \<lparr>bm_MediaId = 0, bm_RemovableMedia = False, bm_MediaPresent = False, bm_LogicalPartition = False,
      bm_ReadOnly = False, bm_WriteCaching = False, bm_BlockSize = 0, bm_IoAlign = 0, bm_LastBlock = 0,
      bm_LowestAlignedLba = 0, bm_LogicalBlocksPerPhysicalBlock = 0\<rparr>"

definition new_mdev :: "nat option \<Rightarrow> usb_mass_transport \<Rightarrow> nat \<Rightarrow> byte \<Rightarrow> mass_dev" where
  "new_mdev ctl t ctx lun =
     \<lparr>md_Controller = ctl, md_DevicePath = None, md_Media = zero_media, md_OpticalStorage = False, md_Lun = lun,
      md_Pdt = 0, md_Transport = t, md_Context = ctx, md_DiskInfo = False, md_InquiryData = replicate 36 0,
      md_Cdb16Byte = False\<rparr>"

definition MSG_DEVICE_LOGICAL_UNIT_DP :: byte where "MSG_DEVICE_LOGICAL_UNIT_DP = 0x11"

text \<open>One unit: a unit that cannot be set up is skipped. \<open>ret\<close> is the status to return.\<close>

definition init_lun ::
  "'s mass_env \<Rightarrow> nat \<Rightarrow> usb_mass_transport \<Rightarrow> nat \<Rightarrow> dev_path \<Rightarrow> byte \<Rightarrow> efi_status \<Rightarrow> 's mass_st \<Rightarrow>
    (efi_status \<times> 's mass_st) option"
where
  "init_lun env ctl t ctx path lun ret st =
     (let (a, st1) = mass_alloc env st in
      do {
        p \<leftarrow> a;
        (r, st2) \<leftarrow> run_dev p (UsbMassInitMedia env) (put_mdev p (new_mdev None t ctx lun) st1);
        if EFI_ERROR r \<and> r \<noteq> EFI_NO_MEDIA then do { st3 \<leftarrow> free_mdev p st2; Some (ret, st3) }
        else
          (case mass_alloc env st2 of
             (None, st3) \<Rightarrow> do { st4 \<leftarrow> free_mdev p st3; Some (ret, st4) }
           | (Some q, st3) \<Rightarrow>
               do {
                 d \<leftarrow> mv_dev st3 p;
                 let st4 =
                   put_mdev p ((InitializeDiskInfo d)\<lparr>md_DevicePath := Some q\<rparr>)
                     (st3\<lparr>mv_path := (mv_path st3)
                            (q \<mapsto> path @ [DpNode MESSAGING_DEVICE_PATH MSG_DEVICE_LOGICAL_UNIT_DP [md_Lun d]])\<rparr>);
                 let ((r1, h), st5) = outside (me_Install env None (Some q) p) st4;
                 if EFI_ERROR r1 then do { st6 \<leftarrow> free_mpath q st5; st7 \<leftarrow> free_mdev p st6; Some (ret, st7) }
                 else do {
                   d1 \<leftarrow> mv_dev st5 p;
                   let st6 = put_mdev p (d1\<lparr>md_Controller := Some h\<rparr>) st5;
                   let ((r2, u), st7) = outside (me_OpenProtocol env ctl MassUsbIo (ByChild h)) st6;
                   if EFI_ERROR r2 then do {
                     let (r3, st8) = outside (me_Uninstall env h (Some q) p) st7;
                     st9 \<leftarrow> free_mpath q st8;
                     st10 \<leftarrow> free_mdev p st9;
                     Some (ret, st10) }
                   else Some (EFI_SUCCESS, st7) } }) })"

text \<open>The index is a byte, and so is the highest unit number.\<close>

partial_function (option) multi_lun_loop ::
  "'s mass_env \<Rightarrow> nat \<Rightarrow> usb_mass_transport \<Rightarrow> nat \<Rightarrow> dev_path \<Rightarrow> byte \<Rightarrow> byte \<Rightarrow> efi_status \<Rightarrow> 's mass_st \<Rightarrow>
    (efi_status \<times> 's mass_st) option"
where
  "multi_lun_loop env ctl t ctx path maxlun idx ret st =
     (if idx \<le> maxlun then do {
        (ret1, st1) \<leftarrow> init_lun env ctl t ctx path idx ret st;
        multi_lun_loop env ctl t ctx path maxlun (idx + 1) ret1 st1 }
      else Some (ret, st))"

definition UsbMassInitMultiLun ::
  "'s mass_env \<Rightarrow> nat \<Rightarrow> usb_mass_transport \<Rightarrow> nat \<Rightarrow> dev_path \<Rightarrow> byte \<Rightarrow> 's mass_st \<Rightarrow> (efi_status \<times> 's mass_st) option"
where
  "UsbMassInitMultiLun env ctl t ctx path maxlun st = multi_lun_loop env ctl t ctx path maxlun 0 EFI_NOT_FOUND st"

text \<open>When the allocation fails the routine still opens the protocol, and writes to NULL only if that succeeds.\<close>

definition UsbMassInitNonLun ::
  "'s mass_env \<Rightarrow> nat \<Rightarrow> usb_mass_transport \<Rightarrow> nat \<Rightarrow> 's mass_st \<Rightarrow> (efi_status \<times> 's mass_st) option"
where
  "UsbMassInitNonLun env ctl t ctx st =
     (let (a, st1) = mass_alloc env st;
          ((r, u), st2) = outside (me_OpenProtocol env ctl MassUsbIo ByDriver) st1 in
      if EFI_ERROR r then Some (r, st2)
      else do {
        p \<leftarrow> a;
        (r1, st3) \<leftarrow> run_dev p (UsbMassInitMedia env) (put_mdev p (new_mdev (Some ctl) t ctx 0) st2);
        if EFI_ERROR r1 \<and> r1 \<noteq> EFI_NO_MEDIA
        then do { st4 \<leftarrow> free_mdev p st3; Some (r1, mass_close env ctl MassUsbIo ByDriver st4) }
        else do {
          d \<leftarrow> mv_dev st3 p;
          let ((r2, h), st4) = outside (me_Install env (Some ctl) None p) (put_mdev p (InitializeDiskInfo d) st3);
          if EFI_ERROR r2
          then do { st5 \<leftarrow> free_mdev p st4; Some (r2, mass_close env ctl MassUsbIo ByDriver st5) }
          else Some (EFI_SUCCESS, st4) } })"

section \<open>The driver binding\<close>

definition USBMassDriverBindingSupported :: "'s mass_env \<Rightarrow> nat \<Rightarrow> 's mass_st \<Rightarrow> (efi_status \<times> 's mass_st) option" where
  "USBMassDriverBindingSupported env ctl st =
     (let ((r, u), st1) = outside (me_OpenProtocol env ctl MassUsbIo ByDriver) st in
      if EFI_ERROR r then Some (r, st1)
      else do {
        ifd \<leftarrow> uio_Interface (me_io env) (mv_ext st1);
        (x, st2) \<leftarrow>
          (case ifd of
             Inl e \<Rightarrow> Some (e, st1)
           | Inr raw \<Rightarrow>
               do {
                 cls \<leftarrow> InterfaceClass raw;
                 ft \<leftarrow> find_transport raw;
                 if cls \<noteq> USB_MASS_STORE_CLASS then Some (EFI_UNSUPPORTED, st1)
                 else
                   (case ft of
                      None \<Rightarrow> Some (EFI_UNSUPPORTED, st1)
                    | Some t \<Rightarrow>
                        do {
                          (ri, st2) \<leftarrow> mass_init env t False st1;
                          Some (case ri of Inl e \<Rightarrow> e | Inr p \<Rightarrow> EFI_SUCCESS, st2) }) });
        Some (x, mass_close env ctl MassUsbIo ByDriver st2) })"

definition USBMassDriverBindingStart :: "'s mass_env \<Rightarrow> nat \<Rightarrow> 's mass_st \<Rightarrow> (efi_status \<times> 's mass_st) option" where
  "USBMassDriverBindingStart env ctl st =
     do {
       ((r, tc, maxlun), st1) \<leftarrow> UsbMassInitTransport env ctl st;
       if EFI_ERROR r then Some (r, st1)
       else do {
         (t, ctx) \<leftarrow> tc;
         if maxlun = 0 then UsbMassInitNonLun env ctl t ctx st1
         else
           (let ((r1, pp), st2) = outside (me_OpenProtocol env ctl MassDevicePath ByDriver) st1 in
            if EFI_ERROR r1 then Some (r1, st2)
            else
              (let ((r2, u), st3) = outside (me_OpenProtocol env ctl MassUsbIo ByDriver) st2 in
               if EFI_ERROR r2 then Some (r2, mass_close env ctl MassDevicePath ByDriver st3)
               else do {
                 (r3, st4) \<leftarrow> UsbMassInitMultiLun env ctl t ctx (me_PathAt env pp (mv_ext st3)) maxlun st3;
                 Some (r3,
                   if EFI_ERROR r3
                   then mass_close env ctl MassUsbIo ByDriver (mass_close env ctl MassDevicePath ByDriver st4)
                   else st4) })) } }"

text \<open>
  The children that are stopped, in the order of the caller. The context is freed with the last of them if all of them
  could be stopped. The device paths are not freed.
\<close>

primrec stop_luns :: "'s mass_env \<Rightarrow> nat \<Rightarrow> nat list \<Rightarrow> bool \<Rightarrow> 's mass_st \<Rightarrow> (bool \<times> 's mass_st) option" where
  "stop_luns env ctl [] done1 st = Some (done1, st)"
| "stop_luns env ctl (h # hs) done1 st =
     (let ((r, p), st1) = outside (me_OpenProtocol env h MassBlockIo GetProtocol) st in
      if EFI_ERROR r then stop_luns env ctl hs False st1
      else
        (let st2 = mass_close env ctl MassUsbIo (ByChild h) st1 in
         do {
           d \<leftarrow> mv_dev st2 p;
           let (r1, st3) = outside (me_Uninstall env h (md_DevicePath d) p) st2;
           if EFI_ERROR r1
           then stop_luns env ctl hs False (snd (outside (me_OpenProtocol env ctl MassUsbIo (ByChild h)) st3))
           else do {
             st4 \<leftarrow> (if hs = [] \<and> done1 then Transport_CleanUp (md_Context d) st3 else Some st3);
             st5 \<leftarrow> free_mdev p st4;
             stop_luns env ctl hs done1 st5 } }))"

definition USBMassDriverBindingStop :: "'s mass_env \<Rightarrow> nat \<Rightarrow> nat list \<Rightarrow> 's mass_st \<Rightarrow> (efi_status \<times> 's mass_st) option" where
  "USBMassDriverBindingStop env ctl hs st =
     (if hs = [] then
        (let ((r, p), st1) = outside (me_OpenProtocol env ctl MassBlockIo GetProtocol) st in
         if EFI_ERROR r
         then Some (EFI_SUCCESS, mass_close env ctl MassUsbIo ByDriver (mass_close env ctl MassDevicePath ByDriver st1))
         else do {
           d \<leftarrow> mv_dev st1 p;
           let (r1, st2) = outside (me_Uninstall env ctl None p) st1;
           if EFI_ERROR r1 then Some (r1, st2)
           else do {
             st3 \<leftarrow> Transport_CleanUp (md_Context d) (mass_close env ctl MassUsbIo ByDriver st2);
             st4 \<leftarrow> free_mdev p st3;
             Some (EFI_SUCCESS, st4) } })
      else do {
        (ok, st1) \<leftarrow> stop_luns env ctl hs True st;
        Some (if ok then EFI_SUCCESS else EFI_DEVICE_ERROR, st1) })"

text \<open>The driver installs its binding only while the left Alt key is held.\<close>

definition EFI_LEFT_ALT_PRESSED :: u32 where "EFI_LEFT_ALT_PRESSED = 0x20"

definition USBMassStorageEntryPoint :: "u32 \<Rightarrow> ('s \<Rightarrow> efi_status \<times> 's) \<Rightarrow> 's \<Rightarrow> efi_status \<times> 's" where
  "USBMassStorageEntryPoint keys install s =
     (if keys AND EFI_LEFT_ALT_PRESSED \<noteq> 0 then (EFI_SUCCESS, snd (install s)) else (EFI_UNSUPPORTED, s))"

end
