(* ===== verification/MassFrame.thy ===== *)
theory MassFrame
  imports MassImpl UsbFrame
begin

text \<open>
  What the commands of the USB mass storage driver leave alone, and what their results say.

  \<open>same_unit\<close> relates the states before and after a command: of the device structure only the presence, the write
  protection and the number of the medium may differ, the medium never becomes present, and of the context only the
  tag. It is a \<open>frame_preorder\<close>, so that the rules of that interface give the frame of every routine. From it follow
  that a detection that succeeds leaves a block size other than zero, and that a unit without removable medium whose
  block size is not zero keeps it.
\<close>

section \<open>The frame of a command\<close>

definition same_ctx :: "mass_ctx \<Rightarrow> mass_ctx \<Rightarrow> bool" where
  "same_ctx c c1 \<longleftrightarrow>
     (case c of BotCtx b \<Rightarrow> \<exists>t. c1 = BotCtx (b\<lparr>bot_CbwTag := t\<rparr>) | CbiCtx i \<Rightarrow> c1 = c)"

definition unit_core :: "mass_dev \<Rightarrow> mass_dev" where
  "unit_core d = d\<lparr>md_Media := (md_Media d)\<lparr>bm_MediaPresent := False, bm_ReadOnly := False, bm_MediaId := 0\<rparr>\<rparr>"

definition same_unit :: "'s mass \<Rightarrow> 's mass \<Rightarrow> bool" where
  "same_unit m m1 \<longleftrightarrow>
     unit_core (ms_dev m1) = unit_core (ms_dev m) \<and>
     (bm_MediaPresent (ms_media m1) \<longrightarrow> bm_MediaPresent (ms_media m)) \<and>
     same_ctx (ms_ctx m) (ms_ctx m1)"

lemma same_ctx_refl: "same_ctx c c"
proof (cases c)
  case (BotCtx b)
  then show ?thesis
    unfolding same_ctx_def by (auto intro: exI [of _ "bot_CbwTag b"])
qed (simp add: same_ctx_def)

lemma same_ctx_trans: "same_ctx a b \<Longrightarrow> same_ctx b c \<Longrightarrow> same_ctx a c"
  by (auto simp: same_ctx_def split: mass_ctx.splits)

lemma same_ctx_Interface: "same_ctx c c1 \<Longrightarrow> ctx_Interface c1 = ctx_Interface c"
  by (auto simp: same_ctx_def split: mass_ctx.splits)

lemma same_unit_refl: "same_unit m m"
  by (simp add: same_unit_def same_ctx_refl)

lemma same_unit_trans: "same_unit a b \<Longrightarrow> same_unit b c \<Longrightarrow> same_unit a c"
  unfolding same_unit_def by (auto intro: same_ctx_trans)

interpretation unit: frame_preorder same_unit
  by unfold_locales (fact same_unit_refl, fact same_unit_trans)

text \<open>Changes of what is outside, of the tag, and of the three fields.\<close>

lemma same_unit_ext: "same_unit m (m\<lparr>ms_ext := s\<rparr>)"
  by (simp add: same_unit_def ms_media_def same_ctx_refl)

lemma same_unit_exec: "same_ctx (ms_ctx m) c \<Longrightarrow> same_unit m (m\<lparr>ms_ctx := c, ms_ext := s\<rparr>)"
  by (simp add: same_unit_def ms_media_def)

lemma same_unit_sense: "sense_result key asc = (x, f) \<Longrightarrow> same_unit m (upd_media f m)"
  by (auto simp: same_unit_def unit_core_def upd_media_def ms_media_def same_ctx_refl sense_result_def split: if_splits)

text \<open>What stays the same, field by field.\<close>

lemma same_unit_fields:
  assumes "same_unit m m1"
  shows "bm_BlockSize (ms_media m1) = bm_BlockSize (ms_media m)" "bm_LastBlock (ms_media m1) = bm_LastBlock (ms_media m)"
    "bm_RemovableMedia (ms_media m1) = bm_RemovableMedia (ms_media m)" "md_Lun (ms_dev m1) = md_Lun (ms_dev m)"
    "md_Pdt (ms_dev m1) = md_Pdt (ms_dev m)" "md_Transport (ms_dev m1) = md_Transport (ms_dev m)"
    "md_Context (ms_dev m1) = md_Context (ms_dev m)" "md_Cdb16Byte (ms_dev m1) = md_Cdb16Byte (ms_dev m)"
    "md_DevicePath (ms_dev m1) = md_DevicePath (ms_dev m)" "ctx_Interface (ms_ctx m1) = ctx_Interface (ms_ctx m)"
proof -
  have e: "unit_core (ms_dev m1) = unit_core (ms_dev m)" and "same_ctx (ms_ctx m) (ms_ctx m1)"
    using assms by (simp_all add: same_unit_def)
  then show "ctx_Interface (ms_ctx m1) = ctx_Interface (ms_ctx m)"
    by (simp add: same_ctx_Interface)
  have "f (unit_core (ms_dev m1)) = f (unit_core (ms_dev m))" for f :: "mass_dev \<Rightarrow> 'b"
    by (simp add: e)
  from this [of "\<lambda>d. bm_BlockSize (md_Media d)"] this [of "\<lambda>d. bm_LastBlock (md_Media d)"] this [of "\<lambda>d. bm_RemovableMedia (md_Media d)"]
    this [of md_Lun] this [of md_Pdt] this [of md_Transport] this [of md_Context] this [of md_Cdb16Byte] this [of md_DevicePath]
  show "bm_BlockSize (ms_media m1) = bm_BlockSize (ms_media m)" "bm_LastBlock (ms_media m1) = bm_LastBlock (ms_media m)"
    "bm_RemovableMedia (ms_media m1) = bm_RemovableMedia (ms_media m)" "md_Lun (ms_dev m1) = md_Lun (ms_dev m)"
    "md_Pdt (ms_dev m1) = md_Pdt (ms_dev m)" "md_Transport (ms_dev m1) = md_Transport (ms_dev m)"
    "md_Context (ms_dev m1) = md_Context (ms_dev m)" "md_Cdb16Byte (ms_dev m1) = md_Cdb16Byte (ms_dev m)"
    "md_DevicePath (ms_dev m1) = md_DevicePath (ms_dev m)"
    by (simp_all add: unit_core_def ms_media_def)
qed

section \<open>The frame of each routine\<close>

named_theorems unit_rules \<open>what each routine of the driver leaves alone\<close>

lemma UsbBotGetStatus_tag: "UsbBotGetStatus io b s = Some (r, b1, s1) \<Longrightarrow> \<exists>t. b1 = b\<lparr>bot_CbwTag := t\<rparr>"
  by (auto simp: UsbBotGetStatus_def bind_eq_Some_conv)

lemma tag_refl [simp]: "\<exists>t. b = b\<lparr>bot_CbwTag := t\<rparr>"
  by (rule exI [of _ "bot_CbwTag b"]) simp

lemma UsbBotExecCommand_tag:
  "UsbBotExecCommand io b cmd dir buf len lun timeout s = Some (r, b1, s1) \<Longrightarrow> \<exists>t. b1 = b\<lparr>bot_CbwTag := t\<rparr>"
  by (auto simp: UsbBotExecCommand_def bind_eq_Some_conv dest: UsbBotGetStatus_tag split: if_splits)

lemma Transport_ExecCommand_ctx:
  assumes "Transport_ExecCommand t io stk ctx cmd dir buf len lun timeout s = Some (r, c1, s1)"
  shows "same_ctx ctx c1"
  using assms
  by (auto simp: Transport_ExecCommand_def same_ctx_def bind_eq_Some_conv split: mass_ctx.splits if_splits
      dest: UsbBotExecCommand_tag)

lemma mass_exec_unit [THEN unit.after, unit_rules]: "keeps same_unit m (mass_exec env cmd dir buf len timeout m)"
  unfolding keeps_def mass_exec_def
  by (auto simp: bind_eq_Some_conv intro!: same_unit_exec dest: Transport_ExecCommand_ctx)

lemma UsbBootRequestSense_unit [THEN unit.after, unit_rules]: "keeps same_unit m (UsbBootRequestSense env m)"
  unfolding UsbBootRequestSense_def Let_def
  by (rule unit_rules unit.steps same_unit_sense | assumption)+

lemma UsbBootExecCmd_unit [THEN unit.after, unit_rules]: "keeps same_unit m (UsbBootExecCmd env cmd dir buf len timeout m)"
  unfolding UsbBootExecCmd_def by (rule unit_rules unit.steps)+

lemma boot_retry_loop_unit:
  assumes "boot_retry_loop env evt cmd dir len timeout retry r buf m = Some y"
  shows "same_unit m (snd y)"
proof (rule boot_retry_loop.raw_induct [OF _ assms, where P = "\<lambda>env evt cmd dir len timeout retry r buf m y. same_unit m (snd y)"])
  fix loop env evt cmd dir len timeout retry r buf and m :: "'a mass" and y
  assume ih: "\<And>evt cmd dir len timeout retry r buf m b y. loop evt cmd dir len timeout retry r buf m b = Some y \<Longrightarrow> same_unit b (snd y)"
    and body: "(let (expired, s1) = me_CheckEvent env evt (ms_ext m) in
        if \<not> EFI_ERROR expired then Some ((r, buf), m\<lparr>ms_ext := s1\<rparr>)
        else do {
          ((r1, buf1), m1) \<leftarrow> UsbBootExecCmd env cmd dir buf len timeout (m\<lparr>ms_ext := s1\<rparr>);
          if r1 = EFI_SUCCESS \<or> r1 = EFI_MEDIA_CHANGED \<or> r1 = EFI_NO_MEDIA then Some ((r1, buf1), m1)
          else if r1 = EFI_NOT_READY then loop env evt cmd dir len timeout retry r1 buf1 m1
          else if USB_BOOT_COMMAND_RETRY \<le> retry then Some ((r1, buf1), m1)
          else loop env evt cmd dir len timeout (retry + 1) r1 buf1 m1 }) = Some y"
  have loop: "keeps same_unit m1 (loop env evt cmd dir len timeout k r1 buf1 m1)" for k r1 buf1 m1
    using ih by (force simp: keeps_def)
  have "keeps same_unit m (Some y)"
    unfolding body [symmetric] Let_def
    by (rule same_unit_ext unit_rules loop unit.steps)+
  then show "same_unit m (snd y)"
    by (cases y) (simp add: keeps_def)
qed

lemma boot_retry_loop_keeps [THEN unit.after, unit_rules]:
  "keeps same_unit m (boot_retry_loop env evt cmd dir len timeout retry r buf m)"
  using boot_retry_loop_unit by (fastforce simp: keeps_def)

lemma UsbBootExecCmdWithRetry_unit [THEN unit.after, unit_rules]:
  "keeps same_unit m (UsbBootExecCmdWithRetry env cmd dir buf len timeout m)"
  unfolding UsbBootExecCmdWithRetry_def Let_def
  by (rule same_unit_ext unit_rules unit.steps)+

lemma UsbBootIsUnitReady_unit [THEN unit.after, unit_rules]: "keeps same_unit m (UsbBootIsUnitReady env m)"
  unfolding UsbBootIsUnitReady_def by (rule unit_rules unit.steps)+

lemma boot_blocks_unit [THEN unit.after, unit_rules]:
  "keeps same_unit m (boot_blocks env mk dir bs lba cnt at r buf m)"
proof (induction cnt arbitrary: lba at r buf m rule: less_induct)
  case (less cnt)
  have "keeps same_unit m (boot_blocks env mk dir bs lba (cnt - min cnt USB_BOOT_IO_BLOCKS) at r buf m)" if "cnt \<noteq> 0"
    for lba at r buf m
    using that by (intro less) (simp add: USB_BOOT_IO_BLOCKS_def)
  then show ?case
    by (subst boot_blocks.simps, unfold Let_def)
      (rule unit_rules unit.keeps_ret unit.R_refl keeps_if keeps_prod unit.keeps_bind | assumption)+
qed

section \<open>What a status says\<close>

lemma sense_result_error: "EFI_ERROR (fst (sense_result key asc))"
  by (simp add: sense_result_def EFI_ERROR_def)

lemma UsbBootRequestSense_error: "UsbBootRequestSense env m = Some (r, m1) \<Longrightarrow> EFI_ERROR r"
  using sense_result_error
  by (auto simp: UsbBootRequestSense_def bind_eq_Some_conv split_beta split: if_splits)

text \<open>A command is reported as done exactly when the transport and the command succeeded.\<close>

lemma UsbBootExecCmd_success:
  "UsbBootExecCmd env cmd dir buf len timeout m = Some ((EFI_SUCCESS, buf1), m1) \<longleftrightarrow>
   mass_exec env cmd dir buf len timeout m = Some ((EFI_SUCCESS, buf1, USB_MASS_CMD_SUCCESS), m1)"
proof
  assume "UsbBootExecCmd env cmd dir buf len timeout m = Some ((EFI_SUCCESS, buf1), m1)"
  then show "mass_exec env cmd dir buf len timeout m = Some ((EFI_SUCCESS, buf1, USB_MASS_CMD_SUCCESS), m1)"
    by (auto simp: UsbBootExecCmd_def bind_eq_Some_conv EFI_ERROR_def split: if_splits
        dest: UsbBootRequestSense_error)
qed (simp add: UsbBootExecCmd_def)

definition media_ready :: "'s mass \<Rightarrow> bool" where
  "media_ready m \<longleftrightarrow> bm_MediaPresent (ms_media m) \<and> bm_BlockSize (ms_media m) \<noteq> 0"

lemma ms_media_upd [simp]: "ms_media (upd_media f m) = f (ms_media m)" "ms_dev (upd_dev_of g m) = g (ms_dev m)"
  by (simp_all add: upd_media_def ms_media_def upd_dev_of_def)

lemma ms_media_cdb [simp]: "ms_media (upd_dev_of (\<lambda>d. d\<lparr>md_Cdb16Byte := c\<rparr>) m) = ms_media m"
  by (simp add: upd_dev_of_def ms_media_def)

lemma UsbBootReadCapacity16_ready:
  assumes "UsbBootReadCapacity16 env m = Some (EFI_SUCCESS, m1)"
  shows "media_ready m1"
proof -
  obtain x m0 where e: "UsbBootExecCmdWithRetry env capacity16_cmd EfiUsbDataIn (replicate 32 0) 32 USB_BOOT_GENERAL_CMD_TIMEOUT
      (upd_media (\<lambda>b. b\<lparr>bm_MediaPresent := False, bm_LastBlock := 0, bm_BlockSize := 0\<rparr>) m) = Some (x, m0)"
    using assms by (auto simp: UsbBootReadCapacity16_def bind_eq_Some_conv)
  obtain r data where x: "x = (r, data)"
    by (cases x)
  from assms show ?thesis
    by (auto simp: UsbBootReadCapacity16_def e x bind_eq_Some_conv Let_def media_ready_def split: if_splits
        dest: UsbBootRequestSense_error)
qed

lemma UsbBootReadCapacity_ready:
  assumes "UsbBootReadCapacity env m = Some (EFI_SUCCESS, m1)"
  shows "media_ready m1"
proof -
  obtain x m0 where e: "UsbBootExecCmdWithRetry env (capacity_cmd (md_Lun (ms_dev m))) EfiUsbDataIn (replicate 8 0) 8
      USB_BOOT_GENERAL_CMD_TIMEOUT m = Some (x, m0)"
    using assms by (auto simp: UsbBootReadCapacity_def bind_eq_Some_conv)
  obtain r data where x: "x = (r, data)"
    by (cases x)
  have "bm_MediaPresent (ms_media m0) \<and> bm_BlockSize (ms_media m0) \<noteq> 0" if "UsbBootReadCapacity16 env m2 = Some (EFI_SUCCESS, m0)"
    for m0 m2
    using UsbBootReadCapacity16_ready [OF that] by (simp add: media_ready_def)
  with assms show ?thesis
    by (auto simp: UsbBootReadCapacity_def e x bind_eq_Some_conv Let_def media_ready_def split: if_splits
        dest: UsbBootRequestSense_error)
qed

lemma UsbBootDetectMedia_ready: "UsbBootDetectMedia env m = Some (EFI_SUCCESS, m1) \<Longrightarrow> media_ready m1"
  by (auto simp: UsbBootDetectMedia_def bind_eq_Some_conv EFI_ERROR_def split: if_splits dest: UsbBootReadCapacity_ready)

section \<open>Routines that return\<close>

text \<open>\<open>returns P m\<close>: there is no undefined behaviour, the loops end, and the result is as \<open>P\<close> says.\<close>

definition returns :: "('a \<Rightarrow> bool) \<Rightarrow> 'a option \<Rightarrow> bool" where
  "returns P m \<longleftrightarrow> (\<exists>x. m = Some x \<and> P x)"

lemma returns_Some [simp]: "returns P (Some x) = P x"
  by (simp add: returns_def)

lemma returns_bind: "returns P m \<Longrightarrow> (\<And>x. P x \<Longrightarrow> returns Q (k x)) \<Longrightarrow> returns Q (Option.bind m k)"
  by (auto simp: returns_def)

lemma returns_weaken: "returns P m \<Longrightarrow> (\<And>x. P x \<Longrightarrow> Q x) \<Longrightarrow> returns Q m"
  by (auto simp: returns_def)

lemma returns_map: "returns P m \<Longrightarrow> (\<And>x. P x \<Longrightarrow> Q (f x)) \<Longrightarrow> returns Q (map_option f m)"
  by (auto simp: returns_def)

definition bot_ok :: "usb_bot \<Rightarrow> bool" where
  "bot_ok b \<longleftrightarrow> 8 \<le> length (bot_Interface b) \<and> (\<exists>e. bot_BulkIn b = Some e \<and> 3 \<le> length e) \<and>
     (\<exists>e. bot_BulkOut b = Some e \<and> 3 \<le> length e)"

lemma bot_ok_tag [simp]: "bot_ok (b\<lparr>bot_CbwTag := t\<rparr>) = bot_ok b"
  by (simp add: bot_ok_def)

lemma EndpointAddress_length: "EndpointAddress e = Some a \<Longrightarrow> 3 \<le> length e"
  by (auto simp: EndpointAddress_def rd_eq_Some)

lemma bot_endpoints_ok:
  assumes "bot_endpoints io k i eps s = Some eps1"
    and "pred_option (\<lambda>e. 3 \<le> length e) (fst eps)" "pred_option (\<lambda>e. 3 \<le> length e) (snd eps)"
  shows "pred_option (\<lambda>e. 3 \<le> length e) (fst eps1) \<and> pred_option (\<lambda>e. 3 \<le> length e) (snd eps1)"
  using assms
proof (induction k arbitrary: i eps)
  case (Suc k)
  obtain r where r: "uio_Endpoint io (of_nat i) s = Some r"
    using Suc.prems(1) by (auto simp: bind_eq_Some_conv)
  show ?case
  proof (cases r)
    case (Inl x)
    with Suc.prems Suc.IH r show ?thesis
      by simp
  next
    case (Inr e)
    with Suc.prems(1) r obtain eps2 where e2: "bot_endpoints io k (i + 1) eps2 s = Some eps1"
      and "eps2 = eps \<or> (3 \<le> length e \<and> (\<exists>c. eps2 = (first_of c e (fst eps), first_of (\<not> c) e (snd eps))))"
      by (auto simp: bind_eq_Some_conv split: if_splits dest: EndpointAddress_length)
    then have "pred_option (\<lambda>e. 3 \<le> length e) (fst eps2)" "pred_option (\<lambda>e. 3 \<le> length e) (snd eps2)"
      using Suc.prems(2,3) by (auto simp: first_of_def)
    with e2 show ?thesis
      by (rule Suc.IH)
  qed
qed simp

lemma UsbBotInit_ok:
  assumes "UsbBotInit ok io s = Some (Inr b)"
  shows "bot_ok b"
proof -
  obtain x where x: "uio_Interface io s = Some x" and "ok"
    using assms by (auto simp: UsbBotInit_def bind_eq_Some_conv split: if_splits)
  with assms obtain ifd where ifd: "x = Inr ifd"
    by (cases x) (auto simp: UsbBotInit_def)
  obtain p n where "InterfaceProtocol ifd = Some p" "InterfaceNumEndpoints ifd = Some n"
    using assms x ifd \<open>ok\<close> by (auto simp: UsbBotInit_def bind_eq_Some_conv)
  with assms x ifd \<open>ok\<close> obtain bin bout where "InterfaceProtocol ifd = Some p"
    "bot_endpoints io (unat n) 0 (None, None) s = Some (bin, bout)" "bin \<noteq> None" "bout \<noteq> None"
    "b = \<lparr>bot_Interface = ifd, bot_BulkIn = bin, bot_BulkOut = bout, bot_CbwTag = 1\<rparr>"
    by (auto simp: UsbBotInit_def bind_eq_Some_conv split: if_splits)
  with bot_endpoints_ok [of io "unat n" 0 "(None, None)" s "(bin, bout)"] show ?thesis
    by (auto simp: bot_ok_def InterfaceProtocol_def rd_eq_Some)
qed

text \<open>A unit behind the bulk-only transport, and the property of its medium that keeps the divisions defined.\<close>

definition bot_unit :: "'s mass \<Rightarrow> bool" where
  "bot_unit m \<longleftrightarrow> md_Transport (ms_dev m) = mUsbBotTransport \<and> (\<exists>b. ms_ctx m = BotCtx b \<and> bot_ok b)"

definition unit_ok :: "'s mass \<Rightarrow> bool" where
  "unit_ok m \<longleftrightarrow> (bm_MediaPresent (ms_media m) \<longrightarrow> bm_BlockSize (ms_media m) \<noteq> 0)"

lemma same_unit_bot: "same_unit m m1 \<Longrightarrow> bot_unit m \<Longrightarrow> bot_unit m1"
  using same_unit_fields(6) [of m m1] by (auto simp: bot_unit_def same_unit_def same_ctx_def)

lemma same_unit_ok: "same_unit m m1 \<Longrightarrow> unit_ok m \<Longrightarrow> unit_ok m1"
  using same_unit_fields(1) [of m m1] by (auto simp: unit_ok_def same_unit_def)

lemma bot_okE:
  assumes "bot_ok b"
  obtains ei ain eo aout ifn where "bot_BulkIn b = Some ei" "EndpointAddress ei = Some ain"
    "bot_BulkOut b = Some eo" "EndpointAddress eo = Some aout" "InterfaceNumber (bot_Interface b) = Some ifn"
  using assms by (auto simp: bot_ok_def EndpointAddress_def InterfaceNumber_def rd_def)

lemma unat_mult_le:
  fixes w :: "'a::len word"
  shows "unat (of_nat n * w) \<le> n * unat w"
proof -
  have "unat (of_nat n * w) = (unat (of_nat n :: 'a word) * unat w) mod 2 ^ LENGTH('a)"
    by (rule unat_word_ariths(2))
  also have "\<dots> \<le> unat (of_nat n :: 'a word) * unat w"
    by simp
  also have "\<dots> \<le> n * unat w"
    by (intro mult_le_mono1) (simp add: unat_of_nat)
  finally show ?thesis .
qed

end
