(* ===== verification/MassReturn.thy ===== *)
theory MassReturn
  imports MassFrame
begin

text \<open>
  When the requests of the USB mass storage driver return.

  The locale \<open>mass_services\<close> states what the driver relies on. Inside it each routine of the bulk-only transport and
  of the commands is shown to return, and every Block I/O request of a unit whose medium is not removable. The loop
  that tries a command again is bounded by the timer only: its variant is the time that is left.
\<close>

section \<open>A unit stays one\<close>

lemma bot_unit_upd [simp]:
  "bot_unit (upd_media f m) = bot_unit m"
  "(\<And>d. md_Transport (g d) = md_Transport d) \<Longrightarrow> bot_unit (upd_dev_of g m) = bot_unit m"
  by (simp_all add: bot_unit_def upd_media_def upd_dev_of_def)

lemma media_announce_fields [simp]:
  "bm_MediaPresent (ms_media (media_announce env old m)) = bm_MediaPresent (ms_media m)"
  "bm_BlockSize (ms_media (media_announce env old m)) = bm_BlockSize (ms_media m)"
  "bm_RemovableMedia (ms_media (media_announce env old m)) = bm_RemovableMedia (ms_media m)"
  "bot_unit (media_announce env old m) = bot_unit m"
  by (simp_all add: media_announce_def Let_def upd_media_def ms_media_def bot_unit_def)

lemma ms_media_dev [simp]: "(\<And>d. md_Media (g d) = md_Media d) \<Longrightarrow> ms_media (upd_dev_of g m) = ms_media m"
  by (simp add: ms_media_def upd_dev_of_def)

abbreviation bot_kept :: "'s mass \<Rightarrow> 's mass \<Rightarrow> bool" where
  "bot_kept m m1 \<equiv> bot_unit m \<longrightarrow> bot_unit m1"

interpretation kept: frame_preorder bot_kept
  by unfold_locales auto

lemma unit_kept: "keeps same_unit m x \<Longrightarrow> keeps bot_kept m x"
  by (auto simp: keeps_def intro: same_unit_bot)

lemmas kept_rules =
  UsbBootRequestSense_unit [OF same_unit_refl, THEN unit_kept, THEN kept.after]
  UsbBootExecCmdWithRetry_unit [OF same_unit_refl, THEN unit_kept, THEN kept.after]
  UsbBootIsUnitReady_unit [OF same_unit_refl, THEN unit_kept, THEN kept.after]

lemma UsbBootReadCapacity16_kept: "keeps bot_kept m (UsbBootReadCapacity16 env m)"
  unfolding UsbBootReadCapacity16_def Let_def
  by (rule kept_rules kept.steps | simp add: kept.keeps_ret)+

lemma UsbBootReadCapacity_kept: "keeps bot_kept m (UsbBootReadCapacity env m)"
  unfolding UsbBootReadCapacity_def Let_def
  by (rule kept_rules UsbBootReadCapacity16_kept [THEN kept.after] kept.steps | simp add: kept.keeps_ret)+

lemma UsbScsiModeSense_kept: "keeps bot_kept m (UsbScsiModeSense env m)"
  unfolding UsbScsiModeSense_def Let_def
  by (rule kept_rules kept.steps | simp add: kept.keeps_ret)+

lemma UsbBootDetectMedia_kept: "keeps bot_kept m (UsbBootDetectMedia env m)"
  unfolding UsbBootDetectMedia_def Let_def
  by (rule kept_rules UsbBootReadCapacity_kept [THEN kept.after] UsbScsiModeSense_kept [THEN kept.after] kept.steps
      | simp add: kept.keeps_ret)+

lemma detect_bot: "UsbBootDetectMedia env m = Some (r, m1) \<Longrightarrow> bot_unit m \<Longrightarrow> bot_unit m1"
  using UsbBootDetectMedia_kept [of m env] by (simp add: keeps_def)

lemma cmd_lengths: "length capacity16_cmd = 16" "length (capacity_cmd l) = 12" "length (test_cmd l) = 12"
  "length (inquiry_cmd l) = 12" "length (mode_sense_cmd l) = 6"
  by (simp_all add: capacity16_cmd_def capacity_cmd_def test_cmd_def inquiry_cmd_def mode_sense_cmd_def)

lemma cmd16_length: "length (rw10_cmd opc lun l n) = 12" "length (rw16_cmd opc lun l16 n) = 16"
  by (simp_all add: rw10_cmd_def rw16_cmd_def)

section \<open>Interfaces that return\<close>

text \<open>
  What the driver relies on for its requests to end: the transfers of the USB I/O protocol return, keep the length of
  the buffer, and never report a missing medium; and time passes, that is, each look at an armed timer that has not
  expired leaves less time, and no transfer gives time back.
\<close>

locale mass_services =
  fixes env :: "'s mass_env" and left :: "'s \<Rightarrow> nat"
  assumes control: "len \<le> length buf \<Longrightarrow>
      returns (\<lambda>((r, b, x), s1). length b = length buf \<and> r \<noteq> EFI_NO_MEDIA \<and> left s1 \<le> left s)
        (uio_Control (me_io env) req dir timeout buf len s)"
    and bulk: "len \<le> length buf \<Longrightarrow>
      returns (\<lambda>((r, b, n, x), s1). length b = length buf \<and> r \<noteq> EFI_NO_MEDIA \<and> left s1 \<le> left s)
        (uio_Bulk (me_io env) ep buf len timeout s)"
    and create: "me_CreateEvent env s = ((r, evt), s1) \<Longrightarrow> r \<noteq> EFI_NO_MEDIA"
    and timer: "me_SetTimer env evt s = (r, s1) \<Longrightarrow> r \<noteq> EFI_NO_MEDIA"
    and reset: "returns (\<lambda>x. True) (uio_PortReset (me_io env) s)"
    and check: "me_CheckEvent env evt s = (r, s1) \<Longrightarrow> EFI_ERROR r \<Longrightarrow> left s1 < left s"
begin

lemma clear_returns: "returns (\<lambda>(r, s1). left s1 \<le> left s) (UsbClearEndpointStall (me_io env) ep s)"
  unfolding UsbClearEndpointStall_def by (rule returns_bind [OF control]) auto

lemma reset_request_returns:
  assumes "bot_ok b" "left s1 \<le> l"
  shows "returns (\<lambda>(r, s1). r \<noteq> EFI_NO_MEDIA \<and> left s1 \<le> l) (UsbBotResetDevice (me_io env) b False s1)"
proof -
  obtain ei ain eo aout ifn where e [simp]: "bot_BulkIn b = Some ei" "EndpointAddress ei = Some ain"
    "bot_BulkOut b = Some eo" "EndpointAddress eo = Some aout" "InterfaceNumber (bot_Interface b) = Some ifn"
    using assms(1) by (rule bot_okE)
  show ?thesis
    unfolding UsbBotResetDevice_def
    using assms(2)
    apply (simp add: e)
    apply (rule returns_bind [OF control])
     apply simp
    apply (clarsimp simp: EFI_ERROR_def)
    apply (rule returns_bind [OF clear_returns])
    apply clarsimp
    apply (rule returns_bind [OF clear_returns])
    apply clarsimp
    done
qed

lemma send_returns:
  assumes "bot_ok b" "length cmd \<le> 16"
  shows "returns (\<lambda>(r, s1). r \<noteq> EFI_NO_MEDIA \<and> left s1 \<le> left s) (UsbBotSendCommand (me_io env) b cmd dir len lun s)"
proof -
  obtain ei ain eo aout ifn where e [simp]: "bot_BulkIn b = Some ei" "EndpointAddress ei = Some ain"
    "bot_BulkOut b = Some eo" "EndpointAddress eo = Some aout" "InterfaceNumber (bot_Interface b) = Some ifn"
    using assms(1) by (rule bot_okE)
  have l: "31 \<le> length (bot_cbw t cmd dir len lun)" for t
    using assms(2) by (simp add: bot_cbw_def USB_BOT_MAX_CMDLEN_def)
  show ?thesis
    unfolding UsbBotSendCommand_def
    using assms(2)
    apply (simp add: e USB_BOT_MAX_CMDLEN_def)
    apply (rule returns_bind [OF bulk])
     apply (rule l)
    apply (clarsimp simp: EFI_ERROR_def split: if_splits)
    apply (rule returns_bind [OF reset_request_returns [OF assms(1)]])
     apply assumption
    apply clarsimp
    done
qed

lemma data_returns:
  assumes "bot_ok b" "len \<le> length buf"
  shows "returns (\<lambda>((r, buf1, n), s1). length buf1 = length buf \<and> left s1 \<le> left s)
    (UsbBotDataTransfer (me_io env) b dir buf len timeout s)"
proof (cases "dir = EfiUsbNoData \<or> len = 0")
  case True
  then show ?thesis by (simp add: UsbBotDataTransfer_def)
next
  case False
  obtain ei ain eo aout ifn where e [simp]: "bot_BulkIn b = Some ei" "EndpointAddress ei = Some ain"
    "bot_BulkOut b = Some eo" "EndpointAddress eo = Some aout" "InterfaceNumber (bot_Interface b) = Some ifn"
    using assms(1) by (rule bot_okE)
  have "\<exists>e a. (if dir = EfiUsbDataIn then bot_BulkIn b else bot_BulkOut b) = Some e \<and> EndpointAddress e = Some a"
    by (simp add: e)
  then obtain e a where ea: "(if dir = EfiUsbDataIn then bot_BulkIn b else bot_BulkOut b) = Some e" "EndpointAddress e = Some a"
    by blast
  show ?thesis
    unfolding UsbBotDataTransfer_def ea
    apply (simp add: False ea)
    apply (rule returns_bind [OF bulk [OF assms(2)]])
    apply (clarsimp split del: if_split)
    subgoal for r b1 n x s1
      apply (cases "EFI_ERROR r")
       apply (simp split del: if_split)
       apply (rule returns_bind [where P = "\<lambda>(r, s2). left s2 \<le> left s"])
        apply (auto intro!: returns_bind [OF clear_returns] split: if_splits)[1]
       apply (clarsimp split del: if_split)
       subgoal for r1 s2
         apply (rule returns_bind [where P = "\<lambda>s3. left s3 \<le> left s"])
          apply (auto intro!: returns_map [OF reset_request_returns [OF assms(1)]])
         done
      apply simp
      done
    done
qed

lemma status_loop_returns:
  assumes "bot_ok b" "r \<noteq> EFI_NO_MEDIA" "left s \<le> l"
  shows "returns (\<lambda>((r, x), s1). r \<noteq> EFI_NO_MEDIA \<and> left s1 \<le> l) (bot_status_loop (me_io env) b a k r s)"
  using assms(2,3)
proof (induction k arbitrary: r s)
  case 0
  then show ?case by simp
next
  case (Suc k)
  have step: "returns (\<lambda>((r, x), s1). r \<noteq> EFI_NO_MEDIA \<and> left s1 \<le> l)
      (if EFI_ERROR r1 then do {
         s2 \<leftarrow> (if USB_IS_ERROR res EFI_USB_ERR_STALL then map_option snd (UsbClearEndpointStall (me_io env) a s1) else Some s1);
         bot_status_loop (me_io env) b a k r1 s2 }
       else do {
         sig \<leftarrow> le32 csw 0;
         st \<leftarrow> rd csw 12;
         if sig \<noteq> USB_BOT_CSW_SIGNATURE \<or> st = USB_BOT_COMMAND_ERROR
         then do { (r2, s2) \<leftarrow> UsbBotResetDevice (me_io env) b False s1; bot_status_loop (me_io env) b a k r2 s2 }
         else Some ((r1, st), s1) })"
    if "length csw = 13" "r1 \<noteq> EFI_NO_MEDIA" "left s1 \<le> l" for r1 csw res s1
  proof (cases "EFI_ERROR r1")
    case True
    have "returns (\<lambda>s2. left s2 \<le> l) (if USB_IS_ERROR res EFI_USB_ERR_STALL then map_option snd (UsbClearEndpointStall (me_io env) a s1) else Some s1)"
      using that(3) by (auto intro!: returns_map [OF clear_returns])
    then show ?thesis
      using True that by (auto intro!: returns_bind Suc.IH)
  next
    case False
    have "le32 csw 0 = Some (of_nat (le_value (take 4 csw)))"
      using that(1) by (simp add: le32_def rd_range_def)
    then show ?thesis
      using False that assms(1) by (auto intro!: returns_bind [OF reset_request_returns] Suc.IH)
  qed
  show ?case
    unfolding bot_status_loop.simps
    by (rule returns_bind [OF bulk]) (use Suc.prems step in auto)
qed

lemma bot_exec_returns:
  assumes "bot_ok b" "length cmd \<le> 16" "unat len \<le> length buf"
  shows "returns (\<lambda>((r, buf1, res), b1, s1). length buf1 = length buf \<and> r \<noteq> EFI_NO_MEDIA \<and> left s1 \<le> left s)
    (UsbBotExecCommand (me_io env) b cmd dir buf len lun timeout s)"
proof -
  obtain ei ain eo aout ifn where e [simp]: "bot_BulkIn b = Some ei" "EndpointAddress ei = Some ain"
    "bot_BulkOut b = Some eo" "EndpointAddress eo = Some aout" "InterfaceNumber (bot_Interface b) = Some ifn"
    using assms(1) by (rule bot_okE)
  have status: "returns (\<lambda>((r, x), b1, s1). r \<noteq> EFI_NO_MEDIA \<and> left s1 \<le> l) (UsbBotGetStatus (me_io env) b s)"
    if "left s \<le> l" for s l
    unfolding UsbBotGetStatus_def using that assms(1) by (auto intro!: returns_bind [OF status_loop_returns])
  show ?thesis
    unfolding UsbBotExecCommand_def
    apply (rule returns_bind [OF send_returns [OF assms(1,2)]])
    apply (clarsimp split del: if_split)
    subgoal for r s1
      apply (cases "EFI_ERROR r")
       apply simp
      apply simp
      apply (rule returns_bind [OF data_returns [OF assms(1,3)]])
      apply clarsimp
      apply (rule returns_bind [OF status [of _ "left s"]])
       apply simp
      apply clarsimp
      done
    done
qed

text \<open>The commands of a unit. A report of a missing medium has made the unit say so.\<close>

lemma exec_returns:
  assumes "bot_unit m" "length cmd \<le> 16" "unat len \<le> length buf"
  shows "returns (\<lambda>((r, buf1, res), m1). length buf1 = length buf \<and> r \<noteq> EFI_NO_MEDIA \<and> same_unit m m1 \<and> left (ms_ext m1) \<le> left (ms_ext m))
    (mass_exec env cmd dir buf len timeout m)"
proof -
  obtain b where b: "md_Transport (ms_dev m) = mUsbBotTransport" "ms_ctx m = BotCtx b" "bot_ok b"
    using assms(1) by (auto simp: bot_unit_def)
  obtain r buf1 res b1 s1 where e: "UsbBotExecCommand (me_io env) b cmd dir buf len (md_Lun (ms_dev m)) timeout (ms_ext m) = Some ((r, buf1, res), b1, s1)"
    "length buf1 = length buf" "r \<noteq> EFI_NO_MEDIA" "left s1 \<le> left (ms_ext m)"
    using bot_exec_returns [OF b(3) assms(2,3), of "ms_ext m" dir "md_Lun (ms_dev m)" timeout] by (auto simp: returns_def)
  have x: "mass_exec env cmd dir buf len timeout m = Some ((r, buf1, res), m\<lparr>ms_ctx := BotCtx b1, ms_ext := s1\<rparr>)"
    by (simp add: mass_exec_def Transport_ExecCommand_def b e)
  moreover have "same_unit m (m\<lparr>ms_ctx := BotCtx b1, ms_ext := s1\<rparr>)"
    using mass_exec_unit [OF same_unit_refl, of m env cmd dir buf len timeout] x by (simp add: keeps_def)
  ultimately show ?thesis
    using e by simp
qed

lemma sense_returns:
  assumes "bot_unit m"
  shows "returns (\<lambda>(r, m1). (r = EFI_NO_MEDIA \<longrightarrow> \<not> bm_MediaPresent (ms_media m1)) \<and> left (ms_ext m1) \<le> left (ms_ext m))
    (UsbBootRequestSense env m)"
proof -
  have "returns (\<lambda>(r, m1). (r = EFI_NO_MEDIA \<longrightarrow> \<not> bm_MediaPresent (ms_media m1)) \<and> left (ms_ext m1) \<le> left (ms_ext m))
      (if EFI_ERROR r then Some (r, m1)
       else if res \<noteq> USB_MASS_CMD_SUCCESS then Some (EFI_DEVICE_ERROR, m1)
       else do {
         key \<leftarrow> rd data 2;
         asc \<leftarrow> rd data 12;
         let (x, f) = sense_result (key AND 0xF) asc;
         Some (x, upd_media f m1) })"
    if "length data = 18" "r \<noteq> EFI_NO_MEDIA" "left (ms_ext m1) \<le> left (ms_ext m)" for r data res m1
    using that by (auto simp: sense_result_def upd_media_def ms_media_def)
  then show ?thesis
    unfolding UsbBootRequestSense_def
    by (intro returns_bind [OF exec_returns]) (auto simp: assms sense_cmd_def)
qed

lemma cmd_returns:
  assumes "bot_unit m" "length cmd \<le> 16" "unat len \<le> length buf"
  shows "returns (\<lambda>((r, buf1), m1). length buf1 = length buf \<and> (r = EFI_NO_MEDIA \<longrightarrow> \<not> bm_MediaPresent (ms_media m1)) \<and>
      left (ms_ext m1) \<le> left (ms_ext m))
    (UsbBootExecCmd env cmd dir buf len timeout m)"
proof -
  have "returns (\<lambda>((x, buf2), m2). length buf2 = length buf \<and> (x = EFI_NO_MEDIA \<longrightarrow> \<not> bm_MediaPresent (ms_media m2)) \<and>
        left (ms_ext m2) \<le> left (ms_ext m))
      (do { (x, m2) \<leftarrow> UsbBootRequestSense env m1; Some ((x, buf1), m2) })"
    if "length buf1 = length buf" "same_unit m m1" "left (ms_ext m1) \<le> left (ms_ext m)" for buf1 m1
    using that by (auto intro!: returns_bind [OF sense_returns] intro: same_unit_bot assms(1))
  then show ?thesis
    unfolding UsbBootExecCmd_def
    by (intro returns_bind [OF exec_returns [OF assms]]) auto
qed

lemma retry_returns:
  assumes "bot_unit m" "length cmd \<le> 16" "unat len \<le> length buf" "r \<noteq> EFI_NO_MEDIA"
  shows "returns (\<lambda>((r1, buf1), m1). length buf1 = length buf \<and> (r1 = EFI_NO_MEDIA \<longrightarrow> \<not> bm_MediaPresent (ms_media m1)))
    (boot_retry_loop env evt cmd dir len timeout retry r buf m)"
  using assms(1,3,4)
proof (induction "left (ms_ext m)" arbitrary: retry r buf m rule: less_induct)
  case less
  obtain x s1 where c: "me_CheckEvent env evt (ms_ext m) = (x, s1)"
    by (cases "me_CheckEvent env evt (ms_ext m)")
  show ?case
  proof (cases "EFI_ERROR x")
    case False
    with less.prems c show ?thesis
      by (subst boot_retry_loop.simps) simp
  next
    case True
    let ?m = "m\<lparr>ms_ext := s1\<rparr>"
    have lt: "left s1 < left (ms_ext m)"
      using check [OF c True] .
    have b: "bot_unit ?m"
      using less.prems(1) by (simp add: bot_unit_def)
    obtain r1 buf1 m1 where e: "UsbBootExecCmd env cmd dir buf len timeout ?m = Some ((r1, buf1), m1)"
      "length buf1 = length buf" "r1 = EFI_NO_MEDIA \<longrightarrow> \<not> bm_MediaPresent (ms_media m1)" "left (ms_ext m1) \<le> left s1"
      using cmd_returns [OF b assms(2) less.prems(2), of dir timeout] by (auto simp: returns_def)
    have "same_unit ?m m1"
      using UsbBootExecCmd_unit [OF same_unit_refl, of ?m env cmd dir buf len timeout] e(1) by (simp add: keeps_def)
    then have b1: "bot_unit m1"
      using b same_unit_bot by blast
    have "returns (\<lambda>((r1, buf2), m1). length buf2 = length buf \<and> (r1 = EFI_NO_MEDIA \<longrightarrow> \<not> bm_MediaPresent (ms_media m1)))
        (boot_retry_loop env evt cmd dir len timeout k r1 buf1 m1)" if "r1 \<noteq> EFI_NO_MEDIA" for k
      using less.hyps [of m1 buf1 r1 k] lt e less.prems(2) b1 that by simp
    with c True e(1-3) show ?thesis
      by (subst boot_retry_loop.simps) auto
  qed
qed

lemma with_retry_returns:
  assumes "bot_unit m" "length cmd \<le> 16" "unat len \<le> length buf"
  shows "returns (\<lambda>((r1, buf1), m1). length buf1 = length buf \<and> (r1 = EFI_NO_MEDIA \<longrightarrow> \<not> bm_MediaPresent (ms_media m1)) \<and> same_unit m m1)
    (UsbBootExecCmdWithRetry env cmd dir buf len timeout m)"
proof -
  obtain r evt s1 where c: "me_CreateEvent env (ms_ext m) = ((r, evt), s1)"
    by (metis surj_pair)
  obtain r1 s2 where t: "me_SetTimer env evt s1 = (r1, s2)"
    by (cases "me_SetTimer env evt s1")
  have nm: "r \<noteq> EFI_NO_MEDIA" "r1 \<noteq> EFI_NO_MEDIA"
    using create [OF c] timer [OF t] by auto
  have b: "bot_unit (m\<lparr>ms_ext := s2\<rparr>)"
    using assms(1) by (simp add: bot_unit_def)
  obtain r2 buf2 m2 where l: "boot_retry_loop env evt cmd dir len timeout 0 r1 buf (m\<lparr>ms_ext := s2\<rparr>) = Some ((r2, buf2), m2)"
    "length buf2 = length buf" "r2 = EFI_NO_MEDIA \<longrightarrow> \<not> bm_MediaPresent (ms_media m2)"
    using retry_returns [OF b assms(2,3) nm(2), of evt dir timeout 0] by (auto simp: returns_def)
  have "returns (\<lambda>((r1, buf1), m1). length buf1 = length buf \<and> (r1 = EFI_NO_MEDIA \<longrightarrow> \<not> bm_MediaPresent (ms_media m1)))
      (UsbBootExecCmdWithRetry env cmd dir buf len timeout m)"
    using l(2,3) by (cases "EFI_ERROR r"; cases "EFI_ERROR r1") (simp_all add: UsbBootExecCmdWithRetry_def c t nm l(1) ms_media_def)
  then obtain x where "UsbBootExecCmdWithRetry env cmd dir buf len timeout m = Some x"
    "length (snd (fst x)) = length buf" "fst (fst x) = EFI_NO_MEDIA \<longrightarrow> \<not> bm_MediaPresent (ms_media (snd x))"
    by (auto simp: returns_def)
  with UsbBootExecCmdWithRetry_unit [OF same_unit_refl, of m env cmd dir buf len timeout] show ?thesis
    by (cases x) (auto simp: returns_def keeps_def)
qed

lemma blocks_returns:
  assumes "bot_unit m" "\<And>lun l n. length (mk lun l n) \<le> 16" "at + cnt * unat bs \<le> length buf"
  shows "returns (\<lambda>((r1, buf1), m1). length buf1 = length buf \<and> same_unit m m1) (boot_blocks env mk dir bs lba cnt at r buf m)"
  using assms(1,3)
proof (induction cnt arbitrary: lba at r buf m rule: less_induct)
  case (less cnt)
  let ?n = "min cnt USB_BOOT_IO_BLOCKS"
  let ?bytes = "of_nat ?n * bs"
  have u: "unat ?bytes \<le> ?n * unat bs"
    by (rule unat_mult_le)
  have split: "?n * unat bs + (cnt - ?n) * unat bs = cnt * unat bs"
    by (simp add: add_mult_distrib [symmetric])
  show ?case
  proof (cases "cnt = 0")
    case True
    then show ?thesis
      by (subst boot_blocks.simps) (simp add: same_unit_refl)
  next
    case False
    have "unat ?bytes \<le> length (drop at buf)"
      using less.prems(2) u split by simp
    from with_retry_returns [OF less.prems(1) assms(2) this, of "md_Lun (ms_dev m)" lba "of_nat ?n" dir USB_BOOT_GENERAL_CMD_TIMEOUT]
    obtain r1 b1 m1 where e: "UsbBootExecCmdWithRetry env (mk (md_Lun (ms_dev m)) lba (of_nat ?n)) dir (drop at buf) ?bytes
        USB_BOOT_GENERAL_CMD_TIMEOUT m = Some ((r1, b1), m1)" "length b1 = length (drop at buf)" "same_unit m m1"
      by (auto simp: returns_def)
    let ?buf = "take at buf @ b1"
    have l: "length ?buf = length buf"
      using e(2) less.prems(2) by simp
    have "returns (\<lambda>((r1, buf1), m2). length buf1 = length ?buf \<and> same_unit m1 m2)
        (boot_blocks env mk dir bs (lba + of_nat ?n) (cnt - ?n) (at + unat ?bytes) r1 ?buf m1)"
      using False less.prems u split l e(3) same_unit_bot
      by (intro less.IH) (auto simp: USB_BOOT_IO_BLOCKS_def)
    then have "returns (\<lambda>((r1, buf1), m2). length buf1 = length buf \<and> same_unit m m2)
        (boot_blocks env mk dir bs (lba + of_nat ?n) (cnt - ?n) (at + unat ?bytes) r1 ?buf m1)"
      by (rule returns_weaken) (use l e(3) same_unit_trans in auto)
    with False e(1,3) l show ?thesis
      by (subst boot_blocks.simps) (simp add: Let_def)
  qed
qed

lemma mass_reset_returns: "bot_unit m \<Longrightarrow> returns (\<lambda>x. True) (UsbMassReset env True m)"
proof -
  assume "bot_unit m"
  then obtain b where b: "md_Transport (ms_dev m) = mUsbBotTransport" "ms_ctx m = BotCtx b" "bot_ok b"
    by (auto simp: bot_unit_def)
  have 1: "returns (\<lambda>x. True) (UsbBotResetDevice (me_io env) b False s)" for s
    using reset_request_returns [OF b(3), of s "left s"] by (auto simp: returns_def)
  obtain r s1 where p: "uio_PortReset (me_io env) (ms_ext m) = Some (r, s1)"
    using reset [of "ms_ext m"] by (auto simp: returns_def)
  have "UsbBotResetDevice (me_io env) b True (ms_ext m) =
      (if EFI_ERROR r then Some (EFI_DEVICE_ERROR, s1) else UsbBotResetDevice (me_io env) b False s1)"
    by (simp add: UsbBotResetDevice_def p)
  with 1 [of s1] show ?thesis
    by (auto simp: UsbMassReset_def Transport_Reset_def b returns_def)
qed

text \<open>A request of a unit whose medium is not removable.\<close>

lemma mass_blocks_returns:
  fixes io16 :: "u64 \<Rightarrow> nat \<Rightarrow> byte list \<Rightarrow> 's mass \<Rightarrow> ((efi_status \<times> byte list) \<times> 's mass) option"
    and io10 :: "u32 \<Rightarrow> nat \<Rightarrow> byte list \<Rightarrow> 's mass \<Rightarrow> ((efi_status \<times> byte list) \<times> 's mass) option"
  assumes "bot_unit m" "unit_ok m" "\<not> bm_RemovableMedia (ms_media m)" "length data = len"
    and "\<And>m lba cnt buf. bot_unit m \<Longrightarrow> cnt * unat (bm_BlockSize (ms_media m)) \<le> length buf \<Longrightarrow>
      returns (\<lambda>((r1, buf1), m1). length buf1 = length buf \<and> same_unit m m1) (io16 lba cnt buf m)"
    and "\<And>m lba cnt buf. bot_unit m \<Longrightarrow> cnt * unat (bm_BlockSize (ms_media m)) \<le> length buf \<Longrightarrow>
      returns (\<lambda>((r1, buf1), m1). length buf1 = length buf \<and> same_unit m m1) (io10 lba cnt buf m)"
  shows "returns (\<lambda>((r1, buf1), m1). map_option length buf1 = Some len) (mass_blocks env io16 io10 mid lba len (Some data) m)"
proof -
  let ?bs = "bm_BlockSize (ms_media m)"
  have "returns (\<lambda>((r1, buf1), m1). map_option length buf1 = Some len)
      (do {
        ((r1, data1), m2) \<leftarrow>
          (if md_Cdb16Byte (ms_dev m) then io16 lba (len div unat ?bs) data m else io10 (ucast lba) (len div unat ?bs) data m);
        m3 \<leftarrow> (if EFI_ERROR r1 then map_option snd (UsbMassReset env True m2) else Some m2);
        Some ((r1, Some data1), m3) })"
  proof (rule returns_bind [where P = "\<lambda>((r1, buf1), m1). length buf1 = len \<and> same_unit m m1"])
    have "len div unat ?bs * unat ?bs \<le> length data"
      using assms(4) by (simp add: div_times_less_eq_dividend)
    then show "returns (\<lambda>((r1, buf1), m1). length buf1 = len \<and> same_unit m m1)
        (if md_Cdb16Byte (ms_dev m) then io16 lba (len div unat ?bs) data m else io10 (ucast lba) (len div unat ?bs) data m)"
      using assms(1,4-6) by auto
  next
    fix x :: "(efi_status \<times> byte list) \<times> 's mass"
    assume x: "(\<lambda>((r1, buf1), m1). length buf1 = len \<and> same_unit m m1) x"
    obtain r1 data1 m2 where e: "x = ((r1, data1), m2)"
      by (metis surj_pair)
    have "bot_unit m2"
      using x e assms(1) same_unit_bot by auto
    then have "returns (\<lambda>x. True) (if EFI_ERROR r1 then map_option snd (UsbMassReset env True m2) else Some m2)"
      by (auto intro!: returns_map [OF mass_reset_returns])
    then show "returns (\<lambda>((r1, buf1), m1). map_option length buf1 = Some len)
        ((\<lambda>((r1, data1), m2). do {
          m3 \<leftarrow> (if EFI_ERROR r1 then map_option snd (UsbMassReset env True m2) else Some m2);
          Some ((r1, Some data1), m3) }) x)"
      using x e by (auto intro!: returns_bind)
  qed
  then show ?thesis
    using assms(2-4) unfolding mass_blocks_def unit_ok_def
    by (auto simp: Let_def)
qed

lemma requests_return:
  assumes "bot_unit m" "unit_ok m" "\<not> bm_RemovableMedia (ms_media m)" "length data = len"
  shows "returns (\<lambda>((r1, buf1), m1). map_option length buf1 = Some len) (UsbMassReadBlocks env mid lba len (Some data) m)"
    "returns (\<lambda>((r1, buf1), m1). map_option length buf1 = Some len) (UsbMassWriteBlocks env mid lba len (Some data) m)"
  unfolding UsbMassReadBlocks_def UsbMassWriteBlocks_def
  by (rule mass_blocks_returns [OF assms];
      simp add: UsbBootReadBlocks16_def UsbBootReadBlocks_def UsbBootWriteBlocks16_def UsbBootWriteBlocks_def
        blocks_returns cmd16_length)+

text \<open>A result that is there is one that the rules above describe.\<close>

lemma with_retry_result:
  assumes "UsbBootExecCmdWithRetry env cmd dir buf len timeout m = Some ((r, buf1), m1)"
    and "bot_unit m" "length cmd \<le> 16" "unat len \<le> length buf"
  shows "same_unit m m1" "r = EFI_NO_MEDIA \<Longrightarrow> \<not> bm_MediaPresent (ms_media m1)"
  using with_retry_returns [OF assms(2-4), of dir timeout] assms(1) by (auto simp: returns_def)

lemma sense_result_no_media:
  assumes "UsbBootRequestSense env m = Some (EFI_NO_MEDIA, m1)" "bot_unit m"
  shows "\<not> bm_MediaPresent (ms_media m1)"
  using sense_returns [OF assms(2)] assms(1) by (simp add: returns_def)

lemma capacity16_no_media:
  assumes "UsbBootReadCapacity16 env m = Some (EFI_NO_MEDIA, m1)" "bot_unit m"
  shows "\<not> bm_MediaPresent (ms_media m1)"
proof -
  let ?m = "upd_media (\<lambda>b. b\<lparr>bm_MediaPresent := False, bm_LastBlock := 0, bm_BlockSize := 0\<rparr>) m"
  obtain r data m0 where e: "UsbBootExecCmdWithRetry env capacity16_cmd EfiUsbDataIn (replicate 32 0) 32 USB_BOOT_GENERAL_CMD_TIMEOUT ?m = Some ((r, data), m0)"
    using assms(1) by (auto simp: UsbBootReadCapacity16_def bind_eq_Some_conv)
  have b: "bot_unit ?m"
    using assms(2) by simp
  note res = with_retry_result [OF e b]
  have "bot_unit m0"
    by (rule same_unit_bot [OF res(1) b]) (simp_all add: cmd_lengths)
  with assms(1) e res(2) show ?thesis
    by (auto simp: UsbBootReadCapacity16_def bind_eq_Some_conv Let_def cmd_lengths EFI_ERROR_def split: if_splits
        dest!: sense_result_no_media)
qed

lemma capacity_no_media:
  assumes "UsbBootReadCapacity env m = Some (EFI_NO_MEDIA, m1)" "bot_unit m"
  shows "\<not> bm_MediaPresent (ms_media m1)"
proof -
  obtain r data m0 where e: "UsbBootExecCmdWithRetry env (capacity_cmd (md_Lun (ms_dev m))) EfiUsbDataIn (replicate 8 0) 8
      USB_BOOT_GENERAL_CMD_TIMEOUT m = Some ((r, data), m0)"
    using assms(1) by (auto simp: UsbBootReadCapacity_def bind_eq_Some_conv)
  note res = with_retry_result [OF e assms(2)]
  have b: "bot_unit m0"
    by (rule same_unit_bot [OF res(1) assms(2)]) (simp_all add: cmd_lengths)
  have 16: "\<not> bm_MediaPresent (ms_media m3)" if "UsbBootReadCapacity16 env (upd_media g (upd_media f m0)) = Some (EFI_NO_MEDIA, m3)"
    for f g m3
    using capacity16_no_media [OF that] b by simp
  have sn: "\<not> bm_MediaPresent (ms_media m3)" if "UsbBootRequestSense env (upd_media f m0) = Some (EFI_NO_MEDIA, m3)" for f m3
    using sense_result_no_media [OF that] b by simp
  show ?thesis
    using assms(1) e res(2)
    by (auto simp: UsbBootReadCapacity_def bind_eq_Some_conv Let_def cmd_lengths EFI_ERROR_def split: if_splits dest!: 16 sn)
qed

text \<open>What a detection leaves when it finds no medium, from a unit without one.\<close>

lemma detect_no_media:
  assumes "UsbBootDetectMedia env m = Some (EFI_NO_MEDIA, m1)" "bot_unit m"
  shows "\<not> bm_MediaPresent (ms_media m1)"
proof -
  obtain r m0 where r: "UsbBootIsUnitReady env m = Some (r, m0)"
    using assms(1) by (auto simp: UsbBootDetectMedia_def bind_eq_Some_conv)
  then obtain b where "UsbBootExecCmdWithRetry env (test_cmd (md_Lun (ms_dev m))) EfiUsbNoData [] 0 USB_BOOT_GENERAL_CMD_TIMEOUT m = Some ((r, b), m0)"
    by (auto simp: UsbBootIsUnitReady_def bind_eq_Some_conv)
  note res = with_retry_result [OF this assms(2)]
  have b0: "bot_unit m0"
    by (rule same_unit_bot [OF res(1) assms(2)]) (simp_all add: cmd_lengths)
  show ?thesis
  proof (cases "EFI_ERROR r \<and> r \<noteq> EFI_MEDIA_CHANGED")
    case True
    with assms(1) r res(2) show ?thesis
      by (auto simp: UsbBootDetectMedia_def bind_eq_Some_conv cmd_lengths)
  next
    case False
    define st2 where "st2 = (\<lambda>sub. if md_Pdt (ms_dev m0) \<noteq> USB_PDT_CDROM \<and> sub = USB_MASS_STORE_SCSI
      then map_option snd (UsbScsiModeSense env m0) else Some m0)"
    have b2: "bot_unit m2" if "st2 sub = Some m2" for sub m2
    proof (cases "st2 sub = Some m0")
      case True
      with that b0 show ?thesis by simp
    next
      case False
      with that have "map_option snd (UsbScsiModeSense env m0) = Some m2"
        by (auto simp: st2_def split: if_splits)
      with UsbScsiModeSense_kept [of m0 env] b0 show ?thesis
        by (auto simp: keeps_def)
    qed
    have "UsbBootDetectMedia env m =
        do {
          sub \<leftarrow> InterfaceSubClass (ctx_Interface (ms_ctx m));
          m2 \<leftarrow> st2 sub;
          (r1, m3) \<leftarrow> UsbBootReadCapacity env m2;
          if EFI_ERROR r1 then Some (r1, media_announce env (ms_media m) m3) else Some (EFI_SUCCESS, m3) }"
      by (simp only: UsbBootDetectMedia_def r st2_def Option.bind.simps prod.case if_not_P [OF False])
    with assms(1) obtain sub m2 r1 m3 where "st2 sub = Some m2" and "UsbBootReadCapacity env m2 = Some (EFI_NO_MEDIA, m3)"
      and "m1 = media_announce env (ms_media m) m3"
      by (auto simp: bind_eq_Some_conv split: if_splits)
    with b2 capacity_no_media show ?thesis
      by simp
  qed
qed

lemma inquiry_result:
  assumes "UsbBootInquiry env m = Some (r, m1)" "bot_unit m"
  shows "bot_unit m1" "bm_MediaPresent (ms_media m1) \<Longrightarrow> bm_MediaPresent (ms_media m)"
proof -
  obtain r0 data m0 where e: "UsbBootExecCmdWithRetry env (inquiry_cmd (md_Lun (ms_dev m))) EfiUsbDataIn (replicate 36 0) 36
      USB_BOOT_GENERAL_CMD_TIMEOUT m = Some ((r0, data), m0)"
    using assms(1) by (auto simp: UsbBootInquiry_def bind_eq_Some_conv)
  have su: "same_unit m m0"
    by (rule with_retry_result(1) [OF e assms(2)]) (simp_all add: cmd_lengths)
  have "bot_unit m0"
    using su assms(2) by (rule same_unit_bot)
  with assms(1) e show "bot_unit m1"
    by (auto simp: UsbBootInquiry_def bind_eq_Some_conv Let_def split: if_splits)
  have "bm_MediaPresent (ms_media m1) = bm_MediaPresent (ms_media m0)"
    using assms(1) e by (auto simp: UsbBootInquiry_def bind_eq_Some_conv Let_def split: if_splits)
  with su show "bm_MediaPresent (ms_media m1) \<Longrightarrow> bm_MediaPresent (ms_media m)"
    by (simp add: same_unit_def)
qed

text \<open>A unit that is accepted, with or without a medium, never divides by zero while its medium is not removable.\<close>

lemma init_media_ok:
  assumes "UsbMassInitMedia env m = Some (r, m1)" "bot_unit m" "\<not> EFI_ERROR r \<or> r = EFI_NO_MEDIA"
  shows "unit_ok m1" "bot_unit m1"
proof -
  let ?m = "upd_media (\<lambda>b. b\<lparr>bm_MediaPresent := False, bm_LogicalPartition := False, bm_ReadOnly := False,
      bm_WriteCaching := False, bm_IoAlign := 0, bm_MediaId := 1\<rparr>) m"
  have b: "bot_unit ?m" "\<not> bm_MediaPresent (ms_media ?m)"
    using assms(2) by simp_all
  obtain r0 m0 where e: "UsbBootInquiry env ?m = Some (r0, m0)"
    using assms(1) by (auto simp: UsbMassInitMedia_def UsbBootGetParams_def bind_eq_Some_conv)
  note inq = inquiry_result [OF e b(1)]
  have np: "\<not> bm_MediaPresent (ms_media m0)"
    using inq(2) b(2) by blast
  have det: "unit_ok m3 \<and> bot_unit m3" if "UsbBootDetectMedia env m2 = Some (r, m3)" "bot_unit m2" for m2 m3
    using that assms(3) UsbBootDetectMedia_ready [of env m2 m3] detect_no_media [of m2 m3] detect_bot [OF that]
    by (auto simp: EFI_ERROR_def unit_ok_def media_ready_def)
  have "unit_ok m1 \<and> bot_unit m1"
    using assms(1,3) e np inq(1) det
    by (auto simp: UsbMassInitMedia_def UsbBootGetParams_def bind_eq_Some_conv Let_def unit_ok_def EFI_ERROR_def split: if_splits)
  then show "unit_ok m1" "bot_unit m1"
    by simp_all
qed

end

section \<open>A unit in use\<close>

text \<open>What the clients of a unit can do: read, write, reset, in any order and with any arguments.\<close>

inductive unit_run :: "'s mass_env \<Rightarrow> 's mass \<Rightarrow> 's mass \<Rightarrow> bool" for env m0 where
  start: "unit_run env m0 m0"
| read: "unit_run env m0 m \<Longrightarrow> UsbMassReadBlocks env mid lba len buf m = Some (x, m1) \<Longrightarrow> unit_run env m0 m1"
| write1: "unit_run env m0 m \<Longrightarrow> UsbMassWriteBlocks env mid lba len buf m = Some (x, m1) \<Longrightarrow> unit_run env m0 m1"
| reset: "unit_run env m0 m \<Longrightarrow> UsbMassReset env verify m = Some (r, m1) \<Longrightarrow> unit_run env m0 m1"

lemma UsbMassReset_unit [THEN unit.after, unit_rules]: "keeps same_unit m (UsbMassReset env verify m)"
  unfolding UsbMassReset_def
  by (auto simp: keeps_def bind_eq_Some_conv same_unit_ext)

lemma mass_blocks_unit:
  assumes "\<not> bm_RemovableMedia (ms_media m)"
    and "\<And>lba cnt data m. keeps same_unit m (io16 lba cnt data m)" "\<And>lba cnt data m. keeps same_unit m (io10 lba cnt data m)"
  shows "keeps same_unit m (mass_blocks env io16 io10 mid lba len buf m)"
  unfolding mass_blocks_def Let_def
  by (simp only: assms(1) if_False Option.bind.simps prod.case)
    (rule unit_rules assms(2,3) [THEN unit.after] unit.steps)+

lemma blocks_unit:
  "keeps same_unit m (UsbBootReadBlocks16 env lba cnt buf m)" "keeps same_unit m (UsbBootReadBlocks env lba1 cnt buf m)"
  "keeps same_unit m (UsbBootWriteBlocks16 env lba cnt buf m)" "keeps same_unit m (UsbBootWriteBlocks env lba1 cnt buf m)"
  unfolding UsbBootReadBlocks16_def UsbBootReadBlocks_def UsbBootWriteBlocks16_def UsbBootWriteBlocks_def
  by (rule boot_blocks_unit same_unit_refl)+

lemma requests_unit:
  assumes "\<not> bm_RemovableMedia (ms_media m)"
  shows "keeps same_unit m (UsbMassReadBlocks env mid lba len buf m)" "keeps same_unit m (UsbMassWriteBlocks env mid lba len buf m)"
  unfolding UsbMassReadBlocks_def UsbMassWriteBlocks_def
  by (rule mass_blocks_unit [OF assms] blocks_unit)+

lemma unit_run_same:
  assumes "unit_run env m0 m" "\<not> bm_RemovableMedia (ms_media m0)"
  shows "same_unit m0 m"
  using assms(1)
proof induction
  case start
  show ?case by (rule same_unit_refl)
next
  case (read m mid lba len buf x m1)
  then have "\<not> bm_RemovableMedia (ms_media m)"
    using assms(2) same_unit_fields(3) by metis
  with read requests_unit(1) [of m env mid lba len buf] show ?case
    by (auto simp: keeps_def intro: same_unit_trans)
next
  case (write1 m mid lba len buf x m1)
  then have "\<not> bm_RemovableMedia (ms_media m)"
    using assms(2) same_unit_fields(3) by metis
  with write1 requests_unit(2) [of m env mid lba len buf] show ?case
    by (auto simp: keeps_def intro: same_unit_trans)
next
  case (reset m verify r m1)
  with UsbMassReset_unit [OF same_unit_refl, of m env verify] show ?case
    by (auto simp: keeps_def intro: same_unit_trans)
qed

end
