(* ===== verification/MassStick.thy ===== *)
theory MassStick
  imports MassReturn
begin

text \<open>
  A disk behind the bulk-only transport, and the refinement of its blocks by the driver.

  \<open>stick\<close> is a device as the Bulk-Only Transport specification describes it: it waits for a command wrapper, sends or
  takes the data of the command, and then sends a status wrapper with the tag of the command and the residue. It knows
  the commands that read and write blocks and those that the driver finds a disk with. A lazy stick ends the data phase of a read with a packet of no bytes and
  reports all of them as residue, which the specification allows. Its timer gives the driver 60 looks.

  The locale \<open>disk_unit\<close> is the contract of one command on some blocks. From it follows, once for the commands of 10
  and of 16 bytes, what the loops over pieces of 128 blocks do to a buffer and to the disk. The contract is shown of the
  driver's own path to the stick: the retry loop, the sense logic and the three phases of the transport.
\<close>

section \<open>The stick\<close>

datatype stick_phase = StickReady | StickSend "byte list" u32 | StickTake nat nat | StickStatus u32 byte

record stick =
  sk_bs :: nat
  sk_disk :: "byte list list"
  sk_phase :: stick_phase
  sk_tag :: "byte list"
  sk_left :: nat
  sk_lazy :: bool
  sk_units :: "(nat \<times> nat) list"

text \<open>The blocks that a command wrapper is about, if it reads or writes some.\<close>

definition stick_range :: "byte list \<Rightarrow> (bool \<times> nat \<times> nat) option" where
  "stick_range cbw =
     do {
       opc \<leftarrow> rd cbw 15;
       if opc = USB_BOOT_READ10_OPCODE \<or> opc = USB_BOOT_WRITE10_OPCODE
       then do { l \<leftarrow> be32 cbw 17; n \<leftarrow> be16 cbw 22; Some (opc = USB_BOOT_READ10_OPCODE, unat l, unat n) }
       else if opc = EFI_SCSI_OP_READ16 \<or> opc = EFI_SCSI_OP_WRITE16
       then do { l \<leftarrow> be64 cbw 17; n \<leftarrow> be32 cbw 25; Some (opc = EFI_SCSI_OP_READ16, unat l, unat n) }
       else None }"

text \<open>The other commands: ready, what it is, how large it is, and that it can be written.\<close>

definition stick_reply :: "byte list \<Rightarrow> stick \<Rightarrow> stick_phase option" where
  "stick_reply cbw s =
     do {
       opc \<leftarrow> rd cbw 15;
       if opc = USB_BOOT_TEST_UNIT_READY_OPCODE then Some (StickStatus 0 0)
       else if opc = USB_BOOT_INQUIRY_OPCODE then Some (StickSend (replicate 36 0) 0)
       else if opc = USB_SCSI_MODE_SENSE6_OPCODE then Some (StickSend [3, 0, 0, 0] 0)
       else if opc = USB_BOOT_READ_CAPACITY_OPCODE
       then Some (StickSend (to_be 4 (of_nat (length (sk_disk s) - 1) :: u32) @ to_be 4 (of_nat (sk_bs s) :: u32)) 0)
       else None }"

definition stick_command :: "byte list \<Rightarrow> stick \<Rightarrow> stick" where
  "stick_command cbw s =
     (let want = (case le32 cbw 8 of None \<Rightarrow> 0 | Some w \<Rightarrow> w);
          s1 = s\<lparr>sk_tag := take 4 (drop 4 cbw)\<rparr> in
      case stick_range cbw of
        None \<Rightarrow> s1\<lparr>sk_phase := (case stick_reply cbw s of None \<Rightarrow> StickStatus want 1 | Some p \<Rightarrow> p)\<rparr>
      | Some (get, l, n) \<Rightarrow>
          if l + n > length (sk_disk s) then s1\<lparr>sk_phase := StickStatus want 1\<rparr>
          else if \<not> get then s1\<lparr>sk_phase := StickTake l n\<rparr>
          else if sk_lazy s then s1\<lparr>sk_phase := StickSend [] want\<rparr>
          else s1\<lparr>sk_phase := StickSend (concat (take n (drop l (sk_disk s)))) 0\<rparr>)"

primrec chunks :: "nat \<Rightarrow> nat \<Rightarrow> 'a list \<Rightarrow> 'a list list" where
  "chunks k 0 xs = []"
| "chunks k (Suc n) xs = take k xs # chunks k n (drop k xs)"

definition stick_in :: "byte list" where "stick_in = [7, 5, 0x81, 2, 0, 2, 0]"
definition stick_out :: "byte list" where "stick_out = [7, 5, 2, 2, 0, 2, 0]"
definition stick_ifd :: "byte list" where "stick_ifd = [9, 4, 0, 0, 2, 8, 6, 0x50, 0]"

text \<open>A transfer in a phase that does not go with it is refused with a stall.\<close>

definition stick_bulk :: "byte \<Rightarrow> byte list \<Rightarrow> nat \<Rightarrow> nat \<Rightarrow> stick \<Rightarrow> ((efi_status \<times> byte list \<times> nat \<times> u32 option) \<times> stick) option" where
  "stick_bulk ep buf len timeout s =
     (if len > length buf then None
      else
        (case (bit ep 7, sk_phase s) of
           (False, StickReady) \<Rightarrow> Some ((EFI_SUCCESS, buf, len, Some 0), stick_command (take len buf) s)
         | (False, StickTake l n) \<Rightarrow>
             Some ((EFI_SUCCESS, buf, len, Some 0),
               s\<lparr>sk_disk := take l (sk_disk s) @ chunks (sk_bs s) n (take len buf) @ drop (l + n) (sk_disk s),
                 sk_phase := StickStatus 0 0\<rparr>)
         | (True, StickSend d res) \<Rightarrow>
             Some ((EFI_SUCCESS, take len d @ drop (length (take len d)) buf, length (take len d), Some 0),
               s\<lparr>sk_phase := StickStatus res 0\<rparr>)
         | (True, StickStatus res code) \<Rightarrow>
             (let csw = take len (to_le 4 USB_BOT_CSW_SIGNATURE @ sk_tag s @ to_le 4 res @ [code]) in
              Some ((EFI_SUCCESS, csw @ drop (length csw) buf, length csw, Some 0), s\<lparr>sk_phase := StickReady\<rparr>))
         | _ \<Rightarrow> Some ((EFI_DEVICE_ERROR, buf, 0, Some 2), s)))"

definition stick_control ::
  "usb_request \<Rightarrow> usb_dir \<Rightarrow> nat \<Rightarrow> byte list \<Rightarrow> nat \<Rightarrow> stick \<Rightarrow> ((efi_status \<times> byte list \<times> u32 option) \<times> stick) option"
where
  "stick_control req dir timeout buf len s =
     Some ((EFI_SUCCESS, buf, Some 0), if rq_Request req = USB_BOT_RESET_REQUEST then s\<lparr>sk_phase := StickReady\<rparr> else s)"

definition stick_io :: "stick usb_io" where
  "stick_io =
     \<lparr>uio_Control = stick_control, uio_Bulk = stick_bulk,
      uio_SyncInterrupt = \<lambda>ep buf len timeout s. Some ((EFI_INVALID_PARAMETER, buf, 0, None), s),
      uio_Interface = \<lambda>s. Some (Inr stick_ifd),
      uio_Endpoint = \<lambda>i s. Some (if i = 0 then Inr stick_in else if i = 1 then Inr stick_out else Inl EFI_NOT_FOUND),
      uio_PortReset = \<lambda>s. Some (EFI_SUCCESS, s\<lparr>sk_phase := StickReady\<rparr>)\<rparr>"

definition stick_env :: "stick mass_env" where
  "stick_env =
     \<lparr>me_io = stick_io, me_pool = \<lambda>n. True, me_stack = [],
      me_CreateEvent = \<lambda>s. ((EFI_SUCCESS, 0), s),
      me_SetTimer = \<lambda>evt s. (EFI_SUCCESS, s\<lparr>sk_left := 60\<rparr>),
      me_CheckEvent = \<lambda>evt s. if sk_left s = 0 then (EFI_SUCCESS, s) else (EFI_NOT_READY, s\<lparr>sk_left := sk_left s - 1\<rparr>),
      me_CloseEvent = \<lambda>evt s. s,
      me_Reinstall = \<lambda>h s. s,
      me_OpenProtocol = \<lambda>h p md s.
        if p = MassBlockIo
        then (case map_of (sk_units s) h of None \<Rightarrow> ((EFI_NOT_FOUND, 0), s) | Some d \<Rightarrow> ((EFI_SUCCESS, d), s))
        else ((EFI_SUCCESS, 0), s),
      me_CloseProtocol = \<lambda>h p md s. s,
      me_PathAt = \<lambda>a s. [],
      me_Install = \<lambda>h q d s. ((EFI_SUCCESS, 100 + length (sk_units s)), s\<lparr>sk_units := (100 + length (sk_units s), d) # sk_units s\<rparr>),
      me_Uninstall = \<lambda>h q d s. (EFI_SUCCESS, s\<lparr>sk_units := filter (\<lambda>u. fst u \<noteq> h) (sk_units s)\<rparr>)\<rparr>"

text \<open>The stick satisfies what the driver relies on: its transfers return, and its timer runs down.\<close>

lemma stick_command_left [simp]: "sk_left (stick_command cbw s) = sk_left s"
  by (simp add: stick_command_def Let_def split: option.split)

interpretation stick_services: mass_services stick_env sk_left
proof
  fix len :: nat and buf :: "byte list" and req dir timeout s ep
  assume len: "len \<le> length buf"
  show "returns (\<lambda>((r, b, x), s1). length b = length buf \<and> r \<noteq> EFI_NO_MEDIA \<and> sk_left s1 \<le> sk_left s)
      (uio_Control (me_io stick_env) req dir timeout buf len s)"
    by (simp add: stick_env_def stick_io_def stick_control_def)
  show "returns (\<lambda>((r, b, n, x), s1). length b = length buf \<and> r \<noteq> EFI_NO_MEDIA \<and> sk_left s1 \<le> sk_left s)
      (uio_Bulk (me_io stick_env) ep buf len timeout s)"
    using len
    by (auto simp: stick_env_def stick_io_def stick_bulk_def Let_def split: stick_phase.split bool.split)
qed (auto simp: stick_env_def stick_io_def split: if_splits)

section \<open>One command\<close>

lemma stick_with_retry:
  assumes "mass_exec stick_env cmd dir buf len timeout (m\<lparr>ms_ext := (ms_ext m)\<lparr>sk_left := 59\<rparr>\<rparr>) =
      Some ((EFI_SUCCESS, buf1, USB_MASS_CMD_SUCCESS), m1)"
  shows "UsbBootExecCmdWithRetry stick_env cmd dir buf len timeout m = Some ((EFI_SUCCESS, buf1), m1)"
proof -
  have "boot_retry_loop stick_env 0 cmd dir len timeout 0 EFI_SUCCESS buf (m\<lparr>ms_ext := (ms_ext m)\<lparr>sk_left := 60\<rparr>\<rparr>) =
      Some ((EFI_SUCCESS, buf1), m1)"
    using assms
    by (subst boot_retry_loop.simps) (simp add: stick_env_def UsbBootExecCmd_def EFI_ERROR_def)
  then show ?thesis
    by (simp add: UsbBootExecCmdWithRetry_def stick_env_def)
qed

lemma cbw_length: "length cmd \<le> 16 \<Longrightarrow> length (bot_cbw tag cmd dir len lun) = 31"
  by (simp add: bot_cbw_def USB_BOT_MAX_CMDLEN_def)

lemma cbw_field:
  "length cmd \<le> 16 \<Longrightarrow> le32 (bot_cbw tag cmd dir len lun) 8 = Some len"
  using le32_append [of 8 "to_le 4 USB_BOT_CBW_SIGNATURE @ to_le 4 tag" len]
  by (simp add: bot_cbw_def)

lemma stick_range_rw10:
  assumes "opc = USB_BOOT_READ10_OPCODE \<or> opc = USB_BOOT_WRITE10_OPCODE"
  shows "stick_range (bot_cbw tag (rw10_cmd opc lun lba n) dir len lun1) = Some (opc = USB_BOOT_READ10_OPCODE, unat lba, unat n)"
proof -
  let ?pre = "to_le 4 USB_BOT_CBW_SIGNATURE @ to_le 4 tag @ to_le 4 len @ [if dir = EfiUsbDataIn then 0x80 else 0, lun1, 12]"
  let ?cbw = "bot_cbw tag (rw10_cmd opc lun lba n) dir len lun1"
  have c: "?cbw = ?pre @ [opc, USB_BOOT_LUN lun] @ to_be 4 lba @ [0] @ to_be 2 n @ [0, 0, 0] @ replicate 4 0"
    by (simp add: bot_cbw_def rw10_cmd_def USB_BOT_MAX_CMDLEN_def)
  have "rd ?cbw 15 = Some opc"
    unfolding c using rd_append [of 15 ?pre opc] by simp
  moreover have "be32 ?cbw 17 = Some lba"
    unfolding c using be32_append [of 17 "?pre @ [opc, USB_BOOT_LUN lun]" lba] by simp
  moreover have "be16 ?cbw 22 = Some n"
    unfolding c using be16_append [of 22 "?pre @ [opc, USB_BOOT_LUN lun] @ to_be 4 lba @ [0]" n] by simp
  ultimately show ?thesis
    using assms by (simp add: stick_range_def)
qed

lemma stick_range_rw16:
  assumes "opc = EFI_SCSI_OP_READ16 \<or> opc = EFI_SCSI_OP_WRITE16"
  shows "stick_range (bot_cbw tag (rw16_cmd opc lun lba n) dir len lun1) = Some (opc = EFI_SCSI_OP_READ16, unat lba, unat n)"
proof -
  let ?pre = "to_le 4 USB_BOT_CBW_SIGNATURE @ to_le 4 tag @ to_le 4 len @ [if dir = EfiUsbDataIn then 0x80 else 0, lun1, 16]"
  let ?cbw = "bot_cbw tag (rw16_cmd opc lun lba n) dir len lun1"
  have c: "?cbw = ?pre @ [opc, USB_BOOT_LUN lun AND 0xE0] @ to_be 8 lba @ to_be 4 (ucast n :: u32) @ [0, 0]"
    by (simp add: bot_cbw_def rw16_cmd_def USB_BOT_MAX_CMDLEN_def)
  have "rd ?cbw 15 = Some opc"
    unfolding c using rd_append [of 15 ?pre opc] by simp
  moreover have "be64 ?cbw 17 = Some lba"
    unfolding c using be64_append [of 17 "?pre @ [opc, USB_BOOT_LUN lun AND 0xE0]" lba] by simp
  moreover have "be32 ?cbw 25 = Some (ucast n)"
    unfolding c using be32_append [of 25 "?pre @ [opc, USB_BOOT_LUN lun AND 0xE0] @ to_be 8 lba" "ucast n"] by simp
  moreover have "unat (ucast n :: u32) = unat n"
    using word_unat_lt [of n] by (simp add: unsigned_ucast_eq take_bit_nat_eq_self)
  ultimately show ?thesis
    using assms by (auto simp: stick_range_def EFI_SCSI_OP_READ16_def EFI_SCSI_OP_WRITE16_def USB_BOOT_READ10_OPCODE_def USB_BOOT_WRITE10_OPCODE_def)
qed

text \<open>A unit on the stick, waiting for a command.\<close>

definition stick_unit :: "nat \<Rightarrow> stick mass \<Rightarrow> bool" where
  "stick_unit bs m \<longleftrightarrow>
     md_Transport (ms_dev m) = mUsbBotTransport \<and>
     (\<exists>b. ms_ctx m = BotCtx b \<and> bot_BulkIn b = Some stick_in \<and> bot_BulkOut b = Some stick_out) \<and>
     sk_phase (ms_ext m) = StickReady \<and> sk_bs (ms_ext m) = bs \<and> (\<forall>x \<in> set (sk_disk (ms_ext m)). length x = bs)"

lemma stick_addresses: "EndpointAddress stick_in = Some 0x81" "EndpointAddress stick_out = Some 2"
  by (simp_all add: EndpointAddress_def stick_in_def stick_out_def rd_def)

lemma stick_status:
  assumes "sk_phase s = StickStatus res 0" "length (sk_tag s) = 4"
  shows "bot_status_loop stick_io b 0x81 (Suc k) r s = Some ((EFI_SUCCESS, 0), s\<lparr>sk_phase := StickReady\<rparr>)"
proof -
  let ?csw = "to_le 4 USB_BOT_CSW_SIGNATURE @ sk_tag s @ to_le 4 res @ [0]"
  have "le32 ?csw 0 = Some USB_BOT_CSW_SIGNATURE"
    using le32_append [of 0 "[]" USB_BOT_CSW_SIGNATURE] by simp
  moreover have "rd ?csw 12 = Some 0"
    using rd_append [of 12 "to_le 4 USB_BOT_CSW_SIGNATURE @ sk_tag s @ to_le 4 res" 0] assms(2) by simp
  ultimately show ?thesis
    using assms by (simp add: stick_io_def stick_bulk_def bit_simps USB_BOT_COMMAND_ERROR_def)
qed

text \<open>What a command leaves on the stick: it waits for the next one.\<close>

definition stick_next :: "byte list list \<Rightarrow> u32 \<Rightarrow> stick \<Rightarrow> stick" where
  "stick_next dk tag s = s\<lparr>sk_disk := dk, sk_tag := to_le 4 tag, sk_phase := StickReady\<rparr>"

lemma cbw_tag: "take 4 (drop 4 (bot_cbw tag cmd dir len lun)) = to_le 4 tag"
  by (simp add: bot_cbw_def)

lemma stick_send:
  assumes "bot_BulkOut b = Some stick_out" "length cmd \<le> 16" "sk_phase s = StickReady"
  shows "UsbBotSendCommand stick_io b cmd dir len lun s =
    Some (EFI_SUCCESS, stick_command (bot_cbw (bot_CbwTag b) cmd dir len lun) s)"
  using assms
  by (simp add: UsbBotSendCommand_def USB_BOT_MAX_CMDLEN_def stick_addresses stick_io_def stick_bulk_def cbw_length bit_simps)

lemma stick_exec_in:
  assumes b: "bot_BulkIn b = Some stick_in" "bot_BulkOut b = Some stick_out" and cmd: "length cmd \<le> 16"
    and s: "sk_phase s = StickReady" and len: "unat len \<le> length buf" "len \<noteq> 0"
    and s1: "stick_command (bot_cbw (bot_CbwTag b) cmd EfiUsbDataIn len lun) s =
      s\<lparr>sk_tag := to_le 4 (bot_CbwTag b), sk_phase := StickSend data res\<rparr>"
    and data: "length data \<le> unat len"
  shows "UsbBotExecCommand stick_io b cmd EfiUsbDataIn buf len lun timeout s =
    Some ((EFI_SUCCESS, data @ drop (length data) buf, USB_MASS_CMD_SUCCESS), b\<lparr>bot_CbwTag := bot_CbwTag b + 1\<rparr>,
      stick_next (sk_disk s) (bot_CbwTag b) s)"
proof -
  let ?s1 = "stick_command (bot_cbw (bot_CbwTag b) cmd EfiUsbDataIn len lun) s"
  let ?s2 = "?s1\<lparr>sk_phase := StickStatus res 0\<rparr>"
  have d: "UsbBotDataTransfer stick_io b EfiUsbDataIn buf (unat len) timeout ?s1 =
      Some ((EFI_SUCCESS, data @ drop (length data) buf, length data), ?s2)"
    using b len data unat_eq_zero [of len]
    by (simp add: UsbBotDataTransfer_def stick_addresses stick_io_def stick_bulk_def s1 bit_simps)
  have "bot_status_loop stick_io b 0x81 3 EFI_DEVICE_ERROR ?s2 = Some ((EFI_SUCCESS, 0), ?s2\<lparr>sk_phase := StickReady\<rparr>)"
    using stick_status [of ?s2 res b 2] by (simp add: s1 numeral_3_eq_3)
  then have "UsbBotGetStatus stick_io b ?s2 =
      Some ((EFI_SUCCESS, 0), b\<lparr>bot_CbwTag := bot_CbwTag b + 1\<rparr>, stick_next (sk_disk s) (bot_CbwTag b) s)"
    using b by (simp add: UsbBotGetStatus_def stick_addresses USB_BOT_RECV_CSW_RETRY_def stick_next_def s1)
  then show ?thesis
    by (simp add: UsbBotExecCommand_def stick_send [OF b(2) cmd s] d)
qed

lemma stick_exec_read:
  assumes b: "bot_BulkIn b = Some stick_in" "bot_BulkOut b = Some stick_out" and cmd: "length cmd \<le> 16"
    and s: "sk_phase s = StickReady" and len: "unat len \<le> length buf" "len \<noteq> 0"
    and range: "stick_range (bot_cbw (bot_CbwTag b) cmd EfiUsbDataIn len lun) = Some (True, l, n)" "l + n \<le> length (sk_disk s)"
    and data: "data = (if sk_lazy s then [] else concat (take n (drop l (sk_disk s))))" "length data \<le> unat len"
  shows "UsbBotExecCommand stick_io b cmd EfiUsbDataIn buf len lun timeout s =
    Some ((EFI_SUCCESS, data @ drop (length data) buf, USB_MASS_CMD_SUCCESS), b\<lparr>bot_CbwTag := bot_CbwTag b + 1\<rparr>,
      stick_next (sk_disk s) (bot_CbwTag b) s)"
proof -
  obtain res where "stick_command (bot_cbw (bot_CbwTag b) cmd EfiUsbDataIn len lun) s =
      s\<lparr>sk_tag := to_le 4 (bot_CbwTag b), sk_phase := StickSend data res\<rparr>"
    using range data(1) by (cases "sk_lazy s") (auto simp: stick_command_def cbw_tag cbw_field cmd Let_def)
  from stick_exec_in [OF b cmd s len this data(2)] show ?thesis .
qed

lemma stick_exec_none:
  assumes b: "bot_BulkIn b = Some stick_in" "bot_BulkOut b = Some stick_out" and cmd: "length cmd \<le> 16"
    and s: "sk_phase s = StickReady"
    and s1: "stick_command (bot_cbw (bot_CbwTag b) cmd EfiUsbNoData 0 lun) s =
      s\<lparr>sk_tag := to_le 4 (bot_CbwTag b), sk_phase := StickStatus 0 0\<rparr>"
  shows "UsbBotExecCommand stick_io b cmd EfiUsbNoData buf 0 lun timeout s =
    Some ((EFI_SUCCESS, buf, USB_MASS_CMD_SUCCESS), b\<lparr>bot_CbwTag := bot_CbwTag b + 1\<rparr>, stick_next (sk_disk s) (bot_CbwTag b) s)"
proof -
  let ?s1 = "stick_command (bot_cbw (bot_CbwTag b) cmd EfiUsbNoData 0 lun) s"
  have "bot_status_loop stick_io b 0x81 3 EFI_DEVICE_ERROR ?s1 = Some ((EFI_SUCCESS, 0), ?s1\<lparr>sk_phase := StickReady\<rparr>)"
    using stick_status [of ?s1 0 b 2] by (simp add: s1 numeral_3_eq_3)
  then have "UsbBotGetStatus stick_io b ?s1 =
      Some ((EFI_SUCCESS, 0), b\<lparr>bot_CbwTag := bot_CbwTag b + 1\<rparr>, stick_next (sk_disk s) (bot_CbwTag b) s)"
    using b by (simp add: UsbBotGetStatus_def stick_addresses USB_BOT_RECV_CSW_RETRY_def stick_next_def s1)
  then show ?thesis
    by (simp add: UsbBotExecCommand_def stick_send [OF b(2) cmd s] UsbBotDataTransfer_def)
qed

lemma stick_exec_write:
  assumes b: "bot_BulkIn b = Some stick_in" "bot_BulkOut b = Some stick_out" and cmd: "length cmd \<le> 16"
    and s: "sk_phase s = StickReady" and len: "unat len \<le> length buf" "len \<noteq> 0"
    and range: "stick_range (bot_cbw (bot_CbwTag b) cmd EfiUsbDataOut len lun) = Some (False, l, n)" "l + n \<le> length (sk_disk s)"
  shows "UsbBotExecCommand stick_io b cmd EfiUsbDataOut buf len lun timeout s =
    Some ((EFI_SUCCESS, buf, USB_MASS_CMD_SUCCESS), b\<lparr>bot_CbwTag := bot_CbwTag b + 1\<rparr>,
      stick_next (take l (sk_disk s) @ chunks (sk_bs s) n (take (unat len) buf) @ drop (l + n) (sk_disk s)) (bot_CbwTag b) s)"
proof -
  let ?s1 = "stick_command (bot_cbw (bot_CbwTag b) cmd EfiUsbDataOut len lun) s"
  let ?dk = "take l (sk_disk s) @ chunks (sk_bs s) n (take (unat len) buf) @ drop (l + n) (sk_disk s)"
  have s1: "?s1 = s\<lparr>sk_tag := to_le 4 (bot_CbwTag b), sk_phase := StickTake l n\<rparr>"
    using range by (simp add: stick_command_def cbw_tag Let_def)
  let ?s2 = "?s1\<lparr>sk_disk := ?dk, sk_phase := StickStatus 0 0\<rparr>"
  have d: "UsbBotDataTransfer stick_io b EfiUsbDataOut buf (unat len) timeout ?s1 = Some ((EFI_SUCCESS, buf, unat len), ?s2)"
    using b len unat_eq_zero [of len]
    by (simp add: UsbBotDataTransfer_def stick_addresses stick_io_def stick_bulk_def s1 bit_simps)
  have "bot_status_loop stick_io b 0x81 3 EFI_DEVICE_ERROR ?s2 = Some ((EFI_SUCCESS, 0), ?s2\<lparr>sk_phase := StickReady\<rparr>)"
    using stick_status [of ?s2 0 b 2] by (simp add: s1 numeral_3_eq_3)
  then have "UsbBotGetStatus stick_io b ?s2 =
      Some ((EFI_SUCCESS, 0), b\<lparr>bot_CbwTag := bot_CbwTag b + 1\<rparr>, stick_next ?dk (bot_CbwTag b) s)"
    using b by (simp add: UsbBotGetStatus_def stick_addresses USB_BOT_RECV_CSW_RETRY_def stick_next_def s1)
  then show ?thesis
    by (simp add: UsbBotExecCommand_def stick_send [OF b(2) cmd s] d)
qed

section \<open>The contract of a command, and the loops over pieces\<close>

lemma length_chunks [simp]: "length (chunks k n xs) = n"
  by (induction n arbitrary: xs) simp_all

lemma chunks_append: "chunks k (n + j) xs = chunks k n xs @ chunks k j (drop (n * k) xs)"
  by (induction n arbitrary: xs) (simp_all add: add.commute)

lemma chunks_take: "n * k \<le> i \<Longrightarrow> chunks k n (take i xs) = chunks k n xs"
proof (induction n arbitrary: i xs)
  case (Suc n)
  then have "n * k \<le> i - k" "k \<le> i"
    by simp_all
  with Suc.IH show ?case
    by (simp add: drop_take min_def)
qed simp

lemma chunks_wf: "n * k \<le> length xs \<Longrightarrow> x \<in> set (chunks k n xs) \<Longrightarrow> length x = k"
proof (induction n arbitrary: xs)
  case (Suc n)
  then have "k + n * k \<le> length xs"
    by simp
  then have "n * k \<le> length (drop k xs)"
    by simp
  from Suc.IH [OF this] Suc.prems show ?case
    by auto
qed simp

lemma concat_chunks: "length xs = n * k \<Longrightarrow> concat (chunks k n xs) = xs"
  by (induction n arbitrary: xs) simp_all

lemma length_concat_blocks: "\<forall>x \<in> set dk. length x = k \<Longrightarrow> length (concat dk) = length dk * k"
  by (induction dk) simp_all

lemma length_concat_take:
  assumes "\<forall>x \<in> set dk. length x = k" "l + n \<le> length dk"
  shows "length (concat (take n (drop l dk))) = n * k"
proof -
  have "\<forall>x \<in> set (take n (drop l dk)). length x = k"
    using assms(1) by (meson in_set_dropD in_set_takeD)
  from length_concat_blocks [OF this] assms(2) show ?thesis
    by simp
qed

lemma boot_blocks_step:
  assumes "cnt \<noteq> 0" "n = min cnt USB_BOOT_IO_BLOCKS"
    and "UsbBootExecCmdWithRetry env (mk (md_Lun (ms_dev m)) lba (of_nat n)) dir (drop at buf) (of_nat n * bs)
      USB_BOOT_GENERAL_CMD_TIMEOUT m = Some ((EFI_SUCCESS, b1), m1)"
  shows "boot_blocks env mk dir bs lba cnt at r buf m =
    boot_blocks env mk dir bs (lba + of_nat n) (cnt - n) (at + unat (of_nat n * bs)) EFI_SUCCESS (take at buf @ b1) m1"
  using assms by (subst boot_blocks.simps) (simp add: Let_def)

locale disk_unit =
  fixes env :: "'s mass_env"
    and mk_read mk_write :: "byte \<Rightarrow> 'l::len word \<Rightarrow> u16 \<Rightarrow> byte list"
    and idle :: "'s mass \<Rightarrow> bool" and disk :: "'s mass \<Rightarrow> byte list list" and bs :: nat
  assumes wf: "idle m \<Longrightarrow> x \<in> set (disk m) \<Longrightarrow> length x = bs"
    and get_blocks: "idle m \<Longrightarrow> 0 < n \<Longrightarrow> n \<le> 128 \<Longrightarrow> l + n \<le> length (disk m) \<Longrightarrow> l < 2 ^ LENGTH('l) \<Longrightarrow> 0 < bs \<Longrightarrow>
      n * bs \<le> length buf \<Longrightarrow> n * bs < 2 ^ 32 \<Longrightarrow>
      \<exists>m1. UsbBootExecCmdWithRetry env (mk_read (md_Lun (ms_dev m)) (of_nat l) (of_nat n)) EfiUsbDataIn buf (of_nat (n * bs))
          USB_BOOT_GENERAL_CMD_TIMEOUT m =
          Some ((EFI_SUCCESS, concat (take n (drop l (disk m))) @ drop (n * bs) buf), m1) \<and>
        idle m1 \<and> disk m1 = disk m \<and> ms_dev m1 = ms_dev m"
    and put_blocks: "idle m \<Longrightarrow> 0 < n \<Longrightarrow> n \<le> 128 \<Longrightarrow> l + n \<le> length (disk m) \<Longrightarrow> l < 2 ^ LENGTH('l) \<Longrightarrow> 0 < bs \<Longrightarrow>
      n * bs \<le> length buf \<Longrightarrow> n * bs < 2 ^ 32 \<Longrightarrow>
      \<exists>m1. UsbBootExecCmdWithRetry env (mk_write (md_Lun (ms_dev m)) (of_nat l) (of_nat n)) EfiUsbDataOut buf (of_nat (n * bs))
          USB_BOOT_GENERAL_CMD_TIMEOUT m = Some ((EFI_SUCCESS, buf), m1) \<and>
        idle m1 \<and> disk m1 = take l (disk m) @ chunks bs n buf @ drop (l + n) (disk m) \<and> ms_dev m1 = ms_dev m"
begin

text \<open>Each turn of a loop moves \<open>min cnt 128\<close> blocks; these facts of a turn are shared by both directions.\<close>

lemma turn:
  assumes "cnt \<noteq> 0" "lba + cnt \<le> dk" "dk \<le> 2 ^ LENGTH('l)" "128 * bs < 2 ^ 32" "at + cnt * bs \<le> lb"
    and n: "n = min cnt USB_BOOT_IO_BLOCKS"
  shows "0 < n" "n \<le> 128" "n \<le> cnt" "lba + n \<le> dk" "lba < 2 ^ LENGTH('l)" "n * bs \<le> lb - at" "n * bs < 2 ^ 32"
    "n * bs + (cnt - n) * bs = cnt * bs" "of_nat n * of_nat bs = (of_nat (n * bs) :: u32)" "unat (of_nat (n * bs) :: u32) = n * bs"
proof -
  show n0: "0 < n" "n \<le> 128" "n \<le> cnt" "lba + n \<le> dk" "lba < 2 ^ LENGTH('l)"
    using assms by (simp_all add: USB_BOOT_IO_BLOCKS_def)
  show split: "n * bs + (cnt - n) * bs = cnt * bs"
    using n0(3) by (simp add: add_mult_distrib [symmetric])
  then show "n * bs \<le> lb - at"
    using assms(5) by simp
  have "n * bs \<le> 128 * bs"
    using n0(2) by (rule mult_le_mono1)
  then show l: "n * bs < 2 ^ 32"
    using assms(4) by (rule le_less_trans)
  then show "unat (of_nat (n * bs) :: u32) = n * bs"
    by (rule unat_small)
qed simp

lemma read_loop:
  assumes "idle m" "lba + cnt \<le> length (disk m)" "length (disk m) \<le> 2 ^ LENGTH('l)" "at + cnt * bs \<le> length buf"
    and bs: "0 < bs" "128 * bs < 2 ^ 32"
  shows "\<exists>m1. boot_blocks env mk_read EfiUsbDataIn (of_nat bs) (of_nat lba) cnt at r buf m =
      Some ((if cnt = 0 then r else EFI_SUCCESS, take at buf @ concat (take cnt (drop lba (disk m))) @ drop (at + cnt * bs) buf), m1) \<and>
    idle m1 \<and> disk m1 = disk m \<and> ms_dev m1 = ms_dev m"
  using assms(1-4)
proof (induction cnt arbitrary: lba at r buf m rule: less_induct)
  case (less cnt)
  show ?case
  proof (cases "cnt = 0")
    case True
    then show ?thesis
      using less.prems by (subst boot_blocks.simps) simp
  next
    case False
    define n where n: "n = min cnt USB_BOOT_IO_BLOCKS"
    note t = turn [OF False less.prems(2,3) bs(2) less.prems(4) n]
    let ?got = "concat (take n (drop lba (disk m)))"
    have got: "length ?got = n * bs"
      using wf [OF less.prems(1)] t(4) by (intro length_concat_take) auto
    obtain m1 where e: "UsbBootExecCmdWithRetry env (mk_read (md_Lun (ms_dev m)) (of_nat lba) (of_nat n)) EfiUsbDataIn (drop at buf)
        (of_nat (n * bs)) USB_BOOT_GENERAL_CMD_TIMEOUT m = Some ((EFI_SUCCESS, ?got @ drop (n * bs) (drop at buf)), m1)"
      and m1: "idle m1" "disk m1 = disk m" "ms_dev m1 = ms_dev m"
      using get_blocks [OF less.prems(1) t(1,2,4,5) bs(1), of "drop at buf"] t(6,7) by auto
    let ?buf = "take at buf @ ?got @ drop (n * bs) (drop at buf)"
    have at: "at \<le> length buf" and lb: "length ?buf = length buf"
      using less.prems(4) t(6) got by simp_all
    have "cnt - n < cnt" "lba + n + (cnt - n) \<le> length (disk m1)" "length (disk m1) \<le> 2 ^ LENGTH('l)"
      "at + n * bs + (cnt - n) * bs \<le> length ?buf"
      using False less.prems t(1,3,8) m1 lb by auto
    from less.IH [OF this(1) m1(1) this(2-4), of EFI_SUCCESS]
    obtain m2 where ih: "boot_blocks env mk_read EfiUsbDataIn (of_nat bs) (of_nat (lba + n)) (cnt - n) (at + n * bs) EFI_SUCCESS ?buf m1 =
        Some ((EFI_SUCCESS, take (at + n * bs) ?buf @ concat (take (cnt - n) (drop (lba + n) (disk m))) @
          drop (at + n * bs + (cnt - n) * bs) ?buf), m2)"
      and m2: "idle m2" "disk m2 = disk m" "ms_dev m2 = ms_dev m"
      using m1 by auto
    have c: "?got @ concat (take (cnt - n) (drop (lba + n) (disk m))) = concat (take cnt (drop lba (disk m)))"
      using take_add [of n "cnt - n" "drop lba (disk m)"] t(3) by (simp add: add.commute concat_append [symmetric] del: concat_append)
    have 1: "take (at + n * bs) ?buf = take at buf @ ?got"
      using at got by (simp add: min_def)
    have 2: "drop (at + n * bs + (cnt - n) * bs) ?buf = drop (at + cnt * bs) buf"
      using at got t(3,8) by (simp add: algebra_simps)
    have ih': "boot_blocks env mk_read EfiUsbDataIn (of_nat bs) (of_nat (lba + n)) (cnt - n) (at + n * bs) EFI_SUCCESS ?buf m1 =
        Some ((EFI_SUCCESS, take at buf @ concat (take cnt (drop lba (disk m))) @ drop (at + cnt * bs) buf), m2)"
      unfolding ih 1 2 c [symmetric] by (simp only: append_assoc)
    have e': "UsbBootExecCmdWithRetry env (mk_read (md_Lun (ms_dev m)) (of_nat lba) (of_nat n)) EfiUsbDataIn (drop at buf)
        (of_nat n * of_nat bs) USB_BOOT_GENERAL_CMD_TIMEOUT m = Some ((EFI_SUCCESS, ?got @ drop (n * bs) (drop at buf)), m1)"
      unfolding t(9) by (rule e)
    have "boot_blocks env mk_read EfiUsbDataIn (of_nat bs) (of_nat lba) cnt at r buf m =
        Some ((EFI_SUCCESS, take at buf @ concat (take cnt (drop lba (disk m))) @ drop (at + cnt * bs) buf), m2)"
      unfolding boot_blocks_step [where mk = mk_read and lba = "of_nat lba" and bs = "of_nat bs" and m = m, OF False n e'] unfolding t(9) t(10) of_nat_add [symmetric] by (rule ih')
    then show ?thesis
      using m2 False by auto
  qed
qed

lemma write_loop:
  assumes "idle m" "lba + cnt \<le> length (disk m)" "length (disk m) \<le> 2 ^ LENGTH('l)" "at + cnt * bs \<le> length buf"
    and bs: "0 < bs" "128 * bs < 2 ^ 32"
  shows "\<exists>m1. boot_blocks env mk_write EfiUsbDataOut (of_nat bs) (of_nat lba) cnt at r buf m =
      Some ((if cnt = 0 then r else EFI_SUCCESS, buf), m1) \<and>
    idle m1 \<and> disk m1 = take lba (disk m) @ chunks bs cnt (drop at buf) @ drop (lba + cnt) (disk m) \<and> ms_dev m1 = ms_dev m"
  using assms(1-4)
proof (induction cnt arbitrary: lba at r m rule: less_induct)
  case (less cnt)
  show ?case
  proof (cases "cnt = 0")
    case True
    then show ?thesis
      using less.prems by (subst boot_blocks.simps) simp
  next
    case False
    define n where n: "n = min cnt USB_BOOT_IO_BLOCKS"
    note t = turn [OF False less.prems(2,3) bs(2) less.prems(4) n]
    obtain m1 where e: "UsbBootExecCmdWithRetry env (mk_write (md_Lun (ms_dev m)) (of_nat lba) (of_nat n)) EfiUsbDataOut (drop at buf)
        (of_nat (n * bs)) USB_BOOT_GENERAL_CMD_TIMEOUT m = Some ((EFI_SUCCESS, drop at buf), m1)"
      and m1: "idle m1" "disk m1 = take lba (disk m) @ chunks bs n (drop at buf) @ drop (lba + n) (disk m)" "ms_dev m1 = ms_dev m"
      using put_blocks [OF less.prems(1) t(1,2,4,5) bs(1), of "drop at buf"] t(6,7) by auto
    have l1: "length (disk m1) = length (disk m)"
      using t(4) by (simp add: m1(2))
    have "cnt - n < cnt" "lba + n + (cnt - n) \<le> length (disk m1)" "length (disk m1) \<le> 2 ^ LENGTH('l)"
      "at + n * bs + (cnt - n) * bs \<le> length buf"
      using False less.prems t(1,3,8) l1 by auto
    from less.IH [OF this(1) m1(1) this(2-4), of EFI_SUCCESS]
    obtain m2 where ih: "boot_blocks env mk_write EfiUsbDataOut (of_nat bs) (of_nat (lba + n)) (cnt - n) (at + n * bs) EFI_SUCCESS buf m1 =
        Some ((EFI_SUCCESS, buf), m2)"
      and m2: "idle m2" "ms_dev m2 = ms_dev m"
        "disk m2 = take (lba + n) (disk m1) @ chunks bs (cnt - n) (drop (at + n * bs) buf) @ drop (lba + n + (cnt - n)) (disk m1)"
      using m1 by auto
    have c: "chunks bs cnt (drop at buf) = chunks bs n (drop at buf) @ chunks bs (cnt - n) (drop (at + n * bs) buf)"
      using chunks_append [of bs n "cnt - n" "drop at buf"] t(3) by (simp add: add.commute)
    have "lba \<le> length (disk m)"
      using t(4) by simp
    then have "take (lba + n) (disk m1) = take lba (disk m) @ chunks bs n (drop at buf)"
      by (simp add: m1(2) min_absorb2)
    moreover have "drop (lba + n + (cnt - n)) (disk m1) = drop (lba + cnt) (disk m)"
      using t(3) \<open>lba \<le> length (disk m)\<close> by (simp add: m1(2) add.commute [of cnt lba])
    ultimately have d: "disk m2 = take lba (disk m) @ chunks bs cnt (drop at buf) @ drop (lba + cnt) (disk m)"
      by (simp add: m2(3) c)
    have e': "UsbBootExecCmdWithRetry env (mk_write (md_Lun (ms_dev m)) (of_nat lba) (of_nat n)) EfiUsbDataOut (drop at buf)
        (of_nat n * of_nat bs) USB_BOOT_GENERAL_CMD_TIMEOUT m = Some ((EFI_SUCCESS, drop at buf), m1)"
      unfolding t(9) by (rule e)
    have "boot_blocks env mk_write EfiUsbDataOut (of_nat bs) (of_nat lba) cnt at r buf m = Some ((EFI_SUCCESS, buf), m2)"
      unfolding boot_blocks_step [where mk = mk_write and lba = "of_nat lba" and bs = "of_nat bs" and m = m, OF False n e'] unfolding t(9) t(10) of_nat_add [symmetric] append_take_drop_id by (rule ih)
    with m2(1,2) d False show ?thesis
      by auto
  qed
qed

end

section \<open>The stick meets the contract\<close>

lemma unat_count: "n \<le> 128 \<Longrightarrow> unat (of_nat n :: u16) = n"
  by (simp add: unat_of_nat take_bit_nat_eq_self)

lemma unat_lba: "l < 2 ^ LENGTH('l) \<Longrightarrow> unat (of_nat l :: 'l::len word) = l"
  by (simp add: unat_of_nat take_bit_nat_eq_self)

lemma stick_get:
  assumes u: "stick_unit bs m" "\<not> sk_lazy (ms_ext m)" and n: "0 < n" "l + n \<le> length (sk_disk (ms_ext m))" "0 < bs"
    and buf: "n * bs \<le> length buf" "n * bs < 2 ^ 32" and cmd: "length cmd \<le> 16"
    and range: "\<And>tag len lun. stick_range (bot_cbw tag cmd EfiUsbDataIn len lun) = Some (True, l, n)"
  shows "\<exists>m1. UsbBootExecCmdWithRetry stick_env cmd EfiUsbDataIn buf (of_nat (n * bs)) timeout m =
      Some ((EFI_SUCCESS, concat (take n (drop l (sk_disk (ms_ext m)))) @ drop (n * bs) buf), m1) \<and>
    (stick_unit bs m1 \<and> \<not> sk_lazy (ms_ext m1)) \<and> sk_disk (ms_ext m1) = sk_disk (ms_ext m) \<and> ms_dev m1 = ms_dev m"
proof -
  obtain b where b: "md_Transport (ms_dev m) = mUsbBotTransport" "ms_ctx m = BotCtx b" "bot_BulkIn b = Some stick_in" "bot_BulkOut b = Some stick_out"
    and s: "sk_phase (ms_ext m) = StickReady" "sk_bs (ms_ext m) = bs" "\<forall>x \<in> set (sk_disk (ms_ext m)). length x = bs"
    using u by (auto simp: stick_unit_def)
  let ?s = "(ms_ext m)\<lparr>sk_left := 59\<rparr>"
  let ?data = "concat (take n (drop l (sk_disk (ms_ext m))))"
  let ?m1 = "m\<lparr>ms_ctx := BotCtx (b\<lparr>bot_CbwTag := bot_CbwTag b + 1\<rparr>), ms_ext := stick_next (sk_disk (ms_ext m)) (bot_CbwTag b) ?s\<rparr>"
  have len: "length ?data = n * bs"
    using s(3) n(2) by (rule length_concat_take)
  have un: "unat (of_nat (n * bs) :: u32) = n * bs"
    using buf(2) by (rule unat_small)
  then have nz: "(of_nat (n * bs) :: u32) \<noteq> 0"
    using n by (metis mult_is_0 neq0_conv unsigned_0)
  have "UsbBotExecCommand stick_io b cmd EfiUsbDataIn buf (of_nat (n * bs)) (md_Lun (ms_dev m)) timeout ?s =
      Some ((EFI_SUCCESS, ?data @ drop (length ?data) buf, USB_MASS_CMD_SUCCESS), b\<lparr>bot_CbwTag := bot_CbwTag b + 1\<rparr>,
        stick_next (sk_disk ?s) (bot_CbwTag b) ?s)"
    by (rule stick_exec_read [OF b(3,4) cmd _ _ nz range]) (use u(2) s(1) n(2) len un buf in auto)
  then have "mass_exec stick_env cmd EfiUsbDataIn buf (of_nat (n * bs)) timeout (m\<lparr>ms_ext := ?s\<rparr>) =
      Some ((EFI_SUCCESS, ?data @ drop (n * bs) buf, USB_MASS_CMD_SUCCESS), ?m1)"
    by (simp add: mass_exec_def Transport_ExecCommand_def b len) (simp add: stick_env_def)
  from stick_with_retry [OF this] have "UsbBootExecCmdWithRetry stick_env cmd EfiUsbDataIn buf (of_nat (n * bs)) timeout m =
      Some ((EFI_SUCCESS, ?data @ drop (n * bs) buf), ?m1)" .
  moreover have "stick_unit bs ?m1 \<and> \<not> sk_lazy (ms_ext ?m1)"
    using u(2) b s by (simp add: stick_unit_def stick_next_def)
  ultimately show ?thesis
    by (intro exI [of _ ?m1]) (simp add: stick_next_def)
qed

lemma stick_put:
  assumes u: "stick_unit bs m" "\<not> sk_lazy (ms_ext m)" and n: "0 < n" "l + n \<le> length (sk_disk (ms_ext m))" "0 < bs"
    and buf: "n * bs \<le> length buf" "n * bs < 2 ^ 32" and cmd: "length cmd \<le> 16"
    and range: "\<And>tag len lun. stick_range (bot_cbw tag cmd EfiUsbDataOut len lun) = Some (False, l, n)"
  shows "\<exists>m1. UsbBootExecCmdWithRetry stick_env cmd EfiUsbDataOut buf (of_nat (n * bs)) timeout m = Some ((EFI_SUCCESS, buf), m1) \<and>
    (stick_unit bs m1 \<and> \<not> sk_lazy (ms_ext m1)) \<and>
    sk_disk (ms_ext m1) = take l (sk_disk (ms_ext m)) @ chunks bs n buf @ drop (l + n) (sk_disk (ms_ext m)) \<and> ms_dev m1 = ms_dev m"
proof -
  obtain b where b: "md_Transport (ms_dev m) = mUsbBotTransport" "ms_ctx m = BotCtx b" "bot_BulkIn b = Some stick_in" "bot_BulkOut b = Some stick_out"
    and s: "sk_phase (ms_ext m) = StickReady" "sk_bs (ms_ext m) = bs" "\<forall>x \<in> set (sk_disk (ms_ext m)). length x = bs"
    using u by (auto simp: stick_unit_def)
  let ?s = "(ms_ext m)\<lparr>sk_left := 59\<rparr>"
  let ?dk = "take l (sk_disk (ms_ext m)) @ chunks bs n buf @ drop (l + n) (sk_disk (ms_ext m))"
  let ?m1 = "m\<lparr>ms_ctx := BotCtx (b\<lparr>bot_CbwTag := bot_CbwTag b + 1\<rparr>), ms_ext := stick_next ?dk (bot_CbwTag b) ?s\<rparr>"
  have un: "unat (of_nat (n * bs) :: u32) = n * bs"
    using buf(2) by (rule unat_small)
  then have nz: "(of_nat (n * bs) :: u32) \<noteq> 0"
    using n by (metis mult_is_0 neq0_conv unsigned_0)
  have ch: "chunks bs n (take (n * bs) buf) = chunks bs n buf"
    by (rule chunks_take) simp
  have "UsbBotExecCommand stick_io b cmd EfiUsbDataOut buf (of_nat (n * bs)) (md_Lun (ms_dev m)) timeout ?s =
      Some ((EFI_SUCCESS, buf, USB_MASS_CMD_SUCCESS), b\<lparr>bot_CbwTag := bot_CbwTag b + 1\<rparr>,
        stick_next (take l (sk_disk ?s) @ chunks (sk_bs ?s) n (take (unat (of_nat (n * bs) :: u32)) buf) @ drop (l + n) (sk_disk ?s)) (bot_CbwTag b) ?s)"
    by (rule stick_exec_write [OF b(3,4) cmd _ _ nz range]) (use s(1) n(2) un buf in auto)
  then have "mass_exec stick_env cmd EfiUsbDataOut buf (of_nat (n * bs)) timeout (m\<lparr>ms_ext := ?s\<rparr>) =
      Some ((EFI_SUCCESS, buf, USB_MASS_CMD_SUCCESS), ?m1)"
    unfolding un by (simp add: mass_exec_def Transport_ExecCommand_def b s(2) ch) (simp add: stick_env_def)
  from stick_with_retry [OF this] have "UsbBootExecCmdWithRetry stick_env cmd EfiUsbDataOut buf (of_nat (n * bs)) timeout m =
      Some ((EFI_SUCCESS, buf), ?m1)" .
  moreover have "length x = bs" if "x \<in> set ?dk" for x
    using that s(3) chunks_wf [OF buf(1)] by (auto dest: in_set_takeD in_set_dropD)
  then have "stick_unit bs ?m1 \<and> \<not> sk_lazy (ms_ext ?m1)"
    using u(2) b s by (simp add: stick_unit_def stick_next_def)
  ultimately show ?thesis
    by (intro exI [of _ ?m1]) (simp add: stick_next_def)
qed

interpretation stick10: disk_unit stick_env "rw10_cmd USB_BOOT_READ10_OPCODE" "rw10_cmd USB_BOOT_WRITE10_OPCODE"
  "\<lambda>m. stick_unit bs m \<and> \<not> sk_lazy (ms_ext m)" "\<lambda>m. sk_disk (ms_ext m)" bs for bs
proof (unfold_locales, goal_cases)
  case (1 m x)
  then show ?case by (simp add: stick_unit_def)
next
  case (2 m n l buf)
  then show ?case
    by (intro stick_get) (simp_all add: stick_range_rw10 unat_lba unat_count cmd16_length)
next
  case (3 m n l buf)
  then show ?case
    by (intro stick_put) (simp_all add: stick_range_rw10 unat_lba unat_count cmd16_length USB_BOOT_READ10_OPCODE_def USB_BOOT_WRITE10_OPCODE_def)
qed

interpretation stick16: disk_unit stick_env "rw16_cmd EFI_SCSI_OP_READ16" "rw16_cmd EFI_SCSI_OP_WRITE16"
  "\<lambda>m. stick_unit bs m \<and> \<not> sk_lazy (ms_ext m)" "\<lambda>m. sk_disk (ms_ext m)" bs for bs
proof (unfold_locales, goal_cases)
  case (1 m x)
  then show ?case by (simp add: stick_unit_def)
next
  case (2 m n l buf)
  then show ?case
    by (intro stick_get) (simp_all add: stick_range_rw16 unat_lba unat_count cmd16_length)
next
  case (3 m n l buf)
  then show ?case
    by (intro stick_put) (simp_all add: stick_range_rw16 unat_lba unat_count cmd16_length EFI_SCSI_OP_READ16_def EFI_SCSI_OP_WRITE16_def)
qed

section \<open>Finding the disk\<close>

lemma cbw_opcode: "rd (bot_cbw tag (opc # cmd) dir len lun) 15 = Some opc"
proof -
  have "bot_cbw tag (opc # cmd) dir len lun =
      (to_le 4 USB_BOT_CBW_SIGNATURE @ to_le 4 tag @ to_le 4 len @
        [if dir = EfiUsbDataIn then 0x80 else 0, lun, of_nat (length (opc # cmd))]) @ opc # cmd @
        replicate (USB_BOT_MAX_CMDLEN - length (opc # cmd)) 0"
    by (simp add: bot_cbw_def)
  then show ?thesis
    using rd_append [of 15 "to_le 4 USB_BOT_CBW_SIGNATURE @ to_le 4 tag @ to_le 4 len @
        [if dir = EfiUsbDataIn then 0x80 else 0, lun, of_nat (length (opc # cmd))]" opc] by simp
qed

lemmas opcode_defs = USB_BOOT_READ10_OPCODE_def USB_BOOT_WRITE10_OPCODE_def EFI_SCSI_OP_READ16_def EFI_SCSI_OP_WRITE16_def
  USB_BOOT_TEST_UNIT_READY_OPCODE_def USB_BOOT_INQUIRY_OPCODE_def USB_SCSI_MODE_SENSE6_OPCODE_def USB_BOOT_READ_CAPACITY_OPCODE_def

lemma stick_other:
  assumes "opc \<notin> {USB_BOOT_READ10_OPCODE, USB_BOOT_WRITE10_OPCODE, EFI_SCSI_OP_READ16, EFI_SCSI_OP_WRITE16}"
    and "stick_reply (bot_cbw tag (opc # cmd) dir len lun) s = Some p"
  shows "stick_command (bot_cbw tag (opc # cmd) dir len lun) s = s\<lparr>sk_tag := to_le 4 tag, sk_phase := p\<rparr>"
  using assms by (simp add: stick_command_def stick_range_def cbw_opcode cbw_tag Let_def)

text \<open>A command that the stick answers with data of the length that is asked for, and one without data.\<close>

lemma stick_answer:
  assumes u: "stick_unit bs m" and "cmd = opc # rest" "length cmd \<le> 16"
    and o: "opc \<notin> {USB_BOOT_READ10_OPCODE, USB_BOOT_WRITE10_OPCODE, EFI_SCSI_OP_READ16, EFI_SCSI_OP_WRITE16}"
    and p: "\<And>tag len lun. stick_reply (bot_cbw tag cmd EfiUsbDataIn len lun) ((ms_ext m)\<lparr>sk_left := 59\<rparr>) = Some (StickSend data 0)"
    and l: "unat len = length buf" "length data = length buf" "buf \<noteq> []"
  shows "\<exists>m1. UsbBootExecCmdWithRetry stick_env cmd EfiUsbDataIn buf len timeout m = Some ((EFI_SUCCESS, data), m1) \<and>
    stick_unit bs m1 \<and> ms_dev m1 = ms_dev m \<and> sk_disk (ms_ext m1) = sk_disk (ms_ext m) \<and> sk_lazy (ms_ext m1) = sk_lazy (ms_ext m) \<and>
    ctx_Interface (ms_ctx m1) = ctx_Interface (ms_ctx m)"
proof -
  obtain b where b: "md_Transport (ms_dev m) = mUsbBotTransport" "ms_ctx m = BotCtx b" "bot_BulkIn b = Some stick_in" "bot_BulkOut b = Some stick_out"
    and s: "sk_phase (ms_ext m) = StickReady" "sk_bs (ms_ext m) = bs" "\<forall>x \<in> set (sk_disk (ms_ext m)). length x = bs"
    using u by (auto simp: stick_unit_def)
  let ?s = "(ms_ext m)\<lparr>sk_left := 59\<rparr>"
  let ?m1 = "m\<lparr>ms_ctx := BotCtx (b\<lparr>bot_CbwTag := bot_CbwTag b + 1\<rparr>), ms_ext := stick_next (sk_disk (ms_ext m)) (bot_CbwTag b) ?s\<rparr>"
  have nz: "len \<noteq> 0"
    using l by (metis length_0_conv unsigned_0)
  have "UsbBotExecCommand stick_io b cmd EfiUsbDataIn buf len (md_Lun (ms_dev m)) timeout ?s =
      Some ((EFI_SUCCESS, data @ drop (length data) buf, USB_MASS_CMD_SUCCESS), b\<lparr>bot_CbwTag := bot_CbwTag b + 1\<rparr>,
        stick_next (sk_disk ?s) (bot_CbwTag b) ?s)"
    by (rule stick_exec_in [OF b(3,4) assms(3) _ _ nz stick_other [OF o p [unfolded assms(2)], folded assms(2)]])
      (use s(1) l in auto)
  then have "mass_exec stick_env cmd EfiUsbDataIn buf len timeout (m\<lparr>ms_ext := ?s\<rparr>) =
      Some ((EFI_SUCCESS, data, USB_MASS_CMD_SUCCESS), ?m1)"
    by (simp add: mass_exec_def Transport_ExecCommand_def b l) (simp add: stick_env_def)
  from stick_with_retry [OF this] have "UsbBootExecCmdWithRetry stick_env cmd EfiUsbDataIn buf len timeout m =
      Some ((EFI_SUCCESS, data), ?m1)" .
  moreover have "stick_unit bs ?m1"
    using b s by (simp add: stick_unit_def stick_next_def)
  ultimately show ?thesis
    by (intro exI [of _ ?m1]) (simp add: stick_next_def b)
qed

lemma stick_answer_none:
  assumes u: "stick_unit bs m" and "cmd = opc # rest" "length cmd \<le> 16"
    and o: "opc \<notin> {USB_BOOT_READ10_OPCODE, USB_BOOT_WRITE10_OPCODE, EFI_SCSI_OP_READ16, EFI_SCSI_OP_WRITE16}"
    and p: "\<And>tag lun. stick_reply (bot_cbw tag cmd EfiUsbNoData 0 lun) ((ms_ext m)\<lparr>sk_left := 59\<rparr>) = Some (StickStatus 0 0)"
  shows "\<exists>m1. UsbBootExecCmdWithRetry stick_env cmd EfiUsbNoData buf 0 timeout m = Some ((EFI_SUCCESS, buf), m1) \<and>
    stick_unit bs m1 \<and> ms_dev m1 = ms_dev m \<and> sk_disk (ms_ext m1) = sk_disk (ms_ext m) \<and> sk_lazy (ms_ext m1) = sk_lazy (ms_ext m) \<and>
    ctx_Interface (ms_ctx m1) = ctx_Interface (ms_ctx m)"
proof -
  obtain b where b: "md_Transport (ms_dev m) = mUsbBotTransport" "ms_ctx m = BotCtx b" "bot_BulkIn b = Some stick_in" "bot_BulkOut b = Some stick_out"
    and s: "sk_phase (ms_ext m) = StickReady" "sk_bs (ms_ext m) = bs" "\<forall>x \<in> set (sk_disk (ms_ext m)). length x = bs"
    using u by (auto simp: stick_unit_def)
  let ?s = "(ms_ext m)\<lparr>sk_left := 59\<rparr>"
  let ?m1 = "m\<lparr>ms_ctx := BotCtx (b\<lparr>bot_CbwTag := bot_CbwTag b + 1\<rparr>), ms_ext := stick_next (sk_disk (ms_ext m)) (bot_CbwTag b) ?s\<rparr>"
  have "UsbBotExecCommand stick_io b cmd EfiUsbNoData buf 0 (md_Lun (ms_dev m)) timeout ?s =
      Some ((EFI_SUCCESS, buf, USB_MASS_CMD_SUCCESS), b\<lparr>bot_CbwTag := bot_CbwTag b + 1\<rparr>, stick_next (sk_disk ?s) (bot_CbwTag b) ?s)"
    by (rule stick_exec_none [OF b(3,4) assms(3) _ stick_other [OF o p [unfolded assms(2)], folded assms(2)]]) (use s(1) in auto)
  then have "mass_exec stick_env cmd EfiUsbNoData buf 0 timeout (m\<lparr>ms_ext := ?s\<rparr>) =
      Some ((EFI_SUCCESS, buf, USB_MASS_CMD_SUCCESS), ?m1)"
    by (simp add: mass_exec_def Transport_ExecCommand_def b) (simp add: stick_env_def)
  from stick_with_retry [OF this] have "UsbBootExecCmdWithRetry stick_env cmd EfiUsbNoData buf 0 timeout m =
      Some ((EFI_SUCCESS, buf), ?m1)" .
  moreover have "stick_unit bs ?m1"
    using b s by (simp add: stick_unit_def stick_next_def)
  ultimately show ?thesis
    by (intro exI [of _ ?m1]) (simp add: stick_next_def b)
qed

end
