(* ===== verification/MassFacts.thy ===== *)
theory MassFacts
  imports MassStick
begin

text \<open>
  The properties of the USB mass storage driver.
\<close>

section \<open>Requests for blocks that are there\<close>

text \<open>A unit whose medium is fixed, present, and as large as the disk of its stick.\<close>

definition fixed_disk :: "u32 \<Rightarrow> nat \<Rightarrow> stick mass \<Rightarrow> bool" where
  "fixed_disk mid bs m \<longleftrightarrow>
     stick_unit bs m \<and> 0 < bs \<and> 128 * bs < 2 ^ 32 \<and>
     \<not> bm_RemovableMedia (ms_media m) \<and> bm_MediaPresent (ms_media m) \<and> bm_MediaId (ms_media m) = mid \<and>
     bm_BlockSize (ms_media m) = of_nat bs \<and>
     0 < length (sk_disk (ms_ext m)) \<and> bm_LastBlock (ms_media m) = of_nat (length (sk_disk (ms_ext m)) - 1) \<and>
     length (sk_disk (ms_ext m)) \<le> (if md_Cdb16Byte (ms_dev m) then 2 ^ 64 else 2 ^ 32)"

lemma ucast_of_nat_64: "ucast (of_nat n :: u64) = (of_nat n :: u32)"
  by (simp add: unsigned_of_nat word_of_nat_eq_iff)

lemma lba_in_range:
  assumes "lba + n \<le> d" "0 < n" "d \<le> 2 ^ 64"
  shows "\<not> of_nat lba + of_nat n - 1 > (of_nat (d - 1) :: u64)"
proof -
  have "(of_nat lba + of_nat n - 1 :: u64) = of_nat (lba + n - 1)"
    using assms(2) by (simp add: of_nat_diff)
  moreover have "unat (of_nat (lba + n - 1) :: u64) = lba + n - 1"
    by (rule unat_lba) (use assms in simp)
  moreover have "unat (of_nat (d - 1) :: u64) = d - 1"
    by (rule unat_lba) (use assms in simp)
  ultimately show ?thesis
    using assms(1) by (simp add: word_less_nat_alt)
qed

text \<open>Such a request passes every check, and reaches the commands.\<close>

lemma fixed_disk_request:
  assumes "fixed_disk mid bs m" "lba + n \<le> length (sk_disk (ms_ext m))" "0 < n"
  shows "mass_blocks env io16 io10 mid (of_nat lba) (n * bs) (Some buf) m =
    do {
      ((r1, data1), m2) \<leftarrow> (if md_Cdb16Byte (ms_dev m) then io16 (of_nat lba) n buf m else io10 (of_nat lba) n buf m);
      m3 \<leftarrow> (if EFI_ERROR r1 then map_option snd (UsbMassReset env True m2) else Some m2);
      Some ((r1, Some data1), m3) }"
proof -
  have bs: "unat (of_nat bs :: u32) = bs" "0 < bs"
    using assms(1) by (auto simp: fixed_disk_def intro: unat_small)
  then have nz: "(of_nat bs :: u32) \<noteq> 0"
    by (metis less_numeral_extra(3) unsigned_0)
  have d: "length (sk_disk (ms_ext m)) \<le> 2 ^ 64"
    using assms(1) by (auto simp: fixed_disk_def split: if_splits)
  show ?thesis
    using assms(1,3) lba_in_range [OF assms(2,3) d] bs nz
    by (simp add: mass_blocks_def fixed_disk_def Let_def ucast_of_nat_64)
qed

lemma fixed_disk_next:
  assumes "fixed_disk mid bs m" "stick_unit bs m1" "ms_dev m1 = ms_dev m"
    and "length (sk_disk (ms_ext m1)) = length (sk_disk (ms_ext m))"
  shows "fixed_disk mid bs m1"
  using assms by (simp add: fixed_disk_def ms_media_def)

lemma read_fixed_disk:
  assumes m: "fixed_disk mid bs m" "\<not> sk_lazy (ms_ext m)"
    and n: "lba + n \<le> length (sk_disk (ms_ext m))" "0 < n" and buf: "length buf = n * bs"
  shows "\<exists>m1. UsbMassReadBlocks stick_env mid (of_nat lba) (n * bs) (Some buf) m =
      Some ((EFI_SUCCESS, Some (concat (take n (drop lba (sk_disk (ms_ext m)))))), m1) \<and>
    fixed_disk mid bs m1 \<and> \<not> sk_lazy (ms_ext m1) \<and> sk_disk (ms_ext m1) = sk_disk (ms_ext m)"
proof -
  have f: "stick_unit bs m \<and> \<not> sk_lazy (ms_ext m)" "0 < bs" "128 * bs < 2 ^ 32" "bm_BlockSize (ms_media m) = of_nat bs"
    using m by (simp_all add: fixed_disk_def)
  have "\<exists>m1. (if md_Cdb16Byte (ms_dev m) then UsbBootReadBlocks16 stick_env (of_nat lba) n buf m
      else UsbBootReadBlocks stick_env (of_nat lba) n buf m) =
      Some ((EFI_SUCCESS, concat (take n (drop lba (sk_disk (ms_ext m))))), m1) \<and>
    (stick_unit bs m1 \<and> \<not> sk_lazy (ms_ext m1)) \<and> sk_disk (ms_ext m1) = sk_disk (ms_ext m) \<and> ms_dev m1 = ms_dev m"
  proof (cases "md_Cdb16Byte (ms_dev m)")
    case True
    with m have "length (sk_disk (ms_ext m)) \<le> 2 ^ LENGTH(64)"
      by (simp add: fixed_disk_def)
    from stick16.read_loop [OF f(1) n(1) this _ f(2,3), of 0 buf EFI_SUCCESS] True n(2) buf show ?thesis
      by (simp add: UsbBootReadBlocks16_def f(4))
  next
    case False
    with m have "length (sk_disk (ms_ext m)) \<le> 2 ^ LENGTH(32)"
      by (simp add: fixed_disk_def)
    from stick10.read_loop [OF f(1) n(1) this _ f(2,3), of 0 buf EFI_SUCCESS] False n(2) buf show ?thesis
      by (simp add: UsbBootReadBlocks_def f(4))
  qed
  then obtain m1 where e: "(if md_Cdb16Byte (ms_dev m) then UsbBootReadBlocks16 stick_env (of_nat lba) n buf m
      else UsbBootReadBlocks stick_env (of_nat lba) n buf m) =
      Some ((EFI_SUCCESS, concat (take n (drop lba (sk_disk (ms_ext m))))), m1)"
    and m1: "stick_unit bs m1" "\<not> sk_lazy (ms_ext m1)" "sk_disk (ms_ext m1) = sk_disk (ms_ext m)" "ms_dev m1 = ms_dev m"
    by blast
  have "UsbMassReadBlocks stick_env mid (of_nat lba) (n * bs) (Some buf) m =
      Some ((EFI_SUCCESS, Some (concat (take n (drop lba (sk_disk (ms_ext m)))))), m1)"
    unfolding UsbMassReadBlocks_def fixed_disk_request [OF m(1) n] e by simp
  with m1 fixed_disk_next [OF m(1) m1(1,4)] show ?thesis
    by auto
qed

lemma write_fixed_disk:
  assumes m: "fixed_disk mid bs m" "\<not> sk_lazy (ms_ext m)"
    and n: "lba + n \<le> length (sk_disk (ms_ext m))" "0 < n" and buf: "length data = n * bs"
  shows "\<exists>m1. UsbMassWriteBlocks stick_env mid (of_nat lba) (n * bs) (Some data) m = Some ((EFI_SUCCESS, Some data), m1) \<and>
    fixed_disk mid bs m1 \<and> \<not> sk_lazy (ms_ext m1) \<and>
    sk_disk (ms_ext m1) = take lba (sk_disk (ms_ext m)) @ chunks bs n data @ drop (lba + n) (sk_disk (ms_ext m))"
proof -
  let ?dk = "take lba (sk_disk (ms_ext m)) @ chunks bs n data @ drop (lba + n) (sk_disk (ms_ext m))"
  have f: "stick_unit bs m \<and> \<not> sk_lazy (ms_ext m)" "0 < bs" "128 * bs < 2 ^ 32" "bm_BlockSize (ms_media m) = of_nat bs"
    using m by (simp_all add: fixed_disk_def)
  have "\<exists>m1. (if md_Cdb16Byte (ms_dev m) then UsbBootWriteBlocks16 stick_env (of_nat lba) n data m
      else UsbBootWriteBlocks stick_env (of_nat lba) n data m) = Some ((EFI_SUCCESS, data), m1) \<and>
    (stick_unit bs m1 \<and> \<not> sk_lazy (ms_ext m1)) \<and> sk_disk (ms_ext m1) = ?dk \<and> ms_dev m1 = ms_dev m"
  proof (cases "md_Cdb16Byte (ms_dev m)")
    case True
    with m have "length (sk_disk (ms_ext m)) \<le> 2 ^ LENGTH(64)"
      by (simp add: fixed_disk_def)
    from stick16.write_loop [OF f(1) n(1) this _ f(2,3), of 0 data EFI_SUCCESS] True n(2) buf show ?thesis
      by (simp add: UsbBootWriteBlocks16_def f(4))
  next
    case False
    with m have "length (sk_disk (ms_ext m)) \<le> 2 ^ LENGTH(32)"
      by (simp add: fixed_disk_def)
    from stick10.write_loop [OF f(1) n(1) this _ f(2,3), of 0 data EFI_SUCCESS] False n(2) buf show ?thesis
      by (simp add: UsbBootWriteBlocks_def f(4))
  qed
  then obtain m1 where e: "(if md_Cdb16Byte (ms_dev m) then UsbBootWriteBlocks16 stick_env (of_nat lba) n data m
      else UsbBootWriteBlocks stick_env (of_nat lba) n data m) = Some ((EFI_SUCCESS, data), m1)"
    and m1: "stick_unit bs m1" "\<not> sk_lazy (ms_ext m1)" "sk_disk (ms_ext m1) = ?dk" "ms_dev m1 = ms_dev m"
    by blast
  have "UsbMassWriteBlocks stick_env mid (of_nat lba) (n * bs) (Some data) m = Some ((EFI_SUCCESS, Some data), m1)"
    unfolding UsbMassWriteBlocks_def fixed_disk_request [OF m(1) n] e by simp
  moreover have "length ?dk = length (sk_disk (ms_ext m))"
    using n by simp
  ultimately show ?thesis
    using m1 fixed_disk_next [OF m(1) m1(1,4)] by auto
qed

text \<open>C29. Writing blocks through the driver (bulk-only transport, commands of 10 or 16 bytes, pieces of 128 blocks)
  succeeds when they are on the disk, puts the data into exactly these blocks, and reading them back gives the data,
  whatever is in the buffer. The state afterwards is again one for which this holds.\<close>

theorem usb_mass_write_read:
  assumes "fixed_disk mid bs m" "\<not> sk_lazy (ms_ext m)" "lba + n \<le> length (sk_disk (ms_ext m))" "0 < n"
    and "length data = n * bs" "length buf = n * bs"
  shows "\<exists>m1 m2. UsbMassWriteBlocks stick_env mid (of_nat lba) (n * bs) (Some data) m = Some ((EFI_SUCCESS, Some data), m1) \<and>
    sk_disk (ms_ext m1) = take lba (sk_disk (ms_ext m)) @ chunks bs n data @ drop (lba + n) (sk_disk (ms_ext m)) \<and>
    UsbMassReadBlocks stick_env mid (of_nat lba) (n * bs) (Some buf) m1 = Some ((EFI_SUCCESS, Some data), m2) \<and>
    sk_disk (ms_ext m2) = sk_disk (ms_ext m1) \<and> fixed_disk mid bs m2"
proof -
  obtain m1 where w: "UsbMassWriteBlocks stick_env mid (of_nat lba) (n * bs) (Some data) m = Some ((EFI_SUCCESS, Some data), m1)"
    and m1: "fixed_disk mid bs m1" "\<not> sk_lazy (ms_ext m1)"
      "sk_disk (ms_ext m1) = take lba (sk_disk (ms_ext m)) @ chunks bs n data @ drop (lba + n) (sk_disk (ms_ext m))"
    using write_fixed_disk [OF assms(1-5)] by blast
  have "lba + n \<le> length (sk_disk (ms_ext m1))"
    using assms(3) by (simp add: m1(3))
  from read_fixed_disk [OF m1(1,2) this assms(4,6)]
  obtain m2 where r: "UsbMassReadBlocks stick_env mid (of_nat lba) (n * bs) (Some buf) m1 =
      Some ((EFI_SUCCESS, Some (concat (take n (drop lba (sk_disk (ms_ext m1)))))), m2)"
    and m2: "fixed_disk mid bs m2" "sk_disk (ms_ext m2) = sk_disk (ms_ext m1)"
    by blast
  have "take n (drop lba (sk_disk (ms_ext m1))) = chunks bs n data"
    using assms(3) by (simp add: m1(3))
  then have "concat (take n (drop lba (sk_disk (ms_ext m1)))) = data"
    using concat_chunks [OF assms(5)] by simp
  with w r m1(3) m2 show ?thesis
    by auto
qed

definition demo_bot :: usb_bot where
  "demo_bot = \<lparr>bot_Interface = stick_ifd, bot_BulkIn = Some stick_in, bot_BulkOut = Some stick_out, bot_CbwTag = 1\<rparr>"

definition demo_stick :: "bool \<Rightarrow> stick" where
  "demo_stick lz = \<lparr>sk_bs = 2, sk_disk = [[1, 2], [3, 4], [5, 6], [7, 8]], sk_phase = StickReady, sk_tag = [0, 0, 0, 0],
     sk_left = 0, sk_lazy = lz, sk_units = []\<rparr>"

definition demo_unit :: "bool \<Rightarrow> stick mass" where
  "demo_unit lz =
     \<lparr>ms_dev = (new_mdev (Some 1) mUsbBotTransport 0 0)
        \<lparr>md_Media := zero_media\<lparr>bm_MediaId := 1, bm_MediaPresent := True, bm_BlockSize := 2, bm_LastBlock := 3\<rparr>\<rparr>,
      ms_ctx = BotCtx demo_bot, ms_ext = demo_stick lz\<rparr>"

lemma demo_unit_fixed: "fixed_disk 1 2 (demo_unit lz)"
  by (simp add: fixed_disk_def stick_unit_def demo_unit_def demo_stick_def demo_bot_def ms_media_def new_mdev_def zero_media_def)

theorem usb_mass_write_read_witness:
  "\<exists>m1 m2. UsbMassWriteBlocks stick_env 1 1 4 (Some [9, 10, 11, 12]) (demo_unit False) = Some ((EFI_SUCCESS, Some [9, 10, 11, 12]), m1) \<and>
    sk_disk (ms_ext m1) = [[1, 2], [9, 10], [11, 12], [7, 8]] \<and>
    UsbMassReadBlocks stick_env 1 1 4 (Some [0, 0, 0, 0]) m1 = Some ((EFI_SUCCESS, Some [9, 10, 11, 12]), m2)"
proof -
  have "\<not> sk_lazy (ms_ext (demo_unit False))" "1 + 2 \<le> length (sk_disk (ms_ext (demo_unit False)))"
    "take 1 (sk_disk (ms_ext (demo_unit False))) @ chunks 2 2 [9, 10, 11, 12] @ drop (1 + 2) (sk_disk (ms_ext (demo_unit False))) =
      [[1, 2], [9, 10], [11, 12], [7, 8]]"
    by (simp_all add: demo_unit_def demo_stick_def numeral_2_eq_2)
  with usb_mass_write_read [OF demo_unit_fixed this(1,2), of "[9, 10, 11, 12]" "[0, 0, 0, 0]"] show ?thesis
    by auto
qed

section \<open>Data that did not arrive\<close>

lemma lazy_get:
  assumes u: "stick_unit bs m" "sk_lazy (ms_ext m)" and n: "0 < n" "l + n \<le> length (sk_disk (ms_ext m))" "0 < bs"
    and buf: "n * bs \<le> length buf" "n * bs < 2 ^ 32" and cmd: "length cmd \<le> 16"
    and range: "\<And>tag len lun. stick_range (bot_cbw tag cmd EfiUsbDataIn len lun) = Some (True, l, n)"
  shows "\<exists>m1. UsbBootExecCmdWithRetry stick_env cmd EfiUsbDataIn buf (of_nat (n * bs)) timeout m = Some ((EFI_SUCCESS, buf), m1) \<and>
    stick_unit bs m1 \<and> sk_lazy (ms_ext m1) \<and> sk_disk (ms_ext m1) = sk_disk (ms_ext m) \<and> ms_dev m1 = ms_dev m"
proof -
  obtain b where b: "md_Transport (ms_dev m) = mUsbBotTransport" "ms_ctx m = BotCtx b" "bot_BulkIn b = Some stick_in" "bot_BulkOut b = Some stick_out"
    and s: "sk_phase (ms_ext m) = StickReady" "sk_bs (ms_ext m) = bs" "\<forall>x \<in> set (sk_disk (ms_ext m)). length x = bs"
    using u by (auto simp: stick_unit_def)
  let ?s = "(ms_ext m)\<lparr>sk_left := 59\<rparr>"
  let ?m1 = "m\<lparr>ms_ctx := BotCtx (b\<lparr>bot_CbwTag := bot_CbwTag b + 1\<rparr>), ms_ext := stick_next (sk_disk (ms_ext m)) (bot_CbwTag b) ?s\<rparr>"
  have un: "unat (of_nat (n * bs) :: u32) = n * bs"
    using buf(2) by (rule unat_small)
  then have nz: "(of_nat (n * bs) :: u32) \<noteq> 0"
    using n by (metis mult_is_0 neq0_conv unsigned_0)
  have "UsbBotExecCommand stick_io b cmd EfiUsbDataIn buf (of_nat (n * bs)) (md_Lun (ms_dev m)) timeout ?s =
      Some ((EFI_SUCCESS, [] @ drop (length ([] :: byte list)) buf, USB_MASS_CMD_SUCCESS), b\<lparr>bot_CbwTag := bot_CbwTag b + 1\<rparr>,
        stick_next (sk_disk ?s) (bot_CbwTag b) ?s)"
    by (rule stick_exec_read [OF b(3,4) cmd _ _ nz range]) (use u(2) s(1) n(2) un buf in auto)
  then have "mass_exec stick_env cmd EfiUsbDataIn buf (of_nat (n * bs)) timeout (m\<lparr>ms_ext := ?s\<rparr>) =
      Some ((EFI_SUCCESS, buf, USB_MASS_CMD_SUCCESS), ?m1)"
    by (simp add: mass_exec_def Transport_ExecCommand_def b) (simp add: stick_env_def)
  from stick_with_retry [OF this] have "UsbBootExecCmdWithRetry stick_env cmd EfiUsbDataIn buf (of_nat (n * bs)) timeout m =
      Some ((EFI_SUCCESS, buf), ?m1)" .
  moreover have "stick_unit bs ?m1 \<and> sk_lazy (ms_ext ?m1)"
    using u(2) b s by (simp add: stick_unit_def stick_next_def)
  ultimately show ?thesis
    by (intro exI [of _ ?m1]) (simp add: stick_next_def)
qed

lemma lazy_loop:
  assumes "stick_unit bs m" "sk_lazy (ms_ext m)" "lba + cnt \<le> length (sk_disk (ms_ext m))" "length (sk_disk (ms_ext m)) \<le> 2 ^ LENGTH('l::len)"
    "at + cnt * bs \<le> length buf" and bs: "0 < bs" "128 * bs < 2 ^ 32" and len: "\<And>lun (l :: 'l word) n. length (mk lun l n) \<le> 16"
    and range: "\<And>tag lun l n len lun1. l < 2 ^ LENGTH('l) \<Longrightarrow> n \<le> 128 \<Longrightarrow>
      stick_range (bot_cbw tag (mk lun (of_nat l) (of_nat n)) EfiUsbDataIn len lun1) = Some (True, l, n)"
  shows "\<exists>m1. boot_blocks stick_env mk EfiUsbDataIn (of_nat bs) (of_nat lba) cnt at r buf m =
      Some ((if cnt = 0 then r else EFI_SUCCESS, buf), m1)"
  using assms(1-5)
proof (induction cnt arbitrary: lba at r m rule: less_induct)
  case (less cnt)
  show ?case
  proof (cases "cnt = 0")
    case True
    then show ?thesis
      by (subst boot_blocks.simps) simp
  next
    case False
    define n where n: "n = min cnt USB_BOOT_IO_BLOCKS"
    have t: "0 < n" "n \<le> 128" "n \<le> cnt" "lba + n \<le> length (sk_disk (ms_ext m))" "lba < 2 ^ LENGTH('l)"
      using less.prems False by (auto simp: n USB_BOOT_IO_BLOCKS_def)
    have sp: "n * bs + (cnt - n) * bs = cnt * bs"
      using t(3) by (simp add: add_mult_distrib [symmetric])
    have "n * bs \<le> 128 * bs"
      using t(2) by (rule mult_le_mono1)
    then have b32: "n * bs < 2 ^ 32"
      using bs(2) by (rule le_less_trans)
    have at: "n * bs \<le> length (drop at buf)"
      using less.prems(5) sp by simp
    obtain m1 where e: "UsbBootExecCmdWithRetry stick_env (mk (md_Lun (ms_dev m)) (of_nat lba) (of_nat n)) EfiUsbDataIn (drop at buf)
        (of_nat (n * bs)) USB_BOOT_GENERAL_CMD_TIMEOUT m = Some ((EFI_SUCCESS, drop at buf), m1)"
      and m1: "stick_unit bs m1" "sk_lazy (ms_ext m1)" "sk_disk (ms_ext m1) = sk_disk (ms_ext m)"
      using lazy_get [OF less.prems(1,2) t(1,4) bs(1) at b32 len range] t(2,5) by blast
    have of: "(of_nat n * of_nat bs :: u32) = of_nat (n * bs)" and un: "unat (of_nat (n * bs) :: u32) = n * bs"
      using unat_small [OF b32] by simp_all
    have "\<exists>m2. boot_blocks stick_env mk EfiUsbDataIn (of_nat bs) (of_nat (lba + n)) (cnt - n) (at + n * bs) EFI_SUCCESS buf m1 =
        Some ((EFI_SUCCESS, buf), m2)"
      using less.IH [of "cnt - n" m1 "lba + n" "at + n * bs" EFI_SUCCESS] m1 t less.prems sp by simp
    then obtain m2 where ih: "boot_blocks stick_env mk EfiUsbDataIn (of_nat bs) (of_nat (lba + n)) (cnt - n) (at + n * bs) EFI_SUCCESS buf m1 =
        Some ((EFI_SUCCESS, buf), m2)" ..
    have e': "UsbBootExecCmdWithRetry stick_env (mk (md_Lun (ms_dev m)) (of_nat lba) (of_nat n)) EfiUsbDataIn (drop at buf)
        (of_nat n * of_nat bs) USB_BOOT_GENERAL_CMD_TIMEOUT m = Some ((EFI_SUCCESS, drop at buf), m1)"
      unfolding of by (rule e)
    have "boot_blocks stick_env mk EfiUsbDataIn (of_nat bs) (of_nat lba) cnt at r buf m = Some ((EFI_SUCCESS, buf), m2)"
      unfolding boot_blocks_step [where mk = mk and lba = "of_nat lba" and bs = "of_nat bs" and m = m, OF False n e']
      unfolding of un of_nat_add [symmetric] append_take_drop_id by (rule ih)
    with False show ?thesis
      by simp
  qed
qed

text \<open>The residue of a command is not looked at: when a device ends the data phase of each command early, and reports
  all the bytes as residue, reading blocks that are on the disk succeeds, and the buffer holds what it held before.\<close>

theorem usb_mass_residue_ignored:
  assumes "fixed_disk mid bs m" "sk_lazy (ms_ext m)" "lba + n \<le> length (sk_disk (ms_ext m))" "0 < n" "length buf = n * bs"
  shows "\<exists>m1. UsbMassReadBlocks stick_env mid (of_nat lba) (n * bs) (Some buf) m = Some ((EFI_SUCCESS, Some buf), m1)"
proof -
  have f: "stick_unit bs m" "0 < bs" "128 * bs < 2 ^ 32" "bm_BlockSize (ms_media m) = of_nat bs"
    using assms(1) by (simp_all add: fixed_disk_def)
  have "\<exists>m1. (if md_Cdb16Byte (ms_dev m) then UsbBootReadBlocks16 stick_env (of_nat lba) n buf m
      else UsbBootReadBlocks stick_env (of_nat lba) n buf m) = Some ((EFI_SUCCESS, buf), m1)"
  proof (cases "md_Cdb16Byte (ms_dev m)")
    case True
    with assms(1) have "length (sk_disk (ms_ext m)) \<le> 2 ^ LENGTH(64)"
      by (simp add: fixed_disk_def)
    from lazy_loop [OF f(1) assms(2,3) this _ f(2,3), of 0 buf "rw16_cmd EFI_SCSI_OP_READ16" EFI_SUCCESS] True assms(5) show ?thesis
      by (simp add: UsbBootReadBlocks16_def f(4) cmd16_length stick_range_rw16 unat_lba unat_count)
  next
    case False
    with assms(1) have "length (sk_disk (ms_ext m)) \<le> 2 ^ LENGTH(32)"
      by (simp add: fixed_disk_def)
    from lazy_loop [OF f(1) assms(2,3) this _ f(2,3), of 0 buf "rw10_cmd USB_BOOT_READ10_OPCODE" EFI_SUCCESS] False assms(5) show ?thesis
      by (simp add: UsbBootReadBlocks_def f(4) cmd16_length stick_range_rw10 unat_lba unat_count)
  qed
  then obtain m1 where e: "(if md_Cdb16Byte (ms_dev m) then UsbBootReadBlocks16 stick_env (of_nat lba) n buf m
      else UsbBootReadBlocks stick_env (of_nat lba) n buf m) = Some ((EFI_SUCCESS, buf), m1)"
    by blast
  show ?thesis
    unfolding UsbMassReadBlocks_def fixed_disk_request [OF assms(1,3,4)] e by simp
qed

theorem usb_mass_residue_ignored_witness:
  "\<exists>m1. UsbMassReadBlocks stick_env 1 1 4 (Some [0, 0, 0, 0]) (demo_unit True) = Some ((EFI_SUCCESS, Some [0, 0, 0, 0]), m1)"
proof -
  have "sk_lazy (ms_ext (demo_unit True))" "1 + 2 \<le> length (sk_disk (ms_ext (demo_unit True)))"
    by (simp_all add: demo_unit_def demo_stick_def)
  with usb_mass_residue_ignored [OF demo_unit_fixed this, of "[0, 0, 0, 0]"] show ?thesis
    by simp
qed


section \<open>A stick is found\<close>

text \<open>What the commands of the search leave as it is.\<close>

definition stick_same :: "nat \<Rightarrow> stick mass \<Rightarrow> stick mass \<Rightarrow> bool" where
  "stick_same bs m m1 \<longleftrightarrow>
     stick_unit bs m1 \<and> sk_disk (ms_ext m1) = sk_disk (ms_ext m) \<and> sk_lazy (ms_ext m1) = sk_lazy (ms_ext m) \<and>
     ctx_Interface (ms_ctx m1) = ctx_Interface (ms_ctx m)"

lemma stick_same_upd [simp]:
  "stick_same bs m (upd_media f m1) = stick_same bs m m1"
  "(\<And>d. md_Transport (g d) = md_Transport d) \<Longrightarrow> stick_same bs m (upd_dev_of g m1) = stick_same bs m m1"
  by (simp_all add: stick_same_def stick_unit_def upd_media_def upd_dev_of_def)

lemma stick_same_trans [trans]: "stick_same bs m m1 \<Longrightarrow> stick_same bs m1 m2 \<Longrightarrow> stick_same bs m m2"
  by (simp add: stick_same_def)

lemma stick_same_unit: "stick_same bs m m1 \<Longrightarrow> stick_unit bs m1"
  by (simp add: stick_same_def)

lemma stick_answers:
  assumes "stick_unit bs m" "length rest \<le> 15"
    and "opc \<notin> {USB_BOOT_READ10_OPCODE, USB_BOOT_WRITE10_OPCODE, EFI_SCSI_OP_READ16, EFI_SCSI_OP_WRITE16}"
    and "\<And>tag len lun. stick_reply (bot_cbw tag (opc # rest) EfiUsbDataIn len lun) ((ms_ext m)\<lparr>sk_left := 59\<rparr>) =
      Some (StickSend data 0)"
    and "unat len = length buf" "length data = length buf" "buf \<noteq> []"
  obtains m1 where "UsbBootExecCmdWithRetry stick_env (opc # rest) EfiUsbDataIn buf len timeout m = Some ((EFI_SUCCESS, data), m1)"
    "stick_same bs m m1" "ms_dev m1 = ms_dev m"
  using stick_answer [OF assms(1) refl _ assms(3-7), of timeout] assms(2) that by (auto simp: stick_same_def)

lemma stick_inquiry:
  assumes "stick_unit bs m"
  shows "\<exists>m1. UsbBootInquiry stick_env m =
      Some (EFI_SUCCESS,
        upd_media (\<lambda>b. b\<lparr>bm_RemovableMedia := False, bm_BlockSize := 0x200\<rparr>)
          (upd_dev_of (\<lambda>d. d\<lparr>md_InquiryData := replicate 36 0, md_Pdt := 0\<rparr>) m1)) \<and>
    stick_same bs m m1 \<and> ms_dev m1 = ms_dev m"
proof -
  obtain m1 where e: "UsbBootExecCmdWithRetry stick_env (inquiry_cmd (md_Lun (ms_dev m))) EfiUsbDataIn (replicate 36 0) 36
      USB_BOOT_GENERAL_CMD_TIMEOUT m = Some ((EFI_SUCCESS, replicate 36 0), m1)"
    and m1: "stick_same bs m m1" "ms_dev m1 = ms_dev m"
    by (rule stick_answers [OF assms, where opc = USB_BOOT_INQUIRY_OPCODE and rest = "tl (inquiry_cmd (md_Lun (ms_dev m)))"
          and buf = "replicate 36 0" and len = 36 and data = "replicate 36 0" and timeout = USB_BOOT_GENERAL_CMD_TIMEOUT])
      (auto simp: inquiry_cmd_def opcode_defs stick_reply_def cbw_opcode)
  then show ?thesis
    by (intro exI [of _ m1]) (simp add: UsbBootInquiry_def EFI_ERROR_def rd_def upd_dev_of_def Let_def)
qed

lemma stick_ready:
  assumes "stick_unit bs m"
  shows "\<exists>m1. UsbBootIsUnitReady stick_env m = Some (EFI_SUCCESS, m1) \<and> stick_same bs m m1 \<and> ms_dev m1 = ms_dev m"
proof -
  obtain m1 where e: "UsbBootExecCmdWithRetry stick_env (test_cmd (md_Lun (ms_dev m))) EfiUsbNoData [] 0
      USB_BOOT_GENERAL_CMD_TIMEOUT m = Some ((EFI_SUCCESS, []), m1)"
    and m1: "stick_same bs m m1" "ms_dev m1 = ms_dev m"
    using stick_answer_none [OF assms, of "test_cmd (md_Lun (ms_dev m))" USB_BOOT_TEST_UNIT_READY_OPCODE
        "tl (test_cmd (md_Lun (ms_dev m)))" "[]" USB_BOOT_GENERAL_CMD_TIMEOUT]
    by (auto simp: test_cmd_def opcode_defs stick_reply_def cbw_opcode stick_same_def)
  then show ?thesis
    by (simp add: UsbBootIsUnitReady_def)
qed

lemma stick_sense:
  assumes "stick_unit bs m"
  shows "\<exists>m1. UsbScsiModeSense stick_env m = Some (EFI_SUCCESS, upd_media (\<lambda>b. b\<lparr>bm_ReadOnly := False\<rparr>) m1) \<and>
    stick_same bs m m1 \<and> ms_dev m1 = ms_dev m"
proof -
  obtain m1 where e: "UsbBootExecCmdWithRetry stick_env (mode_sense_cmd (md_Lun (ms_dev m))) EfiUsbDataIn (replicate 4 0) 4
      USB_BOOT_GENERAL_CMD_TIMEOUT m = Some ((EFI_SUCCESS, [3, 0, 0, 0]), m1)"
    and m1: "stick_same bs m m1" "ms_dev m1 = ms_dev m"
    by (rule stick_answers [OF assms, where opc = USB_SCSI_MODE_SENSE6_OPCODE and rest = "tl (mode_sense_cmd (md_Lun (ms_dev m)))"
          and buf = "replicate 4 0" and len = 4 and data = "[3, 0, 0, 0]" and timeout = USB_BOOT_GENERAL_CMD_TIMEOUT])
      (auto simp: mode_sense_cmd_def opcode_defs stick_reply_def cbw_opcode)
  then show ?thesis
    by (intro exI [of _ m1]) (simp add: UsbScsiModeSense_def EFI_ERROR_def rd_def)
qed

lemma stick_capacity:
  assumes "stick_unit bs m" and bs: "0 < bs" "bs < 2 ^ 32" and d: "0 < length (sk_disk (ms_ext m))" "length (sk_disk (ms_ext m)) < 2 ^ 32"
  shows "\<exists>m1. UsbBootReadCapacity stick_env m =
      Some (EFI_SUCCESS,
        upd_media (\<lambda>b. b\<lparr>bm_MediaPresent := True, bm_LastBlock := of_nat (length (sk_disk (ms_ext m)) - 1),
                         bm_BlockSize := of_nat bs\<rparr>) m1) \<and>
    stick_same bs m m1 \<and> ms_dev m1 = ms_dev m"
proof -
  define l :: u32 where l: "l = of_nat (length (sk_disk (ms_ext m)) - 1)"
  let ?data = "to_be 4 l @ to_be 4 (of_nat bs :: u32)"
  obtain m1 where e: "UsbBootExecCmdWithRetry stick_env (capacity_cmd (md_Lun (ms_dev m))) EfiUsbDataIn (replicate 8 0) 8
      USB_BOOT_GENERAL_CMD_TIMEOUT m = Some ((EFI_SUCCESS, ?data), m1)"
    and m1: "stick_same bs m m1" "ms_dev m1 = ms_dev m"
    by (rule stick_answers [OF assms(1), where opc = USB_BOOT_READ_CAPACITY_OPCODE and rest = "tl (capacity_cmd (md_Lun (ms_dev m)))"
          and buf = "replicate 8 0" and len = 8 and data = "?data" and timeout = USB_BOOT_GENERAL_CMD_TIMEOUT])
      (use assms(1) in \<open>auto simp: capacity_cmd_def opcode_defs stick_reply_def cbw_opcode stick_unit_def l
        simp flip: length_greater_0_conv\<close>)
  have f: "be32 ?data 0 = Some l" "be32 ?data 4 = Some (of_nat bs)"
    using be32_append [of 0 "[]" l] be32_append [of 4 "to_be 4 l" "of_nat bs" "[]"] by simp_all
  have nz: "(of_nat bs :: u32) \<noteq> 0"
    using bs unat_small [OF bs(2)] by (metis less_numeral_extra(3) unsigned_0)
  have un: "unat l = length (sk_disk (ms_ext m)) - 1"
    unfolding l using d by (intro unat_small) simp
  have w: "(ucast l :: u64) = of_nat (length (sk_disk (ms_ext m)) - 1)"
    by (metis un of_nat_unat)
  have "unat (ucast l :: u64) = length (sk_disk (ms_ext m)) - 1"
    using d by (subst w, intro unat_lba) simp
  then have "unat (ucast l :: u64) \<noteq> 2 ^ 32 - 1"
    using d by linarith
  then have nm: "(ucast l :: u64) \<noteq> 0xFFFFFFFF"
    by auto
  show ?thesis
    using m1 nz nm
    by (intro exI [of _ m1])
      (simp add: UsbBootReadCapacity_def e EFI_ERROR_def f Let_def upd_media_def ms_media_def w)
qed

lemma stick_found:
  assumes "stick_unit bs m" "InterfaceSubClass (ctx_Interface (ms_ctx m)) = Some USB_MASS_STORE_SCSI"
    and "0 < bs" "128 * bs < 2 ^ 32" "0 < length (sk_disk (ms_ext m))" "length (sk_disk (ms_ext m)) < 2 ^ 32"
  shows "\<exists>m1. UsbMassInitMedia stick_env m = Some (EFI_SUCCESS, m1) \<and> fixed_disk 1 bs m1 \<and>
    sk_disk (ms_ext m1) = sk_disk (ms_ext m) \<and> sk_lazy (ms_ext m1) = sk_lazy (ms_ext m)"
proof -
  define m0 where m0: "m0 = upd_media (\<lambda>b. b\<lparr>bm_MediaPresent := False, bm_LogicalPartition := False, bm_ReadOnly := False,
      bm_WriteCaching := False, bm_IoAlign := 0, bm_MediaId := 1\<rparr>) m"
  have s0: "stick_same bs m m0"
    using assms(1) by (simp add: m0) (simp add: stick_same_def)
  obtain m1 where e1: "UsbBootInquiry stick_env m0 = Some (EFI_SUCCESS,
        upd_media (\<lambda>b. b\<lparr>bm_RemovableMedia := False, bm_BlockSize := 0x200\<rparr>)
          (upd_dev_of (\<lambda>d. d\<lparr>md_InquiryData := replicate 36 0, md_Pdt := 0\<rparr>) m1))"
    and s1: "stick_same bs m0 m1" "ms_dev m1 = ms_dev m0"
    using stick_inquiry [OF stick_same_unit [OF s0]] by blast
  define m1' where m1': "m1' = upd_media (\<lambda>b. b\<lparr>bm_RemovableMedia := False, bm_BlockSize := 0x200\<rparr>)
          (upd_dev_of (\<lambda>d. d\<lparr>md_InquiryData := replicate 36 0, md_Pdt := 0\<rparr>) m1)"
  have s1': "stick_same bs m m1'"
    using stick_same_trans [OF s0 s1(1)] by (simp add: m1')
  obtain m2 where e2: "UsbBootIsUnitReady stick_env m1' = Some (EFI_SUCCESS, m2)" and s2: "stick_same bs m1' m2" "ms_dev m2 = ms_dev m1'"
    using stick_ready [OF stick_same_unit [OF s1']] by blast
  obtain m3 where e3: "UsbScsiModeSense stick_env m2 = Some (EFI_SUCCESS, upd_media (\<lambda>b. b\<lparr>bm_ReadOnly := False\<rparr>) m3)"
    and s3: "stick_same bs m2 m3" "ms_dev m3 = ms_dev m2"
    using stick_sense [OF stick_same_unit [OF s2(1)]] by blast
  define m3' where m3': "m3' = upd_media (\<lambda>b. b\<lparr>bm_ReadOnly := False\<rparr>) m3"
  have s3': "stick_same bs m m3'"
    using stick_same_trans [OF stick_same_trans [OF s1' s2(1)] s3(1)] by (simp add: m3')
  have dk: "sk_disk (ms_ext m3') = sk_disk (ms_ext m)"
    using s3' by (simp add: stick_same_def)
  have bs: "bs < 2 ^ 32"
    using assms(4) by simp
  obtain m4 where e4: "UsbBootReadCapacity stick_env m3' =
      Some (EFI_SUCCESS,
        upd_media (\<lambda>b. b\<lparr>bm_MediaPresent := True, bm_LastBlock := of_nat (length (sk_disk (ms_ext m)) - 1),
                         bm_BlockSize := of_nat bs\<rparr>) m4)"
    and s4: "stick_same bs m3' m4" "ms_dev m4 = ms_dev m3'"
    using stick_capacity [OF stick_same_unit [OF s3'] assms(3) bs] assms(5,6) unfolding dk by blast
  define m5 where m5: "m5 = upd_media (\<lambda>b. b\<lparr>bm_MediaPresent := True, bm_LastBlock := of_nat (length (sk_disk (ms_ext m)) - 1),
                         bm_BlockSize := of_nat bs\<rparr>) m4"
  have pdt: "md_Pdt (ms_dev m1') = 0" "md_Pdt (ms_dev m2) = 0"
    using s2(2) by (simp_all add: m1' upd_media_def upd_dev_of_def)
  have sub: "InterfaceSubClass (ctx_Interface (ms_ctx m1')) = Some USB_MASS_STORE_SCSI"
    using s1' assms(2) by (simp add: stick_same_def)
  have "UsbBootDetectMedia stick_env m1' = Some (EFI_SUCCESS, m5)"
    by (simp add: UsbBootDetectMedia_def sub e2 pdt USB_PDT_CDROM_def e3 m3' [symmetric] e4 [folded m5] EFI_ERROR_def)
  then have "UsbMassInitMedia stick_env m = Some (EFI_SUCCESS, m5)"
    by (simp add: UsbMassInitMedia_def m0 [symmetric] UsbBootGetParams_def e1 m1' [symmetric] pdt EFI_ERROR_def
      USB_PDT_DIRECT_ACCESS_def USB_PDT_CDROM_def USB_PDT_OPTICAL_def Let_def)
  moreover have "stick_same bs m m5"
    using stick_same_trans [OF s3' s4(1)] by (simp add: m5)
  moreover have "\<not> bm_RemovableMedia (ms_media m5)" "bm_MediaId (ms_media m5) = 1"
    using s4(2) s3(2) s2(2) s1(2) by (simp_all add: m5 m3' m1' m0 upd_media_def upd_dev_of_def ms_media_def)
  moreover have "bm_MediaPresent (ms_media m5)" "bm_BlockSize (ms_media m5) = of_nat bs"
    "bm_LastBlock (ms_media m5) = of_nat (length (sk_disk (ms_ext m)) - 1)"
    by (simp_all add: m5 upd_media_def ms_media_def)
  ultimately show ?thesis
    using assms(3-6) by (intro exI [of _ m5]) (auto simp: fixed_disk_def stick_same_def simp del: of_nat_diff of_nat_diff_if)
qed

text \<open>The set-up of a unit on a stick with a disk of blocks that the 10-byte commands can address finds the disk:
  it succeeds, and leaves the media record with the geometry of the disk, which is all that reading and writing ask for.\<close>

theorem usb_mass_init_stick:
  assumes "stick_unit bs m" "InterfaceSubClass (ctx_Interface (ms_ctx m)) = Some USB_MASS_STORE_SCSI"
    and "0 < bs" "128 * bs < 2 ^ 32" "0 < length (sk_disk (ms_ext m))" "length (sk_disk (ms_ext m)) < 2 ^ 32"
  shows "\<exists>m1. UsbMassInitMedia stick_env m = Some (EFI_SUCCESS, m1) \<and> fixed_disk 1 bs m1 \<and>
    sk_disk (ms_ext m1) = sk_disk (ms_ext m) \<and> sk_lazy (ms_ext m1) = sk_lazy (ms_ext m)"
  using assms by (rule stick_found)

text \<open>The unit as the driver binding makes it.\<close>

definition demo_new :: "stick mass" where
  "demo_new = \<lparr>ms_dev = new_mdev (Some 1) mUsbBotTransport 0 0, ms_ctx = BotCtx demo_bot, ms_ext = demo_stick False\<rparr>"

lemma demo_new_unit:
  "stick_unit 2 demo_new" "InterfaceSubClass (ctx_Interface (ms_ctx demo_new)) = Some USB_MASS_STORE_SCSI"
  "length (sk_disk (ms_ext demo_new)) = 4"
  by (simp_all add: stick_unit_def demo_new_def demo_stick_def demo_bot_def new_mdev_def InterfaceSubClass_def stick_ifd_def rd_def
    USB_MASS_STORE_SCSI_def)

theorem usb_mass_init_stick_witness:
  "\<exists>m1. UsbMassInitMedia stick_env demo_new = Some (EFI_SUCCESS, m1) \<and> fixed_disk 1 2 m1"
  using usb_mass_init_stick [OF demo_new_unit(1,2)] by (auto simp: demo_new_unit(3))

section \<open>Requests end\<close>

text \<open>C30. Reading and writing always come to an end, in whatever state earlier requests and resets have left a unit whose
  set-up the driver accepted and whose medium is not removable, whatever the device answers: if each transfer returns and
  time passes, each request returns with a status and a buffer of the same length. So no division by zero and no read
  behind a descriptor is reached either.\<close>

theorem usb_mass_requests_return:
  assumes "mass_services env left" "UsbBotInit True (me_io env) s0 = Some (Inr b)"
    and "UsbMassInitMedia env \<lparr>ms_dev = new_mdev ctl mUsbBotTransport ctx lun, ms_ctx = BotCtx b, ms_ext = s1\<rparr> = Some (r, m0)"
    and "\<not> EFI_ERROR r \<or> r = EFI_NO_MEDIA" "\<not> bm_RemovableMedia (ms_media m0)" "unit_run env m0 m"
  shows "(\<exists>x data1 m1. UsbMassReadBlocks env mid lba (length data) (Some data) m = Some ((x, Some data1), m1) \<and>
      length data1 = length data) \<and>
    (\<exists>x data1 m1. UsbMassWriteBlocks env mid lba (length data) (Some data) m = Some ((x, Some data1), m1) \<and>
      length data1 = length data)"
proof -
  have "bot_unit \<lparr>ms_dev = new_mdev ctl mUsbBotTransport ctx lun, ms_ctx = BotCtx b, ms_ext = s1\<rparr>"
    using UsbBotInit_ok [OF assms(2)] by (simp add: bot_unit_def new_mdev_def)
  note ok = mass_services.init_media_ok [OF assms(1,3) this assms(4)]
  note same = unit_run_same [OF assms(6,5)]
  note ret = mass_services.requests_return [OF assms(1) same_unit_bot [OF same ok(2)] same_unit_ok [OF same ok(1)] _ refl, of data]
  have nr: "\<not> bm_RemovableMedia (ms_media m)"
    using same_unit_fields(3) [OF same] assms(5) by simp
  show ?thesis
    using ret(1) [OF nr, of mid lba] ret(2) [OF nr, of mid lba] by (auto simp: returns_def)
qed

lemma stick_init: "UsbBotInit True (me_io stick_env) s = Some (Inr demo_bot)"
proof -
  have "bot_endpoints stick_io 2 0 (None, None) s = Some (Some stick_in, Some stick_out)"
    by (simp add: numeral_2_eq_2 stick_io_def stick_in_def stick_out_def EndpointAttributes_def EndpointAddress_def rd_def
      USB_IS_BULK_ENDPOINT_def USB_IS_IN_ENDPOINT_def USB_ENDPOINT_BULK_def first_of_def)
  moreover have "uio_Interface stick_io s = Some (Inr stick_ifd)"
    by (simp add: stick_io_def)
  moreover have "InterfaceProtocol stick_ifd = Some USB_MASS_STORE_BOT" "InterfaceNumEndpoints stick_ifd = Some 2"
    by (simp_all add: InterfaceProtocol_def InterfaceNumEndpoints_def rd_def stick_ifd_def USB_MASS_STORE_BOT_def)
  moreover have "me_io stick_env = stick_io"
    by (simp add: stick_env_def)
  ultimately show ?thesis
    by (simp add: UsbBotInit_def demo_bot_def)
qed

text \<open>The disk is found, a block is read, and the unit is asked for a block that is not there.\<close>

theorem usb_mass_requests_return_witness:
  "\<exists>m0 r m x data1 m1. UsbMassInitMedia stick_env demo_new = Some (EFI_SUCCESS, m0) \<and>
    UsbMassReset stick_env True m0 = Some (r, m) \<and>
    UsbMassReadBlocks stick_env 1 9 2 (Some [0, 0]) m = Some ((x, Some data1), m1) \<and> length data1 = 2"
proof -
  obtain m0 where e: "UsbMassInitMedia stick_env demo_new = Some (EFI_SUCCESS, m0)" and m0: "fixed_disk 1 2 m0"
    using stick_found [OF demo_new_unit(1,2)] by (auto simp: demo_new_unit(3))
  have i: "UsbBotInit True (me_io stick_env) (demo_stick False) = Some (Inr demo_bot)"
    by (rule stick_init)
  have "bot_unit demo_new"
    using UsbBotInit_ok [OF i] by (simp add: bot_unit_def demo_new_def new_mdev_def)
  with e have "bot_unit m0"
    by (rule stick_services.init_media_ok(2)) (simp add: EFI_ERROR_def)
  then obtain r m where r: "UsbMassReset stick_env True m0 = Some (r, m)"
    using stick_services.mass_reset_returns [of m0] by (auto simp: returns_def)
  have "unit_run stick_env m0 m"
    using unit_run.start r by (rule unit_run.reset)
  from usb_mass_requests_return [OF stick_services.mass_services_axioms i e [unfolded demo_new_def] _ _ this, where data = "[0, 0]" and mid = 1 and lba = 9]
  show ?thesis
    using e r m0 by (auto simp: EFI_ERROR_def fixed_disk_def numeral_2_eq_2)
qed

section \<open>The units of an interface\<close>

text \<open>The units in the order of a list.\<close>

primrec init_luns ::
  "'s mass_env \<Rightarrow> nat \<Rightarrow> usb_mass_transport \<Rightarrow> nat \<Rightarrow> dev_path \<Rightarrow> byte list \<Rightarrow> efi_status \<Rightarrow> 's mass_st \<Rightarrow>
    (efi_status \<times> 's mass_st) option"
where
  "init_luns env ctl t ctx path [] ret st = Some (ret, st)"
| "init_luns env ctl t ctx path (lun # luns) ret st =
     do { (ret1, st1) \<leftarrow> init_lun env ctl t ctx path lun ret st; init_luns env ctl t ctx path luns ret1 st1 }"

lemma multi_lun_loop_255: "multi_lun_loop env ctl t ctx path 255 idx ret st \<noteq> Some x"
proof
  assume "multi_lun_loop env ctl t ctx path 255 idx ret st = Some x"
  then show False
  proof (rule multi_lun_loop.raw_induct [rotated, where P = "\<lambda>env ctl t ctx path m idx ret st x. m \<noteq> 255", THEN notE])
    fix f :: "'a mass_env \<Rightarrow> nat \<Rightarrow> usb_mass_transport \<Rightarrow> nat \<Rightarrow> dev_path \<Rightarrow> byte \<Rightarrow> byte \<Rightarrow> efi_status \<Rightarrow> 'a mass_st \<Rightarrow> (efi_status \<times> 'a mass_st) option"
      and env ctl t ctx path m idx ret st x
    assume f: "\<And>env ctl t ctx path m idx ret st x. f env ctl t ctx path m idx ret st = Some x \<Longrightarrow> m \<noteq> 255"
      and e: "(if idx \<le> m then do { (ret1, st1) \<leftarrow> init_lun env ctl t ctx path idx ret st; f env ctl t ctx path m (idx + 1) ret1 st1 }
        else Some (ret, st)) = Some x"
    have top: "idx \<le> (255 :: byte)"
      using word_unat_lt [of idx] by (simp add: word_le_nat_alt)
    show "m \<noteq> 255"
      using e top by (auto simp: bind_eq_Some_conv dest: f split: if_splits)
  qed simp
qed

lemma multi_lun_loop_list:
  assumes "unat maxlun < 255"
  shows "multi_lun_loop env ctl t ctx path maxlun idx ret st =
    init_luns env ctl t ctx path (map of_nat [unat idx ..< Suc (unat maxlun)]) ret st"
proof (induction "Suc (unat maxlun) - unat idx" arbitrary: idx ret st)
  case 0
  then show ?case
    by (subst multi_lun_loop.simps) (simp add: word_le_nat_alt)
next
  case (Suc n)
  then have le: "unat idx \<le> unat maxlun"
    by simp
  then have u: "unat (idx + 1) = Suc (unat idx)"
    using assms by (simp add: unat_plus_if_size word_size)
  have "n = Suc (unat maxlun) - unat (idx + 1)"
    using Suc(2) u by simp
  then have ih: "multi_lun_loop env ctl t ctx path maxlun (idx + 1) =
      init_luns env ctl t ctx path (map of_nat [Suc (unat idx) ..< Suc (unat maxlun)])"
    using Suc(1) [of "idx + 1"] unfolding u by (intro ext) blast
  have c: "map of_nat [unat idx ..< Suc (unat maxlun)] = idx # map of_nat [Suc (unat idx) ..< Suc (unat maxlun)]"
    using le by (simp add: upt_conv_Cons del: upt_Suc)
  have t: "(idx \<le> maxlun) = True"
    using le by (simp add: word_le_nat_alt)
  show ?case
    unfolding c by (subst multi_lun_loop.simps) (simp only: t if_True init_luns.simps ih)
qed

text \<open>C31. The loop over the units of an interface sets them up in the order of their numbers and then stops, for each
  highest number but 255, the value of all bits: its index is a byte as well, so that the loop never ends.\<close>

theorem usb_max_lun_never_ends:
  "UsbMassInitMultiLun env ctl t ctx path maxlun st =
    (if maxlun = 255 then None
     else init_luns env ctl t ctx path (map of_nat [0 ..< Suc (unat maxlun)]) EFI_NOT_FOUND st)"
proof (cases "maxlun = 255")
  case True
  then show ?thesis
    using multi_lun_loop_255 [of env ctl t ctx path 0 EFI_NOT_FOUND st]
    by (cases "multi_lun_loop env ctl t ctx path 255 0 EFI_NOT_FOUND st") (auto simp: UsbMassInitMultiLun_def)
next
  case False
  then have "unat maxlun \<noteq> unat (255 :: byte)"
    by (metis word_unat_eq_iff)
  moreover have "unat maxlun < 256"
    using word_unat_lt [of maxlun] by simp
  ultimately have "unat maxlun < 255"
    by simp
  with False show ?thesis
    using multi_lun_loop_list [of maxlun env ctl t ctx path 0 EFI_NOT_FOUND st] by (simp add: UsbMassInitMultiLun_def)
qed

section \<open>Stopping some of the units\<close>

text \<open>C32. The units of an interface share the context of the transport, and stopping one of them, which succeeds, frees
  it: another unit stays, with its Block I/O protocol installed, and each of its operations reads a freed context.\<close>

theorem usb_stop_one_unit_dangles:
  assumes "USBMassDriverBindingStop env ctl [h] st = Some (EFI_SUCCESS, st1)"
    and "me_OpenProtocol env h MassBlockIo GetProtocol (mv_ext st) = ((EFI_SUCCESS, p), s1)" "mv_dev st p = Some d"
    and "mv_dev st q = Some dq" "q \<noteq> p" "md_Context dq = md_Context d"
  shows "mv_dev st1 q = Some dq \<and> mv_ctx st1 (md_Context dq) = None \<and> run_dev q f st1 = None"
proof -
  have "mv_dev st1 q = Some dq \<and> mv_ctx st1 (md_Context dq) = None"
    using assms
    by (auto simp: USBMassDriverBindingStop_def bind_eq_Some_conv outside_def Let_def mass_close_def EFI_ERROR_def
      Transport_CleanUp_def free_mdev_def split: prod.splits if_splits)
  then show ?thesis
    by (simp add: run_dev_def)
qed

text \<open>Two units on one stick, of which the first is stopped; reading the second one is undefined.\<close>

definition demo_units :: "stick mass_st" where
  "demo_units =
     \<lparr>mv_next = 3,
      mv_dev = [1 \<mapsto> new_mdev (Some 100) mUsbBotTransport 0 0, 2 \<mapsto> new_mdev (Some 101) mUsbBotTransport 0 1],
      mv_ctx = [0 \<mapsto> BotCtx demo_bot], mv_path = Map.empty,
      mv_ext = (demo_stick False)\<lparr>sk_units := [(100, 1), (101, 2)]\<rparr>\<rparr>"

theorem usb_stop_one_unit_dangles_witness:
  "\<exists>st1. USBMassDriverBindingStop stick_env 7 [100] demo_units = Some (EFI_SUCCESS, st1) \<and>
    me_OpenProtocol stick_env 101 MassBlockIo GetProtocol (mv_ext st1) = ((EFI_SUCCESS, 2), mv_ext st1) \<and>
    run_dev 2 (UsbMassReadBlocks stick_env 1 0 2 (Some [0, 0])) st1 = None"
proof -
  let ?d = "\<lambda>h lun. new_mdev (Some h) mUsbBotTransport 0 lun"
  obtain st1 where st1: "USBMassDriverBindingStop stick_env 7 [100] demo_units = Some (EFI_SUCCESS, st1)"
    "me_OpenProtocol stick_env 101 MassBlockIo GetProtocol (mv_ext st1) = ((EFI_SUCCESS, 2), mv_ext st1)"
    by (simp add: USBMassDriverBindingStop_def outside_def mass_close_def demo_units_def demo_stick_def stick_env_def EFI_ERROR_def
      Transport_CleanUp_def free_mdev_def new_mdev_def)
  have "me_OpenProtocol stick_env 100 MassBlockIo GetProtocol (mv_ext demo_units) = ((EFI_SUCCESS, 1), mv_ext demo_units)"
    "mv_dev demo_units 1 = Some (?d 100 0)" "mv_dev demo_units 2 = Some (?d 101 1)"
    "md_Context (?d 101 1) = md_Context (?d 100 0)"
    by (simp_all add: demo_units_def demo_stick_def stick_env_def new_mdev_def)
  from usb_stop_one_unit_dangles [OF st1(1) this(1-3) _ this(4)] st1 show ?thesis
    by auto
qed

end
