(* ===== verification/PatchSearch.thy ===== *)
theory PatchSearch
  imports Prelude
begin

text \<open>
  The search and replace routines of \<^verbatim>\<open>BdsDxe/macosx/kext_patcher.c\<close>, on which the patches of the kernel and of the
  kexts rest.

  The physical memory is the byte list \<open>m\<close>, and an address is an index into it. \<open>UINTN\<close> and pointers have 64 bits. The
  outer \<open>None\<close> is an access to memory that is not there, or a loop that does not end.
\<close>

section \<open>The routines\<close>

text \<open>\<open>Source + SourceSize - SearchSize\<close>, which can be below the source, and can wrap below zero.\<close>

definition search_end :: "nat \<Rightarrow> u32 \<Rightarrow> nat \<Rightarrow> nat" where
  "search_end src sz n = nat ((int src + int (unat sz) - int n) mod 2 ^ 64)"

text \<open>\<open>CompareMem (Source, Search, SearchSize) == 0\<close>.\<close>

definition mem_eq :: "byte list \<Rightarrow> nat \<Rightarrow> byte list \<Rightarrow> bool option" where
  "mem_eq m p pat = map_option (\<lambda>xs. xs = pat) (rd_range m p (length pat))"

function search_from :: "byte list \<Rightarrow> nat \<Rightarrow> nat \<Rightarrow> byte list \<Rightarrow> nat option option" where
  "search_from m p e pat =
     (if p \<le> e then do { eq \<leftarrow> mem_eq m p pat; if eq then Some (Some p) else search_from m (p + 1) e pat }
      else Some None)"
  by pat_completeness auto
termination
  by (relation "measure (\<lambda>(m, p, e, pat). Suc e - p)") auto

declare search_from.simps [simp del]

definition SearchMemory :: "byte list \<Rightarrow> nat \<Rightarrow> u32 \<Rightarrow> byte list \<Rightarrow> nat option option" where
  "SearchMemory m src sz pat = search_from m src (search_end src sz (length pat)) pat"

text \<open>With an empty pattern the next two loops do not advance.\<close>

partial_function (option) count_from :: "byte list \<Rightarrow> nat \<Rightarrow> nat \<Rightarrow> byte list \<Rightarrow> nat \<Rightarrow> nat option" where
  "count_from m p e pat k =
     (if p \<le> e then do {
        eq \<leftarrow> mem_eq m p pat;
        if eq then count_from m (p + length pat) e pat (k + 1) else count_from m (p + 1) e pat k }
      else Some k)"

declare count_from.simps [code]

definition SearchAndCount :: "byte list \<Rightarrow> nat \<Rightarrow> u32 \<Rightarrow> byte list \<Rightarrow> nat option" where
  "SearchAndCount m src sz pat = count_from m src (search_end src sz (length pat)) pat 0"

text \<open>The result is the number of replacements and the memory. As many bytes are taken from \<open>repl\<close> as the pattern has.\<close>

partial_function (option) replace_from ::
  "byte list \<Rightarrow> nat \<Rightarrow> nat \<Rightarrow> byte list \<Rightarrow> byte list \<Rightarrow> bool \<Rightarrow> int \<Rightarrow> nat \<Rightarrow> (nat \<times> byte list) option"
where
  "replace_from m p e pat repl unlimited left k =
     (if p \<le> e \<and> (unlimited \<or> left > 0) then do {
        eq \<leftarrow> mem_eq m p pat;
        if eq then do {
          new \<leftarrow> rd_range repl 0 (length pat);
          m1 \<leftarrow> wr_range m p new;
          replace_from m1 (p + length pat) e pat repl unlimited (left - 1) (k + 1) }
        else replace_from m (p + 1) e pat repl unlimited left k }
      else Some (k, m))"

declare replace_from.simps [code]

definition SearchAndReplace ::
  "byte list \<Rightarrow> nat \<Rightarrow> u32 \<Rightarrow> byte list \<Rightarrow> byte list \<Rightarrow> int \<Rightarrow> (nat \<times> byte list) option"
where
  "SearchAndReplace m src sz pat repl max1 =
     replace_from m src (search_end src sz (length pat)) pat repl (max1 \<le> 0) max1 0"

section \<open>What they compute\<close>

text \<open>The condition says that the source and the pattern are where addresses do not wrap.\<close>

lemma search_end_eq: "n \<le> src + unat sz \<Longrightarrow> src + unat sz < 2 ^ 64 \<Longrightarrow> search_end src sz n = src + unat sz - n"
proof -
  assume a: "n \<le> src + unat sz" "src + unat sz < 2 ^ 64"
  then have "int src + int (unat sz) - int n = int (src + unat sz - n)"
    by (simp only: of_nat_diff of_nat_add)
  moreover have "int (src + unat sz - n) mod 2 ^ 64 = int (src + unat sz - n)"
    using a(2) by (intro mod_pos_pos_trivial) simp_all
  ultimately show "search_end src sz n = src + unat sz - n"
    by (simp add: search_end_def)
qed

lemma mem_eq_Some: "p + length pat \<le> length m \<Longrightarrow> mem_eq m p pat = Some (take (length pat) (drop p m) = pat)"
  by (simp add: mem_eq_def rd_range_def)

lemma mem_eq_eq_Some: "mem_eq m p pat = Some b \<longleftrightarrow> p + length pat \<le> length m \<and> b = (take (length pat) (drop p m) = pat)"
  by (auto simp: mem_eq_def rd_range_def)

lemma search_from_find:
  "e + length pat \<le> length m \<Longrightarrow>
    search_from m p e pat = Some (find (\<lambda>i. take (length pat) (drop i m) = pat) [p ..< Suc e])"
proof (induction m p e pat rule: search_from.induct)
  case (1 m p e pat)
  show ?case
  proof (cases "p \<le> e")
    case True
    then have c: "[p ..< Suc e] = p # [p + 1 ..< Suc e]"
      by (simp add: upt_conv_Cons del: upt_Suc)
    show ?thesis
      using True 1 unfolding c by (subst search_from.simps) (simp add: mem_eq_Some del: upt_Suc)
  qed (subst search_from.simps, simp)
qed

text \<open>The first place of a pattern in a part of the memory.\<close>

lemma SearchMemory_find:
  assumes "length pat \<le> src + unat sz" "src + unat sz \<le> length m" "length m < 2 ^ 64"
  shows "SearchMemory m src sz pat =
    Some (find (\<lambda>i. take (length pat) (drop i m) = pat) [src ..< Suc (src + unat sz - length pat)])"
  using assms by (simp add: SearchMemory_def search_end_eq search_from_find del: upt_Suc)

lemma search_from_bounds: "search_from m p e pat = Some (Some q) \<Longrightarrow> p \<le> q \<and> q + length pat \<le> length m"
proof (induction m p e pat rule: search_from.induct)
  case (1 m p e pat)
  from 1(2) obtain eq where e: "p \<le> e" "mem_eq m p pat = Some eq"
    "(if eq then Some (Some p) else search_from m (p + 1) e pat) = Some (Some q)"
    by (subst (asm) search_from.simps) (auto simp: bind_eq_Some_conv split: if_splits)
  then show ?case
    using 1(1) [of eq] by (cases eq) (auto simp: mem_eq_eq_Some)
qed

lemma SearchMemory_bounds: "SearchMemory m src sz pat = Some (Some q) \<Longrightarrow> src \<le> q \<and> q + length pat \<le> length m"
  unfolding SearchMemory_def by (rule search_from_bounds)

text \<open>The pattern replaced from left to right, at most as often as the limit says; and how often.\<close>

function subst_bytes :: "'a list \<Rightarrow> 'a list \<Rightarrow> nat option \<Rightarrow> 'a list \<Rightarrow> nat \<times> 'a list" where
  "subst_bytes pat new k xs =
     (if k = Some 0 \<or> pat = [] \<or> length xs < length pat then (0, xs)
      else if take (length pat) xs = pat
      then (let (c, ys) = subst_bytes pat new (map_option (\<lambda>j. j - 1) k) (drop (length pat) xs) in (Suc c, new @ ys))
      else (let (c, ys) = subst_bytes pat new k (tl xs) in (c, hd xs # ys)))"
  by pat_completeness auto
termination
  by (relation "measure (\<lambda>(pat, new, k, xs). length xs)") (auto simp: not_less intro!: diff_less dest: length_0_conv [THEN iffD2])

declare subst_bytes.simps [simp del]

lemma subst_bytes_length: "length new = length pat \<Longrightarrow> length (snd (subst_bytes pat new k xs)) = length xs"
proof (induction pat new k xs rule: subst_bytes.induct)
  case (1 pat new k xs)
  then show ?case
    by (cases xs; subst subst_bytes.simps) (auto simp: split_beta Let_def)
qed

lemma replace_from_subst:
  assumes "pat \<noteq> []" "length pat \<le> length repl"
  shows "e + length pat = length pre + length xs \<Longrightarrow>
    replace_from (pre @ xs @ post) (length pre) e pat repl u left k =
      (let (c, ys) = subst_bytes pat (take (length pat) repl) (if u then None else Some (nat left)) xs in
       Some (k + c, pre @ ys @ post))"
proof (induction "length xs" arbitrary: pre xs left k rule: less_induct)
  case less
  let ?n = "length pat"
  let ?new = "take ?n repl"
  let ?lim = "if u then None else Some (nat left)"
  show ?case
  proof (cases "length pre \<le> e \<and> (u \<or> left > 0)")
    case False
    have "?lim = Some 0 \<or> length xs < ?n"
      using False less(2) by auto
    then have "subst_bytes pat ?new ?lim xs = (0, xs)"
      by (subst subst_bytes.simps) auto
    with False show ?thesis
      by (subst replace_from.simps) auto
  next
    case True
    then have n: "?n \<le> length xs" "?lim \<noteq> Some 0"
      using less(2) by auto
    have eq: "mem_eq (pre @ xs @ post) (length pre) pat = Some (take ?n xs = pat)"
      using n by (simp add: mem_eq_Some)
    show ?thesis
    proof (cases "take ?n xs = pat")
      case hit: True
      have xs: "xs = pat @ drop ?n xs"
        using hit by (metis append_take_drop_id)
      have w: "wr_range (pre @ xs @ post) (length pre) ?new = Some ((pre @ ?new) @ drop ?n xs @ post)"
        using assms(2) n(1) by (simp add: wr_range_def min_absorb2)
      have l: "length pre + ?n = length (pre @ ?new)"
        using assms(2) by simp
      have lim: "map_option (\<lambda>j. j - 1) ?lim = (if u then None else Some (nat (left - 1)))"
        using True by (auto simp: nat_diff_distrib)
      have "length (drop ?n xs) < length xs" "e + ?n = length (pre @ ?new) + length (drop ?n xs)"
        using assms n(1) less(2) length_greater_0_conv [of pat] by (simp, linarith, simp)
      note ih = less(1) [OF this, of "left - 1" "k + 1"]
      have new: "rd_range repl 0 ?n = Some ?new"
        using assms(2) by (simp add: rd_range_def)
      have "replace_from (pre @ xs @ post) (length pre) e pat repl u left k =
          replace_from ((pre @ ?new) @ drop ?n xs @ post) (length (pre @ ?new)) e pat repl u (left - 1) (k + 1)"
        by (subst replace_from.simps) (simp only: True hit eq new w l Option.bind.simps if_True simp_thms)
      moreover have "subst_bytes pat ?new ?lim xs =
          (let (c, ys) = subst_bytes pat ?new (if u then None else Some (nat (left - 1))) (drop ?n xs) in (Suc c, ?new @ ys))"
        using n assms(1) by (subst subst_bytes.simps) (simp only: hit lim if_False if_True simp_thms not_less [symmetric])
      ultimately show ?thesis
        unfolding ih by (simp only: split_beta Let_def fst_conv snd_conv append_assoc add_Suc add_Suc_right Suc_eq_plus1 add.assoc add.commute [of 1])
    next
      case miss: False
      obtain x ys where xs: "xs = x # ys"
        using n assms(1) by (cases xs) auto
      have "length ys < length xs" "e + ?n = length (pre @ [x]) + length ys"
        using less(2) xs by auto
      note ih = less(1) [OF this, of left k]
      show ?thesis
        using True n miss assms ih eq
        unfolding xs by (subst replace_from.simps, subst subst_bytes.simps) (simp add: split_beta Let_def)
    qed
  qed
qed

text \<open>The same for the routine as it is called, on a part of the memory.\<close>

lemma SearchAndReplace_subst:
  assumes "pat \<noteq> []" "length pat \<le> length repl" "length pat \<le> length pre + unat sz" "length m < 2 ^ 64"
    and "m = pre @ xs @ post" "length xs = unat sz"
  shows "SearchAndReplace m (length pre) sz pat repl max1 =
    (let (c, ys) = subst_bytes pat (take (length pat) repl) (if max1 \<le> 0 then None else Some (nat max1)) xs in
     Some (c, pre @ ys @ post))"
proof -
  have e: "search_end (length pre) sz (length pat) = length pre + length xs - length pat"
    using assms(3-6) by (simp add: search_end_eq)
  show ?thesis
    using replace_from_subst [OF assms(1,2), of "length pre + length xs - length pat" pre xs post "max1 \<le> 0" max1 0] assms(3,6)
    unfolding SearchAndReplace_def e assms(5) by simp
qed

lemma count_from_subst:
  assumes "pat \<noteq> []"
  shows "e + length pat = length pre + length xs \<Longrightarrow>
    count_from (pre @ xs @ post) (length pre) e pat k = Some (k + fst (subst_bytes pat new None xs))"
proof (induction "length xs" arbitrary: pre xs k rule: less_induct)
  case less
  let ?n = "length pat"
  show ?case
  proof (cases "length pre \<le> e")
    case False
    then have "length xs < ?n"
      using less(2) by auto
    with False show ?thesis
      by (subst count_from.simps, subst subst_bytes.simps) simp
  next
    case True
    then have n: "?n \<le> length xs"
      using less(2) by auto
    have eq: "mem_eq (pre @ xs @ post) (length pre) pat = Some (take ?n xs = pat)"
      using n by (simp add: mem_eq_Some)
    show ?thesis
    proof (cases "take ?n xs = pat")
      case hit: True
      have m: "pre @ xs @ post = (pre @ pat) @ drop ?n xs @ post"
        using hit by (metis append_assoc append_take_drop_id)
      have "length (drop ?n xs) < length xs" "e + ?n = length (pre @ pat) + length (drop ?n xs)"
        using assms n less(2) length_greater_0_conv [of pat] by (simp, linarith, simp)
      note ih = less(1) [OF this, of "k + 1", folded m]
      show ?thesis
        using True n hit assms ih
        by (subst count_from.simps, subst subst_bytes.simps) (simp add: eq split_beta Let_def)
    next
      case miss: False
      obtain x ys where xs: "xs = x # ys"
        using n assms(1) by (cases xs) auto
      have "length ys < length xs" "e + ?n = length (pre @ [x]) + length ys"
        using less(2) xs by auto
      note ih = less(1) [OF this, of k]
      show ?thesis
        using True n miss assms ih eq
        unfolding xs by (subst count_from.simps, subst subst_bytes.simps) (simp add: split_beta Let_def)
    qed
  qed
qed

section \<open>An empty pattern\<close>

text \<open>It is found everywhere and never passed: the loop does not end.\<close>

lemma replace_from_facts:
  assumes "replace_from m p e pat repl u left k = Some y"
  shows "length (snd y) = length m" "pat = [] \<longrightarrow> u \<longrightarrow> \<not> p \<le> e"
proof -
  have "length (snd y) = length m \<and> (pat = [] \<longrightarrow> u \<longrightarrow> \<not> p \<le> e)"
  proof (rule replace_from.raw_induct [OF _ assms, where P = "\<lambda>m p e pat repl u left k y. length (snd y) = length m \<and> (pat = [] \<longrightarrow> u \<longrightarrow> \<not> p \<le> e)"], goal_cases)
    case (1 f m p e pat repl u left k y)
    note ih = 1(1)
    show ?case
    proof (cases "p \<le> e \<and> (u \<or> left > 0)")
      case True
      then obtain eq where eq: "mem_eq m p pat = Some eq"
        "(if eq then Option.bind (rd_range repl 0 (length pat)) (\<lambda>new. Option.bind (wr_range m p new)
            (\<lambda>m1. f m1 (p + length pat) e pat repl u (left - 1) (k + 1)))
          else f m (p + 1) e pat repl u left k) = Some y"
        using 1(2) by (auto simp: bind_eq_Some_conv)
      show ?thesis
      proof (cases eq)
        case True
        then obtain new m1 where w: "wr_range m p new = Some m1" "f m1 (p + length pat) e pat repl u (left - 1) (k + 1) = Some y"
          using eq(2) by (auto simp: bind_eq_Some_conv)
        show ?thesis
          using ih [OF w(2)] wr_range_length [OF w(1)] by simp
      next
        case False
        then show ?thesis
          using eq ih [of m "p + 1" e pat repl u left k y] by (auto simp: mem_eq_eq_Some)
      qed
    next
      case False
      then show ?thesis
        using 1(2) by auto
    qed
  qed
  then show "length (snd y) = length m" "pat = [] \<longrightarrow> u \<longrightarrow> \<not> p \<le> e"
    by simp_all
qed

lemma replace_empty_hangs: "p \<le> e \<Longrightarrow> replace_from m p e [] repl True left k = None"
  using replace_from_facts(2) [of m p e "[]" repl True left k] by (cases "replace_from m p e [] repl True left k") auto

lemma SearchAndReplace_length: "SearchAndReplace m src sz pat repl max1 = Some (c, m1) \<Longrightarrow> length m1 = length m"
  unfolding SearchAndReplace_def by (drule replace_from_facts(1)) simp

end
