(* ===== verification/KextPatch.thy ===== *)
theory KextPatch
  imports PatchSearch
begin

text \<open>
  The patches of kexts, \<^verbatim>\<open>BdsDxe/macosx/kext_patcher.c\<close>: for each kext that the kernel cache lists in its prelink
  information, an XML text, the address and the size of its binary are read from the text, and the patches of the
  configuration whose name occurs in the bundle identifier are applied.

  The buffer of the bundle identifier is in the memory at the address \<open>bundle\<close>. \<open>hex\<close> is \<open>AsciiStrHexToUint64\<close> of EDK2.
  The lists of patches are those of the configuration; the length of a pattern is that of its list, and a name that the
  configuration does not have is \<open>None\<close>.
\<close>

record kext_patch =
  AnyKext :: "byte list option"
  AnyKextData :: "byte list"
  AnyKextPatchBytes :: "byte list"
  AnyKextInfoPlistPatch :: bool

definition quote_byte :: byte where "quote_byte = 34"

section \<open>The bundle identifier\<close>

function skip_to_tag :: "byte list \<Rightarrow> nat \<Rightarrow> nat option" where
  "skip_to_tag m t = do { c \<leftarrow> rd m t; if c = of_char (CHR ''<'') \<or> c = 0 then Some t else skip_to_tag m (t + 1) }"
  by pat_completeness auto
termination
  by (relation "measure (\<lambda>(m, t). length m - t)") (auto simp: rd_eq_Some)

declare skip_to_tag.simps [simp del]

lemma skip_to_tag_le: "skip_to_tag m t = Some t1 \<Longrightarrow> t \<le> t1"
proof (induction m t rule: skip_to_tag.induct)
  case (1 m t)
  from 1(2) obtain c where "rd m t = Some c" "(if c = of_char (CHR ''<'') \<or> c = 0 then Some t else skip_to_tag m (t + 1)) = Some t1"
    by (subst (asm) skip_to_tag.simps) (auto simp: bind_eq_Some_conv)
  with 1(1) [of c] show ?case
    by (auto split: if_splits)
qed

text \<open>
  The string after the key. The result is the new length of the identifier, which is stored before the end of the
  string is checked, and the memory if the string was copied.
\<close>

definition bundle_string :: "nat \<Rightarrow> nat \<Rightarrow> u32 \<Rightarrow> byte list \<Rightarrow> nat \<Rightarrow> u32 \<Rightarrow> (u32 \<times> byte list option) option" where
  "bundle_string bundle plist sz m tag idlen =
     do {
       q \<leftarrow> SearchMemory m (tag + 29) (sz - 29 - of_nat (tag - plist)) (lit ''<string>'');
       (case q of
          None \<Rightarrow> Some (idlen, None)
        | Some q \<Rightarrow>
            do {
              e \<leftarrow> SearchMemory m (q + 8) (sz - of_nat (q + 8 - plist)) (lit ''</string>'');
              (case e of
                 None \<Rightarrow> Some (- of_nat (q + 8), None)
               | Some e \<Rightarrow>
                   let len = of_nat (e - (q + 8)) in
                   if len < 256 then do {
                     xs \<leftarrow> rd_range m (q + 8) (unat len);
                     m1 \<leftarrow> wr_range m bundle xs;
                     m2 \<leftarrow> wr m1 (bundle + unat len) 0;
                     Some (len, Some m2) }
                   else Some (len, None)) }) }"

definition bundle_key :: "nat \<Rightarrow> nat \<Rightarrow> u32 \<Rightarrow> byte list \<Rightarrow> nat \<Rightarrow> int \<Rightarrow> u32 \<Rightarrow> (u32 \<times> byte list option) option" where
  "bundle_key bundle plist sz m tag level idlen =
     do {
       key \<leftarrow> (if level = 1 then mem_eq m tag (lit ''<key>CFBundleIdentifier</key>'') else Some False);
       if key then bundle_string bundle plist sz m tag idlen else Some (idlen, None) }"

function extract_loop :: "nat \<Rightarrow> nat \<Rightarrow> u32 \<Rightarrow> byte list \<Rightarrow> nat \<Rightarrow> int \<Rightarrow> u32 \<Rightarrow> (u32 \<times> byte list) option" where
  "extract_loop bundle plist sz m tag level idlen =
     do {
       c \<leftarrow> rd m tag;
       if c = 0 then Some (idlen, m)
       else do {
         open1 \<leftarrow> mem_eq m tag (lit ''<dict>'');
         if open1
         then do { t \<leftarrow> skip_to_tag m (tag + 6); extract_loop bundle plist sz m t (level + 1) idlen }
         else do {
           close1 \<leftarrow> mem_eq m tag (lit ''</dict>'');
           if close1
           then do { t \<leftarrow> skip_to_tag m (tag + 7); extract_loop bundle plist sz m t (level - 1) idlen }
           else do {
             (len1, m1) \<leftarrow> bundle_key bundle plist sz m tag level idlen;
             (case m1 of
                Some m1 \<Rightarrow> Some (len1, m1)
              | None \<Rightarrow> do { t \<leftarrow> skip_to_tag m (tag + 1); extract_loop bundle plist sz m t level len1 }) } } } }"
  by pat_completeness auto
termination
  by (relation "measure (\<lambda>(bundle, plist, sz, m, tag, level, idlen). length m - tag)")
    (auto simp: rd_eq_Some dest!: skip_to_tag_le)

declare extract_loop.simps [simp del]

definition ExtractKextBundleIdentifier :: "nat \<Rightarrow> nat \<Rightarrow> u32 \<Rightarrow> byte list \<Rightarrow> (u32 \<times> byte list) option" where
  "ExtractKextBundleIdentifier bundle plist sz m =
     do {
       m1 \<leftarrow> wr m bundle 0;
       r \<leftarrow> SearchMemory m1 plist sz (lit ''<dict>'');
       (case r of
          None \<Rightarrow> Some (0, m1)
        | Some tag \<Rightarrow> extract_loop bundle plist sz m1 (tag + 6) 1 0) }"

section \<open>One kext\<close>

definition AnyKextPatch :: "kext_patch \<Rightarrow> nat \<Rightarrow> u32 \<Rightarrow> nat \<Rightarrow> u32 \<Rightarrow> byte list \<Rightarrow> byte list option" where
  "AnyKextPatch k driver dsz plist psz m =
     (if AnyKextInfoPlistPatch k then
        (if plist = 0 \<or> psz = 0 then Some m
         else map_option snd (SearchAndReplace m plist psz (AnyKextData k) (AnyKextPatchBytes k) (- 1)))
      else if driver = 0 \<or> dsz = 0 then Some m
      else map_option snd (SearchAndReplace m driver dsz (AnyKextData k) (AnyKextPatchBytes k) (- 1)))"

primrec any_kexts :: "nat \<Rightarrow> u32 \<Rightarrow> kext_patch list \<Rightarrow> nat \<Rightarrow> u32 \<Rightarrow> nat \<Rightarrow> u32 \<Rightarrow> byte list \<Rightarrow> byte list option" where
  "any_kexts bundle idlen [] driver dsz plist psz m = Some m"
| "any_kexts bundle idlen (k # ks) driver dsz plist psz m =
     (if AnyKextData k = [] then any_kexts bundle idlen ks driver dsz plist psz m
      else do {
        name \<leftarrow> AnyKext k;
        r \<leftarrow> SearchMemory m bundle idlen name;
        m1 \<leftarrow> (case r of None \<Rightarrow> Some m | Some q \<Rightarrow> AnyKextPatch k driver dsz plist psz m);
        any_kexts bundle idlen ks driver dsz plist psz m1 })"

definition PatchKext :: "nat \<Rightarrow> kext_patch list \<Rightarrow> nat \<Rightarrow> u32 \<Rightarrow> nat \<Rightarrow> u32 \<Rightarrow> byte list \<Rightarrow> byte list option" where
  "PatchKext bundle ks driver dsz plist psz m =
     do {
       (idlen, m1) \<leftarrow> ExtractKextBundleIdentifier bundle plist psz m;
       any_kexts bundle idlen ks driver dsz plist psz m1 }"

section \<open>Numbers in a property list\<close>

text \<open>A number that is given by reference. The window of each search is as long as the text before its start.\<close>

definition hex_reference :: "(byte list \<Rightarrow> u64) \<Rightarrow> byte list \<Rightarrow> nat \<Rightarrow> nat \<Rightarrow> nat \<Rightarrow> u32 \<Rightarrow> u64 option" where
  "hex_reference hex m plist inttag whole wsz =
     do {
       v \<leftarrow> SearchMemory m inttag (of_nat (inttag - plist)) (lit ''<integer IDREF='' @ [quote_byte]);
       if v \<noteq> Some inttag then Some 0
       else do {
         q \<leftarrow> SearchMemory m inttag (of_nat (inttag - plist)) [quote_byte];
         let ids = (case q of None \<Rightarrow> 1 | Some q \<Rightarrow> q + 1);
         qe \<leftarrow> SearchMemory m ids (of_int (int ids - int plist)) [quote_byte];
         let idlen = (case qe of None \<Rightarrow> 2 ^ 64 - ids | Some e \<Rightarrow> e - ids);
         if idlen > 8 then Some 0
         else do {
           xs \<leftarrow> rd_range m ids idlen;
           it \<leftarrow> SearchMemory m whole wsz (lit ''<integer ID='' @ [quote_byte] @ takeWhile (\<lambda>c. c \<noteq> 0) xs @ [quote_byte]);
           (case it of
              None \<Rightarrow> Some 0
            | Some it \<Rightarrow>
                do {
                  v2 \<leftarrow> SearchMemory m it (wsz - of_nat (it - whole)) (lit ''>'');
                  (case v2 of
                     None \<Rightarrow> Some 0
                   | Some v2 \<Rightarrow>
                       do {
                         c \<leftarrow> rd m (v2 - 1);
                         if c = of_char (CHR ''/'') then Some 0
                         else do { ys \<leftarrow> rd_range m (v2 + 1) 20; Some (hex (takeWhile (\<lambda>c. c \<noteq> 0) ys)) } }) }) } } }"

definition GetPlistHexValue ::
  "(byte list \<Rightarrow> u64) \<Rightarrow> byte list \<Rightarrow> nat \<Rightarrow> u32 \<Rightarrow> byte list \<Rightarrow> nat \<Rightarrow> u32 \<Rightarrow> u64 option"
where
  "GetPlistHexValue hex m plist sz key whole wsz =
     do {
       v \<leftarrow> SearchMemory m plist sz key;
       (case v of
          None \<Rightarrow> Some 0
        | Some v \<Rightarrow>
            do {
              it \<leftarrow> SearchMemory m v (of_nat (v - plist)) (lit ''<integer'');
              (case it of
                 None \<Rightarrow> Some 0
               | Some it \<Rightarrow>
                   do {
                     e \<leftarrow> SearchMemory m it (of_nat (it - plist)) (lit ''>'');
                     (case e of
                        None \<Rightarrow> Some 0
                      | Some e \<Rightarrow>
                          do {
                            c \<leftarrow> rd m (e - 1);
                            if c \<noteq> of_char (CHR ''/'') then map_option hex (cstr m (e + 1))
                            else hex_reference hex m plist it whole wsz }) }) }) }"

section \<open>The kexts of a kernel cache\<close>

definition kPrelinkExecutableSourceKey :: "byte list" where "kPrelinkExecutableSourceKey = lit ''_PrelinkExecutableSourceAddr''"
definition kPrelinkExecutableSizeKey :: "byte list" where "kPrelinkExecutableSizeKey = lit ''_PrelinkExecutableSize''"

record prelink =
  pl_bundle :: nat
  pl_hex :: "byte list \<Rightarrow> u64"
  pl_patches :: "kext_patch list"
  pl_KernelSlide :: u32
  pl_KernelRelocBase :: u64
  pl_InfoAddr :: u32
  pl_InfoSize :: u32

definition rd_back :: "byte list \<Rightarrow> nat \<Rightarrow> nat \<Rightarrow> byte option" where
  "rd_back m p k = (if k \<le> p then rd m (p - k) else None)"

text \<open>The dictionary from \<open>start\<close> to \<open>fin\<close>, terminated by a zero while it is looked at.\<close>

definition prelinked_kext :: "prelink \<Rightarrow> nat \<Rightarrow> nat \<Rightarrow> byte list \<Rightarrow> byte list option" where
  "prelinked_kext pl start fin m =
     do {
       saved \<leftarrow> rd m fin;
       m1 \<leftarrow> wr m fin 0;
       let sz = of_nat (fin - start);
       a \<leftarrow> GetPlistHexValue (pl_hex pl) m1 start sz kPrelinkExecutableSourceKey (unat (pl_InfoAddr pl)) (pl_InfoSize pl);
       let addr = ucast a + pl_KernelSlide pl + ucast (pl_KernelRelocBase pl);
       n \<leftarrow> GetPlistHexValue (pl_hex pl) m1 start sz kPrelinkExecutableSizeKey (unat (pl_InfoAddr pl)) (pl_InfoSize pl);
       m2 \<leftarrow> PatchKext (pl_bundle pl) (pl_patches pl) (unat (addr :: u32)) (ucast n) start sz m1;
       wr m2 fin saved }"

text \<open>What is done when \<open>dict>\<close> was found at \<open>p\<close>.\<close>

definition prelinked_dict :: "prelink \<Rightarrow> nat \<Rightarrow> int \<Rightarrow> nat option \<Rightarrow> byte list \<Rightarrow> (int \<times> nat option \<times> byte list) option" where
  "prelinked_dict pl p level start m =
     do {
       c1 \<leftarrow> rd_back m p 1;
       if c1 = of_char (CHR ''<'')
       then Some (level + 1, if level + 1 = 2 then Some (p - 1) else start, m)
       else do {
         c2 \<leftarrow> rd_back m p 2;
         if c2 = of_char (CHR ''<'') \<and> c1 = of_char (CHR ''/'')
         then do {
           m1 \<leftarrow> (case (level = 2, start) of (True, Some s) \<Rightarrow> prelinked_kext pl s (p + 5) m | _ \<Rightarrow> Some m);
           Some (level - 1, start, m1) }
         else Some (level, start, m) } }"

lemma bundle_string_length: "bundle_string b p sz m t l = Some (l1, Some m1) \<Longrightarrow> length m1 = length m"
  by (auto simp: bundle_string_def bind_eq_Some_conv Let_def wr_eq_Some dest!: wr_range_length split: option.splits if_splits)

lemma extract_loop_length: "extract_loop b p sz m t l k = Some r \<Longrightarrow> length (snd r) = length m"
proof (induction b p sz m t l k rule: extract_loop.induct)
  case (1 b p sz m t l k)
  note body = 1(4) [unfolded extract_loop.simps [of b p sz m t l k]]
  from body obtain c where c: "rd m t = Some c"
    by (simp add: bind_eq_Some_conv, blast)
  show ?case
  proof (cases "c = 0")
    case True
    with c body show ?thesis
      by auto
  next
    case nz: False
    with c body obtain open1 where o: "mem_eq m t (lit ''<dict>'') = Some open1"
      by (simp add: bind_eq_Some_conv, blast)
    show ?thesis
    proof (cases open1)
      case True
      with c nz o body show ?thesis
        by (auto simp: bind_eq_Some_conv intro: 1(1) [OF c nz o True])
    next
      case no: False
      with c nz o body obtain close1 where cl: "mem_eq m t (lit ''</dict>'') = Some close1"
        by (simp add: bind_eq_Some_conv, blast)
      show ?thesis
      proof (cases close1)
        case True
        with c nz o no cl body show ?thesis
          by (auto simp: bind_eq_Some_conv intro: 1(2) [OF c nz o no cl True])
      next
        case nc: False
        with c nz o no cl body obtain len1 m1 where b: "bundle_key b p sz m t l k = Some (len1, m1)"
          and rest: "(case m1 of Some m1 \<Rightarrow> Some (len1, m1)
              | None \<Rightarrow> do { t \<leftarrow> skip_to_tag m (Suc t); extract_loop b p sz m t l len1 }) = Some r"
          by (cases "bundle_key b p sz m t l k") auto
        show ?thesis
        proof (cases m1)
          case None
          with rest obtain t1 where "skip_to_tag m (Suc t) = Some t1" "extract_loop b p sz m t1 l len1 = Some r"
            by (auto simp: bind_eq_Some_conv)
          with None show ?thesis
            using 1(3) [OF c nz o no cl nc b _ None] by simp
        next
          case (Some m2)
          with b rest show ?thesis
            by (auto simp: bundle_key_def bind_eq_Some_conv dest: bundle_string_length split: if_splits)
        qed
      qed
    qed
  qed
qed

lemma ExtractKextBundleIdentifier_length:
  "ExtractKextBundleIdentifier b p sz m = Some (k, m1) \<Longrightarrow> length m1 = length m"
  by (auto simp: ExtractKextBundleIdentifier_def bind_eq_Some_conv wr_eq_Some split: option.splits dest!: extract_loop_length)

lemma AnyKextPatch_length: "AnyKextPatch k d dsz p psz m = Some m1 \<Longrightarrow> length m1 = length m"
  by (auto simp: AnyKextPatch_def split: if_splits dest: SearchAndReplace_length)

lemma any_kexts_length: "any_kexts b l ks d dsz p psz m = Some m1 \<Longrightarrow> length m1 = length m"
proof (induction ks arbitrary: m)
  case (Cons k ks)
  then show ?case
    by (auto simp: bind_eq_Some_conv split: if_splits option.splits dest!: AnyKextPatch_length)
qed simp

lemma PatchKext_length: "PatchKext b ks d dsz p psz m = Some m1 \<Longrightarrow> length m1 = length m"
  by (auto simp: PatchKext_def bind_eq_Some_conv dest!: any_kexts_length ExtractKextBundleIdentifier_length)

lemma prelinked_kext_length: "prelinked_kext pl s e m = Some m1 \<Longrightarrow> length m1 = length m"
  by (auto simp: prelinked_kext_def bind_eq_Some_conv Let_def wr_eq_Some dest!: PatchKext_length)

lemma prelinked_dict_length: "prelinked_dict pl p l s m = Some (l1, s1, m1) \<Longrightarrow> length m1 = length m"
  by (auto simp: prelinked_dict_def bind_eq_Some_conv split: if_splits option.splits bool.splits dest: prelinked_kext_length)

function prelinked_loop :: "prelink \<Rightarrow> nat \<Rightarrow> u32 \<Rightarrow> int \<Rightarrow> nat option \<Rightarrow> byte list \<Rightarrow> byte list option" where
  "prelinked_loop pl ptr range1 level start m =
     do {
       r \<leftarrow> SearchMemory m ptr range1 (lit ''dict>'');
       (case r of
          None \<Rightarrow> Some m
        | Some p \<Rightarrow>
            do {
              (level1, start1, m1) \<leftarrow> prelinked_dict pl p level start m;
              prelinked_loop pl (p + 5) (pl_InfoSize pl - of_nat (p + 5 - unat (pl_InfoAddr pl))) level1 start1 m1 }) }"
  by pat_completeness auto
termination
  by (relation "measure (\<lambda>(pl, ptr, range1, level, start, m). length m - ptr)")
    (auto dest!: SearchMemory_bounds prelinked_dict_length)

declare prelinked_loop.simps [simp del]

definition PatchPrelinkedKexts :: "prelink \<Rightarrow> byte list \<Rightarrow> byte list option" where
  "PatchPrelinkedKexts pl m = prelinked_loop pl (unat (pl_InfoAddr pl)) (pl_InfoSize pl) 0 None m"

definition KextPatcherStart :: "bool \<Rightarrow> prelink \<Rightarrow> byte list \<Rightarrow> byte list option" where
  "KextPatcherStart isKernelcache pl m = (if isKernelcache then PatchPrelinkedKexts pl m else Some m)"

end
