(* ===== verification/KextFacts.thy ===== *)
theory KextFacts
  imports KextPatch
begin

text \<open>
  Facts on the kext patcher: what the search and replace routine computes, what the patches of a kext leave alone, and
  which numbers of a property list are missed.
\<close>

section \<open>Search and replace\<close>

text \<open>
  C33. \<^verbatim>\<open>SearchAndReplace\<close> replaces the occurrences of the pattern in its part of the memory from left to right, at most as
  often as the limit says and without a limit when it is not positive, and counts them; the rest of the memory stays.
\<close>

theorem patch_replace_refines:
  assumes "pat \<noteq> []" "length pat \<le> length repl" "length pat \<le> length pre + length xs"
    and "length xs < 2 ^ 32" "length (pre @ xs @ post) < 2 ^ 64"
  shows "SearchAndReplace (pre @ xs @ post) (length pre) (of_nat (length xs)) pat repl max1 =
    (let (c, ys) = subst_bytes pat (take (length pat) repl) (if max1 \<le> 0 then None else Some (nat max1)) xs in
     Some (c, pre @ ys @ post))"
  by (rule SearchAndReplace_subst) (use assms in \<open>simp_all add: unat_small\<close>)

lemma patch_replace_refines_witness:
  "SearchAndReplace [7, 1, 2, 1, 2, 1, 2, 7] 1 6 [1, 2] [3, 4] 2 = Some (2, [7, 3, 4, 3, 4, 1, 2, 7])"
proof -
  have s: "subst_bytes [1, 2] [3, 4] (Some 2) [1, 2, 1, 2, 1, 2] = (2, [3, 4, 3, 4, 1, 2 :: byte])"
    by (simp add: subst_bytes.simps)
  show ?thesis
    using patch_replace_refines [of "[1, 2]" "[3, 4]" "[7]" "[1, 2, 1, 2, 1, 2]" "[7]" 2] by (simp add: s)
qed

section \<open>What a kext's patches change\<close>

lemma wr_range_frame:
  assumes "wr_range m p xs = Some m1" "i < p \<or> p + length xs \<le> i"
  shows "m1 ! i = m ! i"
proof -
  have "p + length xs \<le> length m" "length (take p m) = p" "m1 = take p m @ xs @ drop (p + length xs) m"
    using assms(1) by (auto simp: wr_range_eq_Some)
  then show ?thesis
    using assms(2) by (auto simp: nth_append)
qed

lemma replace_from_frame:
  assumes "replace_from m p e pat repl u left k = Some y"
  shows "i < p \<or> e + length pat \<le> i \<Longrightarrow> snd y ! i = m ! i"
proof -
  have "\<forall>i. i < p \<or> e + length pat \<le> i \<longrightarrow> snd y ! i = m ! i"
  proof (rule replace_from.raw_induct [OF _ assms, where P = "\<lambda>m p e pat repl u left k y. \<forall>i. i < p \<or> e + length pat \<le> i \<longrightarrow> snd y ! i = m ! i"], goal_cases)
    case (1 f m p e pat repl u left k y)
    note ih = 1(1)
    show ?case
    proof (cases "p \<le> e \<and> (u \<or> left > 0)")
      case True
      then obtain eq where eq: "mem_eq m p pat = Some eq"
        "(if eq then Option.bind (rd_range repl 0 (length pat)) (\<lambda>new. Option.bind (wr_range m p new)
            (\<lambda>m1. f m1 (p + length pat) e pat repl u (left - 1) (k + 1)))
          else f m (p + 1) e pat repl u left k) = Some y"
        using 1(2) by (auto simp: bind_eq_Some_conv)
      show ?thesis
      proof (cases eq)
        case hit: True
        then obtain new m1 where w: "rd_range repl 0 (length pat) = Some new" "wr_range m p new = Some m1"
          "f m1 (p + length pat) e pat repl u (left - 1) (k + 1) = Some y"
          using eq(2) by (auto simp: bind_eq_Some_conv)
        have "m1 ! i = m ! i" if "i < p \<or> e + length pat \<le> i" for i
          using wr_range_frame [OF w(2), of i] that True rd_range_length [OF w(1)] by auto
        then show ?thesis
          using ih [OF w(3)] True by (auto simp: trans_less_add1)
      next
        case False
        then show ?thesis
          using eq ih [of m "p + 1" e pat repl u left k y] by auto
      qed
    next
      case False
      then show ?thesis
        using 1(2) by auto
    qed
  qed
  then show "i < p \<or> e + length pat \<le> i \<Longrightarrow> snd y ! i = m ! i"
    by blast
qed

lemma SearchAndReplace_frame:
  assumes "SearchAndReplace m src sz pat repl max1 = Some (c, m1)" "length pat \<le> src + unat sz" "src + unat sz < 2 ^ 64"
    and "i < src \<or> src + unat sz \<le> i"
  shows "m1 ! i = m ! i"
  using replace_from_frame [OF assms(1) [unfolded SearchAndReplace_def], of i] assms(2-4) by (simp add: search_end_eq)

lemma bundle_string_frame:
  assumes "bundle_string b p sz m t l = Some (l1, Some m1)" "i < b \<or> b + 256 \<le> i"
  shows "m1 ! i = m ! i"
proof -
  from assms(1) obtain q e xs m2 where *: "rd_range m (q + 8) (unat (of_nat (e - (q + 8)) :: u32)) = Some xs"
    "of_nat (e - (q + 8)) < (256 :: u32)" "wr_range m b xs = Some m2" "wr m2 (b + unat (of_nat (e - (q + 8)) :: u32)) 0 = Some m1"
    by (auto simp: bundle_string_def bind_eq_Some_conv Let_def split: option.splits if_splits)
  have "unat (of_nat (e - (q + 8)) :: u32) < 256"
    using *(2) by (simp add: word_less_nat_alt)
  with * assms(2) show ?thesis
    using wr_range_frame [OF *(3), of i] rd_range_length [OF *(1)] by (auto simp: wr_eq_Some)
qed

lemma extract_loop_frame:
  "extract_loop b p sz m t l k = Some r \<Longrightarrow> i < b \<or> b + 256 \<le> i \<Longrightarrow> snd r ! i = m ! i"
proof (induction b p sz m t l k rule: extract_loop.induct)
  case (1 b p sz m t l k)
  note body = 1(4) [unfolded extract_loop.simps [of b p sz m t l k]]
  from body obtain c where c: "rd m t = Some c"
    by (simp add: bind_eq_Some_conv, blast)
  show ?case
  proof (cases "c = 0")
    case True
    with c body show ?thesis
      by auto
  next
    case nz: False
    with c body obtain open1 where o: "mem_eq m t (lit ''<dict>'') = Some open1"
      by (simp add: bind_eq_Some_conv, blast)
    show ?thesis
    proof (cases open1)
      case True
      with c nz o body 1(5) show ?thesis
        by (auto simp: bind_eq_Some_conv intro: 1(1) [OF c nz o True])
    next
      case no: False
      with c nz o body obtain close1 where cl: "mem_eq m t (lit ''</dict>'') = Some close1"
        by (simp add: bind_eq_Some_conv, blast)
      show ?thesis
      proof (cases close1)
        case True
        with c nz o no cl body 1(5) show ?thesis
          by (auto simp: bind_eq_Some_conv intro: 1(2) [OF c nz o no cl True])
      next
        case nc: False
        with c nz o no cl body obtain len1 m1 where b: "bundle_key b p sz m t l k = Some (len1, m1)"
          and rest: "(case m1 of Some m1 \<Rightarrow> Some (len1, m1)
              | None \<Rightarrow> do { t \<leftarrow> skip_to_tag m (Suc t); extract_loop b p sz m t l len1 }) = Some r"
          by (cases "bundle_key b p sz m t l k") auto
        show ?thesis
        proof (cases m1)
          case None
          with rest obtain t1 where "skip_to_tag m (Suc t) = Some t1" "extract_loop b p sz m t1 l len1 = Some r"
            by (auto simp: bind_eq_Some_conv)
          with None show ?thesis
            using 1(3) [OF c nz o no cl nc b _ None] 1(5) by simp
        next
          case (Some m2)
          with b rest 1(5) show ?thesis
            by (auto simp: bundle_key_def bind_eq_Some_conv dest: bundle_string_frame split: if_splits)
        qed
      qed
    qed
  qed
qed

lemma ExtractKextBundleIdentifier_frame:
  "ExtractKextBundleIdentifier b p sz m = Some (k, m1) \<Longrightarrow> i < b \<or> b + 256 \<le> i \<Longrightarrow> m1 ! i = m ! i"
  by (auto simp: ExtractKextBundleIdentifier_def bind_eq_Some_conv wr_eq_Some split: option.splits dest!: extract_loop_frame [where i = i])

text \<open>The bytes of an area of the memory, and patches that fit below its end.\<close>

definition outside_area :: "nat \<Rightarrow> nat \<Rightarrow> nat \<Rightarrow> bool" where
  "outside_area p n i \<longleftrightarrow> i < p \<or> p + n \<le> i"

definition patch_fits :: "nat \<Rightarrow> u32 \<Rightarrow> kext_patch \<Rightarrow> bool" where
  "patch_fits p sz k \<longleftrightarrow> length (AnyKextData k) \<le> p + unat sz \<and> p + unat sz < 2 ^ 64"

lemma AnyKextPatch_frame:
  assumes "AnyKextPatch k d dsz p psz m = Some m1" "patch_fits d dsz k" "patch_fits p psz k"
    and "outside_area d (unat dsz) i" "outside_area p (unat psz) i"
  shows "m1 ! i = m ! i"
  using assms by (auto simp: AnyKextPatch_def patch_fits_def outside_area_def split: if_splits dest: SearchAndReplace_frame [where i = i])

lemma any_kexts_frame:
  assumes "any_kexts b l ks d dsz p psz m = Some m1" "\<forall>k \<in> set ks. patch_fits d dsz k \<and> patch_fits p psz k"
    and "outside_area d (unat dsz) i" "outside_area p (unat psz) i"
  shows "m1 ! i = m ! i"
  using assms
proof (induction ks arbitrary: m)
  case (Cons k ks)
  show ?case
  proof (cases "AnyKextData k = []")
    case False
    then obtain name r m2 where n: "AnyKext k = Some name" "SearchMemory m b l name = Some r"
      "(case r of None \<Rightarrow> Some m | Some q \<Rightarrow> AnyKextPatch k d dsz p psz m) = Some m2" "any_kexts b l ks d dsz p psz m2 = Some m1"
      using Cons.prems(1) by (auto simp: bind_eq_Some_conv)
    have "m2 ! i = m ! i"
      using n(3) Cons.prems by (cases r) (auto dest: AnyKextPatch_frame)
    then show ?thesis
      using Cons.IH [OF n(4)] Cons.prems by simp
  qed (use Cons in auto)
qed simp

text \<open>
  C34. Whatever the kext's property list and the configured patches are, patching a kext changes only bytes of its binary,
  of its property list and of the buffer for the bundle identifier.
\<close>

theorem kext_patch_frame:
  assumes "PatchKext bundle ks driver dsz plist psz m = Some m1"
    and "\<forall>k \<in> set ks. patch_fits driver dsz k \<and> patch_fits plist psz k"
    and "outside_area bundle 256 i" "outside_area driver (unat dsz) i" "outside_area plist (unat psz) i"
  shows "length m1 = length m \<and> m1 ! i = m ! i"
proof -
  from assms(1) obtain l m2 where x: "ExtractKextBundleIdentifier bundle plist psz m = Some (l, m2)"
    "any_kexts bundle l ks driver dsz plist psz m2 = Some m1"
    by (auto simp: PatchKext_def bind_eq_Some_conv)
  have "m2 ! i = m ! i"
    using ExtractKextBundleIdentifier_frame [OF x(1), of i] assms(3) by (simp add: outside_area_def)
  with any_kexts_frame [OF x(2) assms(2,4,5)] show ?thesis
    using PatchKext_length [OF assms(1)] by simp
qed

definition demo_plist :: "byte list" where
  "demo_plist = lit ''<dict><key>CFBundleIdentifier</key><string>a</string></dict>''"

definition demo_patch :: kext_patch where
  "demo_patch = \<lparr>AnyKext = Some (lit ''a''), AnyKextData = [1, 2], AnyKextPatchBytes = [3, 4], AnyKextInfoPlistPatch = False\<rparr>"

definition demo_kext :: "byte list" where
  "demo_kext = demo_plist @ [0, 9, 1, 2, 7, 0, 0]"

lemma demo_kext_patched: "PatchKext 65 [demo_patch] 62 2 0 60 demo_kext = Some (demo_plist @ [0, 9, 3, 4, 7, 97, 0])"
  by code_simp

lemma kext_patch_frame_witness:
  "length (demo_plist @ [0, 9, 3, 4, 7, 97, 0]) = length demo_kext \<and> (demo_plist @ [0, 9, 3, 4, 7, 97, 0]) ! 64 = demo_kext ! 64"
  by (rule kext_patch_frame [OF demo_kext_patched]) (simp_all add: demo_patch_def patch_fits_def outside_area_def)

section \<open>Numbers that are missed\<close>

lemma SearchMemory_none:
  assumes "length pat \<le> src + unat sz" "src + unat sz \<le> length m" "length m < 2 ^ 64"
    and "\<forall>i. src \<le> i \<and> i + length pat \<le> src + unat sz \<longrightarrow> take (length pat) (drop i m) \<noteq> pat"
  shows "SearchMemory m src sz pat = Some None"
  using assms by (auto simp: SearchMemory_find find_None_iff simp del: upt_Suc)

text \<open>
  C35. After the key, \<^verbatim>\<open>GetPlistHexValue\<close> looks for the number only as far as the key is from the start of the property
  list: when the number comes later, the result is zero.
\<close>

theorem plist_hex_missed:
  assumes "SearchMemory m plist sz key = Some (Some v)" "plist \<le> v" "v - plist < 2 ^ 32" "8 \<le> v"
    and "v + (v - plist) \<le> length m" "length m < 2 ^ 64"
    and "\<forall>i. v \<le> i \<and> i + 8 \<le> v + (v - plist) \<longrightarrow> take 8 (drop i m) \<noteq> lit ''<integer''"
  shows "GetPlistHexValue hex m plist sz key whole wsz = Some 0"
proof -
  have "unat (of_nat (v - plist) :: u32) = v - plist"
    using assms(3) by (rule unat_small)
  moreover have "length (lit ''<integer'') = 8"
    by simp
  ultimately have "SearchMemory m v (of_nat (v - plist)) (lit ''<integer'') = Some None"
    using assms(4-7) by (intro SearchMemory_none) (simp_all only:)
  then show ?thesis
    using assms(1) by (simp add: GetPlistHexValue_def)
qed

definition demo_size :: "byte list" where
  "demo_size = lit ''<dict><key>_PrelinkExecutableSize</key><integer>0x3d0</integer></dict>''"

lemma demo_size_no_tag: "\<forall>i \<in> set [11 ..< 15]. take 8 (drop i demo_size) \<noteq> lit ''<integer''"
  by code_simp

lemma demo_size_key: "SearchMemory demo_size 0 70 kPrelinkExecutableSizeKey = Some (Some 11)"
  by code_simp

lemma plist_hex_missed_witness: "GetPlistHexValue (\<lambda>_. 0x3d0) demo_size 0 70 kPrelinkExecutableSizeKey 0 70 = Some 0"
proof (rule plist_hex_missed [OF demo_size_key])
  show "\<forall>i. 11 \<le> i \<and> i + 8 \<le> 11 + (11 - 0) \<longrightarrow> take 8 (drop i demo_size) \<noteq> lit ''<integer''"
  proof (intro allI impI)
    fix i :: nat
    assume "11 \<le> i \<and> i + 8 \<le> 11 + (11 - 0)"
    then have "i \<in> set [11 ..< 15]"
      unfolding set_upt by simp
    with demo_size_no_tag show "take 8 (drop i demo_size) \<noteq> lit ''<integer''"
      by blast
  qed
qed (simp_all add: demo_size_def)

end
