(* ===== verification/MachO.thy ===== *)
theory MachO
  imports PatchSearch DeviceTree
begin

text \<open>
  The kernel in memory, \<^verbatim>\<open>BdsDxe/macosx/kernel_patcher.c\<close>: the search for the boot arguments and for the Mach-O
  header, and the look-up of sections, functions and of the kernel's version.

  The memory is a byte list, as in \<^verbatim>\<open>PatchSearch\<close>; the structures of \<^verbatim>\<open>loader.h\<close>, \<^verbatim>\<open>nlist.h\<close> and \<^verbatim>\<open>boot.h\<close> are read at the
  offsets of their fields. An address that is not below the length of the list, or that would wrap at \<open>2 ^ 64\<close>, is not there.
\<close>

record patcher =
  kp_mem :: "byte list"
  KernelRelocBase :: u64
  bootArgs1 :: "nat option"
  bootArgs2 :: "nat option"
  dtRoot :: u32
  KernVersion :: "byte list option"
  KernelData :: "nat option"
  KernelSlide :: u32
  isKernelcache :: bool
  is64BitKernel :: bool
  PatcherInited :: bool
  PrelinkTextAddr :: u32
  PrelinkTextSize :: u32
  PrelinkInfoAddr :: u32
  PrelinkInfoSize :: u32
  WithKexts :: bool

section \<open>Strings\<close>

text \<open>\<open>AsciiStrnCmp\<close> on a string of the program; \<open>CHAR8\<close> is signed.\<close>

fun AsciiStrnCmp :: "byte list \<Rightarrow> byte list \<Rightarrow> nat \<Rightarrow> int" where
  "AsciiStrnCmp s t 0 = 0"
| "AsciiStrnCmp s t (Suc n) =
     (let c = (if s = [] then 0 else hd s); d = (if t = [] then 0 else hd t) in
      if c \<noteq> 0 \<and> d \<noteq> 0 \<and> c = d \<and> n > 0 then AsciiStrnCmp (tl s) (tl t) n else sint c - sint d)"

text \<open>The comparison of the memory with a literal of the same length stops at the first difference.\<close>

fun ascii_prefix :: "byte list \<Rightarrow> nat \<Rightarrow> byte list \<Rightarrow> bool option" where
  "ascii_prefix m p [] = Some True"
| "ascii_prefix m p (c # s) = do { x \<leftarrow> rd m p; if x = c then ascii_prefix m (p + 1) s else Some False }"

section \<open>Sections and functions\<close>

definition LC_SEGMENT :: u32 where "LC_SEGMENT = 0x1"
definition LC_SYMTAB :: u32 where "LC_SYMTAB = 0x2"
definition LC_SEGMENT_64 :: u32 where "LC_SEGMENT_64 = 0x19"

definition mach_header_bytes :: "bool \<Rightarrow> u32" where "mach_header_bytes w64 = (if w64 then 32 else 28)"
definition segment_bytes :: "bool \<Rightarrow> u32" where "segment_bytes w64 = (if w64 then 72 else 56)"
definition section_bytes :: "bool \<Rightarrow> u32" where "section_bytes w64 = (if w64 then 80 else 68)"

definition MACH_GET_NCMDS :: "byte list \<Rightarrow> nat \<Rightarrow> u32 option" where "MACH_GET_NCMDS m p = le32 m (p + 16)"
definition MACH_GET_MAGIC :: "byte list \<Rightarrow> nat \<Rightarrow> u32 option" where "MACH_GET_MAGIC m p = le32 m p"

definition sect_addr :: "bool \<Rightarrow> byte list \<Rightarrow> nat \<Rightarrow> u64 option" where
  "sect_addr w64 m q = (if w64 then le64 m (q + 32) else map_option ucast (le32 m (q + 32)))"

definition sect_size :: "bool \<Rightarrow> byte list \<Rightarrow> nat \<Rightarrow> u64 option" where
  "sect_size w64 m q = (if w64 then le64 m (q + 40) else map_option ucast (le32 m (q + 36)))"

text \<open>The sections of a segment. The index is a \<open>UINT32\<close> and wraps for a command of nearly that size.\<close>

partial_function (option) section_loop ::
  "bool \<Rightarrow> byte list \<Rightarrow> u64 \<Rightarrow> byte list \<Rightarrow> byte list \<Rightarrow> nat \<Rightarrow> u32 \<Rightarrow> u32 \<times> u32 \<Rightarrow> (u32 \<times> u32) option"
where
  "section_loop w64 m reloc seg sect p idx out =
     do {
       cmdsize \<leftarrow> le32 m (p + 4);
       if idx < cmdsize
       then do {
         a \<leftarrow> ascii_eq m (p + unat idx) sect;
         b \<leftarrow> (if a then ascii_eq m (p + unat idx + 16) seg else Some False);
         if b
         then do {
           sz \<leftarrow> sect_size w64 m (p + unat idx);
           if sz > 0
           then do {
             ad \<leftarrow> sect_addr w64 m (p + unat idx);
             Some (ucast (if ad \<noteq> 0 then ad + reloc else 0), ucast sz) }
           else Some out }
         else section_loop w64 m reloc seg sect p (idx + section_bytes w64) out }
       else Some out }"

text \<open>One load command.\<close>

definition section_cmd ::
  "byte list \<Rightarrow> u64 \<Rightarrow> byte list \<Rightarrow> byte list \<Rightarrow> nat \<Rightarrow> u32 \<times> u32 \<Rightarrow> (u32 \<times> u32) option"
where
  "section_cmd m reloc seg sect p out =
     do {
       cmd \<leftarrow> le32 m p;
       if cmd = LC_SEGMENT_64 \<or> cmd = LC_SEGMENT
       then do {
         eq \<leftarrow> ascii_eq m (p + 8) seg;
         if eq then section_loop (cmd = LC_SEGMENT_64) m reloc seg sect p (segment_bytes (cmd = LC_SEGMENT_64)) out
         else Some out }
       else Some out }"

primrec section_cmds ::
  "byte list \<Rightarrow> u64 \<Rightarrow> byte list \<Rightarrow> byte list \<Rightarrow> nat \<Rightarrow> nat \<Rightarrow> u32 \<Rightarrow> u32 \<times> u32 \<Rightarrow> (u32 \<times> u32) option"
where
  "section_cmds m reloc seg sect base 0 idx out = Some out"
| "section_cmds m reloc seg sect base (Suc n) idx out =
     do {
       cmdsize \<leftarrow> le32 m (base + unat idx + 4);
       out1 \<leftarrow> section_cmd m reloc seg sect (base + unat idx) out;
       section_cmds m reloc seg sect base n (idx + cmdsize) out1 }"

text \<open>\<open>out\<close> is what the caller's variables hold; it stays when there is no such section.\<close>

definition GetSection :: "patcher \<Rightarrow> byte list \<Rightarrow> byte list \<Rightarrow> u32 \<times> u32 \<Rightarrow> (u32 \<times> u32) option" where
  "GetSection s seg sect out =
     do {
       base \<leftarrow> KernelData s;
       n \<leftarrow> MACH_GET_NCMDS (kp_mem s) base;
       section_cmds (kp_mem s) (KernelRelocBase s) seg sect base (unat n) (mach_header_bytes (is64BitKernel s)) out }"

record symtab =
  linkeditaddr :: u32
  linkeditfileoff :: u32
  symoff :: u32
  nsyms :: u32
  stroff :: u32

definition symtab_cmd :: "byte list \<Rightarrow> nat \<Rightarrow> symtab \<Rightarrow> symtab option" where
  "symtab_cmd m p t =
     do {
       cmd \<leftarrow> le32 m p;
       if cmd = LC_SEGMENT_64
       then do {
         nsects \<leftarrow> le32 m (p + 64);
         eq \<leftarrow> (if nsects = 0 then ascii_eq m (p + 8) (lit ''__LINKEDIT'') else Some False);
         if eq
         then do {
           vmaddr \<leftarrow> le64 m (p + 24);
           fileoff \<leftarrow> le64 m (p + 40);
           Some (t\<lparr>linkeditaddr := ucast vmaddr, linkeditfileoff := ucast fileoff\<rparr>) }
         else Some t }
       else if cmd = LC_SYMTAB
       then do {
         so \<leftarrow> le32 m (p + 8);
         n \<leftarrow> le32 m (p + 12);
         st \<leftarrow> le32 m (p + 16);
         Some (t\<lparr>symoff := so, nsyms := n, stroff := st\<rparr>) }
       else Some t }"

primrec symtab_cmds :: "byte list \<Rightarrow> nat \<Rightarrow> nat \<Rightarrow> u32 \<Rightarrow> symtab \<Rightarrow> symtab option" where
  "symtab_cmds m base 0 idx t = Some t"
| "symtab_cmds m base (Suc n) idx t =
     do {
       cmdsize \<leftarrow> le32 m (base + unat idx + 4);
       t1 \<leftarrow> symtab_cmd m (base + unat idx) t;
       symtab_cmds m base n (idx + cmdsize) t1 }"

text \<open>The entries of the symbol table have 16 bytes.\<close>

primrec find_symbol :: "byte list \<Rightarrow> byte list \<Rightarrow> nat \<Rightarrow> nat \<Rightarrow> nat \<Rightarrow> u32 option" where
  "find_symbol m name strbin 0 symbin = Some 0"
| "find_symbol m name strbin (Suc n) symbin =
     do {
       strx \<leftarrow> le32 m symbin;
       eq \<leftarrow> ascii_eq m (strbin + unat strx) name;
       if eq then map_option ucast (le64 m (symbin + 8)) else find_symbol m name strbin n (symbin + 16) }"

definition GetFunction :: "patcher \<Rightarrow> byte list \<Rightarrow> u32 option" where
  "GetFunction s name =
     do {
       base \<leftarrow> KernelData s;
       n \<leftarrow> MACH_GET_NCMDS (kp_mem s) base;
       t \<leftarrow> symtab_cmds (kp_mem s) base (unat n) (mach_header_bytes (is64BitKernel s))
              \<lparr>linkeditaddr = 0, linkeditfileoff = 0, symoff = 0, nsyms = 0, stroff = 0\<rparr>;
       if linkeditaddr t \<noteq> 0 \<and> symoff t \<noteq> 0
       then find_symbol (kp_mem s) name (unat (linkeditaddr t + (stroff t - linkeditfileoff t))) (unat (nsyms t))
              (unat (linkeditaddr t + (symoff t - linkeditfileoff t)))
       else Some 0 }"

section \<open>The version\<close>

text \<open>The place of the next colon.\<close>

function find_colon :: "byte list \<Rightarrow> nat \<Rightarrow> nat option" where
  "find_colon m i = do { c \<leftarrow> rd m i; if c = of_char (CHR '':'') then Some i else find_colon m (i + 1) }"
  by pat_completeness auto
termination
  by (relation "measure (\<lambda>(m, i). length m - i)") (auto simp: rd_eq_Some)

declare find_colon.simps [simp del]

text \<open>\<open>pool\<close> tells that the pool has room for the copy.\<close>

function version_loop :: "bool \<Rightarrow> byte list \<Rightarrow> nat \<Rightarrow> nat \<Rightarrow> byte list option option" where
  "version_loop pool m i e =
     (if i < e then do {
        here \<leftarrow> ascii_prefix m i (lit ''Darwin Kernel Version'');
        if here
        then do {
          i2 \<leftarrow> find_colon m (i + 22);
          if pool then map_option Some (rd_range m (i + 22) (i2 - (i + 22))) else None }
        else version_loop pool m (i + 1) e }
      else Some None)"
  by pat_completeness auto
termination
  by (relation "measure (\<lambda>(pool, m, i, e). e - i)") auto

declare version_loop.simps [simp del]

text \<open>\<open>junk\<close> is what the variables \<open>addr\<close> and \<open>size\<close> hold before they are set.\<close>

definition GetKernelVersion :: "bool \<Rightarrow> u32 \<times> u32 \<Rightarrow> patcher \<Rightarrow> byte list option option" where
  "GetKernelVersion pool junk s =
     do {
       (a, n) \<leftarrow> GetSection s (lit ''__TEXT'') (lit ''__const'') junk;
       v \<leftarrow> version_loop pool (kp_mem s) (unat a) (unat (a + n));
       if v \<noteq> None then Some v
       else do {
         (a, n) \<leftarrow> GetSection s (lit ''__TEXT'') (lit ''__cstring'') (a, n);
         version_loop pool (kp_mem s) (unat a) (unat (a + n)) } }"

section \<open>The boot arguments\<close>

text \<open>A conjunction of the C code: what comes after a false one is not looked at.\<close>

fun all_true :: "bool option list \<Rightarrow> bool option" where
  "all_true [] = Some True"
| "all_true (x # xs) = do { b \<leftarrow> x; if b then all_true xs else Some False }"

definition is16 :: "byte list \<Rightarrow> nat \<Rightarrow> u16 set \<Rightarrow> bool option" where
  "is16 m p vs = map_option (\<lambda>v. v \<in> vs) (le16 m p)"

definition is32 :: "byte list \<Rightarrow> nat \<Rightarrow> u32 \<Rightarrow> bool option" where
  "is32 m p v = map_option (\<lambda>x. x = v) (le32 m p)"

definition is8 :: "byte list \<Rightarrow> nat \<Rightarrow> byte \<Rightarrow> bool option" where
  "is8 m p v = map_option (\<lambda>x. x = v) (rd m p)"

definition is_bootArgs2 :: "byte list \<Rightarrow> nat \<Rightarrow> bool option" where
  "is_bootArgs2 m p =
     all_true [is16 m (p + 2) {2}, is16 m p {0}, is8 m (p + 4) 64, is32 m (p + 1080) 0, is32 m (p + 1084) 0, is32 m (p + 1104) 0]"

definition is_bootArgs1 :: "byte list \<Rightarrow> nat \<Rightarrow> bool option" where
  "is_bootArgs1 m p =
     all_true [is16 m (p + 2) {1}, is16 m p {6, 5, 4}, is8 m (p + 1096) 64, is32 m (p + 1076) 0, is32 m (p + 1080) 0,
       is32 m (p + 1092) 0]"

text \<open>Page by page, for as long as there is memory.\<close>

function find_args :: "nat \<Rightarrow> patcher \<Rightarrow> patcher option" where
  "find_args p s =
     do {
       two \<leftarrow> is_bootArgs2 (kp_mem s) p;
       if two
       then do {
         root \<leftarrow> le32 (kp_mem s) (p + 1072);
         slide \<leftarrow> le32 (kp_mem s) (p + 1108);
         Some (s\<lparr>bootArgs2 := Some p, bootArgs1 := None, dtRoot := root, KernelSlide := slide\<rparr>) }
       else do {
         one \<leftarrow> is_bootArgs1 (kp_mem s) p;
         if one
         then do {
           root \<leftarrow> le32 (kp_mem s) (p + 1068);
           Some (s\<lparr>bootArgs1 := Some p, bootArgs2 := None, dtRoot := root\<rparr>) }
         else find_args (p + 0x1000) s } }"
  by pat_completeness auto
termination
  by (relation "measure (\<lambda>(p, s). length (kp_mem s) - p)") (auto simp: is_bootArgs2_def is16_def le16_def bind_eq_Some_conv rd_range_eq_Some)

declare find_args.simps [simp del]

definition FindBootArgs :: "patcher \<Rightarrow> patcher option" where
  "FindBootArgs s = find_args 0x200000 s"

section \<open>Preparing the patches\<close>

text \<open>\<open>var\<close> is the value of the variable that the driver OsxAptioFixDrv sets, if there is one; a longer one is not read.\<close>

definition SetKernelRelocBase :: "byte list option \<Rightarrow> patcher \<Rightarrow> patcher" where
  "SetKernelRelocBase var s =
     s\<lparr>KernelRelocBase := (case var of Some v \<Rightarrow> if length v \<le> 8 then of_nat (le_value v) else 0 | None \<Rightarrow> 0)\<rparr>"

definition MH_MAGIC :: u32 where "MH_MAGIC = 0xfeedface"
definition MH_CIGAM :: u32 where "MH_CIGAM = 0xcefaedfe"
definition MH_MAGIC_64 :: u32 where "MH_MAGIC_64 = 0xfeedfacf"
definition MH_CIGAM_64 :: u32 where "MH_CIGAM_64 = 0xcffaedfe"

definition kernel_address :: "patcher \<Rightarrow> nat" where
  "kernel_address s = unat (ucast (KernelSlide s) + KernelRelocBase s + 0x00200000)"

definition KernelAndKextPatcherInit :: "byte list option \<Rightarrow> bool \<Rightarrow> u32 \<times> u32 \<Rightarrow> patcher \<Rightarrow> patcher option" where
  "KernelAndKextPatcherInit var pool junk s =
     (if PatcherInited s then Some s
      else do {
        s \<leftarrow> FindBootArgs (SetKernelRelocBase var s);
        magic \<leftarrow> MACH_GET_MAGIC (kp_mem s) (kernel_address s);
        if magic \<notin> {MH_MAGIC, MH_CIGAM, MH_MAGIC_64, MH_CIGAM_64} then Some (s\<lparr>KernelData := None\<rparr>)
        else do {
          let s = s\<lparr>KernelData := Some (kernel_address s), is64BitKernel := (magic \<in> {MH_MAGIC_64, MH_CIGAM_64})\<rparr>;
          (a, n) \<leftarrow> GetSection s (lit ''__PRELINK_TEXT'') (lit ''__text'') (PrelinkTextAddr s, PrelinkTextSize s);
          (b, k) \<leftarrow> GetSection s (lit ''__PRELINK_INFO'') (lit ''__info'') (PrelinkInfoAddr s, PrelinkInfoSize s);
          let s = s\<lparr>PrelinkTextAddr := a, PrelinkTextSize := n, PrelinkInfoAddr := b, PrelinkInfoSize := k,
                    isKernelcache := (n > 0 \<and> k > 0)\<rparr>;
          v \<leftarrow> GetKernelVersion pool junk s;
          Some (s\<lparr>KernVersion := v, PatcherInited := True\<rparr>) } })"

end
