(* ===== verification/PatchTables.thy ===== *)
theory PatchTables
  imports Prelude
begin

text \<open>
  The patterns and replacements that are written out in \<^verbatim>\<open>BdsDxe/macosx/kernel_patcher.c\<close> and the two tables of code of
  \<^verbatim>\<open>sse3_patcher.h\<close> and \<^verbatim>\<open>sse3_5_patcher.h\<close>, under the names of the source.
\<close>

definition KernelPatchPmSrc :: "byte list" where
  "KernelPatchPmSrc = [
    0x55, 0x48, 0x89, 0xe5, 0x41, 0x89, 0xd0, 0x85, 0xf6, 0x74, 0x6c, 0x48, 0x83, 0xc7, 0x28, 0x90, 0x8b, 0x05, 0x5e, 0x30,
    0x5e, 0x00, 0x85, 0x47, 0xdc, 0x74, 0x54, 0x8b, 0x4f, 0xd8, 0x45, 0x85, 0xc0, 0x74, 0x08, 0x44, 0x39, 0xc1, 0x44, 0x89,
    0xc1, 0x75, 0x44, 0x0f, 0x32, 0x89, 0xc0, 0x48, 0xc1, 0xe2, 0x20, 0x48, 0x09, 0xc2, 0x48, 0x89, 0x57, 0xf8, 0x48, 0x8b,
    0x47, 0xe8, 0x48, 0x85, 0xc0, 0x74, 0x06, 0x48, 0xf7, 0xd0, 0x48, 0x21, 0xc2, 0x48, 0x0b, 0x57, 0xf0, 0x49, 0x89, 0xd1,
    0x49, 0xc1, 0xe9, 0x20, 0x89, 0xd0, 0x8b, 0x4f, 0xd8, 0x4c, 0x89, 0xca, 0x0f, 0x30, 0x8b, 0x4f, 0xd8, 0x0f, 0x32, 0x89,
    0xc0, 0x48, 0xc1, 0xe2, 0x20, 0x48, 0x09, 0xc2, 0x48, 0x89, 0x17, 0x48, 0x83, 0xc7, 0x30, 0xff, 0xce, 0x75, 0x99, 0x5d,
    0xc3, 0x90, 0x90, 0x90, 0x90, 0x90, 0x90, 0x90]"

definition KernelPatchPmRepl :: "byte list" where
  "KernelPatchPmRepl = [
    0x55, 0x48, 0x89, 0xe5, 0x41, 0x89, 0xd0, 0x85, 0xf6, 0x74, 0x73, 0x48, 0x83, 0xc7, 0x28, 0x90, 0x8b, 0x05, 0x5e, 0x30,
    0x5e, 0x00, 0x85, 0x47, 0xdc, 0x74, 0x5b, 0x8b, 0x4f, 0xd8, 0x45, 0x85, 0xc0, 0x74, 0x08, 0x44, 0x39, 0xc1, 0x44, 0x89,
    0xc1, 0x75, 0x4b, 0x0f, 0x32, 0x89, 0xc0, 0x48, 0xc1, 0xe2, 0x20, 0x48, 0x09, 0xc2, 0x48, 0x89, 0x57, 0xf8, 0x48, 0x8b,
    0x47, 0xe8, 0x48, 0x85, 0xc0, 0x74, 0x06, 0x48, 0xf7, 0xd0, 0x48, 0x21, 0xc2, 0x48, 0x0b, 0x57, 0xf0, 0x49, 0x89, 0xd1,
    0x49, 0xc1, 0xe9, 0x20, 0x89, 0xd0, 0x8b, 0x4f, 0xd8, 0x4c, 0x89, 0xca, 0x66, 0x81, 0xf9, 0xe2, 0x00, 0x74, 0x02, 0x0f,
    0x30, 0x8b, 0x4f, 0xd8, 0x0f, 0x32, 0x89, 0xc0, 0x48, 0xc1, 0xe2, 0x20, 0x48, 0x09, 0xc2, 0x48, 0x89, 0x17, 0x48, 0x83,
    0xc7, 0x30, 0xff, 0xce, 0x75, 0x92, 0x5d, 0xc3]"

definition KernelPatchPmSrc2 :: "byte list" where
  "KernelPatchPmSrc2 = [
    0x55, 0x48, 0x89, 0xe5, 0x41, 0x89, 0xd0, 0x85, 0xf6, 0x74, 0x69, 0x48, 0x83, 0xc7, 0x28, 0x90, 0x8b, 0x05, 0xfe, 0xce,
    0x5f, 0x00, 0x85, 0x47, 0xdc, 0x74, 0x51, 0x8b, 0x4f, 0xd8, 0x45, 0x85, 0xc0, 0x74, 0x05, 0x44, 0x39, 0xc1, 0x75, 0x44,
    0x0f, 0x32, 0x89, 0xc0, 0x48, 0xc1, 0xe2, 0x20, 0x48, 0x09, 0xc2, 0x48, 0x89, 0x57, 0xf8, 0x48, 0x8b, 0x47, 0xe8, 0x48,
    0x85, 0xc0, 0x74, 0x06, 0x48, 0xf7, 0xd0, 0x48, 0x21, 0xc2, 0x48, 0x0b, 0x57, 0xf0, 0x49, 0x89, 0xd1, 0x49, 0xc1, 0xe9,
    0x20, 0x89, 0xd0, 0x8b, 0x4f, 0xd8, 0x4c, 0x89, 0xca, 0x0f, 0x30, 0x8b, 0x4f, 0xd8, 0x0f, 0x32, 0x89, 0xc0, 0x48, 0xc1,
    0xe2, 0x20, 0x48, 0x09, 0xc2, 0x48, 0x89, 0x17, 0x48, 0x83, 0xc7, 0x30, 0xff, 0xce, 0x75, 0x9c, 0x5d, 0xc3, 0x90, 0x90,
    0x90, 0x90, 0x90, 0x90, 0x90, 0x90, 0x90, 0x90]"

definition KernelPatchPmRepl2 :: "byte list" where
  "KernelPatchPmRepl2 = [
    0x55, 0x48, 0x89, 0xe5, 0x41, 0x89, 0xd0, 0x85, 0xf6, 0x74, 0x70, 0x48, 0x83, 0xc7, 0x28, 0x90, 0x8b, 0x05, 0xfe, 0xce,
    0x5f, 0x00, 0x85, 0x47, 0xdc, 0x74, 0x58, 0x8b, 0x4f, 0xd8, 0x45, 0x85, 0xc0, 0x74, 0x05, 0x44, 0x39, 0xc1, 0x75, 0x4b,
    0x0f, 0x32, 0x89, 0xc0, 0x48, 0xc1, 0xe2, 0x20, 0x48, 0x09, 0xc2, 0x48, 0x89, 0x57, 0xf8, 0x48, 0x8b, 0x47, 0xe8, 0x48,
    0x85, 0xc0, 0x74, 0x06, 0x48, 0xf7, 0xd0, 0x48, 0x21, 0xc2, 0x48, 0x0b, 0x57, 0xf0, 0x49, 0x89, 0xd1, 0x49, 0xc1, 0xe9,
    0x20, 0x89, 0xd0, 0x8b, 0x4f, 0xd8, 0x4c, 0x89, 0xca, 0x66, 0x81, 0xf9, 0xe2, 0x00, 0x74, 0x02, 0x0f, 0x30, 0x8b, 0x4f,
    0xd8, 0x0f, 0x32, 0x89, 0xc0, 0x48, 0xc1, 0xe2, 0x20, 0x48, 0x09, 0xc2, 0x48, 0x89, 0x17, 0x48, 0x83, 0xc7, 0x30, 0xff,
    0xce, 0x75, 0x95, 0x5d, 0xc3, 0x90, 0x90, 0x90]"

definition KernelPatchPmSrc1010 :: "byte list" where
  "KernelPatchPmSrc1010 = [
    0x55, 0x48, 0x89, 0xe5, 0x41, 0x57, 0x41, 0x56, 0x41, 0x55, 0x41, 0x54, 0x53, 0x50, 0x41, 0x89, 0xd6, 0x41, 0x89, 0xf7,
    0x48, 0x89, 0xfb, 0x45, 0x85, 0xff, 0x0f, 0x84, 0x9b, 0x00, 0x00, 0x00, 0x48, 0x83, 0xc3, 0x28, 0x4c, 0x8d, 0x25, 0x89,
    0xae, 0x53, 0x00, 0x4c, 0x8d, 0x2d, 0x9c, 0xae, 0x53, 0x00, 0x66, 0x66, 0x66, 0x66, 0x66, 0x2e, 0x0f, 0x1f, 0x84, 0x00,
    0x00, 0x00, 0x00, 0x00, 0x8b, 0x05, 0x96, 0x75, 0x69, 0x00, 0x85, 0x43, 0xdc, 0x74, 0x67, 0x45, 0x85, 0xf6, 0x74, 0x06,
    0x44, 0x39, 0x73, 0xd8, 0x75, 0x5c, 0x83, 0x3d, 0x13, 0xed, 0x5f, 0x00, 0x00, 0x74, 0x10, 0x8b, 0x53, 0xd8, 0x31, 0xc0,
    0x4c, 0x89, 0xe7, 0x4c, 0x89, 0xee, 0xe8, 0xa1, 0xb0, 0x4d, 0x00, 0x8b, 0x4b, 0xd8, 0x0f, 0x32, 0x89, 0xd1, 0x48, 0xc1,
    0xe1, 0x20, 0x89, 0xc2, 0x48, 0x09, 0xca, 0x48, 0x89, 0x53, 0xf8, 0x48, 0x8b, 0x43, 0xe8, 0x48, 0x85, 0xc0, 0x74, 0x06,
    0x48, 0xf7, 0xd0, 0x48, 0x21, 0xc2, 0x48, 0x0b, 0x53, 0xf0, 0x8b, 0x4b, 0xd8, 0x89, 0xd0, 0x48, 0xc1, 0xea, 0x20, 0x0f,
    0x30, 0x8b, 0x4b, 0xd8, 0x0f, 0x32, 0x48, 0xc1, 0xe2, 0x20, 0x89, 0xc0, 0x48, 0x09, 0xd0, 0x48, 0x89, 0x03, 0x48, 0x83,
    0xc3, 0x30, 0x41, 0xff, 0xcf, 0x75, 0x85, 0x48, 0x83, 0xc4, 0x08, 0x5b, 0x41, 0x5c, 0x41, 0x5d, 0x41, 0x5e, 0x41, 0x5f,
    0x5d, 0xc3, 0x66, 0x0f, 0x1f, 0x44, 0x00, 0x00]"

definition KernelPatchPmRepl1010 :: "byte list" where
  "KernelPatchPmRepl1010 = [
    0x55, 0x48, 0x89, 0xe5, 0x41, 0x57, 0x41, 0x56, 0x41, 0x55, 0x41, 0x54, 0x53, 0x50, 0x41, 0x89, 0xd6, 0x41, 0x89, 0xf7,
    0x48, 0x89, 0xfb, 0x45, 0x85, 0xff, 0x0f, 0x84, 0x9f, 0x00, 0x00, 0x00, 0x48, 0x83, 0xc3, 0x28, 0x4c, 0x8d, 0x25, 0x89,
    0xae, 0x53, 0x00, 0x4c, 0x8d, 0x2d, 0x9c, 0xae, 0x53, 0x00, 0x66, 0x66, 0x66, 0x66, 0x66, 0x2e, 0x0f, 0x1f, 0x84, 0x00,
    0x00, 0x00, 0x00, 0x00, 0x8b, 0x05, 0x96, 0x75, 0x69, 0x00, 0x85, 0x43, 0xdc, 0x74, 0x6b, 0x45, 0x85, 0xf6, 0x74, 0x06,
    0x44, 0x39, 0x73, 0xd8, 0x74, 0x60, 0x83, 0x3d, 0x13, 0xed, 0x5f, 0x00, 0x00, 0x74, 0x10, 0x8b, 0x53, 0xd8, 0x31, 0xc0,
    0x4c, 0x89, 0xe7, 0x4c, 0x89, 0xee, 0xe8, 0xa1, 0xb0, 0x4d, 0x00, 0x8b, 0x4b, 0xd8, 0x0f, 0x32, 0x89, 0xd1, 0x48, 0xc1,
    0xe1, 0x20, 0x89, 0xc2, 0x48, 0x09, 0xca, 0x48, 0x89, 0x53, 0xf8, 0x48, 0x8b, 0x43, 0xe8, 0x48, 0x85, 0xc0, 0x74, 0x06,
    0x48, 0xf7, 0xd0, 0x48, 0x21, 0xc2, 0x48, 0x0b, 0x53, 0xf0, 0x8b, 0x4b, 0xd8, 0x89, 0xd0, 0x48, 0xc1, 0xea, 0x20, 0x85,
    0xc9, 0x74, 0x02, 0x0f, 0x30, 0x8b, 0x4b, 0xd8, 0x0f, 0x32, 0x48, 0xc1, 0xe2, 0x20, 0x89, 0xc0, 0x48, 0x09, 0xd0, 0x48,
    0x89, 0x03, 0x48, 0x83, 0xc3, 0x30, 0x41, 0xff, 0xcf, 0x75, 0x81, 0x48, 0x83, 0xc4, 0x08, 0x5b, 0x41, 0x5c, 0x41, 0x5d,
    0x41, 0x5e, 0x41, 0x5f, 0x5d, 0xc3, 0x90, 0x90]"

definition KBESLSearch_X64 :: "byte list" where "KBESLSearch_X64 = [0xdf, 0xe8, 0x50, 0xfb, 0xff, 0xff, 0xeb, 0x08, 0x48, 0x89, 0xdf]"
definition KBESLReplace_X64 :: "byte list" where "KBESLReplace_X64 = [0xdf, 0xe8, 0x50, 0xfb, 0xff, 0xff, 0x90, 0x90, 0x48, 0x89, 0xdf]"
definition KBESLSearch_1080_X64 :: "byte list" where "KBESLSearch_1080_X64 = [0xdf, 0xe8, 0x5a, 0xfb, 0xff, 0xff, 0xeb, 0x08, 0x48, 0x89, 0xdf]"
definition KBESLReplace_1080_X64 :: "byte list" where "KBESLReplace_1080_X64 = [0xdf, 0xe8, 0x5a, 0xfb, 0xff, 0xff, 0x90, 0x90, 0x48, 0x89, 0xdf]"
definition KBESLSearch_i386 :: "byte list" where "KBESLSearch_i386 = [0xe8, 0xed, 0xf9, 0xff, 0xff, 0xeb, 0x08, 0x89, 0x1c]"
definition KBESLReplace_i386 :: "byte list" where "KBESLReplace_i386 = [0xe8, 0xed, 0xf9, 0xff, 0xff, 0x90, 0x90, 0x89, 0x1c]"
definition KBELionSearch_X64 :: "byte list" where "KBELionSearch_X64 = [0xe8, 0x0c, 0xfd, 0xff, 0xff, 0xeb, 0x08, 0x48, 0x89, 0xdf]"
definition KBELionReplace_X64 :: "byte list" where "KBELionReplace_X64 = [0xe8, 0x0c, 0xfd, 0xff, 0xff, 0x90, 0x90, 0x48, 0x89, 0xdf]"
definition KBELionSearch_i386 :: "byte list" where "KBELionSearch_i386 = [0xe8, 0xaa, 0xfb, 0xff, 0xff, 0xeb, 0x08, 0x89, 0x34, 0x24]"
definition KBELionReplace_i386 :: "byte list" where "KBELionReplace_i386 = [0xe8, 0xaa, 0xfb, 0xff, 0xff, 0x90, 0x90, 0x89, 0x34, 0x24]"
definition KBEMLSearch :: "byte list" where "KBEMLSearch = [0xc6, 0xe8, 0x30, 0x00, 0x00, 0x00, 0xeb, 0x08, 0x48, 0x89, 0xdf]"
definition KBEMLReplace :: "byte list" where "KBEMLReplace = [0xc6, 0xe8, 0x30, 0x00, 0x00, 0x00, 0x90, 0x90, 0x48, 0x89, 0xdf]"
definition KBEYSearch :: "byte list" where "KBEYSearch = [0xc6, 0xe8, 0x25, 0x00, 0x00, 0x00, 0xeb, 0x05, 0xe8]"
definition KBEYReplace :: "byte list" where "KBEYReplace = [0xc6, 0xe8, 0x25, 0x00, 0x00, 0x00, 0x90, 0x90, 0xe8]"
definition KBEEntitlementSearch :: "byte list" where "KBEEntitlementSearch = [0xc3, 0x48, 0x85, 0xdb, 0x74, 0x70, 0x48, 0x8b, 0x03, 0x48, 0x89, 0xdf, 0xff, 0x50, 0x28, 0x48]"
definition KBEEntitlementReplace :: "byte list" where "KBEEntitlementReplace = [0xc3, 0x48, 0x85, 0xdb, 0xeb, 0x12, 0x48, 0x8b, 0x03, 0x48, 0x89, 0xdf, 0xff, 0x50, 0x28, 0x48]"
definition KBESDP2EntitlementSearch :: "byte list" where "KBESDP2EntitlementSearch = [0xc3, 0x48, 0x85, 0xdb, 0x74, 0x71, 0x48, 0x8b, 0x03, 0x48, 0x89, 0xdf, 0xff, 0x50, 0x28, 0x48]"
definition KBESDP2EntitlementReplace :: "byte list" where "KBESDP2EntitlementReplace = [0xc3, 0x48, 0x85, 0xdb, 0xeb, 0x12, 0x48, 0x8b, 0x03, 0x48, 0x89, 0xdf, 0xff, 0x50, 0x28, 0x48]"
definition KBEHSEntitlementSearch :: "byte list" where "KBEHSEntitlementSearch = [0xc3, 0x48, 0x85, 0xdb, 0x74, 0x69, 0x48, 0x8b, 0x03, 0x48, 0x89, 0xdf, 0xff, 0x50, 0x28, 0x48]"
definition KBEHSEntitlementReplace :: "byte list" where "KBEHSEntitlementReplace = [0xc3, 0x48, 0x85, 0xdb, 0xeb, 0x12, 0x48, 0x8b, 0x03, 0x48, 0x89, 0xdf, 0xff, 0x50, 0x28, 0x48]"
definition KBEECDebugSearch :: "byte list" where "KBEECDebugSearch = [0xe8, 0x44, 0x00, 0x00, 0x00, 0xe9, 0x09, 0x00, 0x00, 0x00]"
definition KBEECDebugReplace :: "byte list" where "KBEECDebugReplace = [0xe8, 0x44, 0x00, 0x00, 0x00, 0x90, 0x90, 0x90, 0x90, 0x90]"
definition KBEECDebugEntitlementSearch :: "byte list" where "KBEECDebugEntitlementSearch = [0x39, 0xc1, 0x0f, 0x85, 0x3c, 0x00, 0x00, 0x00, 0x48, 0x8b]"
definition KBEECDebugEntitlementReplace :: "byte list" where "KBEECDebugEntitlementReplace = [0x39, 0xc1, 0xe9, 0x3d, 0x00, 0x00, 0x00, 0x90, 0x48, 0x8b]"
definition KSearchCpuId_1 :: "byte list" where "KSearchCpuId_1 = [0xb8, 0x01, 0x00, 0x00, 0x00, 0x31, 0xdb, 0x89, 0xd9, 0x89, 0xda, 0x0f, 0xa2]"
definition KSearchCpuId_2 :: "byte list" where "KSearchCpuId_2 = [0xb8, 0x01, 0x00, 0x00, 0x00, 0x31, 0xdb, 0x31, 0xc9, 0x31, 0xd2, 0x0f, 0xa2]"
definition KReplaceCpuId :: "byte list" where "KReplaceCpuId = [0xb8, 0x01, 0x00, 0x00, 0x00, 0x0f, 0xa2, 0xb8, 0x00, 0x00, 0x00, 0x00, 0x90]"
definition sse3_patcher :: "byte list" where
  "sse3_patcher = [
    0x55, 0x48, 0x89, 0xe5, 0x48, 0x89, 0xf0, 0x48, 0x89, 0xfe, 0x48, 0x89, 0xc7, 0x48, 0x29, 0xf0, 0x48, 0x39, 0xd0, 0x72,
    0x52, 0x48, 0x83, 0xfa, 0x50, 0x76, 0x1d, 0xeb, 0x4f, 0x0f, 0x1f, 0x00, 0x55, 0x48, 0x89, 0xe5, 0x49, 0x89, 0xfb, 0x48,
    0x89, 0xf8, 0x48, 0x29, 0xf0, 0x48, 0x39, 0xd0, 0x72, 0x35, 0x48, 0x83, 0xfa, 0x50, 0x77, 0x34, 0x89, 0xd1, 0xc1, 0xe9,
    0x02, 0x74, 0x10, 0x8b, 0x06, 0x48, 0x83, 0xc6, 0x04, 0x89, 0x07, 0x48, 0x83, 0xc7, 0x04, 0xff, 0xc9, 0x75, 0xf0, 0x83,
    0xe2, 0x03, 0x74, 0x0e, 0x8a, 0x06, 0x48, 0xff, 0xc6, 0x88, 0x07, 0x48, 0xff, 0xc7, 0xff, 0xca, 0x75, 0xf2, 0x4c, 0x89,
    0xd8, 0x5d, 0xc3, 0xe9, 0xad, 0x04, 0x00, 0x00, 0x48, 0x81, 0xfa, 0x00, 0xd0, 0x07, 0x00, 0x73, 0x77, 0x89, 0xf9, 0xf7,
    0xd9, 0x83, 0xe1, 0x0f, 0x74, 0x04, 0x29, 0xca, 0xf3, 0xa4, 0x48, 0x89, 0xd1, 0x89, 0xf0, 0x83, 0xe2, 0x3f, 0x83, 0xe0,
    0x0f, 0x48, 0x83, 0xe1, 0xc0, 0x4c, 0x8d, 0x05, 0x14, 0x00, 0x00, 0x00, 0x48, 0x01, 0xce, 0x48, 0x01, 0xcf, 0x41, 0x8b,
    0x04, 0x80, 0x48, 0xf7, 0xd9, 0x4c, 0x01, 0xc0, 0xff, 0xe0, 0x66, 0x90, 0x66, 0x00, 0x00, 0x00, 0xad, 0x00, 0x00, 0x00,
    0xed, 0x00, 0x00, 0x00, 0x2d, 0x01, 0x00, 0x00, 0x6d, 0x01, 0x00, 0x00, 0xad, 0x01, 0x00, 0x00, 0xed, 0x01, 0x00, 0x00,
    0x2d, 0x02, 0x00, 0x00, 0x6d, 0x02, 0x00, 0x00, 0xad, 0x02, 0x00, 0x00, 0xed, 0x02, 0x00, 0x00, 0x2d, 0x03, 0x00, 0x00,
    0x6d, 0x03, 0x00, 0x00, 0xad, 0x03, 0x00, 0x00, 0xed, 0x03, 0x00, 0x00, 0x2d, 0x04, 0x00, 0x00, 0x41, 0x53, 0x48, 0xb8,
    0x00, 0x12, 0xe0, 0xff, 0xff, 0x7f, 0x00, 0x00, 0xff, 0xd0, 0x58, 0x5d, 0xc3, 0x48, 0x01, 0xce, 0x48, 0x01, 0xcf, 0xf7,
    0xd9, 0x09, 0xd1, 0xfc, 0xc1, 0xe9, 0x02, 0xf3, 0xa5, 0xe9, 0x3d, 0xff, 0xff, 0xff, 0x81, 0xf9, 0x0f, 0xc0, 0xff, 0xff,
    0x7e, 0xe3, 0xeb, 0x04, 0x0f, 0x1f, 0x40, 0x00, 0x66, 0x0f, 0x6f, 0x04, 0x0e, 0x66, 0x0f, 0x6f, 0x4c, 0x0e, 0x10, 0x66,
    0x0f, 0x6f, 0x54, 0x0e, 0x20, 0x66, 0x0f, 0x6f, 0x5c, 0x0e, 0x30, 0x66, 0x0f, 0x7f, 0x04, 0x0f, 0x66, 0x0f, 0x7f, 0x4c,
    0x0f, 0x10, 0x66, 0x0f, 0x7f, 0x54, 0x0f, 0x20, 0x66, 0x0f, 0x7f, 0x5c, 0x0f, 0x30, 0x48, 0x83, 0xc1, 0x40, 0x75, 0xcc,
    0xe9, 0xdf, 0xfe, 0xff, 0xff, 0x0f, 0x1f, 0x80, 0x00, 0x00, 0x00, 0x00, 0xf3, 0x0f, 0x6f, 0x04, 0x0e, 0xf3, 0x0f, 0x6f,
    0x4c, 0x0e, 0x10, 0xf3, 0x0f, 0x6f, 0x54, 0x0e, 0x20, 0xf3, 0x0f, 0x6f, 0x5c, 0x0e, 0x30, 0x66, 0x0f, 0x7f, 0x04, 0x0f,
    0x66, 0x0f, 0x7f, 0x4c, 0x0f, 0x10, 0x66, 0x0f, 0x7f, 0x54, 0x0f, 0x20, 0x66, 0x0f, 0x7f, 0x5c, 0x0f, 0x30, 0x48, 0x83,
    0xc1, 0x40, 0x75, 0xcc, 0xe9, 0x9f, 0xfe, 0xff, 0xff, 0x0f, 0x1f, 0x80, 0x00, 0x00, 0x00, 0x00, 0xf3, 0x0f, 0x6f, 0x04,
    0x0e, 0xf3, 0x0f, 0x6f, 0x4c, 0x0e, 0x10, 0xf3, 0x0f, 0x6f, 0x54, 0x0e, 0x20, 0xf3, 0x0f, 0x6f, 0x5c, 0x0e, 0x30, 0x66,
    0x0f, 0x7f, 0x04, 0x0f, 0x66, 0x0f, 0x7f, 0x4c, 0x0f, 0x10, 0x66, 0x0f, 0x7f, 0x54, 0x0f, 0x20, 0x66, 0x0f, 0x7f, 0x5c,
    0x0f, 0x30, 0x48, 0x83, 0xc1, 0x40, 0x75, 0xcc, 0xe9, 0x5f, 0xfe, 0xff, 0xff, 0x0f, 0x1f, 0x80, 0x00, 0x00, 0x00, 0x00,
    0xf3, 0x0f, 0x6f, 0x04, 0x0e, 0xf3, 0x0f, 0x6f, 0x4c, 0x0e, 0x10, 0xf3, 0x0f, 0x6f, 0x54, 0x0e, 0x20, 0xf3, 0x0f, 0x6f,
    0x5c, 0x0e, 0x30, 0x66, 0x0f, 0x7f, 0x04, 0x0f, 0x66, 0x0f, 0x7f, 0x4c, 0x0f, 0x10, 0x66, 0x0f, 0x7f, 0x54, 0x0f, 0x20,
    0x66, 0x0f, 0x7f, 0x5c, 0x0f, 0x30, 0x48, 0x83, 0xc1, 0x40, 0x75, 0xcc, 0xe9, 0x1f, 0xfe, 0xff, 0xff, 0x0f, 0x1f, 0x80,
    0x00, 0x00, 0x00, 0x00, 0xf3, 0x0f, 0x6f, 0x04, 0x0e, 0xf3, 0x0f, 0x6f, 0x4c, 0x0e, 0x10, 0xf3, 0x0f, 0x6f, 0x54, 0x0e,
    0x20, 0xf3, 0x0f, 0x6f, 0x5c, 0x0e, 0x30, 0x66, 0x0f, 0x7f, 0x04, 0x0f, 0x66, 0x0f, 0x7f, 0x4c, 0x0f, 0x10, 0x66, 0x0f,
    0x7f, 0x54, 0x0f, 0x20, 0x66, 0x0f, 0x7f, 0x5c, 0x0f, 0x30, 0x48, 0x83, 0xc1, 0x40, 0x75, 0xcc, 0xe9, 0xdf, 0xfd, 0xff,
    0xff, 0x0f, 0x1f, 0x80, 0x00, 0x00, 0x00, 0x00, 0xf3, 0x0f, 0x6f, 0x04, 0x0e, 0xf3, 0x0f, 0x6f, 0x4c, 0x0e, 0x10, 0xf3,
    0x0f, 0x6f, 0x54, 0x0e, 0x20, 0xf3, 0x0f, 0x6f, 0x5c, 0x0e, 0x30, 0x66, 0x0f, 0x7f, 0x04, 0x0f, 0x66, 0x0f, 0x7f, 0x4c,
    0x0f, 0x10, 0x66, 0x0f, 0x7f, 0x54, 0x0f, 0x20, 0x66, 0x0f, 0x7f, 0x5c, 0x0f, 0x30, 0x48, 0x83, 0xc1, 0x40, 0x75, 0xcc,
    0xe9, 0x9f, 0xfd, 0xff, 0xff, 0x0f, 0x1f, 0x80, 0x00, 0x00, 0x00, 0x00, 0xf3, 0x0f, 0x6f, 0x04, 0x0e, 0xf3, 0x0f, 0x6f,
    0x4c, 0x0e, 0x10, 0xf3, 0x0f, 0x6f, 0x54, 0x0e, 0x20, 0xf3, 0x0f, 0x6f, 0x5c, 0x0e, 0x30, 0x66, 0x0f, 0x7f, 0x04, 0x0f,
    0x66, 0x0f, 0x7f, 0x4c, 0x0f, 0x10, 0x66, 0x0f, 0x7f, 0x54, 0x0f, 0x20, 0x66, 0x0f, 0x7f, 0x5c, 0x0f, 0x30, 0x48, 0x83,
    0xc1, 0x40, 0x75, 0xcc, 0xe9, 0x5f, 0xfd, 0xff, 0xff, 0x0f, 0x1f, 0x80, 0x00, 0x00, 0x00, 0x00, 0xf3, 0x0f, 0x6f, 0x04,
    0x0e, 0xf3, 0x0f, 0x6f, 0x4c, 0x0e, 0x10, 0xf3, 0x0f, 0x6f, 0x54, 0x0e, 0x20, 0xf3, 0x0f, 0x6f, 0x5c, 0x0e, 0x30, 0x66,
    0x0f, 0x7f, 0x04, 0x0f, 0x66, 0x0f, 0x7f, 0x4c, 0x0f, 0x10, 0x66, 0x0f, 0x7f, 0x54, 0x0f, 0x20, 0x66, 0x0f, 0x7f, 0x5c,
    0x0f, 0x30, 0x48, 0x83, 0xc1, 0x40, 0x75, 0xcc, 0xe9, 0x1f, 0xfd, 0xff, 0xff, 0x0f, 0x1f, 0x80, 0x00, 0x00, 0x00, 0x00,
    0xf3, 0x0f, 0x6f, 0x04, 0x0e, 0xf3, 0x0f, 0x6f, 0x4c, 0x0e, 0x10, 0xf3, 0x0f, 0x6f, 0x54, 0x0e, 0x20, 0xf3, 0x0f, 0x6f,
    0x5c, 0x0e, 0x30, 0x66, 0x0f, 0x7f, 0x04, 0x0f, 0x66, 0x0f, 0x7f, 0x4c, 0x0f, 0x10, 0x66, 0x0f, 0x7f, 0x54, 0x0f, 0x20,
    0x66, 0x0f, 0x7f, 0x5c, 0x0f, 0x30, 0x48, 0x83, 0xc1, 0x40, 0x75, 0xcc, 0xe9, 0xdf, 0xfc, 0xff, 0xff, 0x0f, 0x1f, 0x80,
    0x00, 0x00, 0x00, 0x00, 0xf3, 0x0f, 0x6f, 0x04, 0x0e, 0xf3, 0x0f, 0x6f, 0x4c, 0x0e, 0x10, 0xf3, 0x0f, 0x6f, 0x54, 0x0e,
    0x20, 0xf3, 0x0f, 0x6f, 0x5c, 0x0e, 0x30, 0x66, 0x0f, 0x7f, 0x04, 0x0f, 0x66, 0x0f, 0x7f, 0x4c, 0x0f, 0x10, 0x66, 0x0f,
    0x7f, 0x54, 0x0f, 0x20, 0x66, 0x0f, 0x7f, 0x5c, 0x0f, 0x30, 0x48, 0x83, 0xc1, 0x40, 0x75, 0xcc, 0xe9, 0x9f, 0xfc, 0xff,
    0xff, 0x0f, 0x1f, 0x80, 0x00, 0x00, 0x00, 0x00, 0xf3, 0x0f, 0x6f, 0x04, 0x0e, 0xf3, 0x0f, 0x6f, 0x4c, 0x0e, 0x10, 0xf3,
    0x0f, 0x6f, 0x54, 0x0e, 0x20, 0xf3, 0x0f, 0x6f, 0x5c, 0x0e, 0x30, 0x66, 0x0f, 0x7f, 0x04, 0x0f, 0x66, 0x0f, 0x7f, 0x4c,
    0x0f, 0x10, 0x66, 0x0f, 0x7f, 0x54, 0x0f, 0x20, 0x66, 0x0f, 0x7f, 0x5c, 0x0f, 0x30, 0x48, 0x83, 0xc1, 0x40, 0x75, 0xcc,
    0xe9, 0x5f, 0xfc, 0xff, 0xff, 0x0f, 0x1f, 0x80, 0x00, 0x00, 0x00, 0x00, 0xf3, 0x0f, 0x6f, 0x04, 0x0e, 0xf3, 0x0f, 0x6f,
    0x4c, 0x0e, 0x10, 0xf3, 0x0f, 0x6f, 0x54, 0x0e, 0x20, 0xf3, 0x0f, 0x6f, 0x5c, 0x0e, 0x30, 0x66, 0x0f, 0x7f, 0x04, 0x0f,
    0x66, 0x0f, 0x7f, 0x4c, 0x0f, 0x10, 0x66, 0x0f, 0x7f, 0x54, 0x0f, 0x20, 0x66, 0x0f, 0x7f, 0x5c, 0x0f, 0x30, 0x48, 0x83,
    0xc1, 0x40, 0x75, 0xcc, 0xe9, 0x1f, 0xfc, 0xff, 0xff, 0x0f, 0x1f, 0x80, 0x00, 0x00, 0x00, 0x00, 0xf3, 0x0f, 0x6f, 0x04,
    0x0e, 0xf3, 0x0f, 0x6f, 0x4c, 0x0e, 0x10, 0xf3, 0x0f, 0x6f, 0x54, 0x0e, 0x20, 0xf3, 0x0f, 0x6f, 0x5c, 0x0e, 0x30, 0x66,
    0x0f, 0x7f, 0x04, 0x0f, 0x66, 0x0f, 0x7f, 0x4c, 0x0f, 0x10, 0x66, 0x0f, 0x7f, 0x54, 0x0f, 0x20, 0x66, 0x0f, 0x7f, 0x5c,
    0x0f, 0x30, 0x48, 0x83, 0xc1, 0x40, 0x75, 0xcc, 0xe9, 0xdf, 0xfb, 0xff, 0xff, 0x0f, 0x1f, 0x80, 0x00, 0x00, 0x00, 0x00,
    0xf3, 0x0f, 0x6f, 0x04, 0x0e, 0xf3, 0x0f, 0x6f, 0x4c, 0x0e, 0x10, 0xf3, 0x0f, 0x6f, 0x54, 0x0e, 0x20, 0xf3, 0x0f, 0x6f,
    0x5c, 0x0e, 0x30, 0x66, 0x0f, 0x7f, 0x04, 0x0f, 0x66, 0x0f, 0x7f, 0x4c, 0x0f, 0x10, 0x66, 0x0f, 0x7f, 0x54, 0x0f, 0x20,
    0x66, 0x0f, 0x7f, 0x5c, 0x0f, 0x30, 0x48, 0x83, 0xc1, 0x40, 0x75, 0xcc, 0xe9, 0x9f, 0xfb, 0xff, 0xff, 0x0f, 0x1f, 0x80,
    0x00, 0x00, 0x00, 0x00, 0xf3, 0x0f, 0x6f, 0x04, 0x0e, 0xf3, 0x0f, 0x6f, 0x4c, 0x0e, 0x10, 0xf3, 0x0f, 0x6f, 0x54, 0x0e,
    0x20, 0xf3, 0x0f, 0x6f, 0x5c, 0x0e, 0x30, 0x66, 0x0f, 0x7f, 0x04, 0x0f, 0x66, 0x0f, 0x7f, 0x4c, 0x0f, 0x10, 0x66, 0x0f,
    0x7f, 0x54, 0x0f, 0x20, 0x66, 0x0f, 0x7f, 0x5c, 0x0f, 0x30, 0x48, 0x83, 0xc1, 0x40, 0x75, 0xcc, 0xe9, 0x5f, 0xfb, 0xff,
    0xff, 0x0f, 0x1f, 0x80, 0x00, 0x00, 0x00, 0x00, 0xf3, 0x0f, 0x6f, 0x04, 0x0e, 0xf3, 0x0f, 0x6f, 0x4c, 0x0e, 0x10, 0xf3,
    0x0f, 0x6f, 0x54, 0x0e, 0x20, 0xf3, 0x0f, 0x6f, 0x5c, 0x0e, 0x30, 0x66, 0x0f, 0x7f, 0x04, 0x0f, 0x66, 0x0f, 0x7f, 0x4c,
    0x0f, 0x10, 0x66, 0x0f, 0x7f, 0x54, 0x0f, 0x20, 0x66, 0x0f, 0x7f, 0x5c, 0x0f, 0x30, 0x48, 0x83, 0xc1, 0x40, 0x75, 0xcc,
    0xe9, 0x1f, 0xfb, 0xff, 0xff, 0x48, 0x01, 0xd6, 0x48, 0x01, 0xd7, 0x48, 0x83, 0xfa, 0x50, 0x77, 0x31, 0x89, 0xd1, 0xc1,
    0xe9, 0x03, 0x74, 0x12, 0x48, 0x83, 0xee, 0x08, 0x48, 0x8b, 0x06, 0x48, 0x83, 0xef, 0x08, 0x48, 0x89, 0x07, 0xff, 0xc9,
    0x75, 0xee, 0x83, 0xe2, 0x07, 0x74, 0x0e, 0x48, 0xff, 0xce, 0x8a, 0x06, 0x48, 0xff, 0xcf, 0x88, 0x07, 0xff, 0xca, 0x75,
    0xf2, 0x4c, 0x89, 0xd8, 0x5d, 0xc3, 0x89, 0xf9, 0x83, 0xe1, 0x0f, 0x74, 0x11, 0x48, 0x29, 0xca, 0x48, 0xff, 0xce, 0x8a,
    0x06, 0x48, 0xff, 0xcf, 0x88, 0x07, 0xff, 0xc9, 0x75, 0xf2, 0x48, 0x89, 0xd1, 0x83, 0xe2, 0x3f, 0x48, 0x83, 0xe1, 0xc0,
    0x48, 0x29, 0xce, 0x48, 0x29, 0xcf, 0xf7, 0xc6, 0x0f, 0x00, 0x00, 0x00, 0x75, 0x3b, 0x66, 0x0f, 0x6f, 0x44, 0x0e, 0xf0,
    0x66, 0x0f, 0x6f, 0x4c, 0x0e, 0xe0, 0x66, 0x0f, 0x6f, 0x54, 0x0e, 0xd0, 0x66, 0x0f, 0x6f, 0x5c, 0x0e, 0xc0, 0x66, 0x0f,
    0x7f, 0x44, 0x0f, 0xf0, 0x66, 0x0f, 0x7f, 0x4c, 0x0f, 0xe0, 0x66, 0x0f, 0x7f, 0x54, 0x0f, 0xd0, 0x66, 0x0f, 0x7f, 0x5c,
    0x0f, 0xc0, 0x48, 0x83, 0xe9, 0x40, 0x75, 0xca, 0xe9, 0x64, 0xff, 0xff, 0xff, 0xf3, 0x0f, 0x6f, 0x44, 0x0e, 0xf0, 0xf3,
    0x0f, 0x6f, 0x4c, 0x0e, 0xe0, 0xf3, 0x0f, 0x6f, 0x54, 0x0e, 0xd0, 0xf3, 0x0f, 0x6f, 0x5c, 0x0e, 0xc0, 0x66, 0x0f, 0x7f,
    0x44, 0x0f, 0xf0, 0x66, 0x0f, 0x7f, 0x4c, 0x0f, 0xe0, 0x66, 0x0f, 0x7f, 0x54, 0x0f, 0xd0, 0x66, 0x0f, 0x7f, 0x5c, 0x0f,
    0xc0, 0x48, 0x83, 0xe9, 0x40, 0x75, 0xca, 0xe9, 0x29, 0xff, 0xff, 0xff]"

definition sse3_5_patcher :: "byte list" where
  "sse3_5_patcher = [
    0x55, 0x48, 0x89, 0xe5, 0x48, 0x89, 0xf0, 0x48, 0x89, 0xfe, 0x48, 0x89, 0xc7, 0x48, 0x29, 0xf0, 0x48, 0x39, 0xd0, 0x72,
    0x52, 0x48, 0x83, 0xfa, 0x50, 0x76, 0x1d, 0xeb, 0x4f, 0x90, 0x90, 0x90, 0x55, 0x48, 0x89, 0xe5, 0x49, 0x89, 0xfb, 0x48,
    0x89, 0xf8, 0x48, 0x29, 0xf0, 0x48, 0x39, 0xd0, 0x72, 0x35, 0x48, 0x83, 0xfa, 0x50, 0x77, 0x34, 0x89, 0xd1, 0xc1, 0xe9,
    0x02, 0x74, 0x10, 0x8b, 0x06, 0x48, 0x83, 0xc6, 0x04, 0x89, 0x07, 0x48, 0x83, 0xc7, 0x04, 0xff, 0xc9, 0x75, 0xf0, 0x83,
    0xe2, 0x03, 0x74, 0x0e, 0x8a, 0x06, 0x48, 0xff, 0xc6, 0x88, 0x07, 0x48, 0xff, 0xc7, 0xff, 0xca, 0x75, 0xf2, 0x4c, 0x89,
    0xd8, 0x5d, 0xc3, 0xe9, 0xbd, 0x04, 0x00, 0x00, 0x48, 0x81, 0xfa, 0x00, 0xd0, 0x07, 0x00, 0x0f, 0x83, 0x7f, 0x00, 0x00,
    0x00, 0x89, 0xf9, 0xf7, 0xd9, 0x83, 0xe1, 0x0f, 0x74, 0x04, 0x29, 0xca, 0xf3, 0xa4, 0x48, 0x89, 0xd1, 0x89, 0xf0, 0x83,
    0xe2, 0x3f, 0x83, 0xe0, 0x0f, 0x48, 0x83, 0xe1, 0xc0, 0x49, 0xb8, 0x80, 0x07, 0xe0, 0xff, 0xff, 0x7f, 0x00, 0x00, 0x49,
    0x81, 0xc0, 0xb8, 0x00, 0x00, 0x00, 0x48, 0x01, 0xce, 0x48, 0x01, 0xcf, 0x41, 0x8b, 0x04, 0x80, 0x48, 0xf7, 0xd9, 0x4c,
    0x01, 0xc0, 0xff, 0xe0, 0x66, 0x00, 0x00, 0x00, 0xb1, 0x00, 0x00, 0x00, 0xf1, 0x00, 0x00, 0x00, 0x31, 0x01, 0x00, 0x00,
    0x71, 0x01, 0x00, 0x00, 0xb1, 0x01, 0x00, 0x00, 0xf1, 0x01, 0x00, 0x00, 0x31, 0x02, 0x00, 0x00, 0x71, 0x02, 0x00, 0x00,
    0xb1, 0x02, 0x00, 0x00, 0xf1, 0x02, 0x00, 0x00, 0x31, 0x03, 0x00, 0x00, 0x71, 0x03, 0x00, 0x00, 0xb1, 0x03, 0x00, 0x00,
    0xf1, 0x03, 0x00, 0x00, 0x31, 0x04, 0x00, 0x00, 0x41, 0x53, 0x48, 0xb8, 0x00, 0x12, 0xe0, 0xff, 0xff, 0x7f, 0x00, 0x00,
    0xff, 0xd0, 0x58, 0x5d, 0xc3, 0x48, 0x01, 0xce, 0x48, 0x01, 0xcf, 0xf7, 0xd9, 0x09, 0xd1, 0xfc, 0xc1, 0xe9, 0x02, 0xf3,
    0xa5, 0xe9, 0x31, 0xff, 0xff, 0xff, 0x81, 0xf9, 0x0f, 0xc0, 0xff, 0xff, 0x7e, 0xe3, 0xeb, 0x08, 0x90, 0x90, 0x90, 0x90,
    0x90, 0x90, 0x90, 0x90, 0x66, 0x0f, 0x6f, 0x04, 0x0e, 0x66, 0x0f, 0x6f, 0x4c, 0x0e, 0x10, 0x66, 0x0f, 0x6f, 0x54, 0x0e,
    0x20, 0x66, 0x0f, 0x6f, 0x5c, 0x0e, 0x30, 0x66, 0x0f, 0x7f, 0x04, 0x0f, 0x66, 0x0f, 0x7f, 0x4c, 0x0f, 0x10, 0x66, 0x0f,
    0x7f, 0x54, 0x0f, 0x20, 0x66, 0x0f, 0x7f, 0x5c, 0x0f, 0x30, 0x48, 0x83, 0xc1, 0x40, 0x75, 0xcc, 0xe9, 0xcf, 0xfe, 0xff,
    0xff, 0x90, 0x90, 0x90, 0x90, 0x90, 0x90, 0x90, 0xf3, 0x0f, 0x6f, 0x04, 0x0e, 0xf3, 0x0f, 0x6f, 0x4c, 0x0e, 0x10, 0xf3,
    0x0f, 0x6f, 0x54, 0x0e, 0x20, 0xf3, 0x0f, 0x6f, 0x5c, 0x0e, 0x30, 0x66, 0x0f, 0x7f, 0x04, 0x0f, 0x66, 0x0f, 0x7f, 0x4c,
    0x0f, 0x10, 0x66, 0x0f, 0x7f, 0x54, 0x0f, 0x20, 0x66, 0x0f, 0x7f, 0x5c, 0x0f, 0x30, 0x48, 0x83, 0xc1, 0x40, 0x75, 0xcc,
    0xe9, 0x8f, 0xfe, 0xff, 0xff, 0x90, 0x90, 0x90, 0x90, 0x90, 0x90, 0x90, 0xf3, 0x0f, 0x6f, 0x04, 0x0e, 0xf3, 0x0f, 0x6f,
    0x4c, 0x0e, 0x10, 0xf3, 0x0f, 0x6f, 0x54, 0x0e, 0x20, 0xf3, 0x0f, 0x6f, 0x5c, 0x0e, 0x30, 0x66, 0x0f, 0x7f, 0x04, 0x0f,
    0x66, 0x0f, 0x7f, 0x4c, 0x0f, 0x10, 0x66, 0x0f, 0x7f, 0x54, 0x0f, 0x20, 0x66, 0x0f, 0x7f, 0x5c, 0x0f, 0x30, 0x48, 0x83,
    0xc1, 0x40, 0x75, 0xcc, 0xe9, 0x4f, 0xfe, 0xff, 0xff, 0x90, 0x90, 0x90, 0x90, 0x90, 0x90, 0x90, 0xf3, 0x0f, 0x6f, 0x04,
    0x0e, 0xf3, 0x0f, 0x6f, 0x4c, 0x0e, 0x10, 0xf3, 0x0f, 0x6f, 0x54, 0x0e, 0x20, 0xf3, 0x0f, 0x6f, 0x5c, 0x0e, 0x30, 0x66,
    0x0f, 0x7f, 0x04, 0x0f, 0x66, 0x0f, 0x7f, 0x4c, 0x0f, 0x10, 0x66, 0x0f, 0x7f, 0x54, 0x0f, 0x20, 0x66, 0x0f, 0x7f, 0x5c,
    0x0f, 0x30, 0x48, 0x83, 0xc1, 0x40, 0x75, 0xcc, 0xe9, 0x0f, 0xfe, 0xff, 0xff, 0x90, 0x90, 0x90, 0x90, 0x90, 0x90, 0x90,
    0xf3, 0x0f, 0x6f, 0x04, 0x0e, 0xf3, 0x0f, 0x6f, 0x4c, 0x0e, 0x10, 0xf3, 0x0f, 0x6f, 0x54, 0x0e, 0x20, 0xf3, 0x0f, 0x6f,
    0x5c, 0x0e, 0x30, 0x66, 0x0f, 0x7f, 0x04, 0x0f, 0x66, 0x0f, 0x7f, 0x4c, 0x0f, 0x10, 0x66, 0x0f, 0x7f, 0x54, 0x0f, 0x20,
    0x66, 0x0f, 0x7f, 0x5c, 0x0f, 0x30, 0x48, 0x83, 0xc1, 0x40, 0x75, 0xcc, 0xe9, 0xcf, 0xfd, 0xff, 0xff, 0x90, 0x90, 0x90,
    0x90, 0x90, 0x90, 0x90, 0xf3, 0x0f, 0x6f, 0x04, 0x0e, 0xf3, 0x0f, 0x6f, 0x4c, 0x0e, 0x10, 0xf3, 0x0f, 0x6f, 0x54, 0x0e,
    0x20, 0xf3, 0x0f, 0x6f, 0x5c, 0x0e, 0x30, 0x66, 0x0f, 0x7f, 0x04, 0x0f, 0x66, 0x0f, 0x7f, 0x4c, 0x0f, 0x10, 0x66, 0x0f,
    0x7f, 0x54, 0x0f, 0x20, 0x66, 0x0f, 0x7f, 0x5c, 0x0f, 0x30, 0x48, 0x83, 0xc1, 0x40, 0x75, 0xcc, 0xe9, 0x8f, 0xfd, 0xff,
    0xff, 0x90, 0x90, 0x90, 0x90, 0x90, 0x90, 0x90, 0xf3, 0x0f, 0x6f, 0x04, 0x0e, 0xf3, 0x0f, 0x6f, 0x4c, 0x0e, 0x10, 0xf3,
    0x0f, 0x6f, 0x54, 0x0e, 0x20, 0xf3, 0x0f, 0x6f, 0x5c, 0x0e, 0x30, 0x66, 0x0f, 0x7f, 0x04, 0x0f, 0x66, 0x0f, 0x7f, 0x4c,
    0x0f, 0x10, 0x66, 0x0f, 0x7f, 0x54, 0x0f, 0x20, 0x66, 0x0f, 0x7f, 0x5c, 0x0f, 0x30, 0x48, 0x83, 0xc1, 0x40, 0x75, 0xcc,
    0xe9, 0x4f, 0xfd, 0xff, 0xff, 0x90, 0x90, 0x90, 0x90, 0x90, 0x90, 0x90, 0xf3, 0x0f, 0x6f, 0x04, 0x0e, 0xf3, 0x0f, 0x6f,
    0x4c, 0x0e, 0x10, 0xf3, 0x0f, 0x6f, 0x54, 0x0e, 0x20, 0xf3, 0x0f, 0x6f, 0x5c, 0x0e, 0x30, 0x66, 0x0f, 0x7f, 0x04, 0x0f,
    0x66, 0x0f, 0x7f, 0x4c, 0x0f, 0x10, 0x66, 0x0f, 0x7f, 0x54, 0x0f, 0x20, 0x66, 0x0f, 0x7f, 0x5c, 0x0f, 0x30, 0x48, 0x83,
    0xc1, 0x40, 0x75, 0xcc, 0xe9, 0x0f, 0xfd, 0xff, 0xff, 0x90, 0x90, 0x90, 0x90, 0x90, 0x90, 0x90, 0xf3, 0x0f, 0x6f, 0x04,
    0x0e, 0xf3, 0x0f, 0x6f, 0x4c, 0x0e, 0x10, 0xf3, 0x0f, 0x6f, 0x54, 0x0e, 0x20, 0xf3, 0x0f, 0x6f, 0x5c, 0x0e, 0x30, 0x66,
    0x0f, 0x7f, 0x04, 0x0f, 0x66, 0x0f, 0x7f, 0x4c, 0x0f, 0x10, 0x66, 0x0f, 0x7f, 0x54, 0x0f, 0x20, 0x66, 0x0f, 0x7f, 0x5c,
    0x0f, 0x30, 0x48, 0x83, 0xc1, 0x40, 0x75, 0xcc, 0xe9, 0xcf, 0xfc, 0xff, 0xff, 0x90, 0x90, 0x90, 0x90, 0x90, 0x90, 0x90,
    0xf3, 0x0f, 0x6f, 0x04, 0x0e, 0xf3, 0x0f, 0x6f, 0x4c, 0x0e, 0x10, 0xf3, 0x0f, 0x6f, 0x54, 0x0e, 0x20, 0xf3, 0x0f, 0x6f,
    0x5c, 0x0e, 0x30, 0x66, 0x0f, 0x7f, 0x04, 0x0f, 0x66, 0x0f, 0x7f, 0x4c, 0x0f, 0x10, 0x66, 0x0f, 0x7f, 0x54, 0x0f, 0x20,
    0x66, 0x0f, 0x7f, 0x5c, 0x0f, 0x30, 0x48, 0x83, 0xc1, 0x40, 0x75, 0xcc, 0xe9, 0x8f, 0xfc, 0xff, 0xff, 0x90, 0x90, 0x90,
    0x90, 0x90, 0x90, 0x90, 0xf3, 0x0f, 0x6f, 0x04, 0x0e, 0xf3, 0x0f, 0x6f, 0x4c, 0x0e, 0x10, 0xf3, 0x0f, 0x6f, 0x54, 0x0e,
    0x20, 0xf3, 0x0f, 0x6f, 0x5c, 0x0e, 0x30, 0x66, 0x0f, 0x7f, 0x04, 0x0f, 0x66, 0x0f, 0x7f, 0x4c, 0x0f, 0x10, 0x66, 0x0f,
    0x7f, 0x54, 0x0f, 0x20, 0x66, 0x0f, 0x7f, 0x5c, 0x0f, 0x30, 0x48, 0x83, 0xc1, 0x40, 0x75, 0xcc, 0xe9, 0x4f, 0xfc, 0xff,
    0xff, 0x90, 0x90, 0x90, 0x90, 0x90, 0x90, 0x90, 0xf3, 0x0f, 0x6f, 0x04, 0x0e, 0xf3, 0x0f, 0x6f, 0x4c, 0x0e, 0x10, 0xf3,
    0x0f, 0x6f, 0x54, 0x0e, 0x20, 0xf3, 0x0f, 0x6f, 0x5c, 0x0e, 0x30, 0x66, 0x0f, 0x7f, 0x04, 0x0f, 0x66, 0x0f, 0x7f, 0x4c,
    0x0f, 0x10, 0x66, 0x0f, 0x7f, 0x54, 0x0f, 0x20, 0x66, 0x0f, 0x7f, 0x5c, 0x0f, 0x30, 0x48, 0x83, 0xc1, 0x40, 0x75, 0xcc,
    0xe9, 0x0f, 0xfc, 0xff, 0xff, 0x90, 0x90, 0x90, 0x90, 0x90, 0x90, 0x90, 0xf3, 0x0f, 0x6f, 0x04, 0x0e, 0xf3, 0x0f, 0x6f,
    0x4c, 0x0e, 0x10, 0xf3, 0x0f, 0x6f, 0x54, 0x0e, 0x20, 0xf3, 0x0f, 0x6f, 0x5c, 0x0e, 0x30, 0x66, 0x0f, 0x7f, 0x04, 0x0f,
    0x66, 0x0f, 0x7f, 0x4c, 0x0f, 0x10, 0x66, 0x0f, 0x7f, 0x54, 0x0f, 0x20, 0x66, 0x0f, 0x7f, 0x5c, 0x0f, 0x30, 0x48, 0x83,
    0xc1, 0x40, 0x75, 0xcc, 0xe9, 0xcf, 0xfb, 0xff, 0xff, 0x90, 0x90, 0x90, 0x90, 0x90, 0x90, 0x90, 0xf3, 0x0f, 0x6f, 0x04,
    0x0e, 0xf3, 0x0f, 0x6f, 0x4c, 0x0e, 0x10, 0xf3, 0x0f, 0x6f, 0x54, 0x0e, 0x20, 0xf3, 0x0f, 0x6f, 0x5c, 0x0e, 0x30, 0x66,
    0x0f, 0x7f, 0x04, 0x0f, 0x66, 0x0f, 0x7f, 0x4c, 0x0f, 0x10, 0x66, 0x0f, 0x7f, 0x54, 0x0f, 0x20, 0x66, 0x0f, 0x7f, 0x5c,
    0x0f, 0x30, 0x48, 0x83, 0xc1, 0x40, 0x75, 0xcc, 0xe9, 0x8f, 0xfb, 0xff, 0xff, 0x90, 0x90, 0x90, 0x90, 0x90, 0x90, 0x90,
    0xf3, 0x0f, 0x6f, 0x04, 0x0e, 0xf3, 0x0f, 0x6f, 0x4c, 0x0e, 0x10, 0xf3, 0x0f, 0x6f, 0x54, 0x0e, 0x20, 0xf3, 0x0f, 0x6f,
    0x5c, 0x0e, 0x30, 0x66, 0x0f, 0x7f, 0x04, 0x0f, 0x66, 0x0f, 0x7f, 0x4c, 0x0f, 0x10, 0x66, 0x0f, 0x7f, 0x54, 0x0f, 0x20,
    0x66, 0x0f, 0x7f, 0x5c, 0x0f, 0x30, 0x48, 0x83, 0xc1, 0x40, 0x75, 0xcc, 0xe9, 0x4f, 0xfb, 0xff, 0xff, 0x90, 0x90, 0x90,
    0x90, 0x90, 0x90, 0x90, 0xf3, 0x0f, 0x6f, 0x04, 0x0e, 0xf3, 0x0f, 0x6f, 0x4c, 0x0e, 0x10, 0xf3, 0x0f, 0x6f, 0x54, 0x0e,
    0x20, 0xf3, 0x0f, 0x6f, 0x5c, 0x0e, 0x30, 0x66, 0x0f, 0x7f, 0x04, 0x0f, 0x66, 0x0f, 0x7f, 0x4c, 0x0f, 0x10, 0x66, 0x0f,
    0x7f, 0x54, 0x0f, 0x20, 0x66, 0x0f, 0x7f, 0x5c, 0x0f, 0x30, 0x48, 0x83, 0xc1, 0x40, 0x75, 0xcc, 0xe9, 0x0f, 0xfb, 0xff,
    0xff, 0x48, 0x01, 0xd6, 0x48, 0x01, 0xd7, 0x48, 0x83, 0xfa, 0x50, 0x77, 0x31, 0x89, 0xd1, 0xc1, 0xe9, 0x03, 0x74, 0x12,
    0x48, 0x83, 0xee, 0x08, 0x48, 0x8b, 0x06, 0x48, 0x83, 0xef, 0x08, 0x48, 0x89, 0x07, 0xff, 0xc9, 0x75, 0xee, 0x83, 0xe2,
    0x07, 0x74, 0x0e, 0x48, 0xff, 0xce, 0x8a, 0x06, 0x48, 0xff, 0xcf, 0x88, 0x07, 0xff, 0xca, 0x75, 0xf2, 0x4c, 0x89, 0xd8,
    0x5d, 0xc3, 0x89, 0xf9, 0x83, 0xe1, 0x0f, 0x74, 0x11, 0x48, 0x29, 0xca, 0x48, 0xff, 0xce, 0x8a, 0x06, 0x48, 0xff, 0xcf,
    0x88, 0x07, 0xff, 0xc9, 0x75, 0xf2, 0x48, 0x89, 0xd1, 0x83, 0xe2, 0x3f, 0x48, 0x83, 0xe1, 0xc0, 0x48, 0x29, 0xce, 0x48,
    0x29, 0xcf, 0xf7, 0xc6, 0x0f, 0x00, 0x00, 0x00, 0x75, 0x3b, 0x66, 0x0f, 0x6f, 0x44, 0x0e, 0xf0, 0x66, 0x0f, 0x6f, 0x4c,
    0x0e, 0xe0, 0x66, 0x0f, 0x6f, 0x54, 0x0e, 0xd0, 0x66, 0x0f, 0x6f, 0x5c, 0x0e, 0xc0, 0x66, 0x0f, 0x7f, 0x44, 0x0f, 0xf0,
    0x66, 0x0f, 0x7f, 0x4c, 0x0f, 0xe0, 0x66, 0x0f, 0x7f, 0x54, 0x0f, 0xd0, 0x66, 0x0f, 0x7f, 0x5c, 0x0f, 0xc0, 0x48, 0x83,
    0xe9, 0x40, 0x75, 0xca, 0xe9, 0x64, 0xff, 0xff, 0xff, 0xf3, 0x0f, 0x6f, 0x44, 0x0e, 0xf0, 0xf3, 0x0f, 0x6f, 0x4c, 0x0e,
    0xe0, 0xf3, 0x0f, 0x6f, 0x54, 0x0e, 0xd0, 0xf3, 0x0f, 0x6f, 0x5c, 0x0e, 0xc0, 0x66, 0x0f, 0x7f, 0x44, 0x0f, 0xf0, 0x66,
    0x0f, 0x7f, 0x4c, 0x0f, 0xe0, 0x66, 0x0f, 0x7f, 0x54, 0x0f, 0xd0, 0x66, 0x0f, 0x7f, 0x5c, 0x0f, 0xc0, 0x48, 0x83, 0xe9,
    0x40, 0x75, 0xca, 0xe9, 0x29, 0xff, 0xff, 0xff]"

end
