(* ===== verification/KernelPatch.thy ===== *)
theory KernelPatch
  imports MachO PatchTables
begin

text \<open>
  The patches of the kernel, \<^verbatim>\<open>BdsDxe/macosx/kernel_patcher.c\<close>, with the tables of \<^verbatim>\<open>PatchTables\<close>. The functions that
  get the address of the kernel as an argument do so here; an index into the kernel is a \<open>UINT32\<close> where it is one in the
  code, and wraps like one.
\<close>

section \<open>Indexed bytes\<close>

definition kernel_byte :: "byte list \<Rightarrow> nat \<Rightarrow> u32 \<Rightarrow> byte option" where
  "kernel_byte m base i = rd m (base + unat i)"

text \<open>Bytes at offsets from an index.\<close>

definition bytes_match :: "byte list \<Rightarrow> nat \<Rightarrow> u32 \<Rightarrow> (u32 \<times> byte) list \<Rightarrow> bool option" where
  "bytes_match m base i ps = all_true (map (\<lambda>(k, v). is8 m (base + unat (i + k)) v) ps)"

primrec set_bytes :: "nat \<Rightarrow> u32 \<Rightarrow> (u32 \<times> byte) list \<Rightarrow> byte list \<Rightarrow> byte list option" where
  "set_bytes base i [] m = Some m"
| "set_bytes base i (x # ps) m = do { m1 \<leftarrow> wr m (base + unat (i + fst x)) (snd x); set_bytes base i ps m1 }"

text \<open>The first index from \<open>i\<close>, of at most \<open>n\<close>, for which the test answers.\<close>

primrec scan_up :: "nat \<Rightarrow> (u32 \<Rightarrow> 'a option option) \<Rightarrow> u32 \<Rightarrow> 'a option option" where
  "scan_up 0 f i = Some None"
| "scan_up (Suc n) f i = do { r \<leftarrow> f i; (case r of None \<Rightarrow> scan_up n f (i + 1) | Some x \<Rightarrow> Some (Some x)) }"

definition nops5 :: "(u32 \<times> byte) list" where
  "nops5 = [(0, 0x90), (1, 0x90), (2, 0x90), (3, 0x90), (4, 0x90)]"

section \<open>Power management\<close>

definition KERNEL_PATCH_SIGNATURE :: u64 where "KERNEL_PATCH_SIGNATURE = 0x85d08941e5894855"
definition KERNEL_YOS_PATCH_SIGNATURE :: u64 where "KERNEL_YOS_PATCH_SIGNATURE = 0x56415741e5894855"

text \<open>Bytes 18 and 19 differ between the versions and are left alone.\<close>

definition pm_step :: "byte list \<Rightarrow> nat \<Rightarrow> (bool \<times> byte list) option" where
  "pm_step m p =
     do {
       sig \<leftarrow> le64 m p;
       if sig = KERNEL_PATCH_SIGNATURE
       then do {
         eq \<leftarrow> all_true [mem_eq m (p + 8) (take 10 (drop 8 KernelPatchPmSrc)), mem_eq m (p + 20) (drop 20 KernelPatchPmSrc)];
         if eq
         then do {
           m1 \<leftarrow> wr_range m p (take 18 KernelPatchPmRepl);
           m2 \<leftarrow> wr_range m1 (p + 20) (take (length KernelPatchPmSrc - 20) (drop 20 KernelPatchPmRepl));
           Some (True, m2) }
         else do {
           eq2 \<leftarrow> mem_eq m (p + 8) (drop 8 KernelPatchPmSrc2);
           if eq2
           then do { m1 \<leftarrow> wr_range m p (take (length KernelPatchPmSrc2) KernelPatchPmRepl2); Some (True, m1) }
           else Some (False, m) } }
       else if sig = KERNEL_YOS_PATCH_SIGNATURE
       then do {
         eq \<leftarrow> mem_eq m (p + 8) (drop 8 KernelPatchPmSrc1010);
         if eq then do { m1 \<leftarrow> wr_range m p KernelPatchPmRepl1010; Some (False, m1) } else Some (False, m) }
       else if sig = 0x00000002000000E2
       then do { m1 \<leftarrow> wr_range m p (to_le 8 (0x0000000200000000 :: u64)); Some (False, m1) }
       else if sig = 0x0000004C000000E2
       then do { m1 \<leftarrow> wr_range m p (to_le 8 (0x0000004C00000000 :: u64)); Some (False, m1) }
       else if sig = 0x00000190000000E2
       then do { m1 \<leftarrow> wr_range m p (to_le 8 (0x0000019000000000 :: u64)); Some (True, m1) }
       else Some (False, m) }"

function pm_loop :: "byte list \<Rightarrow> nat \<Rightarrow> nat \<Rightarrow> byte list option" where
  "pm_loop m p e =
     (if p < e then do { (stop, m1) \<leftarrow> pm_step m p; if stop then Some m1 else pm_loop m1 (p + 16) e } else Some m)"
  by pat_completeness auto
termination
  by (relation "measure (\<lambda>(m, p, e). e - p)") auto

declare pm_loop.simps [simp del]

definition KernelPatchPm :: "nat \<Rightarrow> byte list \<Rightarrow> byte list option" where
  "KernelPatchPm kd m = pm_loop m kd (kd + 0x1000000)"

section \<open>The local APIC\<close>

definition lapic64_a :: "(u32 \<times> byte) list" where
  "lapic64_a = [(0, 0x65), (1, 0x8B), (2, 0x04), (3, 0x25), (4, 0x14), (5, 0), (6, 0), (7, 0),
     (35, 0x65), (36, 0x8B), (37, 0x04), (38, 0x25), (39, 0x14), (40, 0), (41, 0), (42, 0)]"

definition lapic64_b :: "(u32 \<times> byte) list" where
  "lapic64_b = [(0, 0x65), (1, 0x8B), (2, 0x04), (3, 0x25), (4, 0x1C), (5, 0), (6, 0), (7, 0),
     (36, 0x65), (37, 0x8B), (38, 0x04), (39, 0x25), (40, 0x1C), (41, 0), (42, 0), (43, 0)]"

definition lapic64_c :: "(u32 \<times> byte) list" where
  "lapic64_c = [(0, 0x65), (1, 0x8B), (2, 0x04), (3, 0x25), (4, 0x1C), (5, 0), (6, 0), (7, 0),
     (33, 0x65), (34, 0x8B), (35, 0x04), (36, 0x25), (37, 0x1C), (38, 0), (39, 0), (40, 0)]"

definition lapic32 :: "(u32 \<times> byte) list" where
  "lapic32 = [(0, 0x65), (1, 0xA1), (2, 0x0C), (3, 0), (4, 0), (5, 0), (30, 0x65), (31, 0xA1), (32, 0x0C), (33, 0), (34, 0), (35, 0)]"

text \<open>The first of several patterns that is there, with its patch location.\<close>

fun match_first :: "byte list \<Rightarrow> nat \<Rightarrow> ((u32 \<times> byte) list \<times> u32) list \<Rightarrow> u32 \<Rightarrow> u32 option option" where
  "match_first m base [] i = Some None"
| "match_first m base ((ps, k) # qs) i =
     do { eq \<leftarrow> bytes_match m base i ps; if eq then Some (Some (i + k)) else match_first m base qs i }"

definition lapic_nops :: "nat \<Rightarrow> u32 option \<Rightarrow> byte list \<Rightarrow> byte list option" where
  "lapic_nops base r m =
     (case r of
        None \<Rightarrow> Some m
      | Some loc \<Rightarrow>
          if loc = 0 then Some m
          else do { already \<leftarrow> bytes_match m base loc nops5; if already then Some m else set_bytes base loc nops5 m })"

definition KernelLapicPatch_64 :: "nat \<Rightarrow> byte list \<Rightarrow> byte list option" where
  "KernelLapicPatch_64 kd m =
     do {
       r \<leftarrow> scan_up 0x1000000 (match_first m kd [(lapic64_a, 30), (lapic64_b, 31), (lapic64_c, 28)]) 0;
       lapic_nops kd r m }"

definition KernelLapicPatch_32 :: "nat \<Rightarrow> byte list \<Rightarrow> byte list option" where
  "KernelLapicPatch_32 kd m =
     do { r \<leftarrow> scan_up 0x1000000 (match_first m kd [(lapic32, 25)]) 0; lapic_nops kd r m }"

section \<open>Processors without SSSE3\<close>

text \<open>The code that replaces the kernel's from \<open>loc\<close> on, followed by no-ops up to \<open>n\<close> bytes.\<close>

definition fill_code :: "nat \<Rightarrow> u32 \<Rightarrow> u32 \<Rightarrow> byte list \<Rightarrow> byte list \<Rightarrow> byte list option" where
  "fill_code base loc n code m =
     set_bytes base loc (map (\<lambda>i. (of_nat i, if i < length code then code ! i else 0x90)) [0 ..< unat n]) m"

text \<open>The title is looked for without a limit.\<close>

partial_function (option) sse3_6_scan :: "byte list \<Rightarrow> nat \<Rightarrow> u32 \<Rightarrow> u32 \<Rightarrow> (u32 \<times> u32) option" where
  "sse3_6_scan m base i loc1 =
     do {
       code \<leftarrow> bytes_match m base i [(0, 0x66), (1, 0x0F), (2, 0x6F), (3, 0x44), (4, 0x0E), (5, 0xF1), (- 1696, 0x55)];
       title \<leftarrow> bytes_match m base i [(0, 0xE3), (1, 0x07), (2, 0), (3, 0), (4, 0x80), (5, 0x07), (6, 0xFF), (7, 0xFF), (8, 0x24), (9, 0x01)];
       if title then Some (if code then i - 1696 else loc1, i)
       else sse3_6_scan m base (i + 1) (if code then i - 1696 else loc1) }"

partial_function (option) sse3_6_end :: "byte list \<Rightarrow> nat \<Rightarrow> u32 \<Rightarrow> u32 option" where
  "sse3_6_end m base i =
     do {
       found \<leftarrow> bytes_match m base i [(0, 0x90), (1, 0x90), (2, 0x55)];
       if found then Some i else sse3_6_end m base (i + 1) }"

definition Patcher_SSE3_6 :: "nat \<Rightarrow> byte list \<Rightarrow> byte list option" where
  "Patcher_SSE3_6 kd m =
     do {
       (loc1, loc2) \<leftarrow> sse3_6_scan m kd 0 0;
       if loc1 = 0 \<or> loc2 = 0 then Some m
       else do {
         i \<leftarrow> sse3_6_end m kd (loc1 + 1500);
         let last1 = i + 1 - loc1;
         if last1 = 0 then Some m
         else do {
           m1 \<leftarrow> fill_code kd loc1 last1 sse3_patcher m;
           set_bytes kd loc2 [(0, 0xFC), (1, 0x05), (8, 0x2C), (9, 0x00)] m1 } } }"

text \<open>\<open>sizeof (kernelData)\<close> is the size of the pointer.\<close>

definition sse3_5_Length :: u32 where "sse3_5_Length = 8"

function sse3_5_scan :: "byte list \<Rightarrow> nat \<Rightarrow> u32 \<Rightarrow> u32 \<Rightarrow> (u32 \<times> u32) option" where
  "sse3_5_scan m base i loc1 =
     (if i < sse3_5_Length - 256
      then do {
        code \<leftarrow> bytes_match m base i [(0, 0x66), (1, 0x0F), (2, 0x6F), (3, 0x44), (4, 0x0E), (5, 0xF1), (- 1712, 0x55)];
        title \<leftarrow> bytes_match m base i [(0, 0xF3), (1, 0x07), (2, 0), (3, 0), (4, 0x80), (5, 0x07), (6, 0xFF), (7, 0xFF), (8, 0x24), (9, 0x01)];
        if title then Some (if code then i - 1712 else loc1, i)
        else sse3_5_scan m base (i + 1) (if code then i - 1712 else loc1) }
      else Some (loc1, 0))"
  by pat_completeness auto
termination
  by (relation "measure (\<lambda>(m, base, i, loc1). 2 ^ 32 - unat i)") (auto simp: sse3_5_Length_def word_less_nat_alt unat_word_ariths)

declare sse3_5_scan.simps [simp del]

definition sse3_5_fits :: "byte list \<Rightarrow> nat \<Rightarrow> u32 \<Rightarrow> bool option" where
  "sse3_5_fits m base i = bytes_match m base i [(0, 0x90), (1, 0x90), (2, 0x55)]"

function sse3_5_end :: "byte list \<Rightarrow> nat \<Rightarrow> u32 \<Rightarrow> u32 option option" where
  "sse3_5_end m base i =
     (if i < sse3_5_Length
      then do { found \<leftarrow> sse3_5_fits m base i; if found then Some (Some i) else sse3_5_end m base (i + 1) }
      else Some None)"
  by pat_completeness auto
termination
  by (relation "measure (\<lambda>(m, base, i). 2 ^ 32 - unat i)") (auto simp: sse3_5_Length_def word_less_nat_alt unat_word_ariths)

declare sse3_5_end.simps [simp del]

definition Patcher_SSE3_5 :: "nat \<Rightarrow> byte list \<Rightarrow> byte list option" where
  "Patcher_SSE3_5 kd m =
     do {
       (loc1, loc2) \<leftarrow> sse3_5_scan m kd 256 0;
       if loc1 = 0 \<or> loc2 = 0 then Some m
       else do {
         r \<leftarrow> sse3_5_end m kd (loc1 + 1500);
         (case r of
            None \<Rightarrow> Some m
          | Some i \<Rightarrow>
              let last1 = i + 1 - loc1 in
              if last1 = 0 then Some m
              else do {
                m1 \<leftarrow> fill_code kd loc1 last1 sse3_5_patcher m;
                set_bytes kd loc2 [(0, 0x0C), (1, 0x06), (8, 0x2C), (9, 0x00)] m1 }) } }"

section \<open>The processor's family and identification\<close>

definition CPUFAMILY_INTEL_YONAH :: u32 where "CPUFAMILY_INTEL_YONAH = 0x73d67300"
definition CPUIDFAMILY_DEFAULT :: byte where "CPUIDFAMILY_DEFAULT = 6"
definition CPUID_MODEL_YONAH :: byte where "CPUID_MODEL_YONAH = 14"

definition cpu32_panic :: "(u32 \<times> byte) list" where
  "cpu32_panic = [(0, 0xC7), (1, 0x05), (6, 0x07), (7, 0), (8, 0), (9, 0), (10, 0xC7), (11, 0x05), (- 5, 0xE8)]"

definition cpu32_tsc :: "(u32 \<times> byte) list" where
  "cpu32_tsc = [(0, 0xC7), (1, 0x04), (2, 0x24), (3, 0x54), (4, 0x0E), (5, 0x59), (6, 0)]"

text \<open>The jump before the call of \<open>panic\<close>; its target is lowered when the family is set before the call.\<close>

definition cpu32_jump :: "nat \<Rightarrow> u32 \<Rightarrow> byte list \<Rightarrow> (u32 \<times> byte list) option" where
  "cpu32_jump kd loc m =
     do {
       r \<leftarrow> scan_up 500 (\<lambda>i. do {
              eq \<leftarrow> bytes_match m kd (loc - i) [(- 3, 0x85), (- 2, 0xC0), (- 1, 0x75)];
              Some (if eq then Some (loc - i) else None) }) 0;
       (case r of
          None \<Rightarrow> Some (loc, m)
        | Some j \<Rightarrow>
            do {
              m1 \<leftarrow> set_bytes kd j [(- 1, 0x77)] m;
              fam \<leftarrow> kernel_byte m1 kd (loc - 17);
              if fam = 0xC7
              then do { b \<leftarrow> kernel_byte m1 kd j; m2 \<leftarrow> set_bytes kd j [(0, b - 10)] m1; Some (j, m2) }
              else Some (j, m1) }) }"

definition cpu32_info :: "nat \<Rightarrow> u32 \<Rightarrow> u32 \<Rightarrow> byte list \<Rightarrow> byte list option" where
  "cpu32_info kd loc j m =
     do {
       fam \<leftarrow> kernel_byte m kd (loc - 17);
       m1 \<leftarrow> (if fam = 0xC7
              then set_bytes kd loc (zip [- 11, - 10, - 9, - 8] (to_le 4 CPUFAMILY_INTEL_YONAH)) m else Some m);
       m2 \<leftarrow> set_bytes kd loc [(- 7, 0xC7), (- 6, 0x05)] m1;
       b3 \<leftarrow> kernel_byte m2 kd (j + 3);
       m3 \<leftarrow> set_bytes kd loc [(- 5, b3)] m2;
       b4 \<leftarrow> kernel_byte m3 kd (j + 4);
       m4 \<leftarrow> set_bytes kd loc [(- 4, b4)] m3;
       b5 \<leftarrow> kernel_byte m4 kd (j + 5);
       m5 \<leftarrow> set_bytes kd loc [(- 3, b5)] m4;
       b6 \<leftarrow> kernel_byte m5 kd (j + 6);
       set_bytes kd loc [(- 2, b6), (- 1, CPUIDFAMILY_DEFAULT), (0, CPUID_MODEL_YONAH), (1, 0x01), (2, 0x00), (3, 0x90), (4, 0x90)] m5 }"

text \<open>\<open>ssse3\<close> tells that the processor has these instructions.\<close>

definition KernelPatchCPU_32 :: "bool \<Rightarrow> byte list option \<Rightarrow> nat \<Rightarrow> byte list \<Rightarrow> byte list option" where
  "KernelPatchCPU_32 ssse3 version kd m =
     do {
       r \<leftarrow> scan_up 0x1000000 (match_first m kd [(cpu32_panic, - 5)]) 0;
       (case r of
          None \<Rightarrow> Some m
        | Some loc \<Rightarrow>
            if loc = 0 then Some m
            else do {
              t \<leftarrow> scan_up 0x1000000 (match_first m kd [(cpu32_tsc, 7)]) 0;
              m1 \<leftarrow> (case t of None \<Rightarrow> Some m | Some loc1 \<Rightarrow> if loc1 = 0 then Some m else set_bytes kd loc1 nops5 m);
              m2 \<leftarrow> set_bytes kd loc nops5 m1;
              (j, m3) \<leftarrow> cpu32_jump kd loc m2;
              if j = loc then Some m3
              else do {
                m4 \<leftarrow> cpu32_info kd loc j m3;
                (case version of
                   None \<Rightarrow> Some m4
                 | Some v \<Rightarrow>
                     if AsciiStrnCmp v (lit ''11'') 2 = 0 then Some m4
                     else do {
                       m5 \<leftarrow> (if \<not> ssse3 \<and> AsciiStrnCmp v (lit ''10'') 2 = 0 then Patcher_SSE3_6 kd m4 else Some m4);
                       (if \<not> ssse3 \<and> AsciiStrnCmp v (lit ''9'') 1 = 0 then Patcher_SSE3_5 kd m5 else Some m5) }) } }) }"

text \<open>The kernel is told the signature \<open>sig\<close>. \<open>junk\<close> is as in \<^const>\<open>GetKernelVersion\<close>.\<close>

definition KernelPatchCpuId_64 :: "u32 \<Rightarrow> u32 \<times> u32 \<Rightarrow> patcher \<Rightarrow> patcher option" where
  "KernelPatchCpuId_64 sig junk s =
     (case KernVersion s of
        None \<Rightarrow> Some s
      | Some v \<Rightarrow>
          do {
            (a, n) \<leftarrow> GetSection s (lit ''__TEXT'') (lit ''__text'') junk;
            let repl = take 8 KReplaceCpuId @ to_le 4 sig @ drop 12 KReplaceCpuId;
            if is64BitKernel s \<and> AsciiStrnCmp v (lit ''10.7.1'') 6 \<ge> 0 \<and> AsciiStrnCmp v (lit ''11.0.0'') 6 < 0
            then do { (k, m) \<leftarrow> SearchAndReplace (kp_mem s) (unat a) n KSearchCpuId_1 repl 1; Some (s\<lparr>kp_mem := m\<rparr>) }
            else if is64BitKernel s \<and> AsciiStrnCmp v (lit ''11.0.0'') 6 \<ge> 0
            then do { (k, m) \<leftarrow> SearchAndReplace (kp_mem s) (unat a) n KSearchCpuId_2 repl 1; Some (s\<lparr>kp_mem := m\<rparr>) }
            else Some s })"

section \<open>Kernel messages\<close>

text \<open>A jump to the other function over the first bytes of a function, and a return after it.\<close>

definition divert_delta :: "u32 \<Rightarrow> u32 \<Rightarrow> u32" where
  "divert_delta src dst = (if src > dst then (0xFFFFFFFF - (src - dst)) - 4 else (dst - src) - 5)"

definition DivertLogFunction :: "byte list \<Rightarrow> byte list \<Rightarrow> patcher \<Rightarrow> patcher option" where
  "DivertLogFunction srcName dstName s =
     do {
       dst \<leftarrow> GetFunction s dstName;
       src \<leftarrow> GetFunction s srcName;
       if dst = 0 \<or> src = 0 then Some s
       else do {
         m \<leftarrow> wr_range (kp_mem s) (unat src) ([0xE9] @ to_le 4 (divert_delta src dst) @ [0xC3]);
         Some (s\<lparr>kp_mem := m\<rparr>) } }"

section \<open>Patches of the configuration\<close>

text \<open>Data that the configuration does not have is NULL, \<open>None\<close>; when it does not fit its replacement its length is zero.\<close>

record kernel_patch =
  AnyKernelData :: "byte list option"
  AnyKernelPatchBytes :: "byte list"

definition KERNEL_MAX_SIZE :: u32 where "KERNEL_MAX_SIZE = 40000000"

primrec AnyKernelPatch :: "nat \<Rightarrow> kernel_patch list \<Rightarrow> byte list \<Rightarrow> byte list option" where
  "AnyKernelPatch kd [] m = Some m"
| "AnyKernelPatch kd (k # ks) m =
     do {
       m1 \<leftarrow> (case AnyKernelData k of
                None \<Rightarrow> Some m
              | Some d \<Rightarrow> map_option snd (SearchAndReplace m kd KERNEL_MAX_SIZE d (AnyKernelPatchBytes k) (- 1)));
       AnyKernelPatch kd ks m1 }"

section \<open>Kexts beside the kernel cache\<close>

text \<open>One replacement in a section.\<close>

definition patch_section :: "u32 \<times> u32 \<Rightarrow> byte list \<Rightarrow> byte list \<Rightarrow> byte list \<Rightarrow> byte list option" where
  "patch_section sec pat repl m = map_option snd (SearchAndReplace m (unat (fst sec)) (snd sec) pat repl 1)"

definition text_section :: "patcher \<Rightarrow> byte list \<Rightarrow> u32 \<times> u32 \<Rightarrow> (u32 \<times> u32) option" where
  "text_section s m sec = GetSection (s\<lparr>kp_mem := m\<rparr>) (lit ''__TEXT'') (lit ''__text'') sec"

definition extensions_64 :: "byte list \<Rightarrow> u32 \<times> u32 \<Rightarrow> patcher \<Rightarrow> byte list option" where
  "extensions_64 v sec s =
     (if AsciiStrnCmp v (lit ''10.8.0'') 6 = 0 then patch_section sec KBESLSearch_1080_X64 KBESLReplace_1080_X64 (kp_mem s)
      else if AsciiStrnCmp v (lit ''10'') 2 = 0 then patch_section sec KBESLSearch_X64 KBESLReplace_X64 (kp_mem s)
      else if AsciiStrnCmp v (lit ''11'') 2 = 0 then patch_section sec KBELionSearch_X64 KBELionReplace_X64 (kp_mem s)
      else if AsciiStrnCmp v (lit ''12'') 2 = 0 \<or> AsciiStrnCmp v (lit ''13'') 2 = 0
      then patch_section sec KBEMLSearch KBEMLReplace (kp_mem s)
      else if AsciiStrnCmp v (lit ''14'') 2 = 0 then patch_section sec KBEYSearch KBEYReplace (kp_mem s)
      else if AsciiStrnCmp v (lit ''14.4'') 4 = 0 \<or> AsciiStrnCmp v (lit ''15'') 2 = 0
      then do {
        m1 \<leftarrow> patch_section sec KBEYSearch KBEYReplace (kp_mem s);
        m2 \<leftarrow> patch_section sec KBEECDebugSearch KBEECDebugReplace m1;
        sec1 \<leftarrow> text_section s m2 sec;
        m3 \<leftarrow> patch_section sec1 KBEEntitlementSearch KBEEntitlementReplace m2;
        patch_section sec1 KBEECDebugEntitlementSearch KBEECDebugEntitlementReplace m3 }
      else if AsciiStrnCmp v (lit ''16'') 2 = 0
      then do {
        m1 \<leftarrow> patch_section sec KBEYSearch KBEYReplace (kp_mem s);
        sec1 \<leftarrow> text_section s m1 sec;
        patch_section sec1 KBESDP2EntitlementSearch KBESDP2EntitlementReplace m1 }
      else if AsciiStrnCmp v (lit ''17'') 2 = 0
      then do {
        m1 \<leftarrow> patch_section sec KBEYSearch KBEYReplace (kp_mem s);
        sec1 \<leftarrow> text_section s m1 sec;
        patch_section sec1 KBEHSEntitlementSearch KBEHSEntitlementReplace m1 }
      else Some (kp_mem s))"

definition extensions_32 :: "byte list \<Rightarrow> u32 \<times> u32 \<Rightarrow> patcher \<Rightarrow> byte list option" where
  "extensions_32 v sec s =
     (if AsciiStrnCmp v (lit ''10'') 2 = 0 then patch_section sec KBESLSearch_i386 KBESLReplace_i386 (kp_mem s)
      else if AsciiStrnCmp v (lit ''11'') 2 = 0 then patch_section sec KBELionSearch_i386 KBELionReplace_i386 (kp_mem s)
      else Some (kp_mem s))"

definition KernelBooterExtensionsPatch :: "u32 \<times> u32 \<Rightarrow> patcher \<Rightarrow> patcher option" where
  "KernelBooterExtensionsPatch junk s =
     (case KernVersion s of
        None \<Rightarrow> Some s
      | Some v \<Rightarrow>
          do {
            sec \<leftarrow> GetSection s (lit ''__KLD'') (lit ''__text'') junk;
            m \<leftarrow> (if is64BitKernel s then extensions_64 v sec s else extensions_32 v sec s);
            Some (s\<lparr>kp_mem := m\<rparr>) })"

end
