(* ===== verification/MachOFacts.thy ===== *)
theory MachOFacts
  imports MachO DeviceTreeFacts
begin

text \<open>
  The look-up of a section in a Mach-O image. The abstract side is a list of load commands with their sections, and its
  bytes; \<open>section_of\<close> is what the look-up means on it.
\<close>

section \<open>Images\<close>

record msect =
  ms_name :: "byte list"
  ms_seg :: "byte list"
  ms_addr :: u64
  ms_size :: u64
  ms_rest :: "byte list"

datatype mcmd =
    Seg64 "byte list" "byte list" "msect list"
  | Other u32 "byte list"

text \<open>A name field of 16 bytes. A segment has 48 further bytes before its sections, a section 32 behind its size.\<close>

definition name16 :: "byte list \<Rightarrow> byte list" where
  "name16 n = n @ replicate (16 - length n) 0"

definition sect_bytes :: "msect \<Rightarrow> byte list" where
  "sect_bytes x = name16 (ms_name x) @ name16 (ms_seg x) @ to_le 8 (ms_addr x) @ to_le 8 (ms_size x) @ ms_rest x"

fun cmd_bytes :: "mcmd \<Rightarrow> byte list" where
  "cmd_bytes (Seg64 n mid xs) =
     to_le 4 LC_SEGMENT_64 @ to_le 4 (of_nat (72 + 80 * length xs) :: u32) @ name16 n @ mid @ concat (map sect_bytes xs)"
| "cmd_bytes (Other c body) = to_le 4 c @ to_le 4 (of_nat (8 + length body) :: u32) @ body"

definition name_ok :: "byte list \<Rightarrow> bool" where
  "name_ok n \<longleftrightarrow> length n < 16 \<and> 0 \<notin> set n"

definition sect_ok :: "msect \<Rightarrow> bool" where
  "sect_ok x \<longleftrightarrow> name_ok (ms_name x) \<and> name_ok (ms_seg x) \<and> length (ms_rest x) = 32"

fun cmd_ok :: "mcmd \<Rightarrow> bool" where
  "cmd_ok (Seg64 n mid xs) \<longleftrightarrow> name_ok n \<and> length mid = 48 \<and> list_all sect_ok xs"
| "cmd_ok (Other c body) \<longleftrightarrow> c \<noteq> LC_SEGMENT \<and> c \<noteq> LC_SEGMENT_64"

definition image_bytes :: "byte list \<Rightarrow> byte list \<Rightarrow> mcmd list \<Rightarrow> byte list" where
  "image_bytes a b cs = a @ to_le 4 (of_nat (length cs) :: u32) @ b @ concat (map cmd_bytes cs)"

text \<open>The first section of the name counts, when it is not empty; a later segment of the name overrides an earlier one.\<close>

definition found_section :: "u64 \<Rightarrow> msect option \<Rightarrow> u32 \<times> u32 \<Rightarrow> u32 \<times> u32" where
  "found_section reloc x out =
     (case x of
        None \<Rightarrow> out
      | Some x \<Rightarrow>
          if ms_size x = 0 then out else (ucast (if ms_addr x = 0 then 0 else ms_addr x + reloc), ucast (ms_size x)))"

fun section_of :: "u64 \<Rightarrow> byte list \<Rightarrow> byte list \<Rightarrow> mcmd list \<Rightarrow> u32 \<times> u32 \<Rightarrow> u32 \<times> u32" where
  "section_of reloc seg sect [] out = out"
| "section_of reloc seg sect (Seg64 n mid xs # cs) out =
     section_of reloc seg sect cs
       (if n = seg then found_section reloc (find (\<lambda>x. ms_name x = sect \<and> ms_seg x = seg) xs) out else out)"
| "section_of reloc seg sect (Other c body # cs) out = section_of reloc seg sect cs out"

section \<open>Fields\<close>

lemma length_name16 [simp]: "name_ok n \<Longrightarrow> length (name16 n) = 16"
  by (simp add: name16_def name_ok_def)

lemma length_sect_bytes: "sect_ok x \<Longrightarrow> length (sect_bytes x) = 80"
  by (simp add: sect_bytes_def sect_ok_def)

lemma length_sects: "list_all sect_ok xs \<Longrightarrow> length (concat (map sect_bytes xs)) = 80 * length xs"
  by (induction xs) (simp_all add: length_sect_bytes)

lemma length_cmd_bytes: "cmd_ok c \<Longrightarrow> length (cmd_bytes c) = (case c of Seg64 n mid xs \<Rightarrow> 72 + 80 * length xs | Other c body \<Rightarrow> 8 + length body)"
  by (cases c) (simp_all add: length_sects)

lemma holds_at_le64: "holds_at m p (to_le 8 (w :: u64)) \<Longrightarrow> le64 m p = Some w"
  by (simp add: holds_at_def le64_def le_value_to_le8)

lemma name16_eq:
  assumes "holds_at m p (name16 n)" "name_ok n" "name_ok s"
  shows "ascii_eq m p s = Some (n = s)"
proof -
  have "name16 n = (n @ [0]) @ replicate (15 - length n) 0"
    using assms(2) by (cases "16 - length n") (auto simp: name16_def name_ok_def)
  then have "holds_at m p (n @ [0])"
    using assms(1) holds_at_append [of m p "n @ [0]" "replicate (15 - length n) 0"] by simp
  then show ?thesis
    using assms(2,3) by (intro ascii_eq_at) (simp_all add: name_ok_def)
qed

lemma sect_fields:
  assumes "holds_at m q (sect_bytes x)" "sect_ok x" "name_ok s" "name_ok g"
  shows "ascii_eq m q s = Some (ms_name x = s)" "ascii_eq m (q + 16) g = Some (ms_seg x = g)"
    "sect_addr True m q = Some (ms_addr x)" "sect_size True m q = Some (ms_size x)"
proof -
  have h: "holds_at m q (name16 (ms_name x))" "holds_at m (q + 16) (name16 (ms_seg x))"
    "holds_at m (q + 32) (to_le 8 (ms_addr x))" "holds_at m (q + 40) (to_le 8 (ms_size x))"
    using assms(1,2) by (simp_all add: sect_bytes_def sect_ok_def holds_at_append add.assoc)
  then show "ascii_eq m q s = Some (ms_name x = s)" "ascii_eq m (q + 16) g = Some (ms_seg x = g)"
    "sect_addr True m q = Some (ms_addr x)" "sect_size True m q = Some (ms_size x)"
    using assms(2-4) by (simp_all add: name16_eq sect_ok_def sect_addr_def sect_size_def holds_at_le64)
qed

lemma section_loop_at:
  assumes "le32 m (p + 4) = Some (of_nat (n + 80 * length xs))" "n + 80 * length xs + 80 < 2 ^ 32"
    and "holds_at m (p + n) (concat (map sect_bytes xs))" "list_all sect_ok xs" "name_ok seg" "name_ok sect"
  shows "section_loop True m reloc seg sect p (of_nat n) out =
    Some (found_section reloc (find (\<lambda>x. ms_name x = sect \<and> ms_seg x = seg) xs) out)"
  using assms
proof (induction xs arbitrary: n)
  case Nil
  then show ?case
    by (subst section_loop.simps) (simp add: found_section_def)
next
  case (Cons x xs)
  have u: "unat (of_nat n :: u32) = n" "unat (of_nat (n + 80 * length (x # xs)) :: u32) = n + 80 * length (x # xs)"
    by (rule unat_small, use Cons.prems(2) in simp)+
  have lt: "(of_nat n :: u32) < of_nat (n + 80 * length (x # xs))"
    unfolding word_less_nat_alt u by simp
  have h: "holds_at m (p + n) (sect_bytes x)" "holds_at m (p + (n + 80)) (concat (map sect_bytes xs))"
    using Cons.prems(3,4) length_sect_bytes [of x] by (simp_all add: holds_at_append add.assoc)
  have ok: "sect_ok x" "list_all sect_ok xs"
    using Cons.prems(4) by simp_all
  note f = sect_fields [OF h(1) ok(1) Cons.prems(6,5)]
  have ih: "section_loop True m reloc seg sect p (of_nat (n + 80)) out =
      Some (found_section reloc (find (\<lambda>x. ms_name x = sect \<and> ms_seg x = seg) xs) out)"
    using Cons.prems by (intro Cons.IH h(2) ok(2)) (simp_all add: add.assoc)
  show ?case
    using Cons.prems(1) lt f ih
    by (subst section_loop.simps) (simp add: u(1) section_bytes_def found_section_def add.commute [of 80] word_gt_0)
qed

lemma cmd_at:
  assumes "holds_at m p (cmd_bytes c)" "cmd_ok c" "length (cmd_bytes c) + 80 < 2 ^ 32" "name_ok seg" "name_ok sect"
  shows "le32 m (p + 4) = Some (of_nat (length (cmd_bytes c)))"
    "section_cmd m reloc seg sect p out = Some (section_of reloc seg sect [c] out)"
proof -
  have *: "le32 m (p + 4) = Some (of_nat (length (cmd_bytes c))) \<and>
    section_cmd m reloc seg sect p out = Some (section_of reloc seg sect [c] out)"
  proof (cases c)
    case (Seg64 n mid xs)
    have l: "length (cmd_bytes c) = 72 + 80 * length xs"
      using assms(2) Seg64 by (simp add: length_cmd_bytes length_sects)
    have h: "holds_at m p (to_le 4 LC_SEGMENT_64)" "holds_at m (p + 4) (to_le 4 (of_nat (72 + 80 * length xs) :: u32))"
      "holds_at m (p + 8) (name16 n)" "holds_at m (p + 72) (concat (map sect_bytes xs))"
      using assms(1,2) Seg64 by (simp_all add: holds_at_append add.assoc del: of_nat_add)
    have "section_loop True m reloc seg sect p (of_nat 72) out =
        Some (found_section reloc (find (\<lambda>x. ms_name x = sect \<and> ms_seg x = seg) xs) out)"
      using assms h(2,4) Seg64 l by (intro section_loop_at holds_at_le32) simp_all
    then show ?thesis
      using holds_at_le32 [OF h(1)] holds_at_le32 [OF h(2)] name16_eq [OF h(3), of seg] assms(2,4) Seg64
      by (simp add: section_cmd_def segment_bytes_def length_sects)
  next
    case (Other k body)
    have "holds_at m p (to_le 4 k)" "holds_at m (p + 4) (to_le 4 (of_nat (8 + length body) :: u32))"
      using assms(1) Other by (simp_all add: holds_at_append add.assoc)
    then show ?thesis
      using assms(2) Other by (simp add: section_cmd_def holds_at_le32)
  qed
  then show "le32 m (p + 4) = Some (of_nat (length (cmd_bytes c)))"
    "section_cmd m reloc seg sect p out = Some (section_of reloc seg sect [c] out)"
    by simp_all
qed

lemma section_of_Cons: "section_of reloc seg sect (c # cs) out = section_of reloc seg sect cs (section_of reloc seg sect [c] out)"
  by (cases c) simp_all

lemma section_cmds_at:
  assumes "holds_at m (base + n) (concat (map cmd_bytes cs))" "list_all cmd_ok cs"
    and "n + length (concat (map cmd_bytes cs)) + 80 < 2 ^ 32" "name_ok seg" "name_ok sect"
  shows "section_cmds m reloc seg sect base (length cs) (of_nat n) out = Some (section_of reloc seg sect cs out)"
  using assms
proof (induction cs arbitrary: n out)
  case (Cons c cs)
  have u: "unat (of_nat n :: u32) = n"
    using Cons.prems(3) by (intro unat_small) simp
  have h: "holds_at m (base + n) (cmd_bytes c)" "holds_at m (base + (n + length (cmd_bytes c))) (concat (map cmd_bytes cs))"
    using Cons.prems(1) by (simp_all add: holds_at_append add.assoc)
  have "cmd_ok c" "length (cmd_bytes c) + 80 < 2 ^ 32"
    using Cons.prems(2,3) by simp_all
  note c = cmd_at [OF h(1) this Cons.prems(4,5)]
  show ?case
    using Cons.IH [OF h(2)] Cons.prems c section_of_Cons [of reloc seg sect c cs out]
    by (simp add: u add.assoc del: section_of.simps)
qed simp

text \<open>
  C36. Looking up a section in a 64-bit kernel gives the address and the size of the section in its load commands, the
  address moved by the relocation of the image; without such a section the caller's variables keep their values.
\<close>

theorem macho_section_refines:
  assumes "kp_mem s = pre @ image_bytes a b cs @ post" "KernelData s = Some (length pre)" "is64BitKernel s"
    and "length a = 16" "length b = 12" "list_all cmd_ok cs" "length (image_bytes a b cs) + 80 < 2 ^ 32"
    and "name_ok seg" "name_ok sect"
  shows "GetSection s seg sect out = Some (section_of (KernelRelocBase s) seg sect cs out)"
proof -
  have "holds_at (kp_mem s) (length pre) (image_bytes a b cs)"
    using assms(1) by (auto simp: holds_at_split)
  then have h: "holds_at (kp_mem s) (length pre + 16) (to_le 4 (of_nat (length cs) :: u32))"
    "holds_at (kp_mem s) (length pre + 32) (concat (map cmd_bytes cs))"
    using assms(4,5) by (simp_all add: image_bytes_def holds_at_append add.assoc)
  have l: "length (concat (map cmd_bytes cs)) + 112 < 2 ^ 32"
    using assms(4,5,7) by (simp add: image_bytes_def)
  have "length cs \<le> length (concat (map cmd_bytes cs))"
    using assms(6)
  proof (induction cs)
    case (Cons c cs)
    then show ?case
      by (cases c) (auto simp: length_cmd_bytes)
  qed simp
  then have "unat (of_nat (length cs) :: u32) = length cs"
    using l by (intro unat_small) simp
  moreover have "section_cmds (kp_mem s) (KernelRelocBase s) seg sect (length pre) (length cs) (of_nat 32) out =
      Some (section_of (KernelRelocBase s) seg sect cs out)"
    using h(2) assms(6,8,9) l by (intro section_cmds_at) simp_all
  ultimately show ?thesis
    using holds_at_le32 [OF h(1)] assms(2,3) by (simp add: GetSection_def MACH_GET_NCMDS_def mach_header_bytes_def)
qed

definition demo_patcher :: "byte list \<Rightarrow> patcher" where
  "demo_patcher m = \<lparr>kp_mem = m, KernelRelocBase = 0, bootArgs1 = None, bootArgs2 = None, dtRoot = 0, KernVersion = None,
     KernelData = Some 0, KernelSlide = 0, isKernelcache = False, is64BitKernel = True, PatcherInited = False,
     PrelinkTextAddr = 0, PrelinkTextSize = 0, PrelinkInfoAddr = 0, PrelinkInfoSize = 0, WithKexts = False\<rparr>"

definition demo_cmds :: "mcmd list" where
  "demo_cmds = [Other 2 [], Seg64 (lit ''__TEXT'') (replicate 48 0)
     [\<lparr>ms_name = lit ''__const'', ms_seg = lit ''__TEXT'', ms_addr = 9, ms_size = 9, ms_rest = replicate 32 0\<rparr>,
      \<lparr>ms_name = lit ''__text'', ms_seg = lit ''__TEXT'', ms_addr = 0x1000, ms_size = 4, ms_rest = replicate 32 0\<rparr>]]"

lemma macho_section_refines_witness:
  "GetSection (demo_patcher (image_bytes (replicate 16 0) (replicate 12 0) demo_cmds)) (lit ''__TEXT'') (lit ''__text'') (7, 7) =
    Some (0x1000, 4)"
proof -
  let ?s = "demo_patcher (image_bytes (replicate 16 0) (replicate 12 0) demo_cmds)"
  have ok: "list_all cmd_ok demo_cmds"
    by (simp add: demo_cmds_def sect_ok_def name_ok_def LC_SEGMENT_def LC_SEGMENT_64_def lit_Cons)
  have l: "length (image_bytes (replicate 16 0) (replicate 12 0) demo_cmds) + 80 < 2 ^ 32"
    by (simp add: demo_cmds_def image_bytes_def name16_def sect_bytes_def)
  have "GetSection ?s (lit ''__TEXT'') (lit ''__text'') (7, 7) =
      Some (section_of (KernelRelocBase ?s) (lit ''__TEXT'') (lit ''__text'') demo_cmds (7, 7))"
    by (rule macho_section_refines [where pre = "[]" and post = "[]" and a = "replicate 16 0" and b = "replicate 12 0"])
      (use ok l in \<open>simp_all add: demo_patcher_def name_ok_def lit_Cons\<close>)
  then show ?thesis
    by (simp add: demo_cmds_def found_section_def lit_Cons demo_patcher_def)
qed

end
