(* ===== verification/KernelFacts.thy ===== *)
theory KernelFacts
  imports KernelPatch MachOFacts
begin

text \<open>
  Facts on the patches of the kernel: where a diverted function jumps to, that the patch of the local APIC is done once,
  and that the table for kernels 9.x is never used.
\<close>

section \<open>Diverted messages\<close>

lemma divert_delta_eq: "divert_delta src dst = dst - (src + 5)"
proof -
  have "(0xFFFFFFFF :: u32) = - 1"
    by simp
  then show ?thesis
    by (simp add: divert_delta_def algebra_simps)
qed

text \<open>
  C37. When both functions are found, the first bytes of the source become a jump: opcode \<open>E9\<close> and a displacement that,
  counted from the end of the five bytes, leads to the destination, also when it is before the source. Nothing else changes.
\<close>

theorem divert_log_lands:
  assumes "GetFunction s dstName = Some dst" "GetFunction s srcName = Some src" "dst \<noteq> 0" "src \<noteq> 0"
    and "unat src + 6 \<le> length (kp_mem s)"
  shows "\<exists>s1 d. DivertLogFunction srcName dstName s = Some s1 \<and> rd (kp_mem s1) (unat src) = Some 0xE9 \<and>
    le32 (kp_mem s1) (unat src + 1) = Some d \<and> src + 5 + d = dst \<and> rd (kp_mem s1) (unat src + 5) = Some 0xC3 \<and>
    take (unat src) (kp_mem s1) = take (unat src) (kp_mem s) \<and> drop (unat src + 6) (kp_mem s1) = drop (unat src + 6) (kp_mem s)"
proof -
  let ?d = "divert_delta src dst" and ?p = "unat src"
  let ?pre = "take ?p (kp_mem s)" and ?post = "drop (?p + 6) (kp_mem s)"
  let ?m = "?pre @ ([0xE9] @ to_le 4 ?d @ [0xC3]) @ ?post"
  have l: "length ?pre = ?p"
    using assms(5) by simp
  have run: "DivertLogFunction srcName dstName s = Some (s\<lparr>kp_mem := ?m\<rparr>)"
    using assms by (simp add: DivertLogFunction_def wr_range_def)
  have "rd ?m ?p = Some 0xE9"
    using l by (simp add: nth_append)
  moreover have "le32 ?m (?p + 1) = Some ?d"
    using le32_append [of "?p + 1" "?pre @ [0xE9]" ?d "[0xC3] @ ?post"] l by simp
  moreover have "rd ?m (?p + 5) = Some 0xC3"
    using l by (simp add: nth_append)
  moreover have "src + 5 + ?d = dst"
    by (simp add: divert_delta_eq)
  moreover have "take ?p ?m = ?pre" "drop (?p + 6) ?m = ?post"
    using l by simp_all
  ultimately show ?thesis
    using run by (intro exI [of _ "s\<lparr>kp_mem := ?m\<rparr>"] exI [of _ ?d]) simp
qed

text \<open>An image with a symbol table, and its two functions.\<close>

definition demo_symbols :: "byte list" where
  "demo_symbols =
     to_le 4 MH_MAGIC_64 @ replicate 12 0 @ to_le 4 (2 :: u32) @ replicate 12 0 @
     to_le 4 LC_SEGMENT_64 @ to_le 4 (72 :: u32) @ name16 (lit ''__LINKEDIT'') @ to_le 8 (128 :: u64) @ to_le 8 (0 :: u64) @
     to_le 8 (100 :: u64) @ replicate 16 0 @ to_le 4 (0 :: u32) @ replicate 4 0 @
     to_le 4 LC_SYMTAB @ to_le 4 (24 :: u32) @ to_le 4 (100 :: u32) @ to_le 4 (2 :: u32) @ to_le 4 (132 :: u32) @ to_le 4 (0 :: u32) @
     to_le 4 (0 :: u32) @ to_le 4 (0 :: u32) @ to_le 8 (182 :: u64) @
     to_le 4 (8 :: u32) @ to_le 4 (0 :: u32) @ to_le 8 (176 :: u64) @
     (lit ''_printf'' @ [0]) @ (lit ''_IOLog'' @ [0]) @ replicate 13 0"

lemma demo_fields:
  "le32 demo_symbols 16 = Some 2" "le32 demo_symbols 32 = Some LC_SEGMENT_64" "le32 demo_symbols 36 = Some 72"
  "le32 demo_symbols 96 = Some 0" "le64 demo_symbols 56 = Some 128" "le64 demo_symbols 72 = Some 100"
  "le32 demo_symbols 104 = Some LC_SYMTAB" "le32 demo_symbols 108 = Some 24" "le32 demo_symbols 112 = Some 100"
  "le32 demo_symbols 116 = Some 2" "le32 demo_symbols 120 = Some 132"
  "le32 demo_symbols 128 = Some 0" "le64 demo_symbols 136 = Some 182" "le32 demo_symbols 144 = Some 8" "le64 demo_symbols 152 = Some 176"
  by (simp_all add: demo_symbols_def name16_def field_simps_le)


lemma demo_strings:
  "holds_at demo_symbols 40 (name16 (lit ''__LINKEDIT''))" "holds_at demo_symbols 160 (lit ''_printf'' @ [0])"
  "holds_at demo_symbols 168 (lit ''_IOLog'' @ [0])"
  by (simp_all add: demo_symbols_def name16_def holds_at_def field_simps_le) (simp_all add: rd_range_def)
lemma demo_names:
  "ascii_eq demo_symbols 40 (lit ''__LINKEDIT'') = Some True"
  "ascii_eq demo_symbols 160 (lit ''_printf'') = Some True" "ascii_eq demo_symbols 160 (lit ''_IOLog'') = Some False"
  "ascii_eq demo_symbols 168 (lit ''_IOLog'') = Some True" 
  using name16_eq [OF demo_strings(1), of "lit ''__LINKEDIT''"] ascii_eq_at [OF demo_strings(2), of "lit ''_printf''"]
    ascii_eq_at [OF demo_strings(2), of "lit ''_IOLog''"] ascii_eq_at [OF demo_strings(3), of "lit ''_IOLog''"] 
  by (simp_all add: name_ok_def lit_Cons)
lemma demo_two:
  "symtab_cmds m base 2 idx t = symtab_cmds m base (Suc (Suc 0)) idx t"
  "find_symbol m name strbin 2 symbin = find_symbol m name strbin (Suc (Suc 0)) symbin"
  by (simp_all only: numeral_2_eq_2)

lemma demo_symbols_found:
  "GetFunction (demo_patcher demo_symbols) (lit ''_printf'') = Some 182"
  "GetFunction (demo_patcher demo_symbols) (lit ''_IOLog'') = Some 176"
  by (simp_all add: GetFunction_def MACH_GET_NCMDS_def demo_patcher_def demo_fields demo_names symtab_cmd_def mach_header_bytes_def
     demo_two
     LC_SEGMENT_64_def LC_SYMTAB_def)

lemma divert_log_lands_witness:
  "\<exists>s1 d. DivertLogFunction (lit ''_IOLog'') (lit ''_printf'') (demo_patcher demo_symbols) = Some s1 \<and>
    rd (kp_mem s1) 176 = Some 0xE9 \<and> le32 (kp_mem s1) 177 = Some d \<and> 176 + 5 + d = 182"
  using divert_log_lands [OF demo_symbols_found]
  by (simp add: demo_patcher_def demo_symbols_def name16_def) blast

section \<open>The table that is never used\<close>

lemma sse3_5_scan_loc:
  "sse3_5_scan m base i loc1 = Some (l1, l2) \<Longrightarrow> unat (loc1 + 1500) \<ge> 8 \<Longrightarrow> 256 \<le> unat i \<Longrightarrow> unat (l1 + 1500) \<ge> 8"
proof (induction m base i loc1 rule: sse3_5_scan.induct)
  case (1 m base i loc1)
  have n: "unat (i - 1712 + 1500) \<ge> 8" if "i < sse3_5_Length - 256"
  proof -
    have "i - 1712 + 1500 = i - 212"
      by (simp add: algebra_simps)
    moreover have "212 \<le> i"
      using 1(4) by (simp add: word_le_nat_alt)
    ultimately show ?thesis
      using 1(4) by (simp add: unat_sub)
  qed
  show ?case
  proof (cases "i < sse3_5_Length - 256")
    case True
    have i1: "256 \<le> unat (i + 1)"
      using True 1(4) by (simp add: sse3_5_Length_def word_less_nat_alt unat_word_ariths)
    from True 1(2) obtain code title where b:
      "bytes_match m base i [(0, 0x66), (1, 0x0F), (2, 0x6F), (3, 0x44), (4, 0x0E), (5, 0xF1), (- 1712, 0x55)] = Some code"
      "bytes_match m base i [(0, 0xF3), (1, 0x07), (2, 0), (3, 0), (4, 0x80), (5, 0x07), (6, 0xFF), (7, 0xFF), (8, 0x24), (9, 0x01)] = Some title"
      "(if title then Some (if code then i - 1712 else loc1, i)
        else sse3_5_scan m base (i + 1) (if code then i - 1712 else loc1)) = Some (l1, l2)"
      by (subst (asm) sse3_5_scan.simps) (auto simp: bind_eq_Some_conv)
    have n1: "unat ((if code then i - 1712 else loc1) + 1500) \<ge> 8"
      using n [OF True] 1(3) by simp
    show ?thesis
    proof (cases title)
      case True
      then show ?thesis
        using b(3) n1 by auto
    next
      case False
      then show ?thesis
        using 1(1) [OF \<open>i < sse3_5_Length - 256\<close> b(1,2) False _ n1 i1] b(3) by simp
    qed
  next
    case False
    then show ?thesis
      using 1(2,3) by (subst (asm) sse3_5_scan.simps) simp
  qed
qed

text \<open>
  C39. \<^verbatim>\<open>Patcher_SSE3_5\<close> takes the size of its pointer for the length of the kernel: the search for the end of the code
  that it would replace is over before it begins, and the kernel stays as it is, whatever it holds.
\<close>

theorem sse3_5_never_patches: "Patcher_SSE3_5 kd m \<in> {None, Some m}"
proof (cases "sse3_5_scan m kd 256 0")
  case (Some r)
  obtain l1 l2 where r: "r = (l1, l2)"
    by (cases r)
  have "unat (l1 + 1500) \<ge> 8"
    using sse3_5_scan_loc [OF Some [unfolded r]] by simp
  then have "sse3_5_end m kd (l1 + 1500) = Some None"
    by (subst sse3_5_end.simps) (simp add: sse3_5_Length_def word_less_nat_alt)
  then show ?thesis
    using Some r by (simp add: Patcher_SSE3_5_def)
qed (simp add: Patcher_SSE3_5_def)

section \<open>The local APIC\<close>

text \<open>Bytes of the memory that became no-ops do not make a pattern without no-ops match.\<close>

definition more_nops :: "byte list \<Rightarrow> byte list \<Rightarrow> bool" where
  "more_nops m m1 \<longleftrightarrow> length m1 = length m \<and> (\<forall>i < length m. m1 ! i = m ! i \<or> m1 ! i = 0x90)"

lemma match_stays_false:
  assumes "more_nops m m1" "0x90 \<notin> snd ` set ps" "bytes_match m base i ps = Some False"
  shows "bytes_match m1 base i ps = Some False"
  using assms(2,3)
proof (induction ps)
  case (Cons x ps)
  obtain k v where x: "x = (k, v)"
    by (cases x)
  let ?q = "base + unat (i + k)"
  have q: "?q < length m" "?q < length m1"
    using Cons.prems(2) assms(1) x by (auto simp: bytes_match_def is8_def bind_eq_Some_conv rd_eq_Some more_nops_def)
  then have "m1 ! ?q = m ! ?q \<or> m1 ! ?q = 0x90"
    using assms(1) by (simp add: more_nops_def)
  then show ?case
    using Cons q x by (auto simp: bytes_match_def is8_def split: if_splits)
qed (simp add: bytes_match_def)

lemma bytes_match_True:
  "bytes_match m base i ps = Some True \<longleftrightarrow> (\<forall>(k, v) \<in> set ps. rd m (base + unat (i + k)) = Some v)"
  by (induction ps) (auto simp: bytes_match_def is8_def bind_eq_Some_conv split: if_splits)

lemma set_bytes_spec:
  assumes "set_bytes base i ps m = Some m1"
  shows "length m1 = length m" "\<forall>q. q \<notin> (\<lambda>x. base + unat (i + fst x)) ` set ps \<longrightarrow> m1 ! q = m ! q"
    "\<forall>q \<in> (\<lambda>x. base + unat (i + fst x)) ` set ps. q < length m \<and> m1 ! q \<in> snd ` set ps"
proof -
  have "length m1 = length m \<and> (\<forall>q. q \<notin> (\<lambda>x. base + unat (i + fst x)) ` set ps \<longrightarrow> m1 ! q = m ! q) \<and>
    (\<forall>q \<in> (\<lambda>x. base + unat (i + fst x)) ` set ps. q < length m \<and> m1 ! q \<in> snd ` set ps)"
    using assms
  proof (induction ps arbitrary: m)
    case (Cons x ps)
    then obtain m2 where m2: "wr m (base + unat (i + fst x)) (snd x) = Some m2" "set_bytes base i ps m2 = Some m1"
      by (auto simp: bind_eq_Some_conv)
    let ?p = "base + unat (i + fst x)"
    note ih = Cons.IH [OF m2(2)]
    have "m1 ! ?p \<in> insert (snd x) (snd ` set ps)"
    proof (cases "?p \<in> (\<lambda>x. base + unat (i + fst x)) ` set ps")
      case True
      then show ?thesis
        using ih by blast
    next
      case False
      then have "m1 ! ?p = m2 ! ?p"
        using ih by blast
      then show ?thesis
        using m2(1) by (simp add: wr_eq_Some)
    qed
    then show ?case
      using ih m2(1) by (auto simp: wr_eq_Some nth_list_update)
  qed simp
  then show "length m1 = length m" "\<forall>q. q \<notin> (\<lambda>x. base + unat (i + fst x)) ` set ps \<longrightarrow> m1 ! q = m ! q"
    "\<forall>q \<in> (\<lambda>x. base + unat (i + fst x)) ` set ps. q < length m \<and> m1 ! q \<in> snd ` set ps"
    by blast+
qed

lemma nops5_set: "snd ` set nops5 = {0x90}" "fst ` set nops5 = {0, 1, 2, 3, 4}"
  by (simp_all add: nops5_def)

lemma more_nops_set:
  assumes "set_bytes base loc nops5 m = Some m1"
  shows "more_nops m m1"
proof -
  have "m1 ! q = m ! q \<or> m1 ! q = 0x90" for q
    using set_bytes_spec(2,3) [OF assms] unfolding nops5_set by blast
  then show ?thesis
    using set_bytes_spec(1) [OF assms] by (simp add: more_nops_def)
qed

lemma nops_there:
  assumes "set_bytes base loc nops5 m = Some m1"
  shows "bytes_match m1 base loc nops5 = Some True"
  unfolding bytes_match_True
proof
  fix x
  assume x: "x \<in> set nops5"
  then have "base + unat (loc + fst x) < length m \<and> m1 ! (base + unat (loc + fst x)) \<in> {0x90}"
    using set_bytes_spec(3) [OF assms] unfolding nops5_set by blast
  moreover have "snd x = 0x90"
    using x nops5_set(1) by blast
  ultimately show "case x of (k, v) \<Rightarrow> rd m1 (base + unat (loc + k)) = Some v"
    using set_bytes_spec(1) [OF assms] by (cases x) (simp add: rd_eq_Some)
qed

text \<open>The patch location is not in the pattern that it was found with.\<close>

definition patch_apart :: "(u32 \<times> byte) list \<times> u32 \<Rightarrow> bool" where
  "patch_apart q \<longleftrightarrow> 0x90 \<notin> snd ` set (fst q) \<and> (\<forall>k \<in> fst ` set (fst q). \<forall>j \<in> {0, 1, 2, 3, 4}. k \<noteq> snd q + j)"

lemma match_stays_true:
  assumes "set_bytes base (i + k) nops5 m = Some m1" "patch_apart (ps, k)" "bytes_match m base i ps = Some True"
  shows "bytes_match m1 base i ps = Some True"
proof -
  have "rd m1 (base + unat (i + c)) = Some v" if "(c, v) \<in> set ps" for c v
  proof -
    have "rd m (base + unat (i + c)) = Some v"
      using assms(3) that by (auto simp: bytes_match_True)
    moreover have "base + unat (i + c) \<notin> (\<lambda>x. base + unat (i + k + fst x)) ` set nops5"
    proof
      assume "base + unat (i + c) \<in> (\<lambda>x. base + unat (i + k + fst x)) ` set nops5"
      then obtain y where y: "y \<in> set nops5" "i + c = i + k + fst y"
        unfolding word_unat_eq_iff by auto
      then have "c = k + fst y" "fst y \<in> fst ` set nops5"
        by (simp_all add: add.assoc)
      with assms(2) that show False
        unfolding nops5_set by (force simp: patch_apart_def)
    qed
    ultimately show ?thesis
      using set_bytes_spec(1,2) [OF assms(1)] by (auto simp: rd_eq_Some)
  qed
  then show ?thesis
    by (auto simp: bytes_match_True)
qed

lemma match_first_None_stays:
  "more_nops m m1 \<Longrightarrow> list_all patch_apart qs \<Longrightarrow> match_first m base qs i = Some None \<Longrightarrow> match_first m1 base qs i = Some None"
  by (induction m base qs i rule: match_first.induct)
    (auto simp: patch_apart_def bind_eq_Some_conv match_stays_false split: if_splits)

lemma match_first_Some_stays:
  "match_first m base qs i = Some (Some loc) \<Longrightarrow> set_bytes base loc nops5 m = Some m1 \<Longrightarrow> list_all patch_apart qs \<Longrightarrow>
    match_first m1 base qs i = Some (Some loc)"
proof (induction m base qs i rule: match_first.induct)
  case (2 m base ps k qs i)
  from 2(2) obtain eq where eq: "bytes_match m base i ps = Some eq"
    "(if eq then Some (Some (i + k)) else match_first m base qs i) = Some (Some loc)"
    by (auto simp: bind_eq_Some_conv)
  show ?case
  proof (cases eq)
    case True
    then show ?thesis
      using eq match_stays_true [of base i k m m1 ps] 2(3,4) by auto
  next
    case False
    then show ?thesis
      using eq 2(1) [OF eq(1) False] 2(3,4) match_stays_false [OF more_nops_set [OF 2(3)], of ps base i] by (simp add: patch_apart_def)
  qed
qed simp

lemma scan_up_stays:
  assumes "\<And>i. f i = Some None \<Longrightarrow> g i = Some None" "\<And>i. f i = Some (Some x) \<Longrightarrow> g i = Some (Some x)"
  shows "scan_up n f i = Some (Some x) \<Longrightarrow> scan_up n g i = Some (Some x)"
proof (induction n arbitrary: i)
  case (Suc n)
  then show ?case
    using assms [of i] by (cases "f i") (auto split: option.splits)
qed simp

lemma lapic_nops_once:
  assumes "scan_up n (match_first m kd qs) i = Some r" "lapic_nops kd r m = Some m1" "list_all patch_apart qs"
  shows "do { r \<leftarrow> scan_up n (match_first m1 kd qs) i; lapic_nops kd r m1 } = Some m1"
proof (cases r)
  case None
  then show ?thesis
    using assms by (auto simp: lapic_nops_def)
next
  case (Some loc)
  show ?thesis
  proof (cases "m1 = m")
    case True
    with assms show ?thesis
      by simp
  next
    case False
    then have w: "loc \<noteq> 0" "set_bytes kd loc nops5 m = Some m1"
      using assms(2) Some by (auto simp: lapic_nops_def bind_eq_Some_conv split: if_splits)
    have "scan_up n (match_first m1 kd qs) i = Some (Some loc)"
    proof (rule scan_up_stays [OF _ _ assms(1) [unfolded Some]])
      show "match_first m kd qs j = Some None \<Longrightarrow> match_first m1 kd qs j = Some None" for j
        by (rule match_first_None_stays [OF more_nops_set [OF w(2)] assms(3)])
      show "match_first m kd qs j = Some (Some loc) \<Longrightarrow> match_first m1 kd qs j = Some (Some loc)" for j
        by (rule match_first_Some_stays [OF _ w(2) assms(3)])
    qed
    then show ?thesis
      using nops_there [OF w(2)] by (simp add: lapic_nops_def)
  qed
qed

lemma lapic_patch_apart:
  "list_all patch_apart [(lapic64_a, 30), (lapic64_b, 31), (lapic64_c, 28)]" "list_all patch_apart [(lapic32, 25)]"
  by (simp_all add: patch_apart_def lapic64_a_def lapic64_b_def lapic64_c_def lapic32_def)

text \<open>
  What is looked for, said without the tables of the code: the instruction that reads the register of the local APIC
  through the segment \<open>GS\<close>, and the same instruction again at a distance from it. The call to be removed is the five
  bytes before the second one.
\<close>

definition bytes_at :: "byte list \<Rightarrow> nat \<Rightarrow> byte list \<Rightarrow> bool" where
  "bytes_at m p xs \<longleftrightarrow> rd_range m p (length xs) = Some xs"

definition lapic_read64 :: "byte \<Rightarrow> byte list" where
  "lapic_read64 off = [0x65, 0x8B, 0x04, 0x25, off, 0, 0, 0]"

definition lapic_read32 :: "byte list" where
  "lapic_read32 = [0x65, 0xA1, 0x0C, 0, 0, 0]"

definition read_twice :: "byte list \<Rightarrow> nat \<Rightarrow> byte list \<Rightarrow> nat \<Rightarrow> bool" where
  "read_twice m p xs d \<longleftrightarrow> bytes_at m p xs \<and> bytes_at m (p + d) xs"

definition site64 :: "byte list \<Rightarrow> nat \<Rightarrow> nat option" where
  "site64 m p =
     (if read_twice m p (lapic_read64 0x14) 35 then Some 35
      else if read_twice m p (lapic_read64 0x1C) 36 then Some 36
      else if read_twice m p (lapic_read64 0x1C) 33 then Some 33 else None)"

definition site32 :: "byte list \<Rightarrow> nat \<Rightarrow> nat option" where
  "site32 m p = (if read_twice m p lapic_read32 30 then Some 30 else None)"

text \<open>The memory after the patch: the call at the first site is five no-ops, and nothing else is changed.\<close>

definition call_removed :: "(byte list \<Rightarrow> nat \<Rightarrow> nat option) \<Rightarrow> nat \<Rightarrow> byte list \<Rightarrow> byte list \<Rightarrow> bool" where
  "call_removed site kd m m1 \<longleftrightarrow>
     (\<forall>i < 0x1000000. site m (kd + i) = None) \<and> m1 = m \<or>
     (\<exists>i < 0x1000000. \<exists>d. site m (kd + i) = Some d \<and> (\<forall>j < i. site m (kd + j) = None) \<and>
        m1 = take (kd + i + d - 5) m @ replicate 5 0x90 @ drop (kd + i + d) m)"

lemma bytes_at_Cons: "bytes_at m p (x # y # xs) \<longleftrightarrow> rd m p = Some x \<and> bytes_at m (Suc p) (y # xs)"
proof (cases "p < length m")
  case True
  then show ?thesis
    by (auto simp: bytes_at_def rd_range_def rd_def Cons_nth_drop_Suc [symmetric])
qed (simp add: bytes_at_def rd_range_def rd_def)

lemma bytes_at_single: "bytes_at m p [x] \<longleftrightarrow> rd m p = Some x"
proof (cases "p < length m")
  case True
  then show ?thesis
    by (auto simp: bytes_at_def rd_range_def rd_def Cons_nth_drop_Suc [symmetric])
qed (simp add: bytes_at_def rd_range_def rd_def)

lemmas bytes_at_list = bytes_at_single bytes_at_Cons

lemma unat_shift: "unat i < 0x1000000 \<Longrightarrow> unat k < 64 \<Longrightarrow> unat (i + k :: u32) = unat i + unat k"
  by (simp add: unat_word_ariths)

lemma lapic_tables:
  assumes "unat i < 0x1000000"
  shows "bytes_match m kd i lapic64_a = Some True \<longleftrightarrow> read_twice m (kd + unat i) (lapic_read64 0x14) 35"
    "bytes_match m kd i lapic64_b = Some True \<longleftrightarrow> read_twice m (kd + unat i) (lapic_read64 0x1C) 36"
    "bytes_match m kd i lapic64_c = Some True \<longleftrightarrow> read_twice m (kd + unat i) (lapic_read64 0x1C) 33"
    "bytes_match m kd i lapic32 = Some True \<longleftrightarrow> read_twice m (kd + unat i) lapic_read32 30"
  unfolding bytes_match_True lapic64_a_def lapic64_b_def lapic64_c_def lapic32_def read_twice_def lapic_read64_def lapic_read32_def
    bytes_at_list
  by (simp_all add: unat_shift [OF assms]) (simp_all add: eval_nat_numeral conj_ac)

lemma match_first_site64:
  assumes "unat i < 0x1000000" "match_first m kd [(lapic64_a, 30), (lapic64_b, 31), (lapic64_c, 28)] i = Some r"
  shows "r = map_option (\<lambda>d. i + of_nat (d - 5)) (site64 m (kd + unat i))"
  using assms(2) by (auto simp: bind_eq_Some_conv site64_def lapic_tables [OF assms(1), symmetric] split: if_splits)

lemma match_first_site32:
  assumes "unat i < 0x1000000" "match_first m kd [(lapic32, 25)] i = Some r"
  shows "r = map_option (\<lambda>d. i + of_nat (d - 5)) (site32 m (kd + unat i))"
  using assms(2) by (auto simp: bind_eq_Some_conv site32_def lapic_tables [OF assms(1), symmetric] split: if_splits)

text \<open>The scan ends at the first index with an answer, or without one at the end.\<close>

lemma scan_up_spec:
  "scan_up n f i = Some r \<Longrightarrow>
    (case r of None \<Rightarrow> \<forall>j < n. f (i + of_nat j) = Some None
     | Some x \<Rightarrow> \<exists>j < n. f (i + of_nat j) = Some (Some x) \<and> (\<forall>k < j. f (i + of_nat k) = Some None))"
proof (induction n arbitrary: i)
  case (Suc n)
  then obtain y where y: "f i = Some y" "(case y of None \<Rightarrow> scan_up n f (i + 1) | Some x \<Rightarrow> Some (Some x)) = Some r"
    by (auto simp: bind_eq_Some_conv)
  have shift: "i + 1 + of_nat j = i + of_nat (Suc j)" for j
    by (simp add: algebra_simps)
  show ?case
  proof (cases y)
    case (Some x)
    then show ?thesis
      using y by (auto intro!: exI [of _ 0])
  next
    case None
    have ih: "case r of None \<Rightarrow> \<forall>j < n. f (i + of_nat (Suc j)) = Some None
     | Some x \<Rightarrow> \<exists>j < n. f (i + of_nat (Suc j)) = Some (Some x) \<and> (\<forall>k < j. f (i + of_nat (Suc k)) = Some None)"
      using Suc.IH [of "i + 1"] y None unfolding shift by simp
    have z: "(\<forall>j < Suc m. f (i + of_nat j) = Some None) \<longleftrightarrow> (\<forall>j < m. f (i + of_nat (Suc j)) = Some None)" for m
      using y(1) None by (auto simp: less_Suc_eq_0_disj simp del: of_nat_Suc)
    show ?thesis
    proof (cases r)
      case None
      then show ?thesis
        using ih z by simp
    next
      case (Some x)
      then obtain j where j: "j < n" "f (i + of_nat (Suc j)) = Some (Some x)" "\<forall>k < j. f (i + of_nat (Suc k)) = Some None"
        using ih by auto
      then have "\<forall>k < Suc j. f (i + of_nat k) = Some None"
        using z by blast
      then show ?thesis
        using Some j(1,2) by (auto intro!: exI [of _ "Suc j"])
    qed
  qed
qed simp

lemma lapic_nops_spec:
  assumes "lapic_nops kd (Some loc) m = Some m1" "loc \<noteq> 0" "unat loc < 0x2000000"
  shows "m1 = take (kd + unat loc) m @ replicate 5 0x90 @ drop (kd + unat loc + 5) m"
proof -
  let ?p = "kd + unat loc"
  have u: "unat (loc + 1) = unat loc + 1" "unat (loc + 2) = unat loc + 2" "unat (loc + 3) = unat loc + 3" "unat (loc + 4) = unat loc + 4"
    using assms(3) by (simp_all add: unat_word_ariths)
  have five: "take ?p xs @ replicate 5 0x90 @ drop (?p + 5) xs = xs"
    if "rd xs ?p = Some 0x90" "rd xs (?p + 1) = Some 0x90" "rd xs (?p + 2) = Some 0x90" "rd xs (?p + 3) = Some 0x90"
      "rd xs (?p + 4) = Some 0x90" for xs :: "byte list"
  proof -
    have "drop ?p xs = replicate 5 0x90 @ drop (?p + 5) xs"
      using that by (auto simp: rd_eq_Some eval_nat_numeral Cons_nth_drop_Suc [symmetric])
    then show ?thesis
      by (metis append_take_drop_id)
  qed
  obtain already where a: "bytes_match m kd loc nops5 = Some already"
    "(if already then Some m else set_bytes kd loc nops5 m) = Some m1"
    using assms(1,2) by (auto simp: lapic_nops_def bind_eq_Some_conv)
  have there: "bytes_match m1 kd loc nops5 = Some True"
    using a nops_there [of kd loc m m1] by (auto split: if_splits)
  then have "m1 = take ?p m1 @ replicate 5 0x90 @ drop (?p + 5) m1"
    using five [of m1] u by (simp add: bytes_match_True nops5_def add.assoc)
  moreover have "take ?p m1 = take ?p m \<and> drop (?p + 5) m1 = drop (?p + 5) m"
  proof (cases already)
    case False
    then have w: "set_bytes kd loc nops5 m = Some m1"
      using a by simp
    have "m1 ! q = m ! q" if "q < ?p \<or> ?p + 5 \<le> q" for q
      using set_bytes_spec(2) [OF w] that u by (auto simp: nops5_def)
    then show ?thesis
      using set_bytes_spec(1) [OF w] by (auto intro!: nth_equalityI)
  qed (use a in simp)
  ultimately show ?thesis
    by metis
qed

lemma call_removedI:
  assumes run: "scan_up 0x1000000 f 0 = Some r" "lapic_nops kd r m = Some m1"
    and f: "\<And>i r. unat i < 0x1000000 \<Longrightarrow> f i = Some r \<Longrightarrow> r = map_option (\<lambda>d. i + of_nat (d - 5)) (site m (kd + unat i))"
    and site: "\<And>p d. site m p = Some d \<Longrightarrow> 5 < d \<and> d < 64"
  shows "call_removed site kd m m1"
proof -
  have u: "unat (of_nat j :: u32) = j" if "j < 0x1000000" for j
    using that by (simp add: unat_small)
  have none: "site m (kd + j) = None" if "j < 0x1000000" "f (of_nat j) = Some None" for j
    using f [OF _ that(2)] that(1) u by fastforce
  show ?thesis
  proof (cases r)
    case None
    then show ?thesis
      using scan_up_spec [OF run(1)] run(2) none by (auto simp: call_removed_def lapic_nops_def)
  next
    case (Some loc)
    then obtain j where j: "j < 0x1000000" "f (of_nat j) = Some (Some loc)" "\<forall>k < j. f (of_nat k) = Some None"
      using scan_up_spec [OF run(1)] by auto
    have "map_option (\<lambda>d. of_nat j + of_nat (d - 5)) (site m (kd + j)) = Some loc"
      using f [OF _ j(2)] j(1) u [OF j(1)] by simp
    then obtain d where d: "site m (kd + j) = Some d" "loc = of_nat j + of_nat (d - 5)"
      by auto
    have "5 < d" "d < 64"
      using site [OF d(1)] by simp_all
    then have loc: "unat loc = j + (d - 5)"
      unfolding d(2) of_nat_add [symmetric] using j(1) by (subst unat_small) simp_all
    then have "loc \<noteq> 0" "unat loc < 0x2000000" "kd + unat loc = kd + j + d - 5" "kd + unat loc + 5 = kd + j + d"
      using site [OF d(1)] j(1) by auto
    then have "m1 = take (kd + j + d - 5) m @ replicate 5 0x90 @ drop (kd + j + d) m"
      using lapic_nops_spec [of kd loc m m1] run(2) Some by simp
    moreover have "\<forall>k < j. site m (kd + k) = None"
      using j(1,3) none by simp
    ultimately show ?thesis
      unfolding call_removed_def using j(1) d(1) by blast
  qed
qed
lemma site_bounds: "site64 m p = Some d \<Longrightarrow> 5 < d \<and> d < 64" "site32 m p = Some d \<Longrightarrow> 5 < d \<and> d < 64"
  by (auto simp: site64_def site32_def split: if_splits)

text \<open>
  C38. The patch of the local APIC removes the call at the first site, and nothing else: of the first 16 MiB of the
  kernel, it takes the first index with two readings of the register in one of the distances, and the five bytes before
  the second reading become no-ops, or, when there is no site, the memory stays as it is. And it is done once: on the patched
  kernel, of both architectures, it finds the same place again and leaves the kernel as it is.
\<close>

theorem lapic_patch_once:
  assumes "KernelLapicPatch_64 kd m = Some m1" "KernelLapicPatch_32 kd m' = Some m1'"
  shows "call_removed site64 kd m m1 \<and> KernelLapicPatch_64 kd m1 = Some m1 \<and>
    call_removed site32 kd m' m1' \<and> KernelLapicPatch_32 kd m1' = Some m1'"
proof -
  from assms obtain r r' where
    r: "scan_up 0x1000000 (match_first m kd [(lapic64_a, 30), (lapic64_b, 31), (lapic64_c, 28)]) 0 = Some r" "lapic_nops kd r m = Some m1"
    and r': "scan_up 0x1000000 (match_first m' kd [(lapic32, 25)]) 0 = Some r'" "lapic_nops kd r' m' = Some m1'"
    unfolding KernelLapicPatch_64_def KernelLapicPatch_32_def bind_eq_Some_conv by blast
  have "call_removed site64 kd m m1"
    by (rule call_removedI [OF r match_first_site64 site_bounds(1)])
  moreover have "call_removed site32 kd m' m1'"
    by (rule call_removedI [OF r' match_first_site32 site_bounds(2)])
  ultimately show ?thesis
    using lapic_nops_once [OF r lapic_patch_apart(1)] lapic_nops_once [OF r' lapic_patch_apart(2)]
    unfolding KernelLapicPatch_64_def KernelLapicPatch_32_def by blast
qed


text \<open>The call is between two readings of a register.\<close>

definition demo_call64 :: "byte list \<Rightarrow> byte list" where
  "demo_call64 c = [0x65, 0x8B, 4, 0x25, 0x14, 0, 0, 0] @ replicate 22 0 @ c @ [0x65, 0x8B, 4, 0x25, 0x14, 0, 0, 0]"

definition demo_call32 :: "byte list \<Rightarrow> byte list" where
  "demo_call32 c = [0x65, 0xA1, 0x0C, 0, 0, 0] @ replicate 19 0 @ c @ [0x65, 0xA1, 0x0C, 0, 0, 0]"

lemma scan_up_first: "f i = Some (Some x) \<Longrightarrow> 0 < n \<Longrightarrow> scan_up n f i = Some (Some x)"
  by (cases n) simp_all

lemma demo_call_found:
  "match_first (demo_call64 [0xE8, 1, 2, 3, 4]) 0 [(lapic64_a, 30), (lapic64_b, 31), (lapic64_c, 28)] 0 = Some (Some 30)"
  "match_first (demo_call32 [0xE8, 1, 2, 3, 4]) 0 [(lapic32, 25)] 0 = Some (Some 25)"
  by code_simp+

lemma demo_call_patched:
  "lapic_nops 0 (Some 30) (demo_call64 [0xE8, 1, 2, 3, 4]) = Some (demo_call64 (replicate 5 0x90))"
  "lapic_nops 0 (Some 25) (demo_call32 [0xE8, 1, 2, 3, 4]) = Some (demo_call32 (replicate 5 0x90))"
  by code_simp+

lemma demo_lapic:
  "KernelLapicPatch_64 0 (demo_call64 [0xE8, 1, 2, 3, 4]) = Some (demo_call64 (replicate 5 0x90))"
  "KernelLapicPatch_32 0 (demo_call32 [0xE8, 1, 2, 3, 4]) = Some (demo_call32 (replicate 5 0x90))"
  by (simp_all only: KernelLapicPatch_64_def KernelLapicPatch_32_def demo_call_found demo_call_patched scan_up_first
      zero_less_numeral Option.bind.simps)

lemma lapic_patch_once_witness:
  "call_removed site64 0 (demo_call64 [0xE8, 1, 2, 3, 4]) (demo_call64 (replicate 5 0x90)) \<and>
   KernelLapicPatch_64 0 (demo_call64 (replicate 5 0x90)) = Some (demo_call64 (replicate 5 0x90)) \<and>
   call_removed site32 0 (demo_call32 [0xE8, 1, 2, 3, 4]) (demo_call32 (replicate 5 0x90)) \<and>
   KernelLapicPatch_32 0 (demo_call32 (replicate 5 0x90)) = Some (demo_call32 (replicate 5 0x90))"
  using lapic_patch_once [OF demo_lapic] by blast

end
