(* ===== verification/PatchConfig.thy ===== *)
theory PatchConfig
  imports PlistTree KernelPatch
begin

text \<open>
  The patches of the kernel in the configuration: how \<^verbatim>\<open>GetUserSettings\<close> of \<^verbatim>\<open>BdsDxe/macosx/Utils.c\<close> reads the array
  \<open>KernelPatches\<close> of the property list, with \<^verbatim>\<open>GetDataSetting\<close> and \<^verbatim>\<open>hex2bin\<close>, and how
  \<^verbatim>\<open>KernelAndKextsPatcherStart\<close> then applies them. A patch whose halves have different lengths is kept with an empty
  pattern, and applying it never ends.
\<close>

section \<open>Settings\<close>

text \<open>
  The services used: the pool by the size of a request, the bytes that a new block happens to hold (as many as
  requested), and \<^verbatim>\<open>AsciiStrHexToUintn\<close>.
\<close>

record cfg_env =
  ce_pool :: "nat \<Rightarrow> bool"
  ce_junk :: "nat \<Rightarrow> byte list"
  ce_hex :: "byte list \<Rightarrow> u64"

definition IsHexDigit :: "byte \<Rightarrow> bool" where
  "IsHexDigit c \<longleftrightarrow> 0x30 \<le> c \<and> c \<le> 0x39 \<or> 0x41 \<le> c \<and> c \<le> 0x46 \<or> 0x61 \<le> c \<and> c \<le> 0x66"

text \<open>The loop of \<^verbatim>\<open>hex2bin\<close>: the number of bytes written, and the output.\<close>

primrec hex_pairs :: "(byte list \<Rightarrow> u64) \<Rightarrow> nat \<Rightarrow> byte list \<Rightarrow> nat \<Rightarrow> nat \<Rightarrow> byte list \<Rightarrow> (nat \<times> byte list) option" where
  "hex_pairs hexval 0 hex p i bin = Some (i, bin)"
| "hex_pairs hexval (Suc k) hex p i bin =
     (let p = p + length (takeWhile (\<lambda>c. c = 0x20 \<or> c = 0x2c) (drop p hex)) in
      do {
        c \<leftarrow> rd hex p;
        if c = 0 then Some (i, bin)
        else if \<not> IsHexDigit c then Some (0, bin)
        else do {
          d \<leftarrow> rd hex (p + 1);
          if \<not> IsHexDigit d then Some (0, bin)
          else do {
            bin \<leftarrow> wr bin i (ucast (hexval [c, d]));
            hex_pairs hexval k hex (p + 2) (i + 1) bin } } })"

text \<open>The length is signed, and twice the length is taken in 32 bits.\<close>

definition hex2bin ::
  "(byte list \<Rightarrow> u64) \<Rightarrow> byte list option \<Rightarrow> byte list option \<Rightarrow> u32 \<Rightarrow> (nat \<times> byte list option) option"
where
  "hex2bin hexval hex bin len =
     (case hex of
        None \<Rightarrow> Some (0, bin)
      | Some s \<Rightarrow>
          (case bin of
             None \<Rightarrow> Some (0, bin)
           | Some b \<Rightarrow>
               if len = 0 \<or> sint len < 0 then Some (0, bin)
               else do {
                 str \<leftarrow> cstr s 0;
                 if (of_nat (length str) :: u32) \<noteq> len * 2 then Some (0, bin)
                 else do {
                   (n, b) \<leftarrow> hex_pairs hexval (unat len) s 0 0 b;
                   Some (n, Some b) } }))"

text \<open>The result is the block, or NULL, and \<^verbatim>\<open>*dataLen\<close>, which a block that cannot be allocated does not change.\<close>

definition GetDataSetting :: "cfg_env \<Rightarrow> plheap \<Rightarrow> ptr \<Rightarrow> byte list \<Rightarrow> (byte list option \<times> nat) option" where
  "GetDataSetting env h dict propName =
     do {
       prop \<leftarrow> plDictFind h dict (Some propName) (length propName) plKindAny;
       if prop = None then Some (None, 0)
       else do {
         k \<leftarrow> plNodeGetKind h prop;
         (case k of
            plKindData \<Rightarrow> do {
              len \<leftarrow> plNodeGetSize h prop;
              bytes \<leftarrow> plNodeGetBytes h prop;
              src \<leftarrow> bytes;
              if ce_pool env len then do { data \<leftarrow> rd_range src 0 len; Some (Some data, len) } else Some (None, len) }
          | plKindString \<Rightarrow> do {
              sz \<leftarrow> plNodeGetSize h prop;
              bytes \<leftarrow> plNodeGetBytes h prop;
              let data = (if ce_pool env (sz div 2) then Some (ce_junk env (sz div 2)) else None);
              (len, data) \<leftarrow> hex2bin (ce_hex env) bytes data (of_nat (sz div 2));
              Some (data, len) }
          | _ \<Rightarrow> Some (None, 0)) } }"

section \<open>The patches of the kernel\<close>

text \<open>
  The entries from the list of indices, and whether one of them is complete. The pattern is what \<^verbatim>\<open>AnyKernelDataLen\<close>
  leaves of the data: none of them when the lengths differ, while the pointer stays.
\<close>

primrec load_kernel_patches :: "cfg_env \<Rightarrow> plheap \<Rightarrow> ptr \<Rightarrow> nat list \<Rightarrow> (kernel_patch list \<times> bool) option" where
  "load_kernel_patches env h array [] = Some ([], False)"
| "load_kernel_patches env h array (i # is) =
     do {
       dict \<leftarrow> plNodeGetItem h array i;
       (data, dataLen) \<leftarrow> GetDataSetting env h dict (lit ''Find'');
       (patch, len) \<leftarrow> GetDataSetting env h dict (lit ''Replace'');
       let bad = (dataLen \<noteq> len \<or> len = 0);
       let dataLen = (if bad then 0 else dataLen);
       (ks, needed) \<leftarrow> load_kernel_patches env h array is;
       Some (\<lparr>AnyKernelData = map_option (take dataLen) data,
              AnyKernelPatchBytes = (case patch of None \<Rightarrow> [] | Some p \<Rightarrow> p)\<rparr> # ks, \<not> bad \<or> needed) }"

text \<open>More than 100 entries are not loaded.\<close>

definition kernel_patch_settings :: "cfg_env \<Rightarrow> plheap \<Rightarrow> ptr \<Rightarrow> (kernel_patch list \<times> bool) option" where
  "kernel_patch_settings env h config =
     do {
       array \<leftarrow> plDictFind h config (Some (lit ''KernelPatches'')) 13 plKindArray;
       if array = None then Some ([], False)
       else do {
         n \<leftarrow> plNodeGetSize h array;
         if n \<le> 100 then load_kernel_patches env h array [0 ..< n] else Some ([], False) } }"

definition start_kernel_patches :: "nat \<Rightarrow> kernel_patch list \<times> bool \<Rightarrow> byte list \<Rightarrow> byte list option" where
  "start_kernel_patches kd settings m = (if snd settings then AnyKernelPatch kd (fst settings) m else Some m)"

section \<open>One turn of the loop of a replacement\<close>

text \<open>
  \<open>replace_from\<close> turn by turn: \<open>Some None\<close> when the loop is left, \<open>Some\<close> the next state when it goes on, and \<open>None\<close> only
  when memory that is not there is accessed. So a loop without an end can be told from a fault.
\<close>

type_synonym replace_state = "byte list \<times> nat \<times> int \<times> nat"

definition replace_round ::
  "nat \<Rightarrow> byte list \<Rightarrow> byte list \<Rightarrow> bool \<Rightarrow> replace_state \<Rightarrow> replace_state option option"
where
  "replace_round e pat repl unlimited s =
     (case s of (m, p, left, k) \<Rightarrow>
        if p \<le> e \<and> (unlimited \<or> left > 0) then do {
          eq \<leftarrow> mem_eq m p pat;
          if eq then do {
            new \<leftarrow> rd_range repl 0 (length pat);
            m1 \<leftarrow> wr_range m p new;
            Some (Some (m1, p + length pat, left - 1, k + 1)) }
          else Some (Some (m, p + 1, left, k)) }
        else Some None)"

primrec replace_rounds ::
  "nat \<Rightarrow> nat \<Rightarrow> byte list \<Rightarrow> byte list \<Rightarrow> bool \<Rightarrow> replace_state \<Rightarrow> replace_state option option"
where
  "replace_rounds 0 e pat repl unlimited s = Some (Some s)"
| "replace_rounds (Suc n) e pat repl unlimited s =
     do {
       r \<leftarrow> replace_round e pat repl unlimited s;
       (case r of None \<Rightarrow> Some None | Some s \<Rightarrow> replace_rounds n e pat repl unlimited s) }"

lemma replace_from_round:
  "replace_from m p e pat repl unlimited left k =
     do {
       r \<leftarrow> replace_round e pat repl unlimited (m, p, left, k);
       (case r of None \<Rightarrow> Some (k, m) | Some (m, p, left, k) \<Rightarrow> replace_from m p e pat repl unlimited left k) }"
  by (subst replace_from.simps) (cases "mem_eq m p pat"; auto simp: replace_round_def)

text \<open>After a number of turns, what is left of the loop gives the same.\<close>

lemma replace_rounds_from:
  "replace_rounds n e pat repl unlimited (m, p, left, k) = Some (Some (m1, p1, left1, k1)) \<Longrightarrow>
   replace_from m p e pat repl unlimited left k = replace_from m1 p1 e pat repl unlimited left1 k1"
proof (induction n arbitrary: m p left k)
  case (Suc n)
  then obtain m2 p2 l2 k2 where s: "replace_round e pat repl unlimited (m, p, left, k) = Some (Some (m2, p2, l2, k2))"
    "replace_rounds n e pat repl unlimited (m2, p2, l2, k2) = Some (Some (m1, p1, left1, k1))"
    by (auto simp: bind_eq_Some_conv split: option.splits)
  then show ?case
    using Suc.IH [OF s(2)] by (subst replace_from_round) simp
qed simp

lemma empty_pattern_runs:
  "p \<le> e \<Longrightarrow> p \<le> length m \<Longrightarrow>
   replace_rounds n e [] repl True (m, p, left, k) = Some (Some (m, p, left - int n, k + n))"
proof (induction n arbitrary: left k)
  case (Suc n)
  have "replace_round e [] repl True (m, p, left, k) = Some (Some (m, p, left - 1, k + 1))"
    using Suc.prems by (simp add: replace_round_def mem_eq_def rd_range_def wr_range_def)
  then show ?case
    using Suc.IH [OF Suc.prems, of "left - 1" "k + 1"] by simp
qed simp

section \<open>The settings of a property list\<close>

text \<open>What the functions read from a tree, in terms of its value.\<close>

lemma find_in_dict:
  assumes "rep (nodes h) t" "val_of t = PDict es" "key \<noteq> []" "dict_first es key = Some v" "knd = plKindAny \<or> plist_kind v = knd"
  shows "\<exists>vt. plDictFind h (Some (pt_addr t)) (Some key) (length key) knd = Some (Some (pt_addr vt)) \<and>
    rep (nodes h) vt \<and> val_of vt = v"
proof -
  obtain a n ks where t: "t = PT a n ks"
    by (cases t)
  have k: "kind n = plKindDict" "map val_of ks = es" "\<forall>k \<in> set ks. rep (nodes h) k"
    using assms(1,2) t by (auto split: plkind.splits list.splits)
  obtain vt where vt: "tree_first ks key = Some vt" "val_of vt = v"
    using tree_first_val [of ks key] k(2) assms(4) by auto
  have r: "rep (nodes h) vt"
    by (rule tree_first_rep [OF vt(1) k(3)])
  have "plDictFind h (Some a) (Some key) (length key) knd = Some (Some (pt_addr vt))"
    using plDictFind_tree [OF assms(1) [unfolded t] k(1) assms(3), of knd] vt assms(5) plist_kind_val_of [OF r] by auto
  then show ?thesis
    using t r vt(2) by auto
qed

lemma read_data:
  assumes "rep (nodes h) t" "val_of t = PData d"
  shows "plNodeGetKind h (Some (pt_addr t)) = Some plKindData" "plNodeGetSize h (Some (pt_addr t)) = Some (length d)"
    "\<exists>x. plNodeGetBytes h (Some (pt_addr t)) = Some (Some x) \<and> rd_range x 0 (length d) = Some d"
proof -
  obtain a n ks where t: "t = PT a n ks"
    by (cases t)
  have n: "nodes h a = Some n" "kind n = plKindData" "data_ok n" "data_of n = d"
    using assms t by (auto simp: links_def split: plkind.splits list.splits)
  then obtain x where x: "datval n = Some x" "length x = Suc (datlen n)" "take (datlen n) x = d"
    by (auto simp: data_ok_def data_of_def split: option.splits)
  then show "plNodeGetKind h (Some (pt_addr t)) = Some plKindData" "plNodeGetSize h (Some (pt_addr t)) = Some (length d)"
    "\<exists>x. plNodeGetBytes h (Some (pt_addr t)) = Some (Some x) \<and> rd_range x 0 (length d) = Some d"
    using n t by (auto simp: plNodeGetKind_def plNodeGetSize_def plNodeGetBytes_def rd_range_def)
qed

lemma read_array:
  assumes "rep (nodes h) t" "val_of t = PArray ps"
  shows "plNodeGetSize h (Some (pt_addr t)) = Some (length ps)"
    "i < length ps \<Longrightarrow> \<exists>vt. plNodeGetItem h (Some (pt_addr t)) i = Some (Some (pt_addr vt)) \<and> rep (nodes h) vt \<and> val_of vt = ps ! i"
proof -
  obtain a n ks where t: "t = PT a n ks"
    by (cases t)
  have n: "nodes h a = Some n" "kind n = plKindArray" "bag_links n ks" "map val_of ks = ps" "\<forall>k \<in> set ks. rep (nodes h) k"
    using assms t by (auto simp: links_def split: plkind.splits list.splits)
  then show "plNodeGetSize h (Some (pt_addr t)) = Some (length ps)"
    using t by (auto simp: plNodeGetSize_def bag_links_def)
  assume "i < length ps"
  then have i: "i < length ks" "val_of (ks ! i) = ps ! i"
    using n(4) by auto
  then show "\<exists>vt. plNodeGetItem h (Some (pt_addr t)) i = Some (Some (pt_addr vt)) \<and> rep (nodes h) vt \<and> val_of vt = ps ! i"
    using bag_item [OF n(1) _ n(3) i(1)] n(2,5) t by auto
qed

lemma GetDataSetting_data:
  assumes "rep (nodes h) t" "val_of t = PDict es" "name \<noteq> []" "dict_first es name = Some (PData d)" "ce_pool env (length d)"
  shows "GetDataSetting env h (Some (pt_addr t)) name = Some (Some d, length d)"
proof -
  obtain vt where vt: "plDictFind h (Some (pt_addr t)) (Some name) (length name) plKindAny = Some (Some (pt_addr vt))"
    "rep (nodes h) vt" "val_of vt = PData d"
    using find_in_dict [OF assms(1-4)] by blast
  obtain x where "plNodeGetBytes h (Some (pt_addr vt)) = Some (Some x)" "rd_range x 0 (length d) = Some d"
    using read_data(3) [OF vt(2,3)] by blast
  then show ?thesis
    using vt(1) read_data(1,2) [OF vt(2,3)] assms(5) by (simp add: GetDataSetting_def)
qed

text \<open>A patch of the configuration as data: its pattern and its replacement.\<close>

fun patch_pair :: "plist \<Rightarrow> (byte list \<times> byte list) option" where
  "patch_pair (PDict es) =
     (case (dict_first es (lit ''Find''), dict_first es (lit ''Replace'')) of
        (Some (PData f), Some (PData r)) \<Rightarrow> Some (f, r)
      | _ \<Rightarrow> None)"
| "patch_pair _ = None"

definition usable :: "byte list \<times> byte list \<Rightarrow> bool" where
  "usable p \<longleftrightarrow> length (fst p) = length (snd p) \<and> snd p \<noteq> []"

definition loaded :: "byte list \<times> byte list \<Rightarrow> kernel_patch" where
  "loaded p = \<lparr>AnyKernelData = Some (if usable p then fst p else []), AnyKernelPatchBytes = snd p\<rparr>"

lemma patch_pair_dict:
  assumes "patch_pair v = Some (f, r)"
  shows "\<exists>es. v = PDict es \<and> dict_first es (lit ''Find'') = Some (PData f) \<and> dict_first es (lit ''Replace'') = Some (PData r)"
  using assms by (cases v) (auto split: option.splits plist.splits)

lemma load_kernel_patches_data:
  assumes "rep (nodes h) t" "val_of t = PArray ps" "map patch_pair ps = map Some prs" "\<And>n. ce_pool env n"
  shows "\<forall>i \<in> set is. i < length prs \<Longrightarrow>
    load_kernel_patches env h (Some (pt_addr t)) is = Some (map (\<lambda>i. loaded (prs ! i)) is, \<exists>i \<in> set is. usable (prs ! i))"
proof (induction "is")
  case (Cons i "is")
  have len: "length ps = length prs"
    using assms(3) by (rule map_eq_imp_length_eq)
  obtain f r where p: "prs ! i = (f, r)"
    by (cases "prs ! i")
  have i: "i < length ps" "patch_pair (ps ! i) = Some (f, r)"
    using Cons.prems len assms(3) p by (simp, metis list.set_intros(1) nth_map)
  obtain vt where vt: "plNodeGetItem h (Some (pt_addr t)) i = Some (Some (pt_addr vt))" "rep (nodes h) vt" "val_of vt = ps ! i"
    using read_array(2) [OF assms(1,2) i(1)] by blast
  obtain es where es: "ps ! i = PDict es" "dict_first es (lit ''Find'') = Some (PData f)" "dict_first es (lit ''Replace'') = Some (PData r)"
    using patch_pair_dict [OF i(2)] by blast
  have "GetDataSetting env h (Some (pt_addr vt)) (lit ''Find'') = Some (Some f, length f)"
    "GetDataSetting env h (Some (pt_addr vt)) (lit ''Replace'') = Some (Some r, length r)"
    using GetDataSetting_data [OF vt(2)] vt(3) es assms(4) by (simp_all add: lit_Cons)
  then show ?case
    using vt(1) Cons p by (auto simp: Let_def loaded_def usable_def)
qed simp

lemma kernel_patch_settings_data:
  assumes "rep (nodes h) t" "val_of t = PDict es" "dict_first es (lit ''KernelPatches'') = Some (PArray ps)"
    and "map patch_pair ps = map Some prs" "length prs \<le> 100" "\<And>n. ce_pool env n"
  shows "kernel_patch_settings env h (Some (pt_addr t)) = Some (map loaded prs, \<exists>p \<in> set prs. usable p)"
proof -
  have len: "length ps = length prs"
    using assms(4) by (rule map_eq_imp_length_eq)
  have nonempty: "lit ''KernelPatches'' \<noteq> []"
    by (simp add: lit_Cons)
  have name: "length (lit ''KernelPatches'') = 13"
    by simp
  obtain vt where vt: "plDictFind h (Some (pt_addr t)) (Some (lit ''KernelPatches'')) 13 plKindArray = Some (Some (pt_addr vt))"
    "rep (nodes h) vt" "val_of vt = PArray ps"
    using find_in_dict [OF assms(1,2) nonempty assms(3), of plKindArray] unfolding name by simp blast
  have "load_kernel_patches env h (Some (pt_addr vt)) [0 ..< length prs] =
      Some (map (\<lambda>i. loaded (prs ! i)) [0 ..< length prs], \<exists>i \<in> set [0 ..< length prs]. usable (prs ! i))"
    by (rule load_kernel_patches_data [OF vt(2,3) assms(4,6)]) simp
  moreover have "map (\<lambda>i. loaded (prs ! i)) [0 ..< length prs] = map loaded prs"
    by (rule nth_equalityI) simp_all
  moreover have "(\<exists>i \<in> set [0 ..< length prs]. usable (prs ! i)) \<longleftrightarrow> (\<exists>p \<in> set prs. usable p)"
    by (metis atLeastLessThan_iff in_set_conv_nth le0 set_upt)
  ultimately show ?thesis
    using vt(1) read_array(1) [OF vt(2,3)] len assms(5) by (simp add: kernel_patch_settings_def)
qed

section \<open>A patch whose halves do not fit\<close>

lemma AnyKernelPatch_append:
  "AnyKernelPatch kd (ks @ ks') m = do { m1 \<leftarrow> AnyKernelPatch kd ks m; AnyKernelPatch kd ks' m1 }"
  by (induction ks arbitrary: m) (simp_all add: Option.bind_assoc)

lemma AnyKernelPatch_length: "AnyKernelPatch kd ks m = Some m1 \<Longrightarrow> length m1 = length m"
  by (induction ks arbitrary: m) (auto simp: bind_eq_Some_conv dest!: SearchAndReplace_length split: option.splits)

text \<open>
  C40. In a configuration with a patch of the kernel whose \<open>Find\<close> and \<open>Replace\<close> have different lengths, beside one that is
  complete, the faulty patch is kept with an empty pattern and the patches are applied. As soon as it is its turn, the loop of
  \<^verbatim>\<open>SearchAndReplace\<close> runs for ever: after every number of turns it has not faulted and has not ended, stands where it
  started and has the same memory. So the patches never return, wherever in the memory the kernel is.
\<close>

theorem kernel_patch_mismatch_hangs:
  assumes "rep (nodes h) t" "val_of t = PDict es" "dict_first es (lit ''KernelPatches'') = Some (PArray ps)"
    and "map patch_pair ps = map Some prs" "length prs \<le> 100" "\<And>n. ce_pool env n"
    and "i < length prs" "prs ! i = (f, r)" "length f \<noteq> length r" "p \<in> set prs" "usable p"
    and "AnyKernelPatch kd (map loaded (take i prs)) m = Some m1" "kd \<le> length m" "kd + unat KERNEL_MAX_SIZE < 2 ^ 64"
  shows "kernel_patch_settings env h (Some (pt_addr t)) = Some (map loaded prs, True) \<and>
    AnyKernelData (map loaded prs ! i) = Some [] \<and>
    (\<forall>n. replace_rounds n (search_end kd KERNEL_MAX_SIZE 0) [] r True (m1, kd, - 1, 0) = Some (Some (m1, kd, - 1 - int n, n))) \<and>
    start_kernel_patches kd (map loaded prs, True) m = None"
proof -
  have data: "loaded (prs ! i) = \<lparr>AnyKernelData = Some [], AnyKernelPatchBytes = r\<rparr>"
    using assms(8,9) by (simp add: loaded_def usable_def)
  have settings: "kernel_patch_settings env h (Some (pt_addr t)) = Some (map loaded prs, True)"
    using kernel_patch_settings_data [OF assms(1-6)] assms(10,11) by auto
  have e: "search_end kd KERNEL_MAX_SIZE 0 = kd + unat KERNEL_MAX_SIZE"
    using assms(14) by (simp add: search_end_eq)
  have rounds: "replace_rounds n (search_end kd KERNEL_MAX_SIZE 0) [] r True (m1, kd, - 1, 0) = Some (Some (m1, kd, - 1 - int n, n))" for n
    using empty_pattern_runs [of kd "search_end kd KERNEL_MAX_SIZE 0" m1 n r "- 1" 0] AnyKernelPatch_length [OF assms(12)] assms(13)
    by (simp add: e)
  have "SearchAndReplace m1 kd KERNEL_MAX_SIZE [] r (- 1) = None"
    by (simp add: SearchAndReplace_def e replace_empty_hangs)
  moreover have "map loaded prs = map loaded (take i prs) @ loaded (prs ! i) # map loaded (drop (Suc i) prs)"
    using id_take_nth_drop [OF assms(7)] by (metis list.simps(9) map_append)
  ultimately have "AnyKernelPatch kd (map loaded prs) m = None"
    using assms(12) data by (simp add: AnyKernelPatch_append)
  then show ?thesis
    using settings rounds data assms(7) by (simp add: start_kernel_patches_def)
qed

text \<open>A configuration with two patches, of which the first is faulty.\<close>

definition cfg_bag :: "plkind \<Rightarrow> nat \<Rightarrow> ptree list \<Rightarrow> ptree" where
  "cfg_bag k a ks = PT a ((new_node k)\<lparr>amap := map (\<lambda>t. Some (pt_addr t)) ks, acap := length ks, asiz := length ks, refcnt := 1\<rparr>) ks"

definition cfg_key :: "nat \<Rightarrow> byte list \<Rightarrow> ptree \<Rightarrow> ptree" where
  "cfg_key a k t = PT a ((new_node plKindKey)\<lparr>datval := Some (k @ [0]), datlen := length k, keyval := Some (pt_addr t), refcnt := 1\<rparr>) [t]"

definition cfg_data :: "nat \<Rightarrow> byte list \<Rightarrow> ptree" where
  "cfg_data a d = PT a ((new_node plKindData)\<lparr>datval := Some (d @ [0]), datlen := length d, refcnt := 1\<rparr>) []"

definition cfg_patch :: "nat \<Rightarrow> byte list \<Rightarrow> byte list \<Rightarrow> ptree" where
  "cfg_patch a f r = cfg_bag plKindDict a
     [cfg_key (a + 1) (lit ''Find'') (cfg_data (a + 2) f), cfg_key (a + 3) (lit ''Replace'') (cfg_data (a + 4) r)]"

definition cfg_tree :: ptree where
  "cfg_tree = cfg_bag plKindDict 0
     [cfg_key 1 (lit ''KernelPatches'') (cfg_bag plKindArray 2 [cfg_patch 10 [1, 2] [3], cfg_patch 20 [1] [3]])]"

fun tree_nodes :: "ptree \<Rightarrow> (nat \<times> plnode) list" where
  "tree_nodes (PT a n ks) = (a, n) # concat (map tree_nodes ks)"

definition cfg_heap :: plheap where
  "cfg_heap = \<lparr>nodes = map_of (tree_nodes cfg_tree), fresh = 30\<rparr>"

definition cfg_value :: "byte list \<Rightarrow> byte list \<Rightarrow> plist" where
  "cfg_value f r = PDict [PKey (lit ''Find'') (Some (PData f)), PKey (lit ''Replace'') (Some (PData r))]"

lemma cfg_tree_facts:
  "rep (nodes cfg_heap) cfg_tree"
  "val_of cfg_tree = PDict [PKey (lit ''KernelPatches'') (Some (PArray [cfg_value [1, 2] [3], cfg_value [1] [3]]))]"
  by (simp_all add: cfg_heap_def cfg_tree_def cfg_patch_def cfg_bag_def cfg_key_def cfg_data_def cfg_value_def new_node_def
      links_def bag_links_def no_map_def data_ok_def data_of_def)

lemma cfg_pairs: "map patch_pair [cfg_value [1, 2] [3], cfg_value [1] [3]] = map Some [([1, 2], [3]), ([1], [3])]"
  by (simp add: cfg_value_def lit_Cons)

lemma kernel_patch_mismatch_hangs_witness:
  "kernel_patch_settings \<lparr>ce_pool = (\<lambda>_. True), ce_junk = (\<lambda>n. replicate n 0), ce_hex = (\<lambda>_. 0)\<rparr> cfg_heap (Some 0) =
     Some ([\<lparr>AnyKernelData = Some [], AnyKernelPatchBytes = [3]\<rparr>, \<lparr>AnyKernelData = Some [1], AnyKernelPatchBytes = [3]\<rparr>], True) \<and>
   (\<forall>n. replace_rounds n (search_end 1 KERNEL_MAX_SIZE 0) [] [3] True ([0, 1, 2], 1, - 1, 0) =
     Some (Some ([0, 1, 2], 1, - 1 - int n, n))) \<and>
   start_kernel_patches 1 ([\<lparr>AnyKernelData = Some [], AnyKernelPatchBytes = [3]\<rparr>,
     \<lparr>AnyKernelData = Some [1], AnyKernelPatchBytes = [3]\<rparr>], True) [0, 1, 2] = None"
proof -
  let ?env = "\<lparr>ce_pool = (\<lambda>_. True), ce_junk = (\<lambda>n. replicate n 0), ce_hex = (\<lambda>_. 0)\<rparr>"
  have "dict_first [PKey (lit ''KernelPatches'') (Some (PArray [cfg_value [1, 2] [3], cfg_value [1] [3]]))] (lit ''KernelPatches'') =
      Some (PArray [cfg_value [1, 2] [3], cfg_value [1] [3]])"
    by simp
  note hangs = kernel_patch_mismatch_hangs [OF cfg_tree_facts this cfg_pairs, of ?env 0 "[1, 2]" "[3]" "([1], [3])" 1 "[0, 1, 2]" "[0, 1, 2]"]
  have "pt_addr cfg_tree = 0" "usable ([1 :: byte], [3])" "\<not> usable ([1 :: byte, 2], [3])"
    by (simp_all add: cfg_tree_def cfg_bag_def usable_def)
  then show ?thesis
    using hangs by (simp add: loaded_def KERNEL_MAX_SIZE_def)
qed

end
