(* ===== verification/Spec2Isabelle.thy ===== *)
theory Spec2Isabelle
  imports Prelude Base64 PlistNode PlistTree PlistXmlOut PlistParse PlistGrow PlistParseFacts PlistTotal PlistRoundTrip PartDisk PartInstall Mbr Gpt GptFacts Apple ElTorito DiscFacts PartDriver PartAsync UsbMemFacts DeviceTreeFacts PngFacts UsbDescFacts UsbBusFacts MassFacts KextFacts KernelFacts PatchConfig
begin

text \<open>
  A verification library for \<^bold>\<open>bareBoot\<close>, a boot loader for computers with a legacy BIOS that starts an
  EFI environment (DXE drivers) and boots OS X from it. The code is C on top of EDK2; EDK2's own
  headers and libraries are not in the repository.

  \<^bold>\<open>Parts and theories.\<close>

  \<^item> \<open>Prelude\<close>: machine integers, checked memory accesses, C strings, multi-byte fields, the locale
    \<open>codec\<close>.

  \<^item> The property-list library \<^verbatim>\<open>Library/PListLib\<close>, by which the loader reads its configuration and the
    OS X version files. \<open>Base64\<close>: \<^verbatim>\<open>b64/cencode.c\<close>, \<^verbatim>\<open>b64/cdecode.c\<close> and their wrappers. \<open>PlistNode\<close>:
    the nodes of \<^verbatim>\<open>plist_internal.c\<close> in an explicit heap; \<open>PlistTree\<close>: their abstract property lists.
    \<open>PlistXmlOut\<close>: the serialiser \<^verbatim>\<open>plist_xml_out.c\<close>. \<open>PlistParse\<close>: the in-place parser
    \<^verbatim>\<open>plist_xml_parser.c\<close> with its symbol table; \<open>PlistGrow\<close>: from tags to nodes. \<open>PlistParseFacts\<close>:
    the symbol table through a parse; \<open>PlistTotal\<close>: the texts on which the parser returns; \<open>PlistRoundTrip\<close>: what the
    parts do together.

  \<^item> The partition driver \<^verbatim>\<open>PartitionDxe\<close>. \<open>PartDisk\<close>, \<open>PartInstall\<close>: children and their block accesses
    (\<^verbatim>\<open>Partition.c\<close>). \<open>Mbr\<close>, \<open>Gpt\<close> with \<open>GptFacts\<close>, \<open>Apple\<close> and \<open>ElTorito\<close> with \<open>DiscFacts\<close>: the four
    partition schemes. \<open>PartDriver\<close>: the driver binding, which tries the schemes in the order of the
    code's table. \<open>PartAsync\<close>: the non-blocking accesses as a step relation.

  \<^item> The EHCI host controller's memory pool \<^verbatim>\<open>Speedup/Bus/Pci/EhciDxe/UsbHcMem.c\<close>: \<open>UsbMem\<close>, with facts
    in \<open>UsbMemFacts\<close>.

  \<^item> The USB bus driver \<^verbatim>\<open>Speedup/Bus/Usb/UsbBusDxe\<close>. \<open>UsbDesc\<close>: the parser of descriptors (first part of
    \<^verbatim>\<open>UsbDesc.c\<close>), with facts in \<open>UsbDescFacts\<close>. \<open>UsbState\<close>: the structures of \<^verbatim>\<open>UsbBus.h\<close> as records, devices
    and interfaces in heaps, and the wrappers of the host controller (\<^verbatim>\<open>UsbUtility.c\<close>). \<open>UsbRequest\<close>: control
    requests, among them those that read the descriptors. \<open>UsbPath\<close>: the device paths that a caller wants
    (\<^verbatim>\<open>UsbUtility.c\<close>, \<^verbatim>\<open>UsbBus.c\<close>). \<open>UsbHub\<close>: the two tables of hub operations (\<^verbatim>\<open>UsbHub.c\<close>). \<open>UsbEnum\<close>:
    interfaces, removal and enumeration (\<^verbatim>\<open>UsbEnumer.c\<close>). \<open>UsbIo\<close>: the protocol that device drivers call, and the
    driver binding (\<^verbatim>\<open>UsbBus.c\<close>). \<open>UsbFrame\<close>: what each routine leaves alone; \<open>UsbTree\<close>: the tree of devices and its
    removal; \<open>UsbOk\<close>: every operation keeps the tree in order; \<open>UsbBusFacts\<close>: the life of a bus.

  \<^item> The USB mass storage driver \<^verbatim>\<open>Speedup/Bus/Usb/UsbMassStorageDxe\<close>. \<open>MassIo\<close>: the USB I/O protocol that it
    calls, as a record, and its two transports (\<^verbatim>\<open>UsbMassBot.c\<close>, \<^verbatim>\<open>UsbMassCbi.c\<close>). \<open>MassBoot\<close>: the device structure and
    the SCSI commands (\<^verbatim>\<open>UsbMassBoot.c\<close>). \<open>MassImpl\<close>: Block I/O, Disk Info and the driver binding (\<^verbatim>\<open>UsbMassImpl.c\<close>,
    \<^verbatim>\<open>UsbMassDiskInfo.c\<close>). \<open>MassFrame\<close>: what each routine leaves of a unit; \<open>MassReturn\<close>: why requests end; \<open>MassStick\<close>:
    a disk behind the bulk-only transport; \<open>MassFacts\<close>: the properties.

  \<^item> The reader of Apple's flattened device tree \<^verbatim>\<open>BdsDxe/macosx/device_tree.c\<close>, by which the kernel and
    kext patchers find the loaded kexts: \<open>DeviceTree\<close>, with facts in \<open>DeviceTreeFacts\<close>.

  \<^item> The patches that are applied to OS X when the firmware hands over to it (\<^verbatim>\<open>BdsDxe/macosx\<close>). \<open>PatchSearch\<close>: search and
    replace in memory, and \<open>KextPatch\<close>: the kexts of a kernel cache (\<^verbatim>\<open>kext_patcher.c\<close>), with facts in \<open>KextFacts\<close>. \<open>MachO\<close>:
    boot arguments, Mach-O header, sections and functions, and \<open>KernelPatch\<close>: the patches of the kernel, with the
    tables of \<open>PatchTables\<close> (\<^verbatim>\<open>kernel_patcher.c\<close>); facts in \<open>MachOFacts\<close> and \<open>KernelFacts\<close>. \<open>PatchConfig\<close>: how the
    configuration gives the patches of the kernel (\<^verbatim>\<open>GetDataSetting\<close>, \<^verbatim>\<open>hex2bin\<close> and the array \<^verbatim>\<open>KernelPatches\<close> in \<^verbatim>\<open>Utils.c\<close>)
    and how they are applied. The memory is a list of bytes.

  \<^item> The PNG decoder of the boot menu \<^verbatim>\<open>BdsDxe/Graphics/picopng.c\<close>. \<open>PngBuffers\<close>: its list of buffers and its
    vectors; \<open>PngInflate\<close>: the decompressor; \<open>PngImage\<close>: bits, header, filters and interlacing;
    \<open>PngDecode\<close>: chunks, conversion and the whole decoder; facts in \<open>PngFacts\<close>.

  \<^bold>\<open>How the code is modelled.\<close> A definition has the name of its C function (without a leading
  underscore) and is the whole function, early returns and error values included. An outer \<open>None\<close> is
  undefined behaviour: an access out of bounds, a NULL dereference, a division by zero; status codes
  and NULL results are values inside \<open>Some\<close>. Integers whose wrap-around can matter are words of their
  width; \<open>umax\<close>, the largest \<^verbatim>\<open>UINTN\<close>, is an argument where the architecture matters. What comes from
  outside the repository is an argument: the pool allocator, the disk (\<open>disk_io\<close>), the CRC and the
  GUIDs (\<open>gpt_ext\<close>), the PCI buffer services (\<open>pci_env\<close>), the answers of the handle database. The
  layouts of the master boot record, the GUID partition table, the Apple map and the El Torito catalog are
  those of their public specifications, as EDK2's headers give them.

  \<^bold>\<open>Loops and recursion.\<close> A recursion whose depth depends on the data has a fuel argument. The parser needs
  no more than the number of bytes of its text: with more it always gives the same (\<open>PListXMLParse_fuel\<close>), and on texts without
  the constructions on which it faults (\<open>safe_text\<close>) this is a result (\<open>PListXMLParse_terminates\<close>); the serialiser and the
  deletion no more than the depth of the tree; the device tree walks no more than the depth of the
  tree, and the client of its iterators the number of its bytes. The loop over extended boot records
  may never end (\<open>ebr_chain_never_ends\<close>), so \<open>ebr_run\<close> says whether it has returned after some rounds.
  The loops over the Apple map, over the volume descriptors of a disc, and over the chunks, blocks and
  symbols of a PNG file have fuel in the same way. The removal of a USB device calls itself for its children;
  the calls have the size of the table of devices as fuel, which is enough (\<open>usb_remove_terminates\<close>).

  \<^bold>\<open>What the lemmas show.\<close> For the property lists: the coder is its textbook reference and inverts
  itself; the node operations implement an abstract property list and free what they own exactly once;
  the serialiser writes a fixed text or a prefix of it; the parser returns on every text without the
  constructions named in \<open>PlistTotal\<close> and balances its symbol references whenever it returns; what is written is read back. For the partitions: the extents that the schemes install
  are disjoint and on the disk, under the conditions stated; a child is a block device of its own
  (locale \<open>block_dev\<close>); protocol opens and access tasks balance. For the pool: it is a first-fit
  allocator of disjoint regions (locale \<open>region_allocator\<close>). For the device tree: the lookups are those of
  the abstract tree (locale \<open>codec\<close>). For the PNG decoder: the filters of the PNG specification, with the nearest
  neighbour of filter 4 defined apart from the code, and the stored blocks are inverted. For the descriptors of USB: whatever
  the device sends, the parser does not fault and what it built can be freed, but for one case (\<open>stray\<close>): when the chain of
  records leaves a single byte, it reads the byte behind the data.
  For the USB bus: a step relation \<open>usb_step\<close> has a rule for each call from the outside, and in every state that it
  reaches slot and address of the devices agree and their parents form a tree (locale \<open>bus_frame\<close> for the
  routines that do not touch it), so that removing a device removes exactly what is behind it,
  and a stop frees exactly the devices that have a slot.
  For the mass storage driver: on every USB I/O protocol whose transfers return (locale \<open>mass_services\<close>) a request
  returns, and on a device that follows the bulk-only transport (\<open>stick\<close>) the driver finds the disk and refines its blocks
  (locale \<open>disk_unit\<close>, for the commands of 10 and of 16 bytes). The loops on the device's answers are partial functions,
  whose return is a theorem (\<open>usb_mass_requests_return\<close>).
  For the patches of OS X: search and replace refines a substitution on lists, a kext's patches stay inside the kext, the
  look-up of a section refines the one in the abstract load commands, diverted functions jump to their target, the patch of the
  local APIC removes exactly the call before the second reading of the register, once.
  Some theorems state where the code does less than it means to: the
  base64 table read beyond its end, child accesses and partition ends that wrap, unchecked GPT entries,
  the catalog pointer that is not reset, the component buffer that overflows, the image buffer that is replaced
  during a conversion, the structure for a hub descriptor that is too small, the root hub that is freed twice,
  the residue that is not looked at, the loop over 256 units, the context that is freed while units use it, the numbers of a
  kext that are missed, the kernel patch of the
  configuration that hangs the boot.

  For the USB bus driver the answers of devices, the host controller and the handle database are functions in the
  record \<open>usb_env\<close>. A driver that is connected to an interface does not call back into the bus during the call;
  its calls are steps of their own. Task priorities, delays and component names are left out.

  \<^bold>\<open>Not modelled.\<close> The drivers that only move data to and from hardware or the 16-bit BIOS (keyboard,
  video, disk thunks, PCI, the register level of the USB controllers), parts that are vendored from EDK2,
  binaries, assembly and boot sectors, the user interface, and the tables of hardware constants of the
  OS X support. The keyboard queues, the injection of kexts into the device tree
  (\<^verbatim>\<open>kext_inject.c\<close>), \<^verbatim>\<open>KernelAndKextsPatcherStart\<close>, which calls the patches as the configuration says, but for its step for the configured
  kernel patches, the settings of \<^verbatim>\<open>Utils.c\<close> other than these patches, the patches of ACPI tables and the image loaders are not modelled. Debug output and
  \<open>ASSERT\<close>, which does nothing in a release build, are left out everywhere.
\<close>

end
